(* ===== verification/Soroban_Prelude.thy ===== *)
theory Soroban_Prelude
  imports Main "HOL-Library.Signed_Division"
begin

text \<open>
  The part of the Soroban host and of Rust that the contracts under \<^verbatim>\<open>src/\<close> use, shared by every
  component theory:

  \<^item> addresses, the environment of one invocation (who authorised it, the ledger time) and the
    event log;
  \<^item> results: a call either returns a value or traps, and a trap discards the state (the host
    rolls the invocation back), so an error carries no state;
  \<^item> fixed-width integers, as \<^typ>\<open>int\<close> with the range of the Rust type checked at every operation.
    The release profile (\<^verbatim>\<open>src/Cargo.toml\<close>) sets \<^verbatim>\<open>overflow-checks = true\<close>, so a plain
    \<^verbatim>\<open>+\<close>, \<^verbatim>\<open>-\<close> or \<^verbatim>\<open>*\<close> that leaves the range traps;
  \<^item> the sum of a finite balance map;
  \<^item> runs of a contract: a sequence of invocations, where one that traps changes nothing, and the
    locales that lift one-step facts to whole runs.
\<close>

section \<open>Addresses, environments, events\<close>

text \<open>An address is an opaque, totally ordered identifier (the host orders the keys of a Map).\<close>

datatype address = Address (addr_id: nat)

instantiation address :: linorder
begin

definition less_eq_address :: "address \<Rightarrow> address \<Rightarrow> bool" where
  "less_eq_address a b \<longleftrightarrow> addr_id a \<le> addr_id b"

definition less_address :: "address \<Rightarrow> address \<Rightarrow> bool" where
  "less_address a b \<longleftrightarrow> addr_id a < addr_id b"

instance
  by standard (auto simp: less_eq_address_def less_address_def address.expand)

end

text \<open>
  The environment of one invocation. \<^verbatim>\<open>authorized\<close> says for which addresses \<^verbatim>\<open>require_auth\<close>
  succeeds; the ledger's sequence number is a \<^verbatim>\<open>u32\<close> and its timestamp a \<^verbatim>\<open>u64\<close>; \<^verbatim>\<open>min_ttl\<close> is the
  network's lifetime of a new storage entry, in ledgers.
\<close>

record env =
  authorized :: "address \<Rightarrow> bool"
  timestamp :: int
  sequence :: int
  min_ttl :: int
  current_contract :: address

text \<open>A closed environment for the concrete examples: the listed addresses signed.\<close>

definition signed_env :: "address list \<Rightarrow> int \<Rightarrow> env" where
  "signed_env signers seq = \<lparr>authorized = (\<lambda>a. a \<in> set signers), timestamp = 5 * seq, sequence = seq,
     min_ttl = 4096, current_contract = Address 99\<rparr>"

text \<open>Values that events carry, and the event log each contract state extends.\<close>

datatype sc_val =
    VAddr address
  | VInt int
  | VBool bool
  | VStr string
  | VBytes "int list" \<comment> \<open>the bytes as unsigned values\<close>

type_synonym event = "string list \<times> sc_val list"

record host =
  events :: "event list"

definition publish :: "string list \<Rightarrow> sc_val list \<Rightarrow> 'a host_scheme \<Rightarrow> 'a host_scheme" where
  "publish topics data s = s\<lparr>events := events s @ [(topics, data)]\<rparr>"

section \<open>Results\<close>

datatype sc_error =
    Panic string        \<comment> \<open>\<^verbatim>\<open>panic!\<close>, \<^verbatim>\<open>assert!\<close> and \<^verbatim>\<open>expect\<close> with their message\<close>
  | Unauthorized address \<comment> \<open>\<^verbatim>\<open>require_auth\<close> failed\<close>
  | ArithOverflow        \<comment> \<open>a plain operator left the range of its type\<close>
  | UnwrapNone           \<comment> \<open>\<^verbatim>\<open>unwrap\<close> on \<^verbatim>\<open>None\<close>\<close>
  | MissingEntry         \<comment> \<open>a host call on a storage entry that does not exist\<close>
  | ArchivedEntry        \<comment> \<open>access to a persistent entry whose lifetime is over\<close>
  | WrongType            \<comment> \<open>a stored value read at another type\<close>
  | NoContract           \<comment> \<open>a call to an address that hosts no such contract\<close>
  | CallDepth            \<comment> \<open>the host's limit on nested calls\<close>
  | Reentered            \<comment> \<open>the host refuses to enter a contract that is already on the call stack\<close>

type_synonym 'a result = "sc_error + 'a"

abbreviation Ok :: "'a \<Rightarrow> 'a result" where "Ok \<equiv> Inr"
abbreviation Err :: "sc_error \<Rightarrow> 'a result" where "Err \<equiv> Inl"

definition require_auth :: "env \<Rightarrow> address \<Rightarrow> 'a result \<Rightarrow> 'a result" where
  "require_auth e a k = (if authorized e a then k else Err (Unauthorized a))"

text \<open>\<^verbatim>\<open>assert!(b, msg)\<close>, and \<^verbatim>\<open>if b { panic!(msg) }\<close>, followed by the rest of the body.\<close>

definition ensure :: "bool \<Rightarrow> string \<Rightarrow> 'a result \<Rightarrow> 'a result" where
  "ensure b msg k = (if b then k else Err (Panic msg))"

definition panic_if :: "bool \<Rightarrow> string \<Rightarrow> 'a result \<Rightarrow> 'a result" where
  "panic_if b msg k = (if b then Err (Panic msg) else k)"

definition expect :: "'a option \<Rightarrow> string \<Rightarrow> ('a \<Rightarrow> 'b result) \<Rightarrow> 'b result" where
  "expect x msg k = (case x of None \<Rightarrow> Err (Panic msg) | Some v \<Rightarrow> k v)"

definition unwrap :: "'a option \<Rightarrow> ('a \<Rightarrow> 'b result) \<Rightarrow> 'b result" where
  "unwrap x k = (case x of None \<Rightarrow> Err UnwrapNone | Some v \<Rightarrow> k v)"

text \<open>A plain arithmetic operator: traps when the checked operation gives \<^verbatim>\<open>None\<close>.\<close>

definition arith :: "'a option \<Rightarrow> ('a \<Rightarrow> 'b result) \<Rightarrow> 'b result" where
  "arith x k = (case x of None \<Rightarrow> Err ArithOverflow | Some v \<Rightarrow> k v)"

definition and_then :: "'a result \<Rightarrow> ('a \<Rightarrow> 'b result) \<Rightarrow> 'b result" where
  "and_then r k = (case r of Inl x \<Rightarrow> Err x | Inr v \<Rightarrow> k v)"

definition unwrap_or :: "'a option \<Rightarrow> 'a \<Rightarrow> 'a" where
  "unwrap_or x d = (case x of None \<Rightarrow> d | Some v \<Rightarrow> v)"

definition state_of :: "('a \<times> 's) result \<Rightarrow> 's result" where
  "state_of r = map_sum id snd r"

named_theorems result_simps \<open>when the result combinators succeed and when they trap\<close>

lemma require_auth_Ok [result_simps]:
  "require_auth e a k = Ok r \<longleftrightarrow> authorized e a \<and> k = Ok r"
  by (auto simp: require_auth_def)

lemma ensure_Ok [result_simps]: "ensure b msg k = Ok r \<longleftrightarrow> b \<and> k = Ok r"
  by (auto simp: ensure_def)

lemma panic_if_Ok [result_simps]: "panic_if b msg k = Ok r \<longleftrightarrow> \<not> b \<and> k = Ok r"
  by (auto simp: panic_if_def)

lemma expect_Ok [result_simps]: "expect x msg k = Ok r \<longleftrightarrow> (\<exists>v. x = Some v \<and> k v = Ok r)"
  by (auto simp: expect_def split: option.splits)

lemma unwrap_Ok [result_simps]: "unwrap x k = Ok r \<longleftrightarrow> (\<exists>v. x = Some v \<and> k v = Ok r)"
  by (auto simp: unwrap_def split: option.splits)

lemma arith_Ok [result_simps]: "arith x k = Ok r \<longleftrightarrow> (\<exists>v. x = Some v \<and> k v = Ok r)"
  by (auto simp: arith_def split: option.splits)

lemma and_then_Ok [result_simps]: "and_then x k = Ok r \<longleftrightarrow> (\<exists>v. x = Ok v \<and> k v = Ok r)"
  by (auto simp: and_then_def split: sum.splits)

lemma state_of_Ok [result_simps]: "state_of r = Ok s \<longleftrightarrow> (\<exists>v. r = Ok (v, s))"
  by (cases r) (auto simp: state_of_def)

named_theorems err_simps \<open>with which error the result combinators trap\<close>

lemma require_auth_Err [err_simps]:
  "require_auth e a k = Err x \<longleftrightarrow> (if authorized e a then k = Err x else x = Unauthorized a)"
  by (auto simp: require_auth_def)

lemma ensure_Err [err_simps]: "ensure b msg k = Err x \<longleftrightarrow> (if b then k = Err x else x = Panic msg)"
  by (auto simp: ensure_def)

lemma panic_if_Err [err_simps]: "panic_if b msg k = Err x \<longleftrightarrow> (if b then x = Panic msg else k = Err x)"
  by (auto simp: panic_if_def)

lemma expect_Err [err_simps]: "expect y msg k = Err x \<longleftrightarrow> (case y of None \<Rightarrow> x = Panic msg | Some v \<Rightarrow> k v = Err x)"
  by (auto simp: expect_def split: option.splits)

lemma arith_Err [err_simps]: "arith y k = Err x \<longleftrightarrow> (case y of None \<Rightarrow> x = ArithOverflow | Some v \<Rightarrow> k v = Err x)"
  by (auto simp: arith_def split: option.splits)

lemma and_then_Err [err_simps]: "and_then y k = Err x \<longleftrightarrow> y = Err x \<or> (\<exists>v. y = Ok v \<and> k v = Err x)"
  by (auto simp: and_then_def split: sum.splits)

lemma result_eval [simp]:
  "authorized e a \<Longrightarrow> require_auth e a k = k"
  "\<not> authorized e a \<Longrightarrow> require_auth e a k = Err (Unauthorized a)"
  "ensure True msg k = k" "ensure False msg k = Err (Panic msg)"
  "panic_if True msg k = Err (Panic msg)" "panic_if False msg k = k"
  "expect None msg f = Err (Panic msg)" "expect (Some v) msg f = f v"
  "unwrap None f = Err UnwrapNone" "unwrap (Some v) f = f v"
  "arith None f = Err ArithOverflow" "arith (Some v) f = f v"
  "and_then (Ok v) f = f v" "and_then (Err x) f = Err x"
  "unwrap_or None d = d" "unwrap_or (Some v) d = v"
  "state_of (Ok (v, s)) = Ok s" "state_of (Err x) = Err x"
  by (auto simp: require_auth_def ensure_def panic_if_def expect_def unwrap_def arith_def
      and_then_def unwrap_or_def state_of_def)

section \<open>Fixed-width integers\<close>

datatype ity = I128 | I32 | U128 | U64 | U32

fun ity_min :: "ity \<Rightarrow> int" where
  "ity_min I128 = - (2 ^ 127)"
| "ity_min I32 = - (2 ^ 31)"
| "ity_min U128 = 0"
| "ity_min U64 = 0"
| "ity_min U32 = 0"

fun ity_max :: "ity \<Rightarrow> int" where
  "ity_max I128 = 2 ^ 127 - 1"
| "ity_max I32 = 2 ^ 31 - 1"
| "ity_max U128 = 2 ^ 128 - 1"
| "ity_max U64 = 2 ^ 64 - 1"
| "ity_max U32 = 2 ^ 32 - 1"

definition in_range :: "ity \<Rightarrow> int \<Rightarrow> bool" where
  "in_range t x \<longleftrightarrow> ity_min t \<le> x \<and> x \<le> ity_max t"

definition checked :: "ity \<Rightarrow> int \<Rightarrow> int option" where
  "checked t x = (if in_range t x then Some x else None)"

definition checked_add :: "ity \<Rightarrow> int \<Rightarrow> int \<Rightarrow> int option" where
  "checked_add t a b = checked t (a + b)"

definition checked_sub :: "ity \<Rightarrow> int \<Rightarrow> int \<Rightarrow> int option" where
  "checked_sub t a b = checked t (a - b)"

definition checked_mul :: "ity \<Rightarrow> int \<Rightarrow> int \<Rightarrow> int option" where
  "checked_mul t a b = checked t (a * b)"

text \<open>Rust's \<^verbatim>\<open>/\<close> truncates towards zero and traps on a zero divisor and on \<^verbatim>\<open>MIN / -1\<close>.\<close>

definition checked_div :: "ity \<Rightarrow> int \<Rightarrow> int \<Rightarrow> int option" where
  "checked_div t a b = (if b = 0 then None else checked t (a sdiv b))"

definition saturate :: "ity \<Rightarrow> int \<Rightarrow> int" where
  "saturate t x = max (ity_min t) (min (ity_max t) x)"

text \<open>An \<^verbatim>\<open>as\<close> cast keeps the low bits: the value modulo the width of the target.\<close>

definition cast_to :: "ity \<Rightarrow> int \<Rightarrow> int" where
  "cast_to t x = (x - ity_min t) mod (ity_max t - ity_min t + 1) + ity_min t"

named_theorems int_simps \<open>when a checked operation succeeds and what it gives\<close>

lemma checked_Some [int_simps]: "checked t x = Some y \<longleftrightarrow> in_range t x \<and> y = x"
  by (auto simp: checked_def)

lemma checked_None [int_simps]: "checked t x = None \<longleftrightarrow> \<not> in_range t x"
  by (simp add: checked_def)

lemmas checked_ops = checked_add_def checked_sub_def checked_mul_def checked_div_def

declare checked_ops [int_simps]

lemma checked_in_range [simp]: "in_range t x \<Longrightarrow> checked t x = Some x"
  by (simp add: checked_def)

lemma checked_out_of_range [simp]: "\<not> in_range t x \<Longrightarrow> checked t x = None"
  by (simp add: checked_def)

lemma in_range_unsigned:
  "in_range U32 x \<longleftrightarrow> 0 \<le> x \<and> x < 2 ^ 32"
  "in_range U64 x \<longleftrightarrow> 0 \<le> x \<and> x < 2 ^ 64"
  "in_range U128 x \<longleftrightarrow> 0 \<le> x \<and> x < 2 ^ 128"
  by (auto simp: in_range_def)

lemma in_range_zero [simp]: "in_range t 0"
  by (cases t) (auto simp: in_range_def)

lemma in_range_between: "in_range t a \<Longrightarrow> in_range t b \<Longrightarrow> a \<le> x \<Longrightarrow> x \<le> b \<Longrightarrow> in_range t x"
  by (auto simp: in_range_def)

lemma in_range_saturate [simp]: "in_range t (saturate t x)"
  by (cases t) (auto simp: in_range_def saturate_def)

lemma saturate_id: "in_range t x \<Longrightarrow> saturate t x = x"
  by (auto simp: in_range_def saturate_def)

lemma ity_min_le_max: "ity_min t \<le> ity_max t"
  by (cases t) auto

lemma cast_to_id: "in_range t x \<Longrightarrow> cast_to t x = x"
  by (cases t) (simp_all add: in_range_def cast_to_def)

lemma in_range_cast_to [simp]: "in_range t (cast_to t x)"
proof -
  have "0 < ity_max t - ity_min t + 1"
    using ity_min_le_max [of t] by simp
  from pos_mod_sign [OF this] pos_mod_bound [OF this] show ?thesis
    by (simp add: in_range_def cast_to_def) (smt (verit))
qed

lemma sdiv_nonneg_eq: "0 \<le> (a::int) \<Longrightarrow> 0 < b \<Longrightarrow> a sdiv b = a div b"
  by (cases "a = 0") (auto simp: signed_divide_int_def)

lemma zdiv_less_iff:
  fixes a d k :: int
  assumes d: "0 < d"
  shows "a div d < k \<longleftrightarrow> a < k * d"
proof
  have a: "a = a div d * d + a mod d" by simp
  show "a < k * d" if "a div d < k"
  proof -
    have "(a div d + 1) * d \<le> k * d"
      using that d by (intro mult_right_mono) auto
    then have "a div d * d + d \<le> k * d" by (simp add: distrib_right)
    with a pos_mod_bound [OF d, of a] show ?thesis by linarith
  qed
  show "a div d < k" if "a < k * d"
  proof (rule ccontr)
    assume "\<not> ?thesis"
    then have "k * d \<le> a div d * d"
      using d by (intro mult_right_mono) auto
    with a pos_mod_sign [OF d, of a] that show False by linarith
  qed
qed

section \<open>Balance maps and their sum\<close>

text \<open>\<^verbatim>\<open>storage.get(key).unwrap_or(0)\<close> on a map keyed by address.\<close>

definition get0 :: "('k \<rightharpoonup> int) \<Rightarrow> 'k \<Rightarrow> int" where
  "get0 m k = unwrap_or (m k) 0"

definition sum_bal :: "('k \<rightharpoonup> int) \<Rightarrow> int" where
  "sum_bal m = (\<Sum>k\<in>dom m. get0 m k)"

lemma get0_simps [simp]:
  "get0 Map.empty k = 0"
  "get0 (m(k \<mapsto> v)) k' = (if k' = k then v else get0 m k')"
  by (auto simp: get0_def unwrap_or_def)

lemma get0_outside: "k \<notin> dom m \<Longrightarrow> get0 m k = 0"
  by (auto simp: get0_def unwrap_or_def dom_def)

lemma sum_bal_empty [simp]: "sum_bal Map.empty = 0"
  by (simp add: sum_bal_def)

lemma sum_bal_superset: "finite A \<Longrightarrow> dom m \<subseteq> A \<Longrightarrow> sum_bal m = (\<Sum>k\<in>A. get0 m k)"
  unfolding sum_bal_def by (rule sum.mono_neutral_left) (auto intro: get0_outside)

lemma sum_bal_update:
  assumes fin: "finite (dom m)"
  shows "sum_bal (m(k \<mapsto> v)) = sum_bal m - get0 m k + v"
proof -
  let ?A = "insert k (dom m)" and ?m = "m(k \<mapsto> v)"
  have "sum_bal ?m = (\<Sum>j\<in>?A. get0 ?m j)"
    using fin by (intro sum_bal_superset) auto
  moreover have "sum_bal m = (\<Sum>j\<in>?A. get0 m j)"
    using fin by (intro sum_bal_superset) auto
  moreover have "(\<Sum>j\<in>?A. get0 ?m j) = v + (\<Sum>j\<in>dom m - {k}. get0 ?m j)"
    using fin by (subst sum.insert_remove) auto
  moreover have "(\<Sum>j\<in>?A. get0 m j) = get0 m k + (\<Sum>j\<in>dom m - {k}. get0 m j)"
    using fin by (subst sum.insert_remove) auto
  moreover have "(\<Sum>j\<in>dom m - {k}. get0 ?m j) = (\<Sum>j\<in>dom m - {k}. get0 m j)"
    by (rule sum.cong) auto
  ultimately show ?thesis by linarith
qed

lemma sum_bal_nonneg: "(\<And>k. 0 \<le> get0 m k) \<Longrightarrow> 0 \<le> sum_bal m"
  by (auto simp: sum_bal_def intro: sum_nonneg)

lemma get0_le_total_bal:
  assumes "finite (dom m)" and nn: "\<And>k. 0 \<le> get0 m k"
  shows "get0 m k \<le> sum_bal m"
proof (cases "k \<in> dom m")
  case True
  then show ?thesis
    using assms by (auto simp: sum_bal_def intro: member_le_sum)
next
  case False
  then show ?thesis
    using sum_bal_nonneg [OF nn] by (simp add: get0_outside)
qed

lemma get0_pair_le_total:
  assumes fin: "finite (dom m)" and nn: "\<And>k. 0 \<le> get0 m k" and ne: "a \<noteq> b"
  shows "get0 m b + get0 m a \<le> sum_bal m"
proof -
  let ?m = "m(a \<mapsto> 0)"
  have "get0 ?m b \<le> sum_bal ?m"
    using fin nn by (intro get0_le_total_bal) auto
  with ne show ?thesis
    using sum_bal_update [OF fin, of a 0] by simp
qed

section \<open>Runs of a contract\<close>

text \<open>
  A contract is a function \<^verbatim>\<open>exec\<close> from an environment, an entry-point call and a storage state to
  the next state or a trap. A run executes a list of invocations; a trapped one leaves the state.
\<close>

definition commit :: "'s \<Rightarrow> 's result \<Rightarrow> 's" where
  "commit s r = (case r of Inl _ \<Rightarrow> s | Inr s' \<Rightarrow> s')"

lemma commit_simps [simp]: "commit s (Ok s') = s'" "commit s (Err x) = s"
  by (simp_all add: commit_def)

fun run_calls :: "('e \<Rightarrow> 'c \<Rightarrow> 's \<Rightarrow> 's result) \<Rightarrow> ('e \<times> 'c) list \<Rightarrow> 's \<Rightarrow> 's" where
  "run_calls f [] s = s"
| "run_calls f ((e, c) # xs) s = run_calls f xs (commit s (f e c s))"

inductive reach :: "('e \<Rightarrow> 'c \<Rightarrow> 's \<Rightarrow> 's result) \<Rightarrow> 's \<Rightarrow> 's \<Rightarrow> bool" for f where
  reach_refl: "reach f s s"
| reach_step: "reach f s t \<Longrightarrow> f e c t = Ok u \<Longrightarrow> reach f s u"

lemma run_calls_append: "run_calls f (xs @ ys) s = run_calls f ys (run_calls f xs s)"
  by (induction f xs s rule: run_calls.induct) auto

lemma reach_trans: "reach f t u \<Longrightarrow> reach f s t \<Longrightarrow> reach f s u"
  by (induction rule: reach.induct) (auto intro: reach.intros)

lemma reach_one: "f e c s = Ok u \<Longrightarrow> reach f s u"
  by (rule reach_step [OF reach_refl])

lemma run_calls_reach: "reach f s (run_calls f xs s)"
proof (induction f xs s rule: run_calls.induct)
  case (1 f s)
  show ?case by (simp add: reach_refl)
next
  case (2 f e c xs s)
  then show ?case
    by (cases "f e c s") (auto intro: reach_trans reach_one)
qed

lemma reach_run_calls: "reach f s t \<Longrightarrow> \<exists>xs. t = run_calls f xs s"
proof (induction rule: reach.induct)
  case (reach_refl s)
  have "s = run_calls f [] s" by simp
  then show ?case by blast
next
  case (reach_step s t e c u)
  then obtain xs where "t = run_calls f xs s" by blast
  with reach_step.hyps have "u = run_calls f (xs @ [(e, c)]) s"
    by (simp add: run_calls_append)
  then show ?case by blast
qed

text \<open>An invariant kept by every entry point holds in every reachable state.\<close>

locale contract_invariant =
  fixes exec :: "'e \<Rightarrow> 'c \<Rightarrow> 's \<Rightarrow> 's result" and inv :: "'s \<Rightarrow> bool"
  assumes exec_inv: "inv s \<Longrightarrow> exec e c s = Ok s' \<Longrightarrow> inv s'"
begin

lemma reach_inv: "reach exec s t \<Longrightarrow> inv s \<Longrightarrow> inv t"
  by (induction rule: reach.induct) (auto intro: exec_inv)

lemma run_inv: "inv s \<Longrightarrow> inv (run_calls exec xs s)"
  by (rule reach_inv [OF run_calls_reach])

end

text \<open>
  An invariant that holds under a condition on the calls (arguments of their types, no negative amount, no second initialisation):
  it holds after every run of such calls.
\<close>

locale restricted_invariant =
  fixes exec :: "'e \<Rightarrow> 'c \<Rightarrow> 's \<Rightarrow> 's result" and inv :: "'s \<Rightarrow> bool" and allowed :: "'e \<Rightarrow> 'c \<Rightarrow> bool"
  assumes exec_inv: "inv s \<Longrightarrow> allowed e c \<Longrightarrow> exec e c s = Ok s' \<Longrightarrow> inv s'"
begin

lemma run_inv: "inv s \<Longrightarrow> \<forall>(e, c)\<in>set xs. allowed e c \<Longrightarrow> inv (run_calls exec xs s)"
proof (induction xs arbitrary: s)
  case (Cons x xs)
  obtain e c where x: "x = (e, c)" by force
  with Cons.prems have "inv (commit s (exec e c s))"
    by (cases "exec e c s") (auto intro: exec_inv)
  with Cons x show ?case by auto
qed simp

end

text \<open>
  The same with the ledger clock: \<^verbatim>\<open>reach_by f s T t\<close> says that \<open>t\<close> is reached from \<open>s\<close> by calls at
  non-decreasing ledger sequence numbers, none of them after \<open>T\<close>.
\<close>

inductive reach_by :: "(env \<Rightarrow> 'c \<Rightarrow> 's \<Rightarrow> 's result) \<Rightarrow> 's \<Rightarrow> int \<Rightarrow> 's \<Rightarrow> bool" for f s where
  by_start: "reach_by f s T s"
| by_call: "reach_by f s T t \<Longrightarrow> T \<le> sequence e \<Longrightarrow> f e c t = Ok u \<Longrightarrow> reach_by f s (sequence e) u"
| by_wait: "reach_by f s T t \<Longrightarrow> T \<le> T' \<Longrightarrow> reach_by f s T' t"

lemma reach_by_reach: "reach_by f s T t \<Longrightarrow> reach f s t"
  by (induction rule: reach_by.induct) (auto intro: reach.intros)

lemma run_calls_reach_by:
  "sorted (map (sequence \<circ> fst) xs) \<Longrightarrow> \<forall>x \<in> set xs. sequence (fst x) \<le> T
   \<Longrightarrow> reach_by f s T (run_calls f xs s)"
proof (induction xs arbitrary: T rule: rev_induct)
  case Nil
  show ?case by (simp add: by_start)
next
  case (snoc x xs)
  obtain e c where x: "x = (e, c)" by force
  let ?t = "run_calls f xs s"
  have prev: "reach_by f s (sequence e) ?t"
    using snoc x by (auto simp: sorted_append)
  have "reach_by f s (sequence e) (commit ?t (f e c ?t))"
    by (cases "f e c ?t") (auto intro: prev by_call [OF prev order_refl])
  with snoc.prems x show ?case
    by (auto simp: run_calls_append intro: by_wait)
qed

locale timed_invariant =
  fixes exec :: "env \<Rightarrow> 'c \<Rightarrow> 's \<Rightarrow> 's result" and inv :: "int \<Rightarrow> 's \<Rightarrow> bool"
  assumes inv_wait: "inv T s \<Longrightarrow> T \<le> T' \<Longrightarrow> inv T' s"
    and inv_call: "inv T s \<Longrightarrow> T \<le> sequence e \<Longrightarrow> exec e c s = Ok s' \<Longrightarrow> inv (sequence e) s'"
begin

lemma reach_by_inv: "reach_by exec s T t \<Longrightarrow> (\<And>T. inv T s) \<Longrightarrow> inv T t"
  by (induction rule: reach_by.induct) (auto intro: inv_wait inv_call)

end

text \<open>
  Guarded steps: a preorder on states (\<^verbatim>\<open>le\<close>) that a call can violate only when a guard on the
  environment, the call and the state before it holds. If the two ends of a run are not related,
  the run contains a call made while the guard held, and that call broke the relation.
\<close>

locale guarded_steps =
  fixes exec :: "'e \<Rightarrow> 'c \<Rightarrow> 's \<Rightarrow> 's result"
    and le :: "'s \<Rightarrow> 's \<Rightarrow> bool"
    and guard :: "'e \<Rightarrow> 'c \<Rightarrow> 's \<Rightarrow> bool"
  assumes le_refl: "le s s"
    and le_trans: "le s t \<Longrightarrow> le t u \<Longrightarrow> le s u"
    and exec_guard: "exec e c s = Ok s' \<Longrightarrow> \<not> le s s' \<Longrightarrow> guard e c s"
begin

lemma run_guard:
  assumes "\<not> le s (run_calls exec xs s)"
  shows "\<exists>ys e c zs s'. xs = ys @ (e, c) # zs \<and> guard e c (run_calls exec ys s)
           \<and> exec e c (run_calls exec ys s) = Ok s' \<and> \<not> le (run_calls exec ys s) s'"
  using assms
proof (induction xs rule: rev_induct)
  case Nil
  then show ?case by (simp add: le_refl)
next
  case (snoc x xs)
  obtain e c where x: "x = (e, c)" by force
  let ?t = "run_calls exec xs s"
  show ?case
  proof (cases "le ?t (commit ?t (exec e c ?t))")
    case True
    with snoc.prems x have "\<not> le s ?t"
      using le_trans by (auto simp: run_calls_append)
    then show ?thesis using snoc.IH by fastforce
  next
    case False
    then obtain s' where ok: "exec e c ?t = Ok s'" and "\<not> le ?t s'"
      by (cases "exec e c ?t") (auto simp: le_refl)
    then have "guard e c ?t" by (rule exec_guard)
    with ok \<open>\<not> le ?t s'\<close> x show ?thesis by blast
  qed
qed

end

text \<open>
  Access control on a part of the state (\<^verbatim>\<open>view\<close>): it changes only in calls made while the guard
  held.
\<close>

locale guarded_view =
  fixes exec :: "'e \<Rightarrow> 'c \<Rightarrow> 's \<Rightarrow> 's result"
    and view :: "'s \<Rightarrow> 'v"
    and guard :: "'e \<Rightarrow> 'c \<Rightarrow> 's \<Rightarrow> bool"
  assumes exec_view: "exec e c s = Ok s' \<Longrightarrow> view s' \<noteq> view s \<Longrightarrow> guard e c s"

sublocale guarded_view \<subseteq> steps: guarded_steps exec "\<lambda>s t. view t = view s" guard
  by unfold_locales (auto intro: exec_view)

context guarded_view
begin

lemma run_view:
  assumes "view (run_calls exec xs s) \<noteq> view s"
  shows "\<exists>ys e c zs. xs = ys @ (e, c) # zs \<and> guard e c (run_calls exec ys s)"
  using steps.run_guard assms by blast

end

text \<open>
  Provenance of a part of the state: every call leaves it or writes a value it vouches for, so the
  value at the end of a run is the initial one or was vouched for by one of the calls.
\<close>

locale written_view =
  fixes exec :: "'e \<Rightarrow> 'c \<Rightarrow> 's \<Rightarrow> 's result"
    and view :: "'s \<Rightarrow> 'v"
    and writes :: "'e \<Rightarrow> 'c \<Rightarrow> 's \<Rightarrow> 'v \<Rightarrow> bool"
  assumes exec_writes: "exec e c s = Ok s' \<Longrightarrow> view s' \<noteq> view s \<Longrightarrow> writes e c s (view s')"
begin

lemma run_writes:
  assumes "view (run_calls exec xs s) \<noteq> view s"
  shows "\<exists>ys e c zs. xs = ys @ (e, c) # zs
           \<and> writes e c (run_calls exec ys s) (view (run_calls exec xs s))"
  using assms
proof (induction xs rule: rev_induct)
  case (snoc x xs)
  obtain e c where x: "x = (e, c)" by force
  let ?t = "run_calls exec xs s" and ?u = "run_calls exec (xs @ [x]) s"
  show ?case
  proof (cases "view ?u = view ?t")
    case True
    with snoc obtain ys e' c' zs where "xs = ys @ (e', c') # zs"
      "writes e' c' (run_calls exec ys s) (view ?u)" by auto
    then show ?thesis by (intro exI [of _ ys] exI [of _ e'] exI [of _ c'] exI [of _ "zs @ [x]"]) simp
  next
    case False
    then have "exec e c ?t = Ok ?u"
      by (cases "exec e c ?t") (auto simp: x run_calls_append)
    from exec_writes [OF this False] x show ?thesis by blast
  qed
qed simp

end

text \<open>
  Progress: a preorder on states that every call respects relates the two ends of every run
  (histories only grow, what was executed stays executed).
\<close>

locale contract_progress =
  fixes exec :: "'e \<Rightarrow> 'c \<Rightarrow> 's \<Rightarrow> 's result" and le :: "'s \<Rightarrow> 's \<Rightarrow> bool"
  assumes le_refl: "le s s"
    and le_trans: "le s t \<Longrightarrow> le t u \<Longrightarrow> le s u"
    and exec_le: "exec e c s = Ok s' \<Longrightarrow> le s s'"
begin

lemma reach_le: "reach exec s t \<Longrightarrow> le s t"
  by (induction rule: reach.induct) (auto intro: le_refl le_trans exec_le)

lemma run_le: "le s (run_calls exec xs s)"
  by (rule reach_le [OF run_calls_reach])

end

text \<open>
  A hardened contract: it does what another one does, on the calls that pass a guard, and traps on
  the others. Its runs are the runs of the other contract on the admitted calls, so everything shown
  of all runs of the unguarded contract holds of it too.
\<close>

fun admitted ::
    "('e \<Rightarrow> 'c \<Rightarrow> 's \<Rightarrow> 's result) \<Rightarrow> ('e \<Rightarrow> 'c \<Rightarrow> 's \<Rightarrow> bool) \<Rightarrow> ('e \<times> 'c) list \<Rightarrow> 's
     \<Rightarrow> ('e \<times> 'c) list" where
  "admitted f g [] s = []"
| "admitted f g ((e, c) # xs) s =
     (if g e c s then (e, c) # admitted f g xs (commit s (f e c s)) else admitted f g xs s)"

locale hardened =
  fixes plain :: "'e \<Rightarrow> 'c \<Rightarrow> 's \<Rightarrow> 's result"
    and secure :: "'e \<Rightarrow> 'c \<Rightarrow> 's \<Rightarrow> 's result"
    and guard :: "'e \<Rightarrow> 'c \<Rightarrow> 's \<Rightarrow> bool"
  assumes secure_Ok: "secure e c s = Ok s' \<longleftrightarrow> guard e c s \<and> plain e c s = Ok s'"
begin

lemma commit_secure:
  "commit s (secure e c s) = (if guard e c s then commit s (plain e c s) else s)"
proof (cases "secure e c s")
  case (Inl x)
  then have "\<not> (guard e c s \<and> plain e c s = Ok s')" for s'
    using secure_Ok [of e c s s'] by simp
  with Inl show ?thesis by (cases "plain e c s") auto
next
  case (Inr s')
  with secure_Ok [of e c s s'] show ?thesis by simp
qed

lemma run_admitted: "run_calls secure xs s = run_calls plain (admitted plain guard xs s) s"
proof (induction xs arbitrary: s)
  case (Cons x xs)
  then show ?case by (cases x) (simp add: commit_secure)
qed simp

lemma secure_reach: "reach secure s t \<Longrightarrow> reach plain s t"
  by (induction rule: reach.induct) (auto simp: secure_Ok intro: reach.intros)

lemma refused: "\<not> guard e c s \<Longrightarrow> \<exists>x. secure e c s = Err x"
  using secure_Ok [of e c s] by (cases "secure e c s") auto

end

text \<open>
  Isolation: a part of the state (\<^verbatim>\<open>view\<close>) that only some calls are about. Those act on it in a way that depends
  on nothing else, and the others leave it alone. Then the part evolves in a run as if only the calls
  about it had been made.
\<close>

locale isolated_part =
  fixes exec :: "'e \<Rightarrow> 'c \<Rightarrow> 's \<Rightarrow> 's result" and view :: "'s \<Rightarrow> 'v" and about :: "'c \<Rightarrow> bool"
  assumes own_call: "about c \<Longrightarrow> view s = view t \<Longrightarrow> exec e c s = Ok s' \<Longrightarrow> \<exists>t'. exec e c t = Ok t' \<and> view t' = view s'"
    and other_call: "\<not> about c \<Longrightarrow> exec e c s = Ok s' \<Longrightarrow> view s' = view s"
begin

lemma view_commit:
  assumes "about c" and "view s = view t"
  shows "view (commit s (exec e c s)) = view (commit t (exec e c t))"
  using own_call [OF assms] own_call [OF assms(1) assms(2) [symmetric]] assms(2)
  by (cases "exec e c s"; cases "exec e c t") fastforce+

lemma run_isolated: "view s = view t \<Longrightarrow>
   view (run_calls exec xs s) = view (run_calls exec (filter (\<lambda>(e, c). about c) xs) t)"
proof (induction xs arbitrary: s t)
  case (Cons x xs)
  obtain e c where x: "x = (e, c)" by force
  show ?case
  proof (cases "about c")
    case True
    with Cons.IH [OF view_commit [OF True Cons.prems, of e]] x show ?thesis by simp
  next
    case False
    then have "view (commit s (exec e c s)) = view t"
      using Cons.prems other_call by (cases "exec e c s") auto
    from Cons.IH [OF this] False x show ?thesis by simp
  qed
qed simp

end

text \<open>
  A run that has to go through: every call returns, in the environment it is made in. And the calls of a run that did return, with
  their environments.
\<close>

fun run_all :: "('e \<Rightarrow> 'c \<Rightarrow> 's \<Rightarrow> 's result) \<Rightarrow> ('e \<times> 'c) list \<Rightarrow> 's \<Rightarrow> 's result" where
  "run_all f [] s = Ok s"
| "run_all f ((e, c) # xs) s = and_then (f e c s) (run_all f xs)"

fun returned :: "('e \<Rightarrow> 'c \<Rightarrow> 's \<Rightarrow> 's result) \<Rightarrow> ('e \<times> 'c) list \<Rightarrow> 's \<Rightarrow> ('e \<times> 'c) list" where
  "returned f [] s = []"
| "returned f ((e, c) # xs) s =
     (case f e c s of Inl _ \<Rightarrow> returned f xs s | Inr s' \<Rightarrow> (e, c) # returned f xs s')"

lemma run_all_calls: "run_all f xs s = Ok t \<Longrightarrow> run_calls f xs s = t"
  by (induction f xs s rule: run_all.induct) (auto simp: result_simps)

lemma returned_subset: "set (returned f xs s) \<subseteq> set xs"
  by (induction f xs s rule: returned.induct) (auto split: sum.splits)

text \<open>
  Functional refinement: an abstraction of the state under which every successful call of the
  concrete contract is a successful call of the abstract one, in the same environment. Then the abstract contract
  accepts all the calls that the concrete one accepted, signatures and ledger included, and the two end in corresponding states.
\<close>

locale contract_refinement =
  fixes concrete :: "'e \<Rightarrow> 'c \<Rightarrow> 's \<Rightarrow> 's result"
    and abstract :: "'e \<Rightarrow> 'c \<Rightarrow> 'a \<Rightarrow> 'a result"
    and alpha :: "'s \<Rightarrow> 'a"
  assumes step_refines: "concrete e c s = Ok s' \<Longrightarrow> abstract e c (alpha s) = Ok (alpha s')"
begin

lemma run_refines: "run_all abstract (returned concrete xs s) (alpha s) = Ok (alpha (run_calls concrete xs s))"
proof (induction xs arbitrary: s)
  case (Cons x xs)
  obtain e c where x: "x = (e, c)" by force
  show ?case
  proof (cases "concrete e c s")
    case (Inr s')
    with Cons.IH [of s'] step_refines [OF Inr] x show ?thesis by simp
  qed (use Cons x in simp)
qed simp

end

text \<open>
  Replay: a part of the state that a run leaves as a function of the calls alone. Every call, returned or trapped,
  acts on it as \<^verbatim>\<open>upd\<close> says, whatever the rest of the state holds.
\<close>

locale replayed_view =
  fixes exec :: "'e \<Rightarrow> 'c \<Rightarrow> 's \<Rightarrow> 's result" and view :: "'s \<Rightarrow> 'v" and upd :: "'e \<Rightarrow> 'c \<Rightarrow> 'v \<Rightarrow> 'v"
  assumes view_Ok: "exec e c s = Ok s' \<Longrightarrow> view s' = upd e c (view s)"
    and view_Err: "exec e c s = Err x \<Longrightarrow> upd e c (view s) = view s"
begin

lemma run_replayed: "view (run_calls exec xs s) = fold (\<lambda>(e, c). upd e c) xs (view s)"
proof (induction xs arbitrary: s)
  case (Cons x xs)
  obtain e c where x: "x = (e, c)" by force
  have "view (commit s (exec e c s)) = upd e c (view s)"
    using view_Ok [of e c s] view_Err [of e c s] by (cases "exec e c s") auto
  with Cons x show ?case by simp
qed simp

end

text \<open>The calls of a run that returned, in order.\<close>

fun successes :: "('e \<Rightarrow> 'c \<Rightarrow> 's \<Rightarrow> 's result) \<Rightarrow> ('e \<times> 'c) list \<Rightarrow> 's \<Rightarrow> 'c list" where
  "successes f [] s = []"
| "successes f ((e, c) # xs) s =
     (case f e c s of Inl _ \<Rightarrow> successes f xs s | Inr s' \<Rightarrow> c # successes f xs s')"

lemma success_ran: "c \<in> set (successes f xs s) \<Longrightarrow> \<exists>e t u. (e, c) \<in> set xs \<and> f e c t = Ok u"
proof (induction xs arbitrary: s)
  case (Cons x xs)
  then show ?case by (cases x) (fastforce split: sum.splits)
qed simp

text \<open>
  Single use: some calls consume a key (a claim, a nonce, a proof), which has to be unused before and
  stays used. Then no key is consumed twice in a run.
\<close>

locale single_use =
  fixes exec :: "'e \<Rightarrow> 'c \<Rightarrow> 's \<Rightarrow> 's result"
    and key :: "'c \<Rightarrow> 'k option"
    and used :: "'s \<Rightarrow> 'k \<Rightarrow> bool"
  assumes key_fresh: "exec e c s = Ok s' \<Longrightarrow> key c = Some k \<Longrightarrow> \<not> used s k"
    and key_used: "exec e c s = Ok s' \<Longrightarrow> used s' k \<longleftrightarrow> used s k \<or> key c = Some k"
begin

lemma keys_once:
  "distinct (List.map_filter key (successes exec xs s))
   \<and> (\<forall>k\<in>set (List.map_filter key (successes exec xs s)). \<not> used s k)"
proof (induction xs arbitrary: s)
  case Nil
  show ?case by (simp add: List.map_filter_def)
next
  case (Cons x xs)
  obtain e c where x: "x = (e, c)" by force
  show ?case
  proof (cases "exec e c s")
    case (Inl err)
    with Cons x show ?thesis by simp
  next
    case (Inr s')
    show ?thesis
      using Cons.IH [of s'] key_fresh [OF Inr] key_used [OF Inr] x Inr
      by (cases "key c") (auto simp: List.map_filter_def)
  qed
qed

lemma next_key_new:
  assumes "exec e c (run_calls exec xs s) = Ok s'" and "key c = Some k"
  shows "distinct (k # List.map_filter key (successes exec xs s))"
proof -
  have "successes exec (xs @ [(e, c)]) s = successes exec xs s @ [c]"
    using assms(1) by (induction xs arbitrary: s) (auto split: sum.splits prod.splits)
  with keys_once [of "xs @ [(e, c)]" s] assms(2) show ?thesis
    by (auto simp: List.map_filter_def)
qed

end

text \<open>
  Flows: the sum, over the calls of a run that returned, of what each call brought in (or took out).
  A quantity that every call moves by exactly that amount is, at the end of the run, its initial
  value plus the flow; one that every call moves by at least that amount has at least grown by it.
\<close>

fun run_flow ::
    "('e \<Rightarrow> 'c \<Rightarrow> 's \<Rightarrow> 's result) \<Rightarrow> ('e \<Rightarrow> 'c \<Rightarrow> 's \<Rightarrow> int) \<Rightarrow> ('e \<times> 'c) list \<Rightarrow> 's \<Rightarrow> int" where
  "run_flow f w [] s = 0"
| "run_flow f w ((e, c) # xs) s =
     (case f e c s of Inl _ \<Rightarrow> run_flow f w xs s | Inr s' \<Rightarrow> w e c s + run_flow f w xs s')"

locale growing_flow = contract_invariant +
  fixes amount :: "'s \<Rightarrow> int" and flow :: "'e \<Rightarrow> 'c \<Rightarrow> 's \<Rightarrow> int"
  assumes exec_grows: "inv s \<Longrightarrow> exec e c s = Ok s' \<Longrightarrow> amount s + flow e c s \<le> amount s'"
begin

lemma run_grows: "inv s \<Longrightarrow> amount s + run_flow exec flow xs s \<le> amount (run_calls exec xs s)"
proof (induction xs arbitrary: s)
  case (Cons x xs)
  obtain e c where x: "x = (e, c)" by force
  show ?case
  proof (cases "exec e c s")
    case (Inr s')
    with Cons.IH [of s'] Cons.prems exec_grows [of s e c s'] exec_inv [of s e c s'] x
    show ?thesis by simp
  qed (use Cons x in simp)
qed simp

end

locale conserved_flow = contract_invariant +
  fixes amount :: "'s \<Rightarrow> int" and flow :: "'e \<Rightarrow> 'c \<Rightarrow> 's \<Rightarrow> int"
  assumes exec_flow: "inv s \<Longrightarrow> exec e c s = Ok s' \<Longrightarrow> amount s' = amount s + flow e c s"

sublocale conserved_flow \<subseteq> grows: growing_flow exec inv amount flow
  by unfold_locales (simp add: exec_flow)

sublocale conserved_flow \<subseteq> shrinks: growing_flow exec inv "\<lambda>s. - amount s" "\<lambda>e c s. - flow e c s"
  by unfold_locales (simp add: exec_flow)

lemma run_flow_append: "run_flow f w (xs @ ys) s = run_flow f w xs s + run_flow f w ys (run_calls f xs s)"
proof (induction xs arbitrary: s)
  case (Cons x xs)
  then show ?case by (cases x) (simp split: sum.splits)
qed simp

lemma run_flow_minus: "run_flow f (\<lambda>e c s. - w e c s) xs s = - run_flow f w xs s"
proof (induction xs arbitrary: s)
  case (Cons x xs)
  then show ?case by (cases x) (simp split: sum.splits)
qed simp

lemma run_flow_diff:
  "run_flow f (\<lambda>e c s. v e c s - w e c s) xs s = run_flow f v xs s - run_flow f w xs s"
proof (induction xs arbitrary: s)
  case (Cons x xs)
  then show ?case by (cases x) (simp split: sum.splits)
qed simp

lemma run_flow_zero: "run_flow f (\<lambda>e c s. 0) xs s = 0"
  by (induction f "\<lambda>(e::'a) (c::'b) (s::'c). 0::int" xs s rule: run_flow.induct) (auto split: sum.splits)

lemma run_flow_none: "\<forall>(e, c)\<in>set xs. \<forall>s. w e c s = 0 \<Longrightarrow> run_flow f w xs s = 0"
  by (induction f w xs s rule: run_flow.induct) (auto split: sum.splits)

lemma run_flow_count:
  "run_flow f (\<lambda>e c s. if P c then d else 0) xs s = d * int (length (filter P (successes f xs s)))"
proof (induction xs arbitrary: s)
  case (Cons x xs)
  then show ?case by (cases x) (simp add: algebra_simps split: sum.splits)
qed simp

context conserved_flow
begin

lemma run_conserves:
  assumes "inv s"
  shows "amount (run_calls exec xs s) = amount s + run_flow exec flow xs s"
  using grows.run_grows [OF assms, of xs] shrinks.run_grows [OF assms, of xs]
  by (simp add: run_flow_minus)

end

section \<open>Balance stores\<close>

text \<open>
  The storage interface of the token-like contracts: a balance per account and a write. The
  contracts read both balances of a transfer before they write either, which is what the lemmas on
  \<^verbatim>\<open>move\<close> describe, the aliased case \<^verbatim>\<open>from = to\<close> included.
\<close>

locale balance_store =
  fixes bal :: "'s \<Rightarrow> 'k \<Rightarrow> int" and set_bal :: "'k \<Rightarrow> int \<Rightarrow> 's \<Rightarrow> 's"
  assumes bal_set: "bal (set_bal a v s) b = (if b = a then v else bal s b)"
begin

lemma sum_set:
  assumes "finite A" and "a \<in> A"
  shows "(\<Sum>b\<in>A. bal (set_bal a v s) b) = (\<Sum>b\<in>A. bal s b) - bal s a + v"
proof -
  have "(\<Sum>b\<in>A. bal (set_bal a v s) b) = v + (\<Sum>b\<in>A - {a}. bal (set_bal a v s) b)"
    using assms by (simp add: sum.remove bal_set)
  also have "(\<Sum>b\<in>A - {a}. bal (set_bal a v s) b) = (\<Sum>b\<in>A - {a}. bal s b)"
    by (rule sum.cong) (auto simp: bal_set)
  finally show ?thesis
    using sum.remove [OF assms, of "bal s"] by simp
qed

lemma sum_set_outside: "a \<notin> A \<Longrightarrow> (\<Sum>b\<in>A. bal (set_bal a v s) b) = (\<Sum>b\<in>A. bal s b)"
  by (rule sum.cong) (auto simp: bal_set)

abbreviation move :: "'k \<Rightarrow> 'k \<Rightarrow> int \<Rightarrow> 's \<Rightarrow> 's" where
  "move x y n s \<equiv> set_bal y (bal s y + n) (set_bal x (bal s x - n) s)"

lemma bal_move: "x \<noteq> y \<Longrightarrow>
   bal (move x y n s) b = (if b = x then bal s x - n else if b = y then bal s y + n else bal s b)"
  by (simp add: bal_set)

lemma bal_move_self: "bal (move x x n s) b = (if b = x then bal s x + n else bal s b)"
  by (simp add: bal_set)

lemma sum_move:
  assumes "finite A" "x \<in> A" "y \<in> A"
  shows "(\<Sum>b\<in>A. bal (move x y n s) b) = (\<Sum>b\<in>A. bal s b) + (if x = y then n else 0)"
  unfolding sum_set [OF assms(1,3)] sum_set [OF assms(1,2)] by (simp add: bal_set)

end

end
