(* ===== verification/Soroban_Containers.thy ===== *)
theory Soroban_Containers
  imports Soroban_Prelude
begin

text \<open>
  The host containers. \<^verbatim>\<open>Vec\<close> is a list with indexed reads that may fail; the loops that copy an
  index range out of a \<^verbatim>\<open>Vec\<close> are kept as loops and related to \<^verbatim>\<open>take\<close> and \<^verbatim>\<open>drop\<close>. \<^verbatim>\<open>Map\<close> is an
  association list in key order, as the host stores it, so that iterating it gives the host's order;
  the locale \<^verbatim>\<open>ordered_map\<close> states what the contracts rely on and the list model interprets it.
\<close>

section \<open>Vec\<close>

definition vec_len :: "'a list \<Rightarrow> int" where
  "vec_len xs = int (length xs)"

definition vec_get :: "'a list \<Rightarrow> int \<Rightarrow> 'a option" where
  "vec_get xs i = (if 0 \<le> i \<and> i < vec_len xs then Some (xs ! nat i) else None)"

text \<open>
  \<^verbatim>\<open>for i in start..end { out.push_back(xs.get(i).unwrap()) }\<close>, with \<open>n = end - start\<close> rounds; the
  first argument is the error of the \<^verbatim>\<open>unwrap\<close> or \<^verbatim>\<open>expect\<close>.
\<close>

fun vec_copy :: "sc_error \<Rightarrow> 'a list \<Rightarrow> int \<Rightarrow> nat \<Rightarrow> 'a list result" where
  "vec_copy x xs i 0 = Ok []"
| "vec_copy x xs i (Suc n) =
     (case vec_get xs i of
        None \<Rightarrow> Err x
      | Some v \<Rightarrow> and_then (vec_copy x xs (i + 1) n) (\<lambda>out. Ok (v # out)))"

text \<open>The same loop with \<^verbatim>\<open>None => break\<close>.\<close>

fun vec_copy_until :: "'a list \<Rightarrow> int \<Rightarrow> nat \<Rightarrow> 'a list" where
  "vec_copy_until xs i 0 = []"
| "vec_copy_until xs i (Suc n) =
     (case vec_get xs i of None \<Rightarrow> [] | Some x \<Rightarrow> x # vec_copy_until xs (i + 1) n)"

lemma vec_len_nonneg [simp]: "0 \<le> vec_len xs"
  by (simp add: vec_len_def)

lemma vec_get_at: "i < length xs \<Longrightarrow> vec_get xs (int i) = Some (xs ! i)"
  by (simp add: vec_get_def vec_len_def)

lemma vec_get_beyond: "length xs \<le> i \<Longrightarrow> vec_get xs (int i) = None"
  by (simp add: vec_get_def vec_len_def)

lemma vec_copy_take:
  "i + n \<le> length xs \<Longrightarrow> vec_copy x xs (int i) n = Ok (take n (drop i xs))"
proof (induction n arbitrary: i)
  case (Suc n)
  then have "i < length xs" by simp
  with Suc.IH [of "Suc i"] Suc.prems show ?case
    by (simp add: vec_get_at Cons_nth_drop_Suc [symmetric] add.commute)
qed simp

lemma vec_copy_until_take: "vec_copy_until xs (int i) n = take n (drop i xs)"
proof (induction n arbitrary: i)
  case (Suc n)
  then show ?case
    using Suc.IH [of "Suc i"]
    by (cases "i < length xs")
       (simp_all add: vec_get_at vec_get_beyond Cons_nth_drop_Suc [symmetric] add.commute)
qed simp

text \<open>Consecutive pages of a list, concatenated, give the list back.\<close>

lemma concat_pages:
  assumes "0 < k"
  shows "concat (map (\<lambda>i. take k (drop (i * k) xs)) [0..<n]) = take (n * k) xs"
proof (induction n)
  case (Suc n)
  have "take (Suc n * k) xs = take (n * k) xs @ take k (drop (n * k) xs)"
    by (metis add.commute mult_Suc take_add)
  with Suc show ?case by simp
qed simp

section \<open>Map\<close>

type_synonym ('k, 'v) smap = "('k \<times> 'v) list"

definition smap_get :: "('k, 'v) smap \<Rightarrow> 'k \<Rightarrow> 'v option" where
  "smap_get m k = map_of m k"

definition smap_contains_key :: "('k, 'v) smap \<Rightarrow> 'k \<Rightarrow> bool" where
  "smap_contains_key m k \<longleftrightarrow> smap_get m k \<noteq> None"

fun smap_set :: "'k::linorder \<Rightarrow> 'v \<Rightarrow> ('k, 'v) smap \<Rightarrow> ('k, 'v) smap" where
  "smap_set k v [] = [(k, v)]"
| "smap_set k v ((k', v') # m) =
     (if k < k' then (k, v) # (k', v') # m
      else if k = k' then (k, v) # m
      else (k', v') # smap_set k v m)"

definition smap_keys :: "('k, 'v) smap \<Rightarrow> 'k list" where
  "smap_keys m = map fst m"

definition smap_ok :: "('k::linorder, 'v) smap \<Rightarrow> bool" where
  "smap_ok m \<longleftrightarrow> sorted_wrt (<) (map fst m)"

lemma fst_set_smap_set: "fst ` set (smap_set k v m) = insert k (fst ` set m)"
  by (induction k v m rule: smap_set.induct) auto

lemma smap_ok_set: "smap_ok m \<Longrightarrow> smap_ok (smap_set k v m)"
  unfolding smap_ok_def
  by (induction k v m rule: smap_set.induct) (auto simp: fst_set_smap_set)

lemma map_of_smap_set: "smap_ok m \<Longrightarrow> map_of (smap_set k v m) = (map_of m)(k \<mapsto> v)"
  unfolding smap_ok_def
  by (induction k v m rule: smap_set.induct) auto

locale ordered_map =
  fixes empty :: "'m"
    and get :: "'m \<Rightarrow> 'k::linorder \<Rightarrow> 'v option"
    and put :: "'k \<Rightarrow> 'v \<Rightarrow> 'm \<Rightarrow> 'm"
    and keys :: "'m \<Rightarrow> 'k list"
    and invar :: "'m \<Rightarrow> bool"
  assumes invar_empty: "invar empty"
    and invar_put: "invar m \<Longrightarrow> invar (put k v m)"
    and get_empty: "get empty k = None"
    and get_put: "invar m \<Longrightarrow> get (put k v m) k' = (if k' = k then Some v else get m k')"
    and set_keys: "invar m \<Longrightarrow> set (keys m) = {k. get m k \<noteq> None}"
    and strict_keys: "invar m \<Longrightarrow> sorted_wrt (<) (keys m)"
begin

lemma distinct_keys: "invar m \<Longrightarrow> distinct (keys m)"
  using strict_keys strict_sorted_iff by blast

lemma set_keys_put: "invar m \<Longrightarrow> set (keys (put k v m)) = insert k (set (keys m))"
  by (auto simp: set_keys invar_put get_put)

text \<open>Filtering the keys in iteration order gives the sorted list of the keys that qualify.\<close>

lemma filter_keys_sorted:
  assumes "invar m"
  shows "filter P (keys m) = sorted_list_of_set {k. get m k \<noteq> None \<and> P k}"
proof -
  have "sorted (filter P (keys m))" and "distinct (filter P (keys m))"
    using sorted_wrt_filter [OF strict_keys [OF assms], of P] by (auto simp: strict_sorted_iff)
  moreover have "set (filter P (keys m)) = {k. get m k \<noteq> None \<and> P k}"
    using set_keys [OF assms] by auto
  ultimately show ?thesis
    by (metis sorted_list_of_set.idem_if_sorted_distinct)
qed

end

interpretation smap: ordered_map "[]" smap_get smap_set smap_keys smap_ok
proof unfold_locales
  fix m :: "('a::linorder, 'b) smap"
  assume "smap_ok m"
  then show "set (smap_keys m) = {k. smap_get m k \<noteq> None}"
    by (auto simp: smap_keys_def smap_get_def map_of_eq_None_iff)
qed (auto simp: smap_ok_def smap_ok_set [unfolded smap_ok_def] smap_get_def smap_keys_def
       map_of_smap_set [unfolded smap_ok_def])

end
