(* ===== verification/Registry.thy ===== *)
theory Registry
  imports Soroban_Containers
begin

text \<open>
  The scan registry (\<^verbatim>\<open>src/registry/src/lib.rs\<close>): storage keys and types, initialisation, scanner
  management, scan submission, reputation and metadata, as state-passing functions over one record
  with a field per storage key. \<^verbatim>\<open>registry_exec\<close> dispatches the entry points that write. The
  invariant \<^verbatim>\<open>registry_inv\<close> ties the redundant parts of the storage together (counter, latest scan,
  history, severity index, flat list) and holds in every reachable state.
\<close>

section \<open>Types and storage\<close>

record contract_metadata =
  md_name :: string
  md_version :: string
  md_audit_date :: int
  md_repo_url :: string

type_synonym severity_counts = "string \<rightharpoonup> int"

record scan_result =
  sr_scanner :: address
  sr_timestamp :: int
  sr_findings_hash :: string
  sr_severity_counts :: severity_counts

record registry = host +
  reg_Admin :: "address option"
  reg_Scanner :: "address \<rightharpoonup> bool"
  reg_ScannerCount :: "int option"
  reg_LatestScan :: "address \<rightharpoonup> scan_result"
  reg_ScanHistory :: "address \<rightharpoonup> scan_result list"
  reg_SeverityIndex :: "(address, unit) smap option"
  reg_ContractActive :: "address \<rightharpoonup> bool"
  reg_ScannerScore :: "address \<rightharpoonup> int"
  reg_Metadata :: "address \<rightharpoonup> contract_metadata"
  reg_ScannedContracts :: "address list option"

definition registry_empty :: registry where
  "registry_empty = \<lparr>events = [], reg_Admin = None, reg_Scanner = Map.empty,
     reg_ScannerCount = None, reg_LatestScan = Map.empty, reg_ScanHistory = Map.empty,
     reg_SeverityIndex = None, reg_ContractActive = Map.empty, reg_ScannerScore = Map.empty,
     reg_Metadata = Map.empty, reg_ScannedContracts = None\<rparr>"

definition SEVERITY_CRITICAL :: string where "SEVERITY_CRITICAL = ''critical''"
definition SEVERITY_HIGH :: string where "SEVERITY_HIGH = ''high''"

section \<open>Operations\<close>

definition registry_initialize :: "env \<Rightarrow> address \<Rightarrow> registry \<Rightarrow> registry result" where
  "registry_initialize e admin s =
     panic_if (reg_Admin s \<noteq> None) ''already initialized'' (
     Ok (s\<lparr>reg_Admin := Some admin\<rparr>))"

definition registry_require_admin :: "env \<Rightarrow> registry \<Rightarrow> 'a result \<Rightarrow> 'a result" where
  "registry_require_admin e s k =
     expect (reg_Admin s) ''not initialized'' (\<lambda>admin. require_auth e admin k)"

definition registry_add_scanner :: "env \<Rightarrow> address \<Rightarrow> registry \<Rightarrow> registry result" where
  "registry_add_scanner e scanner s =
     registry_require_admin e s (
     let already = unwrap_or (reg_Scanner s scanner) False;
         s1 = s\<lparr>reg_Scanner := (reg_Scanner s)(scanner \<mapsto> True)\<rparr>
     in and_then
          (if \<not> already
           then arith (checked_add U32 (unwrap_or (reg_ScannerCount s1) 0) 1) (\<lambda>count.
                Ok (s1\<lparr>reg_ScannerCount := Some count\<rparr>))
           else Ok s1)
        (\<lambda>s2. Ok (publish [''scanner'', ''added''] [VAddr scanner] s2)))"

definition registry_remove_scanner :: "env \<Rightarrow> address \<Rightarrow> registry \<Rightarrow> registry result" where
  "registry_remove_scanner e scanner s =
     registry_require_admin e s (
     let was_active = unwrap_or (reg_Scanner s scanner) False;
         s1 = s\<lparr>reg_Scanner := (reg_Scanner s)(scanner \<mapsto> False)\<rparr>;
         s2 = (if was_active
               then s1\<lparr>reg_ScannerCount :=
                      Some (saturate U32 (unwrap_or (reg_ScannerCount s1) 0 - 1))\<rparr>
               else s1)
     in Ok (publish [''scanner'', ''removed''] [VAddr scanner] s2))"

definition registry_is_scanner :: "registry \<Rightarrow> address \<Rightarrow> bool" where
  "registry_is_scanner s scanner = unwrap_or (reg_Scanner s scanner) False"

definition registry_store_result ::
    "address \<Rightarrow> scan_result \<Rightarrow> address \<Rightarrow> registry \<Rightarrow> registry" where
  "registry_store_result contract_address result score_key s =
     (let s1 = s\<lparr>reg_LatestScan := (reg_LatestScan s)(contract_address \<mapsto> result)\<rparr>;
          history = unwrap_or (reg_ScanHistory s1 contract_address) [] @ [result];
          s2 = s1\<lparr>reg_ScanHistory := (reg_ScanHistory s1)(contract_address \<mapsto> history)\<rparr>;
          index = unwrap_or (reg_SeverityIndex s2) [];
          s3 = (if \<not> smap_contains_key index contract_address
                then s2\<lparr>reg_SeverityIndex := Some (smap_set contract_address () index)\<rparr>
                else s2);
          scanned = unwrap_or (reg_ScannedContracts s3) [];
          s4 = (if contract_address \<notin> set scanned
                then s3\<lparr>reg_ScannedContracts := Some (scanned @ [contract_address])\<rparr>
                else s3);
          score = unwrap_or (reg_ScannerScore s4 score_key) 0
      in s4\<lparr>reg_ScannerScore := (reg_ScannerScore s4)(score_key \<mapsto> saturate I32 (score + 1))\<rparr>)"

definition registry_submit_scan ::
    "env \<Rightarrow> address \<Rightarrow> address \<Rightarrow> string \<Rightarrow> severity_counts \<Rightarrow> registry \<Rightarrow> registry result" where
  "registry_submit_scan e scanner contract_address findings_hash severity_counts s =
     panic_if (findings_hash = []) ''findings_hash cannot be empty'' (
     require_auth e scanner (
     let approved = unwrap_or (reg_Scanner s scanner) False in
     panic_if (\<not> approved) ''not a verified scanner'' (
     let active = unwrap_or (reg_ContractActive s contract_address) True in
     panic_if (\<not> active) ''contract is deactivated'' (
     let result = \<lparr>sr_scanner = scanner, sr_timestamp = timestamp e,
                   sr_findings_hash = findings_hash, sr_severity_counts = severity_counts\<rparr>
     in Ok (registry_store_result contract_address result scanner s)))))"

definition registry_dispute_scan :: "env \<Rightarrow> address \<Rightarrow> registry \<Rightarrow> registry result" where
  "registry_dispute_scan e scanner s =
     registry_require_admin e s (
     let score = unwrap_or (reg_ScannerScore s scanner) 0
     in Ok (s\<lparr>reg_ScannerScore := (reg_ScannerScore s)(scanner \<mapsto> saturate I32 (score - 1))\<rparr>))"

definition registry_get_scanner_score :: "registry \<Rightarrow> address \<Rightarrow> int" where
  "registry_get_scanner_score s scanner = unwrap_or (reg_ScannerScore s scanner) 0"

definition registry_set_metadata ::
    "env \<Rightarrow> address \<Rightarrow> address \<Rightarrow> contract_metadata \<Rightarrow> registry \<Rightarrow> registry result" where
  "registry_set_metadata e scanner contract_address metadata s =
     require_auth e scanner (
     expect (reg_LatestScan s contract_address) ''no scan found for this contract'' (\<lambda>scan.
     panic_if (sr_scanner scan \<noteq> scanner) ''only the contract's scanner may set metadata'' (
     Ok (s\<lparr>reg_Metadata := (reg_Metadata s)(contract_address \<mapsto> metadata)\<rparr>))))"

datatype registry_call =
    RInitialize address
  | RAddScanner address
  | RRemoveScanner address
  | RSubmitScan address address string severity_counts
  | RDisputeScan address
  | RSetMetadata address address contract_metadata

fun registry_exec :: "env \<Rightarrow> registry_call \<Rightarrow> registry \<Rightarrow> registry result" where
  "registry_exec e (RInitialize admin) s = registry_initialize e admin s"
| "registry_exec e (RAddScanner a) s = registry_add_scanner e a s"
| "registry_exec e (RRemoveScanner a) s = registry_remove_scanner e a s"
| "registry_exec e (RSubmitScan a c h sev) s = registry_submit_scan e a c h sev s"
| "registry_exec e (RDisputeScan a) s = registry_dispute_scan e a s"
| "registry_exec e (RSetMetadata a c m) s = registry_set_metadata e a c m s"

section \<open>Queries of the stored scans\<close>

definition registry_get_scan :: "registry \<Rightarrow> address \<Rightarrow> scan_result option" where
  "registry_get_scan s contract_address = reg_LatestScan s contract_address"

definition registry_get_history :: "registry \<Rightarrow> address \<Rightarrow> scan_result list" where
  "registry_get_history s contract_address = unwrap_or (reg_ScanHistory s contract_address) []"

definition registry_get_history_len :: "registry \<Rightarrow> address \<Rightarrow> int" where
  "registry_get_history_len s contract_address =
     vec_len (unwrap_or (reg_ScanHistory s contract_address) [])"

definition registry_get_all_scanned_contracts :: "registry \<Rightarrow> address list" where
  "registry_get_all_scanned_contracts s = unwrap_or (reg_ScannedContracts s) []"

definition registry_get_admin :: "registry \<Rightarrow> address result" where
  "registry_get_admin s = expect (reg_Admin s) ''not initialized'' Ok"

definition registry_get_metadata :: "registry \<Rightarrow> address \<Rightarrow> contract_metadata option" where
  "registry_get_metadata s contract_address = reg_Metadata s contract_address"

section \<open>The storage invariant\<close>

definition approved_scanners :: "registry \<Rightarrow> address set" where
  "approved_scanners s = {a. registry_is_scanner s a}"

definition counter_inv :: "registry \<Rightarrow> bool" where
  "counter_inv s \<longleftrightarrow> finite (approved_scanners s)
     \<and> unwrap_or (reg_ScannerCount s) 0 = int (card (approved_scanners s))
     \<and> in_range U32 (int (card (approved_scanners s)))"

definition index_inv :: "registry \<Rightarrow> bool" where
  "index_inv s \<longleftrightarrow> smap_ok (unwrap_or (reg_SeverityIndex s) [])
     \<and> set (smap_keys (unwrap_or (reg_SeverityIndex s) []))
         = set (registry_get_all_scanned_contracts s)
     \<and> distinct (registry_get_all_scanned_contracts s)"

definition history_inv :: "registry \<Rightarrow> bool" where
  "history_inv s \<longleftrightarrow> (\<forall>c.
     (c \<in> set (registry_get_all_scanned_contracts s) \<longleftrightarrow> registry_get_history s c \<noteq> [])
     \<and> registry_get_scan s c
         = (if registry_get_history s c = [] then None else Some (last (registry_get_history s c)))
     \<and> (\<forall>r \<in> set (registry_get_history s c).
          sr_findings_hash r \<noteq> [] \<and> reg_Scanner s (sr_scanner r) \<noteq> None))"

definition aux_inv :: "registry \<Rightarrow> bool" where
  "aux_inv s \<longleftrightarrow> reg_ContractActive s = Map.empty
     \<and> (\<forall>a. in_range I32 (registry_get_scanner_score s a))
     \<and> dom (reg_Metadata s) \<subseteq> set (registry_get_all_scanned_contracts s)"

definition registry_inv :: "registry \<Rightarrow> bool" where
  "registry_inv s \<longleftrightarrow> counter_inv s \<and> index_inv s \<and> history_inv s \<and> aux_inv s"

lemmas registry_inv_defs = counter_inv_def index_inv_def history_inv_def aux_inv_def

lemmas registry_view_defs = registry_is_scanner_def registry_get_history_def registry_get_scan_def
  registry_get_all_scanned_contracts_def registry_get_scanner_score_def approved_scanners_def

lemmas registry_op_defs = registry_initialize_def registry_add_scanner_def
  registry_remove_scanner_def registry_submit_scan_def registry_dispute_scan_def
  registry_set_metadata_def registry_require_admin_def

text \<open>What one successful call does to each part of the storage.\<close>

lemma registry_require_admin_Ok [result_simps]:
  "registry_require_admin e s k = Ok r \<longleftrightarrow>
     (\<exists>admin. reg_Admin s = Some admin \<and> authorized e admin \<and> k = Ok r)"
  by (auto simp: registry_require_admin_def result_simps)

text \<open>The parts of the invariant no call outside \<^verbatim>\<open>store_result\<close> can break.\<close>

lemma index_inv_frame:
  "reg_SeverityIndex s' = reg_SeverityIndex s \<Longrightarrow> reg_ScannedContracts s' = reg_ScannedContracts s
   \<Longrightarrow> index_inv s \<Longrightarrow> index_inv s'"
  by (simp add: index_inv_def registry_get_all_scanned_contracts_def)

lemma history_inv_frame:
  "reg_ScanHistory s' = reg_ScanHistory s \<Longrightarrow> reg_LatestScan s' = reg_LatestScan s
   \<Longrightarrow> reg_ScannedContracts s' = reg_ScannedContracts s
   \<Longrightarrow> dom (reg_Scanner s) \<subseteq> dom (reg_Scanner s') \<Longrightarrow> history_inv s \<Longrightarrow> history_inv s'"
  unfolding history_inv_def registry_view_defs by (simp add: dom_def) blast

lemma aux_inv_frame:
  "reg_ContractActive s' = reg_ContractActive s \<Longrightarrow> reg_Metadata s' = reg_Metadata s
   \<Longrightarrow> reg_ScannedContracts s' = reg_ScannedContracts s
   \<Longrightarrow> reg_ScannerScore s' = reg_ScannerScore s \<Longrightarrow> aux_inv s \<Longrightarrow> aux_inv s'"
  by (simp add: aux_inv_def registry_view_defs)

lemma counter_inv_frame:
  "reg_Scanner s' = reg_Scanner s \<Longrightarrow> reg_ScannerCount s' = reg_ScannerCount s
   \<Longrightarrow> counter_inv s \<Longrightarrow> counter_inv s'"
  by (simp add: counter_inv_def registry_view_defs)

lemmas registry_frames = index_inv_frame history_inv_frame aux_inv_frame counter_inv_frame

lemma add_scanner_effect:
  assumes "registry_add_scanner e a s = Ok s'"
  obtains count where
    "s' = s\<lparr>reg_Scanner := (reg_Scanner s)(a \<mapsto> True), reg_ScannerCount := count,
            events := events s @ [([''scanner'', ''added''], [VAddr a])]\<rparr>"
    "registry_is_scanner s a \<Longrightarrow> count = reg_ScannerCount s"
    "\<not> registry_is_scanner s a \<Longrightarrow>
       in_range U32 (unwrap_or (reg_ScannerCount s) 0 + 1)
       \<and> count = Some (unwrap_or (reg_ScannerCount s) 0 + 1)"
  using assms
  by (cases "registry_is_scanner s a")
     (auto simp: registry_add_scanner_def registry_is_scanner_def publish_def Let_def
        result_simps int_simps)

lemma add_scanner_counter_inv:
  assumes "registry_add_scanner e a s = Ok s'" and "counter_inv s"
  shows "counter_inv s'"
  using assms(1)
proof (rule add_scanner_effect)
  fix count
  assume s': "s' = s\<lparr>reg_Scanner := (reg_Scanner s)(a \<mapsto> True), reg_ScannerCount := count,
            events := events s @ [([''scanner'', ''added''], [VAddr a])]\<rparr>"
    and old: "registry_is_scanner s a \<Longrightarrow> count = reg_ScannerCount s"
    and new: "\<not> registry_is_scanner s a \<Longrightarrow>
       in_range U32 (unwrap_or (reg_ScannerCount s) 0 + 1)
       \<and> count = Some (unwrap_or (reg_ScannerCount s) 0 + 1)"
  have A: "approved_scanners s' = insert a (approved_scanners s)"
    by (auto simp: s' registry_view_defs)
  show ?thesis
  proof (cases "registry_is_scanner s a")
    case True
    then have "approved_scanners s' = approved_scanners s"
      using A by (auto simp: approved_scanners_def)
    with True old assms(2) s' show ?thesis by (simp add: counter_inv_def)
  next
    case False
    then have "a \<notin> approved_scanners s" by (simp add: approved_scanners_def)
    with A False new assms(2) s' show ?thesis by (simp add: counter_inv_def add.commute)
  qed
qed

lemma remove_scanner_counter_inv:
  assumes ok: "registry_remove_scanner e a s = Ok s'" and inv: "counter_inv s"
  shows "counter_inv s'"
proof -
  have A: "approved_scanners s' = approved_scanners s - {a}"
    using ok by (auto simp: registry_remove_scanner_def registry_view_defs publish_def Let_def
        result_simps split: if_splits)
  show ?thesis
  proof (cases "registry_is_scanner s a")
    case True
    then have a: "a \<in> approved_scanners s" by (simp add: approved_scanners_def)
    with inv have pos: "0 < card (approved_scanners s)"
      by (auto simp: counter_inv_def card_gt_0_iff)
    with inv have "in_range U32 (unwrap_or (reg_ScannerCount s) 0 - 1)"
      by (auto simp: counter_inv_def in_range_def)
    moreover have "unwrap_or (reg_ScannerCount s') 0
        = saturate U32 (unwrap_or (reg_ScannerCount s) 0 - 1)"
      using ok True by (auto simp: registry_remove_scanner_def registry_is_scanner_def publish_def
          Let_def result_simps)
    ultimately show ?thesis
      using inv A a pos by (simp add: counter_inv_def saturate_id of_nat_diff)
  next
    case False
    then have "approved_scanners s' = approved_scanners s" and
        "reg_ScannerCount s' = reg_ScannerCount s"
      using A ok by (auto simp: approved_scanners_def registry_remove_scanner_def publish_def
          registry_is_scanner_def Let_def result_simps)
    with inv show ?thesis by (simp add: counter_inv_def)
  qed
qed

lemma submit_scan_Ok:
  "registry_submit_scan e a c h sev s = Ok s' \<longleftrightarrow>
     h \<noteq> [] \<and> authorized e a \<and> registry_is_scanner s a
     \<and> unwrap_or (reg_ContractActive s c) True
     \<and> s' = registry_store_result c \<lparr>sr_scanner = a, sr_timestamp = timestamp e,
              sr_findings_hash = h, sr_severity_counts = sev\<rparr> a s"
  by (auto simp: registry_submit_scan_def registry_is_scanner_def Let_def result_simps)

lemma store_result_frame [simp]:
  "reg_Admin (registry_store_result c r k s) = reg_Admin s"
  "reg_Scanner (registry_store_result c r k s) = reg_Scanner s"
  "reg_ScannerCount (registry_store_result c r k s) = reg_ScannerCount s"
  "reg_ContractActive (registry_store_result c r k s) = reg_ContractActive s"
  "reg_Metadata (registry_store_result c r k s) = reg_Metadata s"
  "events (registry_store_result c r k s) = events s"
  by (simp_all add: registry_store_result_def Let_def)

lemma store_result_effect [simp]:
  "registry_get_scan (registry_store_result c r k s) = (registry_get_scan s)(c \<mapsto> r)"
  "registry_get_history (registry_store_result c r k s)
     = (registry_get_history s)(c := registry_get_history s c @ [r])"
  "registry_get_scanner_score (registry_store_result c r k s)
     = (registry_get_scanner_score s)(k := saturate I32 (registry_get_scanner_score s k + 1))"
  "registry_get_all_scanned_contracts (registry_store_result c r k s)
     = (let cs = registry_get_all_scanned_contracts s in if c \<in> set cs then cs else cs @ [c])"
  "unwrap_or (reg_SeverityIndex (registry_store_result c r k s)) []
     = (let m = unwrap_or (reg_SeverityIndex s) []
        in if smap_contains_key m c then m else smap_set c () m)"
  by (auto simp: registry_store_result_def registry_view_defs Let_def fun_eq_iff)

lemma store_result_index_inv:
  assumes inv: "index_inv s"
  shows "index_inv (registry_store_result c r k s)"
proof -
  let ?m = "unwrap_or (reg_SeverityIndex s) []" and ?cs = "registry_get_all_scanned_contracts s"
  from inv have ok: "smap_ok ?m" and eq: "set (smap_keys ?m) = set ?cs" and d: "distinct ?cs"
    by (simp_all add: index_inv_def)
  from smap.set_keys [OF ok] have key: "smap_contains_key ?m c \<longleftrightarrow> c \<in> set ?cs"
    unfolding eq by (simp add: smap_contains_key_def)
  show ?thesis
  proof (cases "c \<in> set ?cs")
    case True
    with key ok eq d show ?thesis by (simp add: index_inv_def)
  next
    case False
    with key ok d smap.invar_put [OF ok] smap.set_keys_put [OF ok, unfolded eq] show ?thesis
      by (simp add: index_inv_def)
  qed
qed

lemma store_result_history_inv:
  assumes inv: "history_inv s" and r: "sr_findings_hash r \<noteq> []" "reg_Scanner s (sr_scanner r) \<noteq> None"
  shows "history_inv (registry_store_result c r k s)"
  unfolding history_inv_def
proof
  fix c'
  note old = inv [unfolded history_inv_def, rule_format, of c']
  show "(c' \<in> set (registry_get_all_scanned_contracts (registry_store_result c r k s)) \<longleftrightarrow>
           registry_get_history (registry_store_result c r k s) c' \<noteq> []) \<and>
        registry_get_scan (registry_store_result c r k s) c' =
          (if registry_get_history (registry_store_result c r k s) c' = [] then None
           else Some (last (registry_get_history (registry_store_result c r k s) c'))) \<and>
        (\<forall>x\<in>set (registry_get_history (registry_store_result c r k s) c').
           sr_findings_hash x \<noteq> [] \<and>
           reg_Scanner (registry_store_result c r k s) (sr_scanner x) \<noteq> None)"
  proof (cases "c' = c")
    case True
    with old r show ?thesis by (simp add: Let_def)
  next
    case False
    then have "registry_get_history (registry_store_result c r k s) c' = registry_get_history s c'"
      "registry_get_scan (registry_store_result c r k s) c' = registry_get_scan s c'"
      "c' \<in> set (registry_get_all_scanned_contracts (registry_store_result c r k s)) \<longleftrightarrow>
         c' \<in> set (registry_get_all_scanned_contracts s)"
      by (simp_all add: Let_def)
    with old show ?thesis by simp
  qed
qed

lemma store_result_aux_inv: "aux_inv s \<Longrightarrow> aux_inv (registry_store_result c r k s)"
  by (auto simp: aux_inv_def Let_def)

lemma submit_scan_inv:
  assumes "registry_submit_scan e a c h sev s = Ok s'" and "registry_inv s"
  shows "registry_inv s'"
proof -
  let ?r = "\<lparr>sr_scanner = a, sr_timestamp = timestamp e, sr_findings_hash = h,
              sr_severity_counts = sev\<rparr>"
  from assms(1) have s': "s' = registry_store_result c ?r a s" and h: "h \<noteq> []"
    and a: "reg_Scanner s a \<noteq> None"
    by (auto simp: submit_scan_Ok registry_is_scanner_def unwrap_or_def split: option.splits)
  from assms(2) have "counter_inv s'"
    by (simp add: s' registry_inv_def counter_inv_def approved_scanners_def registry_is_scanner_def)
  with assms(2) h a show ?thesis
    by (simp add: s' registry_inv_def store_result_index_inv store_result_history_inv
        store_result_aux_inv)
qed

lemma add_scanner_inv:
  assumes ok: "registry_add_scanner e a s = Ok s'" and inv: "registry_inv s"
  shows "registry_inv s'"
proof -
  have "dom (reg_Scanner s) \<subseteq> dom (reg_Scanner s')"
    using ok by (rule add_scanner_effect) auto
  moreover have "reg_SeverityIndex s' = reg_SeverityIndex s" "reg_ScanHistory s' = reg_ScanHistory s"
      "reg_LatestScan s' = reg_LatestScan s" "reg_ScannedContracts s' = reg_ScannedContracts s"
      "reg_ContractActive s' = reg_ContractActive s" "reg_Metadata s' = reg_Metadata s"
      "reg_ScannerScore s' = reg_ScannerScore s"
    by (rule add_scanner_effect [OF ok], simp)+
  ultimately show ?thesis
    using inv add_scanner_counter_inv [OF ok]
    by (auto simp: registry_inv_def intro: registry_frames)
qed

lemma remove_scanner_inv:
  assumes ok: "registry_remove_scanner e a s = Ok s'" and inv: "registry_inv s"
  shows "registry_inv s'"
proof -
  have "dom (reg_Scanner s) \<subseteq> dom (reg_Scanner s')"
    and "reg_SeverityIndex s' = reg_SeverityIndex s" "reg_ScanHistory s' = reg_ScanHistory s"
      "reg_LatestScan s' = reg_LatestScan s" "reg_ScannedContracts s' = reg_ScannedContracts s"
      "reg_ContractActive s' = reg_ContractActive s" "reg_Metadata s' = reg_Metadata s"
      "reg_ScannerScore s' = reg_ScannerScore s"
    using ok by (auto simp: registry_remove_scanner_def publish_def Let_def result_simps)
  then show ?thesis
    using inv remove_scanner_counter_inv [OF ok]
    by (auto simp: registry_inv_def intro: registry_frames)
qed

lemma initialize_inv:
  assumes "registry_initialize e x s = Ok s'" and "registry_inv s"
  shows "registry_inv s'"
proof -
  from assms(1) have "s' = s\<lparr>reg_Admin := Some x\<rparr>"
    by (simp add: registry_initialize_def result_simps)
  with assms(2) show ?thesis
    by (auto simp: registry_inv_def intro: registry_frames [where s = s])
qed

lemma dispute_scan_inv:
  assumes "registry_dispute_scan e x s = Ok s'" and "registry_inv s"
  shows "registry_inv s'"
proof -
  let ?v = "saturate I32 (unwrap_or (reg_ScannerScore s x) 0 - 1)"
  from assms(1) have s': "s' = s\<lparr>reg_ScannerScore := (reg_ScannerScore s)(x \<mapsto> ?v)\<rparr>"
    by (auto simp: registry_dispute_scan_def result_simps Let_def)
  from assms(2) have "aux_inv s'"
    by (auto simp: s' registry_inv_def aux_inv_def registry_view_defs)
  with assms(2) s' show ?thesis
    by (auto simp: registry_inv_def intro: registry_frames [where s = s])
qed

lemma set_metadata_inv:
  assumes "registry_set_metadata e x c md s = Ok s'" and "registry_inv s"
  shows "registry_inv s'"
proof -
  from assms(1) obtain r where "registry_get_scan s c = Some r" and
      s': "s' = s\<lparr>reg_Metadata := (reg_Metadata s)(c \<mapsto> md)\<rparr>"
    by (auto simp: registry_set_metadata_def registry_get_scan_def result_simps)
  with assms(2) have "c \<in> set (registry_get_all_scanned_contracts s)"
    by (auto simp: registry_inv_def history_inv_def split: if_splits)
  with assms(2) have "aux_inv s'"
    by (auto simp: s' registry_inv_def aux_inv_def registry_view_defs)
  with assms(2) s' show ?thesis
    by (auto simp: registry_inv_def intro: registry_frames [where s = s])
qed

lemma registry_exec_inv: "registry_inv s \<Longrightarrow> registry_exec e c s = Ok s' \<Longrightarrow> registry_inv s'"
  by (cases c)
     (auto intro: submit_scan_inv add_scanner_inv remove_scanner_inv initialize_inv
        dispute_scan_inv set_metadata_inv)

interpretation registry_invariant: contract_invariant registry_exec registry_inv
  by unfold_locales (rule registry_exec_inv)

lemma registry_inv_empty: "registry_inv registry_empty"
  by (auto simp: registry_inv_def registry_inv_defs registry_view_defs registry_empty_def
      smap_keys_def smap_ok_def)

end
