(* ===== verification/Registry_Queries.thy ===== *)
theory Registry_Queries
  imports Registry "HOL-Library.Sublist"
begin

text \<open>
  The paged and filtered queries of \<^verbatim>\<open>src/registry/src/lib.rs\<close>, and the properties of the registry:
  storage invariant, who can change what, append-only histories, pagination without loss.
  Indices and page numbers are \<^verbatim>\<open>u32\<close>; on the deployment target (wasm32) \<^verbatim>\<open>usize\<close> is 32 bits wide too.
\<close>

section \<open>Queries\<close>

definition registry_get_severity_count :: "severity_counts \<Rightarrow> string \<Rightarrow> int" where
  "registry_get_severity_count severity_counts label = unwrap_or (severity_counts label) 0"

fun registry_matches :: "registry \<Rightarrow> int \<Rightarrow> int \<Rightarrow> address list \<Rightarrow> address list \<Rightarrow> address list" where
  "registry_matches s min_critical min_high [] matches = matches"
| "registry_matches s min_critical min_high (addr # index) matches =
     (case reg_LatestScan s addr of
        None \<Rightarrow> registry_matches s min_critical min_high index matches
      | Some scan \<Rightarrow>
          let critical = registry_get_severity_count (sr_severity_counts scan) SEVERITY_CRITICAL;
              high = registry_get_severity_count (sr_severity_counts scan) SEVERITY_HIGH
          in if critical \<ge> min_critical \<and> high \<ge> min_high
             then registry_matches s min_critical min_high index (matches @ [addr])
             else registry_matches s min_critical min_high index matches)"

definition registry_get_scans_by_min_severity ::
    "registry \<Rightarrow> int \<Rightarrow> int \<Rightarrow> int \<Rightarrow> int \<Rightarrow> address list result" where
  "registry_get_scans_by_min_severity s min_critical min_high page page_size =
     (let index = unwrap_or (reg_SeverityIndex s) [];
          matches = registry_matches s min_critical min_high (smap_keys index) []
      in if page_size = 0 then Ok matches
         else arith (checked_mul U32 page page_size) (\<lambda>start.
              if start \<ge> vec_len matches then Ok []
              else arith (checked_add U32 start page_size) (\<lambda>stop.
                   let end = min stop (vec_len matches)
                   in vec_copy UnwrapNone matches start (nat (end - start)))))"

definition MAX_LIMIT :: int where "MAX_LIMIT = 50"

definition registry_get_history_page ::
    "registry \<Rightarrow> address \<Rightarrow> int \<Rightarrow> int \<Rightarrow> scan_result list result" where
  "registry_get_history_page s contract_address offset limit =
     (let effective_limit = min limit MAX_LIMIT;
          history = unwrap_or (reg_ScanHistory s contract_address) [];
          total = vec_len history
      in if offset \<ge> total then Ok []
         else arith (checked_add U32 offset effective_limit) (\<lambda>stop.
              let end = min stop total
              in vec_copy (Panic ''history index out of bounds'') history offset
                   (nat (end - offset))))"

definition registry_get_latest_scans_batch ::
    "registry \<Rightarrow> address list \<Rightarrow> scan_result option list result" where
  "registry_get_latest_scans_batch s contracts =
     panic_if (vec_len contracts > 20) ''batch size exceeds maximum of 20'' (
     Ok (map (reg_LatestScan s) contracts))"

definition registry_get_scanned_contracts_page ::
    "registry \<Rightarrow> int \<Rightarrow> int \<Rightarrow> address list result" where
  "registry_get_scanned_contracts_page s page page_size =
     (let all = unwrap_or (reg_ScannedContracts s) []
      in arith (checked_mul U32 page page_size) (\<lambda>start.
         arith (checked_add U32 start page_size) (\<lambda>stop.
         Ok (vec_copy_until all start (nat (stop - start))))))"

section \<open>The queries compute filters and slices\<close>

definition meets :: "registry \<Rightarrow> int \<Rightarrow> int \<Rightarrow> address \<Rightarrow> bool" where
  "meets s min_critical min_high c \<longleftrightarrow>
     (case registry_get_scan s c of
        None \<Rightarrow> False
      | Some r \<Rightarrow> min_critical \<le> unwrap_or (sr_severity_counts r ''critical'') 0
                \<and> min_high \<le> unwrap_or (sr_severity_counts r ''high'') 0)"

lemma registry_matches_filter:
  "registry_matches s c h ks acc = acc @ filter (meets s c h) ks"
proof (induction s c h ks acc rule: registry_matches.induct)
  case (2 s c h k ks acc)
  then show ?case
    by (cases "reg_LatestScan s k")
       (auto simp: meets_def registry_get_scan_def registry_get_severity_count_def
          SEVERITY_CRITICAL_def SEVERITY_HIGH_def)
qed simp

lemma history_page_slice:
  assumes "in_range U32 (vec_len (registry_get_history s c) + 50)" and "0 \<le> limit"
  shows "registry_get_history_page s c (int i) limit =
    Ok (take (nat (min limit 50)) (drop i (registry_get_history s c)))"
proof (cases "i < length (registry_get_history s c)")
  case True
  let ?h = "registry_get_history s c" and ?k = "min limit 50"
  have "in_range U32 (int i + ?k)"
    using assms True by (auto simp: in_range_def vec_len_def)
  then have "registry_get_history_page s c (int i) limit
      = vec_copy (Panic ''history index out of bounds'') ?h (int i)
          (nat (min (int i + ?k) (vec_len ?h) - int i))"
    using True by (simp add: registry_get_history_page_def registry_get_history_def MAX_LIMIT_def
        Let_def checked_add_def vec_len_def)
  moreover have "nat (min (int i + ?k) (vec_len ?h) - int i) = min (nat ?k) (length ?h - i)"
    using assms(2) True by (auto simp: vec_len_def)
  ultimately show ?thesis
    using True by (subst (asm) vec_copy_take) (auto simp: min_def)
next
  case False
  then show ?thesis
    by (simp add: registry_get_history_page_def registry_get_history_def vec_len_def Let_def)
qed

lemma scanned_page_slice:
  assumes "0 \<le> page" "0 \<le> sz" and "in_range U32 (page * sz)" and "in_range U32 (page * sz + sz)"
  shows "registry_get_scanned_contracts_page s page sz =
    Ok (take (nat sz) (drop (nat (page * sz)) (registry_get_all_scanned_contracts s)))"
proof -
  have "0 \<le> page * sz" using assms by simp
  with vec_copy_until_take [of _ "nat (page * sz)"] assms show ?thesis
    by (simp add: registry_get_scanned_contracts_page_def registry_get_all_scanned_contracts_def
        checked_ops Let_def)
qed

section \<open>Who can change what\<close>

text \<open>Only an approved scanner that signed the call adds a result to a history.\<close>

definition submits :: "scan_result \<Rightarrow> address \<Rightarrow> env \<Rightarrow> registry_call \<Rightarrow> registry \<Rightarrow> bool" where
  "submits r c e call s \<longleftrightarrow>
     call = RSubmitScan (sr_scanner r) c (sr_findings_hash r) (sr_severity_counts r)
     \<and> authorized e (sr_scanner r) \<and> registry_is_scanner s (sr_scanner r)
     \<and> sr_timestamp r = timestamp e"

definition manages :: "env \<Rightarrow> registry_call \<Rightarrow> registry \<Rightarrow> bool" where
  "manages e call s \<longleftrightarrow>
     (\<exists>admin a. reg_Admin s = Some admin \<and> authorized e admin
        \<and> (call = RAddScanner a \<or> call = RRemoveScanner a))"

lemma exec_history_cases:
  assumes "registry_exec e call s = Ok s'"
  shows "registry_get_history s' c = registry_get_history s c \<or>
    (\<exists>a h sev. call = RSubmitScan a c h sev \<and> authorized e a \<and> registry_is_scanner s a
       \<and> registry_get_history s' c = registry_get_history s c @
           [\<lparr>sr_scanner = a, sr_timestamp = timestamp e, sr_findings_hash = h,
             sr_severity_counts = sev\<rparr>])"
proof (cases call)
  case (RSubmitScan a c' h sev)
  with assms show ?thesis by (auto simp: submit_scan_Ok)
next
  case (RAddScanner a)
  with assms have "registry_add_scanner e a s = Ok s'" by simp
  then show ?thesis by (rule add_scanner_effect) (simp add: registry_get_history_def)
qed (use assms in \<open>auto simp: registry_op_defs registry_get_history_def result_simps Let_def
      publish_def\<close>)

lemma exec_scanner_cases:
  assumes "registry_exec e call s = Ok s'" and "reg_Scanner s' \<noteq> reg_Scanner s"
  shows "manages e call s"
proof (cases call)
  case (RSubmitScan a c' h sev)
  with assms show ?thesis by (auto simp: submit_scan_Ok)
qed (use assms in \<open>auto simp: registry_op_defs result_simps Let_def publish_def manages_def
      split: if_splits\<close>)

interpretation registry_result: guarded_view registry_exec
    "\<lambda>s. r \<in> set (registry_get_history s c)" "submits r c" for r c
proof unfold_locales
  fix e call s s'
  assume ok: "registry_exec e call s = Ok s'"
    and ch: "(r \<in> set (registry_get_history s' c)) \<noteq> (r \<in> set (registry_get_history s c))"
  from exec_history_cases [OF ok, of c] ch show "submits r c e call s"
    by (auto simp: submits_def)
qed

interpretation registry_scanners: guarded_view registry_exec reg_Scanner manages
  by unfold_locales (rule exec_scanner_cases)

interpretation registry_progress: contract_progress registry_exec
    "\<lambda>s t. \<forall>c. prefix (registry_get_history s c) (registry_get_history t c)"
proof unfold_locales
  fix e call s s'
  assume ok: "registry_exec e call s = Ok s'"
  show "\<forall>c. prefix (registry_get_history s c) (registry_get_history s' c)"
  proof
    fix c
    from exec_history_cases [OF ok, of c]
    show "prefix (registry_get_history s c) (registry_get_history s' c)" by auto
  qed
qed (auto intro: prefix_order.trans)

section \<open>Properties\<close>

text \<open>
  C1: In every state reachable from the empty registry the storage is consistent: the scanner
  counter is the number of approved scanners; the severity index and the flat list name the same
  contracts, each once; a contract is listed exactly when its history is not empty; the latest scan
  is the last entry of the history; every stored result has a non-empty hash and a scanner that was
  registered; reputation scores fit an \<^verbatim>\<open>i32\<close>; metadata exists for scanned contracts only.
\<close>

theorem registry_storage_consistent:
  assumes "reach registry_exec registry_empty s"
  shows "registry_inv s"
  using registry_invariant.reach_inv [OF assms registry_inv_empty] .

text \<open>
  C2: No forged results: if after any sequence of invocations (trapped ones included) the history
  of a contract holds a result it did not hold before, then one of the invocations is a
  \<^verbatim>\<open>submit_scan\<close> of exactly that result for that contract, authorised by the scanner the result
  names, while that scanner was on the approved list, at the time the result carries.
\<close>

theorem registry_no_forged_results:
  assumes "r \<in> set (registry_get_history (run_calls registry_exec xs s) c)"
    and "r \<notin> set (registry_get_history s c)"
  shows "\<exists>ys e zs. xs = ys @ (e, RSubmitScan (sr_scanner r) c (sr_findings_hash r)
                                   (sr_severity_counts r)) # zs
           \<and> authorized e (sr_scanner r)
           \<and> registry_is_scanner (run_calls registry_exec ys s) (sr_scanner r)
           \<and> sr_timestamp r = timestamp e"
  using registry_result.run_view [of r xs s c] assms by (auto simp: submits_def)

text \<open>
  The approved-scanner list changes only through \<^verbatim>\<open>add_scanner\<close> or \<^verbatim>\<open>remove_scanner\<close> in an
  invocation that the admin stored at that moment authorised.
\<close>

theorem registry_scanners_admin_only:
  assumes "reg_Scanner (run_calls registry_exec xs s) \<noteq> reg_Scanner s"
  shows "\<exists>ys e call zs admin. xs = ys @ (e, call) # zs
           \<and> reg_Admin (run_calls registry_exec ys s) = Some admin \<and> authorized e admin
           \<and> (\<exists>a. call = RAddScanner a \<or> call = RRemoveScanner a)"
  using registry_scanners.run_view [OF assms] by (fastforce simp: manages_def)

text \<open>C3: Histories are append-only: no sequence of calls removes, reorders or edits an entry.\<close>

theorem registry_history_append_only:
  assumes "reach registry_exec s t"
  shows "prefix (registry_get_history s c) (registry_get_history t c)"
  using registry_progress.reach_le [OF assms] by blast

text \<open>
  C4: Reading a history page by page loses nothing: for a page size between 1 and the cap of 50,
  as many pages as cover the history return, in order, exactly the entries of the history, and no
  page traps.
\<close>

theorem registry_history_pages:
  assumes "0 < k" and "k \<le> 50" and "length (registry_get_history s c) \<le> n * k"
    and "in_range U32 (vec_len (registry_get_history s c) + 50)"
  shows "\<exists>pages. map (\<lambda>i. registry_get_history_page s c (int (i * k)) (int k)) [0..<n] = map Ok pages
           \<and> concat pages = registry_get_history s c"
proof (intro exI conjI)
  let ?pages = "map (\<lambda>i. take k (drop (i * k) (registry_get_history s c))) [0..<n]"
  show "map (\<lambda>i. registry_get_history_page s c (int (i * k)) (int k)) [0..<n] = map Ok ?pages"
    using history_page_slice [OF assms(4), of "int k"] assms(2) by (simp del: of_nat_mult)
  show "concat ?pages = registry_get_history s c"
    using assms(3) by (simp only: concat_pages [OF assms(1)] take_all)
qed

text \<open>
  C5: In a reachable state \<^verbatim>\<open>get_scans_by_min_severity\<close> with page size 0 returns, in address order
  and without repetition, exactly the contracts whose latest scan meets both thresholds.
\<close>

theorem registry_min_severity_exact:
  assumes "reach registry_exec registry_empty s"
  shows "registry_get_scans_by_min_severity s min_critical min_high page 0 = Ok (sorted_list_of_set
           {c. \<exists>r. registry_get_scan s c = Some r
               \<and> min_critical \<le> unwrap_or (sr_severity_counts r ''critical'') 0
               \<and> min_high \<le> unwrap_or (sr_severity_counts r ''high'') 0})"
proof -
  let ?m = "unwrap_or (reg_SeverityIndex s) []"
  have inv: "registry_inv s"
    by (rule registry_invariant.reach_inv [OF assms registry_inv_empty])
  then have ok: "smap_ok ?m" by (simp add: registry_inv_def index_inv_def)
  have "registry_get_scan s k \<noteq> None \<Longrightarrow> smap_get ?m k \<noteq> None" for k
    using inv smap.set_keys [OF ok]
    by (auto simp: registry_inv_def index_inv_def history_inv_def split: if_splits)
  then have "{k. smap_get ?m k \<noteq> None \<and> meets s min_critical min_high k}
      = {c. \<exists>r. registry_get_scan s c = Some r
               \<and> min_critical \<le> unwrap_or (sr_severity_counts r ''critical'') 0
               \<and> min_high \<le> unwrap_or (sr_severity_counts r ''high'') 0}"
    by (fastforce simp: meets_def split: option.splits)
  with smap.filter_keys_sorted [OF ok] show ?thesis
    by (simp add: registry_get_scans_by_min_severity_def registry_matches_filter Let_def)
qed

section \<open>Reputation\<close>

text \<open>
  The results of a scanner in all histories, and the disputes against it: calls of \<^verbatim>\<open>dispute_scan\<close> that name it and that the admin of
  that moment signed.
\<close>

definition results_by :: "address \<Rightarrow> registry \<Rightarrow> nat" where
  "results_by a s =
     (\<Sum>c\<leftarrow>registry_get_all_scanned_contracts s. length (filter (\<lambda>r. sr_scanner r = a) (registry_get_history s c)))"

fun disputed :: "address \<Rightarrow> env \<Rightarrow> registry_call \<Rightarrow> registry \<Rightarrow> int" where
  "disputed a e (RDisputeScan b) s =
     (case reg_Admin s of Some admin \<Rightarrow> if b = a \<and> authorized e admin then 1 else 0 | None \<Rightarrow> 0)"
| "disputed a e c s = 0"

definition submitted_by :: "address \<Rightarrow> registry_call \<Rightarrow> int" where
  "submitted_by a c = (case c of RSubmitScan b k h sev \<Rightarrow> if b = a then 1 else 0 | _ \<Rightarrow> 0)"

lemma results_by_frame:
  "registry_get_history s' = registry_get_history s \<Longrightarrow> registry_get_all_scanned_contracts s' = registry_get_all_scanned_contracts s
   \<Longrightarrow> results_by a s' = results_by a s"
  by (simp add: results_by_def)

lemma results_by_store:
  assumes "registry_inv s"
  shows "results_by a (registry_store_result c r k s) = results_by a s + (if sr_scanner r = a then 1 else 0)"
proof -
  let ?n = "\<lambda>h. length (filter (\<lambda>r. sr_scanner r = a) h)" and ?cs = "registry_get_all_scanned_contracts s"
  let ?h = "registry_get_history s" and ?d = "if sr_scanner r = a then 1 else 0 :: nat"
  have d: "distinct ?cs" and new: "c \<notin> set ?cs \<Longrightarrow> ?h c = []"
    using assms by (auto simp: registry_inv_def index_inv_def history_inv_def)
  have out: "c \<notin> set ks \<Longrightarrow> (\<Sum>x\<leftarrow>ks. ?n ((?h(c := ?h c @ [r])) x)) = (\<Sum>x\<leftarrow>ks. ?n (?h x))" for ks
    by (induction ks) auto
  have inside: "distinct ks \<Longrightarrow> c \<in> set ks \<Longrightarrow> (\<Sum>x\<leftarrow>ks. ?n ((?h(c := ?h c @ [r])) x)) = (\<Sum>x\<leftarrow>ks. ?n (?h x)) + ?d" for ks
  proof (induction ks)
    case (Cons x ks)
    then show ?case using out [of ks] by (cases "x = c") auto
  qed simp
  show ?thesis
  proof (cases "c \<in> set ?cs")
    case True
    with inside [OF d] show ?thesis by (simp add: results_by_def)
  next
    case False
    with out [OF False] new show ?thesis by (simp add: results_by_def)
  qed
qed

lemma exec_results_by:
  assumes inv: "registry_inv s" and ok: "registry_exec e c s = Ok s'"
  shows "int (results_by a s') = int (results_by a s) + submitted_by a c"
proof (cases c)
  case (RSubmitScan b k h sev)
  with ok results_by_store [OF inv] show ?thesis by (auto simp: submit_scan_Ok submitted_by_def)
next
  case (RAddScanner b)
  with ok have "registry_add_scanner e b s = Ok s'" by simp
  then show ?thesis
    by (rule add_scanner_effect) (simp add: RAddScanner submitted_by_def results_by_frame registry_view_defs fun_eq_iff)
qed (use ok in \<open>auto simp: registry_op_defs registry_view_defs submitted_by_def results_by_def publish_def Let_def result_simps\<close>)

lemma exec_score:
  assumes "registry_exec e c s = Ok s'"
  shows "registry_get_scanner_score s' a =
    (let d = submitted_by a c - disputed a e c s in if d = 0 then registry_get_scanner_score s a else saturate I32 (registry_get_scanner_score s a + d))"
proof (cases c)
  case (RSubmitScan b k h sev)
  with assms show ?thesis by (auto simp: submit_scan_Ok submitted_by_def)
next
  case (RAddScanner b)
  with assms have "registry_add_scanner e b s = Ok s'" by simp
  then show ?thesis by (rule add_scanner_effect) (simp add: RAddScanner submitted_by_def registry_get_scanner_score_def)
qed (use assms in \<open>auto simp: registry_op_defs registry_view_defs submitted_by_def publish_def Let_def result_simps split: if_splits\<close>)

lemma score_in_run:
  "length xs < 2 ^ 31 \<Longrightarrow>
     registry_get_scanner_score (run_calls registry_exec xs registry_empty) a
       = int (results_by a (run_calls registry_exec xs registry_empty)) - run_flow registry_exec (disputed a) xs registry_empty
     \<and> 0 \<le> run_flow registry_exec (disputed a) xs registry_empty
     \<and> int (results_by a (run_calls registry_exec xs registry_empty)) + run_flow registry_exec (disputed a) xs registry_empty \<le> int (length xs)"
proof (induction xs rule: rev_induct)
  case Nil
  show ?case by (simp add: results_by_def registry_empty_def registry_view_defs)
next
  case (snoc x xs)
  obtain e c where x: "x = (e, c)" by force
  let ?s = "run_calls registry_exec xs registry_empty" and ?d = "run_flow registry_exec (disputed a) xs registry_empty"
  have ih: "registry_get_scanner_score ?s a = int (results_by a ?s) - ?d" "0 \<le> ?d" "int (results_by a ?s) + ?d \<le> int (length xs)"
    using snoc by auto
  have inv: "registry_inv ?s" by (rule registry_invariant.run_inv [OF registry_inv_empty])
  show ?case
  proof (cases "registry_exec e c ?s")
    case (Inl err)
    with ih x show ?thesis by (simp add: run_calls_append run_flow_append)
  next
    case (Inr s')
    let ?u = "submitted_by a c" and ?v = "disputed a e c ?s"
    have uv: "(?u, ?v) \<in> {(0, 0), (1, 0), (0, 1)}"
      by (cases c) (auto simp: submitted_by_def split: option.splits)
    have "in_range I32 (registry_get_scanner_score ?s a + (?u - ?v))"
      using uv ih snoc.prems x by (auto simp: in_range_def)
    with exec_score [OF Inr, of a] have "registry_get_scanner_score s' a = registry_get_scanner_score ?s a + (?u - ?v)"
      by (auto simp: Let_def saturate_id)
    with uv ih exec_results_by [OF inv Inr, of a] Inr x show ?thesis
      by (auto simp: run_calls_append run_flow_append)
  qed
qed

text \<open>
  C6: Reputation is earned and lost as intended: in a new registry, after any run of fewer than $2^{31}$ invocations, the score of a scanner is the number of results in all
  histories that name it as the scanner less the number of disputes that name it and that the admin signed. In particular no clamping to the
  range of \<^verbatim>\<open>i32\<close> takes place, and nothing but a stored result or a signed dispute changes a score.
\<close>

theorem registry_scores_exact:
  assumes "length xs < 2 ^ 31"
  defines "s \<equiv> run_calls registry_exec xs registry_empty"
  shows "registry_get_scanner_score s a = int (results_by a s) - run_flow registry_exec (disputed a) xs registry_empty"
  using score_in_run [OF assms(1), of a] by (simp add: s_def)

section \<open>A concrete registry\<close>

text \<open>An admin, two scanners and three submissions for two contracts.\<close>

definition demo_env :: env where
  "demo_env = \<lparr>authorized = (\<lambda>_. True), timestamp = 1700000000, sequence = 100,
     min_ttl = 4096, current_contract = Address 99\<rparr>"

definition demo_calls :: "(env \<times> registry_call) list" where
  "demo_calls =
     [(demo_env, RInitialize (Address 0)), (demo_env, RAddScanner (Address 1)),
      (demo_env, RAddScanner (Address 2)),
      (demo_env, RSubmitScan (Address 1) (Address 8) ''h1'' [''high'' \<mapsto> 2]),
      (demo_env, RSubmitScan (Address 2) (Address 7) ''h2'' [''critical'' \<mapsto> 1]),
      (demo_env, RSubmitScan (Address 2) (Address 8) ''h3'' [''critical'' \<mapsto> 3])]"

definition demo_result :: "nat \<Rightarrow> string \<Rightarrow> severity_counts \<Rightarrow> scan_result" where
  "demo_result a h sev = \<lparr>sr_scanner = Address a, sr_timestamp = 1700000000,
     sr_findings_hash = h, sr_severity_counts = sev\<rparr>"

definition registry_demo :: registry where
  "registry_demo = run_calls registry_exec demo_calls registry_empty"

lemma registry_demo_reachable: "reach registry_exec registry_empty registry_demo"
  unfolding registry_demo_def by (rule run_calls_reach)

text \<open>The state after the set-up calls, written out; the submissions are then views of it.\<close>

definition demo_setup :: registry where
  "demo_setup = registry_empty\<lparr>reg_Admin := Some (Address 0),
     reg_Scanner := [Address 1 \<mapsto> True, Address 2 \<mapsto> True], reg_ScannerCount := Some 2,
     events := [([''scanner'', ''added''], [VAddr (Address 1)]),
                ([''scanner'', ''added''], [VAddr (Address 2)])]\<rparr>"

lemma demo_setup_run: "run_calls registry_exec (take 3 demo_calls) registry_empty = demo_setup"
  by (simp add: demo_calls_def demo_env_def demo_setup_def registry_empty_def registry_initialize_def
      registry_add_scanner_def registry_require_admin_def publish_def checked_ops in_range_def)

lemma submit_scan_eval:
  "h \<noteq> [] \<Longrightarrow> authorized e a \<Longrightarrow> reg_Scanner s a = Some True \<Longrightarrow> reg_ContractActive s c = None
   \<Longrightarrow> registry_submit_scan e a c h sev s = Ok (registry_store_result c \<lparr>sr_scanner = a,
         sr_timestamp = timestamp e, sr_findings_hash = h, sr_severity_counts = sev\<rparr> a s)"
  by (simp add: submit_scan_Ok registry_is_scanner_def)

lemma registry_demo_eq:
  "registry_demo = registry_store_result (Address 8) (demo_result 2 ''h3'' [''critical'' \<mapsto> 3]) (Address 2)
     (registry_store_result (Address 7) (demo_result 2 ''h2'' [''critical'' \<mapsto> 1]) (Address 2)
     (registry_store_result (Address 8) (demo_result 1 ''h1'' [''high'' \<mapsto> 2]) (Address 1) demo_setup))"
proof -
  have "registry_demo = run_calls registry_exec (drop 3 demo_calls) demo_setup"
    by (simp add: registry_demo_def demo_setup_run [symmetric] run_calls_append [symmetric])
  then show ?thesis
    by (simp add: demo_calls_def demo_env_def demo_setup_def registry_empty_def submit_scan_eval
        demo_result_def)
qed

lemma demo_setup_views [simp]:
  "registry_get_history demo_setup c = []" "registry_get_all_scanned_contracts demo_setup = []"
  "registry_get_scan demo_setup c = None" "reg_SeverityIndex demo_setup = None"
  by (simp_all add: demo_setup_def registry_empty_def registry_view_defs)

lemma registry_demo_state:
  "registry_get_history registry_demo (Address 8)
     = [demo_result 1 ''h1'' [''high'' \<mapsto> 2], demo_result 2 ''h3'' [''critical'' \<mapsto> 3]]"
  "registry_get_all_scanned_contracts registry_demo = [Address 8, Address 7]"
  "registry_get_scan registry_demo = [Address 8 \<mapsto> demo_result 2 ''h3'' [''critical'' \<mapsto> 3],
     Address 7 \<mapsto> demo_result 2 ''h2'' [''critical'' \<mapsto> 1]]"
  "unwrap_or (reg_SeverityIndex registry_demo) [] = [(Address 7, ()), (Address 8, ())]"
  by (simp_all add: registry_demo_eq fun_eq_iff smap_contains_key_def smap_get_def less_address_def)

theorem registry_storage_consistent_witness:
  "registry_inv registry_demo \<and> length (registry_get_all_scanned_contracts registry_demo) = 2"
  using registry_storage_consistent [OF registry_demo_reachable] by (simp add: registry_demo_state)

lemma demo_dispute:
  "registry_exec demo_env (RDisputeScan (Address 2)) registry_demo = Ok (registry_demo\<lparr>reg_ScannerScore :=
     (reg_ScannerScore registry_demo)(Address 2 \<mapsto> saturate I32 (registry_get_scanner_score registry_demo (Address 2) - 1))\<rparr>)"
  "reg_Admin registry_demo = Some (Address 0)" "registry_get_history registry_demo (Address 7) = [demo_result 2 ''h2'' [''critical'' \<mapsto> 1]]"
proof -
  show adm: "reg_Admin registry_demo = Some (Address 0)" by (simp add: registry_demo_eq) (simp add: demo_setup_def registry_empty_def)
  then show "registry_exec demo_env (RDisputeScan (Address 2)) registry_demo = Ok (registry_demo\<lparr>reg_ScannerScore :=
     (reg_ScannerScore registry_demo)(Address 2 \<mapsto> saturate I32 (registry_get_scanner_score registry_demo (Address 2) - 1))\<rparr>)"
    by (simp add: registry_dispute_scan_def registry_require_admin_def registry_get_scanner_score_def demo_env_def)
  show "registry_get_history registry_demo (Address 7) = [demo_result 2 ''h2'' [''critical'' \<mapsto> 1]]" by (simp add: registry_demo_eq)
qed

theorem registry_scores_exact_witness:
  "registry_get_scanner_score (run_calls registry_exec (demo_calls @ [(demo_env, RDisputeScan (Address 2))]) registry_empty) (Address 2) = 2 - 1"
proof -
  let ?xs = "demo_calls @ [(demo_env, RDisputeScan (Address 2))]"
  have run: "run_calls registry_exec ?xs registry_empty = registry_demo\<lparr>reg_ScannerScore :=
      (reg_ScannerScore registry_demo)(Address 2 \<mapsto> saturate I32 (registry_get_scanner_score registry_demo (Address 2) - 1))\<rparr>"
    by (simp add: run_calls_append registry_demo_def [symmetric] demo_dispute del: registry_exec.simps)
  have "results_by (Address 2) registry_demo = 2"
    by (simp add: results_by_def registry_demo_state demo_dispute) (simp add: demo_result_def)
  then have "results_by (Address 2) (run_calls registry_exec ?xs registry_empty) = 2"
    unfolding run by (subst results_by_frame [of _ registry_demo]) (simp_all add: registry_view_defs fun_eq_iff)
  moreover have "run_flow registry_exec (disputed (Address 2)) demo_calls registry_empty = 0"
    by (rule run_flow_none) (simp add: demo_calls_def)
  then have "run_flow registry_exec (disputed (Address 2)) ?xs registry_empty = 1"
    by (simp add: run_flow_append registry_demo_def [symmetric] demo_dispute del: registry_exec.simps) (simp add: demo_env_def)
  moreover have "length ?xs < 2 ^ 31" by (simp add: demo_calls_def)
  ultimately show ?thesis using registry_scores_exact [of ?xs "Address 2"] by simp
qed

theorem registry_no_forged_results_witness:
  "\<exists>ys e zs. demo_calls = ys @ (e, RSubmitScan (Address 2) (Address 8) ''h3'' [''critical'' \<mapsto> 3]) # zs
     \<and> authorized e (Address 2)
     \<and> registry_is_scanner (run_calls registry_exec ys registry_empty) (Address 2)"
proof -
  let ?r = "demo_result 2 ''h3'' [''critical'' \<mapsto> 3]"
  have "?r \<in> set (registry_get_history (run_calls registry_exec demo_calls registry_empty) (Address 8))"
    by (simp add: registry_demo_def [symmetric] registry_demo_state)
  moreover have "?r \<notin> set (registry_get_history registry_empty (Address 8))"
    by (simp add: registry_get_history_def registry_empty_def)
  ultimately show ?thesis
    using registry_no_forged_results [of ?r demo_calls registry_empty "Address 8"]
    by (auto simp: demo_result_def)
qed

theorem registry_scanners_admin_only_witness:
  "\<exists>ys e call zs admin. demo_calls = ys @ (e, call) # zs
     \<and> reg_Admin (run_calls registry_exec ys registry_empty) = Some admin \<and> authorized e admin
     \<and> (\<exists>a. call = RAddScanner a \<or> call = RRemoveScanner a)"
proof -
  have "reg_Scanner (run_calls registry_exec demo_calls registry_empty) (Address 1)
      \<noteq> reg_Scanner registry_empty (Address 1)"
    by (simp add: registry_demo_def [symmetric] registry_demo_eq)
       (simp add: demo_setup_def registry_empty_def)
  then have "reg_Scanner (run_calls registry_exec demo_calls registry_empty)
      \<noteq> reg_Scanner registry_empty" by auto
  then show ?thesis by (rule registry_scanners_admin_only)
qed

theorem registry_history_append_only_witness:
  "prefix (registry_get_history registry_empty (Address 8))
     (registry_get_history registry_demo (Address 8))"
  by (rule registry_history_append_only [OF registry_demo_reachable])

theorem registry_history_pages_witness:
  "\<exists>pages. map (\<lambda>i. registry_get_history_page registry_demo (Address 8) (int (i * 1)) (int 1)) [0..<2]
       = map Ok pages
     \<and> concat pages = [demo_result 1 ''h1'' [''high'' \<mapsto> 2], demo_result 2 ''h3'' [''critical'' \<mapsto> 3]]"
  using registry_history_pages [of 1 registry_demo "Address 8" 2]
  by (simp add: registry_demo_state in_range_def vec_len_def)

theorem registry_min_severity_exact_witness:
  "registry_get_scans_by_min_severity registry_demo 2 0 0 0 = Ok (sorted_list_of_set
     {c. \<exists>r. registry_get_scan registry_demo c = Some r
         \<and> 2 \<le> unwrap_or (sr_severity_counts r ''critical'') 0
         \<and> 0 \<le> unwrap_or (sr_severity_counts r ''high'') 0})
   \<and> registry_get_scans_by_min_severity registry_demo 2 0 0 0 = Ok [Address 8]"
  using registry_min_severity_exact [OF registry_demo_reachable, of 2 0 0]
  by (simp add: registry_get_scans_by_min_severity_def registry_matches_filter meets_def
      registry_demo_state smap_keys_def demo_result_def)

section \<open>Refusals\<close>

text \<open>
  The error contract of the writing entry points, over what the registry shows to its users: which refusal a caller gets, in
  the order in which the reasons are looked at.
\<close>

definition admin_refusal :: "env \<Rightarrow> registry \<Rightarrow> sc_error option" where
  "admin_refusal e s = (case reg_Admin s of
      None \<Rightarrow> Some (Panic ''not initialized'')
    | Some admin \<Rightarrow> if authorized e admin then None else Some (Unauthorized admin))"

fun refusal :: "env \<Rightarrow> registry_call \<Rightarrow> registry \<Rightarrow> sc_error option" where
  "refusal e (RInitialize a) s = (if reg_Admin s = None then None else Some (Panic ''already initialized''))"
| "refusal e (RAddScanner a) s =
     (case admin_refusal e s of
        Some x \<Rightarrow> Some x
      | None \<Rightarrow> if registry_is_scanner s a \<or> card (approved_scanners s) < 2 ^ 32 - 1 then None else Some ArithOverflow)"
| "refusal e (RRemoveScanner a) s = admin_refusal e s"
| "refusal e (RSubmitScan a c h sev) s =
     (if h = [] then Some (Panic ''findings_hash cannot be empty'')
      else if \<not> authorized e a then Some (Unauthorized a)
      else if \<not> registry_is_scanner s a then Some (Panic ''not a verified scanner'')
      else None)"
| "refusal e (RDisputeScan a) s = admin_refusal e s"
| "refusal e (RSetMetadata a c m) s =
     (if \<not> authorized e a then Some (Unauthorized a)
      else case registry_get_scan s c of
          None \<Rightarrow> Some (Panic ''no scan found for this contract'')
        | Some r \<Rightarrow> if sr_scanner r = a then None else Some (Panic ''only the contract's scanner may set metadata''))"

lemma require_admin_Err:
  "registry_require_admin e s k = Err x \<longleftrightarrow> admin_refusal e s = Some x \<or> admin_refusal e s = None \<and> k = Err x"
  by (auto simp: registry_require_admin_def admin_refusal_def err_simps split: option.splits)

text \<open>
  C7: Refusals are exact: in a reachable state a call fails with an error exactly when the contract above names it. In particular no contract is ever
  refused as deactivated, removing a scanner never traps on the counter, and adding one only when \<^verbatim>\<open>u32\<close> is exhausted.
\<close>

theorem registry_refusals_exact:
  assumes "reach registry_exec registry_empty s"
  shows "registry_exec e c s = Err x \<longleftrightarrow> refusal e c s = Some x"
proof -
  have inv: "registry_inv s" using registry_invariant.reach_inv [OF assms registry_inv_empty] .
  then have act: "unwrap_or (reg_ContractActive s a) True" for a by (simp add: registry_inv_def aux_inv_def)
  have cnt: "unwrap_or (reg_ScannerCount s) 0 = int (card (approved_scanners s))" "in_range U32 (int (card (approved_scanners s)))"
    using inv by (auto simp: registry_inv_def counter_inv_def)
  show ?thesis
  proof (cases c)
    case (RAddScanner a)
    then show ?thesis
      using cnt by (auto simp: registry_add_scanner_def require_admin_Err registry_is_scanner_def err_simps Let_def checked_add_def in_range_def
          split: option.splits if_splits)
  qed (auto simp: registry_initialize_def registry_remove_scanner_def registry_dispute_scan_def registry_submit_scan_def registry_set_metadata_def
      require_admin_Err registry_is_scanner_def registry_get_scan_def act err_simps Let_def split: option.splits if_splits)
qed

theorem registry_refusals_exact_witness:
  "registry_exec (signed_env [Address 7] 9) (RSubmitScan (Address 7) (Address 8) ''h'' Map.empty) registry_demo = Err (Panic ''not a verified scanner'')"
  using registry_refusals_exact [OF registry_demo_reachable, of "signed_env [Address 7] 9" "RSubmitScan (Address 7) (Address 8) ''h'' Map.empty"]
  by (simp add: signed_env_def registry_is_scanner_def registry_demo_eq demo_setup_def)

end
