(* ===== verification/Secure_Token.thy ===== *)
theory Secure_Token
  imports Soroban_Prelude
begin

text \<open>
  The reference token (\<^verbatim>\<open>src/secure/secure_token/src/lib.rs\<close>): admin-gated mint, owner-gated burn and
  transfer, checked arithmetic, tracked total supply. Shown: balances are never negative and always
  add up to the total supply; nobody loses tokens without having authorised the call; a transfer
  succeeds exactly under its guards and moves exactly the amount.
\<close>

record secure_token = host +
  tok_Admin :: "address option"
  tok_Balance :: "address \<rightharpoonup> int"
  tok_TotalSupply :: "int option"

definition token_empty :: secure_token where
  "token_empty = \<lparr>events = [], tok_Admin = None, tok_Balance = Map.empty, tok_TotalSupply = None\<rparr>"

definition token_initialize :: "env \<Rightarrow> address \<Rightarrow> secure_token \<Rightarrow> secure_token result" where
  "token_initialize e admin s =
     panic_if (tok_Admin s \<noteq> None) ''already initialized'' (
     Ok (s\<lparr>tok_Admin := Some admin\<rparr>))"

definition token_balance :: "secure_token \<Rightarrow> address \<Rightarrow> int" where
  "token_balance s account = unwrap_or (tok_Balance s account) 0"

definition token_total_supply :: "secure_token \<Rightarrow> int" where
  "token_total_supply s = unwrap_or (tok_TotalSupply s) 0"

text \<open>\<^verbatim>\<open>storage.persistent().set(&DataKey::Balance(a), &v)\<close>\<close>

definition token_set_balance :: "address \<Rightarrow> int \<Rightarrow> secure_token \<Rightarrow> secure_token" where
  "token_set_balance a v s = s\<lparr>tok_Balance := (tok_Balance s)(a \<mapsto> v)\<rparr>"

definition token_mint :: "env \<Rightarrow> address \<Rightarrow> int \<Rightarrow> secure_token \<Rightarrow> secure_token result" where
  "token_mint e to amount s =
     ensure (amount > 0) ''amount must be positive'' (
     expect (tok_Admin s) ''not initialized'' (\<lambda>admin.
     require_auth e admin (
     let bal = token_balance s to in
     expect (checked_add I128 bal amount) ''overflow'' (\<lambda>new_bal.
     let s1 = token_set_balance to new_bal s;
         supply = token_total_supply s1 in
     expect (checked_add I128 supply amount) ''overflow'' (\<lambda>new_supply.
     let s2 = s1\<lparr>tok_TotalSupply := Some new_supply\<rparr>
     in Ok (publish [''mint''] [VAddr to, VInt amount] s2))))))"

definition token_burn :: "env \<Rightarrow> address \<Rightarrow> int \<Rightarrow> secure_token \<Rightarrow> secure_token result" where
  "token_burn e from amount s =
     ensure (amount > 0) ''amount must be positive'' (
     require_auth e from (
     let bal = token_balance s from in
     expect (checked_sub I128 bal amount) ''insufficient balance'' (\<lambda>new_bal.
     ensure (new_bal \<ge> 0) ''insufficient balance'' (
     let s1 = token_set_balance from new_bal s;
         supply = token_total_supply s1 in
     expect (checked_sub I128 supply amount) ''supply underflow'' (\<lambda>new_supply.
     let s2 = s1\<lparr>tok_TotalSupply := Some new_supply\<rparr>
     in Ok (publish [''burn''] [VAddr from, VInt amount] s2))))))"

definition token_transfer ::
    "env \<Rightarrow> address \<Rightarrow> address \<Rightarrow> int \<Rightarrow> secure_token \<Rightarrow> secure_token result" where
  "token_transfer e from to amount s =
     ensure (amount > 0) ''amount must be positive'' (
     ensure (from \<noteq> to) ''self-transfer not allowed'' (
     require_auth e from (
     let from_bal = token_balance s from;
         to_bal = token_balance s to in
     expect (checked_sub I128 from_bal amount) ''insufficient balance'' (\<lambda>new_from.
     ensure (new_from \<ge> 0) ''insufficient balance'' (
     expect (checked_add I128 to_bal amount) ''overflow'' (\<lambda>new_to.
     let s1 = token_set_balance from new_from s;
         s2 = token_set_balance to new_to s1
     in Ok (publish [''transfer''] [VAddr from, VAddr to, VInt amount] s2)))))))"

datatype token_call =
    TInitialize address
  | TMint address int
  | TBurn address int
  | TTransfer address address int

fun token_exec :: "env \<Rightarrow> token_call \<Rightarrow> secure_token \<Rightarrow> secure_token result" where
  "token_exec e (TInitialize admin) s = token_initialize e admin s"
| "token_exec e (TMint to amount) s = token_mint e to amount s"
| "token_exec e (TBurn from amount) s = token_burn e from amount s"
| "token_exec e (TTransfer from to amount) s = token_transfer e from to amount s"

section \<open>Effects\<close>

interpretation token_store: balance_store token_balance token_set_balance
  by unfold_locales (simp add: token_balance_def token_set_balance_def)

lemmas token_defs = token_initialize_def token_mint_def token_burn_def token_transfer_def

lemma token_frames [simp]:
  "tok_Balance (publish t d s) = tok_Balance s" "tok_TotalSupply (publish t d s) = tok_TotalSupply s"
  "tok_Admin (publish t d s) = tok_Admin s"
  "tok_Admin (token_set_balance a v s) = tok_Admin s"
  "tok_TotalSupply (token_set_balance a v s) = tok_TotalSupply s"
  "tok_Balance (token_set_balance a v s) = (tok_Balance s)(a \<mapsto> v)"
  "token_balance (publish t d s) = token_balance s"
  "token_balance (s\<lparr>tok_TotalSupply := x\<rparr>) = token_balance s"
  "token_balance (s\<lparr>tok_Admin := y\<rparr>) = token_balance s"
  "token_total_supply (token_set_balance a v s) = token_total_supply s"
  by (auto simp: publish_def token_set_balance_def token_balance_def token_total_supply_def fun_eq_iff)

lemma token_balance_get0: "token_balance s a = get0 (tok_Balance s) a"
  by (simp add: token_balance_def get0_def)

lemma token_mint_Ok:
  "token_mint e to n s = Ok s' \<longleftrightarrow>
     0 < n \<and> (\<exists>admin. tok_Admin s = Some admin \<and> authorized e admin)
     \<and> in_range I128 (token_balance s to + n) \<and> in_range I128 (token_total_supply s + n)
     \<and> s' = publish [''mint''] [VAddr to, VInt n]
          ((token_set_balance to (token_balance s to + n) s)
             \<lparr>tok_TotalSupply := Some (token_total_supply s + n)\<rparr>)"
  by (auto simp: token_mint_def result_simps int_simps Let_def)

lemma token_burn_Ok:
  "token_burn e a n s = Ok s' \<longleftrightarrow>
     0 < n \<and> authorized e a \<and> n \<le> token_balance s a
     \<and> in_range I128 (token_balance s a - n) \<and> in_range I128 (token_total_supply s - n)
     \<and> s' = publish [''burn''] [VAddr a, VInt n]
          ((token_set_balance a (token_balance s a - n) s)
             \<lparr>tok_TotalSupply := Some (token_total_supply s - n)\<rparr>)"
  by (auto simp: token_burn_def result_simps int_simps Let_def)

lemma token_transfer_Ok:
  "token_transfer e a b n s = Ok s' \<longleftrightarrow>
     0 < n \<and> a \<noteq> b \<and> authorized e a \<and> n \<le> token_balance s a
     \<and> in_range I128 (token_balance s a - n) \<and> in_range I128 (token_balance s b + n)
     \<and> s' = publish [''transfer''] [VAddr a, VAddr b, VInt n]
          (token_store.move a b n s)"
  by (auto simp: token_transfer_def result_simps int_simps Let_def)

lemma token_initialize_Ok:
  "token_initialize e a s = Ok s' \<longleftrightarrow> tok_Admin s = None \<and> s' = s\<lparr>tok_Admin := Some a\<rparr>"
  by (auto simp: token_initialize_def result_simps)

lemmas token_Oks = token_mint_Ok token_burn_Ok token_transfer_Ok token_initialize_Ok

section \<open>Invariant\<close>

definition token_inv :: "secure_token \<Rightarrow> bool" where
  "token_inv s \<longleftrightarrow> finite (dom (tok_Balance s)) \<and> (\<forall>a. 0 \<le> token_balance s a)
     \<and> sum_bal (tok_Balance s) = token_total_supply s \<and> in_range I128 (token_total_supply s)"

lemma token_total_supply_simps [simp]:
  "token_total_supply (publish t d s) = token_total_supply s"
  "token_total_supply (s\<lparr>tok_TotalSupply := Some v\<rparr>) = v"
  "token_total_supply (s\<lparr>tok_Admin := x\<rparr>) = token_total_supply s"
  by (simp_all add: token_total_supply_def publish_def)

lemma token_exec_inv:
  assumes inv: "token_inv s" and ok: "token_exec e c s = Ok s'"
  shows "token_inv s'"
proof (cases c)
  case (TInitialize a)
  with assms show ?thesis by (simp add: token_Oks token_inv_def)
next
  case (TMint a n)
  with assms show ?thesis
    by (auto simp: token_Oks token_inv_def token_store.bal_set sum_bal_update
        token_balance_get0 [symmetric])
next
  case (TBurn a n)
  with assms show ?thesis
    by (auto simp: token_Oks token_inv_def token_store.bal_set sum_bal_update
        token_balance_get0 [symmetric])
next
  case (TTransfer a b n)
  with assms show ?thesis
    by (auto simp: token_Oks token_inv_def token_store.bal_set sum_bal_update
        token_balance_get0 [symmetric])
qed

interpretation token_invariant: contract_invariant token_exec token_inv
  by unfold_locales (rule token_exec_inv)

lemma token_inv_empty: "token_inv token_empty"
  by (simp add: token_inv_def token_empty_def token_balance_def token_total_supply_def)

definition spends :: "address \<Rightarrow> env \<Rightarrow> token_call \<Rightarrow> secure_token \<Rightarrow> bool" where
  "spends a e c s \<longleftrightarrow> authorized e a \<and> ((\<exists>n. c = TBurn a n) \<or> (\<exists>b n. c = TTransfer a b n))"

interpretation token_spending: guarded_steps token_exec
    "\<lambda>s t. token_balance s a \<le> token_balance t a" "spends a" for a
proof unfold_locales
  fix e c s s'
  assume "token_exec e c s = Ok s'" and "\<not> token_balance s a \<le> token_balance s' a"
  then show "spends a e c s"
    by (cases c) (auto simp: token_Oks spends_def token_store.bal_set split: if_splits)
qed auto

section \<open>Properties\<close>

text \<open>
  C8: In every reachable state of the token every balance lies between 0 and the total supply, and
  the total supply is the sum of all balances (and fits an \<^verbatim>\<open>i128\<close>).
\<close>

theorem token_supply_is_sum_of_balances:
  assumes "reach token_exec token_empty s"
  shows "token_total_supply s = (\<Sum>a | tok_Balance s a \<noteq> None. token_balance s a)
    \<and> (\<forall>a. 0 \<le> token_balance s a \<and> token_balance s a \<le> token_total_supply s)
    \<and> in_range I128 (token_total_supply s)"
proof -
  have inv: "token_inv s"
    by (rule token_invariant.reach_inv [OF assms token_inv_empty])
  then have "token_balance s a \<le> token_total_supply s" for a
    using get0_le_total_bal [of "tok_Balance s"] by (auto simp: token_inv_def token_balance_get0)
  with inv show ?thesis
    by (auto simp: token_inv_def sum_bal_def token_balance_get0 dom_def)
qed

text \<open>
  C9: Nobody loses tokens without consent: if an account holds less after a sequence of invocations
  than before, one of them is a burn or a transfer out of that account which the account authorised.
\<close>

theorem token_debits_authorized:
  assumes "token_balance (run_calls token_exec xs s) a < token_balance s a"
  shows "\<exists>ys e c zs. xs = ys @ (e, c) # zs \<and> authorized e a
           \<and> ((\<exists>n. c = TBurn a n) \<or> (\<exists>b n. c = TTransfer a b n))"
  using token_spending.run_guard [where a = a and s = s and xs = xs] assms by (fastforce simp: spends_def)

text \<open>
  C10: A transfer in a reachable state succeeds exactly when the amount is positive, sender and
  receiver differ, the sender signed and holds the amount (overflow cannot happen), and then moves
  exactly the amount: all other balances and the supply stay.
\<close>

theorem token_transfer_exact:
  assumes "reach token_exec token_empty s"
  shows "((\<exists>s'. token_transfer e a b n s = Ok s') \<longleftrightarrow>
            0 < n \<and> a \<noteq> b \<and> authorized e a \<and> n \<le> token_balance s a)
    \<and> (\<forall>s'. token_transfer e a b n s = Ok s' \<longrightarrow>
           token_balance s' = (token_balance s)(a := token_balance s a - n, b := token_balance s b + n)
           \<and> token_total_supply s' = token_total_supply s)"
proof -
  have inv: "token_inv s"
    by (rule token_invariant.reach_inv [OF assms token_inv_empty])
  have "in_range I128 (token_balance s a - n) \<and> in_range I128 (token_balance s b + n)"
    if "0 < n" "a \<noteq> b" "n \<le> token_balance s a"
  proof -
    have fin: "finite (dom (tok_Balance s))" and nn: "\<And>k. 0 \<le> get0 (tok_Balance s) k"
      using inv by (auto simp: token_inv_def token_balance_get0)
    have "token_balance s b + token_balance s a \<le> token_total_supply s"
      using get0_pair_le_total [OF fin nn \<open>a \<noteq> b\<close>] inv
      by (simp add: token_inv_def token_balance_get0)
    moreover have "0 \<le> token_balance s b" "in_range I128 (token_total_supply s)"
      using inv by (auto simp: token_inv_def)
    ultimately show ?thesis
      using that by (auto simp: in_range_def)
  qed
  then show ?thesis
    by (auto simp: token_transfer_Ok fun_eq_iff token_store.bal_set)
qed

section \<open>A concrete token\<close>

definition token_demo_calls :: "(env \<times> token_call) list" where
  "token_demo_calls =
     [(signed_env [Address 0] 1, TInitialize (Address 0)),
      (signed_env [Address 0] 2, TMint (Address 5) 100),
      (signed_env [Address 5] 3, TTransfer (Address 5) (Address 2) 30)]"

definition token_demo :: secure_token where
  "token_demo = run_calls token_exec token_demo_calls token_empty"

lemma token_demo_reachable: "reach token_exec token_empty token_demo"
  unfolding token_demo_def by (rule run_calls_reach)

lemma token_demo_eq:
  "token_demo = \<lparr>events = [([''mint''], [VAddr (Address 5), VInt 100]),
      ([''transfer''], [VAddr (Address 5), VAddr (Address 2), VInt 30])],
     tok_Admin = Some (Address 0), tok_Balance = [Address 5 \<mapsto> 70, Address 2 \<mapsto> 30],
     tok_TotalSupply = Some 100\<rparr>"
  by (simp add: token_demo_def token_demo_calls_def token_empty_def token_defs signed_env_def
      token_balance_def token_total_supply_def token_set_balance_def publish_def checked_ops
      in_range_def)

lemma token_demo_balances:
  "token_balance token_demo (Address 5) = 70" "token_balance token_demo (Address 2) = 30"
  by (simp_all add: token_balance_def token_demo_eq)

theorem token_supply_is_sum_of_balances_witness:
  "token_total_supply token_demo = 100
   \<and> (\<Sum>a | tok_Balance token_demo a \<noteq> None. token_balance token_demo a) = 100"
  using token_supply_is_sum_of_balances [OF token_demo_reachable]
  by (simp add: token_total_supply_def token_demo_eq)

theorem token_debits_authorized_witness:
  "\<exists>ys e c zs. [(signed_env [Address 2] 4, TTransfer (Address 2) (Address 5) 10)] = ys @ (e, c) # zs
     \<and> authorized e (Address 2)
     \<and> ((\<exists>n. c = TBurn (Address 2) n) \<or> (\<exists>b n. c = TTransfer (Address 2) b n))"
  by (rule token_debits_authorized [of _ token_demo])
     (simp add: token_demo_eq token_defs signed_env_def token_balance_def token_set_balance_def
        publish_def checked_ops in_range_def)

theorem token_transfer_exact_witness:
  "\<exists>s'. token_transfer (signed_env [Address 2] 4) (Address 2) (Address 5) 10 token_demo = Ok s'
     \<and> token_balance s' (Address 5) = 80"
  using token_transfer_exact [OF token_demo_reachable,
      of "signed_env [Address 2] 4" "Address 2" "Address 5" 10]
  by (auto simp: signed_env_def token_demo_balances)

end
