(* ===== verification/Soroban_Bytes.thy ===== *)
theory Soroban_Bytes
  imports Soroban_Prelude "HOL-Library.Word"
begin

text \<open>
  Byte strings (\<^verbatim>\<open>Bytes\<close>, \<^verbatim>\<open>BytesN\<close>) as lists of 8-bit words, and Rust's \<^verbatim>\<open>to_be_bytes\<close>: the big-endian
  two's complement in a fixed number of bytes, which loses nothing on the range of its type.
\<close>

type_synonym byte = "8 word"
type_synonym bytes = "byte list"

definition be_bytes :: "nat \<Rightarrow> int \<Rightarrow> bytes" where
  "be_bytes k n = map (\<lambda>i. word_of_int (n div 2 ^ (8 * (k - 1 - i)))) [0..<k]"

text \<open>A byte string as event data.\<close>

definition vbytes :: "bytes \<Rightarrow> sc_val" where
  "vbytes b = VBytes (map uint b)"

lemma length_be_bytes [simp]: "length (be_bytes k n) = k"
  by (simp add: be_bytes_def)

lemma byte_eq: "(word_of_int a :: byte) = word_of_int b \<longleftrightarrow> a mod 256 = b mod 256"
  by (simp add: word_of_int_eq_iff take_bit_eq_mod)

lemma div_mod_step: "(a::int) div 2 ^ k mod 256 = b div 2 ^ k mod 256 \<Longrightarrow> a mod 2 ^ k = b mod 2 ^ k
   \<Longrightarrow> a mod 2 ^ (k + 8) = b mod 2 ^ (k + 8)"
  by (simp add: power_add mod_mult2_eq zmod_zmult2_eq)

lemma be_bytes_mod:
  assumes "be_bytes w a = be_bytes w b"
  shows "k \<le> w \<Longrightarrow> a mod 2 ^ (8 * k) = b mod 2 ^ (8 * k)"
proof (induction k)
  case (Suc k)
  from assms have "be_bytes w a ! (w - 1 - k) = be_bytes w b ! (w - 1 - k)" by simp
  then have "a div 2 ^ (8 * k) mod 256 = b div 2 ^ (8 * k) mod 256"
    using Suc.prems by (simp add: be_bytes_def byte_eq)
  with div_mod_step [OF this] Suc show ?case by (simp add: add.commute)
qed simp

lemma be_bytes_inject_unsigned:
  assumes "be_bytes w a = be_bytes w b" and "0 \<le> a" "a < 2 ^ (8 * w)" and "0 \<le> b" "b < 2 ^ (8 * w)"
  shows "a = b"
  using be_bytes_mod [OF assms(1) order_refl] assms(2-) by simp

lemma be_bytes_inject:
  assumes "be_bytes 16 a = be_bytes 16 b" and "in_range I128 a" and "in_range I128 b"
  shows "a = b"
proof -
  have "a mod 2 ^ 128 = b mod 2 ^ 128"
    using be_bytes_mod [OF assms(1), of 16] by simp
  then have "(a + 2 ^ 127) mod 2 ^ 128 = (b + 2 ^ 127) mod 2 ^ 128"
    by (metis mod_add_left_eq)
  moreover have "(a + 2 ^ 127) mod 2 ^ 128 = a + 2 ^ 127" "(b + 2 ^ 127) mod 2 ^ 128 = b + 2 ^ 127"
    using assms(2,3) by (auto simp: in_range_def intro!: mod_pos_pos_trivial)
  ultimately show ?thesis by simp
qed

end
