(* ===== verification/Merkle_Airdrop.thy ===== *)
theory Merkle_Airdrop
  imports Secure_Token Soroban_Bytes
begin

text \<open>
  The Merkle-proof airdrop (\<^verbatim>\<open>src/secure/secure_airdrop/src/lib.rs\<close>). Three things it calls are not in
  the repository and are parameters: the host's \<^verbatim>\<open>sha256\<close>, the XDR encoding of an address, and the
  \<^verbatim>\<open>transfer\<close> of the token contract whose address is given at initialisation. Shown: every leaf of the
  tree behind the root has a proof that verifies; a proof that verifies is for a leaf of the tree,
  unless verification and tree hash two different inputs to the same value; no address claims twice,
  whatever the token does; with the repository's own token (\<^verbatim>\<open>Secure_Token\<close>) a claim moves exactly the
  proved amount out of the pool.
\<close>

text \<open>The code outside the repository. \<^verbatim>\<open>'w\<close> is the state of the token contracts.\<close>

record 'w externals =
  sha256 :: "bytes \<Rightarrow> bytes"
  to_xdr :: "address \<Rightarrow> bytes"
  ext_transfer :: "env \<Rightarrow> address \<Rightarrow> address \<Rightarrow> address \<Rightarrow> int \<Rightarrow> 'w \<Rightarrow> 'w result"

text \<open>The order of \<^verbatim>\<open>BytesN\<close>: lexicographic.\<close>

fun bytes_le :: "bytes \<Rightarrow> bytes \<Rightarrow> bool" where
  "bytes_le [] ys \<longleftrightarrow> True"
| "bytes_le (x # xs) [] \<longleftrightarrow> False"
| "bytes_le (x # xs) (y # ys) \<longleftrightarrow> x < y \<or> x = y \<and> bytes_le xs ys"

record merkle_airdrop = host +
  mer_Admin :: "address option"
  mer_MerkleRoot :: "bytes option"
  mer_Token :: "address option"
  mer_Claimed :: "address \<rightharpoonup> bool"

definition merkle_empty :: merkle_airdrop where
  "merkle_empty = \<lparr>events = [], mer_Admin = None, mer_MerkleRoot = None, mer_Token = None,
     mer_Claimed = Map.empty\<rparr>"

section \<open>Operations\<close>

definition leaf_data :: "'w externals \<Rightarrow> address \<Rightarrow> int \<Rightarrow> bytes" where
  "leaf_data x claimant amount = to_xdr x claimant @ be_bytes 16 amount"

definition leaf_hash :: "'w externals \<Rightarrow> address \<Rightarrow> int \<Rightarrow> bytes" where
  "leaf_hash x claimant amount = sha256 x (leaf_data x claimant amount)"

definition pair_data :: "bytes \<Rightarrow> bytes \<Rightarrow> bytes" where
  "pair_data a b = (if bytes_le a b then a @ b else b @ a)"

definition hash_pair :: "'w externals \<Rightarrow> bytes \<Rightarrow> bytes \<Rightarrow> bytes" where
  "hash_pair x a b = sha256 x (pair_data a b)"

fun merkle_fold :: "'w externals \<Rightarrow> bytes \<Rightarrow> bytes list \<Rightarrow> bytes" where
  "merkle_fold x node [] = node"
| "merkle_fold x node (sibling # proof_rest) = merkle_fold x (hash_pair x node sibling) proof_rest"

definition verify_merkle_proof ::
    "'w externals \<Rightarrow> merkle_airdrop \<Rightarrow> address \<Rightarrow> int \<Rightarrow> bytes list \<Rightarrow> unit result" where
  "verify_merkle_proof x s claimant amount path =
     expect (mer_MerkleRoot s) ''not initialized'' (\<lambda>root.
     ensure (merkle_fold x (leaf_hash x claimant amount) path = root) ''invalid merkle proof'' (
     Ok ()))"

definition is_claimed :: "merkle_airdrop \<Rightarrow> address \<Rightarrow> bool" where
  "is_claimed s claimant = unwrap_or (mer_Claimed s claimant) False"

definition mark_claimed :: "address \<Rightarrow> merkle_airdrop \<Rightarrow> merkle_airdrop" where
  "mark_claimed claimant s = s\<lparr>mer_Claimed := (mer_Claimed s)(claimant \<mapsto> True)\<rparr>"

definition merkle_initialize ::
    "env \<Rightarrow> address \<Rightarrow> bytes \<Rightarrow> address \<Rightarrow> merkle_airdrop \<times> 'w \<Rightarrow> (merkle_airdrop \<times> 'w) result" where
  "merkle_initialize e admin merkle_root token = (\<lambda>(s, w).
     ensure (mer_Admin s = None) ''already initialized'' (
     Ok (s\<lparr>mer_Admin := Some admin, mer_MerkleRoot := Some merkle_root, mer_Token := Some token\<rparr>, w)))"

text \<open>In a direct call to another contract the calling contract's own address is authorised.\<close>

definition as_contract :: "env \<Rightarrow> env" where
  "as_contract e = e\<lparr>authorized := (\<lambda>a. authorized e a \<or> a = current_contract e)\<rparr>"

definition merkle_fund ::
    "'w externals \<Rightarrow> env \<Rightarrow> int \<Rightarrow> merkle_airdrop \<times> 'w \<Rightarrow> (merkle_airdrop \<times> 'w) result" where
  "merkle_fund x e amount = (\<lambda>(s, w).
     expect (mer_Admin s) ''not initialized'' (\<lambda>admin.
     require_auth e admin (
     unwrap (mer_Token s) (\<lambda>token.
     and_then (ext_transfer x (as_contract e) token admin (current_contract e) amount w) (\<lambda>w'.
     Ok (publish [''fund''] [VAddr admin, VInt amount] s, w'))))))"

definition merkle_claim ::
    "'w externals \<Rightarrow> env \<Rightarrow> address \<Rightarrow> int \<Rightarrow> bytes list \<Rightarrow> merkle_airdrop \<times> 'w
     \<Rightarrow> (merkle_airdrop \<times> 'w) result" where
  "merkle_claim x e claimant amount path = (\<lambda>(s, w).
     require_auth e claimant (
     ensure (\<not> is_claimed s claimant) ''already claimed'' (
     and_then (verify_merkle_proof x s claimant amount path) (\<lambda>_.
     let s1 = mark_claimed claimant s in
     unwrap (mer_Token s1) (\<lambda>token.
     and_then (ext_transfer x (as_contract e) token (current_contract e) claimant amount w) (\<lambda>w'.
     Ok (publish [''claim''] [VAddr claimant, VInt amount] s1, w')))))))"

definition merkle_get_claimed :: "merkle_airdrop \<Rightarrow> address \<Rightarrow> bool" where
  "merkle_get_claimed s a = is_claimed s a"

datatype merkle_call =
    MInitialize address bytes address
  | MFund int
  | MClaim address int "bytes list"

fun merkle_exec ::
    "'w externals \<Rightarrow> env \<Rightarrow> merkle_call \<Rightarrow> merkle_airdrop \<times> 'w \<Rightarrow> (merkle_airdrop \<times> 'w) result" where
  "merkle_exec x e (MInitialize a r t) sw = merkle_initialize e a r t sw"
| "merkle_exec x e (MFund n) sw = merkle_fund x e n sw"
| "merkle_exec x e (MClaim a n p) sw = merkle_claim x e a n p sw"

lemma merkle_claim_Ok:
  "merkle_claim x e a n p (s, w) = Ok (s', w') \<longleftrightarrow>
     authorized e a \<and> \<not> is_claimed s a \<and> verify_merkle_proof x s a n p = Ok ()
     \<and> (\<exists>t. mer_Token s = Some t
          \<and> ext_transfer x (as_contract e) t (current_contract e) a n w = Ok w')
     \<and> s' = publish [''claim''] [VAddr a, VInt n] (mark_claimed a s)"
  by (auto simp: merkle_claim_def result_simps Let_def mark_claimed_def)

lemma is_claimed_simps [simp]:
  "is_claimed (publish t d s) a = is_claimed s a"
  "is_claimed (mark_claimed b s) a \<longleftrightarrow> a = b \<or> is_claimed s a"
  by (auto simp: is_claimed_def mark_claimed_def publish_def)

section \<open>The tree behind the root\<close>

datatype mtree =
    MLeaf address int
  | MNode mtree mtree

fun mtree_root :: "'w externals \<Rightarrow> mtree \<Rightarrow> bytes" where
  "mtree_root x (MLeaf a n) = leaf_hash x a n"
| "mtree_root x (MNode l r) = hash_pair x (mtree_root x l) (mtree_root x r)"

fun mtree_leaves :: "mtree \<Rightarrow> (address \<times> int) list" where
  "mtree_leaves (MLeaf a n) = [(a, n)]"
| "mtree_leaves (MNode l r) = mtree_leaves l @ mtree_leaves r"

text \<open>The proofs that an off-chain tool derives from the tree, one per leaf.\<close>

fun mtree_proofs :: "'w externals \<Rightarrow> mtree \<Rightarrow> ((address \<times> int) \<times> bytes list) list" where
  "mtree_proofs x (MLeaf a n) = [((a, n), [])]"
| "mtree_proofs x (MNode l r) =
     map (\<lambda>(an, p). (an, p @ [mtree_root x r])) (mtree_proofs x l)
     @ map (\<lambda>(an, p). (an, p @ [mtree_root x l])) (mtree_proofs x r)"

text \<open>The inputs that the tree and a verification give to the hash function.\<close>

fun mtree_inputs :: "'w externals \<Rightarrow> mtree \<Rightarrow> bytes list" where
  "mtree_inputs x (MLeaf a n) = [leaf_data x a n]"
| "mtree_inputs x (MNode l r) =
     pair_data (mtree_root x l) (mtree_root x r) # mtree_inputs x l @ mtree_inputs x r"

fun fold_inputs :: "'w externals \<Rightarrow> bytes \<Rightarrow> bytes list \<Rightarrow> bytes list" where
  "fold_inputs x node [] = []"
| "fold_inputs x node (b # bs) = pair_data node b # fold_inputs x (hash_pair x node b) bs"

definition verify_inputs :: "'w externals \<Rightarrow> address \<Rightarrow> int \<Rightarrow> bytes list \<Rightarrow> bytes list" where
  "verify_inputs x a n path = leaf_data x a n # fold_inputs x (leaf_hash x a n) path"

text \<open>No two different inputs, one from each list, hash to the same value.\<close>

definition no_collision :: "'w externals \<Rightarrow> bytes list \<Rightarrow> bytes list \<Rightarrow> bool" where
  "no_collision x us vs \<longleftrightarrow> (\<forall>u\<in>set us. \<forall>v\<in>set vs. sha256 x u = sha256 x v \<longrightarrow> u = v)"

section \<open>Bytes\<close>

lemma bytes_le_total: "bytes_le a b \<or> bytes_le b a"
  by (induction a b rule: bytes_le.induct) auto

lemma bytes_le_antisym: "bytes_le a b \<Longrightarrow> bytes_le b a \<Longrightarrow> a = b"
proof (induction a b rule: bytes_le.induct)
  case (1 ys)
  then show ?case by (cases ys) auto
qed auto

lemma pair_data_commute: "pair_data a b = pair_data b a"
  using bytes_le_total [of a b] bytes_le_antisym [of a b] by (auto simp: pair_data_def)

lemma hash_pair_commute: "hash_pair x a b = hash_pair x b a"
  by (simp add: hash_pair_def pair_data_commute)

lemma pair_data_inject:
  assumes "pair_data a b = pair_data c d" and "length a = 32" "length b = 32" "length c = 32" "length d = 32"
  shows "a = c \<or> a = d"
  using assms by (auto simp: pair_data_def split: if_splits)

lemma length_pair_data [simp]: "length (pair_data a b) = length a + length b"
  by (simp add: pair_data_def)

section \<open>Proofs\<close>

text \<open>
  What the airdrop relies on: a digest has 32 bytes; the XDR encoding of addresses is injective and
  never 48 bytes long (it is 40 bytes for a contract and 44 for an account), so the encoding of a
  leaf is never as long as that of an inner node.
\<close>

definition sane_externals :: "'w externals \<Rightarrow> bool" where
  "sane_externals x \<longleftrightarrow> (\<forall>d. length (sha256 x d) = 32) \<and> inj (to_xdr x) \<and> (\<forall>a. length (to_xdr x a) \<noteq> 48)"

lemma merkle_fold_snoc: "merkle_fold x node (p @ [b]) = hash_pair x (merkle_fold x node p) b"
  by (induction p arbitrary: node) auto

lemma fold_inputs_snoc:
  "fold_inputs x node (p @ [b]) = fold_inputs x node p @ [pair_data (merkle_fold x node p) b]"
  by (induction p arbitrary: node) auto

lemma verify_inputs_snoc:
  "verify_inputs x a n (p @ [b])
     = verify_inputs x a n p @ [pair_data (merkle_fold x (leaf_hash x a n) p) b]"
  by (simp add: verify_inputs_def fold_inputs_snoc)

lemma mtree_root_length: "sane_externals x \<Longrightarrow> length (mtree_root x t) = 32"
  by (cases t) (simp_all add: leaf_hash_def hash_pair_def sane_externals_def)

lemma merkle_fold_length:
  "sane_externals x \<Longrightarrow> length (merkle_fold x (leaf_hash x a n) p) = 32"
  by (cases p rule: rev_cases)
     (simp_all add: merkle_fold_snoc leaf_hash_def hash_pair_def sane_externals_def)

lemma leaf_data_inject:
  assumes "sane_externals x" and "leaf_data x a n = leaf_data x b m"
    and "in_range I128 n" and "in_range I128 m"
  shows "a = b \<and> n = m"
proof -
  have "to_xdr x a = to_xdr x b" "be_bytes 16 n = be_bytes 16 m"
    using assms(2) append_eq_append_conv [of "to_xdr x a" "to_xdr x b" "be_bytes 16 n" "be_bytes 16 m"]
    by (auto simp: leaf_data_def)
  with assms show ?thesis
    by (auto simp: sane_externals_def dest: injD be_bytes_inject)
qed

lemma leaf_data_not_pair:
  assumes "sane_externals x" and "length a = 32" and "length b = 32"
  shows "leaf_data x c n \<noteq> pair_data a b"
proof
  assume "leaf_data x c n = pair_data a b"
  then have "length (leaf_data x c n) = length (pair_data a b)" by simp
  with assms show False by (simp add: leaf_data_def sane_externals_def)
qed

lemma no_collisionD:
  "no_collision x us vs \<Longrightarrow> u \<in> set us \<Longrightarrow> v \<in> set vs \<Longrightarrow> sha256 x u = sha256 x v \<Longrightarrow> u = v"
  by (auto simp: no_collision_def)

lemma no_collision_mono:
  "no_collision x us vs \<Longrightarrow> set us' \<subseteq> set us \<Longrightarrow> set vs' \<subseteq> set vs \<Longrightarrow> no_collision x us' vs'"
  by (auto simp: no_collision_def)

lemma merkle_fold_sound:
  assumes sane: "sane_externals x" and n: "in_range I128 n"
  shows "merkle_fold x (leaf_hash x a n) p = mtree_root x t \<Longrightarrow> \<forall>b\<in>set p. length b = 32
    \<Longrightarrow> \<forall>(c, m)\<in>set (mtree_leaves t). in_range I128 m
    \<Longrightarrow> no_collision x (verify_inputs x a n p) (mtree_inputs x t) \<Longrightarrow> (a, n) \<in> set (mtree_leaves t)"
proof (induction p arbitrary: t rule: rev_induct)
  case Nil
  show ?case
  proof (cases t)
    case (MLeaf c m)
    with Nil have "leaf_data x a n = leaf_data x c m"
      by - (rule no_collisionD [OF Nil.prems(4)], simp_all add: verify_inputs_def leaf_hash_def)
    with Nil MLeaf leaf_data_inject [OF sane, of a n c m] n show ?thesis by simp
  next
    case (MNode l r)
    with Nil have "leaf_data x a n = pair_data (mtree_root x l) (mtree_root x r)"
      by - (rule no_collisionD [OF Nil.prems(4)], simp_all add: verify_inputs_def leaf_hash_def hash_pair_def)
    with leaf_data_not_pair [OF sane mtree_root_length [OF sane] mtree_root_length [OF sane]]
    show ?thesis by blast
  qed
next
  case (snoc b p)
  let ?m = "merkle_fold x (leaf_hash x a n) p"
  have len: "length ?m = 32" "length b = 32"
    using snoc.prems(2) by (auto simp: merkle_fold_length [OF sane])
  show ?case
  proof (cases t)
    case (MLeaf c k)
    with snoc.prems have "pair_data ?m b = leaf_data x c k"
      by - (rule no_collisionD [OF snoc.prems(4)], simp_all add: verify_inputs_snoc merkle_fold_snoc hash_pair_def leaf_hash_def)
    with leaf_data_not_pair [OF sane len] show ?thesis by metis
  next
    case (MNode l r)
    with snoc.prems have "pair_data ?m b = pair_data (mtree_root x l) (mtree_root x r)"
      by - (rule no_collisionD [OF snoc.prems(4)], simp_all add: verify_inputs_snoc merkle_fold_snoc hash_pair_def)
    from pair_data_inject [OF this len mtree_root_length [OF sane] mtree_root_length [OF sane]]
    obtain u where u: "?m = mtree_root x u" "u = l \<or> u = r" by blast
    have "(a, n) \<in> set (mtree_leaves u)"
      using snoc.prems u(2) MNode
      by (intro snoc.IH [OF u(1)]) (auto elim!: no_collision_mono simp: verify_inputs_snoc)
    with u(2) MNode show ?thesis by auto
  qed
qed

lemma mtree_proofs_fold:
  "((a, n), p) \<in> set (mtree_proofs x t) \<Longrightarrow> merkle_fold x (leaf_hash x a n) p = mtree_root x t"
proof (induction t arbitrary: p)
  case (MNode l r)
  then show ?case
    by (auto simp: merkle_fold_snoc hash_pair_commute [of x "mtree_root x l" "mtree_root x r"])
qed simp

lemma mtree_proofs_leaves: "map fst (mtree_proofs x t) = mtree_leaves t"
  by (induction t) (simp_all add: case_prod_unfold comp_def)

section \<open>Claims along a run\<close>

fun claimant :: "merkle_call \<Rightarrow> address option" where
  "claimant (MClaim a n p) = Some a"
| "claimant (MInitialize a r t) = None"
| "claimant (MFund n) = None"

interpretation claim_flags: single_use "merkle_exec x" claimant "\<lambda>(s, w). is_claimed s"
  for x :: "'w externals"
proof (unfold_locales, goal_cases)
  case (1 e c sw sw' k)
  obtain s w s' w' where eq: "sw = (s, w)" "sw' = (s', w')" by force
  with 1 show ?case by (cases c) (auto simp: merkle_claim_Ok)
next
  case (2 e c sw sw' k)
  obtain s w s' w' where eq: "sw = (s, w)" "sw' = (s', w')" by force
  with 2 show ?case
  proof (cases c)
    case (MClaim a n p)
    with 2 eq show ?thesis by (auto simp: merkle_claim_Ok)
  qed (auto simp: merkle_initialize_def merkle_fund_def result_simps is_claimed_def publish_def)
qed

section \<open>The token behind the airdrop\<close>

text \<open>
  A token as the airdrop needs it: a successful transfer moves exactly the amount. What a claim does
  to the balances follows for every such token; the repository's own token is one.
\<close>

locale token_ledger =
  fixes transfer :: "env \<Rightarrow> address \<Rightarrow> address \<Rightarrow> int \<Rightarrow> 'w \<Rightarrow> 'w result"
    and bal :: "'w \<Rightarrow> address \<Rightarrow> int"
  assumes transfer_moves: "transfer e a b n w = Ok w' \<Longrightarrow>
      a \<noteq> b \<and> 0 < n \<and> bal w' = (bal w)(a := bal w a - n, b := bal w b + n)"
begin

lemma claim_pays:
  assumes "merkle_claim x e a n p (s, w) = Ok (s', w')"
    and "\<And>e t. ext_transfer x e t = transfer e"
  shows "bal w' = (bal w)(current_contract e := bal w (current_contract e) - n, a := bal w a + n)
    \<and> 0 < n \<and> a \<noteq> current_contract e"
proof -
  from assms obtain w1 where "transfer (as_contract e) (current_contract e) a n w = Ok w'"
    by (auto simp: merkle_claim_Ok)
  from transfer_moves [OF this] show ?thesis by auto
qed

end

interpretation own_token: token_ledger token_transfer token_balance
proof (unfold_locales, goal_cases)
  case (1 e a b n w w')
  then have "a \<noteq> b" "0 < n" and "token_balance w' = token_balance (token_store.move a b n w)"
    by (auto simp: token_transfer_Ok token_balance_def)
  then show ?case by (auto simp: token_store.bal_move)
qed

section \<open>Properties\<close>

text \<open>
  C22: No address is paid twice: whatever the token does and whatever proofs are supplied, the
  claimants of the successful claims of a run are pairwise different and none of them had claimed
  before the run.
\<close>

theorem merkle_claims_once:
  "distinct (List.map_filter claimant (successes (merkle_exec x) xs (s, w)))
   \<and> (\<forall>a\<in>set (List.map_filter claimant (successes (merkle_exec x) xs (s, w))). \<not> is_claimed s a)"
  using claim_flags.keys_once [of x xs "(s, w)"] by simp

text \<open>
  C23: Completeness: when the stored root is that of a tree, every leaf of the tree has a proof
  among those derived from the tree, and each of these proofs verifies.
\<close>

theorem merkle_proofs_complete:
  assumes "mer_MerkleRoot s = Some (mtree_root x t)"
  shows "map fst (mtree_proofs x t) = mtree_leaves t
    \<and> (\<forall>((a, n), p)\<in>set (mtree_proofs x t). verify_merkle_proof x s a n p = Ok ())"
  using assms by (auto simp: mtree_proofs_leaves verify_merkle_proof_def mtree_proofs_fold)

text \<open>
  C24: Soundness: when the stored root is that of a tree and a claim succeeds, the claimant signed
  and the pair of claimant and amount is a leaf of the tree, provided that the inputs hashed for
  this claim and those of the tree do not collide. In particular an inner node cannot be passed off
  as a leaf.
\<close>

theorem merkle_claim_sound:
  assumes "merkle_claim x e a n p (s, w) = Ok (s', w')" and "mer_MerkleRoot s = Some (mtree_root x t)"
    and "sane_externals x" and "no_collision x (verify_inputs x a n p) (mtree_inputs x t)"
    and "\<forall>b\<in>set p. length b = 32" and "in_range I128 n"
    and "\<forall>(c, m)\<in>set (mtree_leaves t). in_range I128 m"
  shows "authorized e a \<and> (a, n) \<in> set (mtree_leaves t)"
proof -
  from assms(1,2) have "authorized e a" "merkle_fold x (leaf_hash x a n) p = mtree_root x t"
    by (auto simp: merkle_claim_Ok verify_merkle_proof_def result_simps)
  with merkle_fold_sound [OF assms(3,6) _ assms(5,7,4)] show ?thesis by simp
qed

text \<open>
  With the repository's token behind it, a successful claim moves exactly the claimed amount,
  which is positive, from the airdrop contract to the claimant, changes no other balance, and leaves
  the claimant marked.
\<close>

theorem merkle_claim_pays_exactly:
  assumes "merkle_claim x e a n p (s, w) = Ok (s', w')"
    and "ext_transfer x = (\<lambda>e t. token_transfer e)"
  shows "token_balance w' = (token_balance w)
      (current_contract e := token_balance w (current_contract e) - n, a := token_balance w a + n)
    \<and> 0 < n \<and> \<not> is_claimed s a \<and> is_claimed s' a"
  using own_token.claim_pays [OF assms(1)] assms by (auto simp: merkle_claim_Ok)

section \<open>A concrete airdrop\<close>

text \<open>
  A stand-in for the host functions on which the hypotheses can be checked: a 32-byte checksum and an
  injective address encoding. Two recipients, one tree.
\<close>

definition demo_ext :: "secure_token externals" where
  "demo_ext = \<lparr>sha256 = (\<lambda>d. word_of_nat (length d) # sum_list d # replicate 30 0),
     to_xdr = (\<lambda>a. replicate (if addr_id a < 48 then addr_id a else addr_id a + 1) 0),
     ext_transfer = (\<lambda>e t. token_transfer e)\<rparr>"

definition demo_tree :: mtree where
  "demo_tree = MNode (MLeaf (Address 5) 70) (MLeaf (Address 6) 30)"

definition demo_airdrop :: merkle_airdrop where
  "demo_airdrop = \<lparr>events = [], mer_Admin = Some (Address 7),
     mer_MerkleRoot = Some (mtree_root demo_ext demo_tree), mer_Token = Some (Address 8),
     mer_Claimed = Map.empty\<rparr>"

definition demo_pool :: secure_token where
  "demo_pool = \<lparr>events = [], tok_Admin = Some (Address 7), tok_Balance = [Address 99 \<mapsto> 100],
     tok_TotalSupply = Some 100\<rparr>"

definition demo_proof :: "bytes list" where
  "demo_proof = [leaf_hash demo_ext (Address 6) 30]"

lemma demo_ext_sane: "sane_externals demo_ext"
proof -
  have "a = b" if "to_xdr demo_ext a = to_xdr demo_ext b" for a b
  proof -
    from that have "length (to_xdr demo_ext a) = length (to_xdr demo_ext b)" by simp
    then show ?thesis by (cases a; cases b) (auto simp: demo_ext_def split: if_splits)
  qed
  then show ?thesis
    by (auto simp: sane_externals_def demo_ext_def inj_def)
qed

lemma demo_inputs:
  "set (verify_inputs demo_ext (Address 5) 70 demo_proof) \<subseteq> set (mtree_inputs demo_ext demo_tree)"
  by (simp add: verify_inputs_def demo_proof_def demo_tree_def)

lemma demo_no_collision:
  "no_collision demo_ext (verify_inputs demo_ext (Address 5) 70 demo_proof) (mtree_inputs demo_ext demo_tree)"
proof -
  let ?in = "mtree_inputs demo_ext demo_tree"
  have "u = v" if "u \<in> set ?in" "v \<in> set ?in" "sha256 demo_ext u = sha256 demo_ext v" for u v
    using that
    by (auto simp: demo_tree_def leaf_data_def leaf_hash_def demo_ext_def)
  then have "no_collision demo_ext ?in ?in" by (simp add: no_collision_def)
  then show ?thesis by (rule no_collision_mono) (simp_all add: demo_inputs)
qed

lemma demo_verify: "verify_merkle_proof demo_ext demo_airdrop (Address 5) 70 demo_proof = Ok ()"
  by (simp add: verify_merkle_proof_def demo_airdrop_def demo_tree_def demo_proof_def)

lemma demo_claim:
  "\<exists>s' w'. merkle_claim demo_ext (signed_env [Address 5] 9) (Address 5) 70 demo_proof
     (demo_airdrop, demo_pool) = Ok (s', w')"
proof -
  have "\<exists>w'. token_transfer (as_contract (signed_env [Address 5] 9)) (Address 99) (Address 5) 70 demo_pool
      = Ok w'"
    by (simp add: token_transfer_def as_contract_def signed_env_def demo_pool_def token_balance_def
        checked_ops in_range_def Let_def)
  moreover have "current_contract (signed_env [Address 5] 9) = Address 99"
    "authorized (signed_env [Address 5] 9) (Address 5)"
    by (simp_all add: signed_env_def)
  moreover have "mer_Token demo_airdrop = Some (Address 8)" "\<not> is_claimed demo_airdrop (Address 5)"
    "ext_transfer demo_ext = (\<lambda>e t. token_transfer e)"
    by (simp_all add: demo_airdrop_def is_claimed_def demo_ext_def)
  ultimately show ?thesis by (simp add: merkle_claim_Ok demo_verify)
qed

theorem merkle_proofs_complete_witness:
  "verify_merkle_proof demo_ext demo_airdrop (Address 5) 70 demo_proof = Ok ()
   \<and> map fst (mtree_proofs demo_ext demo_tree) = [(Address 5, 70), (Address 6, 30)]"
proof -
  have "mer_MerkleRoot demo_airdrop = Some (mtree_root demo_ext demo_tree)"
    by (simp add: demo_airdrop_def)
  from merkle_proofs_complete [OF this] show ?thesis
    by (simp add: demo_tree_def demo_proof_def)
qed

theorem merkle_claim_sound_witness:
  "\<exists>s' w'. merkle_claim demo_ext (signed_env [Address 5] 9) (Address 5) 70 demo_proof
      (demo_airdrop, demo_pool) = Ok (s', w')
    \<and> (Address 5, 70) \<in> set (mtree_leaves demo_tree)"
proof -
  obtain s' w' where ok: "merkle_claim demo_ext (signed_env [Address 5] 9) (Address 5) 70 demo_proof
      (demo_airdrop, demo_pool) = Ok (s', w')"
    using demo_claim by blast
  have "mer_MerkleRoot demo_airdrop = Some (mtree_root demo_ext demo_tree)"
    by (simp add: demo_airdrop_def)
  from merkle_claim_sound [OF ok this demo_ext_sane demo_no_collision] ok show ?thesis
    by (simp add: demo_proof_def demo_tree_def leaf_hash_def demo_ext_def in_range_def)
qed

theorem merkle_claim_pays_exactly_witness:
  "\<exists>s' w'. merkle_claim demo_ext (signed_env [Address 5] 9) (Address 5) 70 demo_proof
      (demo_airdrop, demo_pool) = Ok (s', w')
    \<and> token_balance w' (Address 5) = 70 \<and> token_balance w' (Address 99) = 30"
proof -
  obtain s' w' where ok: "merkle_claim demo_ext (signed_env [Address 5] 9) (Address 5) 70 demo_proof
      (demo_airdrop, demo_pool) = Ok (s', w')"
    using demo_claim by blast
  have "token_balance w' = (token_balance demo_pool)(Address 99 := token_balance demo_pool (Address 99) - 70,
      Address 5 := token_balance demo_pool (Address 5) + 70)"
    using merkle_claim_pays_exactly [OF ok] by (simp add: demo_ext_def signed_env_def)
  moreover have "token_balance demo_pool (Address 99) = 100" "token_balance demo_pool (Address 5) = 0"
    by (simp_all add: demo_pool_def token_balance_def)
  ultimately show ?thesis using ok by simp
qed

text \<open>Claiming the same leaf a second time fails: the run makes one claim.\<close>

theorem merkle_claims_once_witness:
  "distinct (List.map_filter claimant (successes (merkle_exec demo_ext)
     [(signed_env [Address 5] 9, MClaim (Address 5) 70 demo_proof),
      (signed_env [Address 5] 10, MClaim (Address 5) 70 demo_proof)] (demo_airdrop, demo_pool)))"
  by (rule conjunct1 [OF merkle_claims_once])

end
