(* ===== verification/Secure_Vault.thy ===== *)
theory Secure_Vault
  imports Soroban_Prelude
begin

text \<open>
  Three single-map balance contracts: \<^verbatim>\<open>src/secure/secure_vault/src/lib.rs\<close> (mint, burn, transfer),
  \<^verbatim>\<open>src/secure/secure_burn/src/lib.rs\<close> and \<^verbatim>\<open>src/secure/secure_transfer/src/lib.rs\<close>. Each reads both
  balances of a transfer before it writes; the interface \<^verbatim>\<open>balance_store\<close> gives the effect on sums of
  balances. Shown: what a vault transfer does to the sum over any set of accounts, the aliased case
  \<^verbatim>\<open>from = to\<close> and negative amounts included; that the guard of \<^verbatim>\<open>secure_transfer\<close> conserves the sum.
\<close>

section \<open>secure\_vault\<close>

record vault = host +
  vault_Balance :: "address \<rightharpoonup> int"

definition vault_balance :: "vault \<Rightarrow> address \<Rightarrow> int" where
  "vault_balance s account = unwrap_or (vault_Balance s account) 0"

definition vault_set :: "address \<Rightarrow> int \<Rightarrow> vault \<Rightarrow> vault" where
  "vault_set a v s = s\<lparr>vault_Balance := (vault_Balance s)(a \<mapsto> v)\<rparr>"

definition vault_mint :: "env \<Rightarrow> address \<Rightarrow> int \<Rightarrow> vault \<Rightarrow> vault result" where
  "vault_mint e to amount s =
     (let current = vault_balance s to in
      expect (checked_add I128 current amount) ''mint: balance overflow'' (\<lambda>new_balance.
      Ok (publish [''mint''] [VAddr to, VInt amount] (vault_set to new_balance s))))"

definition vault_burn :: "env \<Rightarrow> address \<Rightarrow> int \<Rightarrow> vault \<Rightarrow> vault result" where
  "vault_burn e from amount s =
     require_auth e from (
     let current = vault_balance s from in
     expect (checked_sub I128 current amount) ''burn: insufficient balance'' (\<lambda>new_balance.
     ensure (new_balance \<ge> 0) ''burn: insufficient balance'' (
     Ok (publish [''burn''] [VAddr from, VInt amount] (vault_set from new_balance s)))))"

definition vault_transfer :: "env \<Rightarrow> address \<Rightarrow> address \<Rightarrow> int \<Rightarrow> vault \<Rightarrow> vault result" where
  "vault_transfer e from to amount s =
     require_auth e from (
     let from_balance = vault_balance s from;
         to_balance = vault_balance s to in
     expect (checked_sub I128 from_balance amount) ''transfer: insufficient balance'' (\<lambda>new_from.
     ensure (new_from \<ge> 0) ''transfer: insufficient balance'' (
     expect (checked_add I128 to_balance amount) ''transfer: recipient balance overflow'' (\<lambda>new_to.
     Ok (publish [''transfer''] [VAddr from, VAddr to, VInt amount]
          (vault_set to new_to (vault_set from new_from s)))))))"

interpretation vault_store: balance_store vault_balance vault_set
  by unfold_locales (simp add: vault_balance_def vault_set_def)

lemma vault_balance_publish [simp]: "vault_balance (publish t d s) = vault_balance s"
  by (simp add: vault_balance_def publish_def fun_eq_iff)

lemma vault_transfer_Ok:
  "vault_transfer e a b n s = Ok s' \<longleftrightarrow>
     authorized e a \<and> in_range I128 (vault_balance s a - n) \<and> n \<le> vault_balance s a
     \<and> in_range I128 (vault_balance s b + n)
     \<and> s' = publish [''transfer''] [VAddr a, VAddr b, VInt n] (vault_store.move a b n s)"
  by (auto simp: vault_transfer_def result_simps int_simps Let_def)

section \<open>secure\_transfer\<close>

record transfer_guard = host +
  tg_Balance :: "address \<rightharpoonup> int"

definition tg_get_balance :: "transfer_guard \<Rightarrow> address \<Rightarrow> int" where
  "tg_get_balance s account = unwrap_or (tg_Balance s account) 0"

definition tg_set_balance :: "address \<Rightarrow> int \<Rightarrow> transfer_guard \<Rightarrow> transfer_guard" where
  "tg_set_balance account amount s = s\<lparr>tg_Balance := (tg_Balance s)(account \<mapsto> amount)\<rparr>"

definition tg_mint :: "env \<Rightarrow> address \<Rightarrow> int \<Rightarrow> transfer_guard \<Rightarrow> transfer_guard result" where
  "tg_mint e to amount s =
     (let current = tg_get_balance s to in
      expect (checked_add I128 current amount) ''mint overflow'' (\<lambda>v. Ok (tg_set_balance to v s)))"

definition tg_balance :: "transfer_guard \<Rightarrow> address \<Rightarrow> int" where
  "tg_balance s account = tg_get_balance s account"

definition tg_transfer ::
    "env \<Rightarrow> address \<Rightarrow> address \<Rightarrow> int \<Rightarrow> transfer_guard \<Rightarrow> transfer_guard result" where
  "tg_transfer e from to amount s =
     ensure (from \<noteq> to) ''self-transfer not allowed'' (
     require_auth e from (
     let from_balance = tg_get_balance s from;
         to_balance = tg_get_balance s to in
     expect (checked_sub I128 from_balance amount) ''transfer underflow'' (\<lambda>v.
     let s1 = tg_set_balance from v s in
     expect (checked_add I128 to_balance amount) ''transfer overflow'' (\<lambda>w.
     Ok (tg_set_balance to w s1)))))"

interpretation tg_store: balance_store tg_get_balance tg_set_balance
  by unfold_locales (simp add: tg_get_balance_def tg_set_balance_def)

lemma tg_transfer_Ok:
  "tg_transfer e a b n s = Ok s' \<longleftrightarrow>
     a \<noteq> b \<and> authorized e a \<and> in_range I128 (tg_get_balance s a - n)
     \<and> in_range I128 (tg_get_balance s b + n) \<and> s' = tg_store.move a b n s"
  by (auto simp: tg_transfer_def result_simps int_simps Let_def)

section \<open>secure\_burn\<close>

record burn_token = host +
  sb_Balance :: "address \<rightharpoonup> int"

definition sb_get_balance :: "burn_token \<Rightarrow> address \<Rightarrow> int" where
  "sb_get_balance s account = unwrap_or (sb_Balance s account) 0"

definition sb_set_balance :: "address \<Rightarrow> int \<Rightarrow> burn_token \<Rightarrow> burn_token" where
  "sb_set_balance account amount s = s\<lparr>sb_Balance := (sb_Balance s)(account \<mapsto> amount)\<rparr>"

definition sb_mint :: "env \<Rightarrow> address \<Rightarrow> int \<Rightarrow> burn_token \<Rightarrow> burn_token result" where
  "sb_mint e to amount s =
     (let current = sb_get_balance s to in
      expect (checked_add I128 current amount) ''mint overflow'' (\<lambda>v.
      Ok (publish [''mint''] [VAddr to, VInt amount] (sb_set_balance to v s))))"

definition sb_burn :: "env \<Rightarrow> address \<Rightarrow> int \<Rightarrow> burn_token \<Rightarrow> burn_token result" where
  "sb_burn e account amount s =
     require_auth e account (
     let balance = sb_get_balance s account in
     expect (checked_sub I128 balance amount) ''burn underflow'' (\<lambda>v.
     Ok (publish [''burn''] [VAddr account, VInt amount] (sb_set_balance account v s))))"

definition sb_balance :: "burn_token \<Rightarrow> address \<Rightarrow> int" where
  "sb_balance s account = sb_get_balance s account"

interpretation sb_store: balance_store sb_get_balance sb_set_balance
  by unfold_locales (simp add: sb_get_balance_def sb_set_balance_def)

section \<open>Properties\<close>

text \<open>
  A successful vault transfer needs the sender's authorisation and leaves the sender's own
  write non-negative; it changes no third account; over any finite set of accounts that holds both
  parties it keeps the sum of balances when they differ, and adds the amount to the sum when sender
  and receiver are the same account.
\<close>

theorem vault_transfer_effect:
  assumes "vault_transfer e a b n s = Ok s'"
  shows "authorized e a \<and> n \<le> vault_balance s a
    \<and> (\<forall>c. c \<noteq> a \<longrightarrow> c \<noteq> b \<longrightarrow> vault_balance s' c = vault_balance s c)
    \<and> vault_balance s' b = vault_balance s b + n
    \<and> (a \<noteq> b \<longrightarrow> vault_balance s' a = vault_balance s a - n)
    \<and> (\<forall>A. finite A \<longrightarrow> a \<in> A \<longrightarrow> b \<in> A \<longrightarrow>
          (\<Sum>c\<in>A. vault_balance s' c) = (\<Sum>c\<in>A. vault_balance s c) + (if a = b then n else 0))"
  using assms vault_store.sum_move [where x = a and y = b and n = n and s = s]
  by (auto simp: vault_transfer_Ok vault_store.bal_set)

theorem vault_transfer_effect_witness:
  "\<exists>s'. vault_transfer (signed_env [Address 5] 1) (Address 5) (Address 6) 30
        \<lparr>events = [], vault_Balance = [Address 5 \<mapsto> 100]\<rparr> = Ok s'
     \<and> vault_balance s' (Address 6) = 30
     \<and> (\<Sum>c\<in>{Address 5, Address 6}. vault_balance s' c) = 100"
proof -
  let ?s = "\<lparr>events = [], vault_Balance = [Address 5 \<mapsto> 100]\<rparr>"
  obtain s' where ok: "vault_transfer (signed_env [Address 5] 1) (Address 5) (Address 6) 30 ?s = Ok s'"
    by (simp add: vault_transfer_def signed_env_def vault_balance_def checked_ops in_range_def)
  show ?thesis
    using ok vault_transfer_effect [OF ok] by (auto simp: vault_balance_def)
qed

text \<open>
  The vault's \<^verbatim>\<open>transfer\<close> does not bound the amount from below: with a negative amount that
  stays in range, a transfer signed by \<open>a\<close> alone succeeds and takes the amount out of the balance of
  \<open>b\<close>, below zero if need be, without any authorisation by \<open>b\<close>.
\<close>

theorem vault_negative_transfer_pulls_funds:
  assumes "authorized e a" and "a \<noteq> b" and "0 < n"
    and "0 \<le> vault_balance s a" "in_range I128 (vault_balance s a + n)"
    and "in_range I128 (vault_balance s b - n)"
  shows "\<exists>s'. vault_transfer e a b (- n) s = Ok s'
    \<and> vault_balance s' a = vault_balance s a + n \<and> vault_balance s' b = vault_balance s b - n"
  using assms by (auto simp: vault_transfer_Ok vault_store.bal_set)

theorem vault_negative_transfer_pulls_funds_witness:
  "\<exists>s'. vault_transfer (signed_env [Address 5] 1) (Address 5) (Address 6) (- 40)
        \<lparr>events = [], vault_Balance = [Address 6 \<mapsto> 10]\<rparr> = Ok s'
     \<and> vault_balance s' (Address 5) = 40 \<and> vault_balance s' (Address 6) = - 30"
  using vault_negative_transfer_pulls_funds [of "signed_env [Address 5] 1" "Address 5" "Address 6" 40
      "\<lparr>events = [], vault_Balance = [Address 6 \<mapsto> 10]\<rparr>"]
  by (simp add: signed_env_def vault_balance_def in_range_def)

text \<open>
  With the self-transfer guard the sum of balances over any finite set of accounts that holds
  both parties is conserved by every successful transfer, and a self-transfer is refused before
  authorisation or storage is looked at.
\<close>

theorem secure_transfer_conserves:
  shows "(tg_transfer e a b n s = Ok s' \<longrightarrow> finite A \<longrightarrow> a \<in> A \<longrightarrow> b \<in> A \<longrightarrow>
            authorized e a \<and> (\<Sum>c\<in>A. tg_balance s' c) = (\<Sum>c\<in>A. tg_balance s c))
    \<and> tg_transfer e a a n s = Err (Panic ''self-transfer not allowed'')"
  using tg_store.sum_move [where A = A and x = a and y = b and n = n and s = s]
  by (auto simp: tg_transfer_Ok tg_balance_def) (simp add: tg_transfer_def)

theorem secure_transfer_conserves_witness:
  "(\<exists>s'. tg_transfer (signed_env [Address 5] 1) (Address 5) (Address 6) 3
        \<lparr>events = [], tg_Balance = [Address 5 \<mapsto> 10]\<rparr> = Ok s'
      \<and> (\<Sum>c\<in>{Address 5, Address 6}. tg_balance s' c) = 10)"
proof -
  let ?s = "\<lparr>events = [], tg_Balance = [Address 5 \<mapsto> 10]\<rparr>"
  obtain s' where ok: "tg_transfer (signed_env [Address 5] 1) (Address 5) (Address 6) 3 ?s = Ok s'"
    by (simp add: tg_transfer_def signed_env_def tg_get_balance_def checked_ops in_range_def)
  show ?thesis
    using ok secure_transfer_conserves [of _ "Address 5" "Address 6" 3 ?s s' "{Address 5, Address 6}"]
    by (auto simp: tg_balance_def tg_get_balance_def)
qed

end
