(* ===== verification/Token_Mirrors.thy ===== *)
theory Token_Mirrors
  imports Secure_Vault
begin

text \<open>
  The deliberately vulnerable token contracts under \<^verbatim>\<open>src/vulnerable/\<close> beside the contracts that repair
  them, and what the repair is: \<^verbatim>\<open>self_transfer\<close> and \<^verbatim>\<open>secure_transfer\<close>; \<^verbatim>\<open>unprotected_burn\<close> and
  \<^verbatim>\<open>secure_burn\<close>; the two halves of \<^verbatim>\<open>unprotected_mint\<close> and of \<^verbatim>\<open>negative_transfer\<close>; \<^verbatim>\<open>missing_auth\<close>
  and \<^verbatim>\<open>underflow_transfer\<close>, which \<^verbatim>\<open>secure_vault\<close> repairs. Each repair is an instance of the locale
  \<^verbatim>\<open>hardened\<close>: the secure contract runs as the vulnerable one does on the calls its guard admits.
\<close>

section \<open>self\_transfer\<close>

definition st_mint :: "env \<Rightarrow> address \<Rightarrow> int \<Rightarrow> transfer_guard \<Rightarrow> transfer_guard result" where
  "st_mint e recipient amount s =
     (let current = tg_get_balance s recipient in
      expect (checked_add I128 current amount) ''mint overflow'' (\<lambda>v.
      Ok (tg_set_balance recipient v s)))"

definition st_balance :: "transfer_guard \<Rightarrow> address \<Rightarrow> int" where
  "st_balance s account = tg_get_balance s account"

definition st_transfer ::
    "env \<Rightarrow> address \<Rightarrow> address \<Rightarrow> int \<Rightarrow> transfer_guard \<Rightarrow> transfer_guard result" where
  "st_transfer e sender recipient amount s =
     require_auth e sender (
     let from_balance = tg_get_balance s sender;
         to_balance = tg_get_balance s recipient in
     expect (checked_sub I128 from_balance amount) ''transfer underflow'' (\<lambda>v.
     let s1 = tg_set_balance sender v s in
     expect (checked_add I128 to_balance amount) ''transfer overflow'' (\<lambda>w.
     Ok (tg_set_balance recipient w s1))))"

datatype transfer_call =
    XMint address int
  | XTransfer address address int

fun st_exec :: "env \<Rightarrow> transfer_call \<Rightarrow> transfer_guard \<Rightarrow> transfer_guard result" where
  "st_exec e (XMint a n) s = st_mint e a n s"
| "st_exec e (XTransfer a b n) s = st_transfer e a b n s"

fun tg_exec :: "env \<Rightarrow> transfer_call \<Rightarrow> transfer_guard \<Rightarrow> transfer_guard result" where
  "tg_exec e (XMint a n) s = tg_mint e a n s"
| "tg_exec e (XTransfer a b n) s = tg_transfer e a b n s"

fun not_self :: "env \<Rightarrow> transfer_call \<Rightarrow> transfer_guard \<Rightarrow> bool" where
  "not_self e (XTransfer a b n) s \<longleftrightarrow> a \<noteq> b"
| "not_self e (XMint a n) s \<longleftrightarrow> True"

interpretation self_guard: hardened st_exec tg_exec not_self
proof (unfold_locales, goal_cases)
  case (1 e c s s')
  show ?case
    by (cases c) (auto simp: st_mint_def tg_mint_def st_transfer_def tg_transfer_def result_simps)
qed

lemma st_transfer_Ok:
  "st_transfer e a b n s = Ok s' \<longleftrightarrow>
     authorized e a \<and> in_range I128 (tg_get_balance s a - n)
     \<and> in_range I128 (tg_get_balance s b + n) \<and> s' = tg_store.move a b n s"
  by (auto simp: st_transfer_def result_simps int_simps Let_def)

section \<open>unprotected\_burn\<close>

definition ubn_mint :: "env \<Rightarrow> address \<Rightarrow> int \<Rightarrow> burn_token \<Rightarrow> burn_token result" where
  "ubn_mint e recipient amount s =
     (let current = unwrap_or (sb_Balance s recipient) 0 in
      expect (checked_add I128 current amount) ''mint overflow'' (\<lambda>v.
      Ok (publish [''mint''] [VAddr recipient, VInt amount]
           (s\<lparr>sb_Balance := (sb_Balance s)(recipient \<mapsto> v)\<rparr>))))"

definition ubn_burn :: "env \<Rightarrow> address \<Rightarrow> int \<Rightarrow> burn_token \<Rightarrow> burn_token result" where
  "ubn_burn e account amount s =
     (let balance = unwrap_or (sb_Balance s account) 0 in
      expect (checked_sub I128 balance amount) ''burn underflow'' (\<lambda>v.
      Ok (publish [''burn''] [VAddr account, VInt amount]
           (s\<lparr>sb_Balance := (sb_Balance s)(account \<mapsto> v)\<rparr>))))"

definition ubn_balance :: "burn_token \<Rightarrow> address \<Rightarrow> int" where
  "ubn_balance s account = unwrap_or (sb_Balance s account) 0"

datatype burn_call =
    UMint address int
  | UBurn address int

fun ubn_exec :: "env \<Rightarrow> burn_call \<Rightarrow> burn_token \<Rightarrow> burn_token result" where
  "ubn_exec e (UMint a n) s = ubn_mint e a n s"
| "ubn_exec e (UBurn a n) s = ubn_burn e a n s"

fun sb_exec :: "env \<Rightarrow> burn_call \<Rightarrow> burn_token \<Rightarrow> burn_token result" where
  "sb_exec e (UMint a n) s = sb_mint e a n s"
| "sb_exec e (UBurn a n) s = sb_burn e a n s"

fun burn_signed :: "env \<Rightarrow> burn_call \<Rightarrow> burn_token \<Rightarrow> bool" where
  "burn_signed e (UBurn a n) s \<longleftrightarrow> authorized e a"
| "burn_signed e (UMint a n) s \<longleftrightarrow> True"

interpretation burn_guard: hardened ubn_exec sb_exec burn_signed
proof (unfold_locales, goal_cases)
  case (1 e c s s')
  show ?case
    by (cases c) (auto simp: ubn_mint_def sb_mint_def ubn_burn_def sb_burn_def sb_get_balance_def
        sb_set_balance_def result_simps Let_def)
qed

section \<open>unprotected\_mint\<close>

record mint_token = host +
  um_Admin :: "address option"
  um_Balance :: "address \<rightharpoonup> int"

definition um_initialize :: "env \<Rightarrow> address \<Rightarrow> mint_token \<Rightarrow> mint_token result" where
  "um_initialize e admin s = Ok (s\<lparr>um_Admin := Some admin\<rparr>)"

definition um_mint :: "env \<Rightarrow> address \<Rightarrow> int \<Rightarrow> mint_token \<Rightarrow> mint_token result" where
  "um_mint e recipient amount s =
     arith (checked_add I128 (get0 (um_Balance s) recipient) amount) (\<lambda>v.
     Ok (publish [''mint''] [VAddr recipient, VInt amount]
          (s\<lparr>um_Balance := (um_Balance s)(recipient \<mapsto> v)\<rparr>)))"

definition um_balance :: "mint_token \<Rightarrow> address \<Rightarrow> int" where
  "um_balance s account = get0 (um_Balance s) account"

definition sm_initialize :: "env \<Rightarrow> address \<Rightarrow> mint_token \<Rightarrow> mint_token result" where
  "sm_initialize e admin s = Ok (s\<lparr>um_Admin := Some admin\<rparr>)"

definition sm_mint :: "env \<Rightarrow> address \<Rightarrow> int \<Rightarrow> mint_token \<Rightarrow> mint_token result" where
  "sm_mint e recipient amount s =
     expect (um_Admin s) ''admin not initialized'' (\<lambda>admin.
     require_auth e admin (
     arith (checked_add I128 (get0 (um_Balance s) recipient) amount) (\<lambda>v.
     Ok (publish [''mint''] [VAddr recipient, VInt amount]
          (s\<lparr>um_Balance := (um_Balance s)(recipient \<mapsto> v)\<rparr>)))))"

definition sm_balance :: "mint_token \<Rightarrow> address \<Rightarrow> int" where
  "sm_balance s account = get0 (um_Balance s) account"

datatype mint_call =
    YInitialize address
  | YMint address int

fun um_exec :: "env \<Rightarrow> mint_call \<Rightarrow> mint_token \<Rightarrow> mint_token result" where
  "um_exec e (YInitialize a) s = um_initialize e a s"
| "um_exec e (YMint a n) s = um_mint e a n s"

fun sm_exec :: "env \<Rightarrow> mint_call \<Rightarrow> mint_token \<Rightarrow> mint_token result" where
  "sm_exec e (YInitialize a) s = sm_initialize e a s"
| "sm_exec e (YMint a n) s = sm_mint e a n s"

fun mint_signed :: "env \<Rightarrow> mint_call \<Rightarrow> mint_token \<Rightarrow> bool" where
  "mint_signed e (YMint a n) s \<longleftrightarrow> (\<exists>adm. um_Admin s = Some adm \<and> authorized e adm)"
| "mint_signed e (YInitialize a) s \<longleftrightarrow> True"

interpretation mint_guard: hardened um_exec sm_exec mint_signed
proof (unfold_locales, goal_cases)
  case (1 e c s s')
  show ?case
    by (cases c) (auto simp: um_mint_def sm_mint_def um_initialize_def sm_initialize_def result_simps)
qed

text \<open>
  The repaired mint is still open: \<^verbatim>\<open>initialize\<close> has no guard in either half, so anyone becomes the
  admin and then mints.
\<close>

lemma sm_takeover:
  assumes "authorized e a" and "in_range I128 (sm_balance s b + n)"
  shows "\<exists>s1 s2. sm_initialize e a s = Ok s1 \<and> sm_mint e b n s1 = Ok s2
    \<and> sm_balance s2 b = sm_balance s b + n"
  using assms by (simp add: sm_initialize_def sm_mint_def sm_balance_def checked_add_def publish_def)

section \<open>negative\_transfer, missing\_auth, underflow\_transfer\<close>

text \<open>Their storage is the vault's: one balance per account. Here each balance is read just before it is written.\<close>

definition nt_mint :: "env \<Rightarrow> address \<Rightarrow> int \<Rightarrow> vault \<Rightarrow> vault result" where
  "nt_mint e recipient amount s =
     arith (checked_add I128 (vault_balance s recipient) amount) (\<lambda>v. Ok (vault_set recipient v s))"

definition nt_transfer :: "env \<Rightarrow> address \<Rightarrow> address \<Rightarrow> int \<Rightarrow> vault \<Rightarrow> vault result" where
  "nt_transfer e sender recipient amount s =
     require_auth e sender (
     arith (checked_sub I128 (vault_balance s sender) amount) (\<lambda>f.
     let s1 = vault_set sender f s in
     arith (checked_add I128 (vault_balance s1 recipient) amount) (\<lambda>t.
     Ok (publish [''transfer''] [VAddr sender, VAddr recipient, VInt amount]
          (vault_set recipient t s1)))))"

definition nt_balance :: "vault \<Rightarrow> address \<Rightarrow> int" where
  "nt_balance s account = vault_balance s account"

definition nts_mint :: "env \<Rightarrow> address \<Rightarrow> int \<Rightarrow> vault \<Rightarrow> vault result" where
  "nts_mint e recipient amount s =
     arith (checked_add I128 (vault_balance s recipient) amount) (\<lambda>v. Ok (vault_set recipient v s))"

definition nts_transfer :: "env \<Rightarrow> address \<Rightarrow> address \<Rightarrow> int \<Rightarrow> vault \<Rightarrow> vault result" where
  "nts_transfer e sender recipient amount s =
     require_auth e sender (
     ensure (amount > 0) ''amount must be positive'' (
     arith (checked_sub I128 (vault_balance s sender) amount) (\<lambda>f.
     let s1 = vault_set sender f s in
     arith (checked_add I128 (vault_balance s1 recipient) amount) (\<lambda>t.
     Ok (publish [''transfer''] [VAddr sender, VAddr recipient, VInt amount]
          (vault_set recipient t s1))))))"

definition nts_balance :: "vault \<Rightarrow> address \<Rightarrow> int" where
  "nts_balance s account = vault_balance s account"

fun nt_exec :: "env \<Rightarrow> transfer_call \<Rightarrow> vault \<Rightarrow> vault result" where
  "nt_exec e (XMint a n) s = nt_mint e a n s"
| "nt_exec e (XTransfer a b n) s = nt_transfer e a b n s"

fun nts_exec :: "env \<Rightarrow> transfer_call \<Rightarrow> vault \<Rightarrow> vault result" where
  "nts_exec e (XMint a n) s = nts_mint e a n s"
| "nts_exec e (XTransfer a b n) s = nts_transfer e a b n s"

fun positive_amount :: "env \<Rightarrow> transfer_call \<Rightarrow> vault \<Rightarrow> bool" where
  "positive_amount e (XTransfer a b n) s \<longleftrightarrow> 0 < n"
| "positive_amount e (XMint a n) s \<longleftrightarrow> True"

interpretation sign_guard: hardened nt_exec nts_exec positive_amount
proof (unfold_locales, goal_cases)
  case (1 e c s s')
  show ?case
    by (cases c) (auto simp: nt_mint_def nts_mint_def nt_transfer_def nts_transfer_def result_simps)
qed

definition ma_mint :: "env \<Rightarrow> address \<Rightarrow> int \<Rightarrow> vault \<Rightarrow> vault result" where
  "ma_mint e recipient amount s =
     (let current = vault_balance s recipient in
      arith (checked_add I128 current amount) (\<lambda>v. Ok (vault_set recipient v s)))"

definition ma_transfer :: "env \<Rightarrow> address \<Rightarrow> address \<Rightarrow> int \<Rightarrow> vault \<Rightarrow> vault result" where
  "ma_transfer e sender recipient amount s =
     (let from_balance = vault_balance s sender;
          to_balance = vault_balance s recipient in
      arith (checked_sub I128 from_balance amount) (\<lambda>f.
      let s1 = vault_set sender f s in
      arith (checked_add I128 to_balance amount) (\<lambda>t.
      Ok (publish [''transfer''] [VAddr sender, VAddr recipient, VInt amount]
           (vault_set recipient t s1)))))"

definition ma_balance :: "vault \<Rightarrow> address \<Rightarrow> int" where
  "ma_balance s account = vault_balance s account"

definition uf_mint :: "env \<Rightarrow> address \<Rightarrow> int \<Rightarrow> vault \<Rightarrow> vault result" where
  "uf_mint e recipient amount s =
     (let current = vault_balance s recipient in
      arith (checked_add I128 current amount) (\<lambda>v. Ok (vault_set recipient v s)))"

text \<open>\<^verbatim>\<open>wrapping_sub\<close> keeps the low 128 bits of the difference.\<close>

definition uf_transfer :: "env \<Rightarrow> address \<Rightarrow> address \<Rightarrow> int \<Rightarrow> vault \<Rightarrow> vault result" where
  "uf_transfer e sender recipient amount s =
     require_auth e sender (
     let from_balance = vault_balance s sender;
         to_balance = vault_balance s recipient;
         s1 = vault_set sender (cast_to I128 (from_balance - amount)) s in
     arith (checked_add I128 to_balance amount) (\<lambda>t.
     Ok (publish [''transfer''] [VAddr sender, VAddr recipient, VInt amount]
          (vault_set recipient t s1))))"

definition uf_balance :: "vault \<Rightarrow> address \<Rightarrow> int" where
  "uf_balance s account = vault_balance s account"

lemma ma_transfer_Ok:
  "ma_transfer e a b n s = Ok s' \<longleftrightarrow>
     in_range I128 (vault_balance s a - n) \<and> in_range I128 (vault_balance s b + n)
     \<and> s' = publish [''transfer''] [VAddr a, VAddr b, VInt n] (vault_store.move a b n s)"
  by (auto simp: ma_transfer_def result_simps int_simps Let_def)

text \<open>
  The vault is \<^verbatim>\<open>missing_auth\<close> with the sender's signature and a covered amount; both traps of the
  unguarded contract are kept.
\<close>

lemma vault_transfer_hardens:
  "vault_transfer e a b n s = Ok s' \<longleftrightarrow>
     authorized e a \<and> n \<le> vault_balance s a \<and> ma_transfer e a b n s = Ok s'"
  by (auto simp: vault_transfer_Ok ma_transfer_Ok)

text \<open>
  With non-negative balances and amounts the subtraction of \<^verbatim>\<open>underflow_transfer\<close> never leaves the
  range of \<^verbatim>\<open>i128\<close>: an overdraft gives a negative balance, not a large positive one.
\<close>

lemma uf_overdraft_is_negative:
  assumes "uf_transfer e a b n s = Ok s'" and "a \<noteq> b" and "0 \<le> vault_balance s a"
    and "vault_balance s a < n" and "in_range I128 n"
  shows "vault_balance s' a = vault_balance s a - n \<and> vault_balance s' a < 0"
proof -
  have "cast_to I128 (vault_balance s a - n) = vault_balance s a - n"
    using assms(3-5) by (intro cast_to_id) (simp add: in_range_def)
  with assms show ?thesis
    by (auto simp: uf_transfer_def result_simps Let_def vault_store.bal_set)
qed

section \<open>Properties\<close>

text \<open>
  The self-transfer check is the whole repair of \<^verbatim>\<open>self_transfer\<close>: every run of \<^verbatim>\<open>secure_transfer\<close> is
  the run of the vulnerable contract on the calls whose parties differ; and it is needed: a
  successful self-transfer of the vulnerable contract adds the amount to the balance.
\<close>

theorem self_transfer_repaired:
  "run_calls tg_exec xs s = run_calls st_exec (admitted st_exec not_self xs s) s
   \<and> (st_transfer e a a n s = Ok s' \<longrightarrow> st_balance s' a = st_balance s a + n)"
  by (auto simp: self_guard.run_admitted st_transfer_Ok st_balance_def tg_store.bal_set)

text \<open>
  Every run of \<^verbatim>\<open>secure_burn\<close> is the run of \<^verbatim>\<open>unprotected_burn\<close> on the calls whose burns the owner
  signed. Yet an owner's signature is not needed to destroy tokens: the unguarded \<^verbatim>\<open>mint\<close> of
  \<^verbatim>\<open>secure_burn\<close> accepts a negative amount in any environment.
\<close>

theorem burn_repair_and_gap:
  assumes "0 < n" and "in_range I128 (sb_balance s a - n)"
  shows "run_calls sb_exec xs s = run_calls ubn_exec (admitted ubn_exec burn_signed xs s) s
   \<and> (sb_burn e a n s = Ok s' \<longrightarrow> authorized e a)
   \<and> (\<exists>s1. sb_mint e a (- n) s = Ok s1 \<and> sb_balance s1 a = sb_balance s a - n)"
  using assms
  by (auto simp: burn_guard.run_admitted sb_burn_def sb_mint_def sb_balance_def result_simps
      checked_add_def Let_def sb_get_balance_def sb_set_balance_def publish_def)

theorem self_transfer_repaired_witness:
  "\<exists>s'. st_transfer (signed_env [Address 5] 9) (Address 5) (Address 5) 10
      \<lparr>events = [], tg_Balance = [Address 5 \<mapsto> 10]\<rparr> = Ok s' \<and> st_balance s' (Address 5) = 20"
proof -
  let ?s = "\<lparr>events = [], tg_Balance = [Address 5 \<mapsto> 10]\<rparr>" and ?e = "signed_env [Address 5] 9"
  obtain s' where ok: "st_transfer ?e (Address 5) (Address 5) 10 ?s = Ok s'"
    by (simp add: st_transfer_Ok signed_env_def tg_get_balance_def in_range_def)
  with self_transfer_repaired [of "[]" ?s ?e "Address 5" 10 s'] show ?thesis
    by (simp add: st_balance_def tg_get_balance_def)
qed

theorem burn_repair_and_gap_witness:
  "\<exists>s1. sb_mint (signed_env [] 9) (Address 5) (- 10) \<lparr>events = [], sb_Balance = [Address 5 \<mapsto> 10]\<rparr> = Ok s1
     \<and> sb_balance s1 (Address 5) = 0"
  using burn_repair_and_gap [of 10 "\<lparr>events = [], sb_Balance = [Address 5 \<mapsto> 10]\<rparr>" "Address 5" "[]"
      "signed_env [] 9"]
  by (simp add: sb_balance_def sb_get_balance_def in_range_def)

end
