(* ===== verification/Protected_Admin.thy ===== *)
theory Protected_Admin
  imports Soroban_Prelude
begin

text \<open>
  The admin contract (\<^verbatim>\<open>src/secure/protected_admin/src/lib.rs\<close>): two-step rotation with an expiring
  proposal, the deprecated one-step rotation, upgrade, and owner-written profiles. Replacing the code
  of the contract is a host operation; the model records the hash it was given. Shown: every change
  of the admin is authorised by the old or the proposed admin; an accepted proposal was made by the
  admin at most \<^verbatim>\<open>PROPOSAL_TTL_LEDGERS\<close> ledgers earlier; profiles change only with their owner's
  authorisation; a pending proposal survives \<^verbatim>\<open>set_admin\<close>.
\<close>

definition PROPOSAL_TTL_LEDGERS :: int where "PROPOSAL_TTL_LEDGERS = 17280"

record profile =
  pf_display_name :: string
  pf_kyc_level :: int

record protected_admin = host +
  pa_Admin :: "address option"
  pa_Profile :: "address \<rightharpoonup> profile"
  pa_PendingAdmin :: "address option"
  pa_PendingExpiry :: "int option"
  pa_wasm :: "string option" \<comment> \<open>the code hash last installed through \<^verbatim>\<open>upgrade\<close>\<close>

definition padmin_empty :: protected_admin where
  "padmin_empty = \<lparr>events = [], pa_Admin = None, pa_Profile = Map.empty, pa_PendingAdmin = None,
     pa_PendingExpiry = None, pa_wasm = None\<rparr>"

section \<open>Operations\<close>

definition padmin_initialize :: "env \<Rightarrow> address \<Rightarrow> protected_admin \<Rightarrow> protected_admin result" where
  "padmin_initialize e admin s =
     panic_if (pa_Admin s \<noteq> None) ''already initialized'' (
     Ok (s\<lparr>pa_Admin := Some admin\<rparr>))"

definition padmin_propose_admin :: "env \<Rightarrow> address \<Rightarrow> protected_admin \<Rightarrow> protected_admin result" where
  "padmin_propose_admin e new_admin s =
     expect (pa_Admin s) ''not initialized'' (\<lambda>current_admin.
     require_auth e current_admin (
     arith (checked_add U32 (sequence e) PROPOSAL_TTL_LEDGERS) (\<lambda>expiry.
     let s1 = s\<lparr>pa_PendingAdmin := Some new_admin\<rparr>
     in Ok (s1\<lparr>pa_PendingExpiry := Some expiry\<rparr>))))"

definition padmin_accept_admin :: "env \<Rightarrow> protected_admin \<Rightarrow> protected_admin result" where
  "padmin_accept_admin e s =
     expect (pa_PendingAdmin s) ''no pending proposal'' (\<lambda>pending.
     expect (pa_PendingExpiry s) ''no pending proposal'' (\<lambda>expiry.
     panic_if (sequence e > expiry) ''proposal expired'' (
     require_auth e pending (
     Ok (s\<lparr>pa_Admin := Some pending, pa_PendingAdmin := None, pa_PendingExpiry := None\<rparr>)))))"

definition padmin_set_admin :: "env \<Rightarrow> address \<Rightarrow> protected_admin \<Rightarrow> protected_admin result" where
  "padmin_set_admin e new_admin s =
     expect (pa_Admin s) ''not initialized'' (\<lambda>current_admin.
     require_auth e current_admin (
     Ok (s\<lparr>pa_Admin := Some new_admin\<rparr>)))"

definition padmin_upgrade :: "env \<Rightarrow> string \<Rightarrow> protected_admin \<Rightarrow> protected_admin result" where
  "padmin_upgrade e new_wasm_hash s =
     expect (pa_Admin s) ''not initialized'' (\<lambda>admin.
     require_auth e admin (
     Ok (s\<lparr>pa_wasm := Some new_wasm_hash\<rparr>)))"

definition padmin_set_profile ::
    "env \<Rightarrow> address \<Rightarrow> string \<Rightarrow> int \<Rightarrow> protected_admin \<Rightarrow> protected_admin result" where
  "padmin_set_profile e account display_name kyc_level s =
     require_auth e account (
     let profile = \<lparr>pf_display_name = display_name, pf_kyc_level = kyc_level\<rparr>
     in Ok (s\<lparr>pa_Profile := (pa_Profile s)(account \<mapsto> profile)\<rparr>))"

definition padmin_get_profile :: "protected_admin \<Rightarrow> address \<Rightarrow> profile option" where
  "padmin_get_profile s account = pa_Profile s account"

definition padmin_delete_profile :: "env \<Rightarrow> address \<Rightarrow> protected_admin \<Rightarrow> protected_admin result" where
  "padmin_delete_profile e account s =
     require_auth e account (
     Ok (s\<lparr>pa_Profile := (pa_Profile s)(account := None)\<rparr>))"

definition padmin_get_admin :: "protected_admin \<Rightarrow> address result" where
  "padmin_get_admin s = expect (pa_Admin s) ''not initialized'' Ok"

datatype padmin_call =
    PInitialize address
  | PPropose address
  | PAccept
  | PSetAdmin address
  | PUpgrade string
  | PSetProfile address string int
  | PDeleteProfile address

fun padmin_exec :: "env \<Rightarrow> padmin_call \<Rightarrow> protected_admin \<Rightarrow> protected_admin result" where
  "padmin_exec e (PInitialize a) s = padmin_initialize e a s"
| "padmin_exec e (PPropose a) s = padmin_propose_admin e a s"
| "padmin_exec e PAccept s = padmin_accept_admin e s"
| "padmin_exec e (PSetAdmin a) s = padmin_set_admin e a s"
| "padmin_exec e (PUpgrade h) s = padmin_upgrade e h s"
| "padmin_exec e (PSetProfile a n k) s = padmin_set_profile e a n k s"
| "padmin_exec e (PDeleteProfile a) s = padmin_delete_profile e a s"

lemmas padmin_defs = padmin_initialize_def padmin_propose_admin_def padmin_accept_admin_def
  padmin_set_admin_def padmin_upgrade_def padmin_set_profile_def padmin_delete_profile_def

section \<open>Who can change what\<close>

definition may_rotate :: "env \<Rightarrow> padmin_call \<Rightarrow> protected_admin \<Rightarrow> bool" where
  "may_rotate e c s \<longleftrightarrow>
     (pa_Admin s = None \<and> (\<exists>a. c = PInitialize a))
     \<or> (\<exists>admin a. pa_Admin s = Some admin \<and> authorized e admin \<and> c = PSetAdmin a)
     \<or> (\<exists>p k. pa_PendingAdmin s = Some p \<and> pa_PendingExpiry s = Some k \<and> sequence e \<le> k
          \<and> authorized e p \<and> c = PAccept)"

lemma padmin_exec_rotate:
  "padmin_exec e c s = Ok s' \<Longrightarrow> pa_Admin s' \<noteq> pa_Admin s \<Longrightarrow> may_rotate e c s"
  by (cases c) (auto simp: padmin_defs result_simps may_rotate_def Let_def)

interpretation padmin_rotation: guarded_view padmin_exec pa_Admin may_rotate
  by unfold_locales (rule padmin_exec_rotate)

interpretation padmin_initialized: contract_invariant padmin_exec "\<lambda>s. pa_Admin s \<noteq> None"
proof unfold_locales
  fix s e c s'
  assume "pa_Admin s \<noteq> None" and "padmin_exec e c s = Ok s'"
  then show "pa_Admin s' \<noteq> None"
    by (cases c) (auto simp: padmin_defs result_simps Let_def)
qed

definition pending_with :: "address \<Rightarrow> int \<Rightarrow> protected_admin \<Rightarrow> bool" where
  "pending_with p k s \<longleftrightarrow> pa_PendingAdmin s = Some p \<and> pa_PendingExpiry s = Some k"

definition proposes :: "address \<Rightarrow> int \<Rightarrow> env \<Rightarrow> padmin_call \<Rightarrow> protected_admin \<Rightarrow> bool" where
  "proposes p k e c s \<longleftrightarrow> c = PPropose p \<and> k = sequence e + PROPOSAL_TTL_LEDGERS
     \<and> (\<exists>admin. pa_Admin s = Some admin \<and> authorized e admin)"

interpretation padmin_proposal: guarded_steps padmin_exec
    "\<lambda>s t. pending_with p k t \<longrightarrow> pending_with p k s" "proposes p k" for p k
proof unfold_locales
  fix e c s s'
  assume "padmin_exec e c s = Ok s'" and "\<not> (pending_with p k s' \<longrightarrow> pending_with p k s)"
  then show "proposes p k e c s"
    by (cases c) (auto simp: padmin_defs result_simps int_simps Let_def pending_with_def proposes_def)
qed auto

definition owner_call :: "address \<Rightarrow> env \<Rightarrow> padmin_call \<Rightarrow> protected_admin \<Rightarrow> bool" where
  "owner_call a e c s \<longleftrightarrow> authorized e a
     \<and> ((\<exists>n k. c = PSetProfile a n k) \<or> c = PDeleteProfile a)"

interpretation padmin_profile: guarded_view padmin_exec "\<lambda>s. padmin_get_profile s a" "owner_call a" for a
proof unfold_locales
  fix e c s s'
  assume "padmin_exec e c s = Ok s'" and "padmin_get_profile s' a \<noteq> padmin_get_profile s a"
  then show "owner_call a e c s"
    by (cases c) (auto simp: padmin_defs result_simps Let_def padmin_get_profile_def owner_call_def
        split: if_splits)
qed

section \<open>Properties\<close>

text \<open>
  Every admin rotation in a run of an initialised contract happens in an invocation authorised
  either by the admin of that moment (\<^verbatim>\<open>set_admin\<close>) or by the pending admin before the proposal's
  expiry (\<^verbatim>\<open>accept_admin\<close>).
\<close>

theorem padmin_rotation_authorized:
  assumes "pa_Admin s = Some a0" and "pa_Admin (run_calls padmin_exec xs s) \<noteq> Some a0"
  shows "\<exists>ys e c zs. xs = ys @ (e, c) # zs
    \<and> (let t = run_calls padmin_exec ys s in
         (\<exists>admin a. pa_Admin t = Some admin \<and> authorized e admin \<and> c = PSetAdmin a)
         \<or> (\<exists>p k. pa_PendingAdmin t = Some p \<and> pa_PendingExpiry t = Some k \<and> sequence e \<le> k
              \<and> authorized e p \<and> c = PAccept))"
proof -
  obtain ys e c zs where xs: "xs = ys @ (e, c) # zs"
    and "may_rotate e c (run_calls padmin_exec ys s)"
    using padmin_rotation.run_view [of xs s] assms by fastforce
  moreover have "pa_Admin (run_calls padmin_exec ys s) \<noteq> None"
    using padmin_initialized.run_inv assms(1) by blast
  ultimately show ?thesis
    unfolding Let_def may_rotate_def by blast
qed

text \<open>
  An acceptance completes a genuine, fresh proposal: if \<^verbatim>\<open>accept_admin\<close> succeeds after any
  sequence of calls on a new contract and makes \<open>p\<close> the admin, then \<open>p\<close> authorised it and an earlier
  call was \<^verbatim>\<open>propose_admin(p)\<close>, authorised by the admin of that time, at most 17280 ledgers before.
\<close>

theorem padmin_accept_needs_recent_proposal:
  assumes "padmin_accept_admin e (run_calls padmin_exec xs padmin_empty) = Ok s'"
    and "pa_Admin s' = Some p"
  shows "authorized e p \<and> (\<exists>ys e0 zs admin. xs = ys @ (e0, PPropose p) # zs
    \<and> pa_Admin (run_calls padmin_exec ys padmin_empty) = Some admin \<and> authorized e0 admin
    \<and> sequence e \<le> sequence e0 + 17280)"
proof -
  let ?t = "run_calls padmin_exec xs padmin_empty"
  from assms obtain k where p: "pending_with p k ?t" and "authorized e p" and le: "sequence e \<le> k"
    by (auto simp: padmin_accept_admin_def result_simps pending_with_def)
  have "\<not> pending_with p k padmin_empty" by (simp add: pending_with_def padmin_empty_def)
  with p padmin_proposal.run_guard [of p k xs padmin_empty] obtain ys e0 c zs where
    "xs = ys @ (e0, c) # zs" and "proposes p k e0 c (run_calls padmin_exec ys padmin_empty)"
    by blast
  with le \<open>authorized e p\<close> show ?thesis
    by (fastforce simp: proposes_def PROPOSAL_TTL_LEDGERS_def)
qed

text \<open>
  A profile changes (is written or deleted) only in an invocation its own account authorised.
\<close>

theorem padmin_profile_owner_only:
  assumes "padmin_get_profile (run_calls padmin_exec xs s) a \<noteq> padmin_get_profile s a"
  shows "\<exists>ys e c zs. xs = ys @ (e, c) # zs \<and> authorized e a
           \<and> ((\<exists>n k. c = PSetProfile a n k) \<or> c = PDeleteProfile a)"
  using padmin_profile.run_view [of xs s a] assms by (fastforce simp: owner_call_def)

text \<open>
  The one-step rotation leaves a pending proposal in place: after \<^verbatim>\<open>propose_admin(p)\<close> and then
  \<^verbatim>\<open>set_admin(b)\<close>, the address \<open>p\<close> can still take the admin role from \<open>b\<close> until the proposal expires,
  with its own authorisation only.
\<close>

theorem padmin_pending_survives_set_admin:
  assumes "padmin_propose_admin e1 p s = Ok s1" and "padmin_set_admin e2 b s1 = Ok s2"
    and "authorized e3 p" and "sequence e3 \<le> sequence e1 + 17280"
  shows "pa_Admin s2 = Some b
    \<and> (\<exists>s3. padmin_accept_admin e3 s2 = Ok s3 \<and> pa_Admin s3 = Some p)"
  using assms by (auto simp: padmin_defs result_simps int_simps Let_def PROPOSAL_TTL_LEDGERS_def)

section \<open>A concrete rotation\<close>

definition padmin_demo_calls :: "(env \<times> padmin_call) list" where
  "padmin_demo_calls =
     [(signed_env [] 1, PInitialize (Address 5)),
      (signed_env [Address 5] 2, PPropose (Address 6)),
      (signed_env [Address 7] 3, PSetProfile (Address 7) ''kay'' 2)]"

lemma padmin_demo_run:
  "run_calls padmin_exec padmin_demo_calls padmin_empty
     = \<lparr>events = [], pa_Admin = Some (Address 5),
        pa_Profile = [Address 7 \<mapsto> \<lparr>pf_display_name = ''kay'', pf_kyc_level = 2\<rparr>],
        pa_PendingAdmin = Some (Address 6), pa_PendingExpiry = Some 17282, pa_wasm = None\<rparr>"
  by (simp add: padmin_demo_calls_def padmin_empty_def padmin_defs signed_env_def checked_ops
      in_range_def PROPOSAL_TTL_LEDGERS_def)

theorem padmin_rotation_authorized_witness:
  "\<exists>ys e c zs. [(signed_env [Address 6] 9, PAccept)] = ys @ (e, c) # zs
    \<and> (let t = run_calls padmin_exec ys (run_calls padmin_exec padmin_demo_calls padmin_empty) in
         (\<exists>admin a. pa_Admin t = Some admin \<and> authorized e admin \<and> c = PSetAdmin a)
         \<or> (\<exists>p k. pa_PendingAdmin t = Some p \<and> pa_PendingExpiry t = Some k \<and> sequence e \<le> k
              \<and> authorized e p \<and> c = PAccept))"
  by (rule padmin_rotation_authorized [of _ "Address 5"])
     (simp_all add: padmin_demo_run padmin_accept_admin_def signed_env_def)

theorem padmin_accept_needs_recent_proposal_witness:
  "\<exists>s'. padmin_accept_admin (signed_env [Address 6] 9)
          (run_calls padmin_exec padmin_demo_calls padmin_empty) = Ok s'
     \<and> (\<exists>ys e0 zs. padmin_demo_calls = ys @ (e0, PPropose (Address 6)) # zs
          \<and> 9 \<le> sequence e0 + 17280)"
proof -
  obtain s' where ok: "padmin_accept_admin (signed_env [Address 6] 9)
      (run_calls padmin_exec padmin_demo_calls padmin_empty) = Ok s'" and "pa_Admin s' = Some (Address 6)"
    by (simp add: padmin_demo_run padmin_accept_admin_def signed_env_def)
  from padmin_accept_needs_recent_proposal [OF this] ok show ?thesis
    by (auto simp: signed_env_def)
qed

theorem padmin_profile_owner_only_witness:
  "\<exists>ys e c zs. padmin_demo_calls = ys @ (e, c) # zs \<and> authorized e (Address 7)
     \<and> ((\<exists>n k. c = PSetProfile (Address 7) n k) \<or> c = PDeleteProfile (Address 7))"
  by (rule padmin_profile_owner_only [of _ padmin_empty])
     (simp only: padmin_demo_run, simp add: padmin_get_profile_def padmin_empty_def)

theorem padmin_pending_survives_set_admin_witness:
  "\<exists>s1 s2 s3. padmin_propose_admin (signed_env [Address 5] 2) (Address 6)
        (padmin_empty\<lparr>pa_Admin := Some (Address 5)\<rparr>) = Ok s1
     \<and> padmin_set_admin (signed_env [Address 5] 3) (Address 7) s1 = Ok s2
     \<and> pa_Admin s2 = Some (Address 7)
     \<and> padmin_accept_admin (signed_env [Address 6] 4) s2 = Ok s3 \<and> pa_Admin s3 = Some (Address 6)"
proof -
  obtain s1 s2 where 1: "padmin_propose_admin (signed_env [Address 5] 2) (Address 6)
        (padmin_empty\<lparr>pa_Admin := Some (Address 5)\<rparr>) = Ok s1"
    and 2: "padmin_set_admin (signed_env [Address 5] 3) (Address 7) s1 = Ok s2"
    by (simp add: padmin_defs padmin_empty_def signed_env_def checked_ops in_range_def
        PROPOSAL_TTL_LEDGERS_def)
  from padmin_pending_survives_set_admin [OF 1 2, of "signed_env [Address 6] 4"] 1 2 show ?thesis
    by (auto simp: signed_env_def)
qed

end
