(* ===== verification/Secure_Dao.thy ===== *)
theory Secure_Dao
  imports Soroban_Prelude
begin

text \<open>
  The DAO (\<^verbatim>\<open>src/secure/secure_dao/src/lib.rs\<close>): token helpers, proposals, voting, queueing behind a
  timelock and execution. Shown: proposals get fresh ids and the tallies are well formed; an executed
  proposal went through a successful \<^verbatim>\<open>queue\<close> with majority and quorum at least \<^verbatim>\<open>TIMELOCK_DELAY\<close>
  ledgers earlier; nobody votes twice; a vote weighs the balance at voting time.
\<close>

definition TIMELOCK_DELAY :: int where "TIMELOCK_DELAY = 1000"
definition QUORUM_BPS :: int where "QUORUM_BPS = 1000"

record proposal =
  pr_proposer :: address
  pr_snapshot_supply :: int
  pr_votes_for :: int
  pr_votes_against :: int
  pr_queued :: bool
  pr_executed :: bool
  pr_execute_after :: int

record dao = host +
  dao_TotalSupply :: "int option"
  dao_Balance :: "address \<rightharpoonup> int"
  dao_NextId :: "int option"
  dao_Proposal :: "int \<rightharpoonup> proposal"
  dao_Voted :: "int \<times> address \<rightharpoonup> bool"

definition dao_empty :: dao where
  "dao_empty = \<lparr>events = [], dao_TotalSupply = None, dao_Balance = Map.empty, dao_NextId = None,
     dao_Proposal = Map.empty, dao_Voted = Map.empty\<rparr>"

section \<open>Operations\<close>

definition dao_balance :: "dao \<Rightarrow> address \<Rightarrow> int" where
  "dao_balance s account = unwrap_or (dao_Balance s account) 0"

definition dao_total_supply :: "dao \<Rightarrow> int" where
  "dao_total_supply s = unwrap_or (dao_TotalSupply s) 0"

definition dao_mint :: "env \<Rightarrow> address \<Rightarrow> int \<Rightarrow> dao \<Rightarrow> dao result" where
  "dao_mint e to amount s =
     (let bal = dao_balance s to in
      expect (checked_add I128 bal amount) ''overflow'' (\<lambda>new_bal.
      let s1 = s\<lparr>dao_Balance := (dao_Balance s)(to \<mapsto> new_bal)\<rparr>;
          supply = dao_total_supply s1 in
      expect (checked_add I128 supply amount) ''overflow'' (\<lambda>new_supply.
      Ok (s1\<lparr>dao_TotalSupply := Some new_supply\<rparr>))))"

definition dao_create_proposal :: "env \<Rightarrow> address \<Rightarrow> dao \<Rightarrow> (int \<times> dao) result" where
  "dao_create_proposal e proposer s =
     require_auth e proposer (
     let bal = dao_balance s proposer in
     panic_if (bal < 1) ''must hold tokens to propose'' (
     let id = unwrap_or (dao_NextId s) 0;
         supply = dao_total_supply s;
         proposal = \<lparr>pr_proposer = proposer, pr_snapshot_supply = supply, pr_votes_for = 0,
                     pr_votes_against = 0, pr_queued = False, pr_executed = False,
                     pr_execute_after = 0\<rparr>;
         s1 = s\<lparr>dao_Proposal := (dao_Proposal s)(id \<mapsto> proposal)\<rparr> in
     arith (checked_add U64 id 1) (\<lambda>next_id.
     let s2 = s1\<lparr>dao_NextId := Some next_id\<rparr>
     in Ok (id, publish [''proposed''] [VInt id, VAddr proposer] s2))))"

definition dao_vote :: "env \<Rightarrow> address \<Rightarrow> int \<Rightarrow> bool \<Rightarrow> dao \<Rightarrow> dao result" where
  "dao_vote e voter proposal_id support s =
     require_auth e voter (
     panic_if (dao_Voted s (proposal_id, voter) \<noteq> None) ''already voted'' (
     expect (dao_Proposal s proposal_id) ''proposal not found'' (\<lambda>proposal.
     panic_if (pr_queued proposal \<or> pr_executed proposal) ''voting closed'' (
     let weight = dao_balance s voter in
     panic_if (weight < 1) ''no voting power'' (
     and_then
       (if support
        then expect (checked_add I128 (pr_votes_for proposal) weight) ''overflow''
               (\<lambda>v. Ok (proposal\<lparr>pr_votes_for := v\<rparr>))
        else expect (checked_add I128 (pr_votes_against proposal) weight) ''overflow''
               (\<lambda>v. Ok (proposal\<lparr>pr_votes_against := v\<rparr>)))
       (\<lambda>proposal'.
     let s1 = s\<lparr>dao_Proposal := (dao_Proposal s)(proposal_id \<mapsto> proposal')\<rparr>;
         s2 = s1\<lparr>dao_Voted := (dao_Voted s1)((proposal_id, voter) \<mapsto> True)\<rparr>
     in Ok (publish [''voted''] [VInt proposal_id, VAddr voter, VBool support, VInt weight] s2)))))))"

definition dao_queue :: "env \<Rightarrow> int \<Rightarrow> dao \<Rightarrow> dao result" where
  "dao_queue e proposal_id s =
     expect (dao_Proposal s proposal_id) ''proposal not found'' (\<lambda>proposal.
     panic_if (pr_queued proposal) ''already queued'' (
     panic_if (pr_executed proposal) ''already executed'' (
     panic_if (pr_votes_for proposal \<le> pr_votes_against proposal) ''proposal did not pass'' (
     expect (checked_add I128 (pr_votes_for proposal) (pr_votes_against proposal)) ''overflow''
       (\<lambda>total_votes.
     expect (checked_mul I128 (pr_snapshot_supply proposal) QUORUM_BPS) ''overflow'' (\<lambda>scaled.
     let quorum_threshold = scaled sdiv 10000 in
     panic_if (total_votes < quorum_threshold) ''quorum not reached'' (
     expect (checked_add U32 (sequence e) TIMELOCK_DELAY) ''overflow'' (\<lambda>after.
     let proposal' = proposal\<lparr>pr_queued := True, pr_execute_after := after\<rparr>;
         s1 = s\<lparr>dao_Proposal := (dao_Proposal s)(proposal_id \<mapsto> proposal')\<rparr>
     in Ok (publish [''queued''] [VInt proposal_id, VInt after] s1)))))))))"

definition dao_execute :: "env \<Rightarrow> int \<Rightarrow> dao \<Rightarrow> dao result" where
  "dao_execute e proposal_id s =
     expect (dao_Proposal s proposal_id) ''proposal not found'' (\<lambda>proposal.
     panic_if (\<not> pr_queued proposal) ''proposal not queued'' (
     panic_if (pr_executed proposal) ''already executed'' (
     panic_if (sequence e < pr_execute_after proposal) ''timelock not expired'' (
     let s1 = s\<lparr>dao_Proposal := (dao_Proposal s)(proposal_id \<mapsto> proposal\<lparr>pr_executed := True\<rparr>)\<rparr>
     in Ok (publish [''executed''] [VInt proposal_id] s1)))))"

definition dao_get_proposal :: "dao \<Rightarrow> int \<Rightarrow> proposal result" where
  "dao_get_proposal s proposal_id = expect (dao_Proposal s proposal_id) ''proposal not found'' Ok"

datatype dao_call =
    DMint address int
  | DCreate address
  | DVote address int bool
  | DQueue int
  | DExecute int

fun dao_exec :: "env \<Rightarrow> dao_call \<Rightarrow> dao \<Rightarrow> dao result" where
  "dao_exec e (DMint to amount) s = dao_mint e to amount s"
| "dao_exec e (DCreate a) s = state_of (dao_create_proposal e a s)"
| "dao_exec e (DVote a i b) s = dao_vote e a i b s"
| "dao_exec e (DQueue i) s = dao_queue e i s"
| "dao_exec e (DExecute i) s = dao_execute e i s"

section \<open>Effects of successful calls\<close>

lemma dao_publish [simp]:
  "dao_Proposal (publish t d s) = dao_Proposal s" "dao_Voted (publish t d s) = dao_Voted s"
  "dao_NextId (publish t d s) = dao_NextId s" "dao_Balance (publish t d s) = dao_Balance s"
  "dao_TotalSupply (publish t d s) = dao_TotalSupply s"
  by (simp_all add: publish_def)

lemma dao_mint_frame:
  "dao_mint e a n s = Ok s' \<Longrightarrow>
     dao_Proposal s' = dao_Proposal s \<and> dao_Voted s' = dao_Voted s \<and> dao_NextId s' = dao_NextId s"
  by (auto simp: dao_mint_def Let_def result_simps)

lemma dao_create_Ok:
  assumes "dao_create_proposal e a s = Ok (i, s')"
  shows "authorized e a \<and> 1 \<le> dao_balance s a \<and> i = unwrap_or (dao_NextId s) 0
    \<and> in_range U64 (i + 1) \<and> dao_NextId s' = Some (i + 1) \<and> dao_Voted s' = dao_Voted s
    \<and> dao_Proposal s' = (dao_Proposal s)(i \<mapsto> \<lparr>pr_proposer = a,
          pr_snapshot_supply = dao_total_supply s, pr_votes_for = 0, pr_votes_against = 0,
          pr_queued = False, pr_executed = False, pr_execute_after = 0\<rparr>)"
  using assms by (auto simp: dao_create_proposal_def Let_def result_simps int_simps)

text \<open>A vote adds the voter's current balance to one of the two tallies.\<close>

definition tally :: "bool \<Rightarrow> int \<Rightarrow> proposal \<Rightarrow> proposal" where
  "tally support weight p =
     (if support then p\<lparr>pr_votes_for := pr_votes_for p + weight\<rparr>
      else p\<lparr>pr_votes_against := pr_votes_against p + weight\<rparr>)"

lemma dao_vote_Ok:
  assumes "dao_vote e a i b s = Ok s'"
  obtains p where "authorized e a" "dao_Voted s (i, a) = None" "dao_Proposal s i = Some p"
    "\<not> pr_queued p" "\<not> pr_executed p" "1 \<le> dao_balance s a"
    "dao_Proposal s' = (dao_Proposal s)(i \<mapsto> tally b (dao_balance s a) p)"
    "dao_Voted s' = (dao_Voted s)((i, a) \<mapsto> True)" "dao_NextId s' = dao_NextId s"
  using assms by (cases b) (auto simp: dao_vote_def tally_def Let_def result_simps int_simps)

lemma dao_queue_Ok:
  assumes "dao_queue e i s = Ok s'"
  obtains p where "dao_Proposal s i = Some p" "\<not> pr_queued p" "\<not> pr_executed p"
    "pr_votes_against p < pr_votes_for p"
    "(pr_snapshot_supply p * 1000) sdiv 10000 \<le> pr_votes_for p + pr_votes_against p"
    "dao_Proposal s' = (dao_Proposal s)(i \<mapsto>
       p\<lparr>pr_queued := True, pr_execute_after := sequence e + 1000\<rparr>)"
    "dao_Voted s' = dao_Voted s" "dao_NextId s' = dao_NextId s"
  using assms by (auto simp: dao_queue_def Let_def result_simps int_simps QUORUM_BPS_def
      TIMELOCK_DELAY_def)

lemma dao_execute_Ok:
  assumes "dao_execute e i s = Ok s'"
  obtains p where "dao_Proposal s i = Some p" "pr_queued p" "\<not> pr_executed p"
    "pr_execute_after p \<le> sequence e"
    "dao_Proposal s' = (dao_Proposal s)(i \<mapsto> p\<lparr>pr_executed := True\<rparr>)"
    "dao_Voted s' = dao_Voted s" "dao_NextId s' = dao_NextId s"
  using assms by (auto simp: dao_execute_def Let_def result_simps)

section \<open>Invariant and step facts\<close>

definition proposal_ok :: "proposal \<Rightarrow> bool" where
  "proposal_ok p \<longleftrightarrow> 0 \<le> pr_votes_for p \<and> 0 \<le> pr_votes_against p
     \<and> (pr_executed p \<longrightarrow> pr_queued p)
     \<and> (pr_queued p \<longrightarrow> pr_votes_against p < pr_votes_for p
          \<and> (pr_snapshot_supply p * 1000) sdiv 10000 \<le> pr_votes_for p + pr_votes_against p)"

definition dao_inv :: "dao \<Rightarrow> bool" where
  "dao_inv s \<longleftrightarrow> 0 \<le> unwrap_or (dao_NextId s) 0
     \<and> dom (dao_Proposal s) = {0..<unwrap_or (dao_NextId s) 0}
     \<and> (\<forall>i p. dao_Proposal s i = Some p \<longrightarrow> proposal_ok p)"

lemma dao_inv_update:
  assumes "dao_inv s" "dao_Proposal s i = Some p" "proposal_ok p'"
    "dao_Proposal s' = (dao_Proposal s)(i \<mapsto> p')" "dao_NextId s' = dao_NextId s"
  shows "dao_inv s'"
  using assms by (auto simp: dao_inv_def)

lemma dao_inv_create:
  assumes inv: "dao_inv s" and ok: "dao_create_proposal e a s = Ok (i, s')"
  shows "dao_inv s'"
proof -
  note eff = dao_create_Ok [OF ok]
  from eff have i: "i = unwrap_or (dao_NextId s) 0" by simp
  from inv eff have "dom (dao_Proposal s') = insert i {0..<i}"
    by (simp add: dao_inv_def)
  also have "\<dots> = {0..<i + 1}"
    using inv i by (auto simp: dao_inv_def)
  finally show ?thesis
    using inv eff i by (auto simp: dao_inv_def proposal_ok_def)
qed

lemma dao_exec_inv:
  assumes inv: "dao_inv s" and ok: "dao_exec e c s = Ok s'"
  shows "dao_inv s'"
proof (cases c)
  case (DMint a n)
  with ok dao_mint_frame [of e a n s s'] inv show ?thesis by (simp add: dao_inv_def)
next
  case (DCreate a)
  with ok inv show ?thesis by (auto simp: result_simps intro: dao_inv_create)
next
  case (DVote a i b)
  with ok have "dao_vote e a i b s = Ok s'" by simp
  then show ?thesis
  proof (rule dao_vote_Ok)
    fix p
    assume p: "dao_Proposal s i = Some p" "\<not> pr_queued p" "\<not> pr_executed p" "1 \<le> dao_balance s a"
      and s': "dao_Proposal s' = (dao_Proposal s)(i \<mapsto> tally b (dao_balance s a) p)"
        "dao_NextId s' = dao_NextId s"
    from inv p have "proposal_ok p" by (auto simp: dao_inv_def)
    with p have "proposal_ok (tally b (dao_balance s a) p)"
      by (simp add: proposal_ok_def tally_def)
    with inv p s' show ?thesis by (auto intro: dao_inv_update)
  qed
next
  case (DQueue i)
  with ok have "dao_queue e i s = Ok s'" by simp
  then show ?thesis
  proof (rule dao_queue_Ok)
    fix p
    assume p: "dao_Proposal s i = Some p" "\<not> pr_queued p" "\<not> pr_executed p"
        "pr_votes_against p < pr_votes_for p"
        "(pr_snapshot_supply p * 1000) sdiv 10000 \<le> pr_votes_for p + pr_votes_against p"
      and s': "dao_Proposal s' = (dao_Proposal s)(i \<mapsto>
          p\<lparr>pr_queued := True, pr_execute_after := sequence e + 1000\<rparr>)"
        "dao_NextId s' = dao_NextId s"
    from inv p have "proposal_ok p" by (auto simp: dao_inv_def)
    with p have "proposal_ok (p\<lparr>pr_queued := True, pr_execute_after := sequence e + 1000\<rparr>)"
      by (simp add: proposal_ok_def)
    with inv p s' show ?thesis by (auto intro: dao_inv_update)
  qed
next
  case (DExecute i)
  with ok have "dao_execute e i s = Ok s'" by simp
  then show ?thesis
  proof (rule dao_execute_Ok)
    fix p
    assume p: "dao_Proposal s i = Some p" "pr_queued p"
      and s': "dao_Proposal s' = (dao_Proposal s)(i \<mapsto> p\<lparr>pr_executed := True\<rparr>)"
        "dao_NextId s' = dao_NextId s"
    from inv p have "proposal_ok (p\<lparr>pr_executed := True\<rparr>)"
      by (auto simp: dao_inv_def proposal_ok_def)
    with inv p s' show ?thesis by (auto intro: dao_inv_update)
  qed
qed

interpretation dao_invariant: contract_invariant dao_exec dao_inv
  by unfold_locales (rule dao_exec_inv)

lemma dao_inv_empty: "dao_inv dao_empty"
  by (simp add: dao_inv_def dao_empty_def)

definition queued_at :: "int \<Rightarrow> int \<Rightarrow> dao \<Rightarrow> bool" where
  "queued_at i k s \<longleftrightarrow> (\<exists>p. dao_Proposal s i = Some p \<and> pr_queued p \<and> pr_execute_after p = k)"

definition queues :: "int \<Rightarrow> int \<Rightarrow> env \<Rightarrow> dao_call \<Rightarrow> dao \<Rightarrow> bool" where
  "queues i k e c s \<longleftrightarrow> c = DQueue i \<and> k = sequence e + 1000
     \<and> (\<exists>p. dao_Proposal s i = Some p \<and> pr_votes_against p < pr_votes_for p
          \<and> (pr_snapshot_supply p * 1000) sdiv 10000 \<le> pr_votes_for p + pr_votes_against p)"

lemma dao_exec_queues:
  assumes ok: "dao_exec e c s = Ok s'" and new: "queued_at i k s'" and old: "\<not> queued_at i k s"
  shows "queues i k e c s"
proof (cases c)
  case (DMint a n)
  with ok new old dao_mint_frame [of e a n s s'] show ?thesis by (simp add: queued_at_def)
next
  case (DCreate a)
  with ok new old show ?thesis
    by (auto simp: queued_at_def result_simps dest!: dao_create_Ok split: if_splits)
next
  case (DVote a j b)
  with ok have "dao_vote e a j b s = Ok s'" by simp
  with new old show ?thesis
    by (auto elim!: dao_vote_Ok simp: queued_at_def tally_def split: if_splits)
next
  case (DQueue j)
  with ok have "dao_queue e j s = Ok s'" by simp
  with new old DQueue show ?thesis
    by (auto elim!: dao_queue_Ok simp: queued_at_def queues_def split: if_splits)
next
  case (DExecute j)
  with ok have "dao_execute e j s = Ok s'" by simp
  with new old show ?thesis
    by (auto elim!: dao_execute_Ok simp: queued_at_def split: if_splits)
qed

interpretation dao_queueing: guarded_steps dao_exec
    "\<lambda>s t. queued_at i k t \<longrightarrow> queued_at i k s" "queues i k" for i k
  by unfold_locales (auto intro: dao_exec_queues)

lemma dao_exec_voted:
  assumes "dao_exec e c s = Ok s'" and "dao_Voted s v \<noteq> None"
  shows "dao_Voted s' v \<noteq> None"
proof (cases c)
  case (DMint a n)
  with assms dao_mint_frame [of e a n s s'] show ?thesis by simp
next
  case (DCreate a)
  with assms show ?thesis by (auto simp: result_simps dest!: dao_create_Ok)
qed (use assms in \<open>auto elim!: dao_vote_Ok dao_queue_Ok dao_execute_Ok\<close>)

interpretation dao_voted: contract_invariant dao_exec "\<lambda>s. dao_Voted s v \<noteq> None" for v
  by unfold_locales (rule dao_exec_voted)

lemma dao_exec_executed:
  assumes "dao_exec e c s = Ok s'" and inv: "dao_inv s"
    and "dao_Proposal s i = Some p" "pr_executed p"
  shows "\<exists>p'. dao_Proposal s' i = Some p' \<and> pr_executed p'"
proof (cases c)
  case (DMint a n)
  with assms dao_mint_frame [of e a n s s'] show ?thesis by simp
next
  case (DCreate a)
  with assms have "i \<noteq> unwrap_or (dao_NextId s) 0"
    by (auto simp: dao_inv_def)
  with assms DCreate show ?thesis by (auto simp: result_simps dest!: dao_create_Ok)
next
  case (DVote a j b)
  with assms(1) have "dao_vote e a j b s = Ok s'" by simp
  with assms(3,4) show ?thesis by (auto elim!: dao_vote_Ok simp: tally_def)
next
  case (DQueue j)
  with assms(1) have "dao_queue e j s = Ok s'" by simp
  with assms(3,4) show ?thesis by (auto elim!: dao_queue_Ok)
next
  case (DExecute j)
  with assms(1) have "dao_execute e j s = Ok s'" by simp
  with assms(3,4) show ?thesis by (auto elim!: dao_execute_Ok)
qed

interpretation dao_executed: contract_invariant dao_exec
    "\<lambda>s. dao_inv s \<and> (\<exists>p. dao_Proposal s i = Some p \<and> pr_executed p)" for i
  by unfold_locales (auto intro: dao_exec_inv dest: dao_exec_executed)

section \<open>Properties\<close>

text \<open>
  C15: Execution is preceded by a genuine queueing: if \<^verbatim>\<open>execute\<close> succeeds after any sequence of
  invocations on a new DAO, one of them is a \<^verbatim>\<open>queue\<close> of that proposal, at least 1000 ledgers
  earlier, made when the votes for exceeded the votes against and the votes cast reached 10\% of
  the supply recorded at creation, rounded down.
\<close>

theorem dao_execution_timelocked:
  assumes "dao_execute e i (run_calls dao_exec xs dao_empty) = Ok s'"
  shows "\<exists>ys e0 zs p. xs = ys @ (e0, DQueue i) # zs \<and> sequence e0 + 1000 \<le> sequence e
    \<and> dao_Proposal (run_calls dao_exec ys dao_empty) i = Some p
    \<and> pr_votes_against p < pr_votes_for p
    \<and> (pr_snapshot_supply p * 1000) sdiv 10000 \<le> pr_votes_for p + pr_votes_against p"
proof -
  let ?t = "run_calls dao_exec xs dao_empty"
  obtain k where "queued_at i k ?t" and k: "k \<le> sequence e"
    using assms by (auto elim!: dao_execute_Ok simp: queued_at_def)
  moreover have "\<not> queued_at i k dao_empty" by (simp add: queued_at_def dao_empty_def)
  ultimately obtain ys e0 c zs where "xs = ys @ (e0, c) # zs"
    and "queues i k e0 c (run_calls dao_exec ys dao_empty)"
    using dao_queueing.run_guard [of i k xs dao_empty] by blast
  with k show ?thesis by (fastforce simp: queues_def)
qed

text \<open>
  A proposal is executed at most once: after a successful \<^verbatim>\<open>execute\<close> in a reachable state, every
  later \<^verbatim>\<open>execute\<close> of the same proposal traps, whatever happens in between.
\<close>

theorem dao_executes_once:
  assumes "reach dao_exec dao_empty s" and "dao_execute e i s = Ok s'" and "reach dao_exec s' t"
  shows "dao_execute e' i t = Err (Panic ''already executed'')"
proof -
  have inv: "dao_inv s"
    by (rule dao_invariant.reach_inv [OF assms(1) dao_inv_empty])
  then have "dao_inv s'"
    using assms(2) dao_exec_inv [of s e "DExecute i" s'] by simp
  moreover have "\<exists>p. dao_Proposal s' i = Some p \<and> pr_executed p"
    using assms(2) by (auto elim!: dao_execute_Ok)
  ultimately obtain p where p: "dao_Proposal t i = Some p" "pr_executed p" and "dao_inv t"
    using dao_executed.reach_inv [OF assms(3), of i] by blast
  then have "pr_queued p" by (auto simp: dao_inv_def proposal_ok_def)
  with p show ?thesis by (simp add: dao_execute_def)
qed

text \<open>
  One address, one vote: after a successful vote, a vote by the same address on the same
  proposal traps in every state reachable from there.
\<close>

theorem dao_no_double_vote:
  assumes "dao_vote e a i b s = Ok s'" and "reach dao_exec s' t" and "authorized e' a"
  shows "dao_vote e' a i b' t = Err (Panic ''already voted'')"
proof -
  have "dao_Voted s' (i, a) \<noteq> None"
    using assms(1) by (auto elim!: dao_vote_Ok)
  then have "dao_Voted t (i, a) \<noteq> None"
    by (rule dao_voted.reach_inv [OF assms(2)])
  with assms(3) show ?thesis by (simp add: dao_vote_def)
qed

text \<open>
  In a reachable state \<^verbatim>\<open>create_proposal\<close> hands out an id no proposal has, leaves every other
  proposal alone, and records the supply of that moment.
\<close>

theorem dao_proposal_ids_fresh:
  assumes "reach dao_exec dao_empty s" and "dao_create_proposal e a s = Ok (i, s')"
  shows "dao_Proposal s i = None \<and> (\<forall>j. j \<noteq> i \<longrightarrow> dao_Proposal s' j = dao_Proposal s j)
    \<and> (\<exists>p. dao_Proposal s' i = Some p \<and> pr_proposer p = a
          \<and> pr_snapshot_supply p = dao_total_supply s \<and> \<not> pr_queued p \<and> \<not> pr_executed p)"
proof -
  have "dao_inv s"
    by (rule dao_invariant.reach_inv [OF assms(1) dao_inv_empty])
  then have "unwrap_or (dao_NextId s) 0 \<notin> dom (dao_Proposal s)"
    by (simp add: dao_inv_def)
  with dao_create_Ok [OF assms(2)] show ?thesis by auto
qed

text \<open>
  Voting weight is the balance at voting time: tokens minted after a proposal was created count
  in full in a vote on it, while the supply the quorum is measured against stays at its snapshot.
\<close>

theorem dao_late_tokens_vote:
  assumes "dao_mint e1 a n s = Ok s1" and "dao_vote e2 a i True s1 = Ok s2"
    and "dao_Proposal s i = Some p"
  shows "\<exists>p'. dao_Proposal s2 i = Some p' \<and> pr_votes_for p' = pr_votes_for p + dao_balance s a + n
    \<and> pr_snapshot_supply p' = pr_snapshot_supply p"
proof -
  from assms(1) have "dao_balance s1 a = dao_balance s a + n" and "dao_Proposal s1 = dao_Proposal s"
    by (auto simp: dao_mint_def Let_def result_simps int_simps dao_balance_def)
  with assms(2,3) show ?thesis
    by (auto elim!: dao_vote_Ok simp: tally_def)
qed

section \<open>A concrete DAO\<close>

definition dao_demo_calls :: "(env \<times> dao_call) list" where
  "dao_demo_calls =
     [(signed_env [] 1, DMint (Address 5) 90), (signed_env [] 1, DMint (Address 6) 10),
      (signed_env [Address 5] 2, DCreate (Address 5)),
      (signed_env [Address 5] 3, DVote (Address 5) 0 True),
      (signed_env [] 4, DQueue 0)]"

definition dao_demo :: dao where
  "dao_demo = run_calls dao_exec dao_demo_calls dao_empty"

lemma dao_demo_reachable: "reach dao_exec dao_empty dao_demo"
  unfolding dao_demo_def by (rule run_calls_reach)

definition dao_open :: dao where
  "dao_open = \<lparr>events = [([''proposed''], [VInt 0, VAddr (Address 5)])], dao_TotalSupply = Some 100,
     dao_Balance = [Address 5 \<mapsto> 90, Address 6 \<mapsto> 10], dao_NextId = Some 1,
     dao_Proposal = [0 \<mapsto> \<lparr>pr_proposer = Address 5, pr_snapshot_supply = 100, pr_votes_for = 0,
       pr_votes_against = 0, pr_queued = False, pr_executed = False, pr_execute_after = 0\<rparr>],
     dao_Voted = Map.empty\<rparr>"

lemma dao_open_run: "run_calls dao_exec (take 3 dao_demo_calls) dao_empty = dao_open"
  by (simp add: dao_demo_calls_def dao_empty_def dao_mint_def dao_create_proposal_def dao_balance_def
      dao_total_supply_def signed_env_def checked_ops in_range_def publish_def dao_open_def)

lemma dao_open_reachable: "reach dao_exec dao_empty dao_open"
  using run_calls_reach [of dao_exec dao_empty "take 3 dao_demo_calls"] by (simp add: dao_open_run)

lemma dao_demo_split: "dao_demo = run_calls dao_exec (drop 3 dao_demo_calls) dao_open"
  by (simp add: dao_demo_def dao_open_run [symmetric] run_calls_append [symmetric])

lemma dao_demo_proposal:
  "dao_Proposal dao_demo 0 = Some \<lparr>pr_proposer = Address 5, pr_snapshot_supply = 100,
     pr_votes_for = 90, pr_votes_against = 0, pr_queued = True, pr_executed = False,
     pr_execute_after = 1004\<rparr>"
  by (simp add: dao_demo_split dao_demo_calls_def dao_open_def dao_vote_def dao_queue_def
      dao_balance_def signed_env_def checked_ops in_range_def QUORUM_BPS_def TIMELOCK_DELAY_def
      publish_def signed_divide_int_def)

theorem dao_execution_timelocked_witness:
  "(\<exists>s'. dao_execute (signed_env [] 1004) 0 dao_demo = Ok s')
   \<and> (\<exists>ys e0 zs. dao_demo_calls = ys @ (e0, DQueue 0) # zs \<and> sequence e0 + 1000 \<le> 1004)"
proof -
  obtain s' where ok: "dao_execute (signed_env [] 1004) 0 dao_demo = Ok s'"
    by (simp add: dao_execute_def dao_demo_proposal signed_env_def)
  from dao_execution_timelocked [OF ok [unfolded dao_demo_def]] ok show ?thesis
    by (auto simp: signed_env_def)
qed

theorem dao_executes_once_witness:
  "\<exists>s'. dao_execute (signed_env [] 1004) 0 dao_demo = Ok s'
     \<and> dao_execute (signed_env [] 2000) 0 s' = Err (Panic ''already executed'')"
proof -
  obtain s' where ok: "dao_execute (signed_env [] 1004) 0 dao_demo = Ok s'"
    by (simp add: dao_execute_def dao_demo_proposal signed_env_def)
  from dao_executes_once [OF dao_demo_reachable ok reach_refl] ok show ?thesis by blast
qed

theorem dao_no_double_vote_witness:
  "\<exists>s'. dao_vote (signed_env [Address 6] 3) (Address 6) 0 False dao_open = Ok s'
     \<and> dao_vote (signed_env [Address 6] 4) (Address 6) 0 True s' = Err (Panic ''already voted'')"
proof -
  obtain s' where ok: "dao_vote (signed_env [Address 6] 3) (Address 6) 0 False dao_open = Ok s'"
    by (simp add: dao_vote_def dao_open_def dao_balance_def signed_env_def checked_ops in_range_def)
  from dao_no_double_vote [OF ok reach_refl, of "signed_env [Address 6] 4" True] ok show ?thesis
    by (simp add: signed_env_def)
qed

theorem dao_proposal_ids_fresh_witness:
  "\<exists>s'. dao_create_proposal (signed_env [Address 6] 3) (Address 6) dao_open = Ok (1, s')
     \<and> dao_Proposal dao_open 1 = None \<and> dao_Proposal s' 0 = dao_Proposal dao_open 0"
proof -
  obtain s' where ok: "dao_create_proposal (signed_env [Address 6] 3) (Address 6) dao_open = Ok (1, s')"
    by (simp add: dao_create_proposal_def dao_open_def dao_balance_def signed_env_def checked_ops
        in_range_def)
  from dao_proposal_ids_fresh [OF dao_open_reachable ok] ok show ?thesis by auto
qed

theorem dao_late_tokens_vote_witness:
  "\<exists>s1 s2 p'. dao_mint (signed_env [] 3) (Address 7) 500 dao_open = Ok s1
     \<and> dao_vote (signed_env [Address 7] 3) (Address 7) 0 True s1 = Ok s2
     \<and> dao_Proposal s2 0 = Some p' \<and> pr_votes_for p' = 500 \<and> pr_snapshot_supply p' = 100"
proof -
  obtain s1 s2 where 1: "dao_mint (signed_env [] 3) (Address 7) 500 dao_open = Ok s1"
    and 2: "dao_vote (signed_env [Address 7] 3) (Address 7) 0 True s1 = Ok s2"
    by (simp add: dao_mint_def dao_vote_def dao_open_def dao_balance_def dao_total_supply_def
        signed_env_def checked_ops in_range_def)
  from dao_late_tokens_vote [OF 1 2] 1 2 show ?thesis
    by (auto simp: dao_open_def dao_balance_def)
qed

end
