(* ===== verification/Secure_Multisig.thy ===== *)
theory Secure_Multisig
  imports Soroban_Containers "HOL-Library.Sublist"
begin

text \<open>
  The M-of-N multisig (\<^verbatim>\<open>src/secure/secure_multisig/src/lib.rs\<close>). Shown: an executed action carries
  the approvals of at least M different signers; each approval was authorised by its signer while
  the proposal was alive; approvals only accumulate and execution is final.
\<close>

record ms_proposal =
  mp_created_at :: int
  mp_approvals :: "address list"
  mp_executed :: bool

text \<open>Action hashes (\<^verbatim>\<open>BytesN<32>\<close>) are opaque keys.\<close>

type_synonym action_hash = string

record multisig = host +
  ms_Signers :: "address list option"
  ms_Threshold :: "int option"
  ms_TtlLedgers :: "int option"
  ms_Proposal :: "action_hash \<rightharpoonup> ms_proposal"

definition multisig_empty :: multisig where
  "multisig_empty = \<lparr>events = [], ms_Signers = None, ms_Threshold = None, ms_TtlLedgers = None,
     ms_Proposal = Map.empty\<rparr>"

section \<open>Operations\<close>

definition multisig_initialize ::
    "env \<Rightarrow> address list \<Rightarrow> int \<Rightarrow> int \<Rightarrow> multisig \<Rightarrow> multisig result" where
  "multisig_initialize e signers threshold ttl_ledgers s =
     panic_if (ms_Signers s \<noteq> None) ''already initialized'' (
     panic_if (threshold = 0 \<or> threshold > vec_len signers) ''invalid threshold'' (
     Ok (s\<lparr>ms_Signers := Some signers, ms_Threshold := Some threshold,
           ms_TtlLedgers := Some ttl_ledgers\<rparr>)))"

definition multisig_assert_signer :: "multisig \<Rightarrow> address \<Rightarrow> 'a result \<Rightarrow> 'a result" where
  "multisig_assert_signer s addr k =
     expect (ms_Signers s) ''not initialized'' (\<lambda>signers.
     panic_if (addr \<notin> set signers) ''not a signer'' k)"

definition multisig_assert_not_expired :: "env \<Rightarrow> multisig \<Rightarrow> ms_proposal \<Rightarrow> 'a result \<Rightarrow> 'a result" where
  "multisig_assert_not_expired e s proposal k =
     expect (ms_TtlLedgers s) ''not initialized'' (\<lambda>ttl.
     arith (checked_add U32 (mp_created_at proposal) ttl) (\<lambda>limit.
     panic_if (sequence e > limit) ''proposal expired'' k))"

definition multisig_propose_action ::
    "env \<Rightarrow> address \<Rightarrow> action_hash \<Rightarrow> multisig \<Rightarrow> multisig result" where
  "multisig_propose_action e proposer action_hash s =
     require_auth e proposer (
     multisig_assert_signer s proposer (
     panic_if (ms_Proposal s action_hash \<noteq> None) ''proposal already exists'' (
     let proposal = \<lparr>mp_created_at = sequence e, mp_approvals = [], mp_executed = False\<rparr>;
         s1 = s\<lparr>ms_Proposal := (ms_Proposal s)(action_hash \<mapsto> proposal)\<rparr>
     in Ok (publish [''proposed''] [VStr action_hash] s1))))"

definition multisig_approve :: "env \<Rightarrow> address \<Rightarrow> action_hash \<Rightarrow> multisig \<Rightarrow> multisig result" where
  "multisig_approve e signer action_hash s =
     require_auth e signer (
     multisig_assert_signer s signer (
     expect (ms_Proposal s action_hash) ''proposal not found'' (\<lambda>proposal.
     multisig_assert_not_expired e s proposal (
     panic_if (mp_executed proposal) ''already executed'' (
     panic_if (signer \<in> set (mp_approvals proposal)) ''already approved'' (
     let proposal' = proposal\<lparr>mp_approvals := mp_approvals proposal @ [signer]\<rparr>;
         s1 = s\<lparr>ms_Proposal := (ms_Proposal s)(action_hash \<mapsto> proposal')\<rparr>
     in Ok (publish [''approved''] [VStr action_hash, VAddr signer] s1)))))))"

definition multisig_execute :: "env \<Rightarrow> action_hash \<Rightarrow> multisig \<Rightarrow> multisig result" where
  "multisig_execute e action_hash s =
     expect (ms_Proposal s action_hash) ''proposal not found'' (\<lambda>proposal.
     multisig_assert_not_expired e s proposal (
     panic_if (mp_executed proposal) ''already executed'' (
     expect (ms_Threshold s) ''not initialized'' (\<lambda>threshold.
     panic_if (vec_len (mp_approvals proposal) < threshold) ''insufficient approvals'' (
     let s1 = s\<lparr>ms_Proposal := (ms_Proposal s)(action_hash \<mapsto> proposal\<lparr>mp_executed := True\<rparr>)\<rparr>
     in Ok (publish [''executed''] [VStr action_hash] s1))))))"

definition multisig_get_proposal :: "multisig \<Rightarrow> action_hash \<Rightarrow> ms_proposal option" where
  "multisig_get_proposal s action_hash = ms_Proposal s action_hash"

definition multisig_get_signers :: "multisig \<Rightarrow> address list result" where
  "multisig_get_signers s = expect (ms_Signers s) ''not initialized'' Ok"

datatype multisig_call =
    MInitialize "address list" int int
  | MPropose address action_hash
  | MApprove address action_hash
  | MExecute action_hash

fun multisig_exec :: "env \<Rightarrow> multisig_call \<Rightarrow> multisig \<Rightarrow> multisig result" where
  "multisig_exec e (MInitialize sg m ttl) s = multisig_initialize e sg m ttl s"
| "multisig_exec e (MPropose a h) s = multisig_propose_action e a h s"
| "multisig_exec e (MApprove a h) s = multisig_approve e a h s"
| "multisig_exec e (MExecute h) s = multisig_execute e h s"

section \<open>Effects\<close>

lemma ms_publish [simp]:
  "ms_Signers (publish t d s) = ms_Signers s" "ms_Threshold (publish t d s) = ms_Threshold s"
  "ms_TtlLedgers (publish t d s) = ms_TtlLedgers s" "ms_Proposal (publish t d s) = ms_Proposal s"
  by (simp_all add: publish_def)

lemma multisig_assert_signer_Ok [result_simps]:
  "multisig_assert_signer s a k = Ok r \<longleftrightarrow> (\<exists>sg. ms_Signers s = Some sg \<and> a \<in> set sg \<and> k = Ok r)"
  by (auto simp: multisig_assert_signer_def result_simps)

lemma multisig_assert_not_expired_Ok [result_simps]:
  "multisig_assert_not_expired e s p k = Ok r \<longleftrightarrow>
     (\<exists>ttl. ms_TtlLedgers s = Some ttl \<and> in_range U32 (mp_created_at p + ttl)
        \<and> sequence e \<le> mp_created_at p + ttl \<and> k = Ok r)"
  by (auto simp: multisig_assert_not_expired_def result_simps int_simps)

lemma approve_Ok:
  assumes "multisig_approve e a h s = Ok s'"
  obtains sg p ttl where "authorized e a" "ms_Signers s = Some sg" "a \<in> set sg"
    "ms_Proposal s h = Some p" "ms_TtlLedgers s = Some ttl" "sequence e \<le> mp_created_at p + ttl"
    "\<not> mp_executed p" "a \<notin> set (mp_approvals p)"
    "s' = publish [''approved''] [VStr h, VAddr a]
       (s\<lparr>ms_Proposal := (ms_Proposal s)(h \<mapsto> p\<lparr>mp_approvals := mp_approvals p @ [a]\<rparr>)\<rparr>)"
  using assms by (auto simp: multisig_approve_def result_simps Let_def)

lemma execute_Ok:
  assumes "multisig_execute e h s = Ok s'"
  obtains p m ttl where "ms_Proposal s h = Some p" "ms_Threshold s = Some m"
    "ms_TtlLedgers s = Some ttl" "sequence e \<le> mp_created_at p + ttl"
    "\<not> mp_executed p" "m \<le> vec_len (mp_approvals p)"
    "s' = publish [''executed''] [VStr h]
       (s\<lparr>ms_Proposal := (ms_Proposal s)(h \<mapsto> p\<lparr>mp_executed := True\<rparr>)\<rparr>)"
  using assms by (auto simp: multisig_execute_def result_simps Let_def)

lemma propose_Ok:
  assumes "multisig_propose_action e a h s = Ok s'"
  obtains sg where "authorized e a" "ms_Signers s = Some sg" "a \<in> set sg" "ms_Proposal s h = None"
    "s' = publish [''proposed''] [VStr h] (s\<lparr>ms_Proposal := (ms_Proposal s)(h \<mapsto>
        \<lparr>mp_created_at = sequence e, mp_approvals = [], mp_executed = False\<rparr>)\<rparr>)"
  using assms by (auto simp: multisig_propose_action_def result_simps Let_def)

section \<open>Invariant\<close>

definition ms_proposal_ok :: "multisig \<Rightarrow> ms_proposal \<Rightarrow> bool" where
  "ms_proposal_ok s p \<longleftrightarrow> distinct (mp_approvals p)
     \<and> (\<exists>sg m. ms_Signers s = Some sg \<and> ms_Threshold s = Some m
          \<and> set (mp_approvals p) \<subseteq> set sg
          \<and> (mp_executed p \<longrightarrow> m \<le> vec_len (mp_approvals p)))"

definition multisig_inv :: "multisig \<Rightarrow> bool" where
  "multisig_inv s \<longleftrightarrow> (ms_Signers s = None \<longleftrightarrow> ms_Threshold s = None)
     \<and> (\<forall>h p. ms_Proposal s h = Some p \<longrightarrow> ms_proposal_ok s p)"

lemma ms_proposal_ok_cong:
  "ms_Signers s' = ms_Signers s \<Longrightarrow> ms_Threshold s' = ms_Threshold s \<Longrightarrow>
     ms_proposal_ok s' p = ms_proposal_ok s p"
  by (simp add: ms_proposal_ok_def)

lemma multisig_inv_update:
  assumes "multisig_inv s" and "ms_proposal_ok s p"
    and "ms_Signers s' = ms_Signers s" "ms_Threshold s' = ms_Threshold s"
    and "ms_Proposal s' = (ms_Proposal s)(h \<mapsto> p)"
  shows "multisig_inv s'"
  using assms ms_proposal_ok_cong [OF assms(3,4)] by (auto simp: multisig_inv_def)

lemma multisig_exec_inv:
  assumes inv: "multisig_inv s" and ok: "multisig_exec e c s = Ok s'"
  shows "multisig_inv s'"
proof (cases c)
  case (MInitialize sg m ttl)
  with inv ok show ?thesis
    by (auto simp: multisig_initialize_def result_simps multisig_inv_def ms_proposal_ok_def)
next
  case (MPropose a h)
  with ok have "multisig_propose_action e a h s = Ok s'" by simp
  with inv show ?thesis
    by (elim propose_Ok)
       (rule multisig_inv_update [where h = h], auto simp: multisig_inv_def ms_proposal_ok_def)
next
  case (MApprove a h)
  with ok have "multisig_approve e a h s = Ok s'" by simp
  with inv show ?thesis
    by (elim approve_Ok)
       (rule multisig_inv_update [where h = h],
        auto simp: multisig_inv_def ms_proposal_ok_def vec_len_def)
next
  case (MExecute h)
  with ok have "multisig_execute e h s = Ok s'" by simp
  with inv show ?thesis
    by (elim execute_Ok)
       (rule multisig_inv_update [where h = h], auto simp: multisig_inv_def ms_proposal_ok_def)
qed

interpretation multisig_invariant: contract_invariant multisig_exec multisig_inv
  by unfold_locales (rule multisig_exec_inv)

lemma multisig_inv_empty: "multisig_inv multisig_empty"
  by (simp add: multisig_inv_def multisig_empty_def)

section \<open>Approvals and progress\<close>

definition approved_by :: "action_hash \<Rightarrow> address \<Rightarrow> multisig \<Rightarrow> bool" where
  "approved_by h a s \<longleftrightarrow> (\<exists>p. ms_Proposal s h = Some p \<and> a \<in> set (mp_approvals p))"

definition approves :: "action_hash \<Rightarrow> address \<Rightarrow> env \<Rightarrow> multisig_call \<Rightarrow> multisig \<Rightarrow> bool" where
  "approves h a e c s \<longleftrightarrow> c = MApprove a h \<and> authorized e a
     \<and> (\<exists>sg. ms_Signers s = Some sg \<and> a \<in> set sg)
     \<and> (\<exists>p ttl. ms_Proposal s h = Some p \<and> ms_TtlLedgers s = Some ttl
          \<and> sequence e \<le> mp_created_at p + ttl)"

lemma multisig_exec_approves:
  assumes ok: "multisig_exec e c s = Ok s'" and new: "approved_by h a s'" and old: "\<not> approved_by h a s"
  shows "approves h a e c s"
proof (cases c)
  case (MInitialize sg m ttl)
  with assms show ?thesis by (auto simp: multisig_initialize_def result_simps approved_by_def)
next
  case (MPropose b j)
  with ok have "multisig_propose_action e b j s = Ok s'" by simp
  with new old show ?thesis by (auto elim!: propose_Ok simp: approved_by_def split: if_splits)
next
  case (MApprove b j)
  with ok have "multisig_approve e b j s = Ok s'" by simp
  with new old MApprove show ?thesis
    by (auto elim!: approve_Ok simp: approved_by_def approves_def split: if_splits)
next
  case (MExecute j)
  with ok have "multisig_execute e j s = Ok s'" by simp
  with new old show ?thesis by (auto elim!: execute_Ok simp: approved_by_def split: if_splits)
qed

interpretation multisig_approval: guarded_steps multisig_exec
    "\<lambda>s t. approved_by h a t \<longrightarrow> approved_by h a s" "approves h a" for h a
  by unfold_locales (auto intro: multisig_exec_approves)

definition ms_le :: "multisig \<Rightarrow> multisig \<Rightarrow> bool" where
  "ms_le s t \<longleftrightarrow> (\<forall>h p. ms_Proposal s h = Some p \<longrightarrow>
     (\<exists>q. ms_Proposal t h = Some q \<and> prefix (mp_approvals p) (mp_approvals q)
        \<and> mp_created_at q = mp_created_at p \<and> (mp_executed p \<longrightarrow> q = p)))"

lemma ms_le_trans:
  assumes st: "ms_le s t" and tu: "ms_le t u"
  shows "ms_le s u"
  unfolding ms_le_def
proof (intro allI impI)
  fix h p
  assume "ms_Proposal s h = Some p"
  then obtain q where q: "ms_Proposal t h = Some q" "prefix (mp_approvals p) (mp_approvals q)"
      "mp_created_at q = mp_created_at p" "mp_executed p \<longrightarrow> q = p"
    using st unfolding ms_le_def by blast
  then obtain r where "ms_Proposal u h = Some r" "prefix (mp_approvals q) (mp_approvals r)"
      "mp_created_at r = mp_created_at q" "mp_executed q \<longrightarrow> r = q"
    using tu unfolding ms_le_def by blast
  with q show "\<exists>r. ms_Proposal u h = Some r \<and> prefix (mp_approvals p) (mp_approvals r)
      \<and> mp_created_at r = mp_created_at p \<and> (mp_executed p \<longrightarrow> r = p)"
    by (auto intro: prefix_order.trans)
qed

lemma ms_le_update:
  assumes "ms_Proposal s h = Some p" "ms_Proposal s' = (ms_Proposal s)(h \<mapsto> q)"
    "prefix (mp_approvals p) (mp_approvals q)" "mp_created_at q = mp_created_at p" "\<not> mp_executed p"
  shows "ms_le s s'"
  using assms by (auto simp: ms_le_def)

lemma multisig_exec_le: "multisig_exec e c s = Ok s' \<Longrightarrow> ms_le s s'"
proof (cases c)
  case (MInitialize sg m ttl)
  moreover assume "multisig_exec e c s = Ok s'"
  ultimately show ?thesis
    by (auto simp: multisig_initialize_def result_simps ms_le_def)
next
  case (MPropose a h)
  moreover assume "multisig_exec e c s = Ok s'"
  ultimately have "multisig_propose_action e a h s = Ok s'" by simp
  then show ?thesis by (auto elim!: propose_Ok simp: ms_le_def)
next
  case (MApprove a h)
  moreover assume "multisig_exec e c s = Ok s'"
  ultimately have "multisig_approve e a h s = Ok s'" by simp
  then show ?thesis by (auto elim!: approve_Ok intro!: ms_le_update)
next
  case (MExecute h)
  moreover assume "multisig_exec e c s = Ok s'"
  ultimately have "multisig_execute e h s = Ok s'" by simp
  then show ?thesis by (auto elim!: execute_Ok intro!: ms_le_update)
qed

interpretation multisig_progress: contract_progress multisig_exec ms_le
  by unfold_locales (simp add: ms_le_def, erule (1) ms_le_trans, erule multisig_exec_le)

section \<open>Properties\<close>

text \<open>
  C16: Every executed action of a reachable multisig carries approvals of at least M different
  addresses, all of them initialised signers, where M is the stored threshold.
\<close>

theorem multisig_executed_has_quorum:
  assumes "reach multisig_exec multisig_empty s" and "ms_Proposal s h = Some p" and "mp_executed p"
  shows "\<exists>sg m. ms_Signers s = Some sg \<and> ms_Threshold s = Some m
    \<and> set (mp_approvals p) \<subseteq> set sg \<and> m \<le> int (card (set (mp_approvals p)))"
proof -
  have "ms_proposal_ok s p"
    using multisig_invariant.reach_inv [OF assms(1) multisig_inv_empty] assms(2)
    by (simp add: multisig_inv_def)
  with assms(3) show ?thesis
    by (auto simp: ms_proposal_ok_def vec_len_def distinct_card)
qed

text \<open>
  Each approval on record is genuine: if an address appears among the approvals of an action
  after a run of a new multisig, the run contains that address's own authorised \<^verbatim>\<open>approve\<close> of that
  action, made while the address was a signer and the proposal had not expired.
\<close>

theorem multisig_approvals_genuine:
  assumes "ms_Proposal (run_calls multisig_exec xs multisig_empty) h = Some p"
    and "a \<in> set (mp_approvals p)"
  shows "\<exists>ys e zs sg q ttl. xs = ys @ (e, MApprove a h) # zs \<and> authorized e a
    \<and> ms_Signers (run_calls multisig_exec ys multisig_empty) = Some sg \<and> a \<in> set sg
    \<and> ms_Proposal (run_calls multisig_exec ys multisig_empty) h = Some q
    \<and> ms_TtlLedgers (run_calls multisig_exec ys multisig_empty) = Some ttl
    \<and> sequence e \<le> mp_created_at q + ttl"
proof -
  have "approved_by h a (run_calls multisig_exec xs multisig_empty)"
    using assms by (auto simp: approved_by_def)
  moreover have "\<not> approved_by h a multisig_empty"
    by (simp add: approved_by_def multisig_empty_def)
  ultimately obtain ys e c zs where xs: "xs = ys @ (e, c) # zs"
    and ap: "approves h a e c (run_calls multisig_exec ys multisig_empty)"
    using multisig_approval.run_guard [of h a xs multisig_empty] by blast
  then show ?thesis unfolding approves_def by blast
qed

text \<open>
  Proposals only move forward: over any run approvals are appended, never withdrawn, the
  creation ledger never changes, and an executed proposal is frozen.
\<close>

theorem multisig_proposals_monotone:
  assumes "ms_Proposal s h = Some p"
  shows "\<exists>q. ms_Proposal (run_calls multisig_exec xs s) h = Some q
    \<and> prefix (mp_approvals p) (mp_approvals q) \<and> mp_created_at q = mp_created_at p
    \<and> (mp_executed p \<longrightarrow> q = p)"
  using multisig_progress.run_le [of s xs] assms by (auto simp: ms_le_def)

section \<open>A concrete 2-of-3 multisig\<close>

definition ms_demo_calls :: "(env \<times> multisig_call) list" where
  "ms_demo_calls =
     [(signed_env [] 1, MInitialize [Address 5, Address 6, Address 7] 2 50),
      (signed_env [Address 5] 10, MPropose (Address 5) ''act''),
      (signed_env [Address 5] 11, MApprove (Address 5) ''act''),
      (signed_env [Address 7] 12, MApprove (Address 7) ''act''),
      (signed_env [] 13, MExecute ''act'')]"

lemma ms_demo_proposal:
  "ms_Proposal (run_calls multisig_exec ms_demo_calls multisig_empty) ''act''
     = Some \<lparr>mp_created_at = 10, mp_approvals = [Address 5, Address 7], mp_executed = True\<rparr>"
  by (simp add: ms_demo_calls_def multisig_empty_def multisig_initialize_def multisig_propose_action_def
      multisig_approve_def multisig_execute_def multisig_assert_signer_def
      multisig_assert_not_expired_def signed_env_def vec_len_def publish_def checked_ops in_range_def)

theorem multisig_executed_has_quorum_witness:
  "\<exists>sg m. ms_Signers (run_calls multisig_exec ms_demo_calls multisig_empty) = Some sg
     \<and> ms_Threshold (run_calls multisig_exec ms_demo_calls multisig_empty) = Some m
     \<and> {Address 5, Address 7} \<subseteq> set sg \<and> m \<le> 2"
  using multisig_executed_has_quorum [OF run_calls_reach ms_demo_proposal] by simp

theorem multisig_approvals_genuine_witness:
  "\<exists>ys e zs. ms_demo_calls = ys @ (e, MApprove (Address 7) ''act'') # zs \<and> authorized e (Address 7)"
  using multisig_approvals_genuine [OF ms_demo_proposal, of "Address 7"] by auto

theorem multisig_proposals_monotone_witness:
  "ms_Proposal (run_calls multisig_exec [(signed_env [Address 6] 14, MApprove (Address 6) ''act'')]
      (run_calls multisig_exec ms_demo_calls multisig_empty)) ''act''
     = Some \<lparr>mp_created_at = 10, mp_approvals = [Address 5, Address 7], mp_executed = True\<rparr>"
  using multisig_proposals_monotone [OF ms_demo_proposal,
      of "[(signed_env [Address 6] 14, MApprove (Address 6) ''act'')]"]
  by auto

end
