(* ===== verification/Secure_Lending.thy ===== *)
theory Secure_Lending
  imports Soroban_Prelude
begin

text \<open>
  The lending pool (\<^verbatim>\<open>src/secure/secure_lending/src/lib.rs\<close>): collateral and debt per borrower. Shown:
  in every reachable state each position is healthy at the borrowing ratio, so no liquidation can
  succeed; \<^verbatim>\<open>initialize\<close> can be called on an open position and erases its debt.
\<close>

definition MIN_COLLATERAL_RATIO :: int where "MIN_COLLATERAL_RATIO = 150"
definition LIQUIDATION_THRESHOLD :: int where "LIQUIDATION_THRESHOLD = 120"

record lending = host +
  len_Collateral :: "address \<rightharpoonup> int"
  len_Debt :: "address \<rightharpoonup> int"

definition lending_empty :: lending where
  "lending_empty = \<lparr>events = [], len_Collateral = Map.empty, len_Debt = Map.empty\<rparr>"

definition lending_get_collateral :: "lending \<Rightarrow> address \<Rightarrow> int" where
  "lending_get_collateral s borrower = unwrap_or (len_Collateral s borrower) 0"

definition lending_get_debt :: "lending \<Rightarrow> address \<Rightarrow> int" where
  "lending_get_debt s borrower = unwrap_or (len_Debt s borrower) 0"

definition lending_get_position :: "lending \<Rightarrow> address \<Rightarrow> int \<times> int" where
  "lending_get_position s borrower = (lending_get_collateral s borrower, lending_get_debt s borrower)"

definition lending_initialize :: "env \<Rightarrow> address \<Rightarrow> lending \<Rightarrow> lending result" where
  "lending_initialize e borrower s =
     require_auth e borrower (
     let s1 = s\<lparr>len_Collateral := (len_Collateral s)(borrower \<mapsto> 0)\<rparr>
     in Ok (s1\<lparr>len_Debt := (len_Debt s1)(borrower \<mapsto> 0)\<rparr>))"

definition lending_deposit_collateral :: "env \<Rightarrow> address \<Rightarrow> int \<Rightarrow> lending \<Rightarrow> lending result" where
  "lending_deposit_collateral e borrower amount s =
     require_auth e borrower (
     panic_if (amount \<le> 0) ''amount must be positive'' (
     let current = unwrap_or (len_Collateral s borrower) 0 in
     expect (checked_add I128 current amount) ''collateral overflow'' (\<lambda>updated.
     Ok (s\<lparr>len_Collateral := (len_Collateral s)(borrower \<mapsto> updated)\<rparr>))))"

definition lending_borrow :: "env \<Rightarrow> address \<Rightarrow> int \<Rightarrow> lending \<Rightarrow> lending result" where
  "lending_borrow e borrower amount s =
     require_auth e borrower (
     panic_if (amount \<le> 0) ''amount must be positive'' (
     let collateral = lending_get_collateral s borrower;
         debt = lending_get_debt s borrower in
     expect (checked_add I128 debt amount) ''debt overflow'' (\<lambda>new_debt.
     expect (checked_mul I128 collateral 100) ''collateral overflow'' (\<lambda>lhs.
     expect (checked_mul I128 new_debt MIN_COLLATERAL_RATIO) ''debt ratio overflow'' (\<lambda>rhs.
     panic_if (lhs < rhs) ''insufficient collateral'' (
     Ok (s\<lparr>len_Debt := (len_Debt s)(borrower \<mapsto> new_debt)\<rparr>)))))))"

definition lending_repay :: "env \<Rightarrow> address \<Rightarrow> int \<Rightarrow> lending \<Rightarrow> lending result" where
  "lending_repay e borrower amount s =
     require_auth e borrower (
     panic_if (amount \<le> 0) ''amount must be positive'' (
     let debt = lending_get_debt s borrower in
     panic_if (amount > debt) ''repay amount exceeds debt'' (
     arith (checked_sub I128 debt amount) (\<lambda>new_debt.
     Ok (s\<lparr>len_Debt := (len_Debt s)(borrower \<mapsto> new_debt)\<rparr>)))))"

definition lending_liquidate :: "env \<Rightarrow> address \<Rightarrow> address \<Rightarrow> lending \<Rightarrow> lending result" where
  "lending_liquidate e borrower caller s =
     require_auth e caller (
     let collateral = lending_get_collateral s borrower;
         debt = lending_get_debt s borrower in
     panic_if (debt = 0) ''nothing to liquidate'' (
     expect (checked_mul I128 collateral 100) ''collateral overflow'' (\<lambda>lhs.
     expect (checked_mul I128 debt LIQUIDATION_THRESHOLD) ''debt threshold overflow'' (\<lambda>rhs.
     panic_if (lhs \<ge> rhs) ''position not liquidatable'' (
     let s1 = s\<lparr>len_Collateral := (len_Collateral s)(borrower \<mapsto> 0)\<rparr>
     in Ok (s1\<lparr>len_Debt := (len_Debt s1)(borrower \<mapsto> 0)\<rparr>))))))"

datatype lending_call =
    LInitialize address
  | LDeposit address int
  | LBorrow address int
  | LRepay address int
  | LLiquidate address address

fun lending_exec :: "env \<Rightarrow> lending_call \<Rightarrow> lending \<Rightarrow> lending result" where
  "lending_exec e (LInitialize a) s = lending_initialize e a s"
| "lending_exec e (LDeposit a n) s = lending_deposit_collateral e a n s"
| "lending_exec e (LBorrow a n) s = lending_borrow e a n s"
| "lending_exec e (LRepay a n) s = lending_repay e a n s"
| "lending_exec e (LLiquidate b c) s = lending_liquidate e b c s"

lemmas lending_defs = lending_initialize_def lending_deposit_collateral_def lending_borrow_def
  lending_repay_def lending_liquidate_def

lemmas lending_views = lending_get_collateral_def lending_get_debt_def

section \<open>Invariant\<close>

definition position_ok :: "int \<Rightarrow> int \<Rightarrow> bool" where
  "position_ok collateral debt \<longleftrightarrow> 0 \<le> collateral \<and> in_range I128 collateral \<and> 0 \<le> debt
     \<and> debt * 150 \<le> collateral * 100"

definition lending_inv :: "lending \<Rightarrow> bool" where
  "lending_inv s \<longleftrightarrow> (\<forall>a. position_ok (lending_get_collateral s a) (lending_get_debt s a))"

lemma lending_exec_position:
  assumes "lending_exec e c s = Ok s'" and "lending_inv s"
  shows "position_ok (lending_get_collateral s' a) (lending_get_debt s' a)"
proof -
  have old: "position_ok (lending_get_collateral s b) (lending_get_debt s b)" for b
    using assms(2) by (simp add: lending_inv_def)
  show ?thesis
    using assms(1) old [of a]
    by (cases c) (auto simp: lending_defs result_simps int_simps Let_def lending_views position_ok_def
        MIN_COLLATERAL_RATIO_def in_range_def)
qed

interpretation lending_invariant: contract_invariant lending_exec lending_inv
  by unfold_locales (auto simp: lending_inv_def [of s' for s'] intro: lending_exec_position)

lemma lending_inv_empty: "lending_inv lending_empty"
  by (simp add: lending_inv_def lending_empty_def lending_views position_ok_def)

section \<open>Properties\<close>

text \<open>
  C17: In every reachable state every borrower's debt is covered at 150\% by the collateral, so a
  liquidation traps whoever calls it: a position can only become liquidatable through a change of
  value the contract does not have.
\<close>

theorem lending_always_healthy:
  assumes "reach lending_exec lending_empty s"
  shows "0 \<le> lending_get_debt s a \<and> lending_get_debt s a * 150 \<le> lending_get_collateral s a * 100
    \<and> lending_liquidate e a caller s \<noteq> Ok s'"
proof -
  have "lending_inv s"
    by (rule lending_invariant.reach_inv [OF assms lending_inv_empty])
  then have "0 \<le> lending_get_debt s a \<and> lending_get_debt s a * 150 \<le> lending_get_collateral s a * 100"
    by (simp add: lending_inv_def position_ok_def)
  then show ?thesis
    by (auto simp: lending_liquidate_def LIQUIDATION_THRESHOLD_def result_simps int_simps Let_def)
qed

text \<open>
  A borrow succeeds exactly when it is signed, positive, representable, and keeps the position
  at 150\% or better; it then adds exactly the amount to the debt and touches nothing else.
\<close>

theorem lending_borrow_exact:
  "lending_borrow e a n s = Ok s' \<longleftrightarrow>
     authorized e a \<and> 0 < n
     \<and> (lending_get_debt s a + n) * 150 \<le> lending_get_collateral s a * 100
     \<and> in_range I128 (lending_get_debt s a + n)
     \<and> in_range I128 ((lending_get_debt s a + n) * 150) \<and> in_range I128 (lending_get_collateral s a * 100)
     \<and> s' = s\<lparr>len_Debt := (len_Debt s)(a \<mapsto> lending_get_debt s a + n)\<rparr>"
  by (auto simp: lending_borrow_def MIN_COLLATERAL_RATIO_def result_simps int_simps Let_def)

text \<open>
  \<^verbatim>\<open>initialize\<close> is not a one-time operation: whatever the borrower owes, a call signed by the
  borrower alone succeeds and leaves the borrower with no debt, without any repayment.
\<close>

theorem lending_initialize_erases_debt:
  assumes "authorized e a"
  shows "\<exists>s'. lending_initialize e a s = Ok s' \<and> lending_get_position s' a = (0, 0)
    \<and> (\<forall>b. b \<noteq> a \<longrightarrow> lending_get_position s' b = lending_get_position s b)"
  using assms by (simp add: lending_initialize_def lending_get_position_def lending_views)

section \<open>A concrete position\<close>

definition lending_demo :: lending where
  "lending_demo = run_calls lending_exec
     [(signed_env [Address 5] 1, LDeposit (Address 5) 300),
      (signed_env [Address 5] 2, LBorrow (Address 5) 200)] lending_empty"

lemma lending_demo_eq:
  "lending_demo = \<lparr>events = [], len_Collateral = [Address 5 \<mapsto> 300], len_Debt = [Address 5 \<mapsto> 200]\<rparr>"
  by (simp add: lending_demo_def lending_empty_def lending_defs lending_views signed_env_def
      checked_ops in_range_def MIN_COLLATERAL_RATIO_def)

theorem lending_always_healthy_witness:
  "lending_get_debt lending_demo (Address 5) = 200
   \<and> 200 * 150 \<le> lending_get_collateral lending_demo (Address 5) * 100
   \<and> lending_liquidate (signed_env [Address 6] 3) (Address 5) (Address 6) lending_demo \<noteq> Ok lending_empty"
proof -
  have "reach lending_exec lending_empty lending_demo"
    unfolding lending_demo_def by (rule run_calls_reach)
  from lending_always_healthy [OF this, of "Address 5" "signed_env [Address 6] 3" "Address 6" lending_empty]
  show ?thesis by (auto simp: lending_demo_eq lending_views)
qed

theorem lending_initialize_erases_debt_witness:
  "\<exists>s'. lending_initialize (signed_env [Address 5] 9) (Address 5) lending_demo = Ok s'
     \<and> lending_get_debt lending_demo (Address 5) = 200
     \<and> lending_get_position s' (Address 5) = (0, 0)"
  using lending_initialize_erases_debt [of "signed_env [Address 5] 9" "Address 5" lending_demo]
  by (auto simp: signed_env_def lending_demo_eq lending_views)

end
