(* ===== verification/Secure_Vesting.thy ===== *)
theory Secure_Vesting
  imports Soroban_Prelude
begin

text \<open>
  The vesting contract (\<^verbatim>\<open>src/secure/secure_vesting/src/lib.rs\<close>): schedules with a cliff and an end
  ledger, claims, revocation to a treasury. Shown: the vested amount is a monotone function of the
  ledger between 0 and the total, frozen by a revocation, with no trap for totals below $2^{95}$; claims pay out at most the
  vested amount, and what is claimed plus what a revocation returns to the treasury never exceeds the
  total; after a revocation nothing can be claimed; \<^verbatim>\<open>initialize\<close> can be called again by anyone.
\<close>

record schedule =
  vs_total :: int
  vs_claimed :: int
  vs_cliff_ledger :: int
  vs_end_ledger :: int
  vs_revoked_at :: "int option"

record vesting = host +
  ves_Admin :: "address option"
  ves_Treasury :: "address option"
  ves_TreasuryBalance :: "int option"
  ves_Schedule :: "address \<rightharpoonup> schedule"

definition vesting_empty :: vesting where
  "vesting_empty = \<lparr>events = [], ves_Admin = None, ves_Treasury = None, ves_TreasuryBalance = None,
     ves_Schedule = Map.empty\<rparr>"

section \<open>Operations\<close>

definition vesting_initialize :: "env \<Rightarrow> address \<Rightarrow> address \<Rightarrow> vesting \<Rightarrow> vesting result" where
  "vesting_initialize e admin treasury s =
     require_auth e admin (
     Ok (s\<lparr>ves_Admin := Some admin, ves_Treasury := Some treasury, ves_TreasuryBalance := Some 0\<rparr>))"

definition vesting_require_admin_auth :: "env \<Rightarrow> vesting \<Rightarrow> 'a result \<Rightarrow> 'a result" where
  "vesting_require_admin_auth e s k =
     expect (ves_Admin s) ''contract not initialized'' (\<lambda>admin. require_auth e admin k)"

definition vesting_create_schedule ::
    "env \<Rightarrow> address \<Rightarrow> int \<Rightarrow> int \<Rightarrow> int \<Rightarrow> vesting \<Rightarrow> vesting result" where
  "vesting_create_schedule e beneficiary amount cliff_ledger end_ledger s =
     vesting_require_admin_auth e s (
     panic_if (amount \<le> 0) ''total must be positive'' (
     panic_if (cliff_ledger \<ge> end_ledger) ''invalid schedule'' (
     panic_if (ves_Schedule s beneficiary \<noteq> None) ''schedule already exists'' (
     let schedule = \<lparr>vs_total = amount, vs_claimed = 0, vs_cliff_ledger = cliff_ledger,
                     vs_end_ledger = end_ledger, vs_revoked_at = None\<rparr>
     in Ok (s\<lparr>ves_Schedule := (ves_Schedule s)(beneficiary \<mapsto> schedule)\<rparr>)))))"

definition vesting_effective_now :: "int \<Rightarrow> schedule \<Rightarrow> int" where
  "vesting_effective_now now schedule =
     (case vs_revoked_at schedule of
        Some revoked_at \<Rightarrow> if now > revoked_at then revoked_at else now
      | None \<Rightarrow> now)"

definition vesting_vested_for_schedule :: "env \<Rightarrow> schedule \<Rightarrow> int result" where
  "vesting_vested_for_schedule e schedule =
     (let effective_now = vesting_effective_now (sequence e) schedule in
      if effective_now < vs_cliff_ledger schedule then Ok 0
      else if effective_now \<ge> vs_end_ledger schedule then Ok (vs_total schedule)
      else arith (checked_sub U32 effective_now (vs_cliff_ledger schedule)) (\<lambda>elapsed.
           arith (checked_sub U32 (vs_end_ledger schedule) (vs_cliff_ledger schedule)) (\<lambda>duration.
           arith (checked_mul I128 (vs_total schedule) elapsed) (\<lambda>scaled.
           arith (checked_div I128 scaled duration) Ok))))"

definition vesting_claim :: "env \<Rightarrow> address \<Rightarrow> vesting \<Rightarrow> (int \<times> vesting) result" where
  "vesting_claim e beneficiary s =
     require_auth e beneficiary (
     expect (ves_Schedule s beneficiary) ''schedule not found'' (\<lambda>schedule.
     panic_if (vs_revoked_at schedule \<noteq> None) ''schedule revoked'' (
     and_then (vesting_vested_for_schedule e schedule) (\<lambda>vested.
     panic_if (vested \<le> vs_claimed schedule) ''nothing claimable'' (
     arith (checked_sub I128 vested (vs_claimed schedule)) (\<lambda>claimable.
     Ok (claimable,
         s\<lparr>ves_Schedule := (ves_Schedule s)(beneficiary \<mapsto> schedule\<lparr>vs_claimed := vested\<rparr>)\<rparr>)))))))"

definition vesting_revoke :: "env \<Rightarrow> address \<Rightarrow> vesting \<Rightarrow> vesting result" where
  "vesting_revoke e beneficiary s =
     vesting_require_admin_auth e s (
     expect (ves_Schedule s beneficiary) ''schedule not found'' (\<lambda>schedule.
     panic_if (vs_revoked_at schedule \<noteq> None) ''already revoked'' (
     let now = sequence e in
     and_then (vesting_vested_for_schedule e schedule) (\<lambda>vested_now.
     arith (checked_sub I128 (vs_total schedule) vested_now) (\<lambda>unvested.
     let current_treasury_balance = unwrap_or (ves_TreasuryBalance s) 0 in
     arith (checked_add I128 current_treasury_balance unvested) (\<lambda>new_treasury.
     let s1 = s\<lparr>ves_TreasuryBalance := Some new_treasury\<rparr>
     in Ok (s1\<lparr>ves_Schedule := (ves_Schedule s1)(beneficiary \<mapsto>
               schedule\<lparr>vs_revoked_at := Some now\<rparr>)\<rparr>)))))))"

definition vesting_vested_amount :: "env \<Rightarrow> vesting \<Rightarrow> address \<Rightarrow> int result" where
  "vesting_vested_amount e s beneficiary =
     expect (ves_Schedule s beneficiary) ''schedule not found'' (vesting_vested_for_schedule e)"

definition vesting_get_position :: "vesting \<Rightarrow> address \<Rightarrow> (int \<times> int \<times> bool) result" where
  "vesting_get_position s beneficiary =
     expect (ves_Schedule s beneficiary) ''schedule not found'' (\<lambda>schedule.
     Ok (vs_total schedule, vs_claimed schedule, vs_revoked_at schedule \<noteq> None))"

definition vesting_treasury_balance :: "vesting \<Rightarrow> int" where
  "vesting_treasury_balance s = unwrap_or (ves_TreasuryBalance s) 0"

datatype vesting_call =
    VInitialize address address
  | VCreate address int int int
  | VClaim address
  | VRevoke address

fun vesting_exec :: "env \<Rightarrow> vesting_call \<Rightarrow> vesting \<Rightarrow> vesting result" where
  "vesting_exec e (VInitialize a t) s = vesting_initialize e a t s"
| "vesting_exec e (VCreate b n c d) s = vesting_create_schedule e b n c d s"
| "vesting_exec e (VClaim b) s = state_of (vesting_claim e b s)"
| "vesting_exec e (VRevoke b) s = vesting_revoke e b s"

section \<open>The vesting curve\<close>

text \<open>The amount the code computes at a ledger, as a mathematical function.\<close>

definition curve :: "schedule \<Rightarrow> int \<Rightarrow> int" where
  "curve v t =
     (if t < vs_cliff_ledger v then 0
      else if vs_end_ledger v \<le> t then vs_total v
      else vs_total v * (t - vs_cliff_ledger v) div (vs_end_ledger v - vs_cliff_ledger v))"

definition schedule_ok :: "schedule \<Rightarrow> bool" where
  "schedule_ok v \<longleftrightarrow> 0 < vs_total v \<and> vs_cliff_ledger v < vs_end_ledger v
     \<and> 0 \<le> vs_claimed v \<and> vs_claimed v \<le> vs_total v"

lemma curve_bounds:
  assumes "schedule_ok v"
  shows "0 \<le> curve v t" and "curve v t \<le> vs_total v"
proof -
  let ?d = "vs_end_ledger v - vs_cliff_ledger v" and ?x = "t - vs_cliff_ledger v"
  have le: "vs_total v * ?x div ?d \<le> vs_total v" if "0 \<le> ?x" "?x < ?d"
  proof -
    have "vs_total v * ?x \<le> vs_total v * ?d"
      using that assms by (intro mult_left_mono) (auto simp: schedule_ok_def)
    then have "vs_total v * ?x div ?d \<le> vs_total v * ?d div ?d"
      using that by (intro zdiv_mono1) auto
    with that show ?thesis by simp
  qed
  show "0 \<le> curve v t"
    using assms by (auto simp: curve_def schedule_ok_def intro!: pos_imp_zdiv_nonneg_iff [THEN iffD2])
  show "curve v t \<le> vs_total v"
    using assms le by (auto simp: curve_def schedule_ok_def)
qed

lemma curve_mono:
  assumes ok: "schedule_ok v" and "t \<le> u"
  shows "curve v t \<le> curve v u"
proof -
  consider "t < vs_cliff_ledger v" | "vs_end_ledger v \<le> u"
    | "vs_cliff_ledger v \<le> t" "u < vs_end_ledger v"
    by linarith
  then show ?thesis
  proof cases
    case 1
    then show ?thesis using curve_bounds [OF ok] by (simp add: curve_def [of v t])
  next
    case 2
    then show ?thesis using curve_bounds [OF ok] ok
      by (simp add: curve_def [of v u] schedule_ok_def)
  next
    case 3
    have "vs_total v * (t - vs_cliff_ledger v) \<le> vs_total v * (u - vs_cliff_ledger v)"
      using ok \<open>t \<le> u\<close> by (intro mult_left_mono) (auto simp: schedule_ok_def)
    with 3 \<open>t \<le> u\<close> ok show ?thesis
      by (simp add: curve_def schedule_ok_def zdiv_mono1)
  qed
qed

text \<open>When the code returns, it returns the curve; for totals below \<open>2 ^ 95\<close> it always returns.\<close>

lemma vested_value:
  assumes ok: "schedule_ok v" and r: "vesting_vested_for_schedule e v = Ok n"
  shows "n = curve v (vesting_effective_now (sequence e) v)"
proof (cases "vesting_effective_now (sequence e) v < vs_cliff_ledger v
    \<or> vs_end_ledger v \<le> vesting_effective_now (sequence e) v")
  case True
  with r ok show ?thesis
    by (auto simp: vesting_vested_for_schedule_def curve_def schedule_ok_def Let_def split: if_splits)
next
  case False
  let ?t = "vesting_effective_now (sequence e) v"
  have "vs_total v * (?t - vs_cliff_ledger v) sdiv (vs_end_ledger v - vs_cliff_ledger v)
      = vs_total v * (?t - vs_cliff_ledger v) div (vs_end_ledger v - vs_cliff_ledger v)"
    using False ok by (intro sdiv_nonneg_eq) (auto simp: schedule_ok_def)
  with False r show ?thesis
    by (auto simp: vesting_vested_for_schedule_def curve_def Let_def result_simps int_simps
        split: if_splits)
qed

lemma vested_returns:
  assumes ok: "schedule_ok v" and small: "vs_total v < 2 ^ 95"
    and "in_range U32 (vs_cliff_ledger v)" "in_range U32 (vs_end_ledger v)"
  shows "vesting_vested_for_schedule e v = Ok (curve v (vesting_effective_now (sequence e) v))"
proof -
  let ?t = "vesting_effective_now (sequence e) v"
  let ?x = "?t - vs_cliff_ledger v" and ?d = "vs_end_ledger v - vs_cliff_ledger v"
  show ?thesis
  proof (cases "?t < vs_cliff_ledger v \<or> vs_end_ledger v \<le> ?t")
    case True
    with ok show ?thesis
      by (auto simp: vesting_vested_for_schedule_def curve_def schedule_ok_def Let_def)
  next
    case False
    have xd: "0 \<le> ?x" "?x < ?d" "?d < 2 ^ 32"
      using False assms(3,4) by (auto simp: in_range_def)
    then have r1: "in_range U32 ?x" and r2: "in_range U32 ?d"
      by (auto simp: in_range_def)
    have "vs_total v * ?x \<le> 2 ^ 95 * 2 ^ 32"
      using xd small ok by (intro mult_mono) (auto simp: schedule_ok_def)
    moreover have "vs_total v * ?x \<noteq> 2 ^ 95 * 2 ^ 32"
    proof -
      have "vs_total v * ?x \<le> (2 ^ 95 - 1) * 2 ^ 32"
        using xd small ok by (intro mult_mono) (auto simp: schedule_ok_def)
      then show ?thesis by simp
    qed
    moreover have "0 \<le> vs_total v * ?x" using xd ok by (simp add: schedule_ok_def)
    ultimately have r3: "in_range I128 (vs_total v * ?x)" by (simp add: in_range_def)
    have eq: "vs_total v * ?x sdiv ?d = curve v ?t"
      using False ok xd by (simp add: curve_def schedule_ok_def sdiv_nonneg_eq)
    have r4: "in_range I128 (vs_total v * ?x sdiv ?d)"
      using curve_bounds [OF ok, of ?t] small unfolding eq by (simp add: in_range_def)
    from False r1 r2 r3 r4 xd show ?thesis
      by (simp add: vesting_vested_for_schedule_def Let_def checked_ops eq)
  qed
qed

section \<open>Invariants\<close>

lemma vesting_require_admin_auth_Ok [result_simps]:
  "vesting_require_admin_auth e s k = Ok r \<longleftrightarrow>
     (\<exists>a. ves_Admin s = Some a \<and> authorized e a \<and> k = Ok r)"
  by (auto simp: vesting_require_admin_auth_def result_simps)

lemma vesting_claim_Ok:
  assumes "vesting_claim e b s = Ok (n, s')" and "\<And>v. ves_Schedule s b = Some v \<Longrightarrow> schedule_ok v"
  obtains v where "authorized e b" "ves_Schedule s b = Some v" "vs_revoked_at v = None"
    "vs_claimed v < curve v (sequence e)" "n = curve v (sequence e) - vs_claimed v"
    "s' = s\<lparr>ves_Schedule := (ves_Schedule s)(b \<mapsto> v\<lparr>vs_claimed := curve v (sequence e)\<rparr>)\<rparr>"
proof -
  from assms(1) obtain v m where v: "authorized e b" "ves_Schedule s b = Some v"
      "vs_revoked_at v = None" and m: "vesting_vested_for_schedule e v = Ok m"
    and r: "vs_claimed v < m" "n = m - vs_claimed v"
      "s' = s\<lparr>ves_Schedule := (ves_Schedule s)(b \<mapsto> v\<lparr>vs_claimed := m\<rparr>)\<rparr>"
    by (auto simp: vesting_claim_def result_simps int_simps)
  from vested_value [OF assms(2) [OF v(2)] m] v(3) have "m = curve v (sequence e)"
    by (simp add: vesting_effective_now_def)
  with v r that show ?thesis by blast
qed

lemma vesting_revoke_Ok:
  assumes "vesting_revoke e b s = Ok s'" and "\<And>v. ves_Schedule s b = Some v \<Longrightarrow> schedule_ok v"
  obtains v a where "ves_Admin s = Some a" "authorized e a" "ves_Schedule s b = Some v"
    "vs_revoked_at v = None"
    "vesting_treasury_balance s' = vesting_treasury_balance s + (vs_total v - curve v (sequence e))"
    "ves_Schedule s' = (ves_Schedule s)(b \<mapsto> v\<lparr>vs_revoked_at := Some (sequence e)\<rparr>)"
proof -
  from assms(1) obtain v a m where v: "ves_Admin s = Some a" "authorized e a"
      "ves_Schedule s b = Some v" "vs_revoked_at v = None"
    and m: "vesting_vested_for_schedule e v = Ok m"
    and s': "vesting_treasury_balance s' = vesting_treasury_balance s + (vs_total v - m)"
      "ves_Schedule s' = (ves_Schedule s)(b \<mapsto> v\<lparr>vs_revoked_at := Some (sequence e)\<rparr>)"
    by (auto simp: vesting_revoke_def vesting_treasury_balance_def result_simps int_simps Let_def)
  from vested_value [OF assms(2) [OF v(3)] m] v(4) have "m = curve v (sequence e)"
    by (simp add: vesting_effective_now_def)
  with v s' that show ?thesis by blast
qed

lemma curve_cong [simp]:
  "curve (v\<lparr>vs_claimed := x\<rparr>) t = curve v t" "curve (v\<lparr>vs_revoked_at := y\<rparr>) t = curve v t"
  by (simp_all add: curve_def)

definition vesting_inv :: "int \<Rightarrow> vesting \<Rightarrow> bool" where
  "vesting_inv T s \<longleftrightarrow> (\<forall>b v. ves_Schedule s b = Some v \<longrightarrow> schedule_ok v \<and> vs_claimed v \<le> curve v T)"

lemma vesting_inv_ok: "vesting_inv T s \<Longrightarrow> ves_Schedule s b = Some v \<Longrightarrow> schedule_ok v"
  by (simp add: vesting_inv_def)

lemma vesting_inv_wait: "vesting_inv T s \<Longrightarrow> T \<le> T' \<Longrightarrow> vesting_inv T' s"
  unfolding vesting_inv_def by (blast intro: order_trans curve_mono)

lemma vesting_inv_call:
  assumes inv: "vesting_inv T s" and "T \<le> sequence e" and ok: "vesting_exec e c s = Ok s'"
  shows "vesting_inv (sequence e) s'"
proof -
  have now: "vesting_inv (sequence e) s"
    by (rule vesting_inv_wait [OF inv assms(2)])
  show ?thesis
  proof (cases c)
    case (VInitialize a t)
    with ok now show ?thesis by (auto simp: vesting_initialize_def result_simps vesting_inv_def)
  next
    case (VCreate b n x y)
    let ?v = "\<lparr>vs_total = n, vs_claimed = 0, vs_cliff_ledger = x, vs_end_ledger = y,
        vs_revoked_at = None\<rparr>"
    from VCreate ok have new: "schedule_ok ?v" and "s' = s\<lparr>ves_Schedule := (ves_Schedule s)(b \<mapsto> ?v)\<rparr>"
      by (auto simp: vesting_create_schedule_def result_simps Let_def schedule_ok_def)
    with now curve_bounds(1) [OF new, of "sequence e"] show ?thesis by (simp add: vesting_inv_def)
  next
    case (VClaim b)
    with ok obtain n where "vesting_claim e b s = Ok (n, s')" by (auto simp: result_simps)
    then show ?thesis
    proof (rule vesting_claim_Ok)
      fix v
      assume v: "ves_Schedule s b = Some v" and "vs_claimed v < curve v (sequence e)"
        and s': "s' = s\<lparr>ves_Schedule := (ves_Schedule s)(b \<mapsto> v\<lparr>vs_claimed := curve v (sequence e)\<rparr>)\<rparr>"
      from v now have "schedule_ok (v\<lparr>vs_claimed := curve v (sequence e)\<rparr>)"
        using curve_bounds [of v "sequence e"] by (auto simp: vesting_inv_def schedule_ok_def)
      with now s' show ?thesis by (simp add: vesting_inv_def)
    qed (use inv in \<open>auto simp: vesting_inv_def\<close>)
  next
    case (VRevoke b)
    with ok have "vesting_revoke e b s = Ok s'" by simp
    then show ?thesis
    proof (rule vesting_revoke_Ok)
      fix v
      assume "ves_Schedule s b = Some v"
        and "ves_Schedule s' = (ves_Schedule s)(b \<mapsto> v\<lparr>vs_revoked_at := Some (sequence e)\<rparr>)"
      with now show ?thesis by (auto simp: vesting_inv_def schedule_ok_def)
    qed (use inv in \<open>auto simp: vesting_inv_def\<close>)
  qed
qed

interpretation vesting_timed: timed_invariant vesting_exec vesting_inv
  by unfold_locales (rule vesting_inv_wait vesting_inv_call; assumption)+

lemma vesting_inv_empty: "vesting_inv T vesting_empty"
  by (simp add: vesting_inv_def vesting_empty_def)

text \<open>The part that needs no clock: schedules stay well formed, and revocation is final.\<close>

definition schedules_ok :: "vesting \<Rightarrow> bool" where
  "schedules_ok s \<longleftrightarrow> (\<forall>b v. ves_Schedule s b = Some v \<longrightarrow> schedule_ok v)"

lemma schedules_ok_exec:
  assumes inv: "schedules_ok s" and ok: "vesting_exec e c s = Ok s'"
  shows "schedules_ok s'"
proof (cases c)
  case (VClaim b)
  with ok obtain n where "vesting_claim e b s = Ok (n, s')" by (auto simp: result_simps)
  then show ?thesis
  proof (rule vesting_claim_Ok)
    fix v
    assume "ves_Schedule s b = Some v"
      and s': "s' = s\<lparr>ves_Schedule := (ves_Schedule s)(b \<mapsto> v\<lparr>vs_claimed := curve v (sequence e)\<rparr>)\<rparr>"
    with inv curve_bounds [of v "sequence e"] show ?thesis
      by (auto simp: schedules_ok_def schedule_ok_def)
  qed (use inv in \<open>auto simp: schedules_ok_def\<close>)
next
  case (VRevoke b)
  with ok have "vesting_revoke e b s = Ok s'" by simp
  with inv show ?thesis
    by (auto elim!: vesting_revoke_Ok simp: schedules_ok_def schedule_ok_def split: if_splits)
qed (use assms in \<open>auto simp: vesting_initialize_def vesting_create_schedule_def result_simps Let_def
      schedules_ok_def schedule_ok_def split: if_splits\<close>)

interpretation vesting_schedules: contract_invariant vesting_exec schedules_ok
  by unfold_locales (rule schedules_ok_exec)

text \<open>The sum of what the claims of one beneficiary paid out over a run.\<close>

fun vesting_payouts :: "address \<Rightarrow> (env \<times> vesting_call) list \<Rightarrow> vesting \<Rightarrow> int" where
  "vesting_payouts b [] s = 0"
| "vesting_payouts b ((e, c) # xs) s =
     (case c of
        VClaim b' \<Rightarrow> (case vesting_claim e b' s of Inr (n, _) \<Rightarrow> if b' = b then n else 0 | Inl _ \<Rightarrow> 0)
      | _ \<Rightarrow> 0)
     + vesting_payouts b xs (commit s (vesting_exec e c s))"

definition claimed_of :: "address \<Rightarrow> vesting \<Rightarrow> int" where
  "claimed_of b s = (case ves_Schedule s b of None \<Rightarrow> 0 | Some v \<Rightarrow> vs_claimed v)"

lemma claimed_of_step:
  assumes inv: "schedules_ok s" and ok: "vesting_exec e c s = Ok s'"
  shows "claimed_of b s' = claimed_of b s + (case c of VClaim b' \<Rightarrow>
     (case vesting_claim e b' s of Inr (n, _) \<Rightarrow> if b' = b then n else 0 | Inl _ \<Rightarrow> 0) | _ \<Rightarrow> 0)"
proof (cases c)
  case (VClaim b')
  with ok obtain n where n: "vesting_claim e b' s = Ok (n, s')" by (auto simp: result_simps)
  with inv show ?thesis
    by (auto elim!: vesting_claim_Ok simp: VClaim claimed_of_def schedules_ok_def)
next
  case (VRevoke b')
  with ok have "vesting_revoke e b' s = Ok s'" by simp
  with inv show ?thesis
    by (auto elim!: vesting_revoke_Ok simp: VRevoke claimed_of_def schedules_ok_def)
qed (use assms in \<open>auto simp: vesting_initialize_def vesting_create_schedule_def result_simps Let_def
      claimed_of_def split: option.splits if_splits\<close>)

lemma vesting_payouts_claimed:
  "schedules_ok s \<Longrightarrow>
     claimed_of b (run_calls vesting_exec xs s) = claimed_of b s + vesting_payouts b xs s"
proof (induction b xs s rule: vesting_payouts.induct)
  case (2 b e c xs s)
  show ?case
  proof (cases "vesting_exec e c s")
    case (Inl x)
    then have "(case c of VClaim b' \<Rightarrow>
        (case vesting_claim e b' s of Inr (n, _) \<Rightarrow> if b' = b then n else 0 | Inl _ \<Rightarrow> 0) | _ \<Rightarrow> 0) = 0"
      by (auto simp: state_of_def split: vesting_call.splits sum.splits)
    with Inl 2 show ?thesis by simp
  next
    case (Inr s')
    with 2 claimed_of_step [OF 2(2) Inr, of b] schedules_ok_exec [OF 2(2) Inr] show ?thesis by simp
  qed
qed simp

lemma schedules_ok_empty: "schedules_ok vesting_empty"
  by (simp add: schedules_ok_def vesting_empty_def)

section \<open>Properties\<close>

text \<open>
  C18: Over the whole life of a new contract the claims of a beneficiary pay out in sum exactly the
  claimed amount on record, which never exceeds the total of the schedule.
\<close>

theorem vesting_never_overpays:
  assumes "ves_Schedule (run_calls vesting_exec xs vesting_empty) b = Some v"
  shows "vesting_payouts b xs vesting_empty = vs_claimed v \<and> vs_claimed v \<le> vs_total v"
proof -
  have "schedules_ok (run_calls vesting_exec xs vesting_empty)"
    by (rule vesting_schedules.run_inv [OF schedules_ok_empty])
  with assms have "vs_claimed v \<le> vs_total v"
    by (auto simp: schedules_ok_def schedule_ok_def)
  moreover have "vs_claimed v = vesting_payouts b xs vesting_empty"
    using vesting_payouts_claimed [OF schedules_ok_empty, of b xs] assms
    by (simp add: claimed_of_def) (simp add: vesting_empty_def)
  ultimately show ?thesis by simp
qed

text \<open>
  C19: For every reachable schedule, revoked or not, whose total is below $2^{95}$ and whose cliff and end are \<^verbatim>\<open>u32\<close> ledger numbers, the vested amount
  never traps. Let the effective ledger be the current one, or the ledger of the revocation once that has passed. The amount is 0
  while the effective ledger is before the cliff, the total from the end on, and in between total times elapsed over duration,
  rounded down. It stays between 0 and the total, never decreases from one ledger to a later one, and from the ledger of a
  revocation on it does not change any more.
\<close>

theorem vesting_curve_correct:
  assumes "reach vesting_exec vesting_empty s" and "ves_Schedule s b = Some v" and "vs_total v < 2 ^ 95"
    and "in_range U32 (vs_cliff_ledger v)" and "in_range U32 (vs_end_ledger v)" and "sequence e \<le> sequence e'"
  defines "t \<equiv> (case vs_revoked_at v of None \<Rightarrow> sequence e | Some r \<Rightarrow> min r (sequence e))"
  shows "\<exists>n n'. vesting_vested_amount e s b = Ok n \<and> vesting_vested_amount e' s b = Ok n'
    \<and> 0 \<le> n \<and> n \<le> n' \<and> n' \<le> vs_total v
    \<and> n = (if t < vs_cliff_ledger v then 0 else if vs_end_ledger v \<le> t then vs_total v
           else vs_total v * (t - vs_cliff_ledger v) div (vs_end_ledger v - vs_cliff_ledger v))
    \<and> (\<forall>r. vs_revoked_at v = Some r \<and> r \<le> sequence e \<longrightarrow> n' = n)"
proof -
  have "schedules_ok s"
    by (rule vesting_schedules.reach_inv [OF assms(1) schedules_ok_empty])
  with assms(2) have ok: "schedule_ok v" by (simp add: schedules_ok_def)
  have revoked: "vesting_effective_now (sequence e') v = t" if "vs_revoked_at v = Some r" "r \<le> sequence e" for r
    using assms(6) that by (auto simp: t_def vesting_effective_now_def split: option.splits)
  have le: "vesting_effective_now (sequence e) v = t \<and> t \<le> vesting_effective_now (sequence e') v"
    using assms(6) by (auto simp: t_def vesting_effective_now_def split: option.splits)
  have "vesting_vested_amount x s b = Ok (curve v (vesting_effective_now (sequence x) v))" for x
    using vested_returns [OF ok assms(3,4,5), of x] assms(2) by (simp add: vesting_vested_amount_def)
  then have r: "vesting_vested_amount e s b = Ok (curve v t)"
    "vesting_vested_amount e' s b = Ok (curve v (vesting_effective_now (sequence e') v))"
    using le by simp_all
  show ?thesis
  proof (intro exI conjI, rule r(1), rule r(2))
    show "\<forall>r. vs_revoked_at v = Some r \<and> r \<le> sequence e \<longrightarrow> curve v (vesting_effective_now (sequence e') v) = curve v t"
      using revoked by simp
  qed (use curve_bounds [OF ok] curve_mono [OF ok] le in \<open>auto simp: curve_def\<close>)
qed

text \<open>
  Revocation, at a ledger not before the earlier calls, sends exactly the unvested part to the
  treasury: together with what was claimed this is at most the total. From then on every claim of
  the beneficiary traps, so what had vested but was not yet claimed stays in the contract.
\<close>

theorem vesting_revoke_split:
  assumes "reach_by vesting_exec vesting_empty T s" and "T \<le> sequence e"
    and "vesting_revoke e b s = Ok s'"
  shows "\<exists>v. ves_Schedule s b = Some v
    \<and> vesting_treasury_balance s' = vesting_treasury_balance s + (vs_total v - curve v (sequence e))
    \<and> vs_claimed v + (vs_total v - curve v (sequence e)) \<le> vs_total v
    \<and> (authorized e' b \<longrightarrow> vesting_claim e' b s' = Err (Panic ''schedule revoked''))"
proof -
  have inv: "vesting_inv (sequence e) s"
    using vesting_inv_wait vesting_timed.reach_by_inv [OF assms(1) vesting_inv_empty] assms(2) by blast
  from assms(3) show ?thesis
  proof (rule vesting_revoke_Ok)
    fix v
    assume v: "ves_Schedule s b = Some v"
      "vesting_treasury_balance s' = vesting_treasury_balance s + (vs_total v - curve v (sequence e))"
      "ves_Schedule s' = (ves_Schedule s)(b \<mapsto> v\<lparr>vs_revoked_at := Some (sequence e)\<rparr>)"
    with inv have "vs_claimed v \<le> curve v (sequence e)" by (simp add: vesting_inv_def)
    with v show ?thesis by (simp add: vesting_claim_def)
  qed (use inv in \<open>auto simp: vesting_inv_def\<close>)
qed

text \<open>
  \<^verbatim>\<open>initialize\<close> has no one-time guard: in any state, any address can make itself the admin with
  its own authorisation only, and the recorded treasury balance is reset to 0.
\<close>

theorem vesting_reinitialize_takes_over:
  assumes "authorized e a"
  shows "\<exists>s'. vesting_initialize e a t s = Ok s' \<and> ves_Admin s' = Some a
    \<and> vesting_treasury_balance s' = 0 \<and> ves_Schedule s' = ves_Schedule s"
  using assms by (simp add: vesting_initialize_def vesting_treasury_balance_def)

section \<open>A concrete schedule\<close>

definition vesting_demo_calls :: "(env \<times> vesting_call) list" where
  "vesting_demo_calls =
     [(signed_env [Address 5] 1, VInitialize (Address 5) (Address 6)),
      (signed_env [Address 5] 2, VCreate (Address 7) 1000 10 110),
      (signed_env [Address 7] 60, VClaim (Address 7))]"

lemmas vesting_eval = vesting_initialize_def vesting_create_schedule_def vesting_claim_def
  vesting_require_admin_auth_def vesting_vested_for_schedule_def vesting_effective_now_def
  signed_env_def checked_ops in_range_def signed_divide_int_def

definition vesting_demo :: vesting where
  "vesting_demo = \<lparr>events = [], ves_Admin = Some (Address 5), ves_Treasury = Some (Address 6),
     ves_TreasuryBalance = Some 0, ves_Schedule = [Address 7 \<mapsto> \<lparr>vs_total = 1000, vs_claimed = 500,
       vs_cliff_ledger = 10, vs_end_ledger = 110, vs_revoked_at = None\<rparr>]\<rparr>"

lemma vesting_demo_run: "run_calls vesting_exec vesting_demo_calls vesting_empty = vesting_demo"
  by (simp add: vesting_demo_calls_def vesting_empty_def vesting_demo_def vesting_eval)

lemma vesting_demo_reachable: "reach vesting_exec vesting_empty vesting_demo"
  using run_calls_reach [of vesting_exec vesting_empty vesting_demo_calls]
  by (simp only: vesting_demo_run)

lemma vesting_demo_reach_by: "reach_by vesting_exec vesting_empty 60 vesting_demo"
  using run_calls_reach_by [of vesting_demo_calls 60 vesting_exec vesting_empty]
  by (simp only: vesting_demo_run) (simp add: vesting_demo_calls_def signed_env_def)

theorem vesting_never_overpays_witness:
  "vesting_payouts (Address 7) vesting_demo_calls vesting_empty = 500"
  using vesting_never_overpays [of vesting_demo_calls "Address 7"]
  unfolding vesting_demo_run by (simp add: vesting_demo_def)

text \<open>The same schedule revoked at ledger 85, where 750 of the 1000 have vested.\<close>

definition vesting_revoked_demo :: vesting where
  "vesting_revoked_demo = vesting_demo\<lparr>ves_TreasuryBalance := Some 250, ves_Schedule := [Address 7 \<mapsto> \<lparr>vs_total = 1000, vs_claimed = 500,
       vs_cliff_ledger = 10, vs_end_ledger = 110, vs_revoked_at = Some 85\<rparr>]\<rparr>"

lemma vesting_revoked_reachable: "reach vesting_exec vesting_empty vesting_revoked_demo"
proof (rule reach_step [OF vesting_demo_reachable])
  show "vesting_exec (signed_env [Address 5] 85) (VRevoke (Address 7)) vesting_demo = Ok vesting_revoked_demo"
    by (simp add: vesting_revoke_def vesting_revoked_demo_def vesting_demo_def vesting_eval)
qed

theorem vesting_curve_correct_witness:
  "(\<exists>n n'. vesting_vested_amount (signed_env [] 5) vesting_demo (Address 7) = Ok n
     \<and> vesting_vested_amount (signed_env [] 200) vesting_demo (Address 7) = Ok n' \<and> n = 0 \<and> n' \<le> 1000)
   \<and> (\<exists>n n'. vesting_vested_amount (signed_env [] 85) vesting_revoked_demo (Address 7) = Ok n
     \<and> vesting_vested_amount (signed_env [] 200) vesting_revoked_demo (Address 7) = Ok n' \<and> n = 750 \<and> n' = 750)"
  using vesting_curve_correct [OF vesting_demo_reachable, of "Address 7" _ "signed_env [] 5" "signed_env [] 200"]
    vesting_curve_correct [OF vesting_revoked_reachable, of "Address 7" _ "signed_env [] 85" "signed_env [] 200"]
  by (simp add: vesting_revoked_demo_def vesting_demo_def signed_env_def in_range_def) blast

theorem vesting_revoke_split_witness:
  "\<exists>s'. vesting_revoke (signed_env [Address 5] 85) (Address 7) vesting_demo = Ok s'
     \<and> vesting_treasury_balance s' = 250
     \<and> vesting_claim (signed_env [Address 7] 86) (Address 7) s' = Err (Panic ''schedule revoked'')"
proof -
  obtain s' where ok: "vesting_revoke (signed_env [Address 5] 85) (Address 7) vesting_demo = Ok s'"
    by (simp add: vesting_revoke_def vesting_demo_def vesting_eval)
  from vesting_revoke_split [OF vesting_demo_reach_by _ ok, of "signed_env [Address 7] 86"]
  show ?thesis
    using ok by (auto simp: vesting_demo_def signed_env_def vesting_treasury_balance_def curve_def)
qed

theorem vesting_reinitialize_takes_over_witness:
  "\<exists>s'. vesting_initialize (signed_env [Address 8] 70) (Address 8) (Address 8) vesting_demo = Ok s'
     \<and> ves_Admin s' = Some (Address 8)"
  using vesting_reinitialize_takes_over [of "signed_env [Address 8] 70" "Address 8" "Address 8" vesting_demo]
  by (auto simp: signed_env_def)

end
