(* ===== verification/Vesting_Variants.thy ===== *)
theory Vesting_Variants
  imports Soroban_Prelude
begin

text \<open>
  Two crates about vesting claims, each with its vulnerable contract (\<^verbatim>\<open>lib.rs\<close>) and its repair
  (\<^verbatim>\<open>secure.rs\<close>): \<^verbatim>\<open>vesting_claimed_not_subtracted\<close>, whose claim pays everything vested each time, and
  \<^verbatim>\<open>revoked_vesting_claim\<close>, whose claim ignores a revocation and does not record what it pays. The locale
  \<^verbatim>\<open>recorded_claims\<close> is what a sound claim does: it records what it pays and stays within what is
  vested. Both repairs meet it, so any number of claims together pays at most the vested amount.
\<close>

section \<open>vesting\_claimed\_not\_subtracted\<close>

record plan =
  pl_total :: int
  pl_claimed :: int
  pl_cliff_ledger :: int
  pl_end_ledger :: int

record plan_store = host +
  pst_Admin :: "address option"
  pst_Schedule :: "address \<rightharpoonup> plan"

text \<open>The linear release between cliff and end, shared by both crates.\<close>

definition linear_release :: "int \<Rightarrow> int \<Rightarrow> int \<Rightarrow> int \<Rightarrow> int result" where
  "linear_release now cliff_ledger end_ledger amount =
     (if now < cliff_ledger then Ok 0
      else if now \<ge> end_ledger then Ok amount
      else arith (checked_sub U32 now cliff_ledger) (\<lambda>elapsed.
           arith (checked_sub U32 end_ledger cliff_ledger) (\<lambda>duration.
           arith (checked_mul I128 amount elapsed) (\<lambda>scaled.
           arith (checked_div I128 scaled duration) Ok))))"

definition cns_vested_for_schedule :: "env \<Rightarrow> plan \<Rightarrow> int result" where
  "cns_vested_for_schedule e schedule =
     linear_release (sequence e) (pl_cliff_ledger schedule) (pl_end_ledger schedule) (pl_total schedule)"

definition cns_initialize :: "env \<Rightarrow> address \<Rightarrow> plan_store \<Rightarrow> plan_store result" where
  "cns_initialize e admin s = require_auth e admin (Ok (s\<lparr>pst_Admin := Some admin\<rparr>))"

definition cns_require_admin_auth :: "env \<Rightarrow> plan_store \<Rightarrow> 'a result \<Rightarrow> 'a result" where
  "cns_require_admin_auth e s k =
     expect (pst_Admin s) ''contract not initialized'' (\<lambda>admin. require_auth e admin k)"

definition cns_create_schedule ::
    "env \<Rightarrow> address \<Rightarrow> int \<Rightarrow> int \<Rightarrow> int \<Rightarrow> plan_store \<Rightarrow> plan_store result" where
  "cns_create_schedule e beneficiary amount cliff_ledger end_ledger s =
     cns_require_admin_auth e s (
     panic_if (pst_Schedule s beneficiary \<noteq> None) ''schedule already exists'' (
     let schedule = \<lparr>pl_total = amount, pl_claimed = 0, pl_cliff_ledger = cliff_ledger,
                     pl_end_ledger = end_ledger\<rparr>
     in Ok (s\<lparr>pst_Schedule := (pst_Schedule s)(beneficiary \<mapsto> schedule)\<rparr>)))"

definition cns_claim :: "env \<Rightarrow> address \<Rightarrow> plan_store \<Rightarrow> (int \<times> plan_store) result" where
  "cns_claim e beneficiary s =
     require_auth e beneficiary (
     expect (pst_Schedule s beneficiary) ''schedule not found'' (\<lambda>schedule.
     and_then (cns_vested_for_schedule e schedule) (\<lambda>vested.
     Ok (vested, s))))"

definition cns_claimed_amount :: "plan_store \<Rightarrow> address \<Rightarrow> int result" where
  "cns_claimed_amount s beneficiary =
     expect (pst_Schedule s beneficiary) ''schedule not found'' (\<lambda>schedule. Ok (pl_claimed schedule))"

definition cnss_initialize :: "env \<Rightarrow> address \<Rightarrow> plan_store \<Rightarrow> plan_store result" where
  "cnss_initialize e admin s = require_auth e admin (Ok (s\<lparr>pst_Admin := Some admin\<rparr>))"

definition cnss_require_admin_auth :: "env \<Rightarrow> plan_store \<Rightarrow> 'a result \<Rightarrow> 'a result" where
  "cnss_require_admin_auth e s k =
     expect (pst_Admin s) ''contract not initialized'' (\<lambda>admin. require_auth e admin k)"

definition cnss_create_schedule ::
    "env \<Rightarrow> address \<Rightarrow> int \<Rightarrow> int \<Rightarrow> int \<Rightarrow> plan_store \<Rightarrow> plan_store result" where
  "cnss_create_schedule e beneficiary amount cliff_ledger end_ledger s =
     cnss_require_admin_auth e s (
     panic_if (pst_Schedule s beneficiary \<noteq> None) ''schedule already exists'' (
     let schedule = \<lparr>pl_total = amount, pl_claimed = 0, pl_cliff_ledger = cliff_ledger,
                     pl_end_ledger = end_ledger\<rparr>
     in Ok (s\<lparr>pst_Schedule := (pst_Schedule s)(beneficiary \<mapsto> schedule)\<rparr>)))"

definition cnss_claim :: "env \<Rightarrow> address \<Rightarrow> plan_store \<Rightarrow> (int \<times> plan_store) result" where
  "cnss_claim e beneficiary s =
     require_auth e beneficiary (
     expect (pst_Schedule s beneficiary) ''schedule not found'' (\<lambda>schedule.
     and_then (cns_vested_for_schedule e schedule) (\<lambda>vested.
     panic_if (vested \<le> pl_claimed schedule) ''nothing claimable'' (
     arith (checked_sub I128 vested (pl_claimed schedule)) (\<lambda>claimable.
     Ok (claimable, s\<lparr>pst_Schedule := (pst_Schedule s)(beneficiary \<mapsto> schedule\<lparr>pl_claimed := vested\<rparr>)\<rparr>))))))"

definition cnss_claimed_amount :: "plan_store \<Rightarrow> address \<Rightarrow> int result" where
  "cnss_claimed_amount s beneficiary =
     expect (pst_Schedule s beneficiary) ''schedule not found'' (\<lambda>schedule. Ok (pl_claimed schedule))"

section \<open>revoked\_vesting\_claim\<close>

record rev_plan = plan +
  pl_revoked :: bool
  pl_revoked_at :: "int option"

record rev_store = host +
  rst_Admin :: "address option"
  rst_Schedule :: "address \<rightharpoonup> rev_plan"

definition rv_vested_for_schedule :: "env \<Rightarrow> rev_plan \<Rightarrow> int result" where
  "rv_vested_for_schedule e schedule =
     (let now = sequence e;
          effective_now = (case pl_revoked_at schedule of
              Some revoked_at \<Rightarrow> if now > revoked_at then revoked_at else now
            | None \<Rightarrow> now)
      in linear_release effective_now (pl_cliff_ledger schedule) (pl_end_ledger schedule)
           (pl_total schedule))"

definition rv_initialize :: "env \<Rightarrow> address \<Rightarrow> rev_store \<Rightarrow> rev_store result" where
  "rv_initialize e admin s = require_auth e admin (Ok (s\<lparr>rst_Admin := Some admin\<rparr>))"

definition rv_require_admin_auth :: "env \<Rightarrow> rev_store \<Rightarrow> 'a result \<Rightarrow> 'a result" where
  "rv_require_admin_auth e s k =
     expect (rst_Admin s) ''contract not initialized'' (\<lambda>admin. require_auth e admin k)"

definition rv_create_schedule ::
    "env \<Rightarrow> address \<Rightarrow> int \<Rightarrow> int \<Rightarrow> int \<Rightarrow> rev_store \<Rightarrow> rev_store result" where
  "rv_create_schedule e beneficiary amount cliff_ledger end_ledger s =
     rv_require_admin_auth e s (
     panic_if (rst_Schedule s beneficiary \<noteq> None) ''schedule already exists'' (
     let schedule = \<lparr>pl_total = amount, pl_claimed = 0, pl_cliff_ledger = cliff_ledger,
                     pl_end_ledger = end_ledger, pl_revoked = False, pl_revoked_at = None\<rparr>
     in Ok (s\<lparr>rst_Schedule := (rst_Schedule s)(beneficiary \<mapsto> schedule)\<rparr>)))"

definition rv_revoke :: "env \<Rightarrow> address \<Rightarrow> rev_store \<Rightarrow> rev_store result" where
  "rv_revoke e beneficiary s =
     rv_require_admin_auth e s (
     expect (rst_Schedule s beneficiary) ''schedule not found'' (\<lambda>schedule.
     panic_if (pl_revoked schedule) ''already revoked'' (
     let schedule' = schedule\<lparr>pl_revoked := True, pl_revoked_at := Some (sequence e)\<rparr>
     in Ok (s\<lparr>rst_Schedule := (rst_Schedule s)(beneficiary \<mapsto> schedule')\<rparr>))))"

definition rv_claim :: "env \<Rightarrow> address \<Rightarrow> rev_store \<Rightarrow> (int \<times> rev_store) result" where
  "rv_claim e beneficiary s =
     require_auth e beneficiary (
     expect (rst_Schedule s beneficiary) ''schedule not found'' (\<lambda>schedule.
     and_then (rv_vested_for_schedule e schedule) (\<lambda>vested.
     if vested \<le> pl_claimed schedule then Ok (0, s)
     else arith (checked_sub I128 vested (pl_claimed schedule)) (\<lambda>r. Ok (r, s)))))"

definition rv_is_revoked :: "rev_store \<Rightarrow> address \<Rightarrow> bool result" where
  "rv_is_revoked s beneficiary =
     expect (rst_Schedule s beneficiary) ''schedule not found'' (\<lambda>schedule. Ok (pl_revoked schedule))"

definition rvs_initialize :: "env \<Rightarrow> address \<Rightarrow> rev_store \<Rightarrow> rev_store result" where
  "rvs_initialize e admin s = require_auth e admin (Ok (s\<lparr>rst_Admin := Some admin\<rparr>))"

definition rvs_require_admin_auth :: "env \<Rightarrow> rev_store \<Rightarrow> 'a result \<Rightarrow> 'a result" where
  "rvs_require_admin_auth e s k =
     expect (rst_Admin s) ''contract not initialized'' (\<lambda>admin. require_auth e admin k)"

definition rvs_create_schedule ::
    "env \<Rightarrow> address \<Rightarrow> int \<Rightarrow> int \<Rightarrow> int \<Rightarrow> rev_store \<Rightarrow> rev_store result" where
  "rvs_create_schedule e beneficiary amount cliff_ledger end_ledger s =
     rvs_require_admin_auth e s (
     panic_if (rst_Schedule s beneficiary \<noteq> None) ''schedule already exists'' (
     let schedule = \<lparr>pl_total = amount, pl_claimed = 0, pl_cliff_ledger = cliff_ledger,
                     pl_end_ledger = end_ledger, pl_revoked = False, pl_revoked_at = None\<rparr>
     in Ok (s\<lparr>rst_Schedule := (rst_Schedule s)(beneficiary \<mapsto> schedule)\<rparr>)))"

definition rvs_revoke :: "env \<Rightarrow> address \<Rightarrow> rev_store \<Rightarrow> rev_store result" where
  "rvs_revoke e beneficiary s =
     rvs_require_admin_auth e s (
     expect (rst_Schedule s beneficiary) ''schedule not found'' (\<lambda>schedule.
     panic_if (pl_revoked schedule) ''already revoked'' (
     let schedule' = schedule\<lparr>pl_revoked := True, pl_revoked_at := Some (sequence e)\<rparr>
     in Ok (s\<lparr>rst_Schedule := (rst_Schedule s)(beneficiary \<mapsto> schedule')\<rparr>))))"

definition rvs_claim :: "env \<Rightarrow> address \<Rightarrow> rev_store \<Rightarrow> (int \<times> rev_store) result" where
  "rvs_claim e beneficiary s =
     require_auth e beneficiary (
     expect (rst_Schedule s beneficiary) ''schedule not found'' (\<lambda>schedule.
     panic_if (pl_revoked schedule) ''schedule revoked'' (
     and_then (rv_vested_for_schedule e schedule) (\<lambda>vested.
     if vested \<le> pl_claimed schedule then Ok (0, s)
     else arith (checked_sub I128 vested (pl_claimed schedule)) (\<lambda>claimable.
          Ok (claimable, s\<lparr>rst_Schedule := (rst_Schedule s)(beneficiary \<mapsto> schedule\<lparr>pl_claimed := vested\<rparr>)\<rparr>))))))"

definition rvs_is_revoked :: "rev_store \<Rightarrow> address \<Rightarrow> bool result" where
  "rvs_is_revoked s beneficiary =
     expect (rst_Schedule s beneficiary) ''schedule not found'' (\<lambda>schedule. Ok (pl_revoked schedule))"

section \<open>Claims that are recorded\<close>

text \<open>Successive claims, the amounts added up; the list of environments is that of the claims.\<close>

fun claim_repeatedly ::
    "(env \<Rightarrow> 's \<Rightarrow> (int \<times> 's) result) \<Rightarrow> env list \<Rightarrow> 's \<Rightarrow> (int \<times> 's) result" where
  "claim_repeatedly f [] s = Ok (0, s)"
| "claim_repeatedly f (e # es) s =
     and_then (f e s) (\<lambda>(r, s1). and_then (claim_repeatedly f es s1) (\<lambda>(q, s2). Ok (r + q, s2)))"

locale recorded_claims =
  fixes claim :: "env \<Rightarrow> 's \<Rightarrow> (int \<times> 's) result"
    and paid :: "'s \<Rightarrow> int"
    and limit :: "'s \<Rightarrow> int"
  assumes claim_recorded: "claim e s = Ok (r, s') \<Longrightarrow> paid s' = paid s + r"
    and claim_limit: "claim e s = Ok (r, s') \<Longrightarrow> limit s' = limit s"
    and claim_bounded: "claim e s = Ok (r, s') \<Longrightarrow> paid s \<le> limit s \<Longrightarrow> paid s' \<le> limit s'"
begin

lemma repeated_total:
  "claim_repeatedly claim es s = Ok (r, s') \<Longrightarrow> paid s' = paid s + r \<and> limit s' = limit s"
proof (induction es arbitrary: s r)
  case (Cons e es)
  then obtain r1 s1 q where c: "claim e s = Ok (r1, s1)" and "claim_repeatedly claim es s1 = Ok (q, s')"
    and "r = r1 + q"
    by (auto simp: result_simps split: prod.splits)
  with Cons.IH [of s1 q] claim_recorded [OF c] claim_limit [OF c] show ?case by simp
qed simp

lemma repeated_bounded:
  "claim_repeatedly claim es s = Ok (r, s') \<Longrightarrow> paid s \<le> limit s \<Longrightarrow> paid s' \<le> limit s'"
proof (induction es arbitrary: s r)
  case (Cons e es)
  then obtain r1 s1 q where c: "claim e s = Ok (r1, s1)" and rest: "claim_repeatedly claim es s1 = Ok (q, s')"
    by (auto simp: result_simps split: prod.splits)
  from Cons.IH [OF rest] claim_bounded [OF c] Cons.prems(2) show ?case by blast
qed simp

lemma never_overpaid:
  "claim_repeatedly claim es s = Ok (r, s') \<Longrightarrow> paid s \<le> limit s \<Longrightarrow> r \<le> limit s - paid s"
  using repeated_total repeated_bounded by fastforce

end

lemma sdiv_neg_le: "(a::int) \<le> 0 \<Longrightarrow> 0 < b \<Longrightarrow> a sdiv b \<le> 0"
  by (cases "a = 0") (simp_all add: signed_divide_int_def sgn_if pos_imp_zdiv_nonneg_iff)

lemma linear_release_le:
  assumes "linear_release now c d n = Ok v"
  shows "v \<le> max 0 n"
proof (cases "now < c \<or> d \<le> now")
  case False
  then have v: "v = n * (now - c) sdiv (d - c)" and pos: "0 < d - c" "0 \<le> now - c" "now - c \<le> d - c"
    using assms by (auto simp: linear_release_def result_simps int_simps split: if_splits)
  show ?thesis
  proof (cases "0 \<le> n")
    case True
    then have "n * (now - c) div (d - c) \<le> n * (d - c) div (d - c)"
      using pos by (intro zdiv_mono1 mult_left_mono) auto
    with True pos v show ?thesis by (simp add: sdiv_nonneg_eq)
  next
    case False
    then have "n * (now - c) \<le> 0" using pos(2) by (simp add: mult_nonpos_nonneg)
    from sdiv_neg_le [OF this pos(1)] v show ?thesis by simp
  qed
qed (use assms in \<open>auto simp: linear_release_def split: if_splits\<close>)

definition plan_paid :: "address \<Rightarrow> plan_store \<Rightarrow> int" where
  "plan_paid a s = (case pst_Schedule s a of None \<Rightarrow> 0 | Some p \<Rightarrow> pl_claimed p)"

definition plan_limit :: "address \<Rightarrow> plan_store \<Rightarrow> int" where
  "plan_limit a s = (case pst_Schedule s a of None \<Rightarrow> 0 | Some p \<Rightarrow> max 0 (pl_total p))"

definition rev_paid :: "address \<Rightarrow> rev_store \<Rightarrow> int" where
  "rev_paid a s = (case rst_Schedule s a of None \<Rightarrow> 0 | Some p \<Rightarrow> pl_claimed p)"

definition rev_limit :: "address \<Rightarrow> rev_store \<Rightarrow> int" where
  "rev_limit a s = (case rst_Schedule s a of None \<Rightarrow> 0 | Some p \<Rightarrow> max 0 (pl_total p))"

interpretation plan_claims: recorded_claims "\<lambda>e. cnss_claim e a" "plan_paid a" "plan_limit a"
  for a
proof (unfold_locales, goal_cases)
  case (3 e s r s')
  then show ?case
    by (auto simp: cnss_claim_def cns_vested_for_schedule_def plan_paid_def plan_limit_def result_simps
        int_simps dest: linear_release_le)
qed (auto simp: cnss_claim_def plan_paid_def plan_limit_def result_simps int_simps)

interpretation rev_claims: recorded_claims "\<lambda>e. rvs_claim e a" "rev_paid a" "rev_limit a"
  for a
proof (unfold_locales, goal_cases)
  case (3 e s r s')
  then show ?case
    by (auto simp: rvs_claim_def rv_vested_for_schedule_def rev_paid_def rev_limit_def result_simps
        int_simps Let_def dest!: linear_release_le split: if_splits)
qed (auto simp: rvs_claim_def rev_paid_def rev_limit_def result_simps int_simps split: if_splits)

text \<open>A revoked schedule pays nothing more, in the repaired contract.\<close>

lemma rvs_revoked_refuses:
  assumes "rvs_revoke e a s = Ok s1" and "authorized e2 a"
  shows "rvs_claim e2 a s1 = Err (Panic ''schedule revoked'')"
  using assms by (auto simp: rvs_revoke_def rvs_require_admin_auth_def rvs_claim_def result_simps Let_def)

text \<open>The vulnerable claims do not touch the state: each repetition pays the same again.\<close>

lemma cns_claim_repeats:
  assumes "cns_claim e a s = Ok (r, s')"
  shows "s' = s \<and> claim_repeatedly (\<lambda>e. cns_claim e a) (replicate k e) s = Ok (int k * r, s)"
proof -
  have s': "s' = s" using assms by (auto simp: cns_claim_def result_simps)
  have "claim_repeatedly (\<lambda>e. cns_claim e a) (replicate k e) s = Ok (int k * r, s)"
    by (induction k) (simp_all add: assms s' algebra_simps)
  with s' show ?thesis by simp
qed

section \<open>Properties\<close>

text \<open>
  Any number of claims on the repaired \<^verbatim>\<open>vesting_claimed_not_subtracted\<close> and on the repaired
  \<^verbatim>\<open>revoked_vesting_claim\<close> together pay at most what the schedule grants beyond what was paid before,
  while \<open>k\<close> repetitions of a claim on the vulnerable contract pay \<open>k\<close> times the vested amount.
\<close>

theorem vesting_claims_never_overpay:
  "(claim_repeatedly (\<lambda>e. cnss_claim e a) es s = Ok (r, s') \<and> plan_paid a s \<le> plan_limit a s
      \<longrightarrow> r \<le> plan_limit a s - plan_paid a s)
   \<and> (claim_repeatedly (\<lambda>e. rvs_claim e a) es t = Ok (q, t') \<and> rev_paid a t \<le> rev_limit a t
      \<longrightarrow> q \<le> rev_limit a t - rev_paid a t)
   \<and> (cns_claim e a s = Ok (v, s2)
      \<longrightarrow> claim_repeatedly (\<lambda>e. cns_claim e a) (replicate k e) s = Ok (int k * v, s))"
  using plan_claims.never_overpaid [of a es s r s'] rev_claims.never_overpaid [of a es t q t']
    cns_claim_repeats [of e a s v s2 k]
  by blast

section \<open>A concrete schedule\<close>

definition plan_demo :: plan_store where
  "plan_demo = \<lparr>events = [], pst_Admin = Some (Address 7),
     pst_Schedule = [Address 5 \<mapsto> \<lparr>pl_total = 100, pl_claimed = 0, pl_cliff_ledger = 10,
       pl_end_ledger = 20\<rparr>]\<rparr>"

theorem vesting_claims_never_overpay_witness:
  "claim_repeatedly (\<lambda>e. cns_claim e (Address 5)) (replicate 3 (signed_env [Address 5] 20)) plan_demo
     = Ok (300, plan_demo)
   \<and> (\<exists>r s'. claim_repeatedly (\<lambda>e. cnss_claim e (Address 5))
        [signed_env [Address 5] 15, signed_env [Address 5] 20] plan_demo = Ok (r, s') \<and> r \<le> 100)"
proof -
  let ?e = "signed_env [Address 5] 20" and ?es = "[signed_env [Address 5] 15, signed_env [Address 5] 20]"
  have v: "cns_claim ?e (Address 5) plan_demo = Ok (100, plan_demo)"
    by (simp add: cns_claim_def cns_vested_for_schedule_def linear_release_def plan_demo_def signed_env_def)
  obtain r s' where ok: "claim_repeatedly (\<lambda>e. cnss_claim e (Address 5)) ?es plan_demo = Ok (r, s')"
    by (simp add: cnss_claim_def cns_vested_for_schedule_def linear_release_def plan_demo_def
        signed_env_def checked_ops in_range_def sdiv_nonneg_eq)
  have p: "plan_paid (Address 5) plan_demo = 0" "plan_limit (Address 5) plan_demo = 100"
    by (simp_all add: plan_paid_def plan_limit_def plan_demo_def)
  note inst = vesting_claims_never_overpay [where a = "Address 5" and es = ?es and s = plan_demo and r = r
      and s' = s' and e = ?e and v = 100 and ?s2.0 = plan_demo and k = 3]
  from inst v ok p show ?thesis by auto
qed

end
