(* ===== verification/Ttl_Storage.thy ===== *)
theory Ttl_Storage
  imports Soroban_Prelude
begin

text \<open>
  Persistent storage with lifetimes, for the contracts that manage them. An entry is a value with the
  last ledger at which it is live. A new entry lives for the network minimum; writing an existing
  entry keeps its lifetime; \<^verbatim>\<open>extend_ttl(key, threshold, extend_to)\<close> lengthens it when fewer than
  \<^verbatim>\<open>threshold\<close> ledgers remain; touching an entry whose lifetime is over traps (it has to be restored by
  a separate host operation first).
\<close>

type_synonym ('k, 'v) ttl_map = "'k \<rightharpoonup> 'v \<times> int"

definition ttl_live :: "env \<Rightarrow> ('k, 'v) ttl_map \<Rightarrow> 'k \<Rightarrow> bool" where
  "ttl_live e m k \<longleftrightarrow> (case m k of None \<Rightarrow> True | Some (v, until) \<Rightarrow> sequence e \<le> until)"

text \<open>\<^verbatim>\<open>get\<close>: the value if there is one; the continuation runs only on a live or absent entry.\<close>

definition ttl_get :: "env \<Rightarrow> ('k, 'v) ttl_map \<Rightarrow> 'k \<Rightarrow> ('v option \<Rightarrow> 'b result) \<Rightarrow> 'b result" where
  "ttl_get e m k f =
     (case m k of
        None \<Rightarrow> f None
      | Some (v, until) \<Rightarrow> if sequence e \<le> until then f (Some v) else Err ArchivedEntry)"

definition ttl_set :: "env \<Rightarrow> 'k \<Rightarrow> 'v \<Rightarrow> ('k, 'v) ttl_map \<Rightarrow> ('k, 'v) ttl_map result" where
  "ttl_set e k v m =
     (case m k of
        None \<Rightarrow> Ok (m(k \<mapsto> (v, sequence e + min_ttl e - 1)))
      | Some (_, until) \<Rightarrow> if sequence e \<le> until then Ok (m(k \<mapsto> (v, until))) else Err ArchivedEntry)"

definition ttl_extend :: "env \<Rightarrow> 'k \<Rightarrow> int \<Rightarrow> int \<Rightarrow> ('k, 'v) ttl_map \<Rightarrow> ('k, 'v) ttl_map result" where
  "ttl_extend e k threshold extend_to m =
     (case m k of
        None \<Rightarrow> Err MissingEntry
      | Some (v, until) \<Rightarrow>
          if \<not> sequence e \<le> until then Err ArchivedEntry
          else if until - sequence e < threshold then Ok (m(k \<mapsto> (v, sequence e + extend_to)))
          else Ok m)"

definition ttl_value :: "('k, 'v) ttl_map \<Rightarrow> 'k \<Rightarrow> 'v option" where
  "ttl_value m k = map_option fst (m k)"

lemma ttl_get_Ok [result_simps]:
  "ttl_get e m k f = Ok r \<longleftrightarrow> ttl_live e m k \<and> f (ttl_value m k) = Ok r"
  by (auto simp: ttl_get_def ttl_live_def ttl_value_def split: option.splits)

text \<open>What the contracts rely on, whatever the lifetimes: writes are read back, extensions keep values.\<close>

locale ttl_store =
  fixes val :: "'m \<Rightarrow> 'k \<Rightarrow> 'v option"
    and put :: "env \<Rightarrow> 'k \<Rightarrow> 'v \<Rightarrow> 'm \<Rightarrow> 'm result"
    and extend :: "env \<Rightarrow> 'k \<Rightarrow> int \<Rightarrow> int \<Rightarrow> 'm \<Rightarrow> 'm result"
  assumes put_val: "put e k v m = Ok m' \<Longrightarrow> val m' k' = (if k' = k then Some v else val m k')"
    and extend_val: "extend e k x y m = Ok m' \<Longrightarrow> val m' = val m"
    and extend_present: "extend e k x y m = Ok m' \<Longrightarrow> val m k \<noteq> None"
begin

text \<open>The write-then-extend idiom of the contracts.\<close>

lemma put_extend_val:
  "put e k v m = Ok m1 \<Longrightarrow> extend e k x y m1 = Ok m2 \<Longrightarrow>
     val m2 k' = (if k' = k then Some v else val m k')"
  by (simp add: put_val extend_val)

end

interpretation ttl: ttl_store ttl_value ttl_set ttl_extend
  by unfold_locales
     (auto simp: ttl_set_def ttl_extend_def ttl_value_def intro!: ext split: option.splits if_splits)

text \<open>After an extension at least \<^verbatim>\<open>threshold\<close> ledgers of life remain, when \<^verbatim>\<open>extend_to\<close> is no less.\<close>

lemma ttl_extend_remaining:
  assumes "ttl_extend e k threshold extend_to m = Ok m'" and "threshold \<le> extend_to"
  shows "\<exists>v until. m' k = Some (v, until) \<and> threshold \<le> until - sequence e"
  using assms by (auto simp: ttl_extend_def split: option.splits if_splits)

end
