(* ===== verification/Secure_Staking.thy ===== *)
theory Secure_Staking
  imports Ttl_Storage
begin

text \<open>
  The staking contract (\<^verbatim>\<open>src/secure/secure_staking/src/lib.rs\<close>) over storage with lifetimes. Shown: the
  reward rate never exceeds \<^verbatim>\<open>MAX_RATE\<close>; a claim pays exactly stake times rate times the ledgers since
  the last claim, so claiming often pays neither more nor less than claiming once; a claim without a
  stake traps; staking again replaces the stake and drops the reward accrued so far.
\<close>

definition MAX_RATE :: int where "MAX_RATE = 1000000"
definition TTL_THRESHOLD :: int where "TTL_THRESHOLD = 100"
definition TTL_EXTEND_TO :: int where "TTL_EXTEND_TO = 500"

record staking = host +
  stk_Admin :: "address option" \<comment> \<open>instance storage\<close>
  stk_Stake :: "(address, int) ttl_map"
  stk_StakedAt :: "(address, int) ttl_map"
  stk_RewardRate :: "(unit, int) ttl_map"

definition staking_empty :: staking where
  "staking_empty = \<lparr>events = [], stk_Admin = None, stk_Stake = Map.empty, stk_StakedAt = Map.empty,
     stk_RewardRate = Map.empty\<rparr>"

section \<open>Operations\<close>

text \<open>A write of the reward rate followed by \<^verbatim>\<open>extend_ttl\<close>, as both writers do it.\<close>

definition staking_put_rate :: "env \<Rightarrow> int \<Rightarrow> staking \<Rightarrow> staking result" where
  "staking_put_rate e rate s =
     and_then (ttl_set e () rate (stk_RewardRate s)) (\<lambda>m.
     and_then (ttl_extend e () TTL_THRESHOLD TTL_EXTEND_TO m) (\<lambda>m'.
     Ok (s\<lparr>stk_RewardRate := m'\<rparr>)))"

definition staking_initialize :: "env \<Rightarrow> address \<Rightarrow> int \<Rightarrow> staking \<Rightarrow> staking result" where
  "staking_initialize e admin reward_rate s =
     panic_if (stk_Admin s \<noteq> None) ''already initialized'' (
     ensure (reward_rate \<le> MAX_RATE) ''rate exceeds MAX_RATE'' (
     staking_put_rate e reward_rate (s\<lparr>stk_Admin := Some admin\<rparr>)))"

definition staking_update_rate :: "env \<Rightarrow> address \<Rightarrow> int \<Rightarrow> staking \<Rightarrow> staking result" where
  "staking_update_rate e caller new_rate s =
     require_auth e caller (
     unwrap (stk_Admin s) (\<lambda>admin.
     ensure (caller = admin) ''not admin'' (
     ensure (new_rate \<le> MAX_RATE) ''rate exceeds MAX_RATE'' (
     staking_put_rate e new_rate s))))"

definition staking_stake :: "env \<Rightarrow> address \<Rightarrow> int \<Rightarrow> staking \<Rightarrow> staking result" where
  "staking_stake e staker amount s =
     require_auth e staker (
     ensure (amount > 0) ''amount must be positive'' (
     and_then (ttl_set e staker amount (stk_Stake s)) (\<lambda>m1.
     and_then (ttl_extend e staker TTL_THRESHOLD TTL_EXTEND_TO m1) (\<lambda>m2.
     and_then (ttl_set e staker (sequence e) (stk_StakedAt s)) (\<lambda>a1.
     and_then (ttl_extend e staker TTL_THRESHOLD TTL_EXTEND_TO a1) (\<lambda>a2.
     Ok (s\<lparr>stk_Stake := m2, stk_StakedAt := a2\<rparr>)))))))"

definition staking_claim_rewards :: "env \<Rightarrow> address \<Rightarrow> staking \<Rightarrow> (int \<times> staking) result" where
  "staking_claim_rewards e staker s =
     require_auth e staker (
     ttl_get e (stk_Stake s) staker (\<lambda>sv. let staked = unwrap_or sv 0 in
     and_then (ttl_extend e staker TTL_THRESHOLD TTL_EXTEND_TO (stk_Stake s)) (\<lambda>m1.
     ttl_get e (stk_StakedAt s) staker (\<lambda>av. let staked_at = unwrap_or av 0 in
     and_then (ttl_extend e staker TTL_THRESHOLD TTL_EXTEND_TO (stk_StakedAt s)) (\<lambda>a1.
     ttl_get e (stk_RewardRate s) () (\<lambda>rv. let rate = unwrap_or rv 0 in
     and_then (ttl_extend e () TTL_THRESHOLD TTL_EXTEND_TO (stk_RewardRate s)) (\<lambda>r1.
     let current = sequence e in
     arith (checked_sub U32 current staked_at) (\<lambda>elapsed.
     expect (Option.bind (checked_mul U64 staked rate) (\<lambda>v. checked_mul U64 v elapsed))
       ''reward overflow'' (\<lambda>reward.
     and_then (ttl_set e staker current a1) (\<lambda>a2.
     and_then (ttl_extend e staker TTL_THRESHOLD TTL_EXTEND_TO a2) (\<lambda>a3.
     Ok (reward, s\<lparr>stk_Stake := m1, stk_StakedAt := a3, stk_RewardRate := r1\<rparr>))))))))))))"

definition staking_staked_amount :: "env \<Rightarrow> address \<Rightarrow> staking \<Rightarrow> (int \<times> staking) result" where
  "staking_staked_amount e staker s =
     ttl_get e (stk_Stake s) staker (\<lambda>sv. let val = unwrap_or sv 0 in
     if val > 0
     then and_then (ttl_extend e staker TTL_THRESHOLD TTL_EXTEND_TO (stk_Stake s)) (\<lambda>m1.
          Ok (val, s\<lparr>stk_Stake := m1\<rparr>))
     else Ok (val, s))"

datatype staking_call =
    SInitialize address int
  | SUpdateRate address int
  | SStake address int
  | SClaim address
  | SStakedAmount address

fun staking_exec :: "env \<Rightarrow> staking_call \<Rightarrow> staking \<Rightarrow> staking result" where
  "staking_exec e (SInitialize a r) s = staking_initialize e a r s"
| "staking_exec e (SUpdateRate a r) s = staking_update_rate e a r s"
| "staking_exec e (SStake a n) s = staking_stake e a n s"
| "staking_exec e (SClaim a) s = state_of (staking_claim_rewards e a s)"
| "staking_exec e (SStakedAmount a) s = state_of (staking_staked_amount e a s)"

section \<open>Effects on the stored values\<close>

definition stake_of :: "staking \<Rightarrow> address \<Rightarrow> int option" where
  "stake_of s a = ttl_value (stk_Stake s) a"

definition staked_at_of :: "staking \<Rightarrow> address \<Rightarrow> int option" where
  "staked_at_of s a = ttl_value (stk_StakedAt s) a"

definition rate_of :: "staking \<Rightarrow> int option" where
  "rate_of s = ttl_value (stk_RewardRate s) ()"

lemmas staking_values = stake_of_def staked_at_of_def rate_of_def

lemma put_rate_effect:
  "staking_put_rate e r s = Ok s' \<Longrightarrow>
     rate_of s' = Some r \<and> stk_Stake s' = stk_Stake s \<and> stk_StakedAt s' = stk_StakedAt s
     \<and> stk_Admin s' = stk_Admin s"
  by (auto simp: staking_put_rate_def result_simps rate_of_def dest: ttl.put_extend_val)

lemma stake_effect:
  assumes "staking_stake e a n s = Ok s'"
  shows "authorized e a \<and> 0 < n \<and> rate_of s' = rate_of s
    \<and> stake_of s' = (stake_of s)(a \<mapsto> n) \<and> staked_at_of s' = (staked_at_of s)(a \<mapsto> sequence e)"
proof -
  from assms obtain m1 m2 a1 a2 where ok: "authorized e a" "0 < n"
    and m: "ttl_set e a n (stk_Stake s) = Ok m1"
      "ttl_extend e a TTL_THRESHOLD TTL_EXTEND_TO m1 = Ok m2"
    and t: "ttl_set e a (sequence e) (stk_StakedAt s) = Ok a1"
      "ttl_extend e a TTL_THRESHOLD TTL_EXTEND_TO a1 = Ok a2"
    and s': "s' = s\<lparr>stk_Stake := m2, stk_StakedAt := a2\<rparr>"
    by (auto simp: staking_stake_def result_simps)
  show ?thesis
    using ok by (simp add: s' staking_values fun_eq_iff ttl.put_extend_val [OF m]
        ttl.put_extend_val [OF t])
qed

lemma claim_effect:
  assumes "staking_claim_rewards e a s = Ok (r, s')"
  obtains k t w where "authorized e a" "stake_of s a = Some k" "staked_at_of s a = Some t"
    "rate_of s = Some w" "t \<le> sequence e" "r = k * w * (sequence e - t)" "in_range U64 r"
    "stake_of s' = stake_of s" "staked_at_of s' = (staked_at_of s)(a \<mapsto> sequence e)"
    "rate_of s' = rate_of s"
proof -
  from assms obtain m1 a1 r1 a2 a3 where auth: "authorized e a"
    and m1: "ttl_extend e a TTL_THRESHOLD TTL_EXTEND_TO (stk_Stake s) = Ok m1"
    and a1: "ttl_extend e a TTL_THRESHOLD TTL_EXTEND_TO (stk_StakedAt s) = Ok a1"
    and r1: "ttl_extend e () TTL_THRESHOLD TTL_EXTEND_TO (stk_RewardRate s) = Ok r1"
    and a2: "ttl_set e a (sequence e) a1 = Ok a2"
    and a3: "ttl_extend e a TTL_THRESHOLD TTL_EXTEND_TO a2 = Ok a3"
    and t: "in_range U32 (sequence e - unwrap_or (staked_at_of s a) 0)"
    and r: "r = unwrap_or (stake_of s a) 0 * unwrap_or (rate_of s) 0
              * (sequence e - unwrap_or (staked_at_of s a) 0)" "in_range U64 r"
    and s': "s' = s\<lparr>stk_Stake := m1, stk_StakedAt := a3, stk_RewardRate := r1\<rparr>"
    by (auto simp: staking_claim_rewards_def result_simps int_simps Let_def staking_values
        bind_eq_Some_conv)
  from ttl.extend_present [OF m1] ttl.extend_present [OF a1] ttl.extend_present [OF r1]
  obtain k w u where "stake_of s a = Some k" "rate_of s = Some w" "staked_at_of s a = Some u"
    by (auto simp: staking_values)
  moreover have "staked_at_of s' = (staked_at_of s)(a \<mapsto> sequence e)"
    using ttl.put_extend_val [OF a2 a3] ttl.extend_val [OF a1]
    by (auto simp: s' staking_values fun_eq_iff)
  moreover have "stake_of s' = stake_of s" "rate_of s' = rate_of s"
    using ttl.extend_val [OF m1] ttl.extend_val [OF r1] by (auto simp: s' staking_values fun_eq_iff)
  ultimately show ?thesis
    using auth t r by (intro that [of k u w]) (auto simp: in_range_def)
qed

section \<open>Invariant\<close>

definition rate_capped :: "staking \<Rightarrow> bool" where
  "rate_capped s \<longleftrightarrow> (\<forall>r. rate_of s = Some r \<longrightarrow> r \<le> MAX_RATE)"

lemma staking_exec_rate:
  assumes "rate_capped s" and "staking_exec e c s = Ok s'"
  shows "rate_capped s'"
proof (cases c)
  case (SClaim a)
  with assms show ?thesis
    by (auto simp: rate_capped_def result_simps elim!: claim_effect)
next
  case (SStakedAmount a)
  with assms show ?thesis
    by (auto simp: rate_capped_def rate_of_def staking_staked_amount_def result_simps Let_def
        split: if_splits)
qed (use assms in \<open>auto simp: rate_capped_def staking_initialize_def staking_update_rate_def
      result_simps dest!: put_rate_effect stake_effect\<close>)

interpretation staking_rate: contract_invariant staking_exec rate_capped
  by unfold_locales (rule staking_exec_rate)

text \<open>Successive claims by one staker, with nothing else happening to the stake.\<close>

fun claim_all :: "env list \<Rightarrow> address \<Rightarrow> staking \<Rightarrow> (int \<times> staking) result" where
  "claim_all [] a s = Ok (0, s)"
| "claim_all (e # es) a s =
     and_then (staking_claim_rewards e a s) (\<lambda>(r, s1).
     and_then (claim_all es a s1) (\<lambda>(q, s2). Ok (r + q, s2)))"

lemma claim_all_sum:
  "claim_all es a s = Ok (r, s') \<Longrightarrow> stake_of s a = Some k \<Longrightarrow> rate_of s = Some w
   \<Longrightarrow> staked_at_of s a = Some t
   \<Longrightarrow> r = k * w * (last (t # map sequence es) - t) \<and> stake_of s' a = Some k"
proof (induction es arbitrary: s t r)
  case (Cons e es)
  from Cons.prems(1) obtain r1 s1 q where c: "staking_claim_rewards e a s = Ok (r1, s1)"
    and rest: "claim_all es a s1 = Ok (q, s')" and r: "r = r1 + q"
    by (auto simp: result_simps split: prod.splits)
  from c Cons.prems have r1: "r1 = k * w * (sequence e - t)"
    and s1: "stake_of s1 a = Some k" "rate_of s1 = Some w" "staked_at_of s1 a = Some (sequence e)"
    by (auto elim!: claim_effect)
  from Cons.IH [OF rest s1] r r1 show ?case
    by (auto simp: algebra_simps)
qed simp

section \<open>The unguarded original\<close>

text \<open>
  \<^verbatim>\<open>src/vulnerable/unchecked_math/src/lib.rs\<close>: the same contract without admin, rate cap, lifetimes and
  named overflow errors. Its plain operators trap on overflow in the release profile.
\<close>

record plain_staking = host +
  um_Stake :: "address \<rightharpoonup> int"
  um_StakedAt :: "address \<rightharpoonup> int"
  um_RewardRate :: "int option"

definition unchecked_initialize :: "env \<Rightarrow> int \<Rightarrow> plain_staking \<Rightarrow> plain_staking result" where
  "unchecked_initialize e reward_rate s = Ok (s\<lparr>um_RewardRate := Some reward_rate\<rparr>)"

definition unchecked_stake :: "env \<Rightarrow> address \<Rightarrow> int \<Rightarrow> plain_staking \<Rightarrow> plain_staking result" where
  "unchecked_stake e staker amount s =
     require_auth e staker (
     let s1 = s\<lparr>um_Stake := (um_Stake s)(staker \<mapsto> amount)\<rparr> in
     Ok (s1\<lparr>um_StakedAt := (um_StakedAt s1)(staker \<mapsto> sequence e)\<rparr>))"

definition unchecked_claim_rewards ::
    "env \<Rightarrow> address \<Rightarrow> plain_staking \<Rightarrow> (int \<times> plain_staking) result" where
  "unchecked_claim_rewards e staker s =
     require_auth e staker (
     let staked = unwrap_or (um_Stake s staker) 0;
         staked_at = unwrap_or (um_StakedAt s staker) 0;
         rate = unwrap_or (um_RewardRate s) 0;
         current_ledger = sequence e in
     arith (checked_sub U32 current_ledger staked_at) (\<lambda>elapsed.
     arith (checked_mul U64 staked rate) (\<lambda>p.
     arith (checked_mul U64 p elapsed) (\<lambda>reward.
     Ok (reward, s\<lparr>um_StakedAt := (um_StakedAt s)(staker \<mapsto> current_ledger)\<rparr>)))))"

definition unchecked_staked_amount :: "plain_staking \<Rightarrow> address \<Rightarrow> int" where
  "unchecked_staked_amount s staker = unwrap_or (um_Stake s staker) 0"

text \<open>Forgetting lifetimes and the admin.\<close>

definition forget :: "staking \<Rightarrow> plain_staking" where
  "forget s = \<lparr>events = events s, um_Stake = stake_of s, um_StakedAt = staked_at_of s,
     um_RewardRate = rate_of s\<rparr>"

lemma staking_value_maps:
  "stake_of s = ttl_value (stk_Stake s)" "staked_at_of s = ttl_value (stk_StakedAt s)"
  by (auto simp: staking_values)

lemma staking_events:
  "staking_put_rate e r s = Ok s' \<Longrightarrow> events s' = events s"
  "staking_stake e a n s = Ok s' \<Longrightarrow> events s' = events s"
  "staking_claim_rewards e a s = Ok (k, s') \<Longrightarrow> events s' = events s"
  by (auto simp: staking_put_rate_def staking_stake_def staking_claim_rewards_def result_simps Let_def)

lemma stake_refines:
  assumes "staking_stake e a n s = Ok s'"
  shows "unchecked_stake e a n (forget s) = Ok (forget s')"
  using stake_effect [OF assms] staking_events(2) [OF assms]
  by (simp add: unchecked_stake_def forget_def Let_def)

lemma claim_refines:
  assumes "staking_claim_rewards e a s = Ok (r, s')"
  shows "unchecked_claim_rewards e a (forget s) = Ok (r, forget s')"
proof (cases rule: claim_effect [OF assms(1)])
  case (1 k t w)
  have "in_range U64 (k * w)" "in_range U32 (sequence e - t)"
    using assms(1) 1 by (auto simp: staking_claim_rewards_def result_simps int_simps Let_def
        bind_eq_Some_conv staking_values)
  then show ?thesis
    using 1 staking_events(3) [OF assms(1)]
    by (simp add: unchecked_claim_rewards_def forget_def checked_ops Let_def)
qed

text \<open>The original under the calls of the secure contract: both rate setters are its \<^verbatim>\<open>initialize\<close>.\<close>

fun unchecked_exec :: "env \<Rightarrow> staking_call \<Rightarrow> plain_staking \<Rightarrow> plain_staking result" where
  "unchecked_exec e (SInitialize a r) s = unchecked_initialize e r s"
| "unchecked_exec e (SUpdateRate a r) s = unchecked_initialize e r s"
| "unchecked_exec e (SStake a n) s = unchecked_stake e a n s"
| "unchecked_exec e (SClaim a) s = state_of (unchecked_claim_rewards e a s)"
| "unchecked_exec e (SStakedAmount a) s = Ok s"

lemma put_rate_refines:
  assumes "staking_put_rate e r s = Ok s'"
  shows "unchecked_initialize e r (forget s) = Ok (forget s')"
  using put_rate_effect [OF assms] staking_events(1) [OF assms]
  by (simp add: unchecked_initialize_def forget_def staking_value_maps)

lemma staked_amount_keeps:
  assumes "staking_staked_amount e a s = Ok (v, s')"
  shows "forget s' = forget s"
proof (cases "s' = s")
  case False
  with assms obtain m where "ttl_extend e a TTL_THRESHOLD TTL_EXTEND_TO (stk_Stake s) = Ok m"
    and s': "s' = s\<lparr>stk_Stake := m\<rparr>"
    by (auto simp: staking_staked_amount_def result_simps Let_def split: if_splits)
  from ttl.extend_val [OF this(1)] show ?thesis
    by (simp add: s' forget_def staking_value_maps rate_of_def)
qed simp

interpretation staking_refinement: contract_refinement staking_exec unchecked_exec forget
proof (unfold_locales, goal_cases)
  case (1 e c s s')
  show ?case
  proof (cases c)
    case (SInitialize a r)
    with 1 have "staking_put_rate e r (s\<lparr>stk_Admin := Some a\<rparr>) = Ok s'"
      by (simp add: staking_initialize_def result_simps)
    from put_rate_refines [OF this] SInitialize show ?thesis
      by (simp add: forget_def staking_value_maps rate_of_def)
  next
    case (SUpdateRate a r)
    with 1 put_rate_refines show ?thesis by (auto simp: staking_update_rate_def result_simps)
  next
    case (SStakedAmount a)
    with 1 staked_amount_keeps show ?thesis by (auto simp: result_simps)
  qed (use 1 stake_refines claim_refines in \<open>auto simp: result_simps\<close>)
qed

section \<open>Properties\<close>

text \<open>
  A claim pays exactly stake times rate times the ledgers since the last claim or stake,
  restarts the clock and keeps the stake; it needs the staker's authorisation and an existing stake.
  Claiming again in the same ledger pays nothing.
\<close>

theorem staking_claim_exact:
  assumes "staking_claim_rewards e a s = Ok (r, s')"
  shows "authorized e a \<and> (\<exists>k t w. stake_of s a = Some k \<and> staked_at_of s a = Some t
      \<and> rate_of s = Some w \<and> r = k * w * (sequence e - t) \<and> in_range U64 r
      \<and> stake_of s' = stake_of s \<and> staked_at_of s' a = Some (sequence e))
    \<and> (\<forall>e2 r2 s2. sequence e2 = sequence e \<longrightarrow> staking_claim_rewards e2 a s' = Ok (r2, s2) \<longrightarrow> r2 = 0)"
  using assms by (auto elim!: claim_effect)

text \<open>
  Splitting a claim does not change the reward: any sequence of successful claims by a staker
  pays in sum the stake times the rate times the ledgers from the last stake to the last claim.
\<close>

theorem staking_claims_telescope:
  assumes "claim_all es a s = Ok (r, s')" and "stake_of s a = Some k" and "rate_of s = Some w"
    and "staked_at_of s a = Some t"
  shows "r = k * w * (last (t # map sequence es) - t)"
  using claim_all_sum [OF assms] by simp

text \<open>
  The reward rate of every reachable state is at most \<^verbatim>\<open>MAX_RATE\<close>, so a claim pays at most a
  million units per staked unit and ledger.
\<close>

theorem staking_reward_bounded:
  assumes "reach staking_exec staking_empty s" and "staking_claim_rewards e a s = Ok (r, s')"
    and "stake_of s a = Some k" and "staked_at_of s a = Some t" and "0 \<le> k"
  shows "r \<le> k * 1000000 * (sequence e - t)"
proof -
  have "rate_capped staking_empty"
    by (simp add: rate_capped_def rate_of_def staking_empty_def ttl_value_def)
  then have "rate_capped s" by (rule staking_rate.reach_inv [OF assms(1)])
  with assms obtain w where "w \<le> 1000000" "r = k * w * (sequence e - t)" "t \<le> sequence e"
    by (auto elim!: claim_effect simp: rate_capped_def MAX_RATE_def)
  with assms(5) show ?thesis
    by (simp add: mult_left_mono mult_right_mono)
qed

text \<open>
  Staking again replaces the stake and restarts the clock: the previous stake is not added to
  and the reward accrued on it until then can no longer be claimed.
\<close>

theorem staking_restake_replaces:
  assumes "staking_stake e a n s = Ok s'"
  shows "stake_of s' a = Some n \<and> staked_at_of s' a = Some (sequence e)
    \<and> (\<forall>b. b \<noteq> a \<longrightarrow> stake_of s' b = stake_of s b \<and> staked_at_of s' b = staked_at_of s b)
    \<and> (\<forall>e2 r s2. staking_claim_rewards e2 a s' = Ok (r, s2) \<longrightarrow>
         (\<exists>w. rate_of s = Some w \<and> r = n * w * (sequence e2 - sequence e)))"
proof -
  note eff = stake_effect [OF assms]
  have "\<exists>w. rate_of s = Some w \<and> r = n * w * (sequence e2 - sequence e)"
    if "staking_claim_rewards e2 a s' = Ok (r, s2)" for e2 r s2
    using that by (rule claim_effect) (use eff in auto)
  with eff show ?thesis by simp
qed

text \<open>
  C20: The secure staking contract refines the unguarded original. Take any run of it, from any state, and the calls of the run that returned: the
  original, started in the corresponding state (lifetimes and the admin forgotten) and given the same calls with the same signatures at the
  same ledgers, accepts every one of them and ends in the corresponding state. And a claim that returns pays what the original pays
  in the corresponding state.
\<close>

theorem staking_refines_unchecked:
  "run_all unchecked_exec (returned staking_exec xs s) (forget s) = Ok (forget (run_calls staking_exec xs s))
   \<and> (staking_claim_rewards e a t = Ok (r, t') \<longrightarrow> unchecked_claim_rewards e a (forget t) = Ok (r, forget t'))"
  using staking_refinement.run_refines claim_refines by blast

section \<open>A concrete stake\<close>

definition staking_demo_calls :: "(env \<times> staking_call) list" where
  "staking_demo_calls =
     [(signed_env [] 1, SInitialize (Address 5) 3),
      (signed_env [Address 6] 10, SStake (Address 6) 100)]"

definition staking_demo :: staking where
  "staking_demo = \<lparr>events = [], stk_Admin = Some (Address 5), stk_Stake = [Address 6 \<mapsto> (100, 4105)],
     stk_StakedAt = [Address 6 \<mapsto> (10, 4105)], stk_RewardRate = [() \<mapsto> (3, 4096)]\<rparr>"

lemmas ttl_eval = ttl_get_def ttl_set_def ttl_extend_def TTL_THRESHOLD_def TTL_EXTEND_TO_def
  signed_env_def

lemma staking_demo_run: "run_calls staking_exec staking_demo_calls staking_empty = staking_demo"
  by (simp add: staking_demo_calls_def staking_empty_def staking_demo_def staking_initialize_def
      staking_put_rate_def staking_stake_def ttl_eval MAX_RATE_def)

lemma staking_demo_reachable: "reach staking_exec staking_empty staking_demo"
  using run_calls_reach [of staking_exec staking_empty staking_demo_calls]
  by (simp only: staking_demo_run)

lemma staking_demo_values:
  "stake_of staking_demo (Address 6) = Some 100" "staked_at_of staking_demo (Address 6) = Some 10"
  "rate_of staking_demo = Some 3"
  by (simp_all add: staking_values staking_demo_def ttl_value_def)

lemma staking_demo_claim:
  "\<exists>s'. staking_claim_rewards (signed_env [Address 6] 15) (Address 6) staking_demo = Ok (1500, s')"
  by (simp add: staking_claim_rewards_def staking_demo_def ttl_eval checked_ops in_range_def)

theorem staking_claim_exact_witness:
  "\<exists>r s'. staking_claim_rewards (signed_env [Address 6] 15) (Address 6) staking_demo = Ok (r, s')
     \<and> r = 100 * 3 * 5 \<and> staked_at_of s' (Address 6) = Some 15"
proof -
  obtain r s' where ok: "staking_claim_rewards (signed_env [Address 6] 15) (Address 6) staking_demo
      = Ok (r, s')"
    using staking_demo_claim by blast
  from staking_claim_exact [OF ok] ok show ?thesis
    by (auto simp: staking_demo_values signed_env_def)
qed

theorem staking_claims_telescope_witness:
  "\<exists>r s'. claim_all [signed_env [Address 6] 12, signed_env [Address 6] 15] (Address 6) staking_demo
        = Ok (r, s') \<and> r = 100 * 3 * 5"
proof -
  obtain r s' where ok: "claim_all [signed_env [Address 6] 12, signed_env [Address 6] 15] (Address 6)
      staking_demo = Ok (r, s')"
    by (simp add: staking_claim_rewards_def staking_demo_def ttl_eval checked_ops in_range_def)
  from staking_claims_telescope [OF ok staking_demo_values(1,3,2)] ok show ?thesis
    by (simp add: signed_env_def)
qed

theorem staking_reward_bounded_witness:
  "\<exists>r s'. staking_claim_rewards (signed_env [Address 6] 15) (Address 6) staking_demo = Ok (r, s')
     \<and> r \<le> 100 * 1000000 * (15 - 10)"
proof -
  obtain r s' where ok: "staking_claim_rewards (signed_env [Address 6] 15) (Address 6) staking_demo
      = Ok (r, s')"
    using staking_demo_claim by blast
  from staking_reward_bounded [OF staking_demo_reachable ok staking_demo_values(1,2)] ok show ?thesis
    by (simp add: signed_env_def)
qed

theorem staking_refines_unchecked_witness:
  "run_all unchecked_exec (returned staking_exec staking_demo_calls staking_empty) (forget staking_empty) = Ok (forget staking_demo)
   \<and> (\<exists>p. unchecked_claim_rewards (signed_env [Address 6] 15) (Address 6) (forget staking_demo) = Ok (1500, p))"
proof -
  obtain s' where ok: "staking_claim_rewards (signed_env [Address 6] 15) (Address 6) staking_demo = Ok (1500, s')"
    using staking_demo_claim by blast
  from staking_refines_unchecked [of staking_demo_calls staking_empty "signed_env [Address 6] 15" "Address 6" staking_demo 1500 s'] ok
  show ?thesis by (simp add: staking_demo_run)
qed

theorem staking_restake_replaces_witness:
  "\<exists>s'. staking_stake (signed_env [Address 6] 20) (Address 6) 7 staking_demo = Ok s'
     \<and> stake_of s' (Address 6) = Some 7"
proof -
  obtain s' where ok: "staking_stake (signed_env [Address 6] 20) (Address 6) 7 staking_demo = Ok s'"
    by (simp add: staking_stake_def staking_demo_def ttl_eval)
  from staking_restake_replaces [OF ok] ok show ?thesis by blast
qed

end
