(* ===== verification/Protected_Oracle.thy ===== *)
theory Protected_Oracle
  imports Soroban_Prelude
begin

text \<open>
  The delayed price oracle (\<^verbatim>\<open>src/secure/protected_oracle/src/lib.rs\<close>). Shown: a price that a consumer
  reads was set by the admin at least \<^verbatim>\<open>MIN_DELAY\<close> ledgers before, and is available again from then on.
\<close>

definition MIN_DELAY :: int where "MIN_DELAY = 5"

record price_oracle = host +
  orc_Price :: "int option"
  orc_UpdatedAt :: "int option"
  orc_Admin :: "address option"

definition oracle_empty :: price_oracle where
  "oracle_empty = \<lparr>events = [], orc_Price = None, orc_UpdatedAt = None, orc_Admin = None\<rparr>"

section \<open>Operations\<close>

definition oracle_initialize :: "env \<Rightarrow> address \<Rightarrow> price_oracle \<Rightarrow> price_oracle result" where
  "oracle_initialize e admin s =
     panic_if (orc_Admin s \<noteq> None) ''already initialized'' (
     Ok (s\<lparr>orc_Admin := Some admin\<rparr>))"

definition oracle_set_price :: "env \<Rightarrow> address \<Rightarrow> int \<Rightarrow> price_oracle \<Rightarrow> price_oracle result" where
  "oracle_set_price e caller price s =
     require_auth e caller (
     unwrap (orc_Admin s) (\<lambda>admin.
     panic_if (caller \<noteq> admin) ''not admin'' (
     Ok (s\<lparr>orc_Price := Some price, orc_UpdatedAt := Some (sequence e)\<rparr>))))"

definition oracle_get_price :: "env \<Rightarrow> price_oracle \<Rightarrow> int result" where
  "oracle_get_price e s =
     (let updated_at = unwrap_or (orc_UpdatedAt s) 0; current = sequence e in
      arith (checked_add U32 updated_at MIN_DELAY) (\<lambda>ready.
      panic_if (current < ready) ''price not yet available: delay not elapsed'' (
      Ok (unwrap_or (orc_Price s) 0))))"

definition oracle_updated_at :: "price_oracle \<Rightarrow> int" where
  "oracle_updated_at s = unwrap_or (orc_UpdatedAt s) 0"

definition oracle_min_delay :: int where
  "oracle_min_delay = MIN_DELAY"

datatype oracle_call =
    OInitialize address
  | OSetPrice address int

fun oracle_exec :: "env \<Rightarrow> oracle_call \<Rightarrow> price_oracle \<Rightarrow> price_oracle result" where
  "oracle_exec e (OInitialize a) s = oracle_initialize e a s"
| "oracle_exec e (OSetPrice a p) s = oracle_set_price e a p s"

section \<open>Where a price comes from\<close>

text \<open>The call set this price, with the admin's authorisation, at this ledger.\<close>

fun price_set_by ::
    "env \<Rightarrow> oracle_call \<Rightarrow> price_oracle \<Rightarrow> int option \<times> int option \<Rightarrow> bool" where
  "price_set_by e (OSetPrice a p) s v \<longleftrightarrow>
     orc_Admin s = Some a \<and> authorized e a \<and> v = (Some p, Some (sequence e))"
| "price_set_by e (OInitialize a) s v \<longleftrightarrow> False"

lemma price_set_byE:
  assumes "price_set_by e c s v"
  obtains a p where "c = OSetPrice a p" "orc_Admin s = Some a" "authorized e a"
    "v = (Some p, Some (sequence e))"
  using assms by (cases c) auto

interpretation oracle_price: written_view oracle_exec "\<lambda>s. (orc_Price s, orc_UpdatedAt s)" price_set_by
proof (unfold_locales, goal_cases)
  case (1 e c s s')
  then show ?case
    by (cases c) (auto simp: oracle_initialize_def oracle_set_price_def result_simps)
qed

section \<open>The instant oracle and its repair\<close>

text \<open>
  \<^verbatim>\<open>src/vulnerable/instant_oracle/src/lib.rs\<close> reads a price back at once; \<^verbatim>\<open>secure.rs\<close> of the same crate
  adds a delay chosen at initialisation.
\<close>

record instant_oracle = host +
  ins_Admin :: "address option"
  ins_Price :: "int option"
  ins_UpdatedAt :: "int option"
  ins_Delay :: "int option"

definition ins_get_admin :: "instant_oracle \<Rightarrow> (address \<Rightarrow> 'b result) \<Rightarrow> 'b result" where
  "ins_get_admin s k = expect (ins_Admin s) ''admin not initialized'' k"

definition ins_initialize :: "env \<Rightarrow> address \<Rightarrow> instant_oracle \<Rightarrow> instant_oracle result" where
  "ins_initialize e admin s =
     panic_if (ins_Admin s \<noteq> None) ''already initialized'' (
     Ok (s\<lparr>ins_Admin := Some admin\<rparr>))"

definition ins_set_price :: "env \<Rightarrow> int \<Rightarrow> instant_oracle \<Rightarrow> instant_oracle result" where
  "ins_set_price e price s =
     ins_get_admin s (\<lambda>admin.
     require_auth e admin (
     Ok (s\<lparr>ins_Price := Some price, ins_UpdatedAt := Some (sequence e)\<rparr>)))"

definition ins_get_price :: "instant_oracle \<Rightarrow> int" where
  "ins_get_price s = unwrap_or (ins_Price s) 0"

definition ins_updated_at :: "instant_oracle \<Rightarrow> int" where
  "ins_updated_at s = unwrap_or (ins_UpdatedAt s) 0"

definition insec_initialize :: "env \<Rightarrow> address \<Rightarrow> int \<Rightarrow> instant_oracle \<Rightarrow> instant_oracle result" where
  "insec_initialize e admin delay s =
     panic_if (ins_Admin s \<noteq> None) ''already initialized'' (
     Ok (s\<lparr>ins_Admin := Some admin, ins_Delay := Some delay\<rparr>))"

definition insec_set_price :: "env \<Rightarrow> int \<Rightarrow> instant_oracle \<Rightarrow> instant_oracle result" where
  "insec_set_price e price s =
     ins_get_admin s (\<lambda>admin.
     require_auth e admin (
     Ok (s\<lparr>ins_Price := Some price, ins_UpdatedAt := Some (sequence e)\<rparr>)))"

definition insec_get_price :: "env \<Rightarrow> instant_oracle \<Rightarrow> int result" where
  "insec_get_price e s =
     (let updated_at = unwrap_or (ins_UpdatedAt s) 0; delay = unwrap_or (ins_Delay s) 0 in
      arith (checked_add U32 updated_at delay) (\<lambda>t.
      panic_if (sequence e \<le> t) ''price not yet valid'' (
      Ok (unwrap_or (ins_Price s) 0))))"

text \<open>
  The comparison is strict, so even a delay of zero rules out a read in the ledger of the update; the
  original allows it.
\<close>

lemma instant_read_possible:
  assumes "ins_set_price e p s = Ok s'"
  shows "ins_get_price s' = p \<and> ins_updated_at s' = sequence e"
  using assms by (auto simp: ins_set_price_def ins_get_admin_def ins_get_price_def ins_updated_at_def
      result_simps)

lemma insec_read_delayed:
  assumes "insec_set_price e p s = Ok s'" and "insec_get_price e2 s' = Ok q"
  shows "q = p \<and> sequence e + unwrap_or (ins_Delay s) 0 < sequence e2"
  using assms by (auto simp: insec_set_price_def insec_get_price_def ins_get_admin_def result_simps
      int_simps Let_def)

section \<open>Properties\<close>

text \<open>
  After any run, a price that \<^verbatim>\<open>get_price\<close> returns is either the default zero of an oracle that
  never had a price, or the argument of a \<^verbatim>\<open>set_price\<close> in that run that the admin of that moment
  authorised at least \<^verbatim>\<open>MIN_DELAY\<close> ledgers before the read: no set-then-read within a ledger.
\<close>

theorem oracle_price_delayed:
  assumes "oracle_get_price e (run_calls oracle_exec xs oracle_empty) = Ok p"
  shows "p = 0 \<and> orc_Price (run_calls oracle_exec xs oracle_empty) = None
    \<or> (\<exists>ys e1 a zs. xs = ys @ (e1, OSetPrice a p) # zs \<and> authorized e1 a
         \<and> orc_Admin (run_calls oracle_exec ys oracle_empty) = Some a
         \<and> sequence e1 + 5 \<le> sequence e)"
proof -
  let ?s = "run_calls oracle_exec xs oracle_empty"
  from assms have p: "p = unwrap_or (orc_Price ?s) 0"
    and late: "unwrap_or (orc_UpdatedAt ?s) 0 + 5 \<le> sequence e"
    by (auto simp: oracle_get_price_def result_simps int_simps Let_def MIN_DELAY_def)
  show ?thesis
  proof (cases "(orc_Price ?s, orc_UpdatedAt ?s)
      = (orc_Price oracle_empty, orc_UpdatedAt oracle_empty)")
    case True
    with p show ?thesis by (simp add: oracle_empty_def)
  next
    case False
    from oracle_price.run_writes [OF this] obtain ys e1 c zs where
      xs: "xs = ys @ (e1, c) # zs"
      and w: "price_set_by e1 c (run_calls oracle_exec ys oracle_empty) (orc_Price ?s, orc_UpdatedAt ?s)"
      by blast
    from w show ?thesis
    proof (rule price_set_byE)
      fix a q
      assume "c = OSetPrice a q" "orc_Admin (run_calls oracle_exec ys oracle_empty) = Some a"
        "authorized e1 a" "(orc_Price ?s, orc_UpdatedAt ?s) = (Some q, Some (sequence e1))"
      with p late xs show ?thesis by auto
    qed
  qed
qed

text \<open>
  A price becomes readable once the delay is over and stays readable, until the next update or the
  last ledgers of the sequence range.
\<close>

lemma oracle_price_available:
  assumes "oracle_set_price e a p s = Ok s'" and "sequence e + 5 \<le> sequence e2"
    and "in_range U32 (sequence e)" and "in_range U32 (sequence e2)"
  shows "oracle_get_price e2 s' = Ok p"
  using assms
  by (auto simp: oracle_set_price_def oracle_get_price_def result_simps checked_ops MIN_DELAY_def
      in_range_def)

section \<open>A concrete run\<close>

definition oracle_demo_calls :: "(env \<times> oracle_call) list" where
  "oracle_demo_calls =
     [(signed_env [] 7, OInitialize (Address 5)),
      (signed_env [Address 5] 10, OSetPrice (Address 5) 42),
      (signed_env [Address 6] 11, OSetPrice (Address 6) 1)]"

lemma oracle_demo_read:
  "oracle_get_price (signed_env [] 15) (run_calls oracle_exec oracle_demo_calls oracle_empty) = Ok 42"
  "oracle_get_price (signed_env [] 14) (run_calls oracle_exec oracle_demo_calls oracle_empty)
     = Err (Panic ''price not yet available: delay not elapsed'')"
  by (simp_all add: oracle_demo_calls_def oracle_initialize_def oracle_set_price_def
      oracle_get_price_def oracle_empty_def MIN_DELAY_def checked_ops in_range_def signed_env_def)

theorem oracle_price_delayed_witness:
  "\<exists>ys e1 a zs. oracle_demo_calls = ys @ (e1, OSetPrice a 42) # zs \<and> authorized e1 a
     \<and> sequence e1 + 5 \<le> 15"
  using oracle_price_delayed [OF oracle_demo_read(1)] by (auto simp: signed_env_def)

end
