(* ===== verification/Secure_Pausable.thy ===== *)
theory Secure_Pausable
  imports Soroban_Prelude
begin

text \<open>
  The pausable token (\<^verbatim>\<open>src/secure/secure_pausable/src/lib.rs\<close>). Shown: the pause flag and the admin
  change only under the current admin's authorisation, and a balance moves only by an admin mint or
  by an authorised transfer made while the contract is not paused. The transfer's \<^verbatim>\<open>checked_sub\<close> guards
  the range of \<^verbatim>\<open>i128\<close>, not the balance: an account can be overdrawn.
\<close>

record pausable = host +
  pau_Admin :: "address option"
  pau_Paused :: "bool option"
  pau_Balance :: "address \<rightharpoonup> int"

definition pausable_empty :: pausable where
  "pausable_empty = \<lparr>events = [], pau_Admin = None, pau_Paused = None, pau_Balance = Map.empty\<rparr>"

section \<open>Operations\<close>

definition pausable_initialize :: "env \<Rightarrow> address \<Rightarrow> pausable \<Rightarrow> pausable result" where
  "pausable_initialize e admin s =
     panic_if (pau_Admin s \<noteq> None) ''already initialized'' (
     Ok (s\<lparr>pau_Admin := Some admin, pau_Paused := Some False\<rparr>))"

definition pausable_mint :: "env \<Rightarrow> address \<Rightarrow> int \<Rightarrow> pausable \<Rightarrow> pausable result" where
  "pausable_mint e recipient amount s =
     expect (pau_Admin s) ''not initialized'' (\<lambda>admin.
     require_auth e admin (
     arith (checked_add I128 (get0 (pau_Balance s) recipient) amount) (\<lambda>n.
     Ok (s\<lparr>pau_Balance := (pau_Balance s)(recipient \<mapsto> n)\<rparr>))))"

definition pausable_pause :: "env \<Rightarrow> pausable \<Rightarrow> pausable result" where
  "pausable_pause e s =
     expect (pau_Admin s) ''not initialized'' (\<lambda>admin.
     require_auth e admin (
     Ok (publish [''paused''] [VAddr admin] (s\<lparr>pau_Paused := Some True\<rparr>))))"

definition pausable_unpause :: "env \<Rightarrow> pausable \<Rightarrow> pausable result" where
  "pausable_unpause e s =
     expect (pau_Admin s) ''not initialized'' (\<lambda>admin.
     require_auth e admin (
     Ok (publish [''unpaused''] [VAddr admin] (s\<lparr>pau_Paused := Some False\<rparr>))))"

definition pausable_transfer ::
    "env \<Rightarrow> address \<Rightarrow> address \<Rightarrow> int \<Rightarrow> pausable \<Rightarrow> pausable result" where
  "pausable_transfer e sender recipient amount s =
     panic_if (unwrap_or (pau_Paused s) False) ''contract is paused'' (
     require_auth e sender (
     let from_balance = get0 (pau_Balance s) sender; to_balance = get0 (pau_Balance s) recipient in
     expect (checked_sub I128 from_balance amount) ''insufficient balance'' (\<lambda>f.
     let s1 = s\<lparr>pau_Balance := (pau_Balance s)(sender \<mapsto> f)\<rparr> in
     arith (checked_add I128 to_balance amount) (\<lambda>t.
     Ok (s1\<lparr>pau_Balance := (pau_Balance s1)(recipient \<mapsto> t)\<rparr>)))))"

definition pausable_set_admin :: "env \<Rightarrow> address \<Rightarrow> pausable \<Rightarrow> pausable result" where
  "pausable_set_admin e new_admin s =
     expect (pau_Admin s) ''not initialized'' (\<lambda>current_admin.
     require_auth e current_admin (
     Ok (s\<lparr>pau_Admin := Some new_admin\<rparr>)))"

definition pausable_get_admin :: "pausable \<Rightarrow> address result" where
  "pausable_get_admin s = expect (pau_Admin s) ''not initialized'' Ok"

definition pausable_is_paused :: "pausable \<Rightarrow> bool" where
  "pausable_is_paused s = unwrap_or (pau_Paused s) False"

definition pausable_balance :: "pausable \<Rightarrow> address \<Rightarrow> int" where
  "pausable_balance s a = get0 (pau_Balance s) a"

datatype pausable_call =
    PInitialize address
  | PMint address int
  | PPause
  | PUnpause
  | PTransfer address address int
  | PSetAdmin address

fun pausable_exec :: "env \<Rightarrow> pausable_call \<Rightarrow> pausable \<Rightarrow> pausable result" where
  "pausable_exec e (PInitialize a) s = pausable_initialize e a s"
| "pausable_exec e (PMint a n) s = pausable_mint e a n s"
| "pausable_exec e PPause s = pausable_pause e s"
| "pausable_exec e PUnpause s = pausable_unpause e s"
| "pausable_exec e (PTransfer a b n) s = pausable_transfer e a b n s"
| "pausable_exec e (PSetAdmin a) s = pausable_set_admin e a s"

lemmas pausable_ops = pausable_initialize_def pausable_mint_def pausable_pause_def
  pausable_unpause_def pausable_transfer_def pausable_set_admin_def publish_def Let_def

section \<open>Who may change what\<close>

definition by_admin :: "env \<Rightarrow> pausable \<Rightarrow> bool" where
  "by_admin e s \<longleftrightarrow> (\<exists>a. pau_Admin s = Some a \<and> authorized e a)"

text \<open>The pause flag and the admin: the first initialisation, or the admin.\<close>

fun breaker_guard :: "env \<Rightarrow> pausable_call \<Rightarrow> pausable \<Rightarrow> bool" where
  "breaker_guard e (PInitialize a) s \<longleftrightarrow> pau_Admin s = None"
| "breaker_guard e PPause s \<longleftrightarrow> by_admin e s"
| "breaker_guard e PUnpause s \<longleftrightarrow> by_admin e s"
| "breaker_guard e (PSetAdmin a) s \<longleftrightarrow> by_admin e s"
| "breaker_guard e (PMint a n) s \<longleftrightarrow> False"
| "breaker_guard e (PTransfer a b n) s \<longleftrightarrow> False"

interpretation breaker: guarded_view pausable_exec "\<lambda>s. (pau_Admin s, pau_Paused s)" breaker_guard
proof (unfold_locales, goal_cases)
  case (1 e c s s')
  then show ?case
    by (cases c) (auto simp: pausable_ops by_admin_def result_simps)
qed

text \<open>The balance of an account: an admin mint, or a signed transfer outside a pause.\<close>

fun move_guard :: "address \<Rightarrow> env \<Rightarrow> pausable_call \<Rightarrow> pausable \<Rightarrow> bool" where
  "move_guard x e (PMint a n) s \<longleftrightarrow> a = x \<and> by_admin e s"
| "move_guard x e (PTransfer a b n) s \<longleftrightarrow>
     (a = x \<or> b = x) \<and> authorized e a \<and> \<not> pausable_is_paused s"
| "move_guard x e _ s \<longleftrightarrow> False"

interpretation balance_moves: guarded_view pausable_exec "\<lambda>s. pausable_balance s x" "move_guard x"
  for x
proof (unfold_locales, goal_cases)
  case (1 e c s s')
  then show ?case
    by (cases c) (auto simp: pausable_ops by_admin_def pausable_balance_def pausable_is_paused_def
        result_simps split: if_splits)
qed

text \<open>An initialised contract stays initialised.\<close>

interpretation has_admin: contract_invariant pausable_exec "\<lambda>s. pau_Admin s \<noteq> None"
proof (unfold_locales, goal_cases)
  case (1 s e c s')
  then show ?case
    by (cases c) (auto simp: pausable_ops result_simps)
qed

text \<open>Nothing in \<^verbatim>\<open>transfer\<close> looks at the sender's funds: from an empty account any amount leaves.\<close>

lemma pausable_transfer_overdraws:
  assumes "authorized e a" and "a \<noteq> b" and "\<not> pausable_is_paused s" and "0 < n" and "in_range I128 n"
    and "pausable_balance s a = 0" and "pausable_balance s b = 0"
  shows "\<exists>s'. pausable_transfer e a b n s = Ok s' \<and> pausable_balance s' a = - n
    \<and> pausable_balance s' b = n"
  using assms
  by (auto simp: pausable_transfer_def pausable_is_paused_def pausable_balance_def checked_ops
      in_range_def Let_def)

section \<open>The unprotected original\<close>

text \<open>
  \<^verbatim>\<open>src/vulnerable/unprotected_pause/src/lib.rs\<close>, on the same storage. Its transfer re-reads the
  receiver after the debit.
\<close>

definition up_initialize :: "env \<Rightarrow> address \<Rightarrow> pausable \<Rightarrow> pausable result" where
  "up_initialize e admin s =
     panic_if (pau_Admin s \<noteq> None) ''already initialized'' (
     Ok (s\<lparr>pau_Admin := Some admin, pau_Paused := Some False\<rparr>))"

definition up_pause :: "env \<Rightarrow> pausable \<Rightarrow> pausable result" where
  "up_pause e s = Ok (s\<lparr>pau_Paused := Some True\<rparr>)"

definition up_unpause :: "env \<Rightarrow> pausable \<Rightarrow> pausable result" where
  "up_unpause e s = Ok (s\<lparr>pau_Paused := Some False\<rparr>)"

definition up_mint :: "env \<Rightarrow> address \<Rightarrow> int \<Rightarrow> pausable \<Rightarrow> pausable result" where
  "up_mint e recipient amount s =
     arith (checked_add I128 (get0 (pau_Balance s) recipient) amount) (\<lambda>n.
     Ok (s\<lparr>pau_Balance := (pau_Balance s)(recipient \<mapsto> n)\<rparr>))"

definition up_transfer :: "env \<Rightarrow> address \<Rightarrow> address \<Rightarrow> int \<Rightarrow> pausable \<Rightarrow> pausable result" where
  "up_transfer e sender recipient amount s =
     panic_if (unwrap_or (pau_Paused s) False) ''contract is paused'' (
     require_auth e sender (
     arith (checked_sub I128 (get0 (pau_Balance s) sender) amount) (\<lambda>f.
     let s1 = s\<lparr>pau_Balance := (pau_Balance s)(sender \<mapsto> f)\<rparr> in
     arith (checked_add I128 (get0 (pau_Balance s1) recipient) amount) (\<lambda>t.
     Ok (s1\<lparr>pau_Balance := (pau_Balance s1)(recipient \<mapsto> t)\<rparr>)))))"

definition up_balance :: "pausable \<Rightarrow> address \<Rightarrow> int" where
  "up_balance s account = get0 (pau_Balance s) account"

definition up_is_paused :: "pausable \<Rightarrow> bool" where
  "up_is_paused s = unwrap_or (pau_Paused s) False"

text \<open>Anyone freezes all transfers, and anyone lifts a pause of the admin.\<close>

lemma up_anyone_controls_breaker:
  "\<exists>s1 s2. up_pause e s = Ok s1 \<and> up_transfer e' a b n s1 = Err (Panic ''contract is paused'')
     \<and> up_unpause e s1 = Ok s2 \<and> \<not> up_is_paused s2"
  by (simp add: up_pause_def up_unpause_def up_transfer_def up_is_paused_def)

text \<open>
  On a successful transfer between different accounts both contracts agree; on a self-transfer the
  original keeps the balance and the secure contract, which reads both balances first, adds the
  amount.
\<close>

lemma pausable_transfer_agrees:
  assumes "a \<noteq> b"
  shows "pausable_transfer e a b n s = Ok s' \<longleftrightarrow> up_transfer e a b n s = Ok s'"
  using assms by (auto simp: pausable_transfer_def up_transfer_def result_simps int_simps Let_def)

lemma pausable_self_transfer_inflates:
  assumes "pausable_transfer e a a n s = Ok s'"
  shows "pausable_balance s' a = pausable_balance s a + n
    \<and> (\<forall>s2. up_transfer e a a n s = Ok s2 \<longrightarrow> up_balance s2 a = up_balance s a)"
  using assms
  by (auto simp: pausable_transfer_def up_transfer_def result_simps int_simps Let_def
      pausable_balance_def up_balance_def)

section \<open>Properties\<close>

text \<open>
  While the contract is paused only an admin mint changes a balance: if the balance of an
  account differs between the two ends of a run, the run contains a mint to it authorised by the
  admin, or a transfer from or to it that its sender authorised while the contract was not paused.
\<close>

theorem pausable_balances_guarded:
  assumes "pausable_balance (run_calls pausable_exec xs s) x \<noteq> pausable_balance s x"
  shows "\<exists>ys e c zs. xs = ys @ (e, c) # zs
    \<and> ((\<exists>n. c = PMint x n \<and> by_admin e (run_calls pausable_exec ys s))
      \<or> (\<exists>a b n. c = PTransfer a b n \<and> (a = x \<or> b = x) \<and> authorized e a
           \<and> \<not> pausable_is_paused (run_calls pausable_exec ys s)))"
proof -
  from balance_moves.run_view [OF assms] obtain ys e c zs where xs: "xs = ys @ (e, c) # zs"
    and g: "move_guard x e c (run_calls pausable_exec ys s)" by blast
  from g show ?thesis
    by (intro exI [of _ ys] exI [of _ e] exI [of _ c] exI [of _ zs]) (cases c, auto simp: xs)
qed

text \<open>
  The circuit breaker is the admin's: once there is an admin, the pause flag and the admin
  change in a run only if the run contains a pause, an unpause or a rotation that the admin of that
  moment authorised.
\<close>

theorem pausable_breaker_admin_only:
  assumes "(pau_Admin (run_calls pausable_exec xs s), pau_Paused (run_calls pausable_exec xs s))
      \<noteq> (pau_Admin s, pau_Paused s)" and "pau_Admin s \<noteq> None"
  shows "\<exists>ys e c zs. xs = ys @ (e, c) # zs \<and> by_admin e (run_calls pausable_exec ys s)
    \<and> (c = PPause \<or> c = PUnpause \<or> (\<exists>a. c = PSetAdmin a))"
proof -
  from breaker.run_view [OF assms(1)] obtain ys e c zs where xs: "xs = ys @ (e, c) # zs"
    and g: "breaker_guard e c (run_calls pausable_exec ys s)" by blast
  from g has_admin.run_inv [of s ys] assms(2) show ?thesis
    by (intro exI [of _ ys] exI [of _ e] exI [of _ c] exI [of _ zs]) (cases c, auto simp: xs)
qed

section \<open>A concrete run\<close>

definition pausable_demo_calls :: "(env \<times> pausable_call) list" where
  "pausable_demo_calls =
     [(signed_env [Address 5] 8, PMint (Address 6) 100),
      (signed_env [Address 5] 9, PPause),
      (signed_env [Address 6] 10, PTransfer (Address 6) (Address 7) 30)]"

definition pausable_demo :: pausable where
  "pausable_demo = \<lparr>events = [], pau_Admin = Some (Address 5), pau_Paused = Some False,
     pau_Balance = Map.empty\<rparr>"

lemma pausable_demo_run:
  "run_calls pausable_exec pausable_demo_calls pausable_demo
     = \<lparr>events = [([''paused''], [VAddr (Address 5)])], pau_Admin = Some (Address 5),
        pau_Paused = Some True, pau_Balance = [Address 6 \<mapsto> 100]\<rparr>"
  by (simp add: pausable_demo_calls_def pausable_demo_def pausable_ops checked_ops in_range_def
      signed_env_def)

theorem pausable_balances_guarded_witness:
  "\<exists>ys e c zs. pausable_demo_calls = ys @ (e, c) # zs
    \<and> ((\<exists>n. c = PMint (Address 6) n \<and> by_admin e (run_calls pausable_exec ys pausable_demo))
      \<or> (\<exists>a b n. c = PTransfer a b n \<and> (a = Address 6 \<or> b = Address 6) \<and> authorized e a
           \<and> \<not> pausable_is_paused (run_calls pausable_exec ys pausable_demo)))"
  by (rule pausable_balances_guarded)
     (simp add: pausable_demo_run, simp add: pausable_balance_def pausable_demo_def)

theorem pausable_breaker_admin_only_witness:
  "\<exists>ys e c zs. pausable_demo_calls = ys @ (e, c) # zs
    \<and> by_admin e (run_calls pausable_exec ys pausable_demo)
    \<and> (c = PPause \<or> c = PUnpause \<or> (\<exists>a. c = PSetAdmin a))"
  by (rule pausable_breaker_admin_only)
     (simp add: pausable_demo_run, simp_all add: pausable_demo_def)

end
