(* ===== verification/Locked_Vaults.thy ===== *)
theory Locked_Vaults
  imports Soroban_Prelude
begin

text \<open>
  Deposit contracts: the vault locked by ledger sequence (\<^verbatim>\<open>src/secure/sequence_lock/src/lib.rs\<close>) and its
  vulnerable twin locked by timestamp (\<^verbatim>\<open>src/vulnerable/timestamp_lock/src/lib.rs\<close>); the escrow
  (\<^verbatim>\<open>src/secure/secure_escrow/src/lib.rs\<close>, \<^verbatim>\<open>src/vulnerable/missing_escrow_auth/src/lib.rs\<close>); the vault
  with a minimum deposit (\<^verbatim>\<open>src/secure/dust_griefing/src/lib.rs\<close> and both halves of
  \<^verbatim>\<open>src/vulnerable/dust_griefing\<close>). The two locks meet one contract, the locale \<^verbatim>\<open>lock_vault\<close>: a
  withdrawal is refused before the recorded unlock time, but the owner can replace that time by a
  second deposit, so the lock does not bind its owner.
\<close>

section \<open>sequence\_lock\<close>

record lock_state = host +
  lck_Balance :: "address \<rightharpoonup> int"
  lck_Unlock :: "address \<rightharpoonup> int"

definition sl_deposit :: "env \<Rightarrow> address \<Rightarrow> int \<Rightarrow> int \<Rightarrow> lock_state \<Rightarrow> lock_state result" where
  "sl_deposit e user amount unlock_sequence s =
     require_auth e user (
     arith (checked_add I128 (get0 (lck_Balance s) user) amount) (\<lambda>n.
     let s1 = s\<lparr>lck_Balance := (lck_Balance s)(user \<mapsto> n)\<rparr> in
     Ok (s1\<lparr>lck_Unlock := (lck_Unlock s1)(user \<mapsto> unlock_sequence)\<rparr>)))"

definition sl_withdraw :: "env \<Rightarrow> address \<Rightarrow> lock_state \<Rightarrow> lock_state result" where
  "sl_withdraw e user s =
     require_auth e user (
     expect (lck_Unlock s user) ''unlock sequence not set'' (\<lambda>unlock_sequence.
     panic_if (sequence e < unlock_sequence) ''still locked'' (
     let s1 = s\<lparr>lck_Balance := (lck_Balance s)(user \<mapsto> 0)\<rparr> in
     Ok (s1\<lparr>lck_Unlock := (lck_Unlock s1)(user := None)\<rparr>))))"

definition sl_balance :: "lock_state \<Rightarrow> address \<Rightarrow> int" where
  "sl_balance s user = get0 (lck_Balance s) user"

definition sl_unlock_sequence :: "lock_state \<Rightarrow> address \<Rightarrow> int option" where
  "sl_unlock_sequence s user = lck_Unlock s user"

definition sl_current_sequence :: "env \<Rightarrow> int" where
  "sl_current_sequence e = sequence e"

section \<open>timestamp\_lock\<close>

definition tl_deposit :: "env \<Rightarrow> address \<Rightarrow> int \<Rightarrow> int \<Rightarrow> lock_state \<Rightarrow> lock_state result" where
  "tl_deposit e user amount unlock_timestamp s =
     require_auth e user (
     arith (checked_add I128 (get0 (lck_Balance s) user) amount) (\<lambda>n.
     let s1 = s\<lparr>lck_Balance := (lck_Balance s)(user \<mapsto> n)\<rparr> in
     Ok (s1\<lparr>lck_Unlock := (lck_Unlock s1)(user \<mapsto> unlock_timestamp)\<rparr>)))"

definition tl_withdraw :: "env \<Rightarrow> address \<Rightarrow> lock_state \<Rightarrow> lock_state result" where
  "tl_withdraw e user s =
     require_auth e user (
     expect (lck_Unlock s user) ''unlock time not set'' (\<lambda>unlock_time.
     panic_if (timestamp e < unlock_time) ''still locked'' (
     let s1 = s\<lparr>lck_Balance := (lck_Balance s)(user \<mapsto> 0)\<rparr> in
     Ok (s1\<lparr>lck_Unlock := (lck_Unlock s1)(user := None)\<rparr>))))"

definition tl_balance :: "lock_state \<Rightarrow> address \<Rightarrow> int" where
  "tl_balance s user = get0 (lck_Balance s) user"

definition tl_unlock_time :: "lock_state \<Rightarrow> address \<Rightarrow> int option" where
  "tl_unlock_time s user = lck_Unlock s user"

definition tl_current_timestamp :: "env \<Rightarrow> int" where
  "tl_current_timestamp e = timestamp e"

section \<open>What a lock promises\<close>

locale lock_vault =
  fixes deposit :: "env \<Rightarrow> address \<Rightarrow> int \<Rightarrow> int \<Rightarrow> 's \<Rightarrow> 's result"
    and withdraw :: "env \<Rightarrow> address \<Rightarrow> 's \<Rightarrow> 's result"
    and bal :: "'s \<Rightarrow> address \<Rightarrow> int"
    and unlock :: "'s \<Rightarrow> address \<Rightarrow> int option"
    and now :: "env \<Rightarrow> int"
  assumes deposit_succeeds:
      "(\<exists>s'. deposit e a n u s = Ok s') \<longleftrightarrow> authorized e a \<and> in_range I128 (bal s a + n)"
    and deposit_effect: "deposit e a n u s = Ok s' \<Longrightarrow>
      bal s' = (bal s)(a := bal s a + n) \<and> unlock s' = (unlock s)(a \<mapsto> u)"
    and withdraw_succeeds:
      "(\<exists>s'. withdraw e a s = Ok s') \<longleftrightarrow> authorized e a \<and> (\<exists>u. unlock s a = Some u \<and> u \<le> now e)"
    and withdraw_effect: "withdraw e a s = Ok s' \<Longrightarrow>
      bal s' = (bal s)(a := 0) \<and> unlock s' = (unlock s)(a := None)"
begin

lemma withdraw_exact:
  "((\<exists>s'. withdraw e a s = Ok s') \<longleftrightarrow> authorized e a \<and> (\<exists>u. unlock s a = Some u \<and> u \<le> now e))
   \<and> (withdraw e a s = Ok s' \<longrightarrow> bal s' = (bal s)(a := 0) \<and> unlock s' = (unlock s)(a := None))"
  using withdraw_succeeds withdraw_effect by blast

lemma redeposit_unlocks:
  assumes "authorized e a" and "in_range I128 (bal s a)"
  shows "\<exists>s1 s2. deposit e a 0 (now e) s = Ok s1 \<and> withdraw e a s1 = Ok s2
    \<and> bal s1 a = bal s a \<and> bal s2 a = 0"
proof -
  obtain s1 where s1: "deposit e a 0 (now e) s = Ok s1"
    using deposit_succeeds [of e a 0 "now e" s] assms by auto
  from deposit_effect [OF s1] have "bal s1 a = bal s a" "unlock s1 a = Some (now e)" by auto
  moreover from this obtain s2 where s2: "withdraw e a s1 = Ok s2"
    using withdraw_succeeds [of e a s1] assms(1) by auto
  ultimately show ?thesis
    using s1 withdraw_effect [OF s2] by auto
qed

end

lemmas lock_defs = sl_deposit_def sl_withdraw_def sl_balance_def sl_unlock_sequence_def
  sl_current_sequence_def tl_deposit_def tl_withdraw_def tl_balance_def tl_unlock_time_def
  tl_current_timestamp_def

interpretation seq_lock: lock_vault sl_deposit sl_withdraw sl_balance sl_unlock_sequence sl_current_sequence
  by unfold_locales
     (auto simp: lock_defs result_simps int_simps Let_def not_less fun_eq_iff)

interpretation time_lock: lock_vault tl_deposit tl_withdraw tl_balance tl_unlock_time tl_current_timestamp
  by unfold_locales
     (auto simp: lock_defs result_simps int_simps Let_def not_less fun_eq_iff)

section \<open>Escrow\<close>

record escrow = host +
  esc_Escrow :: "address \<rightharpoonup> int"

definition escrow_deposit :: "env \<Rightarrow> address \<Rightarrow> int \<Rightarrow> escrow \<Rightarrow> escrow result" where
  "escrow_deposit e depositor amount s =
     require_auth e depositor (
     arith (checked_add I128 (get0 (esc_Escrow s) depositor) amount) (\<lambda>n.
     Ok (s\<lparr>esc_Escrow := (esc_Escrow s)(depositor \<mapsto> n)\<rparr>)))"

definition escrow_withdraw :: "env \<Rightarrow> address \<Rightarrow> int \<Rightarrow> escrow \<Rightarrow> escrow result" where
  "escrow_withdraw e depositor amount s =
     require_auth e depositor (
     arith (checked_sub I128 (get0 (esc_Escrow s) depositor) amount) (\<lambda>n.
     Ok (s\<lparr>esc_Escrow := (esc_Escrow s)(depositor \<mapsto> n)\<rparr>)))"

definition escrow_balance :: "escrow \<Rightarrow> address \<Rightarrow> int" where
  "escrow_balance s depositor = get0 (esc_Escrow s) depositor"

text \<open>The contract named \<^verbatim>\<open>missing_escrow_auth\<close> does ask for the depositor's authorisation.\<close>

definition mea_deposit :: "env \<Rightarrow> address \<Rightarrow> int \<Rightarrow> escrow \<Rightarrow> escrow result" where
  "mea_deposit e depositor amount s =
     require_auth e depositor (
     arith (checked_add I128 (get0 (esc_Escrow s) depositor) amount) (\<lambda>n.
     Ok (s\<lparr>esc_Escrow := (esc_Escrow s)(depositor \<mapsto> n)\<rparr>)))"

definition mea_withdraw :: "env \<Rightarrow> address \<Rightarrow> int \<Rightarrow> escrow \<Rightarrow> escrow result" where
  "mea_withdraw e depositor amount s =
     require_auth e depositor (
     arith (checked_sub I128 (get0 (esc_Escrow s) depositor) amount) (\<lambda>n.
     Ok (s\<lparr>esc_Escrow := (esc_Escrow s)(depositor \<mapsto> n)\<rparr>)))"

definition mea_balance :: "escrow \<Rightarrow> address \<Rightarrow> int" where
  "mea_balance s depositor = get0 (esc_Escrow s) depositor"

datatype escrow_call =
    EDeposit address int
  | EWithdraw address int

fun escrow_exec :: "env \<Rightarrow> escrow_call \<Rightarrow> escrow \<Rightarrow> escrow result" where
  "escrow_exec e (EDeposit a n) s = escrow_deposit e a n s"
| "escrow_exec e (EWithdraw a n) s = escrow_withdraw e a n s"

fun mea_exec :: "env \<Rightarrow> escrow_call \<Rightarrow> escrow \<Rightarrow> escrow result" where
  "mea_exec e (EDeposit a n) s = mea_deposit e a n s"
| "mea_exec e (EWithdraw a n) s = mea_withdraw e a n s"

fun escrow_owner :: "escrow_call \<Rightarrow> address" where
  "escrow_owner (EDeposit a n) = a"
| "escrow_owner (EWithdraw a n) = a"

lemma mea_is_escrow: "mea_exec = escrow_exec"
proof (intro ext)
  fix e c s
  show "mea_exec e c s = escrow_exec e c s"
    by (cases c) (simp_all add: mea_deposit_def mea_withdraw_def escrow_deposit_def escrow_withdraw_def)
qed

interpretation escrow_entry: guarded_view escrow_exec "\<lambda>s. escrow_balance s a"
    "\<lambda>e c s. authorized e a \<and> escrow_owner c = a"
  for a
proof (unfold_locales, goal_cases)
  case (1 e c s s')
  then show ?case
    by (cases c) (auto simp: escrow_deposit_def escrow_withdraw_def escrow_balance_def result_simps
        split: if_splits)
qed

section \<open>dust\_griefing\<close>

definition MIN_DEPOSIT :: int where "MIN_DEPOSIT = 1000"

record dust_vault = host +
  dst_Balance :: "address \<rightharpoonup> int"

definition dust_get_balance :: "dust_vault \<Rightarrow> address \<Rightarrow> int" where
  "dust_get_balance s user = get0 (dst_Balance s) user"

definition dust_set_balance :: "address \<Rightarrow> int \<Rightarrow> dust_vault \<Rightarrow> dust_vault" where
  "dust_set_balance user amount s = s\<lparr>dst_Balance := (dst_Balance s)(user \<mapsto> amount)\<rparr>"

definition dust_deposit :: "env \<Rightarrow> address \<Rightarrow> int \<Rightarrow> dust_vault \<Rightarrow> dust_vault result" where
  "dust_deposit e user amount s =
     require_auth e user (
     ensure (amount \<ge> MIN_DEPOSIT) ''below minimum deposit'' (
     arith (checked_add I128 (dust_get_balance s user) amount) (\<lambda>n. Ok (dust_set_balance user n s))))"

text \<open>The vulnerable deposit, and its repaired half in the same crate.\<close>

definition vdust_deposit :: "env \<Rightarrow> address \<Rightarrow> int \<Rightarrow> dust_vault \<Rightarrow> dust_vault result" where
  "vdust_deposit e user amount s =
     require_auth e user (
     arith (checked_add I128 (dust_get_balance s user) amount) (\<lambda>n. Ok (dust_set_balance user n s)))"

definition sdust_deposit :: "env \<Rightarrow> address \<Rightarrow> int \<Rightarrow> dust_vault \<Rightarrow> dust_vault result" where
  "sdust_deposit e user amount s =
     require_auth e user (
     ensure (amount \<ge> MIN_DEPOSIT) ''below minimum deposit'' (
     arith (checked_add I128 (dust_get_balance s user) amount) (\<lambda>n. Ok (dust_set_balance user n s))))"

definition dust_balance :: "dust_vault \<Rightarrow> address \<Rightarrow> int" where
  "dust_balance s user = dust_get_balance s user"

definition vdust_balance :: "dust_vault \<Rightarrow> address \<Rightarrow> int" where
  "vdust_balance s user = dust_get_balance s user"

definition sdust_balance :: "dust_vault \<Rightarrow> address \<Rightarrow> int" where
  "sdust_balance s user = dust_get_balance s user"

fun dust_exec :: "env \<Rightarrow> address \<times> int \<Rightarrow> dust_vault \<Rightarrow> dust_vault result" where
  "dust_exec e (a, n) s = dust_deposit e a n s"

fun vdust_exec :: "env \<Rightarrow> address \<times> int \<Rightarrow> dust_vault \<Rightarrow> dust_vault result" where
  "vdust_exec e (a, n) s = vdust_deposit e a n s"

interpretation dust_guard: hardened vdust_exec dust_exec "\<lambda>e c s. MIN_DEPOSIT \<le> snd c"
proof (unfold_locales, goal_cases)
  case (1 e c s s')
  show ?case
    by (cases c) (auto simp: dust_deposit_def vdust_deposit_def result_simps)
qed

lemma sdust_is_dust: "sdust_deposit = dust_deposit"
  by (simp add: fun_eq_iff sdust_deposit_def dust_deposit_def)

text \<open>Every stored entry of the repaired vault holds at least the minimum: storage costs a deposit.\<close>

interpretation no_dust: contract_invariant dust_exec "\<lambda>s. \<forall>a v. dst_Balance s a = Some v \<longrightarrow> MIN_DEPOSIT \<le> v"
proof (unfold_locales, goal_cases)
  case (1 s e c s')
  then have "0 \<le> get0 (dst_Balance s) (fst c)"
    by (fastforce simp: get0_def unwrap_or_def MIN_DEPOSIT_def split: option.splits)
  with 1 show ?case
    by (cases c) (auto simp: dust_deposit_def dust_set_balance_def dust_get_balance_def result_simps
        int_simps split: if_splits)
qed

section \<open>Properties\<close>

text \<open>
  A withdrawal from the sequence lock succeeds exactly when the user signed, has a lock and the
  ledger has reached its sequence number; it empties the balance and removes the lock of that user
  and touches no other.
\<close>

theorem seqlock_withdraw_exact:
  "((\<exists>s'. sl_withdraw e a s = Ok s') \<longleftrightarrow>
       authorized e a \<and> (\<exists>u. sl_unlock_sequence s a = Some u \<and> u \<le> sequence e))
   \<and> (sl_withdraw e a s = Ok s' \<longrightarrow> sl_balance s' = (sl_balance s)(a := 0)
        \<and> sl_unlock_sequence s' = (sl_unlock_sequence s)(a := None))"
  using seq_lock.withdraw_exact [of e a s s'] by (simp add: sl_current_sequence_def)

text \<open>
  Neither lock binds its owner: in every state, whatever unlock time was promised, a deposit of
  zero that names the current ledger as the unlock time, followed by a withdrawal in the same ledger,
  empties the locked balance.
\<close>

theorem lock_bypassed_by_redeposit:
  assumes "authorized e a" and "in_range I128 (sl_balance s a)"
  shows "(\<exists>s1 s2. sl_deposit e a 0 (sequence e) s = Ok s1 \<and> sl_withdraw e a s1 = Ok s2
            \<and> sl_balance s1 a = sl_balance s a \<and> sl_balance s2 a = 0)
    \<and> (\<exists>s1 s2. tl_deposit e a 0 (timestamp e) s = Ok s1 \<and> tl_withdraw e a s1 = Ok s2
            \<and> tl_balance s1 a = tl_balance s a \<and> tl_balance s2 a = 0)"
  using seq_lock.redeposit_unlocks [OF assms] time_lock.redeposit_unlocks [OF assms(1), of s] assms(2)
  by (simp add: sl_current_sequence_def tl_current_timestamp_def sl_balance_def tl_balance_def)

text \<open>
  An escrow entry changes in a run only if the run contains a call for its depositor that the
  depositor signed, and the contract called \<^verbatim>\<open>missing_escrow_auth\<close> runs exactly as the secure escrow.
  The withdrawal itself does not look at the balance: a signed withdrawal of any amount in range
  succeeds and leaves the difference, negative or not.
\<close>

theorem escrow_owner_only_but_overdraws:
  assumes "escrow_balance (run_calls escrow_exec xs s) a \<noteq> escrow_balance s a"
  shows "(\<exists>ys e c zs. xs = ys @ (e, c) # zs \<and> authorized e a \<and> escrow_owner c = a)
    \<and> run_calls mea_exec xs s = run_calls escrow_exec xs s
    \<and> (\<forall>e n. authorized e a \<longrightarrow> in_range I128 (escrow_balance s a - n) \<longrightarrow>
         (\<exists>s'. escrow_withdraw e a n s = Ok s' \<and> escrow_balance s' a = escrow_balance s a - n))"
proof -
  have "\<exists>s'. escrow_withdraw e a n s = Ok s' \<and> escrow_balance s' a = escrow_balance s a - n"
    if "authorized e a" "in_range I128 (escrow_balance s a - n)" for e n
    using that by (simp add: escrow_withdraw_def escrow_balance_def checked_sub_def)
  with escrow_entry.run_view [OF assms] show ?thesis by (auto simp: mea_is_escrow)
qed

text \<open>
  No dust: in every reachable state of the vault with a minimum deposit each stored balance is
  at least \<^verbatim>\<open>MIN_DEPOSIT\<close>, and the vault runs as the vulnerable one does on the deposits that reach the
  minimum.
\<close>

theorem dust_entries_backed:
  assumes "reach dust_exec \<lparr>events = [], dst_Balance = Map.empty\<rparr> s" and "dst_Balance s a = Some v"
  shows "1000 \<le> v
    \<and> run_calls dust_exec xs s
        = run_calls vdust_exec (admitted vdust_exec (\<lambda>e c s. 1000 \<le> snd c) xs s) s"
proof -
  have "\<forall>a v. dst_Balance s a = Some v \<longrightarrow> MIN_DEPOSIT \<le> v"
    by (rule no_dust.reach_inv [OF assms(1)]) simp
  with assms(2) show ?thesis
    using dust_guard.run_admitted [of xs s] by (simp add: MIN_DEPOSIT_def)
qed

section \<open>Concrete states\<close>

definition lock_demo :: lock_state where
  "lock_demo = \<lparr>events = [], lck_Balance = [Address 5 \<mapsto> 100], lck_Unlock = [Address 5 \<mapsto> 1000]\<rparr>"

theorem seqlock_withdraw_exact_witness:
  "(\<nexists>s'. sl_withdraw (signed_env [Address 5] 10) (Address 5) lock_demo = Ok s')
   \<and> (\<exists>s'. sl_withdraw (signed_env [Address 5] 1000) (Address 5) lock_demo = Ok s')"
  using seqlock_withdraw_exact [of "signed_env [Address 5] 10" "Address 5" lock_demo]
    seqlock_withdraw_exact [of "signed_env [Address 5] 1000" "Address 5" lock_demo]
  by (simp add: signed_env_def lock_demo_def sl_unlock_sequence_def)

theorem lock_bypassed_by_redeposit_witness:
  "\<exists>s1 s2. sl_deposit (signed_env [Address 5] 10) (Address 5) 0 10 lock_demo = Ok s1
     \<and> sl_withdraw (signed_env [Address 5] 10) (Address 5) s1 = Ok s2
     \<and> sl_balance s1 (Address 5) = 100 \<and> sl_balance s2 (Address 5) = 0"
  using lock_bypassed_by_redeposit [of "signed_env [Address 5] 10" "Address 5" lock_demo]
  by (simp add: signed_env_def lock_demo_def sl_balance_def in_range_def)

theorem escrow_owner_only_but_overdraws_witness:
  "\<exists>s'. escrow_withdraw (signed_env [Address 5] 9) (Address 5) 70 \<lparr>events = [], esc_Escrow = Map.empty\<rparr>
      = Ok s' \<and> escrow_balance s' (Address 5) = - 70"
proof -
  let ?xs = "[(signed_env [Address 5] 9, EDeposit (Address 5) 7)]"
  let ?s = "\<lparr>events = [], esc_Escrow = Map.empty\<rparr>"
  have "escrow_balance (run_calls escrow_exec ?xs ?s) (Address 5) \<noteq> escrow_balance ?s (Address 5)"
    by (simp add: escrow_deposit_def escrow_balance_def signed_env_def checked_ops in_range_def)
  from escrow_owner_only_but_overdraws [OF this] show ?thesis
    by (simp add: escrow_balance_def signed_env_def in_range_def)
qed

theorem dust_entries_backed_witness:
  "\<exists>s. reach dust_exec \<lparr>events = [], dst_Balance = Map.empty\<rparr> s \<and> dst_Balance s (Address 5) = Some 2500
     \<and> (1000::int) \<le> 2500"
proof -
  let ?s0 = "\<lparr>events = [], dst_Balance = Map.empty\<rparr>"
  obtain s where ok: "dust_exec (signed_env [Address 5] 9) (Address 5, 2500) ?s0 = Ok s"
    and v: "dst_Balance s (Address 5) = Some 2500"
    by (simp add: dust_deposit_def dust_get_balance_def dust_set_balance_def signed_env_def
        MIN_DEPOSIT_def checked_ops in_range_def)
  have r: "reach dust_exec ?s0 s" using ok by (rule reach_one)
  from dust_entries_backed [OF r v] r v show ?thesis by blast
qed

end
