(* ===== verification/Batch_Airdrop.thy ===== *)
theory Batch_Airdrop
  imports Soroban_Containers
begin

text \<open>
  The paginated airdrop (\<^verbatim>\<open>src/secure/paginated_airdrop/src/lib.rs\<close>) beside the unbounded one it
  replaces (\<^verbatim>\<open>src/vulnerable/unbounded_loop/src/lib.rs\<close>); both keep a list of users and a balance per
  user. Shown: a batch is bounded by \<^verbatim>\<open>MAX_BATCH\<close>; following the returned index pays exactly what one
  pass over the whole list pays, each registration once; advancing by \<^verbatim>\<open>count\<close> instead, as a comment
  of the code suggests, skips users when \<^verbatim>\<open>count\<close> is above \<^verbatim>\<open>MAX_BATCH\<close>.
\<close>

definition MAX_BATCH :: int where "MAX_BATCH = 50"

record airdrop_list = host +
  air_Users :: "address list option"
  air_Balance :: "address \<rightharpoonup> int"

definition airdrop_list_empty :: airdrop_list where
  "airdrop_list_empty = \<lparr>events = [], air_Users = None, air_Balance = Map.empty\<rparr>"

abbreviation users_of :: "airdrop_list \<Rightarrow> address list" where
  "users_of s \<equiv> unwrap_or (air_Users s) []"

section \<open>The paginated contract\<close>

definition pag_register :: "env \<Rightarrow> address \<Rightarrow> airdrop_list \<Rightarrow> airdrop_list result" where
  "pag_register e user s = Ok (s\<lparr>air_Users := Some (users_of s @ [user])\<rparr>)"

text \<open>One round of either loop: read the balance, add, write it back.\<close>

definition credit :: "int \<Rightarrow> address \<Rightarrow> (address \<rightharpoonup> int) \<Rightarrow> (address \<rightharpoonup> int) result" where
  "credit amount user b = arith (checked_add I128 (get0 b user) amount) (\<lambda>n. Ok (b(user \<mapsto> n)))"

text \<open>\<^verbatim>\<open>for i in start..end\<close>, as a number of rounds from \<^verbatim>\<open>start\<close>.\<close>

fun pag_loop ::
    "address list \<Rightarrow> int \<Rightarrow> nat \<Rightarrow> int \<Rightarrow> (address \<rightharpoonup> int) \<Rightarrow> (address \<rightharpoonup> int) result" where
  "pag_loop users i 0 amount b = Ok b"
| "pag_loop users i (Suc n) amount b =
     unwrap (vec_get users i) (\<lambda>user.
     and_then (credit amount user b) (pag_loop users (i + 1) n amount))"

definition pag_distribute_batch ::
    "env \<Rightarrow> int \<Rightarrow> int \<Rightarrow> int \<Rightarrow> airdrop_list \<Rightarrow> (int \<times> airdrop_list) result" where
  "pag_distribute_batch e start count amount_per_user s =
     (let batch = min count MAX_BATCH; users = users_of s; n = vec_len users in
      arith (checked_add U32 start batch) (\<lambda>x.
      let end = min x n in
      and_then (pag_loop users start (nat (end - start)) amount_per_user (air_Balance s)) (\<lambda>b.
      Ok (end, s\<lparr>air_Balance := b\<rparr>))))"

definition pag_balance :: "airdrop_list \<Rightarrow> address \<Rightarrow> int" where
  "pag_balance s user = get0 (air_Balance s) user"

definition pag_user_count :: "airdrop_list \<Rightarrow> int" where
  "pag_user_count s = vec_len (users_of s)"

section \<open>The unbounded contract\<close>

definition ub_register :: "env \<Rightarrow> address \<Rightarrow> airdrop_list \<Rightarrow> airdrop_list result" where
  "ub_register e user s = Ok (s\<lparr>air_Users := Some (users_of s @ [user])\<rparr>)"

fun ub_loop :: "int \<Rightarrow> address list \<Rightarrow> (address \<rightharpoonup> int) \<Rightarrow> (address \<rightharpoonup> int) result" where
  "ub_loop amount [] b = Ok b"
| "ub_loop amount (user # users) b = and_then (credit amount user b) (ub_loop amount users)"

definition ub_distribute_all :: "env \<Rightarrow> int \<Rightarrow> airdrop_list \<Rightarrow> airdrop_list result" where
  "ub_distribute_all e amount_per_user s =
     and_then (ub_loop amount_per_user (users_of s) (air_Balance s)) (\<lambda>b.
     Ok (s\<lparr>air_Balance := b\<rparr>))"

definition ub_balance :: "airdrop_list \<Rightarrow> address \<Rightarrow> int" where
  "ub_balance s user = get0 (air_Balance s) user"

definition ub_user_count :: "airdrop_list \<Rightarrow> int" where
  "ub_user_count s = vec_len (users_of s)"

section \<open>Loops\<close>

lemma and_then_assoc: "and_then (and_then r f) g = and_then r (\<lambda>x. and_then (f x) g)"
  by (cases r) auto

lemma ub_loop_append: "ub_loop amt (xs @ ys) b = and_then (ub_loop amt xs b) (ub_loop amt ys)"
proof (induction xs arbitrary: b)
  case (Cons x xs)
  then show ?case by (cases "credit amt x b") auto
qed simp

lemma pag_loop_eq:
  "i + n \<le> length users \<Longrightarrow> pag_loop users (int i) n amt b = ub_loop amt (take n (drop i users)) b"
proof (induction n arbitrary: i b)
  case (Suc n)
  then have i: "i < length users" by simp
  have "pag_loop users (int i + 1) n amt = ub_loop amt (take n (drop (Suc i) users))"
    using Suc.IH [of "Suc i"] Suc.prems by (auto simp: fun_eq_iff add.commute)
  with i show ?case
    by (simp add: vec_get_at Cons_nth_drop_Suc [symmetric])
qed simp

lemma ub_loop_balance:
  "ub_loop amt us b = Ok b' \<Longrightarrow> get0 b' a = get0 b a + amt * int (count_list us a)"
proof (induction us arbitrary: b)
  case (Cons u us)
  then obtain b1 where c: "credit amt u b = Ok b1" and r: "ub_loop amt us b1 = Ok b'"
    by (auto simp: result_simps)
  from Cons.IH [OF r] c show ?case
    by (auto simp: credit_def result_simps int_simps algebra_simps)
qed simp

text \<open>A batch from an index inside the list processes the next \<^verbatim>\<open>min count MAX_BATCH\<close> users.\<close>

lemma pag_batch_eq:
  assumes "i \<le> length (users_of s)" and "0 \<le> count" and "length (users_of s) + 50 < 2 ^ 32"
  shows "pag_distribute_batch e (int i) count amt s =
    (let k = nat (min count 50); us = users_of s in
     and_then (ub_loop amt (take k (drop i us)) (air_Balance s)) (\<lambda>b.
     Ok (int (min (i + k) (length us)), s\<lparr>air_Balance := b\<rparr>)))"
proof -
  let ?us = "users_of s" and ?k = "nat (min count 50)"
  let ?m = "min (i + ?k) (length ?us)"
  have rng: "in_range U32 (int i + min count MAX_BATCH)"
    using assms by (auto simp: in_range_def MAX_BATCH_def)
  have m: "min (int i + min count MAX_BATCH) (vec_len ?us) = int ?m"
    using assms by (simp add: MAX_BATCH_def vec_len_def)
  have "pag_loop ?us (int i) (?m - i) amt b = ub_loop amt (take ?k (drop i ?us)) b" for b
    using assms pag_loop_eq [of i "?m - i" ?us amt b] by (simp add: min_def)
  moreover have "nat (int ?m - int i) = ?m - i"
    by (simp only: nat_diff_distrib' nat_int)
  ultimately show ?thesis
    using rng by (simp add: pag_distribute_batch_def Let_def checked_add_def m)
qed

section \<open>Paging through the list\<close>

text \<open>The caller of the documentation: \<^verbatim>\<open>n\<close> batches, each from the index the previous one returned.\<close>

fun pag_drive ::
    "nat \<Rightarrow> env \<Rightarrow> int \<Rightarrow> int \<Rightarrow> int \<Rightarrow> airdrop_list \<Rightarrow> (int \<times> airdrop_list) result" where
  "pag_drive 0 e start count amount s = Ok (start, s)"
| "pag_drive (Suc n) e start count amount s =
     and_then (pag_distribute_batch e start count amount s) (\<lambda>(next, s').
     pag_drive n e next count amount s')"

lemma pag_drive_eq:
  assumes "0 \<le> count"
  shows "i \<le> length (users_of s) \<Longrightarrow> length (users_of s) + 50 < 2 ^ 32 \<Longrightarrow>
    pag_drive n e (int i) count amt s =
    (let k = nat (min count 50); us = users_of s in
     and_then (ub_loop amt (take (n * k) (drop i us)) (air_Balance s)) (\<lambda>b.
     Ok (int (min (i + n * k) (length us)), s\<lparr>air_Balance := b\<rparr>)))"
proof (induction n arbitrary: i s)
  case 0
  then show ?case by (simp add: Let_def)
next
  case (Suc n)
  let ?us = "users_of s" and ?k = "nat (min count 50)"
  let ?m = "min (i + ?k) (length ?us)"
  have split: "take (Suc n * ?k) (drop i ?us) = take ?k (drop i ?us) @ take (n * ?k) (drop ?m ?us)"
    by (cases "i + ?k \<le> length ?us") (simp_all add: take_add add.commute)
  have idx: "min (?m + n * ?k) (length ?us) = min (i + Suc n * ?k) (length ?us)"
    by (simp add: min_def)
  have "pag_drive (Suc n) e (int i) count amt s =
      and_then (ub_loop amt (take ?k (drop i ?us)) (air_Balance s)) (\<lambda>b.
      pag_drive n e (int ?m) count amt (s\<lparr>air_Balance := b\<rparr>))"
    by (simp add: pag_batch_eq [OF Suc.prems(1) assms Suc.prems(2)] Let_def and_then_assoc
        del: of_nat_min)
  also have "\<dots> = and_then (ub_loop amt (take ?k (drop i ?us)) (air_Balance s)) (\<lambda>b.
      and_then (ub_loop amt (take (n * ?k) (drop ?m ?us)) b) (\<lambda>b'.
      Ok (int (min (?m + n * ?k) (length ?us)), s\<lparr>air_Balance := b'\<rparr>)))"
    using Suc.IH [of ?m "s\<lparr>air_Balance := b\<rparr>" for b] Suc.prems(2)
    by (simp add: Let_def del: of_nat_min)
  finally show ?case
    unfolding Let_def split idx ub_loop_append and_then_assoc .
qed

section \<open>Properties\<close>

text \<open>
  C21: Paging is equivalent to the single unbounded pass: with a positive \<^verbatim>\<open>count\<close>, enough batches from
  index 0, each started at the index the previous one returned, succeed exactly when
  \<^verbatim>\<open>distribute_all\<close> does, with the same final state, and end at the user count; every balance has grown
  by the amount times the number of registrations of its owner.
\<close>

theorem airdrop_batches_equal_one_pass:
  assumes "0 < count" and "length (users_of s) + 50 < 2 ^ 32"
    and "length (users_of s) \<le> n * nat (min count MAX_BATCH)"
  shows "(pag_drive n e 0 count amt s = Ok (next, s') \<longleftrightarrow>
            next = pag_user_count s \<and> ub_distribute_all e amt s = Ok s')
    \<and> (ub_distribute_all e amt s = Ok s' \<longrightarrow>
        (\<forall>a. pag_balance s' a = pag_balance s a + amt * int (count_list (users_of s) a)))"
proof -
  have "pag_drive n e 0 count amt s =
      and_then (ub_loop amt (users_of s) (air_Balance s)) (\<lambda>b.
      Ok (pag_user_count s, s\<lparr>air_Balance := b\<rparr>))"
    using pag_drive_eq [of count 0 s n e amt] assms
    by (simp add: Let_def MAX_BATCH_def pag_user_count_def vec_len_def)
  moreover have "pag_balance s' a = pag_balance s a + amt * int (count_list (users_of s) a)"
    if "ub_distribute_all e amt s = Ok s'" for a
    using that by (auto simp: ub_distribute_all_def result_simps pag_balance_def ub_loop_balance)
  ultimately show ?thesis
    by (auto simp: ub_distribute_all_def result_simps)
qed

text \<open>
  Advancing by \<^verbatim>\<open>count\<close> rather than by the returned index leaves users out as soon as \<^verbatim>\<open>count\<close> exceeds
  \<^verbatim>\<open>MAX_BATCH\<close>: after a batch from 0, everyone from index 50 on is unpaid.
\<close>

lemma airdrop_batch_stops_at_max:
  assumes "50 \<le> count" and "50 \<le> length (users_of s)" and "length (users_of s) + 50 < 2 ^ 32"
    and "pag_distribute_batch e 0 count amt s = Ok (next, s')" and "a \<notin> set (take 50 (users_of s))"
  shows "next = 50 \<and> pag_balance s' a = pag_balance s a"
proof -
  have "pag_distribute_batch e 0 count amt s =
      and_then (ub_loop amt (take 50 (users_of s)) (air_Balance s)) (\<lambda>b. Ok (50, s\<lparr>air_Balance := b\<rparr>))"
    using pag_batch_eq [of 0 s count e amt] assms(1-3) by (simp add: Let_def)
  with assms(4) obtain b where "ub_loop amt (take 50 (users_of s)) (air_Balance s) = Ok b"
    "next = 50" "s' = s\<lparr>air_Balance := b\<rparr>"
    by (auto simp: and_then_Ok)
  with assms(5) show ?thesis
    by (simp add: pag_balance_def ub_loop_balance count_list_0_iff)
qed

section \<open>A concrete distribution\<close>

definition airdrop_demo :: airdrop_list where
  "airdrop_demo = \<lparr>events = [], air_Users = Some [Address 5, Address 6, Address 5], air_Balance = Map.empty\<rparr>"

lemma airdrop_demo_all:
  "ub_distribute_all (signed_env [] 5) 10 airdrop_demo
     = Ok (airdrop_demo\<lparr>air_Balance := [Address 5 \<mapsto> 20, Address 6 \<mapsto> 10]\<rparr>)"
  by (simp add: ub_distribute_all_def airdrop_demo_def credit_def checked_ops in_range_def fun_upd_twist)

theorem airdrop_batches_equal_one_pass_witness:
  "pag_drive 2 (signed_env [] 5) 0 2 10 airdrop_demo
     = Ok (3, airdrop_demo\<lparr>air_Balance := [Address 5 \<mapsto> 20, Address 6 \<mapsto> 10]\<rparr>)"
  using airdrop_batches_equal_one_pass [of 2 airdrop_demo 2 "signed_env [] 5" 10 3
      "airdrop_demo\<lparr>air_Balance := [Address 5 \<mapsto> 20, Address 6 \<mapsto> 10]\<rparr>"] airdrop_demo_all
  by (simp add: airdrop_demo_def MAX_BATCH_def pag_user_count_def vec_len_def)

end
