(* ===== verification/Share_Vaults.thy ===== *)
theory Share_Vaults
  imports Soroban_Prelude
begin

text \<open>
  Pooled vaults that issue shares: the crates \<^verbatim>\<open>empty_vault_share_inflation\<close>, \<^verbatim>\<open>zero_share_rounding\<close>,
  \<^verbatim>\<open>free_share_rounding\<close>, \<^verbatim>\<open>withdraw_rounding_leak\<close> and \<^verbatim>\<open>vault_donation_accounting\<close> under
  \<^verbatim>\<open>src/vulnerable/\<close>, each with the vulnerable contract (\<^verbatim>\<open>lib.rs\<close>) and its repair (\<^verbatim>\<open>secure.rs\<close>). They
  differ in which way a division rounds and in what counts as an asset. Shown: rounding against the
  caller keeps the value of a share from falling, over whole runs; rounding for the caller lets
  shares be had, or assets be taken, for nothing; a virtual offset makes the price attack on an empty
  vault about a thousand times as expensive; a managed counter makes donations irrelevant.
\<close>

record share_vault = host +
  shv_TotalAssets :: "int option"
  shv_TotalShares :: "int option"
  shv_Shares :: "address \<rightharpoonup> int"

text \<open>\<^verbatim>\<open>x * y / z\<close> on \<^verbatim>\<open>i128\<close>.\<close>

definition mul_div :: "int \<Rightarrow> int \<Rightarrow> int \<Rightarrow> (int \<Rightarrow> 'a result) \<Rightarrow> 'a result" where
  "mul_div x y z k = arith (checked_mul I128 x y) (\<lambda>p. arith (checked_div I128 p z) k)"

text \<open>The three writes that end an operation: shares of the user, total assets, total shares.\<close>

definition write_totals :: "address \<Rightarrow> int \<Rightarrow> int \<Rightarrow> int \<Rightarrow> share_vault \<Rightarrow> share_vault" where
  "write_totals user sh ta ts s =
     s\<lparr>shv_TotalAssets := Some ta, shv_TotalShares := Some ts,
       shv_Shares := (shv_Shares s)(user \<mapsto> sh)\<rparr>"

section \<open>empty\_vault\_share\_inflation\<close>

definition ev_total_shares :: "share_vault \<Rightarrow> int" where
  "ev_total_shares s = unwrap_or (shv_TotalShares s) 0"

definition ev_total_assets :: "share_vault \<Rightarrow> int" where
  "ev_total_assets s = unwrap_or (shv_TotalAssets s) 0"

definition ev_shares_of :: "share_vault \<Rightarrow> address \<Rightarrow> int" where
  "ev_shares_of s user = get0 (shv_Shares s) user"

definition ev_deposit :: "env \<Rightarrow> address \<Rightarrow> int \<Rightarrow> share_vault \<Rightarrow> share_vault result" where
  "ev_deposit e actor amount s =
     require_auth e actor (
     ensure (amount > 0) ''amount must be positive'' (
     let ts = ev_total_shares s; ta = ev_total_assets s in
     and_then (if ts = 0 then Ok amount else mul_div amount ts ta Ok) (\<lambda>new_shares.
     ensure (new_shares > 0) ''zero shares minted'' (
     arith (checked_add I128 ts new_shares) (\<lambda>ts'.
     arith (checked_add I128 ta amount) (\<lambda>ta'.
     arith (checked_add I128 (ev_shares_of s actor) new_shares) (\<lambda>sh.
     Ok (write_totals actor sh ta' ts' s))))))))"

definition ev_donate :: "env \<Rightarrow> int \<Rightarrow> share_vault \<Rightarrow> share_vault result" where
  "ev_donate e amount s =
     ensure (amount > 0) ''assertion failed: amount > 0'' (
     arith (checked_add I128 (ev_total_assets s) amount) (\<lambda>ta.
     Ok (s\<lparr>shv_TotalAssets := Some ta\<rparr>)))"

definition ev_shares_of_view :: "share_vault \<Rightarrow> address \<Rightarrow> int" where
  "ev_shares_of_view s user = ev_shares_of s user"

definition ev_total_shares_view :: "share_vault \<Rightarrow> int" where
  "ev_total_shares_view s = ev_total_shares s"

definition ev_total_assets_view :: "share_vault \<Rightarrow> int" where
  "ev_total_assets_view s = ev_total_assets s"

definition VIRTUAL_OFFSET :: int where "VIRTUAL_OFFSET = 1000"

definition evs_deposit :: "env \<Rightarrow> address \<Rightarrow> int \<Rightarrow> share_vault \<Rightarrow> share_vault result" where
  "evs_deposit e actor amount s =
     require_auth e actor (
     ensure (amount > 0) ''amount must be positive'' (
     let ts = ev_total_shares s; ta = ev_total_assets s in
     arith (checked_add I128 ts VIRTUAL_OFFSET) (\<lambda>vs.
     arith (checked_mul I128 amount vs) (\<lambda>p.
     arith (checked_add I128 ta VIRTUAL_OFFSET) (\<lambda>va.
     arith (checked_div I128 p va) (\<lambda>new_shares.
     ensure (new_shares > 0) ''zero shares minted'' (
     arith (checked_add I128 ts new_shares) (\<lambda>ts'.
     arith (checked_add I128 ta amount) (\<lambda>ta'.
     arith (checked_add I128 (ev_shares_of s actor) new_shares) (\<lambda>sh.
     Ok (write_totals actor sh ta' ts' s)))))))))))"

definition evs_donate :: "env \<Rightarrow> int \<Rightarrow> share_vault \<Rightarrow> share_vault result" where
  "evs_donate e amount s =
     ensure (amount > 0) ''assertion failed: amount > 0'' (
     arith (checked_add I128 (ev_total_assets s) amount) (\<lambda>ta.
     Ok (s\<lparr>shv_TotalAssets := Some ta\<rparr>)))"

definition evs_shares_of_view :: "share_vault \<Rightarrow> address \<Rightarrow> int" where
  "evs_shares_of_view s user = ev_shares_of s user"

definition evs_total_shares_view :: "share_vault \<Rightarrow> int" where
  "evs_total_shares_view s = ev_total_shares s"

definition evs_total_assets_view :: "share_vault \<Rightarrow> int" where
  "evs_total_assets_view s = ev_total_assets s"

section \<open>zero\_share\_rounding\<close>

definition zs_initialize :: "env \<Rightarrow> int \<Rightarrow> int \<Rightarrow> share_vault \<Rightarrow> share_vault result" where
  "zs_initialize e seed_assets seed_shares s =
     ensure (seed_assets > 0 \<and> seed_shares > 0) ''seed must be positive'' (
     panic_if (shv_TotalAssets s \<noteq> None) ''already initialized'' (
     Ok (s\<lparr>shv_TotalAssets := Some seed_assets, shv_TotalShares := Some seed_shares\<rparr>)))"

definition zs_deposit :: "env \<Rightarrow> address \<Rightarrow> int \<Rightarrow> share_vault \<Rightarrow> share_vault result" where
  "zs_deposit e user amount s =
     require_auth e user (
     ensure (amount > 0) ''amount must be positive'' (
     let total_assets = unwrap_or (shv_TotalAssets s) 1;
         total_shares = unwrap_or (shv_TotalShares s) 1 in
     mul_div amount total_shares total_assets (\<lambda>shares_minted.
     let current = get0 (shv_Shares s) user in
     arith (checked_add I128 current shares_minted) (\<lambda>sh.
     arith (checked_add I128 total_assets amount) (\<lambda>ta.
     arith (checked_add I128 total_shares shares_minted) (\<lambda>ts.
     Ok (write_totals user sh ta ts s)))))))"

definition zs_shares_of :: "share_vault \<Rightarrow> address \<Rightarrow> int" where
  "zs_shares_of s user = get0 (shv_Shares s) user"

definition zs_total_shares :: "share_vault \<Rightarrow> int" where
  "zs_total_shares s = unwrap_or (shv_TotalShares s) 0"

definition zs_total_assets :: "share_vault \<Rightarrow> int" where
  "zs_total_assets s = unwrap_or (shv_TotalAssets s) 0"

definition zss_initialize :: "env \<Rightarrow> int \<Rightarrow> int \<Rightarrow> share_vault \<Rightarrow> share_vault result" where
  "zss_initialize e seed_assets seed_shares s =
     ensure (seed_assets > 0 \<and> seed_shares > 0) ''seed must be positive'' (
     panic_if (shv_TotalAssets s \<noteq> None) ''already initialized'' (
     Ok (s\<lparr>shv_TotalAssets := Some seed_assets, shv_TotalShares := Some seed_shares\<rparr>)))"

definition zss_deposit :: "env \<Rightarrow> address \<Rightarrow> int \<Rightarrow> share_vault \<Rightarrow> share_vault result" where
  "zss_deposit e user amount s =
     require_auth e user (
     ensure (amount > 0) ''amount must be positive'' (
     let total_assets = unwrap_or (shv_TotalAssets s) 1;
         total_shares = unwrap_or (shv_TotalShares s) 1 in
     mul_div amount total_shares total_assets (\<lambda>shares_minted.
     ensure (shares_minted > 0) ''deposit mints zero shares'' (
     let current = get0 (shv_Shares s) user in
     arith (checked_add I128 current shares_minted) (\<lambda>sh.
     arith (checked_add I128 total_assets amount) (\<lambda>ta.
     arith (checked_add I128 total_shares shares_minted) (\<lambda>ts.
     Ok (write_totals user sh ta ts s))))))))"

definition zss_shares_of :: "share_vault \<Rightarrow> address \<Rightarrow> int" where
  "zss_shares_of s user = get0 (shv_Shares s) user"

definition zss_total_shares :: "share_vault \<Rightarrow> int" where
  "zss_total_shares s = unwrap_or (shv_TotalShares s) 0"

definition zss_total_assets :: "share_vault \<Rightarrow> int" where
  "zss_total_assets s = unwrap_or (shv_TotalAssets s) 0"

section \<open>free\_share\_rounding\<close>

definition fs_initialize :: "env \<Rightarrow> int \<Rightarrow> int \<Rightarrow> share_vault \<Rightarrow> share_vault result" where
  "fs_initialize e seed_assets seed_shares s =
     ensure (seed_assets > 0 \<and> seed_shares > 0) ''seed must be positive'' (
     panic_if (shv_TotalAssets s \<noteq> None) ''already initialized'' (
     Ok (s\<lparr>shv_TotalAssets := Some seed_assets, shv_TotalShares := Some seed_shares\<rparr>)))"

definition fs_mint :: "env \<Rightarrow> address \<Rightarrow> int \<Rightarrow> share_vault \<Rightarrow> share_vault result" where
  "fs_mint e user shares s =
     require_auth e user (
     ensure (shares > 0) ''shares must be positive'' (
     let total_assets = unwrap_or (shv_TotalAssets s) 1;
         total_shares = unwrap_or (shv_TotalShares s) 1 in
     mul_div shares total_assets total_shares (\<lambda>required_assets.
     let current = get0 (shv_Shares s) user in
     arith (checked_add I128 current shares) (\<lambda>sh.
     arith (checked_add I128 total_assets required_assets) (\<lambda>ta.
     arith (checked_add I128 total_shares shares) (\<lambda>ts.
     Ok (write_totals user sh ta ts s)))))))"

definition fs_shares_of :: "share_vault \<Rightarrow> address \<Rightarrow> int" where
  "fs_shares_of s user = get0 (shv_Shares s) user"

definition fs_total_shares :: "share_vault \<Rightarrow> int" where
  "fs_total_shares s = unwrap_or (shv_TotalShares s) 0"

definition fs_total_assets :: "share_vault \<Rightarrow> int" where
  "fs_total_assets s = unwrap_or (shv_TotalAssets s) 0"

definition fss_initialize :: "env \<Rightarrow> int \<Rightarrow> int \<Rightarrow> share_vault \<Rightarrow> share_vault result" where
  "fss_initialize e seed_assets seed_shares s =
     ensure (seed_assets > 0 \<and> seed_shares > 0) ''seed must be positive'' (
     panic_if (shv_TotalAssets s \<noteq> None) ''already initialized'' (
     Ok (s\<lparr>shv_TotalAssets := Some seed_assets, shv_TotalShares := Some seed_shares\<rparr>)))"

definition fss_mint :: "env \<Rightarrow> address \<Rightarrow> int \<Rightarrow> share_vault \<Rightarrow> share_vault result" where
  "fss_mint e user shares s =
     require_auth e user (
     ensure (shares > 0) ''shares must be positive'' (
     let total_assets = unwrap_or (shv_TotalAssets s) 1;
         total_shares = unwrap_or (shv_TotalShares s) 1 in
     arith (checked_mul I128 shares total_assets) (\<lambda>numerator.
     arith (checked_add I128 numerator total_shares) (\<lambda>n1.
     arith (checked_sub I128 n1 1) (\<lambda>n2.
     arith (checked_div I128 n2 total_shares) (\<lambda>required_assets.
     let current = get0 (shv_Shares s) user in
     arith (checked_add I128 current shares) (\<lambda>sh.
     arith (checked_add I128 total_assets required_assets) (\<lambda>ta.
     arith (checked_add I128 total_shares shares) (\<lambda>ts.
     Ok (write_totals user sh ta ts s))))))))))"

definition fss_shares_of :: "share_vault \<Rightarrow> address \<Rightarrow> int" where
  "fss_shares_of s user = get0 (shv_Shares s) user"

definition fss_total_shares :: "share_vault \<Rightarrow> int" where
  "fss_total_shares s = unwrap_or (shv_TotalShares s) 0"

definition fss_total_assets :: "share_vault \<Rightarrow> int" where
  "fss_total_assets s = unwrap_or (shv_TotalAssets s) 0"

section \<open>withdraw\_rounding\_leak\<close>

definition wr_initialize :: "env \<Rightarrow> int \<Rightarrow> int \<Rightarrow> share_vault \<Rightarrow> share_vault result" where
  "wr_initialize e seed_assets seed_shares s =
     ensure (seed_assets > 0 \<and> seed_shares > 0) ''seed must be positive'' (
     panic_if (shv_TotalAssets s \<noteq> None) ''already initialized'' (
     Ok (s\<lparr>shv_TotalAssets := Some seed_assets, shv_TotalShares := Some seed_shares\<rparr>)))"

definition wr_seed_shares :: "env \<Rightarrow> address \<Rightarrow> int \<Rightarrow> share_vault \<Rightarrow> share_vault result" where
  "wr_seed_shares e user shares s = Ok (s\<lparr>shv_Shares := (shv_Shares s)(user \<mapsto> shares)\<rparr>)"

definition wr_withdraw :: "env \<Rightarrow> address \<Rightarrow> int \<Rightarrow> share_vault \<Rightarrow> share_vault result" where
  "wr_withdraw e user assets s =
     require_auth e user (
     ensure (assets > 0) ''assets must be positive'' (
     let total_assets = unwrap_or (shv_TotalAssets s) 1;
         total_shares = unwrap_or (shv_TotalShares s) 1 in
     mul_div assets total_shares total_assets (\<lambda>shares_to_burn.
     let current = get0 (shv_Shares s) user in
     ensure (current \<ge> shares_to_burn) ''insufficient shares'' (
     arith (checked_sub I128 current shares_to_burn) (\<lambda>sh.
     arith (checked_sub I128 total_assets assets) (\<lambda>ta.
     arith (checked_sub I128 total_shares shares_to_burn) (\<lambda>ts.
     Ok (write_totals user sh ta ts s))))))))"

definition wr_shares_of :: "share_vault \<Rightarrow> address \<Rightarrow> int" where
  "wr_shares_of s user = get0 (shv_Shares s) user"

definition wr_total_shares :: "share_vault \<Rightarrow> int" where
  "wr_total_shares s = unwrap_or (shv_TotalShares s) 0"

definition wr_total_assets :: "share_vault \<Rightarrow> int" where
  "wr_total_assets s = unwrap_or (shv_TotalAssets s) 0"

definition wrs_initialize :: "env \<Rightarrow> int \<Rightarrow> int \<Rightarrow> share_vault \<Rightarrow> share_vault result" where
  "wrs_initialize e seed_assets seed_shares s =
     ensure (seed_assets > 0 \<and> seed_shares > 0) ''seed must be positive'' (
     panic_if (shv_TotalAssets s \<noteq> None) ''already initialized'' (
     Ok (s\<lparr>shv_TotalAssets := Some seed_assets, shv_TotalShares := Some seed_shares\<rparr>)))"

definition wrs_seed_shares :: "env \<Rightarrow> address \<Rightarrow> int \<Rightarrow> share_vault \<Rightarrow> share_vault result" where
  "wrs_seed_shares e user shares s = Ok (s\<lparr>shv_Shares := (shv_Shares s)(user \<mapsto> shares)\<rparr>)"

definition wrs_withdraw :: "env \<Rightarrow> address \<Rightarrow> int \<Rightarrow> share_vault \<Rightarrow> share_vault result" where
  "wrs_withdraw e user assets s =
     require_auth e user (
     ensure (assets > 0) ''assets must be positive'' (
     let total_assets = unwrap_or (shv_TotalAssets s) 1;
         total_shares = unwrap_or (shv_TotalShares s) 1 in
     arith (checked_mul I128 assets total_shares) (\<lambda>p.
     arith (checked_add I128 p total_assets) (\<lambda>p1.
     arith (checked_sub I128 p1 1) (\<lambda>p2.
     arith (checked_div I128 p2 total_assets) (\<lambda>shares_to_burn.
     ensure (shares_to_burn > 0) ''withdrawal burns zero shares'' (
     let current = get0 (shv_Shares s) user in
     ensure (current \<ge> shares_to_burn) ''insufficient shares'' (
     arith (checked_sub I128 current shares_to_burn) (\<lambda>sh.
     arith (checked_sub I128 total_assets assets) (\<lambda>ta.
     arith (checked_sub I128 total_shares shares_to_burn) (\<lambda>ts.
     Ok (write_totals user sh ta ts s))))))))))))"

definition wrs_shares_of :: "share_vault \<Rightarrow> address \<Rightarrow> int" where
  "wrs_shares_of s user = get0 (shv_Shares s) user"

definition wrs_total_shares :: "share_vault \<Rightarrow> int" where
  "wrs_total_shares s = unwrap_or (shv_TotalShares s) 0"

definition wrs_total_assets :: "share_vault \<Rightarrow> int" where
  "wrs_total_assets s = unwrap_or (shv_TotalAssets s) 0"

section \<open>vault\_donation\_accounting\<close>

record donation_vault = host +
  dv_LiveBalance :: "int option"
  dv_ManagedAssets :: "int option"
  dv_TotalShares :: "int option"
  dv_Shares :: "address \<rightharpoonup> int"

definition dv_live_balance :: "donation_vault \<Rightarrow> int" where
  "dv_live_balance s = unwrap_or (dv_LiveBalance s) 0"

definition dv_total_shares :: "donation_vault \<Rightarrow> int" where
  "dv_total_shares s = unwrap_or (dv_TotalShares s) 0"

definition dv_shares_of :: "donation_vault \<Rightarrow> address \<Rightarrow> int" where
  "dv_shares_of s user = get0 (dv_Shares s) user"

definition dv_deposit :: "env \<Rightarrow> address \<Rightarrow> int \<Rightarrow> donation_vault \<Rightarrow> donation_vault result" where
  "dv_deposit e actor amount s =
     require_auth e actor (
     ensure (amount > 0) ''amount must be positive'' (
     let ts = dv_total_shares s; ta = dv_live_balance s in
     and_then (if ts = 0 then Ok amount else mul_div amount ts ta Ok) (\<lambda>new_shares.
     ensure (new_shares > 0) ''zero shares minted'' (
     arith (checked_add I128 ta amount) (\<lambda>ta'.
     arith (checked_add I128 ts new_shares) (\<lambda>ts'.
     arith (checked_add I128 (dv_shares_of s actor) new_shares) (\<lambda>sh.
     Ok (s\<lparr>dv_LiveBalance := Some ta', dv_TotalShares := Some ts',
          dv_Shares := (dv_Shares s)(actor \<mapsto> sh)\<rparr>))))))))"

definition dv_donate :: "env \<Rightarrow> int \<Rightarrow> donation_vault \<Rightarrow> donation_vault result" where
  "dv_donate e amount s =
     ensure (amount > 0) ''assertion failed: amount > 0'' (
     arith (checked_add I128 (dv_live_balance s) amount) (\<lambda>b.
     Ok (s\<lparr>dv_LiveBalance := Some b\<rparr>)))"

definition dv_shares_of_view :: "donation_vault \<Rightarrow> address \<Rightarrow> int" where
  "dv_shares_of_view s user = dv_shares_of s user"

definition dv_total_shares_view :: "donation_vault \<Rightarrow> int" where
  "dv_total_shares_view s = dv_total_shares s"

definition dv_total_assets_view :: "donation_vault \<Rightarrow> int" where
  "dv_total_assets_view s = dv_live_balance s"

definition dvs_managed_assets :: "donation_vault \<Rightarrow> int" where
  "dvs_managed_assets s = unwrap_or (dv_ManagedAssets s) 0"

definition dvs_deposit :: "env \<Rightarrow> address \<Rightarrow> int \<Rightarrow> donation_vault \<Rightarrow> donation_vault result" where
  "dvs_deposit e actor amount s =
     require_auth e actor (
     ensure (amount > 0) ''amount must be positive'' (
     let ts = dv_total_shares s; ta = dvs_managed_assets s in
     and_then (if ts = 0 then Ok amount else mul_div amount ts ta Ok) (\<lambda>new_shares.
     ensure (new_shares > 0) ''zero shares minted'' (
     arith (checked_add I128 ta amount) (\<lambda>ta'.
     arith (checked_add I128 ts new_shares) (\<lambda>ts'.
     arith (checked_add I128 (dv_shares_of s actor) new_shares) (\<lambda>sh.
     Ok (s\<lparr>dv_ManagedAssets := Some ta', dv_TotalShares := Some ts',
          dv_Shares := (dv_Shares s)(actor \<mapsto> sh)\<rparr>))))))))"

definition dvs_donate :: "env \<Rightarrow> int \<Rightarrow> donation_vault \<Rightarrow> donation_vault result" where
  "dvs_donate e amount s = ensure (amount > 0) ''assertion failed: amount > 0'' (Ok s)"

definition dvs_shares_of_view :: "donation_vault \<Rightarrow> address \<Rightarrow> int" where
  "dvs_shares_of_view s user = dv_shares_of s user"

definition dvs_total_shares_view :: "donation_vault \<Rightarrow> int" where
  "dvs_total_shares_view s = dv_total_shares s"

definition dvs_managed_assets_view :: "donation_vault \<Rightarrow> int" where
  "dvs_managed_assets_view s = dvs_managed_assets s"

datatype donation_call =
    DDeposit address int
  | DDonate int

fun dv_exec :: "env \<Rightarrow> donation_call \<Rightarrow> donation_vault \<Rightarrow> donation_vault result" where
  "dv_exec e (DDeposit a n) s = dv_deposit e a n s"
| "dv_exec e (DDonate n) s = dv_donate e n s"

fun dvs_exec :: "env \<Rightarrow> donation_call \<Rightarrow> donation_vault \<Rightarrow> donation_vault result" where
  "dvs_exec e (DDeposit a n) s = dvs_deposit e a n s"
| "dvs_exec e (DDonate n) s = dvs_donate e n s"

fun is_deposit :: "donation_call \<Rightarrow> bool" where
  "is_deposit (DDeposit a n) \<longleftrightarrow> True"
| "is_deposit (DDonate n) \<longleftrightarrow> False"

section \<open>The value of a share\<close>

abbreviation assets_of :: "share_vault \<Rightarrow> int" where
  "assets_of s \<equiv> unwrap_or (shv_TotalAssets s) 1"

abbreviation supply_of :: "share_vault \<Rightarrow> int" where
  "supply_of s \<equiv> unwrap_or (shv_TotalShares s) 1"

definition funded :: "share_vault \<Rightarrow> bool" where
  "funded s \<longleftrightarrow> shv_TotalAssets s \<noteq> None \<and> 0 < assets_of s \<and> 0 < supply_of s"

text \<open>Assets per share did not fall, written without a division.\<close>

definition price_le :: "share_vault \<Rightarrow> share_vault \<Rightarrow> bool" where
  "price_le s t \<longleftrightarrow> (funded s \<longrightarrow> funded t \<and> assets_of s * supply_of t \<le> assets_of t * supply_of s)"

lemma ratio_trans:
  assumes "(a::int) * y \<le> b * x" and "b * z \<le> c * y" and "0 < y" and "0 < z" and "0 < x"
  shows "a * z \<le> c * x"
proof -
  have "a * y * z \<le> b * x * z" using assms(1,4) by (simp add: mult_right_mono)
  also have "\<dots> = b * z * x" by simp
  also have "\<dots> \<le> c * y * x" using assms(2,5) by (simp add: mult_right_mono)
  finally have "a * z * y \<le> c * x * y" by (simp add: algebra_simps)
  with assms(3) show ?thesis by simp
qed

lemma price_le_refl: "price_le s s"
  by (simp add: price_le_def)

lemma price_le_trans: "price_le s t \<Longrightarrow> price_le t u \<Longrightarrow> price_le s u"
  by (auto simp: price_le_def funded_def intro: ratio_trans)

text \<open>Rounding: a quotient taken down or up, against the caller either way.\<close>

lemma floor_bound: "0 < (z::int) \<Longrightarrow> 0 \<le> p \<Longrightarrow> (p sdiv z) * z \<le> p \<and> 0 \<le> p sdiv z"
  by (simp add: sdiv_nonneg_eq pos_imp_zdiv_nonneg_iff) (metis minus_mod_eq_div_mult pos_mod_sign diff_ge_0_iff_ge minus_div_mult_eq_mod)

lemma ceil_bound:
  assumes "0 < (z::int)" and "0 < p"
  shows "p \<le> ((p + z - 1) sdiv z) * z \<and> 0 < (p + z - 1) sdiv z"
proof -
  let ?q = "(p + z - 1) div z"
  have eq: "?q * z + (p + z - 1) mod z = p + z - 1" by simp
  have "(p + z - 1) mod z \<le> z - 1" using assms(1) by (simp add: zle_diff1_eq)
  with eq have "p \<le> ?q * z" by linarith
  moreover from this assms have "0 < ?q" by (smt (verit) mult_nonpos_nonneg)
  moreover have "(p + z - 1) sdiv z = ?q" using assms by (intro sdiv_nonneg_eq) auto
  ultimately show ?thesis by simp
qed

lemma mul_div_Ok [result_simps]:
  "mul_div x y z k = Ok r \<longleftrightarrow>
     in_range I128 (x * y) \<and> z \<noteq> 0 \<and> in_range I128 (x * y sdiv z) \<and> k (x * y sdiv z) = Ok r"
  by (auto simp: mul_div_def result_simps int_simps split: if_splits)

lemma write_totals_simps [simp]:
  "assets_of (write_totals u sh ta ts s) = ta" "supply_of (write_totals u sh ta ts s) = ts"
  "shv_TotalAssets (write_totals u sh ta ts s) \<noteq> None"
  "ev_shares_of (write_totals u sh ta ts s) v = (if v = u then sh else ev_shares_of s v)"
  by (auto simp: write_totals_def ev_shares_of_def)

section \<open>Effects\<close>

lemma fss_mint_effect:
  assumes "fss_mint e u k s = Ok s'"
  shows "\<exists>n. n = (k * assets_of s + supply_of s - 1) sdiv supply_of s \<and> authorized e u \<and> 0 < k
    \<and> assets_of s' = assets_of s + n \<and> supply_of s' = supply_of s + k
    \<and> shv_TotalAssets s' \<noteq> None \<and> ev_shares_of s' u = ev_shares_of s u + k"
  using assms
  by (auto simp: fss_mint_def result_simps int_simps Let_def ev_shares_of_def write_totals_def split: if_splits)

lemma fs_mint_effect:
  assumes "fs_mint e u k s = Ok s'"
  shows "authorized e u \<and> assets_of s' = assets_of s + k * assets_of s sdiv supply_of s
    \<and> supply_of s' = supply_of s + k \<and> ev_shares_of s' u = ev_shares_of s u + k"
  using assms
  by (auto simp: fs_mint_def result_simps int_simps Let_def ev_shares_of_def write_totals_def split: if_splits)

lemma zs_deposit_effect:
  assumes "zs_deposit e u n s = Ok s'"
  shows "\<exists>m. m = n * supply_of s sdiv assets_of s \<and> 0 < n
    \<and> assets_of s' = assets_of s + n \<and> supply_of s' = supply_of s + m
    \<and> shv_TotalAssets s' \<noteq> None \<and> ev_shares_of s' u = ev_shares_of s u + m"
  using assms
  by (auto simp: zs_deposit_def result_simps int_simps Let_def ev_shares_of_def write_totals_def split: if_splits)

lemma wrs_withdraw_effect:
  assumes "wrs_withdraw e u n s = Ok s'"
  shows "\<exists>b. b = (n * supply_of s + assets_of s - 1) sdiv assets_of s \<and> 0 < n \<and> 0 < b
    \<and> b \<le> ev_shares_of s u \<and> assets_of s' = assets_of s - n \<and> supply_of s' = supply_of s - b
    \<and> ev_shares_of s' u = ev_shares_of s u - b"
  using assms
  by (auto simp: wrs_withdraw_def result_simps int_simps Let_def ev_shares_of_def write_totals_def split: if_splits)

lemma zss_is_guarded:
  "zss_deposit e u n s = Ok s' \<longleftrightarrow>
     zs_deposit e u n s = Ok s' \<and> 0 < n * supply_of s sdiv assets_of s"
  by (auto simp: zss_deposit_def zs_deposit_def result_simps Let_def)

section \<open>Runs\<close>

datatype mint_shares_call =
    FInitialize int int
  | FMint address int

datatype deposit_call =
    ZInitialize int int
  | ZDeposit address int

fun fss_exec :: "env \<Rightarrow> mint_shares_call \<Rightarrow> share_vault \<Rightarrow> share_vault result" where
  "fss_exec e (FInitialize a n) s = fss_initialize e a n s"
| "fss_exec e (FMint u k) s = fss_mint e u k s"

fun zs_exec :: "env \<Rightarrow> deposit_call \<Rightarrow> share_vault \<Rightarrow> share_vault result" where
  "zs_exec e (ZInitialize a n) s = zs_initialize e a n s"
| "zs_exec e (ZDeposit u n) s = zs_deposit e u n s"

fun zss_exec :: "env \<Rightarrow> deposit_call \<Rightarrow> share_vault \<Rightarrow> share_vault result" where
  "zss_exec e (ZInitialize a n) s = zss_initialize e a n s"
| "zss_exec e (ZDeposit u n) s = zss_deposit e u n s"

fun mints_shares :: "env \<Rightarrow> deposit_call \<Rightarrow> share_vault \<Rightarrow> bool" where
  "mints_shares e (ZDeposit u n) s \<longleftrightarrow> 0 < n * supply_of s sdiv assets_of s"
| "mints_shares e (ZInitialize a n) s \<longleftrightarrow> True"

interpretation zero_share_guard: hardened zs_exec zss_exec mints_shares
proof (unfold_locales, goal_cases)
  case (1 e c s s')
  show ?case
    by (cases c) (auto simp: zss_is_guarded zs_initialize_def zss_initialize_def)
qed

lemma price_up:
  assumes "funded s" and "shv_TotalAssets t \<noteq> None" and "0 \<le> m" and "0 \<le> n"
    and "m * assets_of s \<le> n * supply_of s"
    and "assets_of t = assets_of s + n" and "supply_of t = supply_of s + m"
  shows "price_le s t"
  using assms by (simp add: price_le_def funded_def algebra_simps)

lemma fss_mint_price: "fss_mint e u k s = Ok t \<Longrightarrow> price_le s t"
proof (cases "funded s")
  case True
  assume "fss_mint e u k s = Ok t"
  from fss_mint_effect [OF this] obtain n where n: "n = (k * assets_of s + supply_of s - 1) sdiv supply_of s"
    and eff: "0 < k" "assets_of t = assets_of s + n" "supply_of t = supply_of s + k" "shv_TotalAssets t \<noteq> None"
    by blast
  from True have pos: "0 < assets_of s" "0 < supply_of s" by (auto simp: funded_def)
  from ceil_bound [OF pos(2), of "k * assets_of s"] pos eff(1)
  have "k * assets_of s \<le> n * supply_of s" "0 < n" by (simp_all add: n)
  with eff True show ?thesis by (intro price_up [of s t k n]) auto
qed (simp add: price_le_def)

lemma zs_deposit_price: "zs_deposit e u n s = Ok t \<Longrightarrow> price_le s t"
proof (cases "funded s")
  case True
  assume "zs_deposit e u n s = Ok t"
  from zs_deposit_effect [OF this] obtain m where m: "m = n * supply_of s sdiv assets_of s"
    and eff: "0 < n" "assets_of t = assets_of s + n" "supply_of t = supply_of s + m" "shv_TotalAssets t \<noteq> None"
    by blast
  from True have pos: "0 < assets_of s" "0 < supply_of s" by (auto simp: funded_def)
  from floor_bound [OF pos(1), of "n * supply_of s"] pos eff(1)
  have "m * assets_of s \<le> n * supply_of s" "0 \<le> m" by (simp_all add: m)
  with eff True show ?thesis by (intro price_up [of s t m n]) auto
qed (simp add: price_le_def)

lemma initialize_price:
  "zs_initialize e a n s = Ok t \<Longrightarrow> price_le s t" "fss_initialize e a n s = Ok t \<Longrightarrow> price_le s t"
  by (auto simp: zs_initialize_def fss_initialize_def result_simps price_le_def funded_def)

interpretation fss_price: contract_progress fss_exec price_le
proof (unfold_locales, goal_cases)
  case (3 e c s s')
  then show ?case by (cases c) (auto intro: initialize_price fss_mint_price)
qed (auto intro: price_le_refl price_le_trans)

interpretation zs_price: contract_progress zs_exec price_le
proof (unfold_locales, goal_cases)
  case (3 e c s s')
  then show ?case by (cases c) (auto intro: initialize_price zs_deposit_price)
qed (auto intro: price_le_refl price_le_trans)

text \<open>Donations to the repaired vault leave no trace.\<close>

lemma dvs_drop_donations:
  "run_calls dvs_exec xs s = run_calls dvs_exec (filter (is_deposit \<circ> snd) xs) s"
proof (induction xs arbitrary: s)
  case (Cons x xs)
  obtain e c where x: "x = (e, c)" by force
  show ?case
  proof (cases c)
    case (DDonate n)
    then have "commit s (dvs_exec e c s) = s" by (cases "n > 0") (simp_all add: dvs_donate_def)
    with Cons DDonate x show ?thesis by simp
  qed (use Cons x in simp)
qed simp

section \<open>Properties\<close>

text \<open>
  C25: In the vaults that round against the caller the value of a share never falls: over any run
  from a funded state, of the repaired mint of \<^verbatim>\<open>free_share_rounding\<close> and of both deposits of
  \<^verbatim>\<open>zero_share_rounding\<close>, assets and shares stay positive and assets per share do not decrease.
\<close>

theorem share_value_never_falls:
  assumes "funded s"
    and "t = run_calls fss_exec xs s \<or> t = run_calls zs_exec ys s \<or> t = run_calls zss_exec ys s"
  shows "funded t \<and> assets_of s * supply_of t \<le> assets_of t * supply_of s"
proof -
  have "price_le s t"
    using assms(2) fss_price.run_le zs_price.run_le by (auto simp: zero_share_guard.run_admitted)
  with assms(1) show ?thesis by (simp add: price_le_def)
qed

text \<open>
  A withdrawal from the repaired vault of \<^verbatim>\<open>withdraw_rounding_leak\<close> burns at least one share and at
  least the proportional amount, all of it the user's own. In the vulnerable vault a request small
  enough to round to zero is paid to anyone who signs, without any shares.
\<close>

theorem withdraw_rounding_repaired:
  assumes "funded s"
  shows "(wrs_withdraw e u n s = Ok s' \<longrightarrow>
      (\<exists>b. 1 \<le> b \<and> n * supply_of s \<le> b * assets_of s \<and> b \<le> ev_shares_of s u
         \<and> ev_shares_of s' u = ev_shares_of s u - b \<and> assets_of s' = assets_of s - n))
    \<and> (authorized e u \<and> 0 < n \<and> n * supply_of s < assets_of s \<and> ev_shares_of s u = 0
         \<and> in_range I128 (assets_of s) \<and> in_range I128 (supply_of s) \<longrightarrow>
       (\<exists>s2. wr_withdraw e u n s = Ok s2 \<and> assets_of s2 = assets_of s - n
          \<and> ev_shares_of s2 u = 0 \<and> supply_of s2 = supply_of s))"
proof -
  have pos: "0 < assets_of s" "0 < supply_of s" using assms by (auto simp: funded_def)
  have "\<exists>b. 1 \<le> b \<and> n * supply_of s \<le> b * assets_of s \<and> b \<le> ev_shares_of s u
         \<and> ev_shares_of s' u = ev_shares_of s u - b \<and> assets_of s' = assets_of s - n"
    if ok: "wrs_withdraw e u n s = Ok s'"
    using wrs_withdraw_effect [OF ok] ceil_bound [OF pos(1), of "n * supply_of s"] pos
    by (smt (verit) mult_pos_pos)
  moreover have "\<exists>s2. wr_withdraw e u n s = Ok s2 \<and> assets_of s2 = assets_of s - n
          \<and> ev_shares_of s2 u = 0 \<and> supply_of s2 = supply_of s"
    if h: "authorized e u" "0 < n" "n * supply_of s < assets_of s" "ev_shares_of s u = 0"
      "in_range I128 (assets_of s)" "in_range I128 (supply_of s)"
  proof -
    have le: "0 < n * supply_of s" "n \<le> n * supply_of s" using h(2) pos(2) by simp_all
    have "n * supply_of s sdiv assets_of s = 0"
      using h pos by (simp add: sdiv_nonneg_eq)
    moreover have "in_range I128 (n * supply_of s)" "in_range I128 (assets_of s - n)"
      by (rule in_range_between [OF in_range_zero h(5)]; use h(2,3) le pos in linarith)+
    ultimately show ?thesis
      using h pos by (simp add: wr_withdraw_def mul_div_def checked_ops Let_def ev_shares_of_def
          write_totals_def)
  qed
  ultimately show ?thesis by blast
qed

text \<open>
  The price attack on an empty vault: after the attacker has put in one unit and donated \<open>d\<close>, a
  deposit of \<open>v\<close> to the vulnerable vault is refused unless \<open>v\<close> exceeds the donation, while the vault
  with the virtual offset accepts it from about a thousandth of the donation on.
\<close>

theorem inflation_attack_dampened:
  assumes "shv_TotalAssets s = Some (1 + d)" and "shv_TotalShares s = Some 1"
    and "0 \<le> d" and "d < 2 ^ 100" and "0 < v" and "v < 2 ^ 100" and "authorized e u"
    and "ev_shares_of s u = 0"
  shows "((\<exists>s'. ev_deposit e u v s = Ok s') \<longleftrightarrow> 1 + d \<le> v)
    \<and> ((\<exists>s'. evs_deposit e u v s = Ok s') \<longleftrightarrow> 1001 + d \<le> 1001 * v)"
proof -
  have q: "v sdiv (1 + d) = v div (1 + d)" "v * 1001 sdiv (1001 + d) = v * 1001 div (1001 + d)"
    using assms by (auto intro: sdiv_nonneg_eq)
  have b: "0 \<le> v div (1 + d)" "v div (1 + d) \<le> v" "0 \<le> v * 1001 div (1001 + d)"
      "v * 1001 div (1001 + d) \<le> v * 1001"
    using assms zdiv_mono2 [of v 1 "1 + d"] zdiv_mono2 [of "v * 1001" 1 "1001 + d"]
    by (auto simp: pos_imp_zdiv_nonneg_iff)
  have r: "in_range I128 v" "in_range I128 (v * 1001)" "in_range I128 (v div (1 + d))"
      "in_range I128 (v * 1001 div (1001 + d))" "in_range I128 (1 + d + v)"
      "in_range I128 (1 + v div (1 + d))" "in_range I128 (1 + v * 1001 div (1001 + d))"
      "in_range I128 (1001 + d)" "in_range I128 1001"
    using assms b by (auto simp: in_range_def)
  have pos: "0 < v div (1 + d) \<longleftrightarrow> 1 + d \<le> v" "0 < v * 1001 div (1001 + d) \<longleftrightarrow> 1001 + d \<le> v * 1001"
    using assms by (auto simp: pos_imp_zdiv_pos_iff)
  have tot: "ev_total_shares s = 1" "ev_total_assets s = 1 + d"
    using assms(1,2) by (simp_all add: ev_total_shares_def ev_total_assets_def)
  have "(\<exists>s'. ev_deposit e u v s = Ok s') \<longleftrightarrow> 1 + d \<le> v"
    using assms(3,5,7,8) r pos(1) by (auto simp: ev_deposit_def tot result_simps int_simps Let_def q)
  moreover have "(\<exists>s'. evs_deposit e u v s = Ok s') \<longleftrightarrow> 1001 + d \<le> v * 1001"
    using assms(3,5,7,8) r pos(2)
    by (auto simp: evs_deposit_def tot VIRTUAL_OFFSET_def result_simps int_simps Let_def q)
  ultimately show ?thesis by (simp add: mult.commute)
qed

text \<open>
  Donations do not enter the share arithmetic of the repaired \<^verbatim>\<open>vault_donation_accounting\<close>: a run has the
  same final state as the run without them.
\<close>

lemma donations_ignored:
  "run_calls dvs_exec xs s = run_calls dvs_exec (filter (is_deposit \<circ> snd) xs) s"
  by (rule dvs_drop_donations)

section \<open>Concrete vaults\<close>

definition share_demo :: "int \<Rightarrow> int \<Rightarrow> share_vault" where
  "share_demo ta ts = \<lparr>events = [], shv_TotalAssets = Some ta, shv_TotalShares = Some ts,
     shv_Shares = Map.empty\<rparr>"

lemma share_demo_simps [simp]:
  "assets_of (share_demo ta ts) = ta" "supply_of (share_demo ta ts) = ts"
  "ev_shares_of (share_demo ta ts) u = 0"
  "funded (share_demo ta ts) \<longleftrightarrow> 0 < ta \<and> 0 < ts"
  by (auto simp: share_demo_def ev_shares_of_def funded_def)

theorem share_value_never_falls_witness:
  "\<exists>t. t = run_calls fss_exec [(signed_env [Address 5] 9, FMint (Address 5) 3)] (share_demo 10 100)
     \<and> assets_of t = 11 \<and> 10 * supply_of t \<le> 11 * 100"
proof -
  let ?xs = "[(signed_env [Address 5] 9, FMint (Address 5) 3)]"
  let ?t = "run_calls fss_exec ?xs (share_demo 10 100)"
  have "assets_of ?t = 11"
    by (simp add: fss_mint_def share_demo_def signed_env_def checked_ops in_range_def Let_def
        write_totals_def sdiv_nonneg_eq)
  with share_value_never_falls [of "share_demo 10 100" ?t ?xs "[]"] show ?thesis
    by simp
qed

theorem withdraw_rounding_repaired_witness:
  "\<exists>s2. wr_withdraw (signed_env [Address 5] 9) (Address 5) 4 (share_demo 1000 10) = Ok s2
     \<and> assets_of s2 = 996 \<and> ev_shares_of s2 (Address 5) = 0"
  using withdraw_rounding_repaired [of "share_demo 1000 10" "signed_env [Address 5] 9" "Address 5" 4]
  by (auto simp: signed_env_def in_range_def)

theorem inflation_attack_dampened_witness:
  "(\<nexists>s'. ev_deposit (signed_env [Address 5] 9) (Address 5) 5000 (share_demo 1000001 1) = Ok s')
   \<and> (\<exists>s'. evs_deposit (signed_env [Address 5] 9) (Address 5) 5000 (share_demo 1000001 1) = Ok s')"
  using inflation_attack_dampened [of "share_demo 1000001 1" 1000000 5000 "signed_env [Address 5] 9" "Address 5"]
  by (simp add: share_demo_def signed_env_def ev_shares_of_def)

section \<open>Shares are accounted for\<close>

text \<open>
  What the eight operations that issue or burn shares have in common: the caller signs, and its shares and the total change by the same
  number. The vault has to be initialised: without a total the operations of three crates count from one, the accessors from zero.
\<close>

locale share_issue =
  fixes op :: "env \<Rightarrow> address \<Rightarrow> int \<Rightarrow> share_vault \<Rightarrow> share_vault result"
  assumes op_effect: "op e u n s = Ok s' \<Longrightarrow> shv_TotalShares s = Some ts \<Longrightarrow>
     authorized e u \<and> (\<exists>d. shv_Shares s' = (shv_Shares s)(u \<mapsto> get0 (shv_Shares s) u + d) \<and> shv_TotalShares s' = Some (ts + d))"

sublocale share_issue \<subseteq> accounted: contract_invariant "\<lambda>e (u, n). op e u n"
    "\<lambda>s. finite (dom (shv_Shares s)) \<and> shv_TotalShares s \<noteq> None \<and> ev_total_shares s - sum_bal (shv_Shares s) = k"
  for k
proof (unfold_locales, goal_cases)
  case (1 s e c s')
  then obtain u n ts where s: "c = (u, n)" "op e u n s = Ok s'" "shv_TotalShares s = Some ts" by (cases c) auto
  from op_effect [OF s(2,3)] 1(1) s(3) show ?case
    by (auto simp: ev_total_shares_def sum_bal_update)
qed

sublocale share_issue \<subseteq> own: restricted_invariant "\<lambda>e (u, n). op e u n"
    "\<lambda>s. shv_TotalShares s \<noteq> None \<and> get0 (shv_Shares s) a = k" "\<lambda>e (u, n). \<not> (u = a \<and> authorized e a)"
  for a k
proof (unfold_locales, goal_cases)
  case (1 s e c s')
  then obtain u n ts where s: "c = (u, n)" "op e u n s = Ok s'" "shv_TotalShares s = Some ts" by (cases c) auto
  from op_effect [OF s(2,3)] 1(1,2) s(1) show ?case by auto
qed

context share_issue
begin

lemma run_accounted:
  assumes "finite (dom (shv_Shares s))" and "shv_TotalShares s \<noteq> None" and "t = run_calls (\<lambda>e (u, n). op e u n) xs s"
  shows "sum_bal (shv_Shares t) - sum_bal (shv_Shares s) = ev_total_shares t - ev_total_shares s"
  using accounted.run_inv [of s "ev_total_shares s - sum_bal (shv_Shares s)" xs] assms by simp

lemma run_own:
  assumes "shv_TotalShares s \<noteq> None" and "t = run_calls (\<lambda>e (u, n). op e u n) xs s" and "get0 (shv_Shares t) a \<noteq> get0 (shv_Shares s) a"
  shows "\<exists>e n. (e, a, n) \<in> set xs \<and> authorized e a"
  using own.run_inv [of s a "get0 (shv_Shares s) a" xs] assms by auto

end

interpretation ev_issue: share_issue ev_deposit
  by unfold_locales (auto simp: ev_deposit_def result_simps int_simps Let_def ev_shares_of_def ev_total_shares_def write_totals_def split: if_splits)

interpretation evs_issue: share_issue evs_deposit
  by unfold_locales (auto simp: evs_deposit_def result_simps int_simps Let_def ev_shares_of_def ev_total_shares_def write_totals_def)

interpretation zs_issue: share_issue zs_deposit
  by unfold_locales (auto simp: zs_deposit_def result_simps int_simps Let_def write_totals_def)

interpretation zss_issue: share_issue zss_deposit
  by unfold_locales (auto simp: zss_deposit_def result_simps int_simps Let_def write_totals_def)

interpretation fs_issue: share_issue fs_mint
  by unfold_locales (auto simp: fs_mint_def result_simps int_simps Let_def write_totals_def)

interpretation fss_issue: share_issue fss_mint
  by unfold_locales (auto simp: fss_mint_def result_simps int_simps Let_def write_totals_def)

interpretation wr_issue: share_issue wr_withdraw
proof (unfold_locales, goal_cases)
  case (1 e u n s s' ts)
  then show ?case
    by (auto simp: wr_withdraw_def result_simps int_simps Let_def write_totals_def intro!: exI [of _ "- (n * ts sdiv assets_of s)"])
qed

interpretation wrs_issue: share_issue wrs_withdraw
proof (unfold_locales, goal_cases)
  case (1 e u n s s' ts)
  then show ?case
    by (auto simp: wrs_withdraw_def result_simps int_simps Let_def write_totals_def intro!: exI [of _ "- ((n * ts + assets_of s - 1) sdiv assets_of s)"] split: if_splits)
qed

text \<open>
  Shares are accounted for (all four crates with a total, both halves): over any run of deposits, mints or withdrawals of an initialised vault the holders'
  shares together change by what the total changes, and nobody's shares change without a call that the holder signed.
\<close>

theorem shares_accounted_for:
  assumes "f \<in> {ev_deposit, evs_deposit, zs_deposit, zss_deposit, fs_mint, fss_mint, wr_withdraw, wrs_withdraw}"
    and "finite (dom (shv_Shares s))" and "shv_TotalShares s \<noteq> None" and "t = run_calls (\<lambda>e (u, n). f e u n) xs s"
  shows "sum_bal (shv_Shares t) - sum_bal (shv_Shares s) = zss_total_shares t - zss_total_shares s
    \<and> (zss_shares_of t a \<noteq> zss_shares_of s a \<longrightarrow> (\<exists>e n. (e, a, n) \<in> set xs \<and> authorized e a))"
proof -
  have "share_issue f"
    using assms(1) ev_issue.share_issue_axioms evs_issue.share_issue_axioms zs_issue.share_issue_axioms zss_issue.share_issue_axioms
      fs_issue.share_issue_axioms fss_issue.share_issue_axioms wr_issue.share_issue_axioms wrs_issue.share_issue_axioms by auto
  from share_issue.run_accounted [OF this assms(2-4)] share_issue.run_own [OF this assms(3,4)] show ?thesis
    by (auto simp: ev_total_shares_def zss_total_shares_def zss_shares_of_def)
qed

theorem shares_accounted_for_witness:
  "\<exists>t. zss_deposit (signed_env [Address 5] 9) (Address 5) 50 (share_demo 10 100) = Ok t
     \<and> sum_bal (shv_Shares t) = zss_total_shares t - 100"
proof -
  have "\<exists>t. zss_deposit (signed_env [Address 5] 9) (Address 5) 50 (share_demo 10 100) = Ok t"
    by (simp add: zss_deposit_def share_demo_def signed_env_def mul_div_def checked_ops in_range_def Let_def sdiv_nonneg_eq)
  then obtain t where t: "zss_deposit (signed_env [Address 5] 9) (Address 5) 50 (share_demo 10 100) = Ok t" by blast
  then have "t = run_calls (\<lambda>e (u, n). zss_deposit e u n) [(signed_env [Address 5] 9, Address 5, 50)] (share_demo 10 100)" by simp
  from shares_accounted_for [OF _ _ _ this] t show ?thesis
    by (auto simp: share_demo_def zss_total_shares_def)
qed

end
