(* ===== verification/Bridges.thy ===== *)
theory Bridges
  imports Soroban_Bytes
begin

text \<open>
  The bridge crates \<^verbatim>\<open>bridge_nonce_global\<close>, \<^verbatim>\<open>bridge_chainid_missing\<close>, \<^verbatim>\<open>bridge_partial_mint_replay\<close> and
  \<^verbatim>\<open>bridge_validator_quorum_missing\<close> under \<^verbatim>\<open>src/vulnerable/\<close>, each with the vulnerable contract (\<^verbatim>\<open>lib.rs\<close>)
  and its repair (\<^verbatim>\<open>secure.rs\<close>). The host's \<^verbatim>\<open>sha256\<close> and the XDR encoding of an address are parameters;
  a signature is, as in the code, the hash of the payload. Shown: no nonce, and no burn proof, is
  accepted twice in any run; with a nonce per source chain the chains do not interfere; a signed
  message determines all its fields and the receiving contract, up to a hash collision; the order of
  mint and mark makes no difference under rollback; a validator set changes only with a quorum of
  distinct validators.
\<close>

type_synonym hash_fun = "bytes \<Rightarrow> bytes"

definition verify_sig :: "hash_fun \<Rightarrow> bytes \<Rightarrow> bytes \<Rightarrow> 'a result \<Rightarrow> 'a result" where
  "verify_sig sha payload sig k = panic_if (sha payload \<noteq> sig) ''invalid signature'' k"

text \<open>The arguments of a bridge message.\<close>

record bridge_msg =
  bm_src_chain :: int
  bm_dst_chain :: int
  bm_nonce :: int
  bm_token :: bytes
  bm_amount :: int
  bm_recipient :: bytes
  bm_sig :: bytes

section \<open>bridge\_nonce\_global\<close>

record nonce_bridge = host +
  nb_NonceUsed :: "int \<rightharpoonup> bool"
  nb_Balance :: "bytes \<rightharpoonup> int"

definition ng_payload :: "bridge_msg \<Rightarrow> bytes" where
  "ng_payload m = be_bytes 4 (bm_src_chain m) @ be_bytes 8 (bm_nonce m) @ bm_token m
     @ be_bytes 16 (bm_amount m) @ bm_recipient m"

definition ng_process :: "hash_fun \<Rightarrow> env \<Rightarrow> bridge_msg \<Rightarrow> nonce_bridge \<Rightarrow> nonce_bridge result" where
  "ng_process sha e m s =
     panic_if (unwrap_or (nb_NonceUsed s (bm_nonce m)) False) ''nonce already used'' (
     verify_sig sha (ng_payload m) (bm_sig m) (
     let s1 = s\<lparr>nb_NonceUsed := (nb_NonceUsed s)(bm_nonce m \<mapsto> True)\<rparr> in
     arith (checked_add I128 (get0 (nb_Balance s1) (bm_recipient m)) (bm_amount m)) (\<lambda>b.
     Ok (publish [''processed'']
          [VInt (bm_src_chain m), VInt (bm_nonce m), VInt (bm_amount m), vbytes (bm_recipient m)]
          (s1\<lparr>nb_Balance := (nb_Balance s1)(bm_recipient m \<mapsto> b)\<rparr>)))))"

definition ng_balance :: "nonce_bridge \<Rightarrow> bytes \<Rightarrow> int" where
  "ng_balance s recipient = get0 (nb_Balance s) recipient"

definition ng_is_nonce_used :: "nonce_bridge \<Rightarrow> int \<Rightarrow> bool" where
  "ng_is_nonce_used s nonce = unwrap_or (nb_NonceUsed s nonce) False"

record chain_bridge = host +
  cb_NonceUsed :: "int \<times> int \<rightharpoonup> bool"
  cb_Balance :: "bytes \<rightharpoonup> int"

definition ngs_process :: "hash_fun \<Rightarrow> env \<Rightarrow> bridge_msg \<Rightarrow> chain_bridge \<Rightarrow> chain_bridge result" where
  "ngs_process sha e m s =
     (let nonce_key = (bm_src_chain m, bm_nonce m) in
      panic_if (unwrap_or (cb_NonceUsed s nonce_key) False) ''nonce already used'' (
      verify_sig sha (ng_payload m) (bm_sig m) (
      let s1 = s\<lparr>cb_NonceUsed := (cb_NonceUsed s)(nonce_key \<mapsto> True)\<rparr> in
      arith (checked_add I128 (get0 (cb_Balance s1) (bm_recipient m)) (bm_amount m)) (\<lambda>b.
      Ok (publish [''processed'']
           [VInt (bm_src_chain m), VInt (bm_nonce m), VInt (bm_amount m), vbytes (bm_recipient m)]
           (s1\<lparr>cb_Balance := (cb_Balance s1)(bm_recipient m \<mapsto> b)\<rparr>))))))"

definition ngs_balance :: "chain_bridge \<Rightarrow> bytes \<Rightarrow> int" where
  "ngs_balance s recipient = get0 (cb_Balance s) recipient"

definition ngs_is_nonce_used :: "chain_bridge \<Rightarrow> int \<Rightarrow> int \<Rightarrow> bool" where
  "ngs_is_nonce_used s src_chain nonce = unwrap_or (cb_NonceUsed s (src_chain, nonce)) False"

interpretation ng_nonces: single_use "ng_process sha" "\<lambda>m. Some (bm_nonce m)" ng_is_nonce_used
  for sha
  by unfold_locales
     (auto simp: ng_process_def ng_is_nonce_used_def verify_sig_def result_simps publish_def Let_def)

interpretation ngs_nonces: single_use "ngs_process sha"
    "\<lambda>m. Some (bm_src_chain m, bm_nonce m)" "\<lambda>s (c, n). ngs_is_nonce_used s c n"
  for sha
  by unfold_locales
     (auto simp: ngs_process_def ngs_is_nonce_used_def verify_sig_def result_simps publish_def Let_def
       split: if_splits)

section \<open>bridge\_chainid\_missing\<close>

definition cm_payload :: "bridge_msg \<Rightarrow> bytes" where
  "cm_payload m = be_bytes 8 (bm_nonce m) @ bm_token m @ be_bytes 16 (bm_amount m) @ bm_recipient m"

definition cm_mint :: "hash_fun \<Rightarrow> env \<Rightarrow> bridge_msg \<Rightarrow> nonce_bridge \<Rightarrow> nonce_bridge result" where
  "cm_mint sha e m s =
     panic_if (unwrap_or (nb_NonceUsed s (bm_nonce m)) False) ''nonce already used'' (
     verify_sig sha (cm_payload m) (bm_sig m) (
     let s1 = s\<lparr>nb_NonceUsed := (nb_NonceUsed s)(bm_nonce m \<mapsto> True)\<rparr> in
     arith (checked_add I128 (get0 (nb_Balance s1) (bm_recipient m)) (bm_amount m)) (\<lambda>b.
     Ok (publish [''minted'']
          [VInt (bm_nonce m), vbytes (bm_token m), VInt (bm_amount m), vbytes (bm_recipient m)]
          (s1\<lparr>nb_Balance := (nb_Balance s1)(bm_recipient m \<mapsto> b)\<rparr>)))))"

definition cm_balance :: "nonce_bridge \<Rightarrow> bytes \<Rightarrow> int" where
  "cm_balance s recipient = get0 (nb_Balance s) recipient"

definition build_payload :: "(address \<Rightarrow> bytes) \<Rightarrow> address \<Rightarrow> bridge_msg \<Rightarrow> bytes" where
  "build_payload xdr bridge_id m =
     be_bytes 4 (bm_src_chain m) @ be_bytes 4 (bm_dst_chain m) @ xdr bridge_id
     @ be_bytes 8 (bm_nonce m) @ bm_token m @ be_bytes 16 (bm_amount m) @ bm_recipient m"

definition sign_secure :: "hash_fun \<Rightarrow> (address \<Rightarrow> bytes) \<Rightarrow> address \<Rightarrow> bridge_msg \<Rightarrow> bytes" where
  "sign_secure sha xdr bridge_id m = sha (build_payload xdr bridge_id m)"

definition cms_mint ::
    "hash_fun \<Rightarrow> (address \<Rightarrow> bytes) \<Rightarrow> env \<Rightarrow> bridge_msg \<Rightarrow> nonce_bridge \<Rightarrow> nonce_bridge result" where
  "cms_mint sha xdr e m s =
     panic_if (unwrap_or (nb_NonceUsed s (bm_nonce m)) False) ''nonce already used'' (
     verify_sig sha (build_payload xdr (current_contract e) m) (bm_sig m) (
     let s1 = s\<lparr>nb_NonceUsed := (nb_NonceUsed s)(bm_nonce m \<mapsto> True)\<rparr> in
     arith (checked_add I128 (get0 (nb_Balance s1) (bm_recipient m)) (bm_amount m)) (\<lambda>b.
     Ok (publish [''minted'']
          [VInt (bm_src_chain m), VInt (bm_dst_chain m), VInt (bm_nonce m), vbytes (bm_token m),
           VInt (bm_amount m), vbytes (bm_recipient m)]
          (s1\<lparr>nb_Balance := (nb_Balance s1)(bm_recipient m \<mapsto> b)\<rparr>)))))"

definition cms_balance :: "nonce_bridge \<Rightarrow> bytes \<Rightarrow> int" where
  "cms_balance s recipient = get0 (nb_Balance s) recipient"

text \<open>The ranges of the argument types: \<^verbatim>\<open>u32\<close>, \<^verbatim>\<open>u64\<close>, \<^verbatim>\<open>i128\<close>, \<^verbatim>\<open>BytesN<32>\<close>.\<close>

definition msg_typed :: "bridge_msg \<Rightarrow> bool" where
  "msg_typed m \<longleftrightarrow> in_range U32 (bm_src_chain m) \<and> in_range U32 (bm_dst_chain m)
     \<and> in_range U64 (bm_nonce m) \<and> in_range I128 (bm_amount m)
     \<and> length (bm_token m) = 32 \<and> length (bm_recipient m) = 32"

lemma build_payload_inject:
  assumes "build_payload xdr a m = build_payload xdr b m'" and "msg_typed m" and "msg_typed m'"
    and "inj xdr" and "length (xdr a) = length (xdr b)" and "bm_sig m = bm_sig m'"
  shows "a = b \<and> m = m'"
proof -
  have b: "be_bytes 4 (bm_src_chain m) = be_bytes 4 (bm_src_chain m')"
    "be_bytes 4 (bm_dst_chain m) = be_bytes 4 (bm_dst_chain m')" "xdr a = xdr b"
    "be_bytes 8 (bm_nonce m) = be_bytes 8 (bm_nonce m')" "bm_token m = bm_token m'"
    "be_bytes 16 (bm_amount m) = be_bytes 16 (bm_amount m')" "bm_recipient m = bm_recipient m'"
    using assms(1,2,3,5) by (auto simp: build_payload_def msg_typed_def)
  have "bm_src_chain m = bm_src_chain m'" "bm_dst_chain m = bm_dst_chain m'" "bm_nonce m = bm_nonce m'"
    using assms(2,3)
    by (auto simp: msg_typed_def in_range_unsigned intro: be_bytes_inject_unsigned [OF b(1)]
        be_bytes_inject_unsigned [OF b(2)] be_bytes_inject_unsigned [OF b(4)])
  moreover have "bm_amount m = bm_amount m'"
    using be_bytes_inject [OF b(6)] assms(2,3) by (simp add: msg_typed_def)
  ultimately show ?thesis
    using b assms(4,6) by (auto dest: injD)
qed

section \<open>bridge\_partial\_mint\_replay\<close>

record mint_bridge = host +
  pmb_ProofUsed :: "bytes \<rightharpoonup> bool"
  pmb_MintedBalance :: "address \<rightharpoonup> int"
  pmb_MintFails :: "bool option"

definition pm_initialize :: "env \<Rightarrow> mint_bridge \<Rightarrow> mint_bridge result" where
  "pm_initialize e s = Ok (s\<lparr>pmb_MintFails := Some False\<rparr>)"

definition pm_set_mint_fails :: "env \<Rightarrow> bool \<Rightarrow> mint_bridge \<Rightarrow> mint_bridge result" where
  "pm_set_mint_fails e fails s = Ok (s\<lparr>pmb_MintFails := Some fails\<rparr>)"

definition pm_do_mint :: "address \<Rightarrow> int \<Rightarrow> mint_bridge \<Rightarrow> mint_bridge result" where
  "pm_do_mint recipient amount s =
     panic_if (unwrap_or (pmb_MintFails s) False) ''mint failed'' (
     arith (checked_add I128 (get0 (pmb_MintedBalance s) recipient) amount) (\<lambda>b.
     Ok (s\<lparr>pmb_MintedBalance := (pmb_MintedBalance s)(recipient \<mapsto> b)\<rparr>)))"

definition pm_redeem :: "env \<Rightarrow> bytes \<Rightarrow> address \<Rightarrow> int \<Rightarrow> mint_bridge \<Rightarrow> mint_bridge result" where
  "pm_redeem e proof_id recipient amount s =
     panic_if (unwrap_or (pmb_ProofUsed s proof_id) False) ''proof already consumed'' (
     and_then (pm_do_mint recipient amount s) (\<lambda>s1.
     Ok (s1\<lparr>pmb_ProofUsed := (pmb_ProofUsed s1)(proof_id \<mapsto> True)\<rparr>)))"

definition pm_is_proof_used :: "mint_bridge \<Rightarrow> bytes \<Rightarrow> bool" where
  "pm_is_proof_used s proof_id = unwrap_or (pmb_ProofUsed s proof_id) False"

definition pm_minted_balance :: "mint_bridge \<Rightarrow> address \<Rightarrow> int" where
  "pm_minted_balance s recipient = get0 (pmb_MintedBalance s) recipient"

definition pms_initialize :: "env \<Rightarrow> mint_bridge \<Rightarrow> mint_bridge result" where
  "pms_initialize e s = Ok (s\<lparr>pmb_MintFails := Some False\<rparr>)"

definition pms_set_mint_fails :: "env \<Rightarrow> bool \<Rightarrow> mint_bridge \<Rightarrow> mint_bridge result" where
  "pms_set_mint_fails e fails s = Ok (s\<lparr>pmb_MintFails := Some fails\<rparr>)"

definition pms_do_mint :: "address \<Rightarrow> int \<Rightarrow> mint_bridge \<Rightarrow> mint_bridge result" where
  "pms_do_mint recipient amount s =
     panic_if (unwrap_or (pmb_MintFails s) False) ''mint failed'' (
     arith (checked_add I128 (get0 (pmb_MintedBalance s) recipient) amount) (\<lambda>b.
     Ok (s\<lparr>pmb_MintedBalance := (pmb_MintedBalance s)(recipient \<mapsto> b)\<rparr>)))"

definition pms_redeem :: "env \<Rightarrow> bytes \<Rightarrow> address \<Rightarrow> int \<Rightarrow> mint_bridge \<Rightarrow> mint_bridge result" where
  "pms_redeem e proof_id recipient amount s =
     panic_if (unwrap_or (pmb_ProofUsed s proof_id) False) ''proof already consumed'' (
     let s1 = s\<lparr>pmb_ProofUsed := (pmb_ProofUsed s)(proof_id \<mapsto> True)\<rparr> in
     pms_do_mint recipient amount s1)"

definition pms_is_proof_used :: "mint_bridge \<Rightarrow> bytes \<Rightarrow> bool" where
  "pms_is_proof_used s proof_id = pm_is_proof_used s proof_id"

definition pms_minted_balance :: "mint_bridge \<Rightarrow> address \<Rightarrow> int" where
  "pms_minted_balance s recipient = pm_minted_balance s recipient"

datatype redeem_call =
    RInitialize
  | RSetMintFails bool
  | RRedeem bytes address int

fun pm_exec :: "env \<Rightarrow> redeem_call \<Rightarrow> mint_bridge \<Rightarrow> mint_bridge result" where
  "pm_exec e RInitialize s = pm_initialize e s"
| "pm_exec e (RSetMintFails b) s = pm_set_mint_fails e b s"
| "pm_exec e (RRedeem p a n) s = pm_redeem e p a n s"

fun pms_exec :: "env \<Rightarrow> redeem_call \<Rightarrow> mint_bridge \<Rightarrow> mint_bridge result" where
  "pms_exec e RInitialize s = pms_initialize e s"
| "pms_exec e (RSetMintFails b) s = pms_set_mint_fails e b s"
| "pms_exec e (RRedeem p a n) s = pms_redeem e p a n s"

fun redeemed :: "redeem_call \<Rightarrow> bytes option" where
  "redeemed (RRedeem p a n) = Some p"
| "redeemed RInitialize = None"
| "redeemed (RSetMintFails b) = None"

lemma mark_then_mint:
  "s\<lparr>pmb_ProofUsed := x, pmb_MintedBalance := y\<rparr> = s\<lparr>pmb_MintedBalance := y, pmb_ProofUsed := x\<rparr>"
  for s :: mint_bridge
  by (cases s) simp

lemma redeem_order_irrelevant: "pms_redeem e p a n s = pm_redeem e p a n s"
  by (cases "unwrap_or (pmb_MintFails s) False";
      cases "checked_add I128 (get0 (pmb_MintedBalance s) a) n")
     (simp_all add: pms_redeem_def pm_redeem_def pms_do_mint_def pm_do_mint_def mark_then_mint)

lemma pms_exec_eq: "pms_exec = pm_exec"
proof (intro ext)
  fix e c s
  show "pms_exec e c s = pm_exec e c s"
    by (cases c) (simp_all add: redeem_order_irrelevant pms_initialize_def pm_initialize_def
        pms_set_mint_fails_def pm_set_mint_fails_def)
qed

interpretation pm_proofs: single_use pm_exec redeemed pm_is_proof_used
proof (unfold_locales, goal_cases)
  case (1 e c s s' k)
  then show ?case by (cases c) (auto simp: pm_redeem_def pm_is_proof_used_def result_simps)
next
  case (2 e c s s' k)
  then show ?case
    by (cases c) (auto simp: pm_redeem_def pm_do_mint_def pm_initialize_def pm_set_mint_fails_def
        pm_is_proof_used_def result_simps)
qed

section \<open>bridge\_validator\_quorum\_missing\<close>

record validator_bridge = host +
  vb_Validators :: "bytes list option"
  vb_Threshold :: "int option"
  vb_Balance :: "bytes \<rightharpoonup> int"

definition make_sig :: "hash_fun \<Rightarrow> bytes \<Rightarrow> bytes" where
  "make_sig sha payload = sha payload"

definition vq_initialize ::
    "env \<Rightarrow> bytes list \<Rightarrow> int \<Rightarrow> validator_bridge \<Rightarrow> validator_bridge result" where
  "vq_initialize e validators threshold s =
     panic_if (vb_Validators s \<noteq> None) ''already initialized'' (
     panic_if (threshold = 0 \<or> threshold > int (length validators)) ''invalid threshold'' (
     Ok (s\<lparr>vb_Validators := Some validators, vb_Threshold := Some threshold\<rparr>)))"

definition vq_payload :: "bytes list \<Rightarrow> int \<Rightarrow> bytes" where
  "vq_payload new_validators new_threshold = concat new_validators @ be_bytes 4 new_threshold"

definition vq_update_validators ::
    "hash_fun \<Rightarrow> env \<Rightarrow> bytes list \<Rightarrow> int \<Rightarrow> bytes \<Rightarrow> bytes \<Rightarrow> validator_bridge
     \<Rightarrow> validator_bridge result" where
  "vq_update_validators sha e new_validators new_threshold signer_key sig s =
     expect (vb_Validators s) ''not initialized'' (\<lambda>validators.
     panic_if (signer_key \<notin> set validators) ''signer is not a current validator'' (
     verify_sig sha (vq_payload new_validators new_threshold) sig (
     Ok (s\<lparr>vb_Validators := Some new_validators, vb_Threshold := Some new_threshold\<rparr>))))"

definition vq_get_validators :: "validator_bridge \<Rightarrow> bytes list" where
  "vq_get_validators s = unwrap_or (vb_Validators s) []"

definition vq_get_threshold :: "validator_bridge \<Rightarrow> int" where
  "vq_get_threshold s = unwrap_or (vb_Threshold s) 0"

definition vqs_initialize ::
    "env \<Rightarrow> bytes list \<Rightarrow> int \<Rightarrow> validator_bridge \<Rightarrow> validator_bridge result" where
  "vqs_initialize e validators threshold s =
     panic_if (vb_Validators s \<noteq> None) ''already initialized'' (
     panic_if (threshold = 0 \<or> threshold > int (length validators)) ''invalid threshold'' (
     Ok (s\<lparr>vb_Validators := Some validators, vb_Threshold := Some threshold\<rparr>)))"

text \<open>The counting loop over signers and signatures: \<^verbatim>\<open>seen\<close> and \<^verbatim>\<open>valid_count\<close> are its variables.\<close>

fun vqs_count ::
    "hash_fun \<Rightarrow> bytes \<Rightarrow> bytes list \<Rightarrow> (bytes \<times> bytes) list \<Rightarrow> bytes list \<Rightarrow> int \<Rightarrow> int result" where
  "vqs_count sha payload validators [] seen valid_count = Ok valid_count"
| "vqs_count sha payload validators ((signer, sig) # rest) seen valid_count =
     (if signer \<notin> set validators then vqs_count sha payload validators rest seen valid_count
      else if signer \<in> set seen then vqs_count sha payload validators rest seen valid_count
      else if sha payload = sig
      then arith (checked_add U32 valid_count 1)
             (vqs_count sha payload validators rest (seen @ [signer]))
      else vqs_count sha payload validators rest seen valid_count)"

definition vqs_update_validators ::
    "hash_fun \<Rightarrow> env \<Rightarrow> bytes list \<Rightarrow> int \<Rightarrow> bytes list \<Rightarrow> bytes list \<Rightarrow> validator_bridge
     \<Rightarrow> validator_bridge result" where
  "vqs_update_validators sha e new_validators new_threshold signers sigs s =
     expect (vb_Validators s) ''not initialized'' (\<lambda>validators.
     expect (vb_Threshold s) ''not initialized'' (\<lambda>threshold.
     panic_if (length signers \<noteq> length sigs) ''signers and sigs length mismatch'' (
     let payload = vq_payload new_validators new_threshold in
     and_then (vqs_count sha payload validators (zip signers sigs) [] 0) (\<lambda>valid_count.
     panic_if (valid_count < threshold) ''insufficient validator signatures'' (
     panic_if (new_threshold = 0 \<or> new_threshold > int (length new_validators)) ''invalid new threshold'' (
     Ok (s\<lparr>vb_Validators := Some new_validators, vb_Threshold := Some new_threshold\<rparr>)))))))"

definition vqs_get_validators :: "validator_bridge \<Rightarrow> bytes list" where
  "vqs_get_validators s = unwrap_or (vb_Validators s) []"

definition vqs_get_threshold :: "validator_bridge \<Rightarrow> int" where
  "vqs_get_threshold s = unwrap_or (vb_Threshold s) 0"

text \<open>The counter counts different current validators that sit beside a valid signature.\<close>

lemma vqs_count_sound:
  "vqs_count sha payload vs ps seen n = Ok r \<Longrightarrow>
   \<exists>S. finite S \<and> S \<inter> set seen = {} \<and> int (card S) = r - n
     \<and> (\<forall>v\<in>S. v \<in> set vs \<and> (v, sha payload) \<in> set ps)"
proof (induction ps arbitrary: seen n)
  case Nil
  then show ?case by (intro exI [of _ "{}"]) auto
next
  case (Cons p ps)
  obtain v sig where p: "p = (v, sig)" by force
  show ?case
  proof (cases "v \<in> set vs \<and> v \<notin> set seen \<and> sha payload = sig")
    case True
    with Cons.prems p have "vqs_count sha payload vs ps (seen @ [v]) (n + 1) = Ok r"
      by (auto simp: result_simps int_simps)
    from Cons.IH [OF this] obtain S where "finite S" "S \<inter> set (seen @ [v]) = {}"
      "int (card S) = r - (n + 1)" "\<forall>u\<in>S. u \<in> set vs \<and> (u, sha payload) \<in> set ps" by blast
    with True p show ?thesis by (intro exI [of _ "insert v S"]) auto
  next
    case False
    with Cons.prems p have "vqs_count sha payload vs ps seen n = Ok r" by (auto split: if_splits)
    from Cons.IH [OF this] show ?thesis by (auto simp: p)
  qed
qed

section \<open>Properties\<close>

lemma map_filter_Some: "List.map_filter (\<lambda>x. Some (f x)) xs = map f xs"
  by (simp add: List.map_filter_def)

text \<open>
  Replay protection per source chain: in a run of the repaired bridge no pair of source chain and
  nonce is accepted twice, and accepting a message leaves the nonces of every other chain as they
  were. In the vulnerable bridge a nonce accepted from one chain is refused from all others.
\<close>

theorem bridge_nonces_isolated:
  "distinct (map (\<lambda>m. (bm_src_chain m, bm_nonce m)) (successes (ngs_process sha) xs s))
   \<and> (ngs_process sha e m s = Ok s1 \<and> c \<noteq> bm_src_chain m
       \<longrightarrow> ngs_is_nonce_used s1 c n = ngs_is_nonce_used s c n)
   \<and> (ng_process sha e m t = Ok t1 \<and> bm_nonce m2 = bm_nonce m
       \<longrightarrow> ng_process sha e2 m2 t1 = Err (Panic ''nonce already used''))"
proof -
  have "distinct (map (\<lambda>m. (bm_src_chain m, bm_nonce m)) (successes (ngs_process sha) xs s))"
    using ngs_nonces.keys_once [of sha xs s] by (simp add: map_filter_Some)
  moreover have "ngs_is_nonce_used s1 c n = ngs_is_nonce_used s c n"
    if "ngs_process sha e m s = Ok s1" "c \<noteq> bm_src_chain m"
    using ngs_nonces.key_used [OF that(1), of "(c, n)"] that(2) by simp
  moreover have "ng_process sha e2 m2 t1 = Err (Panic ''nonce already used'')"
    if "ng_process sha e m t = Ok t1" "bm_nonce m2 = bm_nonce m"
    using ng_nonces.key_used [OF that(1), of "bm_nonce m"] that(2)
    by (simp add: ng_process_def ng_is_nonce_used_def)
  ultimately show ?thesis by blast
qed

text \<open>
  C26: A signature binds the whole message: if two deployments of the repaired bridge accept the same
  signature, then either the message and the receiving contract are the same, or the two signed
  payloads are different byte strings with the same hash.
\<close>

theorem bridge_signature_binds_message:
  assumes "cms_mint sha xdr e1 m1 s1 = Ok t1" and "cms_mint sha xdr e2 m2 s2 = Ok t2"
    and "bm_sig m1 = bm_sig m2" and "msg_typed m1" and "msg_typed m2" and "inj xdr"
    and "length (xdr (current_contract e1)) = length (xdr (current_contract e2))"
  shows "(current_contract e1 = current_contract e2 \<and> m1 = m2)
    \<or> (build_payload xdr (current_contract e1) m1 \<noteq> build_payload xdr (current_contract e2) m2
        \<and> sha (build_payload xdr (current_contract e1) m1) = sha (build_payload xdr (current_contract e2) m2))"
proof -
  have "sha (build_payload xdr (current_contract e1) m1) = sha (build_payload xdr (current_contract e2) m2)"
    using assms(1-3) by (auto simp: cms_mint_def verify_sig_def result_simps)
  with build_payload_inject [OF _ assms(4-7) assms(3)] show ?thesis by blast
qed

text \<open>
  The destination chain is an argument of the call and never compared with the ledger the contract
  runs on: two deployments at the same contract address accept the same calls.
\<close>

lemma bridge_dst_chain_unchecked:
  "current_contract e1 = current_contract e2 \<Longrightarrow> cms_mint sha xdr e1 m s = cms_mint sha xdr e2 m s"
  by (simp add: cms_mint_def)

text \<open>
  Marking the proof before or after the mint is the same under rollback: both contracts of
  \<^verbatim>\<open>bridge_partial_mint_replay\<close> make the same runs, and no proof is redeemed twice in either.
\<close>

lemma redeem_repair_is_vacuous:
  "run_calls pm_exec xs s = run_calls pms_exec xs s
   \<and> distinct (List.map_filter redeemed (successes pm_exec xs s))"
  using pm_proofs.keys_once [of xs s] by (simp add: pms_exec_eq)

text \<open>
  The repaired \<^verbatim>\<open>update_validators\<close> changes the validator set only with a quorum: at least
  \<^verbatim>\<open>threshold\<close> different current validators are among the signers, each beside a signature of the new
  set, and the new threshold is positive and within the new set.
\<close>

theorem bridge_update_needs_quorum:
  assumes "vqs_update_validators sha e vs k signers sigs s = Ok s'"
  shows "\<exists>cur thr S. vb_Validators s = Some cur \<and> vb_Threshold s = Some thr
    \<and> S \<subseteq> set cur \<and> thr \<le> int (card S)
    \<and> (\<forall>v\<in>S. (v, sha (vq_payload vs k)) \<in> set (zip signers sigs))
    \<and> vqs_get_validators s' = vs \<and> vqs_get_threshold s' = k \<and> k \<noteq> 0 \<and> k \<le> int (length vs)"
proof -
  from assms obtain cur thr r where v: "vb_Validators s = Some cur" "vb_Threshold s = Some thr"
    and r: "vqs_count sha (vq_payload vs k) cur (zip signers sigs) [] 0 = Ok r" "thr \<le> r"
    and s': "vqs_get_validators s' = vs" "vqs_get_threshold s' = k" "k \<noteq> 0" "k \<le> int (length vs)"
    by (auto simp: vqs_update_validators_def result_simps Let_def vqs_get_validators_def
        vqs_get_threshold_def)
  from vqs_count_sound [OF r(1)] obtain S where "int (card S) = r"
    "\<forall>v\<in>S. v \<in> set cur \<and> (v, sha (vq_payload vs k)) \<in> set (zip signers sigs)" by auto
  with v s' r(2) show ?thesis by (intro exI [of _ cur] exI [of _ thr] exI [of _ S]) auto
qed

text \<open>In the vulnerable contract one validator is enough, and the new threshold is not checked.\<close>

lemma vq_single_validator_takes_over:
  assumes "vb_Validators s = Some cur" and "v \<in> set cur"
  shows "\<exists>s'. vq_update_validators sha e vs k v (make_sig sha (vq_payload vs k)) s = Ok s'
    \<and> vq_get_validators s' = vs \<and> vq_get_threshold s' = k"
  using assms by (simp add: vq_update_validators_def verify_sig_def make_sig_def vq_get_validators_def
      vq_get_threshold_def)

section \<open>Concrete messages\<close>

text \<open>The hash as a parameter can be any function; here the identity.\<close>

definition demo_msg :: "int \<Rightarrow> bridge_msg" where
  "demo_msg c = (let m = \<lparr>bm_src_chain = c, bm_dst_chain = 2, bm_nonce = 7, bm_token = replicate 32 1,
     bm_amount = 50, bm_recipient = replicate 32 3, bm_sig = []\<rparr> in m\<lparr>bm_sig := ng_payload m\<rparr>)"

definition demo_bridge :: nonce_bridge where
  "demo_bridge = \<lparr>events = [], nb_NonceUsed = Map.empty, nb_Balance = Map.empty\<rparr>"

theorem bridge_nonces_isolated_witness:
  "\<exists>t1. ng_process id (signed_env [] 9) (demo_msg 5) demo_bridge = Ok t1
     \<and> ng_process id (signed_env [] 9) (demo_msg 6) t1 = Err (Panic ''nonce already used'')"
proof -
  have n: "bm_nonce (demo_msg 6) = bm_nonce (demo_msg 5)" by (simp add: demo_msg_def)
  have "\<exists>t1. ng_process id (signed_env [] 9) (demo_msg 5) demo_bridge = Ok t1"
    by (simp add: ng_process_def verify_sig_def demo_msg_def ng_payload_def demo_bridge_def checked_ops
        in_range_def Let_def)
  then obtain t1 where ok: "ng_process id (signed_env [] 9) (demo_msg 5) demo_bridge = Ok t1" by blast
  with bridge_nonces_isolated [of id "[]" undefined "signed_env [] 9" "demo_msg 5" undefined 0 0 demo_bridge t1
      "demo_msg 6" "signed_env [] 9"] n
  show ?thesis by blast
qed

definition demo_secure_msg :: bridge_msg where
  "demo_secure_msg = (demo_msg 5)\<lparr>bm_sig := build_payload (\<lambda>a. replicate (addr_id a) 0) (Address 99) (demo_msg 5)\<rparr>"

theorem bridge_signature_binds_message_witness:
  "\<exists>t1. cms_mint id (\<lambda>a. replicate (addr_id a) 0) (signed_env [] 9) demo_secure_msg demo_bridge = Ok t1
     \<and> msg_typed demo_secure_msg"
proof -
  let ?x = "\<lambda>a. replicate (addr_id a) (0::byte)" and ?m = demo_secure_msg
  have bp: "build_payload ?x (current_contract (signed_env [] 9)) ?m = bm_sig ?m"
    by (simp add: demo_secure_msg_def build_payload_def signed_env_def)
  have "nb_NonceUsed demo_bridge = Map.empty" "get0 (nb_Balance demo_bridge) r = 0" for r
    by (simp_all add: demo_bridge_def)
  moreover have "bm_amount ?m = 50" by (simp add: demo_secure_msg_def demo_msg_def)
  ultimately have "\<exists>t1. cms_mint id ?x (signed_env [] 9) ?m demo_bridge = Ok t1"
    by (simp add: cms_mint_def verify_sig_def bp checked_ops in_range_def)
  then obtain t1 where ok: "cms_mint id ?x (signed_env [] 9) ?m demo_bridge = Ok t1" by blast
  have ty: "msg_typed ?m"
    by (simp add: demo_secure_msg_def demo_msg_def msg_typed_def in_range_def)
  have "inj ?x"
  proof (rule injI)
    fix a b
    assume "?x a = ?x b"
    then have "length (?x a) = length (?x b)" by simp
    then show "a = b" by (cases a; cases b) simp
  qed
  from bridge_signature_binds_message [OF ok ok refl ty ty this refl] ok ty show ?thesis by blast
qed

definition demo_validators :: validator_bridge where
  "demo_validators = \<lparr>events = [], vb_Validators = Some [[1], [2], [3]], vb_Threshold = Some 2,
     vb_Balance = Map.empty\<rparr>"

theorem bridge_update_needs_quorum_witness:
  "\<exists>s'. vqs_update_validators id (signed_env [] 9) [[4]] 1 [[1], [3]]
       [vq_payload [[4]] 1, vq_payload [[4]] 1] demo_validators = Ok s'
     \<and> vqs_get_validators s' = [[4]]"
proof -
  have "\<exists>s'. vqs_update_validators id (signed_env [] 9) [[4]] 1 [[1], [3]]
       [vq_payload [[4]] 1, vq_payload [[4]] 1] demo_validators = Ok s'"
    by (simp add: vqs_update_validators_def demo_validators_def checked_ops in_range_def)
  then obtain s' where ok: "vqs_update_validators id (signed_env [] 9) [[4]] 1 [[1], [3]]
       [vq_payload [[4]] 1, vq_payload [[4]] 1] demo_validators = Ok s'" by blast
  from bridge_update_needs_quorum [OF ok] ok show ?thesis by blast
qed

end
