(* ===== verification/Auctions.thy ===== *)
theory Auctions
  imports Soroban_Prelude
begin

text \<open>
  The auction crates, both halves of each: \<^verbatim>\<open>src/vulnerable/auction_close_early\<close> (settlement before the
  end), \<^verbatim>\<open>src/vulnerable/auction_min_increment_missing\<close> (steps of a bid) and
  \<^verbatim>\<open>src/vulnerable/auction_refund_block\<close> (refund of the outbid bidder). The repaired contracts settle only
  after the end, on the highest bidder, and the result is final; bids rise by at least the minimum
  increment; every unit bid is the standing bid, a claimable refund or was paid back, and nobody can
  block the next bid.
\<close>

section \<open>auction\_close\_early\<close>

record close_auction =
  ca_HighBidder :: "address option"
  ca_HighBid :: "int option"
  ca_EndLedger :: "int option"
  ca_Closed :: "bool option"

definition ca_empty :: close_auction where
  "ca_empty = \<lparr>ca_HighBidder = None, ca_HighBid = None, ca_EndLedger = None, ca_Closed = None\<rparr>"

definition ca_high_bid :: "close_auction \<Rightarrow> int" where
  "ca_high_bid s = unwrap_or (ca_HighBid s) 0"

definition ca_high_bidder :: "close_auction \<Rightarrow> address option" where
  "ca_high_bidder s = ca_HighBidder s"

definition ca_is_closed :: "close_auction \<Rightarrow> bool" where
  "ca_is_closed s = unwrap_or (ca_Closed s) False"

definition ca_initialize :: "env \<Rightarrow> int \<Rightarrow> close_auction \<Rightarrow> close_auction result" where
  "ca_initialize e end_ledger s =
     panic_if (ca_EndLedger s \<noteq> None) ''already initialized'' (
     Ok (s\<lparr>ca_EndLedger := Some end_ledger, ca_HighBid := Some 0, ca_Closed := Some False\<rparr>))"

definition ca_bid :: "env \<Rightarrow> address \<Rightarrow> int \<Rightarrow> close_auction \<Rightarrow> close_auction result" where
  "ca_bid e bidder amount s =
     require_auth e bidder (
     panic_if (unwrap_or (ca_Closed s) False) ''auction already closed'' (
     panic_if (amount \<le> unwrap_or (ca_HighBid s) 0) ''bid too low'' (
     Ok (s\<lparr>ca_HighBidder := Some bidder, ca_HighBid := Some amount\<rparr>))))"

definition ca_close :: "env \<Rightarrow> close_auction \<Rightarrow> (address \<times> close_auction) result" where
  "ca_close e s =
     panic_if (unwrap_or (ca_Closed s) False) ''auction already closed'' (
     expect (ca_HighBidder s) ''no bids placed'' (\<lambda>winner.
     Ok (winner, s\<lparr>ca_Closed := Some True\<rparr>)))"

definition cas_initialize :: "env \<Rightarrow> int \<Rightarrow> close_auction \<Rightarrow> close_auction result" where
  "cas_initialize e end_ledger s =
     panic_if (ca_EndLedger s \<noteq> None) ''already initialized'' (
     Ok (s\<lparr>ca_EndLedger := Some end_ledger, ca_HighBid := Some 0, ca_Closed := Some False\<rparr>))"

definition cas_bid :: "env \<Rightarrow> address \<Rightarrow> int \<Rightarrow> close_auction \<Rightarrow> close_auction result" where
  "cas_bid e bidder amount s =
     require_auth e bidder (
     panic_if (unwrap_or (ca_Closed s) False) ''auction already closed'' (
     panic_if (amount \<le> unwrap_or (ca_HighBid s) 0) ''bid too low'' (
     Ok (s\<lparr>ca_HighBidder := Some bidder, ca_HighBid := Some amount\<rparr>))))"

definition cas_close :: "env \<Rightarrow> close_auction \<Rightarrow> (address \<times> close_auction) result" where
  "cas_close e s =
     panic_if (unwrap_or (ca_Closed s) False) ''auction already closed'' (
     expect (ca_EndLedger s) ''not initialized'' (\<lambda>end_ledger.
     panic_if (sequence e < end_ledger) ''auction has not ended yet'' (
     expect (ca_HighBidder s) ''no bids placed'' (\<lambda>winner.
     Ok (winner, s\<lparr>ca_Closed := Some True\<rparr>)))))"

definition cas_high_bid :: "close_auction \<Rightarrow> int" where
  "cas_high_bid s = unwrap_or (ca_HighBid s) 0"

definition cas_high_bidder :: "close_auction \<Rightarrow> address option" where
  "cas_high_bidder s = ca_HighBidder s"

definition cas_is_closed :: "close_auction \<Rightarrow> bool" where
  "cas_is_closed s = unwrap_or (ca_Closed s) False"

datatype close_call =
    CInitialize int
  | CBid address int
  | CClose

fun ca_exec :: "env \<Rightarrow> close_call \<Rightarrow> close_auction \<Rightarrow> close_auction result" where
  "ca_exec e (CInitialize t) s = ca_initialize e t s"
| "ca_exec e (CBid a n) s = ca_bid e a n s"
| "ca_exec e CClose s = state_of (ca_close e s)"

fun cas_exec :: "env \<Rightarrow> close_call \<Rightarrow> close_auction \<Rightarrow> close_auction result" where
  "cas_exec e (CInitialize t) s = cas_initialize e t s"
| "cas_exec e (CBid a n) s = cas_bid e a n s"
| "cas_exec e CClose s = state_of (cas_close e s)"

section \<open>auction\_min\_increment\_missing\<close>

record step_auction =
  sa_HighBidder :: "address option"
  sa_HighBid :: "int option"
  sa_MinIncrement :: "int option"

definition sa_empty :: step_auction where
  "sa_empty = \<lparr>sa_HighBidder = None, sa_HighBid = None, sa_MinIncrement = None\<rparr>"

definition sa_initialize :: "env \<Rightarrow> int \<Rightarrow> step_auction \<Rightarrow> step_auction result" where
  "sa_initialize e min_increment s =
     panic_if (sa_MinIncrement s \<noteq> None) ''already initialized'' (
     panic_if (min_increment \<le> 0) ''min_increment must be positive'' (
     Ok (s\<lparr>sa_MinIncrement := Some min_increment, sa_HighBid := Some 0\<rparr>)))"

definition sa_bid :: "env \<Rightarrow> address \<Rightarrow> int \<Rightarrow> step_auction \<Rightarrow> step_auction result" where
  "sa_bid e bidder amount s =
     require_auth e bidder (
     panic_if (amount \<le> unwrap_or (sa_HighBid s) 0) ''bid too low'' (
     Ok (s\<lparr>sa_HighBidder := Some bidder, sa_HighBid := Some amount\<rparr>)))"

definition sa_high_bid :: "step_auction \<Rightarrow> int" where
  "sa_high_bid s = unwrap_or (sa_HighBid s) 0"

definition sa_high_bidder :: "step_auction \<Rightarrow> address option" where
  "sa_high_bidder s = sa_HighBidder s"

definition sa_min_increment :: "step_auction \<Rightarrow> int" where
  "sa_min_increment s = unwrap_or (sa_MinIncrement s) 0"

definition sas_initialize :: "env \<Rightarrow> int \<Rightarrow> step_auction \<Rightarrow> step_auction result" where
  "sas_initialize e min_increment s =
     panic_if (sa_MinIncrement s \<noteq> None) ''already initialized'' (
     panic_if (min_increment \<le> 0) ''min_increment must be positive'' (
     Ok (s\<lparr>sa_MinIncrement := Some min_increment, sa_HighBid := Some 0\<rparr>)))"

definition sas_bid :: "env \<Rightarrow> address \<Rightarrow> int \<Rightarrow> step_auction \<Rightarrow> step_auction result" where
  "sas_bid e bidder amount s =
     require_auth e bidder (
     let high_bid = unwrap_or (sa_HighBid s) 0 in
     expect (sa_MinIncrement s) ''not initialized'' (\<lambda>min_increment.
     expect (checked_add I128 high_bid min_increment) ''overflow in bid threshold'' (\<lambda>required.
     panic_if (amount < required) ''bid does not meet minimum increment'' (
     Ok (s\<lparr>sa_HighBidder := Some bidder, sa_HighBid := Some amount\<rparr>)))))"

definition sas_high_bid :: "step_auction \<Rightarrow> int" where
  "sas_high_bid s = unwrap_or (sa_HighBid s) 0"

definition sas_high_bidder :: "step_auction \<Rightarrow> address option" where
  "sas_high_bidder s = sa_HighBidder s"

definition sas_min_increment :: "step_auction \<Rightarrow> int" where
  "sas_min_increment s = unwrap_or (sa_MinIncrement s) 0"

datatype step_call =
    SInitialize int
  | SBid address int

fun sa_exec :: "env \<Rightarrow> step_call \<Rightarrow> step_auction \<Rightarrow> step_auction result" where
  "sa_exec e (SInitialize d) s = sa_initialize e d s"
| "sa_exec e (SBid a n) s = sa_bid e a n s"

fun sas_exec :: "env \<Rightarrow> step_call \<Rightarrow> step_auction \<Rightarrow> step_auction result" where
  "sas_exec e (SInitialize d) s = sas_initialize e d s"
| "sas_exec e (SBid a n) s = sas_bid e a n s"

section \<open>auction\_refund\_block\<close>

record refund_auction =
  ra_HighBidder :: "address option"
  ra_HighBid :: "int option"
  ra_Refund :: "address \<rightharpoonup> int"
  ra_RefundBlocked :: "bool option"

definition ra_empty :: refund_auction where
  "ra_empty = \<lparr>ra_HighBidder = None, ra_HighBid = None, ra_Refund = Map.empty, ra_RefundBlocked = None\<rparr>"

definition ra_initialize :: "env \<Rightarrow> refund_auction \<Rightarrow> refund_auction result" where
  "ra_initialize e s =
     panic_if (ra_HighBid s \<noteq> None) ''already initialized'' (
     Ok (s\<lparr>ra_HighBid := Some 0, ra_RefundBlocked := Some False\<rparr>))"

definition ra_set_refund_blocked :: "env \<Rightarrow> bool \<Rightarrow> refund_auction \<Rightarrow> refund_auction result" where
  "ra_set_refund_blocked e blocked s = Ok (s\<lparr>ra_RefundBlocked := Some blocked\<rparr>)"

definition ra_bid :: "env \<Rightarrow> address \<Rightarrow> int \<Rightarrow> refund_auction \<Rightarrow> refund_auction result" where
  "ra_bid e bidder amount s =
     require_auth e bidder (
     let high_bid = unwrap_or (ra_HighBid s) 0 in
     panic_if (amount \<le> high_bid) ''bid too low'' (
     panic_if (high_bid > 0 \<and> unwrap_or (ra_RefundBlocked s) False) ''refund transfer failed'' (
     Ok (s\<lparr>ra_HighBidder := Some bidder, ra_HighBid := Some amount\<rparr>))))"

definition ra_high_bid :: "refund_auction \<Rightarrow> int" where
  "ra_high_bid s = unwrap_or (ra_HighBid s) 0"

definition ra_high_bidder :: "refund_auction \<Rightarrow> address option" where
  "ra_high_bidder s = ra_HighBidder s"

definition ras_initialize :: "env \<Rightarrow> refund_auction \<Rightarrow> refund_auction result" where
  "ras_initialize e s =
     panic_if (ra_HighBid s \<noteq> None) ''already initialized'' (
     Ok (s\<lparr>ra_HighBid := Some 0, ra_RefundBlocked := Some False\<rparr>))"

definition ras_set_refund_blocked :: "env \<Rightarrow> bool \<Rightarrow> refund_auction \<Rightarrow> refund_auction result" where
  "ras_set_refund_blocked e blocked s = Ok (s\<lparr>ra_RefundBlocked := Some blocked\<rparr>)"

definition ras_bid :: "env \<Rightarrow> address \<Rightarrow> int \<Rightarrow> refund_auction \<Rightarrow> refund_auction result" where
  "ras_bid e bidder amount s =
     require_auth e bidder (
     let high_bid = unwrap_or (ra_HighBid s) 0 in
     panic_if (amount \<le> high_bid) ''bid too low'' (
     and_then
       (if high_bid > 0 then
          case ra_HighBidder s of
            None \<Rightarrow> Ok s
          | Some prev_bidder \<Rightarrow>
              let existing = get0 (ra_Refund s) prev_bidder in
              arith (checked_add I128 existing high_bid) (\<lambda>r.
              Ok (s\<lparr>ra_Refund := (ra_Refund s)(prev_bidder \<mapsto> r)\<rparr>))
        else Ok s)
       (\<lambda>s1. Ok (s1\<lparr>ra_HighBidder := Some bidder, ra_HighBid := Some amount\<rparr>))))"

definition ras_claim_refund :: "env \<Rightarrow> address \<Rightarrow> refund_auction \<Rightarrow> (int \<times> refund_auction) result" where
  "ras_claim_refund e bidder s =
     require_auth e bidder (
     let amount = get0 (ra_Refund s) bidder in
     panic_if (amount = 0) ''no refund available'' (
     Ok (amount, s\<lparr>ra_Refund := (ra_Refund s)(bidder \<mapsto> 0)\<rparr>)))"

definition ras_claimable_refund :: "refund_auction \<Rightarrow> address \<Rightarrow> int" where
  "ras_claimable_refund s bidder = get0 (ra_Refund s) bidder"

definition ras_high_bid :: "refund_auction \<Rightarrow> int" where
  "ras_high_bid s = unwrap_or (ra_HighBid s) 0"

definition ras_high_bidder :: "refund_auction \<Rightarrow> address option" where
  "ras_high_bidder s = ra_HighBidder s"

datatype refund_call =
    RInitialize
  | RSetRefundBlocked bool
  | RBid address int
  | RClaimRefund address

fun ras_exec :: "env \<Rightarrow> refund_call \<Rightarrow> refund_auction \<Rightarrow> refund_auction result" where
  "ras_exec e RInitialize s = ras_initialize e s"
| "ras_exec e (RSetRefundBlocked b) s = ras_set_refund_blocked e b s"
| "ras_exec e (RBid a n) s = ras_bid e a n s"
| "ras_exec e (RClaimRefund a) s = state_of (ras_claim_refund e a s)"

lemmas close_defs = ca_initialize_def ca_bid_def ca_close_def cas_initialize_def cas_bid_def cas_close_def
lemmas step_defs = sa_initialize_def sa_bid_def sas_initialize_def sas_bid_def
lemmas refund_defs = ras_initialize_def ras_set_refund_blocked_def ras_bid_def ras_claim_refund_def

section \<open>Settlement\<close>

text \<open>The end of the auction has been set and reached.\<close>

definition ended :: "env \<Rightarrow> close_auction \<Rightarrow> bool" where
  "ended e s = (case ca_EndLedger s of None \<Rightarrow> False | Some t \<Rightarrow> t \<le> sequence e)"

fun close_guard :: "env \<Rightarrow> close_call \<Rightarrow> close_auction \<Rightarrow> bool" where
  "close_guard e CClose s = ended e s"
| "close_guard e c s = True"

interpretation auction_hardened: hardened ca_exec cas_exec close_guard
proof (unfold_locales, goal_cases)
  case (1 e c s s')
  show ?case
    by (cases c) (auto simp: close_defs result_simps ended_def split: option.splits)
qed

interpretation auction_closing: guarded_steps cas_exec "\<lambda>s t. cas_is_closed t \<longrightarrow> cas_is_closed s"
    "\<lambda>e c s. c = CClose \<and> ended e s"
proof (unfold_locales, goal_cases)
  case (3 e c s s')
  then show ?case
    by (cases c) (auto simp: close_defs result_simps cas_is_closed_def ended_def)
qed auto

text \<open>Once an end is set it stays, and once the auction is closed so does its outcome.\<close>

definition settled_le :: "close_auction \<Rightarrow> close_auction \<Rightarrow> bool" where
  "settled_le s t \<longleftrightarrow> (\<forall>x. ca_EndLedger s = Some x \<longrightarrow> ca_EndLedger t = Some x \<and>
     (cas_is_closed s \<longrightarrow> cas_is_closed t \<and> ca_HighBidder t = ca_HighBidder s \<and> ca_HighBid t = ca_HighBid s))"

interpretation auction_final: contract_progress cas_exec settled_le
proof (unfold_locales, goal_cases)
  case (3 e c s s')
  then show ?case
    by (cases c) (auto simp: close_defs result_simps settled_le_def cas_is_closed_def)
qed (auto simp: settled_le_def)

text \<open>
  Settlement (\<^verbatim>\<open>auction_close_early/src/secure.rs\<close>): if the auction is closed after a run from
  deployment, then one call of the run closed it at or after the end ledger that was set, its winner
  was the highest bidder at that moment, and the winner and the winning bid have not changed since.
\<close>

theorem auction_settles_after_end:
  assumes "cas_is_closed (run_calls cas_exec xs ca_empty)" (is "cas_is_closed ?u")
  shows "\<exists>ys e zs winner t s'. xs = ys @ (e, CClose) # zs
    \<and> cas_close e (run_calls cas_exec ys ca_empty) = Ok (winner, s')
    \<and> ca_EndLedger ?u = Some t \<and> t \<le> sequence e
    \<and> cas_high_bidder (run_calls cas_exec ys ca_empty) = Some winner
    \<and> cas_high_bidder ?u = Some winner
    \<and> cas_high_bid ?u = cas_high_bid (run_calls cas_exec ys ca_empty)"
proof -
  have "\<not> (cas_is_closed ?u \<longrightarrow> cas_is_closed ca_empty)"
    using assms by (simp add: cas_is_closed_def ca_empty_def)
  then obtain ys e c zs s' where split: "xs = ys @ (e, c) # zs"
    and guard: "c = CClose" "ended e (run_calls cas_exec ys ca_empty)"
    and step: "cas_exec e c (run_calls cas_exec ys ca_empty) = Ok s'"
    using auction_closing.run_guard by metis
  let ?t = "run_calls cas_exec ys ca_empty"
  from guard step obtain winner where
    close: "cas_close e ?t = Ok (winner, s')" by (auto simp: result_simps)
  from guard(2) obtain t where t: "ca_EndLedger ?t = Some t" "t \<le> sequence e"
    by (auto simp: ended_def split: option.splits)
  from close have s': "s' = ?t\<lparr>ca_Closed := Some True\<rparr>" and w: "ca_HighBidder ?t = Some winner"
    by (auto simp: cas_close_def result_simps)
  have u: "?u = run_calls cas_exec zs s'"
    using split step by (simp add: run_calls_append)
  have "settled_le s' ?u"
    unfolding u by (rule auction_final.run_le)
  then have "ca_EndLedger ?u = Some t" "ca_HighBidder ?u = Some winner" "ca_HighBid ?u = ca_HighBid ?t"
    using t(1) w by (auto simp: settled_le_def s' cas_is_closed_def)
  with split guard(1) close t w show ?thesis
    by (metis cas_high_bidder_def cas_high_bid_def)
qed

definition auction_demo :: "(env \<times> close_call) list" where
  "auction_demo = [(signed_env [] 1, CInitialize 10), (signed_env [Address 2] 3, CBid (Address 2) 50),
     (signed_env [] 4, CClose), (signed_env [Address 3] 5, CBid (Address 3) 70), (signed_env [] 12, CClose),
     (signed_env [Address 2] 13, CBid (Address 2) 90)]"

lemmas auction_demo_simps = auction_demo_def ca_empty_def signed_env_def close_defs cas_is_closed_def

lemma auction_demo_closed: "cas_is_closed (run_calls cas_exec auction_demo ca_empty)"
  by (simp add: auction_demo_simps)

lemma auction_demo_winner: "cas_high_bidder (run_calls cas_exec auction_demo ca_empty) = Some (Address 3)"
  by (simp add: auction_demo_simps cas_high_bidder_def)

theorem auction_settles_after_end_witness:
  "cas_is_closed (run_calls cas_exec auction_demo ca_empty)
   \<and> cas_high_bidder (run_calls cas_exec auction_demo ca_empty) = Some (Address 3)
   \<and> (\<exists>ys e zs. auction_demo = ys @ (e, CClose) # zs
        \<and> cas_high_bidder (run_calls cas_exec ys ca_empty) = Some (Address 3))"
  using auction_demo_closed auction_demo_winner auction_settles_after_end [OF auction_demo_closed] by force

text \<open>
  The unrepaired \<^verbatim>\<open>close\<close> settles at any time; and in both halves \<^verbatim>\<open>bid\<close> never looks at the end ledger, so
  a bid arriving after the end still wins as long as nobody has called \<^verbatim>\<open>close\<close>.
\<close>

lemma close_any_time:
  "\<not> ca_is_closed s \<Longrightarrow> ca_high_bidder s = Some w
   \<Longrightarrow> ca_close e s = Ok (w, s\<lparr>ca_Closed := Some True\<rparr>)"
  by (simp add: ca_close_def ca_is_closed_def ca_high_bidder_def)

lemma late_bid_accepted:
  assumes "authorized e a" and "\<not> cas_is_closed s" and "cas_high_bid s < n"
  shows "\<exists>t. cas_bid e a n s = Ok t \<and> cas_high_bidder t = Some a \<and> ca_EndLedger t = ca_EndLedger s"
  using assms by (simp add: cas_bid_def cas_is_closed_def cas_high_bid_def cas_high_bidder_def)

section \<open>Steps of a bid\<close>

fun is_SBid :: "step_call \<Rightarrow> bool" where
  "is_SBid (SBid a n) = True"
| "is_SBid c = False"

interpretation auction_steps: growing_flow sas_exec "\<lambda>s. sa_MinIncrement s = Some d" sas_high_bid
    "\<lambda>e c s. if is_SBid c then d else 0"
  for d
proof (unfold_locales, goal_cases)
  case (1 s e c s')
  then show ?case by (cases c) (auto simp: step_defs result_simps)
next
  case (2 s e c s')
  then show ?case
    by (cases c) (auto simp: step_defs result_simps int_simps sas_high_bid_def)
qed

text \<open>
  Minimum increment (\<^verbatim>\<open>auction_min_increment_missing/src/secure.rs\<close>): once the auction is initialised with
  increment \<open>d\<close>, after any run the highest bid is at least \<open>d\<close> times the number of bids accepted, so a
  sequence of one-unit bids is impossible.
\<close>

theorem auction_bids_step_up:
  assumes "sas_initialize e d s0 = Ok s"
  shows "d * int (length (filter is_SBid (successes sas_exec xs s))) \<le> sas_high_bid (run_calls sas_exec xs s)"
proof -
  from assms have "sa_MinIncrement s = Some d" and "sas_high_bid s = 0"
    by (auto simp: sas_initialize_def result_simps sas_high_bid_def)
  then show ?thesis
    using auction_steps.run_grows [of s d xs] by (simp add: run_flow_count)
qed

definition step_start :: step_auction where
  "step_start = sa_empty\<lparr>sa_MinIncrement := Some 10, sa_HighBid := Some 0\<rparr>"

definition step_demo :: "(env \<times> step_call) list" where
  "step_demo = [(signed_env [Address 2] 3, SBid (Address 2) 15), (signed_env [Address 3] 4, SBid (Address 3) 16),
     (signed_env [Address 3] 5, SBid (Address 3) 30)]"

lemma step_start_initialized: "sas_initialize (signed_env [] 1) 10 sa_empty = Ok step_start"
  by (simp add: sas_initialize_def sa_empty_def step_start_def)

lemma step_demo_bids:
  "successes sas_exec step_demo step_start = [SBid (Address 2) 15, SBid (Address 3) 30]"
  "sas_high_bid (run_calls sas_exec step_demo step_start) = 30"
  by (simp_all add: step_demo_def step_start_def sa_empty_def signed_env_def sas_bid_def sas_high_bid_def
      checked_add_def checked_def in_range_def)

theorem auction_bids_step_up_witness:
  "length (filter is_SBid (successes sas_exec step_demo step_start)) = 2
   \<and> 10 * (2::int) \<le> sas_high_bid (run_calls sas_exec step_demo step_start)
   \<and> sas_high_bid (run_calls sas_exec step_demo step_start) = 30"
  using auction_bids_step_up [OF step_start_initialized, of step_demo] by (simp add: step_demo_bids)

text \<open>The unrepaired contract accepts a bid one unit above the last, whatever the increment.\<close>

lemma one_unit_bid_accepted:
  "authorized e a \<Longrightarrow> \<exists>t. sa_bid e a (sa_high_bid s + 1) s = Ok t \<and> sa_high_bid t = sa_high_bid s + 1
     \<and> sa_min_increment t = sa_min_increment s"
  by (simp add: sa_bid_def sa_high_bid_def sa_min_increment_def)

section \<open>Refunds\<close>

definition refund_inv :: "refund_auction \<Rightarrow> bool" where
  "refund_inv s \<longleftrightarrow> (if ra_HighBidder s = None then ras_high_bid s = 0 else 0 < ras_high_bid s)
     \<and> (\<forall>a. 0 \<le> ras_claimable_refund s a)"

text \<open>What the contract owes to one bidder: the refund that can be claimed and the bid that stands.\<close>

definition stake_of :: "address \<Rightarrow> refund_auction \<Rightarrow> int" where
  "stake_of a s = ras_claimable_refund s a + (if ras_high_bidder s = Some a then ras_high_bid s else 0)"

fun bid_of :: "address \<Rightarrow> env \<Rightarrow> refund_call \<Rightarrow> refund_auction \<Rightarrow> int" where
  "bid_of a e (RBid b n) s = (if b = a then n else 0)"
| "bid_of a e c s = 0"

fun claim_of :: "address \<Rightarrow> env \<Rightarrow> refund_call \<Rightarrow> refund_auction \<Rightarrow> int" where
  "claim_of a e (RClaimRefund b) s = (if b = a then ras_claimable_refund s a else 0)"
| "claim_of a e c s = 0"

lemmas refund_views = ras_high_bid_def ras_high_bidder_def ras_claimable_refund_def

lemma refund_inv_empty: "refund_inv ra_empty"
  by (simp add: refund_inv_def ra_empty_def refund_views)

interpretation refund_kept: conserved_flow ras_exec refund_inv "stake_of a" "\<lambda>e c s. bid_of a e c s - claim_of a e c s"
  for a
proof (unfold_locales, goal_cases)
  case (1 s e c s')
  then show ?case
    by (cases c) (auto simp: refund_defs result_simps int_simps refund_inv_def refund_views Let_def
        split: if_splits option.splits)
next
  case (2 s e c s')
  then show ?case
    by (cases c) (auto simp: refund_defs result_simps int_simps refund_inv_def refund_views stake_of_def Let_def
        split: if_splits option.splits)
qed

text \<open>
  Refunds (\<^verbatim>\<open>auction_refund_block/src/secure.rs\<close>): after any run from deployment, what a bidder can still
  claim plus the bid that stands in the bidder's name is exactly the sum of the bidder's accepted bids
  less the sum of the refunds paid out to the bidder. No bid is lost and none is refunded twice.
\<close>

theorem refund_auction_exact:
  "stake_of a (run_calls ras_exec xs ra_empty)
   = run_flow ras_exec (bid_of a) xs ra_empty - run_flow ras_exec (claim_of a) xs ra_empty"
  using refund_kept.run_conserves [OF refund_inv_empty, of a xs]
  by (simp add: run_flow_diff) (simp add: stake_of_def ra_empty_def refund_views)

text \<open>
  C31: Progress (\<^verbatim>\<open>auction_refund_block/src/secure.rs\<close>): in every reachable state an authorised bid above the
  highest one is accepted, whatever the refund flag says, provided the refund of the bidder it
  replaces fits an \<^verbatim>\<open>i128\<close>; and afterwards the replaced bidder can at once claim everything due.
\<close>

theorem refund_auction_never_blocks:
  assumes "authorized e a" and "ras_high_bid (run_calls ras_exec xs ra_empty) < n"
    and "\<And>p. ras_high_bidder (run_calls ras_exec xs ra_empty) = Some p
           \<Longrightarrow> stake_of p (run_calls ras_exec xs ra_empty) < 2 ^ 127"
  shows "\<exists>t. ras_bid e a n (run_calls ras_exec xs ra_empty) = Ok t \<and> ras_high_bid t = n
    \<and> ras_high_bidder t = Some a
    \<and> (\<forall>p e'. ras_high_bidder (run_calls ras_exec xs ra_empty) = Some p \<longrightarrow> authorized e' p
         \<longrightarrow> (\<exists>t'. ras_claim_refund e' p t = Ok (stake_of p (run_calls ras_exec xs ra_empty), t')))"
proof -
  let ?u = "run_calls ras_exec xs ra_empty"
  have inv: "refund_inv ?u"
    by (rule refund_kept.run_inv [OF refund_inv_empty])
  show ?thesis
  proof (cases "ra_HighBidder ?u")
    case None
    with assms inv show ?thesis
      by (simp add: ras_bid_def refund_inv_def refund_views)
  next
    case (Some p)
    with inv have pos: "0 < ras_high_bid ?u" and nn: "0 \<le> ras_claimable_refund ?u p"
      by (auto simp: refund_inv_def)
    with assms(3) [of p] Some have "in_range I128 (get0 (ra_Refund ?u) p + ras_high_bid ?u)"
      by (simp add: in_range_def stake_of_def refund_views)
    with assms(1,2) Some pos nn show ?thesis
      by (simp add: ras_bid_def ras_claim_refund_def refund_views stake_of_def checked_add_def)
  qed
qed

definition refund_demo :: "(env \<times> refund_call) list" where
  "refund_demo = [(signed_env [] 1, RInitialize), (signed_env [Address 2] 2, RBid (Address 2) 50),
     (signed_env [] 3, RSetRefundBlocked True)]"

lemma refund_demo_state:
  "run_calls ras_exec refund_demo ra_empty = \<lparr>ra_HighBidder = Some (Address 2), ra_HighBid = Some 50,
     ra_Refund = Map.empty, ra_RefundBlocked = Some True\<rparr>"
  by (simp add: refund_demo_def ra_empty_def signed_env_def refund_defs)

theorem refund_auction_never_blocks_witness:
  "\<exists>t t'. ras_bid (signed_env [Address 3] 4) (Address 3) 60 (run_calls ras_exec refund_demo ra_empty) = Ok t
    \<and> ras_high_bid t = 60
    \<and> ras_claim_refund (signed_env [Address 2] 5) (Address 2) t = Ok (50, t')"
proof -
  have "\<exists>t. ras_bid (signed_env [Address 3] 4) (Address 3) 60 (run_calls ras_exec refund_demo ra_empty) = Ok t
      \<and> ras_high_bid t = 60 \<and> ras_high_bidder t = Some (Address 3)
      \<and> (\<forall>p e'. ras_high_bidder (run_calls ras_exec refund_demo ra_empty) = Some p \<longrightarrow> authorized e' p
           \<longrightarrow> (\<exists>t'. ras_claim_refund e' p t = Ok (stake_of p (run_calls ras_exec refund_demo ra_empty), t')))"
    by (rule refund_auction_never_blocks)
       (auto simp: signed_env_def refund_demo_state refund_views stake_of_def)
  then obtain t where t: "ras_bid (signed_env [Address 3] 4) (Address 3) 60 (run_calls ras_exec refund_demo ra_empty) = Ok t"
    "ras_high_bid t = 60"
    and claim: "\<And>e'. authorized e' (Address 2)
      \<Longrightarrow> \<exists>t'. ras_claim_refund e' (Address 2) t = Ok (stake_of (Address 2) (run_calls ras_exec refund_demo ra_empty), t')"
    by (auto simp: refund_demo_state refund_views)
  from claim [of "signed_env [Address 2] 5"] show ?thesis
    using t by (simp add: signed_env_def refund_demo_state refund_views stake_of_def)
qed

text \<open>
  The unrepaired contract refunds inside \<^verbatim>\<open>bid\<close>: while the standing bidder refuses the refund nobody can
  bid. The repaired one has a remaining corner: a refund that does not fit an \<^verbatim>\<open>i128\<close> traps the bid.
\<close>

lemma refused_refund_freezes:
  assumes "0 < ra_high_bid s" and "ra_RefundBlocked s = Some True"
  shows "\<exists>x. ra_bid e a n s = Err x"
  using assms by (cases "ra_bid e a n s") (auto simp: ra_bid_def ra_high_bid_def result_simps)

lemma refund_overflow_freezes:
  assumes "ras_high_bidder s = Some p" and "0 < ras_high_bid s"
    and "\<not> in_range I128 (ras_claimable_refund s p + ras_high_bid s)"
  shows "\<exists>x. ras_bid e a n s = Err x"
  using assms by (cases "ras_bid e a n s") (auto simp: ras_bid_def refund_views result_simps int_simps Let_def)

end
