(* ===== verification/Price_Feeds.thy ===== *)
theory Price_Feeds
  imports Soroban_Containers "HOL-Library.Multiset"
begin

text \<open>
  Aggregation of prices: the median of several feeds (\<^verbatim>\<open>src/vulnerable/even_median_bias\<close>, both halves) and
  the time-weighted average over a window of observations (\<^verbatim>\<open>src/vulnerable/twap_window_too_short\<close>, both
  halves). The loops of the code are kept as loops: the insertion sort's inner \<^verbatim>\<open>while\<close> as a partial
  function that is shown to return, with the sorted list; the trimming \<^verbatim>\<open>while\<close> of the window likewise.
\<close>

section \<open>even\_median\_bias\<close>

text \<open>
  \<^verbatim>\<open>while j > 0 && prices.get(j - 1).unwrap() > prices.get(j).unwrap() { swap; j -= 1 }\<close>. The value
  \<^verbatim>\<open>None\<close> stands for a loop that does not end.
\<close>

partial_function (option) sink_loop :: "int list \<Rightarrow> int \<Rightarrow> int list result option" where
  "sink_loop prices j =
     (if j > 0 then
        (case vec_get prices (j - 1) of
           None \<Rightarrow> Some (Err UnwrapNone)
         | Some a \<Rightarrow>
             (case vec_get prices j of
                None \<Rightarrow> Some (Err UnwrapNone)
              | Some b \<Rightarrow>
                  if a > b then sink_loop (prices[nat (j - 1) := b, nat j := a]) (j - 1)
                  else Some (Ok prices)))
      else Some (Ok prices))"

text \<open>\<^verbatim>\<open>for i in 1..n\<close> around it.\<close>

partial_function (option) sort_loop :: "int list \<Rightarrow> int \<Rightarrow> int \<Rightarrow> int list result option" where
  "sort_loop prices i n =
     (if i < n then
        Option.bind (sink_loop prices i) (\<lambda>r.
          case r of Inl x \<Rightarrow> Some (Err x) | Inr prices' \<Rightarrow> sort_loop prices' (i + 1) n)
      else Some (Ok prices))"

definition median_vulnerable :: "env \<Rightarrow> int list \<Rightarrow> int result option" where
  "median_vulnerable e prices =
     (let n = vec_len prices in
      if \<not> n > 0 then Some (Err (Panic ''no prices''))
      else map_option (\<lambda>r. and_then r (\<lambda>sorted_prices.
             arith (checked_sub U32 (n div 2) 1) (\<lambda>k. unwrap (vec_get sorted_prices k) Ok)))
           (sort_loop prices 1 n))"

definition vulnerable_entry :: "env \<Rightarrow> address \<Rightarrow> int \<Rightarrow> int result option" where
  "vulnerable_entry e actor amount =
     map_option (\<lambda>r. and_then r (\<lambda>price. arith (checked_mul I128 price amount) Ok))
       (median_vulnerable e [110, 90, 105, 95])"

definition median :: "env \<Rightarrow> int list \<Rightarrow> int result option" where
  "median e prices =
     (let n = vec_len prices in
      if \<not> n > 0 then Some (Err (Panic ''no prices''))
      else if \<not> n mod 2 = 1 then Some (Err (Panic ''even feed count''))
      else map_option (\<lambda>r. and_then r (\<lambda>sorted_prices. unwrap (vec_get sorted_prices (n div 2)) Ok))
           (sort_loop prices 1 n))"

subsection \<open>The sort terminates and sorts\<close>

lemma sort_snoc_swap:
  assumes "sorted (ys @ [x])" and "y < (x :: int)"
  shows "sort (ys @ [y]) @ [x] = sort (ys @ [x, y])"
  by (rule properties_for_sort [symmetric])
     (use assms in \<open>auto simp: sorted_append intro: less_imp_le\<close>)

lemma sink_loop_sorts:
  assumes "j < length prices" and "sorted (take j prices)"
  shows "sink_loop prices (int j) = Some (Ok (sort (take (Suc j) prices) @ drop (Suc j) prices))"
  using assms
proof (induction j arbitrary: prices)
  case 0
  then show ?case
    by (subst sink_loop.simps) (cases prices; simp)
next
  case (Suc k)
  let ?x = "prices ! k" and ?y = "prices ! Suc k"
  let ?p = "prices[k := ?y, Suc k := ?x]"
  have take_k: "take (Suc k) prices = take k prices @ [?x]"
    and take_Suc: "take (Suc (Suc k)) prices = take k prices @ [?x, ?y]"
    using Suc.prems(1) by (simp_all add: take_Suc_conv_app_nth)
  have unfold: "sink_loop prices (int (Suc k)) =
      (if ?x > ?y then sink_loop ?p (int k) else Some (Ok prices))"
    using Suc.prems(1) by (subst sink_loop.simps) (simp add: vec_get_def vec_len_def nat_add_distrib)
  show ?case
  proof (cases "?x > ?y")
    case True
    have "sorted (take k ?p)"
      using Suc.prems(2) take_k by (simp add: sorted_append)
    then have IH: "sink_loop ?p (int k) = Some (Ok (sort (take (Suc k) ?p) @ drop (Suc k) ?p))"
      using Suc.prems(1) by (intro Suc.IH) simp_all
    have "take (Suc k) ?p = take k prices @ [?y]" "drop (Suc k) ?p = ?x # drop (Suc (Suc k)) prices"
      using Suc.prems(1)
      by (simp_all add: take_Suc_conv_app_nth drop_update_swap Cons_nth_drop_Suc [symmetric])
    with IH True unfold show ?thesis
      using sort_snoc_swap [of "take k prices" ?x ?y] Suc.prems(2) take_k take_Suc by simp
  next
    case False
    then have "sorted (take (Suc (Suc k)) prices)"
      using Suc.prems(2) by (auto simp: take_k take_Suc sorted_append)
    with False unfold show ?thesis
      by (simp add: sorted_sort_id del: take_Suc)
  qed
qed

lemma sort_loop_sorts:
  assumes "i \<le> length prices" and "sorted (take i prices)"
  shows "sort_loop prices (int i) (int (length prices)) = Some (Ok (sort prices))"
  using assms
proof (induction "length prices - i" arbitrary: i prices)
  case 0
  then show ?case
    by (subst sort_loop.simps) (simp add: sorted_sort_id)
next
  case (Suc m)
  let ?p = "sort (take (Suc i) prices) @ drop (Suc i) prices"
  have len: "length ?p = length prices" and lt: "i < length prices"
    using Suc.hyps(2) by simp_all
  have "sorted (take (Suc i) ?p)"
    using lt by simp
  then have "sort_loop ?p (int (Suc i)) (int (length ?p)) = Some (Ok (sort ?p))"
    using Suc.hyps(1) [of ?p "Suc i"] Suc.hyps(2) lt len by simp
  moreover have "sort ?p = sort prices"
  proof (rule properties_for_sort)
    have "mset (take (Suc i) prices) + mset (drop (Suc i) prices) = mset prices"
      by (metis append_take_drop_id mset_append)
    then show "mset (sort prices) = mset ?p" by simp
  qed simp
  ultimately show ?case
    using sink_loop_sorts [OF lt Suc.prems(2)] lt len
    by (subst sort_loop.simps) (simp add: add.commute)
qed

lemma sort_loop_from_1: "sort_loop prices 1 (int (length prices)) = Some (Ok (sort prices))"
proof (cases prices)
  case Nil
  then show ?thesis by (subst sort_loop.simps) simp
next
  case (Cons p ps)
  then show ?thesis
    using sort_loop_sorts [of 1 prices] by simp
qed

text \<open>
  C29: The sort of \<^verbatim>\<open>median\<close> and \<^verbatim>\<open>median_vulnerable\<close> (two nested loops over a vector updated in place) returns
  on every input, without a trap, and what it returns is the sorted list.
\<close>

theorem insertion_sort_terminates:
  "sort_loop prices 1 (vec_len prices) = Some (Ok (sort prices))"
  by (simp add: vec_len_def sort_loop_from_1)

subsection \<open>The median\<close>

text \<open>What the repaired \<^verbatim>\<open>median\<close> computes, on every input.\<close>

lemma median_value:
  "median e prices = Some (if prices = [] then Err (Panic ''no prices'')
     else if even (length prices) then Err (Panic ''even feed count'')
     else Ok (sort prices ! (length prices div 2)))"
proof -
  have "vec_get (sort prices) (int (length prices) div 2) = Some (sort prices ! (length prices div 2))"
    if "prices \<noteq> []"
  proof -
    from that have "int (length prices) div 2 < int (length prices)"
      by (intro int_div_less_self) auto
    then show ?thesis by (simp add: vec_get_def vec_len_def nat_div_distrib)
  qed
  moreover have "int (length prices) mod 2 = 1 \<longleftrightarrow> odd (length prices)"
    by presburger
  ultimately show ?thesis
    by (auto simp: median_def Let_def vec_len_def sort_loop_from_1)
qed

lemma median_vulnerable_value:
  assumes "2 \<le> length prices" and "length prices < 2 ^ 32"
  shows "median_vulnerable e prices = Some (Ok (sort prices ! (length prices div 2 - 1)))"
proof -
  let ?n = "int (length prices)"
  have "in_range U32 (?n div 2 - 1)"
    using assms by (simp add: in_range_def) linarith
  moreover have "0 \<le> ?n div 2 - 1" "?n div 2 - 1 < ?n" "nat (?n div 2 - 1) = length prices div 2 - 1"
    using assms(1) by (simp_all add: nat_diff_distrib nat_div_distrib)
  ultimately show ?thesis
    using assms(1)
    by (auto simp: median_vulnerable_def Let_def vec_len_def sort_loop_from_1 checked_sub_def vec_get_def)
qed

text \<open>With a single feed the unrepaired code underflows its index and traps.\<close>

lemma median_vulnerable_single: "median_vulnerable e [p] = Some (Err ArithOverflow)"
  using sort_loop_from_1 [of "[p]"]
  by (simp add: median_vulnerable_def vec_len_def checked_sub_def in_range_def)

text \<open>The demonstration entry point values the asset at the lower of the two middle prices.\<close>

lemma vulnerable_entry_value:
  "in_range I128 (95 * amount) \<Longrightarrow> vulnerable_entry e actor amount = Some (Ok (95 * amount))"
  using median_vulnerable_value [of "[110, 90, 105, 95]" e]
  by (simp add: vulnerable_entry_def checked_mul_def)

lemma nth_le_filter:
  assumes "sorted xs" and "k < length xs" and "\<And>x. x \<in> set xs \<Longrightarrow> x \<le> xs ! k \<Longrightarrow> \<not> P x"
  shows "length (filter P xs) + Suc k \<le> length (xs :: int list)"
proof -
  have none: "filter P (take (Suc k) xs) = []"
  proof -
    have "\<not> P x" if "x \<in> set (take (Suc k) xs)" for x
    proof -
      from that assms(2) obtain i where "i \<le> k" "x = xs ! i"
        by (auto simp: in_set_conv_nth less_Suc_eq_le)
      then show ?thesis
        using assms by (auto intro!: assms(3) simp: sorted_nth_mono)
    qed
    then show ?thesis by (simp add: filter_empty_conv)
  qed
  have "filter P xs = filter P (take (Suc k) xs) @ filter P (drop (Suc k) xs)"
    by (metis append_take_drop_id filter_append)
  with none have "length (filter P xs) \<le> length (drop (Suc k) xs)"
    using length_filter_le [of P "drop (Suc k) xs"] by simp
  with assms(2) show ?thesis by simp
qed

lemma nth_ge_filter:
  assumes "sorted xs" and "k < length xs" and "\<And>x. x \<in> set xs \<Longrightarrow> xs ! k \<le> x \<Longrightarrow> \<not> P x"
  shows "length (filter P (xs :: int list)) \<le> k"
proof -
  have "\<not> P x" if "x \<in> set (drop k xs)" for x
  proof -
    from that assms(2) obtain i where "i < length xs - k" "x = xs ! (k + i)"
      by (auto simp: in_set_conv_nth)
    then show ?thesis
      using assms by (auto intro!: assms(3) simp: sorted_nth_mono)
  qed
  then have "filter P (drop k xs) = []" by (simp add: filter_empty_conv)
  moreover have "filter P xs = filter P (take k xs) @ filter P (drop k xs)"
    by (metis append_take_drop_id filter_append)
  ultimately have "length (filter P xs) \<le> length (take k xs)"
    using length_filter_le [of P "take k xs"] by simp
  then show ?thesis by simp
qed

text \<open>
  C30: Robustness of the repaired median: if more than half of the feeds lie in an interval then so does
  the median, whatever the other feeds report. A minority cannot move the price out of the range of
  the honest feeds.
\<close>

theorem median_within_honest_majority:
  assumes ok: "median e prices = Some (Ok m)"
    and honest: "length prices < 2 * length (filter (\<lambda>p. lo \<le> p \<and> p \<le> hi) prices)"
  shows "lo \<le> m \<and> m \<le> hi"
proof -
  let ?P = "\<lambda>p. lo \<le> p \<and> p \<le> hi" and ?xs = "sort prices" and ?k = "length prices div 2"
  from ok have ne: "prices \<noteq> []" and odd: "odd (length prices)" and m: "m = ?xs ! ?k"
    by (auto simp: median_value split: if_splits)
  have k: "?k < length ?xs" using ne by simp
  have count: "length (filter ?P ?xs) = length (filter ?P prices)"
    by (metis mset_filter mset_sort size_mset)
  have n: "length prices = 2 * ?k + 1" using odd by presburger
  have "lo \<le> m"
  proof (rule ccontr)
    assume "\<not> lo \<le> m"
    then have "length (filter ?P ?xs) + Suc ?k \<le> length ?xs"
      using k m by (intro nth_le_filter) auto
    with count n honest show False by simp
  qed
  moreover have "m \<le> hi"
  proof (rule ccontr)
    assume "\<not> m \<le> hi"
    then have "length (filter ?P ?xs) \<le> ?k"
      using k m by (intro nth_ge_filter) auto
    with count n honest show False by simp
  qed
  ultimately show ?thesis ..
qed

theorem median_within_honest_majority_witness:
  "median (signed_env [] 1) [7, 100, 102, 101, 9000] = Some (Ok 101) \<and> (100::int) \<le> 101 \<and> 101 \<le> (102::int)"
proof -
  have "median (signed_env [] 1) [7, 100, 102, 101, 9000] = Some (Ok 101)"
    by (simp add: median_value)
  with median_within_honest_majority [OF this, of 100 102] show ?thesis by simp
qed

section \<open>twap\_window\_too\_short\<close>

record observation =
  ob_ledger :: int
  ob_price :: int

record twap =
  tw_Admin :: "address option"
  tw_Window :: "int option"
  tw_Observations :: "observation list option"

definition tw_empty :: twap where
  "tw_empty = \<lparr>tw_Admin = None, tw_Window = None, tw_Observations = None\<rparr>"

text \<open>\<^verbatim>\<open>while obs.len() > window { obs.remove(0); }\<close>\<close>

fun trim_loop :: "int \<Rightarrow> 'a list \<Rightarrow> 'a list" where
  "trim_loop window [] = []"
| "trim_loop window (x # obs) = (if vec_len (x # obs) > window then trim_loop window obs else x # obs)"

text \<open>\<^verbatim>\<open>for o in obs.iter() { sum += o.price; }\<close>\<close>

fun sum_loop :: "int \<Rightarrow> observation list \<Rightarrow> int result" where
  "sum_loop acc [] = Ok acc"
| "sum_loop acc (x # obs) = arith (checked_add I128 acc (ob_price x)) (\<lambda>acc'. sum_loop acc' obs)"

definition tw_initialize :: "env \<Rightarrow> address \<Rightarrow> int \<Rightarrow> twap \<Rightarrow> twap result" where
  "tw_initialize e admin window s =
     panic_if (tw_Admin s \<noteq> None) ''already initialized'' (
     ensure (window > 0) ''window must be positive'' (
     Ok (s\<lparr>tw_Admin := Some admin, tw_Window := Some window, tw_Observations := Some []\<rparr>)))"

definition tw_record_price :: "env \<Rightarrow> address \<Rightarrow> int \<Rightarrow> twap \<Rightarrow> twap result" where
  "tw_record_price e actor price s =
     expect (tw_Admin s) ''not initialized'' (\<lambda>admin.
     panic_if (actor \<noteq> admin) ''unauthorized'' (
     require_auth e actor (
     ensure (price > 0) ''price must be positive'' (
     expect (tw_Window s) ''window not set'' (\<lambda>window.
     let obs = unwrap_or (tw_Observations s) [] @ [\<lparr>ob_ledger = sequence e, ob_price = price\<rparr>] in
     Ok (s\<lparr>tw_Observations := Some (trim_loop window obs)\<rparr>))))))"

definition tw_get_twap :: "twap \<Rightarrow> int result" where
  "tw_get_twap s =
     (let obs = unwrap_or (tw_Observations s) [] in
      ensure (obs \<noteq> []) ''no observations recorded'' (
      and_then (sum_loop 0 obs) (\<lambda>acc. arith (checked_div I128 acc (vec_len obs)) Ok)))"

definition tw_get_window :: "twap \<Rightarrow> int" where
  "tw_get_window s = unwrap_or (tw_Window s) 0"

definition tw_observation_count :: "twap \<Rightarrow> int" where
  "tw_observation_count s = vec_len (unwrap_or (tw_Observations s) [])"

definition MIN_TWAP_WINDOW :: int where "MIN_TWAP_WINDOW = 10"

definition tws_initialize :: "env \<Rightarrow> address \<Rightarrow> int \<Rightarrow> twap \<Rightarrow> twap result" where
  "tws_initialize e admin window s =
     panic_if (tw_Admin s \<noteq> None) ''already initialized'' (
     panic_if (window < MIN_TWAP_WINDOW) ''twap window below minimum'' (
     Ok (s\<lparr>tw_Admin := Some admin, tw_Window := Some window, tw_Observations := Some []\<rparr>)))"

definition tws_record_price :: "env \<Rightarrow> address \<Rightarrow> int \<Rightarrow> twap \<Rightarrow> twap result" where
  "tws_record_price e actor price s =
     expect (tw_Admin s) ''not initialized'' (\<lambda>admin.
     panic_if (actor \<noteq> admin) ''unauthorized'' (
     require_auth e actor (
     ensure (price > 0) ''price must be positive'' (
     expect (tw_Window s) ''window not set'' (\<lambda>window.
     let obs = unwrap_or (tw_Observations s) [] @ [\<lparr>ob_ledger = sequence e, ob_price = price\<rparr>] in
     Ok (s\<lparr>tw_Observations := Some (trim_loop window obs)\<rparr>))))))"

definition tws_get_twap :: "twap \<Rightarrow> int result" where
  "tws_get_twap s =
     (let obs = unwrap_or (tw_Observations s) [] in
      ensure (obs \<noteq> []) ''no observations recorded'' (
      and_then (sum_loop 0 obs) (\<lambda>acc. arith (checked_div I128 acc (vec_len obs)) Ok)))"

definition tws_get_window :: "twap \<Rightarrow> int" where
  "tws_get_window s = unwrap_or (tw_Window s) 0"

definition tws_observation_count :: "twap \<Rightarrow> int" where
  "tws_observation_count s = vec_len (unwrap_or (tw_Observations s) [])"

datatype twap_call =
    TInitialize address int
  | TRecordPrice address int

fun tw_exec :: "env \<Rightarrow> twap_call \<Rightarrow> twap \<Rightarrow> twap result" where
  "tw_exec e (TInitialize a w) s = tw_initialize e a w s"
| "tw_exec e (TRecordPrice a p) s = tw_record_price e a p s"

fun tws_exec :: "env \<Rightarrow> twap_call \<Rightarrow> twap \<Rightarrow> twap result" where
  "tws_exec e (TInitialize a w) s = tws_initialize e a w s"
| "tws_exec e (TRecordPrice a p) s = tws_record_price e a p s"

lemmas twap_defs = tw_initialize_def tw_record_price_def tws_initialize_def tws_record_price_def

text \<open>The repair is one guard on the window size.\<close>

fun window_guard :: "env \<Rightarrow> twap_call \<Rightarrow> twap \<Rightarrow> bool" where
  "window_guard e (TInitialize a w) s = (MIN_TWAP_WINDOW \<le> w)"
| "window_guard e c s = True"

interpretation twap_hardened: hardened tw_exec tws_exec window_guard
proof (unfold_locales, goal_cases)
  case (1 e c s s')
  show ?case
    by (cases c) (auto simp: twap_defs result_simps MIN_TWAP_WINDOW_def)
qed

subsection \<open>The buffer holds the most recent prices\<close>

definition last_n :: "nat \<Rightarrow> 'a list \<Rightarrow> 'a list" where
  "last_n n xs = drop (length xs - n) xs"

lemma trim_loop_last_n: "0 \<le> w \<Longrightarrow> trim_loop w xs = last_n (nat w) xs"
proof (induction xs)
  case (Cons x xs)
  then show ?case
    by (cases "length xs < nat w") (auto simp: last_n_def vec_len_def Suc_diff_le nat_less_iff not_less)
qed (simp add: last_n_def)

lemma last_n_snoc: "last_n n (last_n n xs @ [x]) = last_n n (xs @ [x])"
  by (cases "length xs \<le> n") (auto simp: last_n_def Suc_diff_le not_le)

lemma last_n_map: "last_n n (map f xs) = map f (last_n n xs)"
  by (simp add: last_n_def drop_map)

fun recorded_price :: "twap_call \<Rightarrow> int option" where
  "recorded_price (TRecordPrice a p) = Some p"
| "recorded_price c = None"

definition buffer :: "twap \<Rightarrow> int list" where
  "buffer s = map ob_price (unwrap_or (tw_Observations s) [])"

lemma tws_step_buffer:
  assumes "tws_exec e c s = Ok s'" and "tw_Window s = Some w" and "tw_Admin s \<noteq> None" and "0 \<le> w"
  shows "tw_Window s' = Some w" and "tw_Admin s' = tw_Admin s"
    and "buffer s' = (case recorded_price c of None \<Rightarrow> buffer s | Some p \<Rightarrow> last_n (nat w) (buffer s @ [p]))"
  using assms
  by (cases c; auto simp: twap_defs result_simps Let_def buffer_def trim_loop_last_n last_n_map [symmetric])+

lemma buffer_is_recent:
  assumes "tw_Window s = Some w" and "tw_Admin s \<noteq> None" and "0 \<le> w"
    and "buffer s = last_n (nat w) ps"
  shows "buffer (run_calls tws_exec xs s)
    = last_n (nat w) (ps @ List.map_filter recorded_price (successes tws_exec xs s))"
  using assms
proof (induction xs arbitrary: s ps)
  case Nil
  then show ?case by (simp add: List.map_filter_def)
next
  case (Cons x xs)
  obtain e c where x: "x = (e, c)" by force
  show ?case
  proof (cases "tws_exec e c s")
    case (Inl err)
    with Cons x show ?thesis by simp
  next
    case (Inr s')
    note step = tws_step_buffer [OF Inr Cons.prems(1-3)]
    let ?ps = "ps @ (case recorded_price c of None \<Rightarrow> [] | Some p \<Rightarrow> [p])"
    have "buffer s' = last_n (nat w) ?ps"
      using step(3) Cons.prems(4) by (auto simp: last_n_snoc split: option.splits)
    then have "buffer (run_calls tws_exec xs s')
        = last_n (nat w) (?ps @ List.map_filter recorded_price (successes tws_exec xs s'))"
      using step(1,2) Cons.prems by (intro Cons.IH) auto
    with x Inr show ?thesis
      by (cases "recorded_price c") (simp_all add: List.map_filter_def)
  qed
qed

subsection \<open>The average\<close>

lemma sum_loop_Ok: "sum_loop acc obs = Ok v \<Longrightarrow> v = acc + sum_list (map ob_price obs)"
  by (induction obs arbitrary: acc) (force simp: result_simps int_simps)+

lemma tws_get_twap_Ok:
  assumes "tws_get_twap s = Ok t" and "\<forall>p\<in>set (buffer s). 0 < p"
  shows "buffer s \<noteq> []" and "t = sum_list (buffer s) div int (length (buffer s))"
proof -
  let ?obs = "unwrap_or (tw_Observations s) []"
  from assms(1) have ne: "?obs \<noteq> []"
    and t: "t = sum_list (buffer s) sdiv vec_len ?obs"
    by (auto simp: tws_get_twap_def Let_def result_simps int_simps buffer_def dest!: sum_loop_Ok split: if_splits)
  then show "buffer s \<noteq> []" by (simp add: buffer_def)
  have "0 \<le> sum_list (buffer s)"
    using assms(2) by (intro sum_list_nonneg) auto
  moreover have "vec_len ?obs = int (length (buffer s))" "0 < int (length (buffer s))"
    using ne by (simp_all add: vec_len_def buffer_def)
  ultimately show "t = sum_list (buffer s) div int (length (buffer s))"
    using t by (simp add: sdiv_nonneg_eq)
qed

definition twap_inv :: "twap \<Rightarrow> bool" where
  "twap_inv s \<longleftrightarrow> (\<forall>p\<in>set (buffer s). 0 < p)
     \<and> (case tw_Window s of None \<Rightarrow> tw_Admin s = None
        | Some w \<Rightarrow> MIN_TWAP_WINDOW \<le> w \<and> int (length (buffer s)) \<le> w)"

lemma set_last_n: "set (last_n n xs) \<subseteq> set xs"
  by (auto simp: last_n_def dest: in_set_dropD)

lemma length_last_n: "length (last_n n xs) = min n (length xs)"
  by (simp add: last_n_def)

interpretation twap_ok: contract_invariant tws_exec twap_inv
proof (unfold_locales, goal_cases)
  case (1 s e c s')
  show ?case
  proof (cases c)
    case (TInitialize a w)
    with 1 show ?thesis by (auto simp: twap_defs result_simps twap_inv_def buffer_def MIN_TWAP_WINDOW_def)
  next
    case (TRecordPrice a p)
    with 1(2) obtain w where w: "tw_Window s = Some w" "tw_Admin s \<noteq> None" and p: "0 < p"
      by (auto simp: twap_defs result_simps)
    with 1(1) have w0: "0 \<le> w" by (simp add: twap_inv_def MIN_TWAP_WINDOW_def)
    note step = tws_step_buffer [OF 1(2) w w0]
    have "set (buffer s') \<subseteq> insert p (set (buffer s))"
      using step(3) TRecordPrice set_last_n [of "nat w" "buffer s @ [p]"] by auto
    with 1(1) p w w0 step TRecordPrice show ?thesis
      by (auto simp: twap_inv_def length_last_n)
  qed
qed

text \<open>
  The repaired average (\<^verbatim>\<open>twap_window_too_short/src/secure.rs\<close>): after initialisation with a window \<open>w\<close> and
  any run, the window is at least ten, and what \<^verbatim>\<open>get_twap\<close> returns is the rounded-down mean of the last
  \<open>w\<close> prices recorded (of all of them while there are fewer).
\<close>

theorem twap_is_mean_of_recent:
  assumes init: "tws_initialize e a w tw_empty = Ok s"
    and twap: "tws_get_twap (run_calls tws_exec xs s) = Ok t"
  defines "ps \<equiv> last_n (nat w) (List.map_filter recorded_price (successes tws_exec xs s))"
  shows "10 \<le> w \<and> ps \<noteq> [] \<and> t = sum_list ps div int (length ps)"
proof -
  from init have w: "10 \<le> w" and s: "tw_Window s = Some w" "tw_Admin s \<noteq> None" "buffer s = []"
    by (auto simp: tws_initialize_def result_simps buffer_def MIN_TWAP_WINDOW_def)
  then have buf: "buffer (run_calls tws_exec xs s) = ps"
    using buffer_is_recent [of s w "[]" xs] by (simp add: ps_def last_n_def)
  have "twap_inv s"
    using s w by (simp add: twap_inv_def MIN_TWAP_WINDOW_def)
  then have "\<forall>p\<in>set (buffer (run_calls tws_exec xs s)). 0 < p"
    using twap_ok.run_inv [of s xs] by (simp add: twap_inv_def)
  from tws_get_twap_Ok [OF twap this] buf w show ?thesis by simp
qed

definition twap_start :: twap where
  "twap_start = \<lparr>tw_Admin = Some (Address 2), tw_Window = Some 10, tw_Observations = Some []\<rparr>"

definition twap_demo :: "(env \<times> twap_call) list" where
  "twap_demo = [(signed_env [Address 2] 1, TRecordPrice (Address 2) 100),
     (signed_env [Address 3] 2, TRecordPrice (Address 3) 900), (signed_env [Address 2] 3, TRecordPrice (Address 2) 301)]"

lemma twap_start_initialized: "tws_initialize (signed_env [] 0) (Address 2) 10 tw_empty = Ok twap_start"
  by (simp add: tws_initialize_def tw_empty_def twap_start_def MIN_TWAP_WINDOW_def)

lemmas twap_demo_simps = twap_demo_def twap_start_def signed_env_def tws_record_price_def vec_len_def

lemma twap_demo_value: "tws_get_twap (run_calls tws_exec twap_demo twap_start) = Ok 200"
  by (simp add: twap_demo_simps tws_get_twap_def checked_add_def checked_div_def checked_def in_range_def
      signed_divide_int_def)

lemma twap_demo_recorded:
  "List.map_filter recorded_price (successes tws_exec twap_demo twap_start) = [100, 301]"
  by (simp add: twap_demo_simps List.map_filter_def)

theorem twap_is_mean_of_recent_witness:
  "tws_get_twap (run_calls tws_exec twap_demo twap_start) = Ok 200
   \<and> (200::int) = sum_list [100, 301] div 2"
  using twap_is_mean_of_recent [OF twap_start_initialized twap_demo_value] twap_demo_value
  unfolding twap_demo_recorded by (simp add: last_n_def)

text \<open>
  Manipulation bound: when the buffer is full, one new observation moves the average by less than the
  range of the prices divided by the window, plus one for rounding. The comment in the code promises a
  tenth of the range for every update; while the buffer is filling up that fails, see below.
\<close>

theorem twap_single_update_bounded:
  assumes inv: "s = run_calls tws_exec xs tw_empty"
    and full: "tws_observation_count s = tws_get_window s"
    and step: "tws_record_price e a p s = Ok s'"
    and twap: "tws_get_twap s = Ok t" "tws_get_twap s' = Ok t'"
    and range: "\<forall>q\<in>set (buffer s). lo \<le> q \<and> q \<le> hi" "lo \<le> p" "p \<le> hi"
  shows "10 \<le> tws_get_window s \<and> tws_get_window s * \<bar>t' - t\<bar> < hi - lo + tws_get_window s"
proof -
  have "twap_inv tw_empty" by (simp add: twap_inv_def tw_empty_def buffer_def)
  then have I: "twap_inv s" unfolding inv by (rule twap_ok.run_inv)
  have exec: "tws_exec e (TRecordPrice a p) s = Ok s'" using step by simp
  then have I': "twap_inv s'" using twap_ok.exec_inv [OF I] by blast
  from step obtain w where w: "tw_Window s = Some w" and adm: "tw_Admin s \<noteq> None"
    by (auto simp: tws_record_price_def result_simps)
  with I have w10: "10 \<le> w" by (simp add: twap_inv_def MIN_TWAP_WINDOW_def)
  have len: "int (length (buffer s)) = w"
    using full w by (simp add: tws_observation_count_def tws_get_window_def vec_len_def buffer_def)
  with w10 obtain q qs where buf: "buffer s = q # qs" by (cases "buffer s") auto
  have "buffer s' = last_n (nat w) ((q # qs) @ [p])"
    using tws_step_buffer(3) [OF exec w adm] w10 buf by simp
  also have "\<dots> = qs @ [p]"
  proof -
    have "nat w = length (q # qs)" using len buf by (metis nat_int)
    then show ?thesis by (simp add: last_n_def)
  qed
  finally have buf': "buffer s' = qs @ [p]" .
  let ?S = "sum_list (q # qs)" and ?S' = "sum_list (qs @ [p])"
  have t: "t = ?S div w" and t': "t' = ?S' div w"
    using tws_get_twap_Ok(2) [OF twap(1)] tws_get_twap_Ok(2) [OF twap(2)] I I' len buf buf'
    by (auto simp: twap_inv_def)
  have diff: "\<bar>?S' - ?S\<bar> \<le> hi - lo"
    using range buf by (auto simp: abs_le_iff)
  have "w * t \<le> ?S" "?S < w * t + w" "w * t' \<le> ?S'" "?S' < w * t' + w"
    unfolding t t' using w10 pos_mod_sign [of w ?S] pos_mod_bound [of w ?S]
      pos_mod_sign [of w ?S'] pos_mod_bound [of w ?S'] mult_div_mod_eq [of w ?S] mult_div_mod_eq [of w ?S']
    by linarith+
  with diff have "\<bar>w * t' - w * t\<bar> < hi - lo + w" by linarith
  moreover have "\<bar>w * t' - w * t\<bar> = w * \<bar>t' - t\<bar>"
    using w10 by (simp add: right_diff_distrib [symmetric] abs_mult)
  ultimately show ?thesis
    using w w10 by (simp add: tws_get_window_def)
qed

definition warmed_up :: "(env \<times> twap_call) list" where
  "warmed_up = (signed_env [] 0, TInitialize (Address 2) 10) #
     replicate 10 (signed_env [Address 2] 1, TRecordPrice (Address 2) 100)"

definition warm_obs :: "observation list" where
  "warm_obs = replicate 10 \<lparr>ob_ledger = 1, ob_price = 100\<rparr>"

lemma warmed_up_state:
  "run_calls tws_exec warmed_up tw_empty
   = \<lparr>tw_Admin = Some (Address 2), tw_Window = Some 10, tw_Observations = Some warm_obs\<rparr>"
  by (simp add: warmed_up_def warm_obs_def tw_empty_def signed_env_def twap_defs MIN_TWAP_WINDOW_def vec_len_def
      numeral_eq_Suc)

theorem twap_single_update_bounded_witness:
  "\<exists>s'. tws_record_price (signed_env [Address 2] 2) (Address 2) 600 (run_calls tws_exec warmed_up tw_empty) = Ok s'
     \<and> tws_get_twap s' = Ok 150 \<and> 10 * \<bar>150 - 100\<bar> < 600 - 100 + (10::int)"
proof -
  let ?s = "run_calls tws_exec warmed_up tw_empty"
  let ?s' = "?s\<lparr>tw_Observations := Some (tl warm_obs @ [\<lparr>ob_ledger = 2, ob_price = 600\<rparr>])\<rparr>"
  have step: "tws_record_price (signed_env [Address 2] 2) (Address 2) 600 ?s = Ok ?s'"
    by (simp add: warmed_up_state tws_record_price_def signed_env_def warm_obs_def vec_len_def numeral_eq_Suc)
  have t: "tws_get_twap ?s = Ok 100" and t': "tws_get_twap ?s' = Ok 150"
    by (simp_all add: warmed_up_state tws_get_twap_def warm_obs_def vec_len_def numeral_eq_Suc
        checked_add_def checked_div_def checked_def in_range_def signed_divide_int_def)
  have full: "tws_observation_count ?s = tws_get_window ?s"
    by (simp add: warmed_up_state warm_obs_def tws_observation_count_def tws_get_window_def vec_len_def)
  have range: "\<forall>q\<in>set (buffer ?s). 100 \<le> q \<and> q \<le> 600"
    by (simp add: warmed_up_state warm_obs_def buffer_def)
  have "10 \<le> tws_get_window ?s \<and> tws_get_window ?s * \<bar>150 - 100\<bar> < 600 - 100 + tws_get_window ?s"
    by (rule twap_single_update_bounded [OF refl full step t t' range]) simp_all
  then show ?thesis
    using step t' by (auto simp: warmed_up_state tws_get_window_def)
qed

text \<open>
  While the buffer fills up the average follows the newest price: after the first observation of a
  freshly initialised oracle the average is that price, whatever the window.
\<close>

lemma twap_first_is_spot:
  assumes "tws_initialize e0 a w tw_empty = Ok s" and "tws_record_price e a p s = Ok s'" and "in_range I128 p"
  shows "tws_get_twap s' = Ok p"
  using assms
  by (auto simp: tws_initialize_def tws_record_price_def tws_get_twap_def result_simps Let_def vec_len_def
      MIN_TWAP_WINDOW_def checked_add_def checked_div_def split: if_splits)

end
