(* ===== verification/Price_Consumers.thy ===== *)
theory Price_Consumers
  imports Soroban_Prelude
begin

text \<open>
  Contracts that read a price from an oracle. \<^verbatim>\<open>src/vulnerable/stale_oracle\<close> and
  \<^verbatim>\<open>src/vulnerable/future_oracle_timestamp\<close> call an oracle contract (their \<^verbatim>\<open>oracle.rs\<close>, modelled too) and
  check how old its price is; \<^verbatim>\<open>oracle_confidence_ignored\<close>, \<^verbatim>\<open>negative_oracle_price\<close>, \<^verbatim>\<open>oracle_asset_mismatch\<close>,
  \<^verbatim>\<open>oracle_price_scale_mismatch\<close>, \<^verbatim>\<open>oracle_source_unwhitelisted\<close> and \<^verbatim>\<open>untrusted_oracle_setter\<close> validate the
  price or where it comes from. Both halves of each crate are modelled.
\<close>

section \<open>The oracle contracts\<close>

record feed_oracle =
  po_Admin :: "address option"
  po_Price :: "int option"
  po_Updated :: "int option" \<comment> \<open>\<^verbatim>\<open>LastUpdated\<close>, \<^verbatim>\<open>PublishTime\<close>\<close>

definition po_empty :: feed_oracle where
  "po_empty = \<lparr>po_Admin = None, po_Price = None, po_Updated = None\<rparr>"

definition mo_init :: "env \<Rightarrow> address \<Rightarrow> feed_oracle \<Rightarrow> feed_oracle result" where
  "mo_init e admin s =
     panic_if (po_Admin s \<noteq> None) ''already initialized'' (Ok (s\<lparr>po_Admin := Some admin\<rparr>))"

definition mo_set_price :: "env \<Rightarrow> int \<Rightarrow> feed_oracle \<Rightarrow> feed_oracle result" where
  "mo_set_price e price s =
     expect (po_Admin s) ''admin not initialized'' (\<lambda>admin.
     require_auth e admin (
     Ok (s\<lparr>po_Price := Some price, po_Updated := Some (timestamp e)\<rparr>)))"

definition mo_get_price :: "feed_oracle \<Rightarrow> int" where
  "mo_get_price s = unwrap_or (po_Price s) 0"

definition mo_last_updated :: "feed_oracle \<Rightarrow> int" where
  "mo_last_updated s = unwrap_or (po_Updated s) 0"

definition fo_init :: "env \<Rightarrow> address \<Rightarrow> feed_oracle \<Rightarrow> feed_oracle result" where
  "fo_init e admin s =
     panic_if (po_Admin s \<noteq> None) ''already initialized'' (Ok (s\<lparr>po_Admin := Some admin\<rparr>))"

definition fo_set_price :: "env \<Rightarrow> int \<Rightarrow> feed_oracle \<Rightarrow> feed_oracle result" where
  "fo_set_price e price s =
     expect (po_Admin s) ''not initialized'' (\<lambda>admin.
     require_auth e admin (
     Ok (s\<lparr>po_Price := Some price, po_Updated := Some (timestamp e)\<rparr>)))"

definition fo_set_price_at :: "env \<Rightarrow> int \<Rightarrow> int \<Rightarrow> feed_oracle \<Rightarrow> feed_oracle result" where
  "fo_set_price_at e price publish_time s =
     expect (po_Admin s) ''not initialized'' (\<lambda>admin.
     require_auth e admin (
     Ok (s\<lparr>po_Price := Some price, po_Updated := Some publish_time\<rparr>)))"

definition fo_get_price :: "feed_oracle \<Rightarrow> int" where
  "fo_get_price s = unwrap_or (po_Price s) 0"

definition fo_publish_time :: "feed_oracle \<Rightarrow> int" where
  "fo_publish_time s = unwrap_or (po_Updated s) 0"

datatype mock_call =
    MInit address
  | MSetPrice int

datatype feed_call =
    OInit address
  | OSetPrice int
  | OSetPriceAt int int

fun mo_exec :: "env \<Rightarrow> mock_call \<Rightarrow> feed_oracle \<Rightarrow> feed_oracle result" where
  "mo_exec e (MInit a) s = mo_init e a s"
| "mo_exec e (MSetPrice p) s = mo_set_price e p s"

fun fo_exec :: "env \<Rightarrow> feed_call \<Rightarrow> feed_oracle \<Rightarrow> feed_oracle result" where
  "fo_exec e (OInit a) s = fo_init e a s"
| "fo_exec e (OSetPrice p) s = fo_set_price e p s"
| "fo_exec e (OSetPriceAt p t) s = fo_set_price_at e p t s"

section \<open>stale\_oracle and future\_oracle\_timestamp\<close>

text \<open>The oracles deployed on the ledger are an argument: a cross-contract read looks one up.\<close>

type_synonym oracles = "address \<rightharpoonup> feed_oracle"

definition call_oracle :: "oracles \<Rightarrow> address \<Rightarrow> (feed_oracle \<Rightarrow> 'a result) \<Rightarrow> 'a result" where
  "call_oracle w a k = (case w a of None \<Rightarrow> Err NoContract | Some orc \<Rightarrow> k orc)"

lemma call_oracle_Ok [result_simps]:
  "call_oracle w a k = Ok r \<longleftrightarrow> (\<exists>orc. w a = Some orc \<and> k orc = Ok r)"
  by (auto simp: call_oracle_def split: option.splits)

record pricer =
  pr_OracleId :: "address option"
  pr_Collateral :: "address \<rightharpoonup> int"

definition MAX_STALENESS :: int where "MAX_STALENESS = 300"

definition so_init :: "env \<Rightarrow> address \<Rightarrow> pricer \<Rightarrow> pricer result" where
  "so_init e oracle_id s =
     panic_if (pr_OracleId s \<noteq> None) ''already initialized'' (Ok (s\<lparr>pr_OracleId := Some oracle_id\<rparr>))"

definition so_deposit_collateral :: "env \<Rightarrow> address \<Rightarrow> int \<Rightarrow> pricer \<Rightarrow> pricer result" where
  "so_deposit_collateral e user amount s =
     require_auth e user (
     arith (checked_add I128 (get0 (pr_Collateral s) user) amount) (\<lambda>n.
     Ok (s\<lparr>pr_Collateral := (pr_Collateral s)(user \<mapsto> n)\<rparr>)))"

definition so_get_collateral_value :: "env \<Rightarrow> oracles \<Rightarrow> address \<Rightarrow> pricer \<Rightarrow> int result" where
  "so_get_collateral_value e w user s =
     expect (pr_OracleId s) ''oracle not initialized'' (\<lambda>oracle_id.
     call_oracle w oracle_id (\<lambda>orc.
     let price = mo_get_price orc; collateral = get0 (pr_Collateral s) user in
     arith (checked_mul I128 collateral price) Ok))"

definition sos_init :: "env \<Rightarrow> address \<Rightarrow> pricer \<Rightarrow> pricer result" where
  "sos_init e oracle_id s =
     panic_if (pr_OracleId s \<noteq> None) ''already initialized'' (Ok (s\<lparr>pr_OracleId := Some oracle_id\<rparr>))"

definition sos_deposit_collateral :: "env \<Rightarrow> address \<Rightarrow> int \<Rightarrow> pricer \<Rightarrow> pricer result" where
  "sos_deposit_collateral e user amount s =
     require_auth e user (
     arith (checked_add I128 (get0 (pr_Collateral s) user) amount) (\<lambda>n.
     Ok (s\<lparr>pr_Collateral := (pr_Collateral s)(user \<mapsto> n)\<rparr>)))"

definition sos_get_collateral_value :: "env \<Rightarrow> oracles \<Rightarrow> address \<Rightarrow> pricer \<Rightarrow> int result" where
  "sos_get_collateral_value e w user s =
     expect (pr_OracleId s) ''oracle not initialized'' (\<lambda>oracle_id.
     call_oracle w oracle_id (\<lambda>orc.
     let price = mo_get_price orc; last_updated = mo_last_updated orc; now = timestamp e in
     ensure (saturate U64 (now - last_updated) \<le> MAX_STALENESS) ''price too stale'' (
     let collateral = get0 (pr_Collateral s) user in
     arith (checked_mul I128 collateral price) Ok)))"

definition fu_init :: "env \<Rightarrow> address \<Rightarrow> pricer \<Rightarrow> pricer result" where
  "fu_init e oracle_id s =
     panic_if (pr_OracleId s \<noteq> None) ''already initialized'' (Ok (s\<lparr>pr_OracleId := Some oracle_id\<rparr>))"

definition fu_deposit :: "env \<Rightarrow> address \<Rightarrow> int \<Rightarrow> pricer \<Rightarrow> pricer result" where
  "fu_deposit e user amount s =
     require_auth e user (
     arith (checked_add I128 (get0 (pr_Collateral s) user) amount) (\<lambda>n.
     Ok (s\<lparr>pr_Collateral := (pr_Collateral s)(user \<mapsto> n)\<rparr>)))"

definition fu_get_value :: "env \<Rightarrow> oracles \<Rightarrow> address \<Rightarrow> pricer \<Rightarrow> int result" where
  "fu_get_value e w user s =
     expect (pr_OracleId s) ''not initialized'' (\<lambda>oracle_id.
     call_oracle w oracle_id (\<lambda>orc.
     let price = fo_get_price orc; publish_time = fo_publish_time orc; now = timestamp e in
     ensure (saturate U64 (now - publish_time) \<le> MAX_STALENESS) ''price too stale'' (
     let collateral = get0 (pr_Collateral s) user in
     arith (checked_mul I128 collateral price) Ok)))"

definition fus_init :: "env \<Rightarrow> address \<Rightarrow> pricer \<Rightarrow> pricer result" where
  "fus_init e oracle_id s =
     panic_if (pr_OracleId s \<noteq> None) ''already initialized'' (Ok (s\<lparr>pr_OracleId := Some oracle_id\<rparr>))"

definition fus_deposit :: "env \<Rightarrow> address \<Rightarrow> int \<Rightarrow> pricer \<Rightarrow> pricer result" where
  "fus_deposit e user amount s =
     require_auth e user (
     arith (checked_add I128 (get0 (pr_Collateral s) user) amount) (\<lambda>n.
     Ok (s\<lparr>pr_Collateral := (pr_Collateral s)(user \<mapsto> n)\<rparr>)))"

definition fus_get_value :: "env \<Rightarrow> oracles \<Rightarrow> address \<Rightarrow> pricer \<Rightarrow> int result" where
  "fus_get_value e w user s =
     expect (pr_OracleId s) ''not initialized'' (\<lambda>oracle_id.
     call_oracle w oracle_id (\<lambda>orc.
     let price = fo_get_price orc; publish_time = fo_publish_time orc; now = timestamp e in
     ensure (publish_time \<le> now) ''future timestamp'' (
     arith (checked_sub U64 now publish_time) (\<lambda>age.
     ensure (age \<le> MAX_STALENESS) ''price too stale'' (
     let collateral = get0 (pr_Collateral s) user in
     arith (checked_mul I128 collateral price) Ok)))))"

subsection \<open>What a fresh price is\<close>

lemma age_ok: "saturate U64 (now - t) \<le> 300 \<longleftrightarrow> now - t \<le> 300"
  by (auto simp: saturate_def)

text \<open>Where the price and its time come from: the last call of the admin.\<close>

definition quote_of :: "feed_oracle \<Rightarrow> int option \<times> int option" where
  "quote_of s = (po_Price s, po_Updated s)"

fun mo_quotes :: "env \<Rightarrow> mock_call \<Rightarrow> feed_oracle \<Rightarrow> int option \<times> int option \<Rightarrow> bool" where
  "mo_quotes e (MSetPrice p) s q =
     (q = (Some p, Some (timestamp e)) \<and> (\<exists>a. po_Admin s = Some a \<and> authorized e a))"
| "mo_quotes e (MInit a) s q = False"

interpretation mo_quote: written_view mo_exec quote_of mo_quotes
proof (unfold_locales, goal_cases)
  case (1 e c s s')
  then show ?case by (cases c) (auto simp: mo_init_def mo_set_price_def quote_of_def result_simps)
qed

text \<open>
  Freshness (\<^verbatim>\<open>stale_oracle/src/secure.rs\<close> on top of \<^verbatim>\<open>oracle.rs\<close>): if the oracle behind the contract was
  reached by calls from deployment and \<^verbatim>\<open>get_collateral_value\<close> returns \<open>v\<close> at a time past the first five
  minutes of the ledger, then one of those calls, signed by the oracle's admin at most 300 seconds
  earlier, set the price \<open>v\<close> is computed from.
\<close>

theorem collateral_valued_at_fresh_price:
  assumes ok: "sos_get_collateral_value e w user s = Ok v"
    and orc: "pr_OracleId s = Some oid" "w oid = Some (run_calls mo_exec xs po_empty)"
    and late: "300 < timestamp e"
  shows "\<exists>ys e' p zs a. xs = ys @ (e', MSetPrice p) # zs
    \<and> po_Admin (run_calls mo_exec ys po_empty) = Some a \<and> authorized e' a
    \<and> timestamp e - timestamp e' \<le> 300 \<and> v = get0 (pr_Collateral s) user * p"
proof -
  let ?o = "run_calls mo_exec xs po_empty"
  from ok orc have age: "timestamp e - mo_last_updated ?o \<le> 300"
    and v: "v = get0 (pr_Collateral s) user * mo_get_price ?o"
    by (auto simp: sos_get_collateral_value_def result_simps int_simps Let_def age_ok MAX_STALENESS_def)
  from age late have "quote_of ?o \<noteq> quote_of po_empty"
    by (auto simp: quote_of_def po_empty_def mo_last_updated_def)
  then obtain ys e' c zs where xs: "xs = ys @ (e', c) # zs"
    and wr: "mo_quotes e' c (run_calls mo_exec ys po_empty) (quote_of ?o)"
    using mo_quote.run_writes by blast
  from wr obtain p a where c: "c = MSetPrice p" and q: "po_Price ?o = Some p" "po_Updated ?o = Some (timestamp e')"
    and a: "po_Admin (run_calls mo_exec ys po_empty) = Some a" "authorized e' a"
    by (cases c) (auto simp: quote_of_def)
  from age v q have "timestamp e - timestamp e' \<le> 300" "v = get0 (pr_Collateral s) user * p"
    by (simp_all add: mo_last_updated_def mo_get_price_def)
  with xs c a show ?thesis by blast
qed

definition quote_demo :: "(env \<times> mock_call) list" where
  "quote_demo = [(signed_env [] 1, MInit (Address 2)), (signed_env [Address 2] 100, MSetPrice 7)]"

definition pricer_demo :: pricer where
  "pricer_demo = \<lparr>pr_OracleId = Some (Address 5), pr_Collateral = [Address 3 \<mapsto> 10]\<rparr>"

definition oracles_demo :: oracles where
  "oracles_demo = [Address 5 \<mapsto> run_calls mo_exec quote_demo po_empty]"

lemma fresh_price_demo:
  "sos_get_collateral_value (signed_env [] 120) oracles_demo (Address 3) pricer_demo = Ok 70"
  by (simp add: sos_get_collateral_value_def pricer_demo_def oracles_demo_def quote_demo_def signed_env_def
      call_oracle_def mo_init_def mo_set_price_def po_empty_def mo_get_price_def mo_last_updated_def
      MAX_STALENESS_def saturate_def checked_mul_def checked_def in_range_def)

theorem collateral_valued_at_fresh_price_witness:
  "sos_get_collateral_value (signed_env [] 120) oracles_demo (Address 3) pricer_demo = Ok 70
   \<and> (\<exists>ys e' p zs. quote_demo = ys @ (e', MSetPrice p) # zs \<and> 600 - timestamp e' \<le> 300 \<and> 70 = 10 * p)"
proof -
  have "\<exists>ys e' p zs a. quote_demo = ys @ (e', MSetPrice p) # zs
    \<and> po_Admin (run_calls mo_exec ys po_empty) = Some a \<and> authorized e' a
    \<and> timestamp (signed_env [] 120) - timestamp e' \<le> 300 \<and> 70 = get0 (pr_Collateral pricer_demo) (Address 3) * p"
    by (rule collateral_valued_at_fresh_price [OF fresh_price_demo])
       (simp_all add: pricer_demo_def oracles_demo_def signed_env_def)
  then show ?thesis
    using fresh_price_demo by (simp add: signed_env_def pricer_demo_def) blast
qed

text \<open>
  The second repair adds a bound from above: the two versions of \<^verbatim>\<open>get_value\<close> agree except when the price
  claims a publication time in the future, which the repaired one refuses. The unrepaired one accepts
  such a price until 300 seconds after that time, however old it really is.
\<close>

theorem future_prices_refused:
  assumes "in_range U64 (timestamp e)" and "pr_OracleId s = Some oid" and "w oid = Some orc"
    and "0 \<le> fo_publish_time orc"
  shows "(fus_get_value e w user s = Ok v \<longleftrightarrow> fu_get_value e w user s = Ok v \<and> fo_publish_time orc \<le> timestamp e)
    \<and> (timestamp e < fo_publish_time orc \<longrightarrow> fus_get_value e w user s = Err (Panic ''future timestamp'')
         \<and> (in_range I128 (get0 (pr_Collateral s) user * fo_get_price orc) \<longrightarrow>
            fu_get_value e w user s = Ok (get0 (pr_Collateral s) user * fo_get_price orc)))"
proof -
  let ?p = "fo_publish_time orc" and ?n = "timestamp e"
  have sub: "in_range U64 (?n - ?p)" if "?p \<le> ?n"
    using that assms(1,4) by (simp add: in_range_def)
  show ?thesis
  proof (cases "?p \<le> ?n")
    case True
    then show ?thesis
      using assms sub
      by (auto simp: fus_get_value_def fu_get_value_def call_oracle_def result_simps Let_def checked_sub_def age_ok
          MAX_STALENESS_def)
  next
    case False
    then show ?thesis
      using assms
      by (auto simp: fus_get_value_def fu_get_value_def call_oracle_def result_simps Let_def age_ok
          MAX_STALENESS_def checked_mul_def)
  qed
qed

definition future_orc :: feed_oracle where
  "future_orc = \<lparr>po_Admin = Some (Address 2), po_Price = Some 7, po_Updated = Some 1000\<rparr>"

theorem future_prices_refused_witness:
  "fus_get_value (signed_env [] 120) [Address 5 \<mapsto> future_orc] (Address 3) pricer_demo
     = Err (Panic ''future timestamp'')
   \<and> fu_get_value (signed_env [] 120) [Address 5 \<mapsto> future_orc] (Address 3) pricer_demo = Ok 70"
  using future_prices_refused
    [of "signed_env [] 120" pricer_demo "Address 5" "[Address 5 \<mapsto> future_orc]" future_orc "Address 3" 70]
  by (simp add: signed_env_def pricer_demo_def future_orc_def fo_publish_time_def fo_get_price_def in_range_def)

section \<open>oracle\_confidence\_ignored\<close>

record quote =
  q_price :: int
  q_confidence :: int
  q_timestamp :: int

record consumer =
  co_LastPrice :: "int option"
  co_Liquidated :: "address \<rightharpoonup> bool"

definition MAX_CONFIDENCE_BPS :: int where "MAX_CONFIDENCE_BPS = 500"

definition oc_consume_price :: "env \<Rightarrow> address \<Rightarrow> quote \<Rightarrow> int \<Rightarrow> consumer \<Rightarrow> consumer result" where
  "oc_consume_price e actor q threshold s =
     require_auth e actor (
     let price = q_price q;
         s1 = s\<lparr>co_LastPrice := Some price\<rparr> in
     if price < threshold then Ok (s1\<lparr>co_Liquidated := (co_Liquidated s1)(actor \<mapsto> True)\<rparr>) else Ok s1)"

definition oc_last_price :: "consumer \<Rightarrow> int" where
  "oc_last_price s = unwrap_or (co_LastPrice s) 0"

definition oc_is_liquidated :: "consumer \<Rightarrow> address \<Rightarrow> bool" where
  "oc_is_liquidated s actor = unwrap_or (co_Liquidated s actor) False"

definition ocs_consume_price :: "env \<Rightarrow> address \<Rightarrow> quote \<Rightarrow> int \<Rightarrow> consumer \<Rightarrow> consumer result" where
  "ocs_consume_price e actor q threshold s =
     require_auth e actor (
     let price = q_price q; confidence = q_confidence q in
     panic_if (price \<le> 0) ''invalid price'' (
     expect (checked_mul I128 confidence 10000) ''confidence overflow'' (\<lambda>scaled.
     arith (checked_div I128 scaled price) (\<lambda>confidence_bps.
     panic_if (confidence_bps > MAX_CONFIDENCE_BPS) ''price confidence too wide'' (
     let s1 = s\<lparr>co_LastPrice := Some price\<rparr> in
     if price < threshold then Ok (s1\<lparr>co_Liquidated := (co_Liquidated s1)(actor \<mapsto> True)\<rparr>) else Ok s1)))))"

definition ocs_last_price :: "consumer \<Rightarrow> int" where
  "ocs_last_price s = unwrap_or (co_LastPrice s) 0"

definition ocs_is_liquidated :: "consumer \<Rightarrow> address \<Rightarrow> bool" where
  "ocs_is_liquidated s actor = unwrap_or (co_Liquidated s actor) False"

fun oc_exec :: "env \<Rightarrow> address \<times> quote \<times> int \<Rightarrow> consumer \<Rightarrow> consumer result" where
  "oc_exec e (a, q, t) s = oc_consume_price e a q t s"

fun ocs_exec :: "env \<Rightarrow> address \<times> quote \<times> int \<Rightarrow> consumer \<Rightarrow> consumer result" where
  "ocs_exec e (a, q, t) s = ocs_consume_price e a q t s"

text \<open>
  The band the repaired code accepts: a positive price whose scaled confidence, divided by the price
  and truncated towards zero, is at most 500 basis points. A negative confidence always passes.
\<close>

definition narrow_band :: "quote \<Rightarrow> bool" where
  "narrow_band q \<longleftrightarrow> 0 < q_price q \<and> in_range I128 (q_confidence q * 10000)
     \<and> in_range I128 (q_confidence q * 10000 sdiv q_price q)
     \<and> q_confidence q * 10000 sdiv q_price q \<le> MAX_CONFIDENCE_BPS"

lemma narrow_band_bound:
  assumes "narrow_band q" and "0 \<le> q_confidence q"
  shows "20 * q_confidence q < q_price q + q_price q div 500 + 1"
proof -
  let ?c = "q_confidence q" and ?p = "q_price q"
  from assms have p: "0 < ?p" and "?c * 10000 div ?p \<le> 500"
    by (auto simp: narrow_band_def MAX_CONFIDENCE_BPS_def sdiv_nonneg_eq)
  then have "?c * 10000 < 501 * ?p"
    using pos_mod_bound [of ?p "?c * 10000"] mult_div_mod_eq [of ?p "?c * 10000"]
      mult_left_mono [of "?c * 10000 div ?p" 500 ?p] by linarith
  then show ?thesis by linarith
qed

interpretation confidence_hardened: hardened oc_exec ocs_exec "\<lambda>e c s. case c of (a, q, t) \<Rightarrow> narrow_band q"
proof (unfold_locales, goal_cases)
  case (1 e c s s')
  obtain a q t where c: "c = (a, q, t)" by (cases c) auto
  show ?case
    by (auto simp: c oc_consume_price_def ocs_consume_price_def narrow_band_def result_simps int_simps Let_def
        not_le not_less)
qed

interpretation liquidation_steps: guarded_steps ocs_exec "\<lambda>s t. ocs_is_liquidated t a \<longrightarrow> ocs_is_liquidated s a"
    "\<lambda>e c s. \<exists>q t. c = (a, q, t) \<and> authorized e a \<and> q_price q < t \<and> narrow_band q"
  for a
proof (unfold_locales, goal_cases)
  case (3 e c s s')
  obtain b q t where c: "c = (b, q, t)" by (cases c) auto
  have "narrow_band q" "oc_exec e c s = Ok s'"
    using confidence_hardened.secure_Ok [of e c s s'] 3(1) c by auto
  with 3 c show ?case
    by (auto simp: oc_consume_price_def ocs_is_liquidated_def result_simps Let_def split: if_splits)
qed auto

text \<open>
  Confidence (\<^verbatim>\<open>oracle_confidence_ignored/src/secure.rs\<close>): an account that a run of the repaired consumer
  liquidated was liquidated by a call it authorised, on a positive price below the threshold whose
  confidence interval is, up to rounding, at most a twentieth of the price (a negative confidence
  apart).
\<close>

theorem liquidation_needs_narrow_price:
  assumes "ocs_is_liquidated (run_calls ocs_exec xs s) a" and "\<not> ocs_is_liquidated s a"
  shows "\<exists>ys e q t zs. xs = ys @ (e, (a, q, t)) # zs \<and> authorized e a \<and> q_price q < t \<and> 0 < q_price q
    \<and> (0 \<le> q_confidence q \<longrightarrow> 20 * q_confidence q < q_price q + q_price q div 500 + 1)"
proof -
  obtain ys e c zs q t where "xs = ys @ (e, c) # zs" "c = (a, q, t)" "authorized e a" "q_price q < t"
    and band: "narrow_band q"
    using liquidation_steps.run_guard [where a = a and s = s and xs = xs] assms by blast
  moreover from band have "0 < q_price q" by (simp add: narrow_band_def)
  ultimately show ?thesis using narrow_band_bound [OF band] by blast
qed

definition band_demo :: "(env \<times> address \<times> quote \<times> int) list" where
  "band_demo =
     [(signed_env [Address 2] 1, Address 2, \<lparr>q_price = 100, q_confidence = 50, q_timestamp = 5\<rparr>, 120),
      (signed_env [Address 2] 2, Address 2, \<lparr>q_price = 100, q_confidence = 4, q_timestamp = 10\<rparr>, 120)]"

definition consumer_empty :: consumer where
  "consumer_empty = \<lparr>co_LastPrice = None, co_Liquidated = Map.empty\<rparr>"

lemma band_demo_liquidated:
  "ocs_is_liquidated (run_calls ocs_exec band_demo consumer_empty) (Address 2)"
  "\<not> ocs_is_liquidated consumer_empty (Address 2)"
  by (simp_all add: band_demo_def consumer_empty_def signed_env_def ocs_consume_price_def ocs_is_liquidated_def
      checked_mul_def checked_div_def checked_def in_range_def signed_divide_int_def MAX_CONFIDENCE_BPS_def)

theorem liquidation_needs_narrow_price_witness:
  "ocs_is_liquidated (run_calls ocs_exec band_demo consumer_empty) (Address 2)
   \<and> (\<exists>ys e q t zs. band_demo = ys @ (e, (Address 2, q, t)) # zs \<and> q_price q < t)"
  using liquidation_needs_narrow_price [OF band_demo_liquidated] band_demo_liquidated by blast

section \<open>negative\_oracle\_price\<close>

record np_market =
  np_OraclePrice :: "int option"
  np_Collateral :: "address \<rightharpoonup> int"

definition np_set_price :: "env \<Rightarrow> int \<Rightarrow> np_market \<Rightarrow> np_market result" where
  "np_set_price e price s = Ok (s\<lparr>np_OraclePrice := Some price\<rparr>)"

definition np_deposit_collateral :: "env \<Rightarrow> address \<Rightarrow> int \<Rightarrow> np_market \<Rightarrow> (int \<times> np_market) result" where
  "np_deposit_collateral e user amount s =
     require_auth e user (
     let price = unwrap_or (np_OraclePrice s) 0;
         unsigned_price = cast_to U128 price in
     ensure (unsigned_price > 0) ''price must be positive'' (
     let collateral_value = saturate U128 (amount * unsigned_price) in
     Ok (collateral_value, s\<lparr>np_Collateral := (np_Collateral s)(user \<mapsto> collateral_value)\<rparr>)))"

definition np_get_collateral :: "np_market \<Rightarrow> address \<Rightarrow> int" where
  "np_get_collateral s user = get0 (np_Collateral s) user"

definition nps_set_price :: "env \<Rightarrow> int \<Rightarrow> np_market \<Rightarrow> np_market result" where
  "nps_set_price e price s = Ok (s\<lparr>np_OraclePrice := Some price\<rparr>)"

definition nps_deposit_collateral :: "env \<Rightarrow> address \<Rightarrow> int \<Rightarrow> np_market \<Rightarrow> (int \<times> np_market) result" where
  "nps_deposit_collateral e user amount s =
     require_auth e user (
     let price = unwrap_or (np_OraclePrice s) 0 in
     ensure (price > 0) ''price must be positive'' (
     expect (checked U128 price) ''price out of range'' (\<lambda>unsigned_price.
     let collateral_value = saturate U128 (amount * unsigned_price) in
     Ok (collateral_value, s\<lparr>np_Collateral := (np_Collateral s)(user \<mapsto> collateral_value)\<rparr>))))"

definition nps_get_collateral :: "np_market \<Rightarrow> address \<Rightarrow> int" where
  "nps_get_collateral s user = get0 (np_Collateral s) user"

lemma cast_U128_nonneg: "0 \<le> p \<Longrightarrow> p < 2 ^ 128 \<Longrightarrow> cast_to U128 p = p"
  by (simp add: cast_to_def)

lemma cast_U128_negative: "- (2 ^ 127) \<le> p \<Longrightarrow> p < 0 \<Longrightarrow> cast_to U128 p = 2 ^ 128 + p"
proof -
  assume "- (2 ^ 127) \<le> p" "p < 0"
  then have "(p + 2 ^ 128) mod 2 ^ 128 = p + 2 ^ 128"
    by (intro mod_pos_pos_trivial) simp_all
  then have "p mod 2 ^ 128 = 2 ^ 128 + p"
    using mod_add_self2 [of p "2 ^ 128"] by simp
  then show ?thesis by (simp add: cast_to_def)
qed

text \<open>
  Casting too early (\<^verbatim>\<open>negative_oracle_price\<close>): the two versions of \<^verbatim>\<open>deposit_collateral\<close> agree on positive
  prices; on a negative price the repaired one traps, and the unrepaired one credits the amount
  times \<open>2\<^sup>1\<^sup>2\<^sup>8\<close> minus the absolute price, capped at the largest \<^verbatim>\<open>u128\<close>.
\<close>

theorem negative_price_credit:
  assumes "authorized e user" and "in_range I128 (unwrap_or (np_OraclePrice s) 0)"
  defines "price \<equiv> unwrap_or (np_OraclePrice s) 0"
  shows "(0 < price \<longrightarrow> nps_deposit_collateral e user n s = np_deposit_collateral e user n s)
    \<and> (price \<le> 0 \<longrightarrow> nps_deposit_collateral e user n s = Err (Panic ''price must be positive''))
    \<and> (price < 0 \<longrightarrow> (\<exists>t. np_deposit_collateral e user n s = Ok (saturate U128 (n * (2 ^ 128 + price)), t)
         \<and> np_get_collateral t user = saturate U128 (n * (2 ^ 128 + price))))"
proof (intro conjI impI)
  assume "0 < price"
  then show "nps_deposit_collateral e user n s = np_deposit_collateral e user n s"
    using assms
    by (simp add: nps_deposit_collateral_def np_deposit_collateral_def cast_U128_nonneg in_range_def Let_def)
next
  assume "price \<le> 0"
  then show "nps_deposit_collateral e user n s = Err (Panic ''price must be positive'')"
    using assms by (simp add: nps_deposit_collateral_def)
next
  assume neg: "price < 0"
  have c: "cast_to U128 price = 2 ^ 128 + price" "0 < 2 ^ 128 + price"
    using assms(2) neg by (simp_all add: price_def in_range_def cast_U128_negative)
  then show "\<exists>t. np_deposit_collateral e user n s = Ok (saturate U128 (n * (2 ^ 128 + price)), t)
         \<and> np_get_collateral t user = saturate U128 (n * (2 ^ 128 + price))"
    using assms(1)
    by (simp add: np_deposit_collateral_def np_get_collateral_def price_def [symmetric] Let_def)
qed

theorem negative_price_credit_witness:
  "nps_deposit_collateral (signed_env [Address 2] 1) (Address 2) 1
      \<lparr>np_OraclePrice = Some (- 1), np_Collateral = Map.empty\<rparr> = Err (Panic ''price must be positive'')
   \<and> (\<exists>t. np_deposit_collateral (signed_env [Address 2] 1) (Address 2) 1
        \<lparr>np_OraclePrice = Some (- 1), np_Collateral = Map.empty\<rparr> = Ok (2 ^ 128 - 1, t))"
  using negative_price_credit
    [of "signed_env [Address 2] 1" "Address 2" "\<lparr>np_OraclePrice = Some (- 1), np_Collateral = Map.empty\<rparr>" 1]
  by (auto simp: signed_env_def in_range_def saturate_def)

section \<open>oracle\_asset\_mismatch\<close>

text \<open>Temporary storage entries; that they can expire between transactions is not modelled.\<close>

record feeds =
  fd_Feed :: "string \<rightharpoonup> int"

definition am_set_feed :: "env \<Rightarrow> string \<Rightarrow> int \<Rightarrow> feeds \<Rightarrow> feeds result" where
  "am_set_feed e feed_asset price s = Ok (s\<lparr>fd_Feed := (fd_Feed s)(feed_asset \<mapsto> price)\<rparr>)"

definition am_get_price_vulnerable :: "feeds \<Rightarrow> string \<Rightarrow> string \<Rightarrow> int" where
  "am_get_price_vulnerable s requested_asset feed_asset = get0 (fd_Feed s) feed_asset"

definition am_vulnerable_entry :: "env \<Rightarrow> address \<Rightarrow> int \<Rightarrow> feeds \<Rightarrow> int result" where
  "am_vulnerable_entry e actor amount s =
     (let price = am_get_price_vulnerable s ''LOW'' ''HIGH'' in
      arith (checked_mul I128 price amount) Ok)"

definition ams_set_feed :: "env \<Rightarrow> string \<Rightarrow> int \<Rightarrow> feeds \<Rightarrow> feeds result" where
  "ams_set_feed e feed_asset price s = Ok (s\<lparr>fd_Feed := (fd_Feed s)(feed_asset \<mapsto> price)\<rparr>)"

definition ams_get_price :: "feeds \<Rightarrow> string \<Rightarrow> string \<Rightarrow> int result" where
  "ams_get_price s requested_asset feed_asset =
     panic_if (requested_asset \<noteq> feed_asset) ''asset mismatch'' (Ok (get0 (fd_Feed s) feed_asset))"

text \<open>
  The repaired read returns the price of the asset asked for; the unrepaired one that of the feed the
  caller names, so the demonstration values a \<^verbatim>\<open>LOW\<close> asset at the \<^verbatim>\<open>HIGH\<close> price.
\<close>

lemma ams_get_price_Ok:
  "ams_get_price s requested feed = Ok p \<longleftrightarrow> requested = feed \<and> p = am_get_price_vulnerable s requested feed"
  by (auto simp: ams_get_price_def am_get_price_vulnerable_def result_simps)

lemma am_entry_mispriced:
  "in_range I128 (get0 (fd_Feed s) ''HIGH'' * n)
   \<Longrightarrow> am_vulnerable_entry e actor n s = Ok (get0 (fd_Feed s) ''HIGH'' * n)"
  by (simp add: am_vulnerable_entry_def am_get_price_vulnerable_def checked_mul_def)

section \<open>oracle\_price\_scale\_mismatch\<close>

record scale_market =
  sm_Price :: "string \<rightharpoonup> int"
  sm_Exponent :: "string \<rightharpoonup> int"
  sm_Collateral :: "address \<rightharpoonup> int"
  sm_Debt :: "address \<rightharpoonup> int"

definition sm_set_oracle :: "env \<Rightarrow> string \<Rightarrow> int \<Rightarrow> int \<Rightarrow> scale_market \<Rightarrow> scale_market result" where
  "sm_set_oracle e feed price exponent s =
     Ok (s\<lparr>sm_Price := (sm_Price s)(feed \<mapsto> price), sm_Exponent := (sm_Exponent s)(feed \<mapsto> exponent)\<rparr>)"

definition sm_deposit :: "env \<Rightarrow> address \<Rightarrow> string \<Rightarrow> int \<Rightarrow> scale_market \<Rightarrow> scale_market result" where
  "sm_deposit e user feed amount s =
     require_auth e user (
     let current = get0 (sm_Collateral s) user; price = get0 (sm_Price s) feed in
     arith (checked_mul I128 amount price) (\<lambda>collateral_value.
     arith (checked_add I128 current collateral_value) (\<lambda>n.
     Ok (s\<lparr>sm_Collateral := (sm_Collateral s)(user \<mapsto> n)\<rparr>))))"

definition sm_borrow :: "env \<Rightarrow> address \<Rightarrow> int \<Rightarrow> scale_market \<Rightarrow> (int \<times> scale_market) result" where
  "sm_borrow e user amount s =
     require_auth e user (
     let collateral = get0 (sm_Collateral s) user; debt = get0 (sm_Debt s) user in
     arith (checked_add I128 debt amount) (\<lambda>n.
     ensure (collateral \<ge> n) ''undercollateralised'' (
     Ok (amount, s\<lparr>sm_Debt := (sm_Debt s)(user \<mapsto> n)\<rparr>))))"

definition sm_get_collateral :: "scale_market \<Rightarrow> address \<Rightarrow> int" where
  "sm_get_collateral s user = get0 (sm_Collateral s) user"

definition sm_get_debt :: "scale_market \<Rightarrow> address \<Rightarrow> int" where
  "sm_get_debt s user = get0 (sm_Debt s) user"

text \<open>\<^verbatim>\<open>10_i128.pow(k)\<close> traps when the power leaves the range.\<close>

definition pow10 :: "int \<Rightarrow> int option" where
  "pow10 k = checked I128 (10 ^ nat k)"

definition normalise :: "int \<Rightarrow> int \<Rightarrow> int result" where
  "normalise price exponent =
     (if exponent \<ge> 7 then
        arith (pow10 (exponent - 7)) (\<lambda>divisor. arith (checked_div I128 price divisor) Ok)
      else
        arith (pow10 (7 - exponent)) (\<lambda>multiplier. arith (checked_mul I128 price multiplier) Ok))"

definition sms_set_oracle :: "env \<Rightarrow> string \<Rightarrow> int \<Rightarrow> int \<Rightarrow> scale_market \<Rightarrow> scale_market result" where
  "sms_set_oracle e feed price exponent s =
     Ok (s\<lparr>sm_Price := (sm_Price s)(feed \<mapsto> price), sm_Exponent := (sm_Exponent s)(feed \<mapsto> exponent)\<rparr>)"

definition sms_deposit :: "env \<Rightarrow> address \<Rightarrow> string \<Rightarrow> int \<Rightarrow> scale_market \<Rightarrow> scale_market result" where
  "sms_deposit e user feed amount s =
     require_auth e user (
     let price = get0 (sm_Price s) feed; exponent = unwrap_or (sm_Exponent s feed) 7 in
     and_then (normalise price exponent) (\<lambda>unit_value.
     arith (checked_mul I128 amount unit_value) (\<lambda>collateral_value.
     let current = get0 (sm_Collateral s) user in
     arith (checked_add I128 current collateral_value) (\<lambda>n.
     Ok (s\<lparr>sm_Collateral := (sm_Collateral s)(user \<mapsto> n)\<rparr>)))))"

definition sms_borrow :: "env \<Rightarrow> address \<Rightarrow> int \<Rightarrow> scale_market \<Rightarrow> (int \<times> scale_market) result" where
  "sms_borrow e user amount s =
     require_auth e user (
     let collateral = get0 (sm_Collateral s) user; debt = get0 (sm_Debt s) user in
     arith (checked_add I128 debt amount) (\<lambda>n.
     ensure (collateral \<ge> n) ''undercollateralised'' (
     Ok (amount, s\<lparr>sm_Debt := (sm_Debt s)(user \<mapsto> n)\<rparr>))))"

lemma sdiv_mult_cancel: "0 < c \<Longrightarrow> (a * c) sdiv (b * c) = a sdiv (b::int)"
  by (simp add: signed_divide_int_def abs_mult sgn_mult)

lemma pow10_add: "0 \<le> i \<Longrightarrow> 0 \<le> k \<Longrightarrow> (10::int) ^ nat (i + k) = 10 ^ nat i * 10 ^ nat k"
  by (simp add: nat_add_distrib power_add)

text \<open>
  Normalisation (\<^verbatim>\<open>oracle_price_scale_mismatch/src/secure.rs\<close>): two feeds that report the same price at
  different scales are worth the same. Multiplying the raw price by \<open>10\<^sup>k\<close> and adding \<open>k\<close> to the exponent
  does not change the normalised value (as long as the larger numbers still fit), so the collateral
  credited does not depend on the decimals a feed happens to use.
\<close>

theorem normalise_scale_invariant:
  assumes ok: "normalise price x = Ok v" and k: "0 \<le> k" and x: "0 \<le> x"
    and fits: "in_range I128 (price * 10 ^ nat k)" "x + k \<le> 45"
  shows "normalise (price * 10 ^ nat k) (x + k) = Ok v"
proof -
  have small: "in_range I128 (10 ^ nat i)" if "i \<le> 38" for i :: int
  proof -
    have "(10::int) ^ nat i \<le> 10 ^ 38" using that by (intro power_increasing) auto
    moreover have "0 \<le> (10::int) ^ nat i" by simp
    moreover have "in_range I128 (10 ^ 38)" by (simp add: in_range_def)
    ultimately show ?thesis using in_range_between [OF in_range_zero] by blast
  qed
  consider "7 \<le> x" | "x < 7" "x + k < 7" | "x < 7" "7 \<le> x + k" by linarith
  then show ?thesis
  proof cases
    case 1
    then have v: "v = price sdiv 10 ^ nat (x - 7)" "in_range I128 v"
      using ok by (auto simp: normalise_def pow10_def result_simps int_simps)
    have "(10::int) ^ nat (x + k - 7) = 10 ^ nat (x - 7) * 10 ^ nat k"
      using pow10_add [of "x - 7" k] 1 k by (simp add: algebra_simps)
    then have "(price * 10 ^ nat k) sdiv 10 ^ nat (x + k - 7) = v"
      using v(1) by (simp add: sdiv_mult_cancel)
    with 1 k v(2) small [of "x + k - 7"] fits(2) show ?thesis
      by (simp add: normalise_def pow10_def checked_div_def)
  next
    case 2
    then have v: "v = price * 10 ^ nat (7 - x)" "in_range I128 v"
      using ok by (auto simp: normalise_def pow10_def result_simps int_simps)
    have "price * 10 ^ nat k * 10 ^ nat (7 - (x + k)) = v"
      using pow10_add [of k "7 - (x + k)"] 2 k v(1) by (simp add: algebra_simps)
    with 2 v(2) k x small [of "7 - (x + k)"] show ?thesis
      by (simp add: normalise_def pow10_def checked_mul_def)
  next
    case 3
    then have v: "v = price * 10 ^ nat (7 - x)" "in_range I128 v"
      using ok by (auto simp: normalise_def pow10_def result_simps int_simps)
    have "price * 10 ^ nat k = v * 10 ^ nat (x + k - 7)"
      using pow10_add [of "7 - x" "x + k - 7"] 3 v(1) by (simp add: algebra_simps)
    then have "(price * 10 ^ nat k) sdiv 10 ^ nat (x + k - 7) = v"
      using sdiv_mult_cancel [of "10 ^ nat (x + k - 7)" v 1] by simp
    with 3 v(2) fits(2) small [of "x + k - 7"] show ?thesis
      by (simp add: normalise_def pow10_def checked_div_def)
  qed
qed

theorem normalise_scale_invariant_witness:
  "normalise 15 5 = Ok 1500 \<and> normalise 15000000 11 = Ok 1500"
proof -
  have "normalise 15 5 = Ok 1500"
    by (simp add: normalise_def pow10_def checked_mul_def checked_def in_range_def)
  with normalise_scale_invariant [OF this, of 6] show ?thesis
    by (simp add: in_range_def)
qed

text \<open>The unrepaired market credits the raw product, so a feed with two more decimals counts a hundredfold.\<close>

lemma raw_scale_inflates:
  assumes "authorized e user" and "sm_Price s feed = Some (p * 100)"
    and "in_range I128 (n * (p * 100))" and "in_range I128 (sm_get_collateral s user + n * (p * 100))"
  shows "\<exists>t. sm_deposit e user feed n s = Ok t \<and> sm_get_collateral t user = sm_get_collateral s user + 100 * (n * p)"
  using assms by (simp add: sm_deposit_def sm_get_collateral_def get0_def checked_mul_def checked_add_def Let_def)

text \<open>
  In neither half does \<^verbatim>\<open>deposit\<close> look at the sign of the amount: a borrower can take the collateral out
  again by a negative deposit and keep the debt.
\<close>

lemma negative_deposit_strips_collateral:
  assumes "authorized e user" and "sm_Price s feed = Some 1" and "sm_Exponent s feed = Some 7"
    and "0 < sm_get_collateral s user" and "in_range I128 (sm_get_collateral s user)"
  shows "\<exists>t. sms_deposit e user feed (- sm_get_collateral s user) s = Ok t
    \<and> sm_get_collateral t user = 0 \<and> sm_get_debt t user = sm_get_debt s user"
  using assms
  by (simp add: sms_deposit_def sm_get_collateral_def sm_get_debt_def get0_def normalise_def pow10_def
      checked_mul_def checked_div_def checked_add_def checked_def in_range_def signed_divide_int_def)

section \<open>oracle\_source\_unwhitelisted\<close>

record price_sink =
  ps_Price :: "int option"
  ps_Admin :: "address option"
  ps_Oracle :: "address option"

definition ou_initialize :: "env \<Rightarrow> address \<Rightarrow> price_sink \<Rightarrow> price_sink result" where
  "ou_initialize e admin s =
     panic_if (ps_Admin s \<noteq> None) ''already initialized'' (Ok (s\<lparr>ps_Admin := Some admin\<rparr>))"

definition ou_update_price :: "env \<Rightarrow> address \<Rightarrow> address \<Rightarrow> int \<Rightarrow> price_sink \<Rightarrow> price_sink result" where
  "ou_update_price e actor orc price s = require_auth e actor (Ok (s\<lparr>ps_Price := Some price\<rparr>))"

definition ou_get_price :: "price_sink \<Rightarrow> int" where
  "ou_get_price s = unwrap_or (ps_Price s) 0"

text \<open>The attacker's oracle of the demonstration reports the largest \<^verbatim>\<open>i128\<close>.\<close>

definition fake_price :: int where "fake_price = ity_max I128"

definition ous_initialize :: "env \<Rightarrow> address \<Rightarrow> address \<Rightarrow> price_sink \<Rightarrow> price_sink result" where
  "ous_initialize e admin orc s =
     panic_if (ps_Admin s \<noteq> None) ''already initialized'' (
     Ok (s\<lparr>ps_Admin := Some admin, ps_Oracle := Some orc\<rparr>))"

definition ous_update_price :: "env \<Rightarrow> address \<Rightarrow> address \<Rightarrow> int \<Rightarrow> price_sink \<Rightarrow> price_sink result" where
  "ous_update_price e actor orc price s =
     require_auth e actor (
     expect (ps_Oracle s) ''not initialized'' (\<lambda>allowed.
     panic_if (orc \<noteq> allowed) ''oracle not whitelisted'' (
     Ok (s\<lparr>ps_Price := Some price\<rparr>))))"

definition ous_get_price :: "price_sink \<Rightarrow> int" where
  "ous_get_price s = unwrap_or (ps_Price s) 0"

definition ous_oracle :: "price_sink \<Rightarrow> address result" where
  "ous_oracle s = expect (ps_Oracle s) ''not initialized'' Ok"

text \<open>
  The repair compares an address the caller supplies with the stored one, which anybody can read: the
  price is still the caller's. Whoever names the whitelisted oracle stores any price, with no
  signature of the oracle or the admin.
\<close>

theorem whitelist_does_not_bind_price:
  assumes "authorized e actor" and "ous_oracle s = Ok orc"
  shows "\<exists>t. ous_update_price e actor orc price s = Ok t \<and> ous_get_price t = price"
  using assms by (auto simp: ous_update_price_def ous_oracle_def ous_get_price_def result_simps)

theorem whitelist_does_not_bind_price_witness:
  "\<exists>t. ous_update_price (signed_env [Address 7] 1) (Address 7) (Address 5) fake_price
      \<lparr>ps_Price = Some 10, ps_Admin = Some (Address 2), ps_Oracle = Some (Address 5)\<rparr> = Ok t
    \<and> ous_get_price t = fake_price"
  using whitelist_does_not_bind_price [of "signed_env [Address 7] 1" "Address 7"
      "\<lparr>ps_Price = Some 10, ps_Admin = Some (Address 2), ps_Oracle = Some (Address 5)\<rparr>" "Address 5" fake_price]
  by (simp add: signed_env_def ous_oracle_def)

section \<open>untrusted\_oracle\_setter\<close>

text \<open>\<^verbatim>\<open>us_Mock\<close> holds the prices the test harness injects under an oracle's address.\<close>

record oracle_setter =
  us_Admin :: "address option"
  us_Oracle :: "address option"
  us_Allowlist :: "address list option"
  us_Mock :: "address \<rightharpoonup> int"

definition us_initialize :: "env \<Rightarrow> address \<Rightarrow> oracle_setter \<Rightarrow> oracle_setter result" where
  "us_initialize e admin s =
     panic_if (us_Admin s \<noteq> None) ''already initialized'' (Ok (s\<lparr>us_Admin := Some admin\<rparr>))"

definition us_set_oracle :: "env \<Rightarrow> address \<Rightarrow> oracle_setter \<Rightarrow> oracle_setter result" where
  "us_set_oracle e orc s = Ok (s\<lparr>us_Oracle := Some orc\<rparr>)"

definition us_get_price :: "oracle_setter \<Rightarrow> int result" where
  "us_get_price s = expect (us_Oracle s) ''oracle not set'' (\<lambda>orc. Ok (get0 (us_Mock s) orc))"

definition us_mock_oracle_price :: "env \<Rightarrow> address \<Rightarrow> int \<Rightarrow> oracle_setter \<Rightarrow> oracle_setter result" where
  "us_mock_oracle_price e orc price s = Ok (s\<lparr>us_Mock := (us_Mock s)(orc \<mapsto> price)\<rparr>)"

definition us_get_oracle :: "oracle_setter \<Rightarrow> address result" where
  "us_get_oracle s = expect (us_Oracle s) ''oracle not set'' Ok"

definition us_get_admin :: "oracle_setter \<Rightarrow> address result" where
  "us_get_admin s = expect (us_Admin s) ''not initialized'' Ok"

definition us_add_to_allowlist :: "env \<Rightarrow> address \<Rightarrow> oracle_setter \<Rightarrow> oracle_setter result" where
  "us_add_to_allowlist e orc s =
     expect (us_Admin s) ''not initialized'' (\<lambda>admin.
     require_auth e admin (
     Ok (s\<lparr>us_Allowlist := Some (unwrap_or (us_Allowlist s) [] @ [orc])\<rparr>)))"

definition uss_initialize :: "env \<Rightarrow> address \<Rightarrow> oracle_setter \<Rightarrow> oracle_setter result" where
  "uss_initialize e admin s =
     panic_if (us_Admin s \<noteq> None) ''already initialized'' (Ok (s\<lparr>us_Admin := Some admin\<rparr>))"

definition uss_set_oracle :: "env \<Rightarrow> address \<Rightarrow> oracle_setter \<Rightarrow> oracle_setter result" where
  "uss_set_oracle e orc s =
     expect (us_Admin s) ''not initialized'' (\<lambda>admin.
     require_auth e admin (
     ensure (orc \<in> set (unwrap_or (us_Allowlist s) [])) ''oracle not on allowlist'' (
     Ok (s\<lparr>us_Oracle := Some orc\<rparr>))))"

definition uss_add_to_allowlist :: "env \<Rightarrow> address \<Rightarrow> oracle_setter \<Rightarrow> oracle_setter result" where
  "uss_add_to_allowlist e orc s =
     expect (us_Admin s) ''not initialized'' (\<lambda>admin.
     require_auth e admin (
     Ok (s\<lparr>us_Allowlist := Some (unwrap_or (us_Allowlist s) [] @ [orc])\<rparr>)))"

definition uss_get_oracle :: "oracle_setter \<Rightarrow> address result" where
  "uss_get_oracle s = expect (us_Oracle s) ''oracle not set'' Ok"

datatype setter_call =
    UInitialize address
  | USetOracle address
  | UAddToAllowlist address

fun uss_exec :: "env \<Rightarrow> setter_call \<Rightarrow> oracle_setter \<Rightarrow> oracle_setter result" where
  "uss_exec e (UInitialize a) s = uss_initialize e a s"
| "uss_exec e (USetOracle a) s = uss_set_oracle e a s"
| "uss_exec e (UAddToAllowlist a) s = uss_add_to_allowlist e a s"

lemmas setter_defs = uss_initialize_def uss_set_oracle_def uss_add_to_allowlist_def

fun listed_by :: "env \<Rightarrow> setter_call \<Rightarrow> oracle_setter \<Rightarrow> address \<Rightarrow> bool" where
  "listed_by e (UAddToAllowlist b) s a = (b = a \<and> (\<exists>adm. us_Admin s = Some adm \<and> authorized e adm))"
| "listed_by e c s a = False"

interpretation listing_steps: guarded_steps uss_exec
    "\<lambda>s t. a \<in> set (unwrap_or (us_Allowlist t) []) \<longrightarrow> a \<in> set (unwrap_or (us_Allowlist s) [])"
    "\<lambda>e c s. listed_by e c s a"
  for a
proof (unfold_locales, goal_cases)
  case (3 e c s s')
  then show ?case by (cases c) (auto simp: setter_defs result_simps)
qed auto

interpretation oracle_writes: written_view uss_exec us_Oracle
    "\<lambda>e c s r. \<exists>orc adm. r = Some orc \<and> c = USetOracle orc \<and> us_Admin s = Some adm \<and> authorized e adm
       \<and> orc \<in> set (unwrap_or (us_Allowlist s) [])"
proof (unfold_locales, goal_cases)
  case (1 e c s s')
  then show ?case by (cases c) (auto simp: setter_defs result_simps)
qed

definition us_empty :: oracle_setter where
  "us_empty = \<lparr>us_Admin = None, us_Oracle = None, us_Allowlist = None, us_Mock = Map.empty\<rparr>"

text \<open>
  The repaired setter (\<^verbatim>\<open>untrusted_oracle_setter/src/secure.rs\<close>): after any run from deployment, the oracle
  in use was installed by a call the admin signed, and before that call the admin had put it on the
  allowlist by another signed call.
\<close>

theorem oracle_set_by_admin_twice:
  assumes "uss_get_oracle (run_calls uss_exec xs us_empty) = Ok orc"
  shows "\<exists>ys e zs adm us e' vs adm'. xs = ys @ (e, USetOracle orc) # zs
    \<and> us_Admin (run_calls uss_exec ys us_empty) = Some adm \<and> authorized e adm
    \<and> ys = us @ (e', UAddToAllowlist orc) # vs
    \<and> us_Admin (run_calls uss_exec us us_empty) = Some adm' \<and> authorized e' adm'"
proof -
  have "us_Oracle (run_calls uss_exec xs us_empty) = Some orc"
    using assms by (auto simp: uss_get_oracle_def result_simps)
  then have "us_Oracle (run_calls uss_exec xs us_empty) \<noteq> us_Oracle us_empty"
    by (simp add: us_empty_def)
  from oracle_writes.run_writes [OF this] obtain ys e zs adm where
    xs: "xs = ys @ (e, USetOracle orc) # zs" "us_Admin (run_calls uss_exec ys us_empty) = Some adm" "authorized e adm"
    and listed: "orc \<in> set (unwrap_or (us_Allowlist (run_calls uss_exec ys us_empty)) [])"
    using \<open>us_Oracle (run_calls uss_exec xs us_empty) = Some orc\<close> by auto
  have "orc \<notin> set (unwrap_or (us_Allowlist us_empty) [])" by (simp add: us_empty_def)
  with listed obtain us e' c vs where ys: "ys = us @ (e', c) # vs"
    and g: "listed_by e' c (run_calls uss_exec us us_empty) orc"
    using listing_steps.run_guard [where a = orc and s = us_empty and xs = ys] by blast
  from g obtain adm' where "c = UAddToAllowlist orc" "us_Admin (run_calls uss_exec us us_empty) = Some adm'"
    "authorized e' adm'" by (cases c) auto
  with xs ys show ?thesis by blast
qed

definition setter_demo :: "(env \<times> setter_call) list" where
  "setter_demo = [(signed_env [] 1, UInitialize (Address 2)), (signed_env [Address 2] 2, USetOracle (Address 5)),
     (signed_env [Address 2] 3, UAddToAllowlist (Address 5)), (signed_env [Address 2] 4, USetOracle (Address 5))]"

lemma setter_demo_oracle: "uss_get_oracle (run_calls uss_exec setter_demo us_empty) = Ok (Address 5)"
  by (simp add: setter_demo_def us_empty_def signed_env_def setter_defs uss_get_oracle_def)

theorem oracle_set_by_admin_twice_witness:
  "uss_get_oracle (run_calls uss_exec setter_demo us_empty) = Ok (Address 5)
   \<and> (\<exists>us e' vs. setter_demo = us @ (e', UAddToAllowlist (Address 5)) # vs)"
  using oracle_set_by_admin_twice [OF setter_demo_oracle] setter_demo_oracle by fastforce

text \<open>The unrepaired setter takes any address from anybody.\<close>

lemma anyone_sets_oracle: "\<exists>t. us_set_oracle e orc s = Ok t \<and> us_get_oracle t = Ok orc"
  by (simp add: us_set_oracle_def us_get_oracle_def)

end
