(* ===== verification/Call_Chains.thy ===== *)
theory Call_Chains
  imports Soroban_Prelude
begin

text \<open>
  Calls between contracts: the vault that notifies another contract (\<^verbatim>\<open>src/vulnerable/reentrancy\<close>, both
  halves and the notifier), the token with a receiver hook (\<^verbatim>\<open>src/vulnerable/recursive_hook_depth\<close>, both
  halves and the receiver) and the chain of forwarders (\<^verbatim>\<open>src/vulnerable/call_depth\<close>, both entry points).
  The host's rules are parameters: how many nested calls it allows, and whether it lets a contract be
  entered while it is on the call stack (the Soroban host does not; the crates discuss what happens if
  one could). A callee is a function argument of the caller's definition, and the two are tied
  together by recursion on the remaining call depth.
\<close>

section \<open>reentrancy\<close>

record reent_world =
  rw_Balance :: "address \<rightharpoonup> int"
  rw_Withdrawn :: "address \<rightharpoonup> int"
  nt_Vault :: "address option"
  nt_Notify :: "address option"
  nt_Reenter :: "bool option"

text \<open>Where the contracts are deployed, and the host's rule on re-entry.\<close>

record deployment =
  dp_vault :: address
  dp_notify :: address
  dp_reentry :: bool

text \<open>The two calls between the contracts, as the client sees them.\<close>

type_synonym withdraw_client = "address \<Rightarrow> int \<Rightarrow> address \<Rightarrow> reent_world \<Rightarrow> reent_world result"
type_synonym notify_client = "address \<Rightarrow> address \<Rightarrow> int \<Rightarrow> reent_world \<Rightarrow> reent_world result"

definition rv_deposit :: "env \<Rightarrow> address \<Rightarrow> int \<Rightarrow> reent_world \<Rightarrow> reent_world result" where
  "rv_deposit e user amount w =
     require_auth e user (
     arith (checked_add I128 (get0 (rw_Balance w) user) amount) (\<lambda>n.
     Ok (w\<lparr>rw_Balance := (rw_Balance w)(user \<mapsto> n)\<rparr>)))"

definition rv_withdraw :: "notify_client \<Rightarrow> env \<Rightarrow> address \<Rightarrow> int \<Rightarrow> address \<Rightarrow> reent_world \<Rightarrow> reent_world result" where
  "rv_withdraw on_withdraw e user amount notify_id w =
     require_auth e user (
     let balance = get0 (rw_Balance w) user in
     and_then (on_withdraw notify_id user amount w) (\<lambda>w1.
     expect (checked_sub I128 balance amount) ''insufficient funds'' (\<lambda>new_balance.
     let w2 = w1\<lparr>rw_Balance := (rw_Balance w1)(user \<mapsto> new_balance)\<rparr>;
         withdrawn = get0 (rw_Withdrawn w2) user in
     arith (checked_add I128 withdrawn amount) (\<lambda>n.
     Ok (w2\<lparr>rw_Withdrawn := (rw_Withdrawn w2)(user \<mapsto> n)\<rparr>)))))"

definition rv_get_balance :: "reent_world \<Rightarrow> address \<Rightarrow> int" where
  "rv_get_balance w user = get0 (rw_Balance w) user"

definition rv_get_withdrawn :: "reent_world \<Rightarrow> address \<Rightarrow> int" where
  "rv_get_withdrawn w user = get0 (rw_Withdrawn w) user"

definition nt_configure :: "env \<Rightarrow> address \<Rightarrow> address \<Rightarrow> bool \<Rightarrow> reent_world \<Rightarrow> reent_world result" where
  "nt_configure e vault_id notify_id reenter w =
     Ok (w\<lparr>nt_Vault := Some vault_id, nt_Notify := Some notify_id, nt_Reenter := Some reenter\<rparr>)"

definition nt_on_withdraw :: "(address \<Rightarrow> withdraw_client) \<Rightarrow> address \<Rightarrow> int \<Rightarrow> reent_world \<Rightarrow> reent_world result" where
  "nt_on_withdraw vault_withdraw user amount w =
     (if unwrap_or (nt_Reenter w) False then
        let w1 = w\<lparr>nt_Reenter := Some False\<rparr> in
        expect (nt_Vault w1) ''vault not configured'' (\<lambda>vault_id.
        expect (nt_Notify w1) ''notify contract not configured'' (\<lambda>notify_id.
        vault_withdraw vault_id user amount notify_id w1))
      else Ok w)"

definition rvs_deposit :: "env \<Rightarrow> address \<Rightarrow> int \<Rightarrow> reent_world \<Rightarrow> reent_world result" where
  "rvs_deposit e user amount w =
     require_auth e user (
     arith (checked_add I128 (get0 (rw_Balance w) user) amount) (\<lambda>n.
     Ok (w\<lparr>rw_Balance := (rw_Balance w)(user \<mapsto> n)\<rparr>)))"

definition rvs_withdraw :: "notify_client \<Rightarrow> env \<Rightarrow> address \<Rightarrow> int \<Rightarrow> address \<Rightarrow> reent_world \<Rightarrow> reent_world result" where
  "rvs_withdraw on_withdraw e user amount notify_id w =
     require_auth e user (
     let balance = get0 (rw_Balance w) user in
     expect (checked_sub I128 balance amount) ''insufficient funds'' (\<lambda>new_balance.
     let w1 = w\<lparr>rw_Balance := (rw_Balance w)(user \<mapsto> new_balance)\<rparr> in
     and_then (on_withdraw notify_id user amount w1) (\<lambda>w2.
     let withdrawn = get0 (rw_Withdrawn w2) user in
     arith (checked_add I128 withdrawn amount) (\<lambda>n.
     Ok (w2\<lparr>rw_Withdrawn := (rw_Withdrawn w2)(user \<mapsto> n)\<rparr>)))))"

definition rvs_get_balance :: "reent_world \<Rightarrow> address \<Rightarrow> int" where
  "rvs_get_balance w user = get0 (rw_Balance w) user"

definition rvs_get_withdrawn :: "reent_world \<Rightarrow> address \<Rightarrow> int" where
  "rvs_get_withdrawn w user = get0 (rw_Withdrawn w) user"

text \<open>
  The host: a call of the vault's \<^verbatim>\<open>withdraw\<close> with at most the given number of activations of the vault on
  the call stack. A nested activation is a re-entry.
\<close>

definition notify_at :: "deployment \<Rightarrow> (address \<Rightarrow> int \<Rightarrow> reent_world \<Rightarrow> reent_world result) \<Rightarrow> notify_client" where
  "notify_at d k a user amount w = (if a = dp_notify d then k user amount w else Err NoContract)"

definition reenter_at :: "deployment \<Rightarrow> withdraw_client \<Rightarrow> address \<Rightarrow> withdraw_client" where
  "reenter_at d k a user amount notify_id w =
     (if a \<noteq> dp_vault d then Err NoContract
      else if \<not> dp_reentry d then Err Reentered
      else k user amount notify_id w)"

primrec rv_call :: "nat \<Rightarrow> deployment \<Rightarrow> env \<Rightarrow> address \<Rightarrow> int \<Rightarrow> address \<Rightarrow> reent_world \<Rightarrow> reent_world result" where
  "rv_call 0 d e user amount notify_id w = Err CallDepth"
| "rv_call (Suc k) d e user amount notify_id w =
     rv_withdraw (notify_at d (nt_on_withdraw (reenter_at d (rv_call k d e)))) e user amount notify_id w"

primrec rvs_call :: "nat \<Rightarrow> deployment \<Rightarrow> env \<Rightarrow> address \<Rightarrow> int \<Rightarrow> address \<Rightarrow> reent_world \<Rightarrow> reent_world result" where
  "rvs_call 0 d e user amount notify_id w = Err CallDepth"
| "rvs_call (Suc k) d e user amount notify_id w =
     rvs_withdraw (notify_at d (nt_on_withdraw (reenter_at d (rvs_call k d e)))) e user amount notify_id w"

lemmas vault_call_defs = rv_withdraw_def rvs_withdraw_def notify_at_def nt_on_withdraw_def reenter_at_def

subsection \<open>The nesting ends\<close>

text \<open>Once the notifier has cleared its flag it calls nobody, so one activation is enough.\<close>

lemma calm_call:
  assumes "\<not> unwrap_or (nt_Reenter w) False"
  shows "rv_call (Suc k) d e user n a w = rv_call 1 d e user n a w"
    and "rvs_call (Suc k) d e user n a w = rvs_call 1 d e user n a w"
  using assms by (simp_all add: vault_call_defs cong: if_cong)

lemma notifier_needs_one:
  "nt_on_withdraw (reenter_at d (rv_call (Suc k) d e)) = nt_on_withdraw (reenter_at d (rv_call 1 d e))"
  "nt_on_withdraw (reenter_at d (rvs_call (Suc k) d e)) = nt_on_withdraw (reenter_at d (rvs_call 1 d e))"
proof -
  have "reenter_at d (rv_call (Suc k) d e) v u m nid (x\<lparr>nt_Reenter := Some False\<rparr>)
      = reenter_at d (rv_call 1 d e) v u m nid (x\<lparr>nt_Reenter := Some False\<rparr>)"
    "reenter_at d (rvs_call (Suc k) d e) v u m nid (x\<lparr>nt_Reenter := Some False\<rparr>)
      = reenter_at d (rvs_call 1 d e) v u m nid (x\<lparr>nt_Reenter := Some False\<rparr>)" for v u m nid x
    by (simp_all add: reenter_at_def calm_call [of "x\<lparr>nt_Reenter := Some False\<rparr>" k] del: rv_call.simps rvs_call.simps)
  then show "nt_on_withdraw (reenter_at d (rv_call (Suc k) d e)) = nt_on_withdraw (reenter_at d (rv_call 1 d e))"
    "nt_on_withdraw (reenter_at d (rvs_call (Suc k) d e)) = nt_on_withdraw (reenter_at d (rvs_call 1 d e))"
    by (intro ext, simp add: nt_on_withdraw_def Let_def del: rv_call.simps rvs_call.simps)+
qed

lemmas result_unfold = require_auth_def and_then_def expect_def arith_def

lemma calm_no_depth_error:
  assumes "\<not> unwrap_or (nt_Reenter w) False"
  shows "rv_call 1 d e user n a w \<noteq> Err CallDepth" and "rvs_call 1 d e user n a w \<noteq> Err CallDepth"
  using assms by (simp_all add: vault_call_defs result_unfold Let_def split: option.splits)

lemma notifier_no_depth_error:
  "nt_on_withdraw (reenter_at d (rv_call 1 d e)) user n w \<noteq> Err CallDepth"
  "nt_on_withdraw (reenter_at d (rvs_call 1 d e)) user n w \<noteq> Err CallDepth"
  using calm_no_depth_error [of "w\<lparr>nt_Reenter := Some False\<rparr>" d e]
  by (auto simp: nt_on_withdraw_def reenter_at_def expect_def Let_def simp del: One_nat_def split: option.splits)

text \<open>
  C27: Termination of the call chain vault, notifier, vault and so on: the notifier clears its flag before
  it calls back, so two activations of the vault are always enough; with that call depth or any larger
  one both vaults return the same result, never the host's depth error.
\<close>

theorem reentrant_chain_terminates:
  "rv_call (k + 2) d e user n a w = rv_call 2 d e user n a w \<and> rv_call 2 d e user n a w \<noteq> Err CallDepth
   \<and> rvs_call (k + 2) d e user n a w = rvs_call 2 d e user n a w \<and> rvs_call 2 d e user n a w \<noteq> Err CallDepth"
proof -
  have two: "k + 2 = Suc (Suc k)" "2 = Suc 1" by simp_all
  have "rv_call (k + 2) d e user n a w = rv_call 2 d e user n a w"
    "rvs_call (k + 2) d e user n a w = rvs_call 2 d e user n a w"
    unfolding two(1) unfolding two(2) rv_call.simps(2) [of "Suc k"] rv_call.simps(2) [of 1] rvs_call.simps(2) [of "Suc k"]
      rvs_call.simps(2) [of 1] notifier_needs_one by (rule refl)+
  moreover have "rv_call 2 d e user n a w \<noteq> Err CallDepth" "rvs_call 2 d e user n a w \<noteq> Err CallDepth"
    unfolding two(2) rv_call.simps(2) [of 1] rvs_call.simps(2) [of 1]
    using notifier_no_depth_error [of d e user n w]
      notifier_no_depth_error(2) [of d e user n "w\<lparr>rw_Balance := (rw_Balance w)(user \<mapsto> get0 (rw_Balance w) user - n)\<rparr>"]
    by (auto simp: rv_withdraw_def rvs_withdraw_def notify_at_def result_unfold checked_sub_def checked_def Let_def
        simp del: One_nat_def split: option.splits sum.splits)
  ultimately show ?thesis by simp
qed

subsection \<open>What re-entry costs\<close>

text \<open>What the user has withdrawn and still has. A withdrawal should not change it.\<close>

definition holdings :: "reent_world \<Rightarrow> address \<Rightarrow> int" where
  "holdings w u = rvs_get_balance w u + rvs_get_withdrawn w u"

lemma rvs_withdraw_holdings:
  assumes callee: "\<And>a user n w w'. cb a user n w = Ok w' \<Longrightarrow> holdings w' u = holdings w u"
    and ok: "rvs_withdraw cb e user n a w = Ok w'"
  shows "holdings w' u = holdings w u"
proof -
  let ?w1 = "w\<lparr>rw_Balance := (rw_Balance w)(user \<mapsto> get0 (rw_Balance w) user - n)\<rparr>"
  from ok obtain w2 where w2: "cb a user n ?w1 = Ok w2"
    and w': "w' = w2\<lparr>rw_Withdrawn := (rw_Withdrawn w2)(user \<mapsto> get0 (rw_Withdrawn w2) user + n)\<rparr>"
    by (auto simp: rvs_withdraw_def result_simps int_simps Let_def)
  have "holdings w2 u = holdings ?w1 u" by (rule callee [OF w2])
  then show ?thesis
    by (auto simp: w' holdings_def rvs_get_balance_def rvs_get_withdrawn_def)
qed

lemma rvs_call_holdings: "rvs_call k d e user n a w = Ok w' \<Longrightarrow> holdings w' u = holdings w u"
proof (induction k arbitrary: user n a w w')
  case (Suc k)
  have "holdings y u = holdings x u"
    if "notify_at d (nt_on_withdraw (reenter_at d (rvs_call k d e))) b v m x = Ok y" for b v m x y
    using that Suc.IH
    by (fastforce simp: notify_at_def nt_on_withdraw_def reenter_at_def result_simps Let_def holdings_def
        rvs_get_balance_def rvs_get_withdrawn_def split: if_splits)
  from rvs_withdraw_holdings [OF this] Suc.prems show ?case by simp
qed simp

text \<open>
  Re-entry (\<^verbatim>\<open>reentrancy/src/lib.rs\<close> against \<^verbatim>\<open>secure.rs\<close>), on a host that allows it: with the notifier set to
  call back, the unrepaired vault pays a withdrawal twice and books it once, so balance plus
  withdrawals grow by the amount; in the repaired vault no call, nested or not, changes that sum. On
  a host that refuses re-entry, as Soroban does, the attack traps.
\<close>

theorem reentrancy_double_spend:
  assumes auth: "authorized e user"
    and set_up: "nt_Reenter w = Some True" "nt_Vault w = Some (dp_vault d)" "nt_Notify w = Some (dp_notify d)"
    and range: "in_range I128 (rv_get_balance w user - n)"
      "in_range I128 (rv_get_withdrawn w user + n)" "in_range I128 (rv_get_withdrawn w user + 2 * n)"
  shows "(dp_reentry d \<longrightarrow> (\<exists>w'. rv_call (k + 2) d e user n (dp_notify d) w = Ok w'
            \<and> rv_get_balance w' user = rv_get_balance w user - n
            \<and> rv_get_withdrawn w' user = rv_get_withdrawn w user + 2 * n))
    \<and> (\<not> dp_reentry d \<longrightarrow> rv_call (k + 2) d e user n (dp_notify d) w = Err Reentered)
    \<and> (\<forall>m x b w'. rvs_call m d e user x b w = Ok w' \<longrightarrow>
          (\<forall>u. rvs_get_balance w' u + rvs_get_withdrawn w' u = rvs_get_balance w u + rvs_get_withdrawn w u))"
proof (intro conjI impI allI)
  assume "dp_reentry d"
  with assms show "\<exists>w'. rv_call (k + 2) d e user n (dp_notify d) w = Ok w'
            \<and> rv_get_balance w' user = rv_get_balance w user - n
            \<and> rv_get_withdrawn w' user = rv_get_withdrawn w user + 2 * n"
    by (simp add: vault_call_defs rv_get_balance_def rv_get_withdrawn_def checked_sub_def checked_add_def Let_def
        add.commute)
next
  assume "\<not> dp_reentry d"
  with assms show "rv_call (k + 2) d e user n (dp_notify d) w = Err Reentered"
    by (simp add: vault_call_defs Let_def)
next
  fix m x b w' u
  assume "rvs_call m d e user x b w = Ok w'"
  from rvs_call_holdings [OF this]
  show "rvs_get_balance w' u + rvs_get_withdrawn w' u = rvs_get_balance w u + rvs_get_withdrawn w u"
    by (simp add: holdings_def)
qed

definition reent_demo :: reent_world where
  "reent_demo = \<lparr>rw_Balance = [Address 2 \<mapsto> 1000], rw_Withdrawn = Map.empty, nt_Vault = Some (Address 8),
     nt_Notify = Some (Address 9), nt_Reenter = Some True\<rparr>"

definition reent_host :: deployment where
  "reent_host = \<lparr>dp_vault = Address 8, dp_notify = Address 9, dp_reentry = True\<rparr>"

lemma reent_demo_ready:
  "authorized (signed_env [Address 2] 1) (Address 2)"
  "nt_Reenter reent_demo = Some True" "nt_Vault reent_demo = Some (dp_vault reent_host)"
  "nt_Notify reent_demo = Some (dp_notify reent_host)" "dp_reentry reent_host"
  "rv_get_balance reent_demo (Address 2) = 1000" "rv_get_withdrawn reent_demo (Address 2) = 0"
  by (simp_all add: reent_demo_def reent_host_def signed_env_def rv_get_balance_def rv_get_withdrawn_def)

theorem reentrancy_double_spend_witness:
  "\<exists>w'. rv_call (0 + 2) reent_host (signed_env [Address 2] 1) (Address 2) 1000 (dp_notify reent_host) reent_demo = Ok w'
    \<and> rv_get_balance w' (Address 2) = 0 \<and> rv_get_withdrawn w' (Address 2) = 2000"
  using reentrancy_double_spend [of "signed_env [Address 2] 1" "Address 2" reent_demo reent_host 1000 0]
  by (simp only: reent_demo_ready) (simp add: in_range_def del: rv_call.simps)

text \<open>
  The message \<^verbatim>\<open>insufficient funds\<close> belongs to a subtraction that fails only on overflow of the signed type:
  in both halves a withdrawal larger than the balance succeeds and leaves the balance negative.
\<close>

lemma vault_overdraw:
  assumes "authorized e user" and "\<not> unwrap_or (nt_Reenter w) False"
    and "in_range I128 (rvs_get_balance w user - n)" "in_range I128 (rvs_get_withdrawn w user + n)"
  shows "\<exists>w'. rvs_call (Suc k) d e user n (dp_notify d) w = Ok w'
    \<and> rvs_get_balance w' user = rvs_get_balance w user - n"
  using assms
  by (simp add: vault_call_defs rvs_get_balance_def rvs_get_withdrawn_def checked_sub_def checked_add_def Let_def)

section \<open>recursive\_hook\_depth\<close>

record hook_world =
  hw_Balance :: "address \<rightharpoonup> int"
  hw_HookCount :: "int option"
  hw_HookDepth :: "int option"
  rc_Token :: "address option"
  rc_Sender :: "address option"
  rc_Recurse :: "bool option"

definition MAX_HOOK_DEPTH :: int where "MAX_HOOK_DEPTH = 1"

text \<open>The hook as the token calls it: the contract called, the sender and the amount.\<close>

type_synonym hook_client = "address \<Rightarrow> address \<Rightarrow> int \<Rightarrow> hook_world \<Rightarrow> hook_world result"

definition ht_mint :: "env \<Rightarrow> address \<Rightarrow> int \<Rightarrow> hook_world \<Rightarrow> hook_world result" where
  "ht_mint e to amount w =
     arith (checked_add I128 (get0 (hw_Balance w) to) amount) (\<lambda>n.
     Ok (w\<lparr>hw_Balance := (hw_Balance w)(to \<mapsto> n)\<rparr>))"

definition ht_transfer :: "hook_client \<Rightarrow> env \<Rightarrow> address \<Rightarrow> address \<Rightarrow> int \<Rightarrow> hook_world \<Rightarrow> hook_world result" where
  "ht_transfer on_xfer e from to amount w =
     require_auth e from (
     let from_bal = get0 (hw_Balance w) from in
     ensure (from_bal \<ge> amount) ''insufficient balance'' (
     arith (checked_sub I128 from_bal amount) (\<lambda>f.
     let w1 = w\<lparr>hw_Balance := (hw_Balance w)(from \<mapsto> f)\<rparr>; to_bal = get0 (hw_Balance w1) to in
     arith (checked_add I128 to_bal amount) (\<lambda>t.
     let w2 = w1\<lparr>hw_Balance := (hw_Balance w1)(to \<mapsto> t)\<rparr> in
     and_then (on_xfer to from amount w2) (\<lambda>w3.
     let hc = unwrap_or (hw_HookCount w3) 0 in
     arith (checked_add U32 hc 1) (\<lambda>c.
     Ok (w3\<lparr>hw_HookCount := Some c\<rparr>)))))))"

definition ht_balance :: "hook_world \<Rightarrow> address \<Rightarrow> int" where
  "ht_balance w who = get0 (hw_Balance w) who"

definition ht_hook_count :: "hook_world \<Rightarrow> int" where
  "ht_hook_count w = unwrap_or (hw_HookCount w) 0"

definition rr_configure :: "env \<Rightarrow> address \<Rightarrow> address \<Rightarrow> bool \<Rightarrow> hook_world \<Rightarrow> hook_world result" where
  "rr_configure e token sender recurse w =
     Ok (w\<lparr>rc_Token := Some token, rc_Sender := Some sender, rc_Recurse := Some recurse\<rparr>)"

definition rr_on_xfer ::
    "(address \<Rightarrow> address \<Rightarrow> address \<Rightarrow> int \<Rightarrow> hook_world \<Rightarrow> hook_world result) \<Rightarrow> address
     \<Rightarrow> address \<Rightarrow> int \<Rightarrow> hook_world \<Rightarrow> hook_world result" where
  "rr_on_xfer token_transfer self_addr from amount w =
     (if unwrap_or (rc_Recurse w) False then
        let w1 = w\<lparr>rc_Recurse := Some False\<rparr> in
        expect (rc_Token w1) ''token not set'' (\<lambda>token.
        token_transfer token self_addr from amount w1)
      else Ok w)"

definition hts_mint :: "env \<Rightarrow> address \<Rightarrow> int \<Rightarrow> hook_world \<Rightarrow> hook_world result" where
  "hts_mint e to amount w =
     arith (checked_add I128 (get0 (hw_Balance w) to) amount) (\<lambda>n.
     Ok (w\<lparr>hw_Balance := (hw_Balance w)(to \<mapsto> n)\<rparr>))"

definition hts_transfer :: "hook_client \<Rightarrow> env \<Rightarrow> address \<Rightarrow> address \<Rightarrow> int \<Rightarrow> hook_world \<Rightarrow> hook_world result" where
  "hts_transfer on_xfer e from to amount w =
     require_auth e from (
     let depth = unwrap_or (hw_HookDepth w) 0 in
     ensure (depth < MAX_HOOK_DEPTH) ''hook depth exceeded'' (
     let from_bal = get0 (hw_Balance w) from in
     ensure (from_bal \<ge> amount) ''insufficient balance'' (
     arith (checked_sub I128 from_bal amount) (\<lambda>f.
     let w1 = w\<lparr>hw_Balance := (hw_Balance w)(from \<mapsto> f)\<rparr>; to_bal = get0 (hw_Balance w1) to in
     arith (checked_add I128 to_bal amount) (\<lambda>t.
     let w2 = w1\<lparr>hw_Balance := (hw_Balance w1)(to \<mapsto> t)\<rparr> in
     arith (checked_add U32 depth 1) (\<lambda>deeper.
     and_then (on_xfer to from amount (w2\<lparr>hw_HookDepth := Some deeper\<rparr>)) (\<lambda>w3.
     Ok (w3\<lparr>hw_HookDepth := Some depth\<rparr>))))))))"

definition hts_balance :: "hook_world \<Rightarrow> address \<Rightarrow> int" where
  "hts_balance w who = get0 (hw_Balance w) who"

text \<open>
  The host: only the receiver contract answers a hook; its call back into the token is made in its own
  name, so its own authorisation is given, and it is a re-entry of the token.
\<close>

record hook_host =
  hk_token :: address
  hk_receiver :: address
  hk_reentry :: bool

definition invoked_by :: "address \<Rightarrow> env \<Rightarrow> env" where
  "invoked_by a e = e\<lparr>authorized := (\<lambda>b. b = a \<or> authorized e b)\<rparr>"

definition hook_at :: "hook_host \<Rightarrow> (address \<Rightarrow> int \<Rightarrow> hook_world \<Rightarrow> hook_world result) \<Rightarrow> hook_client" where
  "hook_at d k a from amount w = (if a = hk_receiver d then k from amount w else Err NoContract)"

definition token_at ::
    "hook_host \<Rightarrow> (address \<Rightarrow> address \<Rightarrow> int \<Rightarrow> hook_world \<Rightarrow> hook_world result)
     \<Rightarrow> address \<Rightarrow> address \<Rightarrow> address \<Rightarrow> int \<Rightarrow> hook_world \<Rightarrow> hook_world result" where
  "token_at d k a from to amount w =
     (if a \<noteq> hk_token d then Err NoContract
      else if \<not> hk_reentry d then Err Reentered
      else k from to amount w)"

primrec ht_call :: "nat \<Rightarrow> hook_host \<Rightarrow> env \<Rightarrow> address \<Rightarrow> address \<Rightarrow> int \<Rightarrow> hook_world \<Rightarrow> hook_world result" where
  "ht_call 0 d e from to amount w = Err CallDepth"
| "ht_call (Suc k) d e from to amount w =
     ht_transfer (hook_at d (rr_on_xfer (token_at d (ht_call k d (invoked_by (hk_receiver d) e))) (hk_receiver d)))
       e from to amount w"

primrec hts_call :: "nat \<Rightarrow> hook_host \<Rightarrow> env \<Rightarrow> address \<Rightarrow> address \<Rightarrow> int \<Rightarrow> hook_world \<Rightarrow> hook_world result" where
  "hts_call 0 d e from to amount w = Err CallDepth"
| "hts_call (Suc k) d e from to amount w =
     hts_transfer (hook_at d (rr_on_xfer (token_at d (hts_call k d (invoked_by (hk_receiver d) e))) (hk_receiver d)))
       e from to amount w"

lemma hts_call_too_deep: "1 \<le> unwrap_or (hw_HookDepth w) 0 \<Longrightarrow> \<exists>x. hts_call k d e a b n w = Err x"
  by (cases k; cases "hts_call k d e a b n w") (auto simp: hts_transfer_def result_simps MAX_HOOK_DEPTH_def Let_def)

text \<open>
  The depth guard (\<^verbatim>\<open>recursive_hook_depth/src/secure.rs\<close>), on any host: a transfer that returns was made
  outside any hook, its receiver did not call back into the token, the balances moved exactly once
  (not at all for a transfer to oneself) and the depth counter is back where it was.
\<close>

theorem hooked_transfer_runs_once:
  assumes "hts_call k d e a b n w = Ok w'" and "0 \<le> unwrap_or (hw_HookDepth w) 0"
  shows "unwrap_or (hw_HookDepth w) 0 = 0 \<and> unwrap_or (hw_HookDepth w') 0 = 0
    \<and> \<not> unwrap_or (rc_Recurse w) False \<and> b = hk_receiver d \<and> authorized e a
    \<and> n \<le> hts_balance w a
    \<and> hts_balance w' u = hts_balance w u - (if u = a then n else 0) + (if u = b then n else 0)"
proof -
  from assms(1) obtain m where k: "k = Suc m" by (cases k) auto
  let ?w2 = "w\<lparr>hw_Balance := (hw_Balance w)(a \<mapsto> get0 (hw_Balance w) a - n,
      b \<mapsto> get0 ((hw_Balance w)(a \<mapsto> get0 (hw_Balance w) a - n)) b + n), hw_HookDepth := Some 1\<rparr>"
  let ?hook = "rr_on_xfer (token_at d (hts_call m d (invoked_by (hk_receiver d) e))) (hk_receiver d) a n ?w2"
  from assms have depth: "unwrap_or (hw_HookDepth w) 0 = 0"
    unfolding k by (auto simp: hts_transfer_def result_simps MAX_HOOK_DEPTH_def Let_def)
  with assms(1) have auth: "authorized e a" "n \<le> get0 (hw_Balance w) a"
    and b: "b = hk_receiver d" and hook: "\<exists>w3. ?hook = Ok w3 \<and> w' = w3\<lparr>hw_HookDepth := Some 0\<rparr>"
    unfolding k by (auto simp: hts_transfer_def hook_at_def result_simps int_simps MAX_HOOK_DEPTH_def Let_def
        split: if_splits)
  have calm: "\<not> unwrap_or (rc_Recurse w) False"
  proof
    assume "unwrap_or (rc_Recurse w) False"
    with hook obtain t w3 where "hts_call m d (invoked_by (hk_receiver d) e) (hk_receiver d) a n
        (?w2\<lparr>rc_Recurse := Some False\<rparr>) = Ok w3"
      by (auto simp: rr_on_xfer_def token_at_def result_simps Let_def split: if_splits)
    with hts_call_too_deep [of "?w2\<lparr>rc_Recurse := Some False\<rparr>" m d "invoked_by (hk_receiver d) e" "hk_receiver d" a n]
    show False by auto
  qed
  with hook have "w' = ?w2\<lparr>hw_HookDepth := Some 0\<rparr>" by (auto simp: rr_on_xfer_def)
  with depth auth b calm show ?thesis by (auto simp: hts_balance_def)
qed

definition hook_demo :: hook_world where
  "hook_demo = \<lparr>hw_Balance = [Address 2 \<mapsto> 1000], hw_HookCount = None, hw_HookDepth = None,
     rc_Token = Some (Address 8), rc_Sender = Some (Address 2), rc_Recurse = Some False\<rparr>"

definition hook_env :: hook_host where
  "hook_env = \<lparr>hk_token = Address 8, hk_receiver = Address 9, hk_reentry = True\<rparr>"

definition hook_done :: hook_world where
  "hook_done = hook_demo\<lparr>hw_Balance := [Address 2 \<mapsto> 600, Address 9 \<mapsto> 400], hw_HookDepth := Some 0\<rparr>"

lemma hook_demo_call: "hts_call 1 hook_env (signed_env [Address 2] 1) (Address 2) (Address 9) 400 hook_demo = Ok hook_done"
  by (simp add: hook_demo_def hook_env_def hook_done_def signed_env_def hts_transfer_def hook_at_def rr_on_xfer_def
      MAX_HOOK_DEPTH_def checked_sub_def checked_add_def checked_def in_range_def)

theorem hooked_transfer_runs_once_witness:
  "hts_call 1 hook_env (signed_env [Address 2] 1) (Address 2) (Address 9) 400 hook_demo = Ok hook_done
   \<and> hts_balance hook_done (Address 9) = hts_balance hook_demo (Address 9) + 400"
  using hooked_transfer_runs_once [OF hook_demo_call, of "Address 9"] hook_demo_call
  by (auto simp: hook_demo_def simp del: hts_call.simps)

section \<open>call\_depth\<close>

definition MAX_DEPTH :: int where "MAX_DEPTH = 10"

record chain_world =
  cw_Processed :: "address \<rightharpoonup> bool"
  cw_ProcessedCount :: "address \<rightharpoonup> int"

text \<open>What \<^verbatim>\<open>process\<close> writes in the contract that runs it, after the forwarded call.\<close>

definition mark_processed :: "address \<Rightarrow> chain_world \<Rightarrow> chain_world result" where
  "mark_processed self w =
     (let w1 = w\<lparr>cw_Processed := (cw_Processed w)(self \<mapsto> True)\<rparr>;
          cnt = get0 (cw_ProcessedCount w1) self in
      arith (checked_add U32 cnt 1) (\<lambda>n.
      Ok (w1\<lparr>cw_ProcessedCount := (cw_ProcessedCount w1)(self \<mapsto> n)\<rparr>)))"

text \<open>
  The host's check on a nested call to \<open>next_id\<close>: the address hosts an instance, is not on the call stack,
  and the limit on nested calls is not exhausted.
\<close>

definition host_call :: "(address \<Rightarrow> bool) \<Rightarrow> nat \<Rightarrow> address list \<Rightarrow> address \<Rightarrow> 'a result \<Rightarrow> 'a result" where
  "host_call deployed limit stack next_id k =
     (if \<not> deployed next_id then Err NoContract
      else if next_id \<in> set stack then Err Reentered
      else if limit = 0 then Err CallDepth
      else k)"

fun process :: "(address \<Rightarrow> bool) \<Rightarrow> nat \<Rightarrow> address list \<Rightarrow> address \<Rightarrow> address list \<Rightarrow> chain_world \<Rightarrow> chain_world result" where
  "process dep limit stack self [] w = mark_processed self w"
| "process dep limit stack self (next_id # rest) w =
     and_then (host_call dep limit (self # stack) next_id
                (process dep (limit - 1) (self # stack) next_id rest w))
       (\<lambda>w1. mark_processed self w1)"

fun process_safe :: "(address \<Rightarrow> bool) \<Rightarrow> nat \<Rightarrow> address list \<Rightarrow> address \<Rightarrow> address list \<Rightarrow> chain_world \<Rightarrow> chain_world result" where
  "process_safe dep limit stack self [] w =
     ensure (int (length ([] :: address list)) \<le> MAX_DEPTH) ''call depth exceeds safe threshold'' (mark_processed self w)"
| "process_safe dep limit stack self (next_id # rest) w =
     ensure (int (length (next_id # rest)) \<le> MAX_DEPTH) ''call depth exceeds safe threshold'' (
     and_then (host_call dep limit (self # stack) next_id
                (process_safe dep (limit - 1) (self # stack) next_id rest w))
       (\<lambda>w1. mark_processed self w1))"

definition is_processed :: "chain_world \<Rightarrow> address \<Rightarrow> bool" where
  "is_processed w self = unwrap_or (cw_Processed w self) False"

definition processed_count :: "chain_world \<Rightarrow> address \<Rightarrow> int" where
  "processed_count w self = get0 (cw_ProcessedCount w) self"

lemma process_safe_short:
  "int (length chain) \<le> MAX_DEPTH
   \<Longrightarrow> process_safe dep limit stack self chain w = process dep limit stack self chain w"
  by (induction dep limit stack self chain w rule: process_safe.induct) (auto simp: host_call_def)

lemma process_safe_long:
  "MAX_DEPTH < int (length chain)
   \<Longrightarrow> process_safe dep limit stack self chain w = Err (Panic ''call depth exceeds safe threshold'')"
  by (cases chain) (auto simp: MAX_DEPTH_def)

lemma process_counts:
  assumes "distinct (self # chain)" and "set (self # chain) \<inter> set stack = {}"
    and "length chain \<le> limit" and "\<forall>a\<in>set chain. dep a"
    and "\<forall>a\<in>set (self # chain). 0 \<le> processed_count w a \<and> processed_count w a < 2 ^ 32 - 1"
  shows "\<exists>w'. process dep limit stack self chain w = Ok w'
    \<and> (\<forall>a. processed_count w' a = processed_count w a + (if a \<in> set (self # chain) then 1 else 0))
    \<and> (\<forall>a. is_processed w' a \<longleftrightarrow> is_processed w a \<or> a \<in> set (self # chain))"
  using assms
proof (induction chain arbitrary: self stack limit w)
  case Nil
  then show ?case
    by (auto simp: mark_processed_def processed_count_def is_processed_def checked_add_def checked_def in_range_def)
next
  case (Cons b chain)
  have "\<exists>w'. process dep (limit - 1) (self # stack) b chain w = Ok w'
    \<and> (\<forall>a. processed_count w' a = processed_count w a + (if a \<in> set (b # chain) then 1 else 0))
    \<and> (\<forall>a. is_processed w' a \<longleftrightarrow> is_processed w a \<or> a \<in> set (b # chain))"
    using Cons.prems by (intro Cons.IH) auto
  then obtain w1 where w1: "process dep (limit - 1) (self # stack) b chain w = Ok w1"
    "\<And>a. processed_count w1 a = processed_count w a + (if a \<in> set (b # chain) then 1 else 0)"
    "\<And>a. is_processed w1 a \<longleftrightarrow> is_processed w a \<or> a \<in> set (b # chain)" by blast
  have host: "host_call dep limit (self # stack) b k = k" for k :: "chain_world result"
    using Cons.prems by (auto simp: host_call_def)
  have "processed_count w1 self = processed_count w self"
    using w1(2) [of self] Cons.prems(1) by auto
  then have "in_range U32 (get0 (cw_ProcessedCount w1) self + 1)"
    using Cons.prems(5) by (simp add: processed_count_def in_range_def)
  with w1 host Cons.prems(1) show ?case
    by (auto simp: mark_processed_def checked_add_def processed_count_def is_processed_def)
qed

text \<open>
  The chain of forwarders (\<^verbatim>\<open>call_depth/src/lib.rs\<close>): \<^verbatim>\<open>process_safe\<close> refuses a chain longer than ten before it
  does anything; on every other chain it is \<^verbatim>\<open>process\<close>. On a host that allows ten nested calls such a
  chain of distinct deployed instances always completes, and exactly the entry contract and the
  instances of the chain count one more processed call.
\<close>

theorem process_safe_completes:
  assumes "distinct (self # chain)" and "\<forall>a\<in>set chain. dep a" and "10 \<le> limit"
    and "\<forall>a\<in>set (self # chain). 0 \<le> processed_count w a \<and> processed_count w a < 2 ^ 32 - 1"
  shows "(10 < length chain \<longrightarrow>
            process_safe dep limit [] self chain w = Err (Panic ''call depth exceeds safe threshold''))
    \<and> (length chain \<le> 10 \<longrightarrow> (\<exists>w'. process_safe dep limit [] self chain w = Ok w'
         \<and> process dep limit [] self chain w = Ok w'
         \<and> (\<forall>a. processed_count w' a = processed_count w a + (if a \<in> set (self # chain) then 1 else 0))))"
proof (intro conjI impI)
  assume "10 < length chain"
  then show "process_safe dep limit [] self chain w = Err (Panic ''call depth exceeds safe threshold'')"
    by (intro process_safe_long) (simp add: MAX_DEPTH_def)
next
  assume "length chain \<le> 10"
  then show "\<exists>w'. process_safe dep limit [] self chain w = Ok w' \<and> process dep limit [] self chain w = Ok w'
      \<and> (\<forall>a. processed_count w' a = processed_count w a + (if a \<in> set (self # chain) then 1 else 0))"
    using process_counts [of self chain "[]" limit dep w] assms
      process_safe_short [of chain dep limit "[]" self w] by (auto simp: MAX_DEPTH_def)
qed

definition chain_demo :: chain_world where
  "chain_demo = \<lparr>cw_Processed = Map.empty, cw_ProcessedCount = Map.empty\<rparr>"

theorem process_safe_completes_witness:
  "\<exists>w'. process_safe (\<lambda>a. True) 100 [] (Address 2) [Address 3, Address 4] chain_demo = Ok w'
    \<and> processed_count w' (Address 3) = 1 \<and> processed_count w' (Address 7) = 0"
  using process_safe_completes [of "Address 2" "[Address 3, Address 4]" "\<lambda>a. True" 100 chain_demo]
  by (auto simp: chain_demo_def processed_count_def simp del: process_safe.simps process.simps)

text \<open>A longer chain than the host allows traps the whole call.\<close>

lemma process_depth_error:
  assumes "distinct (self # chain)" and "set (self # chain) \<inter> set stack = {}"
    and "limit < length chain" and "\<forall>a\<in>set chain. dep a"
  shows "process dep limit stack self chain w = Err CallDepth"
  using assms
proof (induction chain arbitrary: self stack limit)
  case (Cons b chain)
  show ?case
  proof (cases "limit = 0")
    case True
    with Cons.prems show ?thesis by (auto simp: host_call_def)
  next
    case False
    with Cons.prems have "process dep (limit - 1) (self # stack) b chain w = Err CallDepth"
      by (intro Cons.IH) auto
    with False Cons.prems show ?thesis by (auto simp: host_call_def)
  qed
qed simp

end
