(* ===== verification/Token_Clients.thy ===== *)
theory Token_Clients
  imports Secure_Token
begin

text \<open>
  Calls to token contracts. The contracts that hold tokens reach them through \<^verbatim>\<open>token::Client\<close>; the token at the
  other end is not part of them. It is an argument: a read of a balance and a transfer, on an outside world. The
  locale \<^verbatim>\<open>sound_tokens\<close> states what they rely on; the repository's secure token and the plain test token provide it.
\<close>

record 'w token_client =
  tk_balance :: "address \<Rightarrow> address \<Rightarrow> 'w \<Rightarrow> int"
  tk_transfer :: "address \<Rightarrow> address \<Rightarrow> address \<Rightarrow> int \<Rightarrow> 'w \<Rightarrow> 'w result"

locale sound_tokens =
  fixes tk :: "'w token_client"
  assumes transfer_moves: "tk_transfer tk t a b n w = Ok w' \<Longrightarrow>
     tk_balance tk t' x w' = tk_balance tk t' x w - (if t' = t \<and> x = a then n else 0) + (if t' = t \<and> x = b then n else 0)"
begin

lemma transfer_spares: "tk_transfer tk t a b n w = Ok w' \<Longrightarrow> t' \<noteq> t \<or> (x \<noteq> a \<and> x \<noteq> b) \<Longrightarrow> tk_balance tk t' x w' = tk_balance tk t' x w"
  by (auto simp: transfer_moves)

end

text \<open>Instances of \<^verbatim>\<open>secure_token\<close> at every address, called in a fixed environment.\<close>

definition own_tokens :: "env \<Rightarrow> (address \<Rightarrow> secure_token) token_client" where
  "own_tokens e = \<lparr>tk_balance = (\<lambda>t a w. token_balance (w t) a),
     tk_transfer = (\<lambda>t a b n w. and_then (token_transfer e a b n (w t)) (\<lambda>s. Ok (w(t := s))))\<rparr>"

interpretation own_tokens: sound_tokens "own_tokens e"
  for e
proof (unfold_locales, goal_cases)
  case (1 t a b n w w' t' x)
  then obtain s where s: "token_transfer e a b n (w t) = Ok s" "w' = w(t := s)"
    by (auto simp: own_tokens_def result_simps)
  then have "token_balance s x = token_balance (w t) x - (if x = a then n else 0) + (if x = b then n else 0)"
    by (auto simp: token_transfer_Ok token_balance_def token_store.bal_move)
  with s show ?case by (auto simp: own_tokens_def)
qed

text \<open>The tokens that \<^verbatim>\<open>fee_on_transfer\<close> and \<^verbatim>\<open>deposit_cap_wrong_amount\<close> bring along: one that keeps a tenth of every transfer
  and a plain one. Neither asks for a signature. The plain one is sound, the other is not.\<close>

definition fee_mint :: "address \<Rightarrow> int \<Rightarrow> (address \<rightharpoonup> int) \<Rightarrow> (address \<rightharpoonup> int) result" where
  "fee_mint to amount b = arith (checked_add I128 (get0 b to) amount) (\<lambda>n. Ok (b(to \<mapsto> n)))"

definition fee_transfer :: "address \<Rightarrow> address \<Rightarrow> int \<Rightarrow> (address \<rightharpoonup> int) \<Rightarrow> (address \<rightharpoonup> int) result" where
  "fee_transfer from to amount b =
     arith (checked_mul I128 amount 90) (\<lambda>m.
     arith (checked_div I128 m 100) (\<lambda>received.
     let from_bal = get0 b from in
     ensure (from_bal \<ge> amount) ''insufficient balance'' (
     arith (checked_sub I128 from_bal amount) (\<lambda>n.
     let b1 = b(from \<mapsto> n); to_bal = get0 b1 to in
     arith (checked_add I128 to_bal received) (\<lambda>k. Ok (b1(to \<mapsto> k)))))))"

definition fee_balance :: "address \<Rightarrow> (address \<rightharpoonup> int) \<Rightarrow> int" where
  "fee_balance a b = get0 b a"

definition fee_tokens :: "(address \<Rightarrow> address \<rightharpoonup> int) token_client" where
  "fee_tokens = \<lparr>tk_balance = (\<lambda>t a w. fee_balance a (w t)),
     tk_transfer = (\<lambda>t a b n w. and_then (fee_transfer a b n (w t)) (\<lambda>m. Ok (w(t := m))))\<rparr>"

definition std_mint :: "address \<Rightarrow> int \<Rightarrow> (address \<rightharpoonup> int) \<Rightarrow> (address \<rightharpoonup> int) result" where
  "std_mint to amount b = arith (checked_add I128 (get0 b to) amount) (\<lambda>n. Ok (b(to \<mapsto> n)))"

definition std_transfer :: "address \<Rightarrow> address \<Rightarrow> int \<Rightarrow> (address \<rightharpoonup> int) \<Rightarrow> (address \<rightharpoonup> int) result" where
  "std_transfer from to amount b =
     (let from_bal = get0 b from in
      ensure (from_bal \<ge> amount) ''insufficient balance'' (
      arith (checked_sub I128 from_bal amount) (\<lambda>n.
      let b1 = b(from \<mapsto> n); to_bal = get0 b1 to in
      arith (checked_add I128 to_bal amount) (\<lambda>k. Ok (b1(to \<mapsto> k))))))"

definition std_balance :: "address \<Rightarrow> (address \<rightharpoonup> int) \<Rightarrow> int" where
  "std_balance a b = get0 b a"

definition std_tokens :: "(address \<Rightarrow> address \<rightharpoonup> int) token_client" where
  "std_tokens = \<lparr>tk_balance = (\<lambda>t a w. std_balance a (w t)),
     tk_transfer = (\<lambda>t a b n w. and_then (std_transfer a b n (w t)) (\<lambda>m. Ok (w(t := m))))\<rparr>"

interpretation std_tokens: sound_tokens std_tokens
proof (unfold_locales, goal_cases)
  case (1 t a b n w w' t' x)
  then show ?case
    by (auto simp: std_tokens_def std_transfer_def std_balance_def result_simps int_simps Let_def)
qed

lemma fee_tokens_unsound:
  assumes "fee_transfer a b n m = Ok m'" and "a \<noteq> b" and "0 \<le> n"
  shows "fee_balance b m' = fee_balance b m + n * 90 div 100" and "fee_balance a m' = fee_balance a m - n"
  using assms by (auto simp: fee_transfer_def fee_balance_def result_simps int_simps Let_def sdiv_nonneg_eq split: if_splits)

text \<open>The fee token of \<^verbatim>\<open>fee_on_transfer\<close> and the two tokens of \<^verbatim>\<open>scanner_fee_unverified\<close>: each crate has its own copy. They are the same functions, so what is
  proved of vaults and registries with the tokens above holds with the crates' own ones.\<close>

definition fot_fee_mint :: "address \<Rightarrow> int \<Rightarrow> (address \<rightharpoonup> int) \<Rightarrow> (address \<rightharpoonup> int) result" where
  "fot_fee_mint to amount b = arith (checked_add I128 (get0 b to) amount) (\<lambda>n. Ok (b(to \<mapsto> n)))"

definition fot_fee_transfer :: "address \<Rightarrow> address \<Rightarrow> int \<Rightarrow> (address \<rightharpoonup> int) \<Rightarrow> (address \<rightharpoonup> int) result" where
  "fot_fee_transfer from to amount b =
     arith (checked_mul I128 amount 90) (\<lambda>m.
     arith (checked_div I128 m 100) (\<lambda>received.
     let from_bal = get0 b from in
     ensure (from_bal \<ge> amount) ''insufficient balance'' (
     arith (checked_sub I128 from_bal amount) (\<lambda>n.
     let b1 = b(from \<mapsto> n); to_bal = get0 b1 to in
     arith (checked_add I128 to_bal received) (\<lambda>k. Ok (b1(to \<mapsto> k)))))))"

definition fot_fee_balance :: "address \<Rightarrow> (address \<rightharpoonup> int) \<Rightarrow> int" where
  "fot_fee_balance a b = get0 b a"

definition sf_fee_mint :: "address \<Rightarrow> int \<Rightarrow> (address \<rightharpoonup> int) \<Rightarrow> (address \<rightharpoonup> int) result" where
  "sf_fee_mint to amount b = arith (checked_add I128 (get0 b to) amount) (\<lambda>n. Ok (b(to \<mapsto> n)))"

definition sf_fee_transfer :: "address \<Rightarrow> address \<Rightarrow> int \<Rightarrow> (address \<rightharpoonup> int) \<Rightarrow> (address \<rightharpoonup> int) result" where
  "sf_fee_transfer from to amount b =
     arith (checked_mul I128 amount 90) (\<lambda>m.
     arith (checked_div I128 m 100) (\<lambda>received.
     let from_bal = get0 b from in
     ensure (from_bal \<ge> amount) ''insufficient balance'' (
     arith (checked_sub I128 from_bal amount) (\<lambda>n.
     let b1 = b(from \<mapsto> n); to_bal = get0 b1 to in
     arith (checked_add I128 to_bal received) (\<lambda>k. Ok (b1(to \<mapsto> k)))))))"

definition sf_fee_balance :: "address \<Rightarrow> (address \<rightharpoonup> int) \<Rightarrow> int" where
  "sf_fee_balance a b = get0 b a"

definition sf_std_mint :: "address \<Rightarrow> int \<Rightarrow> (address \<rightharpoonup> int) \<Rightarrow> (address \<rightharpoonup> int) result" where
  "sf_std_mint to amount b = arith (checked_add I128 (get0 b to) amount) (\<lambda>n. Ok (b(to \<mapsto> n)))"

definition sf_std_transfer :: "address \<Rightarrow> address \<Rightarrow> int \<Rightarrow> (address \<rightharpoonup> int) \<Rightarrow> (address \<rightharpoonup> int) result" where
  "sf_std_transfer from to amount b =
     (let from_bal = get0 b from in
      ensure (from_bal \<ge> amount) ''insufficient balance'' (
      arith (checked_sub I128 from_bal amount) (\<lambda>n.
      let b1 = b(from \<mapsto> n); to_bal = get0 b1 to in
      arith (checked_add I128 to_bal amount) (\<lambda>k. Ok (b1(to \<mapsto> k))))))"

definition sf_std_balance :: "address \<Rightarrow> (address \<rightharpoonup> int) \<Rightarrow> int" where
  "sf_std_balance a b = get0 b a"

lemma crate_tokens_agree:
  "fot_fee_mint = fee_mint" "fot_fee_transfer = fee_transfer" "fot_fee_balance = fee_balance"
  "sf_fee_mint = fee_mint" "sf_fee_transfer = fee_transfer" "sf_fee_balance = fee_balance"
  "sf_std_mint = std_mint" "sf_std_transfer = std_transfer" "sf_std_balance = std_balance"
  by (simp_all add: fun_eq_iff fot_fee_mint_def fot_fee_transfer_def fot_fee_balance_def sf_fee_mint_def sf_fee_transfer_def sf_fee_balance_def
      sf_std_mint_def sf_std_transfer_def sf_std_balance_def fee_mint_def fee_transfer_def fee_balance_def std_mint_def std_transfer_def std_balance_def)

end
