(* ===== verification/Flash_Loans.thy ===== *)
theory Flash_Loans
  imports Token_Clients
begin

text \<open>
  Flash loans: \<^verbatim>\<open>src/vulnerable/flash_loan_no_check\<close>, \<^verbatim>\<open>flash_receiver_unchecked\<close>, \<^verbatim>\<open>flash_repay_wrong_token\<close>,
  \<^verbatim>\<open>flash_fee_not_collected\<close> and \<^verbatim>\<open>callback_before_invariant\<close>, both halves of each, with the borrowers and
  the repayment ledger of the crates. The borrower is arbitrary code: it is a function argument that
  works on the world outside the pool. The host keeps the pool's storage private and refuses to
  re-enter the pool during the loan, which is why the outside world and the pool are separate.
\<close>

section \<open>flash\_loan\_no\_check\<close>

record pool =
  pl_Balance :: "int option"

text \<open>The borrower's callback and the call to a repayment ledger, on an outside world \<^typ>\<open>'w\<close>.\<close>

type_synonym 'w borrower = "address \<Rightarrow> address \<Rightarrow> int \<Rightarrow> 'w \<Rightarrow> 'w result"
type_synonym 'w ledgers = "address \<Rightarrow> 'w \<Rightarrow> (int \<times> 'w) result"

definition fl_deposit :: "env \<Rightarrow> address \<Rightarrow> int \<Rightarrow> pool \<Rightarrow> pool result" where
  "fl_deposit e from amount s =
     require_auth e from (
     let current = unwrap_or (pl_Balance s) 0 in
     arith (checked_add I128 current amount) (\<lambda>n. Ok (s\<lparr>pl_Balance := Some n\<rparr>)))"

definition fl_flash_loan :: "'w borrower \<Rightarrow> env \<Rightarrow> address \<Rightarrow> int \<Rightarrow> pool \<times> 'w \<Rightarrow> (pool \<times> 'w) result" where
  "fl_flash_loan on_flash_loan e borrower_id amount = (\<lambda>(s, w).
     let pool_bal = unwrap_or (pl_Balance s) 0 in
     ensure (pool_bal \<ge> amount) ''insufficient pool liquidity'' (
     arith (checked_sub I128 pool_bal amount) (\<lambda>n.
     let s1 = s\<lparr>pl_Balance := Some n\<rparr> in
     and_then (on_flash_loan borrower_id (current_contract e) amount w) (\<lambda>w1.
     Ok (s1, w1)))))"

definition fl_pool_balance :: "pool \<Rightarrow> int" where
  "fl_pool_balance s = unwrap_or (pl_Balance s) 0"

definition fls_deposit :: "env \<Rightarrow> address \<Rightarrow> int \<Rightarrow> pool \<Rightarrow> pool result" where
  "fls_deposit e from amount s =
     require_auth e from (
     let current = unwrap_or (pl_Balance s) 0 in
     arith (checked_add I128 current amount) (\<lambda>n. Ok (s\<lparr>pl_Balance := Some n\<rparr>)))"

definition fls_flash_loan ::
    "'w borrower \<Rightarrow> 'w ledgers \<Rightarrow> env \<Rightarrow> address \<Rightarrow> int \<Rightarrow> address \<Rightarrow> pool \<times> 'w \<Rightarrow> (pool \<times> 'w) result" where
  "fls_flash_loan on_flash_loan consume_repayment e borrower_id amount ledger = (\<lambda>(s, w).
     let balance_before = unwrap_or (pl_Balance s) 0 in
     ensure (balance_before \<ge> amount) ''insufficient pool liquidity'' (
     arith (checked_sub I128 balance_before amount) (\<lambda>n.
     let s1 = s\<lparr>pl_Balance := Some n\<rparr> in
     and_then (on_flash_loan borrower_id (current_contract e) amount w) (\<lambda>w1.
     and_then (consume_repayment ledger w1) (\<lambda>(repaid, w2).
     ensure (repaid \<ge> amount) ''flash loan not repaid'' (
     let current = unwrap_or (pl_Balance s1) 0 in
     arith (checked_add I128 current repaid) (\<lambda>m.
     Ok (s1\<lparr>pl_Balance := Some m\<rparr>, w2))))))))"

definition fls_pool_balance :: "pool \<Rightarrow> int" where
  "fls_pool_balance s = unwrap_or (pl_Balance s) 0"

subsection \<open>The repayment ledger and the borrowers of the crate\<close>

record outside =
  ow_ledger_id :: address \<comment> \<open>where the repayment ledger is deployed\<close>
  ow_Repaid :: "int option"
  ow_LedgerContract :: "address option" \<comment> \<open>the borrower's own configuration\<close>

definition rl_record_repayment :: "int \<Rightarrow> outside \<Rightarrow> outside result" where
  "rl_record_repayment amount w =
     (let current = unwrap_or (ow_Repaid w) 0 in
      arith (checked_add I128 current amount) (\<lambda>n. Ok (w\<lparr>ow_Repaid := Some n\<rparr>)))"

definition rl_consume_repayment :: "outside \<Rightarrow> (int \<times> outside) result" where
  "rl_consume_repayment w = Ok (unwrap_or (ow_Repaid w) 0, w\<lparr>ow_Repaid := None\<rparr>)"

definition ledger_at :: "address \<Rightarrow> outside \<Rightarrow> 'a result \<Rightarrow> 'a result" where
  "ledger_at a w k = (if a = ow_ledger_id w then k else Err NoContract)"

definition honest_on_flash_loan :: "address \<Rightarrow> int \<Rightarrow> outside \<Rightarrow> outside result" where
  "honest_on_flash_loan loan_contract amount w =
     expect (ow_LedgerContract w) ''ledger contract not configured'' (\<lambda>ledger_id.
     ledger_at ledger_id w (rl_record_repayment amount w))"

definition dishonest_on_flash_loan :: "address \<Rightarrow> int \<Rightarrow> outside \<Rightarrow> outside result" where
  "dishonest_on_flash_loan loan_contract amount w = Ok w"

section \<open>flash\_receiver\_unchecked\<close>

definition FLASH_FEE :: int where "FLASH_FEE = 10"

type_synonym 'w receiver = "address \<Rightarrow> address \<Rightarrow> int \<Rightarrow> int \<Rightarrow> 'w \<Rightarrow> (bool \<times> 'w) result"

definition fr_deposit :: "env \<Rightarrow> address \<Rightarrow> int \<Rightarrow> pool \<Rightarrow> pool result" where
  "fr_deposit e from amount s =
     require_auth e from (
     let pool_bal = unwrap_or (pl_Balance s) 0 in
     arith (checked_add I128 pool_bal amount) (\<lambda>n. Ok (s\<lparr>pl_Balance := Some n\<rparr>)))"

definition fr_flash_loan :: "'w receiver \<Rightarrow> env \<Rightarrow> address \<Rightarrow> int \<Rightarrow> pool \<times> 'w \<Rightarrow> (pool \<times> 'w) result" where
  "fr_flash_loan on_flash_loan e receiver_id amount = (\<lambda>(s, w).
     let pool_bal = unwrap_or (pl_Balance s) 0 in
     ensure (pool_bal \<ge> amount) ''insufficient liquidity'' (
     arith (checked_sub I128 pool_bal amount) (\<lambda>n.
     let s1 = s\<lparr>pl_Balance := Some n\<rparr> in
     and_then (on_flash_loan receiver_id (current_contract e) amount FLASH_FEE w) (\<lambda>(ok, w1).
     Ok (s1, w1)))))"

definition fr_pool_balance :: "pool \<Rightarrow> int" where
  "fr_pool_balance s = unwrap_or (pl_Balance s) 0"

text \<open>The ledger of this crate, on the same outside world.\<close>

definition fr_record_repayment :: "int \<Rightarrow> outside \<Rightarrow> outside result" where
  "fr_record_repayment amount w =
     (let current = unwrap_or (ow_Repaid w) 0 in
      arith (checked_add I128 current amount) (\<lambda>n. Ok (w\<lparr>ow_Repaid := Some n\<rparr>)))"

definition fr_consume_repayment :: "outside \<Rightarrow> (int \<times> outside) result" where
  "fr_consume_repayment w = Ok (unwrap_or (ow_Repaid w) 0, w\<lparr>ow_Repaid := None\<rparr>)"

definition frs_deposit :: "env \<Rightarrow> address \<Rightarrow> int \<Rightarrow> pool \<Rightarrow> pool result" where
  "frs_deposit e from amount s =
     require_auth e from (
     let pool_bal = unwrap_or (pl_Balance s) 0 in
     arith (checked_add I128 pool_bal amount) (\<lambda>n. Ok (s\<lparr>pl_Balance := Some n\<rparr>)))"

definition frs_flash_loan ::
    "'w receiver \<Rightarrow> 'w ledgers \<Rightarrow> env \<Rightarrow> address \<Rightarrow> int \<Rightarrow> address \<Rightarrow> pool \<times> 'w \<Rightarrow> (pool \<times> 'w) result" where
  "frs_flash_loan on_flash_loan consume_repayment e receiver_id amount ledger = (\<lambda>(s, w).
     let pool_bal = unwrap_or (pl_Balance s) 0 in
     ensure (pool_bal \<ge> amount) ''insufficient liquidity'' (
     arith (checked_sub I128 pool_bal amount) (\<lambda>n.
     let s1 = s\<lparr>pl_Balance := Some n\<rparr> in
     and_then (on_flash_loan receiver_id (current_contract e) amount FLASH_FEE w) (\<lambda>(ok, w1).
     ensure ok ''receiver callback failed'' (
     and_then (consume_repayment ledger w1) (\<lambda>(repaid, w2).
     arith (checked_add I128 amount FLASH_FEE) (\<lambda>owed.
     ensure (repaid \<ge> owed) ''flash loan underpaid'' (
     let current = unwrap_or (pl_Balance s1) 0 in
     arith (checked_add I128 current repaid) (\<lambda>m.
     Ok (s1\<lparr>pl_Balance := Some m\<rparr>, w2))))))))))"

definition frs_pool_balance :: "pool \<Rightarrow> int" where
  "frs_pool_balance s = unwrap_or (pl_Balance s) 0"

definition ignoring_on_flash_loan :: "address \<Rightarrow> int \<Rightarrow> int \<Rightarrow> outside \<Rightarrow> (bool \<times> outside) result" where
  "ignoring_on_flash_loan lender amount fee w = Ok (False, w)"

definition principal_only_on_flash_loan :: "address \<Rightarrow> int \<Rightarrow> int \<Rightarrow> outside \<Rightarrow> (bool \<times> outside) result" where
  "principal_only_on_flash_loan lender amount fee w =
     expect (ow_LedgerContract w) ''ledger not configured'' (\<lambda>ledger.
     and_then (ledger_at ledger w (fr_record_repayment amount w)) (\<lambda>w1. Ok (True, w1)))"

definition full_repay_on_flash_loan :: "address \<Rightarrow> int \<Rightarrow> int \<Rightarrow> outside \<Rightarrow> (bool \<times> outside) result" where
  "full_repay_on_flash_loan lender amount fee w =
     expect (ow_LedgerContract w) ''ledger not configured'' (\<lambda>ledger.
     arith (checked_add I128 amount fee) (\<lambda>n.
     and_then (ledger_at ledger w (fr_record_repayment n w)) (\<lambda>w1. Ok (True, w1))))"

definition failing_on_flash_loan :: "address \<Rightarrow> int \<Rightarrow> int \<Rightarrow> outside \<Rightarrow> (bool \<times> outside) result" where
  "failing_on_flash_loan lender amount fee w = Ok (False, w)"

section \<open>A pool under attack\<close>

text \<open>
  Runs of a pool: deposits, loans, and arbitrary changes of the outside world in between. What the
  borrowers and ledgers do is fixed by address but otherwise arbitrary.
\<close>

datatype 'w flash_call =
    FDeposit address int
  | FLoan address int address
  | FOutside 'w

definition on_pool :: "(pool \<Rightarrow> pool result) \<Rightarrow> pool \<times> 'w \<Rightarrow> (pool \<times> 'w) result" where
  "on_pool f = (\<lambda>(s, w). and_then (f s) (\<lambda>s'. Ok (s', w)))"

fun fls_exec :: "'w borrower \<Rightarrow> 'w ledgers \<Rightarrow> env \<Rightarrow> 'w flash_call \<Rightarrow> pool \<times> 'w \<Rightarrow> (pool \<times> 'w) result" where
  "fls_exec cb lg e (FDeposit a n) x = on_pool (fls_deposit e a n) x"
| "fls_exec cb lg e (FLoan a n l) x = fls_flash_loan cb lg e a n l x"
| "fls_exec cb lg e (FOutside w) x = Ok (fst x, w)"

fun frs_exec :: "'w receiver \<Rightarrow> 'w ledgers \<Rightarrow> env \<Rightarrow> 'w flash_call \<Rightarrow> pool \<times> 'w \<Rightarrow> (pool \<times> 'w) result" where
  "frs_exec cb lg e (FDeposit a n) x = on_pool (frs_deposit e a n) x"
| "frs_exec cb lg e (FLoan a n l) x = frs_flash_loan cb lg e a n l x"
| "frs_exec cb lg e (FOutside w) x = Ok (fst x, w)"

fun deposited :: "env \<Rightarrow> 'w flash_call \<Rightarrow> pool \<times> 'w \<Rightarrow> int" where
  "deposited e (FDeposit a n) x = n"
| "deposited e c x = 0"

fun paid_fee :: "env \<Rightarrow> 'w flash_call \<Rightarrow> pool \<times> 'w \<Rightarrow> int" where
  "paid_fee e (FDeposit a n) x = n"
| "paid_fee e (FLoan a n l) x = FLASH_FEE"
| "paid_fee e (FOutside w) x = 0"

interpretation no_check_pool: growing_flow "fls_exec cb lg" "\<lambda>x. True" "\<lambda>x. fls_pool_balance (fst x)" deposited
  for cb lg
proof (unfold_locales, goal_cases)
  case (2 x e c x')
  then show ?case
    by (cases c; cases x)
       (auto simp: on_pool_def fls_deposit_def fls_flash_loan_def fls_pool_balance_def result_simps int_simps
         Let_def split: prod.splits)
qed auto

interpretation receiver_pool: growing_flow "frs_exec cb lg" "\<lambda>x. True" "\<lambda>x. frs_pool_balance (fst x)" paid_fee
  for cb lg
proof (unfold_locales, goal_cases)
  case (2 x e c x')
  then show ?case
    by (cases c; cases x)
       (auto simp: on_pool_def frs_deposit_def frs_flash_loan_def frs_pool_balance_def result_simps int_simps
         Let_def split: prod.splits)
qed auto

text \<open>
  C28: Pool safety (\<^verbatim>\<open>flash_loan_no_check/src/secure.rs\<close>, \<^verbatim>\<open>flash_receiver_unchecked/src/secure.rs\<close>): whatever the
  borrowers, receivers and ledgers do, during and between loans, the pool holds at least what it held
  before the run plus the deposits of the run; in the second contract also plus the fee of every loan
  that returned.
\<close>

theorem flash_pool_never_drained:
  "fls_pool_balance s + run_flow (fls_exec cb lg) deposited xs (s, w)
     \<le> fls_pool_balance (fst (run_calls (fls_exec cb lg) xs (s, w)))
   \<and> frs_pool_balance s + run_flow (frs_exec rcv lg) paid_fee xs (s, w)
     \<le> frs_pool_balance (fst (run_calls (frs_exec rcv lg) xs (s, w)))"
  using no_check_pool.run_grows [of "(s, w)" cb lg xs] receiver_pool.run_grows [of "(s, w)" rcv lg xs] by simp

text \<open>The unrepaired loans never give anything back to the pool, even from a borrower who repays.\<close>

lemma unchecked_loan_drains:
  "fl_flash_loan cb e a n (s, w) = Ok (s', w') \<Longrightarrow> fl_pool_balance s' = fl_pool_balance s - n"
  "fr_flash_loan rcv e a n (s, w) = Ok (s', w') \<Longrightarrow> fr_pool_balance s' = fr_pool_balance s - n"
  by (auto simp: fl_flash_loan_def fr_flash_loan_def fl_pool_balance_def fr_pool_balance_def result_simps int_simps
      Let_def split: prod.splits)

text \<open>
  The borrowers of the crates, on the crate's ledger: the honest one and the one that repays the fee
  are served, the others are refused by the repaired pools.
\<close>

definition crate_ledgers :: "outside ledgers" where
  "crate_ledgers a w = ledger_at a w (rl_consume_repayment w)"

definition receiver_ledgers :: "outside ledgers" where
  "receiver_ledgers a w = ledger_at a w (fr_consume_repayment w)"

lemma borrowers_served:
  assumes "ow_LedgerContract w = Some (ow_ledger_id w)" and "ow_Repaid w = None"
    and "0 \<le> n" "n \<le> fls_pool_balance s" "in_range I128 (fls_pool_balance s + FLASH_FEE)"
  shows "\<exists>s' w'. fls_flash_loan (\<lambda>a. honest_on_flash_loan) crate_ledgers e b n (ow_ledger_id w) (s, w) = Ok (s', w')
      \<and> fls_pool_balance s' = fls_pool_balance s"
    and "\<exists>s' w'. frs_flash_loan (\<lambda>a. full_repay_on_flash_loan) receiver_ledgers e b n (ow_ledger_id w) (s, w) = Ok (s', w')
      \<and> frs_pool_balance s' = frs_pool_balance s + FLASH_FEE"
proof -
  have r: "in_range I128 (unwrap_or (pl_Balance s) 0 - n)" "in_range I128 n" "in_range I128 (n + FLASH_FEE)"
    "in_range I128 (unwrap_or (pl_Balance s) 0)" "in_range I128 (unwrap_or (pl_Balance s) 0 + FLASH_FEE)"
    using assms(3-5) by (auto simp: fls_pool_balance_def in_range_def FLASH_FEE_def)
  show "\<exists>s' w'. fls_flash_loan (\<lambda>a. honest_on_flash_loan) crate_ledgers e b n (ow_ledger_id w) (s, w) = Ok (s', w')
      \<and> fls_pool_balance s' = fls_pool_balance s"
    using assms(1,2,4) r
    by (simp add: fls_flash_loan_def honest_on_flash_loan_def crate_ledgers_def ledger_at_def rl_record_repayment_def
        rl_consume_repayment_def fls_pool_balance_def checked_sub_def checked_add_def)
  show "\<exists>s' w'. frs_flash_loan (\<lambda>a. full_repay_on_flash_loan) receiver_ledgers e b n (ow_ledger_id w) (s, w) = Ok (s', w')
      \<and> frs_pool_balance s' = frs_pool_balance s + FLASH_FEE"
    using assms(1,2,4) r
    by (simp add: frs_flash_loan_def full_repay_on_flash_loan_def receiver_ledgers_def ledger_at_def fr_record_repayment_def
        fr_consume_repayment_def frs_pool_balance_def fls_pool_balance_def checked_sub_def checked_add_def)
qed

lemma borrowers_refused:
  assumes "ow_Repaid w = None" and "0 < n"
  shows "\<nexists>x. fls_flash_loan (\<lambda>a. dishonest_on_flash_loan) crate_ledgers e b n l (s, w) = Ok x"
    and "\<nexists>x. frs_flash_loan (\<lambda>a. ignoring_on_flash_loan) receiver_ledgers e b n l (s, w) = Ok x"
    and "\<nexists>x. frs_flash_loan (\<lambda>a. failing_on_flash_loan) receiver_ledgers e b n l (s, w) = Ok x"
    and "\<nexists>x. frs_flash_loan (\<lambda>a. principal_only_on_flash_loan) receiver_ledgers e b n l (s, w) = Ok x"
  using assms
  by (auto simp: fls_flash_loan_def frs_flash_loan_def dishonest_on_flash_loan_def ignoring_on_flash_loan_def
      failing_on_flash_loan_def principal_only_on_flash_loan_def crate_ledgers_def receiver_ledgers_def ledger_at_def
      fr_record_repayment_def fr_consume_repayment_def rl_record_repayment_def rl_consume_repayment_def result_simps int_simps FLASH_FEE_def Let_def split: if_splits)

text \<open>
  What the pool credits is what a ledger says, and the ledger's address is an argument of the loan: a
  borrower who names a contract of its own that reports a repayment is served and keeps the money. The
  pool's number is right, but nothing was paid.
\<close>

lemma forged_ledger_accepted:
  assumes "lg l w = Ok (n, w)" and "0 \<le> n" "n \<le> fls_pool_balance s" "in_range I128 (fls_pool_balance s)"
  shows "\<exists>s'. fls_flash_loan (\<lambda>a c m w. Ok w) lg e b n l (s, w) = Ok (s', w)"
proof -
  have "in_range I128 (unwrap_or (pl_Balance s) 0 - n)" "in_range I128 (unwrap_or (pl_Balance s) 0)"
    using assms(2-4) by (auto simp: fls_pool_balance_def in_range_def)
  with assms show ?thesis
    by (simp add: fls_flash_loan_def fls_pool_balance_def checked_sub_def checked_add_def)
qed

section \<open>flash\_repay\_wrong\_token\<close>

text \<open>The token contracts are an argument (\<^verbatim>\<open>token_client\<close>).\<close>

type_synonym 'w asset_borrower = "address \<Rightarrow> address \<Rightarrow> address \<Rightarrow> int \<Rightarrow> int \<Rightarrow> 'w \<Rightarrow> 'w result"

record loan_flag =
  lf_LoanRepaid :: "bool option"

definition fw_deposit :: "'w token_client \<Rightarrow> env \<Rightarrow> address \<Rightarrow> address \<Rightarrow> int \<Rightarrow> 'w \<Rightarrow> 'w result" where
  "fw_deposit tk e token_addr from amount w =
     require_auth e from (tk_transfer tk token_addr from (current_contract e) amount w)"

definition fw_flash_loan ::
    "'w token_client \<Rightarrow> 'w asset_borrower \<Rightarrow> env \<Rightarrow> address \<Rightarrow> address \<Rightarrow> int \<Rightarrow> address
     \<Rightarrow> loan_flag \<times> 'w \<Rightarrow> (loan_flag \<times> 'w) result" where
  "fw_flash_loan tk on_flash_loan e borrower_id asset amount repay_token = (\<lambda>(s, w).
     let self = current_contract e in
     arith (checked_div I128 amount 100) (\<lambda>fee.
     arith (checked_add I128 amount fee) (\<lambda>required.
     let balance_before = tk_balance tk asset self w in
     ensure (balance_before \<ge> amount) ''insufficient liquidity'' (
     and_then (tk_transfer tk asset self borrower_id amount w) (\<lambda>w1.
     let repay_before = tk_balance tk repay_token self w1 in
     and_then (on_flash_loan borrower_id self asset amount required w1) (\<lambda>w2.
     let repay_after = tk_balance tk repay_token self w2 in
     arith (checked_sub I128 repay_after repay_before) (\<lambda>repaid.
     ensure (repaid \<ge> required) ''repayment insufficient'' (
     Ok (s\<lparr>lf_LoanRepaid := Some True\<rparr>, w2)))))))))"

definition fw_is_repaid :: "loan_flag \<Rightarrow> bool" where
  "fw_is_repaid s = unwrap_or (lf_LoanRepaid s) False"

definition fws_deposit :: "'w token_client \<Rightarrow> env \<Rightarrow> address \<Rightarrow> address \<Rightarrow> int \<Rightarrow> 'w \<Rightarrow> 'w result" where
  "fws_deposit tk e token_addr from amount w =
     require_auth e from (tk_transfer tk token_addr from (current_contract e) amount w)"

definition fws_flash_loan ::
    "'w token_client \<Rightarrow> 'w asset_borrower \<Rightarrow> env \<Rightarrow> address \<Rightarrow> address \<Rightarrow> int
     \<Rightarrow> loan_flag \<times> 'w \<Rightarrow> (loan_flag \<times> 'w) result" where
  "fws_flash_loan tk on_flash_loan e borrower_id asset amount = (\<lambda>(s, w).
     let self = current_contract e in
     arith (checked_div I128 amount 100) (\<lambda>fee.
     arith (checked_add I128 amount fee) (\<lambda>required.
     let balance_before = tk_balance tk asset self w in
     ensure (balance_before \<ge> amount) ''insufficient liquidity'' (
     and_then (tk_transfer tk asset self borrower_id amount w) (\<lambda>w1.
     and_then (on_flash_loan borrower_id self asset amount required w1) (\<lambda>w2.
     let balance_after = tk_balance tk asset self w2 in
     arith (checked_add I128 balance_before fee) (\<lambda>owed.
     ensure (balance_after \<ge> owed) ''flash loan not repaid in borrowed asset'' (
     Ok (s\<lparr>lf_LoanRepaid := Some True\<rparr>, w2)))))))))"

definition fws_is_repaid :: "loan_flag \<Rightarrow> bool" where
  "fws_is_repaid s = unwrap_or (lf_LoanRepaid s) False"

text \<open>The attacking borrower of the crate; its storage is part of the outside world.\<close>

datatype mode = WorthlessOnly | FeeShortfall

record attack_world =
  aw_Mode :: "mode option"
  aw_WorthlessToken :: "address option"
  aw_balances :: "address \<times> address \<Rightarrow> int" \<comment> \<open>by token and holder\<close>

definition at_configure :: "mode \<Rightarrow> address \<Rightarrow> attack_world \<Rightarrow> attack_world result" where
  "at_configure m worthless_token w = Ok (w\<lparr>aw_Mode := Some m, aw_WorthlessToken := Some worthless_token\<rparr>)"

definition at_on_flash_loan :: "attack_world token_client \<Rightarrow> attack_world asset_borrower" where
  "at_on_flash_loan tk self lender asset amount required w =
     expect (aw_Mode w) ''mode not configured'' (\<lambda>m.
     expect (aw_WorthlessToken w) ''worthless token not configured'' (\<lambda>worthless.
     case m of
       WorthlessOnly \<Rightarrow> tk_transfer tk worthless self lender required w
     | FeeShortfall \<Rightarrow>
         arith (checked_div I128 amount 100) (\<lambda>fee.
         arith (checked_add I128 amount fee) (\<lambda>n.
         arith (checked_sub I128 n 1) (\<lambda>asset_repay.
         and_then (tk_transfer tk asset self lender asset_repay w) (\<lambda>w1.
         tk_transfer tk worthless self lender required w1))))))"

text \<open>
  Repayment in the borrowed asset (\<^verbatim>\<open>flash_repay_wrong_token/src/secure.rs\<close>): for every token and every
  borrower, a loan that returns leaves the pool with its balance of the borrowed asset increased by
  the fee of one percent.
\<close>

theorem loan_repaid_in_asset:
  assumes "fws_flash_loan tk cb e b asset n (s, w) = Ok (s', w')"
  shows "tk_balance tk asset (current_contract e) w + n sdiv 100 \<le> tk_balance tk asset (current_contract e) w'
    \<and> n \<le> tk_balance tk asset (current_contract e) w \<and> fws_is_repaid s'"
  using assms by (auto simp: fws_flash_loan_def fws_is_repaid_def result_simps int_simps Let_def)

text \<open>A ledger of balances as an example of the token contracts: transfers of what the sender has.\<close>

definition ledger_tokens :: "attack_world token_client" where
  "ledger_tokens = \<lparr>tk_balance = (\<lambda>t a w. aw_balances w (t, a)),
     tk_transfer = (\<lambda>t a b n w. ensure (0 \<le> n \<and> n \<le> aw_balances w (t, a)) ''balance'' (
        let m = (aw_balances w)((t, a) := aw_balances w (t, a) - n) in
        Ok (w\<lparr>aw_balances := m((t, b) := m (t, b) + n)\<rparr>)))\<rparr>"

definition full_borrower :: "attack_world asset_borrower" where
  "full_borrower self lender asset amount required w = tk_transfer ledger_tokens asset self lender required w"

text \<open>Token 8 is the asset, token 9 is worthless; the pool is \<^verbatim>\<open>Address 99\<close>, the borrower \<^verbatim>\<open>Address 7\<close>.\<close>

definition asset_demo :: attack_world where
  "asset_demo = \<lparr>aw_Mode = Some WorthlessOnly, aw_WorthlessToken = Some (Address 9),
     aw_balances = (\<lambda>x. if x = (Address 8, Address 99) then 1000 else if fst x = Address 9 then 5000
        else if x = (Address 8, Address 7) then 50 else 0)\<rparr>"

definition asset_done :: attack_world where
  "asset_done = asset_demo\<lparr>aw_balances := (aw_balances asset_demo)
     ((Address 8, Address 7) := 45, (Address 8, Address 99) := 1005)\<rparr>"

lemma asset_loan_demo:
  "fws_flash_loan ledger_tokens full_borrower (signed_env [] 1) (Address 7) (Address 8) 500
     (\<lparr>lf_LoanRepaid = None\<rparr>, asset_demo) = Ok (\<lparr>lf_LoanRepaid = Some True\<rparr>, asset_done)"
  by (simp add: fws_flash_loan_def ledger_tokens_def full_borrower_def asset_demo_def asset_done_def signed_env_def
      checked_div_def checked_add_def checked_def in_range_def signed_divide_int_def Let_def)

theorem loan_repaid_in_asset_witness:
  "fws_flash_loan ledger_tokens full_borrower (signed_env [] 1) (Address 7) (Address 8) 500
     (\<lparr>lf_LoanRepaid = None\<rparr>, asset_demo) = Ok (\<lparr>lf_LoanRepaid = Some True\<rparr>, asset_done)
   \<and> aw_balances asset_demo (Address 8, Address 99) + 5 \<le> aw_balances asset_done (Address 8, Address 99)"
  using loan_repaid_in_asset [OF asset_loan_demo] asset_loan_demo
  by (simp add: ledger_tokens_def signed_env_def signed_divide_int_def)

text \<open>The unrepaired loan on the same world: the attacker returns worthless tokens and keeps the asset.\<close>

lemma worthless_repayment_accepted:
  "\<exists>w'. fw_flash_loan ledger_tokens (at_on_flash_loan ledger_tokens) (signed_env [] 1) (Address 7) (Address 8) 500
      (Address 9) (\<lparr>lf_LoanRepaid = None\<rparr>, asset_demo) = Ok (\<lparr>lf_LoanRepaid = Some True\<rparr>, w')
    \<and> aw_balances w' (Address 8, Address 99) = 500 \<and> aw_balances w' (Address 8, Address 7) = 550"
  by (simp add: fw_flash_loan_def ledger_tokens_def at_on_flash_loan_def asset_demo_def signed_env_def
      checked_div_def checked_add_def checked_sub_def checked_def in_range_def signed_divide_int_def Let_def)

section \<open>flash\_fee\_not\_collected\<close>

definition FEE_RATE :: int where "FEE_RATE = 5"
definition FEE_SCALE :: int where "FEE_SCALE = 1000"

record fee_pool = host +
  fp_Balance :: "int option"

record loan_result =
  lr_amount :: int
  lr_fee :: int

definition fp_initialize :: "env \<Rightarrow> int \<Rightarrow> fee_pool \<Rightarrow> fee_pool result" where
  "fp_initialize e initial_balance s =
     Ok (publish [''init''] [VInt initial_balance] (s\<lparr>fp_Balance := Some initial_balance\<rparr>))"

definition fp_get_balance :: "fee_pool \<Rightarrow> int" where
  "fp_get_balance s = unwrap_or (fp_Balance s) 0"

definition fp_set_balance :: "env \<Rightarrow> int \<Rightarrow> fee_pool \<Rightarrow> fee_pool result" where
  "fp_set_balance e new_balance s = Ok (s\<lparr>fp_Balance := Some new_balance\<rparr>)"

definition fp_flash_loan :: "env \<Rightarrow> int \<Rightarrow> address \<Rightarrow> fee_pool \<Rightarrow> (loan_result \<times> fee_pool) result" where
  "fp_flash_loan e amount callback s =
     (let pre_balance = unwrap_or (fp_Balance s) 0 in
      ensure (pre_balance \<ge> amount) ''insufficient liquidity'' (
      arith (checked_mul I128 amount FEE_RATE) (\<lambda>scaled.
      arith (checked_div I128 scaled FEE_SCALE) (\<lambda>fee.
      arith (checked_sub I128 pre_balance amount) (\<lambda>n.
      let s1 = s\<lparr>fp_Balance := Some n\<rparr> in
      require_auth e callback (
      let post_balance = unwrap_or (fp_Balance s1) 0 in
      ensure (post_balance \<ge> pre_balance) ''principal not repaid'' (
      Ok (\<lparr>lr_amount = amount, lr_fee = fee\<rparr>,
          publish [''flash''] [VInt amount, VInt fee, VInt post_balance] s1))))))))"

definition fps_initialize :: "env \<Rightarrow> int \<Rightarrow> fee_pool \<Rightarrow> fee_pool result" where
  "fps_initialize e initial_balance s =
     Ok (publish [''init''] [VInt initial_balance] (s\<lparr>fp_Balance := Some initial_balance\<rparr>))"

definition fps_get_balance :: "fee_pool \<Rightarrow> int" where
  "fps_get_balance s = unwrap_or (fp_Balance s) 0"

definition fps_set_balance :: "env \<Rightarrow> int \<Rightarrow> fee_pool \<Rightarrow> fee_pool result" where
  "fps_set_balance e new_balance s = Ok (s\<lparr>fp_Balance := Some new_balance\<rparr>)"

definition fps_flash_loan :: "env \<Rightarrow> int \<Rightarrow> address \<Rightarrow> fee_pool \<Rightarrow> (loan_result \<times> fee_pool) result" where
  "fps_flash_loan e amount callback s =
     (let pre_balance = unwrap_or (fp_Balance s) 0 in
      ensure (pre_balance \<ge> amount) ''insufficient liquidity'' (
      arith (checked_mul I128 amount FEE_RATE) (\<lambda>scaled.
      arith (checked_div I128 scaled FEE_SCALE) (\<lambda>fee.
      arith (checked_sub I128 pre_balance amount) (\<lambda>n.
      let s1 = s\<lparr>fp_Balance := Some n\<rparr> in
      require_auth e callback (
      let post_balance = unwrap_or (fp_Balance s1) 0 in
      arith (checked_add I128 pre_balance fee) (\<lambda>required_balance.
      ensure (post_balance \<ge> required_balance) ''insufficient repayment (principal + fee required)'' (
      Ok (\<lparr>lr_amount = amount, lr_fee = fee\<rparr>,
          publish [''fee''] [VInt amount, VInt fee, VInt post_balance] s1)))))))))"

text \<open>
  Neither half calls the borrower, so nothing can repay inside \<^verbatim>\<open>flash_loan\<close>: a loan of a positive amount
  always traps, in the repaired contract as in the other one.
\<close>

theorem fee_pool_lends_nothing:
  assumes "0 < n"
  shows "(\<exists>x. fp_flash_loan e n cb s = Err x) \<and> (\<exists>x. fps_flash_loan e n cb s = Err x)"
proof -
  have fee: "0 \<le> n * FEE_RATE sdiv FEE_SCALE"
    using assms by (simp add: FEE_RATE_def FEE_SCALE_def sdiv_nonneg_eq)
  have "fp_flash_loan e n cb s \<noteq> Ok r" for r
    using assms by (auto simp: fp_flash_loan_def result_simps int_simps Let_def)
  moreover have "fps_flash_loan e n cb s \<noteq> Ok r" for r
    using assms fee by (auto simp: fps_flash_loan_def result_simps int_simps Let_def)
  ultimately show ?thesis
    by (cases "fp_flash_loan e n cb s"; cases "fps_flash_loan e n cb s") auto
qed

theorem fee_pool_lends_nothing_witness:
  "(\<exists>x. fp_flash_loan (signed_env [Address 2] 1) 100 (Address 2) \<lparr>events = [], fp_Balance = Some 1000\<rparr> = Err x)
   \<and> (\<exists>x. fps_flash_loan (signed_env [Address 2] 1) 100 (Address 2) \<lparr>events = [], fp_Balance = Some 1000\<rparr> = Err x)"
  by (rule fee_pool_lends_nothing) simp

section \<open>callback\_before\_invariant\<close>

record reserve_pool =
  rp_Reserve :: "int option"
  rp_Balance :: "int option"
  rp_CallbackInflates :: "bool option"

definition cb_initialize :: "env \<Rightarrow> int \<Rightarrow> reserve_pool \<Rightarrow> reserve_pool result" where
  "cb_initialize e reserve s =
     panic_if (rp_Reserve s \<noteq> None) ''already initialized'' (
     Ok (s\<lparr>rp_Reserve := Some reserve, rp_Balance := Some reserve, rp_CallbackInflates := Some False\<rparr>))"

definition cb_set_callback_inflates :: "env \<Rightarrow> bool \<Rightarrow> reserve_pool \<Rightarrow> reserve_pool result" where
  "cb_set_callback_inflates e inflates s = Ok (s\<lparr>rp_CallbackInflates := Some inflates\<rparr>)"

definition cb_run_callback :: "reserve_pool \<Rightarrow> reserve_pool" where
  "cb_run_callback s =
     (if unwrap_or (rp_CallbackInflates s) False then
        let bal = unwrap_or (rp_Balance s) 0; reserve = unwrap_or (rp_Reserve s) 0 in
        if bal < reserve then s\<lparr>rp_Balance := Some reserve\<rparr> else s
      else s)"

definition cb_flash_loan :: "env \<Rightarrow> address \<Rightarrow> int \<Rightarrow> reserve_pool \<Rightarrow> reserve_pool result" where
  "cb_flash_loan e borrower_id amount s =
     require_auth e borrower_id (
     let bal = unwrap_or (rp_Balance s) 0; reserve = unwrap_or (rp_Reserve s) 0 in
     panic_if (amount > bal) ''insufficient pool balance'' (
     arith (checked_sub I128 bal amount) (\<lambda>n.
     let s1 = cb_run_callback (s\<lparr>rp_Balance := Some n\<rparr>);
         post_bal = unwrap_or (rp_Balance s1) 0 in
     panic_if (post_bal < reserve) ''pool invariant violated: balance below reserve'' (Ok s1))))"

definition cb_deposit :: "env \<Rightarrow> int \<Rightarrow> reserve_pool \<Rightarrow> reserve_pool result" where
  "cb_deposit e amount s =
     (let bal = unwrap_or (rp_Balance s) 0 in
      arith (checked_add I128 bal amount) (\<lambda>n. Ok (s\<lparr>rp_Balance := Some n\<rparr>)))"

definition cb_balance :: "reserve_pool \<Rightarrow> int" where
  "cb_balance s = unwrap_or (rp_Balance s) 0"

definition cb_reserve :: "reserve_pool \<Rightarrow> int" where
  "cb_reserve s = unwrap_or (rp_Reserve s) 0"

definition cbs_initialize :: "env \<Rightarrow> int \<Rightarrow> reserve_pool \<Rightarrow> reserve_pool result" where
  "cbs_initialize e reserve s =
     panic_if (rp_Reserve s \<noteq> None) ''already initialized'' (
     Ok (s\<lparr>rp_Reserve := Some reserve, rp_Balance := Some reserve, rp_CallbackInflates := Some False\<rparr>))"

definition cbs_set_callback_inflates :: "env \<Rightarrow> bool \<Rightarrow> reserve_pool \<Rightarrow> reserve_pool result" where
  "cbs_set_callback_inflates e inflates s = Ok (s\<lparr>rp_CallbackInflates := Some inflates\<rparr>)"

definition cbs_run_callback :: "reserve_pool \<Rightarrow> reserve_pool" where
  "cbs_run_callback s =
     (if unwrap_or (rp_CallbackInflates s) False then
        let bal = unwrap_or (rp_Balance s) 0; reserve = unwrap_or (rp_Reserve s) 0 in
        if bal < reserve then s\<lparr>rp_Balance := Some reserve\<rparr> else s
      else s)"

definition cbs_flash_loan :: "env \<Rightarrow> address \<Rightarrow> int \<Rightarrow> reserve_pool \<Rightarrow> reserve_pool result" where
  "cbs_flash_loan e borrower_id amount s =
     require_auth e borrower_id (
     let bal = unwrap_or (rp_Balance s) 0; reserve = unwrap_or (rp_Reserve s) 0 in
     panic_if (amount > bal) ''insufficient pool balance'' (
     expect (checked_sub I128 bal amount) ''underflow'' (\<lambda>n.
     let s1 = cbs_run_callback (s\<lparr>rp_Balance := Some n\<rparr>) in
     arith (checked_sub I128 bal amount) (\<lambda>left_over.
     panic_if (left_over < reserve) ''pool invariant violated: loan would breach reserve'' (Ok s1)))))"

definition cbs_deposit :: "env \<Rightarrow> int \<Rightarrow> reserve_pool \<Rightarrow> reserve_pool result" where
  "cbs_deposit e amount s =
     (let bal = unwrap_or (rp_Balance s) 0 in
      arith (checked_add I128 bal amount) (\<lambda>n. Ok (s\<lparr>rp_Balance := Some n\<rparr>)))"

definition cbs_balance :: "reserve_pool \<Rightarrow> int" where
  "cbs_balance s = unwrap_or (rp_Balance s) 0"

definition cbs_reserve :: "reserve_pool \<Rightarrow> int" where
  "cbs_reserve s = unwrap_or (rp_Reserve s) 0"

lemma cbs_flash_loan_Ok:
  "cbs_flash_loan e b n s = Ok t \<longleftrightarrow> authorized e b \<and> n \<le> cbs_balance s \<and> in_range I128 (cbs_balance s - n)
     \<and> cbs_reserve s \<le> cbs_balance s - n \<and> t = s\<lparr>rp_Balance := Some (cbs_balance s - n)\<rparr>"
  by (auto simp: cbs_flash_loan_def cbs_run_callback_def cbs_balance_def cbs_reserve_def result_simps int_simps
      Let_def not_less)

text \<open>
  The reserve (\<^verbatim>\<open>callback_before_invariant\<close>): the repaired loan is the unrepaired one restricted to loans
  that leave the reserve in the pool before the callback runs; on those the callback changes nothing.
  The unrepaired one also grants a loan that breaks into the reserve when the callback refills it.
\<close>

theorem reserve_check_not_forgeable:
  "(cbs_flash_loan e b n s = Ok t \<longleftrightarrow> cb_flash_loan e b n s = Ok t \<and> cb_reserve s \<le> cb_balance s - n)
   \<and> (authorized e b \<and> n \<le> cb_balance s \<and> cb_balance s - n < cb_reserve s \<and> in_range I128 (cb_balance s - n)
        \<and> rp_CallbackInflates s = Some True
      \<longrightarrow> cb_flash_loan e b n s = Ok (s\<lparr>rp_Balance := Some (cb_reserve s)\<rparr>))"
  by (auto simp: cbs_flash_loan_Ok cb_flash_loan_def cb_run_callback_def cb_balance_def cb_reserve_def
      cbs_balance_def cbs_reserve_def result_simps int_simps Let_def not_less)

definition reserve_demo :: reserve_pool where
  "reserve_demo = \<lparr>rp_Reserve = Some 100, rp_Balance = Some 150, rp_CallbackInflates = Some True\<rparr>"

theorem reserve_check_not_forgeable_witness:
  "cb_flash_loan (signed_env [Address 2] 1) (Address 2) 120 reserve_demo
     = Ok (reserve_demo\<lparr>rp_Balance := Some 100\<rparr>)
   \<and> cbs_flash_loan (signed_env [Address 2] 1) (Address 2) 120 reserve_demo \<noteq> Ok (reserve_demo\<lparr>rp_Balance := Some 100\<rparr>)"
  using reserve_check_not_forgeable
    [of "signed_env [Address 2] 1" "Address 2" 120 reserve_demo "reserve_demo\<lparr>rp_Balance := Some 100\<rparr>"]
  by (simp add: reserve_demo_def cb_balance_def cb_reserve_def signed_env_def in_range_def)

text \<open>
  Neither half asks for the loan back: what the repaired pool lends above the reserve is gone, and the
  pool shrinks by exactly the amount lent.
\<close>

lemma reserve_loan_not_repaid: "cbs_flash_loan e b n s = Ok t \<Longrightarrow> cbs_balance t = cbs_balance s - n"
  by (simp add: cbs_flash_loan_Ok cbs_balance_def)

end
