(* ===== verification/Voting_Variants.thy ===== *)
theory Voting_Variants
  imports Soroban_Containers
begin

text \<open>
  The voting crates: \<^verbatim>\<open>src/vulnerable/vote_after_deadline\<close>, \<^verbatim>\<open>quorum_current_supply\<close>,
  \<^verbatim>\<open>delegation_weight_no_snapshot\<close>, \<^verbatim>\<open>transfer_double_vote\<close> and \<^verbatim>\<open>abstain_counts_as_yes\<close>, both halves of each.
  What the repairs establish: votes are cast once and in time, the outcome is fixed by the supply or
  the voting power at the time of the snapshot, and the votes counted never exceed the tokens.
\<close>

section \<open>vote\_after\_deadline\<close>

record timed_proposal =
  tp_yes :: int
  tp_no :: int
  tp_end_ledger :: int

record timed_votes =
  tv_Proposal :: "int \<rightharpoonup> timed_proposal"
  tv_Voted :: "int \<times> address \<rightharpoonup> bool"

definition va_proposal :: "timed_votes \<Rightarrow> int \<Rightarrow> (timed_proposal \<Rightarrow> 'a result) \<Rightarrow> 'a result" where
  "va_proposal s pid k = expect (tv_Proposal s pid) ''missing proposal'' k"

definition va_save_proposal :: "int \<Rightarrow> timed_proposal \<Rightarrow> timed_votes \<Rightarrow> timed_votes" where
  "va_save_proposal pid p s = s\<lparr>tv_Proposal := (tv_Proposal s)(pid \<mapsto> p)\<rparr>"

definition va_voted :: "timed_votes \<Rightarrow> int \<Rightarrow> address \<Rightarrow> bool" where
  "va_voted s pid voter = unwrap_or (tv_Voted s (pid, voter)) False"

definition va_mark_voted :: "int \<Rightarrow> address \<Rightarrow> timed_votes \<Rightarrow> timed_votes" where
  "va_mark_voted pid voter s = s\<lparr>tv_Voted := (tv_Voted s)((pid, voter) \<mapsto> True)\<rparr>"

definition va_create :: "env \<Rightarrow> int \<Rightarrow> int \<Rightarrow> timed_votes \<Rightarrow> timed_votes result" where
  "va_create e pid end_ledger s =
     Ok (va_save_proposal pid \<lparr>tp_yes = 0, tp_no = 0, tp_end_ledger = end_ledger\<rparr> s)"

definition va_vote :: "env \<Rightarrow> int \<Rightarrow> address \<Rightarrow> bool \<Rightarrow> int \<Rightarrow> timed_votes \<Rightarrow> timed_votes result" where
  "va_vote e pid voter support weight s =
     require_auth e voter (
     ensure (\<not> va_voted s pid voter) ''already voted'' (
     va_proposal s pid (\<lambda>p.
     and_then (if support then arith (checked_add I128 (tp_yes p) weight) (\<lambda>n. Ok (p\<lparr>tp_yes := n\<rparr>))
               else arith (checked_add I128 (tp_no p) weight) (\<lambda>n. Ok (p\<lparr>tp_no := n\<rparr>))) (\<lambda>p1.
     Ok (va_mark_voted pid voter (va_save_proposal pid p1 s))))))"

definition va_tally :: "timed_votes \<Rightarrow> int \<Rightarrow> (int \<times> int \<times> int) result" where
  "va_tally s pid = va_proposal s pid (\<lambda>p. Ok (tp_yes p, tp_no p, tp_end_ledger p))"

definition vas_create :: "env \<Rightarrow> int \<Rightarrow> int \<Rightarrow> timed_votes \<Rightarrow> timed_votes result" where
  "vas_create e pid end_ledger s =
     Ok (va_save_proposal pid \<lparr>tp_yes = 0, tp_no = 0, tp_end_ledger = end_ledger\<rparr> s)"

definition vas_vote :: "env \<Rightarrow> int \<Rightarrow> address \<Rightarrow> bool \<Rightarrow> int \<Rightarrow> timed_votes \<Rightarrow> timed_votes result" where
  "vas_vote e pid voter support weight s =
     require_auth e voter (
     ensure (\<not> va_voted s pid voter) ''already voted'' (
     va_proposal s pid (\<lambda>p.
     ensure (sequence e \<le> tp_end_ledger p) ''voting closed'' (
     and_then (if support then arith (checked_add I128 (tp_yes p) weight) (\<lambda>n. Ok (p\<lparr>tp_yes := n\<rparr>))
               else arith (checked_add I128 (tp_no p) weight) (\<lambda>n. Ok (p\<lparr>tp_no := n\<rparr>))) (\<lambda>p1.
     Ok (va_mark_voted pid voter (va_save_proposal pid p1 s)))))))"

definition vas_tally :: "timed_votes \<Rightarrow> int \<Rightarrow> (int \<times> int \<times> int) result" where
  "vas_tally s pid = va_proposal s pid (\<lambda>p. Ok (tp_yes p, tp_no p, tp_end_ledger p))"

datatype ballot_call =
    BCreate int int
  | BVote int address bool int

fun va_exec :: "env \<Rightarrow> ballot_call \<Rightarrow> timed_votes \<Rightarrow> timed_votes result" where
  "va_exec e (BCreate i t) s = va_create e i t s"
| "va_exec e (BVote i a b n) s = va_vote e i a b n s"

fun vas_exec :: "env \<Rightarrow> ballot_call \<Rightarrow> timed_votes \<Rightarrow> timed_votes result" where
  "vas_exec e (BCreate i t) s = vas_create e i t s"
| "vas_exec e (BVote i a b n) s = vas_vote e i a b n s"

lemmas ballot_defs = va_create_def va_vote_def vas_create_def vas_vote_def va_proposal_def va_save_proposal_def
  va_voted_def va_mark_voted_def

fun in_time :: "env \<Rightarrow> ballot_call \<Rightarrow> timed_votes \<Rightarrow> bool" where
  "in_time e (BVote i a b n) s = (case tv_Proposal s i of None \<Rightarrow> False | Some p \<Rightarrow> sequence e \<le> tp_end_ledger p)"
| "in_time e c s = True"

interpretation ballot_hardened: hardened va_exec vas_exec in_time
proof (unfold_locales, goal_cases)
  case (1 e c s s')
  show ?case
    by (cases c) (auto simp: ballot_defs result_simps split: option.splits)
qed

fun ballot_key :: "ballot_call \<Rightarrow> (int \<times> address) option" where
  "ballot_key (BVote i a b n) = Some (i, a)"
| "ballot_key c = None"

interpretation ballot_once: single_use vas_exec ballot_key "\<lambda>s (i, a). va_voted s i a"
proof (unfold_locales, goal_cases)
  case (1 e c s s' k)
  then show ?case by (cases c) (auto simp: ballot_defs result_simps)
next
  case (2 e c s s' k)
  then show ?case
    by (cases c; cases k) (auto simp: ballot_defs result_simps split: if_splits)
qed

text \<open>What a vote adds to the yes side of a proposal; creating the proposal again resets it.\<close>

definition yes_of :: "int \<Rightarrow> timed_votes \<Rightarrow> int" where
  "yes_of i s = (case tv_Proposal s i of None \<Rightarrow> 0 | Some p \<Rightarrow> tp_yes p)"

fun yes_flow :: "int \<Rightarrow> env \<Rightarrow> ballot_call \<Rightarrow> timed_votes \<Rightarrow> int" where
  "yes_flow i e (BVote j a b n) s = (if j = i \<and> b then n else 0)"
| "yes_flow i e (BCreate j t) s = (if j = i then - yes_of i s else 0)"

interpretation yes_counted: conserved_flow vas_exec "\<lambda>s. True" "yes_of i" "yes_flow i"
  for i
proof (unfold_locales, goal_cases)
  case (2 s e c s')
  show ?case
  proof (cases c)
    case (BVote j a b n)
    with 2 show ?thesis
      by (cases b; cases "i = j")
         (auto simp: ballot_defs result_simps int_simps yes_of_def fun_upd_def split: option.splits)
  qed (use 2 in \<open>auto simp: ballot_defs yes_of_def\<close>)
qed auto

text \<open>
  The repaired ballot (\<^verbatim>\<open>vote_after_deadline/src/secure.rs\<close>): in any run no voter votes twice on a proposal,
  every vote that was accepted was cast no later than the deadline the proposal had, and the yes side
  is the sum of the weights of the accepted yes votes since the proposal was created.
\<close>

theorem ballot_once_in_time:
  "distinct (List.map_filter ballot_key (successes vas_exec xs s))
   \<and> run_calls vas_exec xs s = run_calls va_exec (admitted va_exec in_time xs s) s
   \<and> yes_of i (run_calls vas_exec xs s) = yes_of i s + run_flow vas_exec (yes_flow i) xs s"
  using ballot_once.keys_once [of xs s] ballot_hardened.run_admitted [of xs s] yes_counted.run_conserves [where s = s and i = i and xs = xs]
  by simp

text \<open>
  Creation is open and overwrites: anybody can create a proposal again, which clears its tally and sets
  another deadline while the record of who voted stays.
\<close>

lemma recreate_resets:
  "\<exists>t. vas_create e i d s = Ok t \<and> vas_tally t i = Ok (0, 0, d) \<and> va_voted t i a = va_voted s i a"
  by (simp add: ballot_defs vas_tally_def)

section \<open>quorum\_current\_supply\<close>

record supply_proposal =
  sp_id :: int
  sp_yes_votes :: int
  sp_no_votes :: int
  sp_is_finalized :: bool

record snapshot_proposal = supply_proposal +
  sp_snapshot_supply :: int

record 'p supply_gov =
  sg_TotalSupply :: "int option"
  sg_NextProposalId :: "int option"
  sg_Proposal :: "int \<rightharpoonup> 'p"

definition qc_init :: "env \<Rightarrow> int \<Rightarrow> supply_proposal supply_gov \<Rightarrow> supply_proposal supply_gov result" where
  "qc_init e total_supply s = Ok (s\<lparr>sg_TotalSupply := Some total_supply, sg_NextProposalId := Some 1\<rparr>)"

definition qc_mint :: "env \<Rightarrow> int \<Rightarrow> supply_proposal supply_gov \<Rightarrow> supply_proposal supply_gov result" where
  "qc_mint e amount s =
     arith (checked_add I128 (unwrap_or (sg_TotalSupply s) 0) amount) (\<lambda>n. Ok (s\<lparr>sg_TotalSupply := Some n\<rparr>))"

definition qc_burn :: "env \<Rightarrow> int \<Rightarrow> supply_proposal supply_gov \<Rightarrow> supply_proposal supply_gov result" where
  "qc_burn e amount s =
     arith (checked_sub I128 (unwrap_or (sg_TotalSupply s) 0) amount) (\<lambda>n. Ok (s\<lparr>sg_TotalSupply := Some n\<rparr>))"

definition qc_total_supply :: "supply_proposal supply_gov \<Rightarrow> int" where
  "qc_total_supply s = unwrap_or (sg_TotalSupply s) 0"

definition qc_create_proposal :: "env \<Rightarrow> supply_proposal supply_gov \<Rightarrow> (int \<times> supply_proposal supply_gov) result" where
  "qc_create_proposal e s =
     (let pid = unwrap_or (sg_NextProposalId s) 0;
          p = \<lparr>sp_id = pid, sp_yes_votes = 0, sp_no_votes = 0, sp_is_finalized = False\<rparr>;
          s1 = s\<lparr>sg_Proposal := (sg_Proposal s)(pid \<mapsto> p)\<rparr> in
      arith (checked_add U64 pid 1) (\<lambda>n. Ok (pid, s1\<lparr>sg_NextProposalId := Some n\<rparr>)))"

definition qc_vote :: "env \<Rightarrow> int \<Rightarrow> bool \<Rightarrow> int \<Rightarrow> supply_proposal supply_gov \<Rightarrow> supply_proposal supply_gov result" where
  "qc_vote e proposal_id vote_yes amount s =
     expect (sg_Proposal s proposal_id) ''Proposal not found'' (\<lambda>p.
     and_then (if vote_yes then arith (checked_add I128 (sp_yes_votes p) amount) (\<lambda>n. Ok (p\<lparr>sp_yes_votes := n\<rparr>))
               else arith (checked_add I128 (sp_no_votes p) amount) (\<lambda>n. Ok (p\<lparr>sp_no_votes := n\<rparr>))) (\<lambda>p1.
     Ok (s\<lparr>sg_Proposal := (sg_Proposal s)(proposal_id \<mapsto> p1)\<rparr>)))"

definition qc_tally_vulnerable :: "env \<Rightarrow> int \<Rightarrow> supply_proposal supply_gov \<Rightarrow> (bool \<times> supply_proposal supply_gov) result" where
  "qc_tally_vulnerable e proposal_id s =
     expect (sg_Proposal s proposal_id) ''Proposal not found'' (\<lambda>p.
     let current_supply = unwrap_or (sg_TotalSupply s) 0 in
     arith (checked_div I128 current_supply 2) (\<lambda>quorum_threshold.
     arith (checked_add I128 (sp_yes_votes p) (sp_no_votes p)) (\<lambda>total_votes.
     let passes = (total_votes \<ge> quorum_threshold \<and> sp_yes_votes p > sp_no_votes p) in
     Ok (passes, s\<lparr>sg_Proposal := (sg_Proposal s)(proposal_id \<mapsto> p\<lparr>sp_is_finalized := True\<rparr>)\<rparr>))))"

definition qc_proposal :: "supply_proposal supply_gov \<Rightarrow> int \<Rightarrow> supply_proposal result" where
  "qc_proposal s proposal_id = expect (sg_Proposal s proposal_id) ''Proposal not found'' Ok"

definition qcs_init :: "env \<Rightarrow> int \<Rightarrow> snapshot_proposal supply_gov \<Rightarrow> snapshot_proposal supply_gov result" where
  "qcs_init e total_supply s = Ok (s\<lparr>sg_TotalSupply := Some total_supply, sg_NextProposalId := Some 1\<rparr>)"

definition qcs_mint :: "env \<Rightarrow> int \<Rightarrow> snapshot_proposal supply_gov \<Rightarrow> snapshot_proposal supply_gov result" where
  "qcs_mint e amount s =
     arith (checked_add I128 (unwrap_or (sg_TotalSupply s) 0) amount) (\<lambda>n. Ok (s\<lparr>sg_TotalSupply := Some n\<rparr>))"

definition qcs_burn :: "env \<Rightarrow> int \<Rightarrow> snapshot_proposal supply_gov \<Rightarrow> snapshot_proposal supply_gov result" where
  "qcs_burn e amount s =
     arith (checked_sub I128 (unwrap_or (sg_TotalSupply s) 0) amount) (\<lambda>n. Ok (s\<lparr>sg_TotalSupply := Some n\<rparr>))"

definition qcs_total_supply :: "snapshot_proposal supply_gov \<Rightarrow> int" where
  "qcs_total_supply s = unwrap_or (sg_TotalSupply s) 0"

definition qcs_create_proposal :: "env \<Rightarrow> snapshot_proposal supply_gov \<Rightarrow> (int \<times> snapshot_proposal supply_gov) result" where
  "qcs_create_proposal e s =
     (let pid = unwrap_or (sg_NextProposalId s) 0;
          current_supply = unwrap_or (sg_TotalSupply s) 0;
          p = \<lparr>sp_id = pid, sp_yes_votes = 0, sp_no_votes = 0, sp_is_finalized = False,
               sp_snapshot_supply = current_supply\<rparr>;
          s1 = s\<lparr>sg_Proposal := (sg_Proposal s)(pid \<mapsto> p)\<rparr> in
      arith (checked_add U64 pid 1) (\<lambda>n. Ok (pid, s1\<lparr>sg_NextProposalId := Some n\<rparr>)))"

definition qcs_vote :: "env \<Rightarrow> int \<Rightarrow> bool \<Rightarrow> int \<Rightarrow> snapshot_proposal supply_gov \<Rightarrow> snapshot_proposal supply_gov result" where
  "qcs_vote e proposal_id vote_yes amount s =
     expect (sg_Proposal s proposal_id) ''Proposal not found'' (\<lambda>p.
     and_then (if vote_yes then arith (checked_add I128 (sp_yes_votes p) amount) (\<lambda>n. Ok (p\<lparr>sp_yes_votes := n\<rparr>))
               else arith (checked_add I128 (sp_no_votes p) amount) (\<lambda>n. Ok (p\<lparr>sp_no_votes := n\<rparr>))) (\<lambda>p1.
     Ok (s\<lparr>sg_Proposal := (sg_Proposal s)(proposal_id \<mapsto> p1)\<rparr>)))"

definition qcs_tally_secure :: "env \<Rightarrow> int \<Rightarrow> snapshot_proposal supply_gov \<Rightarrow> (bool \<times> snapshot_proposal supply_gov) result" where
  "qcs_tally_secure e proposal_id s =
     expect (sg_Proposal s proposal_id) ''Proposal not found'' (\<lambda>p.
     arith (checked_div I128 (sp_snapshot_supply p) 2) (\<lambda>quorum_threshold.
     arith (checked_add I128 (sp_yes_votes p) (sp_no_votes p)) (\<lambda>total_votes.
     let passes = (total_votes \<ge> quorum_threshold \<and> sp_yes_votes p > sp_no_votes p) in
     Ok (passes, s\<lparr>sg_Proposal := (sg_Proposal s)(proposal_id \<mapsto> p\<lparr>sp_is_finalized := True\<rparr>)\<rparr>))))"

definition qcs_proposal :: "snapshot_proposal supply_gov \<Rightarrow> int \<Rightarrow> snapshot_proposal result" where
  "qcs_proposal s proposal_id = expect (sg_Proposal s proposal_id) ''Proposal not found'' Ok"

datatype supply_call =
    QInit int
  | QMint int
  | QBurn int
  | QCreate
  | QVote int bool int
  | QTally int

fun qcs_exec :: "env \<Rightarrow> supply_call \<Rightarrow> snapshot_proposal supply_gov \<Rightarrow> snapshot_proposal supply_gov result" where
  "qcs_exec e (QInit n) s = qcs_init e n s"
| "qcs_exec e (QMint n) s = qcs_mint e n s"
| "qcs_exec e (QBurn n) s = qcs_burn e n s"
| "qcs_exec e QCreate s = state_of (qcs_create_proposal e s)"
| "qcs_exec e (QVote i b n) s = qcs_vote e i b n s"
| "qcs_exec e (QTally i) s = state_of (qcs_tally_secure e i s)"

lemmas supply_defs = qcs_init_def qcs_mint_def qcs_burn_def qcs_create_proposal_def qcs_vote_def qcs_tally_secure_def

text \<open>The calls that cannot touch the votes on proposal \<open>i\<close>.\<close>

fun leaves_proposal :: "int \<Rightarrow> supply_call \<Rightarrow> bool" where
  "leaves_proposal i (QInit n) = False"
| "leaves_proposal i (QVote j b n) = (j \<noteq> i)"
| "leaves_proposal i c = True"

text \<open>What the tally reads, apart from the finalised flag, which it only sets.\<close>

definition frozen_at :: "int \<Rightarrow> snapshot_proposal \<Rightarrow> snapshot_proposal supply_gov \<Rightarrow> bool" where
  "frozen_at i p s \<longleftrightarrow> (\<exists>q. sg_Proposal s i = Some q \<and> sp_yes_votes q = sp_yes_votes p
       \<and> sp_no_votes q = sp_no_votes p \<and> sp_snapshot_supply q = sp_snapshot_supply p)
     \<and> (\<exists>n. sg_NextProposalId s = Some n \<and> i < n)"

interpretation frozen: restricted_invariant qcs_exec "frozen_at i p" "\<lambda>_. leaves_proposal i"
  for i p
proof (unfold_locales, goal_cases)
  case (1 s e c s')
  then show ?case
    by (cases c) (auto simp: frozen_at_def supply_defs result_simps int_simps Let_def)
qed

definition outcome_of :: "int \<Rightarrow> snapshot_proposal supply_gov \<Rightarrow> bool result" where
  "outcome_of i s = and_then (qcs_tally_secure (signed_env [] 0) i s) (\<lambda>(passes, s'). Ok passes)"

lemma outcome_frozen:
  "frozen_at i p s \<Longrightarrow> outcome_of i s = and_then (arith (checked_div I128 (sp_snapshot_supply p) 2) (\<lambda>q.
      arith (checked_add I128 (sp_yes_votes p) (sp_no_votes p)) (\<lambda>t.
      Ok (t \<ge> q \<and> sp_yes_votes p > sp_no_votes p)))) Ok"
  by (cases "checked_div I128 (sp_snapshot_supply p) 2"; cases "checked_add I128 (sp_yes_votes p) (sp_no_votes p)")
     (auto simp: outcome_of_def frozen_at_def qcs_tally_secure_def Let_def)

text \<open>
  The snapshot (\<^verbatim>\<open>quorum_current_supply/src/secure.rs\<close>): once a proposal exists, no run of mints, burns,
  tallies, other proposals and votes on them changes what its tally returns, the error case included.
  Only a vote on the proposal itself, or initialising the contract again, can.
\<close>

theorem snapshot_tally_stable:
  assumes "sg_Proposal s i = Some p" and "sg_NextProposalId s = Some n" and "i < n"
    and "\<forall>(e, c)\<in>set xs. leaves_proposal i c"
  shows "outcome_of i (run_calls qcs_exec xs s) = outcome_of i s"
proof -
  have "frozen_at i p s"
    using assms(1-3) by (simp add: frozen_at_def)
  then show ?thesis
    using frozen.run_inv [OF _ assms(4)] by (simp add: outcome_frozen)
qed

definition snapshot_demo :: "snapshot_proposal supply_gov" where
  "snapshot_demo = \<lparr>sg_TotalSupply = Some 1000, sg_NextProposalId = Some 2, sg_Proposal = [1 \<mapsto>
     \<lparr>sp_id = 1, sp_yes_votes = 300, sp_no_votes = 100, sp_is_finalized = False, sp_snapshot_supply = 1000\<rparr>]\<rparr>"

theorem snapshot_tally_stable_witness:
  "outcome_of 1 (run_calls qcs_exec [(signed_env [] 1, QBurn 500), (signed_env [] 2, QTally 1)] snapshot_demo) = Ok False"
proof -
  have "outcome_of 1 (run_calls qcs_exec [(signed_env [] 1, QBurn 500), (signed_env [] 2, QTally 1)] snapshot_demo)
      = outcome_of 1 snapshot_demo"
    by (rule snapshot_tally_stable [of _ _ _ 2]) (simp_all add: snapshot_demo_def)
  also have "\<dots> = Ok False"
    by (simp add: outcome_of_def snapshot_demo_def qcs_tally_secure_def checked_div_def checked_add_def checked_def
        in_range_def signed_divide_int_def)
  finally show ?thesis .
qed

text \<open>The unrepaired tally on the same votes: burning half of the supply makes the proposal pass.\<close>

lemma burn_flips_tally:
  fixes s :: "supply_proposal supply_gov"
  assumes "sg_Proposal s i = Some p" "sg_TotalSupply s = Some 1000" "sp_yes_votes p = 300" "sp_no_votes p = 100"
  shows "\<exists>t. qc_tally_vulnerable e i s = Ok (False, t)"
    and "\<exists>s1 t. qc_burn e 500 s = Ok s1 \<and> qc_tally_vulnerable e i s1 = Ok (True, t)"
  using assms
  by (auto simp: qc_tally_vulnerable_def qc_burn_def checked_div_def checked_add_def checked_sub_def checked_def
      in_range_def signed_divide_int_def)

section \<open>delegation\_weight\_no\_snapshot\<close>

text \<open>A ballot: the voter, the power stored with the vote (the repaired half's \<^verbatim>\<open>Vote\<close>), and the side.\<close>

record power_vote =
  pv_voter :: address
  pv_snapshotted_power :: int
  pv_vote_yes :: bool

record power_proposal =
  pp_id :: int
  pp_votes :: "power_vote list"
  pp_is_finalized :: bool

record delegation =
  dg_DelegatedBalance :: "address \<rightharpoonup> int"
  dg_NextProposalId :: "int option"
  dg_Proposal :: "int \<rightharpoonup> power_proposal"

definition dw_init :: "env \<Rightarrow> delegation \<Rightarrow> delegation result" where
  "dw_init e s = Ok (s\<lparr>dg_NextProposalId := Some 1\<rparr>)"

definition dw_set_delegated_balance :: "env \<Rightarrow> address \<Rightarrow> int \<Rightarrow> delegation \<Rightarrow> delegation result" where
  "dw_set_delegated_balance e a amount s = Ok (s\<lparr>dg_DelegatedBalance := (dg_DelegatedBalance s)(a \<mapsto> amount)\<rparr>)"

definition dw_get_delegated_balance :: "delegation \<Rightarrow> address \<Rightarrow> int" where
  "dw_get_delegated_balance s a = get0 (dg_DelegatedBalance s) a"

definition dw_create_proposal :: "env \<Rightarrow> delegation \<Rightarrow> (int \<times> delegation) result" where
  "dw_create_proposal e s =
     (let pid = unwrap_or (dg_NextProposalId s) 0;
          s1 = s\<lparr>dg_Proposal := (dg_Proposal s)(pid \<mapsto> \<lparr>pp_id = pid, pp_votes = [], pp_is_finalized = False\<rparr>)\<rparr> in
      arith (checked_add U64 pid 1) (\<lambda>n. Ok (pid, s1\<lparr>dg_NextProposalId := Some n\<rparr>)))"

definition dw_vote_vulnerable :: "env \<Rightarrow> int \<Rightarrow> address \<Rightarrow> bool \<Rightarrow> delegation \<Rightarrow> delegation result" where
  "dw_vote_vulnerable e proposal_id voter vote_yes s =
     expect (dg_Proposal s proposal_id) ''Proposal not found'' (\<lambda>p.
     let voting_power = get0 (dg_DelegatedBalance s) voter;
         v = \<lparr>pv_voter = voter, pv_snapshotted_power = voting_power, pv_vote_yes = vote_yes\<rparr> in
     Ok (s\<lparr>dg_Proposal := (dg_Proposal s)(proposal_id \<mapsto> p\<lparr>pp_votes := pp_votes p @ [v]\<rparr>)\<rparr>))"

text \<open>The tally loop: it adds what \<open>w\<close> gives for each vote to one side or the other.\<close>

fun tally_loop :: "(power_vote \<Rightarrow> int) \<Rightarrow> power_vote list \<Rightarrow> int \<Rightarrow> int \<Rightarrow> (int \<times> int) result" where
  "tally_loop w [] yes_votes no_votes = Ok (yes_votes, no_votes)"
| "tally_loop w (v # vs) yes_votes no_votes =
     (if pv_vote_yes v then arith (checked_add I128 yes_votes (w v)) (\<lambda>y. tally_loop w vs y no_votes)
      else arith (checked_add I128 no_votes (w v)) (\<lambda>n. tally_loop w vs yes_votes n))"

definition dw_tally_vulnerable :: "env \<Rightarrow> int \<Rightarrow> delegation \<Rightarrow> (bool \<times> delegation) result" where
  "dw_tally_vulnerable e proposal_id s =
     expect (dg_Proposal s proposal_id) ''Proposal not found'' (\<lambda>p.
     and_then (tally_loop (\<lambda>v. get0 (dg_DelegatedBalance s) (pv_voter v)) (pp_votes p) 0 0) (\<lambda>(yes_votes, no_votes).
     Ok (yes_votes > no_votes,
         s\<lparr>dg_Proposal := (dg_Proposal s)(proposal_id \<mapsto> p\<lparr>pp_is_finalized := True\<rparr>)\<rparr>)))"

definition dw_proposal :: "delegation \<Rightarrow> int \<Rightarrow> power_proposal result" where
  "dw_proposal s proposal_id = expect (dg_Proposal s proposal_id) ''Proposal not found'' Ok"

definition dws_init :: "env \<Rightarrow> delegation \<Rightarrow> delegation result" where
  "dws_init e s = Ok (s\<lparr>dg_NextProposalId := Some 1\<rparr>)"

definition dws_set_delegated_balance :: "env \<Rightarrow> address \<Rightarrow> int \<Rightarrow> delegation \<Rightarrow> delegation result" where
  "dws_set_delegated_balance e a amount s = Ok (s\<lparr>dg_DelegatedBalance := (dg_DelegatedBalance s)(a \<mapsto> amount)\<rparr>)"

definition dws_get_delegated_balance :: "delegation \<Rightarrow> address \<Rightarrow> int" where
  "dws_get_delegated_balance s a = get0 (dg_DelegatedBalance s) a"

definition dws_create_proposal :: "env \<Rightarrow> delegation \<Rightarrow> (int \<times> delegation) result" where
  "dws_create_proposal e s =
     (let pid = unwrap_or (dg_NextProposalId s) 0;
          s1 = s\<lparr>dg_Proposal := (dg_Proposal s)(pid \<mapsto> \<lparr>pp_id = pid, pp_votes = [], pp_is_finalized = False\<rparr>)\<rparr> in
      arith (checked_add U64 pid 1) (\<lambda>n. Ok (pid, s1\<lparr>dg_NextProposalId := Some n\<rparr>)))"

definition dws_vote_secure :: "env \<Rightarrow> int \<Rightarrow> address \<Rightarrow> bool \<Rightarrow> delegation \<Rightarrow> delegation result" where
  "dws_vote_secure e proposal_id voter vote_yes s =
     expect (dg_Proposal s proposal_id) ''Proposal not found'' (\<lambda>p.
     let snapshotted_power = get0 (dg_DelegatedBalance s) voter;
         vote = \<lparr>pv_voter = voter, pv_snapshotted_power = snapshotted_power, pv_vote_yes = vote_yes\<rparr> in
     Ok (s\<lparr>dg_Proposal := (dg_Proposal s)(proposal_id \<mapsto> p\<lparr>pp_votes := pp_votes p @ [vote]\<rparr>)\<rparr>))"

definition dws_tally_secure :: "env \<Rightarrow> int \<Rightarrow> delegation \<Rightarrow> (bool \<times> delegation) result" where
  "dws_tally_secure e proposal_id s =
     expect (dg_Proposal s proposal_id) ''Proposal not found'' (\<lambda>p.
     and_then (tally_loop pv_snapshotted_power (pp_votes p) 0 0) (\<lambda>(yes_votes, no_votes).
     Ok (yes_votes > no_votes,
         s\<lparr>dg_Proposal := (dg_Proposal s)(proposal_id \<mapsto> p\<lparr>pp_is_finalized := True\<rparr>)\<rparr>)))"

definition dws_proposal :: "delegation \<Rightarrow> int \<Rightarrow> power_proposal result" where
  "dws_proposal s proposal_id = expect (dg_Proposal s proposal_id) ''Proposal not found'' Ok"

text \<open>What the loop computes when it does not overflow: the two side sums.\<close>

lemma tally_loop_sums:
  "tally_loop w vs y n = Ok (y', n') \<Longrightarrow>
     y' = y + (\<Sum>v\<leftarrow>filter pv_vote_yes vs. w v) \<and> n' = n + (\<Sum>v\<leftarrow>filter (Not \<circ> pv_vote_yes) vs. w v)"
  by (induction w vs y n rule: tally_loop.induct)
     (force simp: result_simps int_simps split: if_splits)+

lemma tally_loop_total:
  assumes "\<forall>v\<in>set vs. 0 \<le> w v" and "0 \<le> y" and "0 \<le> n" and "y + n + (\<Sum>v\<leftarrow>vs. w v) \<le> ity_max I128"
  shows "\<exists>y' n'. tally_loop w vs y n = Ok (y', n')"
  using assms
proof (induction w vs y n rule: tally_loop.induct)
  case (2 w v vs y n)
  have "0 \<le> (\<Sum>v\<leftarrow>vs. w v)"
    using 2 by (intro sum_list_nonneg) auto
  with 2 show ?case
    by (auto simp: checked_add_def checked_def in_range_def add.assoc add.left_commute)
qed simp

text \<open>Moving delegations after the votes were cast flips the unrepaired tally, not the repaired one.\<close>

definition delegation_demo :: "(address \<Rightarrow> int) \<Rightarrow> delegation" where
  "delegation_demo f = \<lparr>dg_DelegatedBalance = (\<lambda>a. Some (f a)), dg_NextProposalId = Some 2, dg_Proposal = [1 \<mapsto>
     \<lparr>pp_id = 1, pp_votes = [\<lparr>pv_voter = Address 5, pv_snapshotted_power = 100, pv_vote_yes = True\<rparr>,
        \<lparr>pv_voter = Address 6, pv_snapshotted_power = 50, pv_vote_yes = False\<rparr>], pp_is_finalized = False\<rparr>]\<rparr>"

lemma redelegation_flips_tally:
  "\<exists>t. dw_tally_vulnerable e 1 (delegation_demo (\<lambda>a. if a = Address 5 then 100 else 50)) = Ok (True, t)"
  "\<exists>t. dw_tally_vulnerable e 1 (delegation_demo (\<lambda>a. if a = Address 5 then 30 else 150)) = Ok (False, t)"
  "\<exists>t. dws_tally_secure e 1 (delegation_demo f) = Ok (True, t)"
  by (simp_all add: dw_tally_vulnerable_def dws_tally_secure_def delegation_demo_def checked_add_def checked_def
      in_range_def get0_def)

text \<open>
  The stored power (\<^verbatim>\<open>delegation_weight_no_snapshot/src/secure.rs\<close>): setting delegated balances never changes
  what the repaired tally of a proposal returns, and when the powers are not negative and fit together
  into an \<^verbatim>\<open>i128\<close> the tally returns, and says that the stored yes power exceeds the stored no power.
\<close>

lemma delegation_irrelevant:
  assumes "dws_set_delegated_balance e' a amount s = Ok s'"
  shows "and_then (dws_tally_secure e i s') (\<lambda>r. Ok (fst r)) = and_then (dws_tally_secure e i s) (\<lambda>r. Ok (fst r))"
proof -
  have s': "dg_Proposal s' = dg_Proposal s"
    using assms by (auto simp: dws_set_delegated_balance_def)
  show ?thesis
  proof (cases "dg_Proposal s i")
    case (Some p)
    then show ?thesis
      by (cases "tally_loop pv_snapshotted_power (pp_votes p) 0 0") (auto simp: dws_tally_secure_def s' split: prod.splits)
  qed (simp add: dws_tally_secure_def s')
qed

theorem stored_power_decides:
  assumes p: "dg_Proposal s i = Some p" and pos: "\<forall>v\<in>set (pp_votes p). 0 \<le> pv_snapshotted_power v"
    and fits: "(\<Sum>v\<leftarrow>pp_votes p. pv_snapshotted_power v) \<le> ity_max I128"
  shows "\<exists>t. dws_tally_secure e i s =
     Ok ((\<Sum>v\<leftarrow>filter (Not \<circ> pv_vote_yes) (pp_votes p). pv_snapshotted_power v)
         < (\<Sum>v\<leftarrow>filter pv_vote_yes (pp_votes p). pv_snapshotted_power v), t)"
proof -
  obtain y n where l: "tally_loop pv_snapshotted_power (pp_votes p) 0 0 = Ok (y, n)"
    using tally_loop_total [OF pos, of 0 0] fits by auto
  show ?thesis
    using tally_loop_sums [OF l] l p by (simp add: dws_tally_secure_def)
qed

theorem stored_power_decides_witness:
  "\<exists>t. dws_tally_secure (signed_env [] 9) 1 (delegation_demo (\<lambda>a. 0)) = Ok (True, t)"
  using stored_power_decides [of "delegation_demo (\<lambda>a. 0)" 1 _ "signed_env [] 9", OF fun_upd_same [THEN trans [rotated]]]
  by (simp add: delegation_demo_def)

section \<open>transfer\_double\_vote\<close>

record double_vote =
  dv_Votes :: "(address, int) smap option"
  dv_Balances :: "(address, int) smap option"

definition dv_votes :: "double_vote \<Rightarrow> (address, int) smap" where
  "dv_votes s = unwrap_or (dv_Votes s) []"

definition dv_balances :: "double_vote \<Rightarrow> (address, int) smap" where
  "dv_balances s = unwrap_or (dv_Balances s) []"

definition tdv_init :: "env \<Rightarrow> address \<Rightarrow> int \<Rightarrow> double_vote \<Rightarrow> double_vote result" where
  "tdv_init e voter balance s = Ok (s\<lparr>dv_Balances := Some (smap_set voter balance (dv_balances s))\<rparr>)"

definition tdv_transfer :: "env \<Rightarrow> address \<Rightarrow> address \<Rightarrow> int \<Rightarrow> double_vote \<Rightarrow> double_vote result" where
  "tdv_transfer e from to amount s =
     (let balances = dv_balances s;
          from_bal = unwrap_or (smap_get balances from) 0 in
      arith (checked_sub I128 from_bal amount) (\<lambda>f.
      let balances1 = smap_set from f balances;
          to_bal = unwrap_or (smap_get balances1 to) 0 in
      arith (checked_add I128 to_bal amount) (\<lambda>t.
      Ok (s\<lparr>dv_Balances := Some (smap_set to t balances1)\<rparr>))))"

definition tdv_vulnerable_entry :: "env \<Rightarrow> address \<Rightarrow> int \<Rightarrow> double_vote \<Rightarrow> double_vote result" where
  "tdv_vulnerable_entry e actor amount s =
     (let power = unwrap_or (smap_get (dv_balances s) actor) 0;
          current = unwrap_or (smap_get (dv_votes s) actor) 0 in
      arith (checked_add I128 current power) (\<lambda>n.
      Ok (s\<lparr>dv_Votes := Some (smap_set actor n (dv_votes s))\<rparr>)))"

fun add_up :: "(address, int) smap \<Rightarrow> int \<Rightarrow> int result" where
  "add_up [] acc = Ok acc"
| "add_up ((k, v) # m) acc = arith (checked_add I128 acc v) (\<lambda>n. add_up m n)"

definition tdv_total_votes :: "double_vote \<Rightarrow> int result" where
  "tdv_total_votes s = add_up (dv_votes s) 0"

definition secure_vote :: "env \<Rightarrow> address \<Rightarrow> (address, int) smap \<Rightarrow> double_vote \<Rightarrow> double_vote result" where
  "secure_vote e actor snapshot s =
     panic_if (smap_contains_key (dv_votes s) actor) ''already voted'' (
     let power = unwrap_or (smap_get snapshot actor) 0 in
     Ok (s\<lparr>dv_Votes := Some (smap_set actor power (dv_votes s))\<rparr>))"

text \<open>
  The repaired contract: the voting entry is \<^verbatim>\<open>secure_vote\<close> with the snapshot taken at the start of the
  proposal, and tokens move in between.
\<close>

datatype dv_call =
    DVInit address int
  | DVTransfer address address int
  | DVVote address

fun tdvs_exec :: "(address, int) smap \<Rightarrow> env \<Rightarrow> dv_call \<Rightarrow> double_vote \<Rightarrow> double_vote result" where
  "tdvs_exec snap e (DVInit a n) s = tdv_init e a n s"
| "tdvs_exec snap e (DVTransfer a b n) s = tdv_transfer e a b n s"
| "tdvs_exec snap e (DVVote a) s = secure_vote e a snap s"

fun tdv_exec :: "env \<Rightarrow> dv_call \<Rightarrow> double_vote \<Rightarrow> double_vote result" where
  "tdv_exec e (DVInit a n) s = tdv_init e a n s"
| "tdv_exec e (DVTransfer a b n) s = tdv_transfer e a b n s"
| "tdv_exec e (DVVote a) s = tdv_vulnerable_entry e a 0 s"

lemmas dv_defs = tdv_init_def tdv_transfer_def tdv_vulnerable_entry_def secure_vote_def dv_votes_def dv_balances_def
  smap_contains_key_def smap_get_def Let_def

lemma add_up_sum: "add_up m acc = Ok n \<Longrightarrow> n = acc + (\<Sum>(k, v)\<leftarrow>m. v)"
  by (induction m acc rule: add_up.induct) (force simp: result_simps int_simps)+

text \<open>The votes that count: every voter has the power of the snapshot, and appears once.\<close>

definition votes_ok :: "(address, int) smap \<Rightarrow> double_vote \<Rightarrow> bool" where
  "votes_ok snap s \<longleftrightarrow> smap_ok (dv_votes s)
     \<and> (\<forall>a v. map_of (dv_votes s) a = Some v \<longrightarrow> v = unwrap_or (map_of snap a) 0)"

interpretation snapshot_votes: contract_invariant "tdvs_exec snap" "votes_ok snap"
  for snap
proof (unfold_locales, goal_cases)
  case (1 s e c s')
  then show ?case
    by (cases c) (auto simp: votes_ok_def dv_defs result_simps smap_ok_set map_of_smap_set split: if_splits)
qed

lemma smap_sum_bal:
  fixes m :: "('k::linorder, int) smap"
  assumes "smap_ok m"
  shows "(\<Sum>(k, v)\<leftarrow>m. v) = (\<Sum>k\<in>dom (map_of m). unwrap_or (map_of m k) 0)"
proof -
  have d: "distinct (map fst m)"
    using assms by (simp add: smap_ok_def strict_sorted_iff)
  have "(\<Sum>(k, v)\<leftarrow>m. v) = (\<Sum>k\<leftarrow>map fst m. unwrap_or (map_of m k) 0)"
    using d by (induction m) (auto simp: image_iff split: prod.splits intro!: arg_cong [where f = sum_list] map_cong)
  also have "\<dots> = (\<Sum>k\<in>fst ` set m. unwrap_or (map_of m k) 0)"
    using d by (subst sum_list_distinct_conv_sum_set) auto
  finally show ?thesis by (simp add: dom_map_of_conv_image_fst)
qed

text \<open>
  The snapshot with one vote per voter (\<^verbatim>\<open>transfer_double_vote/src/secure.rs\<close>): however tokens are moved
  between the votes, the total of the votes never exceeds the total of the snapshot.
\<close>

theorem votes_bounded_by_snapshot:
  assumes "smap_ok snap" and nn: "\<forall>(a, v)\<in>set snap. 0 \<le> v" and s: "dv_Votes s = None"
    and t: "tdv_total_votes (run_calls (tdvs_exec snap) xs s) = Ok n"
  shows "n \<le> (\<Sum>(a, v)\<leftarrow>snap. v)"
proof -
  let ?t = "run_calls (tdvs_exec snap) xs s"
  let ?p = "\<lambda>a. unwrap_or (map_of snap a) 0"
  have ok: "votes_ok snap ?t"
    by (rule snapshot_votes.run_inv) (simp add: votes_ok_def dv_votes_def s smap_ok_def)
  have pos: "0 \<le> ?p a" for a
    using nn by (cases "map_of snap a") (auto dest: map_of_SomeD)
  have "n = (\<Sum>a\<in>dom (map_of (dv_votes ?t)). unwrap_or (map_of (dv_votes ?t) a) 0)"
    using add_up_sum t ok smap_sum_bal [of "dv_votes ?t"] by (fastforce simp: tdv_total_votes_def votes_ok_def)
  also have "\<dots> = (\<Sum>a\<in>dom (map_of (dv_votes ?t)). ?p a)"
    using ok by (intro sum.cong) (auto simp: votes_ok_def)
  also have "\<dots> \<le> (\<Sum>a\<in>dom (map_of (dv_votes ?t)) \<union> dom (map_of snap). ?p a)"
    using pos by (intro sum_mono2) (auto simp: finite_dom_map_of)
  also have "\<dots> = (\<Sum>a\<in>dom (map_of snap). ?p a)"
    by (intro sum.mono_neutral_right) (auto simp: finite_dom_map_of domIff)
  finally show ?thesis using smap_sum_bal [OF assms(1)] by simp
qed

definition dv_demo :: "double_vote" where
  "dv_demo = \<lparr>dv_Votes = None, dv_Balances = Some [(Address 5, 100)]\<rparr>"

definition dv_calls :: "(env \<times> dv_call) list" where
  "dv_calls = [(signed_env [] 1, DVVote (Address 5)), (signed_env [] 2, DVTransfer (Address 5) (Address 6) 100),
     (signed_env [] 3, DVVote (Address 6))]"

lemma dv_demo_votes:
  "tdv_total_votes (run_calls (tdvs_exec [(Address 5, 100)]) dv_calls dv_demo) = Ok 100"
  "tdv_total_votes (run_calls tdv_exec dv_calls dv_demo) = Ok 200"
  by (simp_all add: dv_calls_def dv_demo_def dv_defs tdv_total_votes_def checked_add_def checked_sub_def checked_def
      in_range_def less_address_def panic_if_def)

theorem votes_bounded_by_snapshot_witness:
  "\<exists>n. tdv_total_votes (run_calls (tdvs_exec [(Address 5, 100)]) dv_calls dv_demo) = Ok n \<and> n \<le> 100"
proof -
  have "(100::int) \<le> (\<Sum>(a, v)\<leftarrow>[(Address 5, 100::int)]. v)"
    by (rule votes_bounded_by_snapshot [OF _ _ _ dv_demo_votes(1)]) (simp_all add: smap_ok_def dv_demo_def)
  then show ?thesis using dv_demo_votes(1) by auto
qed

section \<open>abstain\_counts\_as\_yes\<close>

definition vulnerable_passes :: "int \<Rightarrow> int \<Rightarrow> int \<Rightarrow> bool result" where
  "vulnerable_passes yes no abstain = arith (checked_add I128 yes abstain) (\<lambda>y. Ok (y > no))"

definition secure_passes :: "int \<Rightarrow> int \<Rightarrow> int \<Rightarrow> int \<Rightarrow> bool result" where
  "secure_passes yes no abstain quorum =
     arith (checked_add I128 yes no) (\<lambda>t1.
     arith (checked_add I128 t1 abstain) (\<lambda>t.
     Ok (t \<ge> quorum \<and> yes > no)))"

text \<open>
  Abstentions only help to reach the quorum: with the repair a proposal that passes has more yes than
  no votes, and without it abstentions alone carry a proposal that the voters rejected.
\<close>

lemma abstentions_do_not_approve:
  "secure_passes yes no abstain quorum = Ok True \<Longrightarrow> no < yes \<and> quorum \<le> yes + no + abstain"
  by (auto simp: secure_passes_def result_simps int_simps)

lemma abstentions_flip:
  assumes "in_range I128 (yes + abstain)" and "yes \<le> no" and "no < yes + abstain" and "in_range I128 (yes + no)"
    and "in_range I128 (yes + no + abstain)"
  shows "vulnerable_passes yes no abstain = Ok True \<and> secure_passes yes no abstain quorum = Ok False"
  using assms by (simp add: vulnerable_passes_def secure_passes_def int_simps)

end
