(* ===== verification/Timelocks.thy ===== *)
theory Timelocks
  imports Soroban_Containers Soroban_Bytes
begin

text \<open>
  The delayed-execution crates: \<^verbatim>\<open>src/vulnerable/execute_without_queue\<close>, \<^verbatim>\<open>timelock_sequence\<close>,
  \<^verbatim>\<open>timelock_eta_overwrite\<close> and \<^verbatim>\<open>admin_timelock_rewrite\<close>. What a timelock promises is stated once, as the
  locale \<^verbatim>\<open>queued_execution\<close>: something is executed only when it was queued at least the delay before.
  The first, the second and the repaired fourth keep the promise; in the third the repair leaves a way
  around it.
\<close>

section \<open>What a timelock promises\<close>

text \<open>
  \<^verbatim>\<open>ready\<close> is the ledger from which the action in question may be executed, when it is queued. A call
  either leaves or removes that entry, or queues the action with at least the delay ahead; executing needs
  the entry to be due.
\<close>

locale queued_execution = contract_invariant exec inv
  for exec :: "env \<Rightarrow> 'c \<Rightarrow> 's \<Rightarrow> 's result" and inv :: "'s \<Rightarrow> bool" +
  fixes ready :: "'s \<Rightarrow> int option" and delay :: int
    and queues :: "env \<Rightarrow> 'c \<Rightarrow> 's \<Rightarrow> bool" and executes :: "'c \<Rightarrow> bool"
  assumes ready_set: "inv s \<Longrightarrow> exec e c s = Ok s' \<Longrightarrow> ready s' = Some t \<Longrightarrow>
      ready s = Some t \<or> (queues e c s \<and> sequence e + delay \<le> t)"
    and due: "inv s \<Longrightarrow> exec e c s = Ok s' \<Longrightarrow> executes c \<Longrightarrow> \<exists>t. ready s = Some t \<and> t \<le> sequence e"
begin

lemma ready_queued:
  assumes "inv s" and "ready s = None" and "ready (run_calls exec xs s) = Some t"
  shows "\<exists>ys e c zs. xs = ys @ (e, c) # zs \<and> queues e c (run_calls exec ys s) \<and> sequence e + delay \<le> t"
  using assms(3)
proof (induction xs rule: rev_induct)
  case (snoc x xs)
  obtain e c where x: "x = (e, c)" by force
  let ?s = "run_calls exec xs s"
  show ?case
  proof (cases "ready ?s = Some t")
    case True
    with snoc.IH obtain ys e' c' zs where "xs = ys @ (e', c') # zs" "queues e' c' (run_calls exec ys s)"
      "sequence e' + delay \<le> t" by blast
    then show ?thesis
      by (intro exI [of _ ys] exI [of _ e'] exI [of _ c'] exI [of _ "zs @ [x]"]) simp
  next
    case False
    with snoc.prems x have "exec e c ?s = Ok (run_calls exec (xs @ [x]) s)"
      by (cases "exec e c ?s") (auto simp: run_calls_append)
    with ready_set [OF run_inv [OF assms(1)] this snoc.prems] False x show ?thesis by blast
  qed
qed (simp add: assms(2))

lemma executed_after_delay:
  assumes "inv s" and "ready s = None" and "exec e c (run_calls exec xs s) = Ok s'" and "executes c"
  shows "\<exists>ys e' c' zs. xs = ys @ (e', c') # zs \<and> queues e' c' (run_calls exec ys s)
           \<and> sequence e' + delay \<le> sequence e"
proof -
  obtain t where "ready (run_calls exec xs s) = Some t" "t \<le> sequence e"
    using due [OF run_inv [OF assms(1)] assms(3,4)] by blast
  with ready_queued [OF assms(1,2)] show ?thesis by fastforce
qed

end

section \<open>execute\_without\_queue\<close>

definition EQ_TIMELOCK_DELAY :: int where "EQ_TIMELOCK_DELAY = 100"

datatype eq_proposal_state = EQPending | EQPassed | EQQueued | EQExecuted

record eq_proposal =
  eq_state :: eq_proposal_state
  eq_execute_after :: int

record eq_gov =
  eq_Proposals :: "(int, eq_proposal) smap option"

definition eq_create :: "env \<Rightarrow> int \<Rightarrow> eq_gov \<Rightarrow> eq_gov result" where
  "eq_create e pid s =
     (let proposals = unwrap_or (eq_Proposals s) [] in
      Ok (s\<lparr>eq_Proposals := Some (smap_set pid \<lparr>eq_state = EQPassed, eq_execute_after = 0\<rparr> proposals)\<rparr>))"

definition eq_queue :: "env \<Rightarrow> int \<Rightarrow> eq_gov \<Rightarrow> eq_gov result" where
  "eq_queue e pid s =
     unwrap (eq_Proposals s) (\<lambda>proposals.
     unwrap (smap_get proposals pid) (\<lambda>p.
     panic_if (eq_state p \<noteq> EQPassed) ''can only queue passed proposals'' (
     arith (checked_add U32 (sequence e) EQ_TIMELOCK_DELAY) (\<lambda>t.
     Ok (s\<lparr>eq_Proposals := Some (smap_set pid (p\<lparr>eq_state := EQQueued, eq_execute_after := t\<rparr>) proposals)\<rparr>)))))"

text \<open>The scan entry of the crate reads the proposals and changes nothing.\<close>

definition eq_vulnerable_entry :: "env \<Rightarrow> address \<Rightarrow> int \<Rightarrow> eq_gov \<Rightarrow> eq_gov result" where
  "eq_vulnerable_entry e actor amount s = Ok s"

definition eq_execute_vulnerable :: "env \<Rightarrow> int \<Rightarrow> eq_gov \<Rightarrow> eq_gov result" where
  "eq_execute_vulnerable e pid s =
     unwrap (eq_Proposals s) (\<lambda>proposals.
     unwrap (smap_get proposals pid) (\<lambda>p.
     panic_if (eq_state p \<noteq> EQPassed) ''proposal not passed'' (
     Ok (s\<lparr>eq_Proposals := Some (smap_set pid (p\<lparr>eq_state := EQExecuted\<rparr>) proposals)\<rparr>))))"

definition eq_execute_secure :: "env \<Rightarrow> int \<Rightarrow> eq_gov \<Rightarrow> eq_gov result" where
  "eq_execute_secure e pid s =
     unwrap (eq_Proposals s) (\<lambda>proposals.
     unwrap (smap_get proposals pid) (\<lambda>p.
     panic_if (eq_state p \<noteq> EQQueued) ''proposal must be queued before execution'' (
     panic_if (sequence e < eq_execute_after p) ''timelock delay not elapsed'' (
     Ok (s\<lparr>eq_Proposals := Some (smap_set pid (p\<lparr>eq_state := EQExecuted\<rparr>) proposals)\<rparr>)))))"

definition eq_get_state :: "eq_gov \<Rightarrow> int \<Rightarrow> eq_proposal_state result" where
  "eq_get_state s pid = unwrap (smap_get (unwrap_or (eq_Proposals s) []) pid) (\<lambda>p. Ok (eq_state p))"

datatype eq_call =
    EQCreate int
  | EQQueue int
  | EQScan address int
  | EQExecuteVulnerable int
  | EQExecuteSecure int

fun eq_exec :: "env \<Rightarrow> eq_call \<Rightarrow> eq_gov \<Rightarrow> eq_gov result" where
  "eq_exec e (EQCreate i) s = eq_create e i s"
| "eq_exec e (EQQueue i) s = eq_queue e i s"
| "eq_exec e (EQScan a n) s = eq_vulnerable_entry e a n s"
| "eq_exec e (EQExecuteVulnerable i) s = eq_execute_vulnerable e i s"
| "eq_exec e (EQExecuteSecure i) s = eq_execute_secure e i s"

lemmas eq_defs = eq_create_def eq_queue_def eq_vulnerable_entry_def eq_execute_vulnerable_def eq_execute_secure_def
  eq_get_state_def Let_def

text \<open>The map of proposals is kept in key order.\<close>

definition eq_ok :: "eq_gov \<Rightarrow> bool" where
  "eq_ok s \<longleftrightarrow> smap_ok (unwrap_or (eq_Proposals s) [])"

definition eq_ready :: "int \<Rightarrow> eq_gov \<Rightarrow> int option" where
  "eq_ready i s = (case smap_get (unwrap_or (eq_Proposals s) []) i of
     None \<Rightarrow> None | Some p \<Rightarrow> if eq_state p = EQQueued then Some (eq_execute_after p) else None)"

interpretation queue_first: queued_execution eq_exec eq_ok "eq_ready i" EQ_TIMELOCK_DELAY
  "\<lambda>e c s. c = EQQueue i" "\<lambda>c. c = EQExecuteSecure i"
  for i
proof (unfold_locales, goal_cases)
  case (1 s e c s')
  then show ?case
    by (cases c) (auto simp: eq_defs eq_ok_def result_simps smap_ok_set)
next
  case (2 s e c s' t)
  then show ?case
    by (cases c) (auto simp: eq_defs eq_ok_def eq_ready_def result_simps int_simps smap.get_put split: if_splits option.splits)
next
  case (3 s e c s')
  then show ?case
    by (auto simp: eq_defs eq_ready_def result_simps)
qed

text \<open>
  The repaired execution (\<^verbatim>\<open>execute_secure\<close>): whatever calls came before, the unguarded ones included, a
  proposal it executes was queued at least 100 ledgers earlier.
\<close>

theorem executed_was_queued:
  assumes "eq_Proposals s = None" and "eq_execute_secure e i (run_calls eq_exec xs s) = Ok s'"
  shows "\<exists>ys e' zs. xs = ys @ (e', EQQueue i) # zs \<and> sequence e' + 100 \<le> sequence e"
  using queue_first.executed_after_delay [of s i e "EQExecuteSecure i" xs s'] assms
  by (auto simp: eq_ok_def smap_ok_def eq_ready_def smap_get_def EQ_TIMELOCK_DELAY_def)

definition eq_demo_calls :: "(env \<times> eq_call) list" where
  "eq_demo_calls = [(signed_env [] 10, EQCreate 1), (signed_env [] 20, EQQueue 1)]"

lemma eq_demo_run: "eq_execute_secure (signed_env [] 120) 1 (run_calls eq_exec eq_demo_calls \<lparr>eq_Proposals = None\<rparr>) =
    Ok \<lparr>eq_Proposals = Some [(1, \<lparr>eq_state = EQExecuted, eq_execute_after = 120\<rparr>)]\<rparr>"
  by (simp add: eq_demo_calls_def eq_defs smap_get_def EQ_TIMELOCK_DELAY_def checked_add_def checked_def in_range_def
      signed_env_def)

theorem executed_was_queued_witness:
  "\<exists>ys e' zs. eq_demo_calls = ys @ (e', EQQueue 1) # zs \<and> sequence e' + 100 \<le> 120"
  using executed_was_queued [OF _ eq_demo_run] by (simp add: signed_env_def)

text \<open>The unguarded execution needs neither.\<close>

lemma executes_without_queue:
  "eq_Proposals s = Some m \<Longrightarrow> smap_get m i = Some p \<Longrightarrow> eq_state p = EQPassed \<Longrightarrow> \<exists>t. eq_execute_vulnerable e i s = Ok t"
  by (simp add: eq_defs)

section \<open>timelock\_sequence\<close>

definition MIN_LOCK_DURATION :: int where "MIN_LOCK_DURATION = 100"

record seq_lock =
  sl_Amount :: "address \<rightharpoonup> int"
  sl_UnlockLedger :: "address \<rightharpoonup> int"

definition sq_lock :: "env \<Rightarrow> address \<Rightarrow> int \<Rightarrow> int \<Rightarrow> seq_lock \<Rightarrow> seq_lock result" where
  "sq_lock e user amount unlock_ledger s =
     require_auth e user (
     panic_if (unlock_ledger \<le> sequence e) ''unlock_ledger must be in the future'' (
     arith (checked_sub U32 unlock_ledger (sequence e)) (\<lambda>d.
     panic_if (d < MIN_LOCK_DURATION) ''minimum lock duration is 100 ledgers'' (
     let s1 = s\<lparr>sl_UnlockLedger := (sl_UnlockLedger s)(user \<mapsto> unlock_ledger)\<rparr> in
     Ok (s1\<lparr>sl_Amount := (sl_Amount s1)(user \<mapsto> amount)\<rparr>)))))"

definition sq_withdraw :: "env \<Rightarrow> address \<Rightarrow> seq_lock \<Rightarrow> seq_lock result" where
  "sq_withdraw e user s =
     require_auth e user (
     expect (sl_UnlockLedger s user) ''unlock ledger not set'' (\<lambda>unlock_ledger.
     panic_if (sequence e < unlock_ledger) ''still locked'' (
     let s1 = s\<lparr>sl_Amount := (sl_Amount s)(user \<mapsto> 0)\<rparr> in
     Ok (s1\<lparr>sl_UnlockLedger := (sl_UnlockLedger s1)(user := None)\<rparr>))))"

definition sq_amount :: "seq_lock \<Rightarrow> address \<Rightarrow> int" where
  "sq_amount s user = get0 (sl_Amount s) user"

definition sq_unlock_ledger :: "seq_lock \<Rightarrow> address \<Rightarrow> int option" where
  "sq_unlock_ledger s user = sl_UnlockLedger s user"

definition sq_current_sequence :: "env \<Rightarrow> int" where
  "sq_current_sequence e = sequence e"

datatype sq_call = TLLock address int int | TLWithdraw address

fun sq_exec :: "env \<Rightarrow> sq_call \<Rightarrow> seq_lock \<Rightarrow> seq_lock result" where
  "sq_exec e (TLLock a n t) s = sq_lock e a n t s"
| "sq_exec e (TLWithdraw a) s = sq_withdraw e a s"

lemmas sq_defs = sq_lock_def sq_withdraw_def sq_amount_def sq_unlock_ledger_def Let_def

interpretation lock_held: queued_execution sq_exec "\<lambda>s. True" "\<lambda>s. sl_UnlockLedger s a" MIN_LOCK_DURATION
  "\<lambda>e c s. authorized e a \<and> (\<exists>n t. c = TLLock a n t)" "\<lambda>c. c = TLWithdraw a"
  for a
proof (unfold_locales, goal_cases)
  case (2 s e c s' t)
  then show ?case
    by (cases c) (auto simp: sq_defs result_simps int_simps split: if_splits)
next
  case (3 s e c s')
  then show ?case
    by (auto simp: sq_defs result_simps)
qed simp

text \<open>
  A withdrawal (\<^verbatim>\<open>timelock_sequence\<close>) is signed by its owner and comes at least 100 ledgers after a lock
  that the owner signed.
\<close>

lemma withdrawal_after_lock:
  assumes "sl_UnlockLedger s a = None" and "sq_withdraw e a (run_calls sq_exec xs s) = Ok s'"
  shows "authorized e a \<and> (\<exists>ys e' n t zs. xs = ys @ (e', TLLock a n t) # zs \<and> authorized e' a
           \<and> sequence e' + 100 \<le> sequence e)"
proof
  show "authorized e a"
    using assms(2) by (simp add: sq_withdraw_def result_simps)
  show "\<exists>ys e' n t zs. xs = ys @ (e', TLLock a n t) # zs \<and> authorized e' a \<and> sequence e' + 100 \<le> sequence e"
    using lock_held.executed_after_delay [of s a e "TLWithdraw a" xs s'] assms
    unfolding MIN_LOCK_DURATION_def by fastforce
qed

text \<open>
  A lock is not added to: a second one replaces amount and ledger, so the first amount is forgotten and
  a long lock can be shortened to 100 ledgers.
\<close>

lemma relock_replaces:
  assumes "authorized e a" and "in_range U32 (sequence e)" and "in_range U32 (sequence e + 100)"
  shows "\<exists>t. sq_lock e a n (sequence e + 100) s = Ok t \<and> sq_amount t a = n
      \<and> sq_unlock_ledger t a = Some (sequence e + 100)"
  using assms by (simp add: sq_defs int_simps MIN_LOCK_DURATION_def in_range_def)

section \<open>timelock\_eta\_overwrite\<close>

record eta_proposal =
  et_execute_after :: int
  et_executed :: bool

record eta_timelock =
  et_Proposal :: "int \<rightharpoonup> eta_proposal"

definition te_proposal :: "eta_timelock \<Rightarrow> int \<Rightarrow> (eta_proposal \<Rightarrow> 'a result) \<Rightarrow> 'a result" where
  "te_proposal s pid k = expect (et_Proposal s pid) ''missing proposal'' k"

definition te_save_proposal :: "int \<Rightarrow> eta_proposal \<Rightarrow> eta_timelock \<Rightarrow> eta_timelock" where
  "te_save_proposal pid p s = s\<lparr>et_Proposal := (et_Proposal s)(pid \<mapsto> p)\<rparr>"

definition te_queue :: "env \<Rightarrow> int \<Rightarrow> int \<Rightarrow> eta_timelock \<Rightarrow> eta_timelock result" where
  "te_queue e pid execute_after s =
     Ok (te_save_proposal pid \<lparr>et_execute_after = execute_after, et_executed = False\<rparr> s)"

definition te_set_execute_after :: "env \<Rightarrow> int \<Rightarrow> int \<Rightarrow> eta_timelock \<Rightarrow> eta_timelock result" where
  "te_set_execute_after e pid execute_after s =
     te_proposal s pid (\<lambda>p. Ok (te_save_proposal pid (p\<lparr>et_execute_after := execute_after\<rparr>) s))"

definition te_execute :: "env \<Rightarrow> int \<Rightarrow> eta_timelock \<Rightarrow> eta_timelock result" where
  "te_execute e pid s =
     te_proposal s pid (\<lambda>p.
     ensure (\<not> et_executed p) ''already executed'' (
     ensure (sequence e \<ge> et_execute_after p) ''timelock active'' (
     Ok (te_save_proposal pid (p\<lparr>et_executed := True\<rparr>) s))))"

definition te_state :: "eta_timelock \<Rightarrow> int \<Rightarrow> (int \<times> bool) result" where
  "te_state s pid = te_proposal s pid (\<lambda>p. Ok (et_execute_after p, et_executed p))"

definition tes_queue :: "env \<Rightarrow> int \<Rightarrow> int \<Rightarrow> eta_timelock \<Rightarrow> eta_timelock result" where
  "tes_queue e pid execute_after s =
     Ok (te_save_proposal pid \<lparr>et_execute_after = execute_after, et_executed = False\<rparr> s)"

definition tes_set_execute_after :: "env \<Rightarrow> int \<Rightarrow> int \<Rightarrow> eta_timelock \<Rightarrow> eta_timelock result" where
  "tes_set_execute_after e pid execute_after s = Err (Panic ''eta immutable'')"

definition tes_execute :: "env \<Rightarrow> int \<Rightarrow> eta_timelock \<Rightarrow> eta_timelock result" where
  "tes_execute e pid s =
     te_proposal s pid (\<lambda>p.
     ensure (\<not> et_executed p) ''already executed'' (
     ensure (sequence e \<ge> et_execute_after p) ''timelock active'' (
     Ok (te_save_proposal pid (p\<lparr>et_executed := True\<rparr>) s))))"

definition tes_state :: "eta_timelock \<Rightarrow> int \<Rightarrow> (int \<times> bool) result" where
  "tes_state s pid = te_proposal s pid (\<lambda>p. Ok (et_execute_after p, et_executed p))"

datatype eta_call = ETQueue int int | ETSet int int | ETExecute int

fun te_exec :: "env \<Rightarrow> eta_call \<Rightarrow> eta_timelock \<Rightarrow> eta_timelock result" where
  "te_exec e (ETQueue i t) s = te_queue e i t s"
| "te_exec e (ETSet i t) s = te_set_execute_after e i t s"
| "te_exec e (ETExecute i) s = te_execute e i s"

fun tes_exec :: "env \<Rightarrow> eta_call \<Rightarrow> eta_timelock \<Rightarrow> eta_timelock result" where
  "tes_exec e (ETQueue i t) s = tes_queue e i t s"
| "tes_exec e (ETSet i t) s = tes_set_execute_after e i t s"
| "tes_exec e (ETExecute i) s = tes_execute e i s"

lemmas te_defs = te_proposal_def te_save_proposal_def te_queue_def te_set_execute_after_def te_execute_def te_state_def
  tes_queue_def tes_set_execute_after_def tes_execute_def tes_state_def

fun not_rewriting :: "env \<Rightarrow> eta_call \<Rightarrow> eta_timelock \<Rightarrow> bool" where
  "not_rewriting e (ETSet i t) s = False"
| "not_rewriting e c s = True"

interpretation eta_hardened: hardened te_exec tes_exec not_rewriting
proof (unfold_locales, goal_cases)
  case (1 e c s s')
  show ?case by (cases c) (auto simp: te_defs)
qed

text \<open>In the repaired contract the execution ledger of a proposal changes only when it is queued (again).\<close>

interpretation eta_fixed: guarded_view tes_exec "\<lambda>s. map_option et_execute_after (et_Proposal s i)"
  "\<lambda>e c s. \<exists>t. c = ETQueue i t"
  for i
proof (unfold_locales, goal_cases)
  case (1 e c s s')
  then show ?case
    by (cases c) (auto simp: te_defs result_simps split: if_splits)
qed

text \<open>
  The repair (\<^verbatim>\<open>timelock_eta_overwrite/src/secure.rs\<close>): its runs are runs of the original in which nobody
  rewrote an execution ledger, and the execution ledger of a proposal changes only in a call that queues it.
\<close>

theorem eta_only_by_queue:
  "run_calls tes_exec xs s = run_calls te_exec (admitted te_exec not_rewriting xs s) s
   \<and> (map_option et_execute_after (et_Proposal (run_calls tes_exec xs s) i) = map_option et_execute_after (et_Proposal s i)
      \<or> (\<exists>ys e t zs. xs = ys @ (e, ETQueue i t) # zs))"
  using eta_hardened.run_admitted [of xs s] eta_fixed.run_view [where xs = xs and s = s and i = i] by blast

text \<open>
  That is the remaining gap: \<^verbatim>\<open>queue\<close> is open to everybody and does not look whether the proposal exists, so
  queueing again sets any execution ledger, and clears the executed flag: a waiting proposal is executed
  at once, and an executed one a second time.
\<close>

lemma requeue_bypasses_eta:
  "\<exists>s1 s2. tes_queue e i (sequence e) s = Ok s1 \<and> tes_execute e i s1 = Ok s2 \<and> tes_state s2 i = Ok (sequence e, True)"
  by (simp add: te_defs)

section \<open>admin\_timelock\_rewrite\<close>

text \<open>
  The crate assigns the \<^verbatim>\<open>u32\<close> ledger sequence to \<^verbatim>\<open>u64\<close> fields; the model reads that as the widening it
  needs to be. \<^verbatim>\<open>sha256\<close> is the host's hash, a parameter; nothing is assumed of it.
\<close>

record queued_action =
  qa_target :: address
  qa_function_name :: string
  qa_args :: bytes
  qa_queued_at :: int
  qa_delay :: int

record rewrite_timelock = host +
  rt_Admin :: "address option"
  rt_delay :: "int option"
  rt_QueuedAction :: "address \<rightharpoonup> queued_action"

definition tr_initialize :: "env \<Rightarrow> address \<Rightarrow> int \<Rightarrow> rewrite_timelock \<Rightarrow> rewrite_timelock result" where
  "tr_initialize e admin default_delay s =
     panic_if (rt_Admin s \<noteq> None) ''already initialized'' (
     Ok (s\<lparr>rt_Admin := Some admin, rt_delay := Some default_delay\<rparr>))"

definition tr_queue_action ::
    "env \<Rightarrow> address \<Rightarrow> string \<Rightarrow> bytes \<Rightarrow> rewrite_timelock \<Rightarrow> rewrite_timelock result" where
  "tr_queue_action e target function_name args s =
     unwrap (rt_Admin s) (\<lambda>admin.
     require_auth e admin (
     let action = \<lparr>qa_target = target, qa_function_name = function_name, qa_args = args,
                   qa_queued_at = sequence e, qa_delay = unwrap_or (rt_delay s) 86400\<rparr> in
     Ok (s\<lparr>rt_QueuedAction := (rt_QueuedAction s)(target \<mapsto> action)\<rparr>)))"

definition tr_execute_action :: "env \<Rightarrow> address \<Rightarrow> rewrite_timelock \<Rightarrow> rewrite_timelock result" where
  "tr_execute_action e target s =
     unwrap (rt_Admin s) (\<lambda>admin.
     require_auth e admin (
     expect (rt_QueuedAction s target) ''no queued action'' (\<lambda>action.
     arith (checked_add U64 (qa_queued_at action) (qa_delay action)) (\<lambda>t.
     panic_if (sequence e < t) ''timelock not expired'' (
     Ok (publish [''executed''] [VAddr (qa_target action), VStr (qa_function_name action), vbytes (qa_args action)]
          (s\<lparr>rt_QueuedAction := (rt_QueuedAction s)(target := None)\<rparr>)))))))"

definition tr_get_queued_action :: "rewrite_timelock \<Rightarrow> address \<Rightarrow> queued_action option" where
  "tr_get_queued_action s target = rt_QueuedAction s target"

definition tr_get_admin :: "rewrite_timelock \<Rightarrow> address result" where
  "tr_get_admin s = unwrap (rt_Admin s) Ok"

record bound_action = queued_action +
  ba_payload_hash :: bytes
  ba_nonce :: int

record bound_timelock = host +
  bt_Admin :: "address option"
  bt_delay :: "int option"
  bt_QueuedAction :: "address \<times> bytes \<times> int \<rightharpoonup> bound_action"
  bt_ActionNonce :: "address \<rightharpoonup> int"

definition trs_initialize :: "env \<Rightarrow> address \<Rightarrow> int \<Rightarrow> bound_timelock \<Rightarrow> bound_timelock result" where
  "trs_initialize e admin default_delay s =
     panic_if (bt_Admin s \<noteq> None) ''already initialized'' (
     Ok (s\<lparr>bt_Admin := Some admin, bt_delay := Some default_delay\<rparr>))"

text \<open>\<^verbatim>\<open>function_name.to_bytes()\<close> followed by the arguments.\<close>

definition payload_data :: "string \<Rightarrow> bytes \<Rightarrow> bytes" where
  "payload_data function_name args = map of_char function_name @ args"

definition trs_queue_action ::
    "(bytes \<Rightarrow> bytes) \<Rightarrow> env \<Rightarrow> address \<Rightarrow> string \<Rightarrow> bytes \<Rightarrow> bound_timelock \<Rightarrow> bound_timelock result" where
  "trs_queue_action sha256 e target function_name args s =
     unwrap (bt_Admin s) (\<lambda>admin.
     require_auth e admin (
     arith (checked_add U64 (get0 (bt_ActionNonce s) target) 1) (\<lambda>nonce.
     let s1 = s\<lparr>bt_ActionNonce := (bt_ActionNonce s)(target \<mapsto> nonce)\<rparr>;
         payload_hash = sha256 (payload_data function_name args);
         action = \<lparr>qa_target = target, qa_function_name = function_name, qa_args = args,
                   qa_queued_at = sequence e, qa_delay = unwrap_or (bt_delay s) 86400,
                   ba_payload_hash = payload_hash, ba_nonce = nonce\<rparr> in
     Ok (s1\<lparr>bt_QueuedAction := (bt_QueuedAction s1)((target, payload_hash, nonce) \<mapsto> action)\<rparr>))))"

definition trs_execute_action ::
    "(bytes \<Rightarrow> bytes) \<Rightarrow> env \<Rightarrow> address \<Rightarrow> string \<Rightarrow> bytes \<Rightarrow> bound_timelock \<Rightarrow> bound_timelock result" where
  "trs_execute_action sha256 e target function_name args s =
     unwrap (bt_Admin s) (\<lambda>admin.
     require_auth e admin (
     let payload_hash = sha256 (payload_data function_name args);
         nonce = get0 (bt_ActionNonce s) target;
         queue_key = (target, payload_hash, nonce) in
     expect (bt_QueuedAction s queue_key) ''no queued action with matching payload'' (\<lambda>action.
     arith (checked_add U64 (qa_queued_at action) (qa_delay action)) (\<lambda>t.
     panic_if (sequence e < t) ''timelock not expired'' (
     panic_if (ba_payload_hash action \<noteq> payload_hash) ''payload hash mismatch'' (
     panic_if (qa_function_name action \<noteq> function_name \<or> qa_args action \<noteq> args) ''payload content mismatch'' (
     Ok (publish [''executed''] [VAddr (qa_target action), VStr (qa_function_name action), vbytes (qa_args action)]
          (s\<lparr>bt_QueuedAction := (bt_QueuedAction s)(queue_key := None)\<rparr>)))))))))"

definition trs_get_queued_action :: "bound_timelock \<Rightarrow> address \<Rightarrow> bytes \<Rightarrow> int \<Rightarrow> bound_action option" where
  "trs_get_queued_action s target payload_hash nonce = bt_QueuedAction s (target, payload_hash, nonce)"

definition trs_get_admin :: "bound_timelock \<Rightarrow> address result" where
  "trs_get_admin s = unwrap (bt_Admin s) Ok"

datatype bt_call =
    BTInitialize address int
  | BTQueue address string bytes
  | BTExecute address string bytes

fun trs_exec :: "(bytes \<Rightarrow> bytes) \<Rightarrow> env \<Rightarrow> bt_call \<Rightarrow> bound_timelock \<Rightarrow> bound_timelock result" where
  "trs_exec h e (BTInitialize a d) s = trs_initialize e a d s"
| "trs_exec h e (BTQueue t f x) s = trs_queue_action h e t f x s"
| "trs_exec h e (BTExecute t f x) s = trs_execute_action h e t f x s"

lemmas bt_defs = trs_initialize_def trs_queue_action_def trs_execute_action_def Let_def publish_def

text \<open>Initialised with an admin and a delay, and no entry carries a nonce that was not handed out.\<close>

definition bt_ok :: "address \<Rightarrow> int \<Rightarrow> bound_timelock \<Rightarrow> bool" where
  "bt_ok a d s \<longleftrightarrow> bt_Admin s = Some a \<and> bt_delay s = Some d
     \<and> (\<forall>t h n x. bt_QueuedAction s (t, h, n) = Some x \<longrightarrow> n \<le> get0 (bt_ActionNonce s) t)"

definition bt_ready :: "(bytes \<Rightarrow> bytes) \<Rightarrow> address \<Rightarrow> string \<Rightarrow> bytes \<Rightarrow> bound_timelock \<Rightarrow> int option" where
  "bt_ready h t f x s = (case bt_QueuedAction s (t, h (payload_data f x), get0 (bt_ActionNonce s) t) of
     None \<Rightarrow> None
   | Some act \<Rightarrow> if qa_function_name act = f \<and> qa_args act = x then Some (qa_queued_at act + qa_delay act) else None)"

interpretation bound_payload: queued_execution "trs_exec h" "bt_ok a d" "bt_ready h t f x" d
  "\<lambda>e c s. authorized e a \<and> c = BTQueue t f x" "\<lambda>c. c = BTExecute t f x"
  for h a d t f x
proof (unfold_locales, goal_cases)
  case (1 s e c s')
  show ?case
  proof (cases c)
    case (BTQueue u g y)
    with 1 show ?thesis
      by (fastforce simp: bt_defs bt_ok_def result_simps int_simps split: if_splits)
  qed (use 1 in \<open>fastforce simp: bt_defs bt_ok_def result_simps split: if_splits\<close>)+
next
  case (2 s e c s' r)
  show ?case
  proof (cases c)
    case (BTQueue u g y)
    with 2 have "bt_QueuedAction s (t, k, get0 (bt_ActionNonce s) t + 1) = None" for k
      by (fastforce simp: bt_ok_def)
    note fresh = this
    from BTQueue 2 obtain n where n: "n = get0 (bt_ActionNonce s) u + 1" and adm: "authorized e a"
      and nonce: "bt_ActionNonce s' = (bt_ActionNonce s)(u \<mapsto> n)"
      and queue: "bt_QueuedAction s' = (bt_QueuedAction s)((u, h (payload_data g y), n) \<mapsto>
        \<lparr>qa_target = u, qa_function_name = g, qa_args = y, qa_queued_at = sequence e, qa_delay = d,
         ba_payload_hash = h (payload_data g y), ba_nonce = n\<rparr>)"
      by (auto simp: bt_defs bt_ok_def result_simps int_simps)
    show ?thesis
    proof (cases "u = t")
      case True
      then have at: "bt_ready h t f x s' = (case bt_QueuedAction s' (t, h (payload_data f x), n) of None \<Rightarrow> None
          | Some act \<Rightarrow> if qa_function_name act = f \<and> qa_args act = x then Some (qa_queued_at act + qa_delay act) else None)"
        by (simp add: bt_ready_def nonce)
      have old: "bt_QueuedAction s (t, h (payload_data f x), n) = None"
        using fresh n True by simp
      have "f = g \<and> x = y \<and> r = sequence e + d"
        using 2(3) unfolding at queue
        by (cases "h (payload_data f x) = h (payload_data g y)") (auto simp: True old split: if_splits)
      with adm BTQueue True show ?thesis by simp
    next
      case False
      with 2(3) nonce queue show ?thesis
        by (simp add: bt_ready_def)
    qed
  next
    case (BTExecute u g y)
    with 2 obtain k where "bt_ActionNonce s' = bt_ActionNonce s"
      and "bt_QueuedAction s' = (bt_QueuedAction s)(k := None)"
      by (auto simp: bt_defs bt_ok_def result_simps)
    with 2(3) show ?thesis
      by (cases "(t, h (payload_data f x), get0 (bt_ActionNonce s) t) = k") (auto simp: bt_ready_def)
  next
    case (BTInitialize b n)
    with 2 show ?thesis by (simp add: bt_defs bt_ok_def)
  qed
next
  case (3 s e c s')
  then show ?case
    by (auto simp: bt_defs bt_ready_def result_simps int_simps)
qed

text \<open>
  The bound queue (\<^verbatim>\<open>admin_timelock_rewrite/src/secure.rs\<close>): a payload is executed only when exactly that
  function and those arguments were queued for the target, by the admin, at least the delay before. No
  assumption on the hash is needed, since the contents are compared too.
\<close>

theorem executed_payload_was_queued:
  assumes "bt_Admin s = Some a" and "bt_delay s = Some d" and "bt_QueuedAction s = Map.empty"
    and "trs_execute_action h e t f x (run_calls (trs_exec h) xs s) = Ok s'"
  shows "\<exists>ys e' zs. xs = ys @ (e', BTQueue t f x) # zs \<and> authorized e' a \<and> sequence e' + d \<le> sequence e"
  using bound_payload.executed_after_delay [where s = s and h = h and a = a and d = d and t = t and f = f and x = x
      and e = e and c = "BTExecute t f x" and xs = xs and s' = s'] assms
  by (fastforce simp: bt_ok_def bt_ready_def)

definition bt_demo :: bound_timelock where
  "bt_demo = \<lparr>events = [], bt_Admin = Some (Address 2), bt_delay = Some 10, bt_QueuedAction = Map.empty,
     bt_ActionNonce = Map.empty\<rparr>"

definition bt_demo_calls :: "(env \<times> bt_call) list" where
  "bt_demo_calls = [(signed_env [Address 2] 5, BTQueue (Address 7) ''ping'' [])]"

lemma bt_demo_run:
  "\<exists>t. trs_execute_action id (signed_env [Address 2] 15) (Address 7) ''ping'' [] (run_calls (trs_exec id) bt_demo_calls bt_demo)
     = Ok t"
  by (simp add: bt_demo_def bt_demo_calls_def bt_defs checked_add_def checked_def in_range_def signed_env_def)

theorem executed_payload_was_queued_witness:
  "\<exists>ys e' zs. bt_demo_calls = ys @ (e', BTQueue (Address 7) ''ping'' []) # zs \<and> authorized e' (Address 2)
     \<and> sequence e' + 10 \<le> 15"
proof -
  obtain t where t: "trs_execute_action id (signed_env [Address 2] 15) (Address 7) ''ping'' []
      (run_calls (trs_exec id) bt_demo_calls bt_demo) = Ok t"
    using bt_demo_run by blast
  from executed_payload_was_queued [OF _ _ _ t, of "Address 2" 10] show ?thesis
    by (simp add: bt_demo_def signed_env_def)
qed

text \<open>
  Two things the comments do not say. Without the repair, rewriting a queued action restarts its delay:
  the entry carries the ledger of the rewrite. With the repair, queueing another payload for the target
  takes the first one out of reach, since execution looks only under the newest nonce.
\<close>

lemma rewrite_restarts_delay:
  assumes "tr_queue_action e t f x s = Ok s1" and "rt_delay s = Some d" and "in_range U64 (sequence e + d)"
    and "sequence e' < sequence e + d"
  shows "\<exists>err. tr_execute_action e' t s1 = Err err"
  using assms
  by (cases "authorized e' (the (rt_Admin s))")
     (auto simp: tr_queue_action_def tr_execute_action_def result_simps int_simps Let_def)

lemma requeue_shadows:
  assumes ok: "bt_ok a d s" and q: "trs_queue_action h e t g y s = Ok s1" and ne: "(f, x) \<noteq> (g, y)"
  shows "\<exists>err. trs_execute_action h e' t f x s1 = Err err"
proof (cases "trs_execute_action h e' t f x s1")
  case (Inr s2)
  have "bt_QueuedAction s (t, k, get0 (bt_ActionNonce s) t + 1) = None" for k
    using ok by (fastforce simp: bt_ok_def)
  with q Inr ne show ?thesis
    by (auto simp: bt_defs result_simps int_simps split: if_splits)
qed simp

end
