(* ===== verification/Proposals.thy ===== *)
theory Proposals
  imports Soroban_Containers Soroban_Bytes
begin

text \<open>
  Who may act on a proposal, under which identifier it is kept and what it may call:
  \<^verbatim>\<open>src/vulnerable/public_proposal_cancel\<close>, \<^verbatim>\<open>proposal_id_collision\<close> and \<^verbatim>\<open>governance_target_unvalidated\<close>,
  both halves of each. The contracts a governance proposal invokes are outside the crate and a
  parameter of the model.
\<close>

section \<open>public\_proposal\_cancel\<close>

datatype proposal_status = Active | Canceled | Executed

record pc_proposal =
  pc_proposer :: address
  pc_status :: proposal_status

record pc_gov =
  pc_Proposals :: "(int, pc_proposal) smap option"
  pc_Guardian :: "address option"

definition pc_init :: "env \<Rightarrow> address \<Rightarrow> pc_gov \<Rightarrow> pc_gov result" where
  "pc_init e guardian s = Ok (s\<lparr>pc_Guardian := Some guardian, pc_Proposals := Some []\<rparr>)"

definition pc_create_proposal :: "env \<Rightarrow> address \<Rightarrow> int \<Rightarrow> pc_gov \<Rightarrow> pc_gov result" where
  "pc_create_proposal e proposer pid s =
     require_auth e proposer (
     let proposals = unwrap_or (pc_Proposals s) [] in
     Ok (s\<lparr>pc_Proposals := Some (smap_set pid \<lparr>pc_proposer = proposer, pc_status = Active\<rparr> proposals)\<rparr>))"

text \<open>The loop of the scan entry iterates a copy of the map and writes the changed entries back.\<close>

fun cancel_loop :: "(int \<times> pc_proposal) list \<Rightarrow> (int, pc_proposal) smap \<Rightarrow> (int, pc_proposal) smap" where
  "cancel_loop [] proposals = proposals"
| "cancel_loop ((pid, p) # xs) proposals =
     cancel_loop xs (if pc_status p = Active then smap_set pid (p\<lparr>pc_status := Canceled\<rparr>) proposals else proposals)"

definition pc_vulnerable_entry :: "env \<Rightarrow> address \<Rightarrow> int \<Rightarrow> pc_gov \<Rightarrow> pc_gov result" where
  "pc_vulnerable_entry e actor amount s =
     (let proposals = unwrap_or (pc_Proposals s) [] in
      Ok (s\<lparr>pc_Proposals := Some (cancel_loop proposals proposals)\<rparr>))"

definition pc_cancel_vulnerable :: "env \<Rightarrow> address \<Rightarrow> int \<Rightarrow> pc_gov \<Rightarrow> pc_gov result" where
  "pc_cancel_vulnerable e caller proposal_id s =
     unwrap (pc_Proposals s) (\<lambda>proposals.
     unwrap (smap_get proposals proposal_id) (\<lambda>p.
     Ok (s\<lparr>pc_Proposals := Some (smap_set proposal_id (p\<lparr>pc_status := Canceled\<rparr>) proposals)\<rparr>)))"

definition pc_cancel_secure :: "env \<Rightarrow> address \<Rightarrow> int \<Rightarrow> pc_gov \<Rightarrow> pc_gov result" where
  "pc_cancel_secure e caller proposal_id s =
     require_auth e caller (
     unwrap (pc_Proposals s) (\<lambda>proposals.
     unwrap (smap_get proposals proposal_id) (\<lambda>p.
     unwrap (pc_Guardian s) (\<lambda>guardian.
     panic_if (caller \<noteq> pc_proposer p \<and> caller \<noteq> guardian) ''unauthorized: only proposer or guardian can cancel'' (
     Ok (s\<lparr>pc_Proposals := Some (smap_set proposal_id (p\<lparr>pc_status := Canceled\<rparr>) proposals)\<rparr>))))))"

definition pc_get_status :: "pc_gov \<Rightarrow> int \<Rightarrow> proposal_status result" where
  "pc_get_status s proposal_id =
     unwrap (smap_get (unwrap_or (pc_Proposals s) []) proposal_id) (\<lambda>p. Ok (pc_status p))"

datatype pc_call =
    PCInit address
  | PCCreate address int
  | PCCancel address int

text \<open>The contract with the guarded cancellation as its only one.\<close>

fun pcs_exec :: "env \<Rightarrow> pc_call \<Rightarrow> pc_gov \<Rightarrow> pc_gov result" where
  "pcs_exec e (PCInit g) s = pc_init e g s"
| "pcs_exec e (PCCreate a i) s = pc_create_proposal e a i s"
| "pcs_exec e (PCCancel a i) s = pc_cancel_secure e a i s"

lemmas pc_defs = pc_init_def pc_create_proposal_def pc_vulnerable_entry_def pc_cancel_vulnerable_def pc_cancel_secure_def
  pc_get_status_def Let_def

definition pc_find :: "pc_gov \<Rightarrow> int \<Rightarrow> pc_proposal option" where
  "pc_find s i = smap_get (unwrap_or (pc_Proposals s) []) i"

definition pc_ok :: "pc_gov \<Rightarrow> bool" where
  "pc_ok s \<longleftrightarrow> smap_ok (unwrap_or (pc_Proposals s) [])"

interpretation pc_sorted: contract_invariant pcs_exec pc_ok
proof (unfold_locales, goal_cases)
  case (1 s e c s')
  then show ?case
    by (cases c) (auto simp: pc_defs pc_ok_def result_simps smap_ok_set smap_ok_def [of "[]"])
qed

definition pc_canceled :: "pc_gov \<Rightarrow> int \<Rightarrow> bool" where
  "pc_canceled s i \<longleftrightarrow> (\<exists>p. pc_find s i = Some p \<and> pc_status p = Canceled)"

text \<open>Whoever may cancel proposal \<open>i\<close> in state \<open>s\<close> signed the call, and the call cancels it.\<close>

definition cancel_right :: "int \<Rightarrow> env \<Rightarrow> pc_call \<Rightarrow> pc_gov \<Rightarrow> bool" where
  "cancel_right i e c s \<longleftrightarrow> (\<exists>caller p. c = PCCancel caller i \<and> authorized e caller
     \<and> pc_find s i = Some p \<and> (caller = pc_proposer p \<or> pc_Guardian s = Some caller))"

interpretation canceling: guarded_steps pcs_exec
  "\<lambda>s t. pc_ok s \<longrightarrow> pc_ok t \<and> (pc_canceled t i \<longrightarrow> pc_canceled s i)" "cancel_right i"
  for i
proof (unfold_locales, goal_cases)
  case (3 e c s s')
  then have ok: "pc_ok s" and new: "pc_canceled s' i" "\<not> pc_canceled s i"
    using pc_sorted.exec_inv by blast+
  with 3(1) show ?case
    by (cases c)
       (auto simp: pc_defs pc_ok_def pc_canceled_def pc_find_def cancel_right_def result_simps smap.get_put smap.get_empty
        split: if_splits)
qed auto

text \<open>
  The guarded cancellation (\<^verbatim>\<open>cancel_secure\<close>): when a proposal that was not cancelled is cancelled at the end
  of a run, the run has a call that cancels it, signed by the proposer it then had or by the guardian.
\<close>

theorem cancel_by_proposer_or_guardian:
  assumes "pc_ok s" and "\<not> pc_canceled s i" and "pc_canceled (run_calls pcs_exec xs s) i"
  shows "\<exists>ys e c zs. xs = ys @ (e, c) # zs \<and> cancel_right i e c (run_calls pcs_exec ys s)"
  using canceling.run_guard [where s = s and i = i and xs = xs] assms by blast

definition pc_demo_calls :: "(env \<times> pc_call) list" where
  "pc_demo_calls = [(signed_env [] 1, PCInit (Address 8)), (signed_env [Address 5] 2, PCCreate (Address 5) 7),
     (signed_env [Address 6] 3, PCCancel (Address 6) 7), (signed_env [Address 8] 4, PCCancel (Address 8) 7)]"

lemma pc_demo_canceled: "pc_canceled (run_calls pcs_exec pc_demo_calls \<lparr>pc_Proposals = None, pc_Guardian = None\<rparr>) 7"
  by (simp add: pc_demo_calls_def pc_defs pc_canceled_def pc_find_def smap_get_def signed_env_def panic_if_def)

theorem cancel_by_proposer_or_guardian_witness:
  "\<exists>ys e c zs. pc_demo_calls = ys @ (e, c) # zs
     \<and> cancel_right 7 e c (run_calls pcs_exec ys \<lparr>pc_Proposals = None, pc_Guardian = None\<rparr>)"
  by (rule cancel_by_proposer_or_guardian [OF _ _ pc_demo_canceled])
     (simp_all add: pc_ok_def smap_ok_def pc_canceled_def pc_find_def smap_get_def)

text \<open>The unguarded entries: one call by anybody cancels every active proposal.\<close>

lemma cancel_loop_ok: "smap_ok m \<Longrightarrow> smap_ok (cancel_loop xs m)"
  by (induction xs m rule: cancel_loop.induct) (simp_all add: smap_ok_set)

lemma cancel_loop_find:
  assumes "smap_ok m" and "distinct (map fst xs)"
  shows "smap_get (cancel_loop xs m) i = (case map_of xs i of
     Some p \<Rightarrow> if pc_status p = Active then Some (p\<lparr>pc_status := Canceled\<rparr>) else smap_get m i
   | None \<Rightarrow> smap_get m i)"
  using assms
proof (induction xs m rule: cancel_loop.induct)
  case (2 j p xs m)
  then have "map_of xs j = None" by (auto simp: map_of_eq_None_iff)
  with 2 show ?case
    by (auto simp: smap.get_put smap_ok_set split: option.splits)
qed simp

lemma anyone_cancels_all:
  assumes "pc_ok s" and "pc_find s i = Some p"
  shows "\<exists>t. pc_vulnerable_entry e a n s = Ok t \<and> pc_find t i = Some (if pc_status p = Active then p\<lparr>pc_status := Canceled\<rparr> else p)"
proof -
  let ?m = "unwrap_or (pc_Proposals s) []"
  have "distinct (map fst ?m)"
    using assms(1) by (simp add: pc_ok_def smap_ok_def strict_sorted_iff)
  with assms show ?thesis
    using cancel_loop_find [of ?m ?m i] by (simp add: pc_vulnerable_entry_def Let_def pc_find_def pc_ok_def smap_get_def)
qed

text \<open>
  What the guarded cancellation does not stop: creating a proposal under the same identifier, open to
  everybody, replaces its proposer and makes it active again.
\<close>

lemma recreate_takes_over:
  assumes "pc_ok s" and "authorized e a"
  shows "\<exists>t. pc_create_proposal e a i s = Ok t \<and> pc_find t i = Some \<lparr>pc_proposer = a, pc_status = Active\<rparr>"
  using assms by (simp add: pc_defs pc_find_def pc_ok_def smap.get_put)

section \<open>proposal\_id\_collision\<close>

record ic_proposal =
  ic_proposer :: address
  ic_title :: string
  ic_payload :: bytes
  ic_votes :: int

record ic_gov =
  ic_Proposal :: "address \<times> string \<rightharpoonup> ic_proposal"

record ics_gov =
  ics_NextId :: "int option"
  ics_Proposal :: "int \<rightharpoonup> ic_proposal"

definition ic_propose :: "env \<Rightarrow> address \<Rightarrow> string \<Rightarrow> bytes \<Rightarrow> ic_gov \<Rightarrow> ic_gov result" where
  "ic_propose e proposer title payload s =
     (let p = \<lparr>ic_proposer = proposer, ic_title = title, ic_payload = payload, ic_votes = 0\<rparr> in
      Ok (s\<lparr>ic_Proposal := (ic_Proposal s)((proposer, title) \<mapsto> p)\<rparr>))"

definition ic_vote :: "env \<Rightarrow> address \<Rightarrow> string \<Rightarrow> ic_gov \<Rightarrow> ic_gov result" where
  "ic_vote e proposer title s =
     expect (ic_Proposal s (proposer, title)) ''proposal missing'' (\<lambda>p.
     arith (checked_add U32 (ic_votes p) 1) (\<lambda>n.
     Ok (s\<lparr>ic_Proposal := (ic_Proposal s)((proposer, title) \<mapsto> p\<lparr>ic_votes := n\<rparr>)\<rparr>)))"

definition ic_get :: "ic_gov \<Rightarrow> address \<Rightarrow> string \<Rightarrow> ic_proposal result" where
  "ic_get s proposer title = expect (ic_Proposal s (proposer, title)) ''proposal missing'' Ok"

definition ic_vulnerable_entry :: "env \<Rightarrow> address \<Rightarrow> int \<Rightarrow> ic_gov \<Rightarrow> ic_gov result" where
  "ic_vulnerable_entry e actor amount s = ic_propose e actor ''audit'' [word_of_int amount] s"

definition ics_propose :: "env \<Rightarrow> address \<Rightarrow> string \<Rightarrow> bytes \<Rightarrow> ics_gov \<Rightarrow> (int \<times> ics_gov) result" where
  "ics_propose e proposer title payload s =
     (let pid = unwrap_or (ics_NextId s) 0;
          p = \<lparr>ic_proposer = proposer, ic_title = title, ic_payload = payload, ic_votes = 0\<rparr>;
          s1 = s\<lparr>ics_Proposal := (ics_Proposal s)(pid \<mapsto> p)\<rparr> in
      arith (checked_add U64 pid 1) (\<lambda>n. Ok (pid, s1\<lparr>ics_NextId := Some n\<rparr>)))"

definition ics_vote :: "env \<Rightarrow> int \<Rightarrow> ics_gov \<Rightarrow> ics_gov result" where
  "ics_vote e pid s =
     expect (ics_Proposal s pid) ''proposal missing'' (\<lambda>p.
     arith (checked_add U32 (ic_votes p) 1) (\<lambda>n.
     Ok (s\<lparr>ics_Proposal := (ics_Proposal s)(pid \<mapsto> p\<lparr>ic_votes := n\<rparr>)\<rparr>)))"

definition ics_get :: "ics_gov \<Rightarrow> int \<Rightarrow> ic_proposal result" where
  "ics_get s pid = expect (ics_Proposal s pid) ''proposal missing'' Ok"

datatype ics_call = ICPropose address string bytes | ICVote int

fun ics_exec :: "env \<Rightarrow> ics_call \<Rightarrow> ics_gov \<Rightarrow> ics_gov result" where
  "ics_exec e (ICPropose a t p) s = state_of (ics_propose e a t p s)"
| "ics_exec e (ICVote i) s = ics_vote e i s"

lemmas ic_defs = ic_propose_def ic_vote_def ic_get_def ic_vulnerable_entry_def ics_propose_def ics_vote_def ics_get_def Let_def

text \<open>No proposal is stored under an identifier that is still to be handed out.\<close>

definition ids_fresh :: "ics_gov \<Rightarrow> bool" where
  "ids_fresh s \<longleftrightarrow> (\<forall>i p. ics_Proposal s i = Some p \<longrightarrow> i < unwrap_or (ics_NextId s) 0)"

text \<open>The same proposal, with no fewer votes.\<close>

definition carries_on :: "ic_proposal \<Rightarrow> ic_proposal \<Rightarrow> bool" where
  "carries_on p q \<longleftrightarrow> ic_proposer q = ic_proposer p \<and> ic_title q = ic_title p \<and> ic_payload q = ic_payload p
     \<and> ic_votes p \<le> ic_votes q"

interpretation proposals_kept: contract_progress ics_exec
  "\<lambda>s t. ids_fresh s \<longrightarrow> ids_fresh t \<and> (\<forall>i p. ics_Proposal s i = Some p \<longrightarrow> (\<exists>q. ics_Proposal t i = Some q \<and> carries_on p q))"
proof (unfold_locales, goal_cases)
  case (1 s)
  then show ?case by (auto simp: carries_on_def)
next
  case (2 s t u)
  then show ?case by (fastforce simp: carries_on_def)
next
  case (3 e c s s')
  show ?case
  proof (cases c)
    case (ICPropose a t x)
    with 3 have "ids_fresh s \<Longrightarrow> ics_Proposal s (unwrap_or (ics_NextId s) 0) = None"
      by (metis ids_fresh_def less_irrefl not_Some_eq)
    with 3 ICPropose show ?thesis
      by (auto simp: ic_defs ids_fresh_def carries_on_def result_simps int_simps less_Suc_eq)
         (metis less_imp_le order_refl)
  next
    case (ICVote i)
    with 3 show ?thesis
      by (auto simp: ic_defs ids_fresh_def carries_on_def result_simps int_simps split: if_splits)
  qed
qed

text \<open>
  The counter (\<^verbatim>\<open>proposal_id_collision/src/secure.rs\<close>): a proposal keeps its proposer, title and payload in
  every run, its votes never go down, and its identifier is never handed out again.
\<close>

theorem proposals_never_replaced:
  assumes "ids_fresh s" and "ics_Proposal s i = Some p"
  shows "(\<exists>q. ics_Proposal (run_calls ics_exec xs s) i = Some q \<and> carries_on p q)
    \<and> (\<forall>e a t x j s'. ics_propose e a t x (run_calls ics_exec xs s) = Ok (j, s') \<longrightarrow> j \<noteq> i)"
proof -
  have "ids_fresh (run_calls ics_exec xs s) \<and> (\<exists>q. ics_Proposal (run_calls ics_exec xs s) i = Some q \<and> carries_on p q)"
    using proposals_kept.run_le [of s xs] assms by blast
  then show ?thesis
    by (auto simp: ic_defs ids_fresh_def result_simps)
qed

definition ics_demo :: ics_gov where
  "ics_demo = \<lparr>ics_NextId = Some 1, ics_Proposal = [0 \<mapsto>
     \<lparr>ic_proposer = Address 5, ic_title = ''fee'', ic_payload = [], ic_votes = 3\<rparr>]\<rparr>"

theorem proposals_never_replaced_witness:
  "\<exists>q. ics_Proposal (run_calls ics_exec [(signed_env [] 1, ICPropose (Address 5) ''fee'' [7]), (signed_env [] 2, ICVote 0)]
      ics_demo) 0 = Some q \<and> carries_on \<lparr>ic_proposer = Address 5, ic_title = ''fee'', ic_payload = [], ic_votes = 3\<rparr> q"
  by (rule proposals_never_replaced [THEN conjunct1]) (simp_all add: ics_demo_def ids_fresh_def)

text \<open>Keyed by proposer and title, the second proposal takes the place of the first, its votes and payload with it.\<close>

lemma same_title_replaces:
  "\<exists>t. ic_propose e a ttl x s = Ok t \<and>
     ic_get t a ttl = Ok \<lparr>ic_proposer = a, ic_title = ttl, ic_payload = x, ic_votes = 0\<rparr>"
  by (simp add: ic_defs)

section \<open>governance\_target\_unvalidated\<close>

record gt_proposal =
  gt_target :: address
  gt_function :: string
  gt_args :: "sc_val list"

record gt_gov =
  gt_NextId :: "int option"
  gt_Proposal :: "int \<rightharpoonup> gt_proposal"
  gt_Executed :: "int \<rightharpoonup> bool"

record gts_gov =
  gts_NextId :: "int option"
  gts_Proposal :: "int \<rightharpoonup> gt_proposal"
  gts_AllowedTargets :: "address list option"
  gts_AllowedFunctions :: "string list option"

text \<open>
  \<^verbatim>\<open>env.invoke_contract\<close>: what the contract at an address does when one of its functions is called, on the
  state \<open>'w\<close> of everything outside the governance contract.
\<close>

type_synonym 'w invoke = "address \<Rightarrow> string \<Rightarrow> sc_val list \<Rightarrow> 'w \<Rightarrow> (sc_val \<times> 'w) result"

definition gt_propose :: "env \<Rightarrow> gt_proposal \<Rightarrow> gt_gov \<Rightarrow> (int \<times> gt_gov) result" where
  "gt_propose e p s =
     (let pid = unwrap_or (gt_NextId s) 0;
          s1 = s\<lparr>gt_Proposal := (gt_Proposal s)(pid \<mapsto> p)\<rparr> in
      arith (checked_add U64 pid 1) (\<lambda>n. Ok (pid, s1\<lparr>gt_NextId := Some n\<rparr>)))"

definition gt_execute :: "'w invoke \<Rightarrow> env \<Rightarrow> int \<Rightarrow> gt_gov \<times> 'w \<Rightarrow> (sc_val \<times> gt_gov \<times> 'w) result" where
  "gt_execute invoke_contract e proposal_id = (\<lambda>(s, w).
     expect (gt_Proposal s proposal_id) ''proposal missing'' (\<lambda>p.
     and_then (invoke_contract (gt_target p) (gt_function p) (gt_args p) w) (\<lambda>(v, w1).
     Ok (v, s\<lparr>gt_Executed := (gt_Executed s)(proposal_id \<mapsto> True)\<rparr>, w1))))"

definition gt_executed :: "gt_gov \<Rightarrow> int \<Rightarrow> bool" where
  "gt_executed s proposal_id = unwrap_or (gt_Executed s proposal_id) False"

definition gt_vulnerable_entry :: "env \<Rightarrow> address \<Rightarrow> int \<Rightarrow> gt_gov \<Rightarrow> gt_gov result" where
  "gt_vulnerable_entry e actor amount s =
     state_of (gt_propose e \<lparr>gt_target = actor, gt_function = ''ping'', gt_args = []\<rparr> s)"

definition gt_dao_ping :: "env \<Rightarrow> int" where
  "gt_dao_ping e = 7"

definition gt_ping :: "env \<Rightarrow> int" where
  "gt_ping e = 42"

definition gts_allow_target :: "env \<Rightarrow> address \<Rightarrow> gts_gov \<Rightarrow> gts_gov result" where
  "gts_allow_target e target s = Ok (s\<lparr>gts_AllowedTargets := Some (unwrap_or (gts_AllowedTargets s) [] @ [target])\<rparr>)"

definition gts_allow_function :: "env \<Rightarrow> string \<Rightarrow> gts_gov \<Rightarrow> gts_gov result" where
  "gts_allow_function e function_name s =
     Ok (s\<lparr>gts_AllowedFunctions := Some (unwrap_or (gts_AllowedFunctions s) [] @ [function_name])\<rparr>)"

text \<open>A returned \<^verbatim>\<open>ContractError\<close> rolls the invocation back, as a trap does; it is named by its variant.\<close>

definition ensure_allowed :: "gts_gov \<Rightarrow> gt_proposal \<Rightarrow> 'a result \<Rightarrow> 'a result" where
  "ensure_allowed s p k =
     panic_if (gt_target p \<notin> set (unwrap_or (gts_AllowedTargets s) [])) ''TargetNotAllowed'' (
     panic_if (gt_function p \<notin> set (unwrap_or (gts_AllowedFunctions s) [])) ''FunctionNotAllowed'' k)"

definition gts_propose :: "env \<Rightarrow> gt_proposal \<Rightarrow> gts_gov \<Rightarrow> (int \<times> gts_gov) result" where
  "gts_propose e p s =
     ensure_allowed s p (
     let pid = unwrap_or (gts_NextId s) 0;
         s1 = s\<lparr>gts_Proposal := (gts_Proposal s)(pid \<mapsto> p)\<rparr> in
     arith (checked_add U64 pid 1) (\<lambda>n. Ok (pid, s1\<lparr>gts_NextId := Some n\<rparr>)))"

definition gts_execute :: "'w invoke \<Rightarrow> env \<Rightarrow> int \<Rightarrow> gts_gov \<times> 'w \<Rightarrow> (sc_val \<times> gts_gov \<times> 'w) result" where
  "gts_execute invoke_contract e proposal_id = (\<lambda>(s, w).
     expect (gts_Proposal s proposal_id) ''proposal missing'' (\<lambda>p.
     ensure_allowed s p (
     and_then (invoke_contract (gt_target p) (gt_function p) (gt_args p) w) (\<lambda>(v, w1).
     Ok (v, s, w1)))))"

datatype gt_call =
    GAllowTarget address
  | GAllowFunction string
  | GPropose gt_proposal
  | GExecute int

definition keep_world :: "'s result \<Rightarrow> 'w \<Rightarrow> ('s \<times> 'w) result" where
  "keep_world r w = and_then r (\<lambda>s. Ok (s, w))"

fun gts_exec :: "'w invoke \<Rightarrow> env \<Rightarrow> gt_call \<Rightarrow> gts_gov \<times> 'w \<Rightarrow> (gts_gov \<times> 'w) result" where
  "gts_exec f e (GAllowTarget a) (s, w) = keep_world (gts_allow_target e a s) w"
| "gts_exec f e (GAllowFunction g) (s, w) = keep_world (gts_allow_function e g s) w"
| "gts_exec f e (GPropose p) (s, w) = keep_world (state_of (gts_propose e p s)) w"
| "gts_exec f e (GExecute i) (s, w) = state_of (gts_execute f e i (s, w))"

lemmas gt_defs = gts_allow_target_def gts_allow_function_def ensure_allowed_def gts_propose_def gts_execute_def
  keep_world_def Let_def

text \<open>The call executes a stored proposal whose target and function are both on the lists.\<close>

definition permitted_call :: "env \<Rightarrow> gt_call \<Rightarrow> gts_gov \<times> 'w \<Rightarrow> bool" where
  "permitted_call e c st \<longleftrightarrow> (\<exists>i p. c = GExecute i \<and> gts_Proposal (fst st) i = Some p
     \<and> gt_target p \<in> set (unwrap_or (gts_AllowedTargets (fst st)) [])
     \<and> gt_function p \<in> set (unwrap_or (gts_AllowedFunctions (fst st)) []))"

interpretation outside_calls: guarded_view "gts_exec f" snd permitted_call
  for f
proof (unfold_locales, goal_cases)
  case (1 e c s s')
  then show ?case
    by (cases c; cases s) (auto simp: gt_defs permitted_call_def result_simps)
qed

text \<open>
  The allow lists (\<^verbatim>\<open>governance_target_unvalidated/src/secure.rs\<close>): whatever the other contracts do, a run
  that changes anything outside the governance contract contains the execution of a proposal whose target
  and function were both allowed when it ran.
\<close>

theorem only_allowed_targets_called:
  assumes "w' \<noteq> w" and "run_calls (gts_exec f) xs (s, w) = (s', w')"
  shows "\<exists>ys e c zs. xs = ys @ (e, c) # zs \<and> permitted_call e c (run_calls (gts_exec f) ys (s, w))"
  using outside_calls.run_view [where f = f and xs = xs and s = "(s, w)"] assms by simp

definition count_invoke :: "nat invoke" where
  "count_invoke a g xs w = Ok (VInt 42, Suc w)"

definition gts_demo_calls :: "(env \<times> gt_call) list" where
  "gts_demo_calls = [(signed_env [] 1, GAllowTarget (Address 9)), (signed_env [] 2, GAllowFunction ''ping''),
     (signed_env [] 3, GPropose \<lparr>gt_target = Address 9, gt_function = ''ping'', gt_args = []\<rparr>), (signed_env [] 4, GExecute 0)]"

definition gts_empty :: gts_gov where
  "gts_empty = \<lparr>gts_NextId = None, gts_Proposal = Map.empty, gts_AllowedTargets = None, gts_AllowedFunctions = None\<rparr>"

lemma gts_demo_run: "\<exists>s. run_calls (gts_exec count_invoke) gts_demo_calls (gts_empty, 0) = (s, 1)"
  by (simp add: gts_demo_calls_def gts_empty_def gt_defs count_invoke_def checked_add_def checked_def in_range_def)

theorem only_allowed_targets_called_witness:
  "\<exists>ys e c zs. gts_demo_calls = ys @ (e, c) # zs
     \<and> permitted_call e c (run_calls (gts_exec count_invoke) ys (gts_empty, 0))"
proof -
  obtain s where "run_calls (gts_exec count_invoke) gts_demo_calls (gts_empty, 0) = (s, 1)"
    using gts_demo_run by blast
  then show ?thesis
    by (rule only_allowed_targets_called [rotated]) simp
qed

text \<open>
  What the lists do not give: anybody may extend them, and the repaired execution no longer records that
  a proposal was executed, so an allowed proposal can be executed any number of times.
\<close>

lemma anyone_allows: "\<exists>t. gts_allow_target e a s = Ok t \<and> a \<in> set (unwrap_or (gts_AllowedTargets t) [])"
  by (simp add: gts_allow_target_def)

lemma execution_repeats:
  "gts_execute f e i (s, w) = Ok (v, s', w') \<Longrightarrow> s' = s"
  by (auto simp: gt_defs result_simps)

end
