(* ===== verification/Marketplaces.thy ===== *)
theory Marketplaces
  imports Soroban_Bytes
begin

text \<open>
  The marketplace crates under \<^verbatim>\<open>src/vulnerable/\<close>, both halves of each: \<^verbatim>\<open>buy_without_listing\<close>,
  \<^verbatim>\<open>canceled_listing_fillable\<close>, \<^verbatim>\<open>listing_price_signature_gap\<close>, \<^verbatim>\<open>seller_self_purchase\<close>,
  \<^verbatim>\<open>royalty_discount_miscalc\<close>, \<^verbatim>\<open>royalty_recipient_mutable\<close> and \<^verbatim>\<open>nft_operator_collection_mixup\<close>. Shown: tokens are
  sold only as listed by their owner, an order is closed once, settlements split the price exactly, the
  recipient of a royalty is the one of the listing, and a token moves only by its owner or an operator
  approved for it. The hash and the XDR encoding of an address are parameters.
\<close>

section \<open>buy\_without\_listing\<close>

record listing =
  l_seller :: address
  l_price :: int

record market =
  mk_Owner :: "int \<rightharpoonup> address"
  mk_Balance :: "address \<rightharpoonup> int"
  mk_Listing :: "int \<rightharpoonup> listing"

definition bl_mint :: "env \<Rightarrow> address \<Rightarrow> int \<Rightarrow> market \<Rightarrow> market result" where
  "bl_mint e owner token_id s = Ok (s\<lparr>mk_Owner := (mk_Owner s)(token_id \<mapsto> owner)\<rparr>)"

definition bl_fund :: "env \<Rightarrow> address \<Rightarrow> int \<Rightarrow> market \<Rightarrow> market result" where
  "bl_fund e buyer amount s =
     arith (checked_add I128 (get0 (mk_Balance s) buyer) amount) (\<lambda>n.
     Ok (s\<lparr>mk_Balance := (mk_Balance s)(buyer \<mapsto> n)\<rparr>))"

text \<open>The payment both halves make: the buyer's balance is written before the seller's is read.\<close>

definition pay_seller :: "address \<Rightarrow> address \<Rightarrow> int \<Rightarrow> market \<Rightarrow> (market \<Rightarrow> 'a result) \<Rightarrow> 'a result" where
  "pay_seller buyer seller price s k =
     panic_if (get0 (mk_Balance s) buyer < price) ''insufficient funds'' (
     arith (checked_sub I128 (get0 (mk_Balance s) buyer) price) (\<lambda>b.
     let s1 = s\<lparr>mk_Balance := (mk_Balance s)(buyer \<mapsto> b)\<rparr> in
     arith (checked_add I128 (get0 (mk_Balance s1) seller) price) (\<lambda>n.
     k (s1\<lparr>mk_Balance := (mk_Balance s1)(seller \<mapsto> n)\<rparr>))))"

definition bl_buy :: "env \<Rightarrow> address \<Rightarrow> int \<Rightarrow> address \<Rightarrow> int \<Rightarrow> market \<Rightarrow> market result" where
  "bl_buy e buyer token_id seller price s =
     require_auth e buyer (
     expect (mk_Owner s token_id) ''token not found'' (\<lambda>owner.
     panic_if (owner \<noteq> seller) ''seller mismatch'' (
     pay_seller buyer seller price s (\<lambda>s1.
     Ok (s1\<lparr>mk_Owner := (mk_Owner s1)(token_id \<mapsto> buyer)\<rparr>)))))"

definition bl_owner_of :: "market \<Rightarrow> int \<Rightarrow> address option" where
  "bl_owner_of s token_id = mk_Owner s token_id"

definition bl_balance_of :: "market \<Rightarrow> address \<Rightarrow> int" where
  "bl_balance_of s account = get0 (mk_Balance s) account"

definition bls_mint :: "env \<Rightarrow> address \<Rightarrow> int \<Rightarrow> market \<Rightarrow> market result" where
  "bls_mint e owner token_id s = Ok (s\<lparr>mk_Owner := (mk_Owner s)(token_id \<mapsto> owner)\<rparr>)"

definition bls_fund :: "env \<Rightarrow> address \<Rightarrow> int \<Rightarrow> market \<Rightarrow> market result" where
  "bls_fund e buyer amount s =
     arith (checked_add I128 (get0 (mk_Balance s) buyer) amount) (\<lambda>n.
     Ok (s\<lparr>mk_Balance := (mk_Balance s)(buyer \<mapsto> n)\<rparr>))"

definition bls_list :: "env \<Rightarrow> address \<Rightarrow> int \<Rightarrow> int \<Rightarrow> market \<Rightarrow> market result" where
  "bls_list e seller token_id price s =
     require_auth e seller (
     expect (mk_Owner s token_id) ''token not found'' (\<lambda>owner.
     panic_if (owner \<noteq> seller) ''not owner'' (
     Ok (s\<lparr>mk_Listing := (mk_Listing s)(token_id \<mapsto> \<lparr>l_seller = seller, l_price = price\<rparr>)\<rparr>))))"

definition bls_buy :: "env \<Rightarrow> address \<Rightarrow> int \<Rightarrow> int \<Rightarrow> market \<Rightarrow> market result" where
  "bls_buy e buyer token_id max_price s =
     require_auth e buyer (
     expect (mk_Listing s token_id) ''no active listing'' (\<lambda>l.
     panic_if (max_price < l_price l) ''price too low'' (
     pay_seller buyer (l_seller l) (l_price l) s (\<lambda>s1.
     let s2 = s1\<lparr>mk_Owner := (mk_Owner s1)(token_id \<mapsto> buyer)\<rparr> in
     Ok (s2\<lparr>mk_Listing := (mk_Listing s2)(token_id := None)\<rparr>)))))"

definition bls_owner_of :: "market \<Rightarrow> int \<Rightarrow> address option" where
  "bls_owner_of s token_id = mk_Owner s token_id"

definition bls_balance_of :: "market \<Rightarrow> address \<Rightarrow> int" where
  "bls_balance_of s account = get0 (mk_Balance s) account"

datatype market_call =
    MMint address int
  | MFund address int
  | MList address int int
  | MBuy address int int

fun bls_exec :: "env \<Rightarrow> market_call \<Rightarrow> market \<Rightarrow> market result" where
  "bls_exec e (MMint a t) s = bls_mint e a t s"
| "bls_exec e (MFund a n) s = bls_fund e a n s"
| "bls_exec e (MList a t p) s = bls_list e a t p s"
| "bls_exec e (MBuy a t p) s = bls_buy e a t p s"

lemmas bl_defs = bls_mint_def bls_fund_def bls_list_def bls_buy_def pay_seller_def Let_def

text \<open>A listing in the store was made by a call of its seller, signed while the seller owned the token.\<close>

definition lists_as :: "int \<Rightarrow> env \<Rightarrow> market_call \<Rightarrow> market \<Rightarrow> listing option \<Rightarrow> bool" where
  "lists_as t e c s v \<longleftrightarrow> (case v of None \<Rightarrow> True
     | Some l \<Rightarrow> c = MList (l_seller l) t (l_price l) \<and> authorized e (l_seller l) \<and> mk_Owner s t = Some (l_seller l))"

interpretation listed: written_view bls_exec "\<lambda>s. mk_Listing s t" "lists_as t"
  for t
proof (unfold_locales, goal_cases)
  case (1 e c s s')
  then show ?case
    by (cases c) (auto simp: bl_defs lists_as_def result_simps split: if_splits option.splits)
qed

interpretation ownership: guarded_view bls_exec "\<lambda>s. mk_Owner s t"
  "\<lambda>e c s. (\<exists>a. c = MMint a t) \<or> (\<exists>a p. c = MBuy a t p \<and> authorized e a \<and> mk_Listing s t \<noteq> None)"
  for t
proof (unfold_locales, goal_cases)
  case (1 e c s s')
  then show ?case
    by (cases c) (auto simp: bl_defs result_simps split: if_splits)
qed

text \<open>What a purchase does: the buyer pays the listed price to the seller and has the token, and the listing is gone.\<close>

lemma bls_buy_effect:
  assumes "bls_buy e b t m s = Ok s'"
  obtains l where "mk_Listing s t = Some l" "authorized e b" "l_price l \<le> m" "mk_Owner s' t = Some b" "mk_Listing s' t = None"
    "b \<noteq> l_seller l \<Longrightarrow> bls_balance_of s' b = bls_balance_of s b - l_price l
        \<and> bls_balance_of s' (l_seller l) = bls_balance_of s (l_seller l) + l_price l"
    "l_price l \<le> bls_balance_of s b"
  using assms by (auto simp: bl_defs result_simps int_simps bls_balance_of_def)

text \<open>
  The repaired market (\<^verbatim>\<open>buy_without_listing/src/secure.rs\<close>), started without listings: a purchase that
  succeeds goes back to an earlier call in which the token's owner of that time signed a listing, at a price
  not above the buyer's limit; that price moves from the buyer to that seller.
\<close>

theorem sold_only_as_listed:
  assumes none: "mk_Listing s t = None" and buy: "bls_buy e b t m (run_calls bls_exec xs s) = Ok s'"
  shows "\<exists>ys e' a p zs. xs = ys @ (e', MList a t p) # zs \<and> authorized e' a \<and> mk_Owner (run_calls bls_exec ys s) t = Some a
     \<and> p \<le> m \<and> mk_Owner s' t = Some b
     \<and> (b \<noteq> a \<longrightarrow> bls_balance_of s' b = bls_balance_of (run_calls bls_exec xs s) b - p
                   \<and> bls_balance_of s' a = bls_balance_of (run_calls bls_exec xs s) a + p)"
proof -
  obtain l where l: "mk_Listing (run_calls bls_exec xs s) t = Some l" "l_price l \<le> m" "mk_Owner s' t = Some b"
    "b \<noteq> l_seller l \<Longrightarrow> bls_balance_of s' b = bls_balance_of (run_calls bls_exec xs s) b - l_price l
        \<and> bls_balance_of s' (l_seller l) = bls_balance_of (run_calls bls_exec xs s) (l_seller l) + l_price l"
    using bls_buy_effect [OF buy] by metis
  obtain ys e' c zs where "xs = ys @ (e', c) # zs" "lists_as t e' c (run_calls bls_exec ys s) (Some l)"
    using listed.run_writes [where s = s and t = t and xs = xs] l(1) none by auto
  with l show ?thesis by (fastforce simp: lists_as_def)
qed

definition market_calls :: "(env \<times> market_call) list" where
  "market_calls = [(signed_env [] 1, MMint (Address 5) 7), (signed_env [] 2, MFund (Address 6) 500),
     (signed_env [Address 5] 3, MList (Address 5) 7 300)]"

definition market_empty :: market where
  "market_empty = \<lparr>mk_Owner = Map.empty, mk_Balance = Map.empty, mk_Listing = Map.empty\<rparr>"

lemma market_demo_buy: "\<exists>s'. bls_buy (signed_env [Address 6] 4) (Address 6) 7 300 (run_calls bls_exec market_calls market_empty) = Ok s'"
  by (simp add: market_calls_def market_empty_def bl_defs checked_add_def checked_sub_def checked_def in_range_def signed_env_def)

theorem sold_only_as_listed_witness:
  "\<exists>ys e' a p zs. market_calls = ys @ (e', MList a 7 p) # zs \<and> authorized e' a \<and> p \<le> 300"
proof -
  obtain s' where "bls_buy (signed_env [Address 6] 4) (Address 6) 7 300 (run_calls bls_exec market_calls market_empty) = Ok s'"
    using market_demo_buy by blast
  from sold_only_as_listed [OF _ this] show ?thesis
    by (simp add: market_empty_def) blast
qed

text \<open>Without the repair the buyer takes any token from its owner, for nothing.\<close>

lemma taken_without_listing:
  assumes "mk_Owner s t = Some a" and "authorized e b" and "get0 (mk_Balance s) b = 0" and "get0 (mk_Balance s) a = 0"
  shows "\<exists>s'. bl_buy e b t a 0 s = Ok s' \<and> bl_owner_of s' t = Some b \<and> bl_balance_of s' a = 0"
  using assms by (simp add: bl_buy_def pay_seller_def bl_owner_of_def bl_balance_of_def Let_def int_simps)

text \<open>
  What remains: minting is open and overwrites. A token minted again keeps its listing, so the old
  seller is paid for a token that the new owner loses.
\<close>

lemma stale_listing_sells:
  assumes "mk_Listing s t = Some \<lparr>l_seller = a, l_price = p\<rparr>" and "authorized e b" and "p \<le> get0 (mk_Balance s) b"
    and "in_range I128 (get0 (mk_Balance s) b - p)" and "in_range I128 (get0 (mk_Balance s) a + p)" and "a \<noteq> b"
  shows "\<exists>s1 s2. bls_mint e c t s = Ok s1 \<and> bls_owner_of s1 t = Some c \<and> bls_buy e b t p s1 = Ok s2
     \<and> bls_owner_of s2 t = Some b \<and> bls_balance_of s2 a = bls_balance_of s a + p"
  using assms by (simp add: bl_defs int_simps bls_owner_of_def bls_balance_of_def)

section \<open>canceled\_listing\_fillable\<close>

record order_book =
  ob_ActiveOrder :: "int \<rightharpoonup> listing"
  ob_CanceledOrder :: "int \<rightharpoonup> bool"
  ob_Filled :: "int \<rightharpoonup> bool"

definition co_create_order :: "env \<Rightarrow> address \<Rightarrow> int \<Rightarrow> int \<Rightarrow> order_book \<Rightarrow> order_book result" where
  "co_create_order e seller order_id price s =
     require_auth e seller (
     panic_if (ob_ActiveOrder s order_id \<noteq> None) ''order already exists'' (
     Ok (s\<lparr>ob_ActiveOrder := (ob_ActiveOrder s)(order_id \<mapsto> \<lparr>l_seller = seller, l_price = price\<rparr>)\<rparr>)))"

definition co_cancel :: "env \<Rightarrow> address \<Rightarrow> int \<Rightarrow> order_book \<Rightarrow> order_book result" where
  "co_cancel e seller order_id s =
     require_auth e seller (
     expect (ob_ActiveOrder s order_id) ''order not found'' (\<lambda>ord.
     panic_if (l_seller ord \<noteq> seller) ''only the seller can cancel'' (
     Ok (s\<lparr>ob_CanceledOrder := (ob_CanceledOrder s)(order_id \<mapsto> True)\<rparr>))))"

definition co_fill_order :: "env \<Rightarrow> address \<Rightarrow> int \<Rightarrow> order_book \<Rightarrow> (int \<times> order_book) result" where
  "co_fill_order e buyer order_id s =
     require_auth e buyer (
     expect (ob_ActiveOrder s order_id) ''order not found'' (\<lambda>ord.
     let s1 = s\<lparr>ob_Filled := (ob_Filled s)(order_id \<mapsto> True)\<rparr> in
     Ok (l_price ord, s1\<lparr>ob_ActiveOrder := (ob_ActiveOrder s1)(order_id := None)\<rparr>)))"

definition co_is_filled :: "order_book \<Rightarrow> int \<Rightarrow> bool" where
  "co_is_filled s order_id = unwrap_or (ob_Filled s order_id) False"

definition co_is_canceled :: "order_book \<Rightarrow> int \<Rightarrow> bool" where
  "co_is_canceled s order_id = unwrap_or (ob_CanceledOrder s order_id) False"

datatype order_status = OActive | OCanceled | OFilled

record status_book =
  sb_Order :: "int \<rightharpoonup> listing"
  sb_OrderStatus :: "int \<rightharpoonup> order_status"

definition cos_create_order :: "env \<Rightarrow> address \<Rightarrow> int \<Rightarrow> int \<Rightarrow> status_book \<Rightarrow> status_book result" where
  "cos_create_order e seller order_id price s =
     require_auth e seller (
     panic_if (sb_Order s order_id \<noteq> None) ''order already exists'' (
     let s1 = s\<lparr>sb_Order := (sb_Order s)(order_id \<mapsto> \<lparr>l_seller = seller, l_price = price\<rparr>)\<rparr> in
     Ok (s1\<lparr>sb_OrderStatus := (sb_OrderStatus s1)(order_id \<mapsto> OActive)\<rparr>)))"

definition cos_cancel :: "env \<Rightarrow> address \<Rightarrow> int \<Rightarrow> status_book \<Rightarrow> status_book result" where
  "cos_cancel e seller order_id s =
     require_auth e seller (
     expect (sb_Order s order_id) ''order not found'' (\<lambda>ord.
     panic_if (l_seller ord \<noteq> seller) ''only the seller can cancel'' (
     expect (sb_OrderStatus s order_id) ''status not found'' (\<lambda>status.
     panic_if (status \<noteq> OActive) ''order is not active'' (
     Ok (s\<lparr>sb_OrderStatus := (sb_OrderStatus s)(order_id \<mapsto> OCanceled)\<rparr>))))))"

definition cos_fill_order :: "env \<Rightarrow> address \<Rightarrow> int \<Rightarrow> status_book \<Rightarrow> (int \<times> status_book) result" where
  "cos_fill_order e buyer order_id s =
     require_auth e buyer (
     expect (sb_OrderStatus s order_id) ''order not found'' (\<lambda>status.
     panic_if (status \<noteq> OActive) ''order is not active'' (
     expect (sb_Order s order_id) ''order data missing'' (\<lambda>ord.
     Ok (l_price ord, s\<lparr>sb_OrderStatus := (sb_OrderStatus s)(order_id \<mapsto> OFilled)\<rparr>)))))"

definition cos_is_filled :: "status_book \<Rightarrow> int \<Rightarrow> bool" where
  "cos_is_filled s order_id = unwrap_or (map_option (\<lambda>st. st = OFilled) (sb_OrderStatus s order_id)) False"

definition cos_is_canceled :: "status_book \<Rightarrow> int \<Rightarrow> bool" where
  "cos_is_canceled s order_id = unwrap_or (map_option (\<lambda>st. st = OCanceled) (sb_OrderStatus s order_id)) False"

datatype order_call =
    OCreate address int int
  | OCancel address int
  | OFill address int

fun co_exec :: "env \<Rightarrow> order_call \<Rightarrow> order_book \<Rightarrow> order_book result" where
  "co_exec e (OCreate a i p) s = co_create_order e a i p s"
| "co_exec e (OCancel a i) s = co_cancel e a i s"
| "co_exec e (OFill a i) s = state_of (co_fill_order e a i s)"

fun cos_exec :: "env \<Rightarrow> order_call \<Rightarrow> status_book \<Rightarrow> status_book result" where
  "cos_exec e (OCreate a i p) s = cos_create_order e a i p s"
| "cos_exec e (OCancel a i) s = cos_cancel e a i s"
| "cos_exec e (OFill a i) s = state_of (cos_fill_order e a i s)"

lemmas co_defs = cos_create_order_def cos_cancel_def cos_fill_order_def cos_is_filled_def cos_is_canceled_def
  co_create_order_def co_cancel_def co_fill_order_def co_is_filled_def co_is_canceled_def Let_def

text \<open>The order a call closes, by filling or by cancelling it, and the orders that are closed.\<close>

fun closes :: "order_call \<Rightarrow> int option" where
  "closes (OCreate a i p) = None"
| "closes (OCancel a i) = Some i"
| "closes (OFill a i) = Some i"

definition closed_order :: "status_book \<Rightarrow> int \<Rightarrow> bool" where
  "closed_order s i \<longleftrightarrow> sb_Order s i \<noteq> None \<and> sb_OrderStatus s i \<noteq> Some OActive"

lemma closed_by_call:
  assumes "cos_exec e c s = Ok s'"
  shows "closes c = Some i \<Longrightarrow> \<not> closed_order s i" and "closed_order s' i \<longleftrightarrow> closed_order s i \<or> closes c = Some i"
  using assms by (cases c; auto simp: co_defs closed_order_def result_simps split: if_splits)+

interpretation order_once: single_use cos_exec closes closed_order
  by unfold_locales (auto simp: closed_by_call)

text \<open>
  One status per order (\<^verbatim>\<open>canceled_listing_fillable/src/secure.rs\<close>): in any run an order is filled or
  cancelled at most once in all, so one that was cancelled is never filled, nor the other way round; and an
  order that is closed at the start stays untouched.
\<close>

theorem order_closed_once:
  "distinct (List.map_filter closes (successes cos_exec xs s))
   \<and> (\<forall>i\<in>set (List.map_filter closes (successes cos_exec xs s)). \<not> closed_order s i)"
  by (rule order_once.keys_once)

definition book_calls :: "(env \<times> order_call) list" where
  "book_calls = [(signed_env [Address 5] 1, OCreate (Address 5) 3 100), (signed_env [Address 5] 2, OCancel (Address 5) 3),
     (signed_env [Address 6] 3, OFill (Address 6) 3)]"

theorem order_closed_once_witness:
  "List.map_filter closes (successes cos_exec book_calls \<lparr>sb_Order = Map.empty, sb_OrderStatus = Map.empty\<rparr>) = [3]
   \<and> \<not> closed_order \<lparr>sb_Order = Map.empty, sb_OrderStatus = Map.empty\<rparr> 3"
proof -
  have run: "List.map_filter closes (successes cos_exec book_calls \<lparr>sb_Order = Map.empty, sb_OrderStatus = Map.empty\<rparr>) = [3]"
    by (simp add: book_calls_def co_defs signed_env_def List.map_filter_def)
  with order_closed_once [of book_calls "\<lparr>sb_Order = Map.empty, sb_OrderStatus = Map.empty\<rparr>"] show ?thesis by simp
qed

text \<open>Without the repair, what the seller cancelled is still sold.\<close>

lemma canceled_still_filled:
  assumes "ob_ActiveOrder s i = Some l" and "authorized e (l_seller l)" and "authorized e b"
  shows "\<exists>s1 s2. co_cancel e (l_seller l) i s = Ok s1 \<and> co_is_canceled s1 i \<and> co_fill_order e b i s1 = Ok (l_price l, s2)
     \<and> co_is_filled s2 i"
  using assms by (simp add: co_defs)

section \<open>listing\_price\_signature\_gap\<close>

type_synonym sha = "bytes \<Rightarrow> bytes"
type_synonym xdr = "address \<Rightarrow> bytes"

record signed_market =
  sg_Owner :: "int \<rightharpoonup> address"
  sg_Balance :: "address \<rightharpoonup> int"
  sg_FillCount :: "int \<rightharpoonup> int"

definition vulnerable_listing_digest :: "sha \<Rightarrow> xdr \<Rightarrow> int \<Rightarrow> address \<Rightarrow> bytes" where
  "vulnerable_listing_digest sha256 to_xdr nft_id seller = sha256 (be_bytes 8 nft_id @ to_xdr seller)"

definition lp_mint :: "env \<Rightarrow> address \<Rightarrow> int \<Rightarrow> signed_market \<Rightarrow> signed_market result" where
  "lp_mint e owner nft_id s = Ok (s\<lparr>sg_Owner := (sg_Owner s)(nft_id \<mapsto> owner)\<rparr>)"

definition lp_fund :: "env \<Rightarrow> address \<Rightarrow> int \<Rightarrow> signed_market \<Rightarrow> signed_market result" where
  "lp_fund e buyer amount s =
     arith (checked_add I128 (get0 (sg_Balance s) buyer) amount) (\<lambda>n.
     Ok (s\<lparr>sg_Balance := (sg_Balance s)(buyer \<mapsto> n)\<rparr>))"

text \<open>The sale both halves end with: check the owner, move the price, move the token.\<close>

definition complete_sale ::
    "address \<Rightarrow> address \<Rightarrow> int \<Rightarrow> int \<Rightarrow> signed_market \<Rightarrow> (signed_market \<Rightarrow> signed_market result) \<Rightarrow> signed_market result" where
  "complete_sale buyer seller nft_id price s k =
     expect (sg_Owner s nft_id) ''token not found'' (\<lambda>owner.
     panic_if (owner \<noteq> seller) ''seller mismatch'' (
     panic_if (get0 (sg_Balance s) buyer < price) ''insufficient funds'' (
     arith (checked_sub I128 (get0 (sg_Balance s) buyer) price) (\<lambda>b.
     let s1 = s\<lparr>sg_Balance := (sg_Balance s)(buyer \<mapsto> b)\<rparr> in
     arith (checked_add I128 (get0 (sg_Balance s1) seller) price) (\<lambda>n.
     let s2 = s1\<lparr>sg_Balance := (sg_Balance s1)(seller \<mapsto> n)\<rparr> in
     k (s2\<lparr>sg_Owner := (sg_Owner s2)(nft_id \<mapsto> buyer)\<rparr>))))))"

definition lp_fill_listing ::
    "env \<Rightarrow> address \<Rightarrow> address \<Rightarrow> int \<Rightarrow> int \<Rightarrow> bytes \<Rightarrow> signed_market \<Rightarrow> signed_market result" where
  "lp_fill_listing e buyer seller nft_id price sig s =
     require_auth e buyer (
     complete_sale buyer seller nft_id price s (\<lambda>s1.
     arith (checked_add U32 (get0 (sg_FillCount s1) nft_id) 1) (\<lambda>n.
     Ok (s1\<lparr>sg_FillCount := (sg_FillCount s1)(nft_id \<mapsto> n)\<rparr>))))"

definition lp_owner_of :: "signed_market \<Rightarrow> int \<Rightarrow> address option" where
  "lp_owner_of s nft_id = sg_Owner s nft_id"

definition lp_balance_of :: "signed_market \<Rightarrow> address \<Rightarrow> int" where
  "lp_balance_of s account = get0 (sg_Balance s) account"

definition lp_listing_digest :: "sha \<Rightarrow> xdr \<Rightarrow> int \<Rightarrow> address \<Rightarrow> bytes" where
  "lp_listing_digest sha256 to_xdr nft_id seller = vulnerable_listing_digest sha256 to_xdr nft_id seller"

definition listing_message :: "xdr \<Rightarrow> address \<Rightarrow> int \<Rightarrow> address \<Rightarrow> int \<Rightarrow> int \<Rightarrow> bytes" where
  "listing_message to_xdr contract_id nft_id seller price expiry_ledger =
     to_xdr contract_id @ be_bytes 8 nft_id @ to_xdr seller @ be_bytes 16 price @ be_bytes 4 expiry_ledger"

definition secure_listing_digest :: "sha \<Rightarrow> xdr \<Rightarrow> address \<Rightarrow> int \<Rightarrow> address \<Rightarrow> int \<Rightarrow> int \<Rightarrow> bytes" where
  "secure_listing_digest sha256 to_xdr contract_id nft_id seller price expiry_ledger =
     sha256 (listing_message to_xdr contract_id nft_id seller price expiry_ledger)"

definition make_test_sig :: "sha \<Rightarrow> xdr \<Rightarrow> address \<Rightarrow> int \<Rightarrow> address \<Rightarrow> int \<Rightarrow> int \<Rightarrow> bytes" where
  "make_test_sig sha256 to_xdr contract_id nft_id seller price expiry_ledger =
     secure_listing_digest sha256 to_xdr contract_id nft_id seller price expiry_ledger @ replicate 32 0"

definition lps_mint :: "env \<Rightarrow> address \<Rightarrow> int \<Rightarrow> signed_market \<Rightarrow> signed_market result" where
  "lps_mint e owner nft_id s = Ok (s\<lparr>sg_Owner := (sg_Owner s)(nft_id \<mapsto> owner)\<rparr>)"

definition lps_fund :: "env \<Rightarrow> address \<Rightarrow> int \<Rightarrow> signed_market \<Rightarrow> signed_market result" where
  "lps_fund e buyer amount s =
     arith (checked_add I128 (get0 (sg_Balance s) buyer) amount) (\<lambda>n.
     Ok (s\<lparr>sg_Balance := (sg_Balance s)(buyer \<mapsto> n)\<rparr>))"

definition lps_fill_listing ::
    "sha \<Rightarrow> xdr \<Rightarrow> env \<Rightarrow> address \<Rightarrow> address \<Rightarrow> int \<Rightarrow> int \<Rightarrow> bytes \<Rightarrow> int \<Rightarrow> signed_market \<Rightarrow> signed_market result" where
  "lps_fill_listing sha256 to_xdr e buyer seller nft_id price sig expiry_ledger s =
     require_auth e buyer (
     panic_if (sequence e > expiry_ledger) ''listing expired'' (
     let expected_digest = secure_listing_digest sha256 to_xdr (current_contract e) nft_id seller price expiry_ledger in
     panic_if (take 32 sig \<noteq> expected_digest) ''price mismatch'' (
     complete_sale buyer seller nft_id price s Ok)))"

definition lps_owner_of :: "signed_market \<Rightarrow> int \<Rightarrow> address option" where
  "lps_owner_of s nft_id = sg_Owner s nft_id"

definition lps_balance_of :: "signed_market \<Rightarrow> address \<Rightarrow> int" where
  "lps_balance_of s account = get0 (sg_Balance s) account"

lemmas lp_defs = lp_fill_listing_def lps_fill_listing_def complete_sale_def lps_owner_of_def lps_balance_of_def
  make_test_sig_def Let_def

text \<open>The signed message determines the contract, the token, the seller, the price and the deadline.\<close>

lemma listing_message_inject:
  assumes eq: "listing_message x c i a p d = listing_message x c' i' a' p' d'"
    and x: "inj x" "length (x c) = length (x c')" "length (x a) = length (x a')"
    and r: "in_range U64 i" "in_range U64 i'" "in_range I128 p" "in_range I128 p'" "in_range U32 d" "in_range U32 d'"
  shows "c = c' \<and> i = i' \<and> a = a' \<and> p = p' \<and> d = d'"
proof -
  have b: "x c = x c'" "be_bytes 8 i = be_bytes 8 i'" "x a = x a'" "be_bytes 16 p = be_bytes 16 p'" "be_bytes 4 d = be_bytes 4 d'"
    using eq x(2,3) by (auto simp: listing_message_def)
  have "i = i'" "d = d'"
    using r by (auto simp: in_range_unsigned intro: be_bytes_inject_unsigned [OF b(2)] be_bytes_inject_unsigned [OF b(5)])
  moreover have "p = p'"
    using be_bytes_inject [OF b(4)] r by simp
  ultimately show ?thesis
    using b x(1) by (auto dest: injD)
qed

text \<open>
  The bound digest (\<^verbatim>\<open>listing_price_signature_gap/src/secure.rs\<close>): two sales accepted with the same signature
  are for the same contract, token, seller, price and deadline, unless the hash collides on the two messages.
\<close>

theorem signature_binds_price:
  assumes "lps_fill_listing h x e b a i p sig d s = Ok t" and "lps_fill_listing h x e' b' a' i' p' sig d' s' = Ok t'"
    and "inj x" and "length (x a) = length (x a')" and "length (x (current_contract e)) = length (x (current_contract e'))"
    and "in_range U64 i" "in_range U64 i'" "in_range I128 p" "in_range I128 p'" "in_range U32 d" "in_range U32 d'"
  shows "(current_contract e = current_contract e' \<and> i = i' \<and> a = a' \<and> p = p' \<and> d = d')
    \<or> (listing_message x (current_contract e) i a p d \<noteq> listing_message x (current_contract e') i' a' p' d'
        \<and> h (listing_message x (current_contract e) i a p d) = h (listing_message x (current_contract e') i' a' p' d'))"
proof -
  let ?m = "listing_message x (current_contract e) i a p d" and ?m' = "listing_message x (current_contract e') i' a' p' d'"
  have "h ?m = h ?m'"
    using assms(1,2) by (simp add: lp_defs secure_listing_digest_def result_simps)
  with listing_message_inject [of x _ i a p d _ i' a' p' d'] assms(3-) show ?thesis
    by (cases "?m = ?m'") blast+
qed

text \<open>
  But the \<open>signature\<close> is the bare hash of public data, not made with a key of the seller: whoever computes it
  buys any token at the price of his choice, with nothing signed by the seller.
\<close>

theorem listing_signature_forgeable:
  assumes owner: "sg_Owner s i = Some a" and auth: "authorized e b" and time: "sequence e \<le> d"
    and hash: "\<forall>m. length (h m) = 32" and funds: "0 \<le> p" "p \<le> get0 (sg_Balance s) b" "get0 (sg_Balance s) b \<le> ity_max I128"
    and room: "in_range I128 (get0 (sg_Balance s) a + p)" and ne: "a \<noteq> b"
  shows "\<exists>t. lps_fill_listing h x e b a i p (make_test_sig h x (current_contract e) i a p d) d s = Ok t \<and> lps_owner_of t i = Some b"
proof -
  have "in_range I128 (get0 (sg_Balance s) b - p)"
    using funds by (auto simp: in_range_def)
  with assms show ?thesis
    by (simp add: lp_defs secure_listing_digest_def int_simps)
qed

text \<open>For the examples: a hash of 32 bytes (the message padded and cut) and an injective encoding of addresses.\<close>

definition pad_hash :: sha where
  "pad_hash m = take 32 (m @ replicate 32 0)"

definition unary_xdr :: xdr where
  "unary_xdr a = replicate (addr_id a) 0"

lemma length_pad_hash: "length (pad_hash m) = 32"
  by (simp add: pad_hash_def min_def)

lemma inj_unary_xdr: "inj unary_xdr"
  by (rule injI) (metis address.expand length_replicate unary_xdr_def)

definition sale_demo :: signed_market where
  "sale_demo = \<lparr>sg_Owner = [7 \<mapsto> Address 5], sg_Balance = [Address 6 \<mapsto> 10], sg_FillCount = Map.empty\<rparr>"

abbreviation demo_sig :: bytes where
  "demo_sig \<equiv> make_test_sig pad_hash unary_xdr (Address 99) 7 (Address 5) 1 100"

lemma sale_demo_env: "current_contract (signed_env [Address 6] 4) = Address 99" "sequence (signed_env [Address 6] 4) = 4"
    "authorized (signed_env [Address 6] 4) (Address 6)"
  by (simp_all add: signed_env_def)

lemma sale_demo_fill:
  "\<exists>t. lps_fill_listing pad_hash unary_xdr (signed_env [Address 6] n) (Address 6) (Address 5) 7 1 demo_sig 100 sale_demo = Ok t"
  if "n \<le> 100"
  using that
  by (simp add: lp_defs secure_listing_digest_def sale_demo_def length_pad_hash signed_env_def checked_add_def checked_sub_def
      checked_def in_range_def)

theorem signature_binds_price_witness:
  "current_contract (signed_env [Address 6] 4) = current_contract (signed_env [Address 6] 5)"
proof -
  obtain t t' where "lps_fill_listing pad_hash unary_xdr (signed_env [Address 6] 4) (Address 6) (Address 5) 7 1 demo_sig 100 sale_demo = Ok t"
    and "lps_fill_listing pad_hash unary_xdr (signed_env [Address 6] 5) (Address 6) (Address 5) 7 1 demo_sig 100 sale_demo = Ok t'"
    using sale_demo_fill [of 4] sale_demo_fill [of 5] by auto
  from signature_binds_price [OF this inj_unary_xdr] show ?thesis
    by (simp add: in_range_def signed_env_def)
qed

theorem listing_signature_forgeable_witness:
  "\<exists>t. lps_fill_listing pad_hash unary_xdr (signed_env [Address 6] 4) (Address 6) (Address 5) 7 1 demo_sig 100 sale_demo = Ok t
     \<and> lps_owner_of t 7 = Some (Address 6)"
  unfolding sale_demo_env(1) [symmetric]
  by (rule listing_signature_forgeable) (simp_all add: sale_demo_env sale_demo_def length_pad_hash in_range_def)

section \<open>seller\_self\_purchase\<close>

record wash_market =
  wm_Listing :: "int \<rightharpoonup> listing"
  wm_Rewards :: "address \<rightharpoonup> int"
  wm_TotalVolume :: "int option"

definition ss_list :: "env \<Rightarrow> address \<Rightarrow> int \<Rightarrow> int \<Rightarrow> wash_market \<Rightarrow> wash_market result" where
  "ss_list e seller listing_id price s =
     require_auth e seller (
     panic_if (price \<le> 0) ''price must be positive'' (
     Ok (s\<lparr>wm_Listing := (wm_Listing s)(listing_id \<mapsto> \<lparr>l_seller = seller, l_price = price\<rparr>)\<rparr>)))"

definition reward_sale :: "address \<Rightarrow> int \<Rightarrow> listing \<Rightarrow> wash_market \<Rightarrow> (int \<times> wash_market) result" where
  "reward_sale buyer listing_id l s =
     arith (checked_add I128 (get0 (wm_Rewards s) buyer) (l_price l)) (\<lambda>r.
     let s1 = s\<lparr>wm_Rewards := (wm_Rewards s)(buyer \<mapsto> r)\<rparr> in
     arith (checked_add I128 (unwrap_or (wm_TotalVolume s1) 0) (l_price l)) (\<lambda>v.
     let s2 = s1\<lparr>wm_TotalVolume := Some v\<rparr> in
     Ok (l_price l, s2\<lparr>wm_Listing := (wm_Listing s2)(listing_id := None)\<rparr>)))"

definition ss_buy :: "env \<Rightarrow> address \<Rightarrow> int \<Rightarrow> wash_market \<Rightarrow> (int \<times> wash_market) result" where
  "ss_buy e buyer listing_id s =
     require_auth e buyer (
     expect (wm_Listing s listing_id) ''listing not found'' (\<lambda>l.
     reward_sale buyer listing_id l s))"

definition ss_rewards :: "wash_market \<Rightarrow> address \<Rightarrow> int" where
  "ss_rewards s addr = get0 (wm_Rewards s) addr"

definition ss_total_volume :: "wash_market \<Rightarrow> int" where
  "ss_total_volume s = unwrap_or (wm_TotalVolume s) 0"

definition sss_list :: "env \<Rightarrow> address \<Rightarrow> int \<Rightarrow> int \<Rightarrow> wash_market \<Rightarrow> wash_market result" where
  "sss_list e seller listing_id price s =
     require_auth e seller (
     panic_if (price \<le> 0) ''price must be positive'' (
     Ok (s\<lparr>wm_Listing := (wm_Listing s)(listing_id \<mapsto> \<lparr>l_seller = seller, l_price = price\<rparr>)\<rparr>)))"

definition sss_buy :: "env \<Rightarrow> address \<Rightarrow> int \<Rightarrow> wash_market \<Rightarrow> (int \<times> wash_market) result" where
  "sss_buy e buyer listing_id s =
     require_auth e buyer (
     expect (wm_Listing s listing_id) ''listing not found'' (\<lambda>l.
     panic_if (buyer = l_seller l) ''seller cannot buy their own listing'' (
     reward_sale buyer listing_id l s)))"

definition sss_rewards :: "wash_market \<Rightarrow> address \<Rightarrow> int" where
  "sss_rewards s addr = get0 (wm_Rewards s) addr"

definition sss_total_volume :: "wash_market \<Rightarrow> int" where
  "sss_total_volume s = unwrap_or (wm_TotalVolume s) 0"

datatype wash_call = WList address int int | WBuy address int

fun ss_exec :: "env \<Rightarrow> wash_call \<Rightarrow> wash_market \<Rightarrow> wash_market result" where
  "ss_exec e (WList a i p) s = ss_list e a i p s"
| "ss_exec e (WBuy a i) s = state_of (ss_buy e a i s)"

fun sss_exec :: "env \<Rightarrow> wash_call \<Rightarrow> wash_market \<Rightarrow> wash_market result" where
  "sss_exec e (WList a i p) s = sss_list e a i p s"
| "sss_exec e (WBuy a i) s = state_of (sss_buy e a i s)"

lemmas ss_defs = ss_list_def ss_buy_def sss_list_def sss_buy_def reward_sale_def Let_def

fun other_buyer :: "env \<Rightarrow> wash_call \<Rightarrow> wash_market \<Rightarrow> bool" where
  "other_buyer e (WList a i p) s = True"
| "other_buyer e (WBuy a i) s = (\<forall>l. wm_Listing s i = Some l \<longrightarrow> l_seller l \<noteq> a)"

interpretation wash_hardened: hardened ss_exec sss_exec other_buyer
proof (unfold_locales, goal_cases)
  case (1 e c s s')
  show ?case by (cases c) (auto simp: ss_defs result_simps)
qed

text \<open>Points are created only for volume: the points of all accounts add up to the volume traded.\<close>

definition volume_backed :: "wash_market \<Rightarrow> bool" where
  "volume_backed s \<longleftrightarrow> finite (dom (wm_Rewards s)) \<and> sum_bal (wm_Rewards s) = ss_total_volume s"

interpretation ss_volume: contract_invariant ss_exec volume_backed
proof (unfold_locales, goal_cases)
  case (1 s e c s')
  then show ?case
    by (cases c) (auto simp: ss_defs volume_backed_def ss_total_volume_def result_simps int_simps sum_bal_update)
qed

text \<open>
  Both halves of \<^verbatim>\<open>seller_self_purchase\<close>: in every run the reward points of all accounts add up to the recorded
  volume, and the repaired half runs as the other does on the purchases whose buyer is not the seller.
\<close>

theorem rewards_equal_volume:
  assumes "wm_Rewards s = Map.empty" and "wm_TotalVolume s = None"
  shows "sum_bal (wm_Rewards (run_calls ss_exec xs s)) = ss_total_volume (run_calls ss_exec xs s)
    \<and> sum_bal (wm_Rewards (run_calls sss_exec xs s)) = sss_total_volume (run_calls sss_exec xs s)
    \<and> run_calls sss_exec xs s = run_calls ss_exec (admitted ss_exec other_buyer xs s) s"
proof -
  have "volume_backed s"
    using assms by (simp add: volume_backed_def ss_total_volume_def)
  then have "volume_backed (run_calls ss_exec ys s)" for ys
    by (rule ss_volume.run_inv)
  then show ?thesis
    using wash_hardened.run_admitted [of xs s] by (simp add: volume_backed_def ss_total_volume_def sss_total_volume_def)
qed

theorem rewards_equal_volume_witness:
  "sum_bal (wm_Rewards (run_calls sss_exec [(signed_env [Address 5] 1, WList (Address 5) 1 40),
      (signed_env [Address 6] 2, WBuy (Address 6) 1)] \<lparr>wm_Listing = Map.empty, wm_Rewards = Map.empty, wm_TotalVolume = None\<rparr>)) = 40"
  by (simp add: rewards_equal_volume [THEN conjunct2, THEN conjunct1] sss_total_volume_def ss_defs signed_env_def checked_add_def
      checked_def in_range_def sum_bal_update)

section \<open>royalty\_discount\_miscalc\<close>

record royalty_market = host +
  ry_CreatorRoyalty :: "int option"
  ry_SellerProceeds :: "int option"

text \<open>The arguments both settlements refuse, and the two accumulators they write.\<close>

definition settle_args :: "int \<Rightarrow> int \<Rightarrow> int \<Rightarrow> 'a result \<Rightarrow> 'a result" where
  "settle_args sale_price rebate royalty_bps k =
     panic_if (sale_price \<le> 0) ''sale_price must be positive'' (
     panic_if (rebate < 0 \<or> rebate \<ge> sale_price) ''invalid rebate'' (
     panic_if (royalty_bps < 0 \<or> royalty_bps > 10000) ''royalty_bps out of range'' k))"

definition record_settlement ::
    "int \<Rightarrow> int \<Rightarrow> int \<Rightarrow> int \<Rightarrow> royalty_market \<Rightarrow> (int \<times> royalty_market) result" where
  "record_settlement sale_price rebate royalty seller_proceeds s =
     arith (checked_add I128 (unwrap_or (ry_CreatorRoyalty s) 0) royalty) (\<lambda>c.
     let s1 = s\<lparr>ry_CreatorRoyalty := Some c\<rparr> in
     arith (checked_add I128 (unwrap_or (ry_SellerProceeds s1) 0) seller_proceeds) (\<lambda>p.
     Ok (royalty, publish [''settled''] [VInt sale_price, VInt rebate, VInt royalty]
           (s1\<lparr>ry_SellerProceeds := Some p\<rparr>))))"

definition rd_settle :: "env \<Rightarrow> int \<Rightarrow> int \<Rightarrow> int \<Rightarrow> royalty_market \<Rightarrow> (int \<times> royalty_market) result" where
  "rd_settle e sale_price rebate royalty_bps s =
     settle_args sale_price rebate royalty_bps (
     arith (checked_sub I128 sale_price rebate) (\<lambda>net.
     arith (checked_mul I128 net royalty_bps) (\<lambda>m.
     arith (checked_div I128 m 10000) (\<lambda>royalty.
     arith (checked_sub I128 net royalty) (\<lambda>seller_proceeds.
     record_settlement sale_price rebate royalty seller_proceeds s)))))"

definition rd_creator_royalty :: "royalty_market \<Rightarrow> int" where
  "rd_creator_royalty s = unwrap_or (ry_CreatorRoyalty s) 0"

definition rd_seller_proceeds :: "royalty_market \<Rightarrow> int" where
  "rd_seller_proceeds s = unwrap_or (ry_SellerProceeds s) 0"

definition rds_settle :: "env \<Rightarrow> int \<Rightarrow> int \<Rightarrow> int \<Rightarrow> royalty_market \<Rightarrow> (int \<times> royalty_market) result" where
  "rds_settle e sale_price rebate royalty_bps s =
     settle_args sale_price rebate royalty_bps (
     arith (checked_mul I128 sale_price royalty_bps) (\<lambda>m.
     arith (checked_div I128 m 10000) (\<lambda>royalty.
     arith (checked_sub I128 sale_price royalty) (\<lambda>d.
     arith (checked_sub I128 d rebate) (\<lambda>seller_proceeds.
     record_settlement sale_price rebate royalty seller_proceeds s)))))"

definition rds_creator_royalty :: "royalty_market \<Rightarrow> int" where
  "rds_creator_royalty s = unwrap_or (ry_CreatorRoyalty s) 0"

definition rds_seller_proceeds :: "royalty_market \<Rightarrow> int" where
  "rds_seller_proceeds s = unwrap_or (ry_SellerProceeds s) 0"

lemmas rd_defs = rd_settle_def rds_settle_def settle_args_def record_settlement_def rds_creator_royalty_def
  rds_seller_proceeds_def rd_creator_royalty_def rd_seller_proceeds_def Let_def publish_def

datatype royalty_call = Settle int int int

fun rds_exec :: "env \<Rightarrow> royalty_call \<Rightarrow> royalty_market \<Rightarrow> royalty_market result" where
  "rds_exec e (Settle p r b) s = state_of (rds_settle e p r b s)"

fun paid_price :: "env \<Rightarrow> royalty_call \<Rightarrow> royalty_market \<Rightarrow> int" where
  "paid_price e (Settle p r b) s = p - r"

fun gross_royalty :: "env \<Rightarrow> royalty_call \<Rightarrow> royalty_market \<Rightarrow> int" where
  "gross_royalty e (Settle p r b) s = p * b div 10000"

interpretation price_split: conserved_flow rds_exec "\<lambda>s. True" "\<lambda>s. rds_creator_royalty s + rds_seller_proceeds s" paid_price
proof (unfold_locales, goal_cases)
  case (2 s e c s')
  then show ?case by (cases c) (auto simp: rd_defs result_simps int_simps)
qed simp

interpretation royalty_on_gross: conserved_flow rds_exec "\<lambda>s. True" rds_creator_royalty gross_royalty
proof (unfold_locales, goal_cases)
  case (1 s e c s')
  then show ?case
    by (cases c) (auto simp: rd_defs result_simps int_simps sdiv_nonneg_eq)
qed

text \<open>
  The repaired settlement (\<^verbatim>\<open>royalty_discount_miscalc/src/secure.rs\<close>), over any run: what creator and seller
  are owed adds up to what the buyers paid, and the creator is owed the agreed share of the gross prices,
  rounded down per sale, whatever rebates were given.
\<close>

theorem settlements_split_price:
  "rds_creator_royalty (run_calls rds_exec xs s) + rds_seller_proceeds (run_calls rds_exec xs s)
     = rds_creator_royalty s + rds_seller_proceeds s + run_flow rds_exec paid_price xs s
   \<and> rds_creator_royalty (run_calls rds_exec xs s) = rds_creator_royalty s + run_flow rds_exec gross_royalty xs s"
  using price_split.run_conserves [where s = s and xs = xs] royalty_on_gross.run_conserves [where s = s and xs = xs] by simp

text \<open>Royalty and rebate are not bounded together: the seller can end up owing.\<close>

lemma seller_can_owe:
  "\<exists>s. rds_settle e 1000 500 10000 \<lparr>events = [], ry_CreatorRoyalty = None, ry_SellerProceeds = None\<rparr> = Ok (1000, s)
     \<and> rds_seller_proceeds s = - 500"
  by (simp add: rd_defs checked_add_def checked_sub_def checked_mul_def checked_div_def checked_def in_range_def signed_divide_int_def)

lemma rebate_cuts_royalty:
  "\<exists>s. rd_settle e 1000 500 1000 \<lparr>events = [], ry_CreatorRoyalty = None, ry_SellerProceeds = None\<rparr> = Ok (50, s)"
  "\<exists>s. rds_settle e 1000 500 1000 \<lparr>events = [], ry_CreatorRoyalty = None, ry_SellerProceeds = None\<rparr> = Ok (100, s)"
  by (simp_all add: rd_defs checked_add_def checked_sub_def checked_mul_def checked_div_def checked_def in_range_def signed_divide_int_def)

section \<open>royalty\_recipient\_mutable\<close>

record royalty_listing = listing +
  rl_royalty_bps :: int

record snap_listing = royalty_listing +
  rl_royalty_recipient :: address

record 'l recipient_market =
  rm_RoyaltyRecipient :: "address option"
  rm_Listing :: "int \<rightharpoonup> 'l"
  rm_RoyaltiesPaid :: "int option"

definition rm_set_royalty_recipient ::
    "env \<Rightarrow> address \<Rightarrow> address \<Rightarrow> royalty_listing recipient_market \<Rightarrow> royalty_listing recipient_market result" where
  "rm_set_royalty_recipient e seller recipient s = require_auth e seller (Ok (s\<lparr>rm_RoyaltyRecipient := Some recipient\<rparr>))"

definition rm_create_listing ::
    "env \<Rightarrow> address \<Rightarrow> int \<Rightarrow> int \<Rightarrow> int \<Rightarrow> royalty_listing recipient_market \<Rightarrow> royalty_listing recipient_market result" where
  "rm_create_listing e seller listing_id price royalty_bps s =
     require_auth e seller (
     panic_if (royalty_bps < 0 \<or> royalty_bps > 10000) ''invalid royalty bps'' (
     Ok (s\<lparr>rm_Listing := (rm_Listing s)(listing_id \<mapsto>
       \<lparr>l_seller = seller, l_price = price, rl_royalty_bps = royalty_bps\<rparr>)\<rparr>)))"

definition rm_settle ::
    "env \<Rightarrow> address \<Rightarrow> int \<Rightarrow> royalty_listing recipient_market \<Rightarrow> (address \<times> royalty_listing recipient_market) result" where
  "rm_settle e buyer listing_id s =
     require_auth e buyer (
     expect (rm_Listing s listing_id) ''listing not found'' (\<lambda>l.
     expect (rm_RoyaltyRecipient s) ''royalty recipient not set'' (\<lambda>royalty_recipient.
     arith (checked_mul I128 (l_price l) (rl_royalty_bps l)) (\<lambda>m.
     arith (checked_div I128 m 10000) (\<lambda>royalty.
     arith (checked_add I128 (unwrap_or (rm_RoyaltiesPaid s) 0) royalty) (\<lambda>n.
     let s1 = s\<lparr>rm_RoyaltiesPaid := Some n\<rparr> in
     Ok (royalty_recipient, s1\<lparr>rm_Listing := (rm_Listing s1)(listing_id := None)\<rparr>)))))))"

definition rm_royalties_paid :: "'l recipient_market \<Rightarrow> int" where
  "rm_royalties_paid s = unwrap_or (rm_RoyaltiesPaid s) 0"

definition rms_set_royalty_recipient ::
    "env \<Rightarrow> address \<Rightarrow> address \<Rightarrow> snap_listing recipient_market \<Rightarrow> snap_listing recipient_market result" where
  "rms_set_royalty_recipient e seller recipient s = require_auth e seller (Ok (s\<lparr>rm_RoyaltyRecipient := Some recipient\<rparr>))"

definition rms_create_listing ::
    "env \<Rightarrow> address \<Rightarrow> int \<Rightarrow> int \<Rightarrow> int \<Rightarrow> snap_listing recipient_market \<Rightarrow> snap_listing recipient_market result" where
  "rms_create_listing e seller listing_id price royalty_bps s =
     require_auth e seller (
     panic_if (royalty_bps < 0 \<or> royalty_bps > 10000) ''invalid royalty bps'' (
     expect (rm_RoyaltyRecipient s) ''royalty recipient not configured'' (\<lambda>royalty_recipient.
     Ok (s\<lparr>rm_Listing := (rm_Listing s)(listing_id \<mapsto>
       \<lparr>l_seller = seller, l_price = price, rl_royalty_bps = royalty_bps, rl_royalty_recipient = royalty_recipient\<rparr>)\<rparr>))))"

definition rms_settle ::
    "env \<Rightarrow> address \<Rightarrow> int \<Rightarrow> snap_listing recipient_market \<Rightarrow> (address \<times> snap_listing recipient_market) result" where
  "rms_settle e buyer listing_id s =
     require_auth e buyer (
     expect (rm_Listing s listing_id) ''listing not found'' (\<lambda>l.
     arith (checked_mul I128 (l_price l) (rl_royalty_bps l)) (\<lambda>m.
     arith (checked_div I128 m 10000) (\<lambda>royalty.
     arith (checked_add I128 (unwrap_or (rm_RoyaltiesPaid s) 0) royalty) (\<lambda>n.
     let s1 = s\<lparr>rm_RoyaltiesPaid := Some n\<rparr> in
     Ok (rl_royalty_recipient l, s1\<lparr>rm_Listing := (rm_Listing s1)(listing_id := None)\<rparr>))))))"

definition rms_royalties_paid :: "snap_listing recipient_market \<Rightarrow> int" where
  "rms_royalties_paid s = unwrap_or (rm_RoyaltiesPaid s) 0"

datatype recipient_call =
    RSetRecipient address address
  | RCreate address int int int
  | RSettle address int

fun rms_exec :: "env \<Rightarrow> recipient_call \<Rightarrow> snap_listing recipient_market \<Rightarrow> snap_listing recipient_market result" where
  "rms_exec e (RSetRecipient a r) s = rms_set_royalty_recipient e a r s"
| "rms_exec e (RCreate a i p b) s = rms_create_listing e a i p b s"
| "rms_exec e (RSettle a i) s = state_of (rms_settle e a i s)"

lemmas rm_defs = rms_set_royalty_recipient_def rms_create_listing_def rms_settle_def rms_royalties_paid_def Let_def

definition writes_listing ::
    "int \<Rightarrow> env \<Rightarrow> recipient_call \<Rightarrow> snap_listing recipient_market \<Rightarrow> snap_listing option \<Rightarrow> bool" where
  "writes_listing i e c s v \<longleftrightarrow> (case v of None \<Rightarrow> True
     | Some l \<Rightarrow> c = RCreate (l_seller l) i (l_price l) (rl_royalty_bps l) \<and> authorized e (l_seller l)
         \<and> rm_RoyaltyRecipient s = Some (rl_royalty_recipient l))"

interpretation snapshotted: written_view rms_exec "\<lambda>s. rm_Listing s i" "writes_listing i"
  for i
proof (unfold_locales, goal_cases)
  case (1 e c s s')
  then show ?case
    by (cases c) (auto simp: rm_defs writes_listing_def result_simps split: if_splits option.splits)
qed

text \<open>
  The snapshot (\<^verbatim>\<open>royalty_recipient_mutable/src/secure.rs\<close>): the address a settlement pays is the recipient that was
  configured when the seller created the listing, whatever was configured since.
\<close>

theorem royalty_to_recipient_at_listing:
  assumes "rm_Listing s i = None" and "rms_settle e b i (run_calls rms_exec xs s) = Ok (r, s')"
  shows "\<exists>ys e' a p bps zs. xs = ys @ (e', RCreate a i p bps) # zs \<and> authorized e' a
     \<and> rm_RoyaltyRecipient (run_calls rms_exec ys s) = Some r"
proof -
  obtain l where l: "rm_Listing (run_calls rms_exec xs s) i = Some l" "r = rl_royalty_recipient l"
    using assms(2) by (auto simp: rm_defs result_simps)
  obtain ys e' c zs where "xs = ys @ (e', c) # zs" "writes_listing i e' c (run_calls rms_exec ys s) (Some l)"
    using snapshotted.run_writes [where s = s and i = i and xs = xs] l(1) assms(1) by auto
  with l(2) show ?thesis by (fastforce simp: writes_listing_def)
qed

definition recipient_calls :: "(env \<times> recipient_call) list" where
  "recipient_calls = [(signed_env [Address 5] 1, RSetRecipient (Address 5) (Address 8)),
     (signed_env [Address 5] 2, RCreate (Address 5) 3 1000 500), (signed_env [Address 5] 3, RSetRecipient (Address 5) (Address 9))]"

definition recipient_empty :: "snap_listing recipient_market" where
  "recipient_empty = \<lparr>rm_RoyaltyRecipient = None, rm_Listing = Map.empty, rm_RoyaltiesPaid = None\<rparr>"

theorem royalty_to_recipient_at_listing_witness:
  "\<exists>ys e' a p bps zs. recipient_calls = ys @ (e', RCreate a 3 p bps) # zs \<and> authorized e' a
     \<and> rm_RoyaltyRecipient (run_calls rms_exec ys recipient_empty) = Some (Address 8)"
proof -
  have "\<exists>s'. rms_settle (signed_env [Address 6] 9) (Address 6) 3 (run_calls rms_exec recipient_calls recipient_empty) = Ok (Address 8, s')"
    by (simp add: recipient_calls_def recipient_empty_def rm_defs signed_env_def checked_add_def checked_mul_def checked_div_def
        checked_def in_range_def signed_divide_int_def)
  then obtain s' where "rms_settle (signed_env [Address 6] 9) (Address 6) 3 (run_calls rms_exec recipient_calls recipient_empty)
      = Ok (Address 8, s')" ..
  from royalty_to_recipient_at_listing [OF _ this] show ?thesis
    by (simp add: recipient_empty_def)
qed

section \<open>nft\_operator\_collection\_mixup\<close>

record nft =
  nf_Owner :: "int \<rightharpoonup> address"
  nf_Approval :: "address \<times> address \<rightharpoonup> bool"

record scoped_nft =
  sn_Owner :: "int \<rightharpoonup> address"
  sn_Approval :: "address \<times> address \<times> int \<rightharpoonup> bool"

definition no_mint :: "env \<Rightarrow> address \<Rightarrow> int \<Rightarrow> nft \<Rightarrow> nft result" where
  "no_mint e owner token_id s =
     panic_if (nf_Owner s token_id \<noteq> None) ''token already exists'' (
     Ok (s\<lparr>nf_Owner := (nf_Owner s)(token_id \<mapsto> owner)\<rparr>))"

definition no_approve :: "env \<Rightarrow> address \<Rightarrow> address \<Rightarrow> nft \<Rightarrow> nft result" where
  "no_approve e owner operator s =
     require_auth e owner (Ok (s\<lparr>nf_Approval := (nf_Approval s)((owner, operator) \<mapsto> True)\<rparr>))"

definition no_transfer_from :: "env \<Rightarrow> address \<Rightarrow> address \<Rightarrow> address \<Rightarrow> int \<Rightarrow> nft \<Rightarrow> nft result" where
  "no_transfer_from e caller from to token_id s =
     require_auth e caller (
     expect (nf_Owner s token_id) ''token does not exist'' (\<lambda>owner.
     panic_if (owner \<noteq> from) ''from is not the token owner'' (
     let approved = unwrap_or (nf_Approval s (from, caller)) False in
     panic_if (caller \<noteq> owner \<and> \<not> approved) ''caller is not owner or approved operator'' (
     Ok (s\<lparr>nf_Owner := (nf_Owner s)(token_id \<mapsto> to)\<rparr>)))))"

definition no_owner_of :: "nft \<Rightarrow> int \<Rightarrow> address result" where
  "no_owner_of s token_id = expect (nf_Owner s token_id) ''token does not exist'' Ok"

definition nos_mint :: "env \<Rightarrow> address \<Rightarrow> int \<Rightarrow> scoped_nft \<Rightarrow> scoped_nft result" where
  "nos_mint e owner token_id s =
     panic_if (sn_Owner s token_id \<noteq> None) ''token already exists'' (
     Ok (s\<lparr>sn_Owner := (sn_Owner s)(token_id \<mapsto> owner)\<rparr>))"

definition nos_approve :: "env \<Rightarrow> address \<Rightarrow> address \<Rightarrow> int \<Rightarrow> scoped_nft \<Rightarrow> scoped_nft result" where
  "nos_approve e owner operator token_id s =
     require_auth e owner (Ok (s\<lparr>sn_Approval := (sn_Approval s)((owner, operator, token_id) \<mapsto> True)\<rparr>))"

definition nos_transfer_from :: "env \<Rightarrow> address \<Rightarrow> address \<Rightarrow> address \<Rightarrow> int \<Rightarrow> scoped_nft \<Rightarrow> scoped_nft result" where
  "nos_transfer_from e caller from to token_id s =
     require_auth e caller (
     expect (sn_Owner s token_id) ''token does not exist'' (\<lambda>owner.
     panic_if (owner \<noteq> from) ''from is not the token owner'' (
     let approved = unwrap_or (sn_Approval s (from, caller, token_id)) False in
     panic_if (caller \<noteq> owner \<and> \<not> approved) ''caller is not owner or approved operator for this token'' (
     let s1 = s\<lparr>sn_Owner := (sn_Owner s)(token_id \<mapsto> to)\<rparr> in
     Ok (s1\<lparr>sn_Approval := (sn_Approval s1)((from, caller, token_id) := None)\<rparr>)))))"

definition nos_owner_of :: "scoped_nft \<Rightarrow> int \<Rightarrow> address result" where
  "nos_owner_of s token_id = expect (sn_Owner s token_id) ''token does not exist'' Ok"

datatype nft_call =
    NMint address int
  | NApprove address address int
  | NTransfer address address address int

fun nos_exec :: "env \<Rightarrow> nft_call \<Rightarrow> scoped_nft \<Rightarrow> scoped_nft result" where
  "nos_exec e (NMint a t) s = nos_mint e a t s"
| "nos_exec e (NApprove a b t) s = nos_approve e a b t s"
| "nos_exec e (NTransfer c a b t) s = nos_transfer_from e c a b t s"

lemmas no_defs = nos_mint_def nos_approve_def nos_transfer_from_def Let_def

definition owns :: "address \<Rightarrow> int \<Rightarrow> scoped_nft \<Rightarrow> bool" where
  "owns a t s \<longleftrightarrow> sn_Owner s t = Some a"

definition operator_for :: "address \<Rightarrow> address \<Rightarrow> int \<Rightarrow> scoped_nft \<Rightarrow> bool" where
  "operator_for a b t s \<longleftrightarrow> sn_Approval s (a, b, t) = Some True"

interpretation nft_leaves: guarded_steps nos_exec "\<lambda>s t. owns a i s \<longrightarrow> owns a i t"
  "\<lambda>e c s. \<exists>b to. c = NTransfer b a to i \<and> authorized e b \<and> (b = a \<or> operator_for a b i s)"
  for a i
proof (unfold_locales, goal_cases)
  case (3 e c s s')
  then show ?case
    by (cases c) (auto simp: no_defs owns_def operator_for_def unwrap_or_def result_simps split: if_splits option.splits)
qed auto

interpretation approving: guarded_steps nos_exec "\<lambda>s t. operator_for a b i t \<longrightarrow> operator_for a b i s"
  "\<lambda>e c s. c = NApprove a b i \<and> authorized e a"
  for a b i
proof (unfold_locales, goal_cases)
  case (3 e c s s')
  then show ?case
    by (cases c) (auto simp: no_defs operator_for_def result_simps split: if_splits)
qed auto

text \<open>
  Approvals per token (\<^verbatim>\<open>nft_operator_collection_mixup/src/secure.rs\<close>), from a state without approvals: a token
  leaves its owner only in a transfer signed by the owner, or by an operator whom the owner approved, in an
  earlier signed call, for this very token.
\<close>

theorem nft_moves_authorized:
  assumes "sn_Approval s = Map.empty" and "owns a i s" and "\<not> owns a i (run_calls nos_exec xs s)"
  shows "\<exists>ys e b to zs. xs = ys @ (e, NTransfer b a to i) # zs \<and> authorized e b
     \<and> (b = a \<or> (\<exists>us e' vs. ys = us @ (e', NApprove a b i) # vs \<and> authorized e' a))"
proof -
  obtain ys e b to zs where x: "xs = ys @ (e, NTransfer b a to i) # zs" "authorized e b"
    and or: "b = a \<or> operator_for a b i (run_calls nos_exec ys s)"
    using nft_leaves.run_guard [where s = s and a = a and i = i and xs = xs] assms(2,3) by blast
  have "\<exists>us e' vs. ys = us @ (e', NApprove a b i) # vs \<and> authorized e' a"
    if "operator_for a b i (run_calls nos_exec ys s)"
    using approving.run_guard [where s = s and a = a and b = b and i = i and xs = ys] that assms(1)
    by (auto simp: operator_for_def)
  with x or show ?thesis by blast
qed

definition nft_demo :: scoped_nft where
  "nft_demo = \<lparr>sn_Owner = [1 \<mapsto> Address 5, 2 \<mapsto> Address 5], sn_Approval = Map.empty\<rparr>"

definition nft_calls :: "(env \<times> nft_call) list" where
  "nft_calls = [(signed_env [Address 5] 1, NApprove (Address 5) (Address 6) 1),
     (signed_env [Address 6] 2, NTransfer (Address 6) (Address 5) (Address 7) 2),
     (signed_env [Address 6] 3, NTransfer (Address 6) (Address 5) (Address 7) 1)]"

theorem nft_moves_authorized_witness:
  "\<exists>ys e b to zs. nft_calls = ys @ (e, NTransfer b (Address 5) to 1) # zs \<and> authorized e b
     \<and> (b = Address 5 \<or> (\<exists>us e' vs. ys = us @ (e', NApprove (Address 5) b 1) # vs \<and> authorized e' (Address 5)))"
  by (rule nft_moves_authorized [of nft_demo])
     (simp_all add: nft_demo_def nft_calls_def owns_def no_defs signed_env_def)

text \<open>Approved for one token, the operator moves every other one in the unrepaired contract.\<close>

lemma approval_covers_all_tokens:
  assumes "nf_Owner s i = Some a" and "authorized e a" and "authorized e' b"
  shows "\<exists>s1 s2. no_approve e a b s = Ok s1 \<and> no_transfer_from e' b a b i s1 = Ok s2 \<and> no_owner_of s2 i = Ok b"
  using assms by (simp add: no_approve_def no_transfer_from_def no_owner_of_def Let_def)

end
