(* ===== verification/Lending_Variants.thy ===== *)
theory Lending_Variants
  imports Soroban_Prelude
begin

text \<open>
  Two lending crates under \<^verbatim>\<open>src/vulnerable/\<close> beside \<^verbatim>\<open>secure_lending\<close>, both halves of each:
  \<^verbatim>\<open>collateral_factor_over_100\<close> and \<^verbatim>\<open>collateral_withdraw_no_health_check\<close>. Shown: in every run a debt stays covered by
  its collateral, in the second under the condition that no deposit is negative, which the code does not check.
\<close>

section \<open>collateral\_factor\_over\_100\<close>

record factor_market =
  fm_Admin :: "address option"
  fm_CollateralFactor :: "int option"
  fm_Collateral :: "address \<rightharpoonup> int"
  fm_Debt :: "address \<rightharpoonup> int"

definition cf_get_collateral_factor :: "factor_market \<Rightarrow> int" where
  "cf_get_collateral_factor s = unwrap_or (fm_CollateralFactor s) 0"

definition cf_get_collateral :: "factor_market \<Rightarrow> address \<Rightarrow> int" where
  "cf_get_collateral s borrower = get0 (fm_Collateral s) borrower"

definition cf_get_debt :: "factor_market \<Rightarrow> address \<Rightarrow> int" where
  "cf_get_debt s borrower = get0 (fm_Debt s) borrower"

definition cf_initialize_vulnerable :: "env \<Rightarrow> address \<Rightarrow> int \<Rightarrow> factor_market \<Rightarrow> factor_market result" where
  "cf_initialize_vulnerable e admin collateral_factor s =
     panic_if (fm_Admin s \<noteq> None) ''already initialized'' (
     Ok (s\<lparr>fm_Admin := Some admin, fm_CollateralFactor := Some collateral_factor\<rparr>))"

definition cf_set_collateral_factor_vulnerable :: "env \<Rightarrow> address \<Rightarrow> int \<Rightarrow> factor_market \<Rightarrow> factor_market result" where
  "cf_set_collateral_factor_vulnerable e admin collateral_factor s =
     require_auth e admin (
     unwrap (fm_Admin s) (\<lambda>stored_admin.
     panic_if (stored_admin \<noteq> admin) ''only admin can update collateral factor'' (
     Ok (s\<lparr>fm_CollateralFactor := Some collateral_factor\<rparr>))))"

definition cf_deposit_collateral :: "env \<Rightarrow> address \<Rightarrow> int \<Rightarrow> factor_market \<Rightarrow> factor_market result" where
  "cf_deposit_collateral e borrower amount s =
     require_auth e borrower (
     panic_if (amount \<le> 0) ''amount must be positive'' (
     arith (checked_add I128 (cf_get_collateral s borrower) amount) (\<lambda>n.
     Ok (s\<lparr>fm_Collateral := (fm_Collateral s)(borrower \<mapsto> n)\<rparr>))))"

definition cf_borrow :: "env \<Rightarrow> address \<Rightarrow> int \<Rightarrow> factor_market \<Rightarrow> factor_market result" where
  "cf_borrow e borrower amount s =
     require_auth e borrower (
     panic_if (amount \<le> 0) ''amount must be positive'' (
     expect (checked_add I128 (cf_get_debt s borrower) amount) ''debt overflow'' (\<lambda>new_debt.
     expect (checked_mul I128 (cf_get_collateral s borrower) (cf_get_collateral_factor s)) ''collateral overflow'' (\<lambda>lhs.
     expect (checked_mul I128 new_debt 100) ''debt overflow'' (\<lambda>rhs.
     panic_if (lhs < rhs) ''insufficient collateral'' (
     Ok (s\<lparr>fm_Debt := (fm_Debt s)(borrower \<mapsto> new_debt)\<rparr>)))))))"

definition cf_get_position :: "factor_market \<Rightarrow> address \<Rightarrow> int \<times> int" where
  "cf_get_position s borrower = (cf_get_collateral s borrower, cf_get_debt s borrower)"

definition cfs_get_collateral_factor :: "factor_market \<Rightarrow> int" where
  "cfs_get_collateral_factor s = unwrap_or (fm_CollateralFactor s) 0"

definition cfs_get_collateral :: "factor_market \<Rightarrow> address \<Rightarrow> int" where
  "cfs_get_collateral s borrower = get0 (fm_Collateral s) borrower"

definition cfs_get_debt :: "factor_market \<Rightarrow> address \<Rightarrow> int" where
  "cfs_get_debt s borrower = get0 (fm_Debt s) borrower"

definition cfs_initialize :: "env \<Rightarrow> address \<Rightarrow> int \<Rightarrow> factor_market \<Rightarrow> factor_market result" where
  "cfs_initialize e admin collateral_factor s =
     panic_if (fm_Admin s \<noteq> None) ''already initialized'' (
     panic_if (collateral_factor \<le> 0 \<or> collateral_factor > 100) ''collateral_factor cannot exceed 100'' (
     Ok (s\<lparr>fm_Admin := Some admin, fm_CollateralFactor := Some collateral_factor\<rparr>)))"

definition cfs_set_collateral_factor :: "env \<Rightarrow> address \<Rightarrow> int \<Rightarrow> factor_market \<Rightarrow> factor_market result" where
  "cfs_set_collateral_factor e admin collateral_factor s =
     require_auth e admin (
     unwrap (fm_Admin s) (\<lambda>stored_admin.
     panic_if (stored_admin \<noteq> admin) ''only admin can update collateral factor'' (
     panic_if (collateral_factor \<le> 0 \<or> collateral_factor > 100) ''collateral_factor cannot exceed 100'' (
     Ok (s\<lparr>fm_CollateralFactor := Some collateral_factor\<rparr>)))))"

definition cfs_deposit_collateral :: "env \<Rightarrow> address \<Rightarrow> int \<Rightarrow> factor_market \<Rightarrow> factor_market result" where
  "cfs_deposit_collateral e borrower amount s =
     require_auth e borrower (
     panic_if (amount \<le> 0) ''amount must be positive'' (
     arith (checked_add I128 (cfs_get_collateral s borrower) amount) (\<lambda>n.
     Ok (s\<lparr>fm_Collateral := (fm_Collateral s)(borrower \<mapsto> n)\<rparr>))))"

definition cfs_borrow :: "env \<Rightarrow> address \<Rightarrow> int \<Rightarrow> factor_market \<Rightarrow> factor_market result" where
  "cfs_borrow e borrower amount s =
     require_auth e borrower (
     panic_if (amount \<le> 0) ''amount must be positive'' (
     expect (checked_add I128 (cfs_get_debt s borrower) amount) ''debt overflow'' (\<lambda>new_debt.
     expect (checked_mul I128 (cfs_get_collateral s borrower) (cfs_get_collateral_factor s)) ''collateral overflow'' (\<lambda>lhs.
     expect (checked_mul I128 new_debt 100) ''debt overflow'' (\<lambda>rhs.
     panic_if (lhs < rhs) ''insufficient collateral'' (
     Ok (s\<lparr>fm_Debt := (fm_Debt s)(borrower \<mapsto> new_debt)\<rparr>)))))))"

definition cfs_get_position :: "factor_market \<Rightarrow> address \<Rightarrow> int \<times> int" where
  "cfs_get_position s borrower = (cfs_get_collateral s borrower, cfs_get_debt s borrower)"

datatype factor_call =
    CFInit address int
  | CFSet address int
  | CFDeposit address int
  | CFBorrow address int

fun cfs_exec :: "env \<Rightarrow> factor_call \<Rightarrow> factor_market \<Rightarrow> factor_market result" where
  "cfs_exec e (CFInit a f) s = cfs_initialize e a f s"
| "cfs_exec e (CFSet a f) s = cfs_set_collateral_factor e a f s"
| "cfs_exec e (CFDeposit a n) s = cfs_deposit_collateral e a n s"
| "cfs_exec e (CFBorrow a n) s = cfs_borrow e a n s"

lemmas cf_defs = cfs_initialize_def cfs_set_collateral_factor_def cfs_deposit_collateral_def cfs_borrow_def
  cfs_get_collateral_factor_def cfs_get_collateral_def cfs_get_debt_def

text \<open>The factor is a percentage, and no debt exceeds its collateral, whatever the factor was when it was taken.\<close>

definition cf_covered :: "factor_market \<Rightarrow> bool" where
  "cf_covered s \<longleftrightarrow> 0 \<le> cfs_get_collateral_factor s \<and> cfs_get_collateral_factor s \<le> 100
     \<and> (\<forall>a. 0 \<le> cfs_get_debt s a \<and> cfs_get_debt s a \<le> cfs_get_collateral s a)"

lemma cfs_borrow_covered:
  assumes "cf_covered s" and "cfs_borrow e a n s = Ok s'"
  shows "cf_covered s'"
proof -
  have f: "cfs_get_collateral_factor s \<le> 100" and c: "0 \<le> cfs_get_collateral s a"
    using assms(1) by (auto simp: cf_covered_def intro: order_trans)
  have s': "s' = s\<lparr>fm_Debt := (fm_Debt s)(a \<mapsto> cfs_get_debt s a + n)\<rparr>" and n: "0 < n"
    using assms(2) by (auto simp: cfs_borrow_def result_simps int_simps)
  have "(cfs_get_debt s a + n) * 100 \<le> cfs_get_collateral s a * cfs_get_collateral_factor s"
    using assms(2) by (auto simp: cfs_borrow_def result_simps int_simps)
  also have "cfs_get_collateral s a * cfs_get_collateral_factor s \<le> cfs_get_collateral s a * 100"
    using f c by (rule mult_left_mono)
  finally have "cfs_get_debt s a + n \<le> cfs_get_collateral s a" by simp
  with assms(1) n show ?thesis
    by (auto simp: cf_covered_def s' cf_defs)
qed

interpretation cf_market: contract_invariant cfs_exec cf_covered
proof (unfold_locales, goal_cases)
  case (1 s e c s')
  show ?case
  proof (cases c)
    case (CFBorrow a n)
    with 1 show ?thesis by (simp add: cfs_borrow_covered)
  next
    case (CFDeposit a n)
    have "get0 (fm_Debt s) a \<le> get0 (fm_Collateral s) a"
      using 1(1) by (simp add: cf_covered_def cf_defs)
    moreover have "0 < n"
      using 1(2) CFDeposit by (simp add: cfs_deposit_collateral_def result_simps)
    ultimately have "get0 (fm_Debt s) a \<le> get0 (fm_Collateral s) a + n" by linarith
    with 1 CFDeposit show ?thesis
      by (auto simp: cf_covered_def cf_defs result_simps int_simps)
  qed (use 1 in \<open>auto simp: cf_covered_def cf_defs result_simps\<close>)
qed

text \<open>
  The bounded factor (\<^verbatim>\<open>collateral_factor_over_100/src/secure.rs\<close>): in every run from an empty market, with the
  admin changing the factor at will, every debt is at most its collateral and the factor is a percentage.
\<close>

theorem debt_never_exceeds_collateral:
  assumes "fm_CollateralFactor s = None" and "fm_Collateral s = Map.empty" and "fm_Debt s = Map.empty"
  shows "snd (cfs_get_position (run_calls cfs_exec xs s) a) \<le> fst (cfs_get_position (run_calls cfs_exec xs s) a)
     \<and> cfs_get_collateral_factor (run_calls cfs_exec xs s) \<le> 100"
proof -
  have "cf_covered s"
    using assms by (simp add: cf_covered_def cf_defs)
  then have "cf_covered (run_calls cfs_exec xs s)"
    by (rule cf_market.run_inv)
  then show ?thesis
    by (simp add: cf_covered_def cfs_get_position_def)
qed

definition cf_calls :: "(env \<times> factor_call) list" where
  "cf_calls = [(signed_env [] 1, CFInit (Address 2) 75), (signed_env [Address 5] 2, CFDeposit (Address 5) 1000),
     (signed_env [Address 5] 3, CFBorrow (Address 5) 750), (signed_env [Address 5] 4, CFBorrow (Address 5) 1)]"

definition cf_empty :: factor_market where
  "cf_empty = \<lparr>fm_Admin = None, fm_CollateralFactor = None, fm_Collateral = Map.empty, fm_Debt = Map.empty\<rparr>"

theorem debt_never_exceeds_collateral_witness:
  "cfs_get_position (run_calls cfs_exec cf_calls cf_empty) (Address 5) = (1000, 750) \<and> (750::int) \<le> 1000"
proof -
  have "cfs_get_position (run_calls cfs_exec cf_calls cf_empty) (Address 5) = (1000, 750)"
    by (simp add: cf_calls_def cf_empty_def cfs_get_position_def cf_defs signed_env_def checked_add_def checked_mul_def checked_def
        in_range_def)
  with debt_never_exceeds_collateral [of cf_empty cf_calls "Address 5"] show ?thesis
    by (simp add: cf_empty_def)
qed

text \<open>Without the bound a factor of 150 lets 1000 of collateral carry a debt of 1500.\<close>

lemma factor_above_100:
  assumes "fm_CollateralFactor s = Some 150" and "fm_Collateral s a = Some 1000" and "fm_Debt s a = None" and "authorized e a"
  shows "\<exists>t. cf_borrow e a 1500 s = Ok t \<and> cf_get_position t a = (1000, 1500)"
  using assms
  by (simp add: cf_borrow_def cf_get_position_def cf_get_collateral_def cf_get_debt_def cf_get_collateral_factor_def get0_def
      checked_add_def checked_mul_def checked_def in_range_def)

section \<open>collateral\_withdraw\_no\_health\_check\<close>

definition CW_BPS :: int where "CW_BPS = 10000"
definition LIQUIDATION_THRESHOLD_BPS :: int where "LIQUIDATION_THRESHOLD_BPS = 7500"

record health_market =
  hm_Collateral :: "address \<rightharpoonup> int"
  hm_Debt :: "address \<rightharpoonup> int"

definition cw_collateral :: "health_market \<Rightarrow> address \<Rightarrow> int" where
  "cw_collateral s user = get0 (hm_Collateral s) user"

definition cw_debt :: "health_market \<Rightarrow> address \<Rightarrow> int" where
  "cw_debt s user = get0 (hm_Debt s) user"

definition cw_set_collateral :: "address \<Rightarrow> int \<Rightarrow> health_market \<Rightarrow> health_market" where
  "cw_set_collateral user amount s = s\<lparr>hm_Collateral := (hm_Collateral s)(user \<mapsto> amount)\<rparr>"

definition cw_set_debt :: "address \<Rightarrow> int \<Rightarrow> health_market \<Rightarrow> health_market" where
  "cw_set_debt user amount s = s\<lparr>hm_Debt := (hm_Debt s)(user \<mapsto> amount)\<rparr>"

definition borrow_limit :: "int \<Rightarrow> (int \<Rightarrow> 'a result) \<Rightarrow> 'a result" where
  "borrow_limit c k =
     arith (checked_mul I128 c LIQUIDATION_THRESHOLD_BPS) (\<lambda>m. arith (checked_div I128 m CW_BPS) k)"

definition assert_healthy :: "int \<Rightarrow> int \<Rightarrow> 'a result \<Rightarrow> 'a result" where
  "assert_healthy c d k = borrow_limit c (\<lambda>limit. ensure (limit \<ge> d) ''unhealthy position'' k)"

definition cw_deposit :: "env \<Rightarrow> address \<Rightarrow> int \<Rightarrow> health_market \<Rightarrow> health_market result" where
  "cw_deposit e user amount s =
     require_auth e user (
     arith (checked_add I128 (cw_collateral s user) amount) (\<lambda>n. Ok (cw_set_collateral user n s)))"

definition cw_borrow :: "env \<Rightarrow> address \<Rightarrow> int \<Rightarrow> health_market \<Rightarrow> health_market result" where
  "cw_borrow e user amount s =
     require_auth e user (
     arith (checked_add I128 (cw_debt s user) amount) (\<lambda>new_debt.
     assert_healthy (cw_collateral s user) new_debt (
     Ok (cw_set_debt user new_debt s))))"

definition cw_withdraw :: "env \<Rightarrow> address \<Rightarrow> int \<Rightarrow> health_market \<Rightarrow> health_market result" where
  "cw_withdraw e user amount s =
     require_auth e user (
     ensure (cw_collateral s user \<ge> amount) ''insufficient collateral'' (
     arith (checked_sub I128 (cw_collateral s user) amount) (\<lambda>n. Ok (cw_set_collateral user n s))))"

definition cw_position :: "health_market \<Rightarrow> address \<Rightarrow> (int \<times> int \<times> int) result" where
  "cw_position s user = borrow_limit (cw_collateral s user) (\<lambda>limit. Ok (cw_collateral s user, cw_debt s user, limit))"

definition cws_deposit :: "env \<Rightarrow> address \<Rightarrow> int \<Rightarrow> health_market \<Rightarrow> health_market result" where
  "cws_deposit e user amount s =
     require_auth e user (
     arith (checked_add I128 (cw_collateral s user) amount) (\<lambda>n. Ok (cw_set_collateral user n s)))"

definition cws_borrow :: "env \<Rightarrow> address \<Rightarrow> int \<Rightarrow> health_market \<Rightarrow> health_market result" where
  "cws_borrow e user amount s =
     require_auth e user (
     arith (checked_add I128 (cw_debt s user) amount) (\<lambda>new_debt.
     assert_healthy (cw_collateral s user) new_debt (
     Ok (cw_set_debt user new_debt s))))"

definition cws_withdraw :: "env \<Rightarrow> address \<Rightarrow> int \<Rightarrow> health_market \<Rightarrow> health_market result" where
  "cws_withdraw e user amount s =
     require_auth e user (
     ensure (cw_collateral s user \<ge> amount) ''insufficient collateral'' (
     arith (checked_sub I128 (cw_collateral s user) amount) (\<lambda>remaining.
     assert_healthy remaining (cw_debt s user) (
     Ok (cw_set_collateral user remaining s)))))"

definition cws_position :: "health_market \<Rightarrow> address \<Rightarrow> (int \<times> int \<times> int) result" where
  "cws_position s user = borrow_limit (cw_collateral s user) (\<lambda>limit. Ok (cw_collateral s user, cw_debt s user, limit))"

datatype health_call =
    HDeposit address int
  | HBorrow address int
  | HWithdraw address int

fun cws_exec :: "env \<Rightarrow> health_call \<Rightarrow> health_market \<Rightarrow> health_market result" where
  "cws_exec e (HDeposit a n) s = cws_deposit e a n s"
| "cws_exec e (HBorrow a n) s = cws_borrow e a n s"
| "cws_exec e (HWithdraw a n) s = cws_withdraw e a n s"

lemmas cw_defs = cws_deposit_def cws_borrow_def cws_withdraw_def assert_healthy_def borrow_limit_def cw_set_collateral_def
  cw_set_debt_def cw_collateral_def cw_debt_def CW_BPS_def LIQUIDATION_THRESHOLD_BPS_def

text \<open>Healthy: the debt is within three quarters of the collateral, and no collateral is negative.\<close>

definition healthy :: "int \<Rightarrow> int \<Rightarrow> bool" where
  "healthy c d \<longleftrightarrow> 0 \<le> c \<and> 10000 * d \<le> 7500 * c"

definition all_healthy :: "health_market \<Rightarrow> bool" where
  "all_healthy s \<longleftrightarrow> (\<forall>a. healthy (cw_collateral s a) (cw_debt s a))"

lemma assert_healthy_Ok: "0 \<le> c \<Longrightarrow> assert_healthy c d k = Ok r \<Longrightarrow> healthy c d \<and> k = Ok r"
  by (auto simp: cw_defs healthy_def result_simps int_simps sdiv_nonneg_eq)

text \<open>The calls with a plausible amount: a deposit of at least zero.\<close>

fun deposits_nonneg :: "health_call \<Rightarrow> bool" where
  "deposits_nonneg (HDeposit a n) = (0 \<le> n)"
| "deposits_nonneg c = True"

interpretation health: restricted_invariant cws_exec all_healthy "\<lambda>_. deposits_nonneg"
proof (unfold_locales, goal_cases)
  case (1 s e c s')
  show ?case
  proof (cases c)
    case (HDeposit a n)
    have "4 * get0 (hm_Debt s) a \<le> 3 * get0 (hm_Collateral s) a"
      using 1(1) by (simp add: all_healthy_def healthy_def cw_collateral_def cw_debt_def)
    moreover have "0 \<le> n" using 1(2) HDeposit by simp
    ultimately have "4 * get0 (hm_Debt s) a \<le> 3 * get0 (hm_Collateral s) a + 3 * n" by linarith
    with 1 HDeposit show ?thesis
      by (auto simp: all_healthy_def healthy_def cws_deposit_def cw_collateral_def cw_debt_def cw_set_collateral_def
          result_simps int_simps)
  next
    case (HBorrow a n)
    with 1 obtain d where "healthy (cw_collateral s a) d" "s' = cw_set_debt a d s"
      by (auto simp: cws_borrow_def result_simps all_healthy_def healthy_def dest!: assert_healthy_Ok [rotated])
    with 1(1) show ?thesis
      by (auto simp: all_healthy_def cw_collateral_def cw_debt_def cw_set_debt_def)
  next
    case (HWithdraw a n)
    with 1 obtain d where "healthy d (cw_debt s a)" "s' = cw_set_collateral a d s"
      by (auto simp: cws_withdraw_def result_simps int_simps dest!: assert_healthy_Ok [rotated])
    with 1(1) show ?thesis
      by (auto simp: all_healthy_def cw_collateral_def cw_debt_def cw_set_collateral_def)
  qed
qed

text \<open>
  The checked withdrawal (\<^verbatim>\<open>collateral_withdraw_no_health_check/src/secure.rs\<close>): in every run without negative
  deposits, every position stays within the liquidation threshold of 75 per cent.
\<close>

theorem positions_stay_healthy:
  assumes "all_healthy s" and "\<forall>(e, c)\<in>set xs. deposits_nonneg c"
  shows "10000 * cw_debt (run_calls cws_exec xs s) a \<le> 7500 * cw_collateral (run_calls cws_exec xs s) a"
  using health.run_inv [OF assms] by (simp add: all_healthy_def healthy_def)

theorem positions_stay_healthy_witness:
  "10000 * cw_debt (run_calls cws_exec [(signed_env [Address 5] 1, HDeposit (Address 5) 1000),
      (signed_env [Address 5] 2, HBorrow (Address 5) 700), (signed_env [Address 5] 3, HWithdraw (Address 5) 900)]
      \<lparr>hm_Collateral = Map.empty, hm_Debt = Map.empty\<rparr>) (Address 5) \<le> 7500000"
proof -
  let ?s = "\<lparr>hm_Collateral = Map.empty, hm_Debt = Map.empty\<rparr>"
  let ?xs = "[(signed_env [Address 5] 1, HDeposit (Address 5) 1000), (signed_env [Address 5] 2, HBorrow (Address 5) 700),
      (signed_env [Address 5] 3, HWithdraw (Address 5) 900)]"
  have "cw_collateral (run_calls cws_exec ?xs ?s) (Address 5) = 1000"
    by (simp add: cw_defs signed_env_def checked_add_def checked_sub_def checked_mul_def checked_div_def checked_def in_range_def
        signed_divide_int_def)
  with positions_stay_healthy [of ?s ?xs "Address 5"] show ?thesis
    by (simp add: all_healthy_def healthy_def cw_collateral_def cw_debt_def)
qed

text \<open>
  The condition matters: neither half looks at the sign of a deposit, so a borrower takes the collateral
  out with a negative one, past the health check of the repair.
\<close>

lemma negative_deposit_evades_check:
  assumes "authorized e a" and "hm_Collateral s a = Some 1000" and "hm_Debt s a = Some 700"
  shows "\<exists>t. cws_deposit e a (- 1000) s = Ok t \<and> cw_collateral t a = 0 \<and> cw_debt t a = 700"
  using assms by (simp add: cw_defs get0_def checked_add_def)

lemma unchecked_withdrawal:
  assumes "authorized e a" and "hm_Collateral s a = Some 1000" and "hm_Debt s a = Some 700"
  shows "\<exists>t. cw_withdraw e a 1000 s = Ok t \<and> cw_collateral t a = 0 \<and> cw_debt t a = 700"
  using assms by (simp add: cw_withdraw_def cw_collateral_def cw_debt_def cw_set_collateral_def get0_def checked_sub_def)

end
