(* ===== verification/Debt_Variants.thy ===== *)
theory Debt_Variants
  imports Soroban_Prelude
begin

text \<open>
  How debt grows and how it is closed: \<^verbatim>\<open>src/vulnerable/borrow_without_accrual\<close>, \<^verbatim>\<open>interest_index_reset\<close>,
  \<^verbatim>\<open>borrow_cap_asset_mixup\<close>, \<^verbatim>\<open>liquidation_dust_rounding\<close>, \<^verbatim>\<open>mixed_collateral_decimals\<close>, \<^verbatim>\<open>inverted_health_factor\<close>
  and \<^verbatim>\<open>uncapped_liquidation_bonus\<close>, both halves of each. Shown: a borrow counts the interest due, the index
  and what is owed do not fall, the caps of two assets do not interact, and repeated liquidations halve a
  position until it is closed.
\<close>

section \<open>borrow\_without\_accrual\<close>

definition INTEREST_BPS_PER_LEDGER :: int where "INTEREST_BPS_PER_LEDGER = 100"
definition BORROW_LIMIT :: int where "BORROW_LIMIT = 1000"

record accrual_market =
  ac_Debt :: "address \<rightharpoonup> int"
  ac_LastAccrualLedger :: "address \<rightharpoonup> int"
  ac_LastMarketLedger :: "int option"

definition ba_get_debt :: "accrual_market \<Rightarrow> address \<Rightarrow> int" where
  "ba_get_debt s borrower = get0 (ac_Debt s) borrower"

definition ba_set_debt :: "address \<Rightarrow> int \<Rightarrow> accrual_market \<Rightarrow> accrual_market" where
  "ba_set_debt borrower d s = s\<lparr>ac_Debt := (ac_Debt s)(borrower \<mapsto> d)\<rparr>"

definition ba_get_last_accrual :: "accrual_market \<Rightarrow> address \<Rightarrow> int" where
  "ba_get_last_accrual s borrower = get0 (ac_LastAccrualLedger s) borrower"

definition ba_set_last_accrual :: "address \<Rightarrow> int \<Rightarrow> accrual_market \<Rightarrow> accrual_market" where
  "ba_set_last_accrual borrower ledger s = s\<lparr>ac_LastAccrualLedger := (ac_LastAccrualLedger s)(borrower \<mapsto> ledger)\<rparr>"

text \<open>\<^verbatim>\<open>debt + debt * INTEREST_BPS_PER_LEDGER * elapsed / 10_000\<close>, every operator checked.\<close>

definition with_interest :: "int \<Rightarrow> int \<Rightarrow> (int \<Rightarrow> 'a result) \<Rightarrow> 'a result" where
  "with_interest d elapsed k =
     arith (checked_mul I128 d INTEREST_BPS_PER_LEDGER) (\<lambda>m.
     arith (checked_mul I128 m elapsed) (\<lambda>m2.
     arith (checked_div I128 m2 10000) (\<lambda>interest.
     arith (checked_add I128 d interest) k)))"

definition accrue_borrower :: "env \<Rightarrow> address \<Rightarrow> accrual_market \<Rightarrow> accrual_market result" where
  "accrue_borrower e borrower s =
     (let d = ba_get_debt s borrower in
      if d = 0 then Ok (ba_set_last_accrual borrower (sequence e) s)
      else let last_ledger = ba_get_last_accrual s borrower in
      if sequence e \<le> last_ledger then Ok s
      else arith (checked_sub U32 (sequence e) last_ledger) (\<lambda>elapsed.
      with_interest d elapsed (\<lambda>n.
      Ok (ba_set_last_accrual borrower (sequence e) (ba_set_debt borrower n s)))))"

definition accrue_market :: "env \<Rightarrow> accrual_market \<Rightarrow> accrual_market" where
  "accrue_market e s = s\<lparr>ac_LastMarketLedger := Some (sequence e)\<rparr>"

definition projected_debt :: "env \<Rightarrow> address \<Rightarrow> accrual_market \<Rightarrow> int result" where
  "projected_debt e borrower s =
     (let d = ba_get_debt s borrower in
      if d = 0 then Ok 0
      else let last_ledger = ba_get_last_accrual s borrower in
      if sequence e \<le> last_ledger then Ok d
      else arith (checked_sub U32 (sequence e) last_ledger) (\<lambda>elapsed. with_interest d elapsed Ok))"

definition ba_initialize :: "env \<Rightarrow> address \<Rightarrow> int \<Rightarrow> accrual_market \<Rightarrow> accrual_market result" where
  "ba_initialize e borrower initial_borrow s =
     require_auth e borrower (
     ensure (initial_borrow > 0 \<and> initial_borrow \<le> BORROW_LIMIT) ''invalid borrow'' (
     Ok (accrue_market e (ba_set_last_accrual borrower (sequence e) (ba_set_debt borrower initial_borrow s)))))"

definition ba_borrow :: "env \<Rightarrow> address \<Rightarrow> int \<Rightarrow> accrual_market \<Rightarrow> accrual_market result" where
  "ba_borrow e borrower amount s =
     require_auth e borrower (
     ensure (amount > 0) ''amount must be positive'' (
     arith (checked_add I128 (ba_get_debt s borrower) amount) (\<lambda>n.
     ensure (n \<le> BORROW_LIMIT) ''borrow limit exceeded'' (
     Ok (ba_set_debt borrower n s)))))"

definition ba_debt :: "accrual_market \<Rightarrow> address \<Rightarrow> int" where
  "ba_debt s borrower = ba_get_debt s borrower"

definition ba_debt_after_accrual :: "env \<Rightarrow> address \<Rightarrow> accrual_market \<Rightarrow> int result" where
  "ba_debt_after_accrual e borrower s = projected_debt e borrower s"

definition bas_initialize :: "env \<Rightarrow> address \<Rightarrow> int \<Rightarrow> accrual_market \<Rightarrow> accrual_market result" where
  "bas_initialize e borrower initial_borrow s =
     require_auth e borrower (
     ensure (initial_borrow > 0 \<and> initial_borrow \<le> BORROW_LIMIT) ''invalid borrow'' (
     Ok (accrue_market e (ba_set_last_accrual borrower (sequence e) (ba_set_debt borrower initial_borrow s)))))"

definition bas_borrow :: "env \<Rightarrow> address \<Rightarrow> int \<Rightarrow> accrual_market \<Rightarrow> accrual_market result" where
  "bas_borrow e borrower amount s =
     require_auth e borrower (
     ensure (amount > 0) ''amount must be positive'' (
     and_then (accrue_borrower e borrower (accrue_market e s)) (\<lambda>s1.
     arith (checked_add I128 (ba_get_debt s1 borrower) amount) (\<lambda>n.
     ensure (n \<le> BORROW_LIMIT) ''borrow limit exceeded'' (
     Ok (ba_set_debt borrower n s1))))))"

definition bas_debt :: "accrual_market \<Rightarrow> address \<Rightarrow> int" where
  "bas_debt s borrower = ba_get_debt s borrower"

definition bas_debt_after_accrual :: "env \<Rightarrow> address \<Rightarrow> accrual_market \<Rightarrow> int result" where
  "bas_debt_after_accrual e borrower s = projected_debt e borrower s"

lemmas ba_defs = ba_get_debt_def ba_set_debt_def ba_get_last_accrual_def ba_set_last_accrual_def accrue_market_def Let_def

text \<open>Accruing and projecting agree, and an accrued debt has nothing more to accrue in the same ledger.\<close>

lemma accrue_is_projection:
  assumes "accrue_borrower e b s = Ok s1"
  shows "projected_debt e b s = Ok (ba_get_debt s1 b)"
    and "ba_get_debt s1 b = 0 \<or> sequence e \<le> ba_get_last_accrual s1 b"
  using assms
  by (auto simp: accrue_borrower_def projected_debt_def ba_defs with_interest_def result_simps split: if_splits)

text \<open>
  A borrow with accrual (\<^verbatim>\<open>borrow_without_accrual/src/secure.rs\<close>): the debt after it is the debt with all
  interest due, plus the amount; that sum is within the limit, and it is what the projection reports.
\<close>

theorem borrow_counts_interest:
  assumes "bas_borrow e b n s = Ok s'"
  shows "\<exists>d. bas_debt_after_accrual e b s = Ok d \<and> bas_debt s' b = d + n \<and> d + n \<le> 1000
     \<and> bas_debt_after_accrual e b s' = Ok (d + n)"
proof -
  obtain s1 where acc: "accrue_borrower e b (accrue_market e s) = Ok s1" and s': "s' = ba_set_debt b (ba_get_debt s1 b + n) s1"
    and lim: "ba_get_debt s1 b + n \<le> BORROW_LIMIT" and n: "0 < n"
    using assms by (auto simp: bas_borrow_def result_simps int_simps)
  have "projected_debt e b (accrue_market e s) = projected_debt e b s"
    by (simp add: projected_debt_def ba_defs)
  moreover have "projected_debt e b s' = Ok (ba_get_debt s1 b + n)"
  proof (cases "ba_get_debt s1 b = 0")
    case True
    with acc have "sequence e \<le> ba_get_last_accrual s1 b \<or> ba_get_last_accrual s1 b = sequence e"
      by (auto simp: accrue_borrower_def with_interest_def ba_defs result_simps split: if_splits)
    with True n show ?thesis
      by (auto simp: s' projected_debt_def ba_defs)
  next
    case False
    with accrue_is_projection(2) [OF acc] show ?thesis
      by (simp add: s' projected_debt_def ba_defs)
  qed
  ultimately show ?thesis
    using accrue_is_projection(1) [OF acc] lim
    by (simp add: bas_debt_after_accrual_def bas_debt_def s' ba_defs BORROW_LIMIT_def)
qed

definition ba_demo :: accrual_market where
  "ba_demo = \<lparr>ac_Debt = [Address 5 \<mapsto> 400], ac_LastAccrualLedger = [Address 5 \<mapsto> 10], ac_LastMarketLedger = None\<rparr>"

theorem borrow_counts_interest_witness:
  "\<exists>s' d. bas_borrow (signed_env [Address 5] 60) (Address 5) 400 ba_demo = Ok s'
     \<and> bas_debt_after_accrual (signed_env [Address 5] 60) (Address 5) ba_demo = Ok d \<and> bas_debt s' (Address 5) = d + 400"
proof -
  have "\<exists>s'. bas_borrow (signed_env [Address 5] 60) (Address 5) 400 ba_demo = Ok s'"
    by (simp add: bas_borrow_def accrue_borrower_def with_interest_def ba_defs ba_demo_def signed_env_def checked_add_def
        checked_sub_def checked_mul_def checked_div_def checked_def in_range_def signed_divide_int_def INTEREST_BPS_PER_LEDGER_def
        BORROW_LIMIT_def)
  then obtain s' where "bas_borrow (signed_env [Address 5] 60) (Address 5) 400 ba_demo = Ok s'" ..
  with borrow_counts_interest [OF this] show ?thesis by blast
qed

text \<open>Without accrual, a borrower who already owes more than the limit may borrow on.\<close>

lemma borrow_past_limit:
  assumes "authorized e a" and "sequence e = 110"
    and s: "s = \<lparr>ac_Debt = [a \<mapsto> 900], ac_LastAccrualLedger = [a \<mapsto> 10], ac_LastMarketLedger = None\<rparr>"
  shows "projected_debt e a s = Ok 1800 \<and> (\<exists>t. ba_borrow e a 100 s = Ok t)"
  using assms(1,2)
  by (simp add: s projected_debt_def ba_borrow_def with_interest_def ba_defs checked_add_def checked_sub_def checked_mul_def
      checked_div_def checked_def in_range_def signed_divide_int_def INTEREST_BPS_PER_LEDGER_def BORROW_LIMIT_def)

section \<open>interest\_index\_reset\<close>

definition INDEX_SCALE :: int where "INDEX_SCALE = 1000000"
definition INDEX_GROWTH_BPS_PER_LEDGER :: int where "INDEX_GROWTH_BPS_PER_LEDGER = 100"

record index_market =
  im_TotalSupply :: "int option"
  im_BorrowIndex :: "int option"
  im_LastIndexLedger :: "int option"
  im_Debt :: "address \<rightharpoonup> int"
  im_TotalDebt :: "int option"

definition ix_get_supply :: "index_market \<Rightarrow> int" where
  "ix_get_supply s = unwrap_or (im_TotalSupply s) 0"

definition ix_set_supply :: "int \<Rightarrow> index_market \<Rightarrow> index_market" where
  "ix_set_supply supply s = s\<lparr>im_TotalSupply := Some supply\<rparr>"

definition ix_get_borrow_index :: "index_market \<Rightarrow> int" where
  "ix_get_borrow_index s = unwrap_or (im_BorrowIndex s) INDEX_SCALE"

definition ix_set_borrow_index :: "int \<Rightarrow> index_market \<Rightarrow> index_market" where
  "ix_set_borrow_index index s = s\<lparr>im_BorrowIndex := Some index\<rparr>"

definition ix_get_last_index_ledger :: "index_market \<Rightarrow> int" where
  "ix_get_last_index_ledger s = unwrap_or (im_LastIndexLedger s) 0"

definition ix_set_last_index_ledger :: "int \<Rightarrow> index_market \<Rightarrow> index_market" where
  "ix_set_last_index_ledger ledger s = s\<lparr>im_LastIndexLedger := Some ledger\<rparr>"

definition ix_get_principal :: "index_market \<Rightarrow> address \<Rightarrow> int" where
  "ix_get_principal s borrower = get0 (im_Debt s) borrower"

definition ix_set_principal :: "address \<Rightarrow> int \<Rightarrow> index_market \<Rightarrow> index_market" where
  "ix_set_principal borrower p s = s\<lparr>im_Debt := (im_Debt s)(borrower \<mapsto> p)\<rparr>"

definition ix_get_total_debt :: "index_market \<Rightarrow> int" where
  "ix_get_total_debt s = unwrap_or (im_TotalDebt s) 0"

definition ix_total_supply :: "index_market \<Rightarrow> int" where
  "ix_total_supply s = ix_get_supply s"

definition ix_total_debt_outstanding :: "index_market \<Rightarrow> int" where
  "ix_total_debt_outstanding s = ix_get_total_debt s"

definition ixs_total_supply :: "index_market \<Rightarrow> int" where
  "ixs_total_supply s = ix_get_supply s"

definition ixs_total_debt_outstanding :: "index_market \<Rightarrow> int" where
  "ixs_total_debt_outstanding s = ix_get_total_debt s"

definition ix_set_total_debt :: "int \<Rightarrow> index_market \<Rightarrow> index_market" where
  "ix_set_total_debt d s = s\<lparr>im_TotalDebt := Some d\<rparr>"

definition accrue_index :: "env \<Rightarrow> index_market \<Rightarrow> index_market result" where
  "accrue_index e s =
     (let index = ix_get_borrow_index s; last_ledger = ix_get_last_index_ledger s in
      if sequence e \<le> last_ledger then Ok s
      else arith (checked_sub U32 (sequence e) last_ledger) (\<lambda>elapsed.
      arith (checked_mul I128 index INDEX_GROWTH_BPS_PER_LEDGER) (\<lambda>m.
      arith (checked_mul I128 m elapsed) (\<lambda>m2.
      arith (checked_div I128 m2 10000) (\<lambda>growth.
      arith (checked_add I128 index growth) (\<lambda>n.
      Ok (ix_set_last_index_ledger (sequence e) (ix_set_borrow_index n s))))))))"

definition debt_value :: "index_market \<Rightarrow> address \<Rightarrow> int result" where
  "debt_value s borrower =
     (let p = ix_get_principal s borrower in
      if p = 0 then Ok 0
      else arith (checked_mul I128 p (ix_get_borrow_index s)) (\<lambda>m.
           arith (checked_div I128 m INDEX_SCALE) Ok))"

definition ix_initialize :: "env \<Rightarrow> address \<Rightarrow> int \<Rightarrow> index_market \<Rightarrow> index_market result" where
  "ix_initialize e supplier deposit_amount s =
     require_auth e supplier (
     ensure (deposit_amount > 0) ''deposit must be positive'' (
     Ok (ix_set_last_index_ledger (sequence e) (ix_set_borrow_index INDEX_SCALE (ix_set_supply deposit_amount s)))))"

definition ix_borrow :: "env \<Rightarrow> address \<Rightarrow> int \<Rightarrow> index_market \<Rightarrow> index_market result" where
  "ix_borrow e borrower amount s =
     require_auth e borrower (
     and_then (accrue_index e s) (\<lambda>s1.
     ensure (amount > 0) ''borrow must be positive'' (
     ensure (ix_get_supply s1 \<ge> amount) ''insufficient liquidity'' (
     arith (checked_add I128 (ix_get_principal s1 borrower) amount) (\<lambda>p.
     let s2 = ix_set_principal borrower p s1 in
     arith (checked_add I128 (ix_get_total_debt s2) amount) (\<lambda>d.
     let s3 = ix_set_total_debt d s2 in
     arith (checked_sub I128 (ix_get_supply s3) amount) (\<lambda>n.
     Ok (ix_set_supply n s3))))))))"

definition ix_deposit :: "env \<Rightarrow> address \<Rightarrow> int \<Rightarrow> index_market \<Rightarrow> index_market result" where
  "ix_deposit e supplier amount s =
     require_auth e supplier (
     ensure (amount > 0) ''deposit must be positive'' (
     let supply = ix_get_supply s;
         s1 = (if supply = 0 then ix_set_last_index_ledger (sequence e) (ix_set_borrow_index INDEX_SCALE s) else s) in
     arith (checked_add I128 supply amount) (\<lambda>n. Ok (ix_set_supply n s1))))"

definition ix_withdraw :: "env \<Rightarrow> address \<Rightarrow> int \<Rightarrow> index_market \<Rightarrow> index_market result" where
  "ix_withdraw e supplier amount s =
     require_auth e supplier (
     let supply = ix_get_supply s in
     ensure (amount \<le> supply) ''insufficient supply'' (
     arith (checked_sub I128 supply amount) (\<lambda>n. Ok (ix_set_supply n s))))"

definition ix_borrow_index :: "env \<Rightarrow> index_market \<Rightarrow> (int \<times> index_market) result" where
  "ix_borrow_index e s = and_then (accrue_index e s) (\<lambda>s1. Ok (ix_get_borrow_index s1, s1))"

definition ix_debt :: "env \<Rightarrow> address \<Rightarrow> index_market \<Rightarrow> (int \<times> index_market) result" where
  "ix_debt e borrower s = and_then (accrue_index e s) (\<lambda>s1. and_then (debt_value s1 borrower) (\<lambda>v. Ok (v, s1)))"

definition ixs_initialize :: "env \<Rightarrow> address \<Rightarrow> int \<Rightarrow> index_market \<Rightarrow> index_market result" where
  "ixs_initialize e supplier deposit_amount s =
     require_auth e supplier (
     ensure (deposit_amount > 0) ''deposit must be positive'' (
     Ok (ix_set_last_index_ledger (sequence e) (ix_set_borrow_index INDEX_SCALE (ix_set_supply deposit_amount s)))))"

definition ixs_borrow :: "env \<Rightarrow> address \<Rightarrow> int \<Rightarrow> index_market \<Rightarrow> index_market result" where
  "ixs_borrow e borrower amount s =
     require_auth e borrower (
     and_then (accrue_index e s) (\<lambda>s1.
     ensure (amount > 0) ''borrow must be positive'' (
     ensure (ix_get_supply s1 \<ge> amount) ''insufficient liquidity'' (
     arith (checked_add I128 (ix_get_principal s1 borrower) amount) (\<lambda>p.
     let s2 = ix_set_principal borrower p s1 in
     arith (checked_add I128 (ix_get_total_debt s2) amount) (\<lambda>d.
     let s3 = ix_set_total_debt d s2 in
     arith (checked_sub I128 (ix_get_supply s3) amount) (\<lambda>n.
     Ok (ix_set_supply n s3))))))))"

definition ixs_deposit :: "env \<Rightarrow> address \<Rightarrow> int \<Rightarrow> index_market \<Rightarrow> index_market result" where
  "ixs_deposit e supplier amount s =
     require_auth e supplier (
     ensure (amount > 0) ''deposit must be positive'' (
     let supply = ix_get_supply s in
     and_then (if supply = 0 \<and> ix_get_total_debt s > 0 then accrue_index e s else Ok s) (\<lambda>s1.
     arith (checked_add I128 supply amount) (\<lambda>n. Ok (ix_set_supply n s1)))))"

definition ixs_withdraw :: "env \<Rightarrow> address \<Rightarrow> int \<Rightarrow> index_market \<Rightarrow> index_market result" where
  "ixs_withdraw e supplier amount s =
     require_auth e supplier (
     let supply = ix_get_supply s in
     ensure (amount \<le> supply) ''insufficient supply'' (
     arith (checked_sub I128 supply amount) (\<lambda>n. Ok (ix_set_supply n s))))"

definition ixs_borrow_index :: "env \<Rightarrow> index_market \<Rightarrow> (int \<times> index_market) result" where
  "ixs_borrow_index e s = and_then (accrue_index e s) (\<lambda>s1. Ok (ix_get_borrow_index s1, s1))"

definition ixs_debt :: "env \<Rightarrow> address \<Rightarrow> index_market \<Rightarrow> (int \<times> index_market) result" where
  "ixs_debt e borrower s = and_then (accrue_index e s) (\<lambda>s1. and_then (debt_value s1 borrower) (\<lambda>v. Ok (v, s1)))"

datatype index_call =
    IInit address int
  | IBorrow address int
  | IDeposit address int
  | IWithdraw address int
  | IIndex
  | IDebt address

fun ixs_exec :: "env \<Rightarrow> index_call \<Rightarrow> index_market \<Rightarrow> index_market result" where
  "ixs_exec e (IInit a n) s = ixs_initialize e a n s"
| "ixs_exec e (IBorrow a n) s = ixs_borrow e a n s"
| "ixs_exec e (IDeposit a n) s = ixs_deposit e a n s"
| "ixs_exec e (IWithdraw a n) s = ixs_withdraw e a n s"
| "ixs_exec e IIndex s = state_of (ixs_borrow_index e s)"
| "ixs_exec e (IDebt a) s = state_of (ixs_debt e a s)"

lemmas ix_fields = ix_get_supply_def ix_set_supply_def ix_get_borrow_index_def ix_set_borrow_index_def
  ix_get_last_index_ledger_def ix_set_last_index_ledger_def ix_get_principal_def ix_set_principal_def ix_get_total_debt_def
  ix_set_total_debt_def Let_def

lemmas ix_ops = ixs_initialize_def ixs_borrow_def ixs_deposit_def ixs_withdraw_def ixs_borrow_index_def ixs_debt_def

definition index_ok :: "index_market \<Rightarrow> bool" where
  "index_ok s \<longleftrightarrow> 0 \<le> ix_get_borrow_index s \<and> (\<forall>a. 0 \<le> ix_get_principal s a)"

text \<open>Index and principals only go up.\<close>

definition index_le :: "index_market \<Rightarrow> index_market \<Rightarrow> bool" where
  "index_le s t \<longleftrightarrow> ix_get_borrow_index s \<le> ix_get_borrow_index t \<and> (\<forall>a. ix_get_principal s a \<le> ix_get_principal t a)"

lemma accrue_index_le:
  assumes "index_ok s" and "accrue_index e s = Ok s1"
  shows "index_ok s1 \<and> index_le s s1 \<and> im_Debt s1 = im_Debt s"
proof (cases "sequence e \<le> ix_get_last_index_ledger s")
  case True
  with assms show ?thesis by (auto simp: accrue_index_def index_le_def Let_def)
next
  case False
  let ?i = "ix_get_borrow_index s" and ?t = "sequence e - ix_get_last_index_ledger s"
  have "0 \<le> ?i * 100 * ?t"
    using assms(1) False by (simp add: index_ok_def)
  then have "0 \<le> (?i * 100 * ?t) sdiv 10000"
    by (subst sdiv_nonneg_eq) (simp_all add: pos_imp_zdiv_nonneg_iff)
  moreover have "s1 = ix_set_last_index_ledger (sequence e) (ix_set_borrow_index (?i + (?i * 100 * ?t) sdiv 10000) s)"
    using assms(2) False
    by (auto simp: accrue_index_def result_simps int_simps INDEX_GROWTH_BPS_PER_LEDGER_def Let_def split: if_splits)
  ultimately show ?thesis
    using assms(1) by (auto simp: index_ok_def index_le_def ix_fields)
qed

lemma ixs_step:
  assumes ok: "index_ok s" and ex: "ixs_exec e c s = Ok s'" and ni: "\<And>a n. c \<noteq> IInit a n"
  shows "index_ok s' \<and> index_le s s'"
proof (cases c)
  case (IBorrow a n)
  with ex obtain s1 where s1: "accrue_index e s = Ok s1" and n: "0 < n"
    and s': "im_Debt s' = (im_Debt s1)(a \<mapsto> ix_get_principal s1 a + n)" "im_BorrowIndex s' = im_BorrowIndex s1"
    by (auto simp: ix_ops ix_fields result_simps int_simps)
  have "0 \<le> ix_get_principal s1 a"
    using accrue_index_le [OF ok s1] by (simp add: index_ok_def)
  with accrue_index_le [OF ok s1] n s' show ?thesis
    by (auto simp: index_ok_def index_le_def ix_fields)
next
  case (IDeposit a n)
  with ex obtain s1 where s1: "accrue_index e s = Ok s1 \<or> s1 = s"
    and s': "im_Debt s' = im_Debt s1" "im_BorrowIndex s' = im_BorrowIndex s1"
    by (auto simp: ix_ops ix_fields result_simps split: if_splits) metis+
  with accrue_index_le [OF ok, of e s1] ok show ?thesis
    by (auto simp: index_ok_def index_le_def ix_fields)
next
  case (IWithdraw a n)
  with ex ok show ?thesis
    by (auto simp: ix_ops ix_fields index_ok_def index_le_def result_simps)
qed (use ex ni ok in \<open>auto simp: ix_ops result_simps dest: accrue_index_le [OF ok]\<close>)

interpretation index_grows: guarded_steps ixs_exec "\<lambda>s t. index_ok s \<longrightarrow> index_ok t \<and> index_le s t"
  "\<lambda>e c s. \<exists>a n. c = IInit a n"
proof (unfold_locales, goal_cases)
  case (2 s t u)
  then show ?case by (auto simp: index_le_def intro: order_trans)
next
  case (3 e c s s')
  then show ?case using ixs_step [of s e c s'] by blast
qed (auto simp: index_le_def)

lemma debt_value_mono:
  assumes "index_ok s" and "index_le s t" and "debt_value s a = Ok v" and "debt_value t a = Ok w"
  shows "v \<le> w"
proof -
  let ?p = "ix_get_principal s a" and ?q = "ix_get_principal t a"
  let ?i = "ix_get_borrow_index s" and ?j = "ix_get_borrow_index t"
  have nn: "0 \<le> ?p" "?p \<le> ?q" "0 \<le> ?i" "?i \<le> ?j"
    using assms(1,2) by (auto simp: index_ok_def index_le_def)
  have "v = ?p * ?i div INDEX_SCALE" "w = ?q * ?j div INDEX_SCALE"
    using assms(3,4) nn
    by (auto simp: debt_value_def Let_def result_simps int_simps INDEX_SCALE_def sdiv_nonneg_eq split: if_splits)
  moreover have "?p * ?i \<le> ?q * ?j"
    using nn by (intro mult_mono) auto
  ultimately show ?thesis
    by (simp add: INDEX_SCALE_def zdiv_mono1)
qed

text \<open>
  The kept index (\<^verbatim>\<open>interest_index_reset/src/secure.rs\<close>): what a borrower owes can fall in a run only when the
  run contains another initialisation of the market; no deposit, withdrawal or loan reduces it.
\<close>

theorem owed_never_falls:
  assumes "index_ok s" and "debt_value s a = Ok v" and "debt_value (run_calls ixs_exec xs s) a = Ok w" and "w < v"
  shows "\<exists>ys e b n zs. xs = ys @ (e, IInit b n) # zs"
proof (rule ccontr)
  assume "\<not> ?thesis"
  with index_grows.run_guard [where s = s and xs = xs] have "index_ok s \<longrightarrow> index_le s (run_calls ixs_exec xs s)" by blast
  with debt_value_mono [OF assms(1) _ assms(2,3)] assms(1,4) show False by simp
qed

definition ix_demo :: index_market where
  "ix_demo = \<lparr>im_TotalSupply = Some 0, im_BorrowIndex = Some 2000000, im_LastIndexLedger = Some 10, im_Debt = [Address 5 \<mapsto> 100],
     im_TotalDebt = Some 100\<rparr>"

lemma ix_demo_values:
  "debt_value ix_demo (Address 5) = Ok 200"
  "debt_value (run_calls ixs_exec [(signed_env [Address 6] 10, IDeposit (Address 6) 50)] ix_demo) (Address 5) = Ok 200"
  "debt_value (run_calls ixs_exec [(signed_env [Address 6] 10, IInit (Address 6) 50)] ix_demo) (Address 5) = Ok 100"
  by (simp_all add: ix_demo_def debt_value_def ix_ops ix_fields accrue_index_def signed_env_def checked_add_def checked_mul_def
      checked_div_def checked_def in_range_def signed_divide_int_def INDEX_SCALE_def)

theorem owed_never_falls_witness:
  "\<exists>ys e b n zs. [(signed_env [Address 6] 10, IInit (Address 6) 50)] = ys @ (e, IInit b n) # zs"
  by (rule owed_never_falls [OF _ ix_demo_values(1,3)])
     (simp_all add: index_ok_def ix_fields ix_demo_def)

text \<open>
  Without the repair a deposit into an empty pool halves this debt. Both halves share another gap: a loan
  is recorded without the index of its time, so who borrows late owes the growth of the past at once.
\<close>

lemma deposit_resets_index:
  "\<exists>t. ix_deposit (signed_env [Address 6] 10) (Address 6) 50 ix_demo = Ok t \<and> debt_value t (Address 5) = Ok 100"
  by (simp add: ix_demo_def debt_value_def ix_deposit_def ix_fields signed_env_def checked_add_def checked_mul_def
      checked_div_def checked_def in_range_def signed_divide_int_def INDEX_SCALE_def)

lemma late_borrower_overcharged:
  "\<exists>t. ixs_borrow (signed_env [Address 7] 10) (Address 7) 30 (ix_demo\<lparr>im_TotalSupply := Some 50\<rparr>) = Ok t
     \<and> debt_value t (Address 7) = Ok 60"
  by (simp add: ix_demo_def debt_value_def ixs_borrow_def accrue_index_def ix_fields signed_env_def checked_add_def checked_mul_def
      checked_sub_def checked_div_def checked_def in_range_def signed_divide_int_def INDEX_SCALE_def)

section \<open>borrow\_cap\_asset\_mixup\<close>

record borrow_result =
  br_amount :: int
  br_total_borrowed :: int

record global_cap = host +
  gc_BorrowCap :: "int option"
  gc_TotalBorrowed :: "int option"

record asset_cap = host +
  ap_BorrowCap :: "address \<rightharpoonup> int"
  ap_TotalBorrowed :: "address \<rightharpoonup> int"

definition bc_set_borrow_cap :: "env \<Rightarrow> address \<Rightarrow> int \<Rightarrow> global_cap \<Rightarrow> global_cap result" where
  "bc_set_borrow_cap e asset cap s = Ok (publish [''cap''] [VAddr asset, VInt cap] (s\<lparr>gc_BorrowCap := Some cap\<rparr>))"

definition bc_get_borrow_cap :: "global_cap \<Rightarrow> int" where
  "bc_get_borrow_cap s = unwrap_or (gc_BorrowCap s) 0"

definition bc_get_total_borrowed :: "global_cap \<Rightarrow> int" where
  "bc_get_total_borrowed s = unwrap_or (gc_TotalBorrowed s) 0"

definition bc_borrow :: "env \<Rightarrow> address \<Rightarrow> int \<Rightarrow> global_cap \<Rightarrow> (borrow_result \<times> global_cap) result" where
  "bc_borrow e asset amount s =
     (let cap = unwrap_or (gc_BorrowCap s) (ity_max I128) in
      arith (checked_add I128 (unwrap_or (gc_TotalBorrowed s) 0) amount) (\<lambda>new_total.
      ensure (new_total \<le> cap) ''borrow exceeds global cap'' (
      Ok (\<lparr>br_amount = amount, br_total_borrowed = new_total\<rparr>,
          publish [''borrow''] [VAddr asset, VInt amount, VInt new_total] (s\<lparr>gc_TotalBorrowed := Some new_total\<rparr>)))))"

definition bcs_set_borrow_cap :: "env \<Rightarrow> address \<Rightarrow> int \<Rightarrow> asset_cap \<Rightarrow> asset_cap result" where
  "bcs_set_borrow_cap e asset cap s =
     Ok (publish [''cap''] [VAddr asset, VInt cap] (s\<lparr>ap_BorrowCap := (ap_BorrowCap s)(asset \<mapsto> cap)\<rparr>))"

definition bcs_get_borrow_cap :: "asset_cap \<Rightarrow> address \<Rightarrow> int" where
  "bcs_get_borrow_cap s asset = get0 (ap_BorrowCap s) asset"

definition bcs_get_total_borrowed :: "asset_cap \<Rightarrow> address \<Rightarrow> int" where
  "bcs_get_total_borrowed s asset = get0 (ap_TotalBorrowed s) asset"

definition bcs_borrow :: "env \<Rightarrow> address \<Rightarrow> int \<Rightarrow> asset_cap \<Rightarrow> (borrow_result \<times> asset_cap) result" where
  "bcs_borrow e asset amount s =
     (let cap = unwrap_or (ap_BorrowCap s asset) (ity_max I128) in
      arith (checked_add I128 (get0 (ap_TotalBorrowed s) asset) amount) (\<lambda>new_total.
      ensure (new_total \<le> cap) ''borrow exceeds per-asset cap'' (
      Ok (\<lparr>br_amount = amount, br_total_borrowed = new_total\<rparr>,
          publish [''borrow''] [VAddr asset, VInt amount, VInt new_total]
            (s\<lparr>ap_TotalBorrowed := (ap_TotalBorrowed s)(asset \<mapsto> new_total)\<rparr>)))))"

datatype cap_call = CapSet address int | CapBorrow address int

fun bcs_exec :: "env \<Rightarrow> cap_call \<Rightarrow> asset_cap \<Rightarrow> asset_cap result" where
  "bcs_exec e (CapSet a n) s = bcs_set_borrow_cap e a n s"
| "bcs_exec e (CapBorrow a n) s = state_of (bcs_borrow e a n s)"

fun on_asset :: "address \<Rightarrow> cap_call \<Rightarrow> bool" where
  "on_asset a (CapSet b n) = (b = a)"
| "on_asset a (CapBorrow b n) = (b = a)"

lemmas bc_defs = bcs_set_borrow_cap_def bcs_borrow_def publish_def Let_def

interpretation per_asset: isolated_part bcs_exec "\<lambda>s. (ap_BorrowCap s a, ap_TotalBorrowed s a)" "on_asset a"
  for a
proof (unfold_locales, goal_cases)
  case (1 c s t e s')
  then show ?case
    by (cases c) (auto simp: bc_defs result_simps get0_def)
next
  case (2 c e s s')
  then show ?case
    by (cases c) (auto simp: bc_defs result_simps)
qed

text \<open>
  Caps per asset (\<^verbatim>\<open>borrow_cap_asset_mixup/src/secure.rs\<close>): the cap and the amount borrowed of an asset develop in
  every run exactly as if the calls for the other assets had not been made.
\<close>

theorem asset_caps_independent:
  "ap_BorrowCap (run_calls bcs_exec xs s) a = ap_BorrowCap (run_calls bcs_exec (filter (\<lambda>(e, c). on_asset a c) xs) s) a
   \<and> ap_TotalBorrowed (run_calls bcs_exec xs s) a
       = ap_TotalBorrowed (run_calls bcs_exec (filter (\<lambda>(e, c). on_asset a c) xs) s) a"
  using per_asset.run_isolated [where xs = xs and s = s and t = s and a = a] by simp

lemma shared_cap_blocks:
  assumes "gc_BorrowCap s = Some 500" and "gc_TotalBorrowed s = None"
  shows "\<exists>r s1. bc_borrow e (Address 1) 500 s = Ok (r, s1) \<and> bc_borrow e (Address 2) 1 s1 = Err (Panic ''borrow exceeds global cap'')"
  using assms by (simp add: bc_borrow_def publish_def Let_def checked_add_def checked_def in_range_def)

section \<open>liquidation\_dust\_rounding\<close>

definition CLOSE_FACTOR :: int where "CLOSE_FACTOR = 50"
definition LD_SCALE :: int where "LD_SCALE = 100"

record liq_market = host +
  lm_Debt :: "address \<rightharpoonup> int"
  lm_Collateral :: "address \<rightharpoonup> int"

record liquidation_result =
  lr_repay_amount :: int
  lr_seize_amount :: int

definition ld_borrow :: "env \<Rightarrow> address \<Rightarrow> int \<Rightarrow> int \<Rightarrow> liq_market \<Rightarrow> liq_market result" where
  "ld_borrow e borrower d c s =
     require_auth e borrower (
     let s1 = s\<lparr>lm_Debt := (lm_Debt s)(borrower \<mapsto> d)\<rparr> in
     Ok (publish [''borrow''] [VAddr borrower, VInt d, VInt c] (s1\<lparr>lm_Collateral := (lm_Collateral s1)(borrower \<mapsto> c)\<rparr>)))"

definition ld_get_debt :: "liq_market \<Rightarrow> address \<Rightarrow> int" where
  "ld_get_debt s borrower = get0 (lm_Debt s) borrower"

definition ld_get_collateral :: "liq_market \<Rightarrow> address \<Rightarrow> int" where
  "ld_get_collateral s borrower = get0 (lm_Collateral s) borrower"

definition apply_liquidation :: "address \<Rightarrow> int \<Rightarrow> int \<Rightarrow> liq_market \<Rightarrow> (liquidation_result \<times> liq_market) result" where
  "apply_liquidation borrower repay_amount seize_amount s =
     arith (checked_sub I128 (get0 (lm_Debt s) borrower) repay_amount) (\<lambda>new_debt.
     arith (checked_sub I128 (get0 (lm_Collateral s) borrower) seize_amount) (\<lambda>new_collateral.
     let s1 = s\<lparr>lm_Debt := (lm_Debt s)(borrower \<mapsto> new_debt)\<rparr>;
         s2 = s1\<lparr>lm_Collateral := (lm_Collateral s1)(borrower \<mapsto> new_collateral)\<rparr> in
     Ok (\<lparr>lr_repay_amount = repay_amount, lr_seize_amount = seize_amount\<rparr>,
         publish [''liquidate''] [VAddr borrower, VInt repay_amount, VInt seize_amount] s2)))"

definition ld_liquidate :: "env \<Rightarrow> address \<Rightarrow> liq_market \<Rightarrow> (liquidation_result \<times> liq_market) result" where
  "ld_liquidate e borrower s =
     arith (checked_mul I128 (get0 (lm_Debt s) borrower) CLOSE_FACTOR) (\<lambda>m.
     arith (checked_div I128 m LD_SCALE) (\<lambda>repay_amount.
     arith (checked_mul I128 (get0 (lm_Collateral s) borrower) CLOSE_FACTOR) (\<lambda>m2.
     arith (checked_div I128 m2 LD_SCALE) (\<lambda>seize_amount.
     apply_liquidation borrower repay_amount seize_amount s))))"

definition ceil_div :: "int \<Rightarrow> int \<Rightarrow> (int \<Rightarrow> 'a result) \<Rightarrow> 'a result" where
  "ceil_div numerator denominator k =
     arith (checked_add I128 numerator denominator) (\<lambda>a.
     arith (checked_sub I128 a 1) (\<lambda>b.
     arith (checked_div I128 b denominator) k))"

definition lds_borrow :: "env \<Rightarrow> address \<Rightarrow> int \<Rightarrow> int \<Rightarrow> liq_market \<Rightarrow> liq_market result" where
  "lds_borrow e borrower d c s =
     require_auth e borrower (
     let s1 = s\<lparr>lm_Debt := (lm_Debt s)(borrower \<mapsto> d)\<rparr> in
     Ok (publish [''borrow''] [VAddr borrower, VInt d, VInt c] (s1\<lparr>lm_Collateral := (lm_Collateral s1)(borrower \<mapsto> c)\<rparr>)))"

definition lds_get_debt :: "liq_market \<Rightarrow> address \<Rightarrow> int" where
  "lds_get_debt s borrower = get0 (lm_Debt s) borrower"

definition lds_get_collateral :: "liq_market \<Rightarrow> address \<Rightarrow> int" where
  "lds_get_collateral s borrower = get0 (lm_Collateral s) borrower"

definition lds_liquidate :: "env \<Rightarrow> address \<Rightarrow> liq_market \<Rightarrow> (liquidation_result \<times> liq_market) result" where
  "lds_liquidate e borrower s =
     (let current_debt = get0 (lm_Debt s) borrower; current_collateral = get0 (lm_Collateral s) borrower in
      arith (checked_mul I128 current_debt CLOSE_FACTOR) (\<lambda>m.
      ceil_div m LD_SCALE (\<lambda>calc_repay.
      let repay_amount = (if calc_repay = 0 \<and> current_debt > 0 then current_debt
                          else if calc_repay > 0 then calc_repay else 0);
          actual_repay = min repay_amount current_debt in
      arith (checked_mul I128 current_collateral CLOSE_FACTOR) (\<lambda>m2.
      ceil_div m2 LD_SCALE (\<lambda>calc_seize.
      let seize_amount = min calc_seize current_collateral in
      apply_liquidation borrower actual_repay seize_amount s)))))"

lemmas ld_defs = ld_liquidate_def lds_liquidate_def apply_liquidation_def lds_get_debt_def lds_get_collateral_def ld_get_debt_def
  ld_get_collateral_def CLOSE_FACTOR_def LD_SCALE_def Let_def publish_def

lemma publish_lm [simp]: "lm_Debt (publish t x s) = lm_Debt s" "lm_Collateral (publish t x s) = lm_Collateral s"
  by (cases s, simp add: publish_def)+









text \<open>With the rounding down a debt of one unit is never closed, however often it is liquidated.\<close>

lemma dust_never_closed:
  assumes "lm_Debt s b = Some 1"
  shows "ld_liquidate e b s = Ok (r, t) \<Longrightarrow> lr_repay_amount r = 0 \<and> lm_Debt t b = Some 1"
  using assms by (auto simp: ld_defs get0_def result_simps int_simps signed_divide_int_def)

section \<open>mixed\_collateral\_decimals\<close>

record decimals_pool =
  dp_Price :: "string \<rightharpoonup> int"
  dp_Decimals :: "string \<rightharpoonup> int"
  dp_Collateral :: "address \<rightharpoonup> int"
  dp_Debt :: "address \<rightharpoonup> int"

definition mc_register_token :: "env \<Rightarrow> string \<Rightarrow> int \<Rightarrow> int \<Rightarrow> decimals_pool \<Rightarrow> decimals_pool result" where
  "mc_register_token e token price_usd decimals s =
     (let s1 = s\<lparr>dp_Price := (dp_Price s)(token \<mapsto> price_usd)\<rparr> in
      Ok (s1\<lparr>dp_Decimals := (dp_Decimals s1)(token \<mapsto> decimals)\<rparr>))"

definition mc_deposit :: "env \<Rightarrow> address \<Rightarrow> string \<Rightarrow> int \<Rightarrow> decimals_pool \<Rightarrow> decimals_pool result" where
  "mc_deposit e user token amount s =
     require_auth e user (
     arith (checked_add I128 (get0 (dp_Collateral s) user) amount) (\<lambda>n.
     Ok (s\<lparr>dp_Collateral := (dp_Collateral s)(user \<mapsto> n)\<rparr>)))"

definition mc_borrow :: "env \<Rightarrow> address \<Rightarrow> int \<Rightarrow> decimals_pool \<Rightarrow> (int \<times> decimals_pool) result" where
  "mc_borrow e user amount s =
     require_auth e user (
     arith (checked_add I128 (get0 (dp_Debt s) user) amount) (\<lambda>n.
     ensure (get0 (dp_Collateral s) user \<ge> n) ''undercollateralised'' (
     Ok (amount, s\<lparr>dp_Debt := (dp_Debt s)(user \<mapsto> n)\<rparr>))))"

definition mc_get_collateral :: "decimals_pool \<Rightarrow> address \<Rightarrow> int" where
  "mc_get_collateral s user = get0 (dp_Collateral s) user"

definition mc_get_debt :: "decimals_pool \<Rightarrow> address \<Rightarrow> int" where
  "mc_get_debt s user = get0 (dp_Debt s) user"

definition to_usd :: "int \<Rightarrow> int \<Rightarrow> int \<Rightarrow> (int \<Rightarrow> 'a result) \<Rightarrow> 'a result" where
  "to_usd raw_amount price_usd decimals k =
     arith (checked I128 (10 ^ nat decimals)) (\<lambda>divisor.
     arith (checked_mul I128 raw_amount price_usd) (\<lambda>m.
     arith (checked_div I128 m divisor) k))"

definition mcs_register_token :: "env \<Rightarrow> string \<Rightarrow> int \<Rightarrow> int \<Rightarrow> decimals_pool \<Rightarrow> decimals_pool result" where
  "mcs_register_token e token price_usd decimals s =
     (let s1 = s\<lparr>dp_Price := (dp_Price s)(token \<mapsto> price_usd)\<rparr> in
      Ok (s1\<lparr>dp_Decimals := (dp_Decimals s1)(token \<mapsto> decimals)\<rparr>))"

definition mcs_deposit :: "env \<Rightarrow> address \<Rightarrow> string \<Rightarrow> int \<Rightarrow> decimals_pool \<Rightarrow> decimals_pool result" where
  "mcs_deposit e user token amount s =
     require_auth e user (
     to_usd amount (get0 (dp_Price s) token) (get0 (dp_Decimals s) token) (\<lambda>usd_value.
     arith (checked_add I128 (get0 (dp_Collateral s) user) usd_value) (\<lambda>n.
     Ok (s\<lparr>dp_Collateral := (dp_Collateral s)(user \<mapsto> n)\<rparr>))))"

definition mcs_borrow :: "env \<Rightarrow> address \<Rightarrow> int \<Rightarrow> decimals_pool \<Rightarrow> (int \<times> decimals_pool) result" where
  "mcs_borrow e user amount s =
     require_auth e user (
     arith (checked_add I128 (get0 (dp_Debt s) user) amount) (\<lambda>n.
     ensure (get0 (dp_Collateral s) user \<ge> n) ''undercollateralised'' (
     Ok (amount, s\<lparr>dp_Debt := (dp_Debt s)(user \<mapsto> n)\<rparr>))))"

text \<open>
  The normalised deposit (\<^verbatim>\<open>mixed_collateral_decimals/src/secure.rs\<close>): whole tokens are credited at their price,
  whatever the number of decimals the token was registered with.
\<close>

theorem whole_tokens_at_price:
  assumes "mcs_deposit e a t (n * 10 ^ nat (get0 (dp_Decimals s) t)) s = Ok s'" and "0 \<le> n" and "0 \<le> get0 (dp_Price s) t"
  shows "mc_get_collateral s' a = mc_get_collateral s a + n * get0 (dp_Price s) t"
proof -
  have "(n * 10 ^ k * get0 (dp_Price s) t) sdiv 10 ^ k = n * get0 (dp_Price s) t" for k
    using assms(2,3) by (subst sdiv_nonneg_eq) simp_all
  with assms(1) show ?thesis
    by (auto simp: mcs_deposit_def to_usd_def mc_get_collateral_def result_simps int_simps)
qed

definition mc_demo :: "int \<Rightarrow> decimals_pool" where
  "mc_demo d = \<lparr>dp_Price = [''T'' \<mapsto> 2000000], dp_Decimals = [''T'' \<mapsto> d], dp_Collateral = Map.empty, dp_Debt = Map.empty\<rparr>"

theorem whole_tokens_at_price_witness:
  "\<exists>s'. mcs_deposit (signed_env [Address 5] 1) (Address 5) ''T'' (3 * 10 ^ 18) (mc_demo 18) = Ok s'
     \<and> mc_get_collateral s' (Address 5) = 6000000"
proof -
  have "\<exists>s'. mcs_deposit (signed_env [Address 5] 1) (Address 5) ''T'' (3 * 10 ^ 18) (mc_demo 18) = Ok s'"
    by (simp add: mcs_deposit_def to_usd_def mc_demo_def signed_env_def checked_add_def checked_mul_def checked_div_def checked_def
        in_range_def signed_divide_int_def)
  then obtain s' where s': "mcs_deposit (signed_env [Address 5] 1) (Address 5) ''T'' (3 * 10 ^ 18) (mc_demo 18) = Ok s'" ..
  with whole_tokens_at_price [of "signed_env [Address 5] 1" "Address 5" "''T''" 3 "mc_demo 18" s'] show ?thesis
    by (simp add: mc_demo_def mc_get_collateral_def)
qed

text \<open>Counted in raw units, the same three tokens are worth a trillion times as much with 18 decimals as with 6.\<close>

lemma raw_units_inflate:
  "authorized e a \<Longrightarrow> \<exists>t. mc_deposit e a ''T'' (3 * 10 ^ 18) (mc_demo 18) = Ok t \<and> mc_get_collateral t a = 10 ^ 12 * (3 * 10 ^ 6)"
  by (simp add: mc_deposit_def mc_get_collateral_def mc_demo_def checked_add_def checked_def in_range_def)

section \<open>inverted\_health\_factor and uncapped\_liquidation\_bonus\<close>

definition HEALTH_FACTOR_ONE :: int where "HEALTH_FACTOR_ONE = 10000"

definition health_factor :: "int \<Rightarrow> int \<Rightarrow> (int \<Rightarrow> 'a result) \<Rightarrow> 'a result" where
  "health_factor c d k = arith (checked_mul I128 c HEALTH_FACTOR_ONE) (\<lambda>m. arith (checked_div I128 m d) k)"

definition vulnerable_can_liquidate :: "int \<Rightarrow> int \<Rightarrow> bool result" where
  "vulnerable_can_liquidate c d = health_factor c d (\<lambda>h. Ok (h > HEALTH_FACTOR_ONE))"

definition secure_can_liquidate :: "int \<Rightarrow> int \<Rightarrow> bool result" where
  "secure_can_liquidate c d = health_factor c d (\<lambda>h. Ok (h < HEALTH_FACTOR_ONE))"

text \<open>The corrected comparison decides exactly whether the collateral is below the debt; the rounding does not matter.\<close>

lemma secure_can_liquidate_exact:
  assumes "0 \<le> c" and "0 < d" and "in_range I128 (c * 10000)"
  shows "secure_can_liquidate c d = Ok (c < d)"
proof -
  have q: "(c * 10000) sdiv d = c * 10000 div d"
    using assms by (intro sdiv_nonneg_eq) auto
  have "c * 10000 div d \<le> c * 10000 div 1"
    using assms by (intro zdiv_mono2) auto
  moreover have "0 \<le> c * 10000 div d"
    using assms by (simp add: pos_imp_zdiv_nonneg_iff)
  ultimately have "in_range I128 (c * 10000 div d)"
    using assms(3) by (simp add: in_range_def)
  moreover have "c * 10000 div d < 10000 \<longleftrightarrow> c < d"
    using assms(2) by (simp add: zdiv_less_iff)
  ultimately show ?thesis
    using assms q by (simp add: secure_can_liquidate_def health_factor_def HEALTH_FACTOR_ONE_def checked_mul_def checked_div_def)
qed

definition MAX_BONUS_BPS :: int where "MAX_BONUS_BPS = 1500"

definition seized_with_bonus :: "int \<Rightarrow> int \<Rightarrow> int result" where
  "seized_with_bonus debt_repaid bps =
     arith (checked_mul I128 debt_repaid bps) (\<lambda>m.
     arith (checked_div I128 m 10000) (\<lambda>b.
     arith (checked_add I128 debt_repaid b) Ok))"

definition vulnerable_liquidate :: "int \<Rightarrow> int \<Rightarrow> int result" where
  "vulnerable_liquidate debt_repaid bonus_bps = seized_with_bonus debt_repaid bonus_bps"

definition secure_set_bonus :: "int \<Rightarrow> int result" where
  "secure_set_bonus bonus_bps = panic_if (bonus_bps > MAX_BONUS_BPS) ''bonus exceeds maximum allowed'' (Ok bonus_bps)"

definition secure_liquidate :: "int \<Rightarrow> int \<Rightarrow> int result" where
  "secure_liquidate debt_repaid bonus_bps = and_then (secure_set_bonus bonus_bps) (seized_with_bonus debt_repaid)"

text \<open>With the cap the collateral seized is at most 115 per cent of the debt repaid.\<close>

lemma seizure_bounded:
  assumes "secure_liquidate d b = Ok n" and "0 \<le> d" and "0 \<le> b"
  shows "d \<le> n \<and> 100 * n \<le> 115 * d"
proof -
  have b: "b \<le> 1500" and n: "n = d + d * b div 10000"
    using assms
    by (auto simp: secure_liquidate_def secure_set_bonus_def seized_with_bonus_def MAX_BONUS_BPS_def result_simps int_simps sdiv_nonneg_eq)
  have "d * b \<le> d * 1500"
    using b assms(2) by (rule mult_left_mono)
  then have "100 * (d * b div 10000) \<le> 15 * d" by linarith
  moreover have "0 \<le> d * b div 10000"
    using assms(2,3) by (simp add: pos_imp_zdiv_nonneg_iff)
  ultimately show ?thesis using n by simp
qed

end
