(* ===== verification/Rewards.thy ===== *)
theory Rewards
  imports Soroban_Prelude
begin

text \<open>
  The reward and slashing crates under \<^verbatim>\<open>src/vulnerable/\<close>: \<^verbatim>\<open>reward_checkpoint_missing\<close>,
  \<^verbatim>\<open>reward_debt_not_updated\<close>, \<^verbatim>\<open>epoch_claim_no_advance\<close>, \<^verbatim>\<open>underfunded_reward_pool\<close>, \<^verbatim>\<open>double_claim\<close> and
  \<^verbatim>\<open>slash_without_evidence\<close>, with the repaired half of each that has one. Shown: what the repairs pay in a
  whole run is bounded by what was earned, and a stake is slashed only on finalised evidence.
\<close>

section \<open>reward\_checkpoint\_missing and reward\_debt\_not\_updated\<close>

text \<open>The two crates share their storage. Amounts are \<^verbatim>\<open>u64\<close> and saturate.\<close>

record share_rewards =
  sr_AccRewardPerShare :: "int option"
  sr_Stake :: "address \<rightharpoonup> int"
  sr_RewardDebt :: "address \<rightharpoonup> int"

definition rc_get_acc :: "share_rewards \<Rightarrow> int" where
  "rc_get_acc s = unwrap_or (sr_AccRewardPerShare s) 0"

definition rc_get_stake :: "share_rewards \<Rightarrow> address \<Rightarrow> int" where
  "rc_get_stake s user = get0 (sr_Stake s) user"

definition rc_get_debt :: "share_rewards \<Rightarrow> address \<Rightarrow> int" where
  "rc_get_debt s user = get0 (sr_RewardDebt s) user"

definition rc_set_debt :: "address \<Rightarrow> int \<Rightarrow> share_rewards \<Rightarrow> share_rewards" where
  "rc_set_debt user d s = s\<lparr>sr_RewardDebt := (sr_RewardDebt s)(user \<mapsto> d)\<rparr>"

text \<open>\<^verbatim>\<open>acc.saturating_mul(stake) / 1_000_0000\<close>.\<close>

definition share_of :: "int \<Rightarrow> int \<Rightarrow> int" where
  "share_of acc stake = saturate U64 (acc * stake) div 10000000"

definition rc_initialize :: "env \<Rightarrow> int \<Rightarrow> share_rewards \<Rightarrow> share_rewards result" where
  "rc_initialize e acc_reward_per_share s = Ok (s\<lparr>sr_AccRewardPerShare := Some acc_reward_per_share\<rparr>)"

definition rc_add_rewards :: "env \<Rightarrow> int \<Rightarrow> share_rewards \<Rightarrow> share_rewards result" where
  "rc_add_rewards e reward_per_share_delta s =
     Ok (s\<lparr>sr_AccRewardPerShare := Some (saturate U64 (rc_get_acc s + reward_per_share_delta))\<rparr>)"

definition rc_stake :: "env \<Rightarrow> address \<Rightarrow> int \<Rightarrow> share_rewards \<Rightarrow> share_rewards result" where
  "rc_stake e user amount s = require_auth e user (Ok (s\<lparr>sr_Stake := (sr_Stake s)(user \<mapsto> amount)\<rparr>))"

definition rc_claim_rewards :: "env \<Rightarrow> address \<Rightarrow> share_rewards \<Rightarrow> (int \<times> share_rewards) result" where
  "rc_claim_rewards e user s =
     require_auth e user (
     let entitled = share_of (rc_get_acc s) (rc_get_stake s user);
         pending = saturate U64 (entitled - rc_get_debt s user) in
     Ok (pending, rc_set_debt user entitled s))"

definition rcs_initialize :: "env \<Rightarrow> int \<Rightarrow> share_rewards \<Rightarrow> share_rewards result" where
  "rcs_initialize e acc_reward_per_share s = Ok (s\<lparr>sr_AccRewardPerShare := Some acc_reward_per_share\<rparr>)"

definition rcs_add_rewards :: "env \<Rightarrow> int \<Rightarrow> share_rewards \<Rightarrow> share_rewards result" where
  "rcs_add_rewards e reward_per_share_delta s =
     Ok (s\<lparr>sr_AccRewardPerShare := Some (saturate U64 (rc_get_acc s + reward_per_share_delta))\<rparr>)"

definition rcs_stake :: "env \<Rightarrow> address \<Rightarrow> int \<Rightarrow> share_rewards \<Rightarrow> share_rewards result" where
  "rcs_stake e user amount s =
     require_auth e user (
     let new_total_stake = saturate U64 (rc_get_stake s user + amount);
         acc = rc_get_acc s;
         s1 = s\<lparr>sr_Stake := (sr_Stake s)(user \<mapsto> new_total_stake)\<rparr> in
     Ok (rc_set_debt user (share_of acc new_total_stake) s1))"

definition rcs_claim_rewards :: "env \<Rightarrow> address \<Rightarrow> share_rewards \<Rightarrow> (int \<times> share_rewards) result" where
  "rcs_claim_rewards e user s =
     require_auth e user (
     let entitled = share_of (rc_get_acc s) (rc_get_stake s user);
         pending = saturate U64 (entitled - rc_get_debt s user) in
     Ok (pending, rc_set_debt user entitled s))"

definition rn_stake :: "env \<Rightarrow> address \<Rightarrow> int \<Rightarrow> share_rewards \<Rightarrow> share_rewards result" where
  "rn_stake e user amount s =
     require_auth e user (
     let s1 = s\<lparr>sr_Stake := (sr_Stake s)(user \<mapsto> amount)\<rparr> in
     Ok (rc_set_debt user (share_of (rc_get_acc s1) amount) s1))"

definition rn_initialize :: "env \<Rightarrow> int \<Rightarrow> share_rewards \<Rightarrow> share_rewards result" where
  "rn_initialize e acc_reward_per_share s = Ok (s\<lparr>sr_AccRewardPerShare := Some acc_reward_per_share\<rparr>)"

definition rn_add_rewards :: "env \<Rightarrow> int \<Rightarrow> share_rewards \<Rightarrow> share_rewards result" where
  "rn_add_rewards e reward_per_share_delta s = 
     Ok (s\<lparr>sr_AccRewardPerShare := Some (saturate U64 (rc_get_acc s + reward_per_share_delta))\<rparr>)"

definition rn_claim_rewards :: "env \<Rightarrow> address \<Rightarrow> share_rewards \<Rightarrow> (int \<times> share_rewards) result" where
  "rn_claim_rewards e user s =
     require_auth e user (
     let entitled = share_of (rc_get_acc s) (rc_get_stake s user) in
     Ok (saturate U64 (entitled - rc_get_debt s user), s))"

text \<open>The calls after deployment: staking, distributing, claiming. Amounts come from the \<^verbatim>\<open>u64\<close> of the interface.\<close>

datatype reward_call =
    RStake address int
  | RAdd int
  | RClaim address

fun rcs_exec :: "env \<Rightarrow> reward_call \<Rightarrow> share_rewards \<Rightarrow> share_rewards result" where
  "rcs_exec e (RStake a n) s = (if in_range U64 n then rcs_stake e a n s else Err MissingEntry)"
| "rcs_exec e (RAdd n) s = (if in_range U64 n then rcs_add_rewards e n s else Err MissingEntry)"
| "rcs_exec e (RClaim a) s = state_of (rcs_claim_rewards e a s)"

fun rcs_payout :: "address \<Rightarrow> env \<Rightarrow> reward_call \<Rightarrow> share_rewards \<Rightarrow> int" where
  "rcs_payout u e (RClaim a) s = (if a = u then saturate U64 (share_of (rc_get_acc s) (rc_get_stake s a) - rc_get_debt s a) else 0)"
| "rcs_payout u e c s = 0"

lemmas rc_fields = rc_get_acc_def rc_get_stake_def rc_get_debt_def rc_set_debt_def
lemmas rcs_defs = rcs_stake_def rcs_add_rewards_def rcs_claim_rewards_def Let_def

lemma share_of_mono: "0 \<le> a \<Longrightarrow> a \<le> b \<Longrightarrow> 0 \<le> x \<Longrightarrow> x \<le> y \<Longrightarrow> share_of a x \<le> share_of b y"
  by (auto simp: share_of_def saturate_def intro!: zdiv_mono1 mult_mono min.mono)

lemma share_of_range: "0 \<le> share_of a x" "share_of a x \<le> ity_max U64"
  by (auto simp: share_of_def saturate_def)

lemma saturate_U64_le: "0 \<le> x \<Longrightarrow> 0 \<le> n \<Longrightarrow> x \<le> ity_max U64 \<Longrightarrow> x \<le> saturate U64 (x + n)"
  by (simp add: saturate_def)

text \<open>Values of the storage types, and no account was credited more than its share.\<close>

definition rewards_ok :: "share_rewards \<Rightarrow> bool" where
  "rewards_ok s \<longleftrightarrow> in_range U64 (rc_get_acc s) \<and> (\<forall>a. in_range U64 (rc_get_stake s a)
     \<and> 0 \<le> rc_get_debt s a \<and> rc_get_debt s a \<le> share_of (rc_get_acc s) (rc_get_stake s a))"

lemma rewards_ok_at:
  assumes "rewards_ok s"
  shows "0 \<le> rc_get_acc s" "rc_get_acc s \<le> ity_max U64" "0 \<le> rc_get_stake s a" "rc_get_stake s a \<le> ity_max U64"
    "0 \<le> rc_get_debt s a" "rc_get_debt s a \<le> share_of (rc_get_acc s) (rc_get_stake s a)"
  using assms by (auto simp: rewards_ok_def in_range_def)

lemma rcs_step:
  assumes ok: "rewards_ok s" and ex: "rcs_exec e c s = Ok s'"
  shows "rewards_ok s' \<and> rc_get_debt s u + rcs_payout u e c s \<le> rc_get_debt s' u"
proof (cases c)
  case (RStake a n)
  let ?n = "saturate U64 (rc_get_stake s a + n)"
  have n: "0 \<le> n" and s': "s' = rc_set_debt a (share_of (rc_get_acc s) ?n) (s\<lparr>sr_Stake := (sr_Stake s)(a \<mapsto> ?n)\<rparr>)"
    using ex RStake by (auto simp: rcs_defs result_simps in_range_def split: if_splits)
  have "rc_get_debt s a \<le> share_of (rc_get_acc s) ?n"
    using rewards_ok_at(1,2) [OF ok] rewards_ok_at(3-6) [OF ok, of a] n saturate_U64_le [of "rc_get_stake s a" n]
    by (intro order_trans [OF rewards_ok_at(6) [OF ok] share_of_mono]) auto
  with ok RStake show ?thesis
    by (auto simp: s' rewards_ok_def rc_fields share_of_range)
next
  case (RAdd n)
  let ?a = "saturate U64 (rc_get_acc s + n)"
  have n: "0 \<le> n" and s': "s' = s\<lparr>sr_AccRewardPerShare := Some ?a\<rparr>"
    using ex RAdd by (auto simp: rcs_defs in_range_def split: if_splits)
  have "rc_get_debt s b \<le> share_of ?a (rc_get_stake s b)" for b
    using rewards_ok_at(1,2) [OF ok] rewards_ok_at(3-6) [OF ok, of b] n saturate_U64_le [of "rc_get_acc s" n]
    by (intro order_trans [OF rewards_ok_at(6) [OF ok] share_of_mono]) auto
  with ok RAdd show ?thesis
    by (auto simp: s' rewards_ok_def rc_fields)
next
  case (RClaim a)
  let ?e = "share_of (rc_get_acc s) (rc_get_stake s a)"
  have s': "s' = rc_set_debt a ?e s"
    using ex RClaim by (auto simp: rcs_defs result_simps)
  have "saturate U64 (?e - rc_get_debt s a) = ?e - rc_get_debt s a"
    using rewards_ok_at(1,2) [OF ok] rewards_ok_at(3-6) [OF ok, of a] share_of_range [of "rc_get_acc s" "rc_get_stake s a"]
    by (intro saturate_id) (auto simp: in_range_def)
  with ok RClaim show ?thesis
    by (auto simp: s' rewards_ok_def rc_fields share_of_range)
qed

interpretation reward_flow: growing_flow rcs_exec rewards_ok "\<lambda>s. rc_get_debt s u" "rcs_payout u"
  for u
  by unfold_locales (use rcs_step in blast)+

text \<open>
  The checkpoint (\<^verbatim>\<open>reward_checkpoint_missing/src/secure.rs\<close>): over any run of stakes, distributions and claims,
  what an account is paid in all is at most its share at the end, the accumulated reward per share times its
  stake; so nothing is paid twice and nothing for the time before a stake.
\<close>

theorem rewards_never_overpaid:
  assumes "rewards_ok s"
  shows "rc_get_debt s u + run_flow rcs_exec (rcs_payout u) xs s
     \<le> share_of (rc_get_acc (run_calls rcs_exec xs s)) (rc_get_stake (run_calls rcs_exec xs s) u)"
  using reward_flow.run_grows [where s = s and u = u and xs = xs] reward_flow.run_inv [where s = s and xs = xs] assms
    rewards_ok_at(6) [of "run_calls rcs_exec xs s" u] by linarith

definition rewards_empty :: share_rewards where
  "rewards_empty = \<lparr>sr_AccRewardPerShare = Some 5000000, sr_Stake = Map.empty, sr_RewardDebt = Map.empty\<rparr>"

definition reward_calls :: "(env \<times> reward_call) list" where
  "reward_calls = [(signed_env [Address 5] 1, RStake (Address 5) 100), (signed_env [] 2, RAdd 10000000),
     (signed_env [Address 5] 3, RClaim (Address 5)), (signed_env [Address 5] 4, RClaim (Address 5))]"

theorem rewards_never_overpaid_witness:
  "run_flow rcs_exec (rcs_payout (Address 5)) reward_calls rewards_empty = 100
   \<and> rc_get_debt rewards_empty (Address 5) + 100 \<le> share_of (rc_get_acc (run_calls rcs_exec reward_calls rewards_empty))
       (rc_get_stake (run_calls rcs_exec reward_calls rewards_empty) (Address 5))"
proof -
  have "run_flow rcs_exec (rcs_payout (Address 5)) reward_calls rewards_empty = 100"
    by (simp add: reward_calls_def rewards_empty_def rcs_defs rc_fields share_of_def saturate_def in_range_def signed_env_def)
  moreover have "rewards_ok rewards_empty"
    by (simp add: rewards_ok_def rewards_empty_def rc_fields share_of_def saturate_def in_range_def)
  ultimately show ?thesis
    using rewards_never_overpaid [of rewards_empty "Address 5" reward_calls] by simp
qed

text \<open>
  The price of that checkpoint: adding to a stake sets the debt to the whole new share, so what was earned
  and not yet claimed is forfeited.
\<close>

lemma restake_forfeits_pending:
  assumes "authorized e a"
  shows "\<exists>s1 s2. rcs_stake e a 0 s = Ok s1 \<and> rcs_claim_rewards e a s1 = Ok (0, s2)"
  using assms by (simp add: rcs_defs rc_fields saturate_def)

text \<open>Without the checkpoint the first claim pays for the whole past; without the debt update every claim pays again.\<close>

lemma claim_before_stake:
  assumes "authorized e a" and "rc_get_acc s = 5000000" and "rc_get_debt s a = 0"
  shows "\<exists>s1 s2. rc_stake e a 100 s = Ok s1 \<and> rc_claim_rewards e a s1 = Ok (50, s2)"
  using assms by (simp add: rc_stake_def rc_claim_rewards_def rc_fields share_of_def saturate_def Let_def)

lemma claims_repeat:
  "rn_claim_rewards e a s = Ok (n, s') \<Longrightarrow> s' = s"
  by (auto simp: rn_claim_rewards_def result_simps Let_def)

section \<open>epoch\_claim\_no\_advance\<close>

record epoch_rewards =
  er_CurrentEpoch :: "int option"
  er_RewardPerEpoch :: "int option"
  er_LastClaimedEpoch :: "address \<rightharpoonup> int"

definition ep_init :: "env \<Rightarrow> int \<Rightarrow> int \<Rightarrow> epoch_rewards \<Rightarrow> epoch_rewards result" where
  "ep_init e initial_epoch reward_per_epoch s =
     Ok (s\<lparr>er_CurrentEpoch := Some initial_epoch, er_RewardPerEpoch := Some reward_per_epoch\<rparr>)"

definition ep_advance_epoch :: "env \<Rightarrow> epoch_rewards \<Rightarrow> epoch_rewards result" where
  "ep_advance_epoch e s =
     arith (checked_add U64 (unwrap_or (er_CurrentEpoch s) 0) 1) (\<lambda>n. Ok (s\<lparr>er_CurrentEpoch := Some n\<rparr>))"

definition ep_current_epoch :: "epoch_rewards \<Rightarrow> int" where
  "ep_current_epoch s = unwrap_or (er_CurrentEpoch s) 0"

definition ep_reward_per_epoch :: "epoch_rewards \<Rightarrow> int" where
  "ep_reward_per_epoch s = unwrap_or (er_RewardPerEpoch s) 0"

definition ep_claim_vulnerable :: "env \<Rightarrow> address \<Rightarrow> epoch_rewards \<Rightarrow> (int \<times> epoch_rewards) result" where
  "ep_claim_vulnerable e user s = Ok (unwrap_or (er_RewardPerEpoch s) 0, s)"

definition ep_get_last_claimed_epoch :: "epoch_rewards \<Rightarrow> address \<Rightarrow> int" where
  "ep_get_last_claimed_epoch s user = get0 (er_LastClaimedEpoch s) user"

definition eps_init :: "env \<Rightarrow> int \<Rightarrow> int \<Rightarrow> epoch_rewards \<Rightarrow> epoch_rewards result" where
  "eps_init e initial_epoch reward_per_epoch s =
     Ok (s\<lparr>er_CurrentEpoch := Some initial_epoch, er_RewardPerEpoch := Some reward_per_epoch\<rparr>)"

definition eps_advance_epoch :: "env \<Rightarrow> epoch_rewards \<Rightarrow> epoch_rewards result" where
  "eps_advance_epoch e s =
     arith (checked_add U64 (unwrap_or (er_CurrentEpoch s) 0) 1) (\<lambda>n. Ok (s\<lparr>er_CurrentEpoch := Some n\<rparr>))"

definition eps_current_epoch :: "epoch_rewards \<Rightarrow> int" where
  "eps_current_epoch s = unwrap_or (er_CurrentEpoch s) 0"

definition eps_reward_per_epoch :: "epoch_rewards \<Rightarrow> int" where
  "eps_reward_per_epoch s = unwrap_or (er_RewardPerEpoch s) 0"

definition eps_claim_secure :: "env \<Rightarrow> address \<Rightarrow> epoch_rewards \<Rightarrow> (int \<times> epoch_rewards) result" where
  "eps_claim_secure e user s =
     (let current = unwrap_or (er_CurrentEpoch s) 0;
          last_claimed = get0 (er_LastClaimedEpoch s) user in
      ensure (current > last_claimed) ''User already claimed reward for this epoch'' (
      Ok (unwrap_or (er_RewardPerEpoch s) 0, s\<lparr>er_LastClaimedEpoch := (er_LastClaimedEpoch s)(user \<mapsto> current)\<rparr>)))"

definition eps_get_last_claimed_epoch :: "epoch_rewards \<Rightarrow> address \<Rightarrow> int" where
  "eps_get_last_claimed_epoch s user = get0 (er_LastClaimedEpoch s) user"

datatype epoch_call = EAdvance | EClaim address

fun eps_exec :: "env \<Rightarrow> epoch_call \<Rightarrow> epoch_rewards \<Rightarrow> epoch_rewards result" where
  "eps_exec e EAdvance s = eps_advance_epoch e s"
| "eps_exec e (EClaim a) s = state_of (eps_claim_secure e a s)"

lemmas eps_defs = eps_advance_epoch_def eps_claim_secure_def eps_current_epoch_def eps_get_last_claimed_epoch_def Let_def

definition epochs_ok :: "epoch_rewards \<Rightarrow> bool" where
  "epochs_ok s \<longleftrightarrow> (\<forall>a. eps_get_last_claimed_epoch s a \<le> eps_current_epoch s)"

interpretation epoch_flow: growing_flow eps_exec epochs_ok "\<lambda>s. eps_get_last_claimed_epoch s a"
  "\<lambda>e c s. if c = EClaim a then 1 else 0"
  for a
proof (unfold_locales, goal_cases)
  case (1 s e c s')
  then show ?case
    by (cases c) (auto simp: epochs_ok_def eps_defs result_simps int_simps, smt (verit))
next
  case (2 s e c s')
  then show ?case
    by (cases c) (auto simp: eps_defs result_simps)
qed

text \<open>
  The advancing claim (\<^verbatim>\<open>epoch_claim_no_advance/src/secure.rs\<close>): the number of claims of an account that succeed in
  a run is at most the number of epochs between its last claim before the run and the end of the run.
\<close>

theorem claims_at_most_epochs:
  assumes "epochs_ok s"
  shows "int (length (filter (\<lambda>c. c = EClaim a) (successes eps_exec xs s)))
     \<le> eps_current_epoch (run_calls eps_exec xs s) - eps_get_last_claimed_epoch s a"
proof -
  let ?t = "run_calls eps_exec xs s"
  have "eps_get_last_claimed_epoch s a + int (length (filter (\<lambda>c. c = EClaim a) (successes eps_exec xs s)))
      \<le> eps_get_last_claimed_epoch ?t a"
    using epoch_flow.run_grows [where s = s and a = a and xs = xs] assms by (simp add: run_flow_count)
  moreover have "eps_get_last_claimed_epoch ?t a \<le> eps_current_epoch ?t"
    using epoch_flow.run_inv [where s = s and xs = xs] assms by (simp add: epochs_ok_def)
  ultimately show ?thesis by linarith
qed

definition epoch_calls :: "(env \<times> epoch_call) list" where
  "epoch_calls = [(signed_env [] 1, EClaim (Address 5)), (signed_env [] 2, EClaim (Address 5)), (signed_env [] 3, EAdvance),
     (signed_env [] 4, EClaim (Address 5))]"

definition epoch_start :: epoch_rewards where
  "epoch_start = \<lparr>er_CurrentEpoch = Some 1, er_RewardPerEpoch = Some 100, er_LastClaimedEpoch = Map.empty\<rparr>"

theorem claims_at_most_epochs_witness:
  "length (filter (\<lambda>c. c = EClaim (Address 5)) (successes eps_exec epoch_calls epoch_start)) = 2
   \<and> int (length (filter (\<lambda>c. c = EClaim (Address 5)) (successes eps_exec epoch_calls epoch_start)))
       \<le> eps_current_epoch (run_calls eps_exec epoch_calls epoch_start) - eps_get_last_claimed_epoch epoch_start (Address 5)"
proof
  show "length (filter (\<lambda>c. c = EClaim (Address 5)) (successes eps_exec epoch_calls epoch_start)) = 2"
    by (simp add: epoch_calls_def epoch_start_def eps_defs checked_add_def checked_def in_range_def)
qed (rule claims_at_most_epochs, simp add: epochs_ok_def epoch_start_def eps_defs)

text \<open>Advancing is open to everybody, and the claim of the unrepaired half changes nothing.\<close>

lemma anyone_advances: "in_range U64 (eps_current_epoch s + 1) \<Longrightarrow> \<exists>t. eps_advance_epoch e s = Ok t \<and> eps_current_epoch t = eps_current_epoch s + 1"
  by (simp add: eps_defs checked_add_def)

lemma claim_unlimited: "ep_claim_vulnerable e a s = Ok (ep_reward_per_epoch s, s)"
  by (simp add: ep_claim_vulnerable_def ep_reward_per_epoch_def)

section \<open>underfunded\_reward\_pool\<close>

definition REWARD_RATE :: int where "REWARD_RATE = 10"
definition LOW_POOL_THRESHOLD :: int where "LOW_POOL_THRESHOLD = 500"

record reward_pool = host +
  rp_Stake :: "address \<rightharpoonup> int"
  rp_LastClaim :: "address \<rightharpoonup> int"
  rp_PoolBalance :: "int option"

definition ur_get_stake :: "reward_pool \<Rightarrow> address \<Rightarrow> int" where
  "ur_get_stake s staker = get0 (rp_Stake s) staker"

definition ur_get_last_claim :: "reward_pool \<Rightarrow> address \<Rightarrow> int" where
  "ur_get_last_claim s staker = get0 (rp_LastClaim s) staker"

definition ur_set_last_claim :: "env \<Rightarrow> address \<Rightarrow> reward_pool \<Rightarrow> reward_pool" where
  "ur_set_last_claim e staker s = s\<lparr>rp_LastClaim := (rp_LastClaim s)(staker \<mapsto> sequence e)\<rparr>"

definition ur_get_pool_balance :: "reward_pool \<Rightarrow> int" where
  "ur_get_pool_balance s = unwrap_or (rp_PoolBalance s) 0"

text \<open>\<^verbatim>\<open>checked_mul(..).and_then(..).unwrap_or(0)\<close>: a product that overflows counts as no reward.\<close>

definition calculate_reward :: "env \<Rightarrow> address \<Rightarrow> reward_pool \<Rightarrow> (int \<Rightarrow> 'a result) \<Rightarrow> 'a result" where
  "calculate_reward e staker s k =
     arith (checked_sub U32 (sequence e) (ur_get_last_claim s staker)) (\<lambda>elapsed.
     k (unwrap_or (Option.bind (checked_mul U64 (ur_get_stake s staker) REWARD_RATE) (\<lambda>v. checked_mul U64 v elapsed)) 0))"

definition ur_initialize :: "env \<Rightarrow> int \<Rightarrow> reward_pool \<Rightarrow> reward_pool result" where
  "ur_initialize e pool_balance s = Ok (s\<lparr>rp_PoolBalance := Some pool_balance\<rparr>)"

definition ur_stake :: "env \<Rightarrow> address \<Rightarrow> int \<Rightarrow> reward_pool \<Rightarrow> reward_pool result" where
  "ur_stake e staker amount s =
     require_auth e staker (Ok (ur_set_last_claim e staker (s\<lparr>rp_Stake := (rp_Stake s)(staker \<mapsto> amount)\<rparr>)))"

definition ur_claim_rewards :: "env \<Rightarrow> address \<Rightarrow> reward_pool \<Rightarrow> reward_pool result" where
  "ur_claim_rewards e staker s =
     require_auth e staker (
     calculate_reward e staker s (\<lambda>reward.
     let s1 = ur_set_last_claim e staker s in
     expect (checked_sub U64 (ur_get_pool_balance s1) reward) ''pool underfunded'' (\<lambda>new_pool.
     Ok (s1\<lparr>rp_PoolBalance := Some new_pool\<rparr>))))"

definition ur_get_pool_balance_view :: "reward_pool \<Rightarrow> int" where
  "ur_get_pool_balance_view s = ur_get_pool_balance s"

definition ur_get_last_claim_view :: "reward_pool \<Rightarrow> address \<Rightarrow> int" where
  "ur_get_last_claim_view s staker = ur_get_last_claim s staker"

definition urs_initialize :: "env \<Rightarrow> int \<Rightarrow> reward_pool \<Rightarrow> reward_pool result" where
  "urs_initialize e pool_balance s = Ok (s\<lparr>rp_PoolBalance := Some pool_balance\<rparr>)"

definition urs_stake :: "env \<Rightarrow> address \<Rightarrow> int \<Rightarrow> reward_pool \<Rightarrow> reward_pool result" where
  "urs_stake e staker amount s =
     require_auth e staker (Ok (ur_set_last_claim e staker (s\<lparr>rp_Stake := (rp_Stake s)(staker \<mapsto> amount)\<rparr>)))"

definition urs_claim_rewards :: "env \<Rightarrow> address \<Rightarrow> reward_pool \<Rightarrow> reward_pool result" where
  "urs_claim_rewards e staker s =
     require_auth e staker (
     calculate_reward e staker s (\<lambda>reward.
     let pool = ur_get_pool_balance s in
     panic_if (pool < reward) ''pool underfunded'' (
     arith (checked_sub U64 pool reward) (\<lambda>new_pool.
     let s2 = ur_set_last_claim e staker (s\<lparr>rp_PoolBalance := Some new_pool\<rparr>) in
     Ok (if new_pool < LOW_POOL_THRESHOLD then publish [''pool'', ''low''] [VInt new_pool] s2 else s2)))))"

definition urs_get_pool_balance :: "reward_pool \<Rightarrow> int" where
  "urs_get_pool_balance s = ur_get_pool_balance s"

definition urs_get_last_claim :: "reward_pool \<Rightarrow> address \<Rightarrow> int" where
  "urs_get_last_claim s staker = ur_get_last_claim s staker"

lemmas ur_defs = ur_claim_rewards_def urs_claim_rewards_def calculate_reward_def ur_set_last_claim_def ur_get_pool_balance_def
  ur_get_last_claim_def ur_get_stake_def Let_def

definition pool_view :: "reward_pool \<Rightarrow> (address \<rightharpoonup> int) \<times> (address \<rightharpoonup> int) \<times> int option" where
  "pool_view s = (rp_Stake s, rp_LastClaim s, rp_PoolBalance s)"

text \<open>
  The comments of the crate fear that a claim on an underfunded pool loses the reward, because the time of the
  claim is written before the pool is debited. A trap rolls the write back, so the two halves do the same: they
  trap on the same calls, with the same error, and otherwise leave the same stakes, times and balance (the
  repaired one also publishes a warning).
\<close>

theorem claim_order_irrelevant:
  assumes "in_range U64 (ur_get_pool_balance s)"
  shows "map_sum id pool_view (urs_claim_rewards e a s) = map_sum id pool_view (ur_claim_rewards e a s)"
proof (cases "authorized e a \<and> in_range U32 (sequence e - ur_get_last_claim s a)")
  case True
  define r where "r = unwrap_or (Option.bind (checked_mul U64 (ur_get_stake s a) REWARD_RATE)
      (\<lambda>v. checked_mul U64 v (sequence e - ur_get_last_claim s a))) 0"
  have r: "0 \<le> r"
    by (auto simp: r_def unwrap_or_def int_simps in_range_def split: option.splits bind_splits)
  have calc: "calculate_reward e a s k = k r" for k :: "int \<Rightarrow> reward_pool result"
    using True by (simp add: calculate_reward_def r_def checked_sub_def)
  have "ur_get_pool_balance (ur_set_last_claim e a s) = ur_get_pool_balance s"
    by (simp add: ur_get_pool_balance_def ur_set_last_claim_def)
  with True assms r show ?thesis
    by (cases "ur_get_pool_balance s < r")
       (auto simp: ur_claim_rewards_def urs_claim_rewards_def calc Let_def checked_sub_def checked_def in_range_def pool_view_def
         publish_def ur_set_last_claim_def)
next
  case False
  then show ?thesis
    by (cases "authorized e a") (simp_all add: ur_claim_rewards_def urs_claim_rewards_def calculate_reward_def checked_sub_def)
qed

definition pool_demo :: reward_pool where
  "pool_demo = \<lparr>events = [], rp_Stake = [Address 5 \<mapsto> 10], rp_LastClaim = [Address 5 \<mapsto> 4], rp_PoolBalance = Some 150\<rparr>"

theorem claim_order_irrelevant_witness:
  "map_sum id pool_view (urs_claim_rewards (signed_env [Address 5] 6) (Address 5) pool_demo)
     = map_sum id pool_view (ur_claim_rewards (signed_env [Address 5] 6) (Address 5) pool_demo)"
  by (rule claim_order_irrelevant) (simp add: pool_demo_def ur_get_pool_balance_def in_range_def)

text \<open>What does lose rewards, in both halves: a product beyond \<^verbatim>\<open>u64\<close> is paid as zero while the clock restarts.\<close>

lemma overflow_loses_reward:
  assumes "authorized e a" and "in_range U32 (sequence e - ur_get_last_claim s a)" and "\<not> in_range U64 (ur_get_stake s a * 10)"
    and "in_range U64 (ur_get_pool_balance s)"
  shows "\<exists>t. urs_claim_rewards e a s = Ok t \<and> ur_get_pool_balance t = ur_get_pool_balance s \<and> ur_get_last_claim t a = sequence e"
proof -
  have "\<not> unwrap_or (rp_PoolBalance s) 0 < 0"
    using assms(4) by (simp add: ur_get_pool_balance_def in_range_def)
  with assms show ?thesis
    by (cases s) (auto simp: ur_defs checked_sub_def checked_mul_def REWARD_RATE_def publish_def)
qed

section \<open>double\_claim\<close>

record claim_stake =
  cs_Stake :: "address \<rightharpoonup> int"
  cs_StakedAt :: "address \<rightharpoonup> int"
  cs_RewardRate :: "int option"

definition dc_get_stake :: "claim_stake \<Rightarrow> address \<Rightarrow> int" where
  "dc_get_stake s staker = get0 (cs_Stake s) staker"

definition dc_get_staked_at :: "claim_stake \<Rightarrow> address \<Rightarrow> int" where
  "dc_get_staked_at s staker = get0 (cs_StakedAt s) staker"

definition dc_set_staked_at :: "address \<Rightarrow> int \<Rightarrow> claim_stake \<Rightarrow> claim_stake" where
  "dc_set_staked_at staker seq s = s\<lparr>cs_StakedAt := (cs_StakedAt s)(staker \<mapsto> seq)\<rparr>"

definition dc_get_rate :: "claim_stake \<Rightarrow> int" where
  "dc_get_rate s = unwrap_or (cs_RewardRate s) 0"

definition dc_initialize :: "env \<Rightarrow> int \<Rightarrow> claim_stake \<Rightarrow> claim_stake result" where
  "dc_initialize e reward_rate s = Ok (s\<lparr>cs_RewardRate := Some reward_rate\<rparr>)"

definition dc_stake :: "env \<Rightarrow> address \<Rightarrow> int \<Rightarrow> claim_stake \<Rightarrow> claim_stake result" where
  "dc_stake e staker amount s =
     require_auth e staker (Ok (dc_set_staked_at staker (sequence e) (s\<lparr>cs_Stake := (cs_Stake s)(staker \<mapsto> amount)\<rparr>)))"

definition dc_claim_rewards :: "env \<Rightarrow> address \<Rightarrow> claim_stake \<Rightarrow> (int \<times> claim_stake) result" where
  "dc_claim_rewards e staker s =
     require_auth e staker (
     arith (checked_sub U32 (sequence e) (dc_get_staked_at s staker)) (\<lambda>elapsed.
     Ok (unwrap_or (Option.bind (checked_mul U64 (dc_get_stake s staker) (dc_get_rate s)) (\<lambda>v. checked_mul U64 v elapsed)) 0, s)))"

text \<open>The claim changes nothing, so every later claim pays for the whole time again.\<close>

lemma double_claim_repeats:
  assumes "dc_claim_rewards e a s = Ok (n, s1)" and "authorized e' a" and "sequence e' = sequence e"
  shows "dc_claim_rewards e' a s1 = Ok (n, s1)"
  using assms by (auto simp: dc_claim_rewards_def result_simps)

section \<open>slash\_without\_evidence\<close>

datatype evidence_status = Pending | Finalized

record evidence_record =
  ev_scanner :: address
  ev_report_id :: int
  ev_status :: evidence_status

record slash_store = host +
  sw_Admin :: "address option"
  sw_Stake :: "address \<rightharpoonup> int"
  sw_Treasury :: "int option"

record evidence_store = slash_store +
  sw_Evidence :: "int \<rightharpoonup> evidence_record"
  sw_EvidenceIds :: "int list option"

definition sw_require_admin :: "env \<Rightarrow> 'x slash_store_scheme \<Rightarrow> 'a result \<Rightarrow> 'a result" where
  "sw_require_admin e s k = expect (sw_Admin s) ''not initialized'' (\<lambda>admin. require_auth e admin k)"

definition sw_initialize :: "env \<Rightarrow> address \<Rightarrow> 'x slash_store_scheme \<Rightarrow> 'x slash_store_scheme result" where
  "sw_initialize e admin s = panic_if (sw_Admin s \<noteq> None) ''already initialized'' (Ok (s\<lparr>sw_Admin := Some admin\<rparr>))"

definition sw_register_scanner :: "env \<Rightarrow> address \<Rightarrow> int \<Rightarrow> 'x slash_store_scheme \<Rightarrow> 'x slash_store_scheme result" where
  "sw_register_scanner e scanner stake s =
     require_auth e scanner (
     ensure (stake > 0) ''stake must be positive'' (
     Ok (publish [''scanner'', ''staked''] [VAddr scanner, VInt stake] (s\<lparr>sw_Stake := (sw_Stake s)(scanner \<mapsto> stake)\<rparr>))))"

text \<open>The part of \<^verbatim>\<open>slash\<close> after the checks of who may slash, the same in both halves.\<close>

definition take_stake :: "address \<Rightarrow> int \<Rightarrow> 'x slash_store_scheme \<Rightarrow> 'x slash_store_scheme result" where
  "take_stake scanner amount s =
     ensure (amount > 0) ''slash amount must be positive'' (
     ensure (get0 (sw_Stake s) scanner \<ge> amount) ''insufficient stake to slash'' (
     arith (checked_sub I128 (get0 (sw_Stake s) scanner) amount) (\<lambda>n.
     let s1 = s\<lparr>sw_Stake := (sw_Stake s)(scanner \<mapsto> n)\<rparr> in
     arith (checked_add I128 (unwrap_or (sw_Treasury s1) 0) amount) (\<lambda>t.
     Ok (publish [''scanner'', ''slashed''] [VAddr scanner, VInt amount] (s1\<lparr>sw_Treasury := Some t\<rparr>))))))"

definition sw_slash :: "env \<Rightarrow> address \<Rightarrow> int \<Rightarrow> slash_store \<Rightarrow> slash_store result" where
  "sw_slash e scanner amount s = sw_require_admin e s (take_stake scanner amount s)"

definition sw_get_stake :: "'x slash_store_scheme \<Rightarrow> address \<Rightarrow> int" where
  "sw_get_stake s scanner = get0 (sw_Stake s) scanner"

definition sw_get_treasury :: "'x slash_store_scheme \<Rightarrow> int" where
  "sw_get_treasury s = unwrap_or (sw_Treasury s) 0"

definition sw_get_admin :: "slash_store \<Rightarrow> address result" where
  "sw_get_admin s = expect (sw_Admin s) ''not initialized'' Ok"

definition sws_require_admin :: "env \<Rightarrow> evidence_store \<Rightarrow> 'a result \<Rightarrow> 'a result" where
  "sws_require_admin e s k = expect (sw_Admin s) ''not initialized'' (\<lambda>admin. require_auth e admin k)"

definition sws_initialize :: "env \<Rightarrow> address \<Rightarrow> evidence_store \<Rightarrow> evidence_store result" where
  "sws_initialize e admin s = panic_if (sw_Admin s \<noteq> None) ''already initialized'' (Ok (s\<lparr>sw_Admin := Some admin\<rparr>))"

definition sws_register_scanner :: "env \<Rightarrow> address \<Rightarrow> int \<Rightarrow> evidence_store \<Rightarrow> evidence_store result" where
  "sws_register_scanner e scanner stake s =
     require_auth e scanner (
     ensure (stake > 0) ''stake must be positive'' (
     Ok (publish [''scanner'', ''staked''] [VAddr scanner, VInt stake] (s\<lparr>sw_Stake := (sw_Stake s)(scanner \<mapsto> stake)\<rparr>))))"

definition sws_submit_evidence :: "env \<Rightarrow> address \<Rightarrow> int \<Rightarrow> evidence_store \<Rightarrow> evidence_store result" where
  "sws_submit_evidence e scanner report_id s =
     sws_require_admin e s (
     let record1 = \<lparr>ev_scanner = scanner, ev_report_id = report_id, ev_status = Pending\<rparr>;
         s1 = s\<lparr>sw_Evidence := (sw_Evidence s)(report_id \<mapsto> record1)\<rparr> in
     Ok (s1\<lparr>sw_EvidenceIds := Some (unwrap_or (sw_EvidenceIds s1) [] @ [report_id])\<rparr>))"

definition sws_finalize_evidence :: "env \<Rightarrow> int \<Rightarrow> evidence_store \<Rightarrow> evidence_store result" where
  "sws_finalize_evidence e report_id s =
     sws_require_admin e s (
     expect (sw_Evidence s report_id) ''evidence not found'' (\<lambda>r.
     Ok (s\<lparr>sw_Evidence := (sw_Evidence s)(report_id \<mapsto> r\<lparr>ev_status := Finalized\<rparr>)\<rparr>)))"

fun evidence_loop :: "(int \<rightharpoonup> evidence_record) \<Rightarrow> address \<Rightarrow> int list \<Rightarrow> bool" where
  "evidence_loop m scanner [] = False"
| "evidence_loop m scanner (i # ids) =
     (case m i of
        None \<Rightarrow> evidence_loop m scanner ids
      | Some r \<Rightarrow> if ev_scanner r = scanner \<and> ev_status r = Finalized then True else evidence_loop m scanner ids)"

definition sws_has_finalized_evidence :: "evidence_store \<Rightarrow> address \<Rightarrow> bool" where
  "sws_has_finalized_evidence s scanner = evidence_loop (sw_Evidence s) scanner (unwrap_or (sw_EvidenceIds s) [])"

definition sws_slash :: "env \<Rightarrow> address \<Rightarrow> int \<Rightarrow> evidence_store \<Rightarrow> evidence_store result" where
  "sws_slash e scanner amount s =
     sws_require_admin e s (
     panic_if (\<not> sws_has_finalized_evidence s scanner) ''no finalized evidence'' (
     take_stake scanner amount s))"

definition sws_get_stake :: "evidence_store \<Rightarrow> address \<Rightarrow> int" where
  "sws_get_stake s scanner = get0 (sw_Stake s) scanner"

definition sws_get_treasury :: "evidence_store \<Rightarrow> int" where
  "sws_get_treasury s = unwrap_or (sw_Treasury s) 0"

datatype slash_call =
    SWInit address
  | SWRegister address int
  | SWSubmit address int
  | SWFinalize int
  | SWSlash address int

fun sws_exec :: "env \<Rightarrow> slash_call \<Rightarrow> evidence_store \<Rightarrow> evidence_store result" where
  "sws_exec e (SWInit a) s = sws_initialize e a s"
| "sws_exec e (SWRegister a n) s = sws_register_scanner e a n s"
| "sws_exec e (SWSubmit a i) s = sws_submit_evidence e a i s"
| "sws_exec e (SWFinalize i) s = sws_finalize_evidence e i s"
| "sws_exec e (SWSlash a n) s = sws_slash e a n s"

lemmas sw_defs = sws_require_admin_def sws_initialize_def sws_register_scanner_def sws_get_stake_def sw_require_admin_def sw_initialize_def sw_register_scanner_def take_stake_def sws_submit_evidence_def
  sws_finalize_evidence_def sws_slash_def sw_get_stake_def Let_def

lemma publish_sw [simp]:
  "sw_Stake (publish t d s) = sw_Stake s" "sw_Admin (publish t d s) = sw_Admin s" "sw_Treasury (publish t d s) = sw_Treasury s"
  "sw_Evidence (publish t d u) = sw_Evidence u" "sw_EvidenceIds (publish t d u) = sw_EvidenceIds u"
  by (simp_all add: publish_def)

lemma evidence_loop_iff:
  "evidence_loop m a ids \<longleftrightarrow> (\<exists>i\<in>set ids. \<exists>r. m i = Some r \<and> ev_scanner r = a \<and> ev_status r = Finalized)"
  by (induction m a ids rule: evidence_loop.induct) (auto split: option.splits)

text \<open>The admin signed the call, and there is a finalised record against the scanner.\<close>

definition slash_right :: "address \<Rightarrow> env \<Rightarrow> evidence_store \<Rightarrow> bool" where
  "slash_right a e s \<longleftrightarrow> (\<exists>adm i r. sw_Admin s = Some adm \<and> authorized e adm
     \<and> sw_Evidence s i = Some r \<and> ev_scanner r = a \<and> ev_status r = Finalized)"

interpretation slashing: guarded_steps sws_exec "\<lambda>s t. sws_get_stake s a \<le> sws_get_stake t a"
  "\<lambda>e c s. (\<exists>n. c = SWRegister a n \<and> authorized e a) \<or> (\<exists>n. c = SWSlash a n \<and> slash_right a e s)"
  for a
proof (unfold_locales, goal_cases)
  case (3 e c s s')
  then show ?case
    by (cases c)
       (auto simp: sw_defs result_simps slash_right_def sws_has_finalized_evidence_def evidence_loop_iff split: if_splits, blast)
qed auto

definition finalized_against :: "address \<Rightarrow> evidence_store \<Rightarrow> bool" where
  "finalized_against a s \<longleftrightarrow> (\<exists>i r. sw_Evidence s i = Some r \<and> ev_scanner r = a \<and> ev_status r = Finalized)"

interpretation finalizing: guarded_steps sws_exec "\<lambda>s t. finalized_against a t \<longrightarrow> finalized_against a s"
  "\<lambda>e c s. \<exists>i adm. c = SWFinalize i \<and> sw_Admin s = Some adm \<and> authorized e adm"
  for a
proof (unfold_locales, goal_cases)
  case (3 e c s s')
  then show ?case
    by (cases c) (auto simp: sw_defs result_simps finalized_against_def split: if_splits)
qed auto

text \<open>
  Evidence first (\<^verbatim>\<open>slash_without_evidence/src/secure.rs\<close>), from a state without finalised evidence against a scanner:
  if his stake is lower at the end of a run, then either he signed a new registration himself, or the run has
  a slash signed by the admin while a finalised record against him existed, and before it a finalisation.
\<close>

theorem slashed_only_on_evidence:
  assumes "\<not> finalized_against a s" and "sws_get_stake (run_calls sws_exec xs s) a < sws_get_stake s a"
  shows "\<exists>ys e c zs. xs = ys @ (e, c) # zs
     \<and> ((\<exists>n. c = SWRegister a n \<and> authorized e a)
        \<or> (\<exists>n us e' i vs. c = SWSlash a n \<and> slash_right a e (run_calls sws_exec ys s) \<and> ys = us @ (e', SWFinalize i) # vs))"
proof -
  have "\<not> sws_get_stake s a \<le> sws_get_stake (run_calls sws_exec xs s) a"
    using assms(2) by simp
  from slashing.run_guard [OF this] obtain ys e c zs where x: "xs = ys @ (e, c) # zs"
    and c: "(\<exists>n. c = SWRegister a n \<and> authorized e a) \<or> (\<exists>n. c = SWSlash a n \<and> slash_right a e (run_calls sws_exec ys s))"
    by blast
  have "\<exists>us e' i vs. ys = us @ (e', SWFinalize i) # vs" if "slash_right a e (run_calls sws_exec ys s)"
  proof -
    have "finalized_against a (run_calls sws_exec ys s)"
      using that by (auto simp: slash_right_def finalized_against_def)
    with finalizing.run_guard [where s = s and a = a and xs = ys] assms(1) show ?thesis by blast
  qed
  with x c show ?thesis by blast
qed

definition slash_demo :: evidence_store where
  "slash_demo = \<lparr>events = [], sw_Admin = Some (Address 2), sw_Stake = [Address 5 \<mapsto> 100], sw_Treasury = None,
     sw_Evidence = Map.empty, sw_EvidenceIds = None\<rparr>"

definition slash_calls :: "(env \<times> slash_call) list" where
  "slash_calls = [(signed_env [Address 2] 1, SWSlash (Address 5) 40), (signed_env [Address 2] 2, SWSubmit (Address 5) 9),
     (signed_env [Address 2] 3, SWFinalize 9), (signed_env [Address 2] 4, SWSlash (Address 5) 40)]"

lemma slash_demo_run: "sws_get_stake (run_calls sws_exec slash_calls slash_demo) (Address 5) = 60"
  by (simp add: slash_calls_def slash_demo_def sw_defs sws_has_finalized_evidence_def signed_env_def checked_add_def checked_sub_def
      checked_def in_range_def)

theorem slashed_only_on_evidence_witness:
  "\<exists>ys e c zs. slash_calls = ys @ (e, c) # zs
     \<and> ((\<exists>n. c = SWRegister (Address 5) n \<and> authorized e (Address 5))
        \<or> (\<exists>n us e' i vs. c = SWSlash (Address 5) n \<and> slash_right (Address 5) e (run_calls sws_exec ys slash_demo)
             \<and> ys = us @ (e', SWFinalize i) # vs))"
  by (rule slashed_only_on_evidence) (simp add: finalized_against_def slash_demo_def, simp add: slash_demo_run,
      simp add: slash_demo_def sws_get_stake_def)

text \<open>
  Two gaps of the repair: the record is not used up by a slash, so one is enough for any number of them; and
  registering again replaces the stake, so a scanner about to be slashed brings it down to one unit first.
\<close>

lemma evidence_not_consumed:
  "sws_slash e a n s = Ok t \<Longrightarrow> sws_has_finalized_evidence t a"
  by (auto simp: sw_defs result_simps sws_has_finalized_evidence_def)

lemma reregistering_dodges:
  "authorized e a \<Longrightarrow> \<exists>t. sws_register_scanner e a 1 s = Ok t \<and> sws_get_stake t a = 1"
  by (simp add: sw_defs)

lemma slash_without_record:
  assumes "sw_Admin s = Some adm" and "authorized e adm" and "0 < n" and "n \<le> sw_get_stake s a"
    and "in_range I128 (sw_get_stake s a - n)" and "in_range I128 (sw_get_treasury s + n)"
  shows "\<exists>t. sw_slash e a n s = Ok t \<and> sw_get_stake t a = sw_get_stake s a - n"
  using assms by (simp add: sw_slash_def sw_defs sw_get_treasury_def int_simps)

end
