(* ===== verification/Admin_Roles.thy ===== *)
theory Admin_Roles
  imports Soroban_Prelude
begin

text \<open>
  Administrators and roles: \<^verbatim>\<open>src/vulnerable/accept_admin_missing_auth\<close>, \<^verbatim>\<open>stale_pending_admin\<close>,
  \<^verbatim>\<open>silent_admin_change\<close>, \<^verbatim>\<open>redundant_admin_set\<close>, \<^verbatim>\<open>public_role_grant\<close>, \<^verbatim>\<open>operator_role_not_enforced\<close> and \<^verbatim>\<open>admin_rugpull\<close>,
  both halves of each. The locale \<^verbatim>\<open>handover\<close> states what a two-step transfer of administration promises; the
  repaired contracts interpret it.
\<close>

section \<open>Two-step handover\<close>

text \<open>
  An administrator and a pending one. Only the pending administrator, by his signature, replaces the current
  one; and only the current one nominates.
\<close>

locale handover =
  fixes exec :: "env \<Rightarrow> 'c \<Rightarrow> 's \<Rightarrow> 's result"
    and admin :: "'s \<Rightarrow> address option" and pending :: "'s \<Rightarrow> address option"
  assumes accepted: "exec e c s = Ok s' \<Longrightarrow> admin s = Some a \<Longrightarrow> admin s' \<noteq> Some a \<Longrightarrow>
      \<exists>b. pending s = Some b \<and> authorized e b \<and> admin s' = Some b"
    and nominated: "exec e c s = Ok s' \<Longrightarrow> pending s' = Some b \<Longrightarrow> pending s \<noteq> Some b \<Longrightarrow>
      \<exists>a. admin s = Some a \<and> authorized e a"

sublocale handover \<subseteq> replacing: guarded_steps exec "\<lambda>s t. admin s = Some a \<longrightarrow> admin t = Some a"
    "\<lambda>e c s. admin s = Some a \<and> (\<exists>b. pending s = Some b \<and> authorized e b)"
  for a
  by unfold_locales (use accepted in blast)+

sublocale handover \<subseteq> naming: guarded_steps exec "\<lambda>s t. pending t = Some b \<longrightarrow> pending s = Some b"
    "\<lambda>e c s. \<exists>a. admin s = Some a \<and> authorized e a"
  for b
  by unfold_locales (use nominated in blast)+

context handover
begin

lemma two_signatures:
  assumes "admin s = Some a" and "pending s = None" and "admin (run_calls exec xs s) \<noteq> Some a"
  shows "\<exists>us e c vs e' c' zs b m. xs = (us @ (e, c) # vs) @ (e', c') # zs
     \<and> admin (run_calls exec us s) = Some m \<and> authorized e m
     \<and> pending (run_calls exec (us @ (e, c) # vs) s) = Some b \<and> authorized e' b"
proof -
  obtain ys e' c' zs b where x: "xs = ys @ (e', c') # zs" "pending (run_calls exec ys s) = Some b" "authorized e' b"
    using replacing.run_guard [where s = s and a = a and xs = xs] assms(1,3) by blast
  obtain us e c vs m where "ys = us @ (e, c) # vs" "admin (run_calls exec us s) = Some m" "authorized e m"
    using naming.run_guard [where s = s and b = b and xs = ys] assms(2) x(2) by fastforce
  with x show ?thesis by blast
qed

end

section \<open>accept\_admin\_missing\_auth\<close>

record two_step = host +
  ts_Admin :: "address option"
  ts_PendingAdmin :: "address option"

definition aa_initialize :: "env \<Rightarrow> address \<Rightarrow> two_step \<Rightarrow> two_step result" where
  "aa_initialize e admin s = panic_if (ts_Admin s \<noteq> None) ''already initialized'' (Ok (s\<lparr>ts_Admin := Some admin\<rparr>))"

definition aa_propose_admin :: "env \<Rightarrow> address \<Rightarrow> two_step \<Rightarrow> two_step result" where
  "aa_propose_admin e new_admin s =
     expect (ts_Admin s) ''not initialized'' (\<lambda>current.
     require_auth e current (
     Ok (publish [''proposed''] [VAddr new_admin] (s\<lparr>ts_PendingAdmin := Some new_admin\<rparr>))))"

definition aa_cancel_admin_transfer :: "env \<Rightarrow> two_step \<Rightarrow> two_step result" where
  "aa_cancel_admin_transfer e s =
     expect (ts_Admin s) ''not initialized'' (\<lambda>current.
     require_auth e current (
     Ok (publish [''cancel''] [VAddr current] (s\<lparr>ts_PendingAdmin := None\<rparr>))))"

definition aa_accept_admin :: "env \<Rightarrow> two_step \<Rightarrow> two_step result" where
  "aa_accept_admin e s =
     expect (ts_PendingAdmin s) ''no pending admin'' (\<lambda>pending.
     Ok (s\<lparr>ts_Admin := Some pending, ts_PendingAdmin := None\<rparr>))"

definition aa_get_admin :: "two_step \<Rightarrow> address result" where
  "aa_get_admin s = expect (ts_Admin s) ''not initialized'' Ok"

definition aa_get_pending_admin :: "two_step \<Rightarrow> address option" where
  "aa_get_pending_admin s = ts_PendingAdmin s"

definition aas_initialize :: "env \<Rightarrow> address \<Rightarrow> two_step \<Rightarrow> two_step result" where
  "aas_initialize e admin s = panic_if (ts_Admin s \<noteq> None) ''already initialized'' (Ok (s\<lparr>ts_Admin := Some admin\<rparr>))"

definition aas_propose_admin :: "env \<Rightarrow> address \<Rightarrow> two_step \<Rightarrow> two_step result" where
  "aas_propose_admin e new_admin s =
     expect (ts_Admin s) ''not initialized'' (\<lambda>current.
     require_auth e current (
     Ok (publish [''proposed''] [VAddr new_admin] (s\<lparr>ts_PendingAdmin := Some new_admin\<rparr>))))"

definition aas_cancel_admin_transfer :: "env \<Rightarrow> two_step \<Rightarrow> two_step result" where
  "aas_cancel_admin_transfer e s =
     expect (ts_Admin s) ''not initialized'' (\<lambda>current.
     require_auth e current (
     Ok (publish [''cancel''] [VAddr current] (s\<lparr>ts_PendingAdmin := None\<rparr>))))"

definition aas_accept_admin :: "env \<Rightarrow> two_step \<Rightarrow> two_step result" where
  "aas_accept_admin e s =
     expect (ts_PendingAdmin s) ''no pending admin'' (\<lambda>pending.
     require_auth e pending (
     Ok (s\<lparr>ts_Admin := Some pending, ts_PendingAdmin := None\<rparr>)))"

definition aas_get_admin :: "two_step \<Rightarrow> address result" where
  "aas_get_admin s = expect (ts_Admin s) ''not initialized'' Ok"

definition aas_get_pending_admin :: "two_step \<Rightarrow> address option" where
  "aas_get_pending_admin s = ts_PendingAdmin s"

datatype handover_call =
    HInit address
  | HPropose address
  | HCancel
  | HAccept int \<comment> \<open>the nonce, where the contract takes one\<close>

fun aas_exec :: "env \<Rightarrow> handover_call \<Rightarrow> two_step \<Rightarrow> two_step result" where
  "aas_exec e (HInit a) s = aas_initialize e a s"
| "aas_exec e (HPropose a) s = aas_propose_admin e a s"
| "aas_exec e HCancel s = aas_cancel_admin_transfer e s"
| "aas_exec e (HAccept n) s = aas_accept_admin e s"

lemmas aas_defs = aas_initialize_def aas_propose_admin_def aas_cancel_admin_transfer_def aas_accept_admin_def publish_def

interpretation aas: handover aas_exec ts_Admin ts_PendingAdmin
proof (unfold_locales, goal_cases)
  case (1 e c s s' a)
  then show ?case by (cases c) (auto simp: aas_defs result_simps)
next
  case (2 e c s s' b)
  then show ?case by (cases c) (auto simp: aas_defs result_simps)
qed

text \<open>
  The signed acceptance (\<^verbatim>\<open>accept_admin_missing_auth/src/secure.rs\<close>): when the administrator has changed in a run
  that started without a nomination, the run has a call signed by the administrator of that time, and after it
  a call signed by the one who was then pending.
\<close>

theorem handover_needs_both_signatures:
  assumes "ts_Admin s = Some a" and "ts_PendingAdmin s = None" and "ts_Admin (run_calls aas_exec xs s) \<noteq> Some a"
  shows "\<exists>us e c vs e' c' zs b m. xs = (us @ (e, c) # vs) @ (e', c') # zs
     \<and> ts_Admin (run_calls aas_exec us s) = Some m \<and> authorized e m
     \<and> ts_PendingAdmin (run_calls aas_exec (us @ (e, c) # vs) s) = Some b \<and> authorized e' b"
  using assms by (rule aas.two_signatures)

definition handover_calls :: "(env \<times> handover_call) list" where
  "handover_calls = [(signed_env [Address 2] 1, HPropose (Address 3)), (signed_env [Address 4] 2, HAccept 1),
     (signed_env [Address 3] 3, HAccept 1)]"

definition two_step_demo :: two_step where
  "two_step_demo = \<lparr>events = [], ts_Admin = Some (Address 2), ts_PendingAdmin = None\<rparr>"

theorem handover_needs_both_signatures_witness:
  "\<exists>us e c vs e' c' zs b m. handover_calls = (us @ (e, c) # vs) @ (e', c') # zs
     \<and> ts_Admin (run_calls aas_exec us two_step_demo) = Some m \<and> authorized e m
     \<and> ts_PendingAdmin (run_calls aas_exec (us @ (e, c) # vs) two_step_demo) = Some b \<and> authorized e' b"
  by (rule handover_needs_both_signatures [of _ "Address 2"])
     (simp_all add: handover_calls_def two_step_demo_def aas_defs signed_env_def)

text \<open>Without the signature anybody completes the transfer, before the nominee has agreed.\<close>

lemma anyone_accepts: "ts_PendingAdmin s = Some b \<Longrightarrow> \<exists>t. aa_accept_admin e s = Ok t \<and> aa_get_admin t = Ok b"
  by (simp add: aa_accept_admin_def aa_get_admin_def)

section \<open>stale\_pending\_admin\<close>

definition st_initialize :: "env \<Rightarrow> address \<Rightarrow> two_step \<Rightarrow> two_step result" where
  "st_initialize e admin s = panic_if (ts_Admin s \<noteq> None) ''already initialized'' (Ok (s\<lparr>ts_Admin := Some admin\<rparr>))"

definition st_propose_admin :: "env \<Rightarrow> address \<Rightarrow> two_step \<Rightarrow> two_step result" where
  "st_propose_admin e new_admin s =
     expect (ts_Admin s) ''not initialized'' (\<lambda>current.
     require_auth e current (
     Ok (publish [''proposed''] [VAddr new_admin] (s\<lparr>ts_PendingAdmin := Some new_admin\<rparr>))))"

definition st_cancel_admin_transfer :: "env \<Rightarrow> two_step \<Rightarrow> two_step result" where
  "st_cancel_admin_transfer e s =
     expect (ts_Admin s) ''not initialized'' (\<lambda>current.
     require_auth e current (
     Ok (publish [''cancel''] [VAddr current] s)))"

definition st_accept_admin :: "env \<Rightarrow> two_step \<Rightarrow> two_step result" where
  "st_accept_admin e s =
     expect (ts_PendingAdmin s) ''no pending admin'' (\<lambda>pending.
     require_auth e pending (
     Ok (s\<lparr>ts_Admin := Some pending, ts_PendingAdmin := None\<rparr>)))"

definition st_get_admin :: "two_step \<Rightarrow> address result" where
  "st_get_admin s = expect (ts_Admin s) ''not initialized'' Ok"

definition st_get_pending_admin :: "two_step \<Rightarrow> address option" where
  "st_get_pending_admin s = ts_PendingAdmin s"

record nonce_step = two_step +
  ns_PendingAdminNonce :: "int option"
  ns_AdminNonce :: "int option"

definition sts_initialize :: "env \<Rightarrow> address \<Rightarrow> nonce_step \<Rightarrow> nonce_step result" where
  "sts_initialize e admin s =
     panic_if (ts_Admin s \<noteq> None) ''already initialized'' (Ok (s\<lparr>ts_Admin := Some admin, ns_AdminNonce := Some 0\<rparr>))"

definition sts_propose_admin :: "env \<Rightarrow> address \<Rightarrow> nonce_step \<Rightarrow> nonce_step result" where
  "sts_propose_admin e new_admin s =
     expect (ts_Admin s) ''not initialized'' (\<lambda>current.
     require_auth e current (
     arith (checked_add U32 (unwrap_or (ns_AdminNonce s) 0) 1) (\<lambda>next_nonce.
     Ok (s\<lparr>ns_AdminNonce := Some next_nonce, ns_PendingAdminNonce := Some next_nonce, ts_PendingAdmin := Some new_admin\<rparr>))))"

definition sts_cancel_admin_transfer :: "env \<Rightarrow> nonce_step \<Rightarrow> nonce_step result" where
  "sts_cancel_admin_transfer e s =
     expect (ts_Admin s) ''not initialized'' (\<lambda>current.
     require_auth e current (
     Ok (publish [''cancel''] [VAddr current] (s\<lparr>ts_PendingAdmin := None, ns_PendingAdminNonce := None\<rparr>))))"

definition sts_accept_admin :: "env \<Rightarrow> int \<Rightarrow> nonce_step \<Rightarrow> nonce_step result" where
  "sts_accept_admin e nonce s =
     expect (ts_PendingAdmin s) ''no pending admin'' (\<lambda>pending.
     require_auth e pending (
     expect (ns_PendingAdminNonce s) ''no pending nonce'' (\<lambda>expected.
     panic_if (nonce \<noteq> expected) ''nonce mismatch'' (
     Ok (s\<lparr>ts_Admin := Some pending, ts_PendingAdmin := None, ns_PendingAdminNonce := None\<rparr>)))))"

definition sts_get_admin :: "nonce_step \<Rightarrow> address result" where
  "sts_get_admin s = expect (ts_Admin s) ''not initialized'' Ok"

definition sts_get_pending_admin :: "nonce_step \<Rightarrow> address option" where
  "sts_get_pending_admin s = ts_PendingAdmin s"

fun sts_exec :: "env \<Rightarrow> handover_call \<Rightarrow> nonce_step \<Rightarrow> nonce_step result" where
  "sts_exec e (HInit a) s = sts_initialize e a s"
| "sts_exec e (HPropose a) s = sts_propose_admin e a s"
| "sts_exec e HCancel s = sts_cancel_admin_transfer e s"
| "sts_exec e (HAccept n) s = sts_accept_admin e n s"

lemmas sts_defs = sts_initialize_def sts_propose_admin_def sts_cancel_admin_transfer_def sts_accept_admin_def publish_def

interpretation sts: handover sts_exec ts_Admin ts_PendingAdmin
proof (unfold_locales, goal_cases)
  case (1 e c s s' a)
  then show ?case by (cases c) (auto simp: sts_defs result_simps)
next
  case (2 e c s s' b)
  then show ?case by (cases c) (auto simp: sts_defs result_simps)
qed

text \<open>The nonce of a nomination: proposals number themselves upwards, and only the newest number is accepted.\<close>

definition nonce_ok :: "int \<Rightarrow> nonce_step \<Rightarrow> bool" where
  "nonce_ok n s \<longleftrightarrow> n < unwrap_or (ns_AdminNonce s) 0
     \<and> (case ns_PendingAdminNonce s of None \<Rightarrow> True | Some m \<Rightarrow> m = unwrap_or (ns_AdminNonce s) 0)"

fun not_init :: "handover_call \<Rightarrow> bool" where
  "not_init (HInit a) = False"
| "not_init c = True"

interpretation nonce_spent: restricted_invariant sts_exec "nonce_ok n" "\<lambda>_. not_init"
  for n
proof (unfold_locales, goal_cases)
  case (1 s e c s')
  then show ?case
    by (cases c) (auto simp: sts_defs nonce_ok_def result_simps int_simps split: option.splits)
qed

text \<open>
  The real cancellation (\<^verbatim>\<open>stale_pending_admin/src/secure.rs\<close>): an acceptance signed for the nomination number
  \<open>n\<close> is worthless once a later nomination was made; whatever happens afterwards, it is refused.
\<close>

theorem stale_acceptance_refused:
  assumes "nonce_ok n s" and "\<forall>(e, c)\<in>set xs. not_init c"
  shows "\<exists>err. sts_accept_admin e n (run_calls sts_exec xs s) = Err err"
proof -
  have "nonce_ok n (run_calls sts_exec xs s)"
    using assms by (rule nonce_spent.run_inv)
  then show ?thesis
    by (cases "sts_accept_admin e n (run_calls sts_exec xs s)")
       (auto simp: sts_accept_admin_def nonce_ok_def result_simps)
qed

definition nonce_demo :: nonce_step where
  "nonce_demo = \<lparr>events = [], ts_Admin = Some (Address 2), ts_PendingAdmin = Some (Address 4), ns_PendingAdminNonce = Some 2,
     ns_AdminNonce = Some 2\<rparr>"

theorem stale_acceptance_refused_witness:
  "\<exists>err. sts_accept_admin (signed_env [Address 3, Address 4] 9) 1
      (run_calls sts_exec [(signed_env [Address 2] 5, HCancel), (signed_env [Address 2] 6, HPropose (Address 3))] nonce_demo) = Err err"
  by (rule stale_acceptance_refused) (simp_all add: nonce_demo_def nonce_ok_def)

text \<open>Without it a nominee whose nomination was cancelled takes over all the same.\<close>

lemma canceled_nominee_accepts:
  assumes "ts_Admin s = Some a" and "ts_PendingAdmin s = Some b" and "authorized e a" and "authorized e' b"
  shows "\<exists>s1 s2. st_cancel_admin_transfer e s = Ok s1 \<and> st_accept_admin e' s1 = Ok s2 \<and> st_get_admin s2 = Ok b"
  using assms by (simp add: st_cancel_admin_transfer_def st_accept_admin_def st_get_admin_def publish_def)

section \<open>silent\_admin\_change and redundant\_admin\_set\<close>

record admin_store = host +
  as_Admin :: "address option"

definition si_initialize :: "env \<Rightarrow> address \<Rightarrow> admin_store \<Rightarrow> admin_store result" where
  "si_initialize e admin s = panic_if (as_Admin s \<noteq> None) ''already initialized'' (Ok (s\<lparr>as_Admin := Some admin\<rparr>))"

definition si_set_admin :: "env \<Rightarrow> address \<Rightarrow> admin_store \<Rightarrow> admin_store result" where
  "si_set_admin e new_admin s =
     expect (as_Admin s) ''not initialized'' (\<lambda>current.
     require_auth e current (Ok (s\<lparr>as_Admin := Some new_admin\<rparr>)))"

definition si_get_admin :: "admin_store \<Rightarrow> address result" where
  "si_get_admin s = expect (as_Admin s) ''not initialized'' Ok"

definition sis_initialize :: "env \<Rightarrow> address \<Rightarrow> admin_store \<Rightarrow> admin_store result" where
  "sis_initialize e admin s = panic_if (as_Admin s \<noteq> None) ''already initialized'' (Ok (s\<lparr>as_Admin := Some admin\<rparr>))"

definition sis_set_admin :: "env \<Rightarrow> address \<Rightarrow> admin_store \<Rightarrow> admin_store result" where
  "sis_set_admin e new_admin s =
     expect (as_Admin s) ''not initialized'' (\<lambda>old_admin.
     require_auth e old_admin (
     Ok (publish [''AdminChg''] [VAddr old_admin, VAddr new_admin] (s\<lparr>as_Admin := Some new_admin\<rparr>))))"

definition sis_get_admin :: "admin_store \<Rightarrow> address result" where
  "sis_get_admin s = expect (as_Admin s) ''not initialized'' Ok"

definition rset_initialize :: "env \<Rightarrow> address \<Rightarrow> admin_store \<Rightarrow> admin_store result" where
  "rset_initialize e admin s = panic_if (as_Admin s \<noteq> None) ''already initialized'' (Ok (s\<lparr>as_Admin := Some admin\<rparr>))"

definition rset_admin :: "env \<Rightarrow> address \<Rightarrow> admin_store \<Rightarrow> admin_store result" where
  "rset_admin e new_admin s =
     unwrap (as_Admin s) (\<lambda>current.
     require_auth e current (
     Ok (publish [''AdmChng''] [VAddr current, VAddr new_admin] (s\<lparr>as_Admin := Some new_admin\<rparr>))))"

definition rset_get_admin :: "admin_store \<Rightarrow> address result" where
  "rset_get_admin s = unwrap (as_Admin s) Ok"

definition rsets_initialize :: "env \<Rightarrow> address \<Rightarrow> admin_store \<Rightarrow> admin_store result" where
  "rsets_initialize e admin s = panic_if (as_Admin s \<noteq> None) ''already initialized'' (Ok (s\<lparr>as_Admin := Some admin\<rparr>))"

definition rsets_admin :: "env \<Rightarrow> address \<Rightarrow> admin_store \<Rightarrow> admin_store result" where
  "rsets_admin e new_admin s =
     unwrap (as_Admin s) (\<lambda>current.
     require_auth e current (
     panic_if (new_admin = current) ''new_admin is already admin'' (
     Ok (publish [''AdmChng''] [VAddr current, VAddr new_admin] (s\<lparr>as_Admin := Some new_admin\<rparr>)))))"

definition rsets_get_admin :: "admin_store \<Rightarrow> address result" where
  "rsets_get_admin s = unwrap (as_Admin s) Ok"

datatype admin_call = AInit address | ASet address

fun sis_exec :: "env \<Rightarrow> admin_call \<Rightarrow> admin_store \<Rightarrow> admin_store result" where
  "sis_exec e (AInit a) s = sis_initialize e a s"
| "sis_exec e (ASet a) s = sis_set_admin e a s"

fun rsets_exec :: "env \<Rightarrow> admin_call \<Rightarrow> admin_store \<Rightarrow> admin_store result" where
  "rsets_exec e (AInit a) s = rsets_initialize e a s"
| "rsets_exec e (ASet a) s = rsets_admin e a s"

lemmas admin_defs = sis_initialize_def sis_set_admin_def rsets_initialize_def rsets_admin_def publish_def

text \<open>What an observer makes of the log: he starts with the first administrator and follows the announced changes.\<close>

fun follow_log :: "address \<Rightarrow> event list \<Rightarrow> address option" where
  "follow_log a [] = Some a"
| "follow_log a ((topics, [VAddr b, VAddr c]) # es) = (if b = a then follow_log c es else None)"
| "follow_log a (ev # es) = None"

lemma follow_log_append:
  "follow_log a es = Some b \<Longrightarrow> follow_log a (es @ [(t, [VAddr b, VAddr c])]) = Some c"
  by (induction a es rule: follow_log.induct) (auto split: if_splits)

definition log_agrees :: "address \<Rightarrow> admin_store \<Rightarrow> bool" where
  "log_agrees a s \<longleftrightarrow> follow_log a (events s) = as_Admin s \<and> as_Admin s \<noteq> None"

interpretation announced: contract_invariant sis_exec "log_agrees a"
  for a
proof (unfold_locales, goal_cases)
  case (1 s e c s')
  then show ?case
    by (cases c) (auto simp: admin_defs log_agrees_def result_simps intro: follow_log_append)
qed

interpretation announced2: contract_invariant rsets_exec "log_agrees a"
  for a
proof (unfold_locales, goal_cases)
  case (1 s e c s')
  then show ?case
    by (cases c) (auto simp: admin_defs log_agrees_def result_simps intro: follow_log_append)
qed

text \<open>
  The announced change (\<^verbatim>\<open>silent_admin_change\<close> and \<^verbatim>\<open>redundant_admin_set\<close>, the repaired halves): who follows the
  published events from the first administrator on always ends at the current one.
\<close>

theorem log_tells_admin:
  assumes "as_Admin s = Some a" and "events s = []"
  shows "follow_log a (events (run_calls sis_exec xs s)) = as_Admin (run_calls sis_exec xs s)
    \<and> follow_log a (events (run_calls rsets_exec xs s)) = as_Admin (run_calls rsets_exec xs s)"
proof -
  have "log_agrees a s"
    using assms by (simp add: log_agrees_def)
  then show ?thesis
    using announced.run_inv [of a s xs] announced2.run_inv [of a s xs] by (simp add: log_agrees_def)
qed

theorem log_tells_admin_witness:
  "follow_log (Address 2) (events (run_calls sis_exec [(signed_env [Address 2] 1, ASet (Address 3)), (signed_env [Address 3] 2, ASet (Address 4))]
      \<lparr>events = [], as_Admin = Some (Address 2)\<rparr>)) = Some (Address 4)"
proof -
  let ?s = "\<lparr>events = [], as_Admin = Some (Address 2)\<rparr>"
  let ?xs = "[(signed_env [Address 2] 1, ASet (Address 3)), (signed_env [Address 3] 2, ASet (Address 4))]"
  have "as_Admin (run_calls sis_exec ?xs ?s) = Some (Address 4)"
    by (simp add: admin_defs signed_env_def)
  then show ?thesis
    using log_tells_admin [of ?s "Address 2" ?xs, THEN conjunct1] by (simp only: admin_store.simps host.simps)
qed

lemma silent_change: "as_Admin s = Some a \<Longrightarrow> authorized e a \<Longrightarrow> \<exists>t. si_set_admin e b s = Ok t \<and> si_get_admin t = Ok b \<and> events t = events s"
  by (simp add: si_set_admin_def si_get_admin_def)

lemma redundant_announcement:
  "as_Admin s = Some a \<Longrightarrow> authorized e a \<Longrightarrow> \<exists>t. rset_admin e a s = Ok t \<and> as_Admin t = Some a \<and> events t \<noteq> events s"
  "as_Admin s = Some a \<Longrightarrow> authorized e a \<Longrightarrow> rsets_admin e a s = Err (Panic ''new_admin is already admin'')"
  by (simp_all add: rset_admin_def rsets_admin_def publish_def)

section \<open>public\_role\_grant\<close>

record role_store = host +
  ro_Admin :: "address option"
  ro_Operator :: "address \<rightharpoonup> bool"

definition rg_initialize :: "env \<Rightarrow> address \<Rightarrow> role_store \<Rightarrow> role_store result" where
  "rg_initialize e admin s = panic_if (ro_Admin s \<noteq> None) ''already initialized'' (Ok (s\<lparr>ro_Admin := Some admin\<rparr>))"

definition rg_vulnerable_entry :: "env \<Rightarrow> address \<Rightarrow> int \<Rightarrow> role_store \<Rightarrow> role_store result" where
  "rg_vulnerable_entry e actor amount s =
     Ok (publish [''ogv''] [VAddr actor, VInt amount] (s\<lparr>ro_Operator := (ro_Operator s)(actor \<mapsto> True)\<rparr>))"

definition rg_is_operator :: "role_store \<Rightarrow> address \<Rightarrow> bool" where
  "rg_is_operator s actor = unwrap_or (ro_Operator s actor) False"

definition rg_operator_only_action :: "env \<Rightarrow> address \<Rightarrow> role_store \<Rightarrow> int result" where
  "rg_operator_only_action e caller s = panic_if (\<not> unwrap_or (ro_Operator s caller) False) ''not operator'' (Ok 1)"

definition rg_get_admin :: "role_store \<Rightarrow> address result" where
  "rg_get_admin s = expect (ro_Admin s) ''admin not initialized'' Ok"

definition rgs_initialize :: "env \<Rightarrow> address \<Rightarrow> role_store \<Rightarrow> role_store result" where
  "rgs_initialize e admin s = panic_if (ro_Admin s \<noteq> None) ''already initialized'' (Ok (s\<lparr>ro_Admin := Some admin\<rparr>))"

definition rgs_admin_of :: "role_store \<Rightarrow> (address \<Rightarrow> 'a result) \<Rightarrow> 'a result" where
  "rgs_admin_of s k = expect (ro_Admin s) ''admin not initialized'' k"

definition rgs_emit_operator_granted :: "address \<Rightarrow> int \<Rightarrow> role_store \<Rightarrow> role_store" where
  "rgs_emit_operator_granted actor amount s = publish [''ogr''] [VAddr actor, VInt amount] s"

definition rgs_grant_operator_secure :: "env \<Rightarrow> address \<Rightarrow> int \<Rightarrow> role_store \<Rightarrow> role_store result" where
  "rgs_grant_operator_secure e actor amount s =
     panic_if (amount < 0) ''invalid amount'' (
     rgs_admin_of s (\<lambda>admin.
     require_auth e admin (
     Ok (rgs_emit_operator_granted actor amount (s\<lparr>ro_Operator := (ro_Operator s)(actor \<mapsto> True)\<rparr>)))))"

definition rgs_revoke_operator_secure :: "env \<Rightarrow> address \<Rightarrow> role_store \<Rightarrow> role_store result" where
  "rgs_revoke_operator_secure e actor s =
     rgs_admin_of s (\<lambda>admin.
     require_auth e admin (
     Ok (s\<lparr>ro_Operator := (ro_Operator s)(actor \<mapsto> False)\<rparr>)))"

definition rgs_operator_only_action :: "env \<Rightarrow> address \<Rightarrow> role_store \<Rightarrow> int result" where
  "rgs_operator_only_action e caller s = panic_if (\<not> unwrap_or (ro_Operator s caller) False) ''not operator'' (Ok 1)"

definition rgs_is_operator :: "role_store \<Rightarrow> address \<Rightarrow> bool" where
  "rgs_is_operator s actor = unwrap_or (ro_Operator s actor) False"

datatype role_call = RGInit address | RGGrant address int | RGRevoke address

fun rgs_exec :: "env \<Rightarrow> role_call \<Rightarrow> role_store \<Rightarrow> role_store result" where
  "rgs_exec e (RGInit a) s = rgs_initialize e a s"
| "rgs_exec e (RGGrant a n) s = rgs_grant_operator_secure e a n s"
| "rgs_exec e (RGRevoke a) s = rgs_revoke_operator_secure e a s"

lemmas rg_defs = rgs_initialize_def rgs_admin_of_def rgs_emit_operator_granted_def rgs_grant_operator_secure_def
  rgs_revoke_operator_secure_def rgs_is_operator_def publish_def

interpretation role_changes: guarded_view rgs_exec "\<lambda>s. rgs_is_operator s a"
  "\<lambda>e c s. (\<exists>adm. ro_Admin s = Some adm \<and> authorized e adm) \<and> ((\<exists>n. c = RGGrant a n) \<or> c = RGRevoke a)"
  for a
proof (unfold_locales, goal_cases)
  case (1 e c s s')
  then show ?case by (cases c) (auto simp: rg_defs result_simps split: if_splits)
qed

interpretation role_admin: contract_invariant rgs_exec "\<lambda>s. ro_Admin s = Some adm"
  for adm
proof (unfold_locales, goal_cases)
  case (1 s e c s')
  then show ?case by (cases c) (auto simp: rg_defs result_simps)
qed

text \<open>
  Granting with authority (\<^verbatim>\<open>public_role_grant/src/secure.rs\<close>), once initialised: whether somebody is an operator changes in
  a run only when the run has a grant or a revocation for him that the administrator signed.
\<close>

theorem roles_changed_by_admin:
  assumes "ro_Admin s = Some adm" and "rgs_is_operator (run_calls rgs_exec xs s) a \<noteq> rgs_is_operator s a"
  shows "\<exists>ys e c zs. xs = ys @ (e, c) # zs \<and> authorized e adm \<and> ((\<exists>n. c = RGGrant a n) \<or> c = RGRevoke a)"
proof -
  have "ro_Admin (run_calls rgs_exec ys s) = Some adm" for ys
    using assms(1) by (rule role_admin.run_inv)
  with role_changes.run_view [where xs = xs and s = s and a = a] assms(2) show ?thesis by fastforce
qed

theorem roles_changed_by_admin_witness:
  "\<exists>ys e c zs. [(signed_env [Address 2] 1, RGGrant (Address 5) 0)] = ys @ (e, c) # zs \<and> authorized e (Address 2)
     \<and> ((\<exists>n. c = RGGrant (Address 5) n) \<or> c = RGRevoke (Address 5))"
  by (rule roles_changed_by_admin [of "\<lparr>events = [], ro_Admin = Some (Address 2), ro_Operator = Map.empty\<rparr>"])
     (simp_all add: rg_defs signed_env_def)

text \<open>
  The action itself asks only whether the named caller is an operator, not whether he signed: anybody acts in
  the name of an operator, in both halves. And in the unrepaired one anybody makes himself one.
\<close>

lemma operator_action_unsigned: "rgs_is_operator s a \<Longrightarrow> rgs_operator_only_action e a s = Ok 1"
  by (simp add: rgs_operator_only_action_def rgs_is_operator_def)

lemma anyone_grants: "\<exists>t. rg_vulnerable_entry e a n s = Ok t \<and> rg_is_operator t a"
  by (simp add: rg_vulnerable_entry_def rg_is_operator_def publish_def)

section \<open>operator\_role\_not\_enforced\<close>

record op_vault =
  ov_Operator :: "address option"
  ov_Balance :: "int option"

definition ov_init :: "env \<Rightarrow> address \<Rightarrow> op_vault \<Rightarrow> op_vault result" where
  "ov_init e operator s = ensure (ov_Operator s = None) ''already initialized'' (Ok (s\<lparr>ov_Operator := Some operator\<rparr>))"

definition ov_deposit :: "env \<Rightarrow> address \<Rightarrow> int \<Rightarrow> op_vault \<Rightarrow> op_vault result" where
  "ov_deposit e from amount s =
     require_auth e from (
     arith (checked_add I128 (unwrap_or (ov_Balance s) 0) amount) (\<lambda>n. Ok (s\<lparr>ov_Balance := Some n\<rparr>)))"

definition ov_emergency_withdraw :: "env \<Rightarrow> address \<Rightarrow> int \<Rightarrow> op_vault \<Rightarrow> op_vault result" where
  "ov_emergency_withdraw e caller amount s =
     require_auth e caller (
     expect (ov_Operator s) ''not initialized'' (\<lambda>operator.
     let b = unwrap_or (ov_Balance s) 0 in
     ensure (b \<ge> amount) ''insufficient balance'' (
     arith (checked_sub I128 b amount) (\<lambda>n. Ok (s\<lparr>ov_Balance := Some n\<rparr>)))))"

definition ov_balance :: "op_vault \<Rightarrow> int" where
  "ov_balance s = unwrap_or (ov_Balance s) 0"

definition ov_operator :: "op_vault \<Rightarrow> address result" where
  "ov_operator s = expect (ov_Operator s) ''not initialized'' Ok"

definition ovs_init :: "env \<Rightarrow> address \<Rightarrow> op_vault \<Rightarrow> op_vault result" where
  "ovs_init e operator s = ensure (ov_Operator s = None) ''already initialized'' (Ok (s\<lparr>ov_Operator := Some operator\<rparr>))"

definition ovs_deposit :: "env \<Rightarrow> address \<Rightarrow> int \<Rightarrow> op_vault \<Rightarrow> op_vault result" where
  "ovs_deposit e from amount s =
     require_auth e from (
     arith (checked_add I128 (unwrap_or (ov_Balance s) 0) amount) (\<lambda>n. Ok (s\<lparr>ov_Balance := Some n\<rparr>)))"

definition ovs_emergency_withdraw :: "env \<Rightarrow> address \<Rightarrow> int \<Rightarrow> op_vault \<Rightarrow> op_vault result" where
  "ovs_emergency_withdraw e caller amount s =
     require_auth e caller (
     expect (ov_Operator s) ''not initialized'' (\<lambda>operator.
     ensure (caller = operator) ''caller is not the operator'' (
     let b = unwrap_or (ov_Balance s) 0 in
     ensure (b \<ge> amount) ''insufficient balance'' (
     arith (checked_sub I128 b amount) (\<lambda>n. Ok (s\<lparr>ov_Balance := Some n\<rparr>))))))"

definition ovs_balance :: "op_vault \<Rightarrow> int" where
  "ovs_balance s = unwrap_or (ov_Balance s) 0"

definition ovs_operator :: "op_vault \<Rightarrow> address result" where
  "ovs_operator s = expect (ov_Operator s) ''not initialized'' Ok"

datatype vault_op_call = OVInit address | OVDeposit address int | OVWithdraw address int

fun ovs_exec :: "env \<Rightarrow> vault_op_call \<Rightarrow> op_vault \<Rightarrow> op_vault result" where
  "ovs_exec e (OVInit a) s = ovs_init e a s"
| "ovs_exec e (OVDeposit a n) s = ovs_deposit e a n s"
| "ovs_exec e (OVWithdraw a n) s = ovs_emergency_withdraw e a n s"

lemmas ov_defs = ovs_init_def ovs_deposit_def ovs_emergency_withdraw_def ovs_balance_def Let_def

interpretation vault_falls: guarded_steps ovs_exec "\<lambda>s t. ovs_balance s \<le> ovs_balance t"
  "\<lambda>e c s. (\<exists>a n. c = OVWithdraw a n \<and> ov_Operator s = Some a \<and> authorized e a) \<or> (\<exists>a n. c = OVDeposit a n \<and> n < 0)"
proof (unfold_locales, goal_cases)
  case (3 e c s s')
  then show ?case by (cases c) (auto simp: ov_defs result_simps int_simps)
qed auto

text \<open>
  The enforced role (\<^verbatim>\<open>operator_role_not_enforced/src/secure.rs\<close>): the vault shrinks in a run only through a withdrawal
  that the operator signed, or through a deposit of a negative amount.
\<close>

theorem vault_shrinks_by_operator:
  assumes "ovs_balance (run_calls ovs_exec xs s) < ovs_balance s"
  shows "\<exists>ys e c zs. xs = ys @ (e, c) # zs
     \<and> ((\<exists>a n. c = OVWithdraw a n \<and> ov_Operator (run_calls ovs_exec ys s) = Some a \<and> authorized e a)
        \<or> (\<exists>a n. c = OVDeposit a n \<and> n < 0))"
proof -
  have "\<not> ovs_balance s \<le> ovs_balance (run_calls ovs_exec xs s)"
    using assms by simp
  from vault_falls.run_guard [OF this] show ?thesis by blast
qed

theorem vault_shrinks_by_operator_witness:
  "\<exists>ys e c zs. [(signed_env [Address 2] 1, OVWithdraw (Address 2) 30)] = ys @ (e, c) # zs
     \<and> ((\<exists>a n. c = OVWithdraw a n \<and> ov_Operator (run_calls ovs_exec ys \<lparr>ov_Operator = Some (Address 2), ov_Balance = Some 100\<rparr>) = Some a
            \<and> authorized e a)
        \<or> (\<exists>a n. c = OVDeposit a n \<and> n < 0))"
  by (rule vault_shrinks_by_operator) (simp add: ov_defs signed_env_def checked_sub_def checked_def in_range_def)

text \<open>The second way is open to everybody: the role check is evaded by a negative deposit.\<close>

lemma negative_deposit_withdraws:
  assumes "authorized e a" and "ov_Balance s = Some 100"
  shows "\<exists>t. ovs_deposit e a (- 100) s = Ok t \<and> ovs_balance t = 0"
  using assms by (simp add: ov_defs checked_add_def)

lemma anyone_withdraws:
  assumes "authorized e a" and "ov_Operator s = Some b" and "ov_Balance s = Some 100"
  shows "\<exists>t. ov_emergency_withdraw e a 100 s = Ok t \<and> ov_balance t = 0"
  using assms by (simp add: ov_emergency_withdraw_def ov_balance_def Let_def checked_sub_def)

section \<open>admin\_rugpull\<close>

record rug_escrow =
  re_Admin :: "address option"
  re_Balance :: "address \<rightharpoonup> int"

definition rug_initialize :: "env \<Rightarrow> address \<Rightarrow> rug_escrow \<Rightarrow> rug_escrow result" where
  "rug_initialize e admin s = panic_if (re_Admin s \<noteq> None) ''already initialized'' (Ok (s\<lparr>re_Admin := Some admin\<rparr>))"

definition rug_deposit :: "env \<Rightarrow> address \<Rightarrow> int \<Rightarrow> rug_escrow \<Rightarrow> rug_escrow result" where
  "rug_deposit e user amount s =
     require_auth e user (
     arith (checked_add I128 (get0 (re_Balance s) user) amount) (\<lambda>n. Ok (s\<lparr>re_Balance := (re_Balance s)(user \<mapsto> n)\<rparr>)))"

definition rug_withdraw :: "env \<Rightarrow> address \<Rightarrow> int \<Rightarrow> rug_escrow \<Rightarrow> rug_escrow result" where
  "rug_withdraw e user amount s =
     require_auth e user (
     expect (checked_sub I128 (get0 (re_Balance s) user) amount) ''insufficient funds'' (\<lambda>n.
     Ok (s\<lparr>re_Balance := (re_Balance s)(user \<mapsto> n)\<rparr>)))"

definition rug_move :: "address \<Rightarrow> address \<Rightarrow> int \<Rightarrow> rug_escrow \<Rightarrow> rug_escrow result" where
  "rug_move user recipient amount s =
     expect (checked_sub I128 (get0 (re_Balance s) user) amount) ''insufficient funds'' (\<lambda>n.
     let s1 = s\<lparr>re_Balance := (re_Balance s)(user \<mapsto> n)\<rparr> in
     arith (checked_add I128 (get0 (re_Balance s1) recipient) amount) (\<lambda>m.
     Ok (s1\<lparr>re_Balance := (re_Balance s1)(recipient \<mapsto> m)\<rparr>)))"

definition rug_admin_withdraw :: "env \<Rightarrow> address \<Rightarrow> address \<Rightarrow> int \<Rightarrow> rug_escrow \<Rightarrow> rug_escrow result" where
  "rug_admin_withdraw e user recipient amount s =
     expect (re_Admin s) ''not initialized'' (\<lambda>admin.
     require_auth e admin (rug_move user recipient amount s))"

definition rug_get_balance :: "rug_escrow \<Rightarrow> address \<Rightarrow> int" where
  "rug_get_balance s user = get0 (re_Balance s) user"

definition rugs_initialize :: "env \<Rightarrow> address \<Rightarrow> rug_escrow \<Rightarrow> rug_escrow result" where
  "rugs_initialize e admin s = panic_if (re_Admin s \<noteq> None) ''already initialized'' (Ok (s\<lparr>re_Admin := Some admin\<rparr>))"

definition rugs_deposit :: "env \<Rightarrow> address \<Rightarrow> int \<Rightarrow> rug_escrow \<Rightarrow> rug_escrow result" where
  "rugs_deposit e user amount s =
     require_auth e user (
     arith (checked_add I128 (get0 (re_Balance s) user) amount) (\<lambda>n. Ok (s\<lparr>re_Balance := (re_Balance s)(user \<mapsto> n)\<rparr>)))"

definition rugs_withdraw :: "env \<Rightarrow> address \<Rightarrow> int \<Rightarrow> rug_escrow \<Rightarrow> rug_escrow result" where
  "rugs_withdraw e user amount s =
     require_auth e user (
     expect (checked_sub I128 (get0 (re_Balance s) user) amount) ''insufficient funds'' (\<lambda>n.
     Ok (s\<lparr>re_Balance := (re_Balance s)(user \<mapsto> n)\<rparr>)))"

definition rugs_admin_withdraw :: "env \<Rightarrow> address \<Rightarrow> address \<Rightarrow> int \<Rightarrow> rug_escrow \<Rightarrow> rug_escrow result" where
  "rugs_admin_withdraw e user recipient amount s =
     expect (re_Admin s) ''not initialized'' (\<lambda>admin.
     require_auth e admin (
     require_auth e user (rug_move user recipient amount s)))"

definition rugs_get_balance :: "rug_escrow \<Rightarrow> address \<Rightarrow> int" where
  "rugs_get_balance s user = get0 (re_Balance s) user"

datatype rug_call =
    RUInit address
  | RUDeposit address int
  | RUWithdraw address int
  | RUAdmin address address int

fun rugs_exec :: "env \<Rightarrow> rug_call \<Rightarrow> rug_escrow \<Rightarrow> rug_escrow result" where
  "rugs_exec e (RUInit a) s = rugs_initialize e a s"
| "rugs_exec e (RUDeposit a n) s = rugs_deposit e a n s"
| "rugs_exec e (RUWithdraw a n) s = rugs_withdraw e a n s"
| "rugs_exec e (RUAdmin a b n) s = rugs_admin_withdraw e a b n s"

lemmas rug_defs = rugs_initialize_def rugs_deposit_def rugs_withdraw_def rugs_admin_withdraw_def rug_move_def rugs_get_balance_def
  Let_def

interpretation cosigned: guarded_steps rugs_exec "\<lambda>s t. rugs_get_balance s a \<le> rugs_get_balance t a"
  "\<lambda>e c s. authorized e a \<or> (\<exists>b n. c = RUAdmin b a n \<and> n < 0 \<and> authorized e b)"
  for a
proof (unfold_locales, goal_cases)
  case (3 e c s s')
  then show ?case by (cases c) (auto simp: rug_defs result_simps int_simps split: if_splits)
qed auto

text \<open>
  The co-signed withdrawal (\<^verbatim>\<open>admin_rugpull/src/secure.rs\<close>): a user's balance falls in a run only through a call he
  signed, or through an administrative withdrawal of a negative amount that names him as the recipient.
\<close>

theorem balance_falls_cosigned:
  assumes "rugs_get_balance (run_calls rugs_exec xs s) a < rugs_get_balance s a"
  shows "\<exists>ys e c zs. xs = ys @ (e, c) # zs \<and> (authorized e a \<or> (\<exists>b n. c = RUAdmin b a n \<and> n < 0 \<and> authorized e b))"
proof -
  have "\<not> rugs_get_balance s a \<le> rugs_get_balance (run_calls rugs_exec xs s) a"
    using assms by simp
  from cosigned.run_guard [OF this] show ?thesis by blast
qed

definition rug_demo :: rug_escrow where
  "rug_demo = \<lparr>re_Admin = Some (Address 2), re_Balance = [Address 5 \<mapsto> 100]\<rparr>"

lemma negative_admin_withdraw_drains:
  "rugs_get_balance (run_calls rugs_exec [(signed_env [Address 2, Address 6] 1, RUAdmin (Address 6) (Address 5) (- 100))] rug_demo) (Address 5) = 0"
  by (simp add: rug_demo_def rug_defs signed_env_def checked_add_def checked_sub_def checked_def in_range_def)

theorem balance_falls_cosigned_witness:
  "\<exists>ys e c zs. [(signed_env [Address 2, Address 6] 1, RUAdmin (Address 6) (Address 5) (- 100))] = ys @ (e, c) # zs
     \<and> (authorized e (Address 5) \<or> (\<exists>b n. c = RUAdmin b (Address 5) n \<and> n < 0 \<and> authorized e b))"
proof (rule balance_falls_cosigned [where s = rug_demo])
  show "rugs_get_balance (run_calls rugs_exec [(signed_env [Address 2, Address 6] 1, RUAdmin (Address 6) (Address 5) (- 100))] rug_demo) (Address 5)
    < rugs_get_balance rug_demo (Address 5)"
    unfolding negative_admin_withdraw_drains by (simp add: rug_demo_def rugs_get_balance_def)
qed

text \<open>Also in both halves: the check for sufficient funds tests only the range, so balances go below zero.\<close>

lemma withdraw_overdraws:
  "authorized e a \<Longrightarrow> re_Balance s a = None \<Longrightarrow> \<exists>t. rugs_withdraw e a 5 s = Ok t \<and> rugs_get_balance t a = - 5"
  by (simp add: rug_defs get0_def checked_sub_def checked_def in_range_def)

end
