(* ===== verification/Allowances.thy ===== *)
theory Allowances
  imports Soroban_Bytes
begin

text \<open>
  Tokens with allowances: \<^verbatim>\<open>allowance_not_decremented\<close>, \<^verbatim>\<open>nonzero_allowance_overwrite\<close>,
  \<^verbatim>\<open>allowance_before_balance\<close>, and with permits \<^verbatim>\<open>permit_domain_missing\<close> and \<^verbatim>\<open>permit_deadline_ignored\<close>. The
  five crates repeat the same storage helpers; they are defined once. The locale \<^verbatim>\<open>spending_limit\<close> states what
  an allowance promises: a spender never takes more than was granted. All halves but one keep it.
\<close>

section \<open>Storage\<close>

record allow_token =
  alw_Balance :: "address \<rightharpoonup> int"
  alw_Allowance :: "address \<times> address \<rightharpoonup> int"
  alw_Nonce :: "address \<rightharpoonup> int"

definition alw_get_balance :: "allow_token \<Rightarrow> address \<Rightarrow> int" where
  "alw_get_balance s account = get0 (alw_Balance s) account"

definition alw_set_balance :: "address \<Rightarrow> int \<Rightarrow> allow_token \<Rightarrow> allow_token" where
  "alw_set_balance account amount s = s\<lparr>alw_Balance := (alw_Balance s)(account \<mapsto> amount)\<rparr>"

definition alw_get_allowance :: "allow_token \<Rightarrow> address \<Rightarrow> address \<Rightarrow> int" where
  "alw_get_allowance s owner spender = get0 (alw_Allowance s) (owner, spender)"

definition alw_set_allowance :: "address \<Rightarrow> address \<Rightarrow> int \<Rightarrow> allow_token \<Rightarrow> allow_token" where
  "alw_set_allowance owner spender amount s =
     s\<lparr>alw_Allowance := (alw_Allowance s)((owner, spender) \<mapsto> amount)\<rparr>"

definition alw_get_nonce :: "allow_token \<Rightarrow> address \<Rightarrow> int" where
  "alw_get_nonce s account = get0 (alw_Nonce s) account"

definition inc_nonce :: "address \<Rightarrow> allow_token \<Rightarrow> allow_token result" where
  "inc_nonce account s =
     (let n = alw_get_nonce s account in
      arith (checked_add U64 n 1) (\<lambda>m. Ok (s\<lparr>alw_Nonce := (alw_Nonce s)(account \<mapsto> m)\<rparr>)))"

definition bump_nonce :: "address \<Rightarrow> allow_token \<Rightarrow> allow_token result" where
  "bump_nonce owner s =
     (let n = alw_get_nonce s owner in
      arith (checked_add U64 n 1) (\<lambda>m. Ok (s\<lparr>alw_Nonce := (alw_Nonce s)(owner \<mapsto> m)\<rparr>)))"

definition do_transfer :: "address \<Rightarrow> address \<Rightarrow> int \<Rightarrow> allow_token \<Rightarrow> allow_token result" where
  "do_transfer from to amount s =
     (let from_bal = alw_get_balance s from in
      ensure (from_bal \<ge> amount) ''insufficient balance'' (
      arith (checked_sub I128 from_bal amount) (\<lambda>n.
      let s1 = alw_set_balance from n s; to_bal = alw_get_balance s1 to in
      arith (checked_add I128 to_bal amount) (\<lambda>m. Ok (alw_set_balance to m s1)))))"

section \<open>allowance\_not\_decremented\<close>

definition nd_mint :: "env \<Rightarrow> address \<Rightarrow> int \<Rightarrow> allow_token \<Rightarrow> allow_token result" where
  "nd_mint e to amount s =
     arith (checked_add I128 (alw_get_balance s to) amount) (\<lambda>n. Ok (alw_set_balance to n s))"

definition nd_approve :: "env \<Rightarrow> address \<Rightarrow> address \<Rightarrow> int \<Rightarrow> allow_token \<Rightarrow> allow_token result" where
  "nd_approve e owner spender amount s =
     require_auth e owner (Ok (alw_set_allowance owner spender amount s))"

definition nd_transfer_from :: "env \<Rightarrow> address \<Rightarrow> address \<Rightarrow> address \<Rightarrow> int \<Rightarrow> allow_token \<Rightarrow> allow_token result" where
  "nd_transfer_from e spender from to amount s =
     require_auth e spender (
     let allowance = alw_get_allowance s from spender in
     ensure (allowance \<ge> amount) ''insufficient allowance'' (
     do_transfer from to amount s))"

definition nd_balance :: "allow_token \<Rightarrow> address \<Rightarrow> int" where
  "nd_balance s account = alw_get_balance s account"

definition nd_allowance :: "allow_token \<Rightarrow> address \<Rightarrow> address \<Rightarrow> int" where
  "nd_allowance s owner spender = alw_get_allowance s owner spender"

definition nds_mint :: "env \<Rightarrow> address \<Rightarrow> int \<Rightarrow> allow_token \<Rightarrow> allow_token result" where
  "nds_mint e to amount s =
     arith (checked_add I128 (alw_get_balance s to) amount) (\<lambda>n. Ok (alw_set_balance to n s))"

definition nds_approve :: "env \<Rightarrow> address \<Rightarrow> address \<Rightarrow> int \<Rightarrow> allow_token \<Rightarrow> allow_token result" where
  "nds_approve e owner spender amount s =
     require_auth e owner (Ok (alw_set_allowance owner spender amount s))"

definition nds_transfer_from :: "env \<Rightarrow> address \<Rightarrow> address \<Rightarrow> address \<Rightarrow> int \<Rightarrow> allow_token \<Rightarrow> allow_token result" where
  "nds_transfer_from e spender from to amount s =
     require_auth e spender (
     let allowance = alw_get_allowance s from spender in
     ensure (allowance \<ge> amount) ''insufficient allowance'' (
     arith (checked_sub I128 allowance amount) (\<lambda>left.
     do_transfer from to amount (alw_set_allowance from spender left s))))"

definition nds_balance :: "allow_token \<Rightarrow> address \<Rightarrow> int" where
  "nds_balance s account = alw_get_balance s account"

definition nds_allowance :: "allow_token \<Rightarrow> address \<Rightarrow> address \<Rightarrow> int" where
  "nds_allowance s owner spender = alw_get_allowance s owner spender"

section \<open>nonzero\_allowance\_overwrite\<close>

definition nz_mint :: "env \<Rightarrow> address \<Rightarrow> int \<Rightarrow> allow_token \<Rightarrow> allow_token result" where
  "nz_mint e to amount s =
     arith (checked_add I128 (alw_get_balance s to) amount) (\<lambda>n. Ok (alw_set_balance to n s))"

definition nz_approve :: "env \<Rightarrow> address \<Rightarrow> address \<Rightarrow> int \<Rightarrow> allow_token \<Rightarrow> allow_token result" where
  "nz_approve e owner spender amount s =
     require_auth e owner (Ok (alw_set_allowance owner spender amount s))"

definition nz_transfer_from :: "env \<Rightarrow> address \<Rightarrow> address \<Rightarrow> address \<Rightarrow> int \<Rightarrow> allow_token \<Rightarrow> allow_token result" where
  "nz_transfer_from e spender from to amount s =
     require_auth e spender (
     let allowance = alw_get_allowance s from spender in
     ensure (allowance \<ge> amount) ''insufficient allowance'' (
     arith (checked_sub I128 allowance amount) (\<lambda>left.
     do_transfer from to amount (alw_set_allowance from spender left s))))"

definition nz_balance :: "allow_token \<Rightarrow> address \<Rightarrow> int" where
  "nz_balance s account = alw_get_balance s account"

definition nz_allowance :: "allow_token \<Rightarrow> address \<Rightarrow> address \<Rightarrow> int" where
  "nz_allowance s owner spender = alw_get_allowance s owner spender"

definition nzs_mint :: "env \<Rightarrow> address \<Rightarrow> int \<Rightarrow> allow_token \<Rightarrow> allow_token result" where
  "nzs_mint e to amount s =
     arith (checked_add I128 (alw_get_balance s to) amount) (\<lambda>n. Ok (alw_set_balance to n s))"

definition nzs_approve :: "env \<Rightarrow> address \<Rightarrow> address \<Rightarrow> int \<Rightarrow> allow_token \<Rightarrow> allow_token result" where
  "nzs_approve e owner spender amount s =
     require_auth e owner (
     ensure (amount = 0 \<or> alw_get_allowance s owner spender = 0)
       ''nonzero allowance: must reset to zero before setting new value'' (
     Ok (alw_set_allowance owner spender amount s)))"

definition nzs_transfer_from :: "env \<Rightarrow> address \<Rightarrow> address \<Rightarrow> address \<Rightarrow> int \<Rightarrow> allow_token \<Rightarrow> allow_token result" where
  "nzs_transfer_from e spender from to amount s =
     require_auth e spender (
     let allowance = alw_get_allowance s from spender in
     ensure (allowance \<ge> amount) ''insufficient allowance'' (
     arith (checked_sub I128 allowance amount) (\<lambda>left.
     do_transfer from to amount (alw_set_allowance from spender left s))))"

definition nzs_balance :: "allow_token \<Rightarrow> address \<Rightarrow> int" where
  "nzs_balance s account = alw_get_balance s account"

definition nzs_allowance :: "allow_token \<Rightarrow> address \<Rightarrow> address \<Rightarrow> int" where
  "nzs_allowance s owner spender = alw_get_allowance s owner spender"

section \<open>allowance\_before\_balance\<close>

definition ab_mint :: "env \<Rightarrow> address \<Rightarrow> int \<Rightarrow> allow_token \<Rightarrow> allow_token result" where
  "ab_mint e to amount s =
     arith (checked_add I128 (alw_get_balance s to) amount) (\<lambda>n. Ok (alw_set_balance to n s))"

definition ab_approve :: "env \<Rightarrow> address \<Rightarrow> address \<Rightarrow> int \<Rightarrow> allow_token \<Rightarrow> allow_token result" where
  "ab_approve e owner spender amount s =
     require_auth e owner (Ok (alw_set_allowance owner spender amount s))"

definition ab_balance :: "allow_token \<Rightarrow> address \<Rightarrow> int" where
  "ab_balance s addr = alw_get_balance s addr"

definition ab_allowance :: "allow_token \<Rightarrow> address \<Rightarrow> address \<Rightarrow> int" where
  "ab_allowance s owner spender = alw_get_allowance s owner spender"

definition transfer_from_vulnerable :: "env \<Rightarrow> address \<Rightarrow> address \<Rightarrow> address \<Rightarrow> int \<Rightarrow> allow_token \<Rightarrow> allow_token result" where
  "transfer_from_vulnerable e spender from to amount s =
     require_auth e spender (
     let allowance = alw_get_allowance s from spender in
     panic_if (allowance < amount) ''insufficient allowance'' (
     arith (checked_sub I128 allowance amount) (\<lambda>left.
     let s1 = alw_set_allowance from spender left s; from_bal = alw_get_balance s1 from in
     panic_if (from_bal < amount) ''insufficient balance'' (
     arith (checked_sub I128 from_bal amount) (\<lambda>n.
     let s2 = alw_set_balance from n s1 in
     arith (checked_add I128 (alw_get_balance s2 to) amount) (\<lambda>m.
     Ok (alw_set_balance to m s2)))))))"

definition ab_transfer_from :: "env \<Rightarrow> address \<Rightarrow> address \<Rightarrow> address \<Rightarrow> int \<Rightarrow> allow_token \<Rightarrow> allow_token result" where
  "ab_transfer_from e spender from to amount s =
     require_auth e spender (
     let from_bal = alw_get_balance s from in
     panic_if (from_bal < amount) ''insufficient balance'' (
     let allowance = alw_get_allowance s from spender in
     panic_if (allowance < amount) ''insufficient allowance'' (
     arith (checked_sub I128 from_bal amount) (\<lambda>n.
     let s1 = alw_set_balance from n s in
     arith (checked_add I128 (alw_get_balance s1 to) amount) (\<lambda>m.
     let s2 = alw_set_balance to m s1 in
     arith (checked_sub I128 allowance amount) (\<lambda>left.
     Ok (alw_set_allowance from spender left s2)))))))"

section \<open>permit\_domain\_missing\<close>

text \<open>
  The digests hash the XDR encoding of addresses and of the action symbol, the network id and big-endian
  integers; hash, encodings and network id come from the host and are arguments.
\<close>

definition vulnerable_permit_digest ::
    "(bytes \<Rightarrow> bytes) \<Rightarrow> (address \<Rightarrow> bytes) \<Rightarrow> address \<Rightarrow> address \<Rightarrow> int \<Rightarrow> bytes" where
  "vulnerable_permit_digest sha256 to_xdr owner spender amount =
     sha256 (to_xdr owner @ to_xdr spender @ be_bytes 16 amount)"

definition secure_permit_message ::
    "(address \<Rightarrow> bytes) \<Rightarrow> (string \<Rightarrow> bytes) \<Rightarrow> bytes \<Rightarrow> env \<Rightarrow> address \<Rightarrow> address \<Rightarrow> int \<Rightarrow> int \<Rightarrow> int \<Rightarrow> bytes" where
  "secure_permit_message to_xdr symbol_xdr network_id e owner spender amount nonce deadline =
     to_xdr (current_contract e) @ network_id @ be_bytes 8 nonce @ be_bytes 8 deadline @ symbol_xdr ''permit''
       @ to_xdr owner @ to_xdr spender @ be_bytes 16 amount"

definition secure_permit_digest ::
    "(bytes \<Rightarrow> bytes) \<Rightarrow> (address \<Rightarrow> bytes) \<Rightarrow> (string \<Rightarrow> bytes) \<Rightarrow> bytes \<Rightarrow> env \<Rightarrow> address \<Rightarrow> address \<Rightarrow> int \<Rightarrow> int \<Rightarrow> int \<Rightarrow> bytes" where
  "secure_permit_digest sha256 to_xdr symbol_xdr network_id e owner spender amount nonce deadline =
     sha256 (secure_permit_message to_xdr symbol_xdr network_id e owner spender amount nonce deadline)"

definition pd_mint :: "env \<Rightarrow> address \<Rightarrow> int \<Rightarrow> allow_token \<Rightarrow> allow_token result" where
  "pd_mint e to amount s =
     arith (checked_add I128 (alw_get_balance s to) amount) (\<lambda>n. Ok (alw_set_balance to n s))"

definition pd_permit :: "env \<Rightarrow> address \<Rightarrow> address \<Rightarrow> int \<Rightarrow> bytes \<Rightarrow> allow_token \<Rightarrow> allow_token result" where
  "pd_permit e owner spender amount sig s =
     require_auth e owner (Ok (alw_set_allowance owner spender amount s))"

definition pd_transfer_from :: "env \<Rightarrow> address \<Rightarrow> address \<Rightarrow> address \<Rightarrow> int \<Rightarrow> allow_token \<Rightarrow> allow_token result" where
  "pd_transfer_from e spender from to amount s =
     require_auth e spender (
     let allowance = alw_get_allowance s from spender in
     ensure (allowance \<ge> amount) ''insufficient allowance'' (
     arith (checked_sub I128 allowance amount) (\<lambda>left.
     do_transfer from to amount (alw_set_allowance from spender left s))))"

definition pd_balance :: "allow_token \<Rightarrow> address \<Rightarrow> int" where
  "pd_balance s account = alw_get_balance s account"

definition pd_allowance :: "allow_token \<Rightarrow> address \<Rightarrow> address \<Rightarrow> int" where
  "pd_allowance s owner spender = alw_get_allowance s owner spender"

definition pd_permit_digest :: "(bytes \<Rightarrow> bytes) \<Rightarrow> (address \<Rightarrow> bytes) \<Rightarrow> address \<Rightarrow> address \<Rightarrow> int \<Rightarrow> bytes" where
  "pd_permit_digest sha256 to_xdr owner spender amount = vulnerable_permit_digest sha256 to_xdr owner spender amount"

definition pds_mint :: "env \<Rightarrow> address \<Rightarrow> int \<Rightarrow> allow_token \<Rightarrow> allow_token result" where
  "pds_mint e to amount s =
     arith (checked_add I128 (alw_get_balance s to) amount) (\<lambda>n. Ok (alw_set_balance to n s))"

text \<open>The digest is computed and thrown away; the signature is an argument nobody reads.\<close>

definition pds_permit :: "env \<Rightarrow> address \<Rightarrow> address \<Rightarrow> int \<Rightarrow> int \<Rightarrow> bytes \<Rightarrow> allow_token \<Rightarrow> allow_token result" where
  "pds_permit e owner spender amount deadline sig s =
     ensure (timestamp e \<le> deadline) ''permit expired'' (
     require_auth e owner (
     and_then (inc_nonce owner s) (\<lambda>s1. Ok (alw_set_allowance owner spender amount s1))))"

definition pds_transfer_from :: "env \<Rightarrow> address \<Rightarrow> address \<Rightarrow> address \<Rightarrow> int \<Rightarrow> allow_token \<Rightarrow> allow_token result" where
  "pds_transfer_from e spender from to amount s =
     require_auth e spender (
     let allowance = alw_get_allowance s from spender in
     ensure (allowance \<ge> amount) ''insufficient allowance'' (
     arith (checked_sub I128 allowance amount) (\<lambda>left.
     do_transfer from to amount (alw_set_allowance from spender left s))))"

definition pds_balance :: "allow_token \<Rightarrow> address \<Rightarrow> int" where
  "pds_balance s account = alw_get_balance s account"

definition pds_allowance :: "allow_token \<Rightarrow> address \<Rightarrow> address \<Rightarrow> int" where
  "pds_allowance s owner spender = alw_get_allowance s owner spender"

definition pds_permit_digest :: "(bytes \<Rightarrow> bytes) \<Rightarrow> (address \<Rightarrow> bytes) \<Rightarrow> (string \<Rightarrow> bytes) \<Rightarrow> bytes \<Rightarrow> env \<Rightarrow> address \<Rightarrow> address \<Rightarrow> int \<Rightarrow> int \<Rightarrow> int \<Rightarrow> bytes" where
  "pds_permit_digest sha256 to_xdr symbol_xdr network_id e owner spender amount nonce deadline = 
     secure_permit_digest sha256 to_xdr symbol_xdr network_id e owner spender amount nonce deadline"

section \<open>permit\_deadline\_ignored\<close>

definition pt_mint :: "env \<Rightarrow> address \<Rightarrow> int \<Rightarrow> allow_token \<Rightarrow> allow_token result" where
  "pt_mint e to amount s =
     arith (checked_add I128 (alw_get_balance s to) amount) (\<lambda>n. Ok (alw_set_balance to n s))"

definition pt_permit :: "env \<Rightarrow> address \<Rightarrow> address \<Rightarrow> int \<Rightarrow> int \<Rightarrow> int \<Rightarrow> allow_token \<Rightarrow> allow_token result" where
  "pt_permit e owner spender amount deadline nonce s =
     require_auth e owner (
     and_then (bump_nonce owner s) (\<lambda>s1. Ok (alw_set_allowance owner spender amount s1)))"

definition pt_transfer_from :: "env \<Rightarrow> address \<Rightarrow> address \<Rightarrow> address \<Rightarrow> int \<Rightarrow> allow_token \<Rightarrow> allow_token result" where
  "pt_transfer_from e spender from to amount s =
     require_auth e spender (
     let allowance = alw_get_allowance s from spender in
     ensure (allowance \<ge> amount) ''insufficient allowance'' (
     arith (checked_sub I128 allowance amount) (\<lambda>left.
     do_transfer from to amount (alw_set_allowance from spender left s))))"

definition pt_balance :: "allow_token \<Rightarrow> address \<Rightarrow> int" where
  "pt_balance s account = alw_get_balance s account"

definition pt_allowance :: "allow_token \<Rightarrow> address \<Rightarrow> address \<Rightarrow> int" where
  "pt_allowance s owner spender = alw_get_allowance s owner spender"

definition pt_nonce :: "allow_token \<Rightarrow> address \<Rightarrow> int" where
  "pt_nonce s owner = alw_get_nonce s owner"

definition pts_mint :: "env \<Rightarrow> address \<Rightarrow> int \<Rightarrow> allow_token \<Rightarrow> allow_token result" where
  "pts_mint e to amount s =
     arith (checked_add I128 (alw_get_balance s to) amount) (\<lambda>n. Ok (alw_set_balance to n s))"

definition pts_permit :: "env \<Rightarrow> address \<Rightarrow> address \<Rightarrow> int \<Rightarrow> int \<Rightarrow> int \<Rightarrow> allow_token \<Rightarrow> allow_token result" where
  "pts_permit e owner spender amount deadline nonce s =
     require_auth e owner (
     ensure (timestamp e \<le> deadline) ''permit expired'' (
     and_then (bump_nonce owner s) (\<lambda>s1. Ok (alw_set_allowance owner spender amount s1))))"

definition pts_transfer_from :: "env \<Rightarrow> address \<Rightarrow> address \<Rightarrow> address \<Rightarrow> int \<Rightarrow> allow_token \<Rightarrow> allow_token result" where
  "pts_transfer_from e spender from to amount s =
     require_auth e spender (
     let allowance = alw_get_allowance s from spender in
     ensure (allowance \<ge> amount) ''insufficient allowance'' (
     arith (checked_sub I128 allowance amount) (\<lambda>left.
     do_transfer from to amount (alw_set_allowance from spender left s))))"

definition pts_balance :: "allow_token \<Rightarrow> address \<Rightarrow> int" where
  "pts_balance s account = alw_get_balance s account"

definition pts_allowance :: "allow_token \<Rightarrow> address \<Rightarrow> address \<Rightarrow> int" where
  "pts_allowance s owner spender = alw_get_allowance s owner spender"

definition pts_nonce :: "allow_token \<Rightarrow> address \<Rightarrow> int" where
  "pts_nonce s owner = alw_get_nonce s owner"

section \<open>The calls\<close>

text \<open>
  One call type for the five crates; an approval carries the deadline a permit has (the others ignore it), and
  the unread signatures and nonces are left out.
\<close>

datatype token_call =
    TMint address int
  | TApprove address address int int
  | TTransferFrom address address address int

fun nd_exec :: "env \<Rightarrow> token_call \<Rightarrow> allow_token \<Rightarrow> allow_token result" where
  "nd_exec e (TMint a n) s = nd_mint e a n s"
| "nd_exec e (TApprove a b n d) s = nd_approve e a b n s"
| "nd_exec e (TTransferFrom b a t n) s = nd_transfer_from e b a t n s"

fun nds_exec :: "env \<Rightarrow> token_call \<Rightarrow> allow_token \<Rightarrow> allow_token result" where
  "nds_exec e (TMint a n) s = nds_mint e a n s"
| "nds_exec e (TApprove a b n d) s = nds_approve e a b n s"
| "nds_exec e (TTransferFrom b a t n) s = nds_transfer_from e b a t n s"

fun nz_exec :: "env \<Rightarrow> token_call \<Rightarrow> allow_token \<Rightarrow> allow_token result" where
  "nz_exec e (TMint a n) s = nz_mint e a n s"
| "nz_exec e (TApprove a b n d) s = nz_approve e a b n s"
| "nz_exec e (TTransferFrom b a t n) s = nz_transfer_from e b a t n s"

fun nzs_exec :: "env \<Rightarrow> token_call \<Rightarrow> allow_token \<Rightarrow> allow_token result" where
  "nzs_exec e (TMint a n) s = nzs_mint e a n s"
| "nzs_exec e (TApprove a b n d) s = nzs_approve e a b n s"
| "nzs_exec e (TTransferFrom b a t n) s = nzs_transfer_from e b a t n s"

fun abv_exec :: "env \<Rightarrow> token_call \<Rightarrow> allow_token \<Rightarrow> allow_token result" where
  "abv_exec e (TMint a n) s = ab_mint e a n s"
| "abv_exec e (TApprove a b n d) s = ab_approve e a b n s"
| "abv_exec e (TTransferFrom b a t n) s = transfer_from_vulnerable e b a t n s"

fun ab_exec :: "env \<Rightarrow> token_call \<Rightarrow> allow_token \<Rightarrow> allow_token result" where
  "ab_exec e (TMint a n) s = ab_mint e a n s"
| "ab_exec e (TApprove a b n d) s = ab_approve e a b n s"
| "ab_exec e (TTransferFrom b a t n) s = ab_transfer_from e b a t n s"

fun pd_exec :: "env \<Rightarrow> token_call \<Rightarrow> allow_token \<Rightarrow> allow_token result" where
  "pd_exec e (TMint a n) s = pd_mint e a n s"
| "pd_exec e (TApprove a b n d) s = pd_permit e a b n [] s"
| "pd_exec e (TTransferFrom b a t n) s = pd_transfer_from e b a t n s"

fun pds_exec :: "env \<Rightarrow> token_call \<Rightarrow> allow_token \<Rightarrow> allow_token result" where
  "pds_exec e (TMint a n) s = pds_mint e a n s"
| "pds_exec e (TApprove a b n d) s = pds_permit e a b n d [] s"
| "pds_exec e (TTransferFrom b a t n) s = pds_transfer_from e b a t n s"

fun pt_exec :: "env \<Rightarrow> token_call \<Rightarrow> allow_token \<Rightarrow> allow_token result" where
  "pt_exec e (TMint a n) s = pt_mint e a n s"
| "pt_exec e (TApprove a b n d) s = pt_permit e a b n d 0 s"
| "pt_exec e (TTransferFrom b a t n) s = pt_transfer_from e b a t n s"

fun pts_exec :: "env \<Rightarrow> token_call \<Rightarrow> allow_token \<Rightarrow> allow_token result" where
  "pts_exec e (TMint a n) s = pts_mint e a n s"
| "pts_exec e (TApprove a b n d) s = pts_permit e a b n d 0 s"
| "pts_exec e (TTransferFrom b a t n) s = pts_transfer_from e b a t n s"

section \<open>What an allowance promises\<close>

fun minted :: "env \<Rightarrow> token_call \<Rightarrow> allow_token \<Rightarrow> int" where
  "minted e (TMint a n) s = n"
| "minted e c s = 0"

fun granted :: "address \<Rightarrow> address \<Rightarrow> env \<Rightarrow> token_call \<Rightarrow> allow_token \<Rightarrow> int" where
  "granted a b e (TApprove a' b' n d) s = (if a' = a \<and> b' = b then max 0 n else 0)"
| "granted a b e c s = 0"

fun spent :: "address \<Rightarrow> address \<Rightarrow> env \<Rightarrow> token_call \<Rightarrow> allow_token \<Rightarrow> int" where
  "spent a b e (TTransferFrom b' a' t n) s = (if a' = a \<and> b' = b then n else 0)"
| "spent a b e c s = 0"

fun debited :: "address \<Rightarrow> env \<Rightarrow> token_call \<Rightarrow> allow_token \<Rightarrow> int" where
  "debited a e (TTransferFrom b a' t n) s = (if a' = a then n else 0)"
| "debited a e c s = 0"

text \<open>The spenders that a run names, and the calls without negative amounts.\<close>

definition spenders :: "(env \<times> token_call) list \<Rightarrow> address set" where
  "spenders xs = set (concat (map (\<lambda>(e, c). case c of TTransferFrom b a t n \<Rightarrow> [b] | _ \<Rightarrow> []) xs))"

fun nonneg_call :: "token_call \<Rightarrow> bool" where
  "nonneg_call (TMint a n) \<longleftrightarrow> 0 \<le> n"
| "nonneg_call (TApprove a b n d) \<longleftrightarrow> True"
| "nonneg_call (TTransferFrom b a t n) \<longleftrightarrow> 0 \<le> n"

lemma debited_by_spenders:
  "finite B \<Longrightarrow> spenders xs \<subseteq> B \<Longrightarrow> run_flow f (debited a) xs s = (\<Sum>b\<in>B. run_flow f (spent a b) xs s)"
proof (induction xs arbitrary: s)
  case (Cons x xs)
  obtain e c where x: "x = (e, c)" by force
  have step: "(\<Sum>b\<in>B. spent a b e c s) = debited a e c s"
    using Cons.prems x by (cases c) (auto simp: spenders_def)
  have "run_flow f (debited a) xs t = (\<Sum>b\<in>B. run_flow f (spent a b) xs t)" for t
    using Cons.IH Cons.prems x by (auto simp: spenders_def)
  with step x show ?case by (simp add: sum.distrib split: sum.splits)
qed simp

definition finite_supply :: "allow_token \<Rightarrow> bool" where
  "finite_supply s \<longleftrightarrow> finite (dom (alw_Balance s))"

definition alw_supply :: "allow_token \<Rightarrow> int" where
  "alw_supply s = sum_bal (alw_Balance s)"

text \<open>
  The law of the storage (only minting changes the sum of the balances), and on top of it the law of the
  allowance: a transfer uses it up, and only the owner's own approval adds to it.
\<close>

locale minted_supply =
  fixes exec :: "env \<Rightarrow> token_call \<Rightarrow> allow_token \<Rightarrow> allow_token result"
  assumes exec_supply: "finite_supply s \<Longrightarrow> exec e c s = Ok s' \<Longrightarrow> finite_supply s' \<and> alw_supply s' = alw_supply s + minted e c s"

sublocale minted_supply \<subseteq> total: conserved_flow exec finite_supply alw_supply minted
  by unfold_locales (auto dest: exec_supply)

context minted_supply
begin

lemma run_supply: "finite_supply s \<Longrightarrow> alw_supply (run_calls exec xs s) = alw_supply s + run_flow exec minted xs s"
  by (rule total.run_conserves)

end

locale spending_limit = minted_supply +
  assumes exec_spend: "exec e c s = Ok s' \<Longrightarrow>
      max 0 (alw_get_allowance s' a b) + spent a b e c s \<le> max 0 (alw_get_allowance s a b) + granted a b e c s"
    and exec_debit: "exec e c s = Ok s' \<Longrightarrow> nonneg_call c \<Longrightarrow> alw_get_balance s a \<le> alw_get_balance s' a + debited a e c s"
    and grants_signed: "exec e (TApprove a b n d) s = Ok s' \<Longrightarrow> authorized e a"
    and spends_signed: "exec e (TTransferFrom b a t n) s = Ok s' \<Longrightarrow> authorized e b"

sublocale spending_limit \<subseteq> spends: growing_flow exec "\<lambda>_. True" "\<lambda>s. - max 0 (alw_get_allowance s a b)"
    "\<lambda>e c s. spent a b e c s - granted a b e c s"
  for a b
proof (unfold_locales, goal_cases)
  case (2 s e c s')
  then show ?case using exec_spend [of e c s s' a b] by linarith
qed simp

context spending_limit
begin

lemma run_spend:
  "run_flow exec (spent a b) xs s \<le> max 0 (alw_get_allowance s a b) + run_flow exec (granted a b) xs s"
  using spends.run_grows [where s = s and a = a and b = b and xs = xs] by (simp add: run_flow_diff)

lemma run_debit:
  "\<forall>(e, c)\<in>set xs. nonneg_call c \<Longrightarrow> alw_get_balance s a \<le> alw_get_balance (run_calls exec xs s) a + run_flow exec (debited a) xs s"
proof (induction xs arbitrary: s)
  case (Cons x xs)
  obtain e c where x: "x = (e, c)" by force
  show ?case
  proof (cases "exec e c s")
    case (Inr s')
    with Cons.IH [of s'] Cons.prems x exec_debit [OF Inr, of a] show ?thesis by simp
  qed (use Cons x in simp)
qed simp

lemma run_loss:
  assumes "\<forall>(e, c)\<in>set xs. nonneg_call c"
  shows "alw_get_balance s a - alw_get_balance (run_calls exec xs s) a
    \<le> (\<Sum>b\<in>spenders xs. max 0 (alw_get_allowance s a b) + run_flow exec (granted a b) xs s)"
proof -
  have "finite (spenders xs)" unfolding spenders_def by (rule finite_set)
  then have "run_flow exec (debited a) xs s = (\<Sum>b\<in>spenders xs. run_flow exec (spent a b) xs s)"
    by (intro debited_by_spenders) auto
  also have "\<dots> \<le> (\<Sum>b\<in>spenders xs. max 0 (alw_get_allowance s a b) + run_flow exec (granted a b) xs s)"
    by (intro sum_mono run_spend)
  finally show ?thesis using run_debit [OF assms, of s a] by linarith
qed

end

lemmas alw_views = alw_get_balance_def alw_set_balance_def alw_get_allowance_def alw_set_allowance_def alw_get_nonce_def

lemma do_transfer_Ok:
  assumes "do_transfer a t n s = Ok s'"
  shows "alw_Allowance s' = alw_Allowance s" and "finite_supply s \<Longrightarrow> finite_supply s' \<and> alw_supply s' = alw_supply s"
proof -
  show "alw_Allowance s' = alw_Allowance s"
    using assms by (auto simp: do_transfer_def alw_views result_simps Let_def)
  assume fin: "finite_supply s"
  let ?m = "(alw_Balance s)(a \<mapsto> get0 (alw_Balance s) a - n)"
  have s': "alw_Balance s' = ?m(t \<mapsto> get0 ?m t + n)"
    using assms by (auto simp: do_transfer_def alw_views result_simps int_simps Let_def)
  have "finite (dom (alw_Balance s))" "finite (dom ?m)"
    using fin by (simp_all add: finite_supply_def)
  note sums = sum_bal_update [OF this(2)] sum_bal_update [OF this(1)]
  show "finite_supply s' \<and> alw_supply s' = alw_supply s"
    using fin by (simp add: finite_supply_def alw_supply_def s' sums)
qed

lemma do_transfer_balance:
  assumes "do_transfer a t n s = Ok s'"
  shows "alw_get_balance s' x = alw_get_balance s x - (if x = a then n else 0) + (if x = t then n else 0)"
  using assms by (auto simp: do_transfer_def alw_views result_simps int_simps Let_def)

lemma alw_frames [simp]:
  "alw_Balance (alw_set_allowance a b n s) = alw_Balance s"
  "finite_supply (alw_set_allowance a b n s) = finite_supply s" "alw_supply (alw_set_allowance a b n s) = alw_supply s"
  "alw_get_allowance (alw_set_allowance a b n s) a' b' = (if a' = a \<and> b' = b then n else alw_get_allowance s a' b')"
  "alw_get_allowance (alw_set_balance a n s) a' b' = alw_get_allowance s a' b'"
  by (simp_all add: alw_views finite_supply_def alw_supply_def)

lemma mint_supply:
  "finite_supply s \<Longrightarrow> finite_supply (alw_set_balance a (alw_get_balance s a + n) s)
     \<and> alw_supply (alw_set_balance a (alw_get_balance s a + n) s) = alw_supply s + n"
  by (simp add: finite_supply_def alw_supply_def alw_views sum_bal_update)

lemma nonce_frames [result_simps]:
  "inc_nonce a s = Ok s' \<longleftrightarrow> in_range U64 (alw_get_nonce s a + 1) \<and> s' = s\<lparr>alw_Nonce := (alw_Nonce s)(a \<mapsto> alw_get_nonce s a + 1)\<rparr>"
  "bump_nonce a s = Ok s' \<longleftrightarrow> in_range U64 (alw_get_nonce s a + 1) \<and> s' = s\<lparr>alw_Nonce := (alw_Nonce s)(a \<mapsto> alw_get_nonce s a + 1)\<rparr>"
  by (auto simp: inc_nonce_def bump_nonce_def Let_def result_simps int_simps)

lemma nonce_update_frames [simp]:
  "alw_get_allowance (s\<lparr>alw_Nonce := m\<rparr>) a b = alw_get_allowance s a b"
  "finite_supply (s\<lparr>alw_Nonce := m\<rparr>) = finite_supply s" "alw_supply (s\<lparr>alw_Nonce := m\<rparr>) = alw_supply s"
  by (simp_all add: alw_views finite_supply_def alw_supply_def)

section \<open>The contracts keep the promise\<close>

text \<open>Every transfer but the one that forgets the allowance is the same function of the state.\<close>

lemma same_transfer:
  "nz_transfer_from = nds_transfer_from" "nzs_transfer_from = nds_transfer_from" "pd_transfer_from = nds_transfer_from"
  "pds_transfer_from = nds_transfer_from" "pt_transfer_from = nds_transfer_from" "pts_transfer_from = nds_transfer_from"
  by (simp_all add: fun_eq_iff nds_transfer_from_def nz_transfer_from_def nzs_transfer_from_def pd_transfer_from_def
      pds_transfer_from_def pt_transfer_from_def pts_transfer_from_def)

lemma same_mint:
  "nd_mint = nds_mint" "nz_mint = nds_mint" "nzs_mint = nds_mint" "ab_mint = nds_mint" "pd_mint = nds_mint"
  "pds_mint = nds_mint" "pt_mint = nds_mint" "pts_mint = nds_mint"
  by (simp_all add: fun_eq_iff nds_mint_def nd_mint_def nz_mint_def nzs_mint_def ab_mint_def pd_mint_def pds_mint_def
      pt_mint_def pts_mint_def)

lemma mint_Ok:
  "nds_mint e a n s = Ok s' \<longleftrightarrow> in_range I128 (alw_get_balance s a + n) \<and> s' = alw_set_balance a (alw_get_balance s a + n) s"
  by (auto simp: nds_mint_def result_simps int_simps)

lemma transfer_from_Ok:
  assumes "nds_transfer_from e b a t n s = Ok s'"
  shows "authorized e b" and "n \<le> alw_get_allowance s a b"
    and "alw_get_allowance s' x y = (if x = a \<and> y = b then alw_get_allowance s a b - n else alw_get_allowance s x y)"
    and "finite_supply s \<Longrightarrow> finite_supply s' \<and> alw_supply s' = alw_supply s"
    and "alw_get_balance s' x = alw_get_balance s x - (if x = a then n else 0) + (if x = t then n else 0)"
proof -
  obtain s1 where s1: "s1 = alw_set_allowance a b (alw_get_allowance s a b - n) s" "do_transfer a t n s1 = Ok s'"
    and "authorized e b" "n \<le> alw_get_allowance s a b"
    using assms by (auto simp: nds_transfer_from_def Let_def result_simps int_simps)
  then show "authorized e b" "n \<le> alw_get_allowance s a b" by simp_all
  show "alw_get_allowance s' x y = (if x = a \<and> y = b then alw_get_allowance s a b - n else alw_get_allowance s x y)"
    using do_transfer_Ok(1) [OF s1(2)] s1(1) by (simp add: alw_views)
  show "finite_supply s' \<and> alw_supply s' = alw_supply s" if "finite_supply s"
    using do_transfer_Ok(2) [OF s1(2)] s1(1) that by simp
  show "alw_get_balance s' x = alw_get_balance s x - (if x = a then n else 0) + (if x = t then n else 0)"
    using do_transfer_balance [OF s1(2), of x] s1(1) by (simp add: alw_views)
qed

lemma repaired_step:
  assumes "mint = nds_mint" and "\<And>e b a t n s s'. tf e b a t n s = Ok s' \<Longrightarrow> nds_transfer_from e b a t n s = Ok s'"
    and "\<And>e a b n d s s'. ap e a b n d s = Ok s' \<Longrightarrow>
           authorized e a \<and> (\<exists>m. s' = alw_set_allowance a b n (s\<lparr>alw_Nonce := m\<rparr>))"
    and "\<And>e a n s. ex e (TMint a n) s = mint e a n s" and "\<And>e a b n d s. ex e (TApprove a b n d) s = ap e a b n d s"
    and "\<And>e a b t n s. ex e (TTransferFrom b a t n) s = tf e b a t n s"
  shows "spending_limit ex"
proof
  fix s e c s'
  assume fin: "finite_supply s" and ok: "ex e c s = Ok s'"
  show "finite_supply s' \<and> alw_supply s' = alw_supply s + minted e c s"
  proof (cases c)
    case (TMint a n)
    with ok fin show ?thesis by (simp add: assms(1,4) mint_Ok mint_supply)
  next
    case (TApprove a b n d)
    with ok fin show ?thesis by (auto simp: assms(5) dest: assms(3))
  next
    case (TTransferFrom b a t n)
    with ok fin transfer_from_Ok(4) [OF assms(2), of e b a t n s s'] show ?thesis by (simp add: assms(6))
  qed
next
  fix e c s s' a b
  assume ok: "ex e c s = Ok s'"
  show "max 0 (alw_get_allowance s' a b) + spent a b e c s \<le> max 0 (alw_get_allowance s a b) + granted a b e c s"
  proof (cases c)
    case (TMint x n)
    with ok show ?thesis by (simp add: assms(1,4) mint_Ok)
  next
    case (TApprove x y n d)
    with ok show ?thesis by (auto simp: assms(5) dest: assms(3))
  next
    case (TTransferFrom y x t n)
    with ok transfer_from_Ok(2) [OF assms(2), of e y x t n s s'] transfer_from_Ok(3) [OF assms(2), of e y x t n s s' a b]
    show ?thesis by (auto simp: assms(6))
  qed
next
  fix e c s s' a
  assume ok: "ex e c s = Ok s'" and nn: "nonneg_call c"
  show "alw_get_balance s a \<le> alw_get_balance s' a + debited a e c s"
  proof (cases c)
    case (TMint x n)
    with ok nn show ?thesis by (auto simp: assms(1,4) mint_Ok alw_views)
  next
    case (TApprove x y n d)
    with ok show ?thesis by (auto simp: assms(5) alw_views dest: assms(3))
  next
    case (TTransferFrom y x t n)
    with ok nn transfer_from_Ok(5) [OF assms(2), of e y x t n s s' a] show ?thesis by (auto simp: assms(6))
  qed
next
  fix e a b n d s s'
  assume "ex e (TApprove a b n d) s = Ok s'"
  then show "authorized e a" by (simp add: assms(5)) (blast dest: assms(3))
next
  fix e b a t n s s'
  assume "ex e (TTransferFrom b a t n) s = Ok s'"
  then show "authorized e b" using transfer_from_Ok(1) [OF assms(2)] by (simp add: assms(6))
qed

lemma approve_frame: "\<exists>m. alw_set_allowance a b n s = alw_set_allowance a b n (s\<lparr>alw_Nonce := m\<rparr>)"
  by (rule exI [of _ "alw_Nonce s"]) simp

lemmas approve_defs = nds_approve_def nz_approve_def nzs_approve_def ab_approve_def pd_permit_def pds_permit_def
  pt_permit_def pts_permit_def

text \<open>The order of the two checks does not matter, since a trap leaves nothing behind.\<close>

lemma check_order_irrelevant:
  "transfer_from_vulnerable e b a t n s = Ok s' \<longleftrightarrow> ab_transfer_from e b a t n s = Ok s'"
  "ab_transfer_from e b a t n s = Ok s' \<longleftrightarrow> nds_transfer_from e b a t n s = Ok s'"
  by (auto simp: transfer_from_vulnerable_def ab_transfer_from_def nds_transfer_from_def do_transfer_def alw_views Let_def
      result_simps int_simps)

interpretation nds: spending_limit nds_exec
  by (rule repaired_step [of nds_mint nds_transfer_from "\<lambda>e a b n d. nds_approve e a b n"])
    (auto simp: approve_defs result_simps intro: approve_frame)

interpretation nz: spending_limit nz_exec
  by (rule repaired_step [of nz_mint nz_transfer_from "\<lambda>e a b n d. nz_approve e a b n"])
    (auto simp: same_mint same_transfer approve_defs result_simps intro: approve_frame)

interpretation nzs: spending_limit nzs_exec
  by (rule repaired_step [of nzs_mint nzs_transfer_from "\<lambda>e a b n d. nzs_approve e a b n"])
    (auto simp: same_mint same_transfer approve_defs result_simps intro: approve_frame)

interpretation abv: spending_limit abv_exec
  by (rule repaired_step [of ab_mint transfer_from_vulnerable "\<lambda>e a b n d. ab_approve e a b n"])
    (auto simp: same_mint check_order_irrelevant approve_defs result_simps intro: approve_frame)

interpretation ab: spending_limit ab_exec
  by (rule repaired_step [of ab_mint ab_transfer_from "\<lambda>e a b n d. ab_approve e a b n"])
    (auto simp: same_mint check_order_irrelevant approve_defs result_simps intro: approve_frame)

interpretation pd: spending_limit pd_exec
  by (rule repaired_step [of pd_mint pd_transfer_from "\<lambda>e a b n d. pd_permit e a b n []"])
    (auto simp: same_mint same_transfer approve_defs result_simps intro: approve_frame)

interpretation pds: spending_limit pds_exec
  by (rule repaired_step [of pds_mint pds_transfer_from "\<lambda>e a b n d. pds_permit e a b n d []"])
    (auto simp: same_mint same_transfer approve_defs result_simps)

interpretation pt: spending_limit pt_exec
  by (rule repaired_step [of pt_mint pt_transfer_from "\<lambda>e a b n d. pt_permit e a b n d 0"])
    (auto simp: same_mint same_transfer approve_defs result_simps)

interpretation pts: spending_limit pts_exec
  by (rule repaired_step [of pts_mint pts_transfer_from "\<lambda>e a b n d. pts_permit e a b n d 0"])
    (auto simp: same_mint same_transfer approve_defs result_simps)

text \<open>
  C33: Every token with a repaired transfer (and the vulnerable halves whose fault lies elsewhere). The amounts that a spender moves by \<^verbatim>\<open>transfer_from\<close> calls naming
  an owner add up, over any run, to at most the allowance at the start plus what the owner's approvals grant; an approval needs the owner's signature and a
  transfer the spender's. If no minted or transferred amount of the run is negative, this bounds what the owner loses: the balance falls by at most the
  allowances at the start plus the grants, over the spenders of the run. (A negative amount would count against the sum and take from the receiver instead.)
  And the balances together change by what is minted.
\<close>

theorem spending_within_grants:
  assumes "f \<in> {nds_exec, nzs_exec, ab_exec, pds_exec, pts_exec, nz_exec, abv_exec, pd_exec, pt_exec}"
  shows "run_flow f (spent a b) xs s \<le> max 0 (nds_allowance s a b) + run_flow f (granted a b) xs s
    \<and> ((\<forall>(e, c)\<in>set xs. nonneg_call c) \<longrightarrow> nds_balance s a - nds_balance (run_calls f xs s) a
         \<le> (\<Sum>b\<in>spenders xs. max 0 (nds_allowance s a b) + run_flow f (granted a b) xs s))
    \<and> (finite_supply s \<longrightarrow> alw_supply (run_calls f xs s) = alw_supply s + run_flow f minted xs s)
    \<and> (\<forall>e n d t t'. f e (TApprove a b n d) t = Ok t' \<longrightarrow> authorized e a)
    \<and> (\<forall>e n r t t'. f e (TTransferFrom b a r n) t = Ok t' \<longrightarrow> authorized e b)"
proof -
  have lim: "spending_limit f"
    using assms by (elim insertE emptyE; hypsubst)
      (rule nds.spending_limit_axioms nzs.spending_limit_axioms ab.spending_limit_axioms pds.spending_limit_axioms
        pts.spending_limit_axioms nz.spending_limit_axioms abv.spending_limit_axioms pd.spending_limit_axioms
        pt.spending_limit_axioms)+
  show ?thesis
    unfolding nds_allowance_def nds_balance_def
    by (intro conjI impI allI spending_limit.run_spend [OF lim] spending_limit.run_loss [OF lim]
        minted_supply.run_supply [OF spending_limit.axioms(1) [OF lim]])
      (auto dest: spending_limit.grants_signed [OF lim] spending_limit.spends_signed [OF lim])
qed

definition allow_demo :: allow_token where
  "allow_demo = \<lparr>alw_Balance = [Address 5 \<mapsto> 100], alw_Allowance = Map.empty, alw_Nonce = Map.empty\<rparr>"

definition allow_calls :: "(env \<times> token_call) list" where
  "allow_calls = [(signed_env [Address 5] 1, TApprove (Address 5) (Address 6) 30 50),
     (signed_env [Address 6] 2, TTransferFrom (Address 6) (Address 5) (Address 7) 20),
     (signed_env [Address 6] 3, TTransferFrom (Address 6) (Address 5) (Address 7) 20),
     (signed_env [Address 6] 4, TTransferFrom (Address 6) (Address 5) (Address 7) 10)]"

theorem spending_within_grants_witness:
  "run_flow pts_exec (spent (Address 5) (Address 6)) allow_calls allow_demo = 30
   \<and> run_flow pts_exec (spent (Address 5) (Address 6)) allow_calls allow_demo
       \<le> max 0 (nds_allowance allow_demo (Address 5) (Address 6)) + run_flow pts_exec (granted (Address 5) (Address 6)) allow_calls allow_demo
   \<and> nds_balance allow_demo (Address 5) - nds_balance (run_calls pts_exec allow_calls allow_demo) (Address 5)
       \<le> max 0 (nds_allowance allow_demo (Address 5) (Address 6)) + run_flow pts_exec (granted (Address 5) (Address 6)) allow_calls allow_demo"
proof -
  have "run_flow pts_exec (spent (Address 5) (Address 6)) allow_calls allow_demo = 30"
    by (simp add: allow_calls_def allow_demo_def pts_permit_def same_transfer nds_transfer_from_def do_transfer_def bump_nonce_def
        alw_views signed_env_def checked_add_def checked_sub_def checked_def in_range_def Let_def)
  moreover have "\<forall>(e, c)\<in>set allow_calls. nonneg_call c" and sp: "spenders allow_calls = {Address 6}"
    by (simp_all add: allow_calls_def spenders_def)
  moreover note spending_within_grants [of pts_exec "Address 5" "Address 6" allow_calls allow_demo, unfolded sp]
  ultimately show ?thesis by simp
qed

text \<open>
  The vulnerable transfer of \<^verbatim>\<open>allowance_not_decremented\<close> keeps the allowance, so the same transfer can be made
  again, as often as the balance lasts.
\<close>

lemma approval_reusable:
  assumes "nd_transfer_from e b a t n s = Ok s'" and "n \<le> alw_get_balance s' a" and "in_range I128 (alw_get_balance s' a - n)"
    and "in_range I128 (alw_get_balance (alw_set_balance a (alw_get_balance s' a - n) s') t + n)"
  shows "nd_allowance s' a b = nd_allowance s a b \<and> (\<exists>s''. nd_transfer_from e b a t n s' = Ok s'')"
proof -
  have "authorized e b" "n \<le> alw_get_allowance s a b" "do_transfer a t n s = Ok s'"
    using assms(1) by (auto simp: nd_transfer_from_def Let_def result_simps)
  moreover from this(3) have "alw_get_allowance s' a b = alw_get_allowance s a b"
    by (simp add: alw_get_allowance_def do_transfer_Ok(1))
  ultimately show ?thesis
    using assms(2-) by (simp add: nd_transfer_from_def nd_allowance_def do_transfer_def Let_def checked_sub_def checked_add_def)
qed

text \<open>
  In all halves a transfer of a negative amount needs no allowance, takes from the receiver, who signs nothing,
  and leaves the spender an allowance on the owner.
\<close>

lemma negative_transfer_from:
  assumes "authorized e b" and "0 < n" and "0 \<le> alw_get_balance s a" and "0 \<le> alw_get_allowance s a b" and "a \<noteq> t"
    and "in_range I128 (alw_get_allowance s a b + n)" "in_range I128 (alw_get_balance s a + n)" "in_range I128 (alw_get_balance s t - n)"
  shows "\<exists>s'. nds_transfer_from e b a t (- n) s = Ok s' \<and> alw_get_balance s' t = alw_get_balance s t - n
     \<and> alw_get_allowance s' a b = alw_get_allowance s a b + n"
  using assms by (simp add: nds_transfer_from_def do_transfer_def alw_views Let_def checked_sub_def checked_add_def)

section \<open>Approvals and permits\<close>

text \<open>The repair of \<^verbatim>\<open>nonzero_allowance_overwrite\<close> refuses exactly the approvals that would replace one allowance by another.\<close>

fun resets_first :: "env \<Rightarrow> token_call \<Rightarrow> allow_token \<Rightarrow> bool" where
  "resets_first e (TApprove a b n d) s \<longleftrightarrow> n = 0 \<or> alw_get_allowance s a b = 0"
| "resets_first e c s \<longleftrightarrow> True"

interpretation overwrite_hardened: hardened nz_exec nzs_exec resets_first
  by unfold_locales (rename_tac e c s s', case_tac c;
    auto simp: same_mint same_transfer nz_approve_def nzs_approve_def result_simps)

text \<open>The repair of \<^verbatim>\<open>permit_deadline_ignored\<close> refuses exactly the permits after their deadline.\<close>

fun before_deadline :: "env \<Rightarrow> token_call \<Rightarrow> allow_token \<Rightarrow> bool" where
  "before_deadline e (TApprove a b n d) s \<longleftrightarrow> timestamp e \<le> d"
| "before_deadline e c s \<longleftrightarrow> True"

interpretation deadline_hardened: hardened pt_exec pts_exec before_deadline
  by unfold_locales (rename_tac e c s s', case_tac c;
    auto simp: same_mint same_transfer pt_permit_def pts_permit_def result_simps)

fun permit_of :: "address \<Rightarrow> token_call \<Rightarrow> bool" where
  "permit_of a (TApprove a' b n d) \<longleftrightarrow> a' = a"
| "permit_of a c \<longleftrightarrow> False"

lemma pds_nonce:
  assumes "pds_exec e c s = Ok s'"
  shows "alw_get_nonce s' a = alw_get_nonce s a + (if permit_of a c then 1 else 0)"
  using assms
  by (cases c) (auto simp: same_mint same_transfer mint_Ok nds_transfer_from_def do_transfer_def pds_permit_def alw_views Let_def
      result_simps)

interpretation permit_count: conserved_flow pds_exec "\<lambda>_. True" "\<lambda>s. alw_get_nonce s a" "\<lambda>e c s. if permit_of a c then 1 else 0"
  for a
  by unfold_locales (simp_all add: pds_nonce)

text \<open>
  Permits: the runs of the repaired \<^verbatim>\<open>permit_deadline_ignored\<close> are those of the original with the late permits left
  out, and in the repaired \<^verbatim>\<open>permit_domain_missing\<close> the nonce of an owner counts his accepted permits, so the digests
  of two of them, each made for the nonce at its time, are never for the same nonce.
\<close>

theorem permits_timely_and_counted:
  "run_calls pts_exec xs s = run_calls pt_exec (admitted pt_exec before_deadline xs s) s
   \<and> alw_get_nonce (run_calls pds_exec xs s) a
       = alw_get_nonce s a + int (length (filter (permit_of a) (successes pds_exec xs s)))"
  using deadline_hardened.run_admitted [of xs s] permit_count.run_conserves [where a = a and s = s and xs = xs]
    run_flow_count [of pds_exec "permit_of a" 1 xs s] by simp

lemma permit_message_inject:
  assumes eq: "secure_permit_message x sy net e a b n k d = secure_permit_message x sy net' e' a' b' n' k' d'"
    and "inj x" and "length (x (current_contract e)) = length (x (current_contract e'))" and "length (x a) = length (x a')"
    and "length net = length net'" and "in_range U64 k" "in_range U64 k'" "in_range U64 d" "in_range U64 d'"
    and "in_range I128 n" "in_range I128 n'"
  shows "current_contract e = current_contract e' \<and> net = net' \<and> k = k' \<and> d = d' \<and> a = a' \<and> b = b' \<and> n = n'"
proof -
  have parts: "x (current_contract e) = x (current_contract e')" "net = net'" "be_bytes 8 k = be_bytes 8 k'"
      "be_bytes 8 d = be_bytes 8 d'" "x a = x a'" "x b @ be_bytes 16 n = x b' @ be_bytes 16 n'"
    using eq assms(3-5) by (simp_all add: secure_permit_message_def)
  from parts(6) have "x b = x b'" "be_bytes 16 n = be_bytes 16 n'"
    by (simp_all add: append_eq_append_conv)
  with parts show ?thesis
    using assms(2) be_bytes_inject_unsigned [of 8 k k'] be_bytes_inject_unsigned [of 8 d d'] be_bytes_inject [of n n'] assms(6-)
    by (auto simp: inj_eq in_range_unsigned)
qed

text \<open>
  The digest of the repaired permit: two permits with the same digest, on whatever networks and deployments, agree
  in network, contract, nonce, deadline, owner, spender and amount, unless their two messages collide under the
  hash. The digest of the vulnerable one is the same on every deployment.
\<close>

theorem permit_digest_binds:
  assumes "secure_permit_digest h x sy net e a b n k d = secure_permit_digest h x sy net' e' a' b' n' k' d'"
    and "inj x" and "length (x (current_contract e)) = length (x (current_contract e'))" and "length (x a) = length (x a')"
    and "length net = length net'" and "in_range U64 k" "in_range U64 k'" "in_range U64 d" "in_range U64 d'"
    and "in_range I128 n" "in_range I128 n'"
  shows "(current_contract e = current_contract e' \<and> net = net' \<and> k = k' \<and> d = d' \<and> a = a' \<and> b = b' \<and> n = n')
    \<or> (secure_permit_message x sy net e a b n k d \<noteq> secure_permit_message x sy net' e' a' b' n' k' d'
       \<and> h (secure_permit_message x sy net e a b n k d) = h (secure_permit_message x sy net' e' a' b' n' k' d'))"
  using permit_message_inject [OF _ assms(2-)] assms(1) unfolding secure_permit_digest_def by blast

definition unary_address :: "address \<Rightarrow> bytes" where
  "unary_address a = replicate (addr_id a) 0 @ [1]"

theorem permit_digest_binds_witness:
  "secure_permit_message unary_address (\<lambda>_. [7]) [1] (signed_env [] 1) (Address 5) (Address 6) 3 0 9
     \<noteq> secure_permit_message unary_address (\<lambda>_. [7]) [1] (signed_env [] 2) (Address 5) (Address 6) 4 0 9"
proof -
  have "inj unary_address"
  proof (rule injI)
    fix a b assume "unary_address a = unary_address b"
    then have "length (unary_address a) = length (unary_address b)" by simp
    then show "a = b" by (simp add: unary_address_def address.expand)
  qed
  then show ?thesis
    using permit_digest_binds [of "\<lambda>_. []" unary_address "\<lambda>_. [7]" "[1]" "signed_env [] 1" "Address 5" "Address 6" 3 0 9 "[1]"
        "signed_env [] 2" "Address 5" "Address 6" 4 0 9]
    by (simp add: secure_permit_digest_def signed_env_def in_range_def)
qed

end
