(* ===== verification/Custody.thy ===== *)
theory Custody
  imports Token_Clients
begin

text \<open>
  Contracts that hold funds for others: \<^verbatim>\<open>single_approval_escrow_release\<close>, \<^verbatim>\<open>escrow_balance_check\<close>,
  \<^verbatim>\<open>public_token_sweep\<close>, \<^verbatim>\<open>unprotected_emergency_withdraw\<close>, \<^verbatim>\<open>admin_skim_donations\<close>, \<^verbatim>\<open>rescue_primary_asset\<close> and
  \<^verbatim>\<open>deposit_cap_wrong_amount\<close>. Shown: who can let funds go, that no more is released than came in, what backs the
  recorded balances, and where the repaired halves fail.
\<close>

section \<open>single\_approval\_escrow\_release\<close>

record party_escrow =
  pe_Buyer :: "address option"
  pe_Seller :: "address option"
  pe_Balance :: "int option"
  pe_BuyerApproved :: "bool option"
  pe_SellerApproved :: "bool option"

definition se_initialize :: "env \<Rightarrow> address \<Rightarrow> address \<Rightarrow> party_escrow \<Rightarrow> party_escrow result" where
  "se_initialize e buyer seller s =
     panic_if (pe_Buyer s \<noteq> None) ''already initialized'' (
     Ok (s\<lparr>pe_Buyer := Some buyer, pe_Seller := Some seller, pe_Balance := Some 0, pe_BuyerApproved := Some False,
           pe_SellerApproved := Some False\<rparr>))"

definition se_deposit :: "env \<Rightarrow> int \<Rightarrow> party_escrow \<Rightarrow> party_escrow result" where
  "se_deposit e amount s =
     expect (pe_Buyer s) ''not initialized'' (\<lambda>buyer.
     require_auth e buyer (
     let balance = unwrap_or (pe_Balance s) 0 in
     arith (checked_add I128 balance amount) (\<lambda>n. Ok (s\<lparr>pe_Balance := Some n\<rparr>))))"

definition se_approve :: "env \<Rightarrow> address \<Rightarrow> party_escrow \<Rightarrow> party_escrow result" where
  "se_approve e party s =
     require_auth e party (
     expect (pe_Buyer s) ''not initialized'' (\<lambda>buyer.
     expect (pe_Seller s) ''not initialized'' (\<lambda>seller.
     if party = buyer then Ok (s\<lparr>pe_BuyerApproved := Some True\<rparr>)
     else if party = seller then Ok (s\<lparr>pe_SellerApproved := Some True\<rparr>)
     else Err (Panic ''caller is not a party to this escrow''))))"

definition se_release :: "env \<Rightarrow> party_escrow \<Rightarrow> (int \<times> party_escrow) result" where
  "se_release e s =
     (let buyer_approved = unwrap_or (pe_BuyerApproved s) False; seller_approved = unwrap_or (pe_SellerApproved s) False in
      panic_if (\<not> (buyer_approved \<or> seller_approved)) ''release requires at least one approval'' (
      Ok (unwrap_or (pe_Balance s) 0, s\<lparr>pe_Balance := Some 0\<rparr>)))"

definition se_get_balance :: "party_escrow \<Rightarrow> int" where
  "se_get_balance s = unwrap_or (pe_Balance s) 0"

definition se_is_buyer_approved :: "party_escrow \<Rightarrow> bool" where
  "se_is_buyer_approved s = unwrap_or (pe_BuyerApproved s) False"

definition se_is_seller_approved :: "party_escrow \<Rightarrow> bool" where
  "se_is_seller_approved s = unwrap_or (pe_SellerApproved s) False"

definition ses_initialize :: "env \<Rightarrow> address \<Rightarrow> address \<Rightarrow> party_escrow \<Rightarrow> party_escrow result" where
  "ses_initialize e buyer seller s =
     panic_if (pe_Buyer s \<noteq> None) ''already initialized'' (
     Ok (s\<lparr>pe_Buyer := Some buyer, pe_Seller := Some seller, pe_Balance := Some 0, pe_BuyerApproved := Some False,
           pe_SellerApproved := Some False\<rparr>))"

definition ses_deposit :: "env \<Rightarrow> int \<Rightarrow> party_escrow \<Rightarrow> party_escrow result" where
  "ses_deposit e amount s =
     expect (pe_Buyer s) ''not initialized'' (\<lambda>buyer.
     require_auth e buyer (
     let balance = unwrap_or (pe_Balance s) 0 in
     arith (checked_add I128 balance amount) (\<lambda>n. Ok (s\<lparr>pe_Balance := Some n\<rparr>))))"

definition ses_approve :: "env \<Rightarrow> address \<Rightarrow> party_escrow \<Rightarrow> party_escrow result" where
  "ses_approve e party s =
     require_auth e party (
     expect (pe_Buyer s) ''not initialized'' (\<lambda>buyer.
     expect (pe_Seller s) ''not initialized'' (\<lambda>seller.
     if party = buyer then Ok (s\<lparr>pe_BuyerApproved := Some True\<rparr>)
     else if party = seller then Ok (s\<lparr>pe_SellerApproved := Some True\<rparr>)
     else Err (Panic ''caller is not a party to this escrow''))))"

definition ses_release :: "env \<Rightarrow> party_escrow \<Rightarrow> (int \<times> party_escrow) result" where
  "ses_release e s =
     (let buyer_approved = unwrap_or (pe_BuyerApproved s) False; seller_approved = unwrap_or (pe_SellerApproved s) False in
      panic_if (\<not> (buyer_approved \<and> seller_approved)) ''release requires both buyer and seller approval'' (
      Ok (unwrap_or (pe_Balance s) 0, s\<lparr>pe_Balance := Some 0\<rparr>)))"

definition ses_get_balance :: "party_escrow \<Rightarrow> int" where
  "ses_get_balance s = unwrap_or (pe_Balance s) 0"

definition ses_is_buyer_approved :: "party_escrow \<Rightarrow> bool" where
  "ses_is_buyer_approved s = unwrap_or (pe_BuyerApproved s) False"

definition ses_is_seller_approved :: "party_escrow \<Rightarrow> bool" where
  "ses_is_seller_approved s = unwrap_or (pe_SellerApproved s) False"

datatype escrow_call = EInit address address | EDeposit int | EApprove address | ERelease

fun ses_exec :: "env \<Rightarrow> escrow_call \<Rightarrow> party_escrow \<Rightarrow> party_escrow result" where
  "ses_exec e (EInit a b) s = ses_initialize e a b s"
| "ses_exec e (EDeposit n) s = ses_deposit e n s"
| "ses_exec e (EApprove a) s = ses_approve e a s"
| "ses_exec e ERelease s = state_of (ses_release e s)"

lemmas ses_defs = ses_initialize_def ses_deposit_def ses_approve_def ses_release_def ses_get_balance_def
  ses_is_buyer_approved_def ses_is_seller_approved_def Let_def

text \<open>The parties are fixed once and for all by the initialisation.\<close>

definition same_parties :: "party_escrow \<Rightarrow> party_escrow \<Rightarrow> bool" where
  "same_parties s t \<longleftrightarrow> (pe_Buyer s \<noteq> None \<longrightarrow> pe_Buyer t = pe_Buyer s \<and> pe_Seller t = pe_Seller s)"

interpretation parties: contract_progress ses_exec same_parties
proof (unfold_locales, goal_cases)
  case (3 e c s s')
  then show ?case by (cases c) (auto simp: same_parties_def ses_defs result_simps split: if_splits)
qed (auto simp: same_parties_def)

fun approves_as :: "(party_escrow \<Rightarrow> address option) \<Rightarrow> env \<Rightarrow> escrow_call \<Rightarrow> party_escrow \<Rightarrow> bool" where
  "approves_as who e (EApprove a) s \<longleftrightarrow> who s = Some a \<and> pe_Buyer s \<noteq> None \<and> authorized e a"
| "approves_as who e c s \<longleftrightarrow> False"

interpretation buyer_consent: guarded_steps ses_exec "\<lambda>s t. ses_is_buyer_approved t \<longrightarrow> ses_is_buyer_approved s" "approves_as pe_Buyer"
proof (unfold_locales, goal_cases)
  case (3 e c s s')
  then show ?case by (cases c) (auto simp: ses_defs result_simps split: if_splits)
qed auto

lemma seller_approval:
  assumes "ses_exec e c s = Ok s'" and "ses_is_seller_approved s'" and "\<not> ses_is_seller_approved s"
  shows "\<exists>a b. c = EApprove b \<and> pe_Buyer s = Some a \<and> pe_Seller s = Some b \<and> a \<noteq> b \<and> authorized e b"
proof (cases c)
  case (EApprove p)
  with assms(1) obtain a b where "pe_Buyer s = Some a" "pe_Seller s = Some b" "authorized e p"
    by (auto simp: ses_defs result_simps)
  with assms EApprove show ?thesis
    by (cases "p = a"; cases "p = b") (auto simp: ses_defs)
qed (use assms in \<open>auto simp: ses_defs result_simps\<close>)

interpretation seller_consent: guarded_steps ses_exec "\<lambda>s t. ses_is_seller_approved t \<longrightarrow> ses_is_seller_approved s"
    "\<lambda>e c s. approves_as pe_Seller e c s \<and> pe_Buyer s \<noteq> pe_Seller s"
proof (unfold_locales, goal_cases)
  case (3 e c s s')
  then obtain a b where "c = EApprove b" "pe_Buyer s = Some a" "pe_Seller s = Some b" "a \<noteq> b" "authorized e b"
    using seller_approval by blast
  then show ?case by simp
qed auto

lemma approval_call:
  assumes "approves_as who e c (run_calls ses_exec ys s)" and "xs = ys @ (e, c) # zs"
    and "\<And>s t. same_parties s t \<Longrightarrow> pe_Buyer s \<noteq> None \<Longrightarrow> who t = who s"
  shows "\<exists>p. who (run_calls ses_exec xs s) = Some p \<and> (e, EApprove p) \<in> set xs \<and> authorized e p"
proof -
  obtain p where c: "c = EApprove p" "who (run_calls ses_exec ys s) = Some p" "pe_Buyer (run_calls ses_exec ys s) \<noteq> None" "authorized e p"
    using assms(1) by (cases c) auto
  have "same_parties (run_calls ses_exec ys s) (run_calls ses_exec xs s)"
    unfolding assms(2) run_calls_append by (rule parties.run_le)
  with assms(3) c have "who (run_calls ses_exec xs s) = Some p" by metis
  with c assms(2) show ?thesis by auto
qed

definition pe_empty :: party_escrow where
  "pe_empty = \<lparr>pe_Buyer = None, pe_Seller = None, pe_Balance = None, pe_BuyerApproved = None, pe_SellerApproved = None\<rparr>"

text \<open>
  A release (\<^verbatim>\<open>single_approval_escrow_release/src/secure.rs\<close>) was approved by both parties: the run before it holds a
  signed approval of the buyer and one of the seller, who are different.
\<close>

theorem release_approved_by_both:
  assumes "ses_release e (run_calls ses_exec xs pe_empty) = Ok (n, s')"
  shows "\<exists>e1 e2 a b. (e1, EApprove a) \<in> set xs \<and> authorized e1 a \<and> (e2, EApprove b) \<in> set xs \<and> authorized e2 b
    \<and> pe_Buyer s' = Some a \<and> pe_Seller s' = Some b \<and> n = ses_get_balance (run_calls ses_exec xs pe_empty) \<and> ses_get_balance s' = 0"
proof -
  let ?t = "run_calls ses_exec xs pe_empty"
  have rel: "ses_is_buyer_approved ?t" "ses_is_seller_approved ?t" "n = ses_get_balance ?t" "s' = ?t\<lparr>pe_Balance := Some 0\<rparr>"
    using assms by (auto simp: ses_defs result_simps)
  have no: "\<not> ses_is_buyer_approved pe_empty" "\<not> ses_is_seller_approved pe_empty"
    by (simp_all add: pe_empty_def ses_defs)
  have "\<not> (ses_is_buyer_approved ?t \<longrightarrow> ses_is_buyer_approved pe_empty)" "\<not> (ses_is_seller_approved ?t \<longrightarrow> ses_is_seller_approved pe_empty)"
    using rel no by simp_all
  from buyer_consent.run_guard [OF this(1)] seller_consent.run_guard [OF this(2)]
  obtain ys e1 c1 zs us e2 c2 vs where
    b: "xs = ys @ (e1, c1) # zs" "approves_as pe_Buyer e1 c1 (run_calls ses_exec ys pe_empty)"
    and s: "xs = us @ (e2, c2) # vs" "approves_as pe_Seller e2 c2 (run_calls ses_exec us pe_empty)"
    and ne: "pe_Buyer (run_calls ses_exec us pe_empty) \<noteq> pe_Seller (run_calls ses_exec us pe_empty)" by blast
  have "pe_Buyer (run_calls ses_exec us pe_empty) \<noteq> None"
    using s(2) by (cases c2) auto
  moreover have "same_parties (run_calls ses_exec us pe_empty) ?t"
    unfolding s(1) run_calls_append by (rule parties.run_le)
  ultimately have ne': "pe_Buyer ?t \<noteq> pe_Seller ?t"
    using ne by (simp add: same_parties_def)
  obtain a where "pe_Buyer ?t = Some a" "(e1, EApprove a) \<in> set xs" "authorized e1 a"
    using approval_call [OF b(2,1)] by (auto simp: same_parties_def)
  moreover obtain b where "pe_Seller ?t = Some b" "(e2, EApprove b) \<in> set xs" "authorized e2 b"
    using approval_call [OF s(2,1)] by (auto simp: same_parties_def)
  ultimately show ?thesis
    using rel ne' by (intro exI [of _ e1] exI [of _ e2] exI [of _ a] exI [of _ b]) (auto simp: ses_get_balance_def)
qed

definition escrow_demo :: "(env \<times> escrow_call) list" where
  "escrow_demo = [(signed_env [] 1, EInit (Address 5) (Address 6)), (signed_env [Address 5] 2, EDeposit 80),
     (signed_env [Address 5] 3, EApprove (Address 5)), (signed_env [Address 6] 4, EApprove (Address 6))]"

theorem release_approved_by_both_witness:
  "\<exists>e1 a. (e1, EApprove a) \<in> set escrow_demo \<and> authorized e1 a"
proof -
  have "ses_release (signed_env [] 5) (run_calls ses_exec escrow_demo pe_empty) = Ok (80, (run_calls ses_exec escrow_demo pe_empty)\<lparr>pe_Balance := Some 0\<rparr>)"
    by (simp add: escrow_demo_def pe_empty_def ses_defs signed_env_def checked_add_def checked_def in_range_def)
  from release_approved_by_both [OF this] show ?thesis by blast
qed

text \<open>
  What the repair leaves: the approvals survive a release, so later deposits can be released by anyone; and if one
  account is buyer and seller, its approval only counts for the buyer and the funds stay locked.
\<close>

lemma approvals_survive_release:
  assumes "ses_release e s = Ok (n, s1)" and "ses_deposit e' m s1 = Ok s2"
  shows "ses_release e'' s2 = Ok (m, s2\<lparr>pe_Balance := Some 0\<rparr>)"
  using assms by (auto simp: ses_defs result_simps int_simps)

interpretation single_party: contract_invariant ses_exec
    "\<lambda>s. pe_Buyer s = Some a \<and> pe_Seller s = Some a \<and> \<not> ses_is_seller_approved s"
  for a
proof (unfold_locales, goal_cases)
  case (1 s e c s')
  then show ?case by (cases c) (auto simp: ses_defs result_simps split: if_splits)
qed

lemma single_party_locked:
  assumes "pe_Buyer s = Some a" "pe_Seller s = Some a" "\<not> ses_is_seller_approved s"
  shows "ses_release e (run_calls ses_exec xs s) = Err (Panic ''release requires both buyer and seller approval'')"
  using single_party.run_inv [of s a xs] assms by (simp add: ses_release_def ses_is_seller_approved_def)

lemma one_approval_releases:
  "se_approve e a s = Ok s1 \<Longrightarrow> \<exists>s2. se_release e' s1 = Ok (se_get_balance s, s2) \<and> se_get_balance s2 = 0"
  by (auto simp: se_approve_def se_release_def se_get_balance_def result_simps Let_def split: if_splits)

section \<open>escrow\_balance\_check\<close>

record slot_escrow =
  eb_Admin :: "address option"
  eb_Balance :: "int \<rightharpoonup> int"
  eb_Beneficiary :: "int \<rightharpoonup> address"

definition eb_initialize :: "env \<Rightarrow> address \<Rightarrow> slot_escrow \<Rightarrow> slot_escrow result" where
  "eb_initialize e admin s =
     panic_if (eb_Admin s \<noteq> None) ''already initialized'' (Ok (s\<lparr>eb_Admin := Some admin\<rparr>))"

definition eb_deposit :: "env \<Rightarrow> int \<Rightarrow> address \<Rightarrow> int \<Rightarrow> slot_escrow \<Rightarrow> slot_escrow result" where
  "eb_deposit e escrow_id beneficiary amount s =
     expect (eb_Admin s) ''not initialized'' (\<lambda>admin.
     require_auth e admin (
     let current = get0 (eb_Balance s) escrow_id in
     arith (checked_add I128 current amount) (\<lambda>n.
     Ok (s\<lparr>eb_Balance := (eb_Balance s)(escrow_id \<mapsto> n),
           eb_Beneficiary := (eb_Beneficiary s)(escrow_id \<mapsto> beneficiary)\<rparr>))))"

definition eb_release :: "env \<Rightarrow> int \<Rightarrow> int \<Rightarrow> slot_escrow \<Rightarrow> slot_escrow result" where
  "eb_release e escrow_id amount s =
     expect (eb_Admin s) ''not initialized'' (\<lambda>admin.
     require_auth e admin (
     expect (eb_Beneficiary s escrow_id) ''escrow not found'' (\<lambda>beneficiary.
     let escrow_balance = get0 (eb_Balance s) escrow_id in
     arith (checked_sub I128 escrow_balance amount) (\<lambda>new_balance.
     Ok (s\<lparr>eb_Balance := (eb_Balance s)(escrow_id \<mapsto> new_balance),
           eb_Beneficiary := (eb_Beneficiary s)(escrow_id \<mapsto> beneficiary)\<rparr>)))))"

definition eb_escrow_balance :: "slot_escrow \<Rightarrow> int \<Rightarrow> int" where
  "eb_escrow_balance s escrow_id = get0 (eb_Balance s) escrow_id"

definition ebs_initialize :: "env \<Rightarrow> address \<Rightarrow> slot_escrow \<Rightarrow> slot_escrow result" where
  "ebs_initialize e admin s =
     panic_if (eb_Admin s \<noteq> None) ''already initialized'' (Ok (s\<lparr>eb_Admin := Some admin\<rparr>))"

definition ebs_deposit :: "env \<Rightarrow> int \<Rightarrow> address \<Rightarrow> int \<Rightarrow> slot_escrow \<Rightarrow> slot_escrow result" where
  "ebs_deposit e escrow_id beneficiary amount s =
     expect (eb_Admin s) ''not initialized'' (\<lambda>admin.
     require_auth e admin (
     let current = get0 (eb_Balance s) escrow_id in
     arith (checked_add I128 current amount) (\<lambda>n.
     Ok (s\<lparr>eb_Balance := (eb_Balance s)(escrow_id \<mapsto> n),
           eb_Beneficiary := (eb_Beneficiary s)(escrow_id \<mapsto> beneficiary)\<rparr>))))"

definition ebs_release :: "env \<Rightarrow> int \<Rightarrow> int \<Rightarrow> slot_escrow \<Rightarrow> slot_escrow result" where
  "ebs_release e escrow_id amount s =
     expect (eb_Admin s) ''not initialized'' (\<lambda>admin.
     require_auth e admin (
     expect (eb_Beneficiary s escrow_id) ''escrow not found'' (\<lambda>beneficiary.
     let escrow_balance = get0 (eb_Balance s) escrow_id in
     panic_if (escrow_balance < amount) ''insufficient escrow balance'' (
     expect (checked_sub I128 escrow_balance amount) ''insufficient escrow balance'' (\<lambda>new_balance.
     Ok (s\<lparr>eb_Balance := (eb_Balance s)(escrow_id \<mapsto> new_balance),
           eb_Beneficiary := (eb_Beneficiary s)(escrow_id \<mapsto> beneficiary)\<rparr>))))))"

definition ebs_escrow_balance :: "slot_escrow \<Rightarrow> int \<Rightarrow> int" where
  "ebs_escrow_balance s escrow_id = get0 (eb_Balance s) escrow_id"

datatype slot_call = BInit address | BDeposit int address int | BRelease int int

fun ebs_exec :: "env \<Rightarrow> slot_call \<Rightarrow> slot_escrow \<Rightarrow> slot_escrow result" where
  "ebs_exec e (BInit a) s = ebs_initialize e a s"
| "ebs_exec e (BDeposit i a n) s = ebs_deposit e i a n s"
| "ebs_exec e (BRelease i n) s = ebs_release e i n s"

fun slot_in :: "int \<Rightarrow> env \<Rightarrow> slot_call \<Rightarrow> slot_escrow \<Rightarrow> int" where
  "slot_in i e (BDeposit j a n) s = (if j = i then max 0 n else 0)"
| "slot_in i e c s = 0"

fun slot_out :: "int \<Rightarrow> env \<Rightarrow> slot_call \<Rightarrow> slot_escrow \<Rightarrow> int" where
  "slot_out i e (BRelease j n) s = (if j = i then n else 0)"
| "slot_out i e c s = 0"

lemmas ebs_defs = ebs_initialize_def ebs_deposit_def ebs_release_def ebs_escrow_balance_def Let_def

interpretation slot_flow: growing_flow ebs_exec "\<lambda>_. True" "\<lambda>s. - max 0 (ebs_escrow_balance s i)" "\<lambda>e c s. slot_out i e c s - slot_in i e c s"
  for i
proof (unfold_locales, goal_cases)
  case (2 s e c s')
  then show ?case by (cases c) (auto simp: ebs_defs result_simps int_simps)
qed simp

text \<open>
  Per slot (\<^verbatim>\<open>escrow_balance_check/src/secure.rs\<close>), the releases of a run together are at most what the slot held plus
  what was deposited into it; other slots do not count. The vulnerable escrow releases any amount from any slot.
\<close>

theorem released_at_most_deposited:
  "run_flow ebs_exec (slot_out i) xs s \<le> max 0 (ebs_escrow_balance s i) + run_flow ebs_exec (slot_in i) xs s"
  using slot_flow.run_grows [where s = s and i = i and xs = xs] by (simp add: run_flow_diff)

lemma slot_overdrawn:
  assumes "eb_Admin s = Some adm" "authorized e adm" "eb_Beneficiary s i = Some b" "in_range I128 (eb_escrow_balance s i - n)"
  shows "\<exists>s'. eb_release e i n s = Ok s' \<and> eb_escrow_balance s' i = eb_escrow_balance s i - n"
  using assms by (simp add: eb_release_def eb_escrow_balance_def checked_sub_def Let_def)

section \<open>public\_token\_sweep\<close>

record sweep_vault =
  sv_Admin :: "address option"
  sv_TokenBalance :: "address \<rightharpoonup> int"

definition ps_initialize :: "env \<Rightarrow> address \<Rightarrow> sweep_vault \<Rightarrow> sweep_vault result" where
  "ps_initialize e admin s =
     panic_if (sv_Admin s \<noteq> None) ''already initialized'' (Ok (s\<lparr>sv_Admin := Some admin\<rparr>))"

definition ps_deposit :: "env \<Rightarrow> address \<Rightarrow> address \<Rightarrow> int \<Rightarrow> sweep_vault \<Rightarrow> sweep_vault result" where
  "ps_deposit e depositor token amount s =
     require_auth e depositor (
     let current = get0 (sv_TokenBalance s) token in
     arith (checked_add I128 current amount) (\<lambda>n. Ok (s\<lparr>sv_TokenBalance := (sv_TokenBalance s)(token \<mapsto> n)\<rparr>)))"

definition ps_sweep_tokens :: "env \<Rightarrow> address \<Rightarrow> address \<Rightarrow> int \<Rightarrow> sweep_vault \<Rightarrow> sweep_vault result" where
  "ps_sweep_tokens e token recipient amount s =
     (let balance = get0 (sv_TokenBalance s) token in
      panic_if (balance < amount) ''insufficient balance'' (
      arith (checked_sub I128 balance amount) (\<lambda>new_balance.
      Ok (s\<lparr>sv_TokenBalance := (sv_TokenBalance s)(token \<mapsto> new_balance)\<rparr>))))"

definition ps_get_token_balance :: "sweep_vault \<Rightarrow> address \<Rightarrow> int" where
  "ps_get_token_balance s token = get0 (sv_TokenBalance s) token"

definition ps_get_admin :: "sweep_vault \<Rightarrow> address result" where
  "ps_get_admin s = expect (sv_Admin s) ''not initialized'' Ok"

definition pss_initialize :: "env \<Rightarrow> address \<Rightarrow> sweep_vault \<Rightarrow> sweep_vault result" where
  "pss_initialize e admin s =
     panic_if (sv_Admin s \<noteq> None) ''already initialized'' (Ok (s\<lparr>sv_Admin := Some admin\<rparr>))"

definition pss_deposit :: "env \<Rightarrow> address \<Rightarrow> address \<Rightarrow> int \<Rightarrow> sweep_vault \<Rightarrow> sweep_vault result" where
  "pss_deposit e depositor token amount s =
     require_auth e depositor (
     let current = get0 (sv_TokenBalance s) token in
     arith (checked_add I128 current amount) (\<lambda>n. Ok (s\<lparr>sv_TokenBalance := (sv_TokenBalance s)(token \<mapsto> n)\<rparr>)))"

definition pss_sweep_tokens :: "env \<Rightarrow> address \<Rightarrow> address \<Rightarrow> int \<Rightarrow> sweep_vault \<Rightarrow> sweep_vault result" where
  "pss_sweep_tokens e token recipient amount s =
     expect (sv_Admin s) ''not initialized'' (\<lambda>admin.
     require_auth e admin (
     let balance = get0 (sv_TokenBalance s) token in
     panic_if (balance < amount) ''insufficient balance'' (
     arith (checked_sub I128 balance amount) (\<lambda>new_balance.
     Ok (s\<lparr>sv_TokenBalance := (sv_TokenBalance s)(token \<mapsto> new_balance)\<rparr>)))))"

definition pss_get_token_balance :: "sweep_vault \<Rightarrow> address \<Rightarrow> int" where
  "pss_get_token_balance s token = get0 (sv_TokenBalance s) token"

definition pss_get_admin :: "sweep_vault \<Rightarrow> address result" where
  "pss_get_admin s = expect (sv_Admin s) ''not initialized'' Ok"

datatype sweep_call = WInit address | WDeposit address address int | WSweep address address int

fun ps_exec :: "env \<Rightarrow> sweep_call \<Rightarrow> sweep_vault \<Rightarrow> sweep_vault result" where
  "ps_exec e (WInit a) s = ps_initialize e a s"
| "ps_exec e (WDeposit a t n) s = ps_deposit e a t n s"
| "ps_exec e (WSweep t b n) s = ps_sweep_tokens e t b n s"

fun pss_exec :: "env \<Rightarrow> sweep_call \<Rightarrow> sweep_vault \<Rightarrow> sweep_vault result" where
  "pss_exec e (WInit a) s = pss_initialize e a s"
| "pss_exec e (WDeposit a t n) s = pss_deposit e a t n s"
| "pss_exec e (WSweep t b n) s = pss_sweep_tokens e t b n s"

fun sweep_by_admin :: "env \<Rightarrow> sweep_call \<Rightarrow> sweep_vault \<Rightarrow> bool" where
  "sweep_by_admin e (WSweep t b n) s \<longleftrightarrow> (\<exists>a. sv_Admin s = Some a \<and> authorized e a)"
| "sweep_by_admin e c s \<longleftrightarrow> True"

lemmas sweep_defs = ps_initialize_def ps_deposit_def ps_sweep_tokens_def pss_initialize_def pss_deposit_def pss_sweep_tokens_def Let_def

interpretation sweep_hardened: hardened ps_exec pss_exec sweep_by_admin
proof (unfold_locales, goal_cases)
  case (1 e c s s')
  show ?case by (cases c) (auto simp: sweep_defs result_simps)
qed

interpretation swept: guarded_steps pss_exec "\<lambda>s t. pss_get_token_balance s k \<le> pss_get_token_balance t k"
    "\<lambda>e c s. (\<exists>b n a. c = WSweep k b n \<and> sv_Admin s = Some a \<and> authorized e a) \<or> (\<exists>a n. c = WDeposit a k n \<and> n < 0 \<and> authorized e a)"
  for k
proof (unfold_locales, goal_cases)
  case (3 e c s s')
  then show ?case
    by (cases c) (auto simp: sweep_defs pss_get_token_balance_def result_simps int_simps split: if_splits)
qed auto

text \<open>
  The sweep (\<^verbatim>\<open>public_token_sweep/src/secure.rs\<close>): the repaired vault makes the runs of the vulnerable one on the sweeps
  that the admin signed, and a token balance falls only by such a sweep or by a negative deposit, which anyone can
  sign for himself.
\<close>

theorem swept_by_admin:
  assumes "pss_get_token_balance (run_calls pss_exec xs s) k < pss_get_token_balance s k"
  shows "run_calls pss_exec xs s = run_calls ps_exec (admitted ps_exec sweep_by_admin xs s) s
    \<and> (\<exists>ys e c zs. xs = ys @ (e, c) # zs
        \<and> ((\<exists>b n a. c = WSweep k b n \<and> sv_Admin (run_calls pss_exec ys s) = Some a \<and> authorized e a)
           \<or> (\<exists>a n. c = WDeposit a k n \<and> n < 0 \<and> authorized e a)))"
proof -
  have "\<not> pss_get_token_balance s k \<le> pss_get_token_balance (run_calls pss_exec xs s) k"
    using assms by simp
  from swept.run_guard [OF this] sweep_hardened.run_admitted [of xs s] show ?thesis by blast
qed

theorem swept_by_admin_witness:
  "\<exists>ys e c zs. [(signed_env [Address 2] 1, WSweep (Address 8) (Address 7) 40)] = ys @ (e, c) # zs \<and> (\<exists>a. authorized e a)"
proof -
  let ?s = "\<lparr>sv_Admin = Some (Address 2), sv_TokenBalance = [Address 8 \<mapsto> 100]\<rparr>"
  let ?xs = "[(signed_env [Address 2] 1, WSweep (Address 8) (Address 7) 40)]"
  have "pss_get_token_balance (run_calls pss_exec ?xs ?s) (Address 8) < pss_get_token_balance ?s (Address 8)"
    by (simp add: sweep_defs pss_get_token_balance_def signed_env_def checked_sub_def checked_def in_range_def)
  from swept_by_admin [OF this] show ?thesis by blast
qed

section \<open>unprotected\_emergency\_withdraw\<close>

record emergency_vault =
  ev_Admin :: "address option"
  ev_Balance :: "address \<rightharpoonup> int"
  ev_UnlockLedger :: "address \<rightharpoonup> int"

definition ew_get_balance :: "emergency_vault \<Rightarrow> address \<Rightarrow> int" where
  "ew_get_balance s user = get0 (ev_Balance s) user"

definition ew_set_balance :: "address \<Rightarrow> int \<Rightarrow> emergency_vault \<Rightarrow> emergency_vault" where
  "ew_set_balance user amount s = s\<lparr>ev_Balance := (ev_Balance s)(user \<mapsto> amount)\<rparr>"

definition ew_initialize :: "env \<Rightarrow> address \<Rightarrow> emergency_vault \<Rightarrow> emergency_vault result" where
  "ew_initialize e admin s =
     panic_if (ev_Admin s \<noteq> None) ''already initialized'' (Ok (s\<lparr>ev_Admin := Some admin\<rparr>))"

definition ew_deposit :: "env \<Rightarrow> address \<Rightarrow> int \<Rightarrow> int \<Rightarrow> emergency_vault \<Rightarrow> emergency_vault result" where
  "ew_deposit e user amount unlock_ledger s =
     require_auth e user (
     arith (checked_add I128 (ew_get_balance s user) amount) (\<lambda>new_bal.
     let s1 = ew_set_balance user new_bal s in
     Ok (s1\<lparr>ev_UnlockLedger := (ev_UnlockLedger s1)(user \<mapsto> unlock_ledger)\<rparr>)))"

definition ew_withdraw :: "env \<Rightarrow> address \<Rightarrow> emergency_vault \<Rightarrow> emergency_vault result" where
  "ew_withdraw e user s =
     require_auth e user (
     let unlock = get0 (ev_UnlockLedger s) user in
     panic_if (sequence e < unlock) ''still locked'' (
     let s1 = ew_set_balance user 0 s in
     Ok (s1\<lparr>ev_UnlockLedger := (ev_UnlockLedger s1)(user := None)\<rparr>)))"

definition ew_emergency_withdraw :: "env \<Rightarrow> address \<Rightarrow> emergency_vault \<Rightarrow> emergency_vault result" where
  "ew_emergency_withdraw e user s =
     (let s1 = ew_set_balance user 0 s in Ok (s1\<lparr>ev_UnlockLedger := (ev_UnlockLedger s1)(user := None)\<rparr>))"

definition ew_balance :: "emergency_vault \<Rightarrow> address \<Rightarrow> int" where
  "ew_balance s user = ew_get_balance s user"

definition ew_get_admin :: "emergency_vault \<Rightarrow> address result" where
  "ew_get_admin s = expect (ev_Admin s) ''admin not initialized'' Ok"

definition ews_initialize :: "env \<Rightarrow> address \<Rightarrow> emergency_vault \<Rightarrow> emergency_vault result" where
  "ews_initialize e admin s =
     panic_if (ev_Admin s \<noteq> None) ''already initialized'' (Ok (s\<lparr>ev_Admin := Some admin\<rparr>))"

definition ews_deposit :: "env \<Rightarrow> address \<Rightarrow> int \<Rightarrow> int \<Rightarrow> emergency_vault \<Rightarrow> emergency_vault result" where
  "ews_deposit e user amount unlock_ledger s =
     require_auth e user (
     arith (checked_add I128 (ew_get_balance s user) amount) (\<lambda>new_bal.
     let s1 = ew_set_balance user new_bal s in
     Ok (s1\<lparr>ev_UnlockLedger := (ev_UnlockLedger s1)(user \<mapsto> unlock_ledger)\<rparr>)))"

definition ews_withdraw :: "env \<Rightarrow> address \<Rightarrow> emergency_vault \<Rightarrow> emergency_vault result" where
  "ews_withdraw e user s =
     require_auth e user (
     let unlock = get0 (ev_UnlockLedger s) user in
     panic_if (sequence e < unlock) ''still locked'' (
     let s1 = ew_set_balance user 0 s in
     Ok (s1\<lparr>ev_UnlockLedger := (ev_UnlockLedger s1)(user := None)\<rparr>)))"

definition ews_emergency_withdraw :: "env \<Rightarrow> address \<Rightarrow> emergency_vault \<Rightarrow> emergency_vault result" where
  "ews_emergency_withdraw e user s =
     expect (ev_Admin s) ''admin not initialized'' (\<lambda>admin.
     require_auth e admin (
     let s1 = ew_set_balance user 0 s in Ok (s1\<lparr>ev_UnlockLedger := (ev_UnlockLedger s1)(user := None)\<rparr>)))"

definition ews_balance :: "emergency_vault \<Rightarrow> address \<Rightarrow> int" where
  "ews_balance s user = ew_get_balance s user"

definition ews_get_admin :: "emergency_vault \<Rightarrow> address result" where
  "ews_get_admin s = expect (ev_Admin s) ''admin not initialized'' Ok"

datatype emergency_call = XInit address | XDeposit address int int | XWithdraw address | XEmergency address

fun ews_exec :: "env \<Rightarrow> emergency_call \<Rightarrow> emergency_vault \<Rightarrow> emergency_vault result" where
  "ews_exec e (XInit a) s = ews_initialize e a s"
| "ews_exec e (XDeposit a n u) s = ews_deposit e a n u s"
| "ews_exec e (XWithdraw a) s = ews_withdraw e a s"
| "ews_exec e (XEmergency a) s = ews_emergency_withdraw e a s"

lemmas ews_defs = ews_initialize_def ews_deposit_def ews_withdraw_def ews_emergency_withdraw_def ews_balance_def
  ew_get_balance_def ew_set_balance_def Let_def

fun may_touch :: "address \<Rightarrow> env \<Rightarrow> emergency_call \<Rightarrow> emergency_vault \<Rightarrow> bool" where
  "may_touch a e (XDeposit b n u) s \<longleftrightarrow> b = a \<and> authorized e a"
| "may_touch a e (XWithdraw b) s \<longleftrightarrow> b = a \<and> authorized e a \<and> get0 (ev_UnlockLedger s) a \<le> sequence e"
| "may_touch a e (XEmergency b) s \<longleftrightarrow> b = a \<and> (\<exists>adm. ev_Admin s = Some adm \<and> authorized e adm)"
| "may_touch a e (XInit b) s \<longleftrightarrow> False"

interpretation emergency: guarded_view ews_exec "\<lambda>s. (ews_balance s a, ev_UnlockLedger s a)" "may_touch a"
  for a
proof (unfold_locales, goal_cases)
  case (1 e c s s')
  then show ?case
    by (cases c) (auto simp: ews_defs result_simps int_simps split: if_splits)
qed

text \<open>
  A locked balance and its lock (\<^verbatim>\<open>unprotected_emergency_withdraw/src/secure.rs\<close>) change only in calls of the owner
  (a deposit, or a withdrawal once the lock has run out) or in an emergency call that the admin signed. In the
  vulnerable vault an unsigned call wipes any account.
\<close>

theorem lock_touched_with_right:
  assumes "(ews_balance (run_calls ews_exec xs s) a, ev_UnlockLedger (run_calls ews_exec xs s) a) \<noteq> (ews_balance s a, ev_UnlockLedger s a)"
  shows "\<exists>ys e c zs. xs = ys @ (e, c) # zs \<and> may_touch a e c (run_calls ews_exec ys s)"
  using assms by (rule emergency.run_view)

theorem lock_touched_with_right_witness:
  "\<exists>ys e c zs. [(signed_env [Address 2] 1, XEmergency (Address 5))] = ys @ (e, c) # zs
     \<and> may_touch (Address 5) e c (run_calls ews_exec ys \<lparr>ev_Admin = Some (Address 2), ev_Balance = [Address 5 \<mapsto> 9], ev_UnlockLedger = Map.empty\<rparr>)"
  by (rule lock_touched_with_right) (simp add: ews_defs signed_env_def)

lemma emergency_open: "\<exists>s'. ew_emergency_withdraw e a s = Ok s' \<and> ew_balance s' a = 0"
  by (simp add: ew_emergency_withdraw_def ew_balance_def ew_get_balance_def ew_set_balance_def Let_def)

section \<open>admin\_skim\_donations\<close>

record skim_vault = host +
  sk_Admin :: "address option"
  sk_TotalAccounted :: "int option"
  sk_RawBalance :: "int option"

definition sk_initialize :: "env \<Rightarrow> address \<Rightarrow> 'x skim_vault_scheme \<Rightarrow> 'x skim_vault_scheme result" where
  "sk_initialize e admin s =
     panic_if (sk_Admin s \<noteq> None) ''already initialized'' (
     Ok (s\<lparr>sk_Admin := Some admin, sk_TotalAccounted := Some 0, sk_RawBalance := Some 0\<rparr>))"

definition sk_deposit :: "env \<Rightarrow> address \<Rightarrow> int \<Rightarrow> 'x skim_vault_scheme \<Rightarrow> 'x skim_vault_scheme result" where
  "sk_deposit e user amount s =
     require_auth e user (
     ensure (amount > 0) ''amount must be positive'' (
     let acc = unwrap_or (sk_TotalAccounted s) 0; raw = unwrap_or (sk_RawBalance s) 0 in
     arith (checked_add I128 acc amount) (\<lambda>a.
     arith (checked_add I128 raw amount) (\<lambda>r.
     Ok (publish [''deposit''] [VAddr user, VInt amount] (s\<lparr>sk_TotalAccounted := Some a, sk_RawBalance := Some r\<rparr>))))))"

definition sk_inject_excess :: "env \<Rightarrow> int \<Rightarrow> 'x skim_vault_scheme \<Rightarrow> 'x skim_vault_scheme result" where
  "sk_inject_excess e amount s =
     ensure (amount > 0) ''amount must be positive'' (
     let raw = unwrap_or (sk_RawBalance s) 0 in
     arith (checked_add I128 raw amount) (\<lambda>r. Ok (s\<lparr>sk_RawBalance := Some r\<rparr>)))"

definition sk_skim :: "env \<Rightarrow> skim_vault \<Rightarrow> (int \<times> skim_vault) result" where
  "sk_skim e s =
     expect (sk_Admin s) ''not initialized'' (\<lambda>admin.
     require_auth e admin (
     let raw = unwrap_or (sk_RawBalance s) 0; acc = unwrap_or (sk_TotalAccounted s) 0 in
     arith (checked_sub I128 raw acc) (\<lambda>skimmable.
     if skimmable \<le> 0 then Ok (0, s)
     else Ok (skimmable, publish [''skim''] [VAddr admin, VInt skimmable] (s\<lparr>sk_RawBalance := Some acc\<rparr>)))))"

definition sk_redeemable :: "'x skim_vault_scheme \<Rightarrow> int" where
  "sk_redeemable s = unwrap_or (sk_TotalAccounted s) 0"

definition sk_raw_balance :: "'x skim_vault_scheme \<Rightarrow> int" where
  "sk_raw_balance s = unwrap_or (sk_RawBalance s) 0"

record donated_vault = skim_vault +
  sk_TotalDonations :: "int option"

definition sks_initialize :: "env \<Rightarrow> address \<Rightarrow> donated_vault \<Rightarrow> donated_vault result" where
  "sks_initialize e admin s =
     and_then (sk_initialize e admin s) (\<lambda>s1. Ok (s1\<lparr>sk_TotalDonations := Some 0\<rparr>))"

definition sks_deposit :: "env \<Rightarrow> address \<Rightarrow> int \<Rightarrow> donated_vault \<Rightarrow> donated_vault result" where
  "sks_deposit e user amount s =
     require_auth e user (
     ensure (amount > 0) ''amount must be positive'' (
     let acc = unwrap_or (sk_TotalAccounted s) 0; raw = unwrap_or (sk_RawBalance s) 0 in
     arith (checked_add I128 acc amount) (\<lambda>a.
     arith (checked_add I128 raw amount) (\<lambda>r.
     Ok (publish [''deposit''] [VAddr user, VInt amount] (s\<lparr>sk_TotalAccounted := Some a, sk_RawBalance := Some r\<rparr>))))))"

definition sks_inject_excess :: "env \<Rightarrow> int \<Rightarrow> donated_vault \<Rightarrow> donated_vault result" where
  "sks_inject_excess e amount s =
     ensure (amount > 0) ''amount must be positive'' (
     let raw = unwrap_or (sk_RawBalance s) 0 in
     arith (checked_add I128 raw amount) (\<lambda>r. Ok (s\<lparr>sk_RawBalance := Some r\<rparr>)))"

definition sks_donate :: "env \<Rightarrow> address \<Rightarrow> int \<Rightarrow> donated_vault \<Rightarrow> donated_vault result" where
  "sks_donate e donor amount s =
     require_auth e donor (
     ensure (amount > 0) ''amount must be positive'' (
     let donations = unwrap_or (sk_TotalDonations s) 0 in
     arith (checked_add I128 donations amount) (\<lambda>d.
     Ok (publish [''donate''] [VAddr donor, VInt amount] (s\<lparr>sk_TotalDonations := Some d\<rparr>)))))"

definition sks_skim :: "env \<Rightarrow> donated_vault \<Rightarrow> (int \<times> donated_vault) result" where
  "sks_skim e s =
     expect (sk_Admin s) ''not initialized'' (\<lambda>admin.
     require_auth e admin (
     let donations = unwrap_or (sk_TotalDonations s) 0 in
     if donations \<le> 0 then Ok (0, s)
     else
       let s1 = s\<lparr>sk_TotalDonations := Some 0\<rparr>; raw = unwrap_or (sk_RawBalance s1) 0 in
       arith (checked_sub I128 raw donations) (\<lambda>r.
       Ok (donations, publish [''skim''] [VAddr admin, VInt donations] (s1\<lparr>sk_RawBalance := Some r\<rparr>)))))"

definition sks_redeemable :: "donated_vault \<Rightarrow> int" where
  "sks_redeemable s = unwrap_or (sk_TotalAccounted s) 0"

definition sks_raw_balance :: "donated_vault \<Rightarrow> int" where
  "sks_raw_balance s = unwrap_or (sk_RawBalance s) 0"

datatype skim_call = KInit address | KDeposit address int | KInject int | KDonate address int | KSkim

fun sk_exec :: "env \<Rightarrow> skim_call \<Rightarrow> skim_vault \<Rightarrow> skim_vault result" where
  "sk_exec e (KInit a) s = sk_initialize e a s"
| "sk_exec e (KDeposit a n) s = sk_deposit e a n s"
| "sk_exec e (KInject n) s = sk_inject_excess e n s"
| "sk_exec e (KDonate a n) s = Err NoContract" \<comment> \<open>no such entry point\<close>
| "sk_exec e KSkim s = state_of (sk_skim e s)"

fun sks_exec :: "env \<Rightarrow> skim_call \<Rightarrow> donated_vault \<Rightarrow> donated_vault result" where
  "sks_exec e (KInit a) s = sks_initialize e a s"
| "sks_exec e (KDeposit a n) s = sks_deposit e a n s"
| "sks_exec e (KInject n) s = sks_inject_excess e n s"
| "sks_exec e (KDonate a n) s = sks_donate e a n s"
| "sks_exec e KSkim s = state_of (sks_skim e s)"

lemmas skim_defs = sk_initialize_def sk_deposit_def sk_inject_excess_def sk_skim_def sks_initialize_def sks_donate_def sks_skim_def
  sks_deposit_def sks_inject_excess_def sks_redeemable_def sks_raw_balance_def sk_redeemable_def sk_raw_balance_def publish_def Let_def

interpretation skim_solvent: contract_invariant sk_exec "\<lambda>s. sk_redeemable s \<le> sk_raw_balance s"
proof (unfold_locales, goal_cases)
  case (1 s e c s')
  then show ?case by (cases c) (auto simp: skim_defs result_simps int_simps split: if_splits)
qed

definition skim_empty :: skim_vault where
  "skim_empty = \<lparr>events = [], sk_Admin = None, sk_TotalAccounted = None, sk_RawBalance = None\<rparr>"

definition donation_empty :: donated_vault where
  "donation_empty = \<lparr>events = [], sk_Admin = None, sk_TotalAccounted = None, sk_RawBalance = None, sk_TotalDonations = None\<rparr>"

definition skim_calls :: "(env \<times> skim_call) list" where
  "skim_calls = [(signed_env [] 1, KInit (Address 2)), (signed_env [Address 5] 2, KDeposit (Address 5) 100),
     (signed_env [Address 2] 3, KDonate (Address 2) 100), (signed_env [Address 2] 4, KSkim)]"

text \<open>
  The comments call the original skim unsafe for redeemable funds and the repaired one safe; it is the other way
  round. In the original the raw balance covers the deposits in every run. In the repaired one a donation adds to the
  counter of donations but not to the raw balance, and the skim then takes it from the deposits: the admin donates a
  hundred that nobody pays and empties the vault.
\<close>

theorem skim_repair_breaks_solvency:
  "sk_redeemable (run_calls sk_exec xs skim_empty) \<le> sk_raw_balance (run_calls sk_exec xs skim_empty)
   \<and> sks_redeemable (run_calls sks_exec skim_calls donation_empty) = 100
   \<and> sks_raw_balance (run_calls sks_exec skim_calls donation_empty) = 0"
proof (intro conjI)
  show "sk_redeemable (run_calls sk_exec xs skim_empty) \<le> sk_raw_balance (run_calls sk_exec xs skim_empty)"
    by (rule skim_solvent.run_inv) (simp add: skim_empty_def skim_defs)
  show "sks_redeemable (run_calls sks_exec skim_calls donation_empty) = 100"
    "sks_raw_balance (run_calls sks_exec skim_calls donation_empty) = 0"
    by (simp_all add: skim_calls_def donation_empty_def skim_defs signed_env_def checked_add_def checked_sub_def checked_def in_range_def)
qed

section \<open>rescue\_primary\_asset\<close>

record rescue_vault =
  rv_Admin :: "address option"
  rv_ManagedToken :: "address option"
  rv_Balance :: "address \<rightharpoonup> int"

definition rpa_initialize :: "env \<Rightarrow> address \<Rightarrow> address \<Rightarrow> rescue_vault \<times> 'w \<Rightarrow> (rescue_vault \<times> 'w) result" where
  "rpa_initialize e admin managed_token = (\<lambda>(s, w).
     panic_if (rv_Admin s \<noteq> None) ''already initialized'' (
     Ok (s\<lparr>rv_Admin := Some admin, rv_ManagedToken := Some managed_token\<rparr>, w)))"

definition rpa_deposit :: "'w token_client \<Rightarrow> env \<Rightarrow> address \<Rightarrow> int \<Rightarrow> rescue_vault \<times> 'w \<Rightarrow> (rescue_vault \<times> 'w) result" where
  "rpa_deposit tk e user amount = (\<lambda>(s, w).
     require_auth e user (
     expect (rv_ManagedToken s) ''not initialized'' (\<lambda>managed_token.
     and_then (tk_transfer tk managed_token user (current_contract e) amount w) (\<lambda>w1.
     let current = get0 (rv_Balance s) user in
     arith (checked_add I128 current amount) (\<lambda>n. Ok (s\<lparr>rv_Balance := (rv_Balance s)(user \<mapsto> n)\<rparr>, w1))))))"

definition rpa_withdraw :: "'w token_client \<Rightarrow> env \<Rightarrow> address \<Rightarrow> int \<Rightarrow> rescue_vault \<times> 'w \<Rightarrow> (rescue_vault \<times> 'w) result" where
  "rpa_withdraw tk e user amount = (\<lambda>(s, w).
     require_auth e user (
     let balance = get0 (rv_Balance s) user in
     expect (checked_sub I128 balance amount) ''insufficient funds'' (\<lambda>new_balance.
     let s1 = s\<lparr>rv_Balance := (rv_Balance s)(user \<mapsto> new_balance)\<rparr> in
     unwrap (rv_ManagedToken s1) (\<lambda>managed_token.
     and_then (tk_transfer tk managed_token (current_contract e) user amount w) (\<lambda>w1. Ok (s1, w1))))))"

definition rpa_rescue_token ::
    "'w token_client \<Rightarrow> env \<Rightarrow> address \<Rightarrow> address \<Rightarrow> int \<Rightarrow> rescue_vault \<times> 'w \<Rightarrow> (rescue_vault \<times> 'w) result" where
  "rpa_rescue_token tk e tok recipient amount = (\<lambda>(s, w).
     expect (rv_Admin s) ''not initialized'' (\<lambda>admin.
     require_auth e admin (
     and_then (tk_transfer tk tok (current_contract e) recipient amount w) (\<lambda>w1. Ok (s, w1)))))"

definition rpa_get_balance :: "rescue_vault \<Rightarrow> address \<Rightarrow> int" where
  "rpa_get_balance s user = get0 (rv_Balance s) user"

definition rpa_get_managed_token :: "rescue_vault \<Rightarrow> address result" where
  "rpa_get_managed_token s = expect (rv_ManagedToken s) ''not initialized'' Ok"

definition rpas_initialize :: "env \<Rightarrow> address \<Rightarrow> address \<Rightarrow> rescue_vault \<times> 'w \<Rightarrow> (rescue_vault \<times> 'w) result" where
  "rpas_initialize e admin managed_token = (\<lambda>(s, w).
     panic_if (rv_Admin s \<noteq> None) ''already initialized'' (
     Ok (s\<lparr>rv_Admin := Some admin, rv_ManagedToken := Some managed_token\<rparr>, w)))"

definition rpas_deposit :: "'w token_client \<Rightarrow> env \<Rightarrow> address \<Rightarrow> int \<Rightarrow> rescue_vault \<times> 'w \<Rightarrow> (rescue_vault \<times> 'w) result" where
  "rpas_deposit tk e user amount = (\<lambda>(s, w).
     require_auth e user (
     expect (rv_ManagedToken s) ''not initialized'' (\<lambda>managed_token.
     and_then (tk_transfer tk managed_token user (current_contract e) amount w) (\<lambda>w1.
     let current = get0 (rv_Balance s) user in
     arith (checked_add I128 current amount) (\<lambda>n. Ok (s\<lparr>rv_Balance := (rv_Balance s)(user \<mapsto> n)\<rparr>, w1))))))"

definition rpas_withdraw :: "'w token_client \<Rightarrow> env \<Rightarrow> address \<Rightarrow> int \<Rightarrow> rescue_vault \<times> 'w \<Rightarrow> (rescue_vault \<times> 'w) result" where
  "rpas_withdraw tk e user amount = (\<lambda>(s, w).
     require_auth e user (
     let balance = get0 (rv_Balance s) user in
     expect (checked_sub I128 balance amount) ''insufficient funds'' (\<lambda>new_balance.
     let s1 = s\<lparr>rv_Balance := (rv_Balance s)(user \<mapsto> new_balance)\<rparr> in
     unwrap (rv_ManagedToken s1) (\<lambda>managed_token.
     and_then (tk_transfer tk managed_token (current_contract e) user amount w) (\<lambda>w1. Ok (s1, w1))))))"

definition rpas_rescue_token ::
    "'w token_client \<Rightarrow> env \<Rightarrow> address \<Rightarrow> address \<Rightarrow> int \<Rightarrow> rescue_vault \<times> 'w \<Rightarrow> (rescue_vault \<times> 'w) result" where
  "rpas_rescue_token tk e tok recipient amount = (\<lambda>(s, w).
     expect (rv_Admin s) ''not initialized'' (\<lambda>admin.
     require_auth e admin (
     unwrap (rv_ManagedToken s) (\<lambda>managed_token.
     panic_if (tok = managed_token) ''cannot rescue managed token'' (
     and_then (tk_transfer tk tok (current_contract e) recipient amount w) (\<lambda>w1. Ok (s, w1)))))))"

definition rpas_get_balance :: "rescue_vault \<Rightarrow> address \<Rightarrow> int" where
  "rpas_get_balance s user = get0 (rv_Balance s) user"

definition rpas_get_managed_token :: "rescue_vault \<Rightarrow> address result" where
  "rpas_get_managed_token s = expect (rv_ManagedToken s) ''not initialized'' Ok"

datatype rescue_call = QInit address address | QDeposit address int | QWithdraw address int | QRescue address address int

text \<open>Calls to the deployment at \<open>v\<close>.\<close>

fun rpas_exec :: "'w token_client \<Rightarrow> address \<Rightarrow> env \<Rightarrow> rescue_call \<Rightarrow> rescue_vault \<times> 'w \<Rightarrow> (rescue_vault \<times> 'w) result" where
  "rpas_exec tk v e (QInit a m) x = rpas_initialize (e\<lparr>current_contract := v\<rparr>) a m x"
| "rpas_exec tk v e (QDeposit a n) x = rpas_deposit tk (e\<lparr>current_contract := v\<rparr>) a n x"
| "rpas_exec tk v e (QWithdraw a n) x = rpas_withdraw tk (e\<lparr>current_contract := v\<rparr>) a n x"
| "rpas_exec tk v e (QRescue t b n) x = rpas_rescue_token tk (e\<lparr>current_contract := v\<rparr>) t b n x"

text \<open>What is recorded and not held: the sum of the records minus the vault's holdings of the managed token \<open>m\<close>.\<close>

definition managed :: "address \<Rightarrow> rescue_vault \<times> 'w \<Rightarrow> bool" where
  "managed m x \<longleftrightarrow> rv_Admin (fst x) \<noteq> None \<and> rv_ManagedToken (fst x) = Some m \<and> finite (dom (rv_Balance (fst x)))"

definition unbacked :: "'w token_client \<Rightarrow> address \<Rightarrow> address \<Rightarrow> rescue_vault \<times> 'w \<Rightarrow> int" where
  "unbacked tk v m x = sum_bal (rv_Balance (fst x)) - tk_balance tk m v (snd x)"

fun self_dealing :: "address \<Rightarrow> env \<Rightarrow> rescue_call \<Rightarrow> rescue_vault \<times> 'w \<Rightarrow> int" where
  "self_dealing v e (QDeposit a n) x = (if a = v then n else 0)"
| "self_dealing v e (QWithdraw a n) x = (if a = v then - n else 0)"
| "self_dealing v e c x = 0"

lemmas rpas_defs = rpas_initialize_def rpas_deposit_def rpas_withdraw_def rpas_rescue_token_def Let_def

context sound_tokens
begin

lemma rescue_step:
  assumes "managed m x" and "rpas_exec tk v e c x = Ok x'"
  shows "managed m x' \<and> unbacked tk v m x' = unbacked tk v m x + self_dealing v e c x"
proof -
  obtain s w where x: "x = (s, w)" by force
  show ?thesis
  proof (cases c)
    case (QInit a k)
    with assms x show ?thesis by (auto simp: rpas_defs managed_def result_simps)
  next
    case (QDeposit a n)
    with assms x show ?thesis
      by (auto simp: rpas_defs managed_def unbacked_def result_simps int_simps sum_bal_update transfer_moves)
  next
    case (QWithdraw a n)
    with assms x show ?thesis
      by (auto simp: rpas_defs managed_def unbacked_def result_simps int_simps sum_bal_update transfer_moves)
  next
    case (QRescue t b n)
    with assms x show ?thesis
      by (auto simp: rpas_defs managed_def unbacked_def result_simps transfer_spares)
  qed
qed

end

sublocale sound_tokens \<subseteq> backing: conserved_flow "rpas_exec tk v" "managed m" "unbacked tk v m" "self_dealing v"
  for v m
  by unfold_locales (simp_all add: rescue_step)

text \<open>
  Backing of the records (\<^verbatim>\<open>rescue_primary_asset/src/secure.rs\<close>), with any number of instances of the repository's
  token around it: along every run, rescues of other tokens included, the sum of the recorded balances and the
  vault's holdings of the managed token move together, apart from calls the vault would have to sign itself.
\<close>

theorem records_stay_backed:
  assumes "managed m (s, w)"
  shows "unbacked (own_tokens e) v m (run_calls (rpas_exec (own_tokens e) v) xs (s, w))
    = unbacked (own_tokens e) v m (s, w) + run_flow (rpas_exec (own_tokens e) v) (self_dealing v) xs (s, w)"
  using assms by (rule own_tokens.backing.run_conserves)

definition rescue_demo :: rescue_vault where
  "rescue_demo = \<lparr>rv_Admin = Some (Address 2), rv_ManagedToken = Some (Address 8), rv_Balance = [Address 5 \<mapsto> 100]\<rparr>"

theorem records_stay_backed_witness:
  "managed (Address 8) (rescue_demo, \<lambda>_. token_empty)
   \<and> unbacked (own_tokens (signed_env [] 0)) (Address 99) (Address 8)
       (run_calls (rpas_exec (own_tokens (signed_env [] 0)) (Address 99)) [(signed_env [] 1, QRescue (Address 9) (Address 2) 5)] (rescue_demo, \<lambda>_. token_empty))
     = unbacked (own_tokens (signed_env [] 0)) (Address 99) (Address 8) (rescue_demo, \<lambda>_. token_empty)"
proof -
  have m: "managed (Address 8) (rescue_demo, \<lambda>_. token_empty)"
    by (simp add: managed_def rescue_demo_def)
  have "run_flow (rpas_exec (own_tokens (signed_env [] 0)) (Address 99)) (self_dealing (Address 99))
      [(signed_env [] 1, QRescue (Address 9) (Address 2) 5)] (rescue_demo, \<lambda>_. token_empty) = 0"
    by (simp split: sum.splits)
  with records_stay_backed [OF m, of "signed_env [] 0" "Address 99" "[(signed_env [] 1, QRescue (Address 9) (Address 2) 5)]"] m
  show ?thesis by simp
qed

text \<open>
  The record of one account is not protected, though: \<^verbatim>\<open>checked_sub\<close> on \<^verbatim>\<open>i128\<close> lets an account withdraw more than it
  has, out of the deposits of the others, in both halves.
\<close>

lemma rescue_vault_overdraft:
  assumes "authorized e a" and "rv_ManagedToken s = Some m" and "rv_Balance s a = None" and "0 < n" "in_range I128 n"
    and "tk_transfer tk m (current_contract e) a n w = Ok w'"
  shows "rpas_withdraw tk e a n (s, w) = Ok (s\<lparr>rv_Balance := (rv_Balance s)(a \<mapsto> - n)\<rparr>, w')"
proof -
  have "in_range I128 (- n)" using assms(4,5) by (simp add: in_range_def)
  with assms show ?thesis by (simp add: rpas_withdraw_def get0_def checked_sub_def)
qed

lemma primary_rescued:
  assumes "rv_Admin s = Some adm" and "authorized e adm" and "tk_transfer tk m (current_contract e) adm n w = Ok w'"
  shows "rpa_rescue_token tk e m adm n (s, w) = Ok (s, w')"
  using assms by (simp add: rpa_rescue_token_def)

section \<open>deposit\_cap\_wrong\_amount\<close>

definition DEPOSIT_CAP :: int where "DEPOSIT_CAP = 100"

record cap_vault =
  cv_TotalCredited :: "int option"
  cv_Token :: "address option"

definition dca_initialize :: "env \<Rightarrow> address \<Rightarrow> cap_vault \<times> 'w \<Rightarrow> (cap_vault \<times> 'w) result" where
  "dca_initialize e tok = (\<lambda>(s, w). Ok (s\<lparr>cv_Token := Some tok\<rparr>, w))"

definition dca_deposit :: "'w token_client \<Rightarrow> env \<Rightarrow> address \<Rightarrow> int \<Rightarrow> cap_vault \<times> 'w \<Rightarrow> (cap_vault \<times> 'w) result" where
  "dca_deposit tk e user amount = (\<lambda>(s, w).
     require_auth e user (
     ensure (amount > 0) ''amount must be positive'' (
     let tot = unwrap_or (cv_TotalCredited s) 0 in
     ensure (amount \<le> DEPOSIT_CAP) ''deposit cap exceeded'' (
     unwrap (cv_Token s) (\<lambda>tok.
     let vault = current_contract e; pre = tk_balance tk tok vault w in
     and_then (tk_transfer tk tok user vault amount w) (\<lambda>w1.
     let post = tk_balance tk tok vault w1 in
     arith (checked_sub I128 post pre) (\<lambda>received.
     arith (checked_add I128 tot received) (\<lambda>n. Ok (s\<lparr>cv_TotalCredited := Some n\<rparr>, w1)))))))))"

definition dca_total_credited :: "cap_vault \<Rightarrow> int" where
  "dca_total_credited s = unwrap_or (cv_TotalCredited s) 0"

definition dcas_initialize :: "env \<Rightarrow> address \<Rightarrow> cap_vault \<times> 'w \<Rightarrow> (cap_vault \<times> 'w) result" where
  "dcas_initialize e tok = (\<lambda>(s, w). Ok (s\<lparr>cv_Token := Some tok\<rparr>, w))"

definition dcas_deposit :: "'w token_client \<Rightarrow> env \<Rightarrow> address \<Rightarrow> int \<Rightarrow> cap_vault \<times> 'w \<Rightarrow> (cap_vault \<times> 'w) result" where
  "dcas_deposit tk e user amount = (\<lambda>(s, w).
     require_auth e user (
     ensure (amount > 0) ''amount must be positive'' (
     unwrap (cv_Token s) (\<lambda>tok.
     let vault = current_contract e; pre = tk_balance tk tok vault w in
     and_then (tk_transfer tk tok user vault amount w) (\<lambda>w1.
     let post = tk_balance tk tok vault w1 in
     arith (checked_sub I128 post pre) (\<lambda>received.
     let tot = unwrap_or (cv_TotalCredited s) 0 in
     arith (checked_add I128 tot received) (\<lambda>n.
     ensure (n \<le> DEPOSIT_CAP) ''deposit cap exceeded'' (
     Ok (s\<lparr>cv_TotalCredited := Some n\<rparr>, w1)))))))))"

definition dcas_total_credited :: "cap_vault \<Rightarrow> int" where
  "dcas_total_credited s = unwrap_or (cv_TotalCredited s) 0"

datatype cap_call = CPInit address | CPDeposit address int

fun dcas_exec :: "'w token_client \<Rightarrow> env \<Rightarrow> cap_call \<Rightarrow> cap_vault \<times> 'w \<Rightarrow> (cap_vault \<times> 'w) result" where
  "dcas_exec tk e (CPInit t) x = dcas_initialize e t x"
| "dcas_exec tk e (CPDeposit a n) x = dcas_deposit tk e a n x"

fun dca_exec :: "'w token_client \<Rightarrow> env \<Rightarrow> cap_call \<Rightarrow> cap_vault \<times> 'w \<Rightarrow> (cap_vault \<times> 'w) result" where
  "dca_exec tk e (CPInit t) x = dca_initialize e t x"
| "dca_exec tk e (CPDeposit a n) x = dca_deposit tk e a n x"

interpretation capped: contract_invariant "dcas_exec tk" "\<lambda>x. dcas_total_credited (fst x) \<le> DEPOSIT_CAP"
  for tk
proof (unfold_locales, goal_cases)
  case (1 x e c x')
  then show ?case
    by (cases c; cases x) (auto simp: dcas_initialize_def dcas_deposit_def dcas_total_credited_def result_simps int_simps Let_def)
qed

definition cap_empty :: cap_vault where
  "cap_empty = \<lparr>cv_TotalCredited = None, cv_Token = None\<rparr>"

definition cap_world :: "address \<Rightarrow> address \<rightharpoonup> int" where
  "cap_world t = (if t = Address 8 then [Address 5 \<mapsto> 1000] else Map.empty)"

definition cap_calls :: "(env \<times> cap_call) list" where
  "cap_calls = [(signed_env [] 1, CPInit (Address 8)), (signed_env [Address 5] 2, CPDeposit (Address 5) 100),
     (signed_env [Address 5] 3, CPDeposit (Address 5) 100)]"

text \<open>
  The cap (\<^verbatim>\<open>deposit_cap_wrong_amount\<close>): whatever token code is behind it, the repaired vault never credits more than
  the cap in total. The vulnerable one compares only the single amount: two deposits of the crate's fee token, each
  within the cap, are credited a hundred and eighty.
\<close>

theorem credited_within_cap:
  "dcas_total_credited (fst (run_calls (dcas_exec tk) xs (cap_empty, w))) \<le> DEPOSIT_CAP
   \<and> dca_total_credited (fst (run_calls (dca_exec fee_tokens) cap_calls (cap_empty, cap_world))) = 180"
proof (intro conjI)
  show "dcas_total_credited (fst (run_calls (dcas_exec tk) xs (cap_empty, w))) \<le> DEPOSIT_CAP"
    by (rule capped.run_inv) (simp add: cap_empty_def dcas_total_credited_def DEPOSIT_CAP_def)
  show "dca_total_credited (fst (run_calls (dca_exec fee_tokens) cap_calls (cap_empty, cap_world))) = 180"
    by (simp add: cap_calls_def cap_empty_def cap_world_def dca_initialize_def dca_deposit_def dca_total_credited_def fee_tokens_def
        fee_transfer_def fee_balance_def signed_env_def DEPOSIT_CAP_def checked_add_def checked_sub_def checked_mul_def checked_div_def
        checked_def in_range_def signed_divide_int_def Let_def)
qed

end
