(* ===== verification/Wrapped_Assets.thy ===== *)
theory Wrapped_Assets
  imports Token_Clients
begin

text \<open>
  Vaults and wrappers around other tokens: \<^verbatim>\<open>rebasing_token_accounting\<close>, \<^verbatim>\<open>fee_on_transfer\<close>,
  \<^verbatim>\<open>unwrap_without_burn\<close>, \<^verbatim>\<open>wrapped_asset_allowlist_bypass\<close>, \<^verbatim>\<open>ignored_return\<close>, and the registry
  \<^verbatim>\<open>fake_token_registration\<close>. Shown: what backs the shares and records, also under arbitrary token code, that
  registered symbols are unique, and which repairs change nothing.
\<close>

section \<open>rebasing\_token\_accounting\<close>

record rebase_vault =
  rb_Shares :: "address \<rightharpoonup> int"
  rb_TotalTokens :: "int option"
  rb_TotalShares :: "int option"
  rb_LiveBalance :: "int option"

definition rb_deposit :: "env \<Rightarrow> address \<Rightarrow> int \<Rightarrow> rebase_vault \<Rightarrow> rebase_vault result" where
  "rb_deposit e actor amount s =
     require_auth e actor (
     ensure (amount > 0) ''amount must be positive'' (
     let total_tokens = unwrap_or (rb_TotalTokens s) 0; total_shares = unwrap_or (rb_TotalShares s) 0 in
     and_then
       (if total_shares = 0 \<or> total_tokens = 0 then Ok amount
        else arith (checked_mul I128 amount total_shares) (\<lambda>m. arith (checked_div I128 m total_tokens) Ok))
       (\<lambda>new_shares.
     let prev = get0 (rb_Shares s) actor in
     arith (checked_add I128 prev new_shares) (\<lambda>h.
     arith (checked_add I128 total_shares new_shares) (\<lambda>ts.
     arith (checked_add I128 total_tokens amount) (\<lambda>tt.
     let live = unwrap_or (rb_LiveBalance s) 0 in
     arith (checked_add I128 live amount) (\<lambda>l.
     Ok (s\<lparr>rb_Shares := (rb_Shares s)(actor \<mapsto> h), rb_TotalShares := Some ts, rb_TotalTokens := Some tt,
           rb_LiveBalance := Some l\<rparr>))))))))"

definition rb_withdraw :: "env \<Rightarrow> address \<Rightarrow> int \<Rightarrow> rebase_vault \<Rightarrow> (int \<times> rebase_vault) result" where
  "rb_withdraw e actor shares s =
     require_auth e actor (
     ensure (shares > 0) ''shares must be positive'' (
     let held = get0 (rb_Shares s) actor in
     ensure (held \<ge> shares) ''insufficient shares'' (
     let total_tokens = unwrap_or (rb_TotalTokens s) 0; total_shares = unwrap_or (rb_TotalShares s) 0 in
     arith (checked_mul I128 shares total_tokens) (\<lambda>m.
     arith (checked_div I128 m total_shares) (\<lambda>tokens_out.
     arith (checked_sub I128 held shares) (\<lambda>h.
     arith (checked_sub I128 total_shares shares) (\<lambda>ts.
     arith (checked_sub I128 total_tokens tokens_out) (\<lambda>tt.
     let live = unwrap_or (rb_LiveBalance s) 0 in
     arith (checked_sub I128 live tokens_out) (\<lambda>l.
     Ok (tokens_out, s\<lparr>rb_Shares := (rb_Shares s)(actor \<mapsto> h), rb_TotalShares := Some ts, rb_TotalTokens := Some tt,
           rb_LiveBalance := Some l\<rparr>))))))))))"

definition rb_vulnerable_entry :: "env \<Rightarrow> address \<Rightarrow> int \<Rightarrow> rebase_vault \<Rightarrow> rebase_vault result" where
  "rb_vulnerable_entry e actor amount s =
     (let live = unwrap_or (rb_LiveBalance s) 0 in
      arith (checked_add I128 live amount) (\<lambda>l. Ok (s\<lparr>rb_LiveBalance := Some l\<rparr>)))"

definition rb_live_balance :: "rebase_vault \<Rightarrow> int" where
  "rb_live_balance s = unwrap_or (rb_LiveBalance s) 0"

definition rb_shares :: "rebase_vault \<Rightarrow> address \<Rightarrow> int" where
  "rb_shares s user = get0 (rb_Shares s) user"

definition rb_total_tokens :: "rebase_vault \<Rightarrow> int" where
  "rb_total_tokens s = unwrap_or (rb_TotalTokens s) 0"

definition rb_total_shares :: "rebase_vault \<Rightarrow> int" where
  "rb_total_shares s = unwrap_or (rb_TotalShares s) 0"

definition rbs_deposit :: "env \<Rightarrow> address \<Rightarrow> int \<Rightarrow> rebase_vault \<Rightarrow> rebase_vault result" where
  "rbs_deposit e actor amount s =
     require_auth e actor (
     ensure (amount > 0) ''amount must be positive'' (
     let total_tokens = unwrap_or (rb_TotalTokens s) 0; total_shares = unwrap_or (rb_TotalShares s) 0 in
     and_then
       (if total_shares = 0 \<or> total_tokens = 0 then Ok amount
        else arith (checked_mul I128 amount total_shares) (\<lambda>m. arith (checked_div I128 m total_tokens) Ok))
       (\<lambda>new_shares.
     let prev = get0 (rb_Shares s) actor in
     arith (checked_add I128 prev new_shares) (\<lambda>h.
     arith (checked_add I128 total_shares new_shares) (\<lambda>ts.
     arith (checked_add I128 total_tokens amount) (\<lambda>tt.
     Ok (s\<lparr>rb_Shares := (rb_Shares s)(actor \<mapsto> h), rb_TotalShares := Some ts, rb_TotalTokens := Some tt\<rparr>)))))))"

definition rbs_withdraw :: "env \<Rightarrow> address \<Rightarrow> int \<Rightarrow> rebase_vault \<Rightarrow> (int \<times> rebase_vault) result" where
  "rbs_withdraw e actor shares s =
     require_auth e actor (
     ensure (shares > 0) ''shares must be positive'' (
     let held = get0 (rb_Shares s) actor in
     ensure (held \<ge> shares) ''insufficient shares'' (
     let total_tokens = unwrap_or (rb_TotalTokens s) 0; total_shares = unwrap_or (rb_TotalShares s) 0 in
     arith (checked_mul I128 shares total_tokens) (\<lambda>m.
     arith (checked_div I128 m total_shares) (\<lambda>tokens_out.
     arith (checked_sub I128 held shares) (\<lambda>h.
     arith (checked_sub I128 total_shares shares) (\<lambda>ts.
     arith (checked_sub I128 total_tokens tokens_out) (\<lambda>tt.
     Ok (tokens_out, s\<lparr>rb_Shares := (rb_Shares s)(actor \<mapsto> h), rb_TotalShares := Some ts, rb_TotalTokens := Some tt\<rparr>)))))))))"

definition rbs_rebase :: "env \<Rightarrow> int \<Rightarrow> rebase_vault \<Rightarrow> rebase_vault result" where
  "rbs_rebase e delta s =
     (let current = unwrap_or (rb_TotalTokens s) 0 in
      arith (checked_add I128 current delta) (\<lambda>n. Ok (s\<lparr>rb_TotalTokens := Some n\<rparr>)))"

definition rbs_shares :: "rebase_vault \<Rightarrow> address \<Rightarrow> int" where
  "rbs_shares s user = get0 (rb_Shares s) user"

definition rbs_live_balance :: "rebase_vault \<Rightarrow> int" where
  "rbs_live_balance s = unwrap_or (rb_TotalTokens s) 0"

datatype rebase_call = VDeposit address int | VWithdraw address int | VRebase address int

fun rb_exec :: "env \<Rightarrow> rebase_call \<Rightarrow> rebase_vault \<Rightarrow> rebase_vault result" where
  "rb_exec e (VDeposit a n) s = rb_deposit e a n s"
| "rb_exec e (VWithdraw a n) s = state_of (rb_withdraw e a n s)"
| "rb_exec e (VRebase a n) s = rb_vulnerable_entry e a n s"

fun rbs_exec :: "env \<Rightarrow> rebase_call \<Rightarrow> rebase_vault \<Rightarrow> rebase_vault result" where
  "rbs_exec e (VDeposit a n) s = rbs_deposit e a n s"
| "rbs_exec e (VWithdraw a n) s = state_of (rbs_withdraw e a n s)"
| "rbs_exec e (VRebase a n) s = rbs_rebase e n s"

definition rebase_ok :: "rebase_vault \<Rightarrow> bool" where
  "rebase_ok s \<longleftrightarrow> finite (dom (rb_Shares s)) \<and> (\<forall>a. 0 \<le> rbs_shares s a) \<and> sum_bal (rb_Shares s) = unwrap_or (rb_TotalShares s) 0
     \<and> 0 \<le> rbs_live_balance s"

lemma rbs_deposit_ok:
  assumes ok: "rebase_ok s" and "rbs_deposit e a n s = Ok s'"
  shows "rebase_ok s'"
proof -
  let ?T = "unwrap_or (rb_TotalTokens s) 0" and ?S = "unwrap_or (rb_TotalShares s) 0"
  obtain k where k: "k = (if ?S = 0 \<or> ?T = 0 then n else (n * ?S) sdiv ?T)"
    and n: "0 < n" and s': "s' = s\<lparr>rb_Shares := (rb_Shares s)(a \<mapsto> get0 (rb_Shares s) a + k), rb_TotalShares := Some (?S + k),
      rb_TotalTokens := Some (?T + n)\<rparr>"
    using assms(2) by (auto simp: rbs_deposit_def result_simps int_simps Let_def split: if_splits)
  have T: "0 \<le> ?T" using ok by (simp add: rebase_ok_def rbs_live_balance_def)
  have S: "0 \<le> ?S" using ok sum_bal_nonneg [of "rb_Shares s"] by (simp add: rebase_ok_def rbs_shares_def)
  have "0 \<le> k"
    using n T S by (auto simp: k sdiv_nonneg_eq pos_imp_zdiv_nonneg_iff)
  with ok n T show ?thesis
    by (auto simp: rebase_ok_def s' rbs_shares_def rbs_live_balance_def sum_bal_update)
qed

lemma rbs_withdraw_ok:
  assumes ok: "rebase_ok s" and "rbs_withdraw e a n s = Ok (k, s')"
  shows "rebase_ok s'" and "0 \<le> k" and "k \<le> rbs_live_balance s"
proof -
  let ?T = "unwrap_or (rb_TotalTokens s) 0" and ?S = "unwrap_or (rb_TotalShares s) 0" and ?h = "get0 (rb_Shares s) a"
  have w: "0 < n" "n \<le> ?h" "k = (n * ?T) sdiv ?S" "s' = s\<lparr>rb_Shares := (rb_Shares s)(a \<mapsto> ?h - n), rb_TotalShares := Some (?S - n),
      rb_TotalTokens := Some (?T - k)\<rparr>"
    using assms(2) by (auto simp: rbs_withdraw_def result_simps int_simps Let_def split: if_splits)
  have T: "0 \<le> ?T" using ok by (simp add: rebase_ok_def rbs_live_balance_def)
  have "?h \<le> ?S"
    using ok get0_le_total_bal [of "rb_Shares s" a] by (simp add: rebase_ok_def rbs_shares_def)
  with w(1,2) have S: "n \<le> ?S" "0 < ?S" by simp_all
  have k: "k = n * ?T div ?S"
    using w T S by (simp add: sdiv_nonneg_eq)
  show k0: "0 \<le> k" using k w(1) T S by (simp add: pos_imp_zdiv_nonneg_iff)
  have "k \<le> ?S * ?T div ?S"
    unfolding k using S T by (intro zdiv_mono1 mult_right_mono) auto
  then have kT: "k \<le> ?T" using S by simp
  then show "k \<le> rbs_live_balance s" by (simp add: rbs_live_balance_def)
  show "rebase_ok s'"
    using ok w kT by (auto simp: rebase_ok_def rbs_shares_def rbs_live_balance_def sum_bal_update)
qed

interpretation rebase_solvent: guarded_steps rbs_exec "\<lambda>s t. rebase_ok s \<longrightarrow> rebase_ok t"
    "\<lambda>e c s. \<exists>a d. c = VRebase a d \<and> d < - rbs_live_balance s"
proof (unfold_locales, goal_cases)
  case (3 e c s s')
  show ?case
  proof (cases c)
    case (VDeposit a n)
    with 3 show ?thesis by (auto dest: rbs_deposit_ok)
  next
    case (VWithdraw a n)
    with 3 show ?thesis by (auto simp: result_simps dest: rbs_withdraw_ok(1))
  next
    case (VRebase a d)
    with 3 show ?thesis
      by (auto simp: rbs_rebase_def rebase_ok_def rbs_shares_def rbs_live_balance_def result_simps int_simps Let_def)
  qed
qed auto

definition rb_empty :: rebase_vault where
  "rb_empty = \<lparr>rb_Shares = Map.empty, rb_TotalTokens = None, rb_TotalShares = None, rb_LiveBalance = None\<rparr>"

definition rebase_calls :: "(env \<times> rebase_call) list" where
  "rebase_calls = [(signed_env [Address 5] 1, VDeposit (Address 5) 100), (signed_env [] 2, VRebase (Address 6) (- 50)),
     (signed_env [Address 5] 3, VWithdraw (Address 5) 100)]"

text \<open>
  Solvency of the share vault (\<^verbatim>\<open>rebasing_token_accounting\<close>): in the repaired vault the live balance goes below
  zero only by a rebase that takes more than there is, never by paying out shares. In the vulnerable one a loss of
  half the tokens is not noticed and the next withdrawal leaves the live balance at minus fifty.
\<close>

theorem rebase_vault_solvent:
  "(0 \<le> rbs_live_balance (run_calls rbs_exec xs rb_empty)
     \<or> (\<exists>ys e a d zs. xs = ys @ (e, VRebase a d) # zs \<and> d < - rbs_live_balance (run_calls rbs_exec ys rb_empty)))
   \<and> rb_live_balance (run_calls rb_exec rebase_calls rb_empty) = - 50"
proof
  have empty: "rebase_ok rb_empty"
    by (simp add: rebase_ok_def rb_empty_def rbs_shares_def rbs_live_balance_def)
  show "0 \<le> rbs_live_balance (run_calls rbs_exec xs rb_empty)
     \<or> (\<exists>ys e a d zs. xs = ys @ (e, VRebase a d) # zs \<and> d < - rbs_live_balance (run_calls rbs_exec ys rb_empty))"
  proof (cases "rebase_ok (run_calls rbs_exec xs rb_empty)")
    case True
    then show ?thesis by (simp add: rebase_ok_def)
  next
    case False
    with empty have "\<not> (rebase_ok rb_empty \<longrightarrow> rebase_ok (run_calls rbs_exec xs rb_empty))" by simp
    from rebase_solvent.run_guard [OF this] show ?thesis by blast
  qed
  show "rb_live_balance (run_calls rb_exec rebase_calls rb_empty) = - 50"
    by (simp add: rebase_calls_def rb_empty_def rb_deposit_def rb_withdraw_def rb_vulnerable_entry_def rb_live_balance_def signed_env_def
        checked_add_def checked_sub_def checked_mul_def checked_div_def checked_def in_range_def signed_divide_int_def Let_def)
qed

section \<open>fee\_on\_transfer\<close>

record fee_vault =
  fv_Balance :: "address \<rightharpoonup> int"
  fv_Token :: "address option"

definition fot_initialize :: "env \<Rightarrow> address \<Rightarrow> fee_vault \<times> 'w \<Rightarrow> (fee_vault \<times> 'w) result" where
  "fot_initialize e tok = (\<lambda>(s, w). Ok (s\<lparr>fv_Token := Some tok\<rparr>, w))"

definition fot_deposit :: "'w token_client \<Rightarrow> env \<Rightarrow> address \<Rightarrow> int \<Rightarrow> fee_vault \<times> 'w \<Rightarrow> (fee_vault \<times> 'w) result" where
  "fot_deposit tk e user amount = (\<lambda>(s, w).
     require_auth e user (
     unwrap (fv_Token s) (\<lambda>tok.
     and_then (tk_transfer tk tok user (current_contract e) amount w) (\<lambda>w1.
     let current = get0 (fv_Balance s) user in
     arith (checked_add I128 current amount) (\<lambda>n. Ok (s\<lparr>fv_Balance := (fv_Balance s)(user \<mapsto> n)\<rparr>, w1))))))"

definition fot_balance :: "fee_vault \<Rightarrow> address \<Rightarrow> int" where
  "fot_balance s user = get0 (fv_Balance s) user"

definition fots_initialize :: "env \<Rightarrow> address \<Rightarrow> fee_vault \<times> 'w \<Rightarrow> (fee_vault \<times> 'w) result" where
  "fots_initialize e tok = (\<lambda>(s, w). Ok (s\<lparr>fv_Token := Some tok\<rparr>, w))"

definition fots_deposit :: "'w token_client \<Rightarrow> env \<Rightarrow> address \<Rightarrow> int \<Rightarrow> fee_vault \<times> 'w \<Rightarrow> (fee_vault \<times> 'w) result" where
  "fots_deposit tk e user amount = (\<lambda>(s, w).
     require_auth e user (
     unwrap (fv_Token s) (\<lambda>tok.
     let pre_balance = tk_balance tk tok (current_contract e) w in
     and_then (tk_transfer tk tok user (current_contract e) amount w) (\<lambda>w1.
     let post_balance = tk_balance tk tok (current_contract e) w1 in
     arith (checked_sub I128 post_balance pre_balance) (\<lambda>actual_received.
     let current = get0 (fv_Balance s) user in
     arith (checked_add I128 current actual_received) (\<lambda>n. Ok (s\<lparr>fv_Balance := (fv_Balance s)(user \<mapsto> n)\<rparr>, w1)))))))"

definition fots_balance :: "fee_vault \<Rightarrow> address \<Rightarrow> int" where
  "fots_balance s user = get0 (fv_Balance s) user"

text \<open>Deposits into the deployment at \<open>v\<close>, for a token fixed beforehand.\<close>

definition fots_exec :: "'w token_client \<Rightarrow> address \<Rightarrow> env \<Rightarrow> address \<times> int \<Rightarrow> fee_vault \<times> 'w \<Rightarrow> (fee_vault \<times> 'w) result" where
  "fots_exec tk v e c x = fots_deposit tk (e\<lparr>current_contract := v\<rparr>) (fst c) (snd c) x"

definition holds_token :: "address \<Rightarrow> fee_vault \<times> 'w \<Rightarrow> bool" where
  "holds_token t x \<longleftrightarrow> fv_Token (fst x) = Some t \<and> finite (dom (fv_Balance (fst x)))"

definition uncovered :: "'w token_client \<Rightarrow> address \<Rightarrow> address \<Rightarrow> fee_vault \<times> 'w \<Rightarrow> int" where
  "uncovered tk v t x = sum_bal (fv_Balance (fst x)) - tk_balance tk t v (snd x)"

interpretation received_only: conserved_flow "fots_exec tk v" "holds_token t" "uncovered tk v t" "\<lambda>e c x. 0"
  for tk v t
proof (unfold_locales, goal_cases)
  case (1 x e c x')
  then show ?case
    by (cases x) (auto simp: fots_exec_def fots_deposit_def holds_token_def result_simps int_simps Let_def)
next
  case (2 x e c x')
  then show ?case
    by (cases x) (auto simp: fots_exec_def fots_deposit_def holds_token_def uncovered_def result_simps int_simps Let_def sum_bal_update)
qed

text \<open>
  Crediting what arrived (\<^verbatim>\<open>fee_on_transfer/src/secure.rs\<close>): whatever the token does with a transfer (keep a fee, move
  nothing, pay a bonus), the sum of the records and the vault's holdings move by the same amount with every deposit.
\<close>

theorem credits_what_arrived:
  assumes "holds_token t (s, w)"
  shows "uncovered tk v t (run_calls (fots_exec tk v) xs (s, w)) = uncovered tk v t (s, w)"
  using received_only.run_conserves [OF assms, of tk v xs] by (simp add: run_flow_zero)

definition fee_demo :: fee_vault where
  "fee_demo = \<lparr>fv_Balance = Map.empty, fv_Token = Some (Address 8)\<rparr>"

definition fee_world :: "address \<Rightarrow> address \<rightharpoonup> int" where
  "fee_world t = [Address 5 \<mapsto> 1000]"

theorem credits_what_arrived_witness:
  "uncovered fee_tokens (Address 99) (Address 8) (run_calls (fots_exec fee_tokens (Address 99)) [(signed_env [Address 5] 1, (Address 5, 100))] (fee_demo, fee_world))
     = uncovered fee_tokens (Address 99) (Address 8) (fee_demo, fee_world)"
  by (rule credits_what_arrived) (simp add: holds_token_def fee_demo_def)

text \<open>The vulnerable vault credits a hundred where ninety arrived.\<close>

lemma fee_not_noticed:
  "\<exists>x. fot_deposit fee_tokens (signed_env [Address 5] 1) (Address 5) 100 (fee_demo, fee_world) = Ok x
     \<and> fot_balance (fst x) (Address 5) = 100 \<and> tk_balance fee_tokens (Address 8) (Address 99) (snd x) = 90"
  by (simp add: fot_deposit_def fot_balance_def fee_demo_def fee_world_def fee_tokens_def fee_transfer_def fee_balance_def signed_env_def
      checked_add_def checked_sub_def checked_mul_def checked_div_def checked_def in_range_def signed_divide_int_def Let_def)

section \<open>unwrap\_without\_burn\<close>

record wrapper =
  wr_UnderlyingToken :: "address option"
  wr_WrapperBalance :: "address \<rightharpoonup> int"
  wr_TotalSupply :: "int option"
  wr_CustodyBalance :: "int option"

definition uw_initialize :: "env \<Rightarrow> address \<Rightarrow> wrapper \<times> 'w \<Rightarrow> (wrapper \<times> 'w) result" where
  "uw_initialize e underlying_token = (\<lambda>(s, w).
     panic_if (wr_UnderlyingToken s \<noteq> None) ''already initialized'' (
     Ok (s\<lparr>wr_UnderlyingToken := Some underlying_token, wr_TotalSupply := Some 0, wr_CustodyBalance := Some 0\<rparr>, w)))"

definition uw_wrap :: "'w token_client \<Rightarrow> env \<Rightarrow> address \<Rightarrow> int \<Rightarrow> wrapper \<times> 'w \<Rightarrow> (wrapper \<times> 'w) result" where
  "uw_wrap tk e user amount = (\<lambda>(s, w).
     require_auth e user (
     panic_if (amount \<le> 0) ''amount must be positive'' (
     expect (wr_UnderlyingToken s) ''not initialized'' (\<lambda>underlying_token.
     and_then (tk_transfer tk underlying_token user (current_contract e) amount w) (\<lambda>w1.
     arith (checked_add I128 (get0 (wr_WrapperBalance s) user) amount) (\<lambda>b.
     arith (checked_add I128 (unwrap_or (wr_TotalSupply s) 0) amount) (\<lambda>ts.
     arith (checked_add I128 (unwrap_or (wr_CustodyBalance s) 0) amount) (\<lambda>cb.
     Ok (s\<lparr>wr_WrapperBalance := (wr_WrapperBalance s)(user \<mapsto> b), wr_TotalSupply := Some ts, wr_CustodyBalance := Some cb\<rparr>, w1)))))))))"

definition uw_unwrap :: "'w token_client \<Rightarrow> env \<Rightarrow> address \<Rightarrow> int \<Rightarrow> wrapper \<times> 'w \<Rightarrow> (wrapper \<times> 'w) result" where
  "uw_unwrap tk e user amount = (\<lambda>(s, w).
     require_auth e user (
     panic_if (amount \<le> 0) ''amount must be positive'' (
     let current_balance = get0 (wr_WrapperBalance s) user in
     panic_if (current_balance < amount) ''insufficient wrapper balance'' (
     let custody = unwrap_or (wr_CustodyBalance s) 0 in
     panic_if (custody < amount) ''insufficient custody balance'' (
     expect (wr_UnderlyingToken s) ''not initialized'' (\<lambda>underlying_token.
     and_then (tk_transfer tk underlying_token (current_contract e) user amount w) (\<lambda>w1.
     arith (checked_sub I128 custody amount) (\<lambda>cb. Ok (s\<lparr>wr_CustodyBalance := Some cb\<rparr>, w1)))))))))"

definition uw_balance :: "wrapper \<Rightarrow> address \<Rightarrow> int" where
  "uw_balance s user = get0 (wr_WrapperBalance s) user"

definition uw_total_supply :: "wrapper \<Rightarrow> int" where
  "uw_total_supply s = unwrap_or (wr_TotalSupply s) 0"

definition uw_custody_balance :: "wrapper \<Rightarrow> int" where
  "uw_custody_balance s = unwrap_or (wr_CustodyBalance s) 0"

definition uws_initialize :: "env \<Rightarrow> address \<Rightarrow> wrapper \<times> 'w \<Rightarrow> (wrapper \<times> 'w) result" where
  "uws_initialize e underlying_token = (\<lambda>(s, w).
     panic_if (wr_UnderlyingToken s \<noteq> None) ''already initialized'' (
     Ok (s\<lparr>wr_UnderlyingToken := Some underlying_token, wr_TotalSupply := Some 0, wr_CustodyBalance := Some 0\<rparr>, w)))"

definition uws_wrap :: "'w token_client \<Rightarrow> env \<Rightarrow> address \<Rightarrow> int \<Rightarrow> wrapper \<times> 'w \<Rightarrow> (wrapper \<times> 'w) result" where
  "uws_wrap tk e user amount = (\<lambda>(s, w).
     require_auth e user (
     panic_if (amount \<le> 0) ''amount must be positive'' (
     expect (wr_UnderlyingToken s) ''not initialized'' (\<lambda>underlying_token.
     and_then (tk_transfer tk underlying_token user (current_contract e) amount w) (\<lambda>w1.
     arith (checked_add I128 (get0 (wr_WrapperBalance s) user) amount) (\<lambda>b.
     arith (checked_add I128 (unwrap_or (wr_TotalSupply s) 0) amount) (\<lambda>ts.
     arith (checked_add I128 (unwrap_or (wr_CustodyBalance s) 0) amount) (\<lambda>cb.
     Ok (s\<lparr>wr_WrapperBalance := (wr_WrapperBalance s)(user \<mapsto> b), wr_TotalSupply := Some ts, wr_CustodyBalance := Some cb\<rparr>, w1)))))))))"

definition uws_unwrap :: "'w token_client \<Rightarrow> env \<Rightarrow> address \<Rightarrow> int \<Rightarrow> wrapper \<times> 'w \<Rightarrow> (wrapper \<times> 'w) result" where
  "uws_unwrap tk e user amount = (\<lambda>(s, w).
     require_auth e user (
     panic_if (amount \<le> 0) ''amount must be positive'' (
     let current_balance = get0 (wr_WrapperBalance s) user in
     panic_if (current_balance < amount) ''insufficient wrapper balance'' (
     let custody = unwrap_or (wr_CustodyBalance s) 0 in
     panic_if (custody < amount) ''insufficient custody balance'' (
     arith (checked_sub I128 current_balance amount) (\<lambda>b.
     arith (checked_sub I128 (unwrap_or (wr_TotalSupply s) 0) amount) (\<lambda>ts.
     arith (checked_sub I128 custody amount) (\<lambda>cb.
     let s1 = s\<lparr>wr_WrapperBalance := (wr_WrapperBalance s)(user \<mapsto> b), wr_TotalSupply := Some ts, wr_CustodyBalance := Some cb\<rparr> in
     expect (wr_UnderlyingToken s1) ''not initialized'' (\<lambda>underlying_token.
     and_then (tk_transfer tk underlying_token (current_contract e) user amount w) (\<lambda>w1. Ok (s1, w1)))))))))))"

definition uws_balance :: "wrapper \<Rightarrow> address \<Rightarrow> int" where
  "uws_balance s user = get0 (wr_WrapperBalance s) user"

definition uws_total_supply :: "wrapper \<Rightarrow> int" where
  "uws_total_supply s = unwrap_or (wr_TotalSupply s) 0"

definition uws_custody_balance :: "wrapper \<Rightarrow> int" where
  "uws_custody_balance s = unwrap_or (wr_CustodyBalance s) 0"

datatype wrap_call = UInit address | UWrap address int | UUnwrap address int

fun uws_exec :: "'w token_client \<Rightarrow> address \<Rightarrow> env \<Rightarrow> wrap_call \<Rightarrow> wrapper \<times> 'w \<Rightarrow> (wrapper \<times> 'w) result" where
  "uws_exec tk v e (UInit t) x = uws_initialize (e\<lparr>current_contract := v\<rparr>) t x"
| "uws_exec tk v e (UWrap a n) x = uws_wrap tk (e\<lparr>current_contract := v\<rparr>) a n x"
| "uws_exec tk v e (UUnwrap a n) x = uws_unwrap tk (e\<lparr>current_contract := v\<rparr>) a n x"

definition wrapper_ok :: "wrapper \<times> 'w \<Rightarrow> bool" where
  "wrapper_ok x \<longleftrightarrow> finite (dom (wr_WrapperBalance (fst x))) \<and> (\<forall>a. 0 \<le> uws_balance (fst x) a)
     \<and> sum_bal (wr_WrapperBalance (fst x)) = uws_total_supply (fst x) \<and> uws_custody_balance (fst x) = uws_total_supply (fst x)
     \<and> (wr_UnderlyingToken (fst x) = None \<longrightarrow> uws_total_supply (fst x) = 0)"

lemmas uws_defs = uws_initialize_def uws_wrap_def uws_unwrap_def Let_def
lemmas uws_views = uws_balance_def uws_total_supply_def uws_custody_balance_def

interpretation wrapper_backed: contract_invariant "uws_exec tk v" wrapper_ok
  for tk v
proof (unfold_locales, goal_cases)
  case (1 x e c x')
  then show ?case
    by (cases c; cases x) (auto simp: uws_defs uws_views wrapper_ok_def result_simps int_simps sum_bal_update)
qed

text \<open>The holdings of the wrapper at \<open>v\<close> in the underlying token \<open>t\<close>, over what the wrapper counts.\<close>

definition wraps :: "address \<Rightarrow> wrapper \<times> 'w \<Rightarrow> bool" where
  "wraps t x \<longleftrightarrow> wr_UnderlyingToken (fst x) = Some t"

definition surplus :: "'w token_client \<Rightarrow> address \<Rightarrow> address \<Rightarrow> wrapper \<times> 'w \<Rightarrow> int" where
  "surplus tk v t x = tk_balance tk t v (snd x) - uws_custody_balance (fst x)"

fun wrapped_by_itself :: "address \<Rightarrow> env \<Rightarrow> wrap_call \<Rightarrow> wrapper \<times> 'w \<Rightarrow> int" where
  "wrapped_by_itself v e (UWrap a n) x = (if a = v then - n else 0)"
| "wrapped_by_itself v e (UUnwrap a n) x = (if a = v then n else 0)"
| "wrapped_by_itself v e c x = 0"

context sound_tokens
begin

lemma wrapper_step:
  assumes "wraps t x" and "uws_exec tk v e c x = Ok x'"
  shows "wraps t x' \<and> surplus tk v t x' = surplus tk v t x + wrapped_by_itself v e c x"
  using assms
  by (cases c; cases x) (auto simp: uws_defs uws_views wraps_def surplus_def result_simps int_simps transfer_moves)

end

sublocale sound_tokens \<subseteq> wrapped: conserved_flow "uws_exec tk v" "wraps t" "surplus tk v t" "wrapped_by_itself v"
  for v t
  by unfold_locales (simp_all add: wrapper_step)

text \<open>
  The wrapper (\<^verbatim>\<open>unwrap_without_burn/src/secure.rs\<close>): in every run from deployment, whatever the underlying token
  does, the wrapped balances are non-negative and add up to the supply, and the supply is the custody counter. If the
  underlying is the plain token, that counter also moves exactly with what the wrapper holds, apart from
  calls it would have to sign itself.
\<close>

theorem wrapper_fully_backed:
  assumes "wrapper_ok (s, w)"
  shows "sum_bal (wr_WrapperBalance (fst (run_calls (uws_exec tk v) xs (s, w)))) = uws_custody_balance (fst (run_calls (uws_exec tk v) xs (s, w)))
    \<and> uws_total_supply (fst (run_calls (uws_exec tk v) xs (s, w))) = uws_custody_balance (fst (run_calls (uws_exec tk v) xs (s, w)))
    \<and> (wr_UnderlyingToken s = Some t \<longrightarrow> surplus std_tokens v t (run_calls (uws_exec std_tokens v) ys (s, u))
        = surplus std_tokens v t (s, u) + run_flow (uws_exec std_tokens v) (wrapped_by_itself v) ys (s, u))"
  using wrapper_backed.run_inv [OF assms, of tk v xs] std_tokens.wrapped.run_conserves [of t "(s, u)" v ys]
  by (simp add: wrapper_ok_def wraps_def)

definition wrapper_demo :: wrapper where
  "wrapper_demo = \<lparr>wr_UnderlyingToken = Some (Address 8), wr_WrapperBalance = [Address 5 \<mapsto> 40], wr_TotalSupply = Some 40, wr_CustodyBalance = Some 40\<rparr>"

theorem wrapper_fully_backed_witness:
  "wrapper_ok (wrapper_demo, fee_world)
   \<and> surplus std_tokens (Address 99) (Address 8) (run_calls (uws_exec std_tokens (Address 99)) [(signed_env [Address 5] 1, UWrap (Address 5) 10)] (wrapper_demo, fee_world)) = - 40"
proof -
  have ok: "wrapper_ok (wrapper_demo, fee_world)"
    by (simp add: wrapper_ok_def wrapper_demo_def uws_views sum_bal_def)
  have "run_flow (uws_exec std_tokens (Address 99)) (wrapped_by_itself (Address 99)) [(signed_env [Address 5] 1, UWrap (Address 5) 10)] (wrapper_demo, fee_world) = 0"
    by (simp split: sum.splits)
  with wrapper_fully_backed [OF ok, of fee_tokens "Address 99" "[]" "Address 8" "[(signed_env [Address 5] 1, UWrap (Address 5) 10)]" fee_world] ok
  show ?thesis
    by (simp add: wrapper_demo_def surplus_def uws_views std_tokens_def std_balance_def fee_world_def)
qed

text \<open>In the vulnerable wrapper a holder takes his share of the custody again and again, as the shares stay.\<close>

lemma unwrap_keeps_shares:
  assumes "uw_unwrap tk e a n (s, w) = Ok (s', w')"
  shows "uw_balance s' a = uw_balance s a \<and> uw_total_supply s' = uw_total_supply s \<and> uw_custody_balance s' = uw_custody_balance s - n"
  using assms by (auto simp: uw_unwrap_def uw_balance_def uw_total_supply_def uw_custody_balance_def result_simps int_simps Let_def)

section \<open>fake\_token\_registration\<close>

record token_metadata =
  tm_token_address :: address
  tm_symbol :: string
  tm_decimals :: int
  tm_registered_by :: address
  tm_timestamp :: int

record token_registry =
  tr_Admin :: "address option"
  tr_Token :: "address \<rightharpoonup> token_metadata"
  tr_Symbol :: "string \<rightharpoonup> address"

definition ftr_initialize :: "env \<Rightarrow> address \<Rightarrow> token_registry \<Rightarrow> token_registry result" where
  "ftr_initialize e admin s =
     panic_if (tr_Admin s \<noteq> None) ''already initialized'' (Ok (s\<lparr>tr_Admin := Some admin\<rparr>))"

definition ftr_require_admin :: "env \<Rightarrow> token_registry \<Rightarrow> 'a result \<Rightarrow> 'a result" where
  "ftr_require_admin e s k = expect (tr_Admin s) ''not initialized'' (\<lambda>admin. require_auth e admin k)"

definition ftr_register_token :: "env \<Rightarrow> address \<Rightarrow> string \<Rightarrow> int \<Rightarrow> address \<Rightarrow> token_registry \<Rightarrow> token_registry result" where
  "ftr_register_token e token_address symbol decimals caller s =
     require_auth e caller (
     let metadata = \<lparr>tm_token_address = token_address, tm_symbol = symbol, tm_decimals = decimals, tm_registered_by = caller,
                     tm_timestamp = timestamp e\<rparr> in
     Ok (s\<lparr>tr_Token := (tr_Token s)(token_address \<mapsto> metadata)\<rparr>))"

definition ftr_get_token :: "token_registry \<Rightarrow> address \<Rightarrow> token_metadata option" where
  "ftr_get_token s token_address = tr_Token s token_address"

definition ftr_is_registered :: "token_registry \<Rightarrow> address \<Rightarrow> bool" where
  "ftr_is_registered s token_address \<longleftrightarrow> tr_Token s token_address \<noteq> None"

definition ftr_remove_token :: "env \<Rightarrow> address \<Rightarrow> token_registry \<Rightarrow> token_registry result" where
  "ftr_remove_token e token_address s =
     ftr_require_admin e s (Ok (s\<lparr>tr_Token := (tr_Token s)(token_address := None)\<rparr>))"

definition ftrs_initialize :: "env \<Rightarrow> address \<Rightarrow> token_registry \<Rightarrow> token_registry result" where
  "ftrs_initialize e admin s =
     panic_if (tr_Admin s \<noteq> None) ''already initialized'' (Ok (s\<lparr>tr_Admin := Some admin\<rparr>))"

definition ftrs_require_admin :: "env \<Rightarrow> token_registry \<Rightarrow> 'a result \<Rightarrow> 'a result" where
  "ftrs_require_admin e s k = expect (tr_Admin s) ''not initialized'' (\<lambda>admin. require_auth e admin k)"

definition ftrs_get_admin :: "token_registry \<Rightarrow> (address \<Rightarrow> 'a result) \<Rightarrow> 'a result" where
  "ftrs_get_admin s k = expect (tr_Admin s) ''not initialized'' k"

definition symbol_exists :: "token_registry \<Rightarrow> string \<Rightarrow> bool" where
  "symbol_exists s symbol \<longleftrightarrow> tr_Symbol s symbol \<noteq> None"

definition ftrs_register_token :: "env \<Rightarrow> address \<Rightarrow> string \<Rightarrow> int \<Rightarrow> token_registry \<Rightarrow> token_registry result" where
  "ftrs_register_token e token_address symbol decimals s =
     ftrs_require_admin e s (
     panic_if (tr_Token s token_address \<noteq> None) ''token already registered'' (
     panic_if (symbol_exists s symbol) ''symbol already in use'' (
     ftrs_get_admin s (\<lambda>admin.
     let metadata = \<lparr>tm_token_address = token_address, tm_symbol = symbol, tm_decimals = decimals, tm_registered_by = admin,
                     tm_timestamp = timestamp e\<rparr> in
     Ok (s\<lparr>tr_Token := (tr_Token s)(token_address \<mapsto> metadata), tr_Symbol := (tr_Symbol s)(symbol \<mapsto> token_address)\<rparr>)))))"

definition ftrs_get_token :: "token_registry \<Rightarrow> address \<Rightarrow> token_metadata option" where
  "ftrs_get_token s token_address = tr_Token s token_address"

definition ftrs_is_registered :: "token_registry \<Rightarrow> address \<Rightarrow> bool" where
  "ftrs_is_registered s token_address \<longleftrightarrow> tr_Token s token_address \<noteq> None"

definition ftrs_remove_token :: "env \<Rightarrow> address \<Rightarrow> token_registry \<Rightarrow> token_registry result" where
  "ftrs_remove_token e token_address s =
     ftrs_require_admin e s (
     let s1 = (case tr_Token s token_address of
                 None \<Rightarrow> s
               | Some metadata \<Rightarrow> s\<lparr>tr_Symbol := (tr_Symbol s)(tm_symbol metadata := None)\<rparr>) in
     Ok (s1\<lparr>tr_Token := (tr_Token s1)(token_address := None)\<rparr>))"

datatype token_reg_call = GInit address | GRegister address string int | GRemove address

fun ftrs_exec :: "env \<Rightarrow> token_reg_call \<Rightarrow> token_registry \<Rightarrow> token_registry result" where
  "ftrs_exec e (GInit a) s = ftrs_initialize e a s"
| "ftrs_exec e (GRegister t sy d) s = ftrs_register_token e t sy d s"
| "ftrs_exec e (GRemove t) s = ftrs_remove_token e t s"

text \<open>The two maps mirror each other, and every entry names the admin, who cannot be replaced.\<close>

definition symbols_ok :: "token_registry \<Rightarrow> bool" where
  "symbols_ok s \<longleftrightarrow> (\<forall>sy t. tr_Symbol s sy = Some t \<longleftrightarrow> (\<exists>m. ftrs_get_token s t = Some m \<and> tm_symbol m = sy))
     \<and> (\<forall>t m. ftrs_get_token s t = Some m \<longrightarrow> tm_token_address m = t \<and> tr_Admin s = Some (tm_registered_by m))"

lemmas ftrs_defs = ftrs_initialize_def ftrs_register_token_def ftrs_remove_token_def ftrs_require_admin_def ftrs_get_admin_def
  symbol_exists_def ftrs_get_token_def Let_def

lemma register_symbols_ok:
  assumes ok: "symbols_ok s" and "ftrs_register_token e t sy d s = Ok s'"
  shows "symbols_ok s'"
proof -
  obtain adm where "tr_Token s t = None" "tr_Symbol s sy = None" "tr_Admin s = Some adm"
    and s': "s' = s\<lparr>tr_Token := (tr_Token s)(t \<mapsto> \<lparr>tm_token_address = t, tm_symbol = sy, tm_decimals = d, tm_registered_by = adm,
        tm_timestamp = timestamp e\<rparr>), tr_Symbol := (tr_Symbol s)(sy \<mapsto> t)\<rparr>"
    using assms(2) by (auto simp: ftrs_defs result_simps)
  with ok show ?thesis
    unfolding symbols_ok_def s' ftrs_get_token_def by (auto split: if_splits) (metis option.distinct(1))+
qed

lemma remove_symbols_ok:
  assumes ok: "symbols_ok s" and "ftrs_remove_token e t s = Ok s'"
  shows "symbols_ok s'"
proof (cases "tr_Token s t")
  case None
  then have "(tr_Token s)(t := None) = tr_Token s" by auto
  with None assms(2) have "s' = s" by (auto simp: ftrs_defs result_simps)
  with ok show ?thesis by simp
next
  case (Some m)
  with assms(2) have s': "s' = s\<lparr>tr_Symbol := (tr_Symbol s)(tm_symbol m := None), tr_Token := (tr_Token s)(t := None)\<rparr>"
    by (auto simp: ftrs_defs result_simps)
  from ok Some show ?thesis
    unfolding symbols_ok_def s' ftrs_get_token_def by auto (metis option.inject)+
qed

interpretation unique_symbols: contract_invariant ftrs_exec symbols_ok
proof (unfold_locales, goal_cases)
  case (1 s e c s')
  show ?case
  proof (cases c)
    case (GInit a)
    with 1 show ?thesis by (auto simp: ftrs_initialize_def result_simps symbols_ok_def ftrs_get_token_def)
  next
    case (GRegister t sy d)
    with 1 show ?thesis by (auto intro: register_symbols_ok)
  next
    case (GRemove t)
    with 1 show ?thesis by (auto intro: remove_symbols_ok)
  qed
qed

definition token_registry_empty :: token_registry where
  "token_registry_empty = \<lparr>tr_Admin = None, tr_Token = Map.empty, tr_Symbol = Map.empty\<rparr>"

text \<open>
  The repaired registry (\<^verbatim>\<open>fake_token_registration/src/secure.rs\<close>): in every run no two registered tokens have the
  same symbol, every entry is for its own address, and it was registered by the admin.
\<close>

theorem registered_symbols_unique:
  assumes "ftrs_get_token (run_calls ftrs_exec xs token_registry_empty) t = Some m"
    and "ftrs_get_token (run_calls ftrs_exec xs token_registry_empty) t' = Some m'" and "tm_symbol m = tm_symbol m'"
  shows "t = t' \<and> m = m' \<and> tm_token_address m = t \<and> tr_Admin (run_calls ftrs_exec xs token_registry_empty) = Some (tm_registered_by m)"
proof -
  have "symbols_ok (run_calls ftrs_exec xs token_registry_empty)"
    by (rule unique_symbols.run_inv) (simp add: symbols_ok_def token_registry_empty_def ftrs_get_token_def)
  then have "tr_Symbol (run_calls ftrs_exec xs token_registry_empty) (tm_symbol m) = Some t"
    "tr_Symbol (run_calls ftrs_exec xs token_registry_empty) (tm_symbol m) = Some t'"
    "tm_token_address m = t \<and> tr_Admin (run_calls ftrs_exec xs token_registry_empty) = Some (tm_registered_by m)"
    using assms by (auto simp: symbols_ok_def)
  with assms show ?thesis by simp
qed

definition reg_demo_calls :: "(env \<times> token_reg_call) list" where
  "reg_demo_calls = [(signed_env [] 1, GInit (Address 2)), (signed_env [Address 2] 2, GRegister (Address 8) ''USDC'' 7),
     (signed_env [Address 2] 3, GRegister (Address 9) ''USDC'' 7)]"

theorem registered_symbols_unique_witness:
  "tr_Admin (run_calls ftrs_exec reg_demo_calls token_registry_empty) = Some (Address 2)
   \<and> ftrs_get_token (run_calls ftrs_exec reg_demo_calls token_registry_empty) (Address 9) = None"
proof -
  let ?m = "\<lparr>tm_token_address = Address 8, tm_symbol = ''USDC'', tm_decimals = 7, tm_registered_by = Address 2, tm_timestamp = 10\<rparr>"
  have "ftrs_get_token (run_calls ftrs_exec reg_demo_calls token_registry_empty) (Address 8) = Some ?m"
    "ftrs_get_token (run_calls ftrs_exec reg_demo_calls token_registry_empty) (Address 9) = None"
    by (simp_all add: reg_demo_calls_def token_registry_empty_def ftrs_defs signed_env_def)
  with registered_symbols_unique [OF this(1) this(1)] show ?thesis by simp
qed

text \<open>In the vulnerable registry anyone replaces an entry.\<close>

lemma registration_replaced:
  "authorized e a \<Longrightarrow> \<exists>s' m. ftr_register_token e t sy d a s = Ok s' \<and> ftr_get_token s' t = Some m \<and> tm_symbol m = sy \<and> tm_registered_by m = a"
  by (simp add: ftr_register_token_def ftr_get_token_def)

section \<open>wrapped\_asset\_allowlist\_bypass\<close>

record allow_vault =
  av_Admin :: "address option"
  av_AllowedToken :: "address \<rightharpoonup> bool"
  av_WrapperAsset :: "address \<rightharpoonup> address"
  av_Balance :: "address \<rightharpoonup> int"

definition wal_initialize :: "env \<Rightarrow> address \<Rightarrow> allow_vault \<Rightarrow> allow_vault result" where
  "wal_initialize e admin s =
     panic_if (av_Admin s \<noteq> None) ''already initialized'' (Ok (s\<lparr>av_Admin := Some admin\<rparr>))"

definition wal_require_admin :: "env \<Rightarrow> allow_vault \<Rightarrow> 'a result \<Rightarrow> 'a result" where
  "wal_require_admin e s k = expect (av_Admin s) ''not initialized'' (\<lambda>admin. require_auth e admin k)"

definition wal_allow_token :: "env \<Rightarrow> address \<Rightarrow> allow_vault \<Rightarrow> allow_vault result" where
  "wal_allow_token e tok s =
     wal_require_admin e s (Ok (s\<lparr>av_AllowedToken := (av_AllowedToken s)(tok \<mapsto> True)\<rparr>))"

definition wal_register_wrapper :: "env \<Rightarrow> address \<Rightarrow> address \<Rightarrow> allow_vault \<Rightarrow> allow_vault result" where
  "wal_register_wrapper e wrapper underlying s =
     Ok (s\<lparr>av_WrapperAsset := (av_WrapperAsset s)(wrapper \<mapsto> underlying)\<rparr>)"

definition wal_deposit :: "env \<Rightarrow> address \<Rightarrow> address \<Rightarrow> int \<Rightarrow> allow_vault \<Rightarrow> allow_vault result" where
  "wal_deposit e actor wrapper amount s =
     require_auth e actor (
     panic_if (amount \<le> 0) ''amount must be positive'' (
     let approved = unwrap_or (av_AllowedToken s wrapper) False in
     panic_if (\<not> approved) ''token not allowed'' (
     arith (checked_add I128 (get0 (av_Balance s) actor) amount) (\<lambda>n.
     Ok (s\<lparr>av_Balance := (av_Balance s)(actor \<mapsto> n)\<rparr>)))))"

definition wal_balance :: "allow_vault \<Rightarrow> address \<Rightarrow> int" where
  "wal_balance s account = get0 (av_Balance s) account"

definition wals_initialize :: "env \<Rightarrow> address \<Rightarrow> allow_vault \<Rightarrow> allow_vault result" where
  "wals_initialize e admin s =
     panic_if (av_Admin s \<noteq> None) ''already initialized'' (Ok (s\<lparr>av_Admin := Some admin\<rparr>))"

definition wals_allow_token :: "env \<Rightarrow> address \<Rightarrow> allow_vault \<Rightarrow> allow_vault result" where
  "wals_allow_token e tok s =
     wal_require_admin e s (Ok (s\<lparr>av_AllowedToken := (av_AllowedToken s)(tok \<mapsto> True)\<rparr>))"

definition wals_register_wrapper :: "env \<Rightarrow> address \<Rightarrow> address \<Rightarrow> allow_vault \<Rightarrow> allow_vault result" where
  "wals_register_wrapper e wrapper underlying s =
     panic_if (\<not> unwrap_or (av_AllowedToken s underlying) False) ''underlying asset not allowed'' (
     Ok (s\<lparr>av_WrapperAsset := (av_WrapperAsset s)(wrapper \<mapsto> underlying)\<rparr>))"

definition wals_deposit :: "env \<Rightarrow> address \<Rightarrow> address \<Rightarrow> int \<Rightarrow> allow_vault \<Rightarrow> allow_vault result" where
  "wals_deposit e actor wrapper amount s =
     require_auth e actor (
     panic_if (amount \<le> 0) ''amount must be positive'' (
     expect (av_WrapperAsset s wrapper) ''wrapper not registered'' (\<lambda>underlying.
     panic_if (\<not> unwrap_or (av_AllowedToken s underlying) False) ''underlying asset not allowed'' (
     arith (checked_add I128 (get0 (av_Balance s) actor) amount) (\<lambda>n.
     Ok (s\<lparr>av_Balance := (av_Balance s)(actor \<mapsto> n)\<rparr>))))))"

definition wals_balance :: "allow_vault \<Rightarrow> address \<Rightarrow> int" where
  "wals_balance s account = get0 (av_Balance s) account"

text \<open>
  The repaired vault looks at the underlying asset, but anyone names it: as soon as one token is allowed, a
  fresh wrapper is registered for it without a signature, and deposits of that wrapper are credited.
\<close>

theorem allowlist_still_bypassed:
  assumes "av_AllowedToken s good = Some True" and "authorized e a" and "0 < n" and "in_range I128 (wals_balance s a + n)"
  shows "\<exists>s1 s2. wals_register_wrapper e' fake good s = Ok s1 \<and> wals_deposit e a fake n s1 = Ok s2 \<and> wals_balance s2 a = wals_balance s a + n"
  using assms by (simp add: wals_register_wrapper_def wals_deposit_def wals_balance_def checked_add_def)

theorem allowlist_still_bypassed_witness:
  "\<exists>s1 s2. wals_register_wrapper (signed_env [] 1) (Address 9) (Address 8)
       \<lparr>av_Admin = None, av_AllowedToken = [Address 8 \<mapsto> True], av_WrapperAsset = Map.empty, av_Balance = Map.empty\<rparr> = Ok s1
     \<and> wals_deposit (signed_env [Address 5] 1) (Address 5) (Address 9) 10 s1 = Ok s2 \<and> wals_balance s2 (Address 5) = 10"
  using allowlist_still_bypassed [of "\<lparr>av_Admin = None, av_AllowedToken = [Address 8 \<mapsto> True], av_WrapperAsset = Map.empty, av_Balance = Map.empty\<rparr>"
      "Address 8" "signed_env [Address 5] 1" "Address 5" 10 "signed_env [] 1" "Address 9"]
  by (simp add: signed_env_def wals_balance_def in_range_def)

section \<open>ignored\_return\<close>

record pay_escrow =
  py_TokenId :: "address option"
  py_Recipient :: "address option"
  py_Amount :: "int option"
  py_Released :: "bool option"
  py_Owner :: "address option"

definition ir_initialize :: "env \<Rightarrow> address \<Rightarrow> address \<Rightarrow> address \<Rightarrow> int \<Rightarrow> pay_escrow \<times> 'w \<Rightarrow> (pay_escrow \<times> 'w) result" where
  "ir_initialize e owner token_id recipient amount = (\<lambda>(s, w).
     require_auth e owner (
     ensure (py_Released s = None) ''already initialized'' (
     Ok (s\<lparr>py_Owner := Some owner, py_TokenId := Some token_id, py_Recipient := Some recipient, py_Amount := Some amount,
           py_Released := Some False\<rparr>, w))))"

text \<open>
  \<^verbatim>\<open>let _ = client.transfer(..)\<close> drops the unit value of a call that returned. A callee that traps traps the
  caller: only \<^verbatim>\<open>try_transfer\<close> would give a result to ignore.
\<close>

definition ir_release :: "'w token_client \<Rightarrow> env \<Rightarrow> pay_escrow \<times> 'w \<Rightarrow> (pay_escrow \<times> 'w) result" where
  "ir_release tk e = (\<lambda>(s, w).
     unwrap (py_Owner s) (\<lambda>owner.
     require_auth e owner (
     ensure (\<not> unwrap_or (py_Released s) False) ''already released'' (
     unwrap (py_TokenId s) (\<lambda>token_id.
     unwrap (py_Recipient s) (\<lambda>recipient.
     unwrap (py_Amount s) (\<lambda>amount.
     and_then (tk_transfer tk token_id (current_contract e) recipient amount w) (\<lambda>w1.
     Ok (s\<lparr>py_Released := Some True\<rparr>, w1)))))))))"

definition ir_is_released :: "pay_escrow \<Rightarrow> bool" where
  "ir_is_released s = unwrap_or (py_Released s) False"

definition irs_initialize :: "env \<Rightarrow> address \<Rightarrow> address \<Rightarrow> address \<Rightarrow> int \<Rightarrow> pay_escrow \<times> 'w \<Rightarrow> (pay_escrow \<times> 'w) result" where
  "irs_initialize e owner token_id recipient amount = (\<lambda>(s, w).
     require_auth e owner (
     ensure (py_Released s = None) ''already initialized'' (
     Ok (s\<lparr>py_Owner := Some owner, py_TokenId := Some token_id, py_Recipient := Some recipient, py_Amount := Some amount,
           py_Released := Some False\<rparr>, w))))"

definition irs_release :: "'w token_client \<Rightarrow> env \<Rightarrow> pay_escrow \<times> 'w \<Rightarrow> (pay_escrow \<times> 'w) result" where
  "irs_release tk e = (\<lambda>(s, w).
     unwrap (py_Owner s) (\<lambda>owner.
     require_auth e owner (
     ensure (\<not> unwrap_or (py_Released s) False) ''already released'' (
     unwrap (py_TokenId s) (\<lambda>token_id.
     unwrap (py_Recipient s) (\<lambda>recipient.
     unwrap (py_Amount s) (\<lambda>amount.
     and_then (tk_transfer tk token_id (current_contract e) recipient amount w) (\<lambda>w1.
     Ok (s\<lparr>py_Released := Some True\<rparr>, w1)))))))))"

definition irs_is_released :: "pay_escrow \<Rightarrow> bool" where
  "irs_is_released s = unwrap_or (py_Released s) False"

text \<open>The mock token, which on request does nothing and still returns.\<close>

record mock_token =
  mt_ShouldFail :: "bool option"
  mt_Balance :: "address \<rightharpoonup> int"

definition mt_mint :: "address \<Rightarrow> int \<Rightarrow> mock_token \<Rightarrow> mock_token result" where
  "mt_mint to amount t = arith (checked_add I128 (get0 (mt_Balance t) to) amount) (\<lambda>n. Ok (t\<lparr>mt_Balance := (mt_Balance t)(to \<mapsto> n)\<rparr>))"

definition mt_set_fail :: "bool \<Rightarrow> mock_token \<Rightarrow> mock_token result" where
  "mt_set_fail fail t = Ok (t\<lparr>mt_ShouldFail := Some fail\<rparr>)"

definition mt_transfer :: "address \<Rightarrow> address \<Rightarrow> int \<Rightarrow> mock_token \<Rightarrow> mock_token result" where
  "mt_transfer from to amount t =
     (if unwrap_or (mt_ShouldFail t) False then Ok t
      else
        let from_bal = get0 (mt_Balance t) from in
        ensure (from_bal \<ge> amount) ''insufficient balance'' (
        let to_bal = get0 (mt_Balance t) to in
        arith (checked_sub I128 from_bal amount) (\<lambda>n.
        arith (checked_add I128 to_bal amount) (\<lambda>m.
        Ok (t\<lparr>mt_Balance := (mt_Balance t)(from \<mapsto> n, to \<mapsto> m)\<rparr>)))))"

definition mt_balance :: "mock_token \<Rightarrow> address \<Rightarrow> int" where
  "mt_balance t account = get0 (mt_Balance t) account"

definition mock_tokens :: "(address \<Rightarrow> mock_token) token_client" where
  "mock_tokens = \<lparr>tk_balance = (\<lambda>t a w. mt_balance (w t) a),
     tk_transfer = (\<lambda>t a b n w. and_then (mt_transfer a b n (w t)) (\<lambda>m. Ok (w(t := m))))\<rparr>"

text \<open>
  The repair of \<^verbatim>\<open>ignored_return\<close> changes nothing: both halves are the same function, for every token. When the
  transfer traps, both trap; when a token such as the mock returns without moving anything, both mark the
  escrow as released.
\<close>

theorem release_repair_vacuous:
  "irs_release tk e x = ir_release tk e x
   \<and> (py_Owner s = Some a \<and> py_TokenId s = Some t \<and> py_Recipient s = Some b \<and> py_Amount s = Some n \<and> py_Released s = Some False
      \<and> authorized e a \<and> mt_ShouldFail (w t) = Some True
      \<longrightarrow> irs_release mock_tokens e (s, w) = Ok (s\<lparr>py_Released := Some True\<rparr>, w))"
  by (auto simp: irs_release_def ir_release_def mock_tokens_def mt_transfer_def)

theorem release_repair_vacuous_witness:
  "irs_release mock_tokens (signed_env [Address 5] 1) (\<lparr>py_TokenId = Some (Address 8), py_Recipient = Some (Address 6), py_Amount = Some 7,
      py_Released = Some False, py_Owner = Some (Address 5)\<rparr>, \<lambda>_. \<lparr>mt_ShouldFail = Some True, mt_Balance = Map.empty\<rparr>)
   = Ok (\<lparr>py_TokenId = Some (Address 8), py_Recipient = Some (Address 6), py_Amount = Some 7,
      py_Released = Some True, py_Owner = Some (Address 5)\<rparr>, \<lambda>_. \<lparr>mt_ShouldFail = Some True, mt_Balance = Map.empty\<rparr>)"
  using release_repair_vacuous [THEN conjunct2, of "\<lparr>py_TokenId = Some (Address 8), py_Recipient = Some (Address 6), py_Amount = Some 7,
      py_Released = Some False, py_Owner = Some (Address 5)\<rparr>" "Address 5" "Address 8" "Address 6" 7 "signed_env [Address 5] 1"
      "\<lambda>_. \<lparr>mt_ShouldFail = Some True, mt_Balance = Map.empty\<rparr>"]
  by (simp add: signed_env_def)

end
