(* ===== verification/Airdrop_Variants.thy ===== *)
theory Airdrop_Variants
  imports Merkle_Airdrop Token_Clients
begin

text \<open>
  Five more airdrop crates: \<^verbatim>\<open>airdrop_expiry_ignored\<close>, \<^verbatim>\<open>merkle_leaf_missing_amount\<close>, \<^verbatim>\<open>airdrop_campaign_collision\<close>,
  \<^verbatim>\<open>airdrop_claim_before_start\<close> and \<^verbatim>\<open>merkle_duplicate_siblings\<close>. They repeat \<^verbatim>\<open>hash_pair\<close> and the loop over the
  proof of \<^verbatim>\<open>secure_airdrop\<close> literally, and those definitions are used. Shown: claims are made once, in time and for
  leaves of the tree; campaigns do not affect each other; what the leaf binds.
\<close>

section \<open>airdrop\_expiry\_ignored\<close>

record expiry_airdrop = host +
  ea_Admin :: "address option"
  ea_ExpiryLedger :: "int option"
  ea_Balance :: "int option"
  ea_Claimed :: "address \<rightharpoonup> bool"
  ea_MerkleRoot :: "bytes option"

definition ae_verify_merkle_proof :: "'w externals \<Rightarrow> address \<Rightarrow> int \<Rightarrow> bytes list \<Rightarrow> bytes \<Rightarrow> 'a result \<Rightarrow> 'a result" where
  "ae_verify_merkle_proof x who amount path root k =
     ensure (merkle_fold x (leaf_hash x who amount) path = root) ''invalid merkle proof'' k"

definition ae_require_admin_auth :: "env \<Rightarrow> expiry_airdrop \<Rightarrow> 'a result \<Rightarrow> 'a result" where
  "ae_require_admin_auth e s k = expect (ea_Admin s) ''contract not initialized'' (\<lambda>admin. require_auth e admin k)"

definition ae_initialize :: "env \<Rightarrow> address \<Rightarrow> int \<Rightarrow> int \<Rightarrow> expiry_airdrop \<Rightarrow> expiry_airdrop result" where
  "ae_initialize e admin expiry_ledger initial_balance s =
     require_auth e admin (
     Ok (publish [''init''] [VAddr admin, VInt expiry_ledger, VInt initial_balance]
       (s\<lparr>ea_Admin := Some admin, ea_ExpiryLedger := Some expiry_ledger, ea_Balance := Some initial_balance\<rparr>)))"

definition ae_set_merkle_root :: "env \<Rightarrow> bytes \<Rightarrow> expiry_airdrop \<Rightarrow> expiry_airdrop result" where
  "ae_set_merkle_root e root s = ae_require_admin_auth e s (Ok (s\<lparr>ea_MerkleRoot := Some root\<rparr>))"

definition ae_get_balance :: "expiry_airdrop \<Rightarrow> int" where
  "ae_get_balance s = unwrap_or (ea_Balance s) 0"

definition ae_get_expiry_ledger :: "expiry_airdrop \<Rightarrow> int" where
  "ae_get_expiry_ledger s = unwrap_or (ea_ExpiryLedger s) 0"

definition ae_claim :: "'w externals \<Rightarrow> env \<Rightarrow> address \<Rightarrow> int \<Rightarrow> bytes list \<Rightarrow> expiry_airdrop \<Rightarrow> expiry_airdrop result" where
  "ae_claim x e who amount path s =
     require_auth e who (
     ensure (\<not> unwrap_or (ea_Claimed s who) False) ''already claimed'' (
     expect (ea_MerkleRoot s) ''merkle root not set'' (\<lambda>root.
     ae_verify_merkle_proof x who amount path root (
     let s1 = s\<lparr>ea_Claimed := (ea_Claimed s)(who \<mapsto> True)\<rparr>; balance = unwrap_or (ea_Balance s1) 0 in
     arith (checked_sub I128 balance amount) (\<lambda>new_balance.
     Ok (publish [''claim''] [VAddr who, VInt amount] (s1\<lparr>ea_Balance := Some new_balance\<rparr>)))))))"

definition ae_is_claimed :: "expiry_airdrop \<Rightarrow> address \<Rightarrow> bool" where
  "ae_is_claimed s who = unwrap_or (ea_Claimed s who) False"

definition aes_build_tree :: "'w externals \<Rightarrow> address \<Rightarrow> int \<Rightarrow> address \<Rightarrow> bytes \<times> bytes list" where
  "aes_build_tree x who amount other =
     (let leaf0 = leaf_hash x who amount; leaf1 = leaf_hash x other 0; root = hash_pair x leaf0 leaf1 in (root, [leaf1]))"

definition aes_verify_merkle_proof_secure :: "'w externals \<Rightarrow> address \<Rightarrow> int \<Rightarrow> bytes list \<Rightarrow> bytes \<Rightarrow> 'a result \<Rightarrow> 'a result" where
  "aes_verify_merkle_proof_secure x who amount path root k =
     ensure (merkle_fold x (leaf_hash x who amount) path = root) ''invalid merkle proof'' k"

definition aes_initialize :: "env \<Rightarrow> address \<Rightarrow> int \<Rightarrow> int \<Rightarrow> expiry_airdrop \<Rightarrow> expiry_airdrop result" where
  "aes_initialize e admin expiry_ledger initial_balance s =
     require_auth e admin (
     Ok (publish [''init''] [VAddr admin, VInt expiry_ledger, VInt initial_balance]
       (s\<lparr>ea_Admin := Some admin, ea_ExpiryLedger := Some expiry_ledger, ea_Balance := Some initial_balance\<rparr>)))"

definition aes_set_merkle_root :: "env \<Rightarrow> bytes \<Rightarrow> expiry_airdrop \<Rightarrow> expiry_airdrop result" where
  "aes_set_merkle_root e root s = ae_require_admin_auth e s (Ok (s\<lparr>ea_MerkleRoot := Some root\<rparr>))"

definition aes_get_balance :: "expiry_airdrop \<Rightarrow> int" where
  "aes_get_balance s = unwrap_or (ea_Balance s) 0"

definition aes_get_expiry_ledger :: "expiry_airdrop \<Rightarrow> int" where
  "aes_get_expiry_ledger s = unwrap_or (ea_ExpiryLedger s) 0"

definition aes_claim :: "'w externals \<Rightarrow> env \<Rightarrow> address \<Rightarrow> int \<Rightarrow> bytes list \<Rightarrow> expiry_airdrop \<Rightarrow> expiry_airdrop result" where
  "aes_claim x e who amount path s =
     require_auth e who (
     expect (ea_ExpiryLedger s) ''expiry not set'' (\<lambda>expiry_ledger.
     ensure (sequence e \<le> expiry_ledger) ''campaign has expired'' (
     ensure (\<not> unwrap_or (ea_Claimed s who) False) ''already claimed'' (
     expect (ea_MerkleRoot s) ''merkle root not set'' (\<lambda>root.
     aes_verify_merkle_proof_secure x who amount path root (
     let s1 = s\<lparr>ea_Claimed := (ea_Claimed s)(who \<mapsto> True)\<rparr>; balance = unwrap_or (ea_Balance s1) 0 in
     arith (checked_sub I128 balance amount) (\<lambda>new_balance.
     Ok (publish [''claim''] [VAddr who, VInt amount] (s1\<lparr>ea_Balance := Some new_balance\<rparr>)))))))))"

definition aes_is_claimed :: "expiry_airdrop \<Rightarrow> address \<Rightarrow> bool" where
  "aes_is_claimed s who = unwrap_or (ea_Claimed s who) False"

definition aes_reclaim_expired_funds :: "env \<Rightarrow> address \<Rightarrow> expiry_airdrop \<Rightarrow> expiry_airdrop result" where
  "aes_reclaim_expired_funds e admin s =
     require_auth e admin (
     expect (ea_ExpiryLedger s) ''expiry not set'' (\<lambda>expiry_ledger.
     ensure (sequence e > expiry_ledger) ''campaign not yet expired'' (
     let balance = unwrap_or (ea_Balance s) 0 in
     Ok (publish [''reclaim''] [VAddr admin, VInt balance] (s\<lparr>ea_Balance := Some 0\<rparr>)))))"

datatype expiry_call = AInit address int int | ARoot bytes | AClaim address int "bytes list" | AReclaim address

fun aes_exec :: "'w externals \<Rightarrow> env \<Rightarrow> expiry_call \<Rightarrow> expiry_airdrop \<Rightarrow> expiry_airdrop result" where
  "aes_exec x e (AInit a l b) s = aes_initialize e a l b s"
| "aes_exec x e (ARoot r) s = aes_set_merkle_root e r s"
| "aes_exec x e (AClaim a n p) s = aes_claim x e a n p s"
| "aes_exec x e (AReclaim a) s = aes_reclaim_expired_funds e a s"

fun expiry_claimant :: "expiry_call \<Rightarrow> address option" where
  "expiry_claimant (AClaim a n p) = Some a"
| "expiry_claimant c = None"

lemmas aes_defs = aes_initialize_def aes_set_merkle_root_def aes_claim_def aes_reclaim_expired_funds_def ae_require_admin_auth_def
  aes_verify_merkle_proof_secure_def aes_is_claimed_def publish_def Let_def

interpretation expiry_once: single_use "aes_exec x" expiry_claimant aes_is_claimed
  for x :: "'w externals"
proof (unfold_locales, goal_cases)
  case (1 e c s s' k)
  then show ?case by (cases c) (auto simp: aes_defs result_simps)
next
  case (2 e c s s' k)
  then show ?case by (cases c) (auto simp: aes_defs result_simps split: if_splits)
qed

text \<open>
  Claims on the repaired airdrop (\<^verbatim>\<open>airdrop_expiry_ignored/src/secure.rs\<close>): in any run, re-initialisations included,
  nobody claims twice. A claim that returns is signed, not after the expiry ledger, and for a leaf of the tree
  behind the stored root, unless the inputs hashed for it collide with those of the tree.
\<close>

theorem expiry_claims_once_in_time:
  assumes "sane_externals x" and "in_range I128 n" and "\<forall>b\<in>set p. length b = 32"
    and "\<forall>(c, m)\<in>set (mtree_leaves t). in_range I128 m" and "no_collision x (verify_inputs x a n p) (mtree_inputs x t)"
    and "ea_MerkleRoot (run_calls (aes_exec x) xs s) = Some (mtree_root x t)"
    and "aes_claim x e a n p (run_calls (aes_exec x) xs s) = Ok s'"
  shows "distinct (a # List.map_filter expiry_claimant (successes (aes_exec x) xs s))
    \<and> authorized e a \<and> sequence e \<le> aes_get_expiry_ledger (run_calls (aes_exec x) xs s) \<and> (a, n) \<in> set (mtree_leaves t)"
proof -
  have "distinct (a # List.map_filter expiry_claimant (successes (aes_exec x) xs s))"
    by (rule expiry_once.next_key_new [of x e "AClaim a n p"]) (use assms(7) in simp_all)
  moreover have "authorized e a \<and> sequence e \<le> aes_get_expiry_ledger (run_calls (aes_exec x) xs s)"
    and "merkle_fold x (leaf_hash x a n) p = mtree_root x t"
    using assms(6,7) by (auto simp: aes_defs aes_get_expiry_ledger_def result_simps)
  ultimately show ?thesis
    using merkle_fold_sound [OF assms(1,2) _ assms(3,4,5)] by blast
qed

definition expiry_demo :: expiry_airdrop where
  "expiry_demo = \<lparr>events = [], ea_Admin = Some (Address 7), ea_ExpiryLedger = Some 20, ea_Balance = Some 100, ea_Claimed = Map.empty,
     ea_MerkleRoot = Some (mtree_root demo_ext demo_tree)\<rparr>"

theorem expiry_claims_once_in_time_witness:
  "authorized (signed_env [Address 5] 9) (Address 5) \<and> (Address 5, 70) \<in> set (mtree_leaves demo_tree)"
proof -
  have "\<exists>s'. aes_claim demo_ext (signed_env [Address 5] 9) (Address 5) 70 demo_proof (run_calls (aes_exec demo_ext) [] expiry_demo) = Ok s'"
    by (simp add: aes_defs expiry_demo_def demo_proof_def demo_tree_def signed_env_def checked_sub_def checked_def in_range_def)
  then obtain s' where "aes_claim demo_ext (signed_env [Address 5] 9) (Address 5) 70 demo_proof (run_calls (aes_exec demo_ext) [] expiry_demo) = Ok s'"
    by blast
  from expiry_claims_once_in_time [OF demo_ext_sane _ _ _ demo_no_collision _ this] show ?thesis
    by (simp add: expiry_demo_def demo_proof_def demo_tree_def leaf_hash_def demo_ext_def in_range_def)
qed

lemma build_tree_verifies:
  "ae_verify_merkle_proof x a n (snd (aes_build_tree x a n b)) (fst (aes_build_tree x a n b)) k = k"
  by (simp add: aes_build_tree_def ae_verify_merkle_proof_def Let_def)

text \<open>In the original a claim after the expiry succeeds as before.\<close>

lemma late_claim_accepted:
  assumes "ae_claim x e a n p s = Ok s'" and "authorized e' a"
  shows "ae_claim x (e'\<lparr>sequence := l\<rparr>) a n p s = Ok s'"
  using assms by (auto simp: ae_claim_def ae_verify_merkle_proof_def result_simps)

text \<open>And in the repaired one anyone who signs reclaims the funds after expiry, or initialises again.\<close>

lemma anyone_reclaims:
  assumes "authorized e a" and "ea_ExpiryLedger s = Some l" and "l < sequence e"
  shows "\<exists>s'. aes_reclaim_expired_funds e a s = Ok s' \<and> aes_get_balance s' = 0"
  using assms by (simp add: aes_defs aes_get_balance_def)

section \<open>merkle\_leaf\_missing\_amount\<close>

record leaf_airdrop = host +
  la_Admin :: "address option"
  la_MerkleRoot :: "bytes option"
  la_Token :: "address option"
  la_CampaignId :: "int option"
  la_Domain :: "address option"
  la_Claimed :: "address \<rightharpoonup> bool"

definition ml_leaf_hash :: "'w externals \<Rightarrow> address \<Rightarrow> bytes" where
  "ml_leaf_hash x who = sha256 x (to_xdr x who)"

definition ml_verify_merkle_proof :: "'w externals \<Rightarrow> address \<Rightarrow> bytes list \<Rightarrow> leaf_airdrop \<Rightarrow> 'a result \<Rightarrow> 'a result" where
  "ml_verify_merkle_proof x who path s k =
     expect (la_MerkleRoot s) ''not initialized'' (\<lambda>root.
     ensure (merkle_fold x (ml_leaf_hash x who) path = root) ''invalid merkle proof'' k)"

definition ml_is_claimed :: "leaf_airdrop \<Rightarrow> address \<Rightarrow> bool" where
  "ml_is_claimed s who = unwrap_or (la_Claimed s who) False"

definition ml_mark_claimed :: "address \<Rightarrow> leaf_airdrop \<Rightarrow> leaf_airdrop" where
  "ml_mark_claimed who s = s\<lparr>la_Claimed := (la_Claimed s)(who \<mapsto> True)\<rparr>"

definition ml_initialize :: "env \<Rightarrow> address \<Rightarrow> bytes \<Rightarrow> address \<Rightarrow> int \<Rightarrow> leaf_airdrop \<times> 'w \<Rightarrow> (leaf_airdrop \<times> 'w) result" where
  "ml_initialize e admin merkle_root tok campaign_id = (\<lambda>(s, w).
     ensure (la_Admin s = None) ''already initialized'' (
     Ok (s\<lparr>la_Admin := Some admin, la_MerkleRoot := Some merkle_root, la_Token := Some tok, la_CampaignId := Some campaign_id,
           la_Domain := Some (current_contract e)\<rparr>, w)))"

definition ml_fund :: "'w externals \<Rightarrow> env \<Rightarrow> int \<Rightarrow> leaf_airdrop \<times> 'w \<Rightarrow> (leaf_airdrop \<times> 'w) result" where
  "ml_fund x e amount = (\<lambda>(s, w).
     expect (la_Admin s) ''not initialized'' (\<lambda>admin.
     require_auth e admin (
     unwrap (la_Token s) (\<lambda>tok.
     and_then (ext_transfer x (as_contract e) tok admin (current_contract e) amount w) (\<lambda>w1.
     Ok (publish [''fund''] [VAddr admin, VInt amount] s, w1))))))"

definition ml_claim :: "'w externals \<Rightarrow> env \<Rightarrow> address \<Rightarrow> int \<Rightarrow> bytes list \<Rightarrow> leaf_airdrop \<times> 'w \<Rightarrow> (leaf_airdrop \<times> 'w) result" where
  "ml_claim x e who amount path = (\<lambda>(s, w).
     require_auth e who (
     ensure (\<not> ml_is_claimed s who) ''already claimed'' (
     ml_verify_merkle_proof x who path s (
     let s1 = ml_mark_claimed who s in
     unwrap (la_Token s1) (\<lambda>tok.
     and_then (ext_transfer x (as_contract e) tok (current_contract e) who amount w) (\<lambda>w1.
     Ok (publish [''claim''] [VAddr who, VInt amount] s1, w1)))))))"

definition ml_get_claimed :: "leaf_airdrop \<Rightarrow> address \<Rightarrow> bool" where
  "ml_get_claimed s a = ml_is_claimed s a"

definition mls_leaf_data :: "'w externals \<Rightarrow> address \<Rightarrow> int \<Rightarrow> int \<Rightarrow> address \<Rightarrow> bytes" where
  "mls_leaf_data x who amount campaign_id domain =
     to_xdr x who @ be_bytes 16 amount @ be_bytes 4 campaign_id @ to_xdr x domain"

definition mls_leaf_hash :: "'w externals \<Rightarrow> address \<Rightarrow> int \<Rightarrow> int \<Rightarrow> address \<Rightarrow> bytes" where
  "mls_leaf_hash x who amount campaign_id domain = sha256 x (mls_leaf_data x who amount campaign_id domain)"

definition mls_verify_merkle_proof ::
    "'w externals \<Rightarrow> address \<Rightarrow> int \<Rightarrow> int \<Rightarrow> address \<Rightarrow> bytes list \<Rightarrow> leaf_airdrop \<Rightarrow> 'a result \<Rightarrow> 'a result" where
  "mls_verify_merkle_proof x who amount campaign_id domain path s k =
     expect (la_MerkleRoot s) ''not initialized'' (\<lambda>root.
     ensure (merkle_fold x (mls_leaf_hash x who amount campaign_id domain) path = root) ''invalid merkle proof'' k)"

definition mls_initialize :: "env \<Rightarrow> address \<Rightarrow> bytes \<Rightarrow> address \<Rightarrow> int \<Rightarrow> leaf_airdrop \<times> 'w \<Rightarrow> (leaf_airdrop \<times> 'w) result" where
  "mls_initialize e admin merkle_root tok campaign_id = (\<lambda>(s, w).
     ensure (la_Admin s = None) ''already initialized'' (
     Ok (s\<lparr>la_Admin := Some admin, la_MerkleRoot := Some merkle_root, la_Token := Some tok, la_CampaignId := Some campaign_id,
           la_Domain := Some (current_contract e)\<rparr>, w)))"

definition mls_fund :: "'w externals \<Rightarrow> env \<Rightarrow> int \<Rightarrow> leaf_airdrop \<times> 'w \<Rightarrow> (leaf_airdrop \<times> 'w) result" where
  "mls_fund x e amount = (\<lambda>(s, w).
     expect (la_Admin s) ''not initialized'' (\<lambda>admin.
     require_auth e admin (
     unwrap (la_Token s) (\<lambda>tok.
     and_then (ext_transfer x (as_contract e) tok admin (current_contract e) amount w) (\<lambda>w1.
     Ok (publish [''fund''] [VAddr admin, VInt amount] s, w1))))))"

definition mls_claim :: "'w externals \<Rightarrow> env \<Rightarrow> address \<Rightarrow> int \<Rightarrow> bytes list \<Rightarrow> leaf_airdrop \<times> 'w \<Rightarrow> (leaf_airdrop \<times> 'w) result" where
  "mls_claim x e who amount path = (\<lambda>(s, w).
     require_auth e who (
     ensure (\<not> ml_is_claimed s who) ''already claimed'' (
     let campaign_id = unwrap_or (la_CampaignId s) 0 in
     expect (la_Domain s) ''not initialized'' (\<lambda>domain.
     mls_verify_merkle_proof x who amount campaign_id domain path s (
     let s1 = ml_mark_claimed who s in
     unwrap (la_Token s1) (\<lambda>tok.
     and_then (ext_transfer x (as_contract e) tok (current_contract e) who amount w) (\<lambda>w1.
     Ok (publish [''claim''] [VAddr who, VInt amount] s1, w1))))))))"

definition mls_get_claimed :: "leaf_airdrop \<Rightarrow> address \<Rightarrow> bool" where
  "mls_get_claimed s a = ml_is_claimed s a"

lemma mls_leaf_inject:
  assumes eq: "mls_leaf_data x a n i d = mls_leaf_data x b m j c" and "inj (to_xdr x)" and "length (to_xdr x a) = length (to_xdr x b)"
    and "in_range I128 n" "in_range I128 m" "in_range U32 i" "in_range U32 j"
  shows "a = b \<and> n = m \<and> i = j \<and> d = c"
proof -
  have "to_xdr x a = to_xdr x b" "be_bytes 16 n = be_bytes 16 m" "be_bytes 4 i = be_bytes 4 j" "to_xdr x d = to_xdr x c"
    using eq assms(3) by (simp_all add: mls_leaf_data_def)
  with assms(2,4-) show ?thesis
    using be_bytes_inject [of n m] be_bytes_inject_unsigned [of 4 i j] by (auto simp: inj_eq in_range_unsigned)
qed

text \<open>
  What the repaired leaf binds (\<^verbatim>\<open>merkle_leaf_missing_amount/src/secure.rs\<close>): two claims that return and go through the
  same leaf value, on whatever deployments, are by the same account for the same amount, campaign and contract, or the
  two leaves collide under the hash. In the original the same proof pays any amount the pool can transfer.
\<close>

theorem leaf_binds_claim:
  assumes "mls_claim x e a n p (s, w) = Ok z" and "mls_claim x e' b m q (s', w') = Ok z'"
    and "la_Domain s = Some d" "la_Domain s' = Some c"
    and "mls_leaf_hash x a n (unwrap_or (la_CampaignId s) 0) d = mls_leaf_hash x b m (unwrap_or (la_CampaignId s') 0) c"
    and "inj (to_xdr x)" and "length (to_xdr x a) = length (to_xdr x b)" and "in_range I128 n" "in_range I128 m"
    and "in_range U32 (unwrap_or (la_CampaignId s) 0)" "in_range U32 (unwrap_or (la_CampaignId s') 0)"
  shows "authorized e a \<and> authorized e' b
    \<and> (a = b \<and> n = m \<and> unwrap_or (la_CampaignId s) 0 = unwrap_or (la_CampaignId s') 0 \<and> d = c
       \<or> mls_leaf_data x a n (unwrap_or (la_CampaignId s) 0) d \<noteq> mls_leaf_data x b m (unwrap_or (la_CampaignId s') 0) c
         \<and> sha256 x (mls_leaf_data x a n (unwrap_or (la_CampaignId s) 0) d) = sha256 x (mls_leaf_data x b m (unwrap_or (la_CampaignId s') 0) c))"
proof -
  have "authorized e a" "authorized e' b"
    using assms(1,2) by (auto simp: mls_claim_def result_simps)
  with mls_leaf_inject [OF _ assms(6-)] assms(5) show ?thesis
    by (auto simp: mls_leaf_hash_def)
qed

definition leaf_demo :: leaf_airdrop where
  "leaf_demo = \<lparr>events = [], la_Admin = Some (Address 7), la_MerkleRoot = Some (mls_leaf_hash demo_ext (Address 5) 70 3 (Address 99)),
     la_Token = Some (Address 8), la_CampaignId = Some 3, la_Domain = Some (Address 99), la_Claimed = Map.empty\<rparr>"

lemma leaf_demo_claim: "\<exists>z. mls_claim demo_ext (signed_env [Address 5] 9) (Address 5) 70 [] (leaf_demo, demo_pool) = Ok z"
proof -
  have "\<exists>w'. token_transfer (as_contract (signed_env [Address 5] 9)) (Address 99) (Address 5) 70 demo_pool = Ok w'"
    by (simp add: token_transfer_def as_contract_def signed_env_def demo_pool_def token_balance_def checked_ops in_range_def Let_def)
  moreover have "ext_transfer demo_ext = (\<lambda>e t. token_transfer e)" "current_contract (signed_env [Address 5] 9) = Address 99"
    by (simp_all add: demo_ext_def signed_env_def)
  ultimately show ?thesis
    by (auto simp: mls_claim_def mls_verify_merkle_proof_def leaf_demo_def ml_is_claimed_def ml_mark_claimed_def signed_env_def)
qed

theorem leaf_binds_claim_witness:
  "authorized (signed_env [Address 5] 9) (Address 5) \<and> la_Domain leaf_demo = Some (Address 99)"
proof -
  obtain z where z: "mls_claim demo_ext (signed_env [Address 5] 9) (Address 5) 70 [] (leaf_demo, demo_pool) = Ok z"
    using leaf_demo_claim by blast
  have dom: "la_Domain leaf_demo = Some (Address 99)" by (simp add: leaf_demo_def)
  have "authorized (signed_env [Address 5] 9) (Address 5) \<and> authorized (signed_env [Address 5] 9) (Address 5)
      \<and> (Address 5 = Address 5 \<and> (70::int) = 70 \<and> unwrap_or (la_CampaignId leaf_demo) 0 = unwrap_or (la_CampaignId leaf_demo) 0 \<and> Address 99 = Address 99
       \<or> mls_leaf_data demo_ext (Address 5) 70 (unwrap_or (la_CampaignId leaf_demo) 0) (Address 99) \<noteq> mls_leaf_data demo_ext (Address 5) 70 (unwrap_or (la_CampaignId leaf_demo) 0) (Address 99)
         \<and> sha256 demo_ext (mls_leaf_data demo_ext (Address 5) 70 (unwrap_or (la_CampaignId leaf_demo) 0) (Address 99)) = sha256 demo_ext (mls_leaf_data demo_ext (Address 5) 70 (unwrap_or (la_CampaignId leaf_demo) 0) (Address 99)))"
    by (rule leaf_binds_claim [OF z z dom dom])
      (use demo_ext_sane in \<open>simp_all add: sane_externals_def leaf_demo_def in_range_def\<close>)
  then show ?thesis using dom by blast
qed

lemma any_amount_claimed:
  assumes "ml_claim x e a n p (s, w) = Ok z" and "la_Token s = Some t" and "ext_transfer x (as_contract e) t (current_contract e) a m w = Ok w'"
  shows "\<exists>s'. ml_claim x e a m p (s, w) = Ok (s', w')"
  using assms by (auto simp: ml_claim_def ml_verify_merkle_proof_def ml_mark_claimed_def result_simps Let_def)

section \<open>airdrop\_campaign\_collision\<close>

record campaign_airdrop = host +
  ca_Admin :: "address option"
  ca_CampaignRoot :: "int \<rightharpoonup> bytes"
  ca_Claimed :: "address \<rightharpoonup> bool"
  ca_ClaimKey :: "int \<times> address \<rightharpoonup> bool"

definition cc_require_admin_auth :: "env \<Rightarrow> campaign_airdrop \<Rightarrow> 'a result \<Rightarrow> 'a result" where
  "cc_require_admin_auth e s k = expect (ca_Admin s) ''contract not initialized'' (\<lambda>admin. require_auth e admin k)"

definition cc_initialize :: "env \<Rightarrow> address \<Rightarrow> campaign_airdrop \<Rightarrow> campaign_airdrop result" where
  "cc_initialize e admin s = require_auth e admin (Ok (s\<lparr>ca_Admin := Some admin\<rparr>))"

definition cc_create_campaign :: "env \<Rightarrow> int \<Rightarrow> bytes \<Rightarrow> campaign_airdrop \<Rightarrow> campaign_airdrop result" where
  "cc_create_campaign e campaign_id merkle_root s =
     cc_require_admin_auth e s (Ok (s\<lparr>ca_CampaignRoot := (ca_CampaignRoot s)(campaign_id \<mapsto> merkle_root)\<rparr>))"

definition cc_claim :: "'w externals \<Rightarrow> env \<Rightarrow> int \<Rightarrow> address \<Rightarrow> int \<Rightarrow> bytes list \<Rightarrow> campaign_airdrop \<Rightarrow> campaign_airdrop result" where
  "cc_claim x e campaign_id who amount path s =
     require_auth e who (
     ensure (\<not> unwrap_or (ca_Claimed s who) False) ''already claimed'' (
     expect (ca_CampaignRoot s campaign_id) ''campaign not found'' (\<lambda>root.
     ae_verify_merkle_proof x who amount path root (
     Ok (publish [''claim''] [VInt campaign_id, VAddr who, VInt amount] (s\<lparr>ca_Claimed := (ca_Claimed s)(who \<mapsto> True)\<rparr>))))))"

definition cc_is_claimed :: "campaign_airdrop \<Rightarrow> address \<Rightarrow> bool" where
  "cc_is_claimed s who = unwrap_or (ca_Claimed s who) False"

definition ccs_leaf_data :: "'w externals \<Rightarrow> int \<Rightarrow> address \<Rightarrow> int \<Rightarrow> bytes" where
  "ccs_leaf_data x campaign_id who amount = be_bytes 4 campaign_id @ to_xdr x who @ be_bytes 16 amount"

definition ccs_leaf_hash :: "'w externals \<Rightarrow> int \<Rightarrow> address \<Rightarrow> int \<Rightarrow> bytes" where
  "ccs_leaf_hash x campaign_id who amount = sha256 x (ccs_leaf_data x campaign_id who amount)"

definition ccs_build_tree :: "'w externals \<Rightarrow> int \<Rightarrow> address \<Rightarrow> int \<Rightarrow> address \<Rightarrow> bytes \<times> bytes list" where
  "ccs_build_tree x campaign_id who amount other =
     (let leaf0 = ccs_leaf_hash x campaign_id who amount; leaf1 = ccs_leaf_hash x campaign_id other 0;
          root = hash_pair x leaf0 leaf1 in (root, [leaf1]))"

definition ccs_verify_merkle_proof_secure ::
    "'w externals \<Rightarrow> int \<Rightarrow> address \<Rightarrow> int \<Rightarrow> bytes list \<Rightarrow> bytes \<Rightarrow> 'a result \<Rightarrow> 'a result" where
  "ccs_verify_merkle_proof_secure x campaign_id who amount path root k =
     ensure (merkle_fold x (ccs_leaf_hash x campaign_id who amount) path = root) ''invalid merkle proof'' k"

definition ccs_require_admin_auth :: "env \<Rightarrow> campaign_airdrop \<Rightarrow> 'a result \<Rightarrow> 'a result" where
  "ccs_require_admin_auth e s k = expect (ca_Admin s) ''contract not initialized'' (\<lambda>admin. require_auth e admin k)"

definition ccs_initialize :: "env \<Rightarrow> address \<Rightarrow> campaign_airdrop \<Rightarrow> campaign_airdrop result" where
  "ccs_initialize e admin s = require_auth e admin (Ok (s\<lparr>ca_Admin := Some admin\<rparr>))"

definition ccs_create_campaign :: "env \<Rightarrow> int \<Rightarrow> bytes \<Rightarrow> campaign_airdrop \<Rightarrow> campaign_airdrop result" where
  "ccs_create_campaign e campaign_id merkle_root s =
     ccs_require_admin_auth e s (Ok (s\<lparr>ca_CampaignRoot := (ca_CampaignRoot s)(campaign_id \<mapsto> merkle_root)\<rparr>))"

definition ccs_claim :: "'w externals \<Rightarrow> env \<Rightarrow> int \<Rightarrow> address \<Rightarrow> int \<Rightarrow> bytes list \<Rightarrow> campaign_airdrop \<Rightarrow> campaign_airdrop result" where
  "ccs_claim x e campaign_id who amount path s =
     require_auth e who (
     ensure (\<not> unwrap_or (ca_ClaimKey s (campaign_id, who)) False) ''already claimed'' (
     expect (ca_CampaignRoot s campaign_id) ''campaign not found'' (\<lambda>root.
     ccs_verify_merkle_proof_secure x campaign_id who amount path root (
     Ok (publish [''claim''] [VInt campaign_id, VAddr who, VInt amount]
       (s\<lparr>ca_ClaimKey := (ca_ClaimKey s)((campaign_id, who) \<mapsto> True)\<rparr>))))))"

definition ccs_is_claimed :: "campaign_airdrop \<Rightarrow> int \<Rightarrow> address \<Rightarrow> bool" where
  "ccs_is_claimed s campaign_id who = unwrap_or (ca_ClaimKey s (campaign_id, who)) False"

datatype campaign_call = CInit address | CCreate int bytes | CClaim int address int "bytes list"

fun ccs_exec :: "'w externals \<Rightarrow> env \<Rightarrow> campaign_call \<Rightarrow> campaign_airdrop \<Rightarrow> campaign_airdrop result" where
  "ccs_exec x e (CInit a) s = ccs_initialize e a s"
| "ccs_exec x e (CCreate i r) s = ccs_create_campaign e i r s"
| "ccs_exec x e (CClaim i a n p) s = ccs_claim x e i a n p s"

fun on_campaign :: "int \<Rightarrow> campaign_call \<Rightarrow> bool" where
  "on_campaign i (CInit a) = True"
| "on_campaign i (CCreate j r) = (i = j)"
| "on_campaign i (CClaim j a n p) = (i = j)"

fun campaign_key :: "campaign_call \<Rightarrow> (int \<times> address) option" where
  "campaign_key (CClaim i a n p) = Some (i, a)"
| "campaign_key c = None"

lemmas ccs_defs = ccs_initialize_def ccs_create_campaign_def ccs_claim_def ccs_require_admin_auth_def
  ccs_verify_merkle_proof_secure_def ccs_is_claimed_def publish_def

interpretation campaign_once: single_use "ccs_exec x" campaign_key "\<lambda>s (i, a). ccs_is_claimed s i a"
  for x :: "'w externals"
proof (unfold_locales, goal_cases)
  case (1 e c s s' k)
  then show ?case by (cases c; cases k) (auto simp: ccs_defs result_simps)
next
  case (2 e c s s' k)
  then show ?case by (cases c; cases k) (auto simp: ccs_defs result_simps split: if_splits)
qed

definition campaign_view :: "int \<Rightarrow> campaign_airdrop \<Rightarrow> address option \<times> bytes option \<times> (address \<Rightarrow> bool)" where
  "campaign_view i s = (ca_Admin s, ca_CampaignRoot s i, ccs_is_claimed s i)"

lemma ccs_claim_ok: "ccs_claim x e i a n p s = Ok s' \<longleftrightarrow>
   authorized e a \<and> \<not> ccs_is_claimed s i a \<and> ca_CampaignRoot s i = Some (merkle_fold x (ccs_leaf_hash x i a n) p)
   \<and> s' = publish [''claim''] [VInt i, VAddr a, VInt n] (s\<lparr>ca_ClaimKey := (ca_ClaimKey s)((i, a) \<mapsto> True)\<rparr>)"
  by (cases "ca_CampaignRoot s i")
    (auto simp: ccs_claim_def ccs_verify_merkle_proof_secure_def ccs_is_claimed_def result_simps)

lemma campaign_view_claim:
  "campaign_view i (publish ts d (s\<lparr>ca_ClaimKey := (ca_ClaimKey s)((i, a) \<mapsto> True)\<rparr>))
   = (case campaign_view i s of (adm, r, cl) \<Rightarrow> (adm, r, cl(a := True)))"
  by (simp add: campaign_view_def publish_def ccs_is_claimed_def fun_eq_iff)

lemma campaign_view_own:
  assumes "on_campaign i c" and "campaign_view i s = campaign_view i t" and "ccs_exec x e c s = Ok s'"
  shows "\<exists>t'. ccs_exec x e c t = Ok t' \<and> campaign_view i t' = campaign_view i s'"
proof -
  have v: "ca_Admin s = ca_Admin t" "ca_CampaignRoot s i = ca_CampaignRoot t i" "ccs_is_claimed s i = ccs_is_claimed t i"
    using assms(2) by (simp_all add: campaign_view_def)
  show ?thesis
  proof (cases c)
    case (CInit a)
    with assms(3) v show ?thesis by (simp add: ccs_defs campaign_view_def result_simps fun_eq_iff) auto
  next
    case (CCreate j r)
    with assms(1,3) v show ?thesis by (simp add: ccs_defs campaign_view_def result_simps fun_eq_iff) auto
  next
    case (CClaim j a n p)
    with assms v show ?thesis by (simp add: ccs_claim_ok campaign_view_claim)
  qed
qed

interpretation per_campaign: isolated_part "ccs_exec x" "campaign_view i" "on_campaign i"
  for x :: "'w externals" and i
proof (unfold_locales, goal_cases)
  case (1 c s t e s')
  then show ?case by (rule campaign_view_own)
next
  case (2 c e s s')
  then show ?case
    by (cases c) (auto simp: ccs_defs campaign_view_def result_simps fun_eq_iff)
qed

text \<open>
  Campaigns of the repaired airdrop (\<^verbatim>\<open>airdrop_campaign_collision/src/secure.rs\<close>) do not affect each other: who has
  claimed a campaign, its root and the administrator develop as if the calls on other campaigns had not been made, and
  nobody claims a campaign twice.
\<close>

theorem campaigns_isolated:
  "campaign_view i (run_calls (ccs_exec x) xs s) = campaign_view i (run_calls (ccs_exec x) (filter (\<lambda>(e, c). on_campaign i c) xs) s)
   \<and> distinct (List.map_filter campaign_key (successes (ccs_exec x) xs s))"
  using per_campaign.run_isolated [OF refl] campaign_once.keys_once by blast

text \<open>
  The original keys the flag by the account alone: after a claim on any campaign no other one can be claimed by it.
\<close>

lemma campaign_blocks_others:
  assumes "cc_claim x e i a n p s = Ok s'" and "authorized e' a"
  shows "cc_claim x e' j a m q s' = Err (Panic ''already claimed'')"
  using assms by (auto simp: cc_claim_def ae_verify_merkle_proof_def publish_def result_simps)

lemma campaign_tree_verifies:
  assumes "authorized e a" and "ca_CampaignRoot s i = Some (fst (ccs_build_tree x i a n b))" and "\<not> ccs_is_claimed s i a"
  shows "\<exists>s'. ccs_claim x e i a n (snd (ccs_build_tree x i a n b)) s = Ok s' \<and> ccs_is_claimed s' i a"
  using assms by (simp add: ccs_build_tree_def ccs_defs Let_def)

section \<open>airdrop\_claim\_before\_start\<close>

record start_airdrop = host +
  sa_Admin :: "address option"
  sa_Token :: "address option"
  sa_StartLedger :: "int option"
  sa_Claimed :: "address \<rightharpoonup> bool"

definition bs_initialize :: "address \<Rightarrow> address \<Rightarrow> int \<Rightarrow> start_airdrop \<times> 'w \<Rightarrow> (start_airdrop \<times> 'w) result" where
  "bs_initialize admin token_addr start_ledger = (\<lambda>(s, w).
     ensure (sa_Admin s = None) ''already initialized'' (
     Ok (s\<lparr>sa_Admin := Some admin, sa_Token := Some token_addr, sa_StartLedger := Some start_ledger\<rparr>, w)))"

definition bs_fund :: "'w externals \<Rightarrow> env \<Rightarrow> int \<Rightarrow> start_airdrop \<times> 'w \<Rightarrow> (start_airdrop \<times> 'w) result" where
  "bs_fund x e amount = (\<lambda>(s, w).
     expect (sa_Admin s) ''not initialized'' (\<lambda>admin.
     require_auth e admin (
     unwrap (sa_Token s) (\<lambda>token_addr.
     and_then (ext_transfer x (as_contract e) token_addr admin (current_contract e) amount w) (\<lambda>w1. Ok (s, w1))))))"

definition bs_claim :: "'w externals \<Rightarrow> env \<Rightarrow> address \<Rightarrow> int \<Rightarrow> start_airdrop \<times> 'w \<Rightarrow> (start_airdrop \<times> 'w) result" where
  "bs_claim x e who amount = (\<lambda>(s, w).
     require_auth e who (
     ensure (sa_Claimed s who = None) ''already claimed'' (
     let s1 = s\<lparr>sa_Claimed := (sa_Claimed s)(who \<mapsto> True)\<rparr> in
     unwrap (sa_Token s1) (\<lambda>token_addr.
     and_then (ext_transfer x (as_contract e) token_addr (current_contract e) who amount w) (\<lambda>w1. Ok (s1, w1))))))"

definition bs_is_claimed :: "start_airdrop \<Rightarrow> address \<Rightarrow> bool" where
  "bs_is_claimed s who = unwrap_or (sa_Claimed s who) False"

definition bss_initialize :: "address \<Rightarrow> address \<Rightarrow> int \<Rightarrow> start_airdrop \<times> 'w \<Rightarrow> (start_airdrop \<times> 'w) result" where
  "bss_initialize admin token_addr start_ledger = (\<lambda>(s, w).
     ensure (sa_Admin s = None) ''already initialized'' (
     Ok (s\<lparr>sa_Admin := Some admin, sa_Token := Some token_addr, sa_StartLedger := Some start_ledger\<rparr>, w)))"

definition bss_fund :: "'w externals \<Rightarrow> env \<Rightarrow> int \<Rightarrow> start_airdrop \<times> 'w \<Rightarrow> (start_airdrop \<times> 'w) result" where
  "bss_fund x e amount = (\<lambda>(s, w).
     expect (sa_Admin s) ''not initialized'' (\<lambda>admin.
     require_auth e admin (
     unwrap (sa_Token s) (\<lambda>token_addr.
     and_then (ext_transfer x (as_contract e) token_addr admin (current_contract e) amount w) (\<lambda>w1. Ok (s, w1))))))"

definition bss_claim :: "'w externals \<Rightarrow> env \<Rightarrow> address \<Rightarrow> int \<Rightarrow> start_airdrop \<times> 'w \<Rightarrow> (start_airdrop \<times> 'w) result" where
  "bss_claim x e who amount = (\<lambda>(s, w).
     require_auth e who (
     expect (sa_StartLedger s) ''not initialized'' (\<lambda>start_ledger.
     ensure (sequence e \<ge> start_ledger) ''campaign has not started'' (
     ensure (sa_Claimed s who = None) ''already claimed'' (
     let s1 = s\<lparr>sa_Claimed := (sa_Claimed s)(who \<mapsto> True)\<rparr> in
     unwrap (sa_Token s1) (\<lambda>token_addr.
     and_then (ext_transfer x (as_contract e) token_addr (current_contract e) who amount w) (\<lambda>w1. Ok (s1, w1))))))))"

definition bss_is_claimed :: "start_airdrop \<Rightarrow> address \<Rightarrow> bool" where
  "bss_is_claimed s who = unwrap_or (sa_Claimed s who) False"

datatype start_call = SInit address address int | SFund int | SClaim address int

fun bss_exec :: "'w externals \<Rightarrow> env \<Rightarrow> start_call \<Rightarrow> start_airdrop \<times> 'w \<Rightarrow> (start_airdrop \<times> 'w) result" where
  "bss_exec x e (SInit a t l) = bss_initialize a t l"
| "bss_exec x e (SFund n) = bss_fund x e n"
| "bss_exec x e (SClaim a n) = bss_claim x e a n"

fun start_claimant :: "start_call \<Rightarrow> address option" where
  "start_claimant (SClaim a n) = Some a"
| "start_claimant c = None"

lemmas bss_defs = bss_initialize_def bss_fund_def bss_claim_def Let_def

interpretation start_once: single_use "bss_exec x" start_claimant "\<lambda>(s, w) a. sa_Claimed s a \<noteq> None"
  for x :: "'w externals"
proof (unfold_locales, goal_cases)
  case (1 e c s s' k)
  then show ?case by (cases c; cases s) (auto simp: bss_defs result_simps)
next
  case (2 e c s s' k)
  then show ?case by (cases c; cases s) (auto simp: bss_defs result_simps split: if_splits)
qed

text \<open>
  Claims on the repaired airdrop (\<^verbatim>\<open>airdrop_claim_before_start/src/secure.rs\<close>): nobody claims twice in any run, and each
  claim is signed and made no earlier than the start ledger. The amount is the caller's: a fresh account draws whatever
  the pool can transfer, in the repaired version too.
\<close>

theorem claims_after_start:
  assumes "bss_claim x e a n (run_calls (bss_exec x) xs z) = Ok z'"
  shows "distinct (a # List.map_filter start_claimant (successes (bss_exec x) xs z))
    \<and> authorized e a \<and> (\<exists>l. sa_StartLedger (fst (run_calls (bss_exec x) xs z)) = Some l \<and> l \<le> sequence e)"
proof -
  have "distinct (a # List.map_filter start_claimant (successes (bss_exec x) xs z))"
    by (rule start_once.next_key_new [of x e "SClaim a n"]) (use assms in simp_all)
  then show ?thesis
    using assms by (auto simp: bss_defs result_simps split: prod.splits)
qed

definition start_demo :: start_airdrop where
  "start_demo = \<lparr>events = [], sa_Admin = Some (Address 7), sa_Token = Some (Address 8), sa_StartLedger = Some 3, sa_Claimed = Map.empty\<rparr>"

theorem claims_after_start_witness:
  "\<exists>z. bss_claim demo_ext (signed_env [Address 5] 9) (Address 5) 70 (start_demo, demo_pool) = Ok z
     \<and> authorized (signed_env [Address 5] 9) (Address 5)"
proof -
  have "\<exists>z. bss_claim demo_ext (signed_env [Address 5] 9) (Address 5) 70 (run_calls (bss_exec demo_ext) [] (start_demo, demo_pool)) = Ok z"
    by (simp add: bss_defs start_demo_def demo_ext_def signed_env_def token_transfer_def as_contract_def demo_pool_def token_balance_def
        checked_ops in_range_def)
  then obtain z where "bss_claim demo_ext (signed_env [Address 5] 9) (Address 5) 70 (run_calls (bss_exec demo_ext) [] (start_demo, demo_pool)) = Ok z"
    by blast
  with claims_after_start [OF this] show ?thesis by auto
qed

lemma start_amount_unchecked:
  assumes "bss_claim x e a n (s, w) = Ok z" and "sa_Token s = Some t"
    and "ext_transfer x (as_contract e) t (current_contract e) a m w = Ok w'"
  shows "\<exists>s'. bss_claim x e a m (s, w) = Ok (s', w')"
  using assms by (auto simp: bss_defs result_simps)

section \<open>merkle\_duplicate\_siblings\<close>

record proof_verifier =
  pv_Root :: "bytes option"
  pv_Depth :: "int option"

definition fold_proof :: "'w externals \<Rightarrow> bytes \<Rightarrow> bytes list \<Rightarrow> bytes" where
  "fold_proof x leaf path = foldl (hash_pair x) leaf path"

definition md_initialize :: "bytes \<Rightarrow> proof_verifier \<Rightarrow> proof_verifier result" where
  "md_initialize root s = Ok (s\<lparr>pv_Root := Some root\<rparr>)"

definition md_verify :: "'w externals \<Rightarrow> bytes \<Rightarrow> bytes list \<Rightarrow> proof_verifier \<Rightarrow> bool result" where
  "md_verify x leaf path s = expect (pv_Root s) ''not initialized'' (\<lambda>root. Ok (fold_proof x leaf path = root))"

definition mds_initialize :: "bytes \<Rightarrow> int \<Rightarrow> proof_verifier \<Rightarrow> proof_verifier result" where
  "mds_initialize root depth s = Ok (s\<lparr>pv_Root := Some root, pv_Depth := Some depth\<rparr>)"

text \<open>The two nested loops: \<^verbatim>\<open>seen\<close> collects the siblings, and each new one is compared with all of them.\<close>

primrec mds_prior :: "bytes \<Rightarrow> bytes list \<Rightarrow> 'a result \<Rightarrow> 'a result" where
  "mds_prior sibling [] k = k"
| "mds_prior sibling (prior # rest) k = panic_if (prior = sibling) ''duplicate sibling'' (mds_prior sibling rest k)"

primrec mds_siblings :: "bytes list \<Rightarrow> bytes list \<Rightarrow> 'a result \<Rightarrow> 'a result" where
  "mds_siblings [] seen k = k"
| "mds_siblings (sibling # rest) seen k = mds_prior sibling seen (mds_siblings rest (seen @ [sibling]) k)"

definition mds_verify :: "'w externals \<Rightarrow> bytes \<Rightarrow> bytes list \<Rightarrow> proof_verifier \<Rightarrow> bool result" where
  "mds_verify x leaf path s =
     expect (pv_Root s) ''not initialized'' (\<lambda>root.
     expect (pv_Depth s) ''depth not set'' (\<lambda>depth.
     panic_if (int (length path) \<noteq> depth) ''invalid proof length'' (
     mds_siblings path [] (
     Ok (fold_proof x leaf path = root)))))"

lemma mds_prior_eq: "mds_prior b bs k = (if b \<in> set bs then Err (Panic ''duplicate sibling'') else k)"
  by (induction bs) (auto simp: panic_if_def)

lemma mds_siblings_eq: "mds_siblings bs seen k =
   (if distinct bs \<and> set bs \<inter> set seen = {} then k else Err (Panic ''duplicate sibling''))"
  by (induction bs arbitrary: seen) (auto simp: mds_prior_eq)

lemma fold_proof_eq: "fold_proof x leaf path = merkle_fold x leaf path"
  by (induction path arbitrary: leaf) (simp_all add: fold_proof_def)

text \<open>
  What the repaired verifier decides (\<^verbatim>\<open>merkle_duplicate_siblings/src/secure.rs\<close>): on a tree of the stored depth the answer
  is that of the original, except that a proof of another length, or with two equal siblings, ends in a panic. The nested
  loops are the test that the siblings are distinct.
\<close>

theorem duplicates_refused:
  assumes "pv_Root s = Some r" and "pv_Depth s = Some d"
  shows "mds_verify x leaf path s = (if int (length path) \<noteq> d then Err (Panic ''invalid proof length'')
     else if distinct path then md_verify x leaf path s else Err (Panic ''duplicate sibling''))"
  using assms by (simp add: mds_verify_def md_verify_def mds_siblings_eq panic_if_def)

theorem duplicates_refused_witness:
  "mds_verify demo_ext [1] [[2], [2]] \<lparr>pv_Root = Some [5], pv_Depth = Some 2\<rparr> = Err (Panic ''duplicate sibling'')"
  using duplicates_refused [of "\<lparr>pv_Root = Some [5], pv_Depth = Some 2\<rparr>" "[5]" 2 demo_ext "[1]" "[[2], [2]]"] by simp

text \<open>
  Two equal siblings are not the mark of a forgery: in a tree of depth two whose four leaves are \<^verbatim>\<open>l\<close>, \<^verbatim>\<open>h\<close>, and two whose hash
  is \<^verbatim>\<open>h\<close> again, the honest proof of \<^verbatim>\<open>l\<close> is refused.
\<close>

lemma honest_duplicate_refused:
  assumes "hash_pair x a b = h"
  shows "md_verify x l [h, h] \<lparr>pv_Root = Some (hash_pair x (hash_pair x l h) (hash_pair x a b)), pv_Depth = Some 2\<rparr> = Ok True
    \<and> mds_verify x l [h, h] \<lparr>pv_Root = Some (hash_pair x (hash_pair x l h) (hash_pair x a b)), pv_Depth = Some 2\<rparr>
        = Err (Panic ''duplicate sibling'')"
  using assms by (simp add: md_verify_def mds_verify_def fold_proof_def panic_if_def)

end
