(* ===== verification/Scanner_Trust.thy ===== *)
theory Scanner_Trust
  imports Registry Token_Clients Soroban_Bytes
begin

text \<open>
  The crates that vary the scan registry: \<^verbatim>\<open>scanner_impersonation\<close>, \<^verbatim>\<open>scanner_fee_unverified\<close>, \<^verbatim>\<open>severity_reporter_trust\<close>,
  \<^verbatim>\<open>verifier_threshold_ignored\<close>, \<^verbatim>\<open>scan_result_overwrite\<close>, \<^verbatim>\<open>scanner_metadata_unbounded\<close>, \<^verbatim>\<open>report_hash_unbound_contract\<close>,
  \<^verbatim>\<open>audit_expiry_ignored\<close> and \<^verbatim>\<open>event_authority_spoof\<close>. Shown: the scan registry refines the repaired small registry; who
  vouches for a stored result, risk or audit; that fees arrive; what the bounded history keeps; what a report
  signature binds.
\<close>

section \<open>scanner\_impersonation\<close>

record small_registry =
  im_Admin :: "address option"
  im_Scanner :: "address \<rightharpoonup> bool"
  im_LatestScan :: "address \<rightharpoonup> scan_result"
  im_ScanHistory :: "address \<rightharpoonup> scan_result list"

definition im_empty :: small_registry where
  "im_empty = \<lparr>im_Admin = None, im_Scanner = Map.empty, im_LatestScan = Map.empty, im_ScanHistory = Map.empty\<rparr>"

definition im_initialize :: "address \<Rightarrow> small_registry \<Rightarrow> small_registry result" where
  "im_initialize admin s = panic_if (im_Admin s \<noteq> None) ''already initialized'' (Ok (s\<lparr>im_Admin := Some admin\<rparr>))"

definition im_require_admin :: "env \<Rightarrow> small_registry \<Rightarrow> 'a result \<Rightarrow> 'a result" where
  "im_require_admin e s k = expect (im_Admin s) ''not initialized'' (\<lambda>admin. require_auth e admin k)"

definition im_add_scanner :: "env \<Rightarrow> address \<Rightarrow> small_registry \<Rightarrow> small_registry result" where
  "im_add_scanner e scanner s = im_require_admin e s (Ok (s\<lparr>im_Scanner := (im_Scanner s)(scanner \<mapsto> True)\<rparr>))"

definition im_is_scanner :: "small_registry \<Rightarrow> address \<Rightarrow> bool" where
  "im_is_scanner s scanner = unwrap_or (im_Scanner s scanner) False"

definition im_submit_scan :: "env \<Rightarrow> address \<Rightarrow> address \<Rightarrow> string \<Rightarrow> severity_counts \<Rightarrow> small_registry \<Rightarrow> small_registry result" where
  "im_submit_scan e scanner contract_address findings_hash severity_counts s =
     (let approved = unwrap_or (im_Scanner s scanner) False in
      panic_if (\<not> approved) ''not a verified scanner'' (
      let result = \<lparr>sr_scanner = scanner, sr_timestamp = timestamp e, sr_findings_hash = findings_hash,
                    sr_severity_counts = severity_counts\<rparr>;
          s1 = s\<lparr>im_LatestScan := (im_LatestScan s)(contract_address \<mapsto> result)\<rparr>;
          history = unwrap_or (im_ScanHistory s1 contract_address) [] @ [result]
      in Ok (s1\<lparr>im_ScanHistory := (im_ScanHistory s1)(contract_address \<mapsto> history)\<rparr>)))"

definition im_get_scan :: "small_registry \<Rightarrow> address \<Rightarrow> scan_result option" where
  "im_get_scan s contract_address = im_LatestScan s contract_address"

definition im_get_history :: "small_registry \<Rightarrow> address \<Rightarrow> scan_result list" where
  "im_get_history s contract_address = unwrap_or (im_ScanHistory s contract_address) []"

definition ims_initialize :: "address \<Rightarrow> small_registry \<Rightarrow> small_registry result" where
  "ims_initialize admin s = panic_if (im_Admin s \<noteq> None) ''already initialized'' (Ok (s\<lparr>im_Admin := Some admin\<rparr>))"

definition ims_require_admin :: "env \<Rightarrow> small_registry \<Rightarrow> 'a result \<Rightarrow> 'a result" where
  "ims_require_admin e s k = expect (im_Admin s) ''not initialized'' (\<lambda>admin. require_auth e admin k)"

definition ims_add_scanner :: "env \<Rightarrow> address \<Rightarrow> small_registry \<Rightarrow> small_registry result" where
  "ims_add_scanner e scanner s = ims_require_admin e s (Ok (s\<lparr>im_Scanner := (im_Scanner s)(scanner \<mapsto> True)\<rparr>))"

definition ims_is_scanner :: "small_registry \<Rightarrow> address \<Rightarrow> bool" where
  "ims_is_scanner s scanner = unwrap_or (im_Scanner s scanner) False"

definition ims_submit_scan :: "env \<Rightarrow> address \<Rightarrow> address \<Rightarrow> string \<Rightarrow> severity_counts \<Rightarrow> small_registry \<Rightarrow> small_registry result" where
  "ims_submit_scan e scanner contract_address findings_hash severity_counts s =
     require_auth e scanner (
     let approved = unwrap_or (im_Scanner s scanner) False in
     panic_if (\<not> approved) ''not a verified scanner'' (
     let result = \<lparr>sr_scanner = scanner, sr_timestamp = timestamp e, sr_findings_hash = findings_hash,
                   sr_severity_counts = severity_counts\<rparr>;
         s1 = s\<lparr>im_LatestScan := (im_LatestScan s)(contract_address \<mapsto> result)\<rparr>;
         history = unwrap_or (im_ScanHistory s1 contract_address) [] @ [result]
     in Ok (s1\<lparr>im_ScanHistory := (im_ScanHistory s1)(contract_address \<mapsto> history)\<rparr>)))"

definition ims_get_scan :: "small_registry \<Rightarrow> address \<Rightarrow> scan_result option" where
  "ims_get_scan s contract_address = im_LatestScan s contract_address"

definition ims_get_history :: "small_registry \<Rightarrow> address \<Rightarrow> scan_result list" where
  "ims_get_history s contract_address = unwrap_or (im_ScanHistory s contract_address) []"

datatype scan_call = NInit address | NAdd address | NSubmit address address string severity_counts

fun im_exec :: "env \<Rightarrow> scan_call \<Rightarrow> small_registry \<Rightarrow> small_registry result" where
  "im_exec e (NInit a) s = im_initialize a s"
| "im_exec e (NAdd a) s = im_add_scanner e a s"
| "im_exec e (NSubmit a c h v) s = im_submit_scan e a c h v s"

fun ims_exec :: "env \<Rightarrow> scan_call \<Rightarrow> small_registry \<Rightarrow> small_registry result" where
  "ims_exec e (NInit a) s = ims_initialize a s"
| "ims_exec e (NAdd a) s = ims_add_scanner e a s"
| "ims_exec e (NSubmit a c h v) s = ims_submit_scan e a c h v s"

text \<open>The scan registry, driven by the same three calls, and what it shares with the small one.\<close>

fun as_registry_call :: "scan_call \<Rightarrow> registry_call" where
  "as_registry_call (NInit a) = RInitialize a"
| "as_registry_call (NAdd a) = RAddScanner a"
| "as_registry_call (NSubmit a c h v) = RSubmitScan a c h v"

definition small_view :: "registry \<Rightarrow> small_registry" where
  "small_view s = \<lparr>im_Admin = reg_Admin s, im_Scanner = reg_Scanner s, im_LatestScan = reg_LatestScan s,
     im_ScanHistory = reg_ScanHistory s\<rparr>"

lemmas im_defs = im_initialize_def im_add_scanner_def im_submit_scan_def im_require_admin_def
lemmas ims_defs = ims_initialize_def ims_add_scanner_def ims_submit_scan_def ims_require_admin_def

lemma store_small_view: "small_view (registry_store_result c r k s) =
   (small_view s)\<lparr>im_LatestScan := (reg_LatestScan s)(c \<mapsto> r), im_ScanHistory := (reg_ScanHistory s)(c \<mapsto> unwrap_or (reg_ScanHistory s c) [] @ [r])\<rparr>"
  by (simp add: small_view_def registry_store_result_def Let_def)

interpretation registry_small: contract_refinement "\<lambda>e c. registry_exec e (as_registry_call c)" ims_exec small_view
proof (unfold_locales, goal_cases)
  case (1 e c s s')
  show ?case
  proof (cases c)
    case (NInit a)
    with 1 show ?thesis by (auto simp: registry_initialize_def ims_defs small_view_def result_simps)
  next
    case (NAdd a)
    with 1 show ?thesis
      by (auto elim!: add_scanner_effect simp: registry_add_scanner_def ims_defs small_view_def publish_def Let_def result_simps
          split: if_splits)
  next
    case (NSubmit a k h v)
    with 1 have "authorized e a" "unwrap_or (reg_Scanner s a) False"
      and s': "s' = registry_store_result k \<lparr>sr_scanner = a, sr_timestamp = timestamp e, sr_findings_hash = h, sr_severity_counts = v\<rparr> a s"
      by (auto simp: registry_submit_scan_def Let_def result_simps)
    with NSubmit show ?thesis
      unfolding s' store_small_view by (simp add: ims_defs small_view_def Let_def)
  qed
qed

text \<open>A result counts as vouched for when its scanner signed its submission while approved.\<close>

fun vouches :: "address \<Rightarrow> scan_result \<Rightarrow> env \<Rightarrow> scan_call \<Rightarrow> small_registry \<Rightarrow> bool" where
  "vouches c r e (NSubmit a c' h v) s \<longleftrightarrow> c' = c \<and> a = sr_scanner r \<and> authorized e a \<and> im_is_scanner s a
     \<and> r = \<lparr>sr_scanner = a, sr_timestamp = timestamp e, sr_findings_hash = h, sr_severity_counts = v\<rparr>"
| "vouches c r e _ s \<longleftrightarrow> False"

lemma vouches_iff:
  "vouches c r e k s \<longleftrightarrow> k = NSubmit (sr_scanner r) c (sr_findings_hash r) (sr_severity_counts r)
     \<and> authorized e (sr_scanner r) \<and> im_is_scanner s (sr_scanner r) \<and> sr_timestamp r = timestamp e"
  by (cases k; cases r) auto

interpretation small_results: guarded_steps ims_exec "\<lambda>s t. r \<in> set (ims_get_history t c) \<longrightarrow> r \<in> set (ims_get_history s c)" "vouches c r"
  for c r
proof (unfold_locales, goal_cases)
  case (3 e k s s')
  then show ?case
    by (cases k) (auto simp: ims_defs ims_get_history_def im_is_scanner_def Let_def result_simps split: if_splits)
qed auto

text \<open>
  C34: The scan registry, driven by initialisation, scanner approval and submission, implements the repaired small registry
  (\<^verbatim>\<open>scanner_impersonation/src/secure.rs\<close>): take any run and the calls of it that returned; the small registry, given the same calls with the same signatures, accepts
  every one of them and ends with the same admin, scanners, latest scans and histories. So what the small registry guarantees holds of the scan registry: a result
  in one of its histories was submitted in the run by the scanner it names, which signed that call and was approved then.
\<close>

theorem registry_refines_small:
  defines "f \<equiv> \<lambda>e c. registry_exec e (as_registry_call c)"
  shows "run_all ims_exec (returned f xs s) (small_view s) = Ok (small_view (run_calls f xs s))
   \<and> (r \<in> set (registry_get_history (run_calls f xs registry_empty) c) \<longrightarrow>
       (\<exists>ys e k zs. returned f xs registry_empty = ys @ (e, k) # zs \<and> (e, k) \<in> set xs
          \<and> vouches c r e k (run_calls ims_exec ys im_empty)))"
proof (intro conjI impI)
  show refines: "run_all ims_exec (returned f xs s) (small_view s) = Ok (small_view (run_calls f xs s))" for s
    unfolding f_def by (rule registry_small.run_refines)
  assume "r \<in> set (registry_get_history (run_calls f xs registry_empty) c)"
  moreover have "small_view registry_empty = im_empty" by (simp add: small_view_def registry_empty_def im_empty_def)
  ultimately have "r \<in> set (ims_get_history (run_calls ims_exec (returned f xs registry_empty) im_empty) c)"
    using run_all_calls [OF refines [of registry_empty]] by (simp add: small_view_def ims_get_history_def registry_get_history_def)
  then obtain ys e k zs where "returned f xs registry_empty = ys @ (e, k) # zs" "vouches c r e k (run_calls ims_exec ys im_empty)"
    using small_results.run_guard [of r "returned f xs registry_empty" im_empty c] by (auto simp: ims_get_history_def im_empty_def)
  moreover from this(1) have "(e, k) \<in> set xs" using returned_subset [of f xs registry_empty] by auto
  ultimately show "\<exists>ys e k zs. returned f xs registry_empty = ys @ (e, k) # zs \<and> (e, k) \<in> set xs
      \<and> vouches c r e k (run_calls ims_exec ys im_empty)" by blast
qed

definition small_demo :: "(env \<times> scan_call) list" where
  "small_demo = [(signed_env [] 1, NInit (Address 2)), (signed_env [Address 2] 2, NAdd (Address 5)),
     (signed_env [] 3, NSubmit (Address 5) (Address 9) ''forged'' Map.empty),
     (signed_env [Address 5] 4, NSubmit (Address 5) (Address 9) ''h'' Map.empty)]"

lemma small_demo_history:
  "registry_get_history (run_calls (\<lambda>e c. registry_exec e (as_registry_call c)) small_demo registry_empty) (Address 9)
     = [\<lparr>sr_scanner = Address 5, sr_timestamp = 20, sr_findings_hash = ''h'', sr_severity_counts = Map.empty\<rparr>]"
  by (simp add: small_demo_def registry_empty_def registry_op_defs registry_store_result_def registry_get_history_def publish_def
      signed_env_def checked_add_def in_range_def Let_def)

theorem registry_refines_small_witness:
  "\<exists>(e, k)\<in>set small_demo. vouches (Address 9) \<lparr>sr_scanner = Address 5, sr_timestamp = 20, sr_findings_hash = ''h'', sr_severity_counts = Map.empty\<rparr> e k
     (run_calls ims_exec (take 2 small_demo) im_empty) \<and> authorized e (Address 5)"
proof -
  let ?r = "\<lparr>sr_scanner = Address 5, sr_timestamp = 20, sr_findings_hash = ''h'', sr_severity_counts = Map.empty :: severity_counts\<rparr>"
  have "?r \<in> set (registry_get_history (run_calls (\<lambda>e c. registry_exec e (as_registry_call c)) small_demo registry_empty) (Address 9))"
    unfolding small_demo_history by simp
  from registry_refines_small [THEN conjunct2, rule_format, OF this] obtain ys e k
    where ek: "(e, k) \<in> set small_demo" "vouches (Address 9) ?r e k (run_calls ims_exec ys im_empty)" by blast
  moreover have "im_is_scanner (run_calls ims_exec (take 2 small_demo) im_empty) (Address 5)"
    by (simp add: small_demo_def im_empty_def ims_defs im_is_scanner_def signed_env_def)
  ultimately show ?thesis by (intro bexI [of _ "(e, k)"]) (simp_all add: vouches_iff)
qed

text \<open>The original records a result for an approved scanner that signed nothing.\<close>

lemma scanner_impersonated:
  assumes "im_is_scanner s a"
  shows "\<exists>s'. im_submit_scan e a c h v s = Ok s'
    \<and> im_get_scan s' c = Some \<lparr>sr_scanner = a, sr_timestamp = timestamp e, sr_findings_hash = h, sr_severity_counts = v\<rparr>"
  using assms by (simp add: im_submit_scan_def im_is_scanner_def im_get_scan_def Let_def)

section \<open>scanner\_fee\_unverified\<close>

definition REGISTRATION_FEE :: int where "REGISTRATION_FEE = 100"

record fee_registry =
  fr_Token :: "address option"
  fr_Registered :: "address \<rightharpoonup> bool"

definition sf_initialize :: "address \<Rightarrow> fee_registry \<times> 'w \<Rightarrow> (fee_registry \<times> 'w) result" where
  "sf_initialize tok = (\<lambda>(s, w). Ok (s\<lparr>fr_Token := Some tok\<rparr>, w))"

definition sf_register_scanner :: "'w token_client \<Rightarrow> env \<Rightarrow> address \<Rightarrow> fee_registry \<times> 'w \<Rightarrow> (fee_registry \<times> 'w) result" where
  "sf_register_scanner tk e scanner = (\<lambda>(s, w).
     require_auth e scanner (
     unwrap (fr_Token s) (\<lambda>tok.
     and_then (tk_transfer tk tok scanner (current_contract e) REGISTRATION_FEE w) (\<lambda>w1.
     Ok (s\<lparr>fr_Registered := (fr_Registered s)(scanner \<mapsto> True)\<rparr>, w1)))))"

definition sf_is_registered :: "fee_registry \<Rightarrow> address \<Rightarrow> bool" where
  "sf_is_registered s scanner = unwrap_or (fr_Registered s scanner) False"

definition sf_vulnerable_entry :: "'w token_client \<Rightarrow> env \<Rightarrow> address \<Rightarrow> int \<Rightarrow> fee_registry \<times> 'w \<Rightarrow> (fee_registry \<times> 'w) result" where
  "sf_vulnerable_entry tk e actor amount = (\<lambda>(s, w).
     require_auth e actor (
     unwrap (fr_Token s) (\<lambda>tok.
     and_then (tk_transfer tk tok actor (current_contract e) amount w) (\<lambda>w1.
     Ok (s\<lparr>fr_Registered := (fr_Registered s)(actor \<mapsto> True)\<rparr>, w1)))))"

definition sfs_initialize :: "address \<Rightarrow> fee_registry \<times> 'w \<Rightarrow> (fee_registry \<times> 'w) result" where
  "sfs_initialize tok = (\<lambda>(s, w). Ok (s\<lparr>fr_Token := Some tok\<rparr>, w))"

definition sfs_register_scanner :: "'w token_client \<Rightarrow> env \<Rightarrow> address \<Rightarrow> fee_registry \<times> 'w \<Rightarrow> (fee_registry \<times> 'w) result" where
  "sfs_register_scanner tk e scanner = (\<lambda>(s, w).
     require_auth e scanner (
     unwrap (fr_Token s) (\<lambda>tok.
     let contract_addr = current_contract e; pre = tk_balance tk tok contract_addr w in
     and_then (tk_transfer tk tok scanner contract_addr REGISTRATION_FEE w) (\<lambda>w1.
     let post = tk_balance tk tok contract_addr w1 in
     arith (checked_sub I128 post pre) (\<lambda>received.
     ensure (received \<ge> REGISTRATION_FEE) ''insufficient fee received after transfer'' (
     Ok (s\<lparr>fr_Registered := (fr_Registered s)(scanner \<mapsto> True)\<rparr>, w1)))))))"

definition sfs_is_registered :: "fee_registry \<Rightarrow> address \<Rightarrow> bool" where
  "sfs_is_registered s scanner = unwrap_or (fr_Registered s scanner) False"

text \<open>Registrations at the deployment \<open>v\<close>.\<close>

definition sfs_exec :: "'w token_client \<Rightarrow> address \<Rightarrow> env \<Rightarrow> address \<Rightarrow> fee_registry \<times> 'w \<Rightarrow> (fee_registry \<times> 'w) result" where
  "sfs_exec tk v e = sfs_register_scanner tk (e\<lparr>current_contract := v\<rparr>)"

interpretation fees: growing_flow "sfs_exec tk v" "\<lambda>x. fr_Token (fst x) = Some t" "\<lambda>x. tk_balance tk t v (snd x)" "\<lambda>e c x. REGISTRATION_FEE"
  for tk :: "'w token_client" and v t
proof (unfold_locales, goal_cases)
  case (1 x e c x')
  then show ?case by (cases x) (auto simp: sfs_exec_def sfs_register_scanner_def Let_def result_simps)
next
  case (2 x e c x')
  then show ?case by (cases x) (auto simp: sfs_exec_def sfs_register_scanner_def Let_def result_simps int_simps)
qed

text \<open>
  Fees of the repaired registry (\<^verbatim>\<open>scanner_fee_unverified/src/secure.rs\<close>): whatever the token does, as many fees as there were registrations
  have arrived at the registry. With the fee token of the crate the original registers scanners that paid less.
\<close>

theorem fees_arrive:
  assumes "fr_Token s = Some t"
  shows "tk_balance tk t v w + REGISTRATION_FEE * int (length (successes (sfs_exec tk v) xs (s, w)))
    \<le> tk_balance tk t v (snd (run_calls (sfs_exec tk v) xs (s, w)))"
  using fees.run_grows [of "(s, w)" t tk v xs] assms run_flow_count [of "sfs_exec tk v" "\<lambda>c. True" REGISTRATION_FEE xs "(s, w)"]
  by simp

theorem fees_arrive_witness:
  "100 \<le> tk_balance std_tokens (Address 8) (Address 99) (snd (run_calls (sfs_exec std_tokens (Address 99)) [(signed_env [Address 5] 1, Address 5)]
     (\<lparr>fr_Token = Some (Address 8), fr_Registered = Map.empty\<rparr>, \<lambda>_. [Address 5 \<mapsto> 150])))"
proof -
  let ?x = "(\<lparr>fr_Token = Some (Address 8), fr_Registered = Map.empty\<rparr>, (\<lambda>_. [Address 5 \<mapsto> 150]) :: address \<Rightarrow> address \<rightharpoonup> int)"
  have "length (successes (sfs_exec std_tokens (Address 99)) [(signed_env [Address 5] 1, Address 5)] ?x) = 1"
    by (simp add: sfs_exec_def sfs_register_scanner_def std_tokens_def std_transfer_def std_balance_def REGISTRATION_FEE_def
        signed_env_def checked_ops in_range_def Let_def)
  then show ?thesis
    using fees_arrive [of "fst ?x" "Address 8" std_tokens "Address 99" "snd ?x" "[(signed_env [Address 5] 1, Address 5)]"]
    by (simp add: REGISTRATION_FEE_def std_tokens_def std_balance_def)
qed

lemma fee_short_registered:
  assumes "sf_register_scanner fee_tokens e a (s, w) = Ok (s', w')" and "fr_Token s = Some t" and "a \<noteq> current_contract e"
  shows "sf_is_registered s' a \<and> tk_balance fee_tokens t (current_contract e) w' = tk_balance fee_tokens t (current_contract e) w + 90
    \<and> sfs_register_scanner fee_tokens e a (s, w) \<noteq> Ok z"
  using assms
  by (cases z) (auto simp: sf_register_scanner_def sfs_register_scanner_def sf_is_registered_def REGISTRATION_FEE_def
      fee_tokens_def fee_tokens_unsound result_simps int_simps Let_def)

section \<open>severity\_reporter\_trust\<close>

definition MIN_REPUTATION :: int where "MIN_REPUTATION = 10"
definition SEV_NONE :: int where "SEV_NONE = 0"
definition SEV_CRITICAL :: int where "SEV_CRITICAL = 4"

record risk_registry =
  rr_Risk :: "address \<rightharpoonup> int"
  rr_Reputation :: "address \<rightharpoonup> int"

definition rt_add_reputation :: "address \<Rightarrow> int \<Rightarrow> risk_registry \<Rightarrow> risk_registry result" where
  "rt_add_reputation scanner delta s =
     (let current = get0 (rr_Reputation s) scanner in
      arith (checked_add I32 current delta) (\<lambda>n. Ok (s\<lparr>rr_Reputation := (rr_Reputation s)(scanner \<mapsto> n)\<rparr>)))"

definition rt_get_reputation :: "risk_registry \<Rightarrow> address \<Rightarrow> int" where
  "rt_get_reputation s scanner = get0 (rr_Reputation s) scanner"

definition rt_report :: "env \<Rightarrow> address \<Rightarrow> address \<Rightarrow> int \<Rightarrow> risk_registry \<Rightarrow> risk_registry result" where
  "rt_report e scanner target severity s = require_auth e scanner (Ok (s\<lparr>rr_Risk := (rr_Risk s)(target \<mapsto> severity)\<rparr>))"

definition rt_get_risk :: "risk_registry \<Rightarrow> address \<Rightarrow> int" where
  "rt_get_risk s target = get0 (rr_Risk s) target"

definition rt_vulnerable_entry :: "env \<Rightarrow> address \<Rightarrow> int \<Rightarrow> risk_registry \<Rightarrow> risk_registry result" where
  "rt_vulnerable_entry e actor amount s =
     require_auth e actor (
     let severity = (if amount \<ge> SEV_CRITICAL then SEV_CRITICAL else if amount > 0 then cast_to U32 amount else SEV_NONE) in
     Ok (s\<lparr>rr_Risk := (rr_Risk s)(actor \<mapsto> severity)\<rparr>))"

definition rts_add_reputation :: "address \<Rightarrow> int \<Rightarrow> risk_registry \<Rightarrow> risk_registry result" where
  "rts_add_reputation scanner delta s =
     (let current = get0 (rr_Reputation s) scanner in
      arith (checked_add I32 current delta) (\<lambda>n. Ok (s\<lparr>rr_Reputation := (rr_Reputation s)(scanner \<mapsto> n)\<rparr>)))"

definition rts_get_reputation :: "risk_registry \<Rightarrow> address \<Rightarrow> int" where
  "rts_get_reputation s scanner = get0 (rr_Reputation s) scanner"

definition rts_report :: "env \<Rightarrow> address \<Rightarrow> address \<Rightarrow> int \<Rightarrow> risk_registry \<Rightarrow> risk_registry result" where
  "rts_report e scanner target severity s =
     require_auth e scanner (
     let rep = get0 (rr_Reputation s) scanner in
     ensure (rep \<ge> MIN_REPUTATION) ''scanner reputation too low'' (
     Ok (s\<lparr>rr_Risk := (rr_Risk s)(target \<mapsto> severity)\<rparr>)))"

definition rts_get_risk :: "risk_registry \<Rightarrow> address \<Rightarrow> int" where
  "rts_get_risk s target = get0 (rr_Risk s) target"

datatype risk_call = KReputation address int | KReport address address int

fun rts_exec :: "env \<Rightarrow> risk_call \<Rightarrow> risk_registry \<Rightarrow> risk_registry result" where
  "rts_exec e (KReputation a d) s = rts_add_reputation a d s"
| "rts_exec e (KReport a c v) s = rts_report e a c v s"

fun reports_risk :: "address \<Rightarrow> env \<Rightarrow> risk_call \<Rightarrow> risk_registry \<Rightarrow> int \<Rightarrow> bool" where
  "reports_risk t e (KReport a c v) s r \<longleftrightarrow> c = t \<and> v = r \<and> authorized e a \<and> MIN_REPUTATION \<le> rts_get_reputation s a"
| "reports_risk t e (KReputation a d) s r \<longleftrightarrow> False"

fun grants_reputation :: "address \<Rightarrow> risk_call \<Rightarrow> int" where
  "grants_reputation a (KReputation b d) = (if b = a then d else 0)"
| "grants_reputation a (KReport b c v) = 0"

interpretation risks: written_view rts_exec "\<lambda>s. rts_get_risk s t" "reports_risk t"
  for t
proof (unfold_locales, goal_cases)
  case (1 e c s s')
  then show ?case
    by (cases c) (auto simp: rts_add_reputation_def rts_report_def rts_get_risk_def rts_get_reputation_def Let_def result_simps split: if_splits)
qed

interpretation reputations: conserved_flow rts_exec "\<lambda>_. True" "\<lambda>s. rts_get_reputation s a" "\<lambda>e c s. grants_reputation a c"
  for a
proof (unfold_locales, goal_cases)
  case (2 s e c s')
  then show ?case
    by (cases c) (auto simp: rts_add_reputation_def rts_report_def rts_get_reputation_def Let_def result_simps int_simps)
qed simp

text \<open>
  Risk scores of the repaired registry (\<^verbatim>\<open>severity_reporter_trust/src/secure.rs\<close>): the score of a contract is the initial one or the one of a
  signed report by a scanner whose reputation, the sum of what was granted to it until then, had reached the minimum.
\<close>

theorem risk_reported_by_reputable:
  assumes "rts_get_risk (run_calls rts_exec xs s) t \<noteq> rts_get_risk s t"
  shows "\<exists>ys e a v zs. xs = ys @ (e, KReport a t v) # zs \<and> v = rts_get_risk (run_calls rts_exec xs s) t \<and> authorized e a
    \<and> MIN_REPUTATION \<le> rts_get_reputation s a + run_flow rts_exec (\<lambda>e c s. grants_reputation a c) ys s"
proof -
  obtain ys e c zs where c: "xs = ys @ (e, c) # zs" "reports_risk t e c (run_calls rts_exec ys s) (rts_get_risk (run_calls rts_exec xs s) t)"
    using risks.run_writes [OF assms] by blast
  then obtain a where "c = KReport a t (rts_get_risk (run_calls rts_exec xs s) t)" "authorized e a"
      "MIN_REPUTATION \<le> rts_get_reputation (run_calls rts_exec ys s) a"
    by (cases c) auto
  with c(1) show ?thesis
    using reputations.run_conserves [where s = s and xs = ys and a = a] by auto
qed

theorem risk_reported_by_reputable_witness:
  "\<exists>e a. authorized e a \<and> (e, KReport a (Address 9) 3) \<in> set [(signed_env [] 1, KReputation (Address 5) 12), (signed_env [Address 5] 2, KReport (Address 5) (Address 9) 3)]"
proof -
  let ?xs = "[(signed_env [] 1, KReputation (Address 5) 12), (signed_env [Address 5] 2, KReport (Address 5) (Address 9) 3)]"
  let ?s = "\<lparr>rr_Risk = Map.empty, rr_Reputation = Map.empty\<rparr>"
  have r: "rts_get_risk (run_calls rts_exec ?xs ?s) (Address 9) = 3" "rts_get_risk ?s (Address 9) = 0"
    by (simp_all add: rts_add_reputation_def rts_report_def rts_get_risk_def MIN_REPUTATION_def signed_env_def checked_add_def in_range_def)
  then have "rts_get_risk (run_calls rts_exec ?xs ?s) (Address 9) \<noteq> rts_get_risk ?s (Address 9)" by simp
  from risk_reported_by_reputable [OF this] obtain ys e a v zs
    where "?xs = ys @ (e, KReport a (Address 9) v) # zs" "v = 3" "authorized e a"
    unfolding r by blast
  then show ?thesis by (metis in_set_conv_decomp)
qed

text \<open>But reputation is for everyone to grant, in both halves.\<close>

lemma reputation_self_granted:
  assumes "authorized e a" and "rts_get_reputation s a = 0"
  shows "\<exists>s1 s2. rts_add_reputation a MIN_REPUTATION s = Ok s1 \<and> rts_report e a t v s1 = Ok s2 \<and> rts_get_risk s2 t = v"
  using assms by (simp add: rts_add_reputation_def rts_report_def rts_get_reputation_def rts_get_risk_def MIN_REPUTATION_def
      checked_add_def in_range_def)

lemma unverified_report:
  assumes "authorized e a"
  shows "\<exists>s'. rt_report e a t v s = Ok s' \<and> rt_get_risk s' t = v"
  using assms by (simp add: rt_report_def rt_get_risk_def)

section \<open>verifier\_threshold\_ignored\<close>

record report_registry =
  rg_Threshold :: "int option"
  rg_Approvals :: "int \<rightharpoonup> int"
  rg_Finalized :: "int \<rightharpoonup> bool"

definition vt_set_threshold :: "env \<Rightarrow> address \<Rightarrow> int \<Rightarrow> report_registry \<Rightarrow> report_registry result" where
  "vt_set_threshold e admin threshold s = require_auth e admin (Ok (s\<lparr>rg_Threshold := Some threshold\<rparr>))"

definition vt_approve :: "env \<Rightarrow> address \<Rightarrow> int \<Rightarrow> report_registry \<Rightarrow> report_registry result" where
  "vt_approve e verifier report_id s =
     require_auth e verifier (
     let count = get0 (rg_Approvals s) report_id in
     arith (checked_add U32 count 1) (\<lambda>n. Ok (s\<lparr>rg_Approvals := (rg_Approvals s)(report_id \<mapsto> n)\<rparr>)))"

definition vt_finalize_report :: "int \<Rightarrow> report_registry \<Rightarrow> report_registry result" where
  "vt_finalize_report report_id s =
     (let approvals = get0 (rg_Approvals s) report_id in
      panic_if (approvals = 0) ''no approvals'' (
      Ok (s\<lparr>rg_Finalized := (rg_Finalized s)(report_id \<mapsto> True)\<rparr>)))"

definition vt_is_finalized :: "report_registry \<Rightarrow> int \<Rightarrow> bool" where
  "vt_is_finalized s report_id = unwrap_or (rg_Finalized s report_id) False"

definition vt_approval_count :: "report_registry \<Rightarrow> int \<Rightarrow> int" where
  "vt_approval_count s report_id = get0 (rg_Approvals s) report_id"

definition vts_set_threshold :: "env \<Rightarrow> address \<Rightarrow> int \<Rightarrow> report_registry \<Rightarrow> report_registry result" where
  "vts_set_threshold e admin threshold s =
     require_auth e admin (
     panic_if (threshold = 0) ''threshold must be > 0'' (
     Ok (s\<lparr>rg_Threshold := Some threshold\<rparr>)))"

definition vts_approve :: "env \<Rightarrow> address \<Rightarrow> int \<Rightarrow> report_registry \<Rightarrow> report_registry result" where
  "vts_approve e verifier report_id s =
     require_auth e verifier (
     let count = get0 (rg_Approvals s) report_id in
     arith (checked_add U32 count 1) (\<lambda>n. Ok (s\<lparr>rg_Approvals := (rg_Approvals s)(report_id \<mapsto> n)\<rparr>)))"

definition vts_finalize_report :: "int \<Rightarrow> report_registry \<Rightarrow> report_registry result" where
  "vts_finalize_report report_id s =
     expect (rg_Threshold s) ''threshold not set'' (\<lambda>threshold.
     let approvals = get0 (rg_Approvals s) report_id in
     panic_if (approvals < threshold) ''threshold not met'' (
     Ok (s\<lparr>rg_Finalized := (rg_Finalized s)(report_id \<mapsto> True)\<rparr>)))"

definition vts_is_finalized :: "report_registry \<Rightarrow> int \<Rightarrow> bool" where
  "vts_is_finalized s report_id = unwrap_or (rg_Finalized s report_id) False"

definition vts_approval_count :: "report_registry \<Rightarrow> int \<Rightarrow> int" where
  "vts_approval_count s report_id = get0 (rg_Approvals s) report_id"

datatype report_call = HThreshold address int | HApprove address int | HFinalize int

fun vts_exec :: "env \<Rightarrow> report_call \<Rightarrow> report_registry \<Rightarrow> report_registry result" where
  "vts_exec e (HThreshold a n) s = vts_set_threshold e a n s"
| "vts_exec e (HApprove a r) s = vts_approve e a r s"
| "vts_exec e (HFinalize r) s = vts_finalize_report r s"

fun approves_report :: "int \<Rightarrow> report_call \<Rightarrow> bool" where
  "approves_report r (HApprove a r') = (r' = r)"
| "approves_report r c = False"

fun finalizes :: "int \<Rightarrow> env \<Rightarrow> report_call \<Rightarrow> report_registry \<Rightarrow> bool" where
  "finalizes r e (HFinalize r') s \<longleftrightarrow> r' = r \<and> (\<exists>t. rg_Threshold s = Some t \<and> t \<le> vts_approval_count s r)"
| "finalizes r e c s \<longleftrightarrow> False"

lemmas vts_defs = vts_set_threshold_def vts_approve_def vts_finalize_report_def vts_is_finalized_def vts_approval_count_def Let_def

interpretation approvals: conserved_flow vts_exec "\<lambda>_. True" "\<lambda>s. vts_approval_count s r" "\<lambda>e c s. if approves_report r c then 1 else 0"
  for r
proof (unfold_locales, goal_cases)
  case (2 s e c s')
  then show ?case by (cases c) (auto simp: vts_defs result_simps int_simps)
qed simp

interpretation finalized: guarded_steps vts_exec "\<lambda>s t. vts_is_finalized t r \<longrightarrow> vts_is_finalized s r" "finalizes r"
  for r
proof (unfold_locales, goal_cases)
  case (3 e c s s')
  then show ?case by (cases c) (auto simp: vts_defs result_simps split: if_splits)
qed auto

text \<open>
  Finalised reports (\<^verbatim>\<open>verifier_threshold_ignored/src/secure.rs\<close>): when a report was finalised in a run, then by a call before which at least as many
  approvals of it had returned as the threshold then in force. The original finalises after one approval.
\<close>

theorem finalized_reached_threshold:
  assumes "vts_is_finalized (run_calls vts_exec xs s) r" and "\<not> vts_is_finalized s r" and "rg_Approvals s r = None"
  shows "\<exists>ys e zs t. xs = ys @ (e, HFinalize r) # zs \<and> rg_Threshold (run_calls vts_exec ys s) = Some t
    \<and> t \<le> int (length (filter (approves_report r) (successes vts_exec ys s)))"
proof -
  obtain ys e c zs where c: "xs = ys @ (e, c) # zs" "finalizes r e c (run_calls vts_exec ys s)"
    using finalized.run_guard [where r = r and xs = xs and s = s] assms(1,2) by blast
  moreover have "vts_approval_count (run_calls vts_exec ys s) r = int (length (filter (approves_report r) (successes vts_exec ys s)))"
    using approvals.run_conserves [where s = s and xs = ys and r = r] assms(3) run_flow_count [of vts_exec "approves_report r" 1 ys s]
    by (simp add: vts_approval_count_def get0_def)
  ultimately show ?thesis by (cases c) auto
qed

definition report_demo :: "(env \<times> report_call) list" where
  "report_demo = [(signed_env [Address 2] 1, HThreshold (Address 2) 2), (signed_env [Address 5] 2, HApprove (Address 5) 7),
     (signed_env [Address 6] 3, HApprove (Address 6) 7), (signed_env [] 4, HFinalize 7)]"

theorem finalized_reached_threshold_witness:
  "\<exists>ys e zs. report_demo = ys @ (e, HFinalize 7) # zs"
proof -
  let ?s = "\<lparr>rg_Threshold = None, rg_Approvals = Map.empty, rg_Finalized = Map.empty\<rparr>"
  have "vts_is_finalized (run_calls vts_exec report_demo ?s) 7"
    by (simp add: report_demo_def vts_defs signed_env_def checked_add_def in_range_def)
  from finalized_reached_threshold [OF this] show ?thesis by (auto simp: vts_defs)
qed

text \<open>A verifier counts as often as it signs, and the threshold is whatever the last signer set.\<close>

lemma one_verifier_meets_threshold:
  assumes "authorized e a" and "rg_Threshold s = Some 2" and "rg_Approvals s r = None"
  shows "\<exists>s1 s2 s3. vts_approve e a r s = Ok s1 \<and> vts_approve e a r s1 = Ok s2 \<and> vts_finalize_report r s2 = Ok s3"
  using assms by (simp add: vts_defs get0_def checked_add_def in_range_def)

lemma one_approval_finalizes:
  assumes "vt_approval_count s r = 1"
  shows "\<exists>s'. vt_finalize_report r s = Ok s'"
  using assms by (simp add: vt_finalize_report_def vt_approval_count_def)

section \<open>scan\_result\_overwrite\<close>

datatype severity = Informational | Low | Medium | High | Critical

primrec rank :: "severity \<Rightarrow> int" where
  "rank Informational = 0"
| "rank Low = 1"
| "rank Medium = 2"
| "rank High = 3"
| "rank Critical = 4"

record detail_result =
  dr_severity :: severity
  dr_detail :: string

record result_store =
  rs_Result :: "address \<rightharpoonup> detail_result"

record result_history =
  rs_Latest :: "address \<rightharpoonup> detail_result"
  rs_Highest :: "address \<rightharpoonup> detail_result"
  rs_History :: "address \<rightharpoonup> detail_result list"

definition HISTORY_CAP :: int where "HISTORY_CAP = 50"

definition so_submit :: "address \<Rightarrow> severity \<Rightarrow> string \<Rightarrow> result_store \<Rightarrow> result_store result" where
  "so_submit ct severity detail s =
     (let result = \<lparr>dr_severity = severity, dr_detail = detail\<rparr> in
      Ok (s\<lparr>rs_Result := (rs_Result s)(ct \<mapsto> result)\<rparr>))"

definition so_latest :: "result_store \<Rightarrow> address \<Rightarrow> detail_result option" where
  "so_latest s ct = rs_Result s ct"

definition so_vulnerable_entry :: "address \<Rightarrow> int \<Rightarrow> result_store \<Rightarrow> result_store result" where
  "so_vulnerable_entry actor amount s =
     (let detail = ''scanner hook''; severity = (if amount > 0 then Informational else Critical) in
      so_submit actor severity detail s)"

definition sos_submit :: "address \<Rightarrow> severity \<Rightarrow> string \<Rightarrow> result_history \<Rightarrow> result_history result" where
  "sos_submit ct severity detail s =
     (let result = \<lparr>dr_severity = severity, dr_detail = detail\<rparr>;
          s1 = s\<lparr>rs_Latest := (rs_Latest s)(ct \<mapsto> result)\<rparr>;
          highest = rs_Highest s1 ct;
          s2 = (if unwrap_or (map_option (\<lambda>prior. rank (dr_severity result) \<ge> rank (dr_severity prior)) highest) True
                then s1\<lparr>rs_Highest := (rs_Highest s1)(ct \<mapsto> result)\<rparr> else s1);
          history = unwrap_or (rs_History s2 ct) [];
          history' = (if int (length history) \<ge> HISTORY_CAP then tl history else history)
      in Ok (s2\<lparr>rs_History := (rs_History s2)(ct \<mapsto> history' @ [result])\<rparr>))"

definition sos_latest :: "result_history \<Rightarrow> address \<Rightarrow> detail_result option" where
  "sos_latest s ct = rs_Latest s ct"

definition sos_highest :: "result_history \<Rightarrow> address \<Rightarrow> detail_result option" where
  "sos_highest s ct = rs_Highest s ct"

definition sos_history :: "result_history \<Rightarrow> address \<Rightarrow> detail_result list" where
  "sos_history s ct = unwrap_or (rs_History s ct) []"

instantiation severity :: linorder
begin

definition less_eq_severity :: "severity \<Rightarrow> severity \<Rightarrow> bool" where
  "less_eq_severity a b \<longleftrightarrow> rank a \<le> rank b"

definition less_severity :: "severity \<Rightarrow> severity \<Rightarrow> bool" where
  "less_severity a b \<longleftrightarrow> rank a < rank b"

instance
proof
  fix a b :: severity
  show "a = b" if "a \<le> b" "b \<le> a"
    using that by (cases a; cases b) (auto simp: less_eq_severity_def)
qed (auto simp: less_eq_severity_def less_severity_def)

end

text \<open>What a store of results has to answer, given all results submitted for one contract, oldest first.\<close>

definition last_result :: "detail_result list \<Rightarrow> detail_result option" where
  "last_result rs = (if rs = [] then None else Some (last rs))"

fun worst_result :: "detail_result list \<Rightarrow> detail_result option" where
  "worst_result [] = None"
| "worst_result (r # rs) = (case worst_result rs of None \<Rightarrow> Some r
     | Some q \<Rightarrow> Some (if dr_severity r \<le> dr_severity q then q else r))"

definition recent_results :: "detail_result list \<Rightarrow> detail_result list" where
  "recent_results rs = drop (length rs - 50) rs"

fun submitted :: "address \<Rightarrow> (env \<times> address \<times> severity \<times> string) list \<Rightarrow> detail_result list" where
  "submitted ct [] = []"
| "submitted ct ((e, c, v, d) # xs) = (if c = ct then [\<lparr>dr_severity = v, dr_detail = d\<rparr>] else []) @ submitted ct xs"

definition sos_exec :: "env \<Rightarrow> address \<times> severity \<times> string \<Rightarrow> result_history \<Rightarrow> result_history result" where
  "sos_exec e = (\<lambda>(c, v, d). sos_submit c v d)"

lemma worst_result_snoc: "worst_result (rs @ [r]) = Some (case worst_result rs of None \<Rightarrow> r
     | Some q \<Rightarrow> if dr_severity q \<le> dr_severity r then r else q)"
  by (induction rs) (auto split: option.splits)

lemma worst_result_None: "worst_result rs = None \<longleftrightarrow> rs = []"
  by (cases rs) (auto split: option.splits)

lemma worst_result_max: "worst_result rs = Some r \<Longrightarrow> r \<in> set rs \<and> (\<forall>q\<in>set rs. dr_severity q \<le> dr_severity r)"
  by (induction rs arbitrary: r) (auto simp: worst_result_None split: option.splits if_splits)

lemma recent_results_snoc:
  "recent_results (rs @ [r]) = (if 50 \<le> length (recent_results rs) then tl (recent_results rs) else recent_results rs) @ [r]"
proof (cases "50 \<le> length rs")
  case True
  then have "length rs + 1 - 50 = Suc (length rs - 50)" by simp
  with True show ?thesis by (simp add: recent_results_def drop_Suc drop_tl)
qed (simp add: recent_results_def)

lemma submitted_snoc: "submitted ct (xs @ [(e, c, v, d)]) = submitted ct xs @ (if c = ct then [\<lparr>dr_severity = v, dr_detail = d\<rparr>] else [])"
  by (induction ct xs rule: submitted.induct) auto

lemma sos_tracks:
  assumes "rs_Latest s = Map.empty" "rs_Highest s = Map.empty" "rs_History s = Map.empty"
  shows "sos_latest (run_calls sos_exec xs s) ct = last_result (submitted ct xs)
    \<and> sos_highest (run_calls sos_exec xs s) ct = worst_result (submitted ct xs)
    \<and> sos_history (run_calls sos_exec xs s) ct = recent_results (submitted ct xs)"
proof (induction xs rule: rev_induct)
  case Nil
  show ?case using assms by (simp add: sos_latest_def sos_highest_def sos_history_def last_result_def recent_results_def)
next
  case (snoc x xs)
  obtain e c v d where x: "x = (e, c, v, d)" by (cases x) auto
  show ?case
  proof (cases "c = ct")
    case True
    with snoc x show ?thesis
      by (cases "worst_result (submitted ct xs)")
        (auto simp: run_calls_append submitted_snoc sos_exec_def sos_submit_def sos_latest_def sos_highest_def sos_history_def last_result_def
          worst_result_snoc recent_results_snoc HISTORY_CAP_def less_eq_severity_def Let_def)
  next
    case False
    with snoc x show ?thesis
      by (auto simp: run_calls_append submitted_snoc sos_exec_def sos_submit_def sos_latest_def sos_highest_def sos_history_def Let_def
          split: if_splits)
  qed
qed

text \<open>
  The repaired store (\<^verbatim>\<open>scan_result_overwrite/src/secure.rs\<close>) answers as the list of everything submitted would: the latest result is the last one, the
  highest is the most recent one of maximal severity, and the history is the last fifty. In particular a benign result does not
  hide a critical one, as it does in the original.
\<close>

theorem results_tracked:
  assumes "s = \<lparr>rs_Latest = Map.empty, rs_Highest = Map.empty, rs_History = Map.empty\<rparr>"
  shows "sos_latest (run_calls sos_exec xs s) ct = last_result (submitted ct xs)
    \<and> sos_history (run_calls sos_exec xs s) ct = recent_results (submitted ct xs)
    \<and> sos_highest (run_calls sos_exec xs s) ct = worst_result (submitted ct xs)
    \<and> (\<forall>q\<in>set (submitted ct xs). \<exists>r\<in>set (submitted ct xs). sos_highest (run_calls sos_exec xs s) ct = Some r \<and> dr_severity q \<le> dr_severity r)"
proof -
  have t: "sos_latest (run_calls sos_exec xs s) ct = last_result (submitted ct xs)
    \<and> sos_highest (run_calls sos_exec xs s) ct = worst_result (submitted ct xs)
    \<and> sos_history (run_calls sos_exec xs s) ct = recent_results (submitted ct xs)"
    by (rule sos_tracks) (simp_all add: assms)
  then show ?thesis
    by (cases "worst_result (submitted ct xs)") (auto simp: worst_result_None dest: worst_result_max)
qed

theorem results_tracked_witness:
  "sos_highest (run_calls sos_exec [(signed_env [] 1, Address 9, Critical, ''a''), (signed_env [] 2, Address 9, Low, ''b'')]
     \<lparr>rs_Latest = Map.empty, rs_Highest = Map.empty, rs_History = Map.empty\<rparr>) (Address 9) = Some \<lparr>dr_severity = Critical, dr_detail = ''a''\<rparr>"
  using results_tracked [OF refl, of "[(signed_env [] 1, Address 9, Critical, ''a''), (signed_env [] 2, Address 9, Low, ''b'')]" "Address 9"]
  by (simp add: less_eq_severity_def)

lemma critical_overwritten:
  "\<exists>s1 s2. so_submit c Critical d s = Ok s1 \<and> so_submit c Informational d' s1 = Ok s2
     \<and> so_latest s2 c = Some \<lparr>dr_severity = Informational, dr_detail = d'\<rparr>"
  by (simp add: so_submit_def so_latest_def)

section \<open>scanner\_metadata\_unbounded\<close>

definition MAX_METADATA_LEN :: int where "MAX_METADATA_LEN = 256"

record metadata_registry =
  mr_Metadata :: "address \<rightharpoonup> string"

definition mu_register_scanner :: "env \<Rightarrow> address \<Rightarrow> string \<Rightarrow> metadata_registry \<Rightarrow> metadata_registry result" where
  "mu_register_scanner e scanner metadata s = require_auth e scanner (Ok (s\<lparr>mr_Metadata := (mr_Metadata s)(scanner \<mapsto> metadata)\<rparr>))"

definition mu_get_metadata :: "metadata_registry \<Rightarrow> address \<Rightarrow> string" where
  "mu_get_metadata s scanner = unwrap_or (mr_Metadata s scanner) []"

definition mu_vulnerable_entry :: "env \<Rightarrow> address \<Rightarrow> int \<Rightarrow> metadata_registry \<Rightarrow> metadata_registry result" where
  "mu_vulnerable_entry e actor amount s =
     require_auth e actor (
     let metadata = (if amount > 0 then ''aaaaaaaaaaaaaaaaaaaaaaaaaaaaaaaaaaaaaaaaaaaaaaaaaaaaaaaaaaaaaaaa'' else ''x'') in
     Ok (s\<lparr>mr_Metadata := (mr_Metadata s)(actor \<mapsto> metadata)\<rparr>))"

definition mus_register_scanner :: "env \<Rightarrow> address \<Rightarrow> string \<Rightarrow> metadata_registry \<Rightarrow> metadata_registry result" where
  "mus_register_scanner e scanner metadata s =
     require_auth e scanner (
     ensure (length metadata \<noteq> 0) ''metadata must not be empty'' (
     ensure (int (length metadata) \<le> MAX_METADATA_LEN) ''metadata exceeds maximum allowed length'' (
     Ok (s\<lparr>mr_Metadata := (mr_Metadata s)(scanner \<mapsto> metadata)\<rparr>))))"

definition mus_get_metadata :: "metadata_registry \<Rightarrow> address \<Rightarrow> string" where
  "mus_get_metadata s scanner = unwrap_or (mr_Metadata s scanner) []"

definition mus_exec :: "env \<Rightarrow> address \<times> string \<Rightarrow> metadata_registry \<Rightarrow> metadata_registry result" where
  "mus_exec e = (\<lambda>(a, m). mus_register_scanner e a m)"

fun writes_metadata :: "address \<Rightarrow> env \<Rightarrow> address \<times> string \<Rightarrow> metadata_registry \<Rightarrow> string \<Rightarrow> bool" where
  "writes_metadata a e (b, m) s v \<longleftrightarrow> b = a \<and> m = v \<and> authorized e a \<and> m \<noteq> [] \<and> int (length m) \<le> MAX_METADATA_LEN"

interpretation metadata: written_view mus_exec "\<lambda>s. mus_get_metadata s a" "writes_metadata a"
  for a
proof (unfold_locales, goal_cases)
  case (1 e c s s')
  then show ?case
    by (cases c) (auto simp: mus_exec_def mus_register_scanner_def mus_get_metadata_def result_simps split: if_splits)
qed

text \<open>
  Metadata of the repaired registry (\<^verbatim>\<open>scanner_metadata_unbounded/src/secure.rs\<close>): what a scanner has stored at the end of a run, if not what
  it started with, it registered itself, and it is between one and 256 bytes long.
\<close>

theorem metadata_bounded:
  assumes "mus_get_metadata (run_calls mus_exec xs s) a \<noteq> mus_get_metadata s a"
  shows "int (length (mus_get_metadata (run_calls mus_exec xs s) a)) \<in> {1..MAX_METADATA_LEN}
    \<and> (\<exists>e. (e, a, mus_get_metadata (run_calls mus_exec xs s) a) \<in> set xs \<and> authorized e a)"
proof -
  obtain ys e c zs where "xs = ys @ (e, c) # zs" "writes_metadata a e c (run_calls mus_exec ys s) (mus_get_metadata (run_calls mus_exec xs s) a)"
    using metadata.run_writes [OF assms] by blast
  then show ?thesis by (cases c) (auto simp: Suc_le_eq)
qed

theorem metadata_bounded_witness:
  "int (length (mus_get_metadata (run_calls mus_exec [(signed_env [Address 5] 1, Address 5, ''scan'')] \<lparr>mr_Metadata = Map.empty\<rparr>) (Address 5))) \<in> {1..256}"
  using metadata_bounded [of "[(signed_env [Address 5] 1, Address 5, ''scan'')]" "\<lparr>mr_Metadata = Map.empty\<rparr>" "Address 5"]
  by (simp add: mus_exec_def mus_register_scanner_def mus_get_metadata_def signed_env_def MAX_METADATA_LEN_def)

lemma metadata_unbounded:
  assumes "authorized e a"
  shows "\<exists>s'. mu_register_scanner e a (replicate n CHR ''x'') s = Ok s' \<and> length (mu_get_metadata s' a) = n"
  using assms by (simp add: mu_register_scanner_def mu_get_metadata_def)

section \<open>report\_hash\_unbound\_contract\<close>

text \<open>The hash and the XDR of addresses and of hashes are parameters: \<open>h\<close>, \<open>x\<close> and \<open>xb\<close>.\<close>

record hash_registry =
  hr_Report :: "address \<rightharpoonup> bytes"

definition vulnerable_report_signature :: "(bytes \<Rightarrow> bytes) \<Rightarrow> (bytes \<Rightarrow> bytes) \<Rightarrow> bytes \<Rightarrow> bytes" where
  "vulnerable_report_signature h xb report_hash = h (xb report_hash)"

definition rh_submit_report ::
    "(bytes \<Rightarrow> bytes) \<Rightarrow> (bytes \<Rightarrow> bytes) \<Rightarrow> env \<Rightarrow> address \<Rightarrow> address \<Rightarrow> bytes \<Rightarrow> bytes \<Rightarrow> hash_registry \<Rightarrow> hash_registry result" where
  "rh_submit_report h xb e scanner target_contract report_hash signature s =
     require_auth e scanner (
     let expected = vulnerable_report_signature h xb report_hash in
     ensure (signature = expected) ''invalid report signature'' (
     Ok (s\<lparr>hr_Report := (hr_Report s)(target_contract \<mapsto> report_hash)\<rparr>)))"

definition rh_get_report :: "hash_registry \<Rightarrow> address \<Rightarrow> bytes option" where
  "rh_get_report s target_contract = hr_Report s target_contract"

definition rh_report_signature :: "(bytes \<Rightarrow> bytes) \<Rightarrow> (bytes \<Rightarrow> bytes) \<Rightarrow> bytes \<Rightarrow> bytes" where
  "rh_report_signature h xb report_hash = vulnerable_report_signature h xb report_hash"

definition report_message :: "(address \<Rightarrow> bytes) \<Rightarrow> (bytes \<Rightarrow> bytes) \<Rightarrow> address \<Rightarrow> address \<Rightarrow> bytes \<Rightarrow> int \<Rightarrow> bytes" where
  "report_message x xb target_contract scanner report_hash nonce =
     x target_contract @ x scanner @ xb report_hash @ be_bytes 8 nonce"

definition secure_report_signature ::
    "(bytes \<Rightarrow> bytes) \<Rightarrow> (address \<Rightarrow> bytes) \<Rightarrow> (bytes \<Rightarrow> bytes) \<Rightarrow> address \<Rightarrow> address \<Rightarrow> bytes \<Rightarrow> int \<Rightarrow> bytes" where
  "secure_report_signature h x xb target_contract scanner report_hash nonce =
     h (report_message x xb target_contract scanner report_hash nonce)"

definition rhs_submit_report ::
    "(bytes \<Rightarrow> bytes) \<Rightarrow> (address \<Rightarrow> bytes) \<Rightarrow> (bytes \<Rightarrow> bytes) \<Rightarrow> env \<Rightarrow> address \<Rightarrow> address \<Rightarrow> bytes \<Rightarrow> int \<Rightarrow> bytes
     \<Rightarrow> hash_registry \<Rightarrow> hash_registry result" where
  "rhs_submit_report h x xb e scanner target_contract report_hash nonce signature s =
     require_auth e scanner (
     let expected = secure_report_signature h x xb target_contract scanner report_hash nonce in
     ensure (signature = expected) ''invalid report signature'' (
     Ok (s\<lparr>hr_Report := (hr_Report s)(target_contract \<mapsto> report_hash)\<rparr>)))"

definition rhs_get_report :: "hash_registry \<Rightarrow> address \<Rightarrow> bytes option" where
  "rhs_get_report s target_contract = hr_Report s target_contract"

definition rhs_report_signature ::
    "(bytes \<Rightarrow> bytes) \<Rightarrow> (address \<Rightarrow> bytes) \<Rightarrow> (bytes \<Rightarrow> bytes) \<Rightarrow> address \<Rightarrow> address \<Rightarrow> bytes \<Rightarrow> int \<Rightarrow> bytes" where
  "rhs_report_signature h x xb scanner target_contract report_hash nonce =
     secure_report_signature h x xb target_contract scanner report_hash nonce"

lemma report_message_inject:
  assumes eq: "report_message x xb t a r n = report_message x xb t' a' r' n'" and "inj x" and "inj xb"
    and "length (x t) = length (x t')" "length (x a) = length (x a')" and "in_range U64 n" "in_range U64 n'"
  shows "t = t' \<and> a = a' \<and> r = r' \<and> n = n'"
proof -
  have "x t = x t'" "x a = x a'" "xb r = xb r'" "be_bytes 8 n = be_bytes 8 n'"
    using eq assms(4,5) by (simp_all add: report_message_def)
  with assms show ?thesis
    using be_bytes_inject_unsigned [of 8 n n'] by (auto simp: inj_eq in_range_unsigned)
qed

text \<open>
  What a report signature binds (\<^verbatim>\<open>report_hash_unbound_contract/src/secure.rs\<close>): a signature that the repaired registry accepts twice is for the
  same contract, scanner, report and nonce both times, unless the two messages collide under the hash; and each
  accepted report was authorised by its scanner. In the original the signature of a report is accepted for every contract.
\<close>

theorem report_signature_binds:
  assumes "rhs_submit_report h x xb e a t r n sig s = Ok z" and "rhs_submit_report h x xb e' a' t' r' n' sig s' = Ok z'"
    and "inj x" and "inj xb" and "length (x t) = length (x t')" "length (x a) = length (x a')" and "in_range U64 n" "in_range U64 n'"
  shows "authorized e a \<and> authorized e' a' \<and> (t = t' \<and> a = a' \<and> r = r' \<and> n = n'
    \<or> report_message x xb t a r n \<noteq> report_message x xb t' a' r' n' \<and> h (report_message x xb t a r n) = h (report_message x xb t' a' r' n'))"
proof -
  have "authorized e a" "authorized e' a'" "h (report_message x xb t a r n) = h (report_message x xb t' a' r' n')"
    using assms(1,2) by (auto simp: rhs_submit_report_def secure_report_signature_def result_simps Let_def)
  then show ?thesis using report_message_inject [OF _ assms(3-)] by blast
qed

definition unary_addr :: "address \<Rightarrow> bytes" where
  "unary_addr a = replicate (addr_id a) 0 @ [1]"

theorem report_signature_binds_witness:
  "authorized (signed_env [Address 5] 1) (Address 5)
   \<and> (\<exists>z. rhs_submit_report (\<lambda>b. b) unary_addr (\<lambda>b. b) (signed_env [Address 5] 1) (Address 5) (Address 9) [3] 0
        (report_message unary_addr (\<lambda>b. b) (Address 9) (Address 5) [3] 0) \<lparr>hr_Report = Map.empty\<rparr> = Ok z)"
proof -
  have inj: "inj unary_addr"
  proof (rule injI)
    fix a b assume "unary_addr a = unary_addr b"
    then have "length (unary_addr a) = length (unary_addr b)" by simp
    then show "a = b" by (simp add: unary_addr_def address.expand)
  qed
  have "\<exists>z. rhs_submit_report (\<lambda>b. b) unary_addr (\<lambda>b. b) (signed_env [Address 5] 1) (Address 5) (Address 9) [3] 0
        (report_message unary_addr (\<lambda>b. b) (Address 9) (Address 5) [3] 0) \<lparr>hr_Report = Map.empty\<rparr> = Ok z"
    by (simp add: rhs_submit_report_def secure_report_signature_def signed_env_def)
  then obtain z where z: "rhs_submit_report (\<lambda>b. b) unary_addr (\<lambda>b. b) (signed_env [Address 5] 1) (Address 5) (Address 9) [3] 0
        (report_message unary_addr (\<lambda>b. b) (Address 9) (Address 5) [3] 0) \<lparr>hr_Report = Map.empty\<rparr> = Ok z" by blast
  from report_signature_binds [OF z z inj] z show ?thesis by (simp add: inj_on_def)
qed

text \<open>The nonce is not remembered, so an authorised report can be repeated.\<close>

lemma report_replayed:
  assumes "rhs_submit_report h x xb e a t r n sig s = Ok s'"
  shows "\<exists>z. rhs_submit_report h x xb e a t r n sig s'' = Ok z"
  using assms by (auto simp: rhs_submit_report_def result_simps Let_def)

lemma report_moved:
  assumes "rh_submit_report h xb e a t r sig s = Ok s'"
  shows "\<exists>z. rh_submit_report h xb e a t' r sig s' = Ok z \<and> rh_get_report z t' = Some r"
  using assms by (auto simp: rh_submit_report_def rh_get_report_def result_simps Let_def)

section \<open>audit\_expiry\_ignored\<close>

record audit_record =
  ar_auditor :: address
  ar_expiry_ledger :: int

record audit_registry =
  aud_Audit :: "int \<rightharpoonup> audit_record"

definition ax_submit_audit :: "env \<Rightarrow> address \<Rightarrow> int \<Rightarrow> int \<Rightarrow> audit_registry \<Rightarrow> audit_registry result" where
  "ax_submit_audit e auditor contract_id expiry_ledger s =
     require_auth e auditor (
     let entry = \<lparr>ar_auditor = auditor, ar_expiry_ledger = expiry_ledger\<rparr> in
     Ok (s\<lparr>aud_Audit := (aud_Audit s)(contract_id \<mapsto> entry)\<rparr>))"

definition ax_get_active_audit :: "env \<Rightarrow> audit_registry \<Rightarrow> int \<Rightarrow> audit_record option" where
  "ax_get_active_audit e s contract_id = aud_Audit s contract_id"

definition ax_is_active :: "env \<Rightarrow> audit_registry \<Rightarrow> int \<Rightarrow> bool" where
  "ax_is_active e s contract_id \<longleftrightarrow> ax_get_active_audit e s contract_id \<noteq> None"

definition axs_submit_audit :: "env \<Rightarrow> address \<Rightarrow> int \<Rightarrow> int \<Rightarrow> audit_registry \<Rightarrow> audit_registry result" where
  "axs_submit_audit e auditor contract_id expiry_ledger s =
     require_auth e auditor (
     let entry = \<lparr>ar_auditor = auditor, ar_expiry_ledger = expiry_ledger\<rparr> in
     Ok (s\<lparr>aud_Audit := (aud_Audit s)(contract_id \<mapsto> entry)\<rparr>))"

definition axs_get_active_audit :: "env \<Rightarrow> audit_registry \<Rightarrow> int \<Rightarrow> audit_record option" where
  "axs_get_active_audit e s contract_id =
     (case aud_Audit s contract_id of None \<Rightarrow> None
      | Some entry \<Rightarrow> if sequence e > ar_expiry_ledger entry then None else Some entry)"

definition axs_is_active :: "env \<Rightarrow> audit_registry \<Rightarrow> int \<Rightarrow> bool" where
  "axs_is_active e s contract_id \<longleftrightarrow> axs_get_active_audit e s contract_id \<noteq> None"

definition axs_exec :: "env \<Rightarrow> address \<times> int \<times> int \<Rightarrow> audit_registry \<Rightarrow> audit_registry result" where
  "axs_exec e = (\<lambda>(a, i, l). axs_submit_audit e a i l)"

fun attests :: "int \<Rightarrow> env \<Rightarrow> address \<times> int \<times> int \<Rightarrow> audit_registry \<Rightarrow> audit_record option \<Rightarrow> bool" where
  "attests i e (a, j, l) s v \<longleftrightarrow> j = i \<and> authorized e a \<and> v = Some \<lparr>ar_auditor = a, ar_expiry_ledger = l\<rparr>"

interpretation audits: written_view axs_exec "\<lambda>s. aud_Audit s i" "attests i"
  for i
proof (unfold_locales, goal_cases)
  case (1 e c s s')
  then show ?case
    by (cases c) (auto simp: axs_exec_def axs_submit_audit_def Let_def result_simps split: if_splits)
qed

text \<open>
  Active audits (\<^verbatim>\<open>audit_expiry_ignored/src/secure.rs\<close>): an audit that the repaired registry reports as active was submitted in the run by
  its auditor, who signed for it, and has not expired. The original reports it for ever.
\<close>

theorem active_audit_current:
  assumes "axs_get_active_audit e (run_calls axs_exec xs \<lparr>aud_Audit = Map.empty\<rparr>) i = Some r"
  shows "sequence e \<le> ar_expiry_ledger r \<and> (\<exists>e'. (e', ar_auditor r, i, ar_expiry_ledger r) \<in> set xs \<and> authorized e' (ar_auditor r))"
proof -
  let ?t = "run_calls axs_exec xs \<lparr>aud_Audit = Map.empty\<rparr>"
  have r: "aud_Audit ?t i = Some r" "sequence e \<le> ar_expiry_ledger r"
    using assms by (auto simp: axs_get_active_audit_def split: option.splits if_splits)
  then have "aud_Audit ?t i \<noteq> aud_Audit \<lparr>aud_Audit = Map.empty\<rparr> i" by simp
  from audits.run_writes [OF this] r(1) obtain ys e' c zs
    where c: "xs = ys @ (e', c) # zs" "attests i e' c (run_calls axs_exec ys \<lparr>aud_Audit = Map.empty\<rparr>) (Some r)"
    by auto
  then have "(e', c) \<in> set xs" by simp
  with c(2) r(2) show ?thesis by (cases c) auto
qed

theorem active_audit_current_witness:
  "\<exists>e'. (e', Address 5, 7, 20) \<in> set [(signed_env [Address 5] 3, Address 5, 7, 20)] \<and> authorized e' (Address 5)"
  using active_audit_current [of "signed_env [] 9" "[(signed_env [Address 5] 3, Address 5, 7, 20)]" 7 "\<lparr>ar_auditor = Address 5, ar_expiry_ledger = 20\<rparr>"]
  by (simp add: axs_get_active_audit_def axs_exec_def axs_submit_audit_def signed_env_def)

lemma audit_replaced_by_anyone:
  assumes "authorized e b" and "sequence e \<le> l"
  shows "\<exists>s'. axs_submit_audit e b i l s = Ok s' \<and> axs_get_active_audit e s' i = Some \<lparr>ar_auditor = b, ar_expiry_ledger = l\<rparr>"
  using assms by (simp add: axs_submit_audit_def axs_get_active_audit_def)

lemma expired_audit_active: "aud_Audit s i = Some r \<Longrightarrow> ax_is_active e s i"
  by (simp add: ax_is_active_def ax_get_active_audit_def)

section \<open>event\_authority\_spoof\<close>

record action_log = host +
  al_Admin :: "address option"
  al_ActionCount :: "int option"

definition es_init :: "address \<Rightarrow> action_log \<Rightarrow> action_log result" where
  "es_init admin s = Ok (s\<lparr>al_Admin := Some admin\<rparr>)"

definition es_execute :: "env \<Rightarrow> address \<Rightarrow> int \<Rightarrow> address \<Rightarrow> action_log \<Rightarrow> action_log result" where
  "es_execute e actor amount claimed_authority s =
     require_auth e actor (
     let count = unwrap_or (al_ActionCount s) 0 in
     arith (checked_add U32 count 1) (\<lambda>n.
     Ok (publish [''execute''] [VAddr claimed_authority, VInt amount, VInt n] (s\<lparr>al_ActionCount := Some n\<rparr>))))"

definition es_action_count :: "action_log \<Rightarrow> int" where
  "es_action_count s = unwrap_or (al_ActionCount s) 0"

definition ess_init :: "address \<Rightarrow> action_log \<Rightarrow> action_log result" where
  "ess_init admin s = Ok (s\<lparr>al_Admin := Some admin\<rparr>)"

definition ess_execute :: "env \<Rightarrow> address \<Rightarrow> int \<Rightarrow> action_log \<Rightarrow> action_log result" where
  "ess_execute e actor amount s =
     require_auth e actor (
     let count = unwrap_or (al_ActionCount s) 0 in
     arith (checked_add U32 count 1) (\<lambda>n.
     Ok (publish [''execute''] [VAddr actor, VInt amount, VInt n] (s\<lparr>al_ActionCount := Some n\<rparr>))))"

definition ess_action_count :: "action_log \<Rightarrow> int" where
  "ess_action_count s = unwrap_or (al_ActionCount s) 0"

datatype action_call = JInit address | JExecute address int

fun ess_exec :: "env \<Rightarrow> action_call \<Rightarrow> action_log \<Rightarrow> action_log result" where
  "ess_exec e (JInit a) s = ess_init a s"
| "ess_exec e (JExecute a n) s = ess_execute e a n s"

fun log_of :: "int \<Rightarrow> action_call list \<Rightarrow> event list" where
  "log_of i [] = []"
| "log_of i (JInit a # cs) = log_of i cs"
| "log_of i (JExecute a n # cs) = ([''execute''], [VAddr a, VInt n, VInt (i + 1)]) # log_of (i + 1) cs"

lemma ess_log: "events (run_calls ess_exec xs s) = events s @ log_of (ess_action_count s) (successes ess_exec xs s)"
proof (induction xs arbitrary: s)
  case (Cons x xs)
  obtain e c where x: "x = (e, c)" by force
  show ?case
  proof (cases "ess_exec e c s")
    case (Inl err)
    with Cons x show ?thesis by simp
  next
    case (Inr s')
    with Cons [of s'] x show ?thesis
      by (cases c) (auto simp: ess_init_def ess_execute_def ess_action_count_def publish_def Let_def result_simps int_simps)
  qed
qed simp

lemma successes_signed: "JExecute a n \<in> set (successes ess_exec xs s) \<Longrightarrow> \<exists>e. (e, JExecute a n) \<in> set xs \<and> authorized e a"
  by (drule success_ran) (auto simp: ess_execute_def result_simps)

text \<open>
  The log of the repaired contract (\<^verbatim>\<open>event_authority_spoof/src/secure.rs\<close>) is the list of its actions, numbered in order, each with the
  account that acted, which signed. In the original the event names whom the caller likes.
\<close>

theorem log_names_signers:
  assumes "events s = []" and "al_ActionCount s = None"
  shows "events (run_calls ess_exec xs s) = log_of 0 (successes ess_exec xs s)
    \<and> (JExecute a n \<in> set (successes ess_exec xs s) \<longrightarrow> (\<exists>e. (e, JExecute a n) \<in> set xs \<and> authorized e a))"
  using ess_log [of xs s] successes_signed [of a n xs s] assms by (simp add: ess_action_count_def)

theorem log_names_signers_witness:
  "events (run_calls ess_exec [(signed_env [Address 5] 1, JExecute (Address 5) 3), (signed_env [Address 5] 2, JExecute (Address 6) 4)]
     \<lparr>events = [], al_Admin = None, al_ActionCount = None\<rparr>) = [([''execute''], [VAddr (Address 5), VInt 3, VInt 1])]"
  using log_names_signers [of "\<lparr>events = [], al_Admin = None, al_ActionCount = None\<rparr>"
      "[(signed_env [Address 5] 1, JExecute (Address 5) 3), (signed_env [Address 5] 2, JExecute (Address 6) 4)]"]
  by (simp add: ess_execute_def signed_env_def checked_add_def in_range_def)

lemma authority_spoofed:
  assumes "authorized e a" and "al_ActionCount s = None"
  shows "\<exists>s'. es_execute e a n b s = Ok s' \<and> last (events s') = ([''execute''], [VAddr b, VInt n, VInt 1])"
  using assms by (simp add: es_execute_def publish_def checked_add_def in_range_def)

end
