(* ===== verification/Stake_Variants.thy ===== *)
theory Stake_Variants
  imports Soroban_Prelude
begin

text \<open>
  The crates that vary staking: \<^verbatim>\<open>zero_reward_rate\<close>, \<^verbatim>\<open>zero_init_reward_rate\<close>, \<^verbatim>\<open>self_stake\<close>, \<^verbatim>\<open>zero_stake\<close>, \<^verbatim>\<open>no_min_stake\<close>,
  \<^verbatim>\<open>zero_stake_amount\<close>, \<^verbatim>\<open>zero_deposit\<close>, \<^verbatim>\<open>validator_commission_uncapped\<close>, \<^verbatim>\<open>repay_for_reward_grief\<close> and \<^verbatim>\<open>uncapped_rate\<close>. The locale
  \<^verbatim>\<open>paid_entries\<close> states what the three repaired deposits share: entries are paid for. Shown besides: rates stay
  within their limits, third parties cannot touch a pending reward, commissions stay within the rewards.
\<close>

section \<open>zero\_reward\_rate and zero\_init\_reward\_rate\<close>

text \<open>\<^verbatim>\<open>sp_StakedAt\<close> is \<^verbatim>\<open>StakedAt\<close> in the one crate and \<^verbatim>\<open>LastClaim\<close> in the other.\<close>

record stake_pool = host +
  sp_Admin :: "address option"
  sp_RewardRate :: "int option"
  sp_Stake :: "address \<rightharpoonup> int"
  sp_StakedAt :: "address \<rightharpoonup> int"

definition sp_empty :: stake_pool where
  "sp_empty = \<lparr>events = [], sp_Admin = None, sp_RewardRate = None, sp_Stake = Map.empty, sp_StakedAt = Map.empty\<rparr>"

definition zr_initialize :: "address \<Rightarrow> int \<Rightarrow> stake_pool \<Rightarrow> stake_pool result" where
  "zr_initialize admin reward_rate s =
     panic_if (sp_Admin s \<noteq> None) ''already initialized'' (
     Ok (s\<lparr>sp_Admin := Some admin, sp_RewardRate := Some reward_rate\<rparr>))"

definition zr_set_reward_rate :: "env \<Rightarrow> int \<Rightarrow> stake_pool \<Rightarrow> stake_pool result" where
  "zr_set_reward_rate e rate s =
     expect (sp_Admin s) ''not initialized'' (\<lambda>admin.
     require_auth e admin (Ok (s\<lparr>sp_RewardRate := Some rate\<rparr>)))"

definition zr_stake :: "env \<Rightarrow> address \<Rightarrow> int \<Rightarrow> stake_pool \<Rightarrow> stake_pool result" where
  "zr_stake e staker amount s =
     require_auth e staker (
     let current = get0 (sp_Stake s) staker in
     arith (checked_add I128 current amount) (\<lambda>n.
     Ok (s\<lparr>sp_Stake := (sp_Stake s)(staker \<mapsto> n), sp_StakedAt := (sp_StakedAt s)(staker \<mapsto> timestamp e)\<rparr>)))"

definition zr_claim_rewards :: "env \<Rightarrow> address \<Rightarrow> stake_pool \<Rightarrow> (int \<times> stake_pool) result" where
  "zr_claim_rewards e staker s =
     require_auth e staker (
     let stake = get0 (sp_Stake s) staker;
         rate = unwrap_or (sp_RewardRate s) 0;
         last = unwrap_or (sp_StakedAt s staker) (timestamp e) in
     arith (checked_sub U64 (timestamp e) last) (\<lambda>elapsed.
     arith (checked_mul I128 stake rate) (\<lambda>p.
     arith (checked_mul I128 p elapsed) (\<lambda>reward.
     Ok (reward, s\<lparr>sp_StakedAt := (sp_StakedAt s)(staker \<mapsto> timestamp e)\<rparr>)))))"

definition zr_get_reward_rate :: "stake_pool \<Rightarrow> int" where
  "zr_get_reward_rate s = unwrap_or (sp_RewardRate s) 0"

definition zrs_initialize :: "address \<Rightarrow> int \<Rightarrow> stake_pool \<Rightarrow> stake_pool result" where
  "zrs_initialize admin reward_rate s =
     panic_if (sp_Admin s \<noteq> None) ''already initialized'' (
     panic_if (reward_rate = 0) ''reward rate cannot be zero'' (
     Ok (s\<lparr>sp_Admin := Some admin, sp_RewardRate := Some reward_rate\<rparr>)))"

definition zrs_set_reward_rate :: "env \<Rightarrow> int \<Rightarrow> stake_pool \<Rightarrow> stake_pool result" where
  "zrs_set_reward_rate e rate s =
     expect (sp_Admin s) ''not initialized'' (\<lambda>admin.
     require_auth e admin (
     panic_if (rate = 0) ''reward rate cannot be zero'' (
     let old_rate = unwrap_or (sp_RewardRate s) 0 in
     Ok (publish [''RewardRateChanged''] [VInt old_rate, VInt rate] (s\<lparr>sp_RewardRate := Some rate\<rparr>)))))"

definition zrs_stake :: "env \<Rightarrow> address \<Rightarrow> int \<Rightarrow> stake_pool \<Rightarrow> stake_pool result" where
  "zrs_stake e staker amount s =
     require_auth e staker (
     let current = get0 (sp_Stake s) staker in
     arith (checked_add I128 current amount) (\<lambda>n.
     Ok (s\<lparr>sp_Stake := (sp_Stake s)(staker \<mapsto> n), sp_StakedAt := (sp_StakedAt s)(staker \<mapsto> timestamp e)\<rparr>)))"

definition zrs_claim_rewards :: "env \<Rightarrow> address \<Rightarrow> stake_pool \<Rightarrow> (int \<times> stake_pool) result" where
  "zrs_claim_rewards e staker s =
     require_auth e staker (
     let stake = get0 (sp_Stake s) staker;
         rate = unwrap_or (sp_RewardRate s) 0;
         last = unwrap_or (sp_StakedAt s staker) (timestamp e) in
     arith (checked_sub U64 (timestamp e) last) (\<lambda>elapsed.
     arith (checked_mul I128 stake rate) (\<lambda>p.
     arith (checked_mul I128 p elapsed) (\<lambda>reward.
     Ok (reward, s\<lparr>sp_StakedAt := (sp_StakedAt s)(staker \<mapsto> timestamp e)\<rparr>)))))"

definition zrs_get_reward_rate :: "stake_pool \<Rightarrow> int" where
  "zrs_get_reward_rate s = unwrap_or (sp_RewardRate s) 0"

definition zi_initialize_vulnerable :: "address \<Rightarrow> int \<Rightarrow> stake_pool \<Rightarrow> stake_pool result" where
  "zi_initialize_vulnerable admin reward_rate s =
     panic_if (sp_Admin s \<noteq> None) ''already initialized'' (
     Ok (s\<lparr>sp_Admin := Some admin, sp_RewardRate := Some reward_rate\<rparr>))"

definition zi_initialize :: "address \<Rightarrow> int \<Rightarrow> stake_pool \<Rightarrow> stake_pool result" where
  "zi_initialize admin reward_rate s =
     panic_if (sp_Admin s \<noteq> None) ''already initialized'' (
     panic_if (reward_rate = 0) ''reward_rate cannot be zero at initialization'' (
     Ok (s\<lparr>sp_Admin := Some admin, sp_RewardRate := Some reward_rate\<rparr>)))"

definition zi_stake :: "env \<Rightarrow> address \<Rightarrow> int \<Rightarrow> stake_pool \<Rightarrow> stake_pool result" where
  "zi_stake e staker amount s =
     require_auth e staker (
     let current = get0 (sp_Stake s) staker in
     arith (checked_add I128 current amount) (\<lambda>n.
     Ok (s\<lparr>sp_Stake := (sp_Stake s)(staker \<mapsto> n), sp_StakedAt := (sp_StakedAt s)(staker \<mapsto> timestamp e)\<rparr>)))"

definition zi_claim_rewards :: "env \<Rightarrow> address \<Rightarrow> stake_pool \<Rightarrow> (int \<times> stake_pool) result" where
  "zi_claim_rewards e staker s =
     require_auth e staker (
     let stake = get0 (sp_Stake s) staker;
         rate = unwrap_or (sp_RewardRate s) 0;
         last = unwrap_or (sp_StakedAt s staker) (timestamp e) in
     arith (checked_sub U64 (timestamp e) last) (\<lambda>elapsed.
     arith (checked_mul I128 stake rate) (\<lambda>p.
     arith (checked_mul I128 p elapsed) (\<lambda>reward.
     Ok (reward, s\<lparr>sp_StakedAt := (sp_StakedAt s)(staker \<mapsto> timestamp e)\<rparr>)))))"

definition zi_get_reward_rate :: "stake_pool \<Rightarrow> int" where
  "zi_get_reward_rate s = unwrap_or (sp_RewardRate s) 0"

datatype pool_call = PInit address int | PRate int | PStake address int | PClaim address

fun zrs_exec :: "env \<Rightarrow> pool_call \<Rightarrow> stake_pool \<Rightarrow> stake_pool result" where
  "zrs_exec e (PInit a r) s = zrs_initialize a r s"
| "zrs_exec e (PRate r) s = zrs_set_reward_rate e r s"
| "zrs_exec e (PStake a n) s = zrs_stake e a n s"
| "zrs_exec e (PClaim a) s = state_of (zrs_claim_rewards e a s)"

text \<open>\<^verbatim>\<open>zero_init_reward_rate\<close> has no \<^verbatim>\<open>set_reward_rate\<close>: the call traps.\<close>

fun zi_exec :: "env \<Rightarrow> pool_call \<Rightarrow> stake_pool \<Rightarrow> stake_pool result" where
  "zi_exec e (PInit a r) s = zi_initialize a r s"
| "zi_exec e (PRate r) s = Err NoContract"
| "zi_exec e (PStake a n) s = zi_stake e a n s"
| "zi_exec e (PClaim a) s = state_of (zi_claim_rewards e a s)"

definition rate_set :: "stake_pool \<Rightarrow> bool" where
  "rate_set s \<longleftrightarrow> (sp_Admin s = None \<longleftrightarrow> sp_RewardRate s = None) \<and> sp_RewardRate s \<noteq> Some 0"

lemmas zrs_defs = zrs_initialize_def zrs_set_reward_rate_def zrs_stake_def zrs_claim_rewards_def publish_def Let_def
lemmas zi_defs = zi_initialize_def zi_stake_def zi_claim_rewards_def Let_def

interpretation zrs: contract_invariant zrs_exec rate_set
proof (unfold_locales, goal_cases)
  case (1 s e c s')
  then show ?case by (cases c) (auto simp: zrs_defs rate_set_def result_simps)
qed

interpretation zi: contract_invariant zi_exec rate_set
proof (unfold_locales, goal_cases)
  case (1 s e c s')
  then show ?case by (cases c) (auto simp: zi_defs rate_set_def result_simps)
qed

text \<open>
  Rewards of the repaired pools (\<^verbatim>\<open>zero_reward_rate\<close>, module \<^verbatim>\<open>secure\<close>, and \<^verbatim>\<open>zero_init_reward_rate\<close>): in every state reached from deployment, a claim that returns
  pays the stake times the rate times the seconds since the last claim, and it pays nothing only when the stake or the
  time is zero or the pool was never initialised.
\<close>

theorem claims_pay_rate:
  assumes "t = run_calls zrs_exec xs sp_empty \<and> zrs_claim_rewards e a t = Ok (r, t')
    \<or> t = run_calls zi_exec xs sp_empty \<and> zi_claim_rewards e a t = Ok (r, t')"
  shows "r = get0 (sp_Stake t) a * zrs_get_reward_rate t * (timestamp e - unwrap_or (sp_StakedAt t a) (timestamp e))
    \<and> (r = 0 \<longrightarrow> get0 (sp_Stake t) a = 0 \<or> timestamp e = unwrap_or (sp_StakedAt t a) (timestamp e) \<or> sp_Admin t = None)"
proof -
  have "rate_set sp_empty" by (simp add: rate_set_def sp_empty_def)
  with assms have "rate_set t" using zrs.run_inv zi.run_inv by blast
  moreover have "r = get0 (sp_Stake t) a * zrs_get_reward_rate t * (timestamp e - unwrap_or (sp_StakedAt t a) (timestamp e))"
    using assms by (auto simp: zrs_claim_rewards_def zi_claim_rewards_def zrs_get_reward_rate_def result_simps int_simps Let_def)
  ultimately show ?thesis
    by (auto simp: rate_set_def zrs_get_reward_rate_def)
qed

definition reward_pool_demo :: "(env \<times> pool_call) list" where
  "reward_pool_demo = [(signed_env [] 0, PInit (Address 2) 3), (signed_env [Address 5] 1, PStake (Address 5) 10)]"

theorem claims_pay_rate_witness:
  "\<exists>r t'. zrs_claim_rewards (signed_env [Address 5] 4) (Address 5) (run_calls zrs_exec reward_pool_demo sp_empty) = Ok (r, t') \<and> r = 450"
proof -
  let ?t = "run_calls zrs_exec reward_pool_demo sp_empty"
  have t: "sp_StakedAt ?t = [Address 5 \<mapsto> 5]" "get0 (sp_Stake ?t) (Address 5) = 10" "sp_RewardRate ?t = Some 3"
    by (simp_all add: reward_pool_demo_def sp_empty_def zrs_defs signed_env_def checked_ops in_range_def)
  then have "\<exists>r t'. zrs_claim_rewards (signed_env [Address 5] 4) (Address 5) ?t = Ok (r, t')"
    by (simp add: zrs_claim_rewards_def signed_env_def checked_ops in_range_def)
  then obtain r t' where c: "zrs_claim_rewards (signed_env [Address 5] 4) (Address 5) ?t = Ok (r, t')" by blast
  moreover from this have "r = 450"
    using claims_pay_rate [of ?t reward_pool_demo "signed_env [Address 5] 4" "Address 5" r t'] t
    by (simp add: zrs_get_reward_rate_def signed_env_def)
  ultimately show ?thesis by blast
qed

lemma zero_rate_accepted: "\<exists>s'. zr_initialize a 0 sp_empty = Ok s' \<and> zi_initialize_vulnerable a 0 sp_empty = Ok s' \<and> zr_get_reward_rate s' = 0"
  by (simp add: zr_initialize_def zi_initialize_vulnerable_def zr_get_reward_rate_def sp_empty_def)

text \<open>Adding to a stake restarts the clock, so what was earned until then is not paid; a negative rate is accepted.\<close>

lemma restaking_loses_reward:
  assumes "zrs_stake e a 0 s = Ok s'" and "zrs_claim_rewards e a s' = Ok (r, t)"
  shows "r = 0"
  using assms by (auto simp: zrs_defs result_simps int_simps)

section \<open>self\_stake\<close>

record self_pool =
  sl_Stake :: "address \<rightharpoonup> int"
  sl_StakedAt :: "address \<rightharpoonup> int"
  sl_RewardRate :: "int option"

definition sl_get_stake :: "self_pool \<Rightarrow> address \<Rightarrow> int" where
  "sl_get_stake s staker = get0 (sl_Stake s) staker"

definition sl_get_stake_view :: "self_pool \<Rightarrow> address \<Rightarrow> int" where
  "sl_get_stake_view s staker = sl_get_stake s staker"

definition sl_set_stake :: "address \<Rightarrow> int \<Rightarrow> self_pool \<Rightarrow> self_pool" where
  "sl_set_stake staker amount s = s\<lparr>sl_Stake := (sl_Stake s)(staker \<mapsto> amount)\<rparr>"

definition sl_get_staked_at :: "self_pool \<Rightarrow> address \<Rightarrow> int" where
  "sl_get_staked_at s staker = get0 (sl_StakedAt s) staker"

definition sl_set_staked_at :: "address \<Rightarrow> int \<Rightarrow> self_pool \<Rightarrow> self_pool" where
  "sl_set_staked_at staker seq s = s\<lparr>sl_StakedAt := (sl_StakedAt s)(staker \<mapsto> seq)\<rparr>"

definition sl_get_rate :: "self_pool \<Rightarrow> int" where
  "sl_get_rate s = unwrap_or (sl_RewardRate s) 0"

definition sl_initialize :: "int \<Rightarrow> self_pool \<Rightarrow> self_pool result" where
  "sl_initialize reward_rate s = Ok (s\<lparr>sl_RewardRate := Some reward_rate\<rparr>)"

definition sl_stake :: "env \<Rightarrow> address \<Rightarrow> int \<Rightarrow> self_pool \<Rightarrow> self_pool result" where
  "sl_stake e staker amount s =
     require_auth e staker (
     panic_if (amount \<le> 0) ''amount must be positive'' (
     let current = sl_get_stake s staker in
     arith (checked_add I128 current amount) (\<lambda>n.
     Ok (sl_set_staked_at staker (sequence e) (sl_set_stake staker n s)))))"

definition sl_unstake :: "env \<Rightarrow> address \<Rightarrow> int \<Rightarrow> self_pool \<Rightarrow> self_pool result" where
  "sl_unstake e staker amount s =
     require_auth e staker (
     let current = sl_get_stake s staker in
     expect (checked_sub I128 current amount) ''insufficient stake'' (\<lambda>new_balance.
     Ok (sl_set_stake staker new_balance s)))"

definition sl_claim_rewards :: "env \<Rightarrow> address \<Rightarrow> self_pool \<Rightarrow> (int \<times> self_pool) result" where
  "sl_claim_rewards e staker s =
     require_auth e staker (
     arith (checked_sub U32 (sequence e) (sl_get_staked_at s staker)) (\<lambda>elapsed.
     let reward = unwrap_or (Option.bind (checked_mul I128 (sl_get_stake s staker) (sl_get_rate s)) (\<lambda>v. checked_mul I128 v elapsed)) 0 in
     Ok (reward, sl_set_staked_at staker (sequence e) s)))"

definition sls_initialize :: "int \<Rightarrow> self_pool \<Rightarrow> self_pool result" where
  "sls_initialize reward_rate s = Ok (s\<lparr>sl_RewardRate := Some reward_rate\<rparr>)"

definition sls_stake :: "env \<Rightarrow> address \<Rightarrow> int \<Rightarrow> self_pool \<Rightarrow> self_pool result" where
  "sls_stake e staker amount s =
     require_auth e staker (
     panic_if (staker = current_contract e) ''contract cannot stake to itself'' (
     panic_if (amount \<le> 0) ''amount must be positive'' (
     let current = sl_get_stake s staker in
     arith (checked_add I128 current amount) (\<lambda>n.
     Ok (sl_set_staked_at staker (sequence e) (sl_set_stake staker n s))))))"

definition sls_unstake :: "env \<Rightarrow> address \<Rightarrow> int \<Rightarrow> self_pool \<Rightarrow> self_pool result" where
  "sls_unstake e staker amount s =
     require_auth e staker (
     panic_if (staker = current_contract e) ''contract cannot stake to itself'' (
     let current = sl_get_stake s staker in
     expect (checked_sub I128 current amount) ''insufficient stake'' (\<lambda>new_balance.
     Ok (sl_set_stake staker new_balance s))))"

definition sls_claim_rewards :: "env \<Rightarrow> address \<Rightarrow> self_pool \<Rightarrow> (int \<times> self_pool) result" where
  "sls_claim_rewards e staker s =
     require_auth e staker (
     panic_if (staker = current_contract e) ''contract cannot stake to itself'' (
     arith (checked_sub U32 (sequence e) (sl_get_staked_at s staker)) (\<lambda>elapsed.
     let reward = unwrap_or (Option.bind (checked_mul I128 (sl_get_stake s staker) (sl_get_rate s)) (\<lambda>v. checked_mul I128 v elapsed)) 0 in
     Ok (reward, sl_set_staked_at staker (sequence e) s))))"

definition sls_get_stake :: "self_pool \<Rightarrow> address \<Rightarrow> int" where
  "sls_get_stake s staker = sl_get_stake s staker"

datatype self_call = LInit int | LStake address int | LUnstake address int | LClaim address

fun sl_exec :: "env \<Rightarrow> self_call \<Rightarrow> self_pool \<Rightarrow> self_pool result" where
  "sl_exec e (LInit r) s = sl_initialize r s"
| "sl_exec e (LStake a n) s = sl_stake e a n s"
| "sl_exec e (LUnstake a n) s = sl_unstake e a n s"
| "sl_exec e (LClaim a) s = state_of (sl_claim_rewards e a s)"

fun sls_exec :: "env \<Rightarrow> self_call \<Rightarrow> self_pool \<Rightarrow> self_pool result" where
  "sls_exec e (LInit r) s = sls_initialize r s"
| "sls_exec e (LStake a n) s = sls_stake e a n s"
| "sls_exec e (LUnstake a n) s = sls_unstake e a n s"
| "sls_exec e (LClaim a) s = state_of (sls_claim_rewards e a s)"

fun self_staker :: "self_call \<Rightarrow> address option" where
  "self_staker (LInit r) = None"
| "self_staker (LStake a n) = Some a"
| "self_staker (LUnstake a n) = Some a"
| "self_staker (LClaim a) = Some a"

lemmas sl_defs = sl_initialize_def sl_stake_def sl_unstake_def sl_claim_rewards_def sls_initialize_def sls_stake_def sls_unstake_def
  sls_claim_rewards_def Let_def

interpretation self_guard: hardened sl_exec sls_exec "\<lambda>e c s. self_staker c \<noteq> Some (current_contract e)"
proof (unfold_locales, goal_cases)
  case (1 e c s s')
  show ?case by (cases c) (auto simp: sl_defs result_simps)
qed

interpretation own_stakes: guarded_view sls_exec "\<lambda>s. (sl_get_stake s a, sl_get_staked_at s a)"
    "\<lambda>e c s. self_staker c = Some a \<and> authorized e a \<and> a \<noteq> current_contract e"
  for a
proof (unfold_locales, goal_cases)
  case (1 e c s s')
  then show ?case
    by (cases c) (auto simp: sl_defs sl_get_stake_def sl_set_stake_def sl_get_staked_at_def sl_set_staked_at_def result_simps split: if_splits)
qed

text \<open>
  The repaired pool (\<^verbatim>\<open>self_stake/src/secure.rs\<close>): the stake of an account and its clock change only in calls it signs, and those of the contract itself
  never; otherwise the pool behaves as the original, whose runs on the admitted calls are its runs.
\<close>

theorem own_stake_fixed:
  "(\<forall>(e, c)\<in>set xs. current_contract e = v) \<longrightarrow> sl_get_stake (run_calls sls_exec xs s) v = sl_get_stake s v
     \<and> sl_get_staked_at (run_calls sls_exec xs s) v = sl_get_staked_at s v
     \<and> run_calls sls_exec xs s = run_calls sl_exec (admitted sl_exec (\<lambda>e c s. self_staker c \<noteq> Some (current_contract e)) xs s) s"
proof (intro impI conjI)
  assume v: "\<forall>(e, c)\<in>set xs. current_contract e = v"
  have "(sl_get_stake (run_calls sls_exec xs s) v, sl_get_staked_at (run_calls sls_exec xs s) v) = (sl_get_stake s v, sl_get_staked_at s v)"
    using own_stakes.run_view [of xs s v] v by fastforce
  then show "sl_get_stake (run_calls sls_exec xs s) v = sl_get_stake s v" "sl_get_staked_at (run_calls sls_exec xs s) v = sl_get_staked_at s v"
    by simp_all
  show "run_calls sls_exec xs s = run_calls sl_exec (admitted sl_exec (\<lambda>e c s. self_staker c \<noteq> Some (current_contract e)) xs s) s"
    by (rule self_guard.run_admitted)
qed

theorem own_stake_fixed_witness:
  "sl_get_stake (run_calls sls_exec [(signed_env [Address 99] 1, LStake (Address 99) 5)] \<lparr>sl_Stake = Map.empty, sl_StakedAt = Map.empty, sl_RewardRate = None\<rparr>)
     (Address 99) = 0"
  using own_stake_fixed [of "[(signed_env [Address 99] 1, LStake (Address 99) 5)]" "Address 99" "\<lparr>sl_Stake = Map.empty, sl_StakedAt = Map.empty, sl_RewardRate = None\<rparr>"]
  by (simp add: signed_env_def sl_get_stake_def)

text \<open>What the repair leaves: \<^verbatim>\<open>checked_sub\<close> on a signed type is no balance check, and a reward too large for the type is paid as zero.\<close>

lemma unstake_overdraws:
  assumes "authorized e a" "a \<noteq> current_contract e" and "sl_Stake s a = None"
  shows "\<exists>s'. sls_unstake e a 5 s = Ok s' \<and> sl_get_stake s' a = - 5"
  using assms by (simp add: sls_unstake_def sl_get_stake_def sl_set_stake_def get0_def checked_sub_def in_range_def)

lemma huge_reward_lost:
  assumes "authorized e a" "a \<noteq> current_contract e" and "sl_get_stake s a * sl_get_rate s > ity_max I128"
    and "in_range U32 (sequence e - sl_get_staked_at s a)"
  shows "\<exists>s'. sls_claim_rewards e a s = Ok (0, s') \<and> sl_get_staked_at s' a = sequence e"
  using assms by (simp add: sls_claim_rewards_def checked_ops sl_get_staked_at_def sl_set_staked_at_def in_range_def)

section \<open>Deposits that are paid for\<close>

text \<open>
  What the repaired deposits of \<^verbatim>\<open>zero_stake_amount\<close>, \<^verbatim>\<open>zero_deposit\<close> and \<^verbatim>\<open>no_min_stake\<close> share: a deposit returns only if it is signed and at least
  a minimum, and then adds to the entry of the account.
\<close>

locale paid_entries =
  fixes exec :: "env \<Rightarrow> 'c \<Rightarrow> 's \<Rightarrow> 's result" and entry :: "'s \<Rightarrow> address \<rightharpoonup> int" and deposit :: "'c \<Rightarrow> (address \<times> int) option"
    and minimum :: int and ok :: "'s \<Rightarrow> bool"
  assumes minimum_pos: "0 < minimum"
    and keeps_ok: "ok s \<Longrightarrow> exec e c s = Ok s' \<Longrightarrow> ok s'"
    and deposit_adds: "ok s \<Longrightarrow> exec e c s = Ok s' \<Longrightarrow> deposit c = Some (a, n)
       \<Longrightarrow> authorized e a \<and> minimum \<le> n \<and> entry s' = (entry s)(a \<mapsto> get0 (entry s) a + n)"
    and other_keeps: "exec e c s = Ok s' \<Longrightarrow> deposit c = None \<Longrightarrow> entry s' = entry s"
begin

definition backed :: "'s \<Rightarrow> bool" where
  "backed s \<longleftrightarrow> ok s \<and> finite (dom (entry s)) \<and> (\<forall>a\<in>dom (entry s). minimum \<le> get0 (entry s) a)"

lemma backed_step:
  assumes "backed s" and "exec e c s = Ok s'"
  shows "backed s'"
proof (cases "deposit c")
  case None
  show ?thesis using other_keeps [OF assms(2) None] keeps_ok [OF _ assms(2)] assms(1) by (auto simp: backed_def)
next
  case (Some d)
  obtain a n where d: "deposit c = Some (a, n)" using Some by (cases d) auto
  have "minimum \<le> n" and e: "entry s' = (entry s)(a \<mapsto> get0 (entry s) a + n)" and "ok s'"
    using deposit_adds [OF _ assms(2) d] keeps_ok [OF _ assms(2)] assms(1) by (auto simp: backed_def)
  moreover have "0 \<le> get0 (entry s) a"
  proof (cases "a \<in> dom (entry s)")
    case True
    then have "minimum \<le> get0 (entry s) a" using assms(1) unfolding backed_def by blast
    with minimum_pos show ?thesis by linarith
  qed (simp add: get0_outside)
  ultimately show ?thesis using assms(1) by (auto simp: backed_def)
qed

lemma run_backed: "backed s \<Longrightarrow> backed (run_calls exec xs s)"
  using contract_invariant.run_inv [of exec backed s xs] backed_step by (simp add: contract_invariant_def)

lemma entries_cost:
  assumes "backed s"
  shows "minimum * int (card (dom (entry s))) \<le> sum_bal (entry s)"
  using sum_bounded_below [of "dom (entry s)" minimum "get0 (entry s)"] assms
  by (simp add: backed_def sum_bal_def mult.commute)

lemma run_entries_cost: "backed s \<Longrightarrow> minimum * int (card (dom (entry (run_calls exec xs s)))) \<le> sum_bal (entry (run_calls exec xs s))"
  by (rule entries_cost [OF run_backed])

end

section \<open>zero\_stake\_amount, zero\_deposit and no\_min\_stake\<close>

record deposits =
  dp_Entry :: "address \<rightharpoonup> int"

definition za_stake :: "env \<Rightarrow> address \<Rightarrow> int \<Rightarrow> deposits \<Rightarrow> deposits result" where
  "za_stake e staker amount s =
     require_auth e staker (
     let current = get0 (dp_Entry s) staker in
     arith (checked_add I128 current amount) (\<lambda>n. Ok (s\<lparr>dp_Entry := (dp_Entry s)(staker \<mapsto> n)\<rparr>)))"

definition za_balance :: "deposits \<Rightarrow> address \<Rightarrow> int" where
  "za_balance s staker = get0 (dp_Entry s) staker"

definition zas_stake :: "env \<Rightarrow> address \<Rightarrow> int \<Rightarrow> deposits \<Rightarrow> deposits result" where
  "zas_stake e staker amount s =
     require_auth e staker (
     panic_if (amount \<le> 0) ''amount must be positive'' (
     let current = get0 (dp_Entry s) staker in
     arith (checked_add I128 current amount) (\<lambda>n. Ok (s\<lparr>dp_Entry := (dp_Entry s)(staker \<mapsto> n)\<rparr>))))"

definition zas_balance :: "deposits \<Rightarrow> address \<Rightarrow> int" where
  "zas_balance s staker = get0 (dp_Entry s) staker"

definition zd_deposit :: "env \<Rightarrow> address \<Rightarrow> int \<Rightarrow> deposits \<Rightarrow> deposits result" where
  "zd_deposit e user amount s =
     require_auth e user (
     let current = get0 (dp_Entry s) user in
     arith (checked_add I128 current amount) (\<lambda>n. Ok (s\<lparr>dp_Entry := (dp_Entry s)(user \<mapsto> n)\<rparr>)))"

definition zd_balance :: "deposits \<Rightarrow> address \<Rightarrow> int" where
  "zd_balance s user = get0 (dp_Entry s) user"

definition zds_deposit :: "env \<Rightarrow> address \<Rightarrow> int \<Rightarrow> deposits \<Rightarrow> deposits result" where
  "zds_deposit e user amount s =
     require_auth e user (
     ensure (amount > 0) ''deposit must be positive'' (
     let current = get0 (dp_Entry s) user in
     arith (checked_add I128 current amount) (\<lambda>n. Ok (s\<lparr>dp_Entry := (dp_Entry s)(user \<mapsto> n)\<rparr>))))"

definition zds_balance :: "deposits \<Rightarrow> address \<Rightarrow> int" where
  "zds_balance s user = get0 (dp_Entry s) user"

definition MIN_STAKE :: int where "MIN_STAKE = 1000000"

record min_pool =
  mp_Stake :: "address \<rightharpoonup> int"
  mp_Admin :: "address option"
  mp_MinStake :: "int option"

definition nm_get_stake :: "min_pool \<Rightarrow> address \<Rightarrow> int" where
  "nm_get_stake s staker = get0 (mp_Stake s) staker"

definition nm_set_stake :: "address \<Rightarrow> int \<Rightarrow> min_pool \<Rightarrow> min_pool" where
  "nm_set_stake staker amount s = s\<lparr>mp_Stake := (mp_Stake s)(staker \<mapsto> amount)\<rparr>"

definition nm_stake :: "env \<Rightarrow> address \<Rightarrow> int \<Rightarrow> min_pool \<Rightarrow> min_pool result" where
  "nm_stake e staker amount s =
     require_auth e staker (
     ensure (amount > 0) ''amount must be positive'' (
     let current = nm_get_stake s staker in
     arith (checked_add I128 current amount) (\<lambda>n. Ok (nm_set_stake staker n s))))"

definition nm_balance :: "min_pool \<Rightarrow> address \<Rightarrow> int" where
  "nm_balance s staker = nm_get_stake s staker"

definition nms_initialize :: "env \<Rightarrow> address \<Rightarrow> int \<Rightarrow> min_pool \<Rightarrow> min_pool result" where
  "nms_initialize e admin min_stake s =
     panic_if (mp_Admin s \<noteq> None) ''already initialized'' (
     require_auth e admin (
     ensure (min_stake \<ge> MIN_STAKE) ''minimum stake below default'' (
     Ok (s\<lparr>mp_Admin := Some admin, mp_MinStake := Some min_stake\<rparr>))))"

definition nms_stake :: "env \<Rightarrow> address \<Rightarrow> int \<Rightarrow> min_pool \<Rightarrow> min_pool result" where
  "nms_stake e staker amount s =
     require_auth e staker (
     let min_stake = unwrap_or (mp_MinStake s) MIN_STAKE in
     ensure (amount \<ge> min_stake) ''stake below minimum'' (
     let current = get0 (mp_Stake s) staker in
     arith (checked_add I128 current amount) (\<lambda>n. Ok (s\<lparr>mp_Stake := (mp_Stake s)(staker \<mapsto> n)\<rparr>))))"

definition nms_balance :: "min_pool \<Rightarrow> address \<Rightarrow> int" where
  "nms_balance s staker = get0 (mp_Stake s) staker"

datatype min_call = MInit address int | MStake address int

fun nms_exec :: "env \<Rightarrow> min_call \<Rightarrow> min_pool \<Rightarrow> min_pool result" where
  "nms_exec e (MInit a n) s = nms_initialize e a n s"
| "nms_exec e (MStake a n) s = nms_stake e a n s"

fun min_deposit :: "min_call \<Rightarrow> (address \<times> int) option" where
  "min_deposit (MInit a n) = None"
| "min_deposit (MStake a n) = Some (a, n)"

definition zas_exec :: "env \<Rightarrow> address \<times> int \<Rightarrow> deposits \<Rightarrow> deposits result" where
  "zas_exec e = (\<lambda>(a, n). zas_stake e a n)"

definition zds_exec :: "env \<Rightarrow> address \<times> int \<Rightarrow> deposits \<Rightarrow> deposits result" where
  "zds_exec e = (\<lambda>(a, n). zds_deposit e a n)"

interpretation zas: paid_entries zas_exec dp_Entry Some 1 "\<lambda>_. True"
proof (unfold_locales, goal_cases)
  case (3 s e c s' a n)
  then show ?case by (auto simp: zas_exec_def zas_stake_def Let_def result_simps int_simps)
qed auto

interpretation zds: paid_entries zds_exec dp_Entry Some 1 "\<lambda>_. True"
proof (unfold_locales, goal_cases)
  case (3 s e c s' a n)
  then show ?case by (auto simp: zds_exec_def zds_deposit_def Let_def result_simps int_simps)
qed auto

interpretation nms: paid_entries nms_exec mp_Stake min_deposit MIN_STAKE "\<lambda>s. MIN_STAKE \<le> unwrap_or (mp_MinStake s) MIN_STAKE"
proof (unfold_locales, goal_cases)
  case 1
  show ?case by (simp add: MIN_STAKE_def)
next
  case (2 s e c s')
  then show ?case by (cases c) (auto simp: nms_initialize_def nms_stake_def Let_def result_simps)
next
  case (3 s e c s' a n)
  then show ?case by (cases c) (auto simp: nms_stake_def Let_def result_simps int_simps)
next
  case (4 e c s s')
  then show ?case by (cases c) (auto simp: nms_initialize_def result_simps)
qed

text \<open>
  Storage is paid for in the repaired deposits: from deployment, in \<^verbatim>\<open>no_min_stake/src/secure.rs\<close> every entry holds at least the default minimum, so
  the number of entries times that minimum is at most the total staked; in \<^verbatim>\<open>zero_stake_amount\<close> and \<^verbatim>\<open>zero_deposit\<close> every entry holds at least one
  unit. The originals create entries for nothing.
\<close>

theorem entries_paid_for:
  "MIN_STAKE * int (card (dom (mp_Stake (run_calls nms_exec xs \<lparr>mp_Stake = Map.empty, mp_Admin = None, mp_MinStake = None\<rparr>))))
      \<le> sum_bal (mp_Stake (run_calls nms_exec xs \<lparr>mp_Stake = Map.empty, mp_Admin = None, mp_MinStake = None\<rparr>))
   \<and> int (card (dom (dp_Entry (run_calls zas_exec ys \<lparr>dp_Entry = Map.empty\<rparr>)))) \<le> sum_bal (dp_Entry (run_calls zas_exec ys \<lparr>dp_Entry = Map.empty\<rparr>))
   \<and> int (card (dom (dp_Entry (run_calls zds_exec ys \<lparr>dp_Entry = Map.empty\<rparr>)))) \<le> sum_bal (dp_Entry (run_calls zds_exec ys \<lparr>dp_Entry = Map.empty\<rparr>))"
proof (intro conjI)
  show "MIN_STAKE * int (card (dom (mp_Stake (run_calls nms_exec xs \<lparr>mp_Stake = Map.empty, mp_Admin = None, mp_MinStake = None\<rparr>))))
      \<le> sum_bal (mp_Stake (run_calls nms_exec xs \<lparr>mp_Stake = Map.empty, mp_Admin = None, mp_MinStake = None\<rparr>))"
    by (rule nms.run_entries_cost) (simp add: nms.backed_def)
  show "int (card (dom (dp_Entry (run_calls zas_exec ys \<lparr>dp_Entry = Map.empty\<rparr>)))) \<le> sum_bal (dp_Entry (run_calls zas_exec ys \<lparr>dp_Entry = Map.empty\<rparr>))"
    using zas.run_entries_cost [of "\<lparr>dp_Entry = Map.empty\<rparr>" ys] by (simp add: zas.backed_def)
  show "int (card (dom (dp_Entry (run_calls zds_exec ys \<lparr>dp_Entry = Map.empty\<rparr>)))) \<le> sum_bal (dp_Entry (run_calls zds_exec ys \<lparr>dp_Entry = Map.empty\<rparr>))"
    using zds.run_entries_cost [of "\<lparr>dp_Entry = Map.empty\<rparr>" ys] by (simp add: zds.backed_def)
qed

lemma free_entries:
  assumes "authorized e a"
  shows "(\<exists>s. za_stake e a 0 \<lparr>dp_Entry = Map.empty\<rparr> = Ok s \<and> dom (dp_Entry s) = {a})
    \<and> (\<exists>s. zd_deposit e a 0 \<lparr>dp_Entry = Map.empty\<rparr> = Ok s \<and> dom (dp_Entry s) = {a})
    \<and> (\<exists>s. nm_stake e a 1 \<lparr>mp_Stake = Map.empty, mp_Admin = None, mp_MinStake = None\<rparr> = Ok s \<and> dom (mp_Stake s) = {a})"
  using assms by (simp add: za_stake_def zd_deposit_def nm_stake_def nm_get_stake_def nm_set_stake_def checked_add_def in_range_def Let_def)

section \<open>zero\_stake\<close>

record stake_info =
  si_amount :: int
  si_staked_at :: int

record ghost_pool =
  gp_Stake :: "address \<rightharpoonup> stake_info"

definition zk_stake :: "env \<Rightarrow> address \<Rightarrow> int \<Rightarrow> ghost_pool \<Rightarrow> ghost_pool result" where
  "zk_stake e staker amount s =
     require_auth e staker (
     Ok (s\<lparr>gp_Stake := (gp_Stake s)(staker \<mapsto> \<lparr>si_amount = amount, si_staked_at = timestamp e\<rparr>)\<rparr>))"

definition zk_claim_rewards :: "env \<Rightarrow> address \<Rightarrow> ghost_pool \<Rightarrow> int result" where
  "zk_claim_rewards e staker s =
     expect (gp_Stake s staker) ''no stake found'' (\<lambda>info.
     let elapsed = saturate U64 (timestamp e - si_staked_at info) in
     arith (checked_mul I128 (si_amount info) elapsed) Ok)"

definition zk_is_staker :: "ghost_pool \<Rightarrow> address \<Rightarrow> bool" where
  "zk_is_staker s staker \<longleftrightarrow> gp_Stake s staker \<noteq> None"

definition zks_stake :: "env \<Rightarrow> address \<Rightarrow> int \<Rightarrow> ghost_pool \<Rightarrow> ghost_pool result" where
  "zks_stake e staker amount s =
     require_auth e staker (
     ensure (amount > 0) ''stake must be positive'' (
     Ok (s\<lparr>gp_Stake := (gp_Stake s)(staker \<mapsto> \<lparr>si_amount = amount, si_staked_at = timestamp e\<rparr>)\<rparr>)))"

definition zks_claim_rewards :: "env \<Rightarrow> address \<Rightarrow> ghost_pool \<Rightarrow> int result" where
  "zks_claim_rewards e staker s =
     expect (gp_Stake s staker) ''no stake found'' (\<lambda>info.
     let elapsed = saturate U64 (timestamp e - si_staked_at info) in
     arith (checked_mul I128 (si_amount info) elapsed) Ok)"

definition zks_is_staker :: "ghost_pool \<Rightarrow> address \<Rightarrow> bool" where
  "zks_is_staker s staker \<longleftrightarrow> gp_Stake s staker \<noteq> None"

definition zks_exec :: "env \<Rightarrow> address \<times> int \<Rightarrow> ghost_pool \<Rightarrow> ghost_pool result" where
  "zks_exec e = (\<lambda>(a, n). zks_stake e a n)"

fun stakes_for :: "address \<Rightarrow> env \<Rightarrow> address \<times> int \<Rightarrow> ghost_pool \<Rightarrow> stake_info option \<Rightarrow> bool" where
  "stakes_for a e (b, n) s v \<longleftrightarrow> b = a \<and> authorized e a \<and> 0 < n \<and> v = Some \<lparr>si_amount = n, si_staked_at = timestamp e\<rparr>"

interpretation ghost: written_view zks_exec "\<lambda>s. gp_Stake s a" "stakes_for a"
  for a
proof (unfold_locales, goal_cases)
  case (1 e c s s')
  then show ?case by (cases c) (auto simp: zks_exec_def zks_stake_def result_simps split: if_splits)
qed

text \<open>
  Stakers of the repaired pool (\<^verbatim>\<open>zero_stake/src/secure.rs\<close>): whoever counts as a staker signed a stake of a positive amount, and its reward is that
  amount times the seconds since then, hence positive once time has passed. In the original a stake of zero counts.
\<close>

theorem stakers_have_stake:
  assumes "zks_is_staker (run_calls zks_exec xs \<lparr>gp_Stake = Map.empty\<rparr>) a"
  shows "\<exists>e n. (e, a, n) \<in> set xs \<and> authorized e a \<and> 0 < n
    \<and> (\<forall>e' r. zks_claim_rewards e' a (run_calls zks_exec xs \<lparr>gp_Stake = Map.empty\<rparr>) = Ok r \<longrightarrow> timestamp e \<le> timestamp e'
         \<longrightarrow> timestamp e' - timestamp e \<le> ity_max U64 \<longrightarrow> r = n * (timestamp e' - timestamp e))"
proof -
  let ?t = "run_calls zks_exec xs \<lparr>gp_Stake = Map.empty\<rparr>"
  have "gp_Stake ?t a \<noteq> gp_Stake \<lparr>gp_Stake = Map.empty\<rparr> a"
    using assms by (simp add: zks_is_staker_def)
  from ghost.run_writes [OF this] obtain ys e c zs where c: "xs = ys @ (e, c) # zs" "stakes_for a e c (run_calls zks_exec ys \<lparr>gp_Stake = Map.empty\<rparr>) (gp_Stake ?t a)"
    by blast
  moreover obtain b n where "c = (b, n)" by force
  ultimately have "(e, a, n) \<in> set xs" "authorized e a" "0 < n" "gp_Stake ?t a = Some \<lparr>si_amount = n, si_staked_at = timestamp e\<rparr>"
    by auto
  then show ?thesis
    by (intro exI [of _ e] exI [of _ n]) (auto simp: zks_claim_rewards_def saturate_def result_simps int_simps Let_def)
qed

theorem stakers_have_stake_witness:
  "\<exists>e n. (e, Address 5, n) \<in> set [(signed_env [Address 5] 1, Address 5, 8 :: int)] \<and> authorized e (Address 5) \<and> 0 < n"
  using stakers_have_stake [of "[(signed_env [Address 5] 1, Address 5, 8)]" "Address 5"]
  by (simp add: zks_is_staker_def zks_exec_def zks_stake_def signed_env_def)

lemma ghost_staker:
  assumes "authorized e a"
  shows "\<exists>s'. zk_stake e a 0 s = Ok s' \<and> zk_is_staker s' a"
  using assms by (simp add: zk_stake_def zk_is_staker_def)

section \<open>validator\_commission\_uncapped\<close>

record commission_pool =
  cp_CommissionBps :: "int option"
  cp_TotalRewards :: "int option"

definition vc_init :: "commission_pool \<Rightarrow> commission_pool result" where
  "vc_init s = Ok (s\<lparr>cp_CommissionBps := Some 0, cp_TotalRewards := Some 0\<rparr>)"

definition set_commission_vulnerable :: "int \<Rightarrow> commission_pool \<Rightarrow> commission_pool result" where
  "set_commission_vulnerable commission_bps s = Ok (s\<lparr>cp_CommissionBps := Some commission_bps\<rparr>)"

definition vc_get_commission :: "commission_pool \<Rightarrow> int" where
  "vc_get_commission s = unwrap_or (cp_CommissionBps s) 0"

definition distribute_rewards_vulnerable :: "address \<Rightarrow> int \<Rightarrow> commission_pool \<Rightarrow> commission_pool result" where
  "distribute_rewards_vulnerable validator_address total_rewards s =
     (let commission_bps = unwrap_or (cp_CommissionBps s) 0 in
      arith (checked_mul I128 total_rewards commission_bps) (\<lambda>p.
      arith (checked_div I128 p 10000) (\<lambda>validator_commission.
      arith (checked_sub I128 total_rewards validator_commission) (\<lambda>delegator_rewards.
      Ok (s\<lparr>cp_TotalRewards := Some delegator_rewards\<rparr>)))))"

definition vc_get_delegator_rewards :: "commission_pool \<Rightarrow> int" where
  "vc_get_delegator_rewards s = unwrap_or (cp_TotalRewards s) 0"

definition vcs_init :: "commission_pool \<Rightarrow> commission_pool result" where
  "vcs_init s = Ok (s\<lparr>cp_CommissionBps := Some 0, cp_TotalRewards := Some 0\<rparr>)"

definition set_commission_secure :: "int \<Rightarrow> commission_pool \<Rightarrow> commission_pool result" where
  "set_commission_secure commission_bps s =
     ensure (commission_bps \<ge> 0 \<and> commission_bps \<le> 10000) ''Commission must be between 0 and 10000 basis points'' (
     Ok (s\<lparr>cp_CommissionBps := Some commission_bps\<rparr>))"

definition vcs_get_commission :: "commission_pool \<Rightarrow> int" where
  "vcs_get_commission s = unwrap_or (cp_CommissionBps s) 0"

definition distribute_rewards_secure :: "address \<Rightarrow> int \<Rightarrow> commission_pool \<Rightarrow> commission_pool result" where
  "distribute_rewards_secure validator_address total_rewards s =
     (let commission_bps = unwrap_or (cp_CommissionBps s) 0 in
      ensure (commission_bps \<ge> 0 \<and> commission_bps \<le> 10000) ''Invalid commission stored'' (
      arith (checked_mul I128 total_rewards commission_bps) (\<lambda>p.
      arith (checked_div I128 p 10000) (\<lambda>validator_commission.
      arith (checked_sub I128 total_rewards validator_commission) (\<lambda>delegator_rewards.
      ensure (delegator_rewards \<ge> 0) ''Delegator rewards cannot be negative'' (
      Ok (s\<lparr>cp_TotalRewards := Some delegator_rewards\<rparr>)))))))"

definition vcs_get_delegator_rewards :: "commission_pool \<Rightarrow> int" where
  "vcs_get_delegator_rewards s = unwrap_or (cp_TotalRewards s) 0"

datatype commission_call = OInit | OCommission int | ODistribute address int

fun vcs_exec :: "env \<Rightarrow> commission_call \<Rightarrow> commission_pool \<Rightarrow> commission_pool result" where
  "vcs_exec e OInit s = vcs_init s"
| "vcs_exec e (OCommission b) s = set_commission_secure b s"
| "vcs_exec e (ODistribute a n) s = distribute_rewards_secure a n s"

interpretation commissions: contract_invariant vcs_exec "\<lambda>s. vcs_get_commission s \<in> {0..10000} \<and> 0 \<le> vcs_get_delegator_rewards s"
proof (unfold_locales, goal_cases)
  case (1 s e c s')
  then show ?case
    by (cases c) (auto simp: vcs_init_def set_commission_secure_def distribute_rewards_secure_def vcs_get_commission_def
        vcs_get_delegator_rewards_def Let_def result_simps)
qed

lemma share_within:
  fixes n b :: int
  assumes "0 \<le> n" "0 \<le> b" "b \<le> 10000"
  shows "0 \<le> n * b div 10000" and "n * b div 10000 \<le> n"
proof -
  show "0 \<le> n * b div 10000" using assms by (simp add: pos_imp_zdiv_nonneg_iff)
  have "n * b \<le> n * 10000" using assms by (intro mult_left_mono) auto
  then have "n * b div 10000 \<le> n * 10000 div 10000" by (rule zdiv_mono1) simp
  then show "n * b div 10000 \<le> n" by simp
qed

text \<open>
  Commissions (\<^verbatim>\<open>validator_commission_uncapped/src/secure.rs\<close>): the stored commission stays between nothing and everything, and the repaired distribution
  returns for every non-negative reward whose product with the commission fits the type: the delegators get the reward less the
  commission rounded down, between zero and the reward. In the original a commission above the whole makes the rewards negative.
\<close>

theorem commission_within_rewards:
  assumes "vcs_get_commission s \<in> {0..10000} \<and> 0 \<le> vcs_get_delegator_rewards s" and "t = run_calls vcs_exec xs s"
    and "0 \<le> n" and "in_range I128 (n * vcs_get_commission t)" and "in_range I128 n"
  shows "\<exists>t'. distribute_rewards_secure a n t = Ok t' \<and> vcs_get_delegator_rewards t' = n - n * vcs_get_commission t div 10000
    \<and> vcs_get_delegator_rewards t' \<in> {0..n}"
proof -
  have c: "0 \<le> vcs_get_commission t" "vcs_get_commission t \<le> 10000"
    using commissions.run_inv [OF assms(1), of xs] assms(2) by auto
  let ?q = "n * vcs_get_commission t div 10000"
  note share = share_within [OF assms(3) c]
  have "(n * vcs_get_commission t) sdiv 10000 = ?q"
    using assms(3) c by (simp add: sdiv_nonneg_eq)
  moreover have "in_range I128 ?q" "in_range I128 (n - ?q)"
    using share assms(5) by (auto intro: in_range_between [of I128 0 n])
  ultimately show ?thesis
    using share c assms(4)
    by (simp add: distribute_rewards_secure_def vcs_get_commission_def vcs_get_delegator_rewards_def checked_ops)
qed

theorem commission_within_rewards_witness:
  "\<exists>t'. distribute_rewards_secure (Address 5) 999 (run_calls vcs_exec [(signed_env [] 1, OCommission 250)] \<lparr>cp_CommissionBps = None, cp_TotalRewards = None\<rparr>) = Ok t'
     \<and> vcs_get_delegator_rewards t' \<in> {0..999}"
  using commission_within_rewards [OF _ refl, of "\<lparr>cp_CommissionBps = None, cp_TotalRewards = None\<rparr>" 999 "[(signed_env [] 1, OCommission 250)]" "Address 5"]
  by (auto simp: vcs_get_commission_def vcs_get_delegator_rewards_def set_commission_secure_def in_range_def)

lemma commission_over_whole:
  "\<exists>s1 s2. set_commission_vulnerable 20000 s = Ok s1 \<and> distribute_rewards_vulnerable a 100 s1 = Ok s2 \<and> vc_get_delegator_rewards s2 = - 100"
  by (simp add: set_commission_vulnerable_def distribute_rewards_vulnerable_def vc_get_delegator_rewards_def checked_ops in_range_def
      signed_divide_int_def)

section \<open>repay\_for\_reward\_grief\<close>

record reward_market =
  rm_Admin :: "address option"
  rm_RewardRate :: "int option"
  rm_Debt :: "address \<rightharpoonup> int"
  rm_RewardCheckpoint :: "address \<rightharpoonup> int"
  rm_AccruedReward :: "address \<rightharpoonup> int"

definition rw_get_debt :: "reward_market \<Rightarrow> address \<Rightarrow> int" where
  "rw_get_debt s borrower = get0 (rm_Debt s) borrower"

definition rw_get_reward_rate :: "reward_market \<Rightarrow> int" where
  "rw_get_reward_rate s = unwrap_or (rm_RewardRate s) 0"

definition rw_initialize :: "address \<Rightarrow> int \<Rightarrow> reward_market \<Rightarrow> reward_market result" where
  "rw_initialize admin reward_rate s =
     panic_if (rm_Admin s \<noteq> None) ''already initialized'' (
     panic_if (reward_rate \<le> 0) ''reward_rate must be positive'' (
     Ok (s\<lparr>rm_Admin := Some admin, rm_RewardRate := Some reward_rate\<rparr>)))"

definition rw_borrow :: "env \<Rightarrow> address \<Rightarrow> int \<Rightarrow> reward_market \<Rightarrow> reward_market result" where
  "rw_borrow e borrower amount s =
     require_auth e borrower (
     panic_if (amount \<le> 0) ''amount must be positive'' (
     let current = get0 (rm_Debt s) borrower in
     arith (checked_add I128 current amount) (\<lambda>n.
     Ok (s\<lparr>rm_Debt := (rm_Debt s)(borrower \<mapsto> n), rm_RewardCheckpoint := (rm_RewardCheckpoint s)(borrower \<mapsto> timestamp e)\<rparr>))))"

definition rw_repay_for :: "env \<Rightarrow> address \<Rightarrow> address \<Rightarrow> int \<Rightarrow> reward_market \<Rightarrow> reward_market result" where
  "rw_repay_for e payer borrower amount s =
     require_auth e payer (
     panic_if (amount \<le> 0) ''amount must be positive'' (
     let debt = get0 (rm_Debt s) borrower in
     panic_if (amount > debt) ''repay amount exceeds debt'' (
     arith (checked_sub I128 debt amount) (\<lambda>n.
     Ok (s\<lparr>rm_Debt := (rm_Debt s)(borrower \<mapsto> n), rm_RewardCheckpoint := (rm_RewardCheckpoint s)(borrower \<mapsto> timestamp e)\<rparr>)))))"

definition rw_claim_rewards :: "env \<Rightarrow> address \<Rightarrow> reward_market \<Rightarrow> (int \<times> reward_market) result" where
  "rw_claim_rewards e borrower s =
     require_auth e borrower (
     let debt = rw_get_debt s borrower; reward_rate = rw_get_reward_rate s;
         last = unwrap_or (rm_RewardCheckpoint s borrower) (timestamp e) in
     arith (checked_sub U64 (timestamp e) last) (\<lambda>elapsed.
     let accrued = get0 (rm_AccruedReward s) borrower in
     arith (checked_mul I128 debt reward_rate) (\<lambda>p.
     arith (checked_mul I128 p elapsed) (\<lambda>q.
     arith (checked_add I128 accrued q) (\<lambda>reward.
     Ok (reward, s\<lparr>rm_AccruedReward := (rm_AccruedReward s)(borrower \<mapsto> 0),
                   rm_RewardCheckpoint := (rm_RewardCheckpoint s)(borrower \<mapsto> timestamp e)\<rparr>))))))"

definition rws_get_debt :: "reward_market \<Rightarrow> address \<Rightarrow> int" where
  "rws_get_debt s borrower = get0 (rm_Debt s) borrower"

definition rws_get_reward_rate :: "reward_market \<Rightarrow> int" where
  "rws_get_reward_rate s = unwrap_or (rm_RewardRate s) 0"

definition rws_get_reward_checkpoint :: "env \<Rightarrow> reward_market \<Rightarrow> address \<Rightarrow> int" where
  "rws_get_reward_checkpoint e s borrower = unwrap_or (rm_RewardCheckpoint s borrower) (timestamp e)"

definition rws_initialize :: "address \<Rightarrow> int \<Rightarrow> reward_market \<Rightarrow> reward_market result" where
  "rws_initialize admin reward_rate s =
     panic_if (rm_Admin s \<noteq> None) ''already initialized'' (
     panic_if (reward_rate \<le> 0) ''reward_rate must be positive'' (
     Ok (s\<lparr>rm_Admin := Some admin, rm_RewardRate := Some reward_rate\<rparr>)))"

definition rws_borrow :: "env \<Rightarrow> address \<Rightarrow> int \<Rightarrow> reward_market \<Rightarrow> reward_market result" where
  "rws_borrow e borrower amount s =
     require_auth e borrower (
     panic_if (amount \<le> 0) ''amount must be positive'' (
     let current = get0 (rm_Debt s) borrower in
     arith (checked_add I128 current amount) (\<lambda>n.
     Ok (s\<lparr>rm_Debt := (rm_Debt s)(borrower \<mapsto> n), rm_RewardCheckpoint := (rm_RewardCheckpoint s)(borrower \<mapsto> timestamp e)\<rparr>))))"

definition rws_repay_for :: "env \<Rightarrow> address \<Rightarrow> address \<Rightarrow> int \<Rightarrow> reward_market \<Rightarrow> reward_market result" where
  "rws_repay_for e payer borrower amount s =
     require_auth e payer (
     panic_if (amount \<le> 0) ''amount must be positive'' (
     let debt = rws_get_debt s borrower in
     panic_if (amount > debt) ''repay amount exceeds debt'' (
     let checkpoint = rws_get_reward_checkpoint e s borrower in
     arith (checked_sub U64 (timestamp e) checkpoint) (\<lambda>elapsed.
     let reward_rate = rws_get_reward_rate s; accrued = get0 (rm_AccruedReward s) borrower in
     arith (checked_mul I128 debt reward_rate) (\<lambda>p.
     arith (checked_mul I128 p elapsed) (\<lambda>q.
     arith (checked_add I128 accrued q) (\<lambda>vested.
     arith (checked_sub I128 debt amount) (\<lambda>n.
     Ok (s\<lparr>rm_AccruedReward := (rm_AccruedReward s)(borrower \<mapsto> vested), rm_Debt := (rm_Debt s)(borrower \<mapsto> n),
           rm_RewardCheckpoint := (rm_RewardCheckpoint s)(borrower \<mapsto> timestamp e)\<rparr>)))))))))"

definition rws_claim_rewards :: "env \<Rightarrow> address \<Rightarrow> reward_market \<Rightarrow> (int \<times> reward_market) result" where
  "rws_claim_rewards e borrower s =
     require_auth e borrower (
     let debt = rws_get_debt s borrower; reward_rate = rws_get_reward_rate s;
         checkpoint = rws_get_reward_checkpoint e s borrower in
     arith (checked_sub U64 (timestamp e) checkpoint) (\<lambda>elapsed.
     let accrued = get0 (rm_AccruedReward s) borrower in
     arith (checked_mul I128 debt reward_rate) (\<lambda>p.
     arith (checked_mul I128 p elapsed) (\<lambda>q.
     arith (checked_add I128 accrued q) (\<lambda>reward.
     Ok (reward, s\<lparr>rm_AccruedReward := (rm_AccruedReward s)(borrower \<mapsto> 0),
                   rm_RewardCheckpoint := (rm_RewardCheckpoint s)(borrower \<mapsto> timestamp e)\<rparr>))))))"

text \<open>The reward a borrower has earned by the time of \<open>e\<close>.\<close>

definition earned :: "env \<Rightarrow> reward_market \<Rightarrow> address \<Rightarrow> int" where
  "earned e s b = get0 (rm_AccruedReward s) b
     + rws_get_debt s b * rws_get_reward_rate s * (timestamp e - rws_get_reward_checkpoint e s b)"

lemmas rws_defs = rws_repay_for_def rws_claim_rewards_def rws_get_debt_def rws_get_reward_rate_def rws_get_reward_checkpoint_def Let_def

lemma claim_pays_earned: "rws_claim_rewards e b s = Ok (r, s') \<Longrightarrow> r = earned e s b \<and> earned e s' b = 0"
  by (auto simp: rws_defs earned_def result_simps int_simps)

lemma repay_keeps_earned:
  assumes "rws_repay_for e p b n s = Ok s'"
  shows "earned e s' c = earned e s c" and "rws_get_debt s' b = rws_get_debt s b - n"
  using assms by (auto simp: rws_defs earned_def result_simps int_simps)

text \<open>
  Third parties and rewards (\<^verbatim>\<open>repay_for_reward_grief/src/secure.rs\<close>): a repayment by anyone leaves the reward every borrower has earned by then as it is; the
  borrower can claim in the same moment, and is paid exactly that. In the original the repayment erases what accrued since the
  last checkpoint.
\<close>

theorem repayment_keeps_reward:
  assumes "rws_repay_for e p b n s = Ok s'" and "authorized e b" and "in_range I128 (rws_get_debt s' b * rws_get_reward_rate s')"
  shows "(\<forall>c. earned e s' c = earned e s c) \<and> (\<exists>s''. rws_claim_rewards e b s' = Ok (earned e s b, s''))"
proof -
  have "\<exists>s''. rws_claim_rewards e b s' = Ok (earned e s' b, s'')"
    using assms by (auto simp: rws_defs earned_def result_simps int_simps)
  with repay_keeps_earned(1) [OF assms(1)] show ?thesis by simp
qed

definition market_demo :: reward_market where
  "market_demo = \<lparr>rm_Admin = Some (Address 2), rm_RewardRate = Some 2, rm_Debt = [Address 5 \<mapsto> 30], rm_RewardCheckpoint = [Address 5 \<mapsto> 10],
     rm_AccruedReward = Map.empty\<rparr>"

theorem repayment_keeps_reward_witness:
  "\<exists>s' s''. rws_repay_for (signed_env [Address 5, Address 6] 4) (Address 6) (Address 5) 20 market_demo = Ok s'
     \<and> rws_claim_rewards (signed_env [Address 5, Address 6] 4) (Address 5) s' = Ok (600, s'')"
proof -
  let ?e = "signed_env [Address 5, Address 6] 4"
  have "\<exists>s'. rws_repay_for ?e (Address 6) (Address 5) 20 market_demo = Ok s' \<and> rws_get_debt s' (Address 5) = 10 \<and> rws_get_reward_rate s' = 2"
    by (simp add: market_demo_def rws_defs signed_env_def checked_ops in_range_def)
  then obtain s' where s': "rws_repay_for ?e (Address 6) (Address 5) 20 market_demo = Ok s'" "rws_get_debt s' (Address 5) = 10" "rws_get_reward_rate s' = 2"
    by blast
  have "\<exists>s''. rws_claim_rewards ?e (Address 5) s' = Ok (earned ?e market_demo (Address 5), s'')"
    using repayment_keeps_reward [OF s'(1)] s'(2,3) by (simp add: signed_env_def in_range_def)
  moreover have "earned ?e market_demo (Address 5) = 600"
    by (simp add: earned_def market_demo_def rws_defs signed_env_def)
  ultimately show ?thesis using s'(1) by auto
qed

lemma repayment_erases_reward:
  assumes "rw_repay_for e p b n s = Ok s'"
  shows "earned e s' b = get0 (rm_AccruedReward s) b"
  using assms by (auto simp: rw_repay_for_def earned_def rws_get_reward_checkpoint_def result_simps Let_def)

text \<open>The repaired \<^verbatim>\<open>borrow\<close> still does to the borrower's own reward what \<^verbatim>\<open>repay_for\<close> did.\<close>

lemma borrowing_erases_reward:
  assumes "rws_borrow e b n s = Ok s'"
  shows "earned e s' b = get0 (rm_AccruedReward s) b"
  using assms by (auto simp: rws_borrow_def earned_def rws_get_reward_checkpoint_def result_simps Let_def)

section \<open>uncapped\_rate\<close>

definition POOL_MAX_RATE :: int where "POOL_MAX_RATE = 1000000"

record rate_pool =
  rp_Stake :: "address \<rightharpoonup> int"
  rp_StakedAt :: "address \<rightharpoonup> int"
  rp_RewardRate :: "int option"
  rp_Admin :: "address option"

definition uc_require_admin :: "env \<Rightarrow> rate_pool \<Rightarrow> 'a result \<Rightarrow> 'a result" where
  "uc_require_admin e s k = expect (rp_Admin s) ''admin not initialized'' (\<lambda>admin. require_auth e admin k)"

definition uc_initialize :: "address \<Rightarrow> int \<Rightarrow> rate_pool \<Rightarrow> rate_pool result" where
  "uc_initialize admin reward_rate s = Ok (s\<lparr>rp_Admin := Some admin, rp_RewardRate := Some reward_rate\<rparr>)"

definition uc_update_rate :: "env \<Rightarrow> int \<Rightarrow> rate_pool \<Rightarrow> rate_pool result" where
  "uc_update_rate e new_rate s = uc_require_admin e s (Ok (s\<lparr>rp_RewardRate := Some new_rate\<rparr>))"

definition uc_stake :: "env \<Rightarrow> address \<Rightarrow> int \<Rightarrow> rate_pool \<Rightarrow> rate_pool result" where
  "uc_stake e staker amount s =
     require_auth e staker (
     Ok (s\<lparr>rp_Stake := (rp_Stake s)(staker \<mapsto> amount), rp_StakedAt := (rp_StakedAt s)(staker \<mapsto> sequence e)\<rparr>))"

definition uc_claim_rewards :: "env \<Rightarrow> address \<Rightarrow> rate_pool \<Rightarrow> (int \<times> rate_pool) result" where
  "uc_claim_rewards e staker s =
     require_auth e staker (
     let staked = get0 (rp_Stake s) staker; staked_at = get0 (rp_StakedAt s) staker; rate = unwrap_or (rp_RewardRate s) 0;
         current_ledger = sequence e in
     arith (checked_sub U32 current_ledger staked_at) (\<lambda>elapsed.
     arith (checked_mul U64 staked rate) (\<lambda>p.
     arith (checked_mul U64 p elapsed) (\<lambda>reward.
     Ok (reward, s\<lparr>rp_StakedAt := (rp_StakedAt s)(staker \<mapsto> current_ledger)\<rparr>)))))"

definition uc_staked_amount :: "rate_pool \<Rightarrow> address \<Rightarrow> int" where
  "uc_staked_amount s staker = get0 (rp_Stake s) staker"

definition uc_current_rate :: "rate_pool \<Rightarrow> int" where
  "uc_current_rate s = unwrap_or (rp_RewardRate s) 0"

definition ucs_require_admin :: "env \<Rightarrow> rate_pool \<Rightarrow> 'a result \<Rightarrow> 'a result" where
  "ucs_require_admin e s k = expect (rp_Admin s) ''admin not initialized'' (\<lambda>admin. require_auth e admin k)"

definition ucs_initialize :: "address \<Rightarrow> int \<Rightarrow> rate_pool \<Rightarrow> rate_pool result" where
  "ucs_initialize admin reward_rate s = Ok (s\<lparr>rp_Admin := Some admin, rp_RewardRate := Some reward_rate\<rparr>)"

definition ucs_update_rate :: "env \<Rightarrow> int \<Rightarrow> rate_pool \<Rightarrow> rate_pool result" where
  "ucs_update_rate e new_rate s =
     ucs_require_admin e s (
     ensure (new_rate \<le> POOL_MAX_RATE) ''rate exceeds maximum'' (Ok (s\<lparr>rp_RewardRate := Some new_rate\<rparr>)))"

definition ucs_stake :: "env \<Rightarrow> address \<Rightarrow> int \<Rightarrow> rate_pool \<Rightarrow> rate_pool result" where
  "ucs_stake e staker amount s =
     require_auth e staker (
     Ok (s\<lparr>rp_Stake := (rp_Stake s)(staker \<mapsto> amount), rp_StakedAt := (rp_StakedAt s)(staker \<mapsto> sequence e)\<rparr>))"

definition ucs_claim_rewards :: "env \<Rightarrow> address \<Rightarrow> rate_pool \<Rightarrow> (int \<times> rate_pool) result" where
  "ucs_claim_rewards e staker s =
     require_auth e staker (
     let staked = get0 (rp_Stake s) staker; staked_at = get0 (rp_StakedAt s) staker; rate = unwrap_or (rp_RewardRate s) 0;
         current_ledger = sequence e in
     arith (checked_sub U32 current_ledger staked_at) (\<lambda>elapsed.
     arith (checked_mul U64 staked rate) (\<lambda>p.
     arith (checked_mul U64 p elapsed) (\<lambda>reward.
     Ok (reward, s\<lparr>rp_StakedAt := (rp_StakedAt s)(staker \<mapsto> current_ledger)\<rparr>)))))"

definition ucs_staked_amount :: "rate_pool \<Rightarrow> address \<Rightarrow> int" where
  "ucs_staked_amount s staker = get0 (rp_Stake s) staker"

definition ucs_current_rate :: "rate_pool \<Rightarrow> int" where
  "ucs_current_rate s = unwrap_or (rp_RewardRate s) 0"

datatype rate_call = VInit address int | VRate int | VStake address int | VClaim address

fun ucs_exec :: "env \<Rightarrow> rate_call \<Rightarrow> rate_pool \<Rightarrow> rate_pool result" where
  "ucs_exec e (VInit a r) s = ucs_initialize a r s"
| "ucs_exec e (VRate r) s = ucs_update_rate e r s"
| "ucs_exec e (VStake a n) s = ucs_stake e a n s"
| "ucs_exec e (VClaim a) s = state_of (ucs_claim_rewards e a s)"

fun writes_rate :: "env \<Rightarrow> rate_call \<Rightarrow> rate_pool \<Rightarrow> int \<Rightarrow> bool" where
  "writes_rate e (VInit a r) s v \<longleftrightarrow> v = r"
| "writes_rate e (VRate r) s v \<longleftrightarrow> v = r \<and> r \<le> POOL_MAX_RATE \<and> (\<exists>a. rp_Admin s = Some a \<and> authorized e a)"
| "writes_rate e _ s v \<longleftrightarrow> False"

fun caps_rate :: "rate_call \<Rightarrow> bool" where
  "caps_rate (VInit a r) = (r \<le> POOL_MAX_RATE)"
| "caps_rate c = True"

lemmas ucs_defs = ucs_initialize_def ucs_update_rate_def ucs_stake_def ucs_claim_rewards_def ucs_require_admin_def ucs_current_rate_def Let_def

interpretation rates: written_view ucs_exec ucs_current_rate writes_rate
proof (unfold_locales, goal_cases)
  case (1 e c s s')
  then show ?case by (cases c) (auto simp: ucs_defs result_simps)
qed

interpretation capped: restricted_invariant ucs_exec "\<lambda>s. ucs_current_rate s \<le> POOL_MAX_RATE" "\<lambda>e. caps_rate"
proof (unfold_locales, goal_cases)
  case (1 s e c s')
  then show ?case by (cases c) (auto simp: ucs_defs result_simps)
qed

text \<open>
  Rates of the repaired pool (\<^verbatim>\<open>uncapped_rate/src/secure.rs\<close>): if no initialisation names a rate above the maximum, the rate never exceeds it, and a claim that
  returns pays at most the maximum rate on the stake for the ledgers that passed. A rate that changed was written by an initialisation, which is
  open, or by an update the administrator signed.
\<close>

theorem rates_capped:
  assumes "ucs_current_rate s \<le> POOL_MAX_RATE" and "\<forall>(e, c)\<in>set xs. caps_rate c"
    and "t = run_calls ucs_exec xs s" and "ucs_claim_rewards e a t = Ok (r, t')" and "0 \<le> ucs_staked_amount t a"
  shows "r \<le> ucs_staked_amount t a * POOL_MAX_RATE * (sequence e - get0 (rp_StakedAt t) a)
    \<and> (ucs_current_rate t \<noteq> ucs_current_rate s \<longrightarrow>
        (\<exists>ys e c zs. xs = ys @ (e, c) # zs \<and> writes_rate e c (run_calls ucs_exec ys s) (ucs_current_rate t)))"
proof
  have "ucs_current_rate t \<le> POOL_MAX_RATE"
    using capped.run_inv [OF assms(1,2)] assms(3) by simp
  then have "ucs_staked_amount t a * ucs_current_rate t \<le> ucs_staked_amount t a * POOL_MAX_RATE"
    using assms(5) by (rule mult_left_mono)
  moreover have "r = ucs_staked_amount t a * ucs_current_rate t * (sequence e - get0 (rp_StakedAt t) a)" "0 \<le> sequence e - get0 (rp_StakedAt t) a"
    using assms(4) by (auto simp: ucs_defs ucs_staked_amount_def result_simps int_simps in_range_unsigned)
  ultimately show "r \<le> ucs_staked_amount t a * POOL_MAX_RATE * (sequence e - get0 (rp_StakedAt t) a)"
    by (simp add: mult_right_mono)
  show "ucs_current_rate t \<noteq> ucs_current_rate s \<longrightarrow>
      (\<exists>ys e c zs. xs = ys @ (e, c) # zs \<and> writes_rate e c (run_calls ucs_exec ys s) (ucs_current_rate t))"
    using rates.run_writes [of xs s] assms(3) by blast
qed

definition rate_demo :: rate_pool where
  "rate_demo = \<lparr>rp_Stake = [Address 5 \<mapsto> 4], rp_StakedAt = [Address 5 \<mapsto> 1], rp_RewardRate = Some 7, rp_Admin = Some (Address 2)\<rparr>"

theorem rates_capped_witness:
  "\<exists>r t'. ucs_claim_rewards (signed_env [Address 5] 3) (Address 5) (run_calls ucs_exec [(signed_env [Address 2] 2, VRate 9)] rate_demo) = Ok (r, t') \<and> r \<le> 8000000"
proof -
  let ?t = "run_calls ucs_exec [(signed_env [Address 2] 2, VRate 9)] rate_demo"
  have t: "?t = rate_demo\<lparr>rp_RewardRate := Some 9\<rparr>"
    by (simp add: rate_demo_def ucs_defs signed_env_def POOL_MAX_RATE_def)
  have "\<exists>r t'. ucs_claim_rewards (signed_env [Address 5] 3) (Address 5) ?t = Ok (r, t')"
    unfolding t by (simp add: rate_demo_def ucs_defs signed_env_def checked_ops in_range_def)
  then obtain r t' where c: "ucs_claim_rewards (signed_env [Address 5] 3) (Address 5) ?t = Ok (r, t')" by blast
  have "r \<le> ucs_staked_amount ?t (Address 5) * POOL_MAX_RATE * (sequence (signed_env [Address 5] 3) - get0 (rp_StakedAt ?t) (Address 5))"
    using rates_capped [OF _ _ refl c] unfolding t by (simp add: rate_demo_def ucs_staked_amount_def ucs_current_rate_def POOL_MAX_RATE_def)
  then have "r \<le> 8000000"
    unfolding t by (simp add: rate_demo_def ucs_staked_amount_def POOL_MAX_RATE_def signed_env_def)
  with c show ?thesis by blast
qed

lemma anyone_sets_rate: "\<exists>s'. ucs_initialize a r s = Ok s' \<and> ucs_current_rate s' = r \<and> rp_Admin s' = Some a"
  by (simp add: ucs_initialize_def ucs_current_rate_def)

end
