(* ===== verification/Fees.thy ===== *)
theory Fees
  imports Soroban_Prelude
begin

text \<open>
  The fee crates: \<^verbatim>\<open>unchecked_fee_collector\<close>, \<^verbatim>\<open>self_fee_collector\<close>, \<^verbatim>\<open>fee_precision_loss\<close>, \<^verbatim>\<open>negative_fee_bps\<close>, \<^verbatim>\<open>uncapped_fee_bps\<close> and
  \<^verbatim>\<open>unprotected_fee_withdraw\<close>. Shown: who decides where fees go, that transfers with a fee conserve the tokens, how
  much of the fee survives splitting a transfer, and the bounds of a fee in basis points.
\<close>

section \<open>unchecked\_fee\_collector\<close>

record fee_box = host +
  fb_Admin :: "address option"
  fb_Collector :: "address option"
  fb_Fees :: "int option"
  fb_Approved :: "address list option"

definition fb_empty :: fee_box where
  "fb_empty = \<lparr>events = [], fb_Admin = None, fb_Collector = None, fb_Fees = None, fb_Approved = None\<rparr>"

definition fc_initialize :: "address \<Rightarrow> fee_box \<Rightarrow> fee_box result" where
  "fc_initialize admin s =
     panic_if (fb_Admin s \<noteq> None) ''already initialized'' (Ok (s\<lparr>fb_Admin := Some admin, fb_Fees := Some 0\<rparr>))"

definition fc_set_collector :: "address \<Rightarrow> fee_box \<Rightarrow> fee_box result" where
  "fc_set_collector collector s = Ok (s\<lparr>fb_Collector := Some collector\<rparr>)"

definition fc_collect_fee :: "int \<Rightarrow> fee_box \<Rightarrow> fee_box result" where
  "fc_collect_fee amount s =
     ensure (amount > 0) ''amount must be positive'' (
     arith (checked_div I128 amount 100) (\<lambda>fee.
     let current = unwrap_or (fb_Fees s) 0 in
     arith (checked_add I128 current fee) (\<lambda>n.
     Ok (publish [''fee''] [VInt fee] (s\<lparr>fb_Fees := Some n\<rparr>)))))"

definition fc_withdraw :: "fee_box \<Rightarrow> fee_box result" where
  "fc_withdraw s =
     expect (fb_Collector s) ''collector not set'' (\<lambda>collector.
     let fees = unwrap_or (fb_Fees s) 0 in
     Ok (publish [''withdraw''] [VAddr collector, VInt fees] (s\<lparr>fb_Fees := Some 0\<rparr>)))"

definition fc_get_fees :: "fee_box \<Rightarrow> int" where
  "fc_get_fees s = unwrap_or (fb_Fees s) 0"

definition fc_get_collector :: "fee_box \<Rightarrow> address result" where
  "fc_get_collector s = expect (fb_Collector s) ''collector not set'' Ok"

definition fc_get_admin :: "fee_box \<Rightarrow> address result" where
  "fc_get_admin s = expect (fb_Admin s) ''not initialized'' Ok"

definition fc_add_approved :: "env \<Rightarrow> address \<Rightarrow> fee_box \<Rightarrow> fee_box result" where
  "fc_add_approved e collector s =
     expect (fb_Admin s) ''not initialized'' (\<lambda>admin.
     require_auth e admin (
     let list = unwrap_or (fb_Approved s) [] in
     Ok (s\<lparr>fb_Approved := Some (list @ [collector])\<rparr>)))"

definition fcs_initialize :: "address \<Rightarrow> fee_box \<Rightarrow> fee_box result" where
  "fcs_initialize admin s =
     panic_if (fb_Admin s \<noteq> None) ''already initialized'' (Ok (s\<lparr>fb_Admin := Some admin, fb_Fees := Some 0\<rparr>))"

definition fcs_set_collector :: "env \<Rightarrow> address \<Rightarrow> fee_box \<Rightarrow> fee_box result" where
  "fcs_set_collector e collector s =
     expect (fb_Admin s) ''not initialized'' (\<lambda>admin.
     require_auth e admin (
     let list = unwrap_or (fb_Approved s) [] in
     ensure (collector \<in> set list) ''collector not approved'' (
     Ok (s\<lparr>fb_Collector := Some collector\<rparr>))))"

definition fcs_add_approved :: "env \<Rightarrow> address \<Rightarrow> fee_box \<Rightarrow> fee_box result" where
  "fcs_add_approved e collector s =
     expect (fb_Admin s) ''not initialized'' (\<lambda>admin.
     require_auth e admin (
     let list = unwrap_or (fb_Approved s) [] in
     Ok (s\<lparr>fb_Approved := Some (list @ [collector])\<rparr>)))"

definition fcs_collect_fee :: "int \<Rightarrow> fee_box \<Rightarrow> fee_box result" where
  "fcs_collect_fee amount s =
     ensure (amount > 0) ''amount must be positive'' (
     arith (checked_div I128 amount 100) (\<lambda>fee.
     let current = unwrap_or (fb_Fees s) 0 in
     arith (checked_add I128 current fee) (\<lambda>n. Ok (s\<lparr>fb_Fees := Some n\<rparr>))))"

definition fcs_get_fees :: "fee_box \<Rightarrow> int" where
  "fcs_get_fees s = unwrap_or (fb_Fees s) 0"

definition fcs_get_collector :: "fee_box \<Rightarrow> address result" where
  "fcs_get_collector s = expect (fb_Collector s) ''collector not set'' Ok"

datatype box_call = BInit address | BCollector address | BApprove address | BCollect int

fun fcs_exec :: "env \<Rightarrow> box_call \<Rightarrow> fee_box \<Rightarrow> fee_box result" where
  "fcs_exec e (BInit a) s = fcs_initialize a s"
| "fcs_exec e (BCollector a) s = fcs_set_collector e a s"
| "fcs_exec e (BApprove a) s = fcs_add_approved e a s"
| "fcs_exec e (BCollect n) s = fcs_collect_fee n s"

lemmas fcs_defs = fcs_initialize_def fcs_set_collector_def fcs_add_approved_def fcs_collect_fee_def Let_def

definition admin_signed :: "env \<Rightarrow> fee_box \<Rightarrow> bool" where
  "admin_signed e s \<longleftrightarrow> (\<exists>a. fb_Admin s = Some a \<and> authorized e a)"

interpretation collector_ok: contract_invariant fcs_exec "\<lambda>s. \<forall>c. fb_Collector s = Some c \<longrightarrow> c \<in> set (unwrap_or (fb_Approved s) [])"
proof (unfold_locales, goal_cases)
  case (1 s e c s')
  then show ?case by (cases c) (auto simp: fcs_defs result_simps)
qed

interpretation approvals_signed: guarded_steps fcs_exec "\<lambda>s t. a \<in> set (unwrap_or (fb_Approved t) []) \<longrightarrow> a \<in> set (unwrap_or (fb_Approved s) [])"
    "\<lambda>e c s. c = BApprove a \<and> admin_signed e s"
  for a
proof (unfold_locales, goal_cases)
  case (3 e c s s')
  then show ?case by (cases c) (auto simp: fcs_defs admin_signed_def result_simps)
qed auto

interpretation collector_set: written_view fcs_exec fb_Collector "\<lambda>e c s v. (\<exists>a. c = BCollector a \<and> v = Some a) \<and> admin_signed e s"
proof (unfold_locales, goal_cases)
  case (1 e c s s')
  then show ?case by (cases c) (auto simp: fcs_defs admin_signed_def result_simps)
qed

text \<open>
  Where fees go (\<^verbatim>\<open>unchecked_fee_collector/src/secure.rs\<close>): a collector is in place only after the administrator signed its approval in one call and
  its appointment in another. In the original every caller redirects the fees.
\<close>

theorem collector_appointed:
  assumes "fb_Collector (run_calls fcs_exec xs fb_empty) = Some a"
  shows "(\<exists>ys e zs. xs = ys @ (e, BApprove a) # zs \<and> admin_signed e (run_calls fcs_exec ys fb_empty))
    \<and> (\<exists>ys e zs. xs = ys @ (e, BCollector a) # zs \<and> admin_signed e (run_calls fcs_exec ys fb_empty))"
proof
  let ?t = "run_calls fcs_exec xs fb_empty"
  have "a \<in> set (unwrap_or (fb_Approved ?t) [])"
    using collector_ok.run_inv [of fb_empty xs] assms by (simp add: fb_empty_def)
  then show "\<exists>ys e zs. xs = ys @ (e, BApprove a) # zs \<and> admin_signed e (run_calls fcs_exec ys fb_empty)"
    using approvals_signed.run_guard [where a = a and xs = xs and s = fb_empty] by (auto simp: fb_empty_def)
  have "fb_Collector ?t \<noteq> fb_Collector fb_empty" using assms by (simp add: fb_empty_def)
  from collector_set.run_writes [OF this] assms
  show "\<exists>ys e zs. xs = ys @ (e, BCollector a) # zs \<and> admin_signed e (run_calls fcs_exec ys fb_empty)" by auto
qed

theorem collector_appointed_witness:
  "\<exists>ys e zs. [(signed_env [] 0, BInit (Address 2)), (signed_env [Address 2] 1, BApprove (Address 6)), (signed_env [Address 2] 2, BCollector (Address 6))]
     = ys @ (e, BApprove (Address 6)) # zs \<and> admin_signed e (run_calls fcs_exec ys fb_empty)"
  by (rule collector_appointed [THEN conjunct1]) (simp add: fb_empty_def fcs_defs signed_env_def)

lemma fees_redirected: "\<exists>s1 s2. fc_set_collector a s = Ok s1 \<and> fc_withdraw s1 = Ok s2 \<and> fc_get_fees s2 = 0
     \<and> last (events s2) = ([''withdraw''], [VAddr a, VInt (fc_get_fees s)])"
  by (simp add: fc_set_collector_def fc_withdraw_def fc_get_fees_def publish_def)

section \<open>self\_fee\_collector\<close>

definition sc_initialize :: "address \<Rightarrow> fee_box \<Rightarrow> fee_box result" where
  "sc_initialize admin s =
     panic_if (fb_Admin s \<noteq> None) ''already initialized'' (Ok (s\<lparr>fb_Admin := Some admin, fb_Fees := Some 0\<rparr>))"

definition sc_set_collector :: "env \<Rightarrow> address \<Rightarrow> fee_box \<Rightarrow> fee_box result" where
  "sc_set_collector e collector s =
     expect (fb_Admin s) ''not initialized'' (\<lambda>admin.
     require_auth e admin (Ok (s\<lparr>fb_Collector := Some collector\<rparr>)))"

definition sc_collect_fee :: "int \<Rightarrow> fee_box \<Rightarrow> fee_box result" where
  "sc_collect_fee amount s =
     ensure (amount > 0) ''amount must be positive'' (
     expect (fb_Collector s) ''collector not set'' (\<lambda>collector.
     let fees = unwrap_or (fb_Fees s) 0 in
     arith (checked_add I128 fees amount) (\<lambda>n.
     Ok (publish [''fee''] [VAddr collector, VInt amount] (s\<lparr>fb_Fees := Some n\<rparr>)))))"

definition sc_get_fees :: "fee_box \<Rightarrow> int" where
  "sc_get_fees s = unwrap_or (fb_Fees s) 0"

definition sc_get_collector :: "fee_box \<Rightarrow> address result" where
  "sc_get_collector s = expect (fb_Collector s) ''collector not set'' Ok"

definition scs_initialize :: "address \<Rightarrow> fee_box \<Rightarrow> fee_box result" where
  "scs_initialize admin s =
     panic_if (fb_Admin s \<noteq> None) ''already initialized'' (Ok (s\<lparr>fb_Admin := Some admin, fb_Fees := Some 0\<rparr>))"

definition scs_set_collector :: "env \<Rightarrow> address \<Rightarrow> fee_box \<Rightarrow> fee_box result" where
  "scs_set_collector e collector s =
     expect (fb_Admin s) ''not initialized'' (\<lambda>admin.
     require_auth e admin (
     ensure (collector \<noteq> current_contract e) ''collector cannot be the contract itself'' (
     Ok (s\<lparr>fb_Collector := Some collector\<rparr>))))"

definition scs_collect_fee :: "int \<Rightarrow> fee_box \<Rightarrow> fee_box result" where
  "scs_collect_fee amount s =
     ensure (amount > 0) ''amount must be positive'' (
     expect (fb_Collector s) ''collector not set'' (\<lambda>collector.
     let fees = unwrap_or (fb_Fees s) 0 in
     arith (checked_add I128 fees amount) (\<lambda>n.
     Ok (publish [''fee''] [VAddr collector, VInt amount] (s\<lparr>fb_Fees := Some n\<rparr>)))))"

definition scs_get_fees :: "fee_box \<Rightarrow> int" where
  "scs_get_fees s = unwrap_or (fb_Fees s) 0"

definition scs_get_collector :: "fee_box \<Rightarrow> address result" where
  "scs_get_collector s = expect (fb_Collector s) ''collector not set'' Ok"

text \<open>Calls to the deployment at \<open>v\<close>; there is no list of approved collectors here.\<close>

fun scs_exec :: "address \<Rightarrow> env \<Rightarrow> box_call \<Rightarrow> fee_box \<Rightarrow> fee_box result" where
  "scs_exec v e (BInit a) s = scs_initialize a s"
| "scs_exec v e (BCollector a) s = scs_set_collector (e\<lparr>current_contract := v\<rparr>) a s"
| "scs_exec v e (BApprove a) s = Err NoContract"
| "scs_exec v e (BCollect n) s = scs_collect_fee n s"

text \<open>The sum of the fees that the log says went to \<open>c\<close>.\<close>

fun sent_to :: "address \<Rightarrow> event list \<Rightarrow> int" where
  "sent_to c [] = 0"
| "sent_to c (([t], [VAddr a, VInt n]) # es) = (if t = ''fee'' \<and> a = c then n else 0) + sent_to c es"
| "sent_to c (_ # es) = sent_to c es"

fun sent_total :: "event list \<Rightarrow> int" where
  "sent_total [] = 0"
| "sent_total (([t], [VAddr a, VInt n]) # es) = (if t = ''fee'' then n else 0) + sent_total es"
| "sent_total (_ # es) = sent_total es"

lemma sent_append: "sent_to c (xs @ ys) = sent_to c xs + sent_to c ys" "sent_total (xs @ ys) = sent_total xs + sent_total ys"
  by (induction c xs rule: sent_to.induct) auto

definition logged :: "address \<Rightarrow> fee_box \<Rightarrow> bool" where
  "logged v s \<longleftrightarrow> fb_Collector s \<noteq> Some v \<and> sent_to v (events s) = 0 \<and> scs_get_fees s = sent_total (events s)
     \<and> (fb_Admin s = None \<longrightarrow> fb_Collector s = None \<and> fb_Fees s = None)"

interpretation self_log: contract_invariant "scs_exec v" "logged v"
  for v
proof (unfold_locales, goal_cases)
  case (1 s e c s')
  then show ?case
    by (cases c) (auto simp: logged_def scs_initialize_def scs_set_collector_def scs_collect_fee_def scs_get_fees_def publish_def sent_append
        Let_def result_simps int_simps)
qed

text \<open>
  The repaired collector (\<^verbatim>\<open>self_fee_collector/src/secure.rs\<close>): in every run from deployment no fee is sent to the contract itself, and the fee counter is the
  sum of what the log reports as sent. In the original the administrator can trap the fees in the contract.
\<close>

theorem no_fee_to_self:
  "sent_to v (events (run_calls (scs_exec v) xs fb_empty)) = 0
   \<and> scs_get_fees (run_calls (scs_exec v) xs fb_empty) = sent_total (events (run_calls (scs_exec v) xs fb_empty))"
  using self_log.run_inv [of v fb_empty xs] by (simp add: logged_def fb_empty_def scs_get_fees_def)

lemma fees_trapped:
  assumes "fb_Admin s = Some a" "authorized e a" and "fb_Fees s = Some 0"
  shows "\<exists>s1 s2. sc_set_collector e (current_contract e) s = Ok s1 \<and> sc_collect_fee 5 s1 = Ok s2
    \<and> last (events s2) = ([''fee''], [VAddr (current_contract e), VInt 5])"
  using assms by (simp add: sc_set_collector_def sc_collect_fee_def publish_def checked_add_def in_range_def)

section \<open>fee\_precision\_loss\<close>

definition FEE_BPS :: int where "FEE_BPS = 100"
definition BPS_DENOM :: int where "BPS_DENOM = 10000"

record fee_token =
  ft_Balance :: "address \<rightharpoonup> int"
  ft_FeesCollected :: "int option"

definition fpl_balance_of :: "fee_token \<Rightarrow> address \<Rightarrow> int" where
  "fpl_balance_of s user = get0 (ft_Balance s) user"

definition fpl_fees_collected :: "fee_token \<Rightarrow> int" where
  "fpl_fees_collected s = unwrap_or (ft_FeesCollected s) 0"

definition fpl_mint :: "address \<Rightarrow> int \<Rightarrow> fee_token \<Rightarrow> fee_token result" where
  "fpl_mint user amount s =
     ensure (amount > 0) ''assertion failed: amount > 0'' (
     let bal = fpl_balance_of s user in
     arith (checked_add I128 bal amount) (\<lambda>n. Ok (s\<lparr>ft_Balance := (ft_Balance s)(user \<mapsto> n)\<rparr>)))"

text \<open>The part of \<^verbatim>\<open>transfer\<close> after the fee, which both halves share: debit, credit, count.\<close>

definition fpl_settle :: "address \<Rightarrow> address \<Rightarrow> int \<Rightarrow> int \<Rightarrow> fee_token \<Rightarrow> fee_token result" where
  "fpl_settle from to amount fee s =
     (let from_bal = fpl_balance_of s from in
      ensure (from_bal \<ge> amount) ''insufficient balance'' (
      arith (checked_sub I128 from_bal amount) (\<lambda>n.
      let s1 = s\<lparr>ft_Balance := (ft_Balance s)(from \<mapsto> n)\<rparr>; to_bal = fpl_balance_of s1 to in
      arith (checked_add I128 to_bal amount) (\<lambda>p.
      arith (checked_sub I128 p fee) (\<lambda>m.
      let s2 = s1\<lparr>ft_Balance := (ft_Balance s1)(to \<mapsto> m)\<rparr>; collected = fpl_fees_collected s2 in
      arith (checked_add I128 collected fee) (\<lambda>k. Ok (s2\<lparr>ft_FeesCollected := Some k\<rparr>)))))))"

definition fpl_transfer :: "env \<Rightarrow> address \<Rightarrow> address \<Rightarrow> int \<Rightarrow> fee_token \<Rightarrow> fee_token result" where
  "fpl_transfer e from to amount s =
     require_auth e from (
     ensure (amount > 0) ''amount must be positive'' (
     arith (checked_mul I128 amount FEE_BPS) (\<lambda>p.
     arith (checked_div I128 p BPS_DENOM) (\<lambda>fee.
     fpl_settle from to amount fee s))))"

definition fpl_balance :: "fee_token \<Rightarrow> address \<Rightarrow> int" where
  "fpl_balance s user = fpl_balance_of s user"

definition fpl_fees_collected_view :: "fee_token \<Rightarrow> int" where
  "fpl_fees_collected_view s = fpl_fees_collected s"

definition fpls_mint :: "address \<Rightarrow> int \<Rightarrow> fee_token \<Rightarrow> fee_token result" where
  "fpls_mint user amount s =
     ensure (amount > 0) ''assertion failed: amount > 0'' (
     let bal = fpl_balance_of s user in
     arith (checked_add I128 bal amount) (\<lambda>n. Ok (s\<lparr>ft_Balance := (ft_Balance s)(user \<mapsto> n)\<rparr>)))"

definition fpls_transfer :: "env \<Rightarrow> address \<Rightarrow> address \<Rightarrow> int \<Rightarrow> fee_token \<Rightarrow> fee_token result" where
  "fpls_transfer e from to amount s =
     require_auth e from (
     ensure (amount > 0) ''amount must be positive'' (
     arith (checked_mul I128 amount FEE_BPS) (\<lambda>p.
     arith (checked_div I128 p BPS_DENOM) (\<lambda>raw_fee.
     let fee = (if raw_fee = 0 \<and> FEE_BPS > 0 then 1 else raw_fee) in
     fpl_settle from to amount fee s))))"

definition fpls_balance :: "fee_token \<Rightarrow> address \<Rightarrow> int" where
  "fpls_balance s user = fpl_balance_of s user"

definition fpls_fees_collected :: "fee_token \<Rightarrow> int" where
  "fpls_fees_collected s = fpl_fees_collected s"

datatype fee_call = FMint address int | FTransfer address address int

fun fpls_exec :: "env \<Rightarrow> fee_call \<Rightarrow> fee_token \<Rightarrow> fee_token result" where
  "fpls_exec e (FMint a n) s = fpls_mint a n s"
| "fpls_exec e (FTransfer a b n) s = fpls_transfer e a b n s"

fun fpl_exec :: "env \<Rightarrow> fee_call \<Rightarrow> fee_token \<Rightarrow> fee_token result" where
  "fpl_exec e (FMint a n) s = fpl_mint a n s"
| "fpl_exec e (FTransfer a b n) s = fpl_transfer e a b n s"

fun fee_minted :: "fee_call \<Rightarrow> int" where
  "fee_minted (FMint a n) = n"
| "fee_minted (FTransfer a b n) = 0"

fun volume :: "fee_call \<Rightarrow> int" where
  "volume (FMint a n) = 0"
| "volume (FTransfer a b n) = n"

lemma fpl_settle_effect:
  assumes "fpl_settle a b n f s = Ok s'" and "finite (dom (ft_Balance s))"
  shows "finite (dom (ft_Balance s'))" and "fpl_fees_collected s' = fpl_fees_collected s + f"
    and "sum_bal (ft_Balance s') = sum_bal (ft_Balance s) - f"
  using assms by (auto simp: fpl_settle_def fpl_balance_of_def fpl_fees_collected_def sum_bal_update Let_def result_simps int_simps)

lemma fpls_transfer_fee:
  assumes "fpls_transfer e a b n s = Ok s'"
  shows "0 < n" and "authorized e a" and "fpl_settle a b n (max 1 (n div 100)) s = Ok s'"
proof -
  have n: "0 < n" "authorized e a" using assms by (auto simp: fpls_transfer_def result_simps)
  have "(n * FEE_BPS) sdiv BPS_DENOM = n div 100"
    using n by (simp add: FEE_BPS_def BPS_DENOM_def sdiv_nonneg_eq)
  moreover have "0 \<le> n div 100" using n by simp
  ultimately show "0 < n" "authorized e a" "fpl_settle a b n (max 1 (n div 100)) s = Ok s'"
    using assms n by (auto simp: fpls_transfer_def FEE_BPS_def BPS_DENOM_def Let_def max_def result_simps int_simps split: if_splits)
qed

interpretation fee_supply: conserved_flow fpls_exec "\<lambda>s. finite (dom (ft_Balance s))" "\<lambda>s. sum_bal (ft_Balance s) + fpls_fees_collected s" "\<lambda>e c s. fee_minted c"
proof (unfold_locales, goal_cases)
  case (1 s e c s')
  then show ?case
    by (cases c) (auto simp: fpls_mint_def Let_def result_simps dest!: fpls_transfer_fee(3) fpl_settle_effect(1))
next
  case (2 s e c s')
  show ?case
  proof (cases c)
    case (FMint a n)
    with 2 show ?thesis
      by (auto simp: fpls_mint_def fpl_balance_of_def fpls_fees_collected_def fpl_fees_collected_def sum_bal_update Let_def result_simps int_simps)
  next
    case (FTransfer a b n)
    with 2 have "fpl_settle a b n (max 1 (n div 100)) s = Ok s'" by (simp add: fpls_transfer_fee(3))
    from fpl_settle_effect(2,3) [OF this 2(1)] FTransfer show ?thesis by (simp add: fpls_fees_collected_def)
  qed
qed

lemma min_fee_rate: "0 < (n::int) \<Longrightarrow> n \<le> 199 * max 1 (n div 100)"
  unfolding max_def by presburger

interpretation fee_rate: growing_flow fpls_exec "\<lambda>s. finite (dom (ft_Balance s))" "\<lambda>s. 199 * fpls_fees_collected s" "\<lambda>e c s. volume c"
proof (unfold_locales, goal_cases)
  case (1 s e c s')
  show ?case
  proof (cases c)
    case (FMint a n)
    with 1 show ?thesis by (auto simp: fpls_mint_def fpls_fees_collected_def fpl_fees_collected_def Let_def result_simps)
  next
    case (FTransfer a b n)
    with 1 have t: "0 < n" "fpl_settle a b n (max 1 (n div 100)) s = Ok s'" using fpls_transfer_fee [of e a b n s s'] by simp_all
    from fpl_settle_effect(2) [OF t(2) 1(1)] min_fee_rate [OF t(1)] FTransfer show ?thesis
      by (simp add: fpls_fees_collected_def algebra_simps)
  qed
qed

text \<open>
  Transfers with a fee (\<^verbatim>\<open>fee_precision_loss/src/secure.rs\<close>): over any run the balances and the collected fees together change by what is minted, and however
  transfers are split, at least one unit in 199 of the volume is collected. The nominal rate is one in 100: chunks of 199 still pay about half of
  it, and in the original chunks of 99 pay nothing.
\<close>

theorem fee_survives_splitting:
  assumes "finite (dom (ft_Balance s))"
  shows "sum_bal (ft_Balance (run_calls fpls_exec xs s)) + fpls_fees_collected (run_calls fpls_exec xs s)
      = sum_bal (ft_Balance s) + fpls_fees_collected s + run_flow fpls_exec (\<lambda>e c s. fee_minted c) xs s
    \<and> run_flow fpls_exec (\<lambda>e c s. volume c) xs s \<le> 199 * (fpls_fees_collected (run_calls fpls_exec xs s) - fpls_fees_collected s)"
  using fee_supply.run_conserves [OF assms, of xs] fee_rate.run_grows [OF assms, of xs] by simp

theorem fee_survives_splitting_witness:
  "fpls_fees_collected (run_calls fpls_exec [(signed_env [Address 5] 1, FTransfer (Address 5) (Address 6) 199)] \<lparr>ft_Balance = [Address 5 \<mapsto> 500], ft_FeesCollected = None\<rparr>) \<ge> 1"
proof -
  let ?xs = "[(signed_env [Address 5] 1, FTransfer (Address 5) (Address 6) 199)]" and ?s = "\<lparr>ft_Balance = [Address 5 \<mapsto> 500], ft_FeesCollected = None\<rparr>"
  have "run_flow fpls_exec (\<lambda>e c s. volume c) ?xs ?s = 199"
    by (simp add: fpls_transfer_def fpl_settle_def fpl_balance_of_def fpl_fees_collected_def FEE_BPS_def BPS_DENOM_def signed_env_def checked_ops
        in_range_def signed_divide_int_def Let_def)
  then show ?thesis
    using fee_survives_splitting [of ?s ?xs] by (simp add: fpls_fees_collected_def fpl_fees_collected_def)
qed

lemma dust_transfer_free:
  assumes "0 < n" "n < 100" and "fpl_transfer e a b n s = Ok s'"
  shows "fpl_settle a b n 0 s = Ok s'"
  using assms by (auto simp: fpl_transfer_def FEE_BPS_def BPS_DENOM_def sdiv_nonneg_eq result_simps int_simps split: if_splits)

section \<open>negative\_fee\_bps\<close>

record bps_token =
  bt_FeeBps :: "int option"
  bt_Admin :: "address option"
  bt_Balance :: "address \<rightharpoonup> int"

definition nf_get_balance :: "bps_token \<Rightarrow> address \<Rightarrow> int" where
  "nf_get_balance s account = get0 (bt_Balance s) account"

definition nf_set_balance :: "address \<Rightarrow> int \<Rightarrow> bps_token \<Rightarrow> bps_token" where
  "nf_set_balance account val s = s\<lparr>bt_Balance := (bt_Balance s)(account \<mapsto> val)\<rparr>"

definition nf_initialize :: "address \<Rightarrow> int \<Rightarrow> bps_token \<Rightarrow> bps_token result" where
  "nf_initialize admin fee_bps s = Ok (s\<lparr>bt_Admin := Some admin, bt_FeeBps := Some fee_bps\<rparr>)"

definition nf_mint :: "address \<Rightarrow> int \<Rightarrow> bps_token \<Rightarrow> bps_token result" where
  "nf_mint to amount s = arith (checked_add I128 (nf_get_balance s to) amount) (\<lambda>n. Ok (nf_set_balance to n s))"

definition nf_set_fee :: "env \<Rightarrow> int \<Rightarrow> bps_token \<Rightarrow> bps_token result" where
  "nf_set_fee e fee_bps s =
     unwrap (bt_Admin s) (\<lambda>admin.
     require_auth e admin (
     panic_if (fee_bps > 10000) ''fee_bps exceeds 10000'' (Ok (s\<lparr>bt_FeeBps := Some fee_bps\<rparr>))))"

definition nf_transfer :: "env \<Rightarrow> address \<Rightarrow> address \<Rightarrow> int \<Rightarrow> bps_token \<Rightarrow> bps_token result" where
  "nf_transfer e from to amount s =
     require_auth e from (
     let fee_bps = unwrap_or (bt_FeeBps s) 0 in
     arith (checked_mul I128 amount fee_bps) (\<lambda>p.
     arith (checked_div I128 p 10000) (\<lambda>fee.
     arith (checked_sub I128 amount fee) (\<lambda>net.
     arith (checked_sub I128 (nf_get_balance s from) amount) (\<lambda>n.
     let s1 = nf_set_balance from n s in
     arith (checked_add I128 (nf_get_balance s1 to) net) (\<lambda>m. Ok (nf_set_balance to m s1)))))))"

definition nf_balance :: "bps_token \<Rightarrow> address \<Rightarrow> int" where
  "nf_balance s account = nf_get_balance s account"

definition nf_current_fee_bps :: "bps_token \<Rightarrow> int" where
  "nf_current_fee_bps s = unwrap_or (bt_FeeBps s) 0"

definition nfs_initialize :: "address \<Rightarrow> int \<Rightarrow> bps_token \<Rightarrow> bps_token result" where
  "nfs_initialize admin fee_bps s = Ok (s\<lparr>bt_Admin := Some admin, bt_FeeBps := Some fee_bps\<rparr>)"

definition nfs_mint :: "address \<Rightarrow> int \<Rightarrow> bps_token \<Rightarrow> bps_token result" where
  "nfs_mint to amount s = arith (checked_add I128 (nf_get_balance s to) amount) (\<lambda>n. Ok (nf_set_balance to n s))"

definition nfs_set_fee :: "env \<Rightarrow> int \<Rightarrow> bps_token \<Rightarrow> bps_token result" where
  "nfs_set_fee e fee_bps s =
     unwrap (bt_Admin s) (\<lambda>admin.
     require_auth e admin (
     panic_if (fee_bps < 0 \<or> fee_bps > 10000) ''fee_bps must be in 0..=10000'' (Ok (s\<lparr>bt_FeeBps := Some fee_bps\<rparr>))))"

definition nfs_transfer :: "env \<Rightarrow> address \<Rightarrow> address \<Rightarrow> int \<Rightarrow> bps_token \<Rightarrow> bps_token result" where
  "nfs_transfer e from to amount s =
     require_auth e from (
     let fee_bps = unwrap_or (bt_FeeBps s) 0 in
     expect (Option.bind (checked_mul I128 amount fee_bps) (\<lambda>v. checked_div I128 v 10000)) ''fee overflow'' (\<lambda>fee.
     expect (checked_sub I128 amount fee) ''net underflow'' (\<lambda>net.
     arith (checked_sub I128 (nf_get_balance s from) amount) (\<lambda>n.
     let s1 = nf_set_balance from n s in
     arith (checked_add I128 (nf_get_balance s1 to) net) (\<lambda>m. Ok (nf_set_balance to m s1))))))"

definition nfs_balance :: "bps_token \<Rightarrow> address \<Rightarrow> int" where
  "nfs_balance s account = nf_get_balance s account"

definition nfs_current_fee_bps :: "bps_token \<Rightarrow> int" where
  "nfs_current_fee_bps s = unwrap_or (bt_FeeBps s) 0"

datatype bps_call = TInit address int | TMint address int | TFee int | TTransfer address address int

fun nfs_exec :: "env \<Rightarrow> bps_call \<Rightarrow> bps_token \<Rightarrow> bps_token result" where
  "nfs_exec e (TInit a f) s = nfs_initialize a f s"
| "nfs_exec e (TMint a n) s = nfs_mint a n s"
| "nfs_exec e (TFee f) s = nfs_set_fee e f s"
| "nfs_exec e (TTransfer a b n) s = nfs_transfer e a b n s"

text \<open>Initialisations name a rate within the bounds, and nothing is minted or transferred with a negative amount.\<close>

fun bps_sane :: "bps_call \<Rightarrow> bool" where
  "bps_sane (TInit a f) = (0 \<le> f \<and> f \<le> 10000)"
| "bps_sane (TMint a n) = False"
| "bps_sane (TFee f) = True"
| "bps_sane (TTransfer a b n) = (0 \<le> n)"

lemma nfs_transfer_supply:
  assumes "nfs_transfer e a b n s = Ok s'" and "0 \<le> n" and "nfs_current_fee_bps s \<in> {0..10000}" and "finite (dom (bt_Balance s))"
  shows "finite (dom (bt_Balance s'))" and "bt_FeeBps s' = bt_FeeBps s"
    and "sum_bal (bt_Balance s') = sum_bal (bt_Balance s) - n * nfs_current_fee_bps s div 10000"
    and "0 \<le> n * nfs_current_fee_bps s div 10000" and "n * nfs_current_fee_bps s div 10000 \<le> n"
proof -
  have r: "0 \<le> nfs_current_fee_bps s" "nfs_current_fee_bps s \<le> 10000" using assms(3) by auto
  have "n * nfs_current_fee_bps s \<le> n * 10000" using r assms(2) by (intro mult_left_mono) auto
  from zdiv_mono1 [OF this, of 10000] show "n * nfs_current_fee_bps s div 10000 \<le> n" by simp
  show "0 \<le> n * nfs_current_fee_bps s div 10000" using r assms(2) by (simp add: pos_imp_zdiv_nonneg_iff)
  have "(n * nfs_current_fee_bps s) sdiv 10000 = n * nfs_current_fee_bps s div 10000"
    using r assms(2) by (simp add: sdiv_nonneg_eq)
  with assms show "finite (dom (bt_Balance s'))" "bt_FeeBps s' = bt_FeeBps s"
      "sum_bal (bt_Balance s') = sum_bal (bt_Balance s) - n * nfs_current_fee_bps s div 10000"
    by (auto simp: nfs_transfer_def nfs_current_fee_bps_def nf_get_balance_def nf_set_balance_def sum_bal_update bind_eq_Some_conv
        Let_def result_simps int_simps split: if_splits)
qed

interpretation bps_supply: restricted_invariant nfs_exec
    "\<lambda>s. finite (dom (bt_Balance s)) \<and> nfs_current_fee_bps s \<in> {0..10000} \<and> sum_bal (bt_Balance s) \<le> B" "\<lambda>e. bps_sane"
  for B
proof (unfold_locales, goal_cases)
  case (1 s e c s')
  show ?case
  proof (cases c)
    case (TTransfer a b n)
    with 1 have t: "nfs_transfer e a b n s = Ok s'" "0 \<le> n" "nfs_current_fee_bps s \<in> {0..10000}" "finite (dom (bt_Balance s))" by auto
    from nfs_transfer_supply [OF t] 1(1) show ?thesis by (auto simp: nfs_current_fee_bps_def)
  qed (use 1 in \<open>auto simp: nfs_initialize_def nfs_set_fee_def nfs_current_fee_bps_def result_simps\<close>)
qed

text \<open>
  Fees in basis points (\<^verbatim>\<open>negative_fee_bps/src/secure.rs\<close>): while no initialisation names a rate out of bounds and no amount is negative, the rate stays between
  nothing and everything and transfers never create tokens. In the original a negative rate does.
\<close>

theorem transfers_never_create:
  assumes "finite (dom (bt_Balance s))" and "nfs_current_fee_bps s \<in> {0..10000}" and "\<forall>(e, c)\<in>set xs. bps_sane c"
  shows "nfs_current_fee_bps (run_calls nfs_exec xs s) \<in> {0..10000} \<and> sum_bal (bt_Balance (run_calls nfs_exec xs s)) \<le> sum_bal (bt_Balance s)"
  using bps_supply.run_inv [of s "sum_bal (bt_Balance s)" xs] assms by blast

theorem transfers_never_create_witness:
  "sum_bal (bt_Balance (run_calls nfs_exec [(signed_env [Address 5] 1, TTransfer (Address 5) (Address 6) 10)] \<lparr>bt_FeeBps = Some 300, bt_Admin = None, bt_Balance = [Address 5 \<mapsto> 20]\<rparr>)) \<le> 20"
  using transfers_never_create [of "\<lparr>bt_FeeBps = Some 300, bt_Admin = None, bt_Balance = [Address 5 \<mapsto> 20]\<rparr>" "[(signed_env [Address 5] 1, TTransfer (Address 5) (Address 6) 10)]"]
  by (simp add: nfs_current_fee_bps_def sum_bal_def)

lemma negative_fee_creates:
  assumes "bt_Admin s = Some a" "authorized e a" "authorized e b" "b \<noteq> c" "nf_get_balance s b = 100" "nf_get_balance s c = 0"
  shows "\<exists>s1 s2. nf_set_fee e (- 10000) s = Ok s1 \<and> nf_transfer e b c 100 s1 = Ok s2 \<and> nf_get_balance s2 b = 0 \<and> nf_get_balance s2 c = 200"
  using assms by (simp add: nf_set_fee_def nf_transfer_def nf_get_balance_def nf_set_balance_def checked_ops in_range_def signed_divide_int_def Let_def)

lemma rate_set_by_anyone: "\<exists>s'. nfs_initialize a (- 10000) s = Ok s' \<and> nfs_current_fee_bps s' = - 10000"
  by (simp add: nfs_initialize_def nfs_current_fee_bps_def)

section \<open>uncapped\_fee\_bps\<close>

definition MAX_FEE_BPS :: int where "MAX_FEE_BPS = 10000"

record fee_config =
  fg_FeeBps :: "int option"
  fg_Admin :: "address option"

definition ufb_require_admin :: "env \<Rightarrow> fee_config \<Rightarrow> 'a result \<Rightarrow> 'a result" where
  "ufb_require_admin e s k = unwrap (fg_Admin s) (\<lambda>admin. require_auth e admin k)"

definition ufb_initialize :: "address \<Rightarrow> int \<Rightarrow> fee_config \<Rightarrow> fee_config result" where
  "ufb_initialize admin fee_bps s = Ok (s\<lparr>fg_Admin := Some admin, fg_FeeBps := Some fee_bps\<rparr>)"

definition ufb_set_fee :: "env \<Rightarrow> int \<Rightarrow> fee_config \<Rightarrow> fee_config result" where
  "ufb_set_fee e fee_bps s = ufb_require_admin e s (Ok (s\<lparr>fg_FeeBps := Some fee_bps\<rparr>))"

definition ufb_calculate_fee :: "int \<Rightarrow> fee_config \<Rightarrow> int result" where
  "ufb_calculate_fee amount s =
     (let fee_bps = unwrap_or (fg_FeeBps s) 0 in
      arith (checked_mul I128 amount fee_bps) (\<lambda>p. arith (checked_div I128 p 10000) Ok))"

definition ufb_current_fee_bps :: "fee_config \<Rightarrow> int" where
  "ufb_current_fee_bps s = unwrap_or (fg_FeeBps s) 0"

definition ufbs_require_admin :: "env \<Rightarrow> fee_config \<Rightarrow> 'a result \<Rightarrow> 'a result" where
  "ufbs_require_admin e s k = unwrap (fg_Admin s) (\<lambda>admin. require_auth e admin k)"

definition ufbs_initialize :: "address \<Rightarrow> int \<Rightarrow> fee_config \<Rightarrow> fee_config result" where
  "ufbs_initialize admin fee_bps s = Ok (s\<lparr>fg_Admin := Some admin, fg_FeeBps := Some fee_bps\<rparr>)"

definition ufbs_set_fee :: "env \<Rightarrow> int \<Rightarrow> fee_config \<Rightarrow> fee_config result" where
  "ufbs_set_fee e fee_bps s =
     ufbs_require_admin e s (
     panic_if (fee_bps > MAX_FEE_BPS) ''fee_bps exceeds 10000'' (Ok (s\<lparr>fg_FeeBps := Some fee_bps\<rparr>)))"

definition ufbs_calculate_fee :: "int \<Rightarrow> fee_config \<Rightarrow> int result" where
  "ufbs_calculate_fee amount s =
     (let fee_bps = unwrap_or (fg_FeeBps s) 0 in
      expect (Option.bind (checked_mul I128 amount fee_bps) (\<lambda>res. checked_div I128 res 10000)) ''fee calculation overflow'' Ok)"

definition ufbs_current_fee_bps :: "fee_config \<Rightarrow> int" where
  "ufbs_current_fee_bps s = unwrap_or (fg_FeeBps s) 0"

datatype config_call = GInit address int | GFee int

fun ufbs_exec :: "env \<Rightarrow> config_call \<Rightarrow> fee_config \<Rightarrow> fee_config result" where
  "ufbs_exec e (GInit a f) s = ufbs_initialize a f s"
| "ufbs_exec e (GFee f) s = ufbs_set_fee e f s"

interpretation fee_cap: restricted_invariant ufbs_exec "\<lambda>s. ufbs_current_fee_bps s \<le> MAX_FEE_BPS" "\<lambda>e c. \<forall>a f. c = GInit a f \<longrightarrow> f \<le> MAX_FEE_BPS"
proof (unfold_locales, goal_cases)
  case (1 s e c s')
  then show ?case by (cases c) (auto simp: ufbs_initialize_def ufbs_set_fee_def ufbs_require_admin_def ufbs_current_fee_bps_def result_simps)
qed

text \<open>
  The repaired fee (\<^verbatim>\<open>uncapped_fee_bps/src/secure.rs\<close>): while no initialisation names a rate above the cap, a fee that is computed is at most the amount it is
  taken from. Checked and plain arithmetic agree: both halves compute the same fee, and trap on the same inputs.
\<close>

theorem fee_at_most_amount:
  assumes "ufbs_current_fee_bps s \<le> MAX_FEE_BPS" and "\<forall>(e, c)\<in>set xs. \<forall>a f. c = GInit a f \<longrightarrow> f \<le> MAX_FEE_BPS" and "0 \<le> n"
  shows "(ufbs_calculate_fee n (run_calls ufbs_exec xs s) = Ok f \<longrightarrow> f \<le> n)
    \<and> (ufbs_calculate_fee n t = Ok f \<longleftrightarrow> ufb_calculate_fee n t = Ok f)"
proof
  let ?t = "run_calls ufbs_exec xs s"
  have cap: "ufbs_current_fee_bps ?t \<le> 10000"
    using fee_cap.run_inv [OF assms(1,2)] by (simp add: MAX_FEE_BPS_def)
  show "ufbs_calculate_fee n ?t = Ok f \<longrightarrow> f \<le> n"
  proof
    assume "ufbs_calculate_fee n ?t = Ok f"
    then have f: "f = (n * ufbs_current_fee_bps ?t) sdiv 10000"
      by (auto simp: ufbs_calculate_fee_def ufbs_current_fee_bps_def bind_eq_Some_conv result_simps int_simps)
    show "f \<le> n"
    proof (cases "0 \<le> ufbs_current_fee_bps ?t")
      case True
      have "n * ufbs_current_fee_bps ?t \<le> n * 10000" using cap assms(3) by (rule mult_left_mono)
      from zdiv_mono1 [OF this, of 10000] f True assms(3) show ?thesis by (simp add: sdiv_nonneg_eq)
    next
      case False
      then have "n * ufbs_current_fee_bps ?t \<le> 0" using assms(3) by (simp add: mult_nonneg_nonpos)
      then have "f \<le> 0" unfolding f by (simp add: signed_divide_int_def sgn_if pos_imp_zdiv_nonneg_iff)
      with assms(3) show ?thesis by linarith
    qed
  qed
  show "ufbs_calculate_fee n t = Ok f \<longleftrightarrow> ufb_calculate_fee n t = Ok f"
    by (auto simp: ufbs_calculate_fee_def ufb_calculate_fee_def bind_eq_Some_conv result_simps Let_def)
qed

theorem fee_at_most_amount_witness:
  "ufbs_calculate_fee 99 (run_calls ufbs_exec [(signed_env [Address 2] 1, GFee 500)] \<lparr>fg_FeeBps = None, fg_Admin = Some (Address 2)\<rparr>) = Ok 4 \<and> (4::int) \<le> 99"
proof -
  have "ufbs_calculate_fee 99 (run_calls ufbs_exec [(signed_env [Address 2] 1, GFee 500)] \<lparr>fg_FeeBps = None, fg_Admin = Some (Address 2)\<rparr>) = Ok 4"
    by (simp add: ufbs_set_fee_def ufbs_require_admin_def ufbs_calculate_fee_def MAX_FEE_BPS_def signed_env_def checked_ops in_range_def signed_divide_int_def)
  then show ?thesis
    using fee_at_most_amount [of "\<lparr>fg_FeeBps = None, fg_Admin = Some (Address 2)\<rparr>" "[(signed_env [Address 2] 1, GFee 500)]" 99 4]
    by (simp add: ufbs_current_fee_bps_def MAX_FEE_BPS_def)
qed

lemma fee_exceeds_amount:
  assumes "fg_Admin s = Some a" "authorized e a"
  shows "\<exists>s'. ufb_set_fee e 20000 s = Ok s' \<and> ufb_calculate_fee 100 s' = Ok 200"
  using assms by (simp add: ufb_set_fee_def ufb_require_admin_def ufb_calculate_fee_def checked_ops in_range_def signed_divide_int_def)

section \<open>unprotected\_fee\_withdraw\<close>

definition uf_initialize :: "address \<Rightarrow> fee_box \<Rightarrow> fee_box result" where
  "uf_initialize admin s =
     panic_if (fb_Admin s \<noteq> None) ''already initialized'' (Ok (s\<lparr>fb_Admin := Some admin, fb_Fees := Some 0\<rparr>))"

definition uf_swap :: "int \<Rightarrow> int \<Rightarrow> fee_box \<Rightarrow> fee_box result" where
  "uf_swap amount_in fee_rate s =
     arith (checked_mul I128 amount_in fee_rate) (\<lambda>p.
     arith (checked_div I128 p 10000) (\<lambda>fee.
     let current_fees = unwrap_or (fb_Fees s) 0 in
     arith (checked_add I128 current_fees fee) (\<lambda>new_fees.
     Ok (publish [''swap''] [VInt amount_in, VInt fee_rate, VInt fee] (s\<lparr>fb_Fees := Some new_fees\<rparr>)))))"

definition uf_withdraw_fees :: "address \<Rightarrow> fee_box \<Rightarrow> fee_box result" where
  "uf_withdraw_fees recipient s =
     (let fees = unwrap_or (fb_Fees s) 0 in
      Ok (publish [''wdraw_fee''] [VAddr recipient, VInt fees] (s\<lparr>fb_Fees := Some 0\<rparr>)))"

definition uf_get_fees :: "fee_box \<Rightarrow> int" where
  "uf_get_fees s = unwrap_or (fb_Fees s) 0"

definition uf_get_admin :: "fee_box \<Rightarrow> address result" where
  "uf_get_admin s = expect (fb_Admin s) ''not initialized'' Ok"

text \<open>Withdrawing needs nobody: the fees of the box go to any account, in an unsigned call.\<close>

lemma fees_drained: "\<exists>s'. uf_withdraw_fees a s = Ok s' \<and> uf_get_fees s' = 0 \<and> last (events s') = ([''wdraw_fee''], [VAddr a, VInt (uf_get_fees s)])"
  by (simp add: uf_withdraw_fees_def uf_get_fees_def publish_def)

end
