(* ===== verification/Pools.thy ===== *)
theory Pools
  imports Soroban_Prelude
begin

text \<open>
  Crates around shared pools and supplies: \<^verbatim>\<open>no_slippage\<close> (a constant-product market), \<^verbatim>\<open>assumed_token_decimals\<close>, \<^verbatim>\<open>hardcoded_beneficiary\<close>,
  \<^verbatim>\<open>div_by_zero\<close>, \<^verbatim>\<open>uncapped_supply\<close> and \<^verbatim>\<open>self_deposit\<close>. Shown: the product of the reserves never falls, equal values in tokens of different
  precision are credited equally, escrowed funds reach the account that was named, supplies stay under their cap.
\<close>

section \<open>no\_slippage\<close>

record amm =
  am_ReserveA :: "int option"
  am_ReserveB :: "int option"

definition calculate_out :: "int \<Rightarrow> amm \<Rightarrow> int result" where
  "calculate_out amount_in s =
     (let reserve_in = unwrap_or (am_ReserveA s) 0; reserve_out = unwrap_or (am_ReserveB s) 0 in
      ensure (reserve_in > 0 \<and> reserve_out > 0) ''pool not initialised'' (
      arith (checked_mul I128 amount_in reserve_out) (\<lambda>p.
      arith (checked_add I128 reserve_in amount_in) (\<lambda>q.
      arith (checked_div I128 p q) Ok))))"

definition apply_swap :: "int \<Rightarrow> int \<Rightarrow> amm \<Rightarrow> amm result" where
  "apply_swap amount_in amount_out s =
     expect (am_ReserveA s) ''reserve A not initialized'' (\<lambda>reserve_in.
     expect (am_ReserveB s) ''reserve B not initialized'' (\<lambda>reserve_out.
     arith (checked_add I128 reserve_in amount_in) (\<lambda>a.
     arith (checked_sub I128 reserve_out amount_out) (\<lambda>b.
     Ok (s\<lparr>am_ReserveA := Some a, am_ReserveB := Some b\<rparr>)))))"

definition ns_init :: "int \<Rightarrow> int \<Rightarrow> amm \<Rightarrow> amm result" where
  "ns_init reserve_a reserve_b s = Ok (s\<lparr>am_ReserveA := Some reserve_a, am_ReserveB := Some reserve_b\<rparr>)"

definition ns_swap :: "env \<Rightarrow> address \<Rightarrow> int \<Rightarrow> amm \<Rightarrow> (int \<times> amm) result" where
  "ns_swap e user amount_in s =
     require_auth e user (
     and_then (calculate_out amount_in s) (\<lambda>amount_out.
     and_then (apply_swap amount_in amount_out s) (\<lambda>s1. Ok (amount_out, s1))))"

definition ns_reserve_a :: "amm \<Rightarrow> int" where
  "ns_reserve_a s = unwrap_or (am_ReserveA s) 0"

definition ns_reserve_b :: "amm \<Rightarrow> int" where
  "ns_reserve_b s = unwrap_or (am_ReserveB s) 0"

definition nss_init :: "int \<Rightarrow> int \<Rightarrow> amm \<Rightarrow> amm result" where
  "nss_init reserve_a reserve_b s = Ok (s\<lparr>am_ReserveA := Some reserve_a, am_ReserveB := Some reserve_b\<rparr>)"

definition nss_swap :: "env \<Rightarrow> address \<Rightarrow> int \<Rightarrow> int \<Rightarrow> amm \<Rightarrow> (int \<times> amm) result" where
  "nss_swap e user amount_in min_amount_out s =
     require_auth e user (
     and_then (calculate_out amount_in s) (\<lambda>amount_out.
     ensure (amount_out \<ge> min_amount_out) ''slippage exceeded'' (
     and_then (apply_swap amount_in amount_out s) (\<lambda>s1. Ok (amount_out, s1)))))"

definition nss_reserve_a :: "amm \<Rightarrow> int" where
  "nss_reserve_a s = unwrap_or (am_ReserveA s) 0"

definition nss_reserve_b :: "amm \<Rightarrow> int" where
  "nss_reserve_b s = unwrap_or (am_ReserveB s) 0"

text \<open>Swaps only: \<^verbatim>\<open>init\<close> replaces the reserves.\<close>

definition nss_exec :: "env \<Rightarrow> address \<times> int \<times> int \<Rightarrow> amm \<Rightarrow> amm result" where
  "nss_exec e = (\<lambda>(u, n, m) s. state_of (nss_swap e u n m s))"

definition ns_exec :: "env \<Rightarrow> address \<times> int \<times> int \<Rightarrow> amm \<Rightarrow> amm result" where
  "ns_exec e = (\<lambda>(u, n, m) s. state_of (ns_swap e u n s))"

definition k_product :: "amm \<Rightarrow> int" where
  "k_product s = nss_reserve_a s * nss_reserve_b s"

lemma constant_product:
  fixes x y d :: int
  assumes "0 < x" "0 < y" "0 \<le> d"
  shows "x * y \<le> (x + d) * (y - d * y div (x + d))" and "0 \<le> d * y div (x + d)" and "d * y div (x + d) < y"
proof -
  have p: "0 < x + d" using assms by simp
  have "(x + d) * (d * y div (x + d)) \<le> d * y"
    using p pos_mod_sign [OF p, of "d * y"] by (simp add: minus_mod_eq_mult_div [symmetric])
  then show "x * y \<le> (x + d) * (y - d * y div (x + d))" by (simp add: algebra_simps)
  show "0 \<le> d * y div (x + d)" using assms p by (simp add: pos_imp_zdiv_nonneg_iff)
  have "d * y < y * (x + d)" using assms by (simp add: algebra_simps)
  then show "d * y div (x + d) < y" using p by (simp add: zdiv_less_iff)
qed

lemma swap_effect:
  assumes "nss_swap e u n m s = Ok (out, s')" and "0 \<le> n"
  shows "authorized e u" and "m \<le> out" and "0 < nss_reserve_a s" "0 < nss_reserve_b s" and "out = n * nss_reserve_b s div (nss_reserve_a s + n)"
    and "nss_reserve_a s' = nss_reserve_a s + n" "nss_reserve_b s' = nss_reserve_b s - out"
proof -
  have pos: "0 < nss_reserve_a s" "0 < nss_reserve_b s"
    using assms(1) by (auto simp: nss_swap_def calculate_out_def nss_reserve_a_def nss_reserve_b_def Let_def result_simps)
  moreover have "(n * nss_reserve_b s) sdiv (nss_reserve_a s + n) = n * nss_reserve_b s div (nss_reserve_a s + n)"
    using pos assms(2) by (simp add: sdiv_nonneg_eq)
  ultimately show "authorized e u" "m \<le> out" "0 < nss_reserve_a s" "0 < nss_reserve_b s" "out = n * nss_reserve_b s div (nss_reserve_a s + n)"
      "nss_reserve_a s' = nss_reserve_a s + n" "nss_reserve_b s' = nss_reserve_b s - out"
    using assms(1) by (auto simp: nss_swap_def calculate_out_def apply_swap_def nss_reserve_a_def nss_reserve_b_def Let_def result_simps int_simps
        split: if_splits)
qed

interpretation product_grows: restricted_invariant nss_exec "\<lambda>s. 0 < nss_reserve_a s \<and> 0 < nss_reserve_b s \<and> K \<le> k_product s" "\<lambda>e (u, n, m). 0 \<le> n"
  for K
proof (unfold_locales, goal_cases)
  case (1 s e c s')
  then obtain u n m out where "c = (u, n, m)" "0 \<le> n" "nss_swap e u n m s = Ok (out, s')"
    by (cases c) (auto simp: nss_exec_def result_simps)
  with swap_effect [of e u n m s out s'] constant_product [of "nss_reserve_a s" "nss_reserve_b s" n] 1(1) show ?case
    by (auto simp: k_product_def)
qed

text \<open>
  C39: The market (\<^verbatim>\<open>no_slippage/src/secure.rs\<close>): swaps of non-negative amounts keep both reserves positive and never lower their product, and a swap that returns pays
  the user, who signed, at least the minimum asked for and less than the reserve. In each of these states the original makes the same swap, and the market makes exactly those swaps of the original whose output reaches the minimum.
\<close>

theorem market_keeps_product:
  assumes "0 < nss_reserve_a s" "0 < nss_reserve_b s" and "\<forall>(e, u, n, m)\<in>set xs. 0 \<le> n"
    and "t = run_calls nss_exec xs s" and "nss_swap e u n m t = Ok (out, t')" and "0 \<le> n"
  shows "k_product s \<le> k_product t \<and> k_product t \<le> k_product t' \<and> 0 < nss_reserve_a t' \<and> 0 < nss_reserve_b t' \<and> authorized e u \<and> m \<le> out \<and> 0 \<le> out \<and> out < nss_reserve_b t
    \<and> ns_swap e u n t = Ok (out, t') \<and> (\<forall>k r u'. nss_swap e u n k t = Ok (r, u') \<longleftrightarrow> ns_swap e u n t = Ok (r, u') \<and> k \<le> r)"
proof -
  have t: "0 < nss_reserve_a t" "0 < nss_reserve_b t" "k_product s \<le> k_product t"
    using product_grows.run_inv [of s "k_product s" xs] assms(1-4) by auto
  note sw = swap_effect [OF assms(5,6)] and cp = constant_product [OF t(1,2) assms(6)]
  have same: "nss_swap e u n k t = Ok (r, u') \<longleftrightarrow> ns_swap e u n t = Ok (r, u') \<and> k \<le> r" for k r u'
    by (auto simp: nss_swap_def ns_swap_def result_simps)
  with assms(5) have "ns_swap e u n t = Ok (out, t')" by simp
  with same t sw cp assms(6) show ?thesis by (simp add: k_product_def)
qed

theorem market_keeps_product_witness:
  "\<exists>t'. nss_swap (signed_env [Address 5] 1) (Address 5) 10 9 (run_calls nss_exec [] \<lparr>am_ReserveA = Some 1000, am_ReserveB = Some 1000\<rparr>) = Ok (9, t')
     \<and> 1000000 \<le> k_product t'"
proof -
  let ?s = "\<lparr>am_ReserveA = Some 1000, am_ReserveB = Some 1000\<rparr>"
  have "\<exists>t'. nss_swap (signed_env [Address 5] 1) (Address 5) 10 9 (run_calls nss_exec [] ?s) = Ok (9, t')"
    by (simp add: nss_swap_def calculate_out_def apply_swap_def signed_env_def checked_ops in_range_def signed_divide_int_def)
  then obtain t' where t': "nss_swap (signed_env [Address 5] 1) (Address 5) 10 9 (run_calls nss_exec [] ?s) = Ok (9, t')" by blast
  from market_keeps_product [OF _ _ _ refl t'] t' show ?thesis
    by (auto simp: k_product_def nss_reserve_a_def nss_reserve_b_def)
qed

text \<open>A negative amount runs the market backwards and rounds in favour of the user.\<close>

lemma backward_swap_lowers_product:
  assumes "authorized e u"
  shows "\<exists>s'. nss_swap e u (- 100) (- 200) \<lparr>am_ReserveA = Some 1000, am_ReserveB = Some 1000\<rparr> = Ok (- 111, s') \<and> k_product s' = 999900"
  using assms by (simp add: nss_swap_def calculate_out_def apply_swap_def k_product_def nss_reserve_a_def nss_reserve_b_def checked_ops in_range_def
      signed_divide_int_def)

section \<open>assumed\_token\_decimals\<close>

definition ASSUMED_DECIMALS :: nat where "ASSUMED_DECIMALS = 7"
definition CANONICAL_DECIMALS :: nat where "CANONICAL_DECIMALS = 9"

record multi_asset =
  ma_Balance :: "string \<times> address \<rightharpoonup> int"
  ma_TotalValue :: "string \<rightharpoonup> int"
  ma_TokenDecimals :: "string \<rightharpoonup> nat"

definition normalised_balance :: "multi_asset \<Rightarrow> string \<Rightarrow> address \<Rightarrow> int" where
  "normalised_balance s tok user = get0 (ma_Balance s) (tok, user)"

definition td_total_value :: "multi_asset \<Rightarrow> string \<Rightarrow> int" where
  "td_total_value s tok = get0 (ma_TotalValue s) tok"

text \<open>\<^verbatim>\<open>10_i128.pow(k)\<close>: traps when the power leaves the type.\<close>

definition pow_ten :: "nat \<Rightarrow> int option" where
  "pow_ten k = checked I128 (10 ^ k)"

definition normalise_vulnerable :: "int \<Rightarrow> int result" where
  "normalise_vulnerable amount = arith (pow_ten ASSUMED_DECIMALS) (\<lambda>p. arith (checked_mul I128 amount p) Ok)"

definition td_deposit :: "env \<Rightarrow> address \<Rightarrow> string \<Rightarrow> int \<Rightarrow> multi_asset \<Rightarrow> multi_asset result" where
  "td_deposit e actor tok amount s =
     require_auth e actor (
     ensure (amount > 0) ''amount must be positive'' (
     and_then (normalise_vulnerable amount) (\<lambda>normalised.
     let prev = normalised_balance s tok actor in
     arith (checked_add I128 prev normalised) (\<lambda>b.
     let s1 = s\<lparr>ma_Balance := (ma_Balance s)((tok, actor) \<mapsto> b)\<rparr>; tv = td_total_value s1 tok in
     arith (checked_add I128 tv normalised) (\<lambda>v. Ok (s1\<lparr>ma_TotalValue := (ma_TotalValue s1)(tok \<mapsto> v)\<rparr>))))))"

definition td_total_value_view :: "multi_asset \<Rightarrow> string \<Rightarrow> int" where
  "td_total_value_view s tok = td_total_value s tok"

definition td_balance :: "multi_asset \<Rightarrow> string \<Rightarrow> address \<Rightarrow> int" where
  "td_balance s tok user = normalised_balance s tok user"

definition token_decimals :: "multi_asset \<Rightarrow> string \<Rightarrow> (nat \<Rightarrow> 'a result) \<Rightarrow> 'a result" where
  "token_decimals s tok k = expect (ma_TokenDecimals s tok) ''token not registered'' k"

definition normalise_amount :: "int \<Rightarrow> nat \<Rightarrow> int result" where
  "normalise_amount amount decimals =
     (if decimals \<le> CANONICAL_DECIMALS
      then arith (pow_ten (CANONICAL_DECIMALS - decimals)) (\<lambda>p. arith (checked_mul I128 amount p) Ok)
      else arith (pow_ten (decimals - CANONICAL_DECIMALS)) (\<lambda>p. arith (checked_div I128 amount p) Ok))"

definition tds_register_token :: "string \<Rightarrow> nat \<Rightarrow> multi_asset \<Rightarrow> multi_asset result" where
  "tds_register_token tok decimals s = Ok (s\<lparr>ma_TokenDecimals := (ma_TokenDecimals s)(tok \<mapsto> decimals)\<rparr>)"

definition tds_deposit :: "env \<Rightarrow> address \<Rightarrow> string \<Rightarrow> int \<Rightarrow> multi_asset \<Rightarrow> multi_asset result" where
  "tds_deposit e actor tok amount s =
     require_auth e actor (
     ensure (amount > 0) ''amount must be positive'' (
     token_decimals s tok (\<lambda>decimals.
     and_then (normalise_amount amount decimals) (\<lambda>normalised.
     ensure (normalised > 0) ''normalised amount is zero'' (
     let prev = normalised_balance s tok actor in
     arith (checked_add I128 prev normalised) (\<lambda>b.
     let s1 = s\<lparr>ma_Balance := (ma_Balance s)((tok, actor) \<mapsto> b)\<rparr>; tv = td_total_value s1 tok in
     arith (checked_add I128 tv normalised) (\<lambda>v. Ok (s1\<lparr>ma_TotalValue := (ma_TotalValue s1)(tok \<mapsto> v)\<rparr>))))))))"

definition tds_balance :: "multi_asset \<Rightarrow> string \<Rightarrow> address \<Rightarrow> int" where
  "tds_balance s tok user = normalised_balance s tok user"

definition tds_total_value :: "multi_asset \<Rightarrow> string \<Rightarrow> int" where
  "tds_total_value s tok = td_total_value s tok"

text \<open>The value of an amount in units of ten to the minus nine, rounded down.\<close>

definition canonical :: "int \<Rightarrow> nat \<Rightarrow> int" where
  "canonical n d = n * 10 ^ 9 div 10 ^ d"

lemma normalise_canonical:
  assumes "normalise_amount n d = Ok v" and "0 \<le> n"
  shows "v = canonical n d"
proof (cases "d \<le> 9")
  case True
  then have "(10::int) ^ 9 = 10 ^ (9 - d) * 10 ^ d" by (simp flip: power_add)
  then have "canonical n d = n * 10 ^ (9 - d) * 10 ^ d div 10 ^ d" unfolding canonical_def by (simp only: mult.assoc)
  then have "canonical n d = n * 10 ^ (9 - d)" by simp
  with True assms show ?thesis
    by (auto simp: normalise_amount_def pow_ten_def CANONICAL_DECIMALS_def result_simps int_simps)
next
  case False
  then have "d - 9 + 9 = d" by simp
  then have "(10::int) ^ d = 10 ^ (d - 9) * 10 ^ 9" using power_add [of "10::int" "d - 9" 9] by metis
  then have "canonical n d = n * 10 ^ 9 div (10 ^ (d - 9) * 10 ^ 9)" unfolding canonical_def by (simp only:)
  then have "canonical n d = n div 10 ^ (d - 9)" by simp
  with False assms show ?thesis
    by (auto simp: normalise_amount_def pow_ten_def CANONICAL_DECIMALS_def sdiv_nonneg_eq result_simps int_simps split: if_splits)
qed

lemma canonical_cong:
  assumes "n * 10 ^ d' = n' * 10 ^ d"
  shows "canonical n d = canonical n' d'"
proof -
  have "canonical n d = (n * 10 ^ 9 * 10 ^ d') div (10 ^ d * 10 ^ d')" by (simp add: canonical_def)
  also have "n * 10 ^ 9 * 10 ^ d' = n' * 10 ^ 9 * 10 ^ d" using assms by (simp add: algebra_simps)
  also have "(n' * 10 ^ 9 * 10 ^ d) div (10 ^ d * 10 ^ d') = (n' * 10 ^ 9 * 10 ^ d) div (10 ^ d' * 10 ^ d)" by (simp add: mult.commute)
  also have "\<dots> = canonical n' d'" by (simp add: canonical_def)
  finally show ?thesis .
qed

text \<open>
  Values across tokens (\<^verbatim>\<open>assumed_token_decimals/src/secure.rs\<close>): a deposit that returns credits the value of the amount in units of ten to the minus nine, rounded down
  and positive; deposits of the same value in two tokens, of whatever precision, are credited the same. In the original one unit of a token with six
  decimals counts as much as one unit of a token with nine.
\<close>

theorem equal_values_credited_equally:
  assumes "tds_deposit e a t n s = Ok s'" and "tds_deposit e' a' t' n' r = Ok r'"
    and "ma_TokenDecimals s t = Some d" and "ma_TokenDecimals r t' = Some d'" and "n * 10 ^ d' = n' * 10 ^ d"
  shows "tds_balance s' t a - tds_balance s t a = tds_balance r' t' a' - tds_balance r t' a'
    \<and> tds_balance s' t a = tds_balance s t a + canonical n d \<and> tds_total_value s' t = tds_total_value s t + canonical n d \<and> 0 < canonical n d"
proof -
  have dep: "tds_balance x' u b = tds_balance x u b + canonical m k \<and> tds_total_value x' u = tds_total_value x u + canonical m k \<and> 0 < canonical m k"
    if x: "tds_deposit f b u m x = Ok x'" "ma_TokenDecimals x u = Some k" for f b u m x x' k
  proof -
    obtain v where v: "normalise_amount m k = Ok v" "0 < m" "0 < v" "tds_balance x' u b = tds_balance x u b + v" "tds_total_value x' u = tds_total_value x u + v"
      using x by (auto simp: tds_deposit_def token_decimals_def tds_balance_def tds_total_value_def normalised_balance_def td_total_value_def
          Let_def result_simps int_simps)
    with normalise_canonical [OF v(1)] show ?thesis by simp
  qed
  from dep [OF assms(1,3)] dep [OF assms(2,4)] canonical_cong [OF assms(5)] show ?thesis by simp
qed

definition decimals_demo :: multi_asset where
  "decimals_demo = \<lparr>ma_Balance = Map.empty, ma_TotalValue = Map.empty, ma_TokenDecimals = [''A'' \<mapsto> 6, ''B'' \<mapsto> 8]\<rparr>"

theorem equal_values_credited_equally_witness:
  "\<exists>s' r'. tds_deposit (signed_env [Address 5] 1) (Address 5) ''A'' 3 decimals_demo = Ok s' \<and> tds_deposit (signed_env [Address 5] 1) (Address 5) ''B'' 300 decimals_demo = Ok r'
     \<and> tds_balance s' ''A'' (Address 5) = tds_balance r' ''B'' (Address 5)"
proof -
  have "\<exists>s' r'. tds_deposit (signed_env [Address 5] 1) (Address 5) ''A'' 3 decimals_demo = Ok s' \<and> tds_deposit (signed_env [Address 5] 1) (Address 5) ''B'' 300 decimals_demo = Ok r'"
    by (simp add: tds_deposit_def token_decimals_def normalise_amount_def pow_ten_def CANONICAL_DECIMALS_def normalised_balance_def td_total_value_def decimals_demo_def
        signed_env_def checked_ops in_range_def Let_def)
  then obtain s' r' where d: "tds_deposit (signed_env [Address 5] 1) (Address 5) ''A'' 3 decimals_demo = Ok s'" "tds_deposit (signed_env [Address 5] 1) (Address 5) ''B'' 300 decimals_demo = Ok r'"
    by blast
  from equal_values_credited_equally [OF d, of 6 8] d show ?thesis
    by (auto simp: decimals_demo_def tds_balance_def normalised_balance_def)
qed

lemma anyone_registers_decimals: "\<exists>s'. tds_register_token t d s = Ok s' \<and> ma_TokenDecimals s' t = Some d"
  by (simp add: tds_register_token_def)

section \<open>hardcoded\_beneficiary\<close>

record named_escrow =
  ne_Admin :: "address option"
  ne_Beneficiary :: "int \<rightharpoonup> address"
  ne_Balance :: "int \<rightharpoonup> int"
  ne_Wallet :: "address \<rightharpoonup> int"

definition hb_wallet_balance :: "named_escrow \<Rightarrow> address \<Rightarrow> int" where
  "hb_wallet_balance s addr = get0 (ne_Wallet s) addr"

definition hb_wallet_balance_view :: "named_escrow \<Rightarrow> address \<Rightarrow> int" where
  "hb_wallet_balance_view s addr = hb_wallet_balance s addr"

definition hb_credit :: "address \<Rightarrow> int \<Rightarrow> named_escrow \<Rightarrow> named_escrow result" where
  "hb_credit addr amount s =
     (let bal = hb_wallet_balance s addr in
      arith (checked_add I128 bal amount) (\<lambda>n. Ok (s\<lparr>ne_Wallet := (ne_Wallet s)(addr \<mapsto> n)\<rparr>)))"

definition hb_debit :: "address \<Rightarrow> int \<Rightarrow> named_escrow \<Rightarrow> named_escrow result" where
  "hb_debit addr amount s =
     (let bal = hb_wallet_balance s addr in
      ensure (bal \<ge> amount) ''insufficient funds'' (
      arith (checked_sub I128 bal amount) (\<lambda>n. Ok (s\<lparr>ne_Wallet := (ne_Wallet s)(addr \<mapsto> n)\<rparr>))))"

definition hb_initialize :: "address \<Rightarrow> named_escrow \<Rightarrow> named_escrow result" where
  "hb_initialize admin s = panic_if (ne_Admin s \<noteq> None) ''already initialized'' (Ok (s\<lparr>ne_Admin := Some admin\<rparr>))"

definition hb_fund :: "env \<Rightarrow> address \<Rightarrow> int \<Rightarrow> named_escrow \<Rightarrow> named_escrow result" where
  "hb_fund e sender amount s = require_auth e sender (hb_credit sender amount s)"

definition hb_create_escrow :: "env \<Rightarrow> int \<Rightarrow> address \<Rightarrow> address \<Rightarrow> int \<Rightarrow> named_escrow \<Rightarrow> named_escrow result" where
  "hb_create_escrow e escrow_id depositor beneficiary amount s =
     require_auth e depositor (
     and_then (hb_debit depositor amount s) (\<lambda>s1.
     Ok (s1\<lparr>ne_Beneficiary := (ne_Beneficiary s1)(escrow_id \<mapsto> beneficiary), ne_Balance := (ne_Balance s1)(escrow_id \<mapsto> amount)\<rparr>)))"

definition hb_release_vulnerable :: "env \<Rightarrow> int \<Rightarrow> address \<Rightarrow> named_escrow \<Rightarrow> named_escrow result" where
  "hb_release_vulnerable e escrow_id hardcoded s =
     expect (ne_Admin s) ''not initialized'' (\<lambda>admin.
     require_auth e admin (
     expect (ne_Balance s escrow_id) ''escrow not found'' (\<lambda>amount.
     and_then (hb_credit hardcoded amount s) (\<lambda>s1.
     Ok (s1\<lparr>ne_Balance := (ne_Balance s1)(escrow_id \<mapsto> 0)\<rparr>)))))"

definition hb_release_secure :: "env \<Rightarrow> int \<Rightarrow> named_escrow \<Rightarrow> named_escrow result" where
  "hb_release_secure e escrow_id s =
     expect (ne_Admin s) ''not initialized'' (\<lambda>admin.
     require_auth e admin (
     expect (ne_Beneficiary s escrow_id) ''beneficiary not set'' (\<lambda>beneficiary.
     expect (ne_Balance s escrow_id) ''escrow not found'' (\<lambda>amount.
     and_then (hb_credit beneficiary amount s) (\<lambda>s1.
     Ok (s1\<lparr>ne_Balance := (ne_Balance s1)(escrow_id \<mapsto> 0)\<rparr>))))))"

definition hb_escrow_balance :: "named_escrow \<Rightarrow> int \<Rightarrow> int" where
  "hb_escrow_balance s escrow_id = get0 (ne_Balance s) escrow_id"

datatype named_call = XInit address | XFund address int | XCreate int address address int | XRelease int

fun hb_exec :: "env \<Rightarrow> named_call \<Rightarrow> named_escrow \<Rightarrow> named_escrow result" where
  "hb_exec e (XInit a) s = hb_initialize a s"
| "hb_exec e (XFund a n) s = hb_fund e a n s"
| "hb_exec e (XCreate i d b n) s = hb_create_escrow e i d b n s"
| "hb_exec e (XRelease i) s = hb_release_secure e i s"

text \<open>What a call brings in: a fund, less the balance of an escrow that a second creation overwrites.\<close>

fun escrow_funded :: "env \<Rightarrow> named_call \<Rightarrow> named_escrow \<Rightarrow> int" where
  "escrow_funded e (XFund a n) s = n"
| "escrow_funded e (XCreate i d b n) s = - hb_escrow_balance s i"
| "escrow_funded e _ s = 0"

definition finite_escrow :: "named_escrow \<Rightarrow> bool" where
  "finite_escrow s \<longleftrightarrow> finite (dom (ne_Balance s)) \<and> finite (dom (ne_Wallet s))"

lemmas hb_defs = hb_initialize_def hb_fund_def hb_create_escrow_def hb_release_secure_def hb_credit_def hb_debit_def hb_wallet_balance_def
  hb_escrow_balance_def Let_def

interpretation escrow_funds: conserved_flow hb_exec finite_escrow "\<lambda>s. sum_bal (ne_Wallet s) + sum_bal (ne_Balance s)" escrow_funded
proof (unfold_locales, goal_cases)
  case (1 s e c s')
  then show ?case by (cases c) (auto simp: hb_defs finite_escrow_def result_simps)
next
  case (2 s e c s')
  then show ?case by (cases c) (auto simp: hb_defs finite_escrow_def sum_bal_update get0_def result_simps int_simps)
qed

fun names_beneficiary :: "int \<Rightarrow> env \<Rightarrow> named_call \<Rightarrow> named_escrow \<Rightarrow> address option \<Rightarrow> bool" where
  "names_beneficiary i e (XCreate j d b n) s v \<longleftrightarrow> j = i \<and> authorized e d \<and> v = Some b"
| "names_beneficiary i e _ s v \<longleftrightarrow> False"

interpretation beneficiaries: written_view hb_exec "\<lambda>s. ne_Beneficiary s i" "names_beneficiary i"
  for i
proof (unfold_locales, goal_cases)
  case (1 e c s s')
  then show ?case by (cases c) (auto simp: hb_defs result_simps split: if_splits)
qed

text \<open>
  Releases (\<^verbatim>\<open>hardcoded_beneficiary\<close>, \<^verbatim>\<open>release_secure\<close>): the administrator signs, and the whole balance of the escrow goes to the account that a depositor named under
  its signature, once; wallets and escrows together change by what is funded, less what a second creation under the same number
  overwrites. \<^verbatim>\<open>release_vulnerable\<close> pays whom the caller likes.
\<close>

theorem release_pays_named:
  assumes "t = run_calls hb_exec xs s" and "ne_Beneficiary s i = None" and "hb_release_secure e i t = Ok t'" and "finite_escrow s"
  shows "(\<exists>ys f d b n zs. xs = ys @ (f, XCreate i d b n) # zs \<and> authorized f d \<and> ne_Beneficiary t i = Some b
       \<and> hb_wallet_balance t' b = hb_wallet_balance t b + hb_escrow_balance t i) \<and> hb_escrow_balance t' i = 0
    \<and> (\<exists>a. ne_Admin t = Some a \<and> authorized e a)
    \<and> sum_bal (ne_Wallet t) + sum_bal (ne_Balance t) = sum_bal (ne_Wallet s) + sum_bal (ne_Balance s) + run_flow hb_exec escrow_funded xs s"
proof -
  obtain b where b: "ne_Beneficiary t i = Some b" "hb_wallet_balance t' b = hb_wallet_balance t b + hb_escrow_balance t i" "hb_escrow_balance t' i = 0"
      "\<exists>a. ne_Admin t = Some a \<and> authorized e a"
    using assms(3) by (auto simp: hb_defs get0_def result_simps int_simps)
  have "ne_Beneficiary (run_calls hb_exec xs s) i \<noteq> ne_Beneficiary s i" using b(1) assms(1,2) by simp
  from beneficiaries.run_writes [OF this] obtain ys f c zs where c: "xs = ys @ (f, c) # zs" "names_beneficiary i f c (run_calls hb_exec ys s) (Some b)"
    using b(1) assms(1) by auto
  then obtain d n where "c = XCreate i d b n" "authorized f d" by (cases c) auto
  with b(1,2) c(1) have "\<exists>ys f d b' n zs. xs = ys @ (f, XCreate i d b' n) # zs \<and> authorized f d \<and> ne_Beneficiary t i = Some b'
       \<and> hb_wallet_balance t' b' = hb_wallet_balance t b' + hb_escrow_balance t i" by blast
  with b(3,4) escrow_funds.run_conserves [OF assms(4), of xs] assms(1) show ?thesis by simp
qed

definition named_demo :: "(env \<times> named_call) list" where
  "named_demo = [(signed_env [] 0, XInit (Address 2)), (signed_env [Address 5] 1, XFund (Address 5) 50), (signed_env [Address 5] 2, XCreate 1 (Address 5) (Address 6) 30)]"

definition named_empty :: named_escrow where
  "named_empty = \<lparr>ne_Admin = None, ne_Beneficiary = Map.empty, ne_Balance = Map.empty, ne_Wallet = Map.empty\<rparr>"

theorem release_pays_named_witness:
  "\<exists>t'. hb_release_secure (signed_env [Address 2] 3) 1 (run_calls hb_exec named_demo named_empty) = Ok t' \<and> hb_escrow_balance t' 1 = 0"
proof -
  have "\<exists>t'. hb_release_secure (signed_env [Address 2] 3) 1 (run_calls hb_exec named_demo named_empty) = Ok t'"
    by (simp add: named_demo_def named_empty_def hb_defs signed_env_def checked_ops in_range_def)
  then obtain t' where t': "hb_release_secure (signed_env [Address 2] 3) 1 (run_calls hb_exec named_demo named_empty) = Ok t'" by blast
  have "finite_escrow named_empty" "ne_Beneficiary named_empty 1 = None" by (simp_all add: finite_escrow_def named_empty_def)
  from release_pays_named [OF refl this(2) t' this(1)] t' show ?thesis by blast
qed

lemma second_creation_loses_first:
  assumes "authorized e d" and "hb_wallet_balance s d = 10" and "hb_escrow_balance s i = 70"
  shows "\<exists>s'. hb_create_escrow e i d d 10 s = Ok s' \<and> hb_escrow_balance s' i = 10"
  using assms by (simp add: hb_defs checked_ops in_range_def)

section \<open>div\_by\_zero\<close>

record share_pool =
  shp_TotalStaked :: "int option"
  shp_Stake :: "address \<rightharpoonup> int"

definition dz_stake :: "env \<Rightarrow> address \<Rightarrow> int \<Rightarrow> share_pool \<Rightarrow> share_pool result" where
  "dz_stake e staker amount s =
     require_auth e staker (
     let prev = get0 (shp_Stake s) staker; tot = unwrap_or (shp_TotalStaked s) 0 in
     arith (checked_add U64 prev amount) (\<lambda>n.
     let s1 = s\<lparr>shp_Stake := (shp_Stake s)(staker \<mapsto> n)\<rparr> in
     arith (checked_add U64 tot amount) (\<lambda>m. Ok (s1\<lparr>shp_TotalStaked := Some m\<rparr>))))"

definition dz_distribute_rewards :: "int \<Rightarrow> share_pool \<Rightarrow> int result" where
  "dz_distribute_rewards total_reward s =
     (let total_staked = unwrap_or (shp_TotalStaked s) 0 in arith (checked_div U64 total_reward total_staked) Ok)"

definition dz_staked_amount :: "share_pool \<Rightarrow> address \<Rightarrow> int" where
  "dz_staked_amount s staker = get0 (shp_Stake s) staker"

definition dz_total_staked :: "share_pool \<Rightarrow> int" where
  "dz_total_staked s = unwrap_or (shp_TotalStaked s) 0"

definition dz_exec :: "env \<Rightarrow> address \<times> int \<Rightarrow> share_pool \<Rightarrow> share_pool result" where
  "dz_exec e = (\<lambda>(a, n). dz_stake e a n)"

definition pool_sum :: "share_pool \<Rightarrow> bool" where
  "pool_sum s \<longleftrightarrow> finite (dom (shp_Stake s)) \<and> (\<forall>a. 0 \<le> dz_staked_amount s a) \<and> sum_bal (shp_Stake s) = dz_total_staked s \<and> dz_total_staked s \<le> ity_max U64"

interpretation pool_total: contract_invariant dz_exec pool_sum
proof (unfold_locales, goal_cases)
  case (1 s e c s')
  then show ?case
    by (cases c) (auto simp: dz_exec_def dz_stake_def pool_sum_def dz_staked_amount_def dz_total_staked_def sum_bal_update in_range_def Let_def
        result_simps int_simps)
qed

text \<open>
  Distribution of a reward over the total stake (\<^verbatim>\<open>div_by_zero\<close>): from deployment the total is the sum of the stakes, and for a reward of the type the distribution
  traps exactly when nobody has a stake; otherwise it gives the reward per unit staked, rounded down.
\<close>

theorem distribution_traps_iff_empty:
  assumes "in_range U64 r" and "t = run_calls dz_exec xs \<lparr>shp_TotalStaked = None, shp_Stake = Map.empty\<rparr>"
  shows "(dz_distribute_rewards r t = Err ArithOverflow \<longleftrightarrow> (\<forall>a. dz_staked_amount t a = 0))
    \<and> ((\<exists>a. dz_staked_amount t a \<noteq> 0) \<longrightarrow> dz_distribute_rewards r t = Ok (r div sum_bal (shp_Stake t)))"
proof -
  have "pool_sum \<lparr>shp_TotalStaked = None, shp_Stake = Map.empty\<rparr>"
    by (simp add: pool_sum_def dz_staked_amount_def dz_total_staked_def)
  from pool_total.run_inv [OF this, of xs] have inv: "pool_sum t" by (simp add: assms(2))
  have nn: "\<And>a. 0 \<le> get0 (shp_Stake t) a" and fin: "finite (dom (shp_Stake t))"
    using inv by (auto simp: pool_sum_def dz_staked_amount_def)
  have zero: "dz_total_staked t = 0 \<longleftrightarrow> (\<forall>a. dz_staked_amount t a = 0)"
  proof
    show "\<forall>a. dz_staked_amount t a = 0" if "dz_total_staked t = 0"
      using that inv get0_le_total_bal [OF fin nn] nn by (auto simp: pool_sum_def dz_staked_amount_def intro: antisym)
    show "dz_total_staked t = 0" if "\<forall>a. dz_staked_amount t a = 0"
      using that inv by (simp add: pool_sum_def dz_staked_amount_def sum_bal_def)
  qed
  have div: "dz_distribute_rewards r t = Ok (r div sum_bal (shp_Stake t))" if "dz_total_staked t \<noteq> 0"
  proof -
    have pos: "0 < dz_total_staked t" using that inv sum_bal_nonneg [OF nn] by (simp add: pool_sum_def)
    have "r div dz_total_staked t \<le> r div 1" using assms(1) pos by (intro zdiv_mono2) (auto simp: in_range_unsigned)
    then have "r div dz_total_staked t \<le> r" by simp
    with assms(1) pos have "in_range U64 (r div dz_total_staked t)"
      by (auto simp: in_range_unsigned pos_imp_zdiv_nonneg_iff)
    with pos inv assms(1) show ?thesis
      by (simp add: dz_distribute_rewards_def dz_total_staked_def pool_sum_def checked_div_def sdiv_nonneg_eq in_range_unsigned)
  qed
  show ?thesis
  proof (cases "dz_total_staked t = 0")
    case True
    then have "dz_distribute_rewards r t = Err ArithOverflow"
      by (simp add: dz_distribute_rewards_def dz_total_staked_def checked_div_def)
    with zero True show ?thesis by blast
  next
    case False
    with div zero show ?thesis by auto
  qed
qed

theorem distribution_traps_iff_empty_witness:
  "dz_distribute_rewards 10 (run_calls dz_exec [(signed_env [Address 5] 1, Address 5, 4)] \<lparr>shp_TotalStaked = None, shp_Stake = Map.empty\<rparr>) = Ok 2"
proof -
  let ?t = "run_calls dz_exec [(signed_env [Address 5] 1, Address 5, 4)] \<lparr>shp_TotalStaked = None, shp_Stake = Map.empty\<rparr>"
  have t: "?t = \<lparr>shp_TotalStaked = Some 4, shp_Stake = [Address 5 \<mapsto> 4]\<rparr>"
    by (simp add: dz_exec_def dz_stake_def signed_env_def checked_ops in_range_def)
  have "dz_staked_amount ?t (Address 5) \<noteq> 0" unfolding t by (simp add: dz_staked_amount_def)
  with distribution_traps_iff_empty [of 10 ?t "[(signed_env [Address 5] 1, Address 5, 4)]"] show ?thesis
    unfolding t by (auto simp: in_range_def sum_bal_def)
qed

section \<open>uncapped\_supply\<close>

definition MAX_SUPPLY :: int where "MAX_SUPPLY = 1000000000"

record capped_token =
  ct_Admin :: "address option"
  ct_Balance :: "address \<rightharpoonup> int"
  ct_TotalSupply :: "int option"

definition cap_require_admin :: "env \<Rightarrow> capped_token \<Rightarrow> 'a result \<Rightarrow> 'a result" where
  "cap_require_admin e s k = expect (ct_Admin s) ''not initialized'' (\<lambda>admin. require_auth e admin k)"

definition cap_initialize :: "address \<Rightarrow> capped_token \<Rightarrow> capped_token result" where
  "cap_initialize admin s = panic_if (ct_Admin s \<noteq> None) ''already initialized'' (Ok (s\<lparr>ct_Admin := Some admin\<rparr>))"

definition cap_mint :: "env \<Rightarrow> address \<Rightarrow> int \<Rightarrow> capped_token \<Rightarrow> capped_token result" where
  "cap_mint e to amount s =
     cap_require_admin e s (
     let current = get0 (ct_Balance s) to in
     arith (checked_add I128 current amount) (\<lambda>n. Ok (s\<lparr>ct_Balance := (ct_Balance s)(to \<mapsto> n)\<rparr>)))"

definition cap_balance :: "capped_token \<Rightarrow> address \<Rightarrow> int" where
  "cap_balance s account = get0 (ct_Balance s) account"

definition caps_require_admin :: "env \<Rightarrow> capped_token \<Rightarrow> 'a result \<Rightarrow> 'a result" where
  "caps_require_admin e s k = expect (ct_Admin s) ''not initialized'' (\<lambda>admin. require_auth e admin k)"

definition caps_initialize :: "address \<Rightarrow> capped_token \<Rightarrow> capped_token result" where
  "caps_initialize admin s =
     panic_if (ct_Admin s \<noteq> None) ''already initialized'' (Ok (s\<lparr>ct_Admin := Some admin, ct_TotalSupply := Some 0\<rparr>))"

definition caps_mint :: "env \<Rightarrow> address \<Rightarrow> int \<Rightarrow> capped_token \<Rightarrow> capped_token result" where
  "caps_mint e to amount s =
     caps_require_admin e s (
     let supply = unwrap_or (ct_TotalSupply s) 0 in
     arith (checked_add I128 supply amount) (\<lambda>n.
     ensure (n \<le> MAX_SUPPLY) ''mint would exceed max supply'' (
     let s1 = s\<lparr>ct_TotalSupply := Some n\<rparr>; current = get0 (ct_Balance s1) to in
     arith (checked_add I128 current amount) (\<lambda>m. Ok (s1\<lparr>ct_Balance := (ct_Balance s1)(to \<mapsto> m)\<rparr>)))))"

definition caps_balance :: "capped_token \<Rightarrow> address \<Rightarrow> int" where
  "caps_balance s account = get0 (ct_Balance s) account"

definition caps_total_supply :: "capped_token \<Rightarrow> int" where
  "caps_total_supply s = unwrap_or (ct_TotalSupply s) 0"

datatype capped_call = YInit address | YMint address int

fun caps_exec :: "env \<Rightarrow> capped_call \<Rightarrow> capped_token \<Rightarrow> capped_token result" where
  "caps_exec e (YInit a) s = caps_initialize a s"
| "caps_exec e (YMint a n) s = caps_mint e a n s"

definition ct_empty :: capped_token where
  "ct_empty = \<lparr>ct_Admin = None, ct_Balance = Map.empty, ct_TotalSupply = None\<rparr>"

definition supply_ok :: "capped_token \<Rightarrow> bool" where
  "supply_ok s \<longleftrightarrow> finite (dom (ct_Balance s)) \<and> sum_bal (ct_Balance s) = caps_total_supply s \<and> caps_total_supply s \<le> MAX_SUPPLY
     \<and> (ct_Admin s = None \<longrightarrow> ct_Balance s = Map.empty)"

interpretation supply_cap: contract_invariant caps_exec supply_ok
proof (unfold_locales, goal_cases)
  case (1 s e c s')
  then show ?case
    by (cases c) (auto simp: caps_initialize_def caps_mint_def caps_require_admin_def supply_ok_def caps_total_supply_def sum_bal_update MAX_SUPPLY_def Let_def
        result_simps int_simps)
qed

interpretation supply_admin: guarded_view caps_exec ct_Balance "\<lambda>e c s. \<exists>a. ct_Admin s = Some a \<and> authorized e a"
proof (unfold_locales, goal_cases)
  case (1 e c s s')
  then show ?case by (cases c) (auto simp: caps_initialize_def caps_mint_def caps_require_admin_def result_simps)
qed

text \<open>
  The capped token (\<^verbatim>\<open>uncapped_supply/src/secure.rs\<close>): from deployment the balances add up to the recorded supply, which never exceeds the cap, and they change only in
  calls the administrator signs. The original mints past the cap.
\<close>

theorem supply_capped:
  "sum_bal (ct_Balance (run_calls caps_exec xs ct_empty)) = caps_total_supply (run_calls caps_exec xs ct_empty)
   \<and> caps_total_supply (run_calls caps_exec xs ct_empty) \<le> MAX_SUPPLY
   \<and> (ct_Balance (run_calls caps_exec xs ct_empty) \<noteq> Map.empty \<longrightarrow>
       (\<exists>ys e c zs a. xs = ys @ (e, c) # zs \<and> ct_Admin (run_calls caps_exec ys ct_empty) = Some a \<and> authorized e a))"
proof -
  have "supply_ok ct_empty" by (simp add: supply_ok_def ct_empty_def caps_total_supply_def MAX_SUPPLY_def)
  from supply_cap.run_inv [OF this, of xs] supply_admin.run_view [of xs ct_empty] show ?thesis
    by (auto simp: supply_ok_def ct_empty_def)
qed

theorem supply_capped_witness:
  "\<exists>ys e c zs a. [(signed_env [] 0, YInit (Address 2)), (signed_env [Address 2] 1, YMint (Address 5) 30)] = ys @ (e, c) # zs
     \<and> ct_Admin (run_calls caps_exec ys ct_empty) = Some a \<and> authorized e a"
  by (rule supply_capped [THEN conjunct2, THEN conjunct2, THEN mp])
    (simp add: ct_empty_def caps_initialize_def caps_mint_def caps_require_admin_def MAX_SUPPLY_def signed_env_def checked_add_def in_range_def)

lemma cap_ignored:
  assumes "ct_Admin s = Some a" "authorized e a" and "cap_balance s b = 0"
  shows "\<exists>s'. cap_mint e b (MAX_SUPPLY + 1) s = Ok s' \<and> cap_balance s' b = MAX_SUPPLY + 1"
  using assms by (simp add: cap_mint_def cap_require_admin_def cap_balance_def MAX_SUPPLY_def checked_add_def in_range_def)

section \<open>self\_deposit\<close>

record plain_token =
  pt_Balance :: "address \<rightharpoonup> int"
  pt_Allowance :: "address \<times> address \<rightharpoonup> int"

definition sd_get_balance :: "plain_token \<Rightarrow> address \<Rightarrow> int" where
  "sd_get_balance s account = get0 (pt_Balance s) account"

definition sd_set_balance :: "address \<Rightarrow> int \<Rightarrow> plain_token \<Rightarrow> plain_token" where
  "sd_set_balance account amount s = s\<lparr>pt_Balance := (pt_Balance s)(account \<mapsto> amount)\<rparr>"

definition sd_get_allowance :: "plain_token \<Rightarrow> address \<Rightarrow> address \<Rightarrow> int" where
  "sd_get_allowance s owner spender = get0 (pt_Allowance s) (owner, spender)"

definition sd_set_allowance :: "address \<Rightarrow> address \<Rightarrow> int \<Rightarrow> plain_token \<Rightarrow> plain_token" where
  "sd_set_allowance owner spender amount s = s\<lparr>pt_Allowance := (pt_Allowance s)((owner, spender) \<mapsto> amount)\<rparr>"

definition sd_mint :: "address \<Rightarrow> int \<Rightarrow> plain_token \<Rightarrow> plain_token result" where
  "sd_mint to amount s = arith (checked_add I128 (sd_get_balance s to) amount) (\<lambda>n. Ok (sd_set_balance to n s))"

definition sd_approve :: "env \<Rightarrow> address \<Rightarrow> address \<Rightarrow> int \<Rightarrow> plain_token \<Rightarrow> plain_token result" where
  "sd_approve e owner spender amount s = require_auth e owner (Ok (sd_set_allowance owner spender amount s))"

definition sd_balance :: "plain_token \<Rightarrow> address \<Rightarrow> int" where
  "sd_balance s account = sd_get_balance s account"

definition sd_allowance :: "plain_token \<Rightarrow> address \<Rightarrow> address \<Rightarrow> int" where
  "sd_allowance s owner spender = sd_get_allowance s owner spender"

definition sd_transfer :: "env \<Rightarrow> address \<Rightarrow> address \<Rightarrow> int \<Rightarrow> plain_token \<Rightarrow> plain_token result" where
  "sd_transfer e from to amount s =
     require_auth e from (
     let from_balance = sd_get_balance s from; to_balance = sd_get_balance s to in
     arith (checked_sub I128 from_balance amount) (\<lambda>n.
     let s1 = sd_set_balance from n s in
     arith (checked_add I128 to_balance amount) (\<lambda>m. Ok (sd_set_balance to m s1))))"

definition sd_transfer_from :: "env \<Rightarrow> address \<Rightarrow> address \<Rightarrow> address \<Rightarrow> int \<Rightarrow> plain_token \<Rightarrow> plain_token result" where
  "sd_transfer_from e spender from to amount s =
     require_auth e spender (
     let allowance = sd_get_allowance s from spender in
     ensure (allowance \<ge> amount) ''insufficient allowance'' (
     let from_balance = sd_get_balance s from in
     ensure (from_balance \<ge> amount) ''insufficient balance'' (
     arith (checked_sub I128 allowance amount) (\<lambda>left.
     let s1 = sd_set_allowance from spender left s in
     arith (checked_sub I128 from_balance amount) (\<lambda>n.
     let s2 = sd_set_balance from n s1 in
     arith (checked_add I128 (sd_get_balance s2 to) amount) (\<lambda>m. Ok (sd_set_balance to m s2)))))))"

definition sds_mint :: "address \<Rightarrow> int \<Rightarrow> plain_token \<Rightarrow> plain_token result" where
  "sds_mint to amount s = arith (checked_add I128 (sd_get_balance s to) amount) (\<lambda>n. Ok (sd_set_balance to n s))"

definition sds_approve :: "env \<Rightarrow> address \<Rightarrow> address \<Rightarrow> int \<Rightarrow> plain_token \<Rightarrow> plain_token result" where
  "sds_approve e owner spender amount s = require_auth e owner (Ok (sd_set_allowance owner spender amount s))"

definition sds_balance :: "plain_token \<Rightarrow> address \<Rightarrow> int" where
  "sds_balance s account = sd_get_balance s account"

definition sds_allowance :: "plain_token \<Rightarrow> address \<Rightarrow> address \<Rightarrow> int" where
  "sds_allowance s owner spender = sd_get_allowance s owner spender"

definition sds_transfer :: "env \<Rightarrow> address \<Rightarrow> address \<Rightarrow> int \<Rightarrow> plain_token \<Rightarrow> plain_token result" where
  "sds_transfer e from to amount s =
     panic_if (to = current_contract e) ''cannot transfer to contract itself'' (
     require_auth e from (
     let from_balance = sd_get_balance s from; to_balance = sd_get_balance s to in
     arith (checked_sub I128 from_balance amount) (\<lambda>n.
     let s1 = sd_set_balance from n s in
     arith (checked_add I128 to_balance amount) (\<lambda>m. Ok (sd_set_balance to m s1)))))"

definition sds_transfer_from :: "env \<Rightarrow> address \<Rightarrow> address \<Rightarrow> address \<Rightarrow> int \<Rightarrow> plain_token \<Rightarrow> plain_token result" where
  "sds_transfer_from e spender from to amount s =
     panic_if (to = current_contract e) ''cannot transfer to contract itself'' (
     require_auth e spender (
     let allowance = sd_get_allowance s from spender in
     ensure (allowance \<ge> amount) ''insufficient allowance'' (
     let from_balance = sd_get_balance s from in
     ensure (from_balance \<ge> amount) ''insufficient balance'' (
     arith (checked_sub I128 allowance amount) (\<lambda>left.
     let s1 = sd_set_allowance from spender left s in
     arith (checked_sub I128 from_balance amount) (\<lambda>n.
     let s2 = sd_set_balance from n s1 in
     arith (checked_add I128 (sd_get_balance s2 to) amount) (\<lambda>m. Ok (sd_set_balance to m s2))))))))"

datatype plain_call = ZMint address int | ZApprove address address int | ZTransfer address address int | ZTransferFrom address address address int

fun sd_exec :: "env \<Rightarrow> plain_call \<Rightarrow> plain_token \<Rightarrow> plain_token result" where
  "sd_exec e (ZMint a n) s = sd_mint a n s"
| "sd_exec e (ZApprove a b n) s = sd_approve e a b n s"
| "sd_exec e (ZTransfer a b n) s = sd_transfer e a b n s"
| "sd_exec e (ZTransferFrom c a b n) s = sd_transfer_from e c a b n s"

fun sds_exec :: "env \<Rightarrow> plain_call \<Rightarrow> plain_token \<Rightarrow> plain_token result" where
  "sds_exec e (ZMint a n) s = sds_mint a n s"
| "sds_exec e (ZApprove a b n) s = sds_approve e a b n s"
| "sds_exec e (ZTransfer a b n) s = sds_transfer e a b n s"
| "sds_exec e (ZTransferFrom c a b n) s = sds_transfer_from e c a b n s"

fun receiver :: "plain_call \<Rightarrow> address option" where
  "receiver (ZTransfer a b n) = Some b"
| "receiver (ZTransferFrom c a b n) = Some b"
| "receiver c = None"

lemmas sd_defs = sd_mint_def sd_approve_def sd_transfer_def sd_transfer_from_def sds_mint_def sds_approve_def sds_transfer_def sds_transfer_from_def Let_def

interpretation not_to_self: hardened sd_exec sds_exec "\<lambda>e c s. receiver c \<noteq> Some (current_contract e)"
proof (unfold_locales, goal_cases)
  case (1 e c s s')
  show ?case by (cases c) (auto simp: sd_defs result_simps)
qed

text \<open>Raises of the contract's own balance: by a mint to it, or by a transfer of a negative amount out of it.\<close>

interpretation own_balance: guarded_steps sds_exec "\<lambda>s t. sds_balance t v \<le> sds_balance s v"
    "\<lambda>e c s. current_contract e = v \<longrightarrow> (\<exists>n. c = ZMint v n) \<or> (\<exists>b n. c = ZTransfer v b n \<and> n < 0) \<or> (\<exists>d b n. c = ZTransferFrom d v b n \<and> n < 0)"
  for v
proof (unfold_locales, goal_cases)
  case (3 e c s s')
  then show ?case
    by (cases c) (auto simp: sd_defs sds_balance_def sd_get_balance_def sd_set_balance_def sd_set_allowance_def result_simps int_simps split: if_splits)
qed auto

text \<open>
  The repaired token (\<^verbatim>\<open>self_deposit/src/secure.rs\<close>): runs are runs of the original on the calls that do not pay the contract itself, and its own balance grows only by a mint to
  it or a transfer of a negative amount out of it.
\<close>

theorem own_balance_grows_by_mint:
  assumes "sds_balance (run_calls sds_exec xs s) v > sds_balance s v" and "\<forall>(e, c)\<in>set xs. current_contract e = v"
  shows "(\<exists>e n. (e, ZMint v n) \<in> set xs) \<or> (\<exists>e b n. (e, ZTransfer v b n) \<in> set xs \<and> n < 0) \<or> (\<exists>e d b n. (e, ZTransferFrom d v b n) \<in> set xs \<and> n < 0)"
proof -
  obtain ys e c zs where c: "xs = ys @ (e, c) # zs"
      "current_contract e = v \<longrightarrow> (\<exists>n. c = ZMint v n) \<or> (\<exists>b n. c = ZTransfer v b n \<and> n < 0) \<or> (\<exists>d b n. c = ZTransferFrom d v b n \<and> n < 0)"
    using own_balance.run_guard [where v = v and xs = xs and s = s] assms(1) by (simp add: not_le) blast
  then have "(e, c) \<in> set xs" by simp
  with c(2) assms(2) show ?thesis by blast
qed

theorem own_balance_grows_by_mint_witness:
  "(\<exists>e n. (e, ZMint (Address 99) n) \<in> set [(signed_env [] 1, ZMint (Address 99) 5)])
   \<or> (\<exists>e b n. (e, ZTransfer (Address 99) b n) \<in> set [(signed_env [] 1, ZMint (Address 99) 5)] \<and> n < 0)
   \<or> (\<exists>e d b n. (e, ZTransferFrom d (Address 99) b n) \<in> set [(signed_env [] 1, ZMint (Address 99) 5)] \<and> n < 0)"
  by (rule own_balance_grows_by_mint [of "\<lparr>pt_Balance = Map.empty, pt_Allowance = Map.empty\<rparr>"])
    (simp_all add: sds_mint_def sds_balance_def sd_get_balance_def sd_set_balance_def signed_env_def checked_add_def in_range_def)

text \<open>Both halves let a sender without funds transfer, and double the amount of a transfer to oneself.\<close>

lemma plain_transfer_unchecked:
  assumes "authorized e a" "a \<noteq> current_contract e" "sd_get_balance s a = 0"
  shows "\<exists>s'. sds_transfer e a a 7 s = Ok s' \<and> sds_balance s' a = 7"
  using assms by (simp add: sds_transfer_def sds_balance_def sd_get_balance_def sd_set_balance_def checked_ops in_range_def)

end
