(* ===== verification/Numeric_Edges.thy ===== *)
theory Numeric_Edges
  imports Soroban_Prelude "HOL-Library.Word"
begin

text \<open>
  The crates about single arithmetic steps: \<^verbatim>\<open>near_overflow_input\<close>, \<^verbatim>\<open>signed_unsigned_wrap\<close>, \<^verbatim>\<open>abs_min_overflow\<close> and \<^verbatim>\<open>unsafe_cast\<close>. The casts are related to
  machine words: \<^verbatim>\<open>cast_to\<close> is the unsigned reading of the value cut to the width. Shown: on which inputs a cast is harmless, and how
  far an input limit protects a sum.
\<close>

section \<open>Casts and words\<close>

lemma cast_U128_word: "cast_to U128 x = uint (word_of_int x :: 128 word)"
  by (simp add: cast_to_def uint_word_of_int)

lemma cast_U64_word: "cast_to U64 x = uint (word_of_int x :: 64 word)"
  by (simp add: cast_to_def uint_word_of_int)

lemma sint_cast_back:
  assumes "in_range I128 x"
  shows "sint (word_of_int (cast_to U128 x) :: 128 word) = x"
proof -
  have "(word_of_int (cast_to U128 x) :: 128 word) = word_of_int x"
    by (simp add: cast_U128_word)
  moreover have "sint (word_of_int x :: 128 word) = x"
    using assms by (simp add: sint_sbintrunc' signed_take_bit_int_eq_self_iff in_range_def)
  ultimately show ?thesis by simp
qed

section \<open>near\_overflow\_input\<close>

definition MAX_SAFE_AMOUNT :: int where "MAX_SAFE_AMOUNT = (2 ^ 127 - 1) div 4"

record edge_vault =
  ev_balance :: "address \<rightharpoonup> int"

definition no_deposit :: "env \<Rightarrow> address \<Rightarrow> int \<Rightarrow> edge_vault \<Rightarrow> edge_vault result" where
  "no_deposit e user amount s =
     require_auth e user (
     panic_if (amount > MAX_SAFE_AMOUNT) ''amount exceeds safe limit'' (
     let balance = get0 (ev_balance s) user in
     arith (checked_add I128 balance amount) (\<lambda>n. Ok (s\<lparr>ev_balance := (ev_balance s)(user \<mapsto> n)\<rparr>))))"

definition no_withdraw :: "env \<Rightarrow> address \<Rightarrow> int \<Rightarrow> edge_vault \<Rightarrow> edge_vault result" where
  "no_withdraw e user amount s =
     require_auth e user (
     panic_if (amount > MAX_SAFE_AMOUNT) ''amount exceeds safe limit'' (
     let balance = get0 (ev_balance s) user in
     expect (checked_sub I128 balance amount) ''insufficient funds'' (\<lambda>new_balance.
     Ok (s\<lparr>ev_balance := (ev_balance s)(user \<mapsto> new_balance)\<rparr>))))"

definition no_apply_rate :: "address \<Rightarrow> int \<Rightarrow> edge_vault \<Rightarrow> edge_vault result" where
  "no_apply_rate user rate s =
     (let balance = get0 (ev_balance s) user in
      expect (checked_mul I128 balance rate) ''balance rate overflow'' (\<lambda>new_balance.
      Ok (s\<lparr>ev_balance := (ev_balance s)(user \<mapsto> new_balance)\<rparr>)))"

definition no_balance :: "edge_vault \<Rightarrow> address \<Rightarrow> int" where
  "no_balance s user = get0 (ev_balance s) user"

definition no_get_max_safe_amount :: int where
  "no_get_max_safe_amount = MAX_SAFE_AMOUNT"

definition no_exec :: "env \<Rightarrow> address \<times> int \<Rightarrow> edge_vault \<Rightarrow> edge_vault result" where
  "no_exec e = (\<lambda>(a, n). no_deposit e a n)"

lemma deposits_add:
  assumes "\<forall>(e, b, n)\<in>set xs. b = a \<and> authorized e a \<and> 0 \<le> n \<and> n \<le> MAX_SAFE_AMOUNT" and "0 \<le> no_balance s a"
    and "no_balance s a + int (length xs) * MAX_SAFE_AMOUNT \<le> ity_max I128"
  shows "length (successes no_exec xs s) = length xs \<and> no_balance (run_calls no_exec xs s) a = no_balance s a + (\<Sum>(e, b, n)\<leftarrow>xs. n)"
  using assms
proof (induction xs arbitrary: s)
  case (Cons x xs)
  obtain e n where x: "x = (e, a, n)" "authorized e a" "0 \<le> n" "n \<le> MAX_SAFE_AMOUNT" using Cons.prems(1) by (cases x) auto
  let ?s = "s\<lparr>ev_balance := (ev_balance s)(a \<mapsto> no_balance s a + n)\<rparr>"
  have "0 \<le> MAX_SAFE_AMOUNT" by (simp add: MAX_SAFE_AMOUNT_def)
  then have pos: "0 \<le> int (length xs) * MAX_SAFE_AMOUNT" by simp
  have room: "no_balance s a + MAX_SAFE_AMOUNT + int (length xs) * MAX_SAFE_AMOUNT \<le> ity_max I128"
    using Cons.prems(3) by (simp add: algebra_simps)
  have "no_balance s a + n \<le> ity_max I128" using pos room x(4) by linarith
  then have "in_range I128 (no_balance s a + n)" using x(3) Cons.prems(2) by (simp add: in_range_def)
  then have ok: "no_exec e (a, n) s = Ok ?s"
    using x by (simp add: no_exec_def no_deposit_def no_balance_def checked_add_def)
  have bal: "no_balance ?s a = no_balance s a + n" by (simp add: no_balance_def)
  have "length (successes no_exec xs ?s) = length xs \<and> no_balance (run_calls no_exec xs ?s) a = no_balance ?s a + (\<Sum>(e, b, n)\<leftarrow>xs. n)"
    by (rule Cons.IH) (use Cons.prems x room bal in auto)
  with ok bal x show ?case by simp
qed simp

text \<open>
  The input limit of \<^verbatim>\<open>near_overflow_input\<close>: from an empty account any four signed deposits of non-negative amounts within the limit return and add up. The fifth may not, although
  the comment says the sum is safe.
\<close>

theorem four_deposits_safe:
  assumes "\<forall>(e, b, n)\<in>set xs. b = a \<and> authorized e a \<and> 0 \<le> n \<and> n \<le> MAX_SAFE_AMOUNT" and "length xs \<le> 4" and "no_balance s a = 0"
  shows "length (successes no_exec xs s) = length xs \<and> no_balance (run_calls no_exec xs s) a = (\<Sum>(e, b, n)\<leftarrow>xs. n)"
proof -
  have "int (length xs) * MAX_SAFE_AMOUNT \<le> 4 * MAX_SAFE_AMOUNT"
    using assms(2) by (intro mult_right_mono) (auto simp: MAX_SAFE_AMOUNT_def)
  also have "\<dots> \<le> ity_max I128" by (simp add: MAX_SAFE_AMOUNT_def)
  finally show ?thesis using deposits_add [OF assms(1), of s] assms(3) by simp
qed

theorem four_deposits_safe_witness:
  "no_balance (run_calls no_exec [(signed_env [Address 5] 1, Address 5, MAX_SAFE_AMOUNT), (signed_env [Address 5] 2, Address 5, 7)] \<lparr>ev_balance = Map.empty\<rparr>) (Address 5)
     = MAX_SAFE_AMOUNT + 7"
  using four_deposits_safe [of "[(signed_env [Address 5] 1, Address 5, MAX_SAFE_AMOUNT), (signed_env [Address 5] 2, Address 5, 7)]" "Address 5" "\<lparr>ev_balance = Map.empty\<rparr>"]
  by (simp add: no_balance_def signed_env_def MAX_SAFE_AMOUNT_def)

lemma fifth_deposit_traps:
  assumes "authorized e a" and "no_balance s a = 4 * MAX_SAFE_AMOUNT"
  shows "no_deposit e a MAX_SAFE_AMOUNT s = Err ArithOverflow"
  using assms by (simp add: no_deposit_def no_balance_def MAX_SAFE_AMOUNT_def checked_add_def in_range_def)

lemma anyone_applies_rate:
  assumes "no_balance s a = 50"
  shows "\<exists>s'. no_apply_rate a 0 s = Ok s' \<and> no_balance s' a = 0"
  using assms by (simp add: no_apply_rate_def no_balance_def checked_mul_def)

section \<open>signed\_unsigned\_wrap\<close>

definition su_deposit :: "env \<Rightarrow> address \<Rightarrow> int \<Rightarrow> edge_vault \<Rightarrow> edge_vault result" where
  "su_deposit e user amount s =
     require_auth e user (
     let unsigned = cast_to U128 amount in
     ensure (unsigned > 0) ''amount must be positive'' (
     Ok (s\<lparr>ev_balance := (ev_balance s)(user \<mapsto> unsigned)\<rparr>)))"

definition su_get_balance :: "edge_vault \<Rightarrow> address \<Rightarrow> int" where
  "su_get_balance s user = get0 (ev_balance s) user"

definition sus_deposit :: "env \<Rightarrow> address \<Rightarrow> int \<Rightarrow> edge_vault \<Rightarrow> edge_vault result" where
  "sus_deposit e user amount s =
     require_auth e user (
     ensure (amount > 0) ''amount must be positive'' (
     expect (checked U128 amount) ''amount out of range'' (\<lambda>unsigned.
     Ok (s\<lparr>ev_balance := (ev_balance s)(user \<mapsto> unsigned)\<rparr>))))"

definition sus_get_balance :: "edge_vault \<Rightarrow> address \<Rightarrow> int" where
  "sus_get_balance s user = get0 (ev_balance s) user"

text \<open>
  Conversion of a deposit (\<^verbatim>\<open>signed_unsigned_wrap\<close>): the repaired deposit returns exactly for the positive amounts of the type, and stores them; on those the original does the
  same. On negative amounts the original stores the amount plus two to the 128, the word that reads as the amount when signed.
\<close>

theorem deposit_conversion:
  assumes "in_range I128 n" and "authorized e a"
  shows "(if 0 < n then sus_deposit e a n s = Ok (s\<lparr>ev_balance := (ev_balance s)(a \<mapsto> n)\<rparr>) \<and> su_deposit e a n s = sus_deposit e a n s
      else sus_deposit e a n s = Err (Panic ''amount must be positive''))
    \<and> (n < 0 \<longrightarrow> (\<exists>s'. su_deposit e a n s = Ok s' \<and> su_get_balance s' a = 2 ^ 128 + n \<and> sint (word_of_int (su_get_balance s' a) :: 128 word) = n))"
proof (intro conjI impI)
  show "if 0 < n then sus_deposit e a n s = Ok (s\<lparr>ev_balance := (ev_balance s)(a \<mapsto> n)\<rparr>) \<and> su_deposit e a n s = sus_deposit e a n s
      else sus_deposit e a n s = Err (Panic ''amount must be positive'')"
  proof (cases "0 < n")
    case True
    then have "in_range U128 n" using assms(1) by (simp add: in_range_def)
    with True assms(2) show ?thesis by (simp add: sus_deposit_def su_deposit_def cast_to_id)
  qed (use assms(2) in \<open>simp add: sus_deposit_def\<close>)
  assume n: "n < 0"
  have "n mod 2 ^ 128 = (n + 2 ^ 128) mod 2 ^ 128" by simp
  also have "\<dots> = n + 2 ^ 128" using n assms(1) by (intro mod_pos_pos_trivial) (auto simp: in_range_def)
  finally have c: "cast_to U128 n = 2 ^ 128 + n" by (simp add: cast_to_def)
  moreover have "0 < 2 ^ 128 + n" using assms(1) by (simp add: in_range_def)
  ultimately have "su_deposit e a n s = Ok (s\<lparr>ev_balance := (ev_balance s)(a \<mapsto> 2 ^ 128 + n)\<rparr>)"
    using assms(2) by (simp add: su_deposit_def)
  then show "\<exists>s'. su_deposit e a n s = Ok s' \<and> su_get_balance s' a = 2 ^ 128 + n \<and> sint (word_of_int (su_get_balance s' a) :: 128 word) = n"
    using sint_cast_back [OF assms(1)] by (simp add: su_get_balance_def c)
qed

theorem deposit_conversion_witness:
  "sus_deposit (signed_env [Address 5] 1) (Address 5) 9 \<lparr>ev_balance = Map.empty\<rparr> = Ok \<lparr>ev_balance = [Address 5 \<mapsto> 9]\<rparr>
   \<and> (\<exists>s'. su_deposit (signed_env [Address 5] 1) (Address 5) (- 3) \<lparr>ev_balance = Map.empty\<rparr> = Ok s' \<and> su_get_balance s' (Address 5) = 2 ^ 128 - 3)"
  using deposit_conversion [of 9 "signed_env [Address 5] 1" "Address 5" "\<lparr>ev_balance = Map.empty\<rparr>"]
    deposit_conversion [of "- 3" "signed_env [Address 5] 1" "Address 5" "\<lparr>ev_balance = Map.empty\<rparr>"]
  by (auto simp: signed_env_def in_range_def)

section \<open>abs\_min\_overflow\<close>

definition mo_record_delta :: "env \<Rightarrow> address \<Rightarrow> int \<Rightarrow> edge_vault \<Rightarrow> edge_vault result" where
  "mo_record_delta e user delta s =
     require_auth e user (
     arith (checked I128 \<bar>delta\<bar>) (\<lambda>abs_delta. Ok (s\<lparr>ev_balance := (ev_balance s)(user \<mapsto> abs_delta)\<rparr>)))"

definition mo_get_delta :: "edge_vault \<Rightarrow> address \<Rightarrow> int" where
  "mo_get_delta s user = get0 (ev_balance s) user"

definition mos_record_delta :: "env \<Rightarrow> address \<Rightarrow> int \<Rightarrow> edge_vault \<Rightarrow> edge_vault result" where
  "mos_record_delta e user delta s =
     require_auth e user (
     expect (checked I128 \<bar>delta\<bar>) ''delta out of range'' (\<lambda>abs_delta. Ok (s\<lparr>ev_balance := (ev_balance s)(user \<mapsto> abs_delta)\<rparr>)))"

definition mos_get_delta :: "edge_vault \<Rightarrow> address \<Rightarrow> int" where
  "mos_get_delta s user = get0 (ev_balance s) user"

text \<open>
  Absolute values (\<^verbatim>\<open>abs_min_overflow\<close>): with the overflow checks of the build, both halves refuse the same single input, the least value of the type, and otherwise store
  the same non-negative value.
\<close>

theorem abs_refuses_min_only:
  assumes "in_range I128 d" and "authorized e a"
  shows "mos_record_delta e a d s = (if d = - (2 ^ 127) then Err (Panic ''delta out of range'') else Ok (s\<lparr>ev_balance := (ev_balance s)(a \<mapsto> \<bar>d\<bar>)\<rparr>))
    \<and> (mo_record_delta e a d s = Ok s' \<longleftrightarrow> mos_record_delta e a d s = Ok s')"
proof -
  have "in_range I128 \<bar>d\<bar> \<longleftrightarrow> d \<noteq> - (2 ^ 127)"
    using assms(1) by (auto simp: in_range_def abs_if)
  then show ?thesis using assms(2) by (auto simp: mos_record_delta_def mo_record_delta_def)
qed

theorem abs_refuses_min_only_witness:
  "mos_record_delta (signed_env [Address 5] 1) (Address 5) (- 8) \<lparr>ev_balance = Map.empty\<rparr> = Ok \<lparr>ev_balance = [Address 5 \<mapsto> 8]\<rparr>"
  using abs_refuses_min_only [of "- 8" "signed_env [Address 5] 1" "Address 5" "\<lparr>ev_balance = Map.empty\<rparr>"]
  by (simp add: signed_env_def in_range_def)

section \<open>unsafe\_cast\<close>

definition uk_get_balance :: "edge_vault \<Rightarrow> address \<Rightarrow> int" where
  "uk_get_balance s staker = get0 (ev_balance s) staker"

definition uk_deposit :: "env \<Rightarrow> address \<Rightarrow> int \<Rightarrow> edge_vault \<Rightarrow> edge_vault result" where
  "uk_deposit e staker amount s =
     require_auth e staker (
     let current = uk_get_balance s staker in
     arith (checked_add I128 current amount) (\<lambda>n. Ok (s\<lparr>ev_balance := (ev_balance s)(staker \<mapsto> n)\<rparr>)))"

definition uk_get_reward :: "edge_vault \<Rightarrow> address \<Rightarrow> int" where
  "uk_get_reward s staker = (let balance = uk_get_balance s staker in cast_to U64 balance)"

definition uk_get_balance_raw :: "edge_vault \<Rightarrow> address \<Rightarrow> int" where
  "uk_get_balance_raw s staker = uk_get_balance s staker"

text \<open>
  The truncating cast (\<^verbatim>\<open>unsafe_cast\<close>): the reward is the low 64 bits of the balance; it is the balance exactly when that is between zero and the maximum of the
  64-bit type, and it never exceeds a non-negative balance.
\<close>

theorem reward_is_low_bits:
  "uk_get_reward s a = uint (word_of_int (uk_get_balance_raw s a) :: 64 word)
   \<and> (uk_get_reward s a = uk_get_balance_raw s a \<longleftrightarrow> in_range U64 (uk_get_balance_raw s a))
   \<and> uk_get_reward s a mod 2 ^ 64 = uk_get_balance_raw s a mod 2 ^ 64"
proof -
  have "uk_get_reward s a = uk_get_balance_raw s a mod 2 ^ 64"
    by (simp add: uk_get_reward_def uk_get_balance_raw_def cast_to_def)
  moreover have "uk_get_balance_raw s a mod 2 ^ 64 = uk_get_balance_raw s a \<longleftrightarrow> in_range U64 (uk_get_balance_raw s a)"
    by (metis cast_to_id in_range_cast_to cast_to_def diff_zero add.right_neutral ity_min.simps(4) ity_max.simps(4) diff_add_cancel)
  ultimately show ?thesis by (simp add: uint_word_of_int)
qed

end
