(* ===== verification/Delegated_Calls.thy ===== *)
theory Delegated_Calls
  imports Soroban_Bytes
begin

text \<open>
  Calls made for somebody else: \<^verbatim>\<open>delegate_signer_mismatch\<close>, \<^verbatim>\<open>expired_delegation\<close>, \<^verbatim>\<open>replay_attack\<close>,
  \<^verbatim>\<open>invoker_trusted_as_user\<close> with its intermediary, \<^verbatim>\<open>unvalidated_plugin_call\<close> with its plugin, and
  \<^verbatim>\<open>cross_call_error_swallowed\<close>. Shown: who has to sign, how often a signed payload runs, and that code the
  admin did not approve has no influence on a run.
\<close>

section \<open>delegate\_signer\_mismatch\<close>

record delegate_token =
  dt_Balance :: "address \<rightharpoonup> int"
  dt_Allowance :: "address \<times> address \<rightharpoonup> int"

definition dm_get_balance :: "delegate_token \<Rightarrow> address \<Rightarrow> int" where
  "dm_get_balance s account = get0 (dt_Balance s) account"

definition dm_set_balance :: "address \<Rightarrow> int \<Rightarrow> delegate_token \<Rightarrow> delegate_token" where
  "dm_set_balance account amount s = s\<lparr>dt_Balance := (dt_Balance s)(account \<mapsto> amount)\<rparr>"

definition dm_get_allowance :: "delegate_token \<Rightarrow> address \<Rightarrow> address \<Rightarrow> int" where
  "dm_get_allowance s owner delegate = get0 (dt_Allowance s) (owner, delegate)"

definition dm_set_allowance :: "address \<Rightarrow> address \<Rightarrow> int \<Rightarrow> delegate_token \<Rightarrow> delegate_token" where
  "dm_set_allowance owner delegate amount s = s\<lparr>dt_Allowance := (dt_Allowance s)((owner, delegate) \<mapsto> amount)\<rparr>"

definition dm_mint :: "env \<Rightarrow> address \<Rightarrow> int \<Rightarrow> delegate_token \<Rightarrow> delegate_token result" where
  "dm_mint e to amount s =
     (let current = dm_get_balance s to in
      arith (checked_add I128 current amount) (\<lambda>n. Ok (dm_set_balance to n s)))"

definition dm_approve :: "env \<Rightarrow> address \<Rightarrow> address \<Rightarrow> int \<Rightarrow> delegate_token \<Rightarrow> delegate_token result" where
  "dm_approve e owner delegate amount s = require_auth e owner (Ok (dm_set_allowance owner delegate amount s))"

definition dm_transfer_from ::
    "env \<Rightarrow> address \<Rightarrow> address \<Rightarrow> address \<Rightarrow> int \<Rightarrow> delegate_token \<Rightarrow> (int \<times> delegate_token) result" where
  "dm_transfer_from e delegate owner to amount s =
     require_auth e owner (
     let allowance = dm_get_allowance s owner delegate in
     ensure (allowance \<ge> amount) ''insufficient allowance'' (
     let owner_bal = dm_get_balance s owner in
     ensure (owner_bal \<ge> amount) ''insufficient balance'' (
     arith (checked_sub I128 owner_bal amount) (\<lambda>n.
     let s1 = dm_set_balance owner n s in
     arith (checked_add I128 (dm_get_balance s1 to) amount) (\<lambda>m.
     let s2 = dm_set_balance to m s1 in
     arith (checked_sub I128 allowance amount) (\<lambda>k.
     Ok (k, dm_set_allowance owner delegate k s2)))))))"

definition dm_balance :: "delegate_token \<Rightarrow> address \<Rightarrow> int" where
  "dm_balance s account = dm_get_balance s account"

definition dm_allowance :: "delegate_token \<Rightarrow> address \<Rightarrow> address \<Rightarrow> int" where
  "dm_allowance s owner delegate = dm_get_allowance s owner delegate"

definition dms_mint :: "env \<Rightarrow> address \<Rightarrow> int \<Rightarrow> delegate_token \<Rightarrow> delegate_token result" where
  "dms_mint e to amount s =
     (let current = dm_get_balance s to in
      arith (checked_add I128 current amount) (\<lambda>n. Ok (dm_set_balance to n s)))"

definition dms_approve :: "env \<Rightarrow> address \<Rightarrow> address \<Rightarrow> int \<Rightarrow> delegate_token \<Rightarrow> delegate_token result" where
  "dms_approve e owner delegate amount s = require_auth e owner (Ok (dm_set_allowance owner delegate amount s))"

definition dms_transfer_from ::
    "env \<Rightarrow> address \<Rightarrow> address \<Rightarrow> address \<Rightarrow> int \<Rightarrow> delegate_token \<Rightarrow> (int \<times> delegate_token) result" where
  "dms_transfer_from e delegate owner to amount s =
     require_auth e delegate (
     let allowance = dm_get_allowance s owner delegate in
     ensure (allowance \<ge> amount) ''insufficient allowance'' (
     let owner_bal = dm_get_balance s owner in
     ensure (owner_bal \<ge> amount) ''insufficient balance'' (
     arith (checked_sub I128 owner_bal amount) (\<lambda>n.
     let s1 = dm_set_balance owner n s in
     arith (checked_add I128 (dm_get_balance s1 to) amount) (\<lambda>m.
     let s2 = dm_set_balance to m s1 in
     arith (checked_sub I128 allowance amount) (\<lambda>k.
     Ok (k, dm_set_allowance owner delegate k s2)))))))"

definition dms_balance :: "delegate_token \<Rightarrow> address \<Rightarrow> int" where
  "dms_balance s account = dm_get_balance s account"

definition dms_allowance :: "delegate_token \<Rightarrow> address \<Rightarrow> address \<Rightarrow> int" where
  "dms_allowance s owner delegate = dm_get_allowance s owner delegate"

datatype delegate_call =
    DMint address int
  | DApprove address address int
  | DTransferFrom address address address int

fun dm_exec :: "env \<Rightarrow> delegate_call \<Rightarrow> delegate_token \<Rightarrow> delegate_token result" where
  "dm_exec e (DMint a n) s = dm_mint e a n s"
| "dm_exec e (DApprove a b n) s = dm_approve e a b n s"
| "dm_exec e (DTransferFrom d a b n) s = state_of (dm_transfer_from e d a b n s)"

fun dms_exec :: "env \<Rightarrow> delegate_call \<Rightarrow> delegate_token \<Rightarrow> delegate_token result" where
  "dms_exec e (DMint a n) s = dms_mint e a n s"
| "dms_exec e (DApprove a b n) s = dms_approve e a b n s"
| "dms_exec e (DTransferFrom d a b n) s = state_of (dms_transfer_from e d a b n s)"

lemmas dm_views = dm_get_balance_def dm_set_balance_def dm_get_allowance_def dm_set_allowance_def

text \<open>Who may lower the allowance of the pair: the owner by setting it, the delegate by spending it.\<close>

fun spends_pair :: "address \<Rightarrow> address \<Rightarrow> env \<Rightarrow> delegate_call \<Rightarrow> delegate_token \<Rightarrow> bool" where
  "spends_pair a d e (DApprove a' d' n) s = (a' = a \<and> d' = d \<and> authorized e a)"
| "spends_pair a d e (DTransferFrom d' a' b n) s = (a' = a \<and> d' = d \<and> authorized e d \<and> n \<le> dms_allowance s a d)"
| "spends_pair a d e (DMint _ _) s = False"

interpretation delegate_pair: guarded_view dms_exec "\<lambda>s. dms_allowance s a d" "spends_pair a d" for a d
proof
  fix e c s s'
  assume "dms_exec e c s = Ok s'" "dms_allowance s' a d \<noteq> dms_allowance s a d"
  then show "spends_pair a d e c s"
    by (cases c) (auto simp: dms_mint_def dms_approve_def dms_transfer_from_def dms_allowance_def dm_views result_simps int_simps Let_def
        get0_def split: if_splits)
qed

text \<open>
  Delegated spending (\<^verbatim>\<open>delegate_signer_mismatch/src/secure.rs\<close>): if the allowance of a pair of owner and
  delegate differs at the end of a run, the run has a call in which the owner, signing, set it, or the delegate, signing, spent
  within it.
\<close>

theorem allowance_moves_by_pair:
  assumes "dms_allowance (run_calls dms_exec xs s) a d \<noteq> dms_allowance s a d"
  shows "\<exists>ys e c zs. xs = ys @ (e, c) # zs
    \<and> ((\<exists>n. c = DApprove a d n \<and> authorized e a)
       \<or> (\<exists>b n. c = DTransferFrom d a b n \<and> authorized e d \<and> n \<le> dms_allowance (run_calls dms_exec ys s) a d))"
proof -
  obtain ys e c zs where "xs = ys @ (e, c) # zs" "spends_pair a d e c (run_calls dms_exec ys s)"
    using delegate_pair.run_view [OF assms] by blast
  then show ?thesis by (intro exI [of _ ys] exI [of _ e] exI [of _ c] exI [of _ zs]) (cases c; auto)
qed

definition delegate_demo :: delegate_token where
  "delegate_demo = \<lparr>dt_Balance = [Address 1 \<mapsto> 100], dt_Allowance = [(Address 1, Address 2) \<mapsto> 60]\<rparr>"

theorem allowance_moves_by_pair_witness:
  "\<exists>ys e c zs. [(signed_env [Address 2] 1, DTransferFrom (Address 2) (Address 1) (Address 3) 40)] = ys @ (e, c) # zs
    \<and> ((\<exists>n. c = DApprove (Address 1) (Address 2) n \<and> authorized e (Address 1))
       \<or> (\<exists>b n. c = DTransferFrom (Address 2) (Address 1) b n \<and> authorized e (Address 2)
            \<and> n \<le> dms_allowance (run_calls dms_exec ys delegate_demo) (Address 1) (Address 2)))"
  by (rule allowance_moves_by_pair)
    (simp add: delegate_demo_def dms_transfer_from_def dms_allowance_def dm_views signed_env_def state_of_def checked_ops in_range_def)

lemma owner_spends_for_delegate:
  "state_of (dm_transfer_from (signed_env [Address 1] 1) (Address 2) (Address 1) (Address 3) 40 delegate_demo)
     = Ok \<lparr>dt_Balance = [Address 1 \<mapsto> 60, Address 3 \<mapsto> 40], dt_Allowance = [(Address 1, Address 2) \<mapsto> 20]\<rparr>
   \<and> dm_transfer_from (signed_env [Address 2] 1) (Address 2) (Address 1) (Address 3) 40 delegate_demo = Err (Unauthorized (Address 1))"
  by (simp add: delegate_demo_def dm_transfer_from_def dm_views signed_env_def state_of_def checked_ops in_range_def fun_upd_twist)

lemma anyone_mints: "in_range I128 (dms_balance s a + n) \<Longrightarrow> \<exists>s'. dms_mint e a n s = Ok s' \<and> dms_balance s' a = dms_balance s a + n"
  by (simp add: dms_mint_def dms_balance_def dm_views checked_add_def)

section \<open>expired\_delegation\<close>

record admin_delegation =
  dl_Admin :: "address option"
  dl_Delegate :: "address option"
  dl_DelegateExpiry :: "int option"
  dl_Value :: "int option"

definition ed_require_admin :: "env \<Rightarrow> admin_delegation \<Rightarrow> 'a result \<Rightarrow> 'a result" where
  "ed_require_admin e s k = expect (dl_Admin s) ''not initialized'' (\<lambda>admin. require_auth e admin k)"

definition ed_require_admin_or_delegate :: "env \<Rightarrow> admin_delegation \<Rightarrow> 'a result \<Rightarrow> 'a result" where
  "ed_require_admin_or_delegate e s k =
     (case dl_Delegate s of
        Some delegate \<Rightarrow> require_auth e delegate k
      | None \<Rightarrow> ed_require_admin e s k)"

definition ed_initialize :: "env \<Rightarrow> address \<Rightarrow> admin_delegation \<Rightarrow> admin_delegation result" where
  "ed_initialize e admin s = panic_if (dl_Admin s \<noteq> None) ''already initialized'' (Ok (s\<lparr>dl_Admin := Some admin\<rparr>))"

definition ed_delegate_admin :: "env \<Rightarrow> address \<Rightarrow> int \<Rightarrow> admin_delegation \<Rightarrow> admin_delegation result" where
  "ed_delegate_admin e delegate expiry_ledger s =
     ed_require_admin e s (
     let s1 = s\<lparr>dl_Delegate := Some delegate\<rparr> in
     Ok (s1\<lparr>dl_DelegateExpiry := Some expiry_ledger\<rparr>))"

definition ed_set_value :: "env \<Rightarrow> int \<Rightarrow> admin_delegation \<Rightarrow> admin_delegation result" where
  "ed_set_value e v s = ed_require_admin_or_delegate e s (Ok (s\<lparr>dl_Value := Some v\<rparr>))"

definition ed_get_value :: "admin_delegation \<Rightarrow> int" where
  "ed_get_value s = unwrap_or (dl_Value s) 0"

definition eds_require_admin :: "env \<Rightarrow> admin_delegation \<Rightarrow> 'a result \<Rightarrow> 'a result" where
  "eds_require_admin e s k = expect (dl_Admin s) ''not initialized'' (\<lambda>admin. require_auth e admin k)"

definition eds_require_admin_or_delegate :: "env \<Rightarrow> admin_delegation \<Rightarrow> 'a result \<Rightarrow> 'a result" where
  "eds_require_admin_or_delegate e s k =
     (case dl_Delegate s of
        Some delegate \<Rightarrow>
          let expiry = unwrap_or (dl_DelegateExpiry s) 0 in
          ensure (sequence e \<le> expiry) ''delegation expired'' (require_auth e delegate k)
      | None \<Rightarrow> eds_require_admin e s k)"

definition eds_initialize :: "env \<Rightarrow> address \<Rightarrow> admin_delegation \<Rightarrow> admin_delegation result" where
  "eds_initialize e admin s = panic_if (dl_Admin s \<noteq> None) ''already initialized'' (Ok (s\<lparr>dl_Admin := Some admin\<rparr>))"

definition eds_delegate_admin :: "env \<Rightarrow> address \<Rightarrow> int \<Rightarrow> admin_delegation \<Rightarrow> admin_delegation result" where
  "eds_delegate_admin e delegate expiry_ledger s =
     eds_require_admin e s (
     let s1 = s\<lparr>dl_Delegate := Some delegate\<rparr> in
     Ok (s1\<lparr>dl_DelegateExpiry := Some expiry_ledger\<rparr>))"

definition eds_set_value :: "env \<Rightarrow> int \<Rightarrow> admin_delegation \<Rightarrow> admin_delegation result" where
  "eds_set_value e v s = eds_require_admin_or_delegate e s (Ok (s\<lparr>dl_Value := Some v\<rparr>))"

definition eds_get_value :: "admin_delegation \<Rightarrow> int" where
  "eds_get_value s = unwrap_or (dl_Value s) 0"

datatype delegation_call = GInitialize address | GDelegate address int | GSet int

fun ed_exec :: "env \<Rightarrow> delegation_call \<Rightarrow> admin_delegation \<Rightarrow> admin_delegation result" where
  "ed_exec e (GInitialize a) s = ed_initialize e a s"
| "ed_exec e (GDelegate d x) s = ed_delegate_admin e d x s"
| "ed_exec e (GSet v) s = ed_set_value e v s"

fun eds_exec :: "env \<Rightarrow> delegation_call \<Rightarrow> admin_delegation \<Rightarrow> admin_delegation result" where
  "eds_exec e (GInitialize a) s = eds_initialize e a s"
| "eds_exec e (GDelegate d x) s = eds_delegate_admin e d x s"
| "eds_exec e (GSet v) s = eds_set_value e v s"

fun delegation_current :: "env \<Rightarrow> delegation_call \<Rightarrow> admin_delegation \<Rightarrow> bool" where
  "delegation_current e (GSet v) s = (dl_Delegate s = None \<or> sequence e \<le> unwrap_or (dl_DelegateExpiry s) 0)"
| "delegation_current e _ s = True"

interpretation expiry_hardened: hardened ed_exec eds_exec delegation_current
proof
  fix e c s s'
  show "eds_exec e c s = Ok s' \<longleftrightarrow> delegation_current e c s \<and> ed_exec e c s = Ok s'"
    by (cases c) (auto simp: ed_initialize_def eds_initialize_def ed_delegate_admin_def eds_delegate_admin_def ed_set_value_def eds_set_value_def
        ed_require_admin_def eds_require_admin_def ed_require_admin_or_delegate_def eds_require_admin_or_delegate_def Let_def result_simps
        split: option.splits)
qed

text \<open>A delegation that stands at the end of a run was granted, with that expiry, in a call the admin signed.\<close>

fun grants :: "env \<Rightarrow> delegation_call \<Rightarrow> admin_delegation \<Rightarrow> address option \<times> int option \<Rightarrow> bool" where
  "grants e (GDelegate d x) s v = (v = (Some d, Some x) \<and> (\<exists>a. dl_Admin s = Some a \<and> authorized e a))"
| "grants e _ s v = False"

interpretation granted: written_view eds_exec "\<lambda>s. (dl_Delegate s, dl_DelegateExpiry s)" grants
proof
  fix e c s s'
  assume "eds_exec e c s = Ok s'" "(dl_Delegate s', dl_DelegateExpiry s') \<noteq> (dl_Delegate s, dl_DelegateExpiry s)"
  then show "grants e c s (dl_Delegate s', dl_DelegateExpiry s')"
    by (cases c) (auto simp: eds_initialize_def eds_delegate_admin_def eds_set_value_def eds_require_admin_def eds_require_admin_or_delegate_def
        Let_def result_simps split: option.splits)
qed

text \<open>
  Expiring delegations (\<^verbatim>\<open>expired_delegation/src/secure.rs\<close>): when the value can be set after a run that started without a
  delegation, then the admin signed and never delegated, or a delegate signed to whom the admin, signing, had delegated
  until this ledger or later.
\<close>

theorem value_set_under_delegation:
  assumes "eds_set_value e v (run_calls eds_exec xs s) = Ok t" and "dl_Delegate s = None" and "dl_DelegateExpiry s = None"
  shows "(\<exists>a. dl_Admin (run_calls eds_exec xs s) = Some a \<and> authorized e a \<and> dl_Delegate (run_calls eds_exec xs s) = None)
    \<or> (\<exists>ys e' d x zs a. xs = ys @ (e', GDelegate d x) # zs \<and> dl_Admin (run_calls eds_exec ys s) = Some a \<and> authorized e' a
         \<and> authorized e d \<and> sequence e \<le> x)"
proof (cases "dl_Delegate (run_calls eds_exec xs s)")
  case None
  then show ?thesis using assms(1)
    by (auto simp: eds_set_value_def eds_require_admin_or_delegate_def eds_require_admin_def result_simps)
next
  case (Some d)
  let ?t = "run_calls eds_exec xs s"
  have "(dl_Delegate ?t, dl_DelegateExpiry ?t) \<noteq> (dl_Delegate s, dl_DelegateExpiry s)" using Some assms(2) by simp
  from granted.run_writes [OF this] obtain ys e' c zs
    where w: "xs = ys @ (e', c) # zs" "grants e' c (run_calls eds_exec ys s) (Some d, dl_DelegateExpiry ?t)"
    using Some by auto
  then obtain x a where "c = GDelegate d x" "dl_DelegateExpiry ?t = Some x" "dl_Admin (run_calls eds_exec ys s) = Some a" "authorized e' a"
    by (cases c) auto
  moreover from this(2) Some assms(1) have "authorized e d" "sequence e \<le> x"
    by (auto simp: eds_set_value_def eds_require_admin_or_delegate_def Let_def result_simps unwrap_or_def)
  ultimately show ?thesis using w(1) by blast
qed

theorem value_set_under_delegation_witness:
  "\<exists>t. eds_set_value (signed_env [Address 2] 7) 5 (run_calls eds_exec [(signed_env [Address 1] 1, GDelegate (Address 2) 9)]
       \<lparr>dl_Admin = Some (Address 1), dl_Delegate = None, dl_DelegateExpiry = None, dl_Value = None\<rparr>) = Ok t \<and> (7::int) \<le> 9"
proof -
  let ?s = "\<lparr>dl_Admin = Some (Address 1), dl_Delegate = None, dl_DelegateExpiry = None, dl_Value = None\<rparr> :: admin_delegation"
  let ?xs = "[(signed_env [Address 1] 1, GDelegate (Address 2) 9)]"
  let ?t = "\<lparr>dl_Admin = Some (Address 1), dl_Delegate = Some (Address 2), dl_DelegateExpiry = Some 9, dl_Value = Some 5\<rparr> :: admin_delegation"
  have ok: "eds_set_value (signed_env [Address 2] 7) 5 (run_calls eds_exec ?xs ?s) = Ok ?t"
    by (simp add: eds_set_value_def eds_require_admin_or_delegate_def eds_delegate_admin_def eds_require_admin_def signed_env_def unwrap_or_def)
  have "(7::int) \<le> 9"
    using value_set_under_delegation [OF ok] by (auto simp: signed_env_def Cons_eq_append_conv)
  with ok show ?thesis by blast
qed

lemma expired_delegate_still_sets:
  assumes "dl_Delegate s = Some d" and "authorized e d"
  shows "ed_set_value e v s = Ok (s\<lparr>dl_Value := Some v\<rparr>)"
  using assms by (simp add: ed_set_value_def ed_require_admin_or_delegate_def)

text \<open>An expired delegation locks the admin out of the action too, until the admin delegates again.\<close>

lemma admin_locked_out:
  assumes "dl_Delegate s = Some d" and "dl_DelegateExpiry s = Some x" and "x < sequence e"
  shows "eds_set_value e v s = Err (Panic ''delegation expired'')"
  using assms by (simp add: eds_set_value_def eds_require_admin_or_delegate_def unwrap_or_def)

section \<open>replay\_attack\<close>

record executor = host +
  xc_ExecCount :: "bytes \<rightharpoonup> int"
  xc_NonceUsed :: "bytes \<rightharpoonup> bool"

definition verify_signature :: "(bytes \<Rightarrow> bytes) \<Rightarrow> bytes \<Rightarrow> bytes \<Rightarrow> 'a result \<Rightarrow> 'a result" where
  "verify_signature sha256 payload signature k =
     (let expected = sha256 payload in panic_if (expected \<noteq> signature) ''invalid signature'' k)"

definition execute_payload :: "bytes \<Rightarrow> executor \<Rightarrow> executor" where
  "execute_payload payload s = publish [''executed''] [vbytes payload] s"

definition ry_execute_signed :: "(bytes \<Rightarrow> bytes) \<Rightarrow> env \<Rightarrow> bytes \<Rightarrow> bytes \<Rightarrow> executor \<Rightarrow> executor result" where
  "ry_execute_signed sha256 e payload signature s =
     verify_signature sha256 payload signature (
     let count = get0 (xc_ExecCount s) payload in
     arith (checked_add U32 count 1) (\<lambda>n.
     let s1 = s\<lparr>xc_ExecCount := (xc_ExecCount s)(payload \<mapsto> n)\<rparr> in
     Ok (execute_payload payload s1)))"

definition ry_exec_count :: "executor \<Rightarrow> bytes \<Rightarrow> int" where
  "ry_exec_count s payload = get0 (xc_ExecCount s) payload"

definition rys_execute_signed :: "(bytes \<Rightarrow> bytes) \<Rightarrow> env \<Rightarrow> bytes \<Rightarrow> bytes \<Rightarrow> executor \<Rightarrow> executor result" where
  "rys_execute_signed sha256 e payload signature s =
     verify_signature sha256 payload signature (
     panic_if (unwrap_or (xc_NonceUsed s signature) False) ''already used'' (
     let s1 = s\<lparr>xc_NonceUsed := (xc_NonceUsed s)(signature \<mapsto> True)\<rparr>;
         count = get0 (xc_ExecCount s1) payload in
     arith (checked_add U32 count 1) (\<lambda>n.
     let s2 = s1\<lparr>xc_ExecCount := (xc_ExecCount s1)(payload \<mapsto> n)\<rparr> in
     Ok (execute_payload payload s2))))"

definition rys_exec_count :: "executor \<Rightarrow> bytes \<Rightarrow> int" where
  "rys_exec_count s payload = get0 (xc_ExecCount s) payload"

definition ry_exec :: "(bytes \<Rightarrow> bytes) \<Rightarrow> env \<Rightarrow> bytes \<times> bytes \<Rightarrow> executor \<Rightarrow> executor result" where
  "ry_exec h e = (\<lambda>(p, g). ry_execute_signed h e p g)"

definition rys_exec :: "(bytes \<Rightarrow> bytes) \<Rightarrow> env \<Rightarrow> bytes \<times> bytes \<Rightarrow> executor \<Rightarrow> executor result" where
  "rys_exec h e = (\<lambda>(p, g). rys_execute_signed h e p g)"

lemma rys_exec_Ok:
  "rys_exec h e (p, g) s = Ok s' \<longleftrightarrow> g = h p \<and> \<not> unwrap_or (xc_NonceUsed s g) False \<and> in_range U32 (rys_exec_count s p + 1)
     \<and> s' = s\<lparr>events := events s @ [([''executed''], [vbytes p])], xc_NonceUsed := (xc_NonceUsed s)(g \<mapsto> True),
               xc_ExecCount := (xc_ExecCount s)(p \<mapsto> rys_exec_count s p + 1)\<rparr>"
  by (auto simp: rys_exec_def rys_execute_signed_def verify_signature_def execute_payload_def rys_exec_count_def publish_def
      Let_def result_simps int_simps)

interpretation signatures: single_use "rys_exec h" "\<lambda>(p, g). Some g" "\<lambda>s g. unwrap_or (xc_NonceUsed s g) False" for h
  by unfold_locales (auto simp: rys_exec_Ok unwrap_or_def split: if_splits)

interpretation executions: conserved_flow "rys_exec h" "\<lambda>_. True" "\<lambda>s. rys_exec_count s p" "\<lambda>e c s. if fst c = p then 1 else 0" for h p
  by unfold_locales (auto simp: rys_exec_Ok rys_exec_count_def)

text \<open>
  Signed execution (\<^verbatim>\<open>replay_attack/src/secure.rs\<close>), for any hash: no two successful calls of a run carry the same
  signature, none carries one used before, and each carries the hash of its payload; so the payloads are pairwise different and
  each is counted at most once.
\<close>

theorem payloads_run_once:
  fixes h :: "bytes \<Rightarrow> bytes"
  defines "ok \<equiv> successes (rys_exec h)"
  shows "distinct (map snd (ok xs s)) \<and> (\<forall>(p, g)\<in>set (ok xs s). g = h p \<and> \<not> unwrap_or (xc_NonceUsed s g) False)
    \<and> distinct (map fst (ok xs s))
    \<and> rys_exec_count (run_calls (rys_exec h) xs s) p - rys_exec_count s p = (if p \<in> fst ` set (ok xs s) then 1 else 0)"
proof -
  have keys: "List.map_filter (\<lambda>(p, g). Some g) ys = map snd ys" for ys :: "(bytes \<times> bytes) list"
    by (induction ys) (auto simp: List.map_filter_simps)
  have sig: "\<forall>(p, g)\<in>set (ok xs s). g = h p"
    unfolding ok_def by (auto dest!: success_ran simp: rys_exec_Ok)
  have once: "distinct (map snd (ok xs s))" "\<forall>g\<in>set (map snd (ok xs s)). \<not> unwrap_or (xc_NonceUsed s g) False"
    using signatures.keys_once [where h = h and xs = xs and s = s] unfolding keys ok_def by blast+
  have "map snd (ok xs s) = map h (map fst (ok xs s))" using sig by (auto simp: case_prod_beta)
  with once(1) have payloads: "distinct (map fst (ok xs s))" by (simp only: distinct_map)
  have "run_flow (rys_exec h) (\<lambda>e c s. if fst c = p then 1 else 0) xs s = int (length (filter (\<lambda>c. fst c = p) (ok xs s)))"
    unfolding ok_def by (simp add: run_flow_count [where d = 1 and P = "\<lambda>c. fst c = p"])
  moreover have "length (filter (\<lambda>q. q = p) ps) = (if p \<in> set ps then 1 else 0)" if "distinct ps" for ps
    using that by (induction ps) auto
  from this [OF payloads] have "length (filter (\<lambda>c. fst c = p) (ok xs s)) = (if p \<in> fst ` set (ok xs s) then 1 else 0)"
    by (simp add: filter_map comp_def)
  ultimately show ?thesis
    using once sig payloads executions.run_conserves [where h = h and p = p and xs = xs and s = s] by auto
qed

theorem payloads_run_once_witness:
  "rys_exec_count (run_calls (rys_exec (\<lambda>b. b)) [(signed_env [] 1, [1, 2], [1, 2]), (signed_env [] 2, [1, 2], [1, 2])]
       \<lparr>events = [], xc_ExecCount = Map.empty, xc_NonceUsed = Map.empty\<rparr>) [1, 2] = 1"
  using payloads_run_once [of "\<lambda>b. b" "[(signed_env [] 1, [1, 2], [1, 2]), (signed_env [] 2, [1, 2], [1, 2])]"
      "\<lparr>events = [], xc_ExecCount = Map.empty, xc_NonceUsed = Map.empty\<rparr>" "[1, 2]"]
  by (simp add: rys_exec_def rys_execute_signed_def verify_signature_def execute_payload_def rys_exec_count_def publish_def unwrap_or_def
      checked_add_def in_range_def)

lemma payload_replayed:
  assumes "0 \<le> ry_exec_count s p" and "ry_exec_count s p + int n < 2 ^ 32"
  shows "ry_exec_count (run_calls (ry_exec h) (replicate n (e, p, h p)) s) p = ry_exec_count s p + int n"
  using assms
proof (induction n arbitrary: s)
  case (Suc n)
  let ?s = "execute_payload p (s\<lparr>xc_ExecCount := (xc_ExecCount s)(p \<mapsto> ry_exec_count s p + 1)\<rparr>)"
  have "ry_exec h e (p, h p) s = Ok ?s"
    using Suc.prems by (simp add: ry_exec_def ry_execute_signed_def verify_signature_def ry_exec_count_def checked_add_def in_range_def)
  moreover have "ry_exec_count ?s p = ry_exec_count s p + 1"
    by (simp add: ry_exec_count_def execute_payload_def publish_def)
  ultimately show ?case using Suc.IH [of ?s] Suc.prems by simp
qed simp

section \<open>invoker\_trusted\_as\_user\<close>

record user_vault =
  uv_Balance :: "address \<rightharpoonup> int"

definition iv_deposit :: "env \<Rightarrow> address \<Rightarrow> int \<Rightarrow> user_vault \<Rightarrow> user_vault result" where
  "iv_deposit e user amount s =
     require_auth e user (
     let bal = get0 (uv_Balance s) user in
     arith (checked_add I128 bal amount) (\<lambda>n. Ok (s\<lparr>uv_Balance := (uv_Balance s)(user \<mapsto> n)\<rparr>)))"

definition iv_withdraw :: "env \<Rightarrow> address \<Rightarrow> int \<Rightarrow> user_vault \<Rightarrow> (int \<times> user_vault) result" where
  "iv_withdraw e actor amount s =
     (let bal = get0 (uv_Balance s) actor in
      expect (checked_sub I128 bal amount) ''insufficient funds'' (\<lambda>new_bal.
      Ok (amount, s\<lparr>uv_Balance := (uv_Balance s)(actor \<mapsto> new_bal)\<rparr>)))"

definition iv_balance :: "user_vault \<Rightarrow> address \<Rightarrow> int" where
  "iv_balance s user = get0 (uv_Balance s) user"

text \<open>The intermediary calls the vault deployed at \<^verbatim>\<open>vault\<close>.\<close>

definition iv_steal :: "address \<Rightarrow> env \<Rightarrow> address \<Rightarrow> address \<Rightarrow> int \<Rightarrow> user_vault \<Rightarrow> (int \<times> user_vault) result" where
  "iv_steal vault e vault_id victim amount s =
     (if vault_id = vault then iv_withdraw e victim amount s else Err NoContract)"

definition ivs_deposit :: "env \<Rightarrow> address \<Rightarrow> int \<Rightarrow> user_vault \<Rightarrow> user_vault result" where
  "ivs_deposit e user amount s =
     require_auth e user (
     let bal = get0 (uv_Balance s) user in
     arith (checked_add I128 bal amount) (\<lambda>n. Ok (s\<lparr>uv_Balance := (uv_Balance s)(user \<mapsto> n)\<rparr>)))"

definition ivs_withdraw :: "env \<Rightarrow> address \<Rightarrow> int \<Rightarrow> user_vault \<Rightarrow> (int \<times> user_vault) result" where
  "ivs_withdraw e user amount s =
     require_auth e user (
     let bal = get0 (uv_Balance s) user in
     expect (checked_sub I128 bal amount) ''insufficient funds'' (\<lambda>new_bal.
     Ok (amount, s\<lparr>uv_Balance := (uv_Balance s)(user \<mapsto> new_bal)\<rparr>)))"

definition ivs_balance :: "user_vault \<Rightarrow> address \<Rightarrow> int" where
  "ivs_balance s user = get0 (uv_Balance s) user"

datatype user_call = UDeposit (caller: address) int | UWithdraw (caller: address) int

fun iv_exec :: "env \<Rightarrow> user_call \<Rightarrow> user_vault \<Rightarrow> user_vault result" where
  "iv_exec e (UDeposit a n) s = iv_deposit e a n s"
| "iv_exec e (UWithdraw a n) s = state_of (iv_withdraw e a n s)"

fun ivs_exec :: "env \<Rightarrow> user_call \<Rightarrow> user_vault \<Rightarrow> user_vault result" where
  "ivs_exec e (UDeposit a n) s = ivs_deposit e a n s"
| "ivs_exec e (UWithdraw a n) s = state_of (ivs_withdraw e a n s)"

interpretation user_hardened: hardened iv_exec ivs_exec "\<lambda>e c s. authorized e (caller c)"
proof
  fix e c s s'
  show "ivs_exec e c s = Ok s' \<longleftrightarrow> authorized e (caller c) \<and> iv_exec e c s = Ok s'"
    by (cases c) (auto simp: ivs_deposit_def iv_deposit_def ivs_withdraw_def iv_withdraw_def result_simps Let_def)
qed

interpretation own_account: isolated_part ivs_exec "\<lambda>s. ivs_balance s a" "\<lambda>c. caller c = a" for a
proof
  fix c s t e s'
  assume "caller c = a" "ivs_balance s a = ivs_balance t a" "ivs_exec e c s = Ok s'"
  then show "\<exists>t'. ivs_exec e c t = Ok t' \<and> ivs_balance t' a = ivs_balance s' a"
    by (cases c) (auto simp: ivs_deposit_def ivs_withdraw_def ivs_balance_def result_simps int_simps Let_def)
next
  fix c e s s'
  assume "caller c \<noteq> a" "ivs_exec e c s = Ok s'"
  then show "ivs_balance s' a = ivs_balance s a"
    by (cases c) (auto simp: ivs_deposit_def ivs_withdraw_def ivs_balance_def result_simps int_simps Let_def)
qed

text \<open>
  Own accounts (\<^verbatim>\<open>invoker_trusted_as_user/src/secure.rs\<close>): the balance of a user after a run is what the calls the user signed, in the
  original vault and without everybody else's, leave.
\<close>

theorem balance_from_own_signed_calls:
  "ivs_balance (run_calls ivs_exec xs s) a
     = iv_balance (run_calls iv_exec (filter (\<lambda>(e, c). caller c = a \<and> authorized e a) xs) s) a"
proof -
  let ?mine = "filter (\<lambda>(e, c). caller c = a) xs"
  have "run_calls ivs_exec zs s = run_calls iv_exec (filter (\<lambda>(e, c). authorized e (caller c)) zs) s" for zs
  proof -
    have "admitted iv_exec (\<lambda>e c s. authorized e (caller c)) zs s = filter (\<lambda>(e, c). authorized e (caller c)) zs" for s
      by (induction zs arbitrary: s) auto
    then show ?thesis using user_hardened.run_admitted [of zs s] by simp
  qed
  moreover have "filter (\<lambda>(e, c). authorized e (caller c)) ?mine = filter (\<lambda>(e, c). caller c = a \<and> authorized e a) xs"
    by (auto intro!: filter_cong)
  ultimately show ?thesis
    using own_account.run_isolated [where a = a and xs = xs and s = s and t = s] by (simp add: ivs_balance_def iv_balance_def)
qed

lemma intermediary_steals:
  assumes "in_range I128 (iv_balance s v - n)"
  shows "\<exists>s'. iv_steal a e a v n s = Ok (n, s') \<and> iv_balance s' v = iv_balance s v - n"
  using assms by (simp add: iv_steal_def iv_withdraw_def iv_balance_def checked_sub_def)

lemma withdrawal_overdraws:
  assumes "authorized e a" and "ivs_balance s a = 0" and "0 < n" and "in_range I128 n"
  shows "\<exists>s'. ivs_withdraw e a n s = Ok (n, s') \<and> ivs_balance s' a = - n"
proof -
  have "in_range I128 (- n)" using assms(3,4) by (simp add: in_range_def)
  then show ?thesis using assms by (simp add: ivs_withdraw_def ivs_balance_def checked_sub_def)
qed

section \<open>unvalidated\_plugin\_call\<close>

record dispatcher =
  dp_CallCount :: "int option"
  dp_LastPlugin :: "address option"

record secure_dispatcher =
  sd_Admin :: "address option"
  sd_Approved :: "address \<rightharpoonup> bool"
  sd_CallCount :: "int option"

record plugin_store =
  pg_ExecuteCount :: "int option"

text \<open>
  The plugin is arbitrary code at an address, called with the actor and the amount; it works on a world outside the dispatcher,
  whose storage is private and which the host does not let it enter again. The two error codes of the repaired half are traps with their name.
\<close>

type_synonym 'w plugin = "address \<Rightarrow> address \<Rightarrow> int \<Rightarrow> 'w \<Rightarrow> 'w result"

definition pg_dispatch :: "'w plugin \<Rightarrow> env \<Rightarrow> address \<Rightarrow> int \<Rightarrow> address \<Rightarrow> dispatcher \<times> 'w \<Rightarrow> (dispatcher \<times> 'w) result" where
  "pg_dispatch invoke_execute e actor amount plugin_id = (\<lambda>(s, w).
     require_auth e actor (
     and_then (invoke_execute plugin_id actor amount w) (\<lambda>w1.
     let count = unwrap_or (dp_CallCount s) 0 in
     arith (checked_add U32 count 1) (\<lambda>n.
     let s1 = s\<lparr>dp_CallCount := Some n\<rparr> in
     Ok (s1\<lparr>dp_LastPlugin := Some plugin_id\<rparr>, w1)))))"

definition pg_call_count :: "dispatcher \<Rightarrow> int" where
  "pg_call_count s = unwrap_or (dp_CallCount s) 0"

definition plugin_execute :: "address \<Rightarrow> int \<Rightarrow> plugin_store \<Rightarrow> plugin_store result" where
  "plugin_execute actor amount w =
     (let count = unwrap_or (pg_ExecuteCount w) 0 in
      arith (checked_add U32 count 1) (\<lambda>n. Ok (w\<lparr>pg_ExecuteCount := Some n\<rparr>)))"

definition plugin_execute_count :: "plugin_store \<Rightarrow> int" where
  "plugin_execute_count w = unwrap_or (pg_ExecuteCount w) 0"

definition pgs_init :: "env \<Rightarrow> address \<Rightarrow> secure_dispatcher \<Rightarrow> secure_dispatcher result" where
  "pgs_init e admin s = panic_if (sd_Admin s \<noteq> None) ''AlreadyInitialized'' (Ok (s\<lparr>sd_Admin := Some admin\<rparr>))"

definition pgs_approve_plugin :: "env \<Rightarrow> address \<Rightarrow> address \<Rightarrow> secure_dispatcher \<Rightarrow> secure_dispatcher result" where
  "pgs_approve_plugin e admin plugin_id s =
     expect (sd_Admin s) ''not initialized'' (\<lambda>stored_admin.
     require_auth e admin (
     ensure (admin = stored_admin) ''not admin'' (
     Ok (s\<lparr>sd_Approved := (sd_Approved s)(plugin_id \<mapsto> True)\<rparr>))))"

definition pgs_dispatch ::
    "'w plugin \<Rightarrow> env \<Rightarrow> address \<Rightarrow> int \<Rightarrow> address \<Rightarrow> secure_dispatcher \<times> 'w \<Rightarrow> (secure_dispatcher \<times> 'w) result" where
  "pgs_dispatch invoke_execute e actor amount plugin_id = (\<lambda>(s, w).
     require_auth e actor (
     let approved = unwrap_or (sd_Approved s plugin_id) False in
     panic_if (\<not> approved) ''NotApproved'' (
     and_then (invoke_execute plugin_id actor amount w) (\<lambda>w1.
     let count = unwrap_or (sd_CallCount s) 0 in
     arith (checked_add U32 count 1) (\<lambda>n. Ok (s\<lparr>sd_CallCount := Some n\<rparr>, w1))))))"

definition pgs_call_count :: "secure_dispatcher \<Rightarrow> int" where
  "pgs_call_count s = unwrap_or (sd_CallCount s) 0"

datatype plugin_call = PgInit address | PgApprove address address | PgDispatch address int address

fun pgs_exec :: "'w plugin \<Rightarrow> env \<Rightarrow> plugin_call \<Rightarrow> secure_dispatcher \<times> 'w \<Rightarrow> (secure_dispatcher \<times> 'w) result" where
  "pgs_exec p e (PgInit a) (s, w) = map_sum id (\<lambda>s'. (s', w)) (pgs_init e a s)"
| "pgs_exec p e (PgApprove a x) (s, w) = map_sum id (\<lambda>s'. (s', w)) (pgs_approve_plugin e a x s)"
| "pgs_exec p e (PgDispatch a n x) (s, w) = pgs_dispatch p e a n x (s, w)"

lemma map_sum_Ok [result_simps]: "map_sum id f r = Ok y \<longleftrightarrow> (\<exists>x. r = Ok x \<and> y = f x)"
  by (cases r) auto

definition is_approved :: "secure_dispatcher \<times> 'w \<Rightarrow> address \<Rightarrow> bool" where
  "is_approved t x \<longleftrightarrow> unwrap_or (sd_Approved (fst t) x) False"

interpretation approvals_stay: contract_progress "pgs_exec p" "\<lambda>s t. \<forall>x. is_approved s x \<longrightarrow> is_approved t x" for p
proof
  fix e c s s'
  assume "pgs_exec p e c s = Ok s'"
  then show "\<forall>x. is_approved s x \<longrightarrow> is_approved s' x"
    by (cases s; cases c) (auto simp: is_approved_def unwrap_or_def pgs_init_def pgs_approve_plugin_def pgs_dispatch_def result_simps Let_def)
qed auto

lemma same_step:
  assumes "\<forall>x. is_approved s x \<longrightarrow> p x = q x"
  shows "pgs_exec p e c s = pgs_exec q e c s"
  using assms by (cases s; cases c) (auto simp: is_approved_def pgs_dispatch_def Let_def require_auth_def panic_if_def)

text \<open>
  Plugins (\<^verbatim>\<open>unvalidated_plugin_call/src/secure.rs\<close>): code that the admin does not approve has no influence. If two
  worlds have the same code at every address that is approved at the end, a run goes the same way in both.
\<close>

theorem unapproved_code_irrelevant:
  assumes "\<forall>x. is_approved (run_calls (pgs_exec p) xs s) x \<longrightarrow> p x = q x"
  shows "run_calls (pgs_exec p) xs s = run_calls (pgs_exec q) xs s"
  using assms
proof (induction xs arbitrary: s)
  case (Cons x xs)
  obtain e c where x: "x = (e, c)" by force
  let ?t = "commit s (pgs_exec p e c s)"
  have "\<forall>y. is_approved s y \<longrightarrow> is_approved (run_calls (pgs_exec p) (x # xs) s) y" by (rule approvals_stay.run_le)
  with Cons.prems have "?t = commit s (pgs_exec q e c s)" using same_step by metis
  moreover have "run_calls (pgs_exec p) xs ?t = run_calls (pgs_exec q) xs ?t"
    using Cons.prems x by (intro Cons.IH) auto
  ultimately show ?case using x by simp
qed simp

theorem unapproved_code_irrelevant_witness:
  "run_calls (pgs_exec (\<lambda>x. plugin_execute)) [(signed_env [Address 4] 1, PgDispatch (Address 4) 5 (Address 7))]
      (\<lparr>sd_Admin = Some (Address 1), sd_Approved = Map.empty, sd_CallCount = None\<rparr>, \<lparr>pg_ExecuteCount = None\<rparr>)
   = run_calls (pgs_exec (\<lambda>x a n w. Err NoContract)) [(signed_env [Address 4] 1, PgDispatch (Address 4) 5 (Address 7))]
      (\<lparr>sd_Admin = Some (Address 1), sd_Approved = Map.empty, sd_CallCount = None\<rparr>, \<lparr>pg_ExecuteCount = None\<rparr>)"
  by (rule unapproved_code_irrelevant) (simp add: is_approved_def pgs_dispatch_def signed_env_def unwrap_or_def)

fun admin_approves :: "address \<Rightarrow> env \<Rightarrow> plugin_call \<Rightarrow> secure_dispatcher \<times> 'w \<Rightarrow> bool" where
  "admin_approves x e (PgApprove a y) s = (y = x \<and> sd_Admin (fst s) = Some a \<and> authorized e a)"
| "admin_approves x e _ s = False"

interpretation approving: guarded_view "pgs_exec p" "\<lambda>s. is_approved s x" "admin_approves x" for p x
proof
  fix e c s s'
  assume "pgs_exec p e c s = Ok s'" "is_approved s' x \<noteq> is_approved s x"
  then show "admin_approves x e c s"
    by (cases s; cases c) (auto simp: is_approved_def pgs_init_def pgs_approve_plugin_def pgs_dispatch_def result_simps Let_def unwrap_or_def split: if_splits)
qed

text \<open>
  A dispatch that returns (\<^verbatim>\<open>unvalidated_plugin_call/src/secure.rs\<close>), after any run from a dispatcher without approvals, was signed by its actor and
  went to a plugin which the admin stored at that moment had approved, signing, in the run.
\<close>

theorem dispatch_to_approved:
  assumes "pgs_dispatch p e a n x (run_calls (pgs_exec p) xs s) = Ok t" and "sd_Approved (fst s) = Map.empty"
  shows "authorized e a \<and> (\<exists>ys e' b zs. xs = ys @ (e', PgApprove b x) # zs \<and> authorized e' b
           \<and> sd_Admin (fst (run_calls (pgs_exec p) ys s)) = Some b)"
proof -
  let ?t = "run_calls (pgs_exec p) xs s"
  have a: "authorized e a" "is_approved ?t x" using assms(1)
    by (auto simp: is_approved_def pgs_dispatch_def result_simps Let_def split: prod.splits)
  moreover have "\<not> is_approved s x" using assms(2) by (simp add: is_approved_def unwrap_or_def)
  ultimately obtain ys e' c zs where "xs = ys @ (e', c) # zs" "admin_approves x e' c (run_calls (pgs_exec p) ys s)"
    using approving.run_view [where x = x and p = p and xs = xs and s = s] by auto
  with a(1) show ?thesis by (cases c) auto
qed

theorem dispatch_to_approved_witness:
  "\<exists>ys e' b zs. [(signed_env [Address 1] 1, PgApprove (Address 1) (Address 7))] = ys @ (e', PgApprove b (Address 7)) # zs \<and> authorized e' b"
proof -
  let ?s = "(\<lparr>sd_Admin = Some (Address 1), sd_Approved = Map.empty, sd_CallCount = None\<rparr>, \<lparr>pg_ExecuteCount = None\<rparr>)"
  have "pgs_dispatch (\<lambda>x. plugin_execute) (signed_env [Address 4] 2) (Address 4) 5 (Address 7)
      (run_calls (pgs_exec (\<lambda>x. plugin_execute)) [(signed_env [Address 1] 1, PgApprove (Address 1) (Address 7))] ?s)
    = Ok (\<lparr>sd_Admin = Some (Address 1), sd_Approved = [Address 7 \<mapsto> True], sd_CallCount = Some 1\<rparr>, \<lparr>pg_ExecuteCount = Some 1\<rparr>)"
    by (simp add: pgs_dispatch_def pgs_approve_plugin_def plugin_execute_def signed_env_def unwrap_or_def checked_add_def in_range_def)
  from dispatch_to_approved [OF this] show ?thesis by auto
qed

lemma any_plugin_runs:
  assumes "authorized e a" and "pg_call_count s = 0" and "plugin_execute_count w = 0"
  shows "\<exists>s' w'. pg_dispatch (\<lambda>x. plugin_execute) e a n x (s, w) = Ok (s', w') \<and> plugin_execute_count w' = 1 \<and> dp_LastPlugin s' = Some x"
  using assms by (simp add: pg_dispatch_def pg_call_count_def plugin_execute_def plugin_execute_count_def unwrap_or_def checked_add_def in_range_def)

section \<open>cross\_call\_error\_swallowed\<close>

record credit_book =
  cr_CreditBalance :: "address \<rightharpoonup> int"
  cr_TransferFails :: "bool option"

definition er_initialize :: "credit_book \<Rightarrow> credit_book result" where
  "er_initialize s = Ok (s\<lparr>cr_TransferFails := Some False\<rparr>)"

definition er_set_transfer_fails :: "bool \<Rightarrow> credit_book \<Rightarrow> credit_book result" where
  "er_set_transfer_fails fails s = Ok (s\<lparr>cr_TransferFails := Some fails\<rparr>)"

definition er_do_token_transfer :: "credit_book \<Rightarrow> unit option" where
  "er_do_token_transfer s = (let fails = unwrap_or (cr_TransferFails s) False in if fails then None else Some ())"

definition er_deposit :: "env \<Rightarrow> address \<Rightarrow> int \<Rightarrow> credit_book \<Rightarrow> credit_book result" where
  "er_deposit e user amount s =
     require_auth e user (
     let _ = unwrap_or (er_do_token_transfer s) ();
         bal = get0 (cr_CreditBalance s) user in
     arith (checked_add I128 bal amount) (\<lambda>n. Ok (s\<lparr>cr_CreditBalance := (cr_CreditBalance s)(user \<mapsto> n)\<rparr>)))"

definition er_credit_balance :: "credit_book \<Rightarrow> address \<Rightarrow> int" where
  "er_credit_balance s user = get0 (cr_CreditBalance s) user"

definition ers_initialize :: "credit_book \<Rightarrow> credit_book result" where
  "ers_initialize s = Ok (s\<lparr>cr_TransferFails := Some False\<rparr>)"

definition ers_set_transfer_fails :: "bool \<Rightarrow> credit_book \<Rightarrow> credit_book result" where
  "ers_set_transfer_fails fails s = Ok (s\<lparr>cr_TransferFails := Some fails\<rparr>)"

definition ers_do_token_transfer :: "credit_book \<Rightarrow> unit option" where
  "ers_do_token_transfer s = (let fails = unwrap_or (cr_TransferFails s) False in if fails then None else Some ())"

definition ers_deposit :: "env \<Rightarrow> address \<Rightarrow> int \<Rightarrow> credit_book \<Rightarrow> credit_book result" where
  "ers_deposit e user amount s =
     require_auth e user (
     expect (ers_do_token_transfer s) ''token transfer failed'' (\<lambda>_.
     let bal = get0 (cr_CreditBalance s) user in
     arith (checked_add I128 bal amount) (\<lambda>n. Ok (s\<lparr>cr_CreditBalance := (cr_CreditBalance s)(user \<mapsto> n)\<rparr>))))"

definition ers_credit_balance :: "credit_book \<Rightarrow> address \<Rightarrow> int" where
  "ers_credit_balance s user = get0 (cr_CreditBalance s) user"

datatype credit_call = CrInitialize | CrSetFails bool | CrDeposit address int

fun er_exec :: "env \<Rightarrow> credit_call \<Rightarrow> credit_book \<Rightarrow> credit_book result" where
  "er_exec e CrInitialize s = er_initialize s"
| "er_exec e (CrSetFails b) s = er_set_transfer_fails b s"
| "er_exec e (CrDeposit a n) s = er_deposit e a n s"

fun ers_exec :: "env \<Rightarrow> credit_call \<Rightarrow> credit_book \<Rightarrow> credit_book result" where
  "ers_exec e CrInitialize s = ers_initialize s"
| "ers_exec e (CrSetFails b) s = ers_set_transfer_fails b s"
| "ers_exec e (CrDeposit a n) s = ers_deposit e a n s"

text \<open>What the token delivers in a call: the amount of a deposit made while its transfers work.\<close>

fun delivered :: "env \<Rightarrow> credit_call \<Rightarrow> credit_book \<Rightarrow> int" where
  "delivered e (CrDeposit a n) s = (if unwrap_or (cr_TransferFails s) False then 0 else n)"
| "delivered e _ s = 0"

fun credited :: "env \<Rightarrow> credit_call \<Rightarrow> credit_book \<Rightarrow> int" where
  "credited e (CrDeposit a n) s = n"
| "credited e _ s = 0"

lemma sum_bal_credit: "finite (dom m) \<Longrightarrow> sum_bal (m(a \<mapsto> get0 m a + n)) = sum_bal m + n"
  by (simp add: sum_bal_update)

interpretation ers_credit: conserved_flow ers_exec "\<lambda>s. finite (dom (cr_CreditBalance s))" "\<lambda>s. sum_bal (cr_CreditBalance s)" delivered
proof
  fix e c s s'
  assume fin: "finite (dom (cr_CreditBalance s))" and ok: "ers_exec e c s = Ok s'"
  then show "finite (dom (cr_CreditBalance s'))"
    by (cases c) (auto simp: ers_initialize_def ers_set_transfer_fails_def ers_deposit_def result_simps int_simps)
  from fin ok show "sum_bal (cr_CreditBalance s') = sum_bal (cr_CreditBalance s) + delivered e c s"
    by (cases c) (auto simp: ers_initialize_def ers_set_transfer_fails_def ers_deposit_def ers_do_token_transfer_def sum_bal_credit Let_def result_simps int_simps
        split: if_splits)
qed

interpretation er_credit: conserved_flow er_exec "\<lambda>s. finite (dom (cr_CreditBalance s))" "\<lambda>s. sum_bal (cr_CreditBalance s)" credited
proof
  fix e c s s'
  assume fin: "finite (dom (cr_CreditBalance s))" and ok: "er_exec e c s = Ok s'"
  then show "finite (dom (cr_CreditBalance s'))"
    by (cases c) (auto simp: er_initialize_def er_set_transfer_fails_def er_deposit_def result_simps int_simps)
  from fin ok show "sum_bal (cr_CreditBalance s') = sum_bal (cr_CreditBalance s) + credited e c s"
    by (cases c) (auto simp: er_initialize_def er_set_transfer_fails_def er_deposit_def sum_bal_credit Let_def result_simps int_simps)
qed

text \<open>
  Errors of the token (\<^verbatim>\<open>cross_call_error_swallowed\<close>): over a run the repaired book credits exactly what the token delivered; the original credits
  every deposit, so its credits exceed the deliveries by the deposits made while transfers fail.
\<close>

theorem credits_delivered:
  assumes "finite (dom (cr_CreditBalance s))"
  shows "sum_bal (cr_CreditBalance (run_calls ers_exec xs s)) = sum_bal (cr_CreditBalance s) + run_flow ers_exec delivered xs s
    \<and> sum_bal (cr_CreditBalance (run_calls er_exec xs s)) = sum_bal (cr_CreditBalance s) + run_flow er_exec delivered xs s
        + run_flow er_exec (\<lambda>e c s. credited e c s - delivered e c s) xs s"
  using ers_credit.run_conserves [OF assms, of xs] er_credit.run_conserves [OF assms, of xs]
    run_flow_diff [where f = er_exec and v = credited and w = delivered and xs = xs and s = s] by simp

theorem credits_delivered_witness:
  "sum_bal (cr_CreditBalance (run_calls ers_exec [(signed_env [Address 1] 1, CrDeposit (Address 1) 30), (signed_env [] 1, CrSetFails True),
      (signed_env [Address 1] 2, CrDeposit (Address 1) 500)] \<lparr>cr_CreditBalance = Map.empty, cr_TransferFails = None\<rparr>)) = 30"
  using credits_delivered [of "\<lparr>cr_CreditBalance = Map.empty, cr_TransferFails = None\<rparr>" "[(signed_env [Address 1] 1, CrDeposit (Address 1) 30), (signed_env [] 1, CrSetFails True),
      (signed_env [Address 1] 2, CrDeposit (Address 1) 500)]"]
  by (simp add: signed_env_def ers_deposit_def ers_set_transfer_fails_def ers_do_token_transfer_def unwrap_or_def checked_add_def in_range_def)

lemma failed_transfer_credited:
  assumes "cr_TransferFails s = Some True" and "authorized e a" and "in_range I128 (er_credit_balance s a + n)"
  shows "\<exists>s'. er_deposit e a n s = Ok s' \<and> er_credit_balance s' a = er_credit_balance s a + n"
    and "ers_deposit e a n s = Err (Panic ''token transfer failed'')"
  using assms by (simp_all add: er_deposit_def er_credit_balance_def ers_deposit_def ers_do_token_transfer_def unwrap_or_def checked_add_def)

end
