(* ===== verification/Ledger_Clocks.thy ===== *)
theory Ledger_Clocks
  imports Vesting_Variants
begin

text \<open>
  Crates about which clock counts: \<^verbatim>\<open>caller_supplied_ledger\<close> (the caller names the ledger), \<^verbatim>\<open>sequence_as_timestamp\<close> (ledgers taken for
  seconds) and \<^verbatim>\<open>vesting_cliff_after_end\<close> (an inconsistent schedule). Shown: releases follow the schedule of the deposit, a lock
  lasts as long as its deposit says, and every schedule that can be stored pays out.
\<close>

section \<open>caller\_supplied\_ledger\<close>

record release_vault =
  rl_Balance :: "address \<rightharpoonup> int"
  rl_DepositLedger :: "address \<rightharpoonup> int"
  rl_LockDuration :: "address \<rightharpoonup> int"
  rl_CliffDuration :: "address \<rightharpoonup> int"
  rl_Released :: "address \<rightharpoonup> int"

definition cl_deposit :: "env \<Rightarrow> address \<Rightarrow> int \<Rightarrow> int \<Rightarrow> int \<Rightarrow> release_vault \<Rightarrow> release_vault result" where
  "cl_deposit e user amount lock_duration cliff_duration s =
     require_auth e user (
     let current_balance = get0 (rl_Balance s) user in
     arith (checked_add I128 current_balance amount) (\<lambda>n.
     Ok (s\<lparr>rl_Balance := (rl_Balance s)(user \<mapsto> n),
           rl_DepositLedger := (rl_DepositLedger s)(user \<mapsto> sequence e),
           rl_LockDuration := (rl_LockDuration s)(user \<mapsto> lock_duration),
           rl_CliffDuration := (rl_CliffDuration s)(user \<mapsto> cliff_duration),
           rl_Released := (rl_Released s)(user \<mapsto> 0)\<rparr>)))"

definition cl_withdraw :: "env \<Rightarrow> address \<Rightarrow> int \<Rightarrow> int \<Rightarrow> release_vault \<Rightarrow> release_vault result" where
  "cl_withdraw e user amount current_ledger s =
     require_auth e user (
     expect (rl_Balance s user) ''no balance'' (\<lambda>balance.
     expect (rl_DepositLedger s user) ''no deposit'' (\<lambda>deposit_ledger.
     expect (rl_LockDuration s user) ''no lock duration'' (\<lambda>lock_duration.
     expect (rl_CliffDuration s user) ''no cliff duration'' (\<lambda>cliff_duration.
     let released = get0 (rl_Released s) user in
     arith (checked_add U32 deposit_ledger cliff_duration) (\<lambda>cliff_end.
     panic_if (current_ledger < cliff_end) ''still in cliff period'' (
     arith (checked_sub U32 current_ledger deposit_ledger) (\<lambda>elapsed.
     and_then (if elapsed \<ge> lock_duration then Ok balance
               else arith (checked_mul I128 elapsed balance) (\<lambda>scaled. arith (checked_div I128 scaled lock_duration) Ok)) (\<lambda>vested_amount.
     arith (checked_sub I128 vested_amount released) (\<lambda>withdrawable.
     panic_if (amount > withdrawable) ''insufficient vested amount'' (
     arith (checked_add I128 released amount) (\<lambda>r.
     let s1 = s\<lparr>rl_Released := (rl_Released s)(user \<mapsto> r)\<rparr> in
     arith (checked_sub I128 balance amount) (\<lambda>b.
     Ok (s1\<lparr>rl_Balance := (rl_Balance s1)(user \<mapsto> b)\<rparr>))))))))))))))"

definition cl_balance :: "release_vault \<Rightarrow> address \<Rightarrow> int" where
  "cl_balance s user = get0 (rl_Balance s) user"

definition cl_released :: "release_vault \<Rightarrow> address \<Rightarrow> int" where
  "cl_released s user = get0 (rl_Released s) user"

definition cl_deposit_ledger :: "release_vault \<Rightarrow> address \<Rightarrow> int option" where
  "cl_deposit_ledger s user = rl_DepositLedger s user"

definition cl_lock_duration :: "release_vault \<Rightarrow> address \<Rightarrow> int option" where
  "cl_lock_duration s user = rl_LockDuration s user"

definition cl_cliff_duration :: "release_vault \<Rightarrow> address \<Rightarrow> int option" where
  "cl_cliff_duration s user = rl_CliffDuration s user"

definition cls_deposit :: "env \<Rightarrow> address \<Rightarrow> int \<Rightarrow> int \<Rightarrow> int \<Rightarrow> release_vault \<Rightarrow> release_vault result" where
  "cls_deposit e user amount lock_duration cliff_duration s =
     require_auth e user (
     let current_balance = get0 (rl_Balance s) user in
     arith (checked_add I128 current_balance amount) (\<lambda>n.
     Ok (s\<lparr>rl_Balance := (rl_Balance s)(user \<mapsto> n),
           rl_DepositLedger := (rl_DepositLedger s)(user \<mapsto> sequence e),
           rl_LockDuration := (rl_LockDuration s)(user \<mapsto> lock_duration),
           rl_CliffDuration := (rl_CliffDuration s)(user \<mapsto> cliff_duration),
           rl_Released := (rl_Released s)(user \<mapsto> 0)\<rparr>)))"

definition cls_withdraw :: "env \<Rightarrow> address \<Rightarrow> int \<Rightarrow> release_vault \<Rightarrow> release_vault result" where
  "cls_withdraw e user amount s =
     require_auth e user (
     expect (rl_Balance s user) ''no balance'' (\<lambda>balance.
     expect (rl_DepositLedger s user) ''no deposit'' (\<lambda>deposit_ledger.
     expect (rl_LockDuration s user) ''no lock duration'' (\<lambda>lock_duration.
     expect (rl_CliffDuration s user) ''no cliff duration'' (\<lambda>cliff_duration.
     let released = get0 (rl_Released s) user;
         current_ledger = sequence e in
     arith (checked_add U32 deposit_ledger cliff_duration) (\<lambda>cliff_end.
     panic_if (current_ledger < cliff_end) ''still in cliff period'' (
     arith (checked_sub U32 current_ledger deposit_ledger) (\<lambda>elapsed.
     and_then (if elapsed \<ge> lock_duration then Ok balance
               else arith (checked_mul I128 elapsed balance) (\<lambda>scaled. arith (checked_div I128 scaled lock_duration) Ok)) (\<lambda>vested_amount.
     arith (checked_sub I128 vested_amount released) (\<lambda>withdrawable.
     panic_if (amount > withdrawable) ''insufficient vested amount'' (
     arith (checked_add I128 released amount) (\<lambda>r.
     let s1 = s\<lparr>rl_Released := (rl_Released s)(user \<mapsto> r)\<rparr> in
     arith (checked_sub I128 balance amount) (\<lambda>b.
     Ok (s1\<lparr>rl_Balance := (rl_Balance s1)(user \<mapsto> b)\<rparr>))))))))))))))"

definition cls_balance :: "release_vault \<Rightarrow> address \<Rightarrow> int" where
  "cls_balance s user = get0 (rl_Balance s) user"

definition cls_released :: "release_vault \<Rightarrow> address \<Rightarrow> int" where
  "cls_released s user = get0 (rl_Released s) user"

definition cls_deposit_ledger :: "release_vault \<Rightarrow> address \<Rightarrow> int option" where
  "cls_deposit_ledger s user = rl_DepositLedger s user"

definition cls_lock_duration :: "release_vault \<Rightarrow> address \<Rightarrow> int option" where
  "cls_lock_duration s user = rl_LockDuration s user"

definition cls_cliff_duration :: "release_vault \<Rightarrow> address \<Rightarrow> int option" where
  "cls_cliff_duration s user = rl_CliffDuration s user"

subsection \<open>The schedule of a deposit\<close>

definition share_after :: "int \<Rightarrow> int \<Rightarrow> int \<Rightarrow> int" where
  "share_after lock amount elapsed = (if elapsed \<ge> lock then amount else if elapsed \<le> 0 then 0 else elapsed * amount div lock)"

lemma share_after_le:
  assumes "0 \<le> n" and "0 \<le> k"
  shows "share_after k n t \<le> n"
proof (cases "0 < t \<and> t < k")
  case True
  then have "t * n div k \<le> k * n div k" using assms(1) by (intro zdiv_mono1 mult_right_mono) auto
  with True show ?thesis by (simp add: share_after_def)
qed (use assms in \<open>auto simp: share_after_def\<close>)

lemma share_after_mono:
  assumes "0 \<le> n" and "0 \<le> k" and "t \<le> u"
  shows "share_after k n t \<le> share_after k n u"
proof (cases "0 < t \<and> u < k")
  case True
  then have "t * n div k \<le> u * n div k" using assms by (intro zdiv_mono1 mult_right_mono) auto
  with True assms(3) show ?thesis by (simp add: share_after_def)
next
  case False
  have "0 \<le> u * n div k" if "0 < u" using that assms by (simp add: pos_imp_zdiv_nonneg_iff div_int_pos_iff)
  with False share_after_le [OF assms(1,2), of t] assms show ?thesis by (auto simp: share_after_def split: if_splits)
qed

lemma share_after_mono_amount:
  assumes "m \<le> n" and "0 \<le> k" and "0 \<le> m"
  shows "share_after k m t \<le> share_after k n t"
proof (cases "0 < t \<and> t < k")
  case True
  then have "t * m div k \<le> t * n div k" using assms by (intro zdiv_mono1 mult_left_mono) auto
  with True show ?thesis by (simp add: share_after_def)
qed (use assms in \<open>auto simp: share_after_def\<close>)

lemma cls_withdraw_Ok:
  assumes "cls_withdraw e a n s = Ok s'" and "rl_Balance s a = Some b" and "0 \<le> b" and "rl_DepositLedger s a = Some d" and "rl_LockDuration s a = Some k"
    and "rl_CliffDuration s a = Some c" and "0 \<le> c"
  shows "authorized e a \<and> d + c \<le> sequence e \<and> cls_released s a + n \<le> share_after k b (sequence e - d)
    \<and> s' = s\<lparr>rl_Released := (rl_Released s)(a \<mapsto> cls_released s a + n), rl_Balance := (rl_Balance s)(a \<mapsto> b - n)\<rparr>"
proof -
  have "(sequence e - d) * b sdiv k = (sequence e - d) * b div k" if "sequence e - d < k" "d + c \<le> sequence e"
    using that assms(3,7) by (intro sdiv_nonneg_eq) auto
  moreover have "(sequence e - d) * b div k = 0" if "sequence e \<le> d" "d + c \<le> sequence e"
  proof -
    have "sequence e = d" using that assms(7) by simp
    then show ?thesis by simp
  qed
  ultimately show ?thesis
    using assms by (auto simp: cls_withdraw_def share_after_def cls_released_def result_simps int_simps Let_def split: if_splits)
qed

definition withdraw_exec :: "env \<Rightarrow> address \<times> nat \<Rightarrow> release_vault \<Rightarrow> release_vault result" where
  "withdraw_exec e = (\<lambda>(a, n). cls_withdraw e a (int n))"

lemma cls_other: "cls_withdraw e b n s = Ok s' \<Longrightarrow> a \<noteq> b \<Longrightarrow> rl_Released s' a = rl_Released s a \<and> rl_Balance s' a = rl_Balance s a"
  by (auto simp: cls_withdraw_def result_simps Let_def)

lemma cls_terms: "cls_withdraw e b n s = Ok s' \<Longrightarrow> rl_DepositLedger s' = rl_DepositLedger s \<and> rl_LockDuration s' = rl_LockDuration s \<and> rl_CliffDuration s' = rl_CliffDuration s"
  by (auto simp: cls_withdraw_def result_simps Let_def)

text \<open>The deposit of \<^verbatim>\<open>n\<close> made at ledger \<^verbatim>\<open>d\<close> with lock \<^verbatim>\<open>k\<close> and cliff \<^verbatim>\<open>c\<close>, and what has been released of it by ledger \<^verbatim>\<open>T\<close>.\<close>

definition on_schedule :: "address \<Rightarrow> int \<Rightarrow> int \<Rightarrow> int \<Rightarrow> int \<Rightarrow> int \<Rightarrow> release_vault \<Rightarrow> bool" where
  "on_schedule a n d k c T s \<longleftrightarrow> rl_DepositLedger s a = Some d \<and> rl_LockDuration s a = Some k \<and> rl_CliffDuration s a = Some c
     \<and> rl_Balance s a = Some (n - cls_released s a) \<and> 0 \<le> cls_released s a \<and> cls_released s a \<le> n
     \<and> cls_released s a \<le> share_after k n (T - d) \<and> (0 < cls_released s a \<longrightarrow> d + c \<le> T) \<and> 0 \<le> k \<and> 0 \<le> c"

lemma on_schedule_step:
  assumes inv: "on_schedule a n d k c T s" and ok: "cls_withdraw e b (int m) s = Ok s'" and T: "T \<le> sequence e"
  shows "on_schedule a n d k c (sequence e) s'"
proof (cases "b = a")
  case False
  have "share_after k n (T - d) \<le> share_after k n (sequence e - d)"
    using inv T by (intro share_after_mono) (auto simp: on_schedule_def)
  with inv T cls_other [OF ok] cls_terms [OF ok] False show ?thesis by (auto simp: on_schedule_def cls_released_def get0_def)
next
  case True
  let ?r = "cls_released s a"
  have s': "d + c \<le> sequence e" "?r + int m \<le> share_after k (n - ?r) (sequence e - d)"
    "cls_released s' a = ?r + int m" "rl_Balance s' a = Some (n - (?r + int m))"
    using cls_withdraw_Ok [OF ok [unfolded True], of "n - ?r" d k c] inv by (auto simp: on_schedule_def cls_released_def)
  moreover have "share_after k (n - ?r) (sequence e - d) \<le> share_after k n (sequence e - d)"
    "share_after k n (sequence e - d) \<le> n"
    using inv by (auto simp: on_schedule_def intro!: share_after_mono_amount share_after_le)
  ultimately show ?thesis using inv cls_terms [OF ok] by (auto simp: on_schedule_def)
qed

interpretation releases: timed_invariant withdraw_exec "on_schedule a n d k c" for a n d k c
proof
  fix T T' s
  assume inv: "on_schedule a n d k c T s" and T: "T \<le> T'"
  have "share_after k n (T - d) \<le> share_after k n (T' - d)"
    using inv T by (intro share_after_mono) (auto simp: on_schedule_def)
  with inv T show "on_schedule a n d k c T' s" by (auto simp: on_schedule_def)
next
  fix T s e c' s'
  assume "on_schedule a n d k c T s" "T \<le> sequence e" "withdraw_exec e c' s = Ok s'"
  then show "on_schedule a n d k c (sequence e) s'"
    by (cases c') (auto simp: withdraw_exec_def intro: on_schedule_step)
qed

text \<open>
  C38: Releases by the ledger's own clock (\<^verbatim>\<open>caller_supplied_ledger/src/secure.rs\<close>): after a signed deposit into an empty account, whatever
  withdrawals of non-negative amounts anybody makes by ledger \<^verbatim>\<open>T\<close>, what the depositor has got is nothing before the cliff, at most the elapsed share of
  the deposit before the end of the lock and at most the deposit after it; and it is what the balance has lost.
\<close>

theorem releases_follow_ledger:
  assumes "cls_deposit e a n k c s = Ok s1" and "cls_balance s a = 0" and "0 \<le> n" and "0 \<le> k" and "0 \<le> c"
    and "reach_by withdraw_exec s1 T t"
  shows "cls_released t a \<le> share_after k n (T - sequence e) \<and> (T < sequence e + c \<longrightarrow> cls_released t a = 0)
    \<and> cls_balance t a = n - cls_released t a \<and> 0 \<le> cls_released t a \<and> cls_released t a \<le> n"
proof -
  have "0 \<le> share_after k n (T - sequence e)" for T
    using assms(3,4) by (auto simp: share_after_def pos_imp_zdiv_nonneg_iff)
  then have "on_schedule a n (sequence e) k c T s1" for T
    using assms(1-5) by (auto simp: on_schedule_def cls_deposit_def cls_balance_def cls_released_def result_simps int_simps)
  from releases.reach_by_inv [OF assms(6), of a n "sequence e" k c, OF this]
  show ?thesis by (auto simp: on_schedule_def cls_balance_def get0_def)
qed

definition release_demo :: release_vault where
  "release_demo = \<lparr>rl_Balance = [Address 1 \<mapsto> 1000], rl_DepositLedger = [Address 1 \<mapsto> 100], rl_LockDuration = [Address 1 \<mapsto> 50],
     rl_CliffDuration = [Address 1 \<mapsto> 10], rl_Released = [Address 1 \<mapsto> 0]\<rparr>"

definition release_empty :: release_vault where
  "release_empty = \<lparr>rl_Balance = Map.empty, rl_DepositLedger = Map.empty, rl_LockDuration = Map.empty, rl_CliffDuration = Map.empty, rl_Released = Map.empty\<rparr>"

theorem releases_follow_ledger_witness:
  "\<exists>t. withdraw_exec (signed_env [Address 1] 120) (Address 1, 400) release_demo = Ok t \<and> cls_released t (Address 1) = 400
     \<and> cls_released t (Address 1) \<le> share_after 50 1000 20"
proof -
  let ?e = "signed_env [Address 1] 120"
  let ?t = "release_demo\<lparr>rl_Released := [Address 1 \<mapsto> 400], rl_Balance := [Address 1 \<mapsto> 600]\<rparr>"
  have dep: "cls_deposit (signed_env [Address 1] 100) (Address 1) 1000 50 10 release_empty = Ok release_demo"
    by (simp add: cls_deposit_def release_empty_def release_demo_def signed_env_def checked_add_def in_range_def)
  have wd: "withdraw_exec ?e (Address 1, 400) release_demo = Ok ?t"
    by (simp add: withdraw_exec_def cls_withdraw_def release_demo_def signed_env_def checked_ops in_range_def sdiv_nonneg_eq)
  have "reach_by withdraw_exec release_demo 120 ?t"
    using by_call [OF by_start [of _ _ 100], of ?e] wd by (simp add: signed_env_def)
  from releases_follow_ledger [OF dep _ _ _ _ this] wd show ?thesis
    by (simp add: release_empty_def cls_balance_def cls_released_def signed_env_def)
qed

text \<open>The released amount is subtracted twice, from the balance and from the share of it: once half has been taken, the rest is stuck.\<close>

lemma half_withdrawn_rest_stuck:
  assumes "rl_Balance s a = Some b" and "0 \<le> b" and "b \<le> cls_released s a" and "0 < n" and "rl_DepositLedger s a = Some d" and "rl_LockDuration s a = Some k"
    and "0 \<le> k" and "rl_CliffDuration s a = Some c" and "0 \<le> c"
  shows "\<exists>x. cls_withdraw e a n s = Err x"
proof (cases "cls_withdraw e a n s")
  case (Inr s')
  from cls_withdraw_Ok [OF this assms(1,2,5,6,8,9)] share_after_le [OF assms(2,7), of "sequence e - d"] assms(3,4) show ?thesis by simp
qed simp

lemma caller_names_ledger:
  "cl_withdraw (signed_env [Address 1] 100) (Address 1) 1000 150 release_demo
     = Ok (release_demo\<lparr>rl_Released := [Address 1 \<mapsto> 1000], rl_Balance := [Address 1 \<mapsto> 0]\<rparr>)"
  by (simp add: cl_withdraw_def release_demo_def signed_env_def checked_ops in_range_def)

lemma same_at_true_ledger: "cl_withdraw e a n (sequence e) s = cls_withdraw e a n s"
  by (simp add: cl_withdraw_def cls_withdraw_def Let_def)

lemma negative_withdrawal_creates:
  "cls_withdraw (signed_env [Address 1] 120) (Address 1) (- 5000) release_demo
     = Ok (release_demo\<lparr>rl_Released := [Address 1 \<mapsto> - 5000], rl_Balance := [Address 1 \<mapsto> 6000]\<rparr>)"
  by (simp add: cls_withdraw_def release_demo_def signed_env_def checked_ops in_range_def sdiv_nonneg_eq)

section \<open>sequence\_as\_timestamp\<close>

record timed_vault =
  tm_Balance :: "address \<rightharpoonup> int"
  tm_UnlockSequence :: "address \<rightharpoonup> int"

definition qt_deposit :: "env \<Rightarrow> address \<Rightarrow> int \<Rightarrow> int \<Rightarrow> timed_vault \<Rightarrow> timed_vault result" where
  "qt_deposit e user amount duration_seconds s =
     require_auth e user (
     let current_balance = get0 (tm_Balance s) user in
     arith (checked_add I128 current_balance amount) (\<lambda>n.
     let s1 = s\<lparr>tm_Balance := (tm_Balance s)(user \<mapsto> n)\<rparr> in
     arith (checked_add U32 (sequence e) duration_seconds) (\<lambda>unlock_sequence.
     Ok (s1\<lparr>tm_UnlockSequence := (tm_UnlockSequence s1)(user \<mapsto> unlock_sequence)\<rparr>))))"

definition qt_withdraw :: "env \<Rightarrow> address \<Rightarrow> timed_vault \<Rightarrow> timed_vault result" where
  "qt_withdraw e user s =
     require_auth e user (
     expect (tm_UnlockSequence s user) ''unlock not set'' (\<lambda>unlock_sequence.
     panic_if (sequence e < unlock_sequence) ''still locked'' (
     let s1 = s\<lparr>tm_Balance := (tm_Balance s)(user \<mapsto> 0)\<rparr> in
     Ok (s1\<lparr>tm_UnlockSequence := (tm_UnlockSequence s1)(user := None)\<rparr>))))"

definition qt_balance :: "timed_vault \<Rightarrow> address \<Rightarrow> int" where
  "qt_balance s user = get0 (tm_Balance s) user"

definition qt_unlock_sequence :: "timed_vault \<Rightarrow> address \<Rightarrow> int option" where
  "qt_unlock_sequence s user = tm_UnlockSequence s user"

definition qts_deposit :: "env \<Rightarrow> address \<Rightarrow> int \<Rightarrow> int \<Rightarrow> timed_vault \<Rightarrow> timed_vault result" where
  "qts_deposit e user amount duration_seconds s =
     require_auth e user (
     let current_balance = get0 (tm_Balance s) user in
     arith (checked_add I128 current_balance amount) (\<lambda>n.
     let s1 = s\<lparr>tm_Balance := (tm_Balance s)(user \<mapsto> n)\<rparr> in
     arith (checked_add U64 (timestamp e) duration_seconds) (\<lambda>unlock_timestamp.
     Ok (s1\<lparr>tm_UnlockSequence := (tm_UnlockSequence s1)(user \<mapsto> unlock_timestamp)\<rparr>))))"

definition qts_withdraw :: "env \<Rightarrow> address \<Rightarrow> timed_vault \<Rightarrow> timed_vault result" where
  "qts_withdraw e user s =
     require_auth e user (
     expect (tm_UnlockSequence s user) ''unlock not set'' (\<lambda>unlock_timestamp.
     panic_if (timestamp e < unlock_timestamp) ''still locked'' (
     let s1 = s\<lparr>tm_Balance := (tm_Balance s)(user \<mapsto> 0)\<rparr> in
     Ok (s1\<lparr>tm_UnlockSequence := (tm_UnlockSequence s1)(user := None)\<rparr>))))"

definition qts_balance :: "timed_vault \<Rightarrow> address \<Rightarrow> int" where
  "qts_balance s user = get0 (tm_Balance s) user"

definition qts_unlock_timestamp :: "timed_vault \<Rightarrow> address \<Rightarrow> int option" where
  "qts_unlock_timestamp s user = tm_UnlockSequence s user"

datatype timed_call = TDeposit address int int | TWithdraw address

fun qt_exec :: "env \<Rightarrow> timed_call \<Rightarrow> timed_vault \<Rightarrow> timed_vault result" where
  "qt_exec e (TDeposit a n k) s = qt_deposit e a n k s"
| "qt_exec e (TWithdraw a) s = qt_withdraw e a s"

fun qts_exec :: "env \<Rightarrow> timed_call \<Rightarrow> timed_vault \<Rightarrow> timed_vault result" where
  "qts_exec e (TDeposit a n k) s = qts_deposit e a n k s"
| "qts_exec e (TWithdraw a) s = qts_withdraw e a s"

text \<open>
  Both halves record the deposit's unlock by some clock and let the account be emptied once that clock shows it; the locale holds what
  follows for any clock.
\<close>

locale clock_lock =
  fixes exec :: "env \<Rightarrow> timed_call \<Rightarrow> timed_vault \<Rightarrow> timed_vault result" and clock :: "env \<Rightarrow> int"
  assumes deposit_sets: "exec e (TDeposit a n k) s = Ok s' \<Longrightarrow> authorized e a \<and> tm_UnlockSequence s' = (tm_UnlockSequence s)(a \<mapsto> clock e + k)"
    and withdraw_due: "exec e (TWithdraw a) s = Ok s' \<Longrightarrow> authorized e a \<and> (\<exists>u. tm_UnlockSequence s a = Some u \<and> u \<le> clock e)
      \<and> tm_UnlockSequence s' = (tm_UnlockSequence s)(a := None)"
begin

fun sets_unlock :: "address \<Rightarrow> env \<Rightarrow> timed_call \<Rightarrow> timed_vault \<Rightarrow> int option \<Rightarrow> bool" where
  "sets_unlock a e (TDeposit b n k) s v = (b = a \<and> authorized e a \<and> v = Some (clock e + k))"
| "sets_unlock a e (TWithdraw b) s v = (b = a \<and> v = None)"

end

sublocale clock_lock \<subseteq> unlocks: written_view exec "\<lambda>s. tm_UnlockSequence s a" "sets_unlock a" for a
proof
  fix e c s s'
  assume ok: "exec e c s = Ok s'" and ne: "tm_UnlockSequence s' a \<noteq> tm_UnlockSequence s a"
  show "sets_unlock a e c s (tm_UnlockSequence s' a)"
    using ne ok by (cases c) (auto dest!: deposit_sets withdraw_due split: if_splits)
qed

context clock_lock
begin

lemma withdraw_after_term:
  assumes "exec e (TWithdraw a) (run_calls exec xs s) = Ok t" and "tm_UnlockSequence s a = None"
  shows "authorized e a \<and> (\<exists>ys e' n k zs. xs = ys @ (e', TDeposit a n k) # zs \<and> authorized e' a \<and> clock e' + k \<le> clock e)"
proof -
  obtain u where u: "tm_UnlockSequence (run_calls exec xs s) a = Some u" "u \<le> clock e" "authorized e a"
    using withdraw_due [OF assms(1)] by blast
  with assms(2) obtain ys e' c zs where w: "xs = ys @ (e', c) # zs" "sets_unlock a e' c (run_calls exec ys s) (Some u)"
    using unlocks.run_writes [of xs s a] by auto
  then obtain n k where "c = TDeposit a n k" "authorized e' a" "u = clock e' + k" by (cases c) auto
  with u w show ?thesis by blast
qed

end

interpretation qt: clock_lock qt_exec sequence
  by unfold_locales (auto simp: qt_deposit_def qt_withdraw_def result_simps int_simps Let_def)

interpretation qts: clock_lock qts_exec timestamp
  by unfold_locales (auto simp: qts_deposit_def qts_withdraw_def result_simps int_simps Let_def)

text \<open>
  Locks in seconds (\<^verbatim>\<open>sequence_as_timestamp\<close>): in the repaired vault an account that is emptied after a run was locked by a signed deposit
  of the run at least its duration in seconds before. The original counts ledgers: when a ledger closes every \<^verbatim>\<open>p\<close> seconds, its lock lasts
  \<^verbatim>\<open>p\<close> times as many seconds.
\<close>

theorem lock_lasts_its_seconds:
  "(qts_withdraw e a (run_calls qts_exec xs s) = Ok t \<and> tm_UnlockSequence s a = None
     \<longrightarrow> (\<exists>ys e' n k zs. xs = ys @ (e', TDeposit a n k) # zs \<and> authorized e' a \<and> timestamp e' + k \<le> timestamp e))
   \<and> (qt_withdraw e a (run_calls qt_exec xs s) = Ok t \<and> tm_UnlockSequence s a = None \<and> 0 \<le> p
       \<and> timestamp e = p * sequence e \<and> (\<forall>(e', c)\<in>set xs. timestamp e' = p * sequence e')
     \<longrightarrow> (\<exists>ys e' n k zs. xs = ys @ (e', TDeposit a n k) # zs \<and> authorized e' a \<and> timestamp e' + p * k \<le> timestamp e))"
proof (intro conjI impI; elim conjE)
  assume "qts_withdraw e a (run_calls qts_exec xs s) = Ok t" "tm_UnlockSequence s a = None"
  then show "\<exists>ys e' n k zs. xs = ys @ (e', TDeposit a n k) # zs \<and> authorized e' a \<and> timestamp e' + k \<le> timestamp e"
    using qts.withdraw_after_term [of e a xs s t] by simp
next
  assume w: "qt_withdraw e a (run_calls qt_exec xs s) = Ok t" "tm_UnlockSequence s a = None"
    and p: "0 \<le> p" "timestamp e = p * sequence e" "\<forall>(e', c)\<in>set xs. timestamp e' = p * sequence e'"
  from w obtain ys e' n k zs where d: "xs = ys @ (e', TDeposit a n k) # zs" "authorized e' a" "sequence e' + k \<le> sequence e"
    using qt.withdraw_after_term [of e a xs s t] by auto
  have "p * (sequence e' + k) \<le> p * sequence e" using d(3) p(1) by (rule mult_left_mono)
  moreover have "timestamp e' = p * sequence e'" using p(3) d(1) by auto
  ultimately have "timestamp e' + p * k \<le> timestamp e" using p(2) by (simp add: algebra_simps)
  with d show "\<exists>ys e' n k zs. xs = ys @ (e', TDeposit a n k) # zs \<and> authorized e' a \<and> timestamp e' + p * k \<le> timestamp e" by blast
qed

theorem lock_lasts_its_seconds_witness:
  "\<exists>ys e' n k zs. [(signed_env [Address 1] 10, TDeposit (Address 1) 7 60)] = ys @ (e', TDeposit (Address 1) n k) # zs
     \<and> timestamp e' + k \<le> 110"
proof -
  have "qts_withdraw (signed_env [Address 1] 22) (Address 1) (run_calls qts_exec [(signed_env [Address 1] 10, TDeposit (Address 1) 7 60)]
      \<lparr>tm_Balance = Map.empty, tm_UnlockSequence = Map.empty\<rparr>) = Ok \<lparr>tm_Balance = [Address 1 \<mapsto> 0], tm_UnlockSequence = Map.empty\<rparr>"
    by (simp add: qts_withdraw_def qts_deposit_def signed_env_def checked_add_def in_range_def)
  with lock_lasts_its_seconds [where e = "signed_env [Address 1] 22" and a = "Address 1"
      and xs = "[(signed_env [Address 1] 10, TDeposit (Address 1) 7 60)]" and s = "\<lparr>tm_Balance = Map.empty, tm_UnlockSequence = Map.empty\<rparr>"]
  show ?thesis by (fastforce simp: signed_env_def)
qed

lemma second_deposit_unlocks:
  "\<exists>t. qts_withdraw (signed_env [Address 1] 11) (Address 1) (run_calls qts_exec [(signed_env [Address 1] 10, TDeposit (Address 1) 7 6000),
      (signed_env [Address 1] 11, TDeposit (Address 1) 0 0)] \<lparr>tm_Balance = Map.empty, tm_UnlockSequence = Map.empty\<rparr>) = Ok t"
  by (simp add: qts_withdraw_def qts_deposit_def signed_env_def checked_add_def in_range_def)

section \<open>vesting\_cliff\_after\_end\<close>

record cliff_schedule =
  cs_total :: int
  cs_claimed :: int
  cs_start_ledger :: int
  cs_cliff_ledger :: int
  cs_end_ledger :: int

record cliff_store =
  cst_Schedule :: "address \<rightharpoonup> cliff_schedule"

text \<open>The release between cliff and end is that of the other vesting crates.\<close>

definition ce_vested_for_schedule :: "env \<Rightarrow> cliff_schedule \<Rightarrow> int result" where
  "ce_vested_for_schedule e schedule =
     linear_release (sequence e) (cs_cliff_ledger schedule) (cs_end_ledger schedule) (cs_total schedule)"

definition ce_initialize :: "env \<Rightarrow> address \<Rightarrow> int \<Rightarrow> int \<Rightarrow> int \<Rightarrow> int \<Rightarrow> cliff_store \<Rightarrow> cliff_store result" where
  "ce_initialize e beneficiary total_amount start_ledger cliff_ledger end_ledger s =
     (let schedule = \<lparr>cs_total = total_amount, cs_claimed = 0, cs_start_ledger = start_ledger, cs_cliff_ledger = cliff_ledger, cs_end_ledger = end_ledger\<rparr> in
      Ok (s\<lparr>cst_Schedule := (cst_Schedule s)(beneficiary \<mapsto> schedule)\<rparr>))"

definition ce_claim :: "env \<Rightarrow> address \<Rightarrow> cliff_store \<Rightarrow> (int \<times> cliff_store) result" where
  "ce_claim e beneficiary s =
     require_auth e beneficiary (
     expect (cst_Schedule s beneficiary) ''schedule not found'' (\<lambda>schedule.
     and_then (ce_vested_for_schedule e schedule) (\<lambda>vested.
     ensure (vested > cs_claimed schedule) ''nothing claimable'' (
     arith (checked_sub I128 vested (cs_claimed schedule)) (\<lambda>claimable.
     Ok (claimable, s\<lparr>cst_Schedule := (cst_Schedule s)(beneficiary \<mapsto> schedule\<lparr>cs_claimed := vested\<rparr>)\<rparr>))))))"

definition ce_vested_amount :: "env \<Rightarrow> address \<Rightarrow> cliff_store \<Rightarrow> int result" where
  "ce_vested_amount e beneficiary s =
     expect (cst_Schedule s beneficiary) ''schedule not found'' (\<lambda>schedule. ce_vested_for_schedule e schedule)"

definition ces_vested_for_schedule :: "env \<Rightarrow> cliff_schedule \<Rightarrow> int result" where
  "ces_vested_for_schedule e schedule =
     linear_release (sequence e) (cs_cliff_ledger schedule) (cs_end_ledger schedule) (cs_total schedule)"

definition ces_initialize :: "env \<Rightarrow> address \<Rightarrow> int \<Rightarrow> int \<Rightarrow> int \<Rightarrow> int \<Rightarrow> cliff_store \<Rightarrow> cliff_store result" where
  "ces_initialize e beneficiary total_amount start_ledger cliff_ledger end_ledger s =
     ensure (total_amount > 0) ''total must be positive'' (
     ensure (start_ledger \<le> cliff_ledger) ''invalid schedule'' (
     ensure (cliff_ledger \<le> end_ledger) ''invalid schedule'' (
     ensure (start_ledger < end_ledger) ''invalid schedule'' (
     ensure (cst_Schedule s beneficiary = None) ''schedule already exists'' (
     let schedule = \<lparr>cs_total = total_amount, cs_claimed = 0, cs_start_ledger = start_ledger, cs_cliff_ledger = cliff_ledger, cs_end_ledger = end_ledger\<rparr> in
     Ok (s\<lparr>cst_Schedule := (cst_Schedule s)(beneficiary \<mapsto> schedule)\<rparr>))))))"

definition ces_claim :: "env \<Rightarrow> address \<Rightarrow> cliff_store \<Rightarrow> (int \<times> cliff_store) result" where
  "ces_claim e beneficiary s =
     require_auth e beneficiary (
     expect (cst_Schedule s beneficiary) ''schedule not found'' (\<lambda>schedule.
     and_then (ces_vested_for_schedule e schedule) (\<lambda>vested.
     ensure (vested > cs_claimed schedule) ''nothing claimable'' (
     arith (checked_sub I128 vested (cs_claimed schedule)) (\<lambda>claimable.
     Ok (claimable, s\<lparr>cst_Schedule := (cst_Schedule s)(beneficiary \<mapsto> schedule\<lparr>cs_claimed := vested\<rparr>)\<rparr>))))))"

definition ces_vested_amount :: "env \<Rightarrow> address \<Rightarrow> cliff_store \<Rightarrow> int result" where
  "ces_vested_amount e beneficiary s =
     expect (cst_Schedule s beneficiary) ''schedule not found'' (\<lambda>schedule. ces_vested_for_schedule e schedule)"

datatype cliff_call = CInitialize address int int int int | CClaim address

fun ces_exec :: "env \<Rightarrow> cliff_call \<Rightarrow> cliff_store \<Rightarrow> cliff_store result" where
  "ces_exec e (CInitialize a n b c d) s = ces_initialize e a n b c d s"
| "ces_exec e (CClaim a) s = state_of (ces_claim e a s)"

fun cliff_typed :: "env \<Rightarrow> cliff_call \<Rightarrow> bool" where
  "cliff_typed e (CInitialize a n b c d) = (in_range I128 n \<and> in_range U32 b \<and> in_range U32 c \<and> in_range U32 d)"
| "cliff_typed e (CClaim a) = True"

definition cliff_wf :: "cliff_store \<Rightarrow> bool" where
  "cliff_wf s \<longleftrightarrow> (\<forall>a p. cst_Schedule s a = Some p \<longrightarrow> 0 < cs_total p \<and> in_range I128 (cs_total p)
     \<and> cs_start_ledger p \<le> cs_cliff_ledger p \<and> cs_cliff_ledger p \<le> cs_end_ledger p \<and> cs_start_ledger p < cs_end_ledger p
     \<and> 0 \<le> cs_claimed p \<and> cs_claimed p \<le> cs_total p)"

interpretation schedules_wf: restricted_invariant ces_exec cliff_wf cliff_typed
proof
  fix s e c s'
  assume wf: "cliff_wf s" and ty: "cliff_typed e c" and ok: "ces_exec e c s = Ok s'"
  show "cliff_wf s'"
  proof (cases c)
    case (CInitialize a n b c d)
    with wf ty ok show ?thesis by (auto simp: cliff_wf_def ces_initialize_def result_simps split: if_splits)
  next
    case (CClaim a)
    with ok obtain p v where p: "cst_Schedule s a = Some p" "ces_vested_for_schedule e p = Ok v" "cs_claimed p < v"
      "s' = s\<lparr>cst_Schedule := (cst_Schedule s)(a \<mapsto> p\<lparr>cs_claimed := v\<rparr>)\<rparr>"
      by (auto simp: ces_claim_def result_simps)
    then have "v \<le> cs_total p" "0 \<le> v" using linear_release_le [of "sequence e"] wf
      by (fastforce simp: ces_vested_for_schedule_def cliff_wf_def)+
    with p wf show ?thesis by (auto simp: cliff_wf_def split: if_splits)
  qed
qed

definition cliff_paid :: "address \<Rightarrow> cliff_store \<Rightarrow> int" where
  "cliff_paid a s = (case cst_Schedule s a of None \<Rightarrow> 0 | Some p \<Rightarrow> cs_claimed p)"

definition cliff_limit :: "address \<Rightarrow> cliff_store \<Rightarrow> int" where
  "cliff_limit a s = (case cst_Schedule s a of None \<Rightarrow> 0 | Some p \<Rightarrow> max 0 (cs_total p))"

interpretation cliff_claims: recorded_claims "\<lambda>e. ces_claim e a" "cliff_paid a" "cliff_limit a" for a
proof (unfold_locales, goal_cases)
  case (3 e s r s')
  then show ?case
    by (auto simp: ces_claim_def ces_vested_for_schedule_def cliff_paid_def cliff_limit_def result_simps
        int_simps dest: linear_release_le)
qed (auto simp: ces_claim_def cliff_paid_def cliff_limit_def result_simps int_simps)

text \<open>
  Consistent schedules (\<^verbatim>\<open>vesting_cliff_after_end/src/secure.rs\<close>): after any run of calls with arguments of their types, every stored schedule has its
  cliff within its term, what was claimed is within the total, and from its end on the beneficiary's next claim pays exactly the rest; any number of claims
  never pays more than it.
\<close>

theorem schedules_pay_out:
  assumes "\<forall>(e, c)\<in>set xs. cliff_typed e c" and "cst_Schedule (run_calls ces_exec xs \<lparr>cst_Schedule = Map.empty\<rparr>) a = Some p"
  shows "cs_cliff_ledger p \<le> cs_end_ledger p \<and> 0 \<le> cs_claimed p \<and> cs_claimed p \<le> cs_total p
    \<and> (authorized e a \<and> cs_end_ledger p \<le> sequence e \<and> cs_claimed p < cs_total p
       \<longrightarrow> (\<exists>s'. ces_claim e a (run_calls ces_exec xs \<lparr>cst_Schedule = Map.empty\<rparr>) = Ok (cs_total p - cs_claimed p, s')))
    \<and> (claim_repeatedly (\<lambda>e. ces_claim e a) es (run_calls ces_exec xs \<lparr>cst_Schedule = Map.empty\<rparr>) = Ok (r, t) \<longrightarrow> r \<le> cs_total p - cs_claimed p)"
proof -
  let ?s = "run_calls ces_exec xs \<lparr>cst_Schedule = Map.empty\<rparr>"
  have "cliff_wf ?s" by (rule schedules_wf.run_inv [OF _ assms(1)]) (simp add: cliff_wf_def)
  with assms(2) have p: "0 < cs_total p" "in_range I128 (cs_total p)" "cs_cliff_ledger p \<le> cs_end_ledger p" "0 \<le> cs_claimed p" "cs_claimed p \<le> cs_total p"
    by (auto simp: cliff_wf_def)
  have "in_range I128 (cs_total p - cs_claimed p)" using p by (auto simp: in_range_def)
  then have "\<exists>s'. ces_claim e a ?s = Ok (cs_total p - cs_claimed p, s')"
    if "authorized e a" "cs_end_ledger p \<le> sequence e" "cs_claimed p < cs_total p"
    using that assms(2) p(3) by (simp add: ces_claim_def ces_vested_for_schedule_def linear_release_def checked_sub_def)
  moreover have "r \<le> cs_total p - cs_claimed p" if "claim_repeatedly (\<lambda>e. ces_claim e a) es ?s = Ok (r, t)"
    using cliff_claims.never_overpaid [OF that] assms(2) p by (simp add: cliff_paid_def cliff_limit_def)
  ultimately show ?thesis using p by blast
qed

theorem schedules_pay_out_witness:
  "\<exists>s'. ces_claim (signed_env [Address 1] 30) (Address 1) (run_calls ces_exec [(signed_env [] 1, CInitialize (Address 1) 90 5 10 20)] \<lparr>cst_Schedule = Map.empty\<rparr>)
     = Ok (90, s')"
  using schedules_pay_out [of "[(signed_env [] 1, CInitialize (Address 1) 90 5 10 20)]" "Address 1"
      "\<lparr>cs_total = 90, cs_claimed = 0, cs_start_ledger = 5, cs_cliff_ledger = 10, cs_end_ledger = 20\<rparr>" "signed_env [Address 1] 30"]
  by (simp add: ces_initialize_def signed_env_def in_range_def)

text \<open>With the cliff behind the end nothing is vested at the end, and everything at once at the cliff.\<close>

lemma cliff_after_end_withholds:
  assumes "cst_Schedule s a = Some p" and "cs_end_ledger p \<le> cs_cliff_ledger p"
  shows "ce_vested_amount e a s = Ok (if sequence e < cs_cliff_ledger p then 0 else cs_total p)"
  using assms by (simp add: ce_vested_amount_def ce_vested_for_schedule_def linear_release_def)

lemma schedule_overwritten:
  assumes "cst_Schedule s a = Some p" and "cs_claimed p = cs_total p" and "cs_total p = n" and "0 < n" and "in_range I128 n" and "authorized e a" and "0 \<le> sequence e"
  shows "\<exists>s1 s2. ce_initialize e' a n 0 0 0 s = Ok s1 \<and> ce_claim e a s1 = Ok (n, s2)"
  using assms by (simp add: ce_initialize_def ce_claim_def ce_vested_for_schedule_def linear_release_def checked_sub_def)

end
