(* ===== verification/Batch_Breakers.thy ===== *)
theory Batch_Breakers
  imports Soroban_Bytes Soroban_Containers "HOL-Library.Multiset"
begin

text \<open>
  Batches, breakers and a lottery: \<^verbatim>\<open>batch_partial_failure\<close>, \<^verbatim>\<open>batch_pause_bypass\<close>, \<^verbatim>\<open>inactive_circuit_breaker\<close>,
  \<^verbatim>\<open>emergency_delay_bypass\<close> and \<^verbatim>\<open>weak_randomness\<close>. Shown: what a batch is in terms of single transfers, what a pause freezes, how far a price
  moves under a breaker, and what the draw of a commit-reveal lottery depends on.
\<close>

unbundle bit_operations_syntax

section \<open>batch\_partial\_failure\<close>

record batch_store =
  bt_Balance :: "address \<rightharpoonup> int"
  bt_SuccessCount :: "int option"
  bt_BatchComplete :: "bool option"

record transfer_op =
  op_from :: address
  op_to :: address
  op_amount :: int

definition bp_mint :: "env \<Rightarrow> address \<Rightarrow> int \<Rightarrow> batch_store \<Rightarrow> batch_store result" where
  "bp_mint e to amount s =
     (let bal = get0 (bt_Balance s) to in
      arith (checked_add I128 bal amount) (\<lambda>n. Ok (s\<lparr>bt_Balance := (bt_Balance s)(to \<mapsto> n)\<rparr>)))"

text \<open>The loop of \<^verbatim>\<open>execute_batch\<close>, with the counter it keeps.\<close>

fun bp_batch_loop :: "transfer_op list \<Rightarrow> int \<Rightarrow> batch_store \<Rightarrow> (int \<times> batch_store) result" where
  "bp_batch_loop [] success_count s = Ok (success_count, s)"
| "bp_batch_loop (op # ops) success_count s =
     (let from_bal = get0 (bt_Balance s) (op_from op) in
      if from_bal < op_amount op then bp_batch_loop ops success_count s
      else arith (checked_sub I128 from_bal (op_amount op)) (\<lambda>n.
           let s1 = s\<lparr>bt_Balance := (bt_Balance s)(op_from op \<mapsto> n)\<rparr>;
               to_bal = get0 (bt_Balance s1) (op_to op) in
           arith (checked_add I128 to_bal (op_amount op)) (\<lambda>m.
           let s2 = s1\<lparr>bt_Balance := (bt_Balance s1)(op_to op \<mapsto> m)\<rparr> in
           arith (checked_add U32 success_count 1) (\<lambda>c. bp_batch_loop ops c s2))))"

definition bp_execute_batch :: "env \<Rightarrow> transfer_op list \<Rightarrow> batch_store \<Rightarrow> batch_store result" where
  "bp_execute_batch e ops s =
     and_then (bp_batch_loop ops 0 s) (\<lambda>(success_count, s1).
     let s2 = s1\<lparr>bt_SuccessCount := Some success_count\<rparr> in
     Ok (s2\<lparr>bt_BatchComplete := Some True\<rparr>))"

definition bp_balance :: "batch_store \<Rightarrow> address \<Rightarrow> int" where
  "bp_balance s who = get0 (bt_Balance s) who"

definition bp_success_count :: "batch_store \<Rightarrow> int" where
  "bp_success_count s = unwrap_or (bt_SuccessCount s) 0"

definition bp_batch_complete :: "batch_store \<Rightarrow> bool" where
  "bp_batch_complete s = unwrap_or (bt_BatchComplete s) False"

definition bps_mint :: "env \<Rightarrow> address \<Rightarrow> int \<Rightarrow> batch_store \<Rightarrow> batch_store result" where
  "bps_mint e to amount s =
     (let bal = get0 (bt_Balance s) to in
      arith (checked_add I128 bal amount) (\<lambda>n. Ok (s\<lparr>bt_Balance := (bt_Balance s)(to \<mapsto> n)\<rparr>)))"

fun bps_execute_batch :: "env \<Rightarrow> transfer_op list \<Rightarrow> batch_store \<Rightarrow> batch_store result" where
  "bps_execute_batch e [] s = Ok s"
| "bps_execute_batch e (op # ops) s =
     (let from_bal = get0 (bt_Balance s) (op_from op) in
      ensure (from_bal \<ge> op_amount op) ''insufficient balance in batch'' (
      arith (checked_sub I128 from_bal (op_amount op)) (\<lambda>n.
      let s1 = s\<lparr>bt_Balance := (bt_Balance s)(op_from op \<mapsto> n)\<rparr>;
          to_bal = get0 (bt_Balance s1) (op_to op) in
      arith (checked_add I128 to_bal (op_amount op)) (\<lambda>m.
      bps_execute_batch e ops (s1\<lparr>bt_Balance := (bt_Balance s1)(op_to op \<mapsto> m)\<rparr>)))))"

definition bps_balance :: "batch_store \<Rightarrow> address \<Rightarrow> int" where
  "bps_balance s who = get0 (bt_Balance s) who"

text \<open>The transfers of a batch the original performs, in order: those covered when their turn comes.\<close>

fun covered :: "transfer_op list \<Rightarrow> (address \<Rightarrow> int) \<Rightarrow> transfer_op list" where
  "covered [] b = []"
| "covered (op # ops) b =
     (if b (op_from op) < op_amount op then covered ops b
      else op # covered ops (let b1 = b(op_from op := b (op_from op) - op_amount op) in b1(op_to op := b1 (op_to op) + op_amount op)))"

lemma get0_update: "get0 (m(k \<mapsto> v)) = (get0 m)(k := v)"
  by (auto simp: fun_eq_iff)

lemma batch_loop_covered:
  "bp_batch_loop ops k s = Ok (k', s') \<longleftrightarrow>
     bps_execute_batch e (covered ops (get0 (bt_Balance s))) s = Ok s' \<and> k' = k + int (length (covered ops (get0 (bt_Balance s))))
     \<and> (covered ops (get0 (bt_Balance s)) = [] \<or> in_range U32 (k + 1) \<and> in_range U32 k')"
  if "0 \<le> k" "in_range U32 k"
  using that
proof (induction ops arbitrary: k s)
  case (Cons op ops)
  let ?b = "get0 (bt_Balance s)"
  show ?case
  proof (cases "?b (op_from op) < op_amount op")
    case True
    with Cons show ?thesis by simp
  next
    case False
    let ?n = "?b (op_from op) - op_amount op"
    let ?s1 = "s\<lparr>bt_Balance := (bt_Balance s)(op_from op \<mapsto> ?n)\<rparr>"
    let ?m = "get0 (bt_Balance ?s1) (op_to op) + op_amount op"
    define s2 where "s2 = ?s1\<lparr>bt_Balance := (bt_Balance ?s1)(op_to op \<mapsto> ?m)\<rparr>"
    define rest where "rest = covered ops (get0 (bt_Balance s2))"
    have cov: "covered (op # ops) ?b = op # rest" using False by (simp add: get0_update Let_def rest_def s2_def)
    have vul: "bp_batch_loop (op # ops) k s = Ok (k', s') \<longleftrightarrow> in_range I128 ?n \<and> in_range I128 ?m \<and> in_range U32 (k + 1)
        \<and> bp_batch_loop ops (k + 1) s2 = Ok (k', s')"
      using False by (auto simp: result_simps int_simps Let_def s2_def simp del: get0_simps)
    have sec: "bps_execute_batch e (op # rest) s = Ok s' \<longleftrightarrow> in_range I128 ?n \<and> in_range I128 ?m \<and> bps_execute_batch e rest s2 = Ok s'"
      using False by (auto simp: result_simps int_simps Let_def s2_def simp del: get0_simps)
    have up: "in_range U32 (k + 1 + 1)" if "in_range U32 (k + 1 + int (length rest))" "rest \<noteq> []"
    proof -
      have "1 \<le> length rest" using that(2) by (simp add: Suc_le_eq)
      with that(1) Cons.prems show ?thesis by (simp add: in_range_def)
    qed
    have ih: "bp_batch_loop ops (k + 1) s2 = Ok (k', s') \<longleftrightarrow> bps_execute_batch e rest s2 = Ok s' \<and> k' = k + 1 + int (length rest)
        \<and> (rest = [] \<or> in_range U32 (k + 1 + 1) \<and> in_range U32 k')" if "in_range U32 (k + 1)"
      using Cons.IH [of "k + 1" s2] Cons.prems(1) that unfolding rest_def by simp
    have len: "k + int (length (op # rest)) = k + 1 + int (length rest)" by simp
    show ?thesis unfolding cov vul sec len using ih up by (cases "rest = []") auto
  qed
qed auto

text \<open>
  C36: Partial batches (\<^verbatim>\<open>batch_partial_failure\<close>) of fewer than $2^{32}$ transfers: the original batch does to the balances what the repaired batch does with the covered transfers alone,
  and counts them, and it fails exactly when that batch does.
\<close>

theorem partial_batch_is_covered_batch:
  assumes "int (length ops) < 2 ^ 32"
  shows "((\<exists>s'. bp_execute_batch e ops s = Ok s' \<and> bt_Balance s' = b \<and> bp_success_count s' = int (length (covered ops (bp_balance s))) \<and> bp_batch_complete s')
      \<longleftrightarrow> (\<exists>t. bps_execute_batch e (covered ops (bp_balance s)) s = Ok t \<and> bt_Balance t = b))
    \<and> ((\<exists>x. bp_execute_batch e ops s = Err x) \<longleftrightarrow> (\<exists>x. bps_execute_batch e (covered ops (bp_balance s)) s = Err x))"
proof -
  let ?c = "covered ops (get0 (bt_Balance s))"
  have len: "length (covered xs f) \<le> length xs" for xs f by (induction xs arbitrary: f) (auto simp: le_SucI)
  have bal: "bp_balance s = get0 (bt_Balance s)" by (auto simp: bp_balance_def)
  have "in_range U32 (int (length ?c))" using len [of ops "get0 (bt_Balance s)"] assms by (simp add: in_range_def)
  then have loop: "bp_batch_loop ops 0 s = Ok (k, t) \<longleftrightarrow> bps_execute_batch e ?c s = Ok t \<and> k = int (length ?c)" for k t
    using batch_loop_covered [of 0 ops s k t e] by (auto simp: in_range_def)
  have "(\<exists>x. bp_execute_batch e ops s = Err x) \<longleftrightarrow> (\<exists>x. bps_execute_batch e ?c s = Err x)"
    using loop by (cases "bp_batch_loop ops 0 s"; cases "bps_execute_batch e ?c s") (auto simp: bp_execute_batch_def)
  with loop show ?thesis unfolding bal
    by (auto simp: bp_execute_batch_def bp_success_count_def bp_batch_complete_def unwrap_or_def result_simps)
qed

theorem partial_batch_is_covered_batch_witness:
  "\<exists>s'. bp_execute_batch (signed_env [] 1) [\<lparr>op_from = Address 1, op_to = Address 2, op_amount = 90\<rparr>, \<lparr>op_from = Address 1, op_to = Address 2, op_amount = 30\<rparr>]
       \<lparr>bt_Balance = [Address 1 \<mapsto> 50], bt_SuccessCount = None, bt_BatchComplete = None\<rparr> = Ok s'
     \<and> bt_Balance s' = [Address 1 \<mapsto> 20, Address 2 \<mapsto> 30] \<and> bp_success_count s' = 1"
proof -
  let ?ops = "[\<lparr>op_from = Address 1, op_to = Address 2, op_amount = 90\<rparr>, \<lparr>op_from = Address 1, op_to = Address 2, op_amount = 30\<rparr>]"
  let ?s = "\<lparr>bt_Balance = [Address 1 \<mapsto> 50], bt_SuccessCount = None, bt_BatchComplete = None\<rparr>"
  have c: "covered ?ops (bp_balance ?s) = [\<lparr>op_from = Address 1, op_to = Address 2, op_amount = 30\<rparr>]"
    by (simp add: bp_balance_def)
  have "\<exists>t. bps_execute_batch (signed_env [] 1) (covered ?ops (bp_balance ?s)) ?s = Ok t \<and> bt_Balance t = [Address 1 \<mapsto> 20, Address 2 \<mapsto> 30]"
    unfolding c by (simp add: checked_ops in_range_def)
  with partial_batch_is_covered_batch [of ?ops "signed_env [] 1" ?s "[Address 1 \<mapsto> 20, Address 2 \<mapsto> 30]"] show ?thesis
    unfolding c by auto
qed

lemma batch_moves_without_consent:
  "bps_execute_batch (signed_env [] 1) [\<lparr>op_from = Address 1, op_to = Address 2, op_amount = 50\<rparr>]
     \<lparr>bt_Balance = [Address 1 \<mapsto> 50], bt_SuccessCount = None, bt_BatchComplete = None\<rparr>
   = Ok \<lparr>bt_Balance = [Address 1 \<mapsto> 0, Address 2 \<mapsto> 50], bt_SuccessCount = None, bt_BatchComplete = None\<rparr>"
  by (simp add: checked_ops in_range_def)

section \<open>batch\_pause\_bypass\<close>

record pause_token = host +
  pk_Balance :: "address \<rightharpoonup> int"
  pk_Paused :: "bool option"
  pk_Admin :: "address option"

definition pb_initialize :: "env \<Rightarrow> address \<Rightarrow> pause_token \<Rightarrow> pause_token result" where
  "pb_initialize e admin s =
     panic_if (pk_Admin s \<noteq> None) ''already initialized'' (
     let s1 = s\<lparr>pk_Admin := Some admin\<rparr> in Ok (s1\<lparr>pk_Paused := Some False\<rparr>))"

definition pb_pause :: "env \<Rightarrow> pause_token \<Rightarrow> pause_token result" where
  "pb_pause e s = unwrap (pk_Admin s) (\<lambda>admin. require_auth e admin (Ok (s\<lparr>pk_Paused := Some True\<rparr>)))"

definition pb_unpause :: "env \<Rightarrow> pause_token \<Rightarrow> pause_token result" where
  "pb_unpause e s = unwrap (pk_Admin s) (\<lambda>admin. require_auth e admin (Ok (s\<lparr>pk_Paused := Some False\<rparr>)))"

definition pb_mint :: "env \<Rightarrow> address \<Rightarrow> int \<Rightarrow> pause_token \<Rightarrow> pause_token result" where
  "pb_mint e to amount s =
     unwrap (pk_Admin s) (\<lambda>admin. require_auth e admin (
     let current = get0 (pk_Balance s) to in
     arith (checked_add I128 current amount) (\<lambda>n. Ok (s\<lparr>pk_Balance := (pk_Balance s)(to \<mapsto> n)\<rparr>))))"

definition pb_transfer :: "env \<Rightarrow> address \<Rightarrow> address \<Rightarrow> int \<Rightarrow> pause_token \<Rightarrow> pause_token result" where
  "pb_transfer e from to amount s =
     require_auth e from (
     let paused = unwrap_or (pk_Paused s) False in
     panic_if paused ''contract is paused'' (
     let from_balance = get0 (pk_Balance s) from;
         to_balance = get0 (pk_Balance s) to in
     arith (checked_sub I128 from_balance amount) (\<lambda>n.
     let s1 = s\<lparr>pk_Balance := (pk_Balance s)(from \<mapsto> n)\<rparr> in
     arith (checked_add I128 to_balance amount) (\<lambda>m.
     let s2 = s1\<lparr>pk_Balance := (pk_Balance s1)(to \<mapsto> m)\<rparr> in
     Ok (publish [''transfer''] [VAddr from, VAddr to, VInt amount] s2)))))"

fun pb_batch_transfer :: "env \<Rightarrow> transfer_op list \<Rightarrow> pause_token \<Rightarrow> pause_token result" where
  "pb_batch_transfer e [] s = Ok s"
| "pb_batch_transfer e (op # ops) s =
     require_auth e (op_from op) (
     let from_balance = get0 (pk_Balance s) (op_from op);
         to_balance = get0 (pk_Balance s) (op_to op) in
     arith (checked_sub I128 from_balance (op_amount op)) (\<lambda>n.
     let s1 = s\<lparr>pk_Balance := (pk_Balance s)(op_from op \<mapsto> n)\<rparr> in
     arith (checked_add I128 to_balance (op_amount op)) (\<lambda>m.
     let s2 = s1\<lparr>pk_Balance := (pk_Balance s1)(op_to op \<mapsto> m)\<rparr> in
     pb_batch_transfer e ops (publish [''transfer''] [VAddr (op_from op), VAddr (op_to op), VInt (op_amount op)] s2))))"

definition pb_balance :: "pause_token \<Rightarrow> address \<Rightarrow> int" where
  "pb_balance s account = get0 (pk_Balance s) account"

definition pb_is_paused :: "pause_token \<Rightarrow> bool" where
  "pb_is_paused s = unwrap_or (pk_Paused s) False"

definition pbs_initialize :: "env \<Rightarrow> address \<Rightarrow> pause_token \<Rightarrow> pause_token result" where
  "pbs_initialize e admin s =
     panic_if (pk_Admin s \<noteq> None) ''already initialized'' (
     let s1 = s\<lparr>pk_Admin := Some admin\<rparr> in Ok (s1\<lparr>pk_Paused := Some False\<rparr>))"

definition pbs_pause :: "env \<Rightarrow> pause_token \<Rightarrow> pause_token result" where
  "pbs_pause e s = unwrap (pk_Admin s) (\<lambda>admin. require_auth e admin (Ok (s\<lparr>pk_Paused := Some True\<rparr>)))"

definition pbs_unpause :: "env \<Rightarrow> pause_token \<Rightarrow> pause_token result" where
  "pbs_unpause e s = unwrap (pk_Admin s) (\<lambda>admin. require_auth e admin (Ok (s\<lparr>pk_Paused := Some False\<rparr>)))"

definition pbs_mint :: "env \<Rightarrow> address \<Rightarrow> int \<Rightarrow> pause_token \<Rightarrow> pause_token result" where
  "pbs_mint e to amount s =
     unwrap (pk_Admin s) (\<lambda>admin. require_auth e admin (
     let current = get0 (pk_Balance s) to in
     arith (checked_add I128 current amount) (\<lambda>n. Ok (s\<lparr>pk_Balance := (pk_Balance s)(to \<mapsto> n)\<rparr>))))"

definition pbs_check_not_paused :: "pause_token \<Rightarrow> 'a result \<Rightarrow> 'a result" where
  "pbs_check_not_paused s k = (let paused = unwrap_or (pk_Paused s) False in panic_if paused ''contract is paused'' k)"

definition pbs_internal_transfer :: "address \<Rightarrow> address \<Rightarrow> int \<Rightarrow> pause_token \<Rightarrow> pause_token result" where
  "pbs_internal_transfer from to amount s =
     pbs_check_not_paused s (
     let from_balance = get0 (pk_Balance s) from;
         to_balance = get0 (pk_Balance s) to in
     panic_if (from_balance < amount) ''insufficient balance'' (
     arith (checked_sub I128 from_balance amount) (\<lambda>n.
     let s1 = s\<lparr>pk_Balance := (pk_Balance s)(from \<mapsto> n)\<rparr> in
     arith (checked_add I128 to_balance amount) (\<lambda>m.
     let s2 = s1\<lparr>pk_Balance := (pk_Balance s1)(to \<mapsto> m)\<rparr> in
     Ok (publish [''transfer''] [VAddr from, VAddr to, VInt amount] s2)))))"

definition pbs_transfer :: "env \<Rightarrow> address \<Rightarrow> address \<Rightarrow> int \<Rightarrow> pause_token \<Rightarrow> pause_token result" where
  "pbs_transfer e from to amount s = require_auth e from (pbs_internal_transfer from to amount s)"

fun pbs_batch_transfer :: "env \<Rightarrow> transfer_op list \<Rightarrow> pause_token \<Rightarrow> pause_token result" where
  "pbs_batch_transfer e [] s = Ok s"
| "pbs_batch_transfer e (op # ops) s =
     require_auth e (op_from op) (
     and_then (pbs_internal_transfer (op_from op) (op_to op) (op_amount op) s) (pbs_batch_transfer e ops))"

definition pbs_balance :: "pause_token \<Rightarrow> address \<Rightarrow> int" where
  "pbs_balance s account = get0 (pk_Balance s) account"

definition pbs_is_paused :: "pause_token \<Rightarrow> bool" where
  "pbs_is_paused s = unwrap_or (pk_Paused s) False"

datatype pause_call =
    BInitialize address
  | BPause
  | BUnpause
  | BMint address int
  | BTransfer address address int
  | BBatch "transfer_op list"

fun pbs_exec :: "env \<Rightarrow> pause_call \<Rightarrow> pause_token \<Rightarrow> pause_token result" where
  "pbs_exec e (BInitialize a) s = pbs_initialize e a s"
| "pbs_exec e BPause s = pbs_pause e s"
| "pbs_exec e BUnpause s = pbs_unpause e s"
| "pbs_exec e (BMint a n) s = pbs_mint e a n s"
| "pbs_exec e (BTransfer a b n) s = pbs_transfer e a b n s"
| "pbs_exec e (BBatch ops) s = pbs_batch_transfer e ops s"

text \<open>A batch is its transfers, one call each; it returns when they all do.\<close>

definition single_calls :: "env \<Rightarrow> transfer_op list \<Rightarrow> (env \<times> pause_call) list" where
  "single_calls e = map (\<lambda>op. (e, BTransfer (op_from op) (op_to op) (op_amount op)))"

lemma batch_is_transfers:
  "pbs_batch_transfer e ops s = Ok s' \<longleftrightarrow>
     run_calls pbs_exec (single_calls e ops) s = s' \<and> length (successes pbs_exec (single_calls e ops) s) = length ops"
proof (induction ops arbitrary: s)
  case (Cons op ops)
  let ?c = "pbs_transfer e (op_from op) (op_to op) (op_amount op) s"
  have le: "length (successes f ys t) \<le> length ys" for f ys and t :: pause_token
    by (induction f ys t rule: successes.induct) (auto split: sum.splits simp: le_SucI)
  have "length (successes pbs_exec (single_calls e ops) t) \<noteq> Suc (length ops)" for t
    using le [of pbs_exec "single_calls e ops" t] by (simp add: single_calls_def)
  moreover have "pbs_batch_transfer e (op # ops) s = Ok s' \<longleftrightarrow> (\<exists>t. ?c = Ok t \<and> pbs_batch_transfer e ops t = Ok s')"
    by (auto simp: pbs_transfer_def result_simps)
  ultimately show ?case
    by (cases ?c) (simp_all add: Cons.IH single_calls_def)
qed (simp add: single_calls_def eq_commute)

text \<open>When balances may move: outside a pause with the holder's signature, or by the admin's mint.\<close>

fun moves_balances :: "env \<Rightarrow> pause_call \<Rightarrow> pause_token \<Rightarrow> bool" where
  "moves_balances e (BMint a n) s = (\<exists>b. pk_Admin s = Some b \<and> authorized e b)"
| "moves_balances e (BTransfer a b n) s = (\<not> pbs_is_paused s \<and> authorized e a \<and> n \<le> pbs_balance s a)"
| "moves_balances e (BBatch ops) s = (\<not> pbs_is_paused s \<and> (\<forall>op\<in>set ops. authorized e (op_from op)))"
| "moves_balances e _ s = False"

lemma batch_signed: "pbs_batch_transfer e ops s = Ok s' \<Longrightarrow> \<forall>op\<in>set ops. authorized e (op_from op)"
  by (induction ops arbitrary: s) (auto simp: result_simps)

interpretation paused_balances: guarded_view pbs_exec pk_Balance moves_balances
proof
  fix e c s s'
  assume ok: "pbs_exec e c s = Ok s'" and ne: "pk_Balance s' \<noteq> pk_Balance s"
  show "moves_balances e c s"
  proof (cases c)
    case (BBatch ops)
    with ok ne obtain op ops' where "ops = op # ops'" by (cases ops) auto
    with ok BBatch have "\<not> pbs_is_paused s"
      by (auto simp: pbs_internal_transfer_def pbs_check_not_paused_def pbs_is_paused_def result_simps Let_def)
    with batch_signed [of e ops s s'] ok BBatch show ?thesis by simp
  qed (use ok ne in \<open>auto simp: pbs_initialize_def pbs_pause_def pbs_unpause_def pbs_mint_def pbs_transfer_def pbs_internal_transfer_def
      pbs_check_not_paused_def pbs_is_paused_def pbs_balance_def result_simps Let_def\<close>)
qed

text \<open>
  The pause (\<^verbatim>\<open>batch_pause_bypass/src/secure.rs\<close>): a batch does exactly what its transfers do one by one, or nothing; and if the balances differ after a
  run, the run has a mint the admin signed, or a transfer or batch signed by its holders in a state that is not paused.
\<close>

theorem pause_covers_batches:
  "(pbs_batch_transfer e ops s = Ok s' \<longleftrightarrow>
      run_calls pbs_exec (single_calls e ops) s = s' \<and> length (successes pbs_exec (single_calls e ops) s) = length ops)
   \<and> (pk_Balance (run_calls pbs_exec xs s) \<noteq> pk_Balance s
      \<longrightarrow> (\<exists>ys e' c zs. xs = ys @ (e', c) # zs \<and> moves_balances e' c (run_calls pbs_exec ys s)))"
  using batch_is_transfers paused_balances.run_view by blast

definition unpaused_demo :: pause_token where
  "unpaused_demo = \<lparr>events = [], pk_Balance = [Address 1 \<mapsto> 9], pk_Paused = None, pk_Admin = None\<rparr>"

theorem pause_covers_batches_witness:
  "\<exists>ys e' c zs. [(signed_env [Address 1] 1, BBatch [\<lparr>op_from = Address 1, op_to = Address 2, op_amount = 5\<rparr>])] = ys @ (e', c) # zs
     \<and> moves_balances e' c (run_calls pbs_exec ys unpaused_demo)"
proof -
  let ?xs = "[(signed_env [Address 1] 1, BBatch [\<lparr>op_from = Address 1, op_to = Address 2, op_amount = 5\<rparr>])]"
  have "pk_Balance (run_calls pbs_exec ?xs unpaused_demo) (Address 2) = Some 5"
    by (simp add: unpaused_demo_def signed_env_def pbs_internal_transfer_def pbs_check_not_paused_def publish_def unwrap_or_def checked_ops in_range_def)
  then have ne: "pk_Balance (run_calls pbs_exec ?xs unpaused_demo) \<noteq> pk_Balance unpaused_demo"
    by (auto simp: unpaused_demo_def simp del: run_calls.simps)
  from pause_covers_batches [THEN conjunct2, THEN mp, OF ne] show ?thesis .
qed

definition paused_demo :: pause_token where
  "paused_demo = \<lparr>events = [], pk_Balance = [Address 1 \<mapsto> 9], pk_Paused = Some True, pk_Admin = None\<rparr>"

lemma batch_moves_while_paused:
  "\<exists>s'. pb_batch_transfer (signed_env [Address 1] 1) [\<lparr>op_from = Address 1, op_to = Address 2, op_amount = 5\<rparr>] paused_demo = Ok s'
     \<and> pb_balance s' (Address 2) = 5"
  by (simp add: paused_demo_def pb_balance_def signed_env_def publish_def checked_ops in_range_def)

text \<open>The receiver's balance is read before the sender's is written: a transfer to oneself adds the amount.\<close>

lemma paused_token_self_transfer:
  assumes "authorized e a" and "\<not> pbs_is_paused s" and "pbs_balance s a = 9"
  shows "\<exists>s'. pbs_transfer e a a 4 s = Ok s' \<and> pbs_balance s' a = 13"
  using assms by (simp add: pbs_transfer_def pbs_internal_transfer_def pbs_check_not_paused_def pbs_is_paused_def pbs_balance_def publish_def checked_ops in_range_def)

section \<open>inactive\_circuit\_breaker\<close>

record breaker_market =
  bm_Admin :: "address option"
  bm_Price :: "int option"
  bm_MaxMoveBps :: "int option"
  bm_Paused :: "bool option"

definition icb_initialize :: "env \<Rightarrow> address \<Rightarrow> int \<Rightarrow> int \<Rightarrow> breaker_market \<Rightarrow> breaker_market result" where
  "icb_initialize e admin initial_price max_move_bps s =
     panic_if (bm_Admin s \<noteq> None) ''already initialized'' (
     ensure (initial_price > 0) ''price must be positive'' (
     ensure (max_move_bps > 0) ''threshold must be positive'' (
     Ok (s\<lparr>bm_Admin := Some admin, bm_Price := Some initial_price, bm_MaxMoveBps := Some max_move_bps, bm_Paused := Some False\<rparr>))))"

definition icb_update_price :: "env \<Rightarrow> address \<Rightarrow> int \<Rightarrow> breaker_market \<Rightarrow> breaker_market result" where
  "icb_update_price e actor new_price s =
     expect (bm_Admin s) ''not initialized'' (\<lambda>admin.
     panic_if (actor \<noteq> admin) ''unauthorized'' (
     require_auth e actor (
     ensure (new_price > 0) ''price must be positive'' (
     let _ = bm_MaxMoveBps s in
     Ok (s\<lparr>bm_Price := Some new_price\<rparr>)))))"

definition icb_swap_out :: "env \<Rightarrow> address \<Rightarrow> int \<Rightarrow> breaker_market \<Rightarrow> int result" where
  "icb_swap_out e user amount_in s =
     require_auth e user (
     let paused = unwrap_or (bm_Paused s) False in
     ensure (\<not> paused) ''market paused'' (
     expect (bm_Price s) ''price not set'' (\<lambda>price.
     arith (checked_mul I128 amount_in price) (\<lambda>x. arith (checked_div I128 x 10000000) Ok))))"

definition icb_liquidate :: "env \<Rightarrow> address \<Rightarrow> int \<Rightarrow> breaker_market \<Rightarrow> int result" where
  "icb_liquidate e liquidator debt s =
     require_auth e liquidator (
     let paused = unwrap_or (bm_Paused s) False in
     ensure (\<not> paused) ''market paused'' (
     expect (bm_Price s) ''price not set'' (\<lambda>price.
     arith (checked_mul I128 debt 10000000) (\<lambda>x. arith (checked_div I128 x price) Ok))))"

definition icb_get_price :: "breaker_market \<Rightarrow> int result" where
  "icb_get_price s = expect (bm_Price s) ''price not set'' Ok"

definition icb_get_config :: "breaker_market \<Rightarrow> int \<times> bool" where
  "icb_get_config s = (unwrap_or (bm_MaxMoveBps s) 0, unwrap_or (bm_Paused s) False)"

definition icbs_initialize :: "env \<Rightarrow> address \<Rightarrow> int \<Rightarrow> int \<Rightarrow> breaker_market \<Rightarrow> breaker_market result" where
  "icbs_initialize e admin initial_price max_move_bps s =
     panic_if (bm_Admin s \<noteq> None) ''already initialized'' (
     ensure (initial_price > 0) ''price must be positive'' (
     ensure (max_move_bps > 0) ''threshold must be positive'' (
     Ok (s\<lparr>bm_Admin := Some admin, bm_Price := Some initial_price, bm_MaxMoveBps := Some max_move_bps, bm_Paused := Some False\<rparr>))))"

text \<open>The write of the pause flag is followed by a panic, which takes the write back.\<close>

definition icbs_update_price :: "env \<Rightarrow> address \<Rightarrow> int \<Rightarrow> breaker_market \<Rightarrow> breaker_market result" where
  "icbs_update_price e actor new_price s =
     expect (bm_Admin s) ''not initialized'' (\<lambda>admin.
     panic_if (actor \<noteq> admin) ''unauthorized'' (
     require_auth e actor (
     ensure (new_price > 0) ''price must be positive'' (
     expect (bm_Price s) ''price not set'' (\<lambda>old_price.
     expect (bm_MaxMoveBps s) ''threshold not set'' (\<lambda>max_move_bps.
     arith (if new_price > old_price then checked_sub I128 new_price old_price else checked_sub I128 old_price new_price) (\<lambda>delta.
     arith (checked_mul I128 delta 10000) (\<lambda>x. arith (checked_div I128 x old_price) (\<lambda>move_bps.
     if move_bps > max_move_bps
     then (let s1 = s\<lparr>bm_Paused := Some True\<rparr> in panic_if True ''price move exceeds circuit breaker threshold'' (Ok s1))
     else Ok (s\<lparr>bm_Price := Some new_price\<rparr>))))))))))"

definition icbs_swap_out :: "env \<Rightarrow> address \<Rightarrow> int \<Rightarrow> breaker_market \<Rightarrow> int result" where
  "icbs_swap_out e user amount_in s =
     require_auth e user (
     let paused = unwrap_or (bm_Paused s) False in
     ensure (\<not> paused) ''market paused'' (
     expect (bm_Price s) ''price not set'' (\<lambda>price.
     arith (checked_mul I128 amount_in price) (\<lambda>x. arith (checked_div I128 x 10000000) Ok))))"

definition icbs_liquidate :: "env \<Rightarrow> address \<Rightarrow> int \<Rightarrow> breaker_market \<Rightarrow> int result" where
  "icbs_liquidate e liquidator debt s =
     require_auth e liquidator (
     let paused = unwrap_or (bm_Paused s) False in
     ensure (\<not> paused) ''market paused'' (
     expect (bm_Price s) ''price not set'' (\<lambda>price.
     arith (checked_mul I128 debt 10000000) (\<lambda>x. arith (checked_div I128 x price) Ok))))"

definition icbs_get_price :: "breaker_market \<Rightarrow> int result" where
  "icbs_get_price s = expect (bm_Price s) ''price not set'' Ok"

definition icbs_get_config :: "breaker_market \<Rightarrow> int \<times> bool" where
  "icbs_get_config s = (unwrap_or (bm_MaxMoveBps s) 0, unwrap_or (bm_Paused s) False)"

definition icbs_force_pause :: "env \<Rightarrow> address \<Rightarrow> breaker_market \<Rightarrow> breaker_market result" where
  "icbs_force_pause e admin s =
     expect (bm_Admin s) ''not initialized'' (\<lambda>stored_admin.
     panic_if (admin \<noteq> stored_admin) ''unauthorized'' (
     require_auth e admin (Ok (s\<lparr>bm_Paused := Some True\<rparr>))))"

definition icbs_unpause :: "env \<Rightarrow> address \<Rightarrow> breaker_market \<Rightarrow> breaker_market result" where
  "icbs_unpause e admin s =
     expect (bm_Admin s) ''not initialized'' (\<lambda>stored_admin.
     panic_if (admin \<noteq> stored_admin) ''unauthorized'' (
     require_auth e admin (Ok (s\<lparr>bm_Paused := Some False\<rparr>))))"

datatype breaker_call =
    KInitialize address int int
  | KUpdate address int
  | KForcePause address
  | KUnpause address

fun icbs_exec :: "env \<Rightarrow> breaker_call \<Rightarrow> breaker_market \<Rightarrow> breaker_market result" where
  "icbs_exec e (KInitialize a p m) s = icbs_initialize e a p m s"
| "icbs_exec e (KUpdate a p) s = icbs_update_price e a p s"
| "icbs_exec e (KForcePause a) s = icbs_force_pause e a s"
| "icbs_exec e (KUnpause a) s = icbs_unpause e a s"

fun is_update :: "breaker_call \<Rightarrow> bool" where
  "is_update (KUpdate a p) = True"
| "is_update _ = False"

definition market_open :: "int \<Rightarrow> breaker_market \<Rightarrow> bool" where
  "market_open m s \<longleftrightarrow> bm_Admin s \<noteq> None \<and> bm_MaxMoveBps s = Some m \<and> (\<exists>p. bm_Price s = Some p \<and> 0 < p)"

abbreviation price_of :: "breaker_market \<Rightarrow> int" where
  "price_of s \<equiv> unwrap_or (bm_Price s) 0"

lemma move_bound:
  assumes "(d::int) * 10000 div p \<le> m" and "0 < p"
  shows "d * 10000 \<le> p * (m + 1)"
proof -
  have "d * 10000 div p < m + 1" using assms(1) by simp
  then have "d * 10000 < (m + 1) * p" by (simp only: zdiv_less_iff [OF assms(2)])
  then show ?thesis by (simp add: mult.commute)
qed

lemma breaker_step:
  assumes "market_open m s" and "icbs_exec e c s = Ok s'"
  shows "market_open m s' \<and> (if is_update c
     then price_of s' * 10000 \<le> price_of s * (10001 + m) \<and> price_of s * (9999 - m) \<le> price_of s' * 10000
     else price_of s' = price_of s)"
proof (cases c)
  case (KUpdate a q)
  obtain p where p: "bm_Price s = Some p" "0 < p" using assms(1) by (auto simp: market_open_def)
  have q: "0 < q" "s' = s\<lparr>bm_Price := Some q\<rparr>" "\<bar>q - p\<bar> * 10000 sdiv p \<le> m"
    using assms KUpdate p by (auto simp: market_open_def icbs_update_price_def Let_def result_simps int_simps abs_if split: if_splits)
  have "\<bar>q - p\<bar> * 10000 \<le> p * (m + 1)" using q(3) p(2) by (intro move_bound) (auto simp: sdiv_nonneg_eq)
  then have "q * 10000 \<le> p * (10001 + m)" "p * (9999 - m) \<le> q * 10000"
    by (auto simp: abs_if algebra_simps split: if_splits)
  with assms(1) KUpdate p q show ?thesis by (auto simp: market_open_def unwrap_or_def)
qed (use assms in \<open>auto simp: market_open_def icbs_initialize_def icbs_force_pause_def icbs_unpause_def result_simps\<close>)

text \<open>
  C37: The breaker (\<^verbatim>\<open>inactive_circuit_breaker/src/secure.rs\<close>), with threshold \<^verbatim>\<open>m\<close> in basis points: after a run with \<^verbatim>\<open>k\<close> successful price updates, the price
  is positive and has moved by at most the factor \<^verbatim>\<open>(1 + (m + 1) / 10000) ^ k\<close> up, and if the threshold is below the whole, by at most
  \<^verbatim>\<open>(1 - (m + 1) / 10000) ^ k\<close> down.
\<close>

theorem breaker_bounds_price:
  fixes xs :: "(env \<times> breaker_call) list"
  assumes "market_open m s" and "0 \<le> m"
  defines "k \<equiv> length (filter is_update (successes icbs_exec xs s))"
  shows "market_open m (run_calls icbs_exec xs s)
    \<and> price_of (run_calls icbs_exec xs s) * 10000 ^ k \<le> price_of s * (10001 + m) ^ k
    \<and> (m \<le> 9999 \<longrightarrow> price_of s * (9999 - m) ^ k \<le> price_of (run_calls icbs_exec xs s) * 10000 ^ k)"
  using assms(1) unfolding k_def
proof (induction xs arbitrary: s)
  case (Cons x xs)
  obtain e c where x: "x = (e, c)" by force
  show ?case
  proof (cases "icbs_exec e c s")
    case (Inl err)
    with Cons x show ?thesis by simp
  next
    case (Inr t)
    let ?j = "length (filter is_update (successes icbs_exec xs t))" and ?u = "run_calls icbs_exec xs t"
    note st = breaker_step [OF Cons.prems Inr]
    note ih = Cons.IH [OF st [THEN conjunct1]]
    show ?thesis
    proof (cases "is_update c")
      case False
      with st ih x Inr show ?thesis by simp
    next
      case True
      have "price_of ?u * 10000 ^ Suc ?j \<le> price_of t * (10001 + m) ^ ?j * 10000"
        using ih by (simp add: mult.assoc)
      also have "\<dots> = (price_of t * 10000) * (10001 + m) ^ ?j" by simp
      also have "\<dots> \<le> (price_of s * (10001 + m)) * (10001 + m) ^ ?j"
        using st True assms(2) by (intro mult_right_mono) auto
      finally have up: "price_of ?u * 10000 ^ Suc ?j \<le> price_of s * (10001 + m) ^ Suc ?j" by (simp add: mult.assoc)
      have down: "price_of s * (9999 - m) ^ Suc ?j \<le> price_of ?u * 10000 ^ Suc ?j" if "m \<le> 9999"
      proof -
        have "price_of s * (9999 - m) ^ Suc ?j = (price_of s * (9999 - m)) * (9999 - m) ^ ?j" by simp
        also have "\<dots> \<le> (price_of t * 10000) * (9999 - m) ^ ?j" using st True that by (intro mult_right_mono) auto
        also have "\<dots> = (price_of t * (9999 - m) ^ ?j) * 10000" by simp
        also have "\<dots> \<le> (price_of ?u * 10000 ^ ?j) * 10000" using ih that by (intro mult_right_mono) auto
        finally show ?thesis by (simp add: mult.assoc)
      qed
      from up down ih True x Inr show ?thesis by simp
    qed
  qed
qed simp

definition market_demo :: breaker_market where
  "market_demo = \<lparr>bm_Admin = Some (Address 1), bm_Price = Some 1000, bm_MaxMoveBps = Some 500, bm_Paused = Some False\<rparr>"

theorem breaker_bounds_price_witness:
  "price_of (run_calls icbs_exec [(signed_env [Address 1] 1, KUpdate (Address 1) 1050), (signed_env [Address 1] 2, KUpdate (Address 1) 5000)] market_demo) * 10000
     \<le> 1000 * 10501"
  using breaker_bounds_price [of 500 market_demo "[(signed_env [Address 1] 1, KUpdate (Address 1) 1050), (signed_env [Address 1] 2, KUpdate (Address 1) 5000)]"]
  by (simp add: market_demo_def market_open_def icbs_update_price_def signed_env_def unwrap_or_def checked_ops in_range_def sdiv_nonneg_eq)

text \<open>Who pauses: only the admin, by hand. The refused update leaves the market open.\<close>

fun sets_pause :: "env \<Rightarrow> breaker_call \<Rightarrow> breaker_market \<Rightarrow> bool" where
  "sets_pause e (KInitialize a p m) s = (bm_Admin s = None)"
| "sets_pause e (KForcePause a) s = (bm_Admin s = Some a \<and> authorized e a)"
| "sets_pause e (KUnpause a) s = (bm_Admin s = Some a \<and> authorized e a)"
| "sets_pause e (KUpdate a p) s = False"

interpretation pause_flag: guarded_view icbs_exec bm_Paused sets_pause
proof
  fix e c s s'
  assume "icbs_exec e c s = Ok s'" "bm_Paused s' \<noteq> bm_Paused s"
  then show "sets_pause e c s"
    by (cases c) (auto simp: icbs_initialize_def icbs_update_price_def icbs_force_pause_def icbs_unpause_def result_simps split: if_splits)
qed

lemma breaker_never_trips:
  assumes "\<forall>(e, c)\<in>set xs. is_update c"
  shows "bm_Paused (run_calls icbs_exec xs s) = bm_Paused s"
proof (rule ccontr)
  assume "bm_Paused (run_calls icbs_exec xs s) \<noteq> bm_Paused s"
  then obtain ys e c zs where "xs = ys @ (e, c) # zs" "sets_pause e c (run_calls icbs_exec ys s)"
    using pause_flag.run_view by blast
  with assms show False by (cases c) auto
qed

lemma price_jumps:
  assumes "bm_Admin s = Some a" and "authorized e a" and "0 < p"
  shows "icb_update_price e a p s = Ok (s\<lparr>bm_Price := Some p\<rparr>)"
  using assms by (simp add: icb_update_price_def)

section \<open>emergency\_delay\_bypass\<close>

record emergency =
  em_Paused :: "bool option"
  em_Admin :: "address option"
  em_LastEmergencyCall :: "string option"

definition edb_init :: "env \<Rightarrow> address \<Rightarrow> emergency \<Rightarrow> emergency result" where
  "edb_init e admin s = (let s1 = s\<lparr>em_Admin := Some admin\<rparr> in Ok (s1\<lparr>em_Paused := Some False\<rparr>))"

definition edb_vulnerable_entry :: "env \<Rightarrow> address \<Rightarrow> int \<Rightarrow> emergency \<Rightarrow> emergency result" where
  "edb_vulnerable_entry e actor amount s =
     require_auth e actor (Ok (s\<lparr>em_LastEmergencyCall := Some ''change_admin''\<rparr>))"

definition emergency_execute_vulnerable :: "env \<Rightarrow> address \<Rightarrow> string \<Rightarrow> sc_val list \<Rightarrow> emergency \<Rightarrow> emergency result" where
  "emergency_execute_vulnerable e caller selector args s =
     require_auth e caller (
     unwrap (em_Admin s) (\<lambda>admin.
     panic_if (caller \<noteq> admin) ''not admin'' (
     Ok (s\<lparr>em_LastEmergencyCall := Some selector\<rparr>))))"

definition emergency_execute_secure :: "env \<Rightarrow> address \<Rightarrow> string \<Rightarrow> sc_val list \<Rightarrow> emergency \<Rightarrow> emergency result" where
  "emergency_execute_secure e caller selector args s =
     require_auth e caller (
     unwrap (em_Admin s) (\<lambda>admin.
     panic_if (caller \<noteq> admin) ''not admin'' (
     let pause = ''pause''; unpause = ''unpause'' in
     panic_if (selector \<noteq> pause \<and> selector \<noteq> unpause) ''emergency path only allows pause/unpause'' (
     Ok (s\<lparr>em_LastEmergencyCall := Some selector\<rparr>)))))"

definition get_last_emergency_call :: "emergency \<Rightarrow> string" where
  "get_last_emergency_call s = unwrap_or (em_LastEmergencyCall s) ''none''"

definition edb_is_paused :: "emergency \<Rightarrow> bool" where
  "edb_is_paused s = unwrap_or (em_Paused s) False"

datatype emergency_call =
    EInit address
  | EEntry address int
  | EVulnerable address string "sc_val list"
  | ESecure address string "sc_val list"

fun edb_exec :: "env \<Rightarrow> emergency_call \<Rightarrow> emergency \<Rightarrow> emergency result" where
  "edb_exec e (EInit a) s = edb_init e a s"
| "edb_exec e (EEntry a n) s = edb_vulnerable_entry e a n s"
| "edb_exec e (EVulnerable a f xs) s = emergency_execute_vulnerable e a f xs s"
| "edb_exec e (ESecure a f xs) s = emergency_execute_secure e a f xs s"

fun guarded_path :: "env \<Rightarrow> emergency_call \<Rightarrow> bool" where
  "guarded_path e (EInit a) = True"
| "guarded_path e (ESecure a f xs) = True"
| "guarded_path e _ = False"

interpretation emergency_selectors: restricted_invariant edb_exec "\<lambda>s. get_last_emergency_call s \<in> {''none'', ''pause'', ''unpause''}" guarded_path
proof
  fix s e c s'
  assume "get_last_emergency_call s \<in> {''none'', ''pause'', ''unpause''}" "guarded_path e c" "edb_exec e c s = Ok s'"
  then show "get_last_emergency_call s' \<in> {''none'', ''pause'', ''unpause''}"
    by (cases c) (auto simp: edb_init_def emergency_execute_secure_def get_last_emergency_call_def unwrap_or_def result_simps Let_def)
qed

interpretation never_paused: contract_invariant edb_exec "\<lambda>s. \<not> edb_is_paused s"
proof
  fix s e c s'
  assume "\<not> edb_is_paused s" "edb_exec e c s = Ok s'"
  then show "\<not> edb_is_paused s'"
    by (cases c) (auto simp: edb_init_def edb_vulnerable_entry_def emergency_execute_vulnerable_def emergency_execute_secure_def edb_is_paused_def unwrap_or_def result_simps Let_def)
qed

text \<open>
  The emergency path (\<^verbatim>\<open>emergency_delay_bypass\<close>): without calls to the two vulnerable entry points the last emergency call is none, a pause or an unpause. But no entry point
  ever changes the pause flag: a contract that is not paused is never paused.
\<close>

theorem emergency_only_records:
  assumes "get_last_emergency_call s = ''none''" and "\<not> edb_is_paused s"
  shows "((\<forall>(e, c)\<in>set xs. guarded_path e c) \<longrightarrow> get_last_emergency_call (run_calls edb_exec xs s) \<in> {''none'', ''pause'', ''unpause''})
    \<and> \<not> edb_is_paused (run_calls edb_exec xs s)"
  using emergency_selectors.run_inv [of s xs] never_paused.run_inv [OF assms(2), of xs] assms(1) by simp

theorem emergency_only_records_witness:
  "\<not> edb_is_paused (run_calls edb_exec [(signed_env [Address 1] 1, ESecure (Address 1) ''pause'' [])]
      \<lparr>em_Paused = Some False, em_Admin = Some (Address 1), em_LastEmergencyCall = None\<rparr>)"
  by (rule emergency_only_records [THEN conjunct2]) (simp_all add: get_last_emergency_call_def edb_is_paused_def unwrap_or_def)

lemma any_selector_immediately:
  assumes "em_Admin s = Some a" and "authorized e a"
  shows "emergency_execute_vulnerable e a f xs s = Ok (s\<lparr>em_LastEmergencyCall := Some f\<rparr>)"
  using assms by (simp add: emergency_execute_vulnerable_def)

section \<open>weak\_randomness\<close>

record lottery =
  lo_Participants :: "address list option"
  lo_Winner :: "address option"

definition lot_enter :: "env \<Rightarrow> address \<Rightarrow> lottery \<Rightarrow> lottery result" where
  "lot_enter e participant s =
     require_auth e participant (
     let participants = unwrap_or (lo_Participants s) [] in
     Ok (s\<lparr>lo_Participants := Some (participants @ [participant])\<rparr>))"

definition lot_pick_winner :: "env \<Rightarrow> lottery \<Rightarrow> (address \<times> lottery) result" where
  "lot_pick_winner e s =
     expect (lo_Participants s) ''no participants'' (\<lambda>participants.
     ensure (participants \<noteq> []) ''no participants'' (
     let idx = sequence e mod vec_len participants in
     unwrap (vec_get participants idx) (\<lambda>winner. Ok (winner, s\<lparr>lo_Winner := Some winner\<rparr>))))"

definition lot_winner :: "lottery \<Rightarrow> address option" where
  "lot_winner s = lo_Winner s"

definition lot_participants :: "lottery \<Rightarrow> address list" where
  "lot_participants s = unwrap_or (lo_Participants s) []"

text \<open>The nonces and the seed are 64-bit words; the hash is a parameter.\<close>

record reveal_lottery =
  rv_Participants :: "address list option"
  rv_Commit :: "address \<rightharpoonup> bytes"
  rv_Reveal :: "address \<rightharpoonup> 64 word"
  rv_Seed :: "64 word option"
  rv_RevealCount :: "int option"
  rv_Winner :: "address option"

definition lots_commit :: "env \<Rightarrow> address \<Rightarrow> bytes \<Rightarrow> reveal_lottery \<Rightarrow> reveal_lottery result" where
  "lots_commit e participant commitment s =
     require_auth e participant (
     let participants = unwrap_or (rv_Participants s) [];
         s1 = s\<lparr>rv_Participants := Some (participants @ [participant])\<rparr> in
     Ok (s1\<lparr>rv_Commit := (rv_Commit s1)(participant \<mapsto> commitment)\<rparr>))"

definition lots_reveal :: "(bytes \<Rightarrow> bytes) \<Rightarrow> env \<Rightarrow> address \<Rightarrow> 64 word \<Rightarrow> reveal_lottery \<Rightarrow> reveal_lottery result" where
  "lots_reveal sha256 e participant secret_nonce s =
     require_auth e participant (
     expect (rv_Commit s participant) ''no commitment found for participant'' (\<lambda>committed.
     let nonce_bytes = be_bytes 8 (uint secret_nonce);
         revealed_hash = sha256 nonce_bytes in
     ensure (revealed_hash = committed) ''revealed nonce does not match commitment'' (
     let current_seed = unwrap_or (rv_Seed s) 0;
         s1 = s\<lparr>rv_Seed := Some (current_seed XOR secret_nonce)\<rparr>;
         count = unwrap_or (rv_RevealCount s1) 0 in
     arith (checked_add U32 count 1) (\<lambda>n.
     let s2 = s1\<lparr>rv_RevealCount := Some n\<rparr> in
     Ok (s2\<lparr>rv_Reveal := (rv_Reveal s2)(participant \<mapsto> secret_nonce)\<rparr>)))))"

definition lots_draw :: "env \<Rightarrow> reveal_lottery \<Rightarrow> (address \<times> reveal_lottery) result" where
  "lots_draw e s =
     expect (rv_Participants s) ''no participants'' (\<lambda>participants.
     ensure (participants \<noteq> []) ''no participants'' (
     let reveal_count = unwrap_or (rv_RevealCount s) 0 in
     ensure (reveal_count = vec_len participants) ''not all participants have revealed'' (
     let seed = unwrap_or (rv_Seed s) 0;
         idx = uint seed mod vec_len participants in
     unwrap (vec_get participants idx) (\<lambda>winner. Ok (winner, s\<lparr>rv_Winner := Some winner\<rparr>)))))"

definition lots_winner :: "reveal_lottery \<Rightarrow> address option" where
  "lots_winner s = rv_Winner s"

definition reveal_exec :: "(bytes \<Rightarrow> bytes) \<Rightarrow> env \<Rightarrow> address \<times> 64 word \<Rightarrow> reveal_lottery \<Rightarrow> reveal_lottery result" where
  "reveal_exec h e = (\<lambda>(a, n). lots_reveal h e a n)"

text \<open>A reveal that matches its commitment and is signed.\<close>

definition matches :: "(bytes \<Rightarrow> bytes) \<Rightarrow> reveal_lottery \<Rightarrow> env \<times> address \<times> 64 word \<Rightarrow> bool" where
  "matches h s = (\<lambda>(e, a, n). authorized e a \<and> rv_Commit s a = Some (h (be_bytes 8 (uint n))))"

lemma reveals_fold:
  assumes "\<forall>x\<in>set xs. matches h s x" and "0 \<le> unwrap_or (rv_RevealCount s) 0" and "unwrap_or (rv_RevealCount s) 0 + int (length xs) < 2 ^ 32"
  shows "length (successes (reveal_exec h) xs s) = length xs
    \<and> unwrap_or (rv_Seed (run_calls (reveal_exec h) xs s)) 0 = fold (\<lambda>(e, a, n) z. z XOR n) xs (unwrap_or (rv_Seed s) 0)
    \<and> unwrap_or (rv_RevealCount (run_calls (reveal_exec h) xs s)) 0 = unwrap_or (rv_RevealCount s) 0 + int (length xs)
    \<and> rv_Participants (run_calls (reveal_exec h) xs s) = rv_Participants s"
  using assms
proof (induction xs arbitrary: s)
  case (Cons x xs)
  obtain e a n where x: "x = (e, a, n)" by (cases x)
  let ?t = "s\<lparr>rv_Seed := Some (unwrap_or (rv_Seed s) 0 XOR n), rv_RevealCount := Some (unwrap_or (rv_RevealCount s) 0 + 1), rv_Reveal := (rv_Reveal s)(a \<mapsto> n)\<rparr>"
  have "in_range U32 (unwrap_or (rv_RevealCount s) 0 + 1)" using Cons.prems(2,3) by (simp add: in_range_def)
  then have ok: "reveal_exec h e (a, n) s = Ok ?t"
    using Cons.prems(1) x by (simp add: reveal_exec_def lots_reveal_def matches_def checked_add_def Let_def)
  have "\<forall>y\<in>set xs. matches h ?t y" using Cons.prems(1) by (auto simp: matches_def)
  then have "length (successes (reveal_exec h) xs ?t) = length xs
    \<and> unwrap_or (rv_Seed (run_calls (reveal_exec h) xs ?t)) 0 = fold (\<lambda>(e, a, n) z. z XOR n) xs (unwrap_or (rv_Seed ?t) 0)
    \<and> unwrap_or (rv_RevealCount (run_calls (reveal_exec h) xs ?t)) 0 = unwrap_or (rv_RevealCount ?t) 0 + int (length xs)
    \<and> rv_Participants (run_calls (reveal_exec h) xs ?t) = rv_Participants ?t"
    using Cons.prems(2,3) by (intro Cons.IH) (auto simp: unwrap_or_def)
  with ok x show ?case by (simp add: unwrap_or_def)
qed simp

text \<open>
  The draw (\<^verbatim>\<open>weak_randomness/src/secure.rs\<close>) does not depend on the order in which matching reveals come in: the same reveals in another order give the
  same winner, or the same refusal.
\<close>

theorem draw_ignores_reveal_order:
  assumes "mset xs = mset ys" and "\<forall>x\<in>set xs. matches h s x" and "0 \<le> unwrap_or (rv_RevealCount s) 0"
    and "unwrap_or (rv_RevealCount s) 0 + int (length xs) < 2 ^ 32"
  shows "map_sum id fst (lots_draw e (run_calls (reveal_exec h) xs s)) = map_sum id fst (lots_draw e (run_calls (reveal_exec h) ys s))"
proof -
  have "set xs = set ys" "length xs = length ys" using assms(1) by (auto dest: mset_eq_setD mset_eq_length)
  then have ys: "\<forall>x\<in>set ys. matches h s x" "unwrap_or (rv_RevealCount s) 0 + int (length ys) < 2 ^ 32" using assms by auto
  have "fold (\<lambda>(e, a, n) z. z XOR n) xs = fold (\<lambda>(e, a, n) (z :: 64 word). z XOR n) ys"
    by (rule fold_multiset_equiv [OF _ assms(1)]) (auto simp: fun_eq_iff ac_simps)
  moreover have "map_sum id fst (lots_draw e t) = map_sum id fst (lots_draw e u)"
    if "unwrap_or (rv_Seed t) 0 = unwrap_or (rv_Seed u) 0" "unwrap_or (rv_RevealCount t) 0 = unwrap_or (rv_RevealCount u) 0" "rv_Participants t = rv_Participants u" for t u
    using that by (auto simp: lots_draw_def Let_def expect_def ensure_def unwrap_def split: option.splits)
  ultimately show ?thesis
    using reveals_fold [OF assms(2,3,4)] reveals_fold [OF ys(1) assms(3) ys(2)] \<open>length xs = length ys\<close> by simp
qed

definition lottery_demo :: reveal_lottery where
  "lottery_demo = \<lparr>rv_Participants = Some [Address 1, Address 2], rv_Commit = [Address 1 \<mapsto> be_bytes 8 5, Address 2 \<mapsto> be_bytes 8 6],
     rv_Reveal = Map.empty, rv_Seed = None, rv_RevealCount = None, rv_Winner = None\<rparr>"

theorem draw_ignores_reveal_order_witness:
  "map_sum id fst (lots_draw (signed_env [] 3) (run_calls (reveal_exec (\<lambda>b. b)) [(signed_env [Address 1] 1, Address 1, 5), (signed_env [Address 2] 2, Address 2, 6)] lottery_demo))
   = map_sum id fst (lots_draw (signed_env [] 3) (run_calls (reveal_exec (\<lambda>b. b)) [(signed_env [Address 2] 2, Address 2, 6), (signed_env [Address 1] 1, Address 1, 5)] lottery_demo))"
  by (rule draw_ignores_reveal_order) (simp_all add: matches_def lottery_demo_def signed_env_def unwrap_or_def add_mset_commute)

text \<open>A participant may reveal twice: the nonce cancels out and stands in for the reveal of somebody else.\<close>

lemma revealing_twice_replaces_others:
  "map_sum id fst (lots_draw (signed_env [] 3) (run_calls (reveal_exec (\<lambda>b. b)) [(signed_env [Address 1] 1, Address 1, 5), (signed_env [Address 1] 2, Address 1, 5)] lottery_demo))
     = Ok (Address 1)"
  by (simp add: reveal_exec_def lots_reveal_def lots_draw_def lottery_demo_def signed_env_def unwrap_or_def checked_add_def in_range_def vec_get_def vec_len_def)

text \<open>Without commitments the winner is a function of the ledger: whoever chooses it, within as many ledgers as there are participants, wins.\<close>

lemma caller_chooses_winner:
  assumes "lo_Participants s = Some ps" and "i < length ps" and "\<And>n. sequence (f n) = n"
  shows "\<exists>k s'. q \<le> k \<and> k < q + int (length ps) \<and> lot_pick_winner (f k) s = Ok (ps ! i, s')"
proof -
  let ?l = "int (length ps)" and ?k = "q + (int i - q) mod int (length ps)"
  have l: "0 < ?l" "ps \<noteq> []" using assms(2) by auto
  have "?k mod ?l = int i mod ?l" by (simp add: mod_add_right_eq)
  then have "?k mod ?l = int i" using assms(2) by simp
  then have "lot_pick_winner (f ?k) s = Ok (ps ! i, s\<lparr>lo_Winner := Some (ps ! i)\<rparr>)"
    using assms l(2) by (auto simp: lot_pick_winner_def vec_get_def vec_len_def)
  moreover have "0 \<le> (int i - q) mod ?l" "(int i - q) mod ?l < ?l" using l by simp_all
  ultimately show ?thesis by (intro exI [of _ ?k] exI) simp
qed

end
