(* ===== verification/Storage_Keys.thy ===== *)
theory Storage_Keys
  imports Soroban_Bytes Soroban_Containers
begin

text \<open>
  What a storage key has to say: \<^verbatim>\<open>key_collision\<close>, \<^verbatim>\<open>asset_key_collision\<close>, \<^verbatim>\<open>balance_key_missing_user\<close>, \<^verbatim>\<open>storage_namespace_omitted\<close>,
  \<^verbatim>\<open>delete_without_tombstone\<close>, \<^verbatim>\<open>partial_config_clear\<close>, \<^verbatim>\<open>unprotected_delete\<close>, \<^verbatim>\<open>unsafe_storage\<close> and \<^verbatim>\<open>unbounded_storage\<close>. An enum of keys is a datatype, and the store a map from it. Where a key omits
  something, the map has that much less of a domain. Shown: with full keys the parts of the storage evolve
  independently, as cells of their own (\<^verbatim>\<open>replayed_view\<close>), how long a deletion protects, that updates keep a configuration valid, and what a bounded history holds.
\<close>

section \<open>key\_collision\<close>

text \<open>Without an enum of keys there is one slot per symbol, and a slot holds values of either type.\<close>

datatype slot_value = SAddr address | SNum int

record raw_slots =
  rs_slot :: "string \<rightharpoonup> slot_value"

definition kc_set_admin :: "address \<Rightarrow> raw_slots \<Rightarrow> raw_slots result" where
  "kc_set_admin admin s = Ok (s\<lparr>rs_slot := (rs_slot s)(''admin'' \<mapsto> SAddr admin)\<rparr>)"

definition kc_get_admin :: "raw_slots \<Rightarrow> address option result" where
  "kc_get_admin s =
     (case rs_slot s ''admin'' of None \<Rightarrow> Ok None | Some (SAddr a) \<Rightarrow> Ok (Some a) | Some (SNum n) \<Rightarrow> Err WrongType)"

definition kc_set_balance :: "string \<Rightarrow> int \<Rightarrow> raw_slots \<Rightarrow> raw_slots result" where
  "kc_set_balance tag amount s = Ok (s\<lparr>rs_slot := (rs_slot s)(tag \<mapsto> SNum amount)\<rparr>)"

definition kc_get_balance :: "raw_slots \<Rightarrow> string \<Rightarrow> int option result" where
  "kc_get_balance s tag =
     (case rs_slot s tag of None \<Rightarrow> Ok None | Some (SNum n) \<Rightarrow> Ok (Some n) | Some (SAddr a) \<Rightarrow> Err WrongType)"

text \<open>With an enum of keys the store is the same kind of map, but a key carries its variant; a slot still holds values of either type.\<close>

datatype slot_key = Admin | Balance address

record keyed_slots =
  ks_slot :: "slot_key \<rightharpoonup> slot_value"

definition kcs_set_admin :: "address \<Rightarrow> keyed_slots \<Rightarrow> keyed_slots result" where
  "kcs_set_admin admin s = Ok (s\<lparr>ks_slot := (ks_slot s)(Admin \<mapsto> SAddr admin)\<rparr>)"

definition kcs_get_admin :: "keyed_slots \<Rightarrow> address option result" where
  "kcs_get_admin s =
     (case ks_slot s Admin of None \<Rightarrow> Ok None | Some (SAddr a) \<Rightarrow> Ok (Some a) | Some (SNum n) \<Rightarrow> Err WrongType)"

definition kcs_set_balance :: "address \<Rightarrow> int \<Rightarrow> keyed_slots \<Rightarrow> keyed_slots result" where
  "kcs_set_balance user amount s = Ok (s\<lparr>ks_slot := (ks_slot s)(Balance user \<mapsto> SNum amount)\<rparr>)"

definition kcs_get_balance :: "keyed_slots \<Rightarrow> address \<Rightarrow> int option result" where
  "kcs_get_balance s user =
     (case ks_slot s (Balance user) of None \<Rightarrow> Ok None | Some (SNum n) \<Rightarrow> Ok (Some n) | Some (SAddr a) \<Rightarrow> Err WrongType)"

datatype slot_call = SetAdmin address | SetBalance address int

fun kcs_exec :: "env \<Rightarrow> slot_call \<Rightarrow> keyed_slots \<Rightarrow> keyed_slots result" where
  "kcs_exec e (SetAdmin a) s = kcs_set_admin a s"
| "kcs_exec e (SetBalance a n) s = kcs_set_balance a n s"

text \<open>What each call should do to the admin, and to the balance of one user, alone.\<close>

fun admin_cell :: "env \<Rightarrow> slot_call \<Rightarrow> address option result \<Rightarrow> address option result" where
  "admin_cell e (SetAdmin a) v = Ok (Some a)"
| "admin_cell e (SetBalance u n) v = v"

fun balance_cell :: "address \<Rightarrow> env \<Rightarrow> slot_call \<Rightarrow> int option result \<Rightarrow> int option result" where
  "balance_cell a e (SetAdmin u) v = v"
| "balance_cell a e (SetBalance u n) v = (if u = a then Ok (Some n) else v)"

lemmas kcs_defs = kcs_set_admin_def kcs_get_admin_def kcs_set_balance_def kcs_get_balance_def

interpretation admin_slot: replayed_view kcs_exec kcs_get_admin admin_cell
proof (unfold_locales, goal_cases)
  case (1 e c s s')
  then show ?case by (cases c) (auto simp: kcs_defs)
next
  case (2 e c s x)
  then show ?case by (cases c) (auto simp: kcs_defs)
qed

interpretation balance_slot: replayed_view kcs_exec "\<lambda>s. kcs_get_balance s a" "balance_cell a" for a
proof (unfold_locales, goal_cases)
  case (1 e c s s')
  then show ?case by (cases c) (auto simp: kcs_defs)
next
  case (2 e c s x)
  then show ?case by (cases c) (auto simp: kcs_defs)
qed

lemma balance_corrupts_admin:
  "\<exists>s'. kc_set_balance ''admin'' n s = Ok s' \<and> kc_get_admin s' = Err WrongType"
  and admin_corrupts_balance: "\<exists>s'. kc_set_admin a s = Ok s' \<and> kc_get_balance s' ''admin'' = Err WrongType"
  by (simp_all add: kc_set_balance_def kc_get_admin_def kc_set_admin_def kc_get_balance_def)

section \<open>asset\_key\_collision\<close>

record user_keyed =
  uk_balance :: "address \<rightharpoonup> int"

definition ak_deposit :: "env \<Rightarrow> address \<Rightarrow> address \<Rightarrow> int \<Rightarrow> user_keyed \<Rightarrow> user_keyed result" where
  "ak_deposit e user asset amount s =
     require_auth e user (
     let bal = get0 (uk_balance s) user in
     arith (checked_add I128 bal amount) (\<lambda>n. Ok (s\<lparr>uk_balance := (uk_balance s)(user \<mapsto> n)\<rparr>)))"

definition ak_balance :: "user_keyed \<Rightarrow> address \<Rightarrow> address \<Rightarrow> int" where
  "ak_balance s user asset = get0 (uk_balance s) user"

record asset_keyed =
  ak_Balance :: "address \<times> address \<rightharpoonup> int"

definition aks_deposit :: "env \<Rightarrow> address \<Rightarrow> address \<Rightarrow> int \<Rightarrow> asset_keyed \<Rightarrow> asset_keyed result" where
  "aks_deposit e user asset amount s =
     require_auth e user (
     let bal = get0 (ak_Balance s) (user, asset) in
     arith (checked_add I128 bal amount) (\<lambda>n. Ok (s\<lparr>ak_Balance := (ak_Balance s)((user, asset) \<mapsto> n)\<rparr>)))"

definition aks_balance :: "asset_keyed \<Rightarrow> address \<Rightarrow> address \<Rightarrow> int" where
  "aks_balance s user asset = get0 (ak_Balance s) (user, asset)"

definition aks_exec :: "env \<Rightarrow> address \<times> address \<times> int \<Rightarrow> asset_keyed \<Rightarrow> asset_keyed result" where
  "aks_exec e = (\<lambda>(u, a, n). aks_deposit e u a n)"

definition credit_cell :: "address \<Rightarrow> address \<Rightarrow> env \<Rightarrow> address \<times> address \<times> int \<Rightarrow> int \<Rightarrow> int" where
  "credit_cell u a e = (\<lambda>(u', a', n) v. if u' = u \<and> a' = a \<and> authorized e u \<and> in_range I128 (v + n) then v + n else v)"

interpretation asset_slot: replayed_view aks_exec "\<lambda>s. aks_balance s u a" "credit_cell u a" for u a
  by unfold_locales (auto simp: aks_exec_def aks_deposit_def aks_balance_def credit_cell_def require_auth_def result_simps err_simps int_simps Let_def
      split: if_splits)

lemma assets_share_balance:
  assumes "authorized e u" and "in_range I128 (ak_balance s u b + n)"
  shows "\<exists>s'. ak_deposit e u a n s = Ok s' \<and> ak_balance s' u b = ak_balance s u b + n"
  using assms by (simp add: ak_deposit_def ak_balance_def checked_add_def)

section \<open>balance\_key\_missing\_user\<close>

datatype balance_key = Balance string | UserBalance string address

record symbol_keyed =
  sy_slot :: "balance_key \<rightharpoonup> int"

definition bk_deposit :: "env \<Rightarrow> address \<Rightarrow> string \<Rightarrow> int \<Rightarrow> symbol_keyed \<Rightarrow> symbol_keyed result" where
  "bk_deposit e user asset amount s = require_auth e user (Ok (s\<lparr>sy_slot := (sy_slot s)(Balance asset \<mapsto> amount)\<rparr>))"

definition bk_balance :: "symbol_keyed \<Rightarrow> string \<Rightarrow> int" where
  "bk_balance s asset = get0 (sy_slot s) (Balance asset)"

definition bks_deposit :: "env \<Rightarrow> address \<Rightarrow> string \<Rightarrow> int \<Rightarrow> symbol_keyed \<Rightarrow> symbol_keyed result" where
  "bks_deposit e user asset amount s = require_auth e user (Ok (s\<lparr>sy_slot := (sy_slot s)(UserBalance asset user \<mapsto> amount)\<rparr>))"

definition bks_balance :: "symbol_keyed \<Rightarrow> address \<Rightarrow> string \<Rightarrow> int" where
  "bks_balance s user asset = get0 (sy_slot s) (UserBalance asset user)"

definition bks_exec :: "env \<Rightarrow> address \<times> string \<times> int \<Rightarrow> symbol_keyed \<Rightarrow> symbol_keyed result" where
  "bks_exec e = (\<lambda>(u, a, n). bks_deposit e u a n)"

definition deposit_cell :: "address \<Rightarrow> string \<Rightarrow> env \<Rightarrow> address \<times> string \<times> int \<Rightarrow> int \<Rightarrow> int" where
  "deposit_cell u a e = (\<lambda>(u', a', n) v. if u' = u \<and> a' = a \<and> authorized e u then n else v)"

interpretation user_slot: replayed_view bks_exec "\<lambda>s. bks_balance s u a" "deposit_cell u a" for u a
  by unfold_locales (auto simp: bks_exec_def bks_deposit_def bks_balance_def deposit_cell_def result_simps err_simps split: if_splits)

lemma deposit_overwrites_others:
  assumes "authorized e u"
  shows "\<exists>s'. bk_deposit e u a n s = Ok s' \<and> bk_balance s' a = n"
  using assms by (simp add: bk_deposit_def bk_balance_def)

text \<open>The repaired deposit still replaces the user's own balance instead of adding to it.\<close>

lemma second_deposit_replaces:
  assumes "authorized e u"
  shows "\<exists>s'. bks_deposit e u a n s = Ok s' \<and> bks_balance s' u a = n"
  using assms by (simp add: bks_deposit_def bks_balance_def)

section \<open>storage\_namespace\_omitted\<close>

record one_config =
  oc_Config :: "int option"

definition sn_set_fee_config :: "int \<Rightarrow> one_config \<Rightarrow> one_config result" where
  "sn_set_fee_config fee_bps s = Ok (s\<lparr>oc_Config := Some fee_bps\<rparr>)"

definition sn_get_fee_config :: "one_config \<Rightarrow> int" where
  "sn_get_fee_config s = unwrap_or (oc_Config s) 0"

definition sn_set_reward_config :: "int \<Rightarrow> one_config \<Rightarrow> one_config result" where
  "sn_set_reward_config reward_rate s = Ok (s\<lparr>oc_Config := Some reward_rate\<rparr>)"

definition sn_get_reward_config :: "one_config \<Rightarrow> int" where
  "sn_get_reward_config s = unwrap_or (oc_Config s) 0"

datatype config_key = FeeConfig | RewardConfig

record two_configs =
  tc_slot :: "config_key \<rightharpoonup> int"

definition sns_set_fee_config :: "int \<Rightarrow> two_configs \<Rightarrow> two_configs result" where
  "sns_set_fee_config fee_bps s = Ok (s\<lparr>tc_slot := (tc_slot s)(FeeConfig \<mapsto> fee_bps)\<rparr>)"

definition sns_get_fee_config :: "two_configs \<Rightarrow> int" where
  "sns_get_fee_config s = unwrap_or (tc_slot s FeeConfig) 0"

definition sns_set_reward_config :: "int \<Rightarrow> two_configs \<Rightarrow> two_configs result" where
  "sns_set_reward_config reward_rate s = Ok (s\<lparr>tc_slot := (tc_slot s)(RewardConfig \<mapsto> reward_rate)\<rparr>)"

definition sns_get_reward_config :: "two_configs \<Rightarrow> int" where
  "sns_get_reward_config s = unwrap_or (tc_slot s RewardConfig) 0"

datatype config_call = SetFee int | SetReward int

fun sns_exec :: "env \<Rightarrow> config_call \<Rightarrow> two_configs \<Rightarrow> two_configs result" where
  "sns_exec e (SetFee n) s = sns_set_fee_config n s"
| "sns_exec e (SetReward n) s = sns_set_reward_config n s"

fun fee_cell :: "env \<Rightarrow> config_call \<Rightarrow> int \<Rightarrow> int" where
  "fee_cell e (SetFee n) v = n"
| "fee_cell e (SetReward n) v = v"

fun reward_cell :: "env \<Rightarrow> config_call \<Rightarrow> int \<Rightarrow> int" where
  "reward_cell e (SetFee n) v = v"
| "reward_cell e (SetReward n) v = n"

lemmas sns_defs = sns_set_fee_config_def sns_get_fee_config_def sns_set_reward_config_def sns_get_reward_config_def

interpretation fee_slot: replayed_view sns_exec sns_get_fee_config fee_cell
proof (unfold_locales, goal_cases)
  case (1 e c s s')
  then show ?case by (cases c) (auto simp: sns_defs)
next
  case (2 e c s x)
  then show ?case by (cases c) (auto simp: sns_defs)
qed

interpretation reward_slot: replayed_view sns_exec sns_get_reward_config reward_cell
proof (unfold_locales, goal_cases)
  case (1 e c s s')
  then show ?case by (cases c) (auto simp: sns_defs)
next
  case (2 e c s x)
  then show ?case by (cases c) (auto simp: sns_defs)
qed

text \<open>
  C35: Full keys over one store (the repaired halves of \<^verbatim>\<open>key_collision\<close>, \<^verbatim>\<open>asset_key_collision\<close>, \<^verbatim>\<open>balance_key_missing_user\<close> and \<^verbatim>\<open>storage_namespace_omitted\<close>): after any run, trapped calls
  included, what is read is what a cell of its own would hold after the same calls. Once set, the admin and the balance of a user read back, without a type error, as the
  last value set for them (by anyone: the setters ask for no signature); the balance of a user in an asset is the earlier one plus the deposits for that user and asset that the user signed and that do not overflow; in
  \<^verbatim>\<open>balance_key_missing_user\<close> it is the last deposit the user signed; each configuration is the last value set for it.
\<close>

theorem full_keys_isolate:
  "kcs_get_admin (run_calls kcs_exec xs s) = fold (\<lambda>(e, c). admin_cell e c) xs (kcs_get_admin s)
   \<and> kcs_get_balance (run_calls kcs_exec xs s) a = fold (\<lambda>(e, c). balance_cell a e c) xs (kcs_get_balance s a)
   \<and> aks_balance (run_calls aks_exec ys t) u b = fold (\<lambda>(e, c). credit_cell u b e c) ys (aks_balance t u b)
   \<and> bks_balance (run_calls bks_exec zs v) u y = fold (\<lambda>(e, c). deposit_cell u y e c) zs (bks_balance v u y)
   \<and> sns_get_fee_config (run_calls sns_exec ws w) = fold (\<lambda>(e, c). fee_cell e c) ws (sns_get_fee_config w)
   \<and> sns_get_reward_config (run_calls sns_exec ws w) = fold (\<lambda>(e, c). reward_cell e c) ws (sns_get_reward_config w)"
  by (intro conjI admin_slot.run_replayed balance_slot.run_replayed asset_slot.run_replayed user_slot.run_replayed fee_slot.run_replayed
      reward_slot.run_replayed)

lemma reward_overwrites_fee: "\<exists>s'. sn_set_reward_config n s = Ok s' \<and> sn_get_fee_config s' = n"
  by (simp add: sn_set_reward_config_def sn_get_fee_config_def unwrap_or_def)

section \<open>unbounded\_storage\<close>

record item_list =
  il_List :: "string list option"

definition hs_append :: "string \<Rightarrow> item_list \<Rightarrow> item_list result" where
  "hs_append item s = (let list = unwrap_or (il_List s) [] in Ok (s\<lparr>il_List := Some (list @ [item])\<rparr>))"

definition hs_list :: "item_list \<Rightarrow> string list" where
  "hs_list s = unwrap_or (il_List s) []"

definition hs_len :: "item_list \<Rightarrow> int" where
  "hs_len s = unwrap_or (map_option vec_len (il_List s)) 0"

definition MAX_HISTORY :: int where "MAX_HISTORY = 50"

definition hss_append :: "string \<Rightarrow> item_list \<Rightarrow> item_list result" where
  "hss_append item s =
     (let list = unwrap_or (il_List s) [];
          list' = (if vec_len list \<ge> MAX_HISTORY then tl list else list) in
      Ok (s\<lparr>il_List := Some (list' @ [item])\<rparr>))"

definition hss_list :: "item_list \<Rightarrow> string list" where
  "hss_list s = unwrap_or (il_List s) []"

definition hss_len :: "item_list \<Rightarrow> int" where
  "hss_len s = unwrap_or (map_option vec_len (il_List s)) 0"

definition hs_exec :: "env \<Rightarrow> string \<Rightarrow> item_list \<Rightarrow> item_list result" where
  "hs_exec e item = hs_append item"

definition hss_exec :: "env \<Rightarrow> string \<Rightarrow> item_list \<Rightarrow> item_list result" where
  "hss_exec e item = hss_append item"

definition last_items :: "nat \<Rightarrow> 'a list \<Rightarrow> 'a list" where
  "last_items k xs = drop (length xs - k) xs"

lemma last_items_snoc: "0 < k \<Longrightarrow> last_items k (xs @ [x]) = (if k \<le> length (last_items k xs) then tl (last_items k xs) else last_items k xs) @ [x]"
proof -
  assume k: "0 < k"
  show ?thesis
  proof (cases "k \<le> length xs")
    case True
    then have "drop (Suc (length xs) - k) xs = tl (drop (length xs - k) xs)"
      by (simp add: Suc_diff_le drop_Suc tl_drop)
    with True k show ?thesis by (simp add: last_items_def)
  qed (use k in \<open>auto simp: last_items_def\<close>)
qed

text \<open>
  Histories (\<^verbatim>\<open>unbounded_storage\<close>): after any sequence of appends to an empty list the original holds all the items, the bounded one exactly the last fifty of
  them, in order.
\<close>

theorem history_keeps_last_items:
  "hs_list (run_calls hs_exec xs \<lparr>il_List = None\<rparr>) = map snd xs
   \<and> hss_list (run_calls hss_exec xs \<lparr>il_List = None\<rparr>) = last_items 50 (map snd xs)
   \<and> hss_len (run_calls hss_exec xs \<lparr>il_List = None\<rparr>) = min 50 (int (length xs))"
proof -
  have all: "hs_list (run_calls hs_exec xs \<lparr>il_List = None\<rparr>) = map snd xs"
    by (induction xs rule: rev_induct) (auto simp: run_calls_append hs_exec_def hs_append_def hs_list_def unwrap_or_def)
  have last: "hss_list (run_calls hss_exec xs \<lparr>il_List = None\<rparr>) = last_items 50 (map snd xs)"
  proof (induction xs rule: rev_induct)
    case (snoc x xs)
    obtain e item where x: "x = (e, item)" by force
    let ?t = "run_calls hss_exec xs \<lparr>il_List = None\<rparr>"
    have "hss_list (run_calls hss_exec (xs @ [x]) \<lparr>il_List = None\<rparr>)
        = (if vec_len (hss_list ?t) \<ge> MAX_HISTORY then tl (hss_list ?t) else hss_list ?t) @ [item]"
      by (simp add: x run_calls_append hss_exec_def hss_append_def hss_list_def unwrap_or_def Let_def)
    also have "\<dots> = last_items 50 (map snd xs @ [item])"
      unfolding snoc.IH by (subst last_items_snoc) (auto simp: MAX_HISTORY_def vec_len_def)
    finally show ?case by (simp add: x)
  qed (simp add: hss_list_def last_items_def unwrap_or_def)
  have "hss_len t = int (length (hss_list t))" for t
    by (cases "il_List t") (auto simp: hss_len_def hss_list_def unwrap_or_def vec_len_def)
  with all last show ?thesis by (auto simp: last_items_def min_def)
qed

section \<open>delete\_without\_tombstone\<close>

record approvals = host +
  ap_Entry :: "bytes \<rightharpoonup> int"
  ap_Tombstone :: "bytes \<rightharpoonup> int"

definition le_bytes :: "nat \<Rightarrow> int \<Rightarrow> bytes" where
  "le_bytes k n = rev (be_bytes k n)"

definition verify_approval :: "(bytes \<Rightarrow> bytes) \<Rightarrow> bytes \<Rightarrow> bytes \<Rightarrow> 'a result \<Rightarrow> 'a result" where
  "verify_approval sha256 payload sig k =
     (let expected = sha256 payload in panic_if (expected \<noteq> sig) ''invalid approval'' k)"

definition tb_approve_entry :: "(bytes \<Rightarrow> bytes) \<Rightarrow> env \<Rightarrow> bytes \<Rightarrow> int \<Rightarrow> bytes \<Rightarrow> approvals \<Rightarrow> approvals result" where
  "tb_approve_entry sha256 e payload nonce sig s =
     (let msg = payload @ le_bytes 4 nonce in
      verify_approval sha256 msg sig (
      let s1 = s\<lparr>ap_Entry := (ap_Entry s)(payload \<mapsto> nonce)\<rparr> in
      Ok (publish [''approved''] [vbytes payload] s1)))"

definition tb_delete_entry :: "env \<Rightarrow> bytes \<Rightarrow> approvals \<Rightarrow> approvals result" where
  "tb_delete_entry e payload s =
     (let s1 = s\<lparr>ap_Entry := (ap_Entry s)(payload := None)\<rparr> in
      Ok (publish [''deleted''] [vbytes payload] s1))"

definition tb_get_entry :: "approvals \<Rightarrow> bytes \<Rightarrow> int option" where
  "tb_get_entry s payload = ap_Entry s payload"

definition tbs_approve_entry :: "(bytes \<Rightarrow> bytes) \<Rightarrow> env \<Rightarrow> bytes \<Rightarrow> int \<Rightarrow> bytes \<Rightarrow> approvals \<Rightarrow> approvals result" where
  "tbs_approve_entry sha256 e payload nonce sig s =
     (let msg = payload @ le_bytes 4 nonce in
      verify_approval sha256 msg sig (
      let tombstone = get0 (ap_Tombstone s) payload in
      panic_if (nonce \<le> tombstone) ''stale approval'' (
      let s1 = s\<lparr>ap_Entry := (ap_Entry s)(payload \<mapsto> nonce)\<rparr> in
      Ok (publish [''approved''] [vbytes payload] s1))))"

definition tbs_delete_entry :: "env \<Rightarrow> bytes \<Rightarrow> approvals \<Rightarrow> approvals result" where
  "tbs_delete_entry e payload s =
     (let current_nonce = get0 (ap_Entry s) payload;
          s1 = s\<lparr>ap_Entry := (ap_Entry s)(payload := None)\<rparr>;
          s2 = s1\<lparr>ap_Tombstone := (ap_Tombstone s1)(payload \<mapsto> current_nonce)\<rparr> in
      Ok (publish [''deleted''] [vbytes payload] s2))"

definition tbs_get_entry :: "approvals \<Rightarrow> bytes \<Rightarrow> int option" where
  "tbs_get_entry s payload = ap_Entry s payload"

datatype approval_call = ApApprove bytes int bytes | ApDelete bytes

fun tbs_exec :: "(bytes \<Rightarrow> bytes) \<Rightarrow> env \<Rightarrow> approval_call \<Rightarrow> approvals \<Rightarrow> approvals result" where
  "tbs_exec h e (ApApprove p n g) s = tbs_approve_entry h e p n g s"
| "tbs_exec h e (ApDelete p) s = tbs_delete_entry e p s"

definition above_tombstone :: "approvals \<Rightarrow> bool" where
  "above_tombstone s \<longleftrightarrow> (\<forall>p n. tbs_get_entry s p = Some n \<longrightarrow> get0 (ap_Tombstone s) p < n)"

interpretation live_entries: contract_invariant "tbs_exec h" above_tombstone for h
proof
  fix s e c s'
  assume "above_tombstone s" "tbs_exec h e c s = Ok s'"
  then show "above_tombstone s'"
    by (cases c) (auto simp: above_tombstone_def tbs_get_entry_def tbs_approve_entry_def tbs_delete_entry_def verify_approval_def publish_def result_simps Let_def
        split: if_splits)
qed

interpretation tombstone_of: guarded_view "tbs_exec h" "\<lambda>s. get0 (ap_Tombstone s) p" "\<lambda>e c s. c = ApDelete p" for h p
proof
  fix e c s s'
  assume "tbs_exec h e c s = Ok s'" "get0 (ap_Tombstone s') p \<noteq> get0 (ap_Tombstone s) p"
  then show "c = ApDelete p"
    by (cases c) (auto simp: tbs_approve_entry_def tbs_delete_entry_def verify_approval_def publish_def result_simps Let_def split: if_splits)
qed

text \<open>
  Deletions (\<^verbatim>\<open>delete_without_tombstone/src/secure.rs\<close>), for any hash: in every reachable state an entry is newer than the tombstone of its payload; and after an entry with nonce \<^verbatim>\<open>n\<close>
  is deleted, as long as its payload is not deleted again, only an approval with a higher nonce restores it.
\<close>

theorem deleted_stays_deleted:
  assumes "above_tombstone s" and "tbs_get_entry s p = Some n" and "tbs_delete_entry e p s = Ok s1" and "\<forall>(e, c)\<in>set xs. c \<noteq> ApDelete p"
  shows "above_tombstone (run_calls (tbs_exec h) xs s1)
    \<and> (tbs_approve_entry h e' p m g (run_calls (tbs_exec h) xs s1) = Ok t \<longrightarrow> n < m)
    \<and> (tbs_get_entry (run_calls (tbs_exec h) xs s1) p = Some k \<longrightarrow> n < k)"
proof -
  let ?t = "run_calls (tbs_exec h) xs s1"
  have s1: "get0 (ap_Tombstone s1) p = n" using assms(2,3) by (auto simp: tbs_delete_entry_def tbs_get_entry_def publish_def get0_def Let_def)
  have "above_tombstone s1" using live_entries.exec_inv [where h = h, OF assms(1), of e "ApDelete p" s1] assms(3) by simp
  then have inv: "above_tombstone ?t" by (rule live_entries.run_inv)
  have "get0 (ap_Tombstone ?t) p = n"
  proof (rule ccontr)
    assume "get0 (ap_Tombstone ?t) p \<noteq> n"
    with s1 obtain ys e c zs where "xs = ys @ (e, c) # zs" "c = ApDelete p"
      using tombstone_of.run_view [where h = h and p = p and xs = xs and s = s1] by auto
    with assms(4) show False by auto
  qed
  with inv show ?thesis
    by (auto simp: above_tombstone_def tbs_approve_entry_def verify_approval_def result_simps Let_def)
qed

theorem deleted_stays_deleted_witness:
  "\<exists>s1. tbs_delete_entry (signed_env [] 1) [7] \<lparr>events = [], ap_Entry = [[7] \<mapsto> 3], ap_Tombstone = Map.empty\<rparr> = Ok s1
     \<and> \<not> (\<exists>t. tbs_approve_entry (\<lambda>b. b) (signed_env [] 2) [7] 3 ([7] @ le_bytes 4 3) s1 = Ok t)"
proof -
  let ?s = "\<lparr>events = [], ap_Entry = [[7] \<mapsto> 3], ap_Tombstone = Map.empty\<rparr> :: approvals"
  let ?s1 = "\<lparr>events = [([''deleted''], [vbytes [7]])], ap_Entry = Map.empty, ap_Tombstone = [[7] \<mapsto> 3]\<rparr> :: approvals"
  have d: "tbs_delete_entry (signed_env [] 1) [7] ?s = Ok ?s1"
    by (simp add: tbs_delete_entry_def publish_def)
  have "above_tombstone ?s" by (auto simp: above_tombstone_def tbs_get_entry_def)
  from deleted_stays_deleted [OF this _ d, of 3 "[]" "\<lambda>b. b" "signed_env [] 2" 3 "[7] @ le_bytes 4 3"]
  have "tbs_approve_entry (\<lambda>b. b) (signed_env [] 2) [7] 3 ([7] @ le_bytes 4 3) ?s1 \<noteq> Ok t" for t
    by (auto simp: tbs_get_entry_def)
  with d show ?thesis by blast
qed

text \<open>Deleting once more resets the tombstone, and the old approval works again.\<close>

lemma second_delete_forgets:
  assumes "0 < n" and "ap_Entry s p = Some n"
  shows "\<exists>s1 s2 s3. tbs_delete_entry e p s = Ok s1 \<and> tbs_delete_entry e p s1 = Ok s2
    \<and> tbs_approve_entry h e' p n (h (p @ le_bytes 4 n)) s2 = Ok s3 \<and> tbs_get_entry s3 p = Some n"
  using assms by (simp add: tbs_delete_entry_def tbs_approve_entry_def verify_approval_def tbs_get_entry_def publish_def get0_def Let_def)

lemma deleted_entry_restored:
  "\<exists>s1 s2. tb_delete_entry e p s = Ok s1 \<and> tb_approve_entry h e' p n (h (p @ le_bytes 4 n)) s1 = Ok s2 \<and> tb_get_entry s2 p = Some n"
  by (simp add: tb_delete_entry_def tb_approve_entry_def verify_approval_def tb_get_entry_def publish_def Let_def)

section \<open>partial\_config\_clear\<close>

record config =
  cf_fee_bps :: int
  cf_max_cap :: int
  cf_oracle :: "address option"

record config_store =
  cg_Admin :: "address option"
  cg_Config :: "config option"

definition cg_initialize :: "env \<Rightarrow> address \<Rightarrow> int \<Rightarrow> int \<Rightarrow> address \<Rightarrow> config_store \<Rightarrow> config_store result" where
  "cg_initialize e admin fee_bps max_cap oracle_id s =
     require_auth e admin (
     let config = \<lparr>cf_fee_bps = fee_bps, cf_max_cap = max_cap, cf_oracle = Some oracle_id\<rparr>;
         s1 = s\<lparr>cg_Admin := Some admin\<rparr> in
     Ok (s1\<lparr>cg_Config := Some config\<rparr>))"

definition cg_update_config :: "env \<Rightarrow> address \<Rightarrow> int option \<Rightarrow> int option \<Rightarrow> address option \<Rightarrow> config_store \<Rightarrow> config_store result" where
  "cg_update_config e actor fee_bps max_cap oracle_id s =
     require_auth e actor (
     let config = \<lparr>cf_fee_bps = unwrap_or fee_bps 0, cf_max_cap = unwrap_or max_cap 0, cf_oracle = oracle_id\<rparr> in
     Ok (s\<lparr>cg_Config := Some config\<rparr>))"

definition cg_get_config :: "config_store \<Rightarrow> config result" where
  "cg_get_config s = expect (cg_Config s) ''config not initialized'' Ok"

definition validate_config :: "config \<Rightarrow> 'a result \<Rightarrow> 'a result" where
  "validate_config c k =
     ensure (cf_fee_bps c \<le> 10000) ''fee too high'' (
     ensure (cf_max_cap c > 0) ''cap must be positive'' (
     ensure (cf_oracle c \<noteq> None) ''oracle is required'' k))"

definition cgs_initialize :: "env \<Rightarrow> address \<Rightarrow> int \<Rightarrow> int \<Rightarrow> address \<Rightarrow> config_store \<Rightarrow> config_store result" where
  "cgs_initialize e admin fee_bps max_cap oracle_id s =
     require_auth e admin (
     let config = \<lparr>cf_fee_bps = fee_bps, cf_max_cap = max_cap, cf_oracle = Some oracle_id\<rparr>;
         s1 = s\<lparr>cg_Admin := Some admin\<rparr> in
     Ok (s1\<lparr>cg_Config := Some config\<rparr>))"

definition cgs_update_config :: "env \<Rightarrow> address \<Rightarrow> int option \<Rightarrow> int option \<Rightarrow> address option \<Rightarrow> config_store \<Rightarrow> config_store result" where
  "cgs_update_config e actor fee_bps max_cap oracle_id s =
     require_auth e actor (
     expect (cg_Config s) ''config not initialized'' (\<lambda>config.
     let config1 = (case fee_bps of Some fee \<Rightarrow> config\<lparr>cf_fee_bps := fee\<rparr> | None \<Rightarrow> config);
         config2 = (case max_cap of Some cap \<Rightarrow> config1\<lparr>cf_max_cap := cap\<rparr> | None \<Rightarrow> config1);
         config3 = (case oracle_id of Some orc \<Rightarrow> config2\<lparr>cf_oracle := Some orc\<rparr> | None \<Rightarrow> config2) in
     validate_config config3 (Ok (s\<lparr>cg_Config := Some config3\<rparr>))))"

definition cgs_get_config :: "config_store \<Rightarrow> config result" where
  "cgs_get_config s = expect (cg_Config s) ''config not initialized'' Ok"

definition update_exec :: "env \<Rightarrow> address \<times> int option \<times> int option \<times> address option \<Rightarrow> config_store \<Rightarrow> config_store result" where
  "update_exec e = (\<lambda>(a, f, m, r). cgs_update_config e a f m r)"

text \<open>The last value written to a field, or the value it had.\<close>

fun latest :: "('c \<Rightarrow> 'v option) \<Rightarrow> 'c list \<Rightarrow> 'v \<Rightarrow> 'v" where
  "latest f [] v = v"
| "latest f (c # cs) v = latest f cs (unwrap_or (f c) v)"

definition config_valid :: "config \<Rightarrow> bool" where
  "config_valid c \<longleftrightarrow> cf_fee_bps c \<le> 10000 \<and> cf_max_cap c > 0 \<and> cf_oracle c \<noteq> None"

lemma update_Ok:
  "update_exec e (a, f, m, r) s = Ok s' \<longleftrightarrow> authorized e a \<and> (\<exists>c. cg_Config s = Some c
     \<and> (let c' = \<lparr>cf_fee_bps = unwrap_or f (cf_fee_bps c), cf_max_cap = unwrap_or m (cf_max_cap c), cf_oracle = (case r of None \<Rightarrow> cf_oracle c | Some x \<Rightarrow> Some x)\<rparr>
        in config_valid c' \<and> s' = s\<lparr>cg_Config := Some c'\<rparr>))"
  by (cases f; cases m; cases r)
    (auto simp: update_exec_def cgs_update_config_def validate_config_def config_valid_def unwrap_or_def result_simps Let_def)

text \<open>
  Updates (\<^verbatim>\<open>partial_config_clear/src/secure.rs\<close>): after any sequence of updates of a valid configuration it is valid, and each field has the last value that a successful update gave it, or the one
  it had: a field that is left out keeps its value.
\<close>

theorem updates_keep_config:
  assumes "cg_Config s = Some c" and "config_valid c"
  shows "\<exists>c'. cgs_get_config (run_calls update_exec xs s) = Ok c' \<and> config_valid c'
    \<and> cf_fee_bps c' = latest (\<lambda>(a, f, m, r). f) (successes update_exec xs s) (cf_fee_bps c)
    \<and> cf_max_cap c' = latest (\<lambda>(a, f, m, r). m) (successes update_exec xs s) (cf_max_cap c)
    \<and> the (cf_oracle c') = latest (\<lambda>(a, f, m, r). r) (successes update_exec xs s) (the (cf_oracle c))"
  using assms
proof (induction xs arbitrary: s c)
  case (Cons x xs)
  obtain e a f m r where x: "x = (e, a, f, m, r)" by (cases x)
  show ?case
  proof (cases "update_exec e (a, f, m, r) s")
    case (Inl err)
    with Cons x show ?thesis by simp
  next
    case (Inr t)
    let ?c = "\<lparr>cf_fee_bps = unwrap_or f (cf_fee_bps c), cf_max_cap = unwrap_or m (cf_max_cap c), cf_oracle = (case r of None \<Rightarrow> cf_oracle c | Some x \<Rightarrow> Some x)\<rparr>"
    have t: "config_valid ?c" "cg_Config t = Some ?c" using Inr Cons.prems(1) by (auto simp: update_Ok Let_def)
    have "the (cf_oracle ?c) = unwrap_or r (the (cf_oracle c))" by (cases r) (auto simp: unwrap_or_def)
    with Cons.IH [OF t(2,1)] Inr x show ?thesis by simp
  qed
qed (simp add: cgs_get_config_def)

theorem updates_keep_config_witness:
  "\<exists>c'. cgs_get_config (run_calls update_exec [(signed_env [Address 4] 1, Address 4, Some 25, None, None)]
      \<lparr>cg_Admin = Some (Address 1), cg_Config = Some \<lparr>cf_fee_bps = 10, cf_max_cap = 700, cf_oracle = Some (Address 3)\<rparr>\<rparr>) = Ok c' \<and> cf_max_cap c' = 700"
  using updates_keep_config [of "\<lparr>cg_Admin = Some (Address 1), cg_Config = Some \<lparr>cf_fee_bps = 10, cf_max_cap = 700, cf_oracle = Some (Address 3)\<rparr>\<rparr>"
      "\<lparr>cf_fee_bps = 10, cf_max_cap = 700, cf_oracle = Some (Address 3)\<rparr>" "[(signed_env [Address 4] 1, Address 4, Some 25, None, None)]"]
  by (auto simp: config_valid_def update_exec_def cgs_update_config_def validate_config_def signed_env_def unwrap_or_def)

lemma partial_update_clears:
  assumes "authorized e a"
  shows "\<exists>s'. cg_update_config e a (Some f) None None s = Ok s' \<and> cg_get_config s' = Ok \<lparr>cf_fee_bps = f, cf_max_cap = 0, cf_oracle = None\<rparr>"
  using assms by (simp add: cg_update_config_def cg_get_config_def unwrap_or_def)

text \<open>Any signer updates and initialises again; the initialisation does not validate.\<close>

lemma anyone_reinitialises:
  assumes "authorized e a"
  shows "\<exists>s'. cgs_initialize e a 99999 0 x s = Ok s' \<and> cg_Admin s' = Some a \<and> (\<exists>c. cgs_get_config s' = Ok c \<and> \<not> config_valid c)"
  using assms by (simp add: cgs_initialize_def cgs_get_config_def config_valid_def)

section \<open>unprotected\_delete and unsafe\_storage\<close>

record data_registry =
  dr_Entry :: "address \<rightharpoonup> string"

definition ude_set_entry :: "address \<Rightarrow> string \<Rightarrow> data_registry \<Rightarrow> data_registry result" where
  "ude_set_entry account text s = Ok (s\<lparr>dr_Entry := (dr_Entry s)(account \<mapsto> text)\<rparr>)"

definition ude_get_entry :: "data_registry \<Rightarrow> address \<Rightarrow> string option" where
  "ude_get_entry s account = dr_Entry s account"

definition ude_delete_entry :: "address \<Rightarrow> data_registry \<Rightarrow> data_registry result" where
  "ude_delete_entry account s = Ok (s\<lparr>dr_Entry := (dr_Entry s)(account := None)\<rparr>)"

record user_profile =
  pf_display_name :: string
  pf_kyc_level :: int

record profile_registry =
  pr_Profile :: "address \<rightharpoonup> user_profile"

definition pf_set_profile :: "address \<Rightarrow> string \<Rightarrow> int \<Rightarrow> profile_registry \<Rightarrow> profile_registry result" where
  "pf_set_profile account display_name kyc_level s =
     (let profile = \<lparr>pf_display_name = display_name, pf_kyc_level = kyc_level\<rparr> in
      Ok (s\<lparr>pr_Profile := (pr_Profile s)(account \<mapsto> profile)\<rparr>))"

definition pf_get_profile :: "profile_registry \<Rightarrow> address \<Rightarrow> user_profile option" where
  "pf_get_profile s account = pr_Profile s account"

definition pf_delete_profile :: "address \<Rightarrow> profile_registry \<Rightarrow> profile_registry result" where
  "pf_delete_profile account s = Ok (s\<lparr>pr_Profile := (pr_Profile s)(account := None)\<rparr>)"

text \<open>
  Open registries (\<^verbatim>\<open>unprotected_delete\<close>, \<^verbatim>\<open>unsafe_storage\<close>): whatever is stored, anybody can replace or remove it, without a signature, and the accounts of others are not touched.
\<close>

theorem open_registries:
  "(\<exists>s1 s2. ude_set_entry a x s = Ok s1 \<and> ude_get_entry s1 a = Some x \<and> ude_delete_entry a s1 = Ok s2 \<and> ude_get_entry s2 a = None
      \<and> (b \<noteq> a \<longrightarrow> ude_get_entry s2 b = ude_get_entry s b))
   \<and> (\<exists>t1 t2. pf_set_profile a x k t = Ok t1 \<and> pf_get_profile t1 a = Some \<lparr>pf_display_name = x, pf_kyc_level = k\<rparr>
      \<and> pf_delete_profile a t1 = Ok t2 \<and> pf_get_profile t2 a = None \<and> (b \<noteq> a \<longrightarrow> pf_get_profile t2 b = pf_get_profile t b))"
  by (simp add: ude_set_entry_def ude_get_entry_def ude_delete_entry_def pf_set_profile_def pf_get_profile_def pf_delete_profile_def)

end
