(* ===== verification/Public_Data.thy ===== *)
theory Public_Data
  imports Token_Clients Soroban_Bytes
begin

text \<open>
  What a contract shows, and to whom it listens: \<^verbatim>\<open>leaky_events\<close>, \<^verbatim>\<open>missing_events\<close>, \<^verbatim>\<open>sensitive_storage\<close>, \<^verbatim>\<open>incomplete_blacklist\<close>,
  \<^verbatim>\<open>unchecked_kyc_level\<close> and \<^verbatim>\<open>caller_supplied_withdraw_token\<close>. Shown: what the event log of a token is a function of, what a stored secret
  reveals, whom a blacklist stops, the range of levels, and which tokens a withdrawal can touch.
\<close>

section \<open>leaky\_events\<close>

record logged_token = host +
  lt_Balance :: "address \<rightharpoonup> int"

definition lk_get_balance :: "logged_token \<Rightarrow> address \<Rightarrow> int" where
  "lk_get_balance s account = get0 (lt_Balance s) account"

definition lk_set_balance :: "address \<Rightarrow> int \<Rightarrow> logged_token \<Rightarrow> logged_token" where
  "lk_set_balance account amount s = s\<lparr>lt_Balance := (lt_Balance s)(account \<mapsto> amount)\<rparr>"

definition lk_mint :: "env \<Rightarrow> address \<Rightarrow> int \<Rightarrow> logged_token \<Rightarrow> logged_token result" where
  "lk_mint e to amount s =
     (let current = lk_get_balance s to in
      arith (checked_add I128 current amount) (\<lambda>n. Ok (lk_set_balance to n s)))"

definition lk_transfer :: "env \<Rightarrow> address \<Rightarrow> address \<Rightarrow> int \<Rightarrow> logged_token \<Rightarrow> logged_token result" where
  "lk_transfer e from to amount s =
     require_auth e from (
     let from_bal = lk_get_balance s from in
     ensure (from_bal \<ge> amount) ''insufficient balance'' (
     arith (checked_sub I128 from_bal amount) (\<lambda>new_from_balance.
     arith (checked_add I128 (lk_get_balance s to) amount) (\<lambda>new_to_balance.
     let s1 = lk_set_balance from new_from_balance s;
         s2 = lk_set_balance to new_to_balance s1 in
     Ok (publish [''transfer''] [VAddr from, VAddr to, VInt new_from_balance, VInt new_to_balance] s2)))))"

definition lk_balance :: "logged_token \<Rightarrow> address \<Rightarrow> int" where
  "lk_balance s account = lk_get_balance s account"

definition lks_mint :: "env \<Rightarrow> address \<Rightarrow> int \<Rightarrow> logged_token \<Rightarrow> logged_token result" where
  "lks_mint e to amount s =
     (let current = lk_get_balance s to in
      arith (checked_add I128 current amount) (\<lambda>n. Ok (lk_set_balance to n s)))"

definition lks_transfer :: "env \<Rightarrow> address \<Rightarrow> address \<Rightarrow> int \<Rightarrow> logged_token \<Rightarrow> logged_token result" where
  "lks_transfer e from to amount s =
     require_auth e from (
     let from_bal = lk_get_balance s from in
     ensure (from_bal \<ge> amount) ''insufficient balance'' (
     arith (checked_sub I128 from_bal amount) (\<lambda>n.
     let s1 = lk_set_balance from n s in
     arith (checked_add I128 (lk_get_balance s1 to) amount) (\<lambda>m.
     let s2 = lk_set_balance to m s1 in
     Ok (publish [''transfer''] [VAddr from, VAddr to, VInt amount] s2)))))"

definition lks_balance :: "logged_token \<Rightarrow> address \<Rightarrow> int" where
  "lks_balance s account = lk_get_balance s account"

datatype logged_call = LMint address int | LTransfer address address int | LBurn address int

fun lks_exec :: "env \<Rightarrow> logged_call \<Rightarrow> logged_token \<Rightarrow> logged_token result" where
  "lks_exec e (LMint a n) s = lks_mint e a n s"
| "lks_exec e (LTransfer a b n) s = lks_transfer e a b n s"
| "lks_exec e (LBurn a n) s = Err NoContract"

text \<open>What an outsider is told of a call.\<close>

fun told :: "logged_call \<Rightarrow> event option" where
  "told (LTransfer a b n) = Some ([''transfer''], [VAddr a, VAddr b, VInt n])"
| "told _ = None"

definition told_of :: "logged_call list \<Rightarrow> event list" where
  "told_of cs = List.map_filter told cs"

lemma told_of_simps [simp]: "told_of [] = []" "told_of (c # cs) = (case told c of None \<Rightarrow> told_of cs | Some x \<Rightarrow> x # told_of cs)"
  by (auto simp: told_of_def List.map_filter_simps split: option.splits)

text \<open>A log that records the calls: after every successful call it is longer by what is told of it.\<close>

locale recorded_calls =
  fixes exec :: "env \<Rightarrow> logged_call \<Rightarrow> logged_token \<Rightarrow> logged_token result"
  assumes exec_told: "exec e c s = Ok s' \<Longrightarrow> events s' = events s @ told_of [c]"
begin

lemma run_told: "events (run_calls exec xs s) = events s @ told_of (successes exec xs s)"
proof (induction xs arbitrary: s)
  case (Cons x xs)
  obtain e c where x: "x = (e, c)" by force
  show ?case
  proof (cases "exec e c s")
    case (Inr t)
    with Cons.IH [of t] exec_told [OF Inr] x show ?thesis by (simp split: option.splits)
  qed (use Cons x in simp)
qed simp

end

interpretation quiet_log: recorded_calls lks_exec
proof
  fix e c s s'
  assume "lks_exec e c s = Ok s'"
  then show "events s' = events s @ told_of [c]"
    by (cases c) (auto simp: lks_mint_def lks_transfer_def lk_set_balance_def publish_def result_simps Let_def)
qed

lemma leaked:
  assumes "lk_transfer e a b n s = Ok s'" and "a \<noteq> b"
  shows "events s' = events s @ [([''transfer''], [VAddr a, VAddr b, VInt (lk_balance s' a), VInt (lk_balance s' b)])]"
  using assms by (auto simp: lk_transfer_def lk_balance_def lk_get_balance_def lk_set_balance_def publish_def result_simps int_simps Let_def)

text \<open>
  Events (\<^verbatim>\<open>leaky_events\<close>): the log of the repaired token is a function of the successful calls alone, whatever the balances are; an event of the original shows the
  balances of both parties.
\<close>

theorem log_shows_calls_not_balances:
  "events (run_calls lks_exec xs s) = events s @ told_of (successes lks_exec xs s)
   \<and> (lk_transfer e a b n t = Ok t' \<and> a \<noteq> b
      \<longrightarrow> events t' = events t @ [([''transfer''], [VAddr a, VAddr b, VInt (lk_balance t' a), VInt (lk_balance t' b)])])"
  using quiet_log.run_told leaked by blast

definition logged_demo :: logged_token where
  "logged_demo = \<lparr>events = [], lt_Balance = [Address 1 \<mapsto> 70]\<rparr>"

theorem log_shows_calls_not_balances_witness:
  "\<exists>t'. lk_transfer (signed_env [Address 1] 1) (Address 1) (Address 2) 30 logged_demo = Ok t'
     \<and> events t' = [([''transfer''], [VAddr (Address 1), VAddr (Address 2), VInt 40, VInt 30])]"
proof -
  let ?t = "\<lparr>events = [([''transfer''], [VAddr (Address 1), VAddr (Address 2), VInt 40, VInt 30])], lt_Balance = [Address 1 \<mapsto> 40, Address 2 \<mapsto> 30]\<rparr> :: logged_token"
  have ok: "lk_transfer (signed_env [Address 1] 1) (Address 1) (Address 2) 30 logged_demo = Ok ?t"
    by (simp add: lk_transfer_def lk_get_balance_def lk_set_balance_def logged_demo_def signed_env_def publish_def checked_ops in_range_def)
  with log_shows_calls_not_balances [THEN conjunct2, of "signed_env [Address 1] 1" "Address 1" "Address 2" 30 logged_demo ?t] show ?thesis
    by (simp add: logged_demo_def lk_balance_def lk_get_balance_def)
qed

lemma leaky_self_transfer_inflates:
  assumes "authorized e a" and "lk_balance s a = 50"
  shows "\<exists>s'. lk_transfer e a a 20 s = Ok s' \<and> lk_balance s' a = 70"
  using assms by (simp add: lk_transfer_def lk_balance_def lk_get_balance_def lk_set_balance_def publish_def checked_ops in_range_def)

section \<open>missing\_events\<close>

definition me_mint :: "env \<Rightarrow> address \<Rightarrow> int \<Rightarrow> logged_token \<Rightarrow> logged_token result" where
  "me_mint e to amount s =
     (let current = get0 (lt_Balance s) to in
      arith (checked_add I128 current amount) (\<lambda>n. Ok (s\<lparr>lt_Balance := (lt_Balance s)(to \<mapsto> n)\<rparr>)))"

definition me_burn :: "env \<Rightarrow> address \<Rightarrow> int \<Rightarrow> logged_token \<Rightarrow> logged_token result" where
  "me_burn e from amount s =
     (let current = get0 (lt_Balance s) from in
      arith (checked_sub I128 current amount) (\<lambda>n. Ok (s\<lparr>lt_Balance := (lt_Balance s)(from \<mapsto> n)\<rparr>)))"

definition me_transfer :: "env \<Rightarrow> address \<Rightarrow> address \<Rightarrow> int \<Rightarrow> logged_token \<Rightarrow> logged_token result" where
  "me_transfer e from to amount s =
     (let from_balance = get0 (lt_Balance s) from;
          to_balance = get0 (lt_Balance s) to in
      arith (checked_sub I128 from_balance amount) (\<lambda>n.
      let s1 = s\<lparr>lt_Balance := (lt_Balance s)(from \<mapsto> n)\<rparr> in
      arith (checked_add I128 to_balance amount) (\<lambda>m.
      let s2 = s1\<lparr>lt_Balance := (lt_Balance s1)(to \<mapsto> m)\<rparr> in
      Ok (publish [''transfer''] [VAddr from, VAddr to, VInt amount] s2))))"

definition me_balance :: "logged_token \<Rightarrow> address \<Rightarrow> int" where
  "me_balance s account = get0 (lt_Balance s) account"

fun me_exec :: "env \<Rightarrow> logged_call \<Rightarrow> logged_token \<Rightarrow> logged_token result" where
  "me_exec e (LMint a n) s = me_mint e a n s"
| "me_exec e (LTransfer a b n) s = me_transfer e a b n s"
| "me_exec e (LBurn a n) s = me_burn e a n s"

interpretation silent_log: recorded_calls me_exec
proof
  fix e c s s'
  assume "me_exec e c s = Ok s'"
  then show "events s' = events s @ told_of [c]"
    by (cases c) (auto simp: me_mint_def me_burn_def me_transfer_def publish_def result_simps Let_def)
qed

fun not_told :: "env \<Rightarrow> logged_call \<Rightarrow> logged_token \<Rightarrow> int" where
  "not_told e (LMint a n) s = n"
| "not_told e (LBurn a n) s = - n"
| "not_told e (LTransfer a b n) s = (if a = b then n else 0)"

interpretation silent_supply: conserved_flow me_exec "\<lambda>s. finite (dom (lt_Balance s))" "\<lambda>s. sum_bal (lt_Balance s)" not_told
proof
  fix e c s s'
  assume fin: "finite (dom (lt_Balance s))" and ok: "me_exec e c s = Ok s'"
  then show "finite (dom (lt_Balance s'))"
    by (cases c) (auto simp: me_mint_def me_burn_def me_transfer_def publish_def result_simps Let_def)
  have f: "finite (dom ((lt_Balance s)(a \<mapsto> v)))" for a v using fin by simp
  show "sum_bal (lt_Balance s') = sum_bal (lt_Balance s) + not_told e c s"
    using ok by (cases c)
      (auto simp: me_mint_def me_burn_def me_transfer_def publish_def sum_bal_update [OF fin] sum_bal_update [OF f] result_simps int_simps Let_def simp del: fun_upd_apply)
qed

text \<open>
  The log of \<^verbatim>\<open>missing_events\<close> records the successful transfers and nothing else, while the supply moves by what is minted and burned (and by transfers to oneself, which
  add their amount): what changes the supply is not in the log.
\<close>

theorem supply_moves_unlogged:
  assumes "finite (dom (lt_Balance s))"
  shows "events (run_calls me_exec xs s) = events s @ told_of (successes me_exec xs s)
    \<and> sum_bal (lt_Balance (run_calls me_exec xs s)) = sum_bal (lt_Balance s) + run_flow me_exec not_told xs s"
  using silent_log.run_told silent_supply.run_conserves [OF assms] by blast

theorem supply_moves_unlogged_witness:
  "events (run_calls me_exec [(signed_env [] 1, LMint (Address 3) 500)] logged_demo) = []
   \<and> sum_bal (lt_Balance (run_calls me_exec [(signed_env [] 1, LMint (Address 3) 500)] logged_demo)) = sum_bal (lt_Balance logged_demo) + 500"
proof -
  have "finite (dom (lt_Balance logged_demo))" by (simp add: logged_demo_def)
  from supply_moves_unlogged [OF this, of "[(signed_env [] 1, LMint (Address 3) 500)]"] show ?thesis
    by (simp add: me_mint_def logged_demo_def checked_add_def in_range_def)
qed

lemma anyone_burns: "in_range I128 (me_balance s a - n) \<Longrightarrow> \<exists>s'. me_burn e a n s = Ok s' \<and> me_balance s' a = me_balance s a - n \<and> events s' = events s"
  by (simp add: me_burn_def me_balance_def checked_sub_def)

section \<open>sensitive\_storage\<close>

record secret_store =
  ss_Admin :: "address option"
  ss_SecretKey :: "bytes option"
  ss_Commitment :: "bytes option"

definition scr_initialize :: "env \<Rightarrow> address \<Rightarrow> bytes \<Rightarrow> secret_store \<Rightarrow> secret_store result" where
  "scr_initialize e admin secret_key s =
     require_auth e admin (
     let s1 = s\<lparr>ss_Admin := Some admin\<rparr> in Ok (s1\<lparr>ss_SecretKey := Some secret_key\<rparr>))"

definition scr_get_secret :: "secret_store \<Rightarrow> bytes result" where
  "scr_get_secret s = expect (ss_SecretKey s) ''secret key not set'' Ok"

definition scr_get_admin :: "secret_store \<Rightarrow> address result" where
  "scr_get_admin s = expect (ss_Admin s) ''admin not initialized'' Ok"

definition scr_initialize_secure :: "env \<Rightarrow> address \<Rightarrow> bytes \<Rightarrow> secret_store \<Rightarrow> secret_store result" where
  "scr_initialize_secure e admin secret_hash s =
     require_auth e admin (
     let s1 = s\<lparr>ss_Admin := Some admin\<rparr> in Ok (s1\<lparr>ss_Commitment := Some secret_hash\<rparr>))"

definition scr_get_commitment :: "secret_store \<Rightarrow> bytes result" where
  "scr_get_commitment s = expect (ss_Commitment s) ''commitment not set'' Ok"

datatype secret_call = XInitialize address bytes | XInitializeSecure address bytes

fun scr_exec :: "env \<Rightarrow> secret_call \<Rightarrow> secret_store \<Rightarrow> secret_store result" where
  "scr_exec e (XInitialize a k) s = scr_initialize e a k s"
| "scr_exec e (XInitializeSecure a k) s = scr_initialize_secure e a k s"

fun is_secure_init :: "secret_call \<Rightarrow> bool" where
  "is_secure_init (XInitializeSecure a k) = True"
| "is_secure_init _ = False"

interpretation secret_slot: isolated_part scr_exec scr_get_secret "\<lambda>c. \<not> is_secure_init c"
proof
  fix c s t e s'
  assume "\<not> is_secure_init c" "scr_exec e c s = Ok s'"
  then show "\<exists>t'. scr_exec e c t = Ok t' \<and> scr_get_secret t' = scr_get_secret s'"
    by (cases c) (auto simp: scr_initialize_def scr_get_secret_def result_simps Let_def)
next
  fix c e s s'
  assume "\<not> \<not> is_secure_init c" "scr_exec e c s = Ok s'"
  then show "scr_get_secret s' = scr_get_secret s"
    by (cases c) (auto simp: scr_initialize_secure_def scr_get_secret_def result_simps Let_def)
qed

text \<open>
  Secrets (\<^verbatim>\<open>sensitive_storage\<close>): a run that only uses the repaired initialisation leaves nothing for \<^verbatim>\<open>get_secret\<close> to return, while after the original one anybody reads the key.
\<close>

lemma commitments_store_no_secret:
  "(\<forall>(e, c)\<in>set xs. is_secure_init c) \<and> ss_SecretKey s = None \<longrightarrow> scr_get_secret (run_calls scr_exec xs s) = Err (Panic ''secret key not set'')"
  "scr_initialize e a k s = Ok s' \<longrightarrow> scr_get_secret s' = Ok k"
proof -
  have "filter (\<lambda>(e, c). \<not> is_secure_init c) xs = []" if "\<forall>(e, c)\<in>set xs. is_secure_init c" using that by (auto simp: filter_empty_conv)
  then show "(\<forall>(e, c)\<in>set xs. is_secure_init c) \<and> ss_SecretKey s = None \<longrightarrow> scr_get_secret (run_calls scr_exec xs s) = Err (Panic ''secret key not set'')"
    using secret_slot.run_isolated [of s s xs] by (auto simp: scr_get_secret_def)
  show "scr_initialize e a k s = Ok s' \<longrightarrow> scr_get_secret s' = Ok k"
    by (auto simp: scr_initialize_def scr_get_secret_def result_simps Let_def)
qed

lemma secret_admin_replaced:
  assumes "authorized e a"
  shows "\<exists>s'. scr_initialize_secure e a k s = Ok s' \<and> scr_get_admin s' = Ok a \<and> scr_get_commitment s' = Ok k"
  using assms by (simp add: scr_initialize_secure_def scr_get_admin_def scr_get_commitment_def)

section \<open>incomplete\_blacklist\<close>

record blacklist_token = host +
  bl_Balance :: "address \<rightharpoonup> int"
  bl_Blacklisted :: "address \<rightharpoonup> bool"

definition ib_mint :: "env \<Rightarrow> address \<Rightarrow> int \<Rightarrow> blacklist_token \<Rightarrow> blacklist_token result" where
  "ib_mint e to amount s =
     (let current = get0 (bl_Balance s) to in
      arith (checked_add I128 current amount) (\<lambda>n. Ok (s\<lparr>bl_Balance := (bl_Balance s)(to \<mapsto> n)\<rparr>)))"

definition ib_blacklist :: "env \<Rightarrow> address \<Rightarrow> blacklist_token \<Rightarrow> blacklist_token result" where
  "ib_blacklist e account s = Ok (s\<lparr>bl_Blacklisted := (bl_Blacklisted s)(account \<mapsto> True)\<rparr>)"

text \<open>The event before the panic is taken back with it.\<close>

definition ib_transfer :: "env \<Rightarrow> address \<Rightarrow> address \<Rightarrow> int \<Rightarrow> blacklist_token \<Rightarrow> blacklist_token result" where
  "ib_transfer e from to amount s =
     require_auth e from (
     if unwrap_or (bl_Blacklisted s to) False
     then (let s1 = publish [''blocked''] [VAddr from, VAddr to, VInt amount] s in panic_if True ''recipient is blacklisted'' (Ok s1))
     else
     let from_bal = get0 (bl_Balance s) from;
         to_bal = get0 (bl_Balance s) to in
     arith (checked_sub I128 from_bal amount) (\<lambda>n.
     let s1 = s\<lparr>bl_Balance := (bl_Balance s)(from \<mapsto> n)\<rparr> in
     arith (checked_add I128 to_bal amount) (\<lambda>m.
     let s2 = s1\<lparr>bl_Balance := (bl_Balance s1)(to \<mapsto> m)\<rparr> in
     Ok (publish [''transfer''] [VAddr from, VAddr to, VInt amount] s2))))"

definition ib_balance :: "blacklist_token \<Rightarrow> address \<Rightarrow> int" where
  "ib_balance s account = get0 (bl_Balance s) account"

definition ibs_mint :: "env \<Rightarrow> address \<Rightarrow> int \<Rightarrow> blacklist_token \<Rightarrow> blacklist_token result" where
  "ibs_mint e to amount s =
     (let current = get0 (bl_Balance s) to in
      arith (checked_add I128 current amount) (\<lambda>n. Ok (s\<lparr>bl_Balance := (bl_Balance s)(to \<mapsto> n)\<rparr>)))"

definition ibs_blacklist :: "env \<Rightarrow> address \<Rightarrow> blacklist_token \<Rightarrow> blacklist_token result" where
  "ibs_blacklist e account s = Ok (s\<lparr>bl_Blacklisted := (bl_Blacklisted s)(account \<mapsto> True)\<rparr>)"

definition ibs_transfer :: "env \<Rightarrow> address \<Rightarrow> address \<Rightarrow> int \<Rightarrow> blacklist_token \<Rightarrow> blacklist_token result" where
  "ibs_transfer e from to amount s =
     require_auth e from (
     if unwrap_or (bl_Blacklisted s from) False
     then (let s1 = publish [''blocked''] [VAddr from, VAddr to, VInt amount] s in panic_if True ''sender is blacklisted'' (Ok s1))
     else if unwrap_or (bl_Blacklisted s to) False
     then (let s1 = publish [''blocked''] [VAddr from, VAddr to, VInt amount] s in panic_if True ''recipient is blacklisted'' (Ok s1))
     else
     let from_bal = get0 (bl_Balance s) from;
         to_bal = get0 (bl_Balance s) to in
     arith (checked_sub I128 from_bal amount) (\<lambda>n.
     let s1 = s\<lparr>bl_Balance := (bl_Balance s)(from \<mapsto> n)\<rparr> in
     arith (checked_add I128 to_bal amount) (\<lambda>m.
     let s2 = s1\<lparr>bl_Balance := (bl_Balance s1)(to \<mapsto> m)\<rparr> in
     Ok (publish [''transfer''] [VAddr from, VAddr to, VInt amount] s2))))"

definition ibs_balance :: "blacklist_token \<Rightarrow> address \<Rightarrow> int" where
  "ibs_balance s account = get0 (bl_Balance s) account"

datatype blacklist_call = BlMint address int | BlBlacklist address | BlTransfer address address int

fun ib_exec :: "env \<Rightarrow> blacklist_call \<Rightarrow> blacklist_token \<Rightarrow> blacklist_token result" where
  "ib_exec e (BlMint a n) s = ib_mint e a n s"
| "ib_exec e (BlBlacklist a) s = ib_blacklist e a s"
| "ib_exec e (BlTransfer a b n) s = ib_transfer e a b n s"

fun ibs_exec :: "env \<Rightarrow> blacklist_call \<Rightarrow> blacklist_token \<Rightarrow> blacklist_token result" where
  "ibs_exec e (BlMint a n) s = ibs_mint e a n s"
| "ibs_exec e (BlBlacklist a) s = ibs_blacklist e a s"
| "ibs_exec e (BlTransfer a b n) s = ibs_transfer e a b n s"

definition listed :: "blacklist_token \<Rightarrow> address \<Rightarrow> bool" where
  "listed s a \<longleftrightarrow> unwrap_or (bl_Blacklisted s a) False"

fun sender_allowed :: "env \<Rightarrow> blacklist_call \<Rightarrow> blacklist_token \<Rightarrow> bool" where
  "sender_allowed e (BlTransfer a b n) s = (\<not> listed s a)"
| "sender_allowed e _ s = True"

interpretation sender_hardened: hardened ib_exec ibs_exec sender_allowed
proof
  fix e c s s'
  show "ibs_exec e c s = Ok s' \<longleftrightarrow> sender_allowed e c s \<and> ib_exec e c s = Ok s'"
    by (cases c) (auto simp: ib_mint_def ibs_mint_def ib_blacklist_def ibs_blacklist_def ib_transfer_def ibs_transfer_def listed_def Let_def result_simps)
qed

fun moves_account :: "address \<Rightarrow> env \<Rightarrow> blacklist_call \<Rightarrow> blacklist_token \<Rightarrow> bool" where
  "moves_account a e (BlMint b n) s = (b = a)"
| "moves_account a e (BlTransfer b c n) s = ((b = a \<or> c = a) \<and> authorized e b \<and> \<not> listed s b \<and> \<not> listed s c)"
| "moves_account a e _ s = False"

interpretation account_moves: guarded_view ibs_exec "\<lambda>s. ibs_balance s a" "moves_account a" for a
proof
  fix e c s s'
  assume "ibs_exec e c s = Ok s'" "ibs_balance s' a \<noteq> ibs_balance s a"
  then show "moves_account a e c s"
    by (cases c) (auto simp: ibs_mint_def ibs_blacklist_def ibs_transfer_def ibs_balance_def listed_def publish_def Let_def result_simps int_simps split: if_splits)
qed

interpretation listing_stays: contract_progress ibs_exec "\<lambda>s t. \<forall>a. listed s a \<longrightarrow> listed t a"
proof
  fix e c s s'
  assume "ibs_exec e c s = Ok s'"
  then show "\<forall>a. listed s a \<longrightarrow> listed s' a"
    by (cases c) (auto simp: ibs_mint_def ibs_blacklist_def ibs_transfer_def listed_def publish_def unwrap_or_def Let_def result_simps split: if_splits)
qed auto

text \<open>
  The blacklist (\<^verbatim>\<open>incomplete_blacklist/src/secure.rs\<close>): a listed account stays listed, and its balance changes in a run only if the run mints to it.
\<close>

theorem listed_account_frozen:
  assumes "listed s a" and "ibs_balance (run_calls ibs_exec xs s) a \<noteq> ibs_balance s a"
  shows "listed (run_calls ibs_exec xs s) a \<and> (\<exists>ys e n zs. xs = ys @ (e, BlMint a n) # zs)"
proof -
  obtain ys e c zs where c: "xs = ys @ (e, c) # zs" "moves_account a e c (run_calls ibs_exec ys s)"
    using account_moves.run_view [OF assms(2)] by blast
  have "listed (run_calls ibs_exec zs s) a" for zs using listing_stays.run_le [of s zs] assms(1) by blast
  with c show ?thesis by (cases c) auto
qed

theorem listed_account_frozen_witness:
  "\<exists>ys e n zs. [(signed_env [] 1, BlMint (Address 1) 5)] = ys @ (e, BlMint (Address 1) n) # zs"
proof -
  let ?s = "\<lparr>events = [], bl_Balance = Map.empty, bl_Blacklisted = [Address 1 \<mapsto> True]\<rparr> :: blacklist_token"
  have "listed ?s (Address 1)" by (simp add: listed_def unwrap_or_def)
  moreover have "ibs_balance (run_calls ibs_exec [(signed_env [] 1, BlMint (Address 1) 5)] ?s) (Address 1) \<noteq> ibs_balance ?s (Address 1)"
    by (simp add: ibs_mint_def ibs_balance_def checked_add_def in_range_def)
  ultimately show ?thesis using listed_account_frozen by blast
qed

lemma listed_sender_moves:
  assumes "authorized e a" and "listed s a" and "\<not> listed s b" and "a \<noteq> b" and "ib_balance s a = 10" and "ib_balance s b = 0"
  shows "\<exists>s'. ib_transfer e a b 10 s = Ok s' \<and> ib_balance s' b = 10"
  using assms by (simp add: ib_transfer_def ib_balance_def listed_def publish_def checked_ops in_range_def)

lemma anyone_blacklists: "\<exists>s'. ibs_blacklist e a s = Ok s' \<and> listed s' a"
  by (simp add: ibs_blacklist_def listed_def unwrap_or_def)

lemma blacklist_token_overdraws:
  assumes "authorized e a" and "\<not> listed s a" and "\<not> listed s b" and "a \<noteq> b" and "ibs_balance s a = 0" and "ibs_balance s b = 0"
  shows "\<exists>s'. ibs_transfer e a b 10 s = Ok s' \<and> ibs_balance s' a = - 10 \<and> ibs_balance s' b = 10"
  using assms by (simp add: ibs_transfer_def ibs_balance_def listed_def publish_def checked_ops in_range_def)

section \<open>unchecked\_kyc\_level\<close>

definition MAX_KYC_LEVEL :: int where "MAX_KYC_LEVEL = 3"

record kyc_store =
  kt_Admin :: "address option"
  kt_KycLevel :: "address \<rightharpoonup> int"

definition ky_initialize :: "env \<Rightarrow> address \<Rightarrow> kyc_store \<Rightarrow> kyc_store result" where
  "ky_initialize e admin s = panic_if (kt_Admin s \<noteq> None) ''already initialized'' (Ok (s\<lparr>kt_Admin := Some admin\<rparr>))"

definition ky_set_kyc_level :: "env \<Rightarrow> address \<Rightarrow> int \<Rightarrow> kyc_store \<Rightarrow> kyc_store result" where
  "ky_set_kyc_level e user level s =
     expect (kt_Admin s) ''not initialized'' (\<lambda>admin.
     require_auth e admin (Ok (s\<lparr>kt_KycLevel := (kt_KycLevel s)(user \<mapsto> level)\<rparr>)))"

definition ky_get_kyc_level :: "kyc_store \<Rightarrow> address \<Rightarrow> int" where
  "ky_get_kyc_level s user = get0 (kt_KycLevel s) user"

definition kys_initialize :: "env \<Rightarrow> address \<Rightarrow> kyc_store \<Rightarrow> kyc_store result" where
  "kys_initialize e admin s = panic_if (kt_Admin s \<noteq> None) ''already initialized'' (Ok (s\<lparr>kt_Admin := Some admin\<rparr>))"

definition kys_set_kyc_level :: "env \<Rightarrow> address \<Rightarrow> int \<Rightarrow> kyc_store \<Rightarrow> kyc_store result" where
  "kys_set_kyc_level e user level s =
     expect (kt_Admin s) ''not initialized'' (\<lambda>admin.
     require_auth e admin (
     panic_if (level > MAX_KYC_LEVEL) ''kyc_level out of range'' (
     Ok (s\<lparr>kt_KycLevel := (kt_KycLevel s)(user \<mapsto> level)\<rparr>))))"

definition kys_get_kyc_level :: "kyc_store \<Rightarrow> address \<Rightarrow> int" where
  "kys_get_kyc_level s user = get0 (kt_KycLevel s) user"

datatype kyc_call = KyInitialize address | KySet address int

fun ky_exec :: "env \<Rightarrow> kyc_call \<Rightarrow> kyc_store \<Rightarrow> kyc_store result" where
  "ky_exec e (KyInitialize a) s = ky_initialize e a s"
| "ky_exec e (KySet a n) s = ky_set_kyc_level e a n s"

fun kys_exec :: "env \<Rightarrow> kyc_call \<Rightarrow> kyc_store \<Rightarrow> kyc_store result" where
  "kys_exec e (KyInitialize a) s = kys_initialize e a s"
| "kys_exec e (KySet a n) s = kys_set_kyc_level e a n s"

fun level_in_range :: "env \<Rightarrow> kyc_call \<Rightarrow> kyc_store \<Rightarrow> bool" where
  "level_in_range e (KySet a n) s = (n \<le> MAX_KYC_LEVEL)"
| "level_in_range e _ s = True"

interpretation level_hardened: hardened ky_exec kys_exec level_in_range
proof
  fix e c s s'
  show "kys_exec e c s = Ok s' \<longleftrightarrow> level_in_range e c s \<and> ky_exec e c s = Ok s'"
    by (cases c) (auto simp: ky_initialize_def kys_initialize_def ky_set_kyc_level_def kys_set_kyc_level_def result_simps)
qed

interpretation levels_bounded: contract_invariant kys_exec "\<lambda>s. \<forall>a. kys_get_kyc_level s a \<le> MAX_KYC_LEVEL"
proof
  fix s e c s'
  assume "\<forall>a. kys_get_kyc_level s a \<le> MAX_KYC_LEVEL" "kys_exec e c s = Ok s'"
  then show "\<forall>a. kys_get_kyc_level s' a \<le> MAX_KYC_LEVEL"
    by (cases c) (auto simp: kys_initialize_def kys_set_kyc_level_def kys_get_kyc_level_def result_simps)
qed

fun admin_sets :: "address \<Rightarrow> env \<Rightarrow> kyc_call \<Rightarrow> kyc_store \<Rightarrow> int \<Rightarrow> bool" where
  "admin_sets u e (KySet b n) s v = (b = u \<and> v = n \<and> (\<exists>a. kt_Admin s = Some a \<and> authorized e a))"
| "admin_sets u e _ s v = False"

interpretation levels_written: written_view kys_exec "\<lambda>s. kys_get_kyc_level s u" "admin_sets u" for u
proof
  fix e c s s'
  assume "kys_exec e c s = Ok s'" "kys_get_kyc_level s' u \<noteq> kys_get_kyc_level s u"
  then show "admin_sets u e c s (kys_get_kyc_level s' u)"
    by (cases c) (auto simp: kys_initialize_def kys_set_kyc_level_def kys_get_kyc_level_def result_simps split: if_splits)
qed

text \<open>
  Levels (\<^verbatim>\<open>unchecked_kyc_level/src/secure.rs\<close>): from a fresh contract on no level exceeds the maximum, and a level other than zero was set to that value in a call the admin signed.
\<close>

theorem levels_in_range_and_signed:
  assumes "kt_KycLevel s = Map.empty"
  shows "kys_get_kyc_level (run_calls kys_exec xs s) u \<le> MAX_KYC_LEVEL
    \<and> (kys_get_kyc_level (run_calls kys_exec xs s) u \<noteq> 0
       \<longrightarrow> (\<exists>ys e zs a. xs = ys @ (e, KySet u (kys_get_kyc_level (run_calls kys_exec xs s) u)) # zs
              \<and> kt_Admin (run_calls kys_exec ys s) = Some a \<and> authorized e a))"
proof -
  let ?t = "run_calls kys_exec xs s"
  have z: "kys_get_kyc_level s v = 0" for v using assms by (simp add: kys_get_kyc_level_def get0_def)
  then have "kys_get_kyc_level ?t u \<le> MAX_KYC_LEVEL"
    using levels_bounded.run_inv [of s xs] by (auto simp: MAX_KYC_LEVEL_def)
  moreover have "\<exists>ys e zs a. xs = ys @ (e, KySet u (kys_get_kyc_level ?t u)) # zs \<and> kt_Admin (run_calls kys_exec ys s) = Some a \<and> authorized e a"
    if "kys_get_kyc_level ?t u \<noteq> 0"
  proof -
    have "kys_get_kyc_level ?t u \<noteq> kys_get_kyc_level s u" using that z by simp
    from levels_written.run_writes [OF this] obtain ys e c zs
      where w: "xs = ys @ (e, c) # zs" "admin_sets u e c (run_calls kys_exec ys s) (kys_get_kyc_level ?t u)" by blast
    then obtain n a where "c = KySet u n" "kys_get_kyc_level ?t u = n" "kt_Admin (run_calls kys_exec ys s) = Some a" "authorized e a" by (cases c) auto
    with w(1) show ?thesis by metis
  qed
  ultimately show ?thesis by blast
qed

theorem levels_in_range_and_signed_witness:
  "kys_get_kyc_level (run_calls kys_exec [(signed_env [Address 1] 1, KySet (Address 2) 3), (signed_env [Address 1] 2, KySet (Address 2) 9)]
     \<lparr>kt_Admin = Some (Address 1), kt_KycLevel = Map.empty\<rparr>) (Address 2) \<le> 3"
  using levels_in_range_and_signed [THEN conjunct1, of "\<lparr>kt_Admin = Some (Address 1), kt_KycLevel = Map.empty\<rparr>"
      "[(signed_env [Address 1] 1, KySet (Address 2) 3), (signed_env [Address 1] 2, KySet (Address 2) 9)]" "Address 2"]
  by (simp add: MAX_KYC_LEVEL_def)

lemma any_level_stored:
  assumes "kt_Admin s = Some a" and "authorized e a"
  shows "\<exists>s'. ky_set_kyc_level e u n s = Ok s' \<and> ky_get_kyc_level s' u = n"
  using assms by (simp add: ky_set_kyc_level_def ky_get_kyc_level_def)

section \<open>caller\_supplied\_withdraw\_token\<close>

definition wt_withdraw :: "'w token_client \<Rightarrow> env \<Rightarrow> address \<Rightarrow> address \<Rightarrow> int \<Rightarrow> 'w \<Rightarrow> 'w result" where
  "wt_withdraw tk e caller payout_token amount w =
     require_auth e caller (tk_transfer tk payout_token (current_contract e) caller amount w)"

record payout_store =
  po_token :: "address option"

definition wts_init :: "env \<Rightarrow> address \<Rightarrow> payout_store \<Rightarrow> payout_store result" where
  "wts_init e token_id s = Ok (s\<lparr>po_token := Some token_id\<rparr>)"

definition wts_withdraw :: "'w token_client \<Rightarrow> env \<Rightarrow> address \<Rightarrow> int \<Rightarrow> payout_store \<times> 'w \<Rightarrow> (payout_store \<times> 'w) result" where
  "wts_withdraw tk e caller amount = (\<lambda>(s, w).
     require_auth e caller (
     unwrap (po_token s) (\<lambda>authorized_token.
     and_then (tk_transfer tk authorized_token (current_contract e) caller amount w) (\<lambda>w1. Ok (s, w1)))))"

definition payout_exec :: "'w token_client \<Rightarrow> env \<Rightarrow> address \<times> int \<Rightarrow> payout_store \<times> 'w \<Rightarrow> (payout_store \<times> 'w) result" where
  "payout_exec tk e = (\<lambda>(a, n). wts_withdraw tk e a n)"

context sound_tokens
begin

lemma payout_spares:
  assumes "po_token s = Some t" and "t' \<noteq> t"
  shows "po_token (fst (run_calls (payout_exec tk) xs (s, w))) = Some t \<and> tk_balance tk t' x (snd (run_calls (payout_exec tk) xs (s, w))) = tk_balance tk t' x w"
  using assms(1)
proof (induction xs arbitrary: s w)
  case (Cons c xs)
  obtain e a n where c: "c = (e, a, n)" by (cases c)
  show ?case
  proof (cases "payout_exec tk e (a, n) (s, w)")
    case (Inr r)
    then obtain w1 where r: "r = (s, w1)" "tk_transfer tk t (current_contract e) a n w = Ok w1"
      using Cons.prems by (auto simp: payout_exec_def wts_withdraw_def result_simps)
    then have "tk_balance tk t' x w1 = tk_balance tk t' x w" using transfer_spares assms(2) by blast
    with Cons.IH [of s w1] Cons.prems Inr r c show ?thesis by simp
  qed (use Cons c in simp)
qed simp

end

text \<open>
  Withdrawals (\<^verbatim>\<open>caller_supplied_withdraw_token/src/secure.rs\<close>), for the tokens of the crates, each asked for the contract's own signature or for none: no run of withdrawals touches a
  token other than the configured one. The original takes any token the caller names.
\<close>

theorem only_configured_token_leaves:
  assumes "po_token s = Some t" and "t' \<noteq> t"
  shows "tk_balance std_tokens t' x (snd (run_calls (payout_exec std_tokens) xs (s, w))) = tk_balance std_tokens t' x w
    \<and> tk_balance (own_tokens e) t' x (snd (run_calls (payout_exec (own_tokens e)) ys (s, v))) = tk_balance (own_tokens e) t' x v"
  using std_tokens.payout_spares [OF assms] own_tokens.payout_spares [OF assms] by blast

theorem only_configured_token_leaves_witness:
  "tk_balance std_tokens (Address 8) (Address 99) (snd (run_calls (payout_exec std_tokens) [(signed_env [Address 1] 1, Address 1, 40)]
      (\<lparr>po_token = Some (Address 7)\<rparr>, \<lambda>t. [Address 99 \<mapsto> 100]))) = 100"
  using only_configured_token_leaves [THEN conjunct1, of "\<lparr>po_token = Some (Address 7)\<rparr>" "Address 7" "Address 8" "Address 99"
      "[(signed_env [Address 1] 1, Address 1, 40)]" "\<lambda>t. [Address 99 \<mapsto> 100]"]
  by (simp add: std_tokens_def std_balance_def)

lemma any_token_drained:
  assumes "authorized e a" and "std_balance (current_contract e) (w t) = 100" and "std_balance a (w t) = 0" and "a \<noteq> current_contract e"
  shows "\<exists>w'. wt_withdraw std_tokens e a t 100 w = Ok w' \<and> tk_balance std_tokens t a w' = 100"
  using assms by (simp add: wt_withdraw_def std_tokens_def std_transfer_def std_balance_def checked_ops in_range_def)

end
