(* ===== verification/Upgrades.thy ===== *)
theory Upgrades
  imports Admin_Roles Soroban_Bytes Soroban_Containers
begin

text \<open>
  Initialisation, administration and upgrades of the code: \<^verbatim>\<open>migration_version_skipped\<close>, \<^verbatim>\<open>zero_wasm_hash\<close>, \<^verbatim>\<open>upgrade_version_downgrade\<close>, \<^verbatim>\<open>unprotected_upgrade\<close>,
  \<^verbatim>\<open>reinit_attack\<close>, \<^verbatim>\<open>string_admin\<close>, \<^verbatim>\<open>zero_admin\<close>, \<^verbatim>\<open>unprotected_admin\<close>, \<^verbatim>\<open>current_contract_admin\<close> and \<^verbatim>\<open>public_archive_restore\<close>. The installed code is a field of the
  state, the hash last given to the deployer. Shown: what is migrated when, which code can be installed, and who administers.
\<close>

section \<open>migration\_version\_skipped\<close>

record migration =
  mg_Balances :: "(address, int) smap option"
  mg_SchemaVersion :: "int option"
  mg_Admin :: "address option"

text \<open>The loop of the migrations: every balance times a factor, into a new map.\<close>

fun scale_loop :: "int \<Rightarrow> (address \<times> int) list \<Rightarrow> (address, int) smap \<Rightarrow> (address, int) smap result" where
  "scale_loop k [] new_balances = Ok new_balances"
| "scale_loop k ((addr, balance) # rest) new_balances =
     arith (checked_mul I128 balance k) (\<lambda>n. scale_loop k rest (smap_set addr n new_balances))"

definition mv_init :: "env \<Rightarrow> address \<Rightarrow> migration \<Rightarrow> migration result" where
  "mv_init e admin s =
     (let balances = smap_set admin 1000000 [] in
      Ok (s\<lparr>mg_Admin := Some admin, mg_SchemaVersion := Some 0, mg_Balances := Some balances\<rparr>))"

definition mv_vulnerable_entry :: "env \<Rightarrow> address \<Rightarrow> int \<Rightarrow> migration \<Rightarrow> migration result" where
  "mv_vulnerable_entry e actor amount s =
     (let balances = unwrap_or (mg_Balances s) [] in
      and_then (scale_loop 2 balances []) (\<lambda>new_balances. Ok (s\<lparr>mg_Balances := Some new_balances\<rparr>)))"

definition migrate_vulnerable :: "env \<Rightarrow> address \<Rightarrow> migration \<Rightarrow> migration result" where
  "migrate_vulnerable e caller s =
     require_auth e caller (
     unwrap (mg_Admin s) (\<lambda>admin.
     panic_if (caller \<noteq> admin) ''not admin'' (
     let balances = unwrap_or (mg_Balances s) [] in
     and_then (scale_loop 10 balances []) (\<lambda>new_balances. Ok (s\<lparr>mg_Balances := Some new_balances\<rparr>)))))"

definition migrate_secure :: "env \<Rightarrow> address \<Rightarrow> int \<Rightarrow> migration \<Rightarrow> migration result" where
  "migrate_secure e caller expected_version s =
     require_auth e caller (
     unwrap (mg_Admin s) (\<lambda>admin.
     panic_if (caller \<noteq> admin) ''not admin'' (
     let current_version = unwrap_or (mg_SchemaVersion s) 0 in
     panic_if (current_version \<noteq> expected_version) ''version mismatch'' (
     let balances = unwrap_or (mg_Balances s) [] in
     and_then (scale_loop 10 balances []) (\<lambda>new_balances.
     let s1 = s\<lparr>mg_Balances := Some new_balances\<rparr> in
     arith (checked_add U32 current_version 1) (\<lambda>v. Ok (s1\<lparr>mg_SchemaVersion := Some v\<rparr>)))))))"

definition mv_get_balance :: "migration \<Rightarrow> address \<Rightarrow> int" where
  "mv_get_balance s addr = (let balances = unwrap_or (mg_Balances s) [] in unwrap_or (smap_get balances addr) 0)"

definition mv_get_schema_version :: "migration \<Rightarrow> int" where
  "mv_get_schema_version s = unwrap_or (mg_SchemaVersion s) 0"

definition migrate_exec :: "env \<Rightarrow> address \<times> int \<Rightarrow> migration \<Rightarrow> migration result" where
  "migrate_exec e = (\<lambda>(a, v). migrate_secure e a v)"

lemma scale_loop_map_of:
  assumes "scale_loop k xs m = Ok m'" and "smap_ok m" and "distinct (map fst xs)"
  shows "smap_ok m' \<and> (\<forall>a. map_of m' a = (case map_of xs a of Some v \<Rightarrow> Some (v * k) | None \<Rightarrow> map_of m a))"
  using assms
proof (induction k xs m rule: scale_loop.induct)
  case (2 k addr v rest m)
  let ?m = "smap_set addr (v * k) m"
  have r: "scale_loop k rest ?m = Ok m'" "distinct (map fst rest)" "addr \<notin> fst ` set rest"
    using "2.prems" by (auto simp: result_simps int_simps)
  have "smap_ok m' \<and> (\<forall>a. map_of m' a = (case map_of rest a of Some v \<Rightarrow> Some (v * k) | None \<Rightarrow> map_of ?m a))"
    by (rule "2.IH" [OF r(1)]) (use "2.prems"(2) r(2) smap_ok_set in auto)
  moreover have "map_of rest addr = None" using r(3) by (simp add: map_of_eq_None_iff)
  ultimately show ?case using map_of_smap_set [OF "2.prems"(2), of addr "v * k"] by (auto split: option.splits)
qed simp

definition balances_ok :: "migration \<Rightarrow> bool" where
  "balances_ok s \<longleftrightarrow> smap_ok (unwrap_or (mg_Balances s) [])"

lemma migrate_Ok:
  "migrate_exec e (a, v) s = Ok s' \<longleftrightarrow> authorized e a \<and> mg_Admin s = Some a \<and> v = mv_get_schema_version s \<and> in_range U32 (v + 1)
     \<and> (\<exists>m. scale_loop 10 (unwrap_or (mg_Balances s) []) [] = Ok m \<and> s' = s\<lparr>mg_Balances := Some m, mg_SchemaVersion := Some (v + 1)\<rparr>)"
  unfolding migrate_exec_def migrate_secure_def mv_get_schema_version_def
  by (cases "scale_loop 10 (unwrap_or (mg_Balances s) []) []") (auto simp: result_simps int_simps Let_def)

lemma migrate_step:
  assumes "migrate_exec e (a, v) s = Ok s'" and "balances_ok s"
  shows "balances_ok s' \<and> mv_get_balance s' x = mv_get_balance s x * 10 \<and> v = mv_get_schema_version s \<and> mv_get_schema_version s' = v + 1
    \<and> authorized e a \<and> mg_Admin s = Some a \<and> mg_Admin s' = mg_Admin s"
proof -
  let ?b = "unwrap_or (mg_Balances s) []"
  obtain m where m: "scale_loop 10 ?b [] = Ok m" "s' = s\<lparr>mg_Balances := Some m, mg_SchemaVersion := Some (v + 1)\<rparr>" "v = mv_get_schema_version s"
      "authorized e a" "mg_Admin s = Some a"
    using assms(1) unfolding migrate_Ok by blast
  have "distinct (map fst ?b)" using assms(2) by (auto simp: balances_ok_def smap_ok_def strict_sorted_iff)
  with scale_loop_map_of [OF m(1)] have "smap_ok m" "map_of m x = (case map_of ?b x of Some v \<Rightarrow> Some (v * 10) | None \<Rightarrow> None)"
    by (auto simp: smap_ok_def split: option.splits)
  with m show ?thesis
    by (auto simp: balances_ok_def mv_get_balance_def mv_get_schema_version_def smap_get_def unwrap_or_def Let_def split: option.splits)
qed

interpretation migrations: single_use migrate_exec "\<lambda>(a, v). Some v" "\<lambda>s v. v < mv_get_schema_version s"
proof
  fix e c s s' k
  assume ok: "migrate_exec e c s = Ok s'"
  obtain a v where c: "c = (a, v)" by force
  with ok have "v = mv_get_schema_version s" "mv_get_schema_version s' = v + 1"
    unfolding c migrate_Ok by (auto simp: mv_get_schema_version_def unwrap_or_def)
  then show "k < mv_get_schema_version s' \<longleftrightarrow> k < mv_get_schema_version s \<or> (case c of (a, v) \<Rightarrow> Some v) = Some k" by (auto simp: c)
  show "(case c of (a, v) \<Rightarrow> Some v) = Some k \<Longrightarrow> \<not> k < mv_get_schema_version s" using ok unfolding c migrate_Ok by simp
qed

text \<open>
  Migrations (\<^verbatim>\<open>migration_version_skipped\<close>, the repaired entry point): in any run of migrations no version is migrated twice, the schema version counts the successful ones, and every
  balance has been multiplied by ten exactly that often.
\<close>

theorem versions_migrated_once:
  fixes xs :: "(env \<times> address \<times> int) list"
  assumes "balances_ok s"
  defines "ok \<equiv> successes migrate_exec xs s"
  shows "distinct (map snd ok) \<and> mv_get_schema_version (run_calls migrate_exec xs s) = mv_get_schema_version s + int (length ok)
    \<and> mv_get_balance (run_calls migrate_exec xs s) x = mv_get_balance s x * 10 ^ length ok"
proof -
  have keys: "List.map_filter (\<lambda>(a, v). Some v) ys = map snd ys" for ys :: "(address \<times> int) list"
    by (induction ys) (auto simp: List.map_filter_simps)
  have "mv_get_schema_version (run_calls migrate_exec xs s) = mv_get_schema_version s + int (length (successes migrate_exec xs s))
    \<and> mv_get_balance (run_calls migrate_exec xs s) x = mv_get_balance s x * 10 ^ length (successes migrate_exec xs s)"
    using assms(1)
  proof (induction xs arbitrary: s)
    case (Cons c xs)
    obtain e a v where c: "c = (e, a, v)" by (cases c)
    show ?case
    proof (cases "migrate_exec e (a, v) s")
      case (Inr t)
      with Cons.IH [of t] migrate_step [OF Inr Cons.prems, of x] c show ?thesis by simp
    qed (use Cons c in simp)
  qed simp
  then show ?thesis using migrations.keys_once [of xs s] unfolding keys ok_def by blast
qed

theorem versions_migrated_once_witness:
  "mv_get_balance (run_calls migrate_exec [(signed_env [Address 1] 1, Address 1, 0), (signed_env [Address 1] 2, Address 1, 0)]
     \<lparr>mg_Balances = Some [(Address 1, 7)], mg_SchemaVersion = Some 0, mg_Admin = Some (Address 1)\<rparr>) (Address 1) = 70"
proof -
  let ?s = "\<lparr>mg_Balances = Some [(Address 1, 7)], mg_SchemaVersion = Some 0, mg_Admin = Some (Address 1)\<rparr>"
  let ?xs = "[(signed_env [Address 1] 1, Address 1, 0), (signed_env [Address 1] 2, Address 1, 0)]"
  have "balances_ok ?s" by (simp add: balances_ok_def smap_ok_def unwrap_or_def)
  from versions_migrated_once [OF this, of ?xs "Address 1"] show ?thesis
    by (simp add: migrate_exec_def migrate_secure_def mv_get_balance_def smap_get_def signed_env_def unwrap_or_def checked_ops in_range_def)
qed

lemma migration_repeats:
  assumes "mg_Admin s = Some (Address 1)" and "mg_Balances s = Some [(Address 1, 7)]"
  shows "\<exists>s1 s2. migrate_vulnerable (signed_env [Address 1] 1) (Address 1) s = Ok s1
    \<and> migrate_vulnerable (signed_env [Address 1] 2) (Address 1) s1 = Ok s2 \<and> mv_get_balance s2 (Address 1) = 700"
  using assms by (simp add: migrate_vulnerable_def mv_get_balance_def smap_get_def signed_env_def unwrap_or_def checked_ops in_range_def)

text \<open>Anybody initialises again: the version is zero, and the caller holds a million.\<close>

lemma reinit_resets_version:
  "\<exists>s'. mv_init e a s = Ok s' \<and> mv_get_schema_version s' = 0 \<and> mv_get_balance s' a = 1000000 \<and> mg_Admin s' = Some a"
  by (simp add: mv_init_def mv_get_schema_version_def mv_get_balance_def smap_get_def unwrap_or_def)

section \<open>zero\_wasm\_hash\<close>

record upgradable =
  ug_Admin :: "address option"
  ug_wasm :: "bytes option" \<comment> \<open>the code last installed\<close>

definition zw_initialize :: "env \<Rightarrow> address \<Rightarrow> upgradable \<Rightarrow> upgradable result" where
  "zw_initialize e admin s = panic_if (ug_Admin s \<noteq> None) ''already initialized'' (Ok (s\<lparr>ug_Admin := Some admin\<rparr>))"

definition zw_upgrade :: "env \<Rightarrow> bytes \<Rightarrow> upgradable \<Rightarrow> upgradable result" where
  "zw_upgrade e new_wasm_hash s =
     expect (ug_Admin s) ''not initialized'' (\<lambda>admin.
     require_auth e admin (Ok (s\<lparr>ug_wasm := Some new_wasm_hash\<rparr>)))"

definition zw_get_admin :: "upgradable \<Rightarrow> address result" where
  "zw_get_admin s = expect (ug_Admin s) ''not initialized'' Ok"

definition zws_initialize :: "env \<Rightarrow> address \<Rightarrow> upgradable \<Rightarrow> upgradable result" where
  "zws_initialize e admin s = panic_if (ug_Admin s \<noteq> None) ''already initialized'' (Ok (s\<lparr>ug_Admin := Some admin\<rparr>))"

definition zws_upgrade :: "env \<Rightarrow> bytes \<Rightarrow> upgradable \<Rightarrow> upgradable result" where
  "zws_upgrade e new_wasm_hash s =
     expect (ug_Admin s) ''not initialized'' (\<lambda>admin.
     require_auth e admin (
     panic_if (new_wasm_hash = replicate 32 0) ''wasm hash must not be zero'' (
     Ok (s\<lparr>ug_wasm := Some new_wasm_hash\<rparr>))))"

definition zws_get_admin :: "upgradable \<Rightarrow> address result" where
  "zws_get_admin s = expect (ug_Admin s) ''not initialized'' Ok"

datatype upgrade_call = UpInitialize address | UpUpgrade bytes

fun zw_exec :: "env \<Rightarrow> upgrade_call \<Rightarrow> upgradable \<Rightarrow> upgradable result" where
  "zw_exec e (UpInitialize a) s = zw_initialize e a s"
| "zw_exec e (UpUpgrade h) s = zw_upgrade e h s"

fun zws_exec :: "env \<Rightarrow> upgrade_call \<Rightarrow> upgradable \<Rightarrow> upgradable result" where
  "zws_exec e (UpInitialize a) s = zws_initialize e a s"
| "zws_exec e (UpUpgrade h) s = zws_upgrade e h s"

fun nonzero_hash :: "env \<Rightarrow> upgrade_call \<Rightarrow> upgradable \<Rightarrow> bool" where
  "nonzero_hash e (UpUpgrade h) s = (h \<noteq> replicate 32 0)"
| "nonzero_hash e _ s = True"

interpretation hash_hardened: hardened zw_exec zws_exec nonzero_hash
proof
  fix e c s s'
  show "zws_exec e c s = Ok s' \<longleftrightarrow> nonzero_hash e c s \<and> zw_exec e c s = Ok s'"
    by (cases c) (auto simp: zw_initialize_def zws_initialize_def zw_upgrade_def zws_upgrade_def result_simps)
qed

fun installs :: "env \<Rightarrow> upgrade_call \<Rightarrow> upgradable \<Rightarrow> bytes option \<Rightarrow> bool" where
  "installs e (UpUpgrade h) s v = (v = Some h \<and> h \<noteq> replicate 32 0 \<and> (\<exists>a. ug_Admin s = Some a \<and> authorized e a))"
| "installs e _ s v = False"

interpretation installed: written_view zws_exec ug_wasm installs
proof
  fix e c s s'
  assume "zws_exec e c s = Ok s'" "ug_wasm s' \<noteq> ug_wasm s"
  then show "installs e c s (ug_wasm s')"
    by (cases c) (auto simp: zws_initialize_def zws_upgrade_def result_simps)
qed

text \<open>
  Installed code (\<^verbatim>\<open>zero_wasm_hash/src/secure.rs\<close>): code that a run has installed is not the zero hash and was installed in a call signed by the admin of that moment.
\<close>

theorem installed_code_signed:
  assumes "ug_wasm (run_calls zws_exec xs s) \<noteq> ug_wasm s"
  shows "\<exists>ys e h zs a. xs = ys @ (e, UpUpgrade h) # zs \<and> ug_wasm (run_calls zws_exec xs s) = Some h \<and> h \<noteq> replicate 32 0
    \<and> ug_Admin (run_calls zws_exec ys s) = Some a \<and> authorized e a"
proof -
  obtain ys e c zs where w: "xs = ys @ (e, c) # zs" "installs e c (run_calls zws_exec ys s) (ug_wasm (run_calls zws_exec xs s))"
    using installed.run_writes [OF assms] by blast
  then show ?thesis by (cases c) auto
qed

theorem installed_code_signed_witness:
  "\<exists>ys e h zs. [(signed_env [Address 1] 1, UpUpgrade (replicate 32 1))] = ys @ (e, UpUpgrade h) # zs \<and> h \<noteq> replicate 32 0 \<and> authorized e (Address 1)"
proof -
  let ?s = "\<lparr>ug_Admin = Some (Address 1), ug_wasm = None\<rparr>" and ?xs = "[(signed_env [Address 1] 1, UpUpgrade (replicate 32 1))]"
  have "ug_wasm (run_calls zws_exec ?xs ?s) = Some (replicate 32 1)"
    by (simp add: zws_upgrade_def signed_env_def)
  then have "ug_wasm (run_calls zws_exec ?xs ?s) \<noteq> ug_wasm ?s" by simp
  from installed_code_signed [OF this] show ?thesis by (fastforce simp: Cons_eq_append_conv)
qed

lemma zero_hash_installed:
  assumes "ug_Admin s = Some a" and "authorized e a"
  shows "zw_upgrade e (replicate 32 0) s = Ok (s\<lparr>ug_wasm := Some (replicate 32 0)\<rparr>)"
  using assms by (simp add: zw_upgrade_def)

section \<open>upgrade\_version\_downgrade\<close>

record versioned =
  vs_ImplHash :: "bytes option"
  vs_Version :: "int option"

definition vd_version :: "versioned \<Rightarrow> int" where
  "vd_version s = unwrap_or (vs_Version s) 0"

definition vd_set_version :: "int \<Rightarrow> versioned \<Rightarrow> versioned" where
  "vd_set_version new_version s = s\<lparr>vs_Version := Some new_version\<rparr>"

definition vd_set_hash :: "bytes \<Rightarrow> versioned \<Rightarrow> versioned" where
  "vd_set_hash wasm_hash s = s\<lparr>vs_ImplHash := Some wasm_hash\<rparr>"

definition vd_init :: "env \<Rightarrow> int \<Rightarrow> bytes \<Rightarrow> versioned \<Rightarrow> versioned result" where
  "vd_init e version wasm_hash s = Ok (vd_set_hash wasm_hash (vd_set_version version s))"

definition vd_upgrade :: "env \<Rightarrow> int \<Rightarrow> bytes \<Rightarrow> versioned \<Rightarrow> versioned result" where
  "vd_upgrade e new_version new_wasm_hash s = Ok (vd_set_hash new_wasm_hash (vd_set_version new_version s))"

definition vd_current_version :: "versioned \<Rightarrow> int" where
  "vd_current_version s = vd_version s"

definition vds_init :: "env \<Rightarrow> int \<Rightarrow> bytes \<Rightarrow> versioned \<Rightarrow> versioned result" where
  "vds_init e version wasm_hash s = Ok (vd_set_hash wasm_hash (vd_set_version version s))"

definition vds_upgrade :: "env \<Rightarrow> int \<Rightarrow> bytes \<Rightarrow> versioned \<Rightarrow> versioned result" where
  "vds_upgrade e new_version new_wasm_hash s =
     ensure (new_version > vd_version s) ''version must increase'' (
     Ok (vd_set_hash new_wasm_hash (vd_set_version new_version s)))"

definition vds_current_version :: "versioned \<Rightarrow> int" where
  "vds_current_version s = vd_version s"

definition version_exec :: "env \<Rightarrow> int \<times> bytes \<Rightarrow> versioned \<Rightarrow> versioned result" where
  "version_exec e = (\<lambda>(v, h). vds_upgrade e v h)"

lemma version_exec_Ok:
  "version_exec e (v, h) s = Ok s' \<longleftrightarrow> vds_current_version s < v \<and> s' = \<lparr>vs_ImplHash = Some h, vs_Version = Some v\<rparr>"
  by (auto simp: version_exec_def vds_upgrade_def vds_current_version_def vd_set_hash_def vd_set_version_def result_simps)

text \<open>
  Versions (\<^verbatim>\<open>upgrade_version_downgrade/src/secure.rs\<close>): the versions of the successful upgrades of a run are strictly increasing and above the version before; the last of them is the
  current version.
\<close>

theorem versions_increase:
  "sorted_wrt (<) (vds_current_version s # map fst (successes version_exec xs s))
   \<and> vds_current_version (run_calls version_exec xs s) = last (vds_current_version s # map fst (successes version_exec xs s))"
proof (induction xs arbitrary: s)
  case (Cons x xs)
  obtain e v h where x: "x = (e, v, h)" by (cases x)
  show ?case
  proof (cases "version_exec e (v, h) s")
    case (Inr t)
    then have t: "vds_current_version s < v" "vds_current_version t = v"
      by (auto simp: version_exec_Ok vds_current_version_def vd_version_def unwrap_or_def)
    with Cons.IH [of t] have "sorted_wrt (<) (v # map fst (successes version_exec xs t))"
      "vds_current_version (run_calls version_exec xs t) = last (v # map fst (successes version_exec xs t))" by simp_all
    with t(1) Inr x show ?thesis by auto
  qed (use Cons x in simp)
qed simp

lemma version_downgraded: "\<exists>s'. vd_upgrade e v h s = Ok s' \<and> vd_current_version s' = v"
  by (simp add: vd_upgrade_def vd_current_version_def vd_version_def vd_set_version_def vd_set_hash_def unwrap_or_def)

lemma init_downgrades: "\<exists>s'. vds_init e 0 h s = Ok s' \<and> vds_current_version s' = 0"
  by (simp add: vds_init_def vds_current_version_def vd_version_def vd_set_version_def vd_set_hash_def unwrap_or_def)

section \<open>unprotected\_upgrade\<close>

record counter_contract =
  cc_Admin :: "address option"
  cc_Counter :: "int option"
  cc_wasm :: "bytes option" \<comment> \<open>the code last installed\<close>

definition uu_initialize :: "env \<Rightarrow> address \<Rightarrow> counter_contract \<Rightarrow> counter_contract result" where
  "uu_initialize e admin s =
     panic_if (cc_Admin s \<noteq> None) ''already initialized'' (Ok (s\<lparr>cc_Admin := Some admin, cc_Counter := Some 0\<rparr>))"

definition uu_increment :: "env \<Rightarrow> counter_contract \<Rightarrow> (int \<times> counter_contract) result" where
  "uu_increment e s =
     (let count = unwrap_or (cc_Counter s) 0 in
      arith (checked_add U64 count 1) (\<lambda>next. Ok (next, s\<lparr>cc_Counter := Some next\<rparr>)))"

definition uu_get_count :: "counter_contract \<Rightarrow> int" where
  "uu_get_count s = unwrap_or (cc_Counter s) 0"

definition uu_upgrade :: "env \<Rightarrow> bytes \<Rightarrow> counter_contract \<Rightarrow> counter_contract result" where
  "uu_upgrade e new_wasm_hash s = Ok (s\<lparr>cc_wasm := Some new_wasm_hash\<rparr>)"

lemma anyone_upgrades: "\<exists>s'. uu_upgrade e h s = Ok s' \<and> cc_wasm s' = Some h \<and> uu_get_count s' = uu_get_count s"
  by (simp add: uu_upgrade_def uu_get_count_def)

section \<open>reinit\_attack\<close>

record treasury =
  ty_Admin :: "address option"
  ty_Treasury :: "int option"

definition ri_initialize :: "env \<Rightarrow> address \<Rightarrow> int \<Rightarrow> treasury \<Rightarrow> treasury result" where
  "ri_initialize e admin initial_balance s =
     (let s1 = s\<lparr>ty_Admin := Some admin\<rparr> in Ok (s1\<lparr>ty_Treasury := Some initial_balance\<rparr>))"

definition ri_withdraw :: "env \<Rightarrow> int \<Rightarrow> treasury \<Rightarrow> treasury result" where
  "ri_withdraw e amount s =
     expect (ty_Admin s) ''not initialized'' (\<lambda>admin.
     require_auth e admin (
     let balance = unwrap_or (ty_Treasury s) 0 in
     expect (checked_sub I128 balance amount) ''insufficient funds'' (\<lambda>new_balance.
     Ok (s\<lparr>ty_Treasury := Some new_balance\<rparr>))))"

definition ri_get_admin :: "treasury \<Rightarrow> address result" where
  "ri_get_admin s = expect (ty_Admin s) ''not initialized'' Ok"

definition ri_get_balance :: "treasury \<Rightarrow> int" where
  "ri_get_balance s = unwrap_or (ty_Treasury s) 0"

datatype treasury_call = TyInitialize address int | TyWithdraw int

fun ri_exec :: "env \<Rightarrow> treasury_call \<Rightarrow> treasury \<Rightarrow> treasury result" where
  "ri_exec e (TyInitialize a n) s = ri_initialize e a n s"
| "ri_exec e (TyWithdraw n) s = ri_withdraw e n s"

fun ri_writes :: "env \<Rightarrow> treasury_call \<Rightarrow> treasury \<Rightarrow> address option \<Rightarrow> bool" where
  "ri_writes e (TyInitialize a n) s v = (v = Some a)"
| "ri_writes e (TyWithdraw n) s v = False"

interpretation last_initialiser: written_view ri_exec ty_Admin ri_writes
proof
  fix e c s s'
  assume "ri_exec e c s = Ok s'" "ty_Admin s' \<noteq> ty_Admin s"
  then show "ri_writes e c s (ty_Admin s')"
    by (cases c) (auto simp: ri_initialize_def ri_withdraw_def result_simps)
qed

text \<open>
  The unguarded initialisation (\<^verbatim>\<open>reinit_attack\<close>): in any state anybody becomes the admin with any balance and withdraws it; and whoever is the admin at the end of a run, if
  not the one before, was named by an initialisation of the run.
\<close>

theorem reinitialised_and_drained:
  assumes "in_range I128 n"
  shows "(\<exists>s1 s2. ri_initialize e a n s = Ok s1 \<and> ri_get_admin s1 = Ok a \<and> ri_get_balance s1 = n
      \<and> (authorized e' a \<longrightarrow> ri_withdraw e' n s1 = Ok s2 \<and> ri_get_balance s2 = 0))
    \<and> (ty_Admin (run_calls ri_exec xs s) \<noteq> ty_Admin s
       \<longrightarrow> (\<exists>ys e b m zs. xs = ys @ (e, TyInitialize b m) # zs \<and> ty_Admin (run_calls ri_exec xs s) = Some b))"
proof (intro conjI impI)
  show "\<exists>s1 s2. ri_initialize e a n s = Ok s1 \<and> ri_get_admin s1 = Ok a \<and> ri_get_balance s1 = n
      \<and> (authorized e' a \<longrightarrow> ri_withdraw e' n s1 = Ok s2 \<and> ri_get_balance s2 = 0)"
    by (simp add: ri_initialize_def ri_get_admin_def ri_get_balance_def ri_withdraw_def unwrap_or_def checked_sub_def)
  assume "ty_Admin (run_calls ri_exec xs s) \<noteq> ty_Admin s"
  from last_initialiser.run_writes [OF this] obtain ys e c zs
    where w: "xs = ys @ (e, c) # zs" "ri_writes e c (run_calls ri_exec ys s) (ty_Admin (run_calls ri_exec xs s))" by blast
  then show "\<exists>ys e b m zs. xs = ys @ (e, TyInitialize b m) # zs \<and> ty_Admin (run_calls ri_exec xs s) = Some b"
    by (cases c) auto
qed

theorem reinitialised_and_drained_witness:
  "\<exists>s1. ri_initialize (signed_env [] 1) (Address 9) 500 \<lparr>ty_Admin = Some (Address 1), ty_Treasury = Some 500\<rparr> = Ok s1 \<and> ri_get_admin s1 = Ok (Address 9)"
  using reinitialised_and_drained [THEN conjunct1, of 500 "signed_env [] 1" "Address 9" "\<lparr>ty_Admin = Some (Address 1), ty_Treasury = Some 500\<rparr>"]
  by (auto simp: in_range_def)

section \<open>string\_admin\<close>

record string_config =
  sg_Admin :: "string option"
  sg_Config :: "int option"

definition sg_initialize :: "env \<Rightarrow> string \<Rightarrow> string_config \<Rightarrow> string_config result" where
  "sg_initialize e admin s = panic_if (sg_Admin s \<noteq> None) ''already initialized'' (Ok (s\<lparr>sg_Admin := Some admin\<rparr>))"

definition sg_set_config :: "env \<Rightarrow> string \<Rightarrow> int \<Rightarrow> string_config \<Rightarrow> string_config result" where
  "sg_set_config e caller new_value s =
     expect (sg_Admin s) ''not initialized'' (\<lambda>admin.
     panic_if (caller \<noteq> admin) ''not admin'' (Ok (s\<lparr>sg_Config := Some new_value\<rparr>)))"

definition sg_get_config :: "string_config \<Rightarrow> int" where
  "sg_get_config s = unwrap_or (sg_Config s) 0"

record address_config =
  ac_Admin :: "address option"
  ac_Config :: "int option"

definition sgs_initialize :: "env \<Rightarrow> address \<Rightarrow> address_config \<Rightarrow> address_config result" where
  "sgs_initialize e admin s = panic_if (ac_Admin s \<noteq> None) ''already initialized'' (Ok (s\<lparr>ac_Admin := Some admin\<rparr>))"

definition sgs_set_config :: "env \<Rightarrow> address \<Rightarrow> int \<Rightarrow> address_config \<Rightarrow> address_config result" where
  "sgs_set_config e caller new_value s =
     expect (ac_Admin s) ''not initialized'' (\<lambda>admin.
     panic_if (caller \<noteq> admin) ''not admin'' (
     require_auth e admin (Ok (s\<lparr>ac_Config := Some new_value\<rparr>))))"

definition sgs_get_config :: "address_config \<Rightarrow> int" where
  "sgs_get_config s = unwrap_or (ac_Config s) 0"

lemma name_is_no_signature:
  assumes "sg_Admin s = Some x"
  shows "\<exists>s'. sg_set_config e x n s = Ok s' \<and> sg_get_config s' = n"
  using assms by (simp add: sg_set_config_def sg_get_config_def unwrap_or_def)

section \<open>zero\_admin\<close>

record valued =
  va_Admin :: "address option"
  va_Value :: "int option"

text \<open>The zero address is what the host makes of the string \<^verbatim>\<open>GAAA...WHF\<close>; it is a parameter.\<close>

definition zad_initialize :: "address \<Rightarrow> env \<Rightarrow> address \<Rightarrow> valued \<Rightarrow> valued result" where
  "zad_initialize zero_addr e admin s =
     panic_if (va_Admin s \<noteq> None) ''already initialized'' (
     let zero_admin = zero_addr in
     panic_if (admin = zero_admin) ''admin must not be zero address'' (
     Ok (s\<lparr>va_Admin := Some admin\<rparr>)))"

definition zad_set_value :: "env \<Rightarrow> int \<Rightarrow> valued \<Rightarrow> valued result" where
  "zad_set_value e v s =
     expect (va_Admin s) ''admin not initialized'' (\<lambda>admin. require_auth e admin (Ok (s\<lparr>va_Value := Some v\<rparr>)))"

definition zad_get_value :: "valued \<Rightarrow> int" where
  "zad_get_value s = unwrap_or (va_Value s) 0"

definition zad_get_admin :: "valued \<Rightarrow> address result" where
  "zad_get_admin s = expect (va_Admin s) ''admin not initialized'' Ok"

section \<open>public\_archive\_restore\<close>

record archive = host +
  av_Admin :: "address option"
  av_Active :: "address \<rightharpoonup> bool"

definition ar_require_admin :: "env \<Rightarrow> archive \<Rightarrow> 'a result \<Rightarrow> 'a result" where
  "ar_require_admin e s k = expect (av_Admin s) ''not initialized'' (\<lambda>admin. require_auth e admin k)"

definition ar_initialize :: "env \<Rightarrow> address \<Rightarrow> archive \<Rightarrow> archive result" where
  "ar_initialize e admin s = panic_if (av_Admin s \<noteq> None) ''already initialized'' (Ok (s\<lparr>av_Admin := Some admin\<rparr>))"

definition ar_register :: "env \<Rightarrow> address \<Rightarrow> archive \<Rightarrow> archive result" where
  "ar_register e entry s =
     ar_require_admin e s (
     let s1 = s\<lparr>av_Active := (av_Active s)(entry \<mapsto> True)\<rparr> in Ok (publish [''registry'', ''added''] [VAddr entry] s1))"

definition ar_archive :: "env \<Rightarrow> address \<Rightarrow> archive \<Rightarrow> archive result" where
  "ar_archive e entry s =
     ar_require_admin e s (
     let s1 = s\<lparr>av_Active := (av_Active s)(entry \<mapsto> False)\<rparr> in Ok (publish [''registry'', ''archived''] [VAddr entry] s1))"

definition ar_restore :: "env \<Rightarrow> address \<Rightarrow> archive \<Rightarrow> archive result" where
  "ar_restore e entry s =
     (let s1 = s\<lparr>av_Active := (av_Active s)(entry \<mapsto> True)\<rparr> in Ok (publish [''registry'', ''restored''] [VAddr entry] s1))"

definition ar_is_active :: "archive \<Rightarrow> address \<Rightarrow> bool" where
  "ar_is_active s entry = unwrap_or (av_Active s entry) False"

definition ar_get_admin :: "archive \<Rightarrow> address result" where
  "ar_get_admin s = expect (av_Admin s) ''not initialized'' Ok"

definition ars_require_admin :: "env \<Rightarrow> archive \<Rightarrow> 'a result \<Rightarrow> 'a result" where
  "ars_require_admin e s k = expect (av_Admin s) ''not initialized'' (\<lambda>admin. require_auth e admin k)"

definition ars_initialize :: "env \<Rightarrow> address \<Rightarrow> archive \<Rightarrow> archive result" where
  "ars_initialize e admin s = panic_if (av_Admin s \<noteq> None) ''already initialized'' (Ok (s\<lparr>av_Admin := Some admin\<rparr>))"

definition ars_register :: "env \<Rightarrow> address \<Rightarrow> archive \<Rightarrow> archive result" where
  "ars_register e entry s =
     ars_require_admin e s (
     let s1 = s\<lparr>av_Active := (av_Active s)(entry \<mapsto> True)\<rparr> in Ok (publish [''registry'', ''added''] [VAddr entry] s1))"

definition ars_archive :: "env \<Rightarrow> address \<Rightarrow> archive \<Rightarrow> archive result" where
  "ars_archive e entry s =
     ars_require_admin e s (
     let s1 = s\<lparr>av_Active := (av_Active s)(entry \<mapsto> False)\<rparr> in Ok (publish [''registry'', ''archived''] [VAddr entry] s1))"

definition ars_restore :: "env \<Rightarrow> address \<Rightarrow> archive \<Rightarrow> archive result" where
  "ars_restore e entry s =
     ars_require_admin e s (
     let s1 = s\<lparr>av_Active := (av_Active s)(entry \<mapsto> True)\<rparr> in Ok (publish [''registry'', ''restored''] [VAddr entry] s1))"

definition ars_is_active :: "archive \<Rightarrow> address \<Rightarrow> bool" where
  "ars_is_active s entry = unwrap_or (av_Active s entry) False"

definition ars_get_admin :: "archive \<Rightarrow> address result" where
  "ars_get_admin s = expect (av_Admin s) ''not initialized'' Ok"

lemma anyone_restores: "\<exists>s'. ar_restore e r s = Ok s' \<and> ar_is_active s' r"
  by (simp add: ar_restore_def ar_is_active_def publish_def unwrap_or_def)

section \<open>One administrator\<close>

text \<open>
  Three of the repaired contracts keep one admin, appointed once, who alone changes what the contract administers. The locale states that contract and what follows for runs.
\<close>

locale administered =
  fixes exec :: "env \<Rightarrow> 'c \<Rightarrow> 's \<Rightarrow> 's result" and admin :: "'s \<Rightarrow> address option" and view :: "'s \<Rightarrow> 'v"
  assumes admin_fixed: "exec e c s = Ok s' \<Longrightarrow> admin s = Some a \<Longrightarrow> admin s' = Some a"
    and view_signed: "exec e c s = Ok s' \<Longrightarrow> view s' \<noteq> view s \<Longrightarrow> \<exists>a. admin s = Some a \<and> authorized e a"

sublocale administered \<subseteq> kept: contract_invariant exec "\<lambda>s. admin s = Some a" for a
  by unfold_locales (rule admin_fixed)

sublocale administered \<subseteq> signed: guarded_view exec view "\<lambda>e c s. \<exists>a. admin s = Some a \<and> authorized e a"
  by unfold_locales (rule view_signed)

context administered
begin

lemma only_admin:
  assumes "admin s = Some a"
  shows "admin (run_calls exec xs s) = Some a
    \<and> (view (run_calls exec xs s) \<noteq> view s \<longrightarrow> (\<exists>(e, c)\<in>set xs. authorized e a))"
proof (intro conjI impI)
  have k: "admin (run_calls exec ys s) = Some a" for ys by (rule kept.run_inv [OF assms])
  then show "admin (run_calls exec xs s) = Some a" .
  assume "view (run_calls exec xs s) \<noteq> view s"
  then obtain ys e c zs where "xs = ys @ (e, c) # zs" "\<exists>b. admin (run_calls exec ys s) = Some b \<and> authorized e b"
    using signed.run_view by blast
  with k [of ys] show "\<exists>(e, c)\<in>set xs. authorized e a" by auto
qed

end

datatype 'v config_op = Appoint address | Configure address 'v

fun sgs_exec :: "env \<Rightarrow> int config_op \<Rightarrow> address_config \<Rightarrow> address_config result" where
  "sgs_exec e (Appoint a) s = sgs_initialize e a s"
| "sgs_exec e (Configure a n) s = sgs_set_config e a n s"

fun zad_exec :: "address \<Rightarrow> env \<Rightarrow> int config_op \<Rightarrow> valued \<Rightarrow> valued result" where
  "zad_exec z e (Appoint a) s = zad_initialize z e a s"
| "zad_exec z e (Configure a n) s = zad_set_value e n s"

datatype archive_call = ArInitialize address | ArRegister address | ArArchive address | ArRestore address

fun ars_exec :: "env \<Rightarrow> archive_call \<Rightarrow> archive \<Rightarrow> archive result" where
  "ars_exec e (ArInitialize a) s = ars_initialize e a s"
| "ars_exec e (ArRegister a) s = ars_register e a s"
| "ars_exec e (ArArchive a) s = ars_archive e a s"
| "ars_exec e (ArRestore a) s = ars_restore e a s"

interpretation sgs: administered sgs_exec ac_Admin ac_Config
proof
  fix e c s s' a
  assume "sgs_exec e c s = Ok s'" "ac_Admin s = Some a"
  then show "ac_Admin s' = Some a" by (cases c) (auto simp: sgs_initialize_def sgs_set_config_def result_simps)
next
  fix e c s s'
  assume "sgs_exec e c s = Ok s'" "ac_Config s' \<noteq> ac_Config s"
  then show "\<exists>a. ac_Admin s = Some a \<and> authorized e a" by (cases c) (auto simp: sgs_initialize_def sgs_set_config_def result_simps)
qed

interpretation zad: administered "zad_exec z" va_Admin va_Value for z
proof
  fix e c s s' a
  assume "zad_exec z e c s = Ok s'" "va_Admin s = Some a"
  then show "va_Admin s' = Some a" by (cases c) (auto simp: zad_initialize_def zad_set_value_def result_simps)
next
  fix e c s s'
  assume "zad_exec z e c s = Ok s'" "va_Value s' \<noteq> va_Value s"
  then show "\<exists>a. va_Admin s = Some a \<and> authorized e a" by (cases c) (auto simp: zad_initialize_def zad_set_value_def result_simps Let_def)
qed

interpretation ars: administered ars_exec av_Admin av_Active
proof
  fix e c s s' a
  assume "ars_exec e c s = Ok s'" "av_Admin s = Some a"
  then show "av_Admin s' = Some a"
    by (cases c) (auto simp: ars_initialize_def ars_register_def ars_archive_def ars_restore_def ars_require_admin_def publish_def result_simps Let_def)
next
  fix e c s s'
  assume "ars_exec e c s = Ok s'" "av_Active s' \<noteq> av_Active s"
  then show "\<exists>a. av_Admin s = Some a \<and> authorized e a"
    by (cases c) (auto simp: ars_initialize_def ars_register_def ars_archive_def ars_restore_def ars_require_admin_def publish_def result_simps Let_def)
qed

interpretation zero_excluded: contract_invariant "zad_exec z" "\<lambda>s. va_Admin s \<noteq> Some z" for z
proof
  fix s e c s'
  assume "va_Admin s \<noteq> Some z" "zad_exec z e c s = Ok s'"
  then show "va_Admin s' \<noteq> Some z" by (cases c) (auto simp: zad_initialize_def zad_set_value_def result_simps Let_def)
qed

text \<open>
  One administrator (the repaired \<^verbatim>\<open>string_admin\<close> and \<^verbatim>\<open>public_archive_restore\<close>, and \<^verbatim>\<open>zero_admin\<close>): once appointed the admin stays, and the configuration, the value and the
  active records change in a run only if one of its calls carries the admin's signature; the zero address never becomes the admin.
\<close>

theorem admin_alone_configures:
  "(ac_Admin s = Some a \<longrightarrow> ac_Admin (run_calls sgs_exec xs s) = Some a
      \<and> (ac_Config (run_calls sgs_exec xs s) \<noteq> ac_Config s \<longrightarrow> (\<exists>(e, c)\<in>set xs. authorized e a)))
   \<and> (va_Admin t = Some b \<longrightarrow> va_Admin (run_calls (zad_exec z) ys t) = Some b
      \<and> (va_Value (run_calls (zad_exec z) ys t) \<noteq> va_Value t \<longrightarrow> (\<exists>(e, c)\<in>set ys. authorized e b)))
   \<and> (va_Admin t \<noteq> Some z \<longrightarrow> va_Admin (run_calls (zad_exec z) ys t) \<noteq> Some z)
   \<and> (av_Admin u = Some d \<longrightarrow> av_Admin (run_calls ars_exec zs u) = Some d
      \<and> (av_Active (run_calls ars_exec zs u) \<noteq> av_Active u \<longrightarrow> (\<exists>(e, c)\<in>set zs. authorized e d)))"
  using sgs.only_admin zad.only_admin ars.only_admin zero_excluded.run_inv by blast

theorem admin_alone_configures_witness:
  "ac_Admin (run_calls sgs_exec [(signed_env [Address 2] 1, Appoint (Address 2))] \<lparr>ac_Admin = Some (Address 1), ac_Config = None\<rparr>) = Some (Address 1)"
  using admin_alone_configures [THEN conjunct1, of "\<lparr>ac_Admin = Some (Address 1), ac_Config = None\<rparr>" "Address 1" "[(signed_env [Address 2] 1, Appoint (Address 2))]"] by simp

section \<open>unprotected\_admin\<close>

record admin_escrow =
  ae_Admin :: "address option"
  ae_Escrow :: "address \<rightharpoonup> int"
  ae_wasm :: "bytes option" \<comment> \<open>the code last installed\<close>

definition uap_initialize :: "env \<Rightarrow> address \<Rightarrow> admin_escrow \<Rightarrow> admin_escrow result" where
  "uap_initialize e admin s = panic_if (ae_Admin s \<noteq> None) ''already initialized'' (Ok (s\<lparr>ae_Admin := Some admin\<rparr>))"

definition uap_set_admin :: "env \<Rightarrow> address \<Rightarrow> admin_escrow \<Rightarrow> admin_escrow result" where
  "uap_set_admin e new_admin s = Ok (s\<lparr>ae_Admin := Some new_admin\<rparr>)"

definition uap_upgrade :: "env \<Rightarrow> bytes \<Rightarrow> admin_escrow \<Rightarrow> admin_escrow result" where
  "uap_upgrade e new_wasm_hash s = Ok (s\<lparr>ae_wasm := Some new_wasm_hash\<rparr>)"

definition uap_deposit :: "env \<Rightarrow> address \<Rightarrow> int \<Rightarrow> admin_escrow \<Rightarrow> admin_escrow result" where
  "uap_deposit e depositor amount s =
     require_auth e depositor (
     let current = get0 (ae_Escrow s) depositor in
     arith (checked_add I128 current amount) (\<lambda>n. Ok (s\<lparr>ae_Escrow := (ae_Escrow s)(depositor \<mapsto> n)\<rparr>)))"

definition uap_get_admin :: "admin_escrow \<Rightarrow> address result" where
  "uap_get_admin s = expect (ae_Admin s) ''admin not initialized'' Ok"

lemma anyone_takes_over:
  "\<exists>s1 s2. uap_set_admin e a s = Ok s1 \<and> uap_get_admin s1 = Ok a \<and> uap_upgrade e h s1 = Ok s2 \<and> ae_wasm s2 = Some h \<and> ae_Escrow s2 = ae_Escrow s"
  by (simp add: uap_set_admin_def uap_get_admin_def uap_upgrade_def)

section \<open>current\_contract\_admin\<close>

record self_admin =
  sf_Admin :: "address option"
  sf_PendingAdmin :: "address option"
  sf_Value :: "int option"

definition cca_initialize :: "env \<Rightarrow> address option \<Rightarrow> self_admin \<Rightarrow> self_admin result" where
  "cca_initialize e admin s =
     panic_if (sf_Admin s \<noteq> None) ''already initialized'' (
     let stored = unwrap_or admin (current_contract e) in Ok (s\<lparr>sf_Admin := Some stored\<rparr>))"

definition cca_admin_action :: "env \<Rightarrow> self_admin \<Rightarrow> self_admin result" where
  "cca_admin_action e s = expect (sf_Admin s) ''not initialized'' (\<lambda>admin. require_auth e admin (Ok (s\<lparr>sf_Value := Some 1\<rparr>)))"

definition cca_get_admin :: "self_admin \<Rightarrow> address result" where
  "cca_get_admin s = expect (sf_Admin s) ''not initialized'' Ok"

definition cca_value :: "self_admin \<Rightarrow> int" where
  "cca_value s = unwrap_or (sf_Value s) 0"

definition cca_vulnerable_entry :: "env \<Rightarrow> address \<Rightarrow> int \<Rightarrow> self_admin \<Rightarrow> self_admin result" where
  "cca_vulnerable_entry e actor amount s = cca_initialize e None s"

definition ccas_initialize :: "env \<Rightarrow> address \<Rightarrow> self_admin \<Rightarrow> self_admin result" where
  "ccas_initialize e admin s = panic_if (sf_Admin s \<noteq> None) ''already initialized'' (Ok (s\<lparr>sf_Admin := Some admin\<rparr>))"

definition ccas_initialize_required :: "env \<Rightarrow> address option \<Rightarrow> self_admin \<Rightarrow> self_admin result" where
  "ccas_initialize_required e admin s = expect admin ''admin required'' (\<lambda>a. ccas_initialize e a s)"

definition ccas_nominate_admin :: "env \<Rightarrow> address \<Rightarrow> self_admin \<Rightarrow> self_admin result" where
  "ccas_nominate_admin e nominee s =
     expect (sf_Admin s) ''not initialized'' (\<lambda>admin. require_auth e admin (Ok (s\<lparr>sf_PendingAdmin := Some nominee\<rparr>)))"

definition ccas_accept_admin :: "env \<Rightarrow> self_admin \<Rightarrow> self_admin result" where
  "ccas_accept_admin e s =
     expect (sf_PendingAdmin s) ''no pending admin'' (\<lambda>pending. require_auth e pending (Ok (s\<lparr>sf_Admin := Some pending\<rparr>)))"

definition ccas_admin_action :: "env \<Rightarrow> self_admin \<Rightarrow> self_admin result" where
  "ccas_admin_action e s = expect (sf_Admin s) ''not initialized'' (\<lambda>admin. require_auth e admin (Ok (s\<lparr>sf_Value := Some 1\<rparr>)))"

definition ccas_value :: "self_admin \<Rightarrow> int" where
  "ccas_value s = unwrap_or (sf_Value s) 0"

datatype self_call = SfInitialize address | SfInitializeRequired "address option" | SfNominate address | SfAccept | SfAction

fun ccas_exec :: "env \<Rightarrow> self_call \<Rightarrow> self_admin \<Rightarrow> self_admin result" where
  "ccas_exec e (SfInitialize a) s = ccas_initialize e a s"
| "ccas_exec e (SfInitializeRequired x) s = ccas_initialize_required e x s"
| "ccas_exec e (SfNominate a) s = ccas_nominate_admin e a s"
| "ccas_exec e SfAccept s = ccas_accept_admin e s"
| "ccas_exec e SfAction s = ccas_admin_action e s"

lemmas ccas_defs = ccas_initialize_def ccas_initialize_required_def ccas_nominate_admin_def ccas_accept_admin_def ccas_admin_action_def

interpretation ccas: handover ccas_exec sf_Admin sf_PendingAdmin
proof
  fix e c s s' a
  assume "ccas_exec e c s = Ok s'" "sf_Admin s = Some a" "sf_Admin s' \<noteq> Some a"
  then show "\<exists>b. sf_PendingAdmin s = Some b \<and> authorized e b \<and> sf_Admin s' = Some b"
    by (cases c) (auto simp: ccas_defs result_simps)
next
  fix e c s s' b
  assume "ccas_exec e c s = Ok s'" "sf_PendingAdmin s' = Some b" "sf_PendingAdmin s \<noteq> Some b"
  then show "\<exists>a. sf_Admin s = Some a \<and> authorized e a"
    by (cases c) (auto simp: ccas_defs result_simps)
qed

text \<open>
  The handover (\<^verbatim>\<open>current_contract_admin/src/secure.rs\<close>): the admin is replaced in a run only after the admin of some moment has signed a nomination and the nominee, later, an acceptance. In the
  original a contract without a named admin administers itself, and as long as it does not call itself the action is refused for ever.
\<close>

theorem self_admin_handover:
  "(sf_Admin s = Some a \<and> sf_PendingAdmin s = None \<and> sf_Admin (run_calls ccas_exec xs s) \<noteq> Some a
      \<longrightarrow> (\<exists>us e c vs e' c' zs b m. xs = (us @ (e, c) # vs) @ (e', c') # zs
            \<and> sf_Admin (run_calls ccas_exec us s) = Some m \<and> authorized e m
            \<and> sf_PendingAdmin (run_calls ccas_exec (us @ (e, c) # vs) s) = Some b \<and> authorized e' b))
   \<and> (cca_initialize e0 None t = Ok t' \<and> \<not> authorized e1 (current_contract e0)
      \<longrightarrow> cca_admin_action e1 t' = Err (Unauthorized (current_contract e0)))"
proof (intro conjI impI)
  assume "sf_Admin s = Some a \<and> sf_PendingAdmin s = None \<and> sf_Admin (run_calls ccas_exec xs s) \<noteq> Some a"
  then show "\<exists>us e c vs e' c' zs b m. xs = (us @ (e, c) # vs) @ (e', c') # zs
            \<and> sf_Admin (run_calls ccas_exec us s) = Some m \<and> authorized e m
            \<and> sf_PendingAdmin (run_calls ccas_exec (us @ (e, c) # vs) s) = Some b \<and> authorized e' b"
    using ccas.two_signatures [of s a xs] by blast
next
  assume "cca_initialize e0 None t = Ok t' \<and> \<not> authorized e1 (current_contract e0)"
  then show "cca_admin_action e1 t' = Err (Unauthorized (current_contract e0))"
    by (auto simp: cca_initialize_def cca_admin_action_def unwrap_or_def require_auth_Err result_simps)
qed

theorem self_admin_handover_witness:
  "cca_admin_action (signed_env [Address 1] 2) \<lparr>sf_Admin = Some (Address 99), sf_PendingAdmin = None, sf_Value = None\<rparr> = Err (Unauthorized (Address 99))"
proof -
  have "cca_initialize (signed_env [] 1) None \<lparr>sf_Admin = None, sf_PendingAdmin = None, sf_Value = None\<rparr>
      = Ok \<lparr>sf_Admin = Some (Address 99), sf_PendingAdmin = None, sf_Value = None\<rparr>"
    by (simp add: cca_initialize_def signed_env_def unwrap_or_def)
  with self_admin_handover [THEN conjunct2, of "signed_env [] 1" _ _ "signed_env [Address 1] 2"] show ?thesis
    by (simp add: signed_env_def)
qed

end
