(* ===== verification/Lifetimes.thy ===== *)
theory Lifetimes
  imports Ttl_Storage
begin

text \<open>
  Crates that manage, or forget, the lifetimes of storage: \<^verbatim>\<open>ttl_bump_index_only\<close>, \<^verbatim>\<open>missing_ttl\<close>, \<^verbatim>\<open>zero_ttl\<close>, \<^verbatim>\<open>temp_config_storage\<close> and \<^verbatim>\<open>instance_admin_storage\<close>. Persistent
  entries are those of \<^verbatim>\<open>Ttl_Storage\<close>; a temporary entry is gone when its lifetime is over, and an instance has one lifetime for all its entries. Shown: which entries are readable
  together, for how long, and what can be replaced after an expiry.
\<close>

section \<open>ttl\_bump\_index\_only\<close>

definition INDEX_TTL_THRESHOLD :: int where "INDEX_TTL_THRESHOLD = 10"
definition INDEX_TTL_EXTEND_TO :: int where "INDEX_TTL_EXTEND_TO = 100"

record account_record =
  ar_owner :: address
  ar_data :: string

record indexed_store =
  ix_IndexEntry :: "(address, bool) ttl_map"
  ix_RecordEntry :: "(address, account_record) ttl_map"

definition bi_register :: "env \<Rightarrow> address \<Rightarrow> string \<Rightarrow> indexed_store \<Rightarrow> indexed_store result" where
  "bi_register e account text s =
     require_auth e account (
     and_then (ttl_set e account True (ix_IndexEntry s)) (\<lambda>i.
     let s1 = s\<lparr>ix_IndexEntry := i\<rparr> in
     and_then (ttl_set e account \<lparr>ar_owner = account, ar_data = text\<rparr> (ix_RecordEntry s1)) (\<lambda>r.
     Ok (s1\<lparr>ix_RecordEntry := r\<rparr>))))"

definition bi_refresh :: "env \<Rightarrow> address \<Rightarrow> indexed_store \<Rightarrow> indexed_store result" where
  "bi_refresh e account s =
     and_then (ttl_extend e account INDEX_TTL_THRESHOLD INDEX_TTL_EXTEND_TO (ix_IndexEntry s)) (\<lambda>i. Ok (s\<lparr>ix_IndexEntry := i\<rparr>))"

definition bi_get_record :: "env \<Rightarrow> address \<Rightarrow> indexed_store \<Rightarrow> account_record result" where
  "bi_get_record e account s =
     ttl_get e (ix_IndexEntry s) account (\<lambda>x.
     let indexed = unwrap_or x False in
     panic_if (\<not> indexed) ''account not registered'' (
     ttl_get e (ix_RecordEntry s) account (\<lambda>r. expect r ''record expired: index points to missing data'' Ok)))"

definition bi_is_indexed :: "env \<Rightarrow> address \<Rightarrow> indexed_store \<Rightarrow> bool result" where
  "bi_is_indexed e account s = ttl_get e (ix_IndexEntry s) account (\<lambda>x. Ok (unwrap_or x False))"

definition bis_bump :: "env \<Rightarrow> 'k \<Rightarrow> ('k, 'v) ttl_map \<Rightarrow> ('k, 'v) ttl_map result" where
  "bis_bump e key m = ttl_extend e key INDEX_TTL_THRESHOLD INDEX_TTL_EXTEND_TO m"

definition bis_register :: "env \<Rightarrow> address \<Rightarrow> string \<Rightarrow> indexed_store \<Rightarrow> indexed_store result" where
  "bis_register e account text s =
     require_auth e account (
     and_then (ttl_set e account True (ix_IndexEntry s)) (\<lambda>i.
     let s1 = s\<lparr>ix_IndexEntry := i\<rparr> in
     and_then (ttl_set e account \<lparr>ar_owner = account, ar_data = text\<rparr> (ix_RecordEntry s1)) (\<lambda>r.
     Ok (s1\<lparr>ix_RecordEntry := r\<rparr>))))"

definition bis_refresh :: "env \<Rightarrow> address \<Rightarrow> indexed_store \<Rightarrow> indexed_store result" where
  "bis_refresh e account s =
     and_then (bis_bump e account (ix_IndexEntry s)) (\<lambda>i.
     let s1 = s\<lparr>ix_IndexEntry := i\<rparr> in
     and_then (bis_bump e account (ix_RecordEntry s1)) (\<lambda>r. Ok (s1\<lparr>ix_RecordEntry := r\<rparr>)))"

definition bis_get_record :: "env \<Rightarrow> address \<Rightarrow> indexed_store \<Rightarrow> account_record result" where
  "bis_get_record e account s =
     ttl_get e (ix_IndexEntry s) account (\<lambda>x.
     let indexed = unwrap_or x False in
     panic_if (\<not> indexed) ''account not registered'' (
     ttl_get e (ix_RecordEntry s) account (\<lambda>r. expect r ''record not found'' Ok)))"

definition bis_is_indexed :: "env \<Rightarrow> address \<Rightarrow> indexed_store \<Rightarrow> bool result" where
  "bis_is_indexed e account s = ttl_get e (ix_IndexEntry s) account (\<lambda>x. Ok (unwrap_or x False))"

datatype index_call = IxRegister address string | IxRefresh address

fun bis_exec :: "env \<Rightarrow> index_call \<Rightarrow> indexed_store \<Rightarrow> indexed_store result" where
  "bis_exec e (IxRegister a d) s = bis_register e a d s"
| "bis_exec e (IxRefresh a) s = bis_refresh e a s"

text \<open>An account has both entries, of the same lifetime, or neither.\<close>

definition lockstep :: "indexed_store \<Rightarrow> bool" where
  "lockstep s \<longleftrightarrow> (\<forall>a. (ix_IndexEntry s a = None \<and> ix_RecordEntry s a = None)
     \<or> (\<exists>until r. ix_IndexEntry s a = Some (True, until) \<and> ix_RecordEntry s a = Some (r, until) \<and> ar_owner r = a))"

lemma lockstep_at: "lockstep s \<Longrightarrow> (ix_IndexEntry s a = None \<and> ix_RecordEntry s a = None)
   \<or> (\<exists>until r. ix_IndexEntry s a = Some (True, until) \<and> ix_RecordEntry s a = Some (r, until) \<and> ar_owner r = a)"
  unfolding lockstep_def by (rule spec)

lemma lockstep_update:
  assumes "lockstep s" and "ar_owner r = a"
  shows "lockstep (s\<lparr>ix_IndexEntry := (ix_IndexEntry s)(a \<mapsto> (True, u)), ix_RecordEntry := (ix_RecordEntry s)(a \<mapsto> (r, u))\<rparr>)"
  using assms unfolding lockstep_def by simp

interpretation together: contract_invariant bis_exec lockstep
proof
  fix s e c s'
  assume inv: "lockstep s" and ok: "bis_exec e c s = Ok s'"
  show "lockstep s'"
  proof (cases c)
    case (IxRegister a d)
    from lockstep_at [OF inv, of a] ok IxRegister lockstep_update [OF inv, of "\<lparr>ar_owner = a, ar_data = d\<rparr>" a] show ?thesis
      by (auto simp: bis_register_def ttl_set_def result_simps split: if_splits)
  next
    case (IxRefresh a)
    from lockstep_at [OF inv, of a] ok IxRefresh inv show ?thesis
      by (auto simp: bis_refresh_def bis_bump_def ttl_extend_def result_simps intro: lockstep_update split: if_splits)
  qed
qed

text \<open>
  C40: Index and record (\<^verbatim>\<open>ttl_bump_index_only/src/secure.rs\<close>): after any run from an empty registry, at any ledger, the index answers yes for an account
  exactly when a record can be read for it, its own.
\<close>

theorem index_and_record_together:
  assumes "ix_IndexEntry s = Map.empty" and "ix_RecordEntry s = Map.empty"
  shows "bis_is_indexed e a (run_calls bis_exec xs s) = Ok True \<longleftrightarrow> (\<exists>r. bis_get_record e a (run_calls bis_exec xs s) = Ok r \<and> ar_owner r = a)"
proof -
  have "lockstep s" using assms by (simp add: lockstep_def)
  then have "lockstep (run_calls bis_exec xs s)" by (rule together.run_inv)
  from lockstep_at [OF this, of a] show ?thesis
    by (auto simp: bis_is_indexed_def bis_get_record_def ttl_get_def unwrap_or_def split: if_splits)
qed

theorem index_and_record_together_witness:
  "\<exists>r. bis_get_record (signed_env [] 4150) (Address 1) (run_calls bis_exec [(signed_env [Address 1] 1, IxRegister (Address 1) ''x''), (signed_env [] 4090, IxRefresh (Address 1))]
      \<lparr>ix_IndexEntry = Map.empty, ix_RecordEntry = Map.empty\<rparr>) = Ok r \<and> ar_owner r = Address 1"
  using index_and_record_together [of "\<lparr>ix_IndexEntry = Map.empty, ix_RecordEntry = Map.empty\<rparr>" "signed_env [] 4150" "Address 1"
      "[(signed_env [Address 1] 1, IxRegister (Address 1) ''x''), (signed_env [] 4090, IxRefresh (Address 1))]"]
  by (simp add: bis_is_indexed_def bis_register_def bis_refresh_def bis_bump_def ttl_set_def ttl_extend_def ttl_get_def signed_env_def unwrap_or_def INDEX_TTL_THRESHOLD_def
      INDEX_TTL_EXTEND_TO_def)

lemma index_outlives_record:
  assumes "ix_IndexEntry s a = Some (True, u)" and "ix_RecordEntry s a = Some (r, u)" and "u = sequence e" and "sequence e' = u + 50"
  shows "\<exists>s'. bi_refresh e a s = Ok s' \<and> bi_is_indexed e' a s' = Ok True \<and> bi_get_record e' a s' = Err ArchivedEntry"
  using assms by (simp add: bi_refresh_def bi_is_indexed_def bi_get_record_def ttl_extend_def ttl_get_def unwrap_or_def INDEX_TTL_THRESHOLD_def INDEX_TTL_EXTEND_TO_def)

section \<open>missing\_ttl\<close>

record ttl_token =
  tt_Balance :: "(address, int) ttl_map"

definition mtt_get_balance :: "env \<Rightarrow> ttl_token \<Rightarrow> address \<Rightarrow> (int \<Rightarrow> 'b result) \<Rightarrow> 'b result" where
  "mtt_get_balance e s account k = ttl_get e (tt_Balance s) account (\<lambda>x. k (unwrap_or x 0))"

definition mtt_set_balance :: "env \<Rightarrow> address \<Rightarrow> int \<Rightarrow> ttl_token \<Rightarrow> ttl_token result" where
  "mtt_set_balance e account amount s = and_then (ttl_set e account amount (tt_Balance s)) (\<lambda>m. Ok (s\<lparr>tt_Balance := m\<rparr>))"

definition mtt_mint :: "env \<Rightarrow> address \<Rightarrow> int \<Rightarrow> ttl_token \<Rightarrow> ttl_token result" where
  "mtt_mint e to amount s =
     mtt_get_balance e s to (\<lambda>current.
     expect (checked_add I128 current amount) ''mint: balance overflow'' (\<lambda>new_balance. mtt_set_balance e to new_balance s))"

definition mtt_balance :: "env \<Rightarrow> address \<Rightarrow> ttl_token \<Rightarrow> int result" where
  "mtt_balance e account s = mtt_get_balance e s account Ok"

definition mtt_transfer :: "env \<Rightarrow> address \<Rightarrow> address \<Rightarrow> int \<Rightarrow> ttl_token \<Rightarrow> ttl_token result" where
  "mtt_transfer e from to amount s =
     require_auth e from (
     ttl_get e (tt_Balance s) from (\<lambda>x. let from_balance = unwrap_or x 0 in
     ttl_get e (tt_Balance s) to (\<lambda>y. let to_balance = unwrap_or y 0 in
     expect (checked_sub I128 from_balance amount) ''transfer: insufficient balance'' (\<lambda>new_from.
     expect (checked_add I128 to_balance amount) ''transfer: recipient balance overflow'' (\<lambda>new_to.
     and_then (ttl_set e from new_from (tt_Balance s)) (\<lambda>m.
     let s1 = s\<lparr>tt_Balance := m\<rparr> in
     and_then (ttl_set e to new_to (tt_Balance s1)) (\<lambda>m2. Ok (s1\<lparr>tt_Balance := m2\<rparr>))))))))"

text \<open>The network's maximal lifetime is a parameter; the repaired half renews an entry whenever it touches it.\<close>

definition extend_balance_ttl :: "int \<Rightarrow> env \<Rightarrow> address \<Rightarrow> ttl_token \<Rightarrow> ttl_token result" where
  "extend_balance_ttl max_ttl e key s =
     (let threshold = max 0 (max_ttl - 1) in
      and_then (ttl_extend e key threshold max_ttl (tt_Balance s)) (\<lambda>m. Ok (s\<lparr>tt_Balance := m\<rparr>)))"

definition mtts_get_balance :: "int \<Rightarrow> env \<Rightarrow> address \<Rightarrow> ttl_token \<Rightarrow> (int \<times> ttl_token) result" where
  "mtts_get_balance max_ttl e account s =
     ttl_get e (tt_Balance s) account (\<lambda>balance.
     case balance of
       Some b \<Rightarrow> and_then (extend_balance_ttl max_ttl e account s) (\<lambda>s1. Ok (b, s1))
     | None \<Rightarrow> Ok (0, s))"

definition mtts_set_balance :: "int \<Rightarrow> env \<Rightarrow> address \<Rightarrow> int \<Rightarrow> ttl_token \<Rightarrow> ttl_token result" where
  "mtts_set_balance max_ttl e account amount s =
     and_then (ttl_set e account amount (tt_Balance s)) (\<lambda>m.
     extend_balance_ttl max_ttl e account (s\<lparr>tt_Balance := m\<rparr>))"

definition mtts_mint :: "int \<Rightarrow> env \<Rightarrow> address \<Rightarrow> int \<Rightarrow> ttl_token \<Rightarrow> ttl_token result" where
  "mtts_mint max_ttl e to amount s =
     and_then (mtts_get_balance max_ttl e to s) (\<lambda>(current, s1).
     expect (checked_add I128 current amount) ''mint: balance overflow'' (\<lambda>new_balance.
     mtts_set_balance max_ttl e to new_balance s1))"

definition mtts_balance :: "int \<Rightarrow> env \<Rightarrow> address \<Rightarrow> ttl_token \<Rightarrow> (int \<times> ttl_token) result" where
  "mtts_balance max_ttl e account s = mtts_get_balance max_ttl e account s"

definition mtts_transfer :: "int \<Rightarrow> env \<Rightarrow> address \<Rightarrow> address \<Rightarrow> int \<Rightarrow> ttl_token \<Rightarrow> ttl_token result" where
  "mtts_transfer max_ttl e from to amount s =
     require_auth e from (
     and_then (mtts_get_balance max_ttl e from s) (\<lambda>(from_balance, s1).
     and_then (mtts_get_balance max_ttl e to s1) (\<lambda>(to_balance, s2).
     expect (checked_sub I128 from_balance amount) ''transfer: insufficient balance'' (\<lambda>new_from.
     expect (checked_add I128 to_balance amount) ''transfer: recipient balance overflow'' (\<lambda>new_to.
     and_then (mtts_set_balance max_ttl e from new_from s2) (\<lambda>s3.
     mtts_set_balance max_ttl e to new_to s3))))))"

definition stored :: "ttl_token \<Rightarrow> address \<Rightarrow> int" where
  "stored s a = unwrap_or (ttl_value (tt_Balance s) a) 0"

definition lives_until :: "ttl_token \<Rightarrow> address \<Rightarrow> int \<Rightarrow> bool" where
  "lives_until s a q \<longleftrightarrow> (\<exists>v u. tt_Balance s a = Some (v, u) \<and> q \<le> u)"

lemma set_balance_Ok:
  assumes "mtts_set_balance M e a v s = Ok s'" and "0 < M"
  shows "stored s' b = (if b = a then v else stored s b) \<and> lives_until s' a (sequence e + M - 1) \<and> (b \<noteq> a \<longrightarrow> tt_Balance s' b = tt_Balance s b)"
proof -
  obtain m where m: "ttl_set e a v (tt_Balance s) = Ok m" "extend_balance_ttl M e a (s\<lparr>tt_Balance := m\<rparr>) = Ok s'"
    using assms(1) by (auto simp: mtts_set_balance_def result_simps)
  from m(1) obtain u where u: "m = (tt_Balance s)(a \<mapsto> (v, u))"
    by (auto simp: ttl_set_def split: option.splits if_splits)
  with m(2) assms(2) obtain u' where "s' = s\<lparr>tt_Balance := (tt_Balance s)(a \<mapsto> (v, u'))\<rparr>" "sequence e + M - 1 \<le> u'"
    by (auto simp: extend_balance_ttl_def ttl_extend_def result_simps Let_def split: if_splits)
  then show ?thesis by (simp add: stored_def ttl_value_def unwrap_or_def lives_until_def)
qed

lemma get_balance_Ok:
  assumes "mtts_get_balance M e a s = Ok (v, s')"
  shows "v = stored s a \<and> stored s' b = stored s b \<and> (b \<noteq> a \<longrightarrow> tt_Balance s' b = tt_Balance s b)"
  using assms by (auto simp: mtts_get_balance_def extend_balance_ttl_def ttl_extend_def stored_def ttl_value_def unwrap_or_def
      result_simps Let_def split: option.splits if_splits)

lemma live_readable:
  assumes "lives_until s a q" and "sequence e \<le> q"
  shows "\<exists>s'. mtts_balance M e a s = Ok (stored s a, s')"
  using assms by (auto simp: lives_until_def mtts_balance_def mtts_get_balance_def ttl_get_def extend_balance_ttl_def ttl_extend_def stored_def ttl_value_def unwrap_or_def)

text \<open>
  Renewed lifetimes (\<^verbatim>\<open>missing_ttl/src/secure.rs\<close>), with a positive maximal lifetime \<^verbatim>\<open>M\<close>: a transfer between two accounts moves exactly the amount between the stored balances, and both
  balances can be read at any of the following \<^verbatim>\<open>M - 1\<close> ledgers.
\<close>

theorem transfer_renews_balances:
  assumes "mtts_transfer M e a b n s = Ok s'" and "a \<noteq> b" and "0 < M" and "sequence e' \<le> sequence e + M - 1"
  shows "stored s' a = stored s a - n \<and> stored s' b = stored s b + n \<and> (c \<noteq> a \<longrightarrow> c \<noteq> b \<longrightarrow> stored s' c = stored s c)
    \<and> (\<exists>t. mtts_balance M e' a s' = Ok (stored s' a, t)) \<and> (\<exists>t. mtts_balance M e' b s' = Ok (stored s' b, t))"
proof -
  obtain x s1 y s2 s3 where g: "mtts_get_balance M e a s = Ok (x, s1)" "mtts_get_balance M e b s1 = Ok (y, s2)"
    and w: "mtts_set_balance M e a (x - n) s2 = Ok s3" "mtts_set_balance M e b (y + n) s3 = Ok s'"
    using assms(1) by (auto simp: mtts_transfer_def result_simps int_simps)
  note r1 = get_balance_Ok [OF g(1)] and r2 = get_balance_Ok [OF g(2)]
  note w1 = set_balance_Ok [OF w(1) assms(3)] and w2 = set_balance_Ok [OF w(2) assms(3)]
  have st: "stored s' d = (if d = b then y + n else if d = a then x - n else stored s d)" for d
    using r1 [of d] r2 [of d] w1 [of d] w2 [of d] assms(2) by auto
  have "lives_until s' a (sequence e + M - 1)" using w1 [of a] w2 [of a] assms(2) by (auto simp: lives_until_def)
  moreover have "lives_until s' b (sequence e + M - 1)" using w2 by blast
  ultimately have "\<exists>t. mtts_balance M e' a s' = Ok (stored s' a, t)" "\<exists>t. mtts_balance M e' b s' = Ok (stored s' b, t)"
    using live_readable assms(4) by blast+
  moreover have "x = stored s a" "y = stored s b" using r1 [of a] r1 [of b] r2 [of b] by auto
  ultimately show ?thesis using assms(2) by (simp add: st)
qed

definition ttl_demo :: ttl_token where
  "ttl_demo = \<lparr>tt_Balance = [Address 1 \<mapsto> (90, 50)]\<rparr>"

theorem transfer_renews_balances_witness:
  "\<exists>s' t. mtts_transfer 1000 (signed_env [Address 1] 40) (Address 1) (Address 2) 30 ttl_demo = Ok s'
     \<and> mtts_balance 1000 (signed_env [] 900) (Address 1) s' = Ok (60, t)"
proof -
  let ?s = "\<lparr>tt_Balance = [Address 1 \<mapsto> (60, 1040), Address 2 \<mapsto> (30, 40 + 4095)]\<rparr>"
  have "mtts_transfer 1000 (signed_env [Address 1] 40) (Address 1) (Address 2) 30 ttl_demo = Ok ?s"
    by (simp add: mtts_transfer_def mtts_get_balance_def mtts_set_balance_def extend_balance_ttl_def ttl_get_def ttl_set_def ttl_extend_def ttl_demo_def signed_env_def
        checked_ops in_range_def fun_upd_twist)
  with transfer_renews_balances [OF this, of "signed_env [] 900"] show ?thesis
    by (auto simp: signed_env_def stored_def ttl_value_def unwrap_or_def)
qed

text \<open>Without renewal the lifetime is that of the first write, however often the balance is used.\<close>

lemma use_does_not_renew:
  assumes "tt_Balance s a = Some (v, u)" and "mtt_mint e a n s = Ok s'"
  shows "\<exists>v'. tt_Balance s' a = Some (v', u) \<and> (u < sequence e' \<longrightarrow> mtt_balance e' a s' = Err ArchivedEntry)"
  using assms by (auto simp: mtt_mint_def mtt_get_balance_def mtt_set_balance_def mtt_balance_def ttl_set_def ttl_get_def result_simps split: if_splits)

section \<open>zero\_ttl\<close>

definition MIN_TTL :: int where "MIN_TTL = 100"

text \<open>The instance with its one lifetime. A call to a contract whose instance is archived does not run.\<close>

record instance_store =
  it_until :: int
  it_Admin :: "address option"
  it_Value :: "int option"

definition instance_live :: "env \<Rightarrow> instance_store \<Rightarrow> 'a result \<Rightarrow> 'a result" where
  "instance_live e s k = (if sequence e \<le> it_until s then k else Err ArchivedEntry)"

definition instance_extend :: "env \<Rightarrow> int \<Rightarrow> int \<Rightarrow> instance_store \<Rightarrow> instance_store" where
  "instance_extend e threshold extend_to s =
     (if it_until s - sequence e < threshold then s\<lparr>it_until := sequence e + extend_to\<rparr> else s)"

definition zt_initialize :: "env \<Rightarrow> address \<Rightarrow> instance_store \<Rightarrow> instance_store result" where
  "zt_initialize e admin s = instance_live e s (Ok (s\<lparr>it_Admin := Some admin, it_Value := Some 0\<rparr>))"

definition zt_set_ttl :: "env \<Rightarrow> int \<Rightarrow> instance_store \<Rightarrow> instance_store result" where
  "zt_set_ttl e ttl s =
     instance_live e s (
     expect (it_Admin s) ''not initialized'' (\<lambda>admin. require_auth e admin (Ok (instance_extend e ttl ttl s))))"

definition zt_get_value :: "env \<Rightarrow> instance_store \<Rightarrow> int result" where
  "zt_get_value e s = instance_live e s (Ok (unwrap_or (it_Value s) 0))"

definition zts_initialize :: "env \<Rightarrow> address \<Rightarrow> instance_store \<Rightarrow> instance_store result" where
  "zts_initialize e admin s = instance_live e s (Ok (s\<lparr>it_Admin := Some admin, it_Value := Some 0\<rparr>))"

definition zts_set_ttl :: "env \<Rightarrow> int \<Rightarrow> instance_store \<Rightarrow> instance_store result" where
  "zts_set_ttl e ttl s =
     instance_live e s (
     expect (it_Admin s) ''not initialized'' (\<lambda>admin. require_auth e admin (
     panic_if (ttl = 0) ''TTL cannot be zero'' (
     let safe_ttl = max ttl MIN_TTL in
     Ok (instance_extend e safe_ttl safe_ttl s)))))"

definition zts_get_value :: "env \<Rightarrow> instance_store \<Rightarrow> int result" where
  "zts_get_value e s = instance_live e s (Ok (unwrap_or (it_Value s) 0))"

datatype ttl_call = ZInitialize address | ZSetTtl int

fun zt_exec :: "env \<Rightarrow> ttl_call \<Rightarrow> instance_store \<Rightarrow> instance_store result" where
  "zt_exec e (ZInitialize a) s = zt_initialize e a s"
| "zt_exec e (ZSetTtl n) s = zt_set_ttl e n s"

fun zts_exec :: "env \<Rightarrow> ttl_call \<Rightarrow> instance_store \<Rightarrow> instance_store result" where
  "zts_exec e (ZInitialize a) s = zts_initialize e a s"
| "zts_exec e (ZSetTtl n) s = zts_set_ttl e n s"

interpretation zt_grows: contract_progress zt_exec "\<lambda>s t. it_until s \<le> it_until t"
proof
  fix e c s s'
  assume "zt_exec e c s = Ok s'"
  then show "it_until s \<le> it_until s'"
    by (cases c) (auto simp: zt_initialize_def zt_set_ttl_def instance_live_def instance_extend_def result_simps split: if_splits)
qed auto

interpretation zts_grows: contract_progress zts_exec "\<lambda>s t. it_until s \<le> it_until t"
proof
  fix e c s s'
  assume "zts_exec e c s = Ok s'"
  then show "it_until s \<le> it_until s'"
    by (cases c) (auto simp: zts_initialize_def zts_set_ttl_def instance_live_def instance_extend_def result_simps Let_def split: if_splits)
qed auto

text \<open>
  Lifetimes of the instance (\<^verbatim>\<open>zero_ttl\<close>): no run of either half shortens it, since \<^verbatim>\<open>extend_ttl\<close> only extends; a lifetime of zero changes nothing. In the repaired half at least
  a hundred ledgers remain after every successful change.
\<close>

theorem lifetimes_never_shrink:
  "it_until s \<le> it_until (run_calls zt_exec xs s) \<and> it_until s \<le> it_until (run_calls zts_exec xs s)
   \<and> (zt_set_ttl e 0 s = Ok s' \<longrightarrow> s' = s)
   \<and> (zts_set_ttl e n s = Ok s' \<longrightarrow> sequence e + MIN_TTL \<le> it_until s')"
proof (intro conjI impI)
  show "it_until s \<le> it_until (run_calls zt_exec xs s)" by (rule zt_grows.run_le)
  show "it_until s \<le> it_until (run_calls zts_exec xs s)" by (rule zts_grows.run_le)
  show "zt_set_ttl e 0 s = Ok s' \<Longrightarrow> s' = s"
    by (auto simp: zt_set_ttl_def instance_live_def instance_extend_def result_simps split: if_splits)
  show "zts_set_ttl e n s = Ok s' \<Longrightarrow> sequence e + MIN_TTL \<le> it_until s'"
    by (auto simp: zts_set_ttl_def instance_live_def instance_extend_def result_simps Let_def split: if_splits)
qed

theorem lifetimes_never_shrink_witness:
  "zt_set_ttl (signed_env [Address 1] 5) 0 \<lparr>it_until = 20, it_Admin = Some (Address 1), it_Value = Some 7\<rparr> = Ok \<lparr>it_until = 20, it_Admin = Some (Address 1), it_Value = Some 7\<rparr>"
proof -
  let ?s = "\<lparr>it_until = 20, it_Admin = Some (Address 1), it_Value = Some 7\<rparr>"
  obtain s' where ok: "zt_set_ttl (signed_env [Address 1] 5) 0 ?s = Ok s'"
    by (simp add: zt_set_ttl_def instance_live_def signed_env_def)
  with lifetimes_never_shrink [of ?s "[]" "signed_env [Address 1] 5" s'] show ?thesis by simp
qed

section \<open>temp\_config\_storage\<close>

text \<open>Temporary entries: an expired one is absent; the lifetime \<^verbatim>\<open>new_ttl\<close> of a new one is the network's.\<close>

definition temp_get :: "env \<Rightarrow> ('k, 'v) ttl_map \<Rightarrow> 'k \<Rightarrow> 'v option" where
  "temp_get e m k = (case m k of None \<Rightarrow> None | Some (v, until) \<Rightarrow> if sequence e \<le> until then Some v else None)"

definition temp_set :: "int \<Rightarrow> env \<Rightarrow> 'k \<Rightarrow> 'v \<Rightarrow> ('k, 'v) ttl_map \<Rightarrow> ('k, 'v) ttl_map" where
  "temp_set new_ttl e k v m =
     (case m k of
        Some (_, until) \<Rightarrow> if sequence e \<le> until then m(k \<mapsto> (v, until)) else m(k \<mapsto> (v, sequence e + new_ttl - 1))
      | None \<Rightarrow> m(k \<mapsto> (v, sequence e + new_ttl - 1)))"

definition temp_extend :: "env \<Rightarrow> 'k \<Rightarrow> int \<Rightarrow> int \<Rightarrow> ('k, 'v) ttl_map \<Rightarrow> ('k, 'v) ttl_map result" where
  "temp_extend e k threshold extend_to m =
     (case m k of
        None \<Rightarrow> Err MissingEntry
      | Some (v, until) \<Rightarrow>
          if \<not> sequence e \<le> until then Err MissingEntry
          else if until - sequence e < threshold then Ok (m(k \<mapsto> (v, sequence e + extend_to)))
          else Ok m)"

definition TEMP_TTL :: int where "TEMP_TTL = 100"

record fee_contract =
  fk_TempAdmin :: "(unit, address) ttl_map"
  fk_TempFeeRate :: "(unit, int) ttl_map"
  fk_Admin :: "(unit, address) ttl_map"
  fk_FeeRate :: "(unit, int) ttl_map"

definition initialize_vulnerable :: "int \<Rightarrow> env \<Rightarrow> address \<Rightarrow> int \<Rightarrow> fee_contract \<Rightarrow> fee_contract result" where
  "initialize_vulnerable new_ttl e admin fee_rate s =
     panic_if (temp_get e (fk_TempAdmin s) () \<noteq> None) ''already initialized'' (
     and_then (temp_extend e () TEMP_TTL TEMP_TTL (temp_set new_ttl e () admin (fk_TempAdmin s))) (\<lambda>a.
     let s1 = s\<lparr>fk_TempAdmin := a\<rparr> in
     and_then (temp_extend e () TEMP_TTL TEMP_TTL (temp_set new_ttl e () fee_rate (fk_TempFeeRate s1))) (\<lambda>f.
     Ok (s1\<lparr>fk_TempFeeRate := f\<rparr>))))"

definition get_admin_vulnerable :: "env \<Rightarrow> fee_contract \<Rightarrow> address option" where
  "get_admin_vulnerable e s = temp_get e (fk_TempAdmin s) ()"

definition get_fee_rate_vulnerable :: "env \<Rightarrow> fee_contract \<Rightarrow> int option" where
  "get_fee_rate_vulnerable e s = temp_get e (fk_TempFeeRate s) ()"

definition tcs_initialize :: "env \<Rightarrow> address \<Rightarrow> int \<Rightarrow> fee_contract \<Rightarrow> fee_contract result" where
  "tcs_initialize e admin fee_rate s =
     ttl_get e (fk_Admin s) () (\<lambda>x.
     panic_if (x \<noteq> None) ''already initialized'' (
     and_then (ttl_set e () admin (fk_Admin s)) (\<lambda>a.
     let s1 = s\<lparr>fk_Admin := a\<rparr> in
     and_then (ttl_set e () fee_rate (fk_FeeRate s1)) (\<lambda>f. Ok (s1\<lparr>fk_FeeRate := f\<rparr>)))))"

definition tcs_get_admin :: "env \<Rightarrow> fee_contract \<Rightarrow> address option result" where
  "tcs_get_admin e s = ttl_get e (fk_Admin s) () Ok"

definition tcs_get_fee_rate :: "env \<Rightarrow> fee_contract \<Rightarrow> int option result" where
  "tcs_get_fee_rate e s = ttl_get e (fk_FeeRate s) () Ok"

datatype fee_call = FInitVulnerable address int | FInit address int

fun tcs_exec :: "int \<Rightarrow> env \<Rightarrow> fee_call \<Rightarrow> fee_contract \<Rightarrow> fee_contract result" where
  "tcs_exec k e (FInitVulnerable a r) s = initialize_vulnerable k e a r s"
| "tcs_exec k e (FInit a r) s = tcs_initialize e a r s"

interpretation persistent_config: contract_invariant "tcs_exec k" "\<lambda>s. fk_Admin s () = Some x \<and> fk_FeeRate s () = y" for k x y
proof
  fix s e c s'
  assume "fk_Admin s () = Some x \<and> fk_FeeRate s () = y" "tcs_exec k e c s = Ok s'"
  then show "fk_Admin s' () = Some x \<and> fk_FeeRate s' () = y"
    by (cases c; cases x) (auto simp: initialize_vulnerable_def tcs_initialize_def ttl_get_def result_simps Let_def split: if_splits)
qed

text \<open>
  Configuration (\<^verbatim>\<open>temp_config_storage\<close>): once set in persistent storage, admin and rate are never replaced: at any ledger after any run they are read as they were set, or, both their lifetimes
  being over, not at all. In temporary storage they are gone after their lifetime and anybody sets them anew.
\<close>

theorem persistent_config_never_replaced:
  assumes "tcs_initialize e a r s = Ok s1" and "fk_FeeRate s = Map.empty"
  shows "tcs_get_admin e' (run_calls (tcs_exec k) xs s1) \<in> {Ok (Some a), Err ArchivedEntry}
    \<and> tcs_get_fee_rate e' (run_calls (tcs_exec k) xs s1) \<in> {Ok (Some r), Err ArchivedEntry}
    \<and> (sequence e' < sequence e + min_ttl e \<longrightarrow> tcs_get_admin e' (run_calls (tcs_exec k) xs s1) = Ok (Some a) \<and> tcs_get_fee_rate e' (run_calls (tcs_exec k) xs s1) = Ok (Some r))"
proof -
  let ?u = "sequence e + min_ttl e - 1"
  have "fk_Admin s1 () = Some (a, ?u) \<and> fk_FeeRate s1 () = Some (r, ?u)"
    using assms by (auto simp: tcs_initialize_def ttl_get_def ttl_set_def result_simps Let_def split: option.splits if_splits)
  then have "fk_Admin (run_calls (tcs_exec k) xs s1) () = Some (a, ?u) \<and> fk_FeeRate (run_calls (tcs_exec k) xs s1) () = Some (r, ?u)"
    by (rule persistent_config.run_inv)
  then show ?thesis by (auto simp: tcs_get_admin_def tcs_get_fee_rate_def ttl_get_def)
qed

theorem persistent_config_never_replaced_witness:
  "\<exists>s1. tcs_initialize (signed_env [] 1) (Address 1) 30 \<lparr>fk_TempAdmin = Map.empty, fk_TempFeeRate = Map.empty, fk_Admin = Map.empty, fk_FeeRate = Map.empty\<rparr> = Ok s1
     \<and> tcs_get_admin (signed_env [] 4000) (run_calls (tcs_exec 16) [(signed_env [] 9, FInit (Address 2) 99)] s1) = Ok (Some (Address 1))"
proof -
  let ?s = "\<lparr>fk_TempAdmin = Map.empty, fk_TempFeeRate = Map.empty, fk_Admin = Map.empty, fk_FeeRate = Map.empty\<rparr>"
  obtain s1 where ok: "tcs_initialize (signed_env [] 1) (Address 1) 30 ?s = Ok s1"
    by (simp add: tcs_initialize_def ttl_get_def ttl_set_def)
  from persistent_config_never_replaced [OF ok, of "signed_env [] 4000" 16 "[(signed_env [] 9, FInit (Address 2) 99)]"] ok show ?thesis
    by (simp add: signed_env_def)
qed

lemma temporary_admin_replaced:
  assumes "fk_TempAdmin s () = Some (a, u)" and "u < sequence e" and "fk_TempFeeRate s () = None" and "0 < k"
  shows "get_admin_vulnerable e s = None \<and> (\<exists>s'. initialize_vulnerable k e b r s = Ok s' \<and> get_admin_vulnerable e s' = Some b)"
  using assms by (auto simp: initialize_vulnerable_def get_admin_vulnerable_def temp_get_def temp_set_def temp_extend_def TEMP_TTL_def result_simps Let_def)

section \<open>instance\_admin\_storage\<close>

text \<open>
  What an upgrade does to instance storage is the host's business; it is a parameter, a function on the instance. Persistent entries are not part of the instance.
\<close>

record admin_instance =
  ai_Admin :: "address option"
  ai_value :: "int option"

record admin_contract =
  ad_instance :: admin_instance
  ad_Admin :: "address option" \<comment> \<open>persistent\<close>
  ad_wasm :: "nat list option"

definition ia_initialize :: "env \<Rightarrow> address \<Rightarrow> admin_contract \<Rightarrow> admin_contract result" where
  "ia_initialize e admin s = Ok (s\<lparr>ad_instance := (ad_instance s)\<lparr>ai_Admin := Some admin\<rparr>\<rparr>)"

definition ia_get_admin :: "admin_contract \<Rightarrow> address result" where
  "ia_get_admin s = expect (ai_Admin (ad_instance s)) ''not initialized'' Ok"

definition ia_set_value :: "env \<Rightarrow> int \<Rightarrow> admin_contract \<Rightarrow> admin_contract result" where
  "ia_set_value e v s =
     expect (ai_Admin (ad_instance s)) ''not initialized'' (\<lambda>admin.
     require_auth e admin (Ok (s\<lparr>ad_instance := (ad_instance s)\<lparr>ai_value := Some v\<rparr>\<rparr>)))"

definition ia_get_value :: "admin_contract \<Rightarrow> int" where
  "ia_get_value s = unwrap_or (ai_value (ad_instance s)) 0"

definition ia_upgrade :: "(admin_instance \<Rightarrow> admin_instance) \<Rightarrow> env \<Rightarrow> nat list \<Rightarrow> admin_contract \<Rightarrow> admin_contract result" where
  "ia_upgrade on_upgrade e new_wasm_hash s = Ok (s\<lparr>ad_wasm := Some new_wasm_hash, ad_instance := on_upgrade (ad_instance s)\<rparr>)"

definition ias_initialize :: "env \<Rightarrow> address \<Rightarrow> admin_contract \<Rightarrow> admin_contract result" where
  "ias_initialize e admin s = Ok (s\<lparr>ad_Admin := Some admin\<rparr>)"

definition ias_get_admin :: "admin_contract \<Rightarrow> address result" where
  "ias_get_admin s = expect (ad_Admin s) ''not initialized'' Ok"

definition ias_upgrade :: "(admin_instance \<Rightarrow> admin_instance) \<Rightarrow> env \<Rightarrow> nat list \<Rightarrow> admin_contract \<Rightarrow> admin_contract result" where
  "ias_upgrade on_upgrade e new_wasm_hash s = Ok (s\<lparr>ad_wasm := Some new_wasm_hash, ad_instance := on_upgrade (ad_instance s)\<rparr>)"

definition upgrade_exec :: "(admin_instance \<Rightarrow> admin_instance) \<Rightarrow> env \<Rightarrow> nat list \<Rightarrow> admin_contract \<Rightarrow> admin_contract result" where
  "upgrade_exec f e h = ias_upgrade f e h"

text \<open>
  The admin across upgrades (\<^verbatim>\<open>instance_admin_storage\<close>): in persistent storage it survives every sequence of upgrades whatever the host does to the instance; in the instance it survives an
  upgrade exactly if the host keeps it. In both halves anybody upgrades and initialises again.
\<close>

theorem admin_survives_upgrades:
  "ias_get_admin (run_calls (upgrade_exec f) xs s) = ias_get_admin s
   \<and> (\<exists>s'. ia_upgrade f e h s = Ok s' \<and> (ia_get_admin s' = ia_get_admin s \<longleftrightarrow> ai_Admin (f (ad_instance s)) = ai_Admin (ad_instance s)))"
proof
  show "ias_get_admin (run_calls (upgrade_exec f) xs s) = ias_get_admin s"
    by (induction xs arbitrary: s) (auto simp: upgrade_exec_def ias_upgrade_def ias_get_admin_def)
  show "\<exists>s'. ia_upgrade f e h s = Ok s' \<and> (ia_get_admin s' = ia_get_admin s \<longleftrightarrow> ai_Admin (f (ad_instance s)) = ai_Admin (ad_instance s))"
    by (auto simp: ia_upgrade_def ia_get_admin_def expect_def split: option.splits)
qed

lemma anyone_reinitialises_admin: "\<exists>s'. ias_initialize e a s = Ok s' \<and> ias_get_admin s' = Ok a"
  by (simp add: ias_initialize_def ias_get_admin_def)

end
