(* ===== verification/Compositions.thy ===== *)
theory Compositions
  imports Wrapped_Assets Merkle_Airdrop
begin

text \<open>
  Contracts together. The wrapper of \<^verbatim>\<open>unwrap_without_burn/src/secure.rs\<close> is deployed at an address \<open>v\<close> next to instances of the reference
  token (\<^verbatim>\<open>src/secure/secure_token/src/lib.rs\<close>), one of which it wraps; users call the wrapper and the tokens in any order. What the two
  theories show of each contract is put together here: the joint system uses the token only through its entry points, the wrapped
  supply is covered by tokens that exist, every holder can redeem at any moment, and wrapping leaves what an account holds unchanged. The Merkle airdrop and the
  token it pays with follow.
\<close>

section \<open>The joint system\<close>

text \<open>
  The environment of a call that the contract at \<open>v\<close> makes: the signatures of the transaction, and \<open>v\<close> itself, for which the
  invoker's authority stands.
\<close>

definition invoked_by :: "address \<Rightarrow> env \<Rightarrow> env" where
  "invoked_by v e = e\<lparr>authorized := (\<lambda>a. a = v \<or> authorized e a)\<rparr>"

lemma invoked_by_simps [simp]:
  "authorized (invoked_by v e) a \<longleftrightarrow> a = v \<or> authorized e a" "current_contract (invoked_by v e) = current_contract e"
  by (simp_all add: invoked_by_def)

type_synonym joint = "wrapper \<times> (address \<Rightarrow> secure_token)"

datatype joint_call = JWrapper wrap_call | JToken address token_call

fun joint_exec :: "address \<Rightarrow> env \<Rightarrow> joint_call \<Rightarrow> joint \<Rightarrow> joint result" where
  "joint_exec v e (JWrapper c) x = uws_exec (own_tokens (invoked_by v e)) v e c x"
| "joint_exec v e (JToken t c) x = and_then (token_exec e c (snd x t)) (\<lambda>s. Ok (fst x, (snd x)(t := s)))"

definition joint_empty :: joint where
  "joint_empty = (\<lparr>wr_UnderlyingToken = None, wr_WrapperBalance = Map.empty, wr_TotalSupply = None, wr_CustodyBalance = None\<rparr>, \<lambda>t. token_empty)"

text \<open>No transaction carries a signature of the contract itself: it has no key.\<close>

definition keyless :: "address \<Rightarrow> (env \<times> 'c) list \<Rightarrow> bool" where
  "keyless v xs \<longleftrightarrow> (\<forall>(e, c)\<in>set xs. \<not> authorized e v)"

section \<open>One step\<close>

text \<open>
  Every call of the joint system is at most one call of the token's interface at each token, with the caller's signatures and those of
  the invoker.
\<close>

lemma own_transfer_Ok:
  "tk_transfer (own_tokens e) t a b n w = Ok w' \<longleftrightarrow> (\<exists>s. token_transfer e a b n (w t) = Ok s \<and> w' = w(t := s))"
  by (auto simp: own_tokens_def result_simps)

lemma wrapper_call_effect:
  assumes "uws_exec (own_tokens i) v e c (s, w) = Ok (s', w')"
  shows "(\<exists>t. c = UInit t \<and> w' = w) \<or>
     (\<exists>t a b n u. token_transfer i a b n (w t) = Ok u \<and> w' = w(t := u) \<and> wr_UnderlyingToken s = Some t
        \<and> (c = UWrap a n \<and> b = v \<or> c = UUnwrap b n \<and> a = v))"
  using assms by (cases c) (auto simp: uws_defs own_transfer_Ok result_simps)

lemma joint_uses_interface:
  assumes "joint_exec v e c x = Ok x'"
  shows "snd x' t = snd x t \<or> (\<exists>i k. token_exec i k (snd x t) = Ok (snd x' t) \<and> (\<forall>a. authorized i a \<longrightarrow> a = v \<or> authorized e a))"
proof (cases c)
  case (JWrapper k)
  obtain s w s' w' where x: "x = (s, w)" "x' = (s', w')" by fastforce
  with JWrapper assms have "uws_exec (own_tokens (invoked_by v e)) v e k (s, w) = Ok (s', w')" by simp
  from wrapper_call_effect [OF this] consider "w' = w"
    | r a b n u where "token_transfer (invoked_by v e) a b n (w r) = Ok u" "w' = w(r := u)" by blast
  then show ?thesis
  proof cases
    case 2
    have "snd x' t = snd x t" if "t \<noteq> r" using 2 x that by simp
    moreover have "token_exec (invoked_by v e) (TTransfer a b n) (snd x t) = Ok (snd x' t)" if "t = r" using 2 x that by simp
    moreover have "\<forall>a. authorized (invoked_by v e) a \<longrightarrow> a = v \<or> authorized e a" by simp
    ultimately show ?thesis by blast
  qed (use x in simp)
next
  case (JToken r k)
  with assms obtain u where u: "token_exec e k (snd x r) = Ok u" "x' = (fst x, (snd x)(r := u))" by (auto simp: result_simps)
  then show ?thesis by (cases "t = r") (simp, metis, simp)
qed

definition joint_inv :: "address \<Rightarrow> joint \<Rightarrow> bool" where
  "joint_inv v x \<longleftrightarrow> wrapper_ok x \<and> (\<forall>t. token_inv (snd x t))
     \<and> (\<forall>t. wr_UnderlyingToken (fst x) = Some t \<longrightarrow> uws_total_supply (fst x) \<le> token_balance (snd x t) v)"

lemma wrapper_ok_fst: "wrapper_ok (s, w) \<longleftrightarrow> wrapper_ok (s, u)"
  by (simp add: wrapper_ok_def)

lemma joint_inv_empty: "joint_inv v joint_empty"
  by (simp add: joint_inv_def joint_empty_def wrapper_ok_def uws_views token_inv_empty)

lemma joint_tokens_inv:
  assumes "joint_exec v e c x = Ok x'" and "\<forall>t. token_inv (snd x t)"
  shows "token_inv (snd x' t)"
  using joint_uses_interface [OF assms(1), of t] assms(2) token_exec_inv by metis

interpretation joint_backed: restricted_invariant "joint_exec v" "joint_inv v" "\<lambda>e c. \<not> authorized e v"
  for v
proof (unfold_locales, goal_cases)
  case (1 x e c x')
  obtain s w s' w' where x: "x = (s, w)" "x' = (s', w')" by fastforce
  have tok: "\<forall>t. token_inv (w' t)" using joint_tokens_inv [OF 1(3)] 1(1) x by (simp add: joint_inv_def)
  have ok: "wrapper_ok (s, w)" and cov: "\<And>t. wr_UnderlyingToken s = Some t \<Longrightarrow> uws_total_supply s \<le> token_balance (w t) v"
    using 1(1) x by (auto simp: joint_inv_def)
  show ?case
  proof (cases c)
    case (JWrapper k)
    with 1(3) x have k: "uws_exec (own_tokens (invoked_by v e)) v e k (s, w) = Ok (s', w')" by simp
    from wrapper_backed.exec_inv [OF ok k] have ok': "wrapper_ok (s', w')" .
    have "uws_total_supply s' \<le> token_balance (w' t) v" if t: "wr_UnderlyingToken s' = Some t" for t
    proof (cases "wr_UnderlyingToken s")
      case None
      with k ok' tok show ?thesis
        by (cases k) (auto simp: uws_defs uws_views result_simps token_inv_def)
    next
      case (Some r)
      then have "wraps r (s, w)" by (simp add: wraps_def)
      from own_tokens.wrapper_step [OF this k] 1(2) t
      have "r = t" "surplus (own_tokens (invoked_by v e)) v t (s', w') = surplus (own_tokens (invoked_by v e)) v t (s, w) + wrapped_by_itself v e k (s, w)"
        by (auto simp: wraps_def)
      moreover have "wrapped_by_itself v e k (s, w) = 0"
        using k 1(2) by (cases k) (auto simp: uws_defs result_simps)
      ultimately show ?thesis
        using cov [OF Some] ok ok' by (simp add: surplus_def own_tokens_def wrapper_ok_def)
    qed
    with ok' tok x show ?thesis by (simp add: joint_inv_def)
  next
    case (JToken r k)
    with 1(3) x obtain u where u: "token_exec e k (w r) = Ok u" "w' = w(r := u)" "s' = s" by (auto simp: result_simps)
    have "token_balance (w r) v \<le> token_balance u v"
      using token_spending.exec_guard [OF u(1), of v] 1(2) by (auto simp: spends_def)
    with ok tok cov u x show ?thesis
      by (fastforce simp: joint_inv_def wrapper_ok_fst [of s w w'])
  qed
qed

section \<open>What users can rely on\<close>

lemma joint_run_inv:
  assumes "keyless v xs"
  shows "joint_inv v (run_calls (joint_exec v) xs joint_empty)"
  using assms by (intro joint_backed.run_inv joint_inv_empty) (auto simp: keyless_def)

text \<open>Two accounts of a token hold together at most the supply, so sums of holdings never overflow.\<close>

lemma token_pair_bound:
  assumes "token_inv s" and "a \<noteq> b"
  shows "token_balance s a + token_balance s b \<le> token_total_supply s" and "token_total_supply s < 2 ^ 127"
  using get0_pair_le_total [of "tok_Balance s" b a] assms by (auto simp: token_inv_def token_balance_get0 in_range_def)

lemma wrapper_holding_bound:
  assumes "wrapper_ok (s, w)"
  shows "0 \<le> uws_balance s a \<and> uws_balance s a \<le> uws_total_supply s \<and> uws_custody_balance s = uws_total_supply s"
  using assms get0_le_total_bal [of "wr_WrapperBalance s" a] by (auto simp: wrapper_ok_def uws_views)

lemma unwrap_succeeds:
  assumes inv: "joint_inv v (s, w)" and "wr_UnderlyingToken s = Some t" and "authorized e a" and "a \<noteq> v" and "0 < n" and "n \<le> uws_balance s a"
  shows "\<exists>s' w'. joint_exec v e (JWrapper (UUnwrap a n)) (s, w) = Ok (s', w') \<and> uws_balance s' a = uws_balance s a - n
     \<and> token_balance (w' t) a = token_balance (w t) a + n"
proof -
  have ok: "wrapper_ok (s, w)" and tok: "token_inv (w t)" and cov: "uws_total_supply s \<le> token_balance (w t) v"
    using inv assms(2) by (auto simp: joint_inv_def)
  note h = wrapper_holding_bound [OF ok, of a] and p = token_pair_bound [OF tok, of v a]
  have nn: "0 \<le> token_balance (w t) a" using tok by (simp add: token_inv_def)
  have "token_transfer (invoked_by v e) v a n (w t) = Ok (publish [''transfer''] [VAddr v, VAddr a, VInt n] (token_store.move v a n (w t)))"
    using assms(3-6) h p cov nn by (auto simp: token_transfer_Ok in_range_def)
  moreover have "in_range I128 (uws_balance s a - n)" "in_range I128 (uws_total_supply s - n)" "in_range I128 (uws_custody_balance s - n)"
    using assms(4-6) h p cov nn by (auto simp: in_range_def)
  ultimately show ?thesis
    using assms(2-6) h by (simp add: uws_defs uws_views checked_sub_def own_tokens_def token_store.bal_set in_range_def)
qed

lemma wrap_succeeds:
  assumes inv: "joint_inv v (s, w)" and "wr_UnderlyingToken s = Some t" and "authorized e a" and "a \<noteq> v" and "0 < n" and "n \<le> token_balance (w t) a"
  shows "\<exists>s' w'. joint_exec v e (JWrapper (UWrap a n)) (s, w) = Ok (s', w') \<and> wr_UnderlyingToken s' = Some t
     \<and> (\<forall>b. uws_balance s' b = uws_balance s b + (if b = a then n else 0))
     \<and> (\<forall>b. token_balance (w' t) b = token_balance (w t) b - (if b = a then n else 0) + (if b = v then n else 0))"
proof -
  have ok: "wrapper_ok (s, w)" and tok: "token_inv (w t)" and cov: "uws_total_supply s \<le> token_balance (w t) v"
    using inv assms(2) by (auto simp: joint_inv_def)
  note h = wrapper_holding_bound [OF ok, of a] and p = token_pair_bound [OF tok, of v a]
  have nn: "0 \<le> token_balance (w t) v" using tok by (simp add: token_inv_def)
  have "token_transfer (invoked_by v e) a v n (w t) = Ok (publish [''transfer''] [VAddr a, VAddr v, VInt n] (token_store.move a v n (w t)))"
    using assms(3-6) h p cov nn by (auto simp: token_transfer_Ok in_range_def)
  moreover have "in_range I128 (uws_balance s a + n)" "in_range I128 (uws_total_supply s + n)" "in_range I128 (uws_custody_balance s + n)"
    using assms(4-6) h p cov nn by (auto simp: in_range_def)
  ultimately show ?thesis
    using assms(2-6) h by (auto simp: uws_defs uws_views checked_add_def own_tokens_def token_store.bal_set in_range_def)
qed

text \<open>
  C12: Wrapper and token together, users calling both in any order: the wrapped supply is at any moment covered by tokens that the wrapper holds, and these
  exist in the token's supply; and every holder who signs redeems any part of his wrapped balance at once, in full.
\<close>

theorem wrapped_tokens_redeemable:
  assumes "keyless v xs" and "run_calls (joint_exec v) xs joint_empty = (s, w)" and "wr_UnderlyingToken s = Some t"
  shows "uws_total_supply s \<le> token_balance (w t) v \<and> token_balance (w t) v \<le> token_total_supply (w t)
    \<and> (authorized e a \<and> a \<noteq> v \<and> 0 < n \<and> n \<le> uws_balance s a \<longrightarrow>
        (\<exists>s' w'. joint_exec v e (JWrapper (UUnwrap a n)) (s, w) = Ok (s', w') \<and> uws_balance s' a = uws_balance s a - n
          \<and> token_balance (w' t) a = token_balance (w t) a + n))"
proof -
  have inv: "joint_inv v (s, w)" using joint_run_inv [OF assms(1)] assms(2) by simp
  then have "token_inv (w t)" by (simp add: joint_inv_def)
  then have "token_balance (w t) v \<le> token_total_supply (w t)"
    using get0_le_total_bal [of "tok_Balance (w t)" v] by (auto simp: token_inv_def token_balance_get0)
  with inv unwrap_succeeds [OF inv assms(3)] assms(3) show ?thesis by (auto simp: joint_inv_def)
qed

text \<open>
  C13: Wrapping and unwrapping the same amount is the identity on the balances: in every reachable state of wrapper and token, a user who signs and holds the amount
  wraps it, unwraps it right after, and then every account has the wrapped and the underlying balance it had before.
\<close>

theorem wrap_unwrap_roundtrip:
  assumes "keyless v xs" and "run_calls (joint_exec v) xs joint_empty = (s, w)" and "wr_UnderlyingToken s = Some t"
    and "authorized e a" and "authorized e' a" and "a \<noteq> v" and "\<not> authorized e v" and "0 < n" and "n \<le> token_balance (w t) a"
  shows "\<exists>s1 w1 s2 w2. joint_exec v e (JWrapper (UWrap a n)) (s, w) = Ok (s1, w1)
    \<and> joint_exec v e' (JWrapper (UUnwrap a n)) (s1, w1) = Ok (s2, w2)
    \<and> uws_balance s2 = uws_balance s \<and> token_balance (w2 t) = token_balance (w t)"
proof -
  have inv: "joint_inv v (s, w)" using joint_run_inv [OF assms(1)] assms(2) by simp
  from wrap_succeeds [OF this assms(3,4,6,8,9)] obtain s1 w1 where w1: "joint_exec v e (JWrapper (UWrap a n)) (s, w) = Ok (s1, w1)"
    "wr_UnderlyingToken s1 = Some t" "\<forall>b. uws_balance s1 b = uws_balance s b + (if b = a then n else 0)"
    "\<forall>b. token_balance (w1 t) b = token_balance (w t) b - (if b = a then n else 0) + (if b = v then n else 0)" by blast
  from joint_backed.exec_inv [OF inv assms(7) w1(1)] have inv1: "joint_inv v (s1, w1)" .
  have "n \<le> uws_balance s1 a" using w1(3) wrapper_holding_bound [of s w a] inv by (simp add: joint_inv_def)
  from unwrap_succeeds [OF inv1 w1(2) assms(5,6,8) this] obtain s2 w2 where
    w2: "joint_exec v e' (JWrapper (UUnwrap a n)) (s1, w1) = Ok (s2, w2)" by blast
  then have "uws_balance s2 b = uws_balance s1 b - (if b = a then n else 0)"
    "token_balance (w2 t) b = token_balance (w1 t) b - (if b = v then n else 0) + (if b = a then n else 0)" for b
    using w1(2) assms(6) by (auto simp: uws_defs uws_views own_transfer_Ok token_transfer_Ok result_simps int_simps token_store.bal_set)
  with w1(3,4) assms(6) have "uws_balance s2 = uws_balance s" "token_balance (w2 t) = token_balance (w t)" by (auto simp: fun_eq_iff)
  with w1(1) w2 show ?thesis by blast
qed

section \<open>Holdings\<close>

text \<open>
  What a direct call of a token brings an account, where what it takes counts only if the account signed; what a wrapper call brings it in wrapped
  tokens, if it signed; and what the account holds of a token, wrapped or not, when \<open>t\<close> is the one that is wrapped.
\<close>

fun token_gain :: "address \<Rightarrow> env \<Rightarrow> token_call \<Rightarrow> int" where
  "token_gain a e (TInitialize b) = 0"
| "token_gain a e (TMint b n) = (if b = a then n else 0)"
| "token_gain a e (TBurn b n) = (if b = a \<and> authorized e a then - n else 0)"
| "token_gain a e (TTransfer b c n) = (if c = a then n else 0) - (if b = a \<and> authorized e a then n else 0)"

fun direct_gain :: "address \<Rightarrow> address \<Rightarrow> env \<Rightarrow> joint_call \<Rightarrow> joint \<Rightarrow> int" where
  "direct_gain r a e (JToken r' c) x = (if r' = r then token_gain a e c else 0)"
| "direct_gain r a e (JWrapper c) x = 0"

fun signed_wraps :: "address \<Rightarrow> env \<Rightarrow> joint_call \<Rightarrow> joint \<Rightarrow> int" where
  "signed_wraps a e (JWrapper (UWrap b n)) x = (if b = a \<and> authorized e a then n else 0)"
| "signed_wraps a e (JWrapper (UUnwrap b n)) x = (if b = a \<and> authorized e a then - n else 0)"
| "signed_wraps a e c x = 0"

definition holding :: "address \<Rightarrow> address \<Rightarrow> address \<Rightarrow> joint \<Rightarrow> int" where
  "holding t r a x = token_balance (snd x r) a + (if r = t then uws_balance (fst x) a else 0)"

lemma token_step_gain: "token_exec e c s = Ok s' \<Longrightarrow> token_balance s' a = token_balance s a + token_gain a e c"
  by (cases c) (auto simp: token_initialize_Ok token_mint_Ok token_burn_Ok token_transfer_Ok token_store.bal_set token_balance_get0)

lemma wrapper_step_gain:
  assumes "uws_exec (own_tokens (invoked_by v e)) v e c (s, w) = Ok (s', w')" and "wr_UnderlyingToken s = Some t"
  shows "wr_UnderlyingToken s' = Some t" and "uws_balance s' a = uws_balance s a + signed_wraps a e (JWrapper c) (s, w)"
    and "a \<noteq> v \<Longrightarrow> token_balance (w' r) a = token_balance (w r) a - (if r = t then signed_wraps a e (JWrapper c) (s, w) else 0)"
  using assms
  by (cases c; auto simp: uws_defs uws_views own_transfer_Ok token_transfer_Ok result_simps int_simps token_store.bal_set)+

interpretation wrapped_part: conserved_flow "joint_exec v" "wraps t" "\<lambda>x. uws_balance (fst x) a" "signed_wraps a"
  for v t a
proof (unfold_locales, goal_cases)
  case (1 x e c x')
  then show ?case
    using wrapper_step_gain(1) [of v e _ "fst x" "snd x" "fst x'" "snd x'" t] by (cases c) (auto simp: wraps_def result_simps)
next
  case (2 x e c x')
  then show ?case
    using wrapper_step_gain(2) [of v e _ "fst x" "snd x" "fst x'" "snd x'" t a] by (cases c) (auto simp: wraps_def result_simps)
qed

interpretation holdings: conserved_flow "joint_exec v" "\<lambda>x. wraps t x \<and> a \<noteq> v" "holding t r a" "direct_gain r a"
  for v t r a
proof (unfold_locales, goal_cases)
  case (1 x e c x')
  then show ?case using wrapped_part.exec_inv by blast
next
  case (2 x e c x')
  show ?case
  proof (cases c)
    case (JWrapper k)
    with 2 wrapper_step_gain(2,3) [of v e k "fst x" "snd x" "fst x'" "snd x'" t a] show ?thesis by (auto simp: wraps_def holding_def)
  next
    case (JToken r' k)
    with 2 obtain u where u: "token_exec e k (snd x r') = Ok u" "x' = (fst x, (snd x)(r' := u))" by (auto simp: result_simps)
    with JToken token_step_gain [OF u(1), of a] show ?thesis by (simp add: holding_def)
  qed
qed

text \<open>
  C14: Wrapping changes the form of what an account holds and nothing else. Take any run of wrapper and tokens after initialisation, and any account but the wrapper. Its wrapped balance
  changes exactly by the wraps and unwraps that it signed itself. What it holds of the underlying token, wrapped and not wrapped together,
  and what it holds of any other token, changes exactly by the direct calls of that token: by what is minted or sent to it, less the burns and transfers
  that it signed. So a wrapper call never makes such an account richer or poorer, and it loses nothing without its signature.
\<close>

theorem wrapping_keeps_holdings:
  assumes "wr_UnderlyingToken (fst x) = Some t" and "a \<noteq> v" and "run_calls (joint_exec v) xs x = y"
  shows "uws_balance (fst y) a = uws_balance (fst x) a + run_flow (joint_exec v) (signed_wraps a) xs x
    \<and> token_balance (snd y r) a + (if r = t then uws_balance (fst y) a else 0)
        = token_balance (snd x r) a + (if r = t then uws_balance (fst x) a else 0) + run_flow (joint_exec v) (direct_gain r a) xs x"
  using wrapped_part.run_conserves [where t = t and s = x and a = a and v = v and xs = xs]
    holdings.run_conserves [where t = t and s = x and a = a and v = v and r = r and xs = xs] assms
  by (simp add: wraps_def holding_def)

section \<open>A concrete joint run\<close>

definition joint_calls :: "(env \<times> joint_call) list" where
  "joint_calls =
     [(signed_env [Address 0] 1, JToken (Address 8) (TInitialize (Address 0))),
      (signed_env [Address 0] 2, JToken (Address 8) (TMint (Address 5) 100)),
      (signed_env [] 3, JWrapper (UInit (Address 8))),
      (signed_env [Address 5] 4, JWrapper (UWrap (Address 5) 40))]"

definition joint_wrapper :: wrapper where
  "joint_wrapper = \<lparr>wr_UnderlyingToken = Some (Address 8), wr_WrapperBalance = [Address 5 \<mapsto> 40], wr_TotalSupply = Some 40, wr_CustodyBalance = Some 40\<rparr>"

definition joint_token :: secure_token where
  "joint_token = \<lparr>events = [([''mint''], [VAddr (Address 5), VInt 100]), ([''transfer''], [VAddr (Address 5), VAddr (Address 99), VInt 40])],
     tok_Admin = Some (Address 0), tok_Balance = [Address 5 \<mapsto> 60, Address 99 \<mapsto> 40], tok_TotalSupply = Some 100\<rparr>"

lemma joint_demo: "run_calls (joint_exec (Address 99)) joint_calls joint_empty = (joint_wrapper, (\<lambda>t. token_empty)(Address 8 := joint_token))"
  by (simp add: joint_calls_def joint_empty_def joint_wrapper_def joint_token_def token_empty_def token_defs uws_defs own_tokens_def signed_env_def
      token_balance_def token_total_supply_def token_set_balance_def publish_def checked_ops in_range_def fun_upd_twist)

lemma joint_demo_keyless: "keyless (Address 99) joint_calls"
  by (simp add: keyless_def joint_calls_def signed_env_def)

lemma joint_demo_views:
  "wr_UnderlyingToken joint_wrapper = Some (Address 8)" "uws_balance joint_wrapper (Address 5) = 40" "uws_total_supply joint_wrapper = 40"
  "token_balance joint_token (Address 5) = 60" "token_balance joint_token (Address 99) = 40"
  by (simp_all add: joint_wrapper_def joint_token_def uws_views token_balance_def)

theorem wrapped_tokens_redeemable_witness:
  "\<exists>s' w'. joint_exec (Address 99) (signed_env [Address 5] 9) (JWrapper (UUnwrap (Address 5) 25))
       (joint_wrapper, (\<lambda>t. token_empty)(Address 8 := joint_token)) = Ok (s', w')
     \<and> uws_balance s' (Address 5) = 15 \<and> token_balance (w' (Address 8)) (Address 5) = 85"
  using wrapped_tokens_redeemable [OF joint_demo_keyless joint_demo joint_demo_views(1), of "signed_env [Address 5] 9" "Address 5" 25]
  by (simp add: joint_demo_views signed_env_def)

theorem wrap_unwrap_roundtrip_witness:
  "\<exists>s1 w1 s2 w2. joint_exec (Address 99) (signed_env [Address 5] 8) (JWrapper (UWrap (Address 5) 60))
       (joint_wrapper, (\<lambda>t. token_empty)(Address 8 := joint_token)) = Ok (s1, w1)
     \<and> joint_exec (Address 99) (signed_env [Address 5] 9) (JWrapper (UUnwrap (Address 5) 60)) (s1, w1) = Ok (s2, w2)
     \<and> uws_balance s2 (Address 5) = 40 \<and> token_balance (w2 (Address 8)) (Address 5) = 60"
proof -
  let ?w = "(\<lambda>t. token_empty)(Address 8 := joint_token)"
  obtain s1 w1 s2 w2 where "joint_exec (Address 99) (signed_env [Address 5] 8) (JWrapper (UWrap (Address 5) 60)) (joint_wrapper, ?w) = Ok (s1, w1)"
    "joint_exec (Address 99) (signed_env [Address 5] 9) (JWrapper (UUnwrap (Address 5) 60)) (s1, w1) = Ok (s2, w2)"
    "uws_balance s2 = uws_balance joint_wrapper" "token_balance (w2 (Address 8)) = token_balance (?w (Address 8))"
  proof (atomize_elim, rule wrap_unwrap_roundtrip [OF joint_demo_keyless joint_demo joint_demo_views(1)])
  qed (simp_all add: signed_env_def joint_demo_views)
  moreover from this have "uws_balance s2 (Address 5) = 40" "token_balance (w2 (Address 8)) (Address 5) = 60"
    by (simp_all add: joint_demo_views)
  ultimately show ?thesis by blast
qed

theorem wrapping_keeps_holdings_witness:
  "let y = run_calls (joint_exec (Address 99)) [(signed_env [Address 5] 4, JWrapper (UWrap (Address 5) 10)),
         (signed_env [Address 7] 5, JWrapper (UUnwrap (Address 5) 20)),
         (signed_env [Address 5] 6, JToken (Address 8) (TTransfer (Address 5) (Address 7) 15))]
       (joint_wrapper, (\<lambda>t. token_empty)(Address 8 := joint_token))
   in uws_balance (fst y) (Address 5) = 50 \<and> token_balance (snd y (Address 8)) (Address 5) + uws_balance (fst y) (Address 5) = 85"
proof -
  let ?xs = "[(signed_env [Address 5] 4, JWrapper (UWrap (Address 5) 10)), (signed_env [Address 7] 5, JWrapper (UUnwrap (Address 5) 20)),
      (signed_env [Address 5] 6, JToken (Address 8) (TTransfer (Address 5) (Address 7) 15))]"
  let ?x = "(joint_wrapper, (\<lambda>t. token_empty)(Address 8 := joint_token))"
  have "run_flow (joint_exec (Address 99)) (signed_wraps (Address 5)) ?xs ?x = 10"
    "run_flow (joint_exec (Address 99)) (direct_gain (Address 8) (Address 5)) ?xs ?x = - 15"
    by (simp_all add: joint_wrapper_def joint_token_def token_empty_def token_defs uws_defs own_tokens_def signed_env_def
      token_balance_def token_total_supply_def token_set_balance_def publish_def checked_ops in_range_def)
  with wrapping_keeps_holdings [of ?x "Address 8" "Address 5" "Address 99" ?xs _ "Address 8"] show ?thesis
    by (simp add: joint_demo_views Let_def)
qed

section \<open>The airdrop and its token\<close>

text \<open>
  The Merkle airdrop (\<^verbatim>\<open>src/secure/secure_airdrop/src/lib.rs\<close>) deployed at \<open>v\<close> and the reference token it pays with; claims, funding and direct calls
  of the token come in any order.
\<close>

datatype drop_call = DAirdrop merkle_call | DToken token_call

type_synonym drop = "merkle_airdrop \<times> secure_token"

fun drop_exec :: "secure_token externals \<Rightarrow> address \<Rightarrow> env \<Rightarrow> drop_call \<Rightarrow> drop \<Rightarrow> drop result" where
  "drop_exec x v e (DAirdrop c) y = merkle_exec x (e\<lparr>current_contract := v\<rparr>) c y"
| "drop_exec x v e (DToken c) y = and_then (token_exec e c (snd y)) (\<lambda>w. Ok (fst y, w))"

text \<open>What the airdrop still owes: the leaves whose address has not claimed.\<close>

definition open_leaves :: "merkle_airdrop \<Rightarrow> (address \<times> int) list \<Rightarrow> (address \<times> int) list" where
  "open_leaves s ls = filter (\<lambda>(a, n). \<not> is_claimed s a) ls"

definition owed :: "merkle_airdrop \<Rightarrow> (address \<times> int) list \<Rightarrow> int" where
  "owed s ls = sum_list (map snd (open_leaves s ls))"

text \<open>A list of recipients as an operator would publish it: no address twice, no negative amount, the airdrop itself not among them.\<close>

definition fair_leaves :: "address \<Rightarrow> (address \<times> int) list \<Rightarrow> bool" where
  "fair_leaves v ls \<longleftrightarrow> distinct (map fst ls) \<and> (\<forall>(a, n)\<in>set ls. 0 \<le> n \<and> in_range I128 n \<and> a \<noteq> v)"

text \<open>The calls considered: nobody signs for the airdrop, and a claim has its types and does not exhibit a hash collision with the tree.\<close>

fun plain_claim :: "secure_token externals \<Rightarrow> mtree \<Rightarrow> drop_call \<Rightarrow> bool" where
  "plain_claim x t (DAirdrop (MClaim a n p)) \<longleftrightarrow>
     in_range I128 n \<and> (\<forall>b\<in>set p. length b = 32) \<and> no_collision x (verify_inputs x a n p) (mtree_inputs x t)"
| "plain_claim x t c \<longleftrightarrow> True"

definition drop_inv :: "secure_token externals \<Rightarrow> address \<Rightarrow> mtree \<Rightarrow> drop \<Rightarrow> bool" where
  "drop_inv x v t y \<longleftrightarrow> mer_Admin (fst y) \<noteq> None \<and> mer_Token (fst y) \<noteq> None \<and> mer_MerkleRoot (fst y) = Some (mtree_root x t)
     \<and> token_inv (snd y) \<and> owed (fst y) (mtree_leaves t) \<le> token_balance (snd y) v"

lemma owed_frame: "is_claimed s' = is_claimed s \<Longrightarrow> owed s' ls = owed s ls"
  by (simp add: owed_def open_leaves_def)

lemma owed_publish [simp]: "owed (publish q d s) ls = owed s ls"
  by (rule owed_frame) (simp add: fun_eq_iff)

lemma owed_unaffected: "a \<notin> fst ` set ls \<Longrightarrow> owed (mark_claimed a s) ls = owed s ls"
  by (induction ls) (auto simp: owed_def open_leaves_def)

lemma owed_claimed:
  assumes "distinct (map fst ls)" and "(a, n) \<in> set ls" and "\<not> is_claimed s a"
  shows "owed (mark_claimed a s) ls = owed s ls - n"
  using assms
proof (induction ls)
  case (Cons l ls)
  obtain b m where l: "l = (b, m)" by fastforce
  show ?case
  proof (cases "b = a")
    case True
    with Cons.prems l have "n = m" "a \<notin> fst ` set ls" by force+
    with True Cons.prems(3) l owed_unaffected [of a ls s] show ?thesis by (simp add: owed_def open_leaves_def)
  next
    case False
    with Cons l show ?thesis by (auto simp: owed_def open_leaves_def)
  qed
qed simp

lemma owed_covers:
  assumes "fair_leaves v ls" and "(a, n) \<in> set ls" and "\<not> is_claimed s a"
  shows "n \<le> owed s ls"
proof -
  have "\<forall>m\<in>set (map snd (open_leaves s ls)). 0 \<le> m" using assms(1) by (auto simp: fair_leaves_def open_leaves_def)
  moreover have "n \<in> set (map snd (open_leaves s ls))" using assms(2,3) by (force simp: open_leaves_def)
  ultimately show ?thesis unfolding owed_def by (intro member_le_sum_list) auto
qed

text \<open>What is assumed about the parts that do not change: the token behind the airdrop is the reference token, hash and encoding are as documented, and the list is fair.\<close>

definition drop_setting :: "secure_token externals \<Rightarrow> address \<Rightarrow> mtree \<Rightarrow> bool" where
  "drop_setting x v t \<longleftrightarrow> ext_transfer x = (\<lambda>e t. token_transfer e) \<and> sane_externals x \<and> fair_leaves v (mtree_leaves t)"

lemma transfer_inv: "token_transfer e a b n w = Ok w' \<Longrightarrow> token_inv w \<Longrightarrow> token_inv w'"
  using token_exec_inv [of w e "TTransfer a b n" w'] by simp

lemma drop_claim_effect:
  assumes set: "drop_setting x v t" and "drop_inv x v t (s, w)" and "plain_claim x t (DAirdrop (MClaim a n p))"
    and "merkle_claim x (e\<lparr>current_contract := v\<rparr>) a n p (s, w) = Ok (s', w')"
  shows "drop_inv x v t (s', w')"
proof -
  have pays: "ext_transfer x = (\<lambda>e t. token_transfer e)" and sane: "sane_externals x" and fair: "fair_leaves v (mtree_leaves t)"
    using set by (auto simp: drop_setting_def)
  let ?e = "e\<lparr>current_contract := v\<rparr>"
  have "token_transfer (as_contract ?e) v a n w = Ok w'" using assms(4) pays by (auto simp: merkle_claim_Ok)
  then have tok: "token_inv w'" using assms(2) transfer_inv by (auto simp: drop_inv_def)
  have r: "\<forall>(c, m)\<in>set (mtree_leaves t). in_range I128 m" using fair by (auto simp: fair_leaves_def)
  have "merkle_fold x (leaf_hash x a n) p = mtree_root x t"
    using assms(2,4) by (auto simp: merkle_claim_Ok verify_merkle_proof_def drop_inv_def result_simps)
  from merkle_fold_sound [OF sane _ this _ r] assms(3) have leaf: "(a, n) \<in> set (mtree_leaves t)" by simp
  have ok: "\<not> is_claimed s a" "s' = publish [''claim''] [VAddr a, VInt n] (mark_claimed a s)" using assms(4) by (auto simp: merkle_claim_Ok)
  from owed_claimed [OF _ leaf ok(1)] fair have "owed s' (mtree_leaves t) = owed s (mtree_leaves t) - n"
    by (simp add: fair_leaves_def ok(2))
  moreover have "token_balance w' v = token_balance w v - n"
    using own_token.claim_pays [OF assms(4)] pays by auto
  ultimately show ?thesis
    using assms(2) tok by (auto simp: drop_inv_def ok(2) mark_claimed_def publish_def)
qed

lemma drop_fund_effect:
  assumes set: "drop_setting x v t" and "drop_inv x v t (s, w)" and "merkle_fund x (e\<lparr>current_contract := v\<rparr>) n (s, w) = Ok (s', w')"
  shows "drop_inv x v t (s', w')"
proof -
  have pays: "ext_transfer x = (\<lambda>e t. token_transfer e)" and sane: "sane_externals x" and fair: "fair_leaves v (mtree_leaves t)"
    using set by (auto simp: drop_setting_def)
  let ?e = "e\<lparr>current_contract := v\<rparr>"
  obtain a where a: "token_transfer (as_contract ?e) a v n w = Ok w'" "s' = publish [''fund''] [VAddr a, VInt n] s"
    using assms(3) pays by (auto simp: merkle_fund_def result_simps)
  then have "token_inv w'" using assms(2) transfer_inv by (auto simp: drop_inv_def)
  moreover have "token_balance w v \<le> token_balance w' v" using own_token.transfer_moves [OF a(1)] by auto
  ultimately show ?thesis using assms(2) a(2) by (auto simp: drop_inv_def publish_def owed_def open_leaves_def is_claimed_def)
qed

lemma drop_step:
  assumes set: "drop_setting x v t" and "drop_inv x v t y" and "\<not> authorized e v \<and> plain_claim x t c" and "drop_exec x v e c y = Ok y'"
  shows "drop_inv x v t y'"
proof -
  obtain s w s' w' where y: "y = (s, w)" "y' = (s', w')" by fastforce
  show ?thesis
  proof (cases c)
    case (DToken k)
    with assms(4) y have k: "token_exec e k w = Ok w'" "s' = s" by (auto simp: result_simps)
    have "token_balance w v \<le> token_balance w' v"
      using token_spending.exec_guard [OF k(1), of v] assms(3) by (auto simp: spends_def)
    with k assms(2) y token_exec_inv [OF _ k(1)] show ?thesis by (auto simp: drop_inv_def)
  next
    case (DAirdrop k)
    with assms y show ?thesis
    proof (cases k)
      case (MInitialize a r u)
      with DAirdrop assms(2,4) y show ?thesis by (auto simp: merkle_initialize_def result_simps drop_inv_def)
    next
      case (MFund n)
      with DAirdrop assms(2,4) y drop_fund_effect [OF set] show ?thesis by simp
    next
      case (MClaim a n p)
      then have "plain_claim x t (DAirdrop (MClaim a n p))" using DAirdrop assms(3) by simp
      moreover have "merkle_claim x (e\<lparr>current_contract := v\<rparr>) a n p (s, w) = Ok (s', w')" using MClaim DAirdrop assms(4) y by simp
      ultimately show ?thesis using drop_claim_effect [OF set] assms(2) y by blast
    qed
  qed
qed

lemma claim_succeeds:
  assumes set: "drop_setting x v t" and "drop_inv x v t (s, w)" and "((a, n), p) \<in> set (mtree_proofs x t)" and "\<not> is_claimed s a" and "authorized e a" and "0 < n"
  shows "\<exists>s' w'. drop_exec x v e (DAirdrop (MClaim a n p)) (s, w) = Ok (s', w') \<and> is_claimed s' a \<and> token_balance w' a = token_balance w a + n"
proof -
  have pays: "ext_transfer x = (\<lambda>e t. token_transfer e)" and fair: "fair_leaves v (mtree_leaves t)"
    using set by (auto simp: drop_setting_def)
  have leaf: "(a, n) \<in> set (mtree_leaves t)" using mtree_proofs_leaves [of x t] assms(3) by (metis fst_conv image_eqI list.set_map)
  with fair assms(6) have n: "0 < n" "a \<noteq> v" by (auto simp: fair_leaves_def)
  have tok: "token_inv w" and root: "mer_MerkleRoot s = Some (mtree_root x t)" and tk: "mer_Token s \<noteq> None"
    and cov: "owed s (mtree_leaves t) \<le> token_balance w v" using assms(2) by (auto simp: drop_inv_def)
  have nv: "n \<le> token_balance w v" using owed_covers [OF fair leaf assms(4)] cov by simp
  note b = token_pair_bound [OF tok, of v a]
  have nn: "0 \<le> token_balance w a" using tok by (simp add: token_inv_def)
  define w' where "w' = publish [''transfer''] [VAddr v, VAddr a, VInt n] (token_store.move v a n w)"
  have tr: "token_transfer (as_contract (e\<lparr>current_contract := v\<rparr>)) v a n w = Ok w'"
    using n b nn nv by (auto simp: token_transfer_Ok in_range_def as_contract_def w'_def)
  have "verify_merkle_proof x s a n p = Ok ()"
    using root by (simp add: verify_merkle_proof_def mtree_proofs_fold [OF assms(3)])
  with tr assms(4,5) tk pays
  have "merkle_claim x (e\<lparr>current_contract := v\<rparr>) a n p (s, w) = Ok (publish [''claim''] [VAddr a, VInt n] (mark_claimed a s), w')"
    by (auto simp: merkle_claim_Ok)
  moreover have "token_balance w' a = token_balance w a + n" using own_token.transfer_moves [OF tr] by simp
  ultimately show ?thesis by simp
qed

interpretation drop_covered: restricted_invariant "drop_exec x v" "\<lambda>y. drop_setting x v t \<and> drop_inv x v t y" "\<lambda>e c. \<not> authorized e v \<and> plain_claim x t c"
  for x v t
  by unfold_locales (auto intro: drop_step)

text \<open>
  C11: The Merkle airdrop at \<open>v\<close>, initialised with the root of a tree and paying with the reference token in a consistent state. Assumed: hash and address encoding are as documented; the recipients of the tree are distinct and not \<open>v\<close>, their
  amounts non-negative; the contract holds at the start what the unclaimed leaves add up to; nobody signs for \<open>v\<close>; and the claims of the run have their types and exhibit no hash collision with the
  tree. Then after any run of claims, funding and direct calls of the token it still holds what the unclaimed leaves add up to; every recipient with a positive
  amount who has not claimed and signs gets exactly that amount with the proof derived from the tree; and a leaf of amount 0 (as in
  the repository's test tree) can never be claimed, since the token refuses the transfer.
\<close>

theorem airdrop_pays_everyone:
  assumes "drop_setting x v t" and "drop_inv x v t y" and "\<forall>(e, c)\<in>set xs. \<not> authorized e v \<and> plain_claim x t c"
    and "run_calls (drop_exec x v) xs y = (s, w)"
  shows "owed s (mtree_leaves t) \<le> token_balance w v
    \<and> (((a, n), p) \<in> set (mtree_proofs x t) \<and> \<not> is_claimed s a \<and> authorized e a \<and> 0 < n \<longrightarrow>
        (\<exists>s' w'. drop_exec x v e (DAirdrop (MClaim a n p)) (s, w) = Ok (s', w') \<and> is_claimed s' a
          \<and> token_balance w' a = token_balance w a + n))
    \<and> drop_exec x v e (DAirdrop (MClaim a 0 q)) (s, w) \<noteq> Ok z"
proof -
  have inv: "drop_inv x v t (s, w)" using drop_covered.run_inv [of x v t y xs] assms by simp
  have "drop_exec x v e (DAirdrop (MClaim a 0 q)) (s, w) \<noteq> Ok z"
    using assms(1) by (cases z) (auto simp: drop_setting_def merkle_claim_Ok token_transfer_Ok)
  with inv claim_succeeds [OF assms(1) inv] show ?thesis by (simp add: drop_inv_def)
qed

lemma demo_setting: "drop_setting demo_ext (Address 99) demo_tree"
  using demo_ext_sane by (simp add: drop_setting_def fair_leaves_def demo_ext_def demo_tree_def in_range_def)

lemma demo_covered: "drop_inv demo_ext (Address 99) demo_tree (demo_airdrop, demo_pool)"
  by (simp add: drop_inv_def demo_airdrop_def demo_pool_def token_inv_def token_balance_def token_total_supply_def owed_def open_leaves_def
      is_claimed_def demo_tree_def sum_bal_def in_range_def)

lemma demo_plain: "plain_claim demo_ext demo_tree (DAirdrop (MClaim (Address 5) 70 demo_proof))"
  using demo_no_collision by (simp add: in_range_def demo_proof_def leaf_hash_def demo_ext_def)

theorem airdrop_pays_everyone_witness:
  "\<exists>s w s' w'. run_calls (drop_exec demo_ext (Address 99)) [(signed_env [Address 5] 9, DAirdrop (MClaim (Address 5) 70 demo_proof))]
       (demo_airdrop, demo_pool) = (s, w)
     \<and> drop_exec demo_ext (Address 99) (signed_env [Address 6] 10) (DAirdrop (MClaim (Address 6) 30 [leaf_hash demo_ext (Address 5) 70])) (s, w)
         = Ok (s', w')
     \<and> token_balance w' (Address 6) = 30"
proof -
  let ?xs = "[(signed_env [Address 5] 9, DAirdrop (MClaim (Address 5) 70 demo_proof))]"
  obtain s w where ok: "merkle_claim demo_ext (signed_env [Address 5] 9) (Address 5) 70 demo_proof (demo_airdrop, demo_pool) = Ok (s, w)"
    using demo_claim by blast
  have "(signed_env [Address 5] 9)\<lparr>current_contract := Address 99\<rparr> = signed_env [Address 5] 9" by (simp add: signed_env_def)
  with ok have run: "run_calls (drop_exec demo_ext (Address 99)) ?xs (demo_airdrop, demo_pool) = (s, w)" by simp
  have calls: "\<forall>(e, c)\<in>set ?xs. \<not> authorized e (Address 99) \<and> plain_claim demo_ext demo_tree c"
    using demo_plain by (simp add: signed_env_def)
  have "token_balance w (Address 6) = 0"
    using own_token.claim_pays [OF ok] by (simp add: demo_ext_def signed_env_def demo_pool_def token_balance_def)
  moreover have "\<not> is_claimed s (Address 6)" using ok by (auto simp: merkle_claim_Ok is_claimed_def mark_claimed_def publish_def demo_airdrop_def)
  ultimately show ?thesis
    using airdrop_pays_everyone [OF demo_setting demo_covered calls run, of "Address 6" 30 "[leaf_hash demo_ext (Address 5) 70]" "signed_env [Address 6] 10"] run
    by (force simp: demo_tree_def signed_env_def)
qed

end
