(* ===== verification/Spec2Isabelle.thy ===== *)
theory Spec2Isabelle
  imports
    Registry_Queries
    Merkle_Airdrop
    Token_Mirrors
    Protected_Admin
    Secure_Dao
    Secure_Multisig
    Secure_Lending
    Secure_Vesting
    Vesting_Variants
    Secure_Staking
    Protected_Oracle
    Secure_Pausable
    Locked_Vaults
    Batch_Airdrop
    Share_Vaults
    Bridges
    Auctions
    Price_Feeds
    Price_Consumers
    Call_Chains
    Flash_Loans
    Voting_Variants
    Timelocks
    Proposals
    Marketplaces
    Lending_Variants
    Debt_Variants
    Rewards
    Admin_Roles
    Allowances
    Custody
    Wrapped_Assets
    Airdrop_Variants
    Scanner_Trust
    Stake_Variants
    Fees
    Pools
    Numeric_Edges
    Delegated_Calls
    Ledger_Clocks
    Batch_Breakers
    Storage_Keys
    Public_Data
    Upgrades
    Lifetimes
    Compositions
begin

text \<open>
  \<^bold>\<open>A verification of the Soroban contracts of this repository.\<close>

  The repository holds a scan registry (\<^verbatim>\<open>src/registry\<close>), a set of contracts meant to be secure (\<^verbatim>\<open>src/secure/*\<close>) and a
  larger set of deliberately vulnerable ones (\<^verbatim>\<open>src/vulnerable/*\<close>, \<^verbatim>\<open>lib.rs\<close>), most with a repaired half beside them
  (\<^verbatim>\<open>secure.rs\<close>, or a second contract in the same file). Each contract is a small state machine over the host's key-value storage.
  This development models the registry, all secure contracts and every vulnerable crate, with its repaired half.

  \<^bold>\<open>How the code is modelled.\<close> A contract is a record with one field per storage key: an \<^verbatim>\<open>option\<close> for a single key, a
  map for a key with a parameter. An entry point is a function from the environment of the invocation, its
  arguments and the state to a result: the new state (paired with a return value where there is one) or an error. Errors
  are values: \<^verbatim>\<open>Panic\<close> with the message of the code, a failed \<^verbatim>\<open>require_auth\<close>, an arithmetic overflow, an \<^verbatim>\<open>unwrap\<close> on \<^verbatim>\<open>None\<close>, a
  missing or archived storage entry, a stored value of another type. A trap carries no state, because the host rolls a
  trapped invocation back. Integers are unbounded with the range of the Rust type checked at every operation; the release
  profile sets \<^verbatim>\<open>overflow-checks = true\<close>, so the plain operators trap on overflow as the checked ones return \<^verbatim>\<open>None\<close>. Only
  writing entry points appear in the call type of a contract; a run is a list of invocations with their
  environments, and \<^verbatim>\<open>run_calls\<close>, \<^verbatim>\<open>reach\<close> and \<^verbatim>\<open>reach_by\<close> (with the ledger clock) are the runs: a call that traps is
  skipped. Names keep those of the code, with a short prefix per contract, and an \<^verbatim>\<open>s\<close> at its end for the repaired half.

  \<^bold>\<open>Termination.\<close> All definitions are total functions, with two exceptions. The insertion sort of \<^verbatim>\<open>even_median_bias\<close> works on
  indices in \<^verbatim>\<open>while\<close> loops; it is a partial function in \<^verbatim>\<open>option\<close> (\<^verbatim>\<open>Price_Feeds\<close>) and a theorem says that it always returns. The contracts of
  \<^verbatim>\<open>Call_Chains\<close> call each other in a cycle; the call depth is their fuel, whose lack is the error that the host
  raises at its depth limit, and a theorem gives the depth from which on the result no longer depends on it.

  \<^bold>\<open>Shared theories.\<close>
  \<^item> \<^verbatim>\<open>Soroban_Prelude\<close>: addresses, environments, events, results, fixed-width integers, sums of balance maps, runs, and
    the locales that lift one-step facts to runs: \<^verbatim>\<open>contract_invariant\<close>, \<^verbatim>\<open>restricted_invariant\<close> and \<^verbatim>\<open>timed_invariant\<close>, \<^verbatim>\<open>guarded_steps\<close> and
    \<^verbatim>\<open>guarded_view\<close> (what changes only under a guard), \<^verbatim>\<open>written_view\<close> (where a value comes from), \<^verbatim>\<open>contract_progress\<close> (what only
    grows), \<^verbatim>\<open>hardened\<close> (a contract that adds a guard to another), \<^verbatim>\<open>isolated_part\<close> (what only some calls touch), \<^verbatim>\<open>replayed_view\<close> (what the
    calls alone determine), \<^verbatim>\<open>contract_refinement\<close> (the abstract contract accepts the same calls with the same signatures),
    \<^verbatim>\<open>single_use\<close> (keys that are consumed once), \<^verbatim>\<open>growing_flow\<close> and \<^verbatim>\<open>conserved_flow\<close> (what a run adds up to) and \<^verbatim>\<open>balance_store\<close>.
  \<^item> \<^verbatim>\<open>Soroban_Containers\<close>: the host's \<^verbatim>\<open>Vec\<close> and ordered \<^verbatim>\<open>Map\<close>. \<^verbatim>\<open>Soroban_Bytes\<close>: byte strings and big-endian encodings.
    \<^verbatim>\<open>Ttl_Storage\<close>: persistent storage with lifetimes (\<^verbatim>\<open>ttl_store\<close>). \<^verbatim>\<open>Token_Clients\<close>: the token interface that contracts call, as a parameter, and
    the tokens of the repository that implement it (\<^verbatim>\<open>sound_tokens\<close>).

  \<^bold>\<open>Components.\<close> Each theory names its crates in its first lines.
  \<^item> \<^verbatim>\<open>Registry\<close>, \<^verbatim>\<open>Registry_Queries\<close> (\<^verbatim>\<open>src/registry\<close>): the redundant storage stays consistent; results are
    not forged, scanners are the admin's, histories append-only; paging, the severity query, the refusals and the scores are exact. \<^verbatim>\<open>Scanner_Trust\<close>: the scanner and
    report crates; the registry refines the repaired small registry among them.
  \<^item> Tokens: \<^verbatim>\<open>Secure_Token\<close>, \<^verbatim>\<open>Secure_Vault\<close>, \<^verbatim>\<open>Token_Mirrors\<close>, \<^verbatim>\<open>Allowances\<close>, \<^verbatim>\<open>Public_Data\<close> (events, blacklist, levels), \<^verbatim>\<open>Batch_Breakers\<close> (batches, pause,
    breaker, lottery): conservation of supply, consent to debits, spending within grants, and what each repair amounts to.
  \<^item> Administration: \<^verbatim>\<open>Protected_Admin\<close>, \<^verbatim>\<open>Admin_Roles\<close>, \<^verbatim>\<open>Upgrades\<close>, \<^verbatim>\<open>Delegated_Calls\<close>: changes are traced back to the authorised calls that caused
    them; versions, nonces and approved code.
  \<^item> Governance: \<^verbatim>\<open>Secure_Dao\<close>, \<^verbatim>\<open>Secure_Multisig\<close>, \<^verbatim>\<open>Voting_Variants\<close>, \<^verbatim>\<open>Timelocks\<close>, \<^verbatim>\<open>Proposals\<close>: quorum, delays, one vote per voter.
  \<^item> Prices and markets: \<^verbatim>\<open>Protected_Oracle\<close>, \<^verbatim>\<open>Price_Feeds\<close>, \<^verbatim>\<open>Price_Consumers\<close>, \<^verbatim>\<open>Auctions\<close>, \<^verbatim>\<open>Marketplaces\<close>, \<^verbatim>\<open>Pools\<close>, \<^verbatim>\<open>Fees\<close>: delays, medians and averages,
    refunds, constant product, rounding of fees.
  \<^item> Lending and staking: \<^verbatim>\<open>Secure_Lending\<close>, \<^verbatim>\<open>Lending_Variants\<close>, \<^verbatim>\<open>Debt_Variants\<close>, \<^verbatim>\<open>Secure_Staking\<close>, \<^verbatim>\<open>Stake_Variants\<close>, \<^verbatim>\<open>Rewards\<close>, \<^verbatim>\<open>Share_Vaults\<close>: health,
    solvency, claims that telescope, rounding against the caller.
  \<^item> Time: \<^verbatim>\<open>Secure_Vesting\<close>, \<^verbatim>\<open>Vesting_Variants\<close>, \<^verbatim>\<open>Locked_Vaults\<close>, \<^verbatim>\<open>Ledger_Clocks\<close>, \<^verbatim>\<open>Lifetimes\<close>: payout bounds, locks, lifetimes of entries.
  \<^item> Custody: \<^verbatim>\<open>Secure_Pausable\<close>, \<^verbatim>\<open>Custody\<close>, \<^verbatim>\<open>Wrapped_Assets\<close>, \<^verbatim>\<open>Bridges\<close>, \<^verbatim>\<open>Batch_Airdrop\<close>, \<^verbatim>\<open>Merkle_Airdrop\<close>, \<^verbatim>\<open>Airdrop_Variants\<close>: backing, replay
    protection, Merkle proofs complete and sound up to a hash collision, paging equivalent to one pass.
  \<^item> Calls and storage: \<^verbatim>\<open>Call_Chains\<close>, \<^verbatim>\<open>Flash_Loans\<close>, \<^verbatim>\<open>Storage_Keys\<close>, \<^verbatim>\<open>Numeric_Edges\<close>: re-entry, repayment, one store under an enum of keys in which the parts behave as cells of their own, limits of the
    integer types.

  \<^item> \<^verbatim>\<open>Compositions\<close>: contracts deployed together and called in any order. The Merkle airdrop with the reference token pays every recipient of a positive amount; the wrapper on top of the
    reference token is backed and redeemable at any moment, and wrapping changes the form of what an account holds and nothing else.

  The locales of single groups are interpreted where their contracts are: \<^verbatim>\<open>handover\<close> and \<^verbatim>\<open>administered\<close> (administration), \<^verbatim>\<open>token_ledger\<close> (the
  airdrop on the repository's token), \<^verbatim>\<open>minted_supply\<close> and \<^verbatim>\<open>spending_limit\<close> (allowances), \<^verbatim>\<open>recorded_claims\<close>, \<^verbatim>\<open>queued_execution\<close>, \<^verbatim>\<open>paid_entries\<close>,
  \<^verbatim>\<open>clock_lock\<close>, \<^verbatim>\<open>recorded_calls\<close> and \<^verbatim>\<open>share_issue\<close>.

  \<^bold>\<open>Parameters.\<close> Code outside the repository is an argument: \<^verbatim>\<open>sha256\<close>, the XDR encoding of an address, the network id, the contract behind a
  token, borrower, receiver, oracle or plugin address, the lifetime that the host gives to a new entry and the longest it allows,
  what an upgrade does to instance storage, the all-zero address. What is relied on is stated as a hypothesis (\<^verbatim>\<open>sane_externals\<close>: 32-byte digests, an
  injective encoding whose length is never 48; \<^verbatim>\<open>no_collision\<close> on the finitely many inputs at hand), and a witness instantiates it.

  \<^bold>\<open>What the proofs found.\<close> Many repairs are incomplete; each gap is a lemma beside the guarantee. The most frequent: \<^verbatim>\<open>checked_sub\<close> on
  a signed type is taken for a balance check (below); a transfer reads both balances before writing either, so that a transfer to oneself adds
  the amount; an \<^verbatim>\<open>initialize\<close> that anyone can call again; a second deposit or stake that replaces the first; a negative amount that
  passes an upper bound; state or events written before a panic, which the host rolls back. Some documented attacks do not exist for the
  same reason.

  \<^bold>\<open>Not modelled.\<close> Fees and instruction limits of the host, archival except where a contract manages lifetimes, the tests, the TypeScript and
  web files. \<^verbatim>\<open>src/secure/protected_fee_withdraw/src/lib.rs\<close> is empty. A few files do not compile as they are (a name defined twice,
  a value used after it was moved, integers of different widths); the model takes the evident reading. Private storage
  helpers that a crate repeats word for word from another are represented once; so are the interface traits of called contracts, as the types of the parameters.
\<close>

section \<open>Debits without a balance check\<close>

text \<open>
  Across components: in \<^verbatim>\<open>secure_transfer\<close>, \<^verbatim>\<open>secure_burn\<close>, \<^verbatim>\<open>secure_pausable\<close> and \<^verbatim>\<open>secure_escrow\<close> the only
  check on a debit is that the difference stays in \<^verbatim>\<open>i128\<close>; \<^verbatim>\<open>checked_sub\<close> on a signed type does not
  notice an overdraft. An owner with an empty account can debit any positive amount.
\<close>

lemma signed_checked_sub_is_no_balance_check:
  assumes "0 < n" and "in_range I128 n" and "authorized e a" and "a \<noteq> b"
  shows "\<exists>s. tg_transfer e a b n \<lparr>events = [], tg_Balance = Map.empty\<rparr> = Ok s \<and> tg_balance s a = - n"
    and "\<exists>s. sb_burn e a n \<lparr>events = [], sb_Balance = Map.empty\<rparr> = Ok s \<and> sb_balance s a = - n"
    and "\<exists>s. pausable_transfer e a b n pausable_empty = Ok s \<and> pausable_balance s a = - n"
    and "\<exists>s. escrow_withdraw e a n \<lparr>events = [], esc_Escrow = Map.empty\<rparr> = Ok s \<and> escrow_balance s a = - n"
proof -
  have r: "in_range I128 (- n)" using assms(1,2) by (simp add: in_range_def)
  show "\<exists>s. tg_transfer e a b n \<lparr>events = [], tg_Balance = Map.empty\<rparr> = Ok s \<and> tg_balance s a = - n"
    using assms r by (simp add: tg_transfer_Ok tg_balance_def tg_store.bal_set tg_get_balance_def tg_set_balance_def)
  show "\<exists>s. sb_burn e a n \<lparr>events = [], sb_Balance = Map.empty\<rparr> = Ok s \<and> sb_balance s a = - n"
    using assms r by (simp add: sb_burn_def sb_balance_def sb_get_balance_def sb_set_balance_def
        publish_def checked_sub_def)
  show "\<exists>s. pausable_transfer e a b n pausable_empty = Ok s \<and> pausable_balance s a = - n"
    using pausable_transfer_overdraws [of e a b pausable_empty n] assms
    by (auto simp: pausable_empty_def pausable_is_paused_def pausable_balance_def)
  show "\<exists>s. escrow_withdraw e a n \<lparr>events = [], esc_Escrow = Map.empty\<rparr> = Ok s \<and> escrow_balance s a = - n"
    using assms r by (simp add: escrow_withdraw_def escrow_balance_def checked_sub_def)
qed

end
